(* ===== verification/JsBase.thy ===== *)
theory JsBase
  imports Complex_Main "HOL-Library.Char_ord" "HOL-Library.List_Lexorder"
begin

text \<open>
  Prelude: the part of the JavaScript runtime the back end relies on, and the generic lemmas the
  component theories share.

  \<^item> A JS number is modelled by an exact rational (\<^typ>\<open>rat\<close>) wherever the code has already
    made it finite; \<open>jsnum\<close> adds NaN and the infinities for values that come from \<open>Number(...)\<close>.
  \<^item> A value of type \<open>unknown\<close> (request bodies, jsonb columns) is a \<open>jsval\<close>.
  \<^item> A string is an Isabelle string: a list of code units below 256. Comparison is by code unit,
    as for JS strings.
\<close>

named_theorems js_eval "unfoldings of the runtime functions"
named_theorems js_bounds "range facts used by arith"

section \<open>Numbers\<close>

text \<open>\<open>Math.round\<close>: the nearest integer, ties towards plus infinity; \<open>Math.floor\<close>; \<open>Math.trunc\<close>.\<close>

definition js_round :: "rat \<Rightarrow> rat" where
  "js_round x = of_int \<lfloor>x + 1 / 2\<rfloor>"

definition js_floor :: "rat \<Rightarrow> rat" where
  "js_floor x = of_int \<lfloor>x\<rfloor>"

definition js_trunc :: "rat \<Rightarrow> rat" where
  "js_trunc x = (if 0 \<le> x then of_int \<lfloor>x\<rfloor> else of_int \<lceil>x\<rceil>)"

text \<open>\<open>Number.isInteger\<close> of a finite number.\<close>

definition js_is_integer :: "rat \<Rightarrow> bool" where
  "js_is_integer x \<longleftrightarrow> of_int \<lfloor>x\<rfloor> = x"

lemma js_round_of_int [simp]: "js_round (of_int n) = of_int n"
proof -
  have "\<lfloor>(of_int n :: rat) + 1 / 2\<rfloor> = n" by linarith
  then show ?thesis by (simp add: js_round_def)
qed

lemma js_round_zero [simp]: "js_round 0 = 0"
  using js_round_of_int [of 0] by simp

lemma js_round_mono: "x \<le> y \<Longrightarrow> js_round x \<le> js_round y"
  unfolding js_round_def by (simp add: floor_mono)

lemma js_round_nonneg: "0 \<le> x \<Longrightarrow> 0 \<le> js_round x"
  using js_round_mono [of 0 x] by simp

lemma js_round_is_int: "\<exists>n :: int. js_round x = of_int n"
  by (auto simp: js_round_def)

lemma js_round_idem [simp]: "js_round (js_round x) = js_round x"
  using js_round_is_int [of x] by auto

lemma js_round_bounds [js_bounds]: "x - 1 / 2 < js_round x" "js_round x \<le> x + 1 / 2"
  unfolding js_round_def by linarith+

lemma js_floor_bounds [js_bounds]: "x - 1 < js_floor x" "js_floor x \<le> x"
  unfolding js_floor_def by linarith+

lemma js_trunc_of_int [simp]: "js_trunc (of_int n) = of_int n"
  by (simp add: js_trunc_def)

lemma js_floor_of_int [simp]: "js_floor (of_int n) = of_int n"
  by (simp add: js_floor_def)

lemma js_round_add_int: "js_round (x + of_int n) = js_round x + of_int n"
proof -
  have "\<lfloor>x + of_int n + 1 / 2\<rfloor> = \<lfloor>x + 1 / 2\<rfloor> + n" by linarith
  then show ?thesis by (simp add: js_round_def)
qed

lemma js_is_integer_of_int [simp]: "js_is_integer (of_int n)"
  by (simp add: js_is_integer_def)

lemma js_is_integer_iff: "js_is_integer x \<longleftrightarrow> (\<exists>n. x = of_int n)"
  by (auto simp: js_is_integer_def)

lemma js_round_integer: "js_is_integer x \<Longrightarrow> js_round x = x"
  by (auto simp: js_is_integer_iff)

text \<open>
  Why exact rationals stand for IEEE doubles in the money formulas: the code rounds quotients of
  integers, and an inexact quotient that is within half a unit of the exact one's grid, and is
  exact at the ties, rounds to the same integer.
\<close>

lemma js_round_tolerance:
  fixes n d :: int and x :: rat
  assumes "0 < d" and near: "\<bar>x - of_int n / of_int d\<bar> < 1 / (2 * of_int d)"
    and tie: "odd (2 * n div d) \<and> d dvd 2 * n \<Longrightarrow> x = of_int n / of_int d"
  shows "js_round x = js_round (of_int n / of_int d)"
proof -
  define k where "k = \<lfloor>(of_int n / of_int d :: rat) + 1 / 2\<rfloor>"
  define r where "r = 2 * n + d - 2 * k * d"
  have d: "(0 :: rat) < of_int d" using assms(1) by simp
  have "of_int k \<le> (of_int n / of_int d :: rat) + 1 / 2" "(of_int n / of_int d :: rat) + 1 / 2 < of_int k + 1"
    unfolding k_def by linarith+
  then have "2 * of_int k * of_int d \<le> 2 * (of_int n :: rat) + of_int d"
    "2 * (of_int n :: rat) + of_int d < 2 * of_int k * of_int d + 2 * of_int d"
    using d by (auto simp: field_simps)
  then have r0: "(0 :: rat) \<le> of_int r" and r2: "(of_int r :: rat) < of_int (2 * d)"
    by (auto simp: r_def)
  then have r: "0 \<le> r" "r < 2 * d" by linarith+
  have q: "(of_int n / of_int d :: rat) = of_int k - 1 / 2 + of_int r / (2 * of_int d)"
    using d by (simp add: r_def field_simps)
  have "\<lfloor>x + 1 / 2\<rfloor> = k"
  proof (cases "r = 0")
    case True
    then have eq: "2 * n = d * (2 * k - 1)" by (simp add: r_def algebra_simps)
    then have "d dvd 2 * n" "2 * n div d = 2 * k - 1" using assms(1) by auto
    then have "x = of_int n / of_int d" using tie by simp
    then show ?thesis by (simp add: k_def)
  next
    case False
    then have "1 \<le> r" "r \<le> 2 * d - 1" using r by auto
    then have "(1 :: rat) \<le> of_int r" "(of_int r :: rat) \<le> 2 * of_int d - 1"
      by linarith+
    then have "1 / (2 * of_int d) \<le> of_int r / (2 * (of_int d :: rat))"
      "of_int r / (2 * of_int d) \<le> 1 - 1 / (2 * (of_int d :: rat))"
      using d by (auto simp: field_simps)
    with near q show ?thesis by (intro floor_unique) linarith+
  qed
  then show ?thesis by (simp add: js_round_def k_def)
qed

section \<open>Strings\<close>

definition is_digit :: "char \<Rightarrow> bool" where
  "is_digit c \<longleftrightarrow> CHR ''0'' \<le> c \<and> c \<le> CHR ''9''"

definition digit_val :: "char \<Rightarrow> nat" where
  "digit_val c = (of_char c :: nat) - 48"

definition digit_char :: "nat \<Rightarrow> char" where
  "digit_char n = char_of (48 + n)"

text \<open>The value of a run of decimal digits, most significant first.\<close>

definition digits_val :: "string \<Rightarrow> nat" where
  "digits_val = foldl (\<lambda>acc c. 10 * acc + digit_val c) 0"

text \<open>\<open>String(n)\<close> of a natural number.\<close>

fun nat_string :: "nat \<Rightarrow> string" where
  "nat_string n = (if n < 10 then [digit_char n] else nat_string (n div 10) @ [digit_char (n mod 10)])"

declare nat_string.simps [simp del]

text \<open>\<open>String(n).padStart(w, '0')\<close>.\<close>

definition pad_start :: "nat \<Rightarrow> string \<Rightarrow> string" where
  "pad_start w s = replicate (w - length s) (CHR ''0'') @ s"

lemma digit_char_val [simp]: "n < 10 \<Longrightarrow> digit_val (digit_char n) = n"
  by (simp add: digit_val_def digit_char_def)

lemma of_char_digit_char: "n < 10 \<Longrightarrow> (of_char (digit_char n) :: nat) = 48 + n"
  by (simp add: digit_char_def)

lemma is_digit_iff: "is_digit c \<longleftrightarrow> 48 \<le> (of_char c :: nat) \<and> (of_char c :: nat) \<le> 57"
  by (simp add: is_digit_def less_eq_char_def)

lemma is_digit_digit_char [simp]: "n < 10 \<Longrightarrow> is_digit (digit_char n)"
  by (simp add: is_digit_iff of_char_digit_char)

lemma digit_char_less [simp]: "m < 10 \<Longrightarrow> n < 10 \<Longrightarrow> digit_char m < digit_char n \<longleftrightarrow> m < n"
  by (simp add: less_char_def of_char_digit_char)

lemma digit_char_eq [simp]: "m < 10 \<Longrightarrow> n < 10 \<Longrightarrow> digit_char m = digit_char n \<longleftrightarrow> m = n"
  by (metis digit_char_val)

lemma digits_val_snoc [simp]: "digits_val (s @ [c]) = 10 * digits_val s + digit_val c"
  by (simp add: digits_val_def)

lemma digits_val_nil [simp]: "digits_val [] = 0"
  by (simp add: digits_val_def)

lemma digits_val_nat_string [simp]: "digits_val (nat_string n) = n"
proof (induction n rule: nat_string.induct)
  case (1 n)
  show ?case
  proof (cases "n < 10")
    case True
    then show ?thesis by (simp add: nat_string.simps [of n] digits_val_def)
  next
    case False
    with 1 show ?thesis by (simp add: nat_string.simps [of n])
  qed
qed

lemma nat_string_digits: "\<forall>c \<in> set (nat_string n). is_digit c"
proof (induction n rule: nat_string.induct)
  case (1 n)
  then show ?case by (subst nat_string.simps) auto
qed

lemma nat_string_not_nil [simp]: "nat_string n \<noteq> []"
  by (subst nat_string.simps) simp

text \<open>White space that \<open>trim\<close> and \<open>Number\<close> strip (the code units below 256).\<close>

definition js_space :: "char \<Rightarrow> bool" where
  "js_space c \<longleftrightarrow> (of_char c :: nat) \<in> {9, 10, 11, 12, 13, 32, 160}"

definition js_trim :: "string \<Rightarrow> string" where
  "js_trim s = rev (dropWhile js_space (rev (dropWhile js_space s)))"

lemma js_trim_id: "s \<noteq> [] \<Longrightarrow> \<not> js_space (hd s) \<Longrightarrow> \<not> js_space (last s) \<Longrightarrow> js_trim s = s"
  by (simp add: js_trim_def dropWhile_eq_self_iff [THEN iffD2] hd_rev)

lemma digit_not_space: "is_digit c \<Longrightarrow> \<not> js_space c"
  by (auto simp: is_digit_iff js_space_def)

definition starts_with :: "string \<Rightarrow> string \<Rightarrow> bool" where
  "starts_with p s \<longleftrightarrow> take (length p) s = p"

definition ends_with :: "string \<Rightarrow> string \<Rightarrow> bool" where
  "ends_with p s \<longleftrightarrow> length p \<le> length s \<and> drop (length s - length p) s = p"

section \<open>Values of type unknown\<close>

datatype jsnum = Fin rat | PInf | NInf | NaN

datatype jsval =
    JUndef
  | JNull
  | JBool bool
  | JNum jsnum
  | JStr string
  | JArr "jsval list"
  | JObj "(string \<times> jsval) list"

text \<open>\<open>Number(s)\<close> of a string: white space stripped, empty is 0, decimal literals with exponent,
  \<open>Infinity\<close>, and unsigned hexadecimal, octal and binary literals; anything else is NaN.\<close>

definition hex_val :: "char \<Rightarrow> nat option" where
  "hex_val c = (let n = (of_char c :: nat) in
     if 48 \<le> n \<and> n \<le> 57 then Some (n - 48)
     else if 97 \<le> n \<and> n \<le> 102 then Some (n - 87)
     else if 65 \<le> n \<and> n \<le> 70 then Some (n - 55) else None)"

fun radix_val :: "nat \<Rightarrow> nat \<Rightarrow> string \<Rightarrow> nat option" where
  "radix_val r acc [] = Some acc"
| "radix_val r acc (c # cs) =
     (case hex_val c of Some d \<Rightarrow> if d < r then radix_val r (r * acc + d) cs else None | None \<Rightarrow> None)"

definition parse_exponent :: "string \<Rightarrow> rat option" where
  "parse_exponent s = (case s of
     [] \<Rightarrow> Some 1
   | c # cs \<Rightarrow>
       if c = CHR ''e'' \<or> c = CHR ''E'' then
         (let (neg, ds) = (case cs of
              x # xs \<Rightarrow> if x = CHR ''-'' then (True, xs) else if x = CHR ''+'' then (False, xs) else (False, cs)
            | [] \<Rightarrow> (False, []))
          in if ds \<noteq> [] \<and> list_all is_digit ds
             then Some (if neg then 1 / 10 ^ digits_val ds else 10 ^ digits_val ds) else None)
       else None)"

definition parse_unsigned :: "string \<Rightarrow> jsnum" where
  "parse_unsigned s =
     (if s = ''Infinity'' then PInf
      else let ip = takeWhile is_digit s; r1 = dropWhile is_digit s;
               (fp, r2) = (case r1 of c # cs \<Rightarrow> if c = CHR ''.'' then (takeWhile is_digit cs, dropWhile is_digit cs)
                                               else ([], r1) | [] \<Rightarrow> ([], []))
           in if ip = [] \<and> fp = [] then NaN
              else case parse_exponent r2 of
                     None \<Rightarrow> NaN
                   | Some e \<Rightarrow> Fin ((of_nat (digits_val ip) + of_nat (digits_val fp) / 10 ^ length fp) * e))"

fun neg_num :: "jsnum \<Rightarrow> jsnum" where
  "neg_num (Fin x) = Fin (- x)"
| "neg_num PInf = NInf"
| "neg_num NInf = PInf"
| "neg_num NaN = NaN"

definition num_of_string :: "string \<Rightarrow> jsnum" where
  "num_of_string s0 = (let s = js_trim s0 in
     if s = [] then Fin 0
     else if hd s = CHR ''-'' then neg_num (parse_unsigned (tl s))
     else if hd s = CHR ''+'' then parse_unsigned (tl s)
     else case (if take 2 s \<in> {''0x'', ''0X''} then Some 16
                else if take 2 s \<in> {''0o'', ''0O''} then Some 8
                else if take 2 s \<in> {''0b'', ''0B''} then Some (2 :: nat) else None) of
            None \<Rightarrow> parse_unsigned s
          | Some r \<Rightarrow> if drop 2 s = [] then NaN
                      else case radix_val r 0 (drop 2 s) of None \<Rightarrow> NaN | Some n \<Rightarrow> Fin (of_nat n))"

text \<open>\<open>String(x)\<close>. A non-integer is printed as its decimal expansion (values here come from JSON,
  whose number literals terminate); twenty fractional digits are kept.\<close>

fun frac_digits :: "nat \<Rightarrow> rat \<Rightarrow> string" where
  "frac_digits 0 x = []"
| "frac_digits (Suc k) x =
     (if x = 0 then [] else digit_char (nat \<lfloor>10 * x\<rfloor>) # frac_digits k (10 * x - of_int \<lfloor>10 * x\<rfloor>))"

definition rat_string :: "rat \<Rightarrow> string" where
  "rat_string x = (let a = \<bar>x\<bar>; n = nat \<lfloor>a\<rfloor>; f = a - of_int \<lfloor>a\<rfloor> in
     (if x < 0 then ''-'' else []) @ nat_string n @ (if f = 0 then [] else ''.'' @ frac_digits 20 f))"

fun num_string :: "jsnum \<Rightarrow> string" where
  "num_string (Fin x) = rat_string x"
| "num_string PInf = ''Infinity''"
| "num_string NInf = ''-Infinity''"
| "num_string NaN = ''NaN''"

fun join_comma :: "string list \<Rightarrow> string" where
  "join_comma [] = []"
| "join_comma [s] = s"
| "join_comma (s # t # ss) = s @ '','' @ join_comma (t # ss)"

fun js_string :: "jsval \<Rightarrow> string" where
  "js_string JUndef = ''undefined''"
| "js_string JNull = ''null''"
| "js_string (JBool b) = (if b then ''true'' else ''false'')"
| "js_string (JNum x) = num_string x"
| "js_string (JStr s) = s"
| "js_string (JArr vs) = join_comma (map (\<lambda>v. if v = JUndef \<or> v = JNull then [] else js_string v) vs)"
| "js_string (JObj _) = ''[object Object]''"

fun js_number :: "jsval \<Rightarrow> jsnum" where
  "js_number JUndef = NaN"
| "js_number JNull = Fin 0"
| "js_number (JBool b) = Fin (if b then 1 else 0)"
| "js_number (JNum x) = x"
| "js_number (JStr s) = num_of_string s"
| "js_number (JArr vs) = num_of_string (js_string (JArr vs))"
| "js_number (JObj _) = NaN"

fun js_truthy :: "jsval \<Rightarrow> bool" where
  "js_truthy JUndef = False"
| "js_truthy JNull = False"
| "js_truthy (JBool b) = b"
| "js_truthy (JNum (Fin x)) = (x \<noteq> 0)"
| "js_truthy (JNum NaN) = False"
| "js_truthy (JNum _) = True"
| "js_truthy (JStr s) = (s \<noteq> [])"
| "js_truthy _ = True"

text \<open>\<open>typeof v === 'object'\<close> of a truthy value, a property read, and \<open>v ?? d\<close>.\<close>

fun js_is_object :: "jsval \<Rightarrow> bool" where
  "js_is_object (JArr _) = True"
| "js_is_object (JObj _) = True"
| "js_is_object _ = False"

fun js_get :: "jsval \<Rightarrow> string \<Rightarrow> jsval" where
  "js_get (JObj ps) k = (case map_of ps k of Some v \<Rightarrow> v | None \<Rightarrow> JUndef)"
| "js_get _ k = JUndef"

definition nullish :: "jsval \<Rightarrow> bool" where
  "nullish v \<longleftrightarrow> v = JUndef \<or> v = JNull"

definition js_or_null :: "jsval \<Rightarrow> jsval \<Rightarrow> jsval" where
  "js_or_null v d = (if nullish v then d else v)"

text \<open>The helper \<open>toFiniteNumber\<close> of the payroll code: a finite \<open>Number(value)\<close>, else 0; and
  \<open>Number(value) || 0\<close>, which differs only on the infinities.\<close>

definition fin_or_zero :: "jsnum \<Rightarrow> rat" where
  "fin_or_zero n = (case n of Fin x \<Rightarrow> x | _ \<Rightarrow> 0)"

definition toFiniteNumber :: "jsval \<Rightarrow> rat" where
  "toFiniteNumber value = fin_or_zero (js_number value)"

lemma toFiniteNumber_num [simp]: "toFiniteNumber (JNum (Fin x)) = x"
  by (simp add: toFiniteNumber_def fin_or_zero_def)

lemma parse_unsigned_digits: "ds \<noteq> [] \<Longrightarrow> list_all is_digit ds \<Longrightarrow> parse_unsigned ds = Fin (of_nat (digits_val ds))"
proof -
  assume d: "ds \<noteq> []" "list_all is_digit ds"
  then have tw: "takeWhile is_digit ds = ds" and dw: "dropWhile is_digit ds = []"
    by (simp_all add: list_all_iff takeWhile_eq_all_conv dropWhile_eq_Nil_conv)
  have "ds \<noteq> ''Infinity''" using d by (auto simp: is_digit_def)
  then show ?thesis using d by (simp add: parse_unsigned_def parse_exponent_def Let_def tw dw)
qed

lemma num_of_digits:
  assumes "ds \<noteq> []" "list_all is_digit ds"
  shows "num_of_string ds = Fin (of_nat (digits_val ds))"
proof -
  have d: "\<And>c. c \<in> set ds \<Longrightarrow> is_digit c" using assms(2) by (simp add: list_all_iff)
  have trim: "js_trim ds = ds" by (rule js_trim_id) (use assms(1) in \<open>simp_all add: digit_not_space d\<close>)
  have hd: "is_digit (hd ds)" using d assms(1) by simp
  have "take 2 ds \<notin> {''0x'', ''0X'', ''0o'', ''0O'', ''0b'', ''0B''}"
  proof
    assume "take 2 ds \<in> {''0x'', ''0X'', ''0o'', ''0O'', ''0b'', ''0B''}"
    moreover have "\<forall>c \<in> set (take 2 ds). is_digit c" using d by (auto dest: in_set_takeD)
    ultimately show False by (auto simp: is_digit_def)
  qed
  moreover have "hd ds \<noteq> CHR ''-''" "hd ds \<noteq> CHR ''+''" using hd by (auto simp: is_digit_def)
  ultimately show ?thesis
    using assms by (simp add: num_of_string_def Let_def trim parse_unsigned_digits)
qed

text \<open>\<open>Number(String(n))\<close> gives \<open>n\<close> back.\<close>

lemma num_of_nat_string: "num_of_string (nat_string n) = Fin (of_nat n)"
  using num_of_digits [of "nat_string n"] nat_string_digits by (simp add: list_all_iff)

text \<open>\<open>s.split(d)\<close> at a single character.\<close>

fun split_on :: "char \<Rightarrow> string \<Rightarrow> string list" where
  "split_on d [] = [[]]"
| "split_on d (c # s) = (if c = d then [] # split_on d s else (case split_on d s of p # ps \<Rightarrow> (c # p) # ps | [] \<Rightarrow> [[c]]))"

lemma split_on_none: "d \<notin> set s \<Longrightarrow> split_on d s = [s]"
  by (induction s) auto

lemma split_on_append: "d \<notin> set s \<Longrightarrow> split_on d (s @ d # t) = s # split_on d t"
  by (induction s) auto

section \<open>Results\<close>

text \<open>Steps that return an error (\<open>Inl\<close>) or a value, run one after the other until the first error.\<close>

definition and_then :: "'e + 'a \<Rightarrow> ('a \<Rightarrow> 'e + 'b) \<Rightarrow> 'e + 'b" where
  "and_then r f = (case r of Inl e \<Rightarrow> Inl e | Inr a \<Rightarrow> f a)"

definition fail_if :: "bool \<Rightarrow> 'e \<Rightarrow> 'e + unit" where
  "fail_if b e = (if b then Inl e else Inr ())"

lemma and_then_simps [simp]: "and_then (Inl e) f = Inl e" "and_then (Inr a) f = f a"
  by (simp_all add: and_then_def)

lemma find_Some_in: "find P xs = Some x \<Longrightarrow> x \<in> set xs \<and> P x"
  by (auto simp: find_Some_iff)

lemma and_then_Inr_iff: "and_then r f = Inr b \<longleftrightarrow> (\<exists>a. r = Inr a \<and> f a = Inr b)"
  by (cases r) auto

lemma and_then_Inl_iff: "and_then r f = Inl e \<longleftrightarrow> r = Inl e \<or> (\<exists>a. r = Inr a \<and> f a = Inl e)"
  by (cases r) auto

lemma fail_if_Inr_iff [simp]: "fail_if b e = Inr u \<longleftrightarrow> \<not> b"
  by (simp add: fail_if_def)

lemma fail_if_simps [simp]: "fail_if True e = Inl e" "fail_if False e = Inr ()"
  by (simp_all add: fail_if_def)

end
