(* ===== verification/JsDate.thy ===== *)
theory JsDate
  imports JsBase
begin

text \<open>
  The date arithmetic of the JS runtime (ECMAScript "Time Values"): an instant is an integer number
  of milliseconds since 1970-01-01T00:00:00Z, days are counted from the same origin, and the civil
  calendar is the proleptic Gregorian one. \<open>Date.UTC\<close>, \<open>getUTCDay\<close>, \<open>toISOString\<close> and the parser of
  the one date-time shape the code builds are defined on it.
\<close>

type_synonym instant = int

definition DAY_MS :: int where "DAY_MS = 86400000"

text \<open>\<open>new Date(v)\<close> of a value typed \<open>Date | string | null\<close>, as every reader in the code applies it:
  a falsy value, an Invalid Date, or an instant.\<close>

datatype datev = DNull | DInvalid | DAt instant

fun instantMs :: "datev \<Rightarrow> instant option" where
  "instantMs (DAt ms) = Some ms"
| "instantMs _ = None"

section \<open>The civil calendar\<close>

definition leap :: "int \<Rightarrow> bool" where
  "leap y \<longleftrightarrow> y mod 4 = 0 \<and> (y mod 100 \<noteq> 0 \<or> y mod 400 = 0)"

definition day_from_year :: "int \<Rightarrow> int" where
  "day_from_year y = 365 * (y - 1970) + (y - 1969) div 4 - (y - 1901) div 100 + (y - 1601) div 400"

definition year_len :: "int \<Rightarrow> int" where
  "year_len y = (if leap y then 366 else 365)"

text \<open>Days before month \<open>m\<close> (0..11) in a year.\<close>

definition month_off :: "bool \<Rightarrow> int \<Rightarrow> int" where
  "month_off l m =
     (if m \<le> 0 then 0 else if m = 1 then 31
      else (if l then 1 else 0) +
        (if m = 2 then 59 else if m = 3 then 90 else if m = 4 then 120 else if m = 5 then 151
         else if m = 6 then 181 else if m = 7 then 212 else if m = 8 then 243 else if m = 9 then 273
         else if m = 10 then 304 else if m = 11 then 334 else 365))"

definition days_in_month :: "int \<Rightarrow> int \<Rightarrow> int" where
  "days_in_month y m = month_off (leap y) m - month_off (leap y) (m - 1)"

text \<open>\<open>MakeDay\<close>: month index and day may run over; \<open>Date.UTC\<close> reads years 0..99 as 1900..1999.\<close>

definition make_day :: "int \<Rightarrow> int \<Rightarrow> int \<Rightarrow> int" where
  "make_day y mi d = day_from_year (y + mi div 12) + month_off (leap (y + mi div 12)) (mi mod 12) + d - 1"

definition utc_day :: "int \<Rightarrow> int \<Rightarrow> int \<Rightarrow> int" where
  "utc_day y mi d = make_day (if 0 \<le> y \<and> y \<le> 99 then 1900 + y else y) mi d"

datatype civil = Civil (cyear: int) (cmonth: int) (cday: int)

instantiation civil :: linorder
begin

definition less_eq_civil :: "civil \<Rightarrow> civil \<Rightarrow> bool" where
  "less_eq_civil a b \<longleftrightarrow> cyear a < cyear b \<or> cyear a = cyear b \<and>
     (cmonth a < cmonth b \<or> cmonth a = cmonth b \<and> cday a \<le> cday b)"

definition less_civil :: "civil \<Rightarrow> civil \<Rightarrow> bool" where
  "less_civil a b \<longleftrightarrow> cyear a < cyear b \<or> cyear a = cyear b \<and>
     (cmonth a < cmonth b \<or> cmonth a = cmonth b \<and> cday a < cday b)"

instance
  by standard (auto simp: less_eq_civil_def less_civil_def intro: civil.expand)

end

definition valid_civil :: "civil \<Rightarrow> bool" where
  "valid_civil c \<longleftrightarrow> 1 \<le> cmonth c \<and> cmonth c \<le> 12 \<and> 1 \<le> cday c \<and> cday c \<le> days_in_month (cyear c) (cmonth c)"

definition day_of_civil :: "civil \<Rightarrow> int" where
  "day_of_civil c = make_day (cyear c) (cmonth c - 1) (cday c)"

definition year_of_day :: "int \<Rightarrow> int" where
  "year_of_day n = (let c = 1970 + (400 * n) div 146097 in
     if day_from_year (c + 1) \<le> n then c + 1 else if day_from_year c \<le> n then c else c - 1)"

definition month_of_doy :: "bool \<Rightarrow> int \<Rightarrow> int" where
  "month_of_doy l k =
     (if k < 31 then 1 else if k < month_off l 2 then 2 else if k < month_off l 3 then 3
      else if k < month_off l 4 then 4 else if k < month_off l 5 then 5 else if k < month_off l 6 then 6
      else if k < month_off l 7 then 7 else if k < month_off l 8 then 8 else if k < month_off l 9 then 9
      else if k < month_off l 10 then 10 else if k < month_off l 11 then 11 else 12)"

definition civil_of_day :: "int \<Rightarrow> civil" where
  "civil_of_day n = (let y = year_of_day n; k = n - day_from_year y; m = month_of_doy (leap y) k
     in Civil y m (k - month_off (leap y) (m - 1) + 1))"

text \<open>\<open>getUTCDay\<close>: 0 is Sunday; day 0 was a Thursday.\<close>

definition weekday :: "int \<Rightarrow> int" where
  "weekday n = (n + 4) mod 7"

lemma div_bounds_int:
  fixes a d :: int
  assumes "0 < d"
  shows "d * (a div d) \<le> a" "a < d * (a div d) + d"
proof -
  have "d * (a div d) + a mod d = a" "0 \<le> a mod d" "a mod d < d" using assms by auto
  then show "d * (a div d) \<le> a" "a < d * (a div d) + d" by linarith+
qed

lemma div_step:
  fixes a d :: int
  assumes "0 < d"
  shows "(a + 1) div d = a div d + (if d dvd a + 1 then 1 else 0)"
proof -
  obtain q r where qr: "a = d * q + r" "0 \<le> r" "r < d" "q = a div d"
    using assms by (metis mult_div_mod_eq pos_mod_bound pos_mod_sign)
  show ?thesis
  proof (cases "r = d - 1")
    case True
    then have "a + 1 = d * (q + 1)" using qr(1) by (simp add: algebra_simps)
    then show ?thesis using assms qr(4) by simp
  next
    case False
    then have lt: "0 \<le> r + 1" "r + 1 < d" "r + 1 \<noteq> 0" using qr by auto
    have e: "a + 1 = d * q + (r + 1)" using qr(1) by simp
    have "(a + 1) div d = q" "(a + 1) mod d = r + 1"
      using lt e by (auto intro: int_div_pos_eq int_mod_pos_eq)
    then show ?thesis using lt qr(4) by (simp add: dvd_eq_mod_eq_0)
  qed
qed

lemma day_from_year_Suc: "day_from_year (y + 1) = day_from_year y + year_len y"
proof -
  have "4 dvd y - 1968 \<longleftrightarrow> 4 dvd y" "100 dvd y - 1900 \<longleftrightarrow> 100 dvd y" "400 dvd y - 1600 \<longleftrightarrow> 400 dvd y"
    by (simp_all add: dvd_diff_left_iff)
  note d = this
  have t: "400 dvd y \<Longrightarrow> 100 dvd y" "100 dvd y \<Longrightarrow> 4 dvd y"
    by (auto elim: dvd_trans [rotated])
  define A B C where "A = (y - 1969) div 4" "B = (y - 1901) div 100" "C = (y - 1601) div 400"
  have "(y - 1968) div 4 = A + (if 4 dvd y then 1 else 0)"
    "(y - 1900) div 100 = B + (if 100 dvd y then 1 else 0)"
    "(y - 1600) div 400 = C + (if 400 dvd y then 1 else 0)"
    using div_step [of 4 "y - 1969"] div_step [of 100 "y - 1901"] div_step [of 400 "y - 1601"] d
    unfolding A_B_C_def by simp_all
  moreover have "y + 1 - 1969 = y - 1968" "y + 1 - 1901 = y - 1900" "y + 1 - 1601 = y - 1600"
    "y + 1 - 1970 = y - 1969" by auto
  ultimately have "day_from_year (y + 1) = 365 * (y - 1969) + (A + (if 4 dvd y then 1 else 0))
      - (B + (if 100 dvd y then 1 else 0)) + (C + (if 400 dvd y then 1 else 0))"
    by (simp only: day_from_year_def)
  moreover have "day_from_year y = 365 * (y - 1970) + A - B + C"
    by (simp only: day_from_year_def A_B_C_def)
  ultimately show ?thesis
    using t by (cases "4 dvd y"; cases "100 dvd y"; cases "400 dvd y")
      (simp_all add: year_len_def leap_def mod_eq_0_iff_dvd)
qed

lemma year_len_pos: "0 < year_len y" "year_len y \<le> 366"
  by (simp_all add: year_len_def)

lemma day_from_year_mono: "y \<le> z \<Longrightarrow> day_from_year y \<le> day_from_year z"
proof (induction z rule: int_ge_induct)
  case (step i)
  then show ?case using year_len_pos [of i] by (simp add: day_from_year_Suc)
qed simp

lemma day_count_bounds:
  fixes A B C j :: int
  assumes "4 * A \<le> j + 1" "j + 1 < 4 * A + 4" "100 * B \<le> j + 69" "j + 69 < 100 * B + 100"
    "400 * C \<le> j + 369" "j + 369 < 400 * C + 400"
  shows "146097 * j - 700 \<le> 400 * (365 * j + A - B + C)" "400 * (365 * j + A - B + C) \<le> 146097 * j + 700"
  using assms by (simp_all add: algebra_simps)

lemma year_of_day_bounds:
  "day_from_year (year_of_day n) \<le> n \<and> n < day_from_year (year_of_day n + 1)"
proof -
  define k where "k = (400 * n) div 146097"
  have k: "146097 * k \<le> 400 * n" "400 * n < 146097 * k + 146097"
    using div_bounds_int [of 146097 "400 * n"] by (auto simp: k_def)
  define D where "D = (\<lambda>j :: int. 365 * j + (j + 1) div 4 - (j + 69) div 100 + (j + 369) div 400)"
  have D: "day_from_year (1970 + j) = D j" for j
    by (simp add: day_from_year_def D_def algebra_simps)
  have p: "0 < (4 :: int)" "0 < (100 :: int)" "0 < (400 :: int)" by simp_all
  note bounds = div_bounds_int [OF p(1)] div_bounds_int [OF p(2)] div_bounds_int [OF p(3)]
  have lo: "146097 * j - 700 \<le> 400 * D j" for j
    unfolding D_def by (rule day_count_bounds(1)) (rule bounds)+
  have hi: "400 * D j \<le> 146097 * j + 700" for j
    unfolding D_def by (rule day_count_bounds(2)) (rule bounds)+
  have "D (k - 1) \<le> n" using hi [of "k - 1"] k by (simp add: algebra_simps)
  then have lower: "day_from_year (1970 + k - 1) \<le> n" using D [of "k - 1"] by (simp add: add_diff_eq)
  have "n < D (k + 2)" using lo [of "k + 2"] k by (simp add: algebra_simps)
  then have upper: "n < day_from_year (1970 + k + 1 + 1)" using D [of "k + 2"] by (simp add: ac_simps)
  have y: "year_of_day n = (if day_from_year (1970 + k + 1) \<le> n then 1970 + k + 1
      else if day_from_year (1970 + k) \<le> n then 1970 + k else 1970 + k - 1)"
    by (simp only: year_of_day_def Let_def k_def)
  consider "day_from_year (1970 + k + 1) \<le> n"
    | "n < day_from_year (1970 + k + 1)" "day_from_year (1970 + k) \<le> n"
    | "n < day_from_year (1970 + k + 1)" "n < day_from_year (1970 + k)" by linarith
  then show ?thesis
  proof cases
    case 1
    then have "year_of_day n = 1970 + k + 1" by (simp only: y if_True)
    with 1 upper show ?thesis by (simp only:)
  next
    case 2
    then have "year_of_day n = 1970 + k" by (simp only: y not_le [symmetric] if_False if_True)
    with 2 show ?thesis by (simp only:)
  next
    case 3
    then have "year_of_day n = 1970 + k - 1" by (simp only: y not_le [symmetric] if_False)
    moreover have "1970 + k - 1 + 1 = 1970 + k" by simp
    ultimately show ?thesis using lower 3 by (simp only:)
  qed
qed

lemma year_of_day_unique:
  assumes "day_from_year y \<le> n" "n < day_from_year (y + 1)"
  shows "year_of_day n = y"
proof (rule ccontr)
  assume "year_of_day n \<noteq> y"
  then consider "year_of_day n + 1 \<le> y" | "y + 1 \<le> year_of_day n" by linarith
  then show False
  proof cases
    case 1
    from day_from_year_mono [OF this] year_of_day_bounds [of n] assms show False by linarith
  next
    case 2
    from day_from_year_mono [OF this] year_of_day_bounds [of n] assms show False by linarith
  qed
qed

lemma month_set: "1 \<le> m \<Longrightarrow> m \<le> 12 \<Longrightarrow> (m :: int) \<in> {1, 2, 3, 4, 5, 6, 7, 8, 9, 10, 11, 12}"
  unfolding insert_iff empty_iff by presburger

lemma month_off_bounds:
  assumes "1 \<le> m" "m \<le> 12" "month_off l (m - 1) \<le> k" "k < month_off l m"
  shows "month_of_doy l k = m"
proof -
  show ?thesis using month_set [OF assms(1,2)] assms by (auto simp: month_of_doy_def month_off_def split: if_splits)
qed

lemma month_of_doy_range:
  assumes "0 \<le> k" "k < month_off l 12"
  shows "1 \<le> month_of_doy l k \<and> month_of_doy l k \<le> 12 \<and>
    month_off l (month_of_doy l k - 1) \<le> k \<and> k < month_off l (month_of_doy l k)"
  using assms unfolding month_of_doy_def by (auto simp: month_off_def)

lemma month_off_12: "month_off (leap y) 12 = year_len y"
  by (simp add: month_off_def year_len_def)

lemma day_of_civil_alt:
  "1 \<le> m \<Longrightarrow> m \<le> 12 \<Longrightarrow> day_of_civil (Civil y m d) = day_from_year y + month_off (leap y) (m - 1) + d - 1"
  by (simp add: day_of_civil_def make_day_def)

lemma days_in_month_bounds: "1 \<le> m \<Longrightarrow> m \<le> 12 \<Longrightarrow> 28 \<le> days_in_month y m \<and> days_in_month y m \<le> 31"
  using month_set [of m] by (auto simp: days_in_month_def month_off_def)

lemma civil_of_day_valid: "valid_civil (civil_of_day n)"
  using year_of_day_bounds [of n]
    month_of_doy_range [of "n - day_from_year (year_of_day n)" "leap (year_of_day n)"]
  by (auto simp: valid_civil_def civil_of_day_def Let_def days_in_month_def month_off_12 day_from_year_Suc)

lemma day_of_civil_of_day [simp]: "day_of_civil (civil_of_day n) = n"
  using year_of_day_bounds [of n]
    month_of_doy_range [of "n - day_from_year (year_of_day n)" "leap (year_of_day n)"]
  by (auto simp: civil_of_day_def Let_def month_off_12 day_from_year_Suc day_of_civil_alt)

lemma month_off_range:
  "1 \<le> m \<Longrightarrow> m \<le> 12 \<Longrightarrow> 0 \<le> month_off l (m - 1) \<and> month_off l m \<le> month_off l 12"
  using month_set [of m] by (auto simp: month_off_def)

lemma civil_of_day_of_civil:
  assumes "valid_civil c"
  shows "civil_of_day (day_of_civil c) = c"
proof (cases c)
  case (Civil y m d)
  from assms have m: "1 \<le> m" "m \<le> 12" and d: "1 \<le> d" "d \<le> days_in_month y m"
    by (auto simp: valid_civil_def Civil)
  let ?k = "month_off (leap y) (m - 1) + d - 1"
  have n: "day_of_civil c = day_from_year y + ?k" by (simp add: Civil day_of_civil_alt m)
  have k0: "0 \<le> ?k" "?k < month_off (leap y) m"
    using d month_off_range [OF m, of "leap y"] by (auto simp: days_in_month_def)
  have "?k < year_len y"
    using k0 month_off_range [OF m, of "leap y"] by (simp add: month_off_12)
  then have "year_of_day (day_of_civil c) = y"
    using k0 by (intro year_of_day_unique) (auto simp: n day_from_year_Suc)
  moreover have "month_of_doy (leap y) ?k = m"
    using m d k0 by (intro month_off_bounds) auto
  moreover have "day_of_civil c - day_from_year y = ?k" by (simp add: n)
  ultimately show ?thesis by (simp only: civil_of_day_def Let_def Civil) simp
qed

lemma civil_of_day_mono: "n < k \<Longrightarrow> civil_of_day n < civil_of_day k"
proof -
  assume "n < k"
  let ?y = "year_of_day n" and ?z = "year_of_day k"
  let ?i = "n - day_from_year ?y" and ?j = "k - day_from_year ?z"
  have yz: "?y \<le> ?z"
  proof (rule ccontr)
    assume "\<not> ?y \<le> ?z"
    then have "day_from_year (?z + 1) \<le> day_from_year ?y" by (intro day_from_year_mono) simp
    then show False using year_of_day_bounds [of n] year_of_day_bounds [of k] \<open>n < k\<close> by linarith
  qed
  have i: "0 \<le> ?i" "?i < month_off (leap ?y) 12" and j: "0 \<le> ?j" "?j < month_off (leap ?z) 12"
    using year_of_day_bounds [of n] year_of_day_bounds [of k]
    by (auto simp: day_from_year_Suc month_off_12)
  show ?thesis
  proof (cases "?y = ?z")
    case False
    then show ?thesis using yz by (simp add: less_civil_def civil_of_day_def Let_def)
  next
    case True
    let ?m = "month_of_doy (leap ?y) ?i" and ?p = "month_of_doy (leap ?y) ?j"
    have m: "1 \<le> ?m" "?m \<le> 12" "month_off (leap ?y) (?m - 1) \<le> ?i" "?i < month_off (leap ?y) ?m"
      and p: "1 \<le> ?p" "?p \<le> 12" "month_off (leap ?y) (?p - 1) \<le> ?j" "?j < month_off (leap ?y) ?p"
      using month_of_doy_range [OF i] month_of_doy_range [of ?j "leap ?y"] j True by auto
    have "?m \<le> ?p"
    proof (rule ccontr)
      assume "\<not> ?m \<le> ?p"
      then have "month_off (leap ?y) ?p \<le> month_off (leap ?y) (?m - 1)"
        using month_set [OF m(1,2)] month_set [OF p(1,2)] by (auto simp: month_off_def)
      moreover have "?i < ?j" using \<open>n < k\<close> True by simp
      ultimately show False using m(3) p(4) by linarith
    qed
    then show ?thesis
      using True \<open>n < k\<close> by (auto simp: less_civil_def civil_of_day_def Let_def)
  qed
qed

text \<open>The chronological order of days is the lexicographic order of their civil dates.\<close>

lemma civil_of_day_less: "civil_of_day n < civil_of_day k \<longleftrightarrow> n < k"
  using civil_of_day_mono [of n k] civil_of_day_mono [of k n]
  by (metis less_asym less_irrefl linorder_less_linear)

section \<open>Date strings\<close>

definition two_digits :: "nat \<Rightarrow> string" where
  "two_digits n = [digit_char (n div 10 mod 10), digit_char (n mod 10)]"

definition four_digits :: "nat \<Rightarrow> string" where
  "four_digits n = two_digits (n div 100) @ two_digits (n mod 100)"

definition iso_year :: "int \<Rightarrow> string" where
  "iso_year y = (if 0 \<le> y \<and> y \<le> 9999 then four_digits (nat y)
     else (if y < 0 then ''-'' else ''+'') @ two_digits (nat \<bar>y\<bar> div 10000) @ four_digits (nat \<bar>y\<bar> mod 10000))"

definition civil_string :: "civil \<Rightarrow> string" where
  "civil_string c = iso_year (cyear c) @ ''-'' @ two_digits (nat (cmonth c)) @ ''-'' @ two_digits (nat (cday c))"

text \<open>\<open>toISOString\<close> of an instant.\<close>

definition toISOString :: "instant \<Rightarrow> string" where
  "toISOString ms = (let d = ms div DAY_MS; r = ms mod DAY_MS in
     civil_string (civil_of_day d) @ ''T'' @ two_digits (nat (r div 3600000)) @ '':'' @
     two_digits (nat (r div 60000 mod 60)) @ '':'' @ two_digits (nat (r div 1000 mod 60)) @ ''.'' @
     [digit_char (nat (r mod 1000) div 100)] @ two_digits (nat (r mod 1000) mod 100) @ ''Z'')"

definition four_digit_year :: "int \<Rightarrow> bool" where
  "four_digit_year n \<longleftrightarrow> 0 \<le> year_of_day n \<and> year_of_day n \<le> 9999"

lemma two_digits_less:
  "m < 100 \<Longrightarrow> n < 100 \<Longrightarrow> two_digits m < two_digits n \<longleftrightarrow> m < n"
proof -
  assume "m < 100" "n < 100"
  then have "m div 10 < 10" "n div 10 < 10" by auto
  moreover have "m = 10 * (m div 10) + m mod 10" "n = 10 * (n div 10) + n mod 10" by simp_all
  moreover have "m mod 10 < 10" "n mod 10 < 10" by simp_all
  ultimately have "m < n \<longleftrightarrow> m div 10 < n div 10 \<or> m div 10 = n div 10 \<and> m mod 10 < n mod 10"
    by linarith
  with \<open>m div 10 < 10\<close> \<open>n div 10 < 10\<close> show ?thesis by (simp add: two_digits_def)
qed

lemma length_two_digits [simp]: "length (two_digits n) = 2" by (simp add: two_digits_def)
lemma length_four_digits [simp]: "length (four_digits n) = 4" by (simp add: four_digits_def)

lemma append_less_append:
  fixes xs ys us vs :: "'a :: linorder list"
  shows "length xs = length us \<Longrightarrow> xs @ ys < us @ vs \<longleftrightarrow> xs < us \<or> xs = us \<and> ys < vs"
  by (induction xs us rule: list_induct2) auto

lemma two_digits_eq: "m < 100 \<Longrightarrow> n < 100 \<Longrightarrow> two_digits m = two_digits n \<longleftrightarrow> m = n"
  using two_digits_less [of m n] two_digits_less [of n m] by (metis less_irrefl linorder_less_linear)

lemma four_digits_less: "m < 10000 \<Longrightarrow> n < 10000 \<Longrightarrow> four_digits m < four_digits n \<longleftrightarrow> m < n"
proof -
  assume "m < 10000" "n < 10000"
  then have "m div 100 < 100" "n div 100 < 100" by auto
  moreover have "m = 100 * (m div 100) + m mod 100" "n = 100 * (n div 100) + n mod 100" by simp_all
  moreover have "m mod 100 < 100" "n mod 100 < 100" by simp_all
  ultimately have "m < n \<longleftrightarrow> m div 100 < n div 100 \<or> m div 100 = n div 100 \<and> m mod 100 < n mod 100"
    by linarith
  with \<open>m div 100 < 100\<close> \<open>n div 100 < 100\<close> show ?thesis
    by (simp add: four_digits_def append_less_append two_digits_less two_digits_eq)
qed

lemma four_digits_eq: "m < 10000 \<Longrightarrow> n < 10000 \<Longrightarrow> four_digits m = four_digits n \<longleftrightarrow> m = n"
  using four_digits_less [of m n] four_digits_less [of n m] by (metis less_irrefl linorder_less_linear)

text \<open>Comparing two date strings compares the dates, for years 0000 to 9999.\<close>

lemma civil_string_less:
  assumes "valid_civil a" "valid_civil b" "0 \<le> cyear a" "cyear a \<le> 9999" "0 \<le> cyear b" "cyear b \<le> 9999"
  shows "civil_string a < civil_string b \<longleftrightarrow> a < b"
proof -
  have r: "nat (cmonth c) < 100 \<and> nat (cday c) < 100 \<and> 0 \<le> cmonth c \<and> 0 \<le> cday c"
    if "valid_civil c" for c
    using that days_in_month_bounds [of "cmonth c" "cyear c"] by (auto simp: valid_civil_def)
  show ?thesis
    using assms r [OF assms(1)] r [OF assms(2)]
    by (auto simp: civil_string_def iso_year_def append_less_append four_digits_less four_digits_eq
        two_digits_less two_digits_eq less_civil_def)
qed

lemma civil_string_inj:
  assumes "valid_civil a" "valid_civil b" "0 \<le> cyear a" "cyear a \<le> 9999" "0 \<le> cyear b" "cyear b \<le> 9999"
  shows "civil_string a = civil_string b \<longleftrightarrow> a = b"
  using civil_string_less [OF assms] civil_string_less [of b a] assms
  by (metis less_irrefl linorder_less_linear)

lemma length_civil_string: "0 \<le> cyear c \<Longrightarrow> cyear c \<le> 9999 \<Longrightarrow> length (civil_string c) = 10"
  by (simp add: civil_string_def iso_year_def)

lemma cyear_civil_of_day [simp]: "cyear (civil_of_day n) = year_of_day n"
  by (simp add: civil_of_day_def Let_def)

subsection \<open>Parsing\<close>

text \<open>\<open>/^(\d{4})-(\d{2})-(\d{2})$/\<close> and its groups.\<close>

definition is_ymd :: "string \<Rightarrow> bool" where
  "is_ymd s \<longleftrightarrow> length s = 10 \<and> list_all is_digit (take 4 s) \<and> s ! 4 = CHR ''-'' \<and>
     list_all is_digit (take 2 (drop 5 s)) \<and> s ! 7 = CHR ''-'' \<and> list_all is_digit (drop 8 s)"

definition ymd_of :: "string \<Rightarrow> int \<times> int \<times> int" where
  "ymd_of s = (int (digits_val (take 4 s)), int (digits_val (take 2 (drop 5 s))), int (digits_val (take 2 (drop 8 s))))"

text \<open>\<open>/^\d{2}:\d{2}(:\d{2})?$/\<close> and its hour, minute and second.\<close>

definition is_hms :: "string \<Rightarrow> bool" where
  "is_hms s \<longleftrightarrow> (length s = 5 \<or> length s = 8 \<and> s ! 5 = CHR '':'' \<and> list_all is_digit (drop 6 s)) \<and>
     list_all is_digit (take 2 s) \<and> s ! 2 = CHR '':'' \<and> list_all is_digit (take 2 (drop 3 s))"

definition hms_of :: "string \<Rightarrow> int \<times> int \<times> int" where
  "hms_of s = (int (digits_val (take 2 s)), int (digits_val (take 2 (drop 3 s))), int (digits_val (drop 6 s)))"

text \<open>\<open>new Date(`${date}T${time}+07:00`)\<close> for strings of the two shapes above: V8 accepts months
  1..12, days 1..31 (running over into the next month), and 24:00:00 as the end of the day.\<close>

definition VN_OFFSET_MS :: int where "VN_OFFSET_MS = 25200000"

definition parse_vn_datetime :: "string \<Rightarrow> string \<Rightarrow> instant option" where
  "parse_vn_datetime date time =
     (case (ymd_of date, hms_of time) of ((y, mo, d), (h, mi, s)) \<Rightarrow>
        if 1 \<le> mo \<and> mo \<le> 12 \<and> 1 \<le> d \<and> d \<le> 31 \<and> mi \<le> 59 \<and> s \<le> 59 \<and>
           (h \<le> 23 \<or> h = 24 \<and> mi = 0 \<and> s = 0)
        then Some (make_day y (mo - 1) d * DAY_MS + h * 3600000 + mi * 60000 + s * 1000 - VN_OFFSET_MS)
        else None)"

lemma digits_val_two_digits [simp]: "n < 100 \<Longrightarrow> digits_val (two_digits n) = n"
  by (simp add: two_digits_def digits_val_def)

lemma digits_val_append: "digits_val (s @ t) = digits_val s * 10 ^ length t + digits_val t"
proof (induction t rule: rev_induct)
  case (snoc c t)
  have "digits_val (s @ t @ [c]) = 10 * digits_val (s @ t) + digit_val c"
    using digits_val_snoc [of "s @ t" c] by simp
  with snoc show ?case by (simp add: algebra_simps)
qed simp

lemma digits_val_four_digits [simp]: "n < 10000 \<Longrightarrow> digits_val (four_digits n) = n"
  by (simp add: four_digits_def digits_val_append)

lemma two_digits_digits [simp]: "list_all is_digit (two_digits n)"
  by (simp add: two_digits_def)

lemma four_digits_digits [simp]: "list_all is_digit (four_digits n)"
  by (simp add: four_digits_def)

lemma civil_string_parse:
  assumes "valid_civil c" "0 \<le> cyear c" "cyear c \<le> 9999"
  shows "is_ymd (civil_string c)" "ymd_of (civil_string c) = (cyear c, cmonth c, cday c)"
proof -
  have r: "nat (cmonth c) < 100" "nat (cday c) < 100" "0 \<le> cmonth c" "0 \<le> cday c"
    using assms(1) days_in_month_bounds [of "cmonth c" "cyear c"] by (auto simp: valid_civil_def)
  have e: "civil_string c = four_digits (nat (cyear c)) @ CHR ''-'' # two_digits (nat (cmonth c)) @ CHR ''-'' # two_digits (nat (cday c))"
    using assms by (simp add: civil_string_def iso_year_def)
  show "is_ymd (civil_string c)" "ymd_of (civil_string c) = (cyear c, cmonth c, cday c)"
    unfolding is_ymd_def ymd_of_def e using assms r by (simp_all add: nth_append)
qed

end
