(* ===== verification/VnCalendar.thy ===== *)
theory VnCalendar
  imports JsDate
begin

text \<open>
  \<open>src/common/utils/vn-calendar.ts\<close>: months and days are Vietnamese calendar months and days at
  the fixed +07:00 offset, exchanged as \<open>YYYY-MM-DD\<close> strings and compared as strings. The lemmas
  show that string comparison is chronological, that a month's two boundary strings cut out exactly
  its days, and that parsing and month arithmetic are inverse to printing.

  \<open>toMonthMarker\<close> and \<open>toDateMarker\<close> build host-local Date objects for the database driver and are
  not modelled.
\<close>

record vnMonth =
  mYear :: int
  mMonth :: int
  mMonthIndex :: int
  mKey :: string
  mLabel :: string
  mEndExclusiveDate :: string
  mLastDate :: string
  mCalendarDays :: int

definition pad2 :: "nat \<Rightarrow> string" where
  "pad2 n = pad_start 2 (nat_string n)"

definition vnDateString :: "instant \<Rightarrow> string" where
  "vnDateString ms = take 10 (toISOString (ms + VN_OFFSET_MS))"

definition vnMonthFromParts :: "int \<Rightarrow> int \<Rightarrow> vnMonth option" where
  "vnMonthFromParts year month1to12 =
     (if year < 1900 \<or> year > 9999 \<or> month1to12 < 1 \<or> month1to12 > 12 then None
      else
        let monthIndex = month1to12 - 1;
            calendarDays = cday (civil_of_day (utc_day year (monthIndex + 1) 0));
            nextYear = (if month1to12 = 12 then year + 1 else year);
            nextMonth = (if month1to12 = 12 then 1 else month1to12 + 1);
            label = nat_string (nat year) @ ''-'' @ pad2 (nat month1to12)
        in Some \<lparr> mYear = year, mMonth = month1to12, mMonthIndex = monthIndex,
             mKey = label @ ''-01'', mLabel = label,
             mEndExclusiveDate = nat_string (nat nextYear) @ ''-'' @ pad2 (nat nextMonth) @ ''-01'',
             mLastDate = label @ ''-'' @ pad2 (nat calendarDays),
             mCalendarDays = calendarDays \<rparr>)"

text \<open>\<open>vnMonthOf\<close> reads the year and month back from the date string; outside 1900..9999 the code's
  \<open>!\<close> hides a null.\<close>

definition vnMonthOf :: "instant \<Rightarrow> vnMonth option" where
  "vnMonthOf ms = (let date = vnDateString ms in
     vnMonthFromParts (int (digits_val (take 4 date))) (int (digits_val (take 2 (drop 5 date)))))"

definition vnMonthOfDateString :: "string option \<Rightarrow> vnMonth option" where
  "vnMonthOfDateString date =
     (case date of None \<Rightarrow> None
      | Some s \<Rightarrow>
          if \<not> is_ymd (take 10 s) then None
          else case ymd_of (take 10 s) of (y, m, day) \<Rightarrow>
            if day < 1 \<or> day > 31 then None else vnMonthFromParts y m)"

definition shiftVnMonth :: "vnMonth \<Rightarrow> rat \<Rightarrow> vnMonth option" where
  "shiftVnMonth m deltaMonths =
     (let total = mYear m * 12 + mMonthIndex m + \<lfloor>js_trunc deltaMonths\<rfloor>
      in vnMonthFromParts (total div 12) (total - 12 * (sgn total * (\<bar>total\<bar> div 12)) + 1))"

text \<open>The four accepted shapes, in the code's order. \<open>dateParse\<close> is the host's \<open>Date.parse\<close> for full
  datetimes, which depends on the host zone when the string has no offset.\<close>

definition parseVnMonthString :: "(string \<Rightarrow> instant option) \<Rightarrow> string \<Rightarrow> vnMonth option" where
  "parseVnMonthString dateParse input =
     (let value = js_trim input; a = takeWhile is_digit value; r = dropWhile is_digit value in
      if value = [] then None
      else if length a \<in> {1, 2} \<and> length r = 5 \<and> hd r = CHR ''/'' \<and> list_all is_digit (tl r)
      then vnMonthFromParts (int (digits_val (tl r))) (int (digits_val a))
      else if length value = 7 \<and> list_all is_digit (take 4 value) \<and> value ! 4 = CHR ''-'' \<and>
              list_all is_digit (drop 5 value)
      then vnMonthFromParts (int (digits_val (take 4 value))) (int (digits_val (drop 5 value)))
      else if is_ymd value
      then (case ymd_of value of (y, m, day) \<Rightarrow>
              if day < 1 \<or> day > 31 then None else vnMonthFromParts y m)
      else if is_ymd (take 10 value) \<and> 10 < length value \<and> value ! 10 = CHR ''T''
      then (case dateParse value of None \<Rightarrow> None | Some ms \<Rightarrow> vnMonthOf ms)
      else None)"

definition vnClockHHmm :: "instant \<Rightarrow> string" where
  "vnClockHHmm ms = take 5 (drop 11 (toISOString (ms + VN_OFFSET_MS)))"

definition vnMiddayInstant :: "string \<Rightarrow> instant option" where
  "vnMiddayInstant date =
     (if is_ymd (take 10 date) then parse_vn_datetime (take 10 date) ''12:00:00'' else None)"

section \<open>Printing\<close>

lemma pad2_two_digits: "n < 100 \<Longrightarrow> pad2 n = two_digits n"
proof (cases "n < 10")
  case True
  have "CHR ''0'' = digit_char 0" by code_simp
  with True show ?thesis by (simp add: pad2_def pad_start_def nat_string.simps two_digits_def)
next
  case False
  assume "n < 100"
  with False show ?thesis
    by (simp add: pad2_def pad_start_def nat_string.simps [of n] nat_string.simps [of "n div 10"] two_digits_def)
qed

lemma nat_string_four_digits: "1000 \<le> n \<Longrightarrow> n < 10000 \<Longrightarrow> nat_string n = four_digits n"
proof -
  assume a: "1000 \<le> n" "n < 10000"
  then have b: "\<not> n < 10" "\<not> n div 10 < 10" "\<not> n div 10 div 10 < 10" "n div 10 div 10 div 10 < 10"
    by auto
  have "n mod (10 * 10) = 10 * (n div 10 mod 10) + n mod 10" by (rule mod_mult2_eq)
  then have "n mod 100 div 10 = (10 * (n div 10 mod 10) + n mod 10) div 10" by simp
  also have "\<dots> = n div 10 mod 10" by simp
  finally have m: "n mod 100 div 10 mod 10 = n div 10 mod 10" by simp
  have e: "n div 10 div 10 = n div 100" by (simp add: div_mult2_eq [symmetric])
  show ?thesis
    using a b
    by (simp add: nat_string.simps [of n] nat_string.simps [of "n div 10"]
        nat_string.simps [of "n div 100"] nat_string.simps [of "n div 100 div 10"]
        four_digits_def two_digits_def e m mod_mod_cancel)
qed

section \<open>Date strings are chronological\<close>

text \<open>The Vietnam day number of an instant.\<close>

definition vn_day :: "instant \<Rightarrow> int" where
  "vn_day ms = (ms + VN_OFFSET_MS) div DAY_MS"

abbreviation day_string :: "int \<Rightarrow> string" where
  "day_string n \<equiv> civil_string (civil_of_day n)"

lemma vnDateString_day:
  "four_digit_year (vn_day ms) \<Longrightarrow> vnDateString ms = day_string (vn_day ms)"
  by (simp add: vnDateString_def toISOString_def Let_def vn_day_def four_digit_year_def length_civil_string)

lemma day_string_less:
  "four_digit_year n \<Longrightarrow> four_digit_year k \<Longrightarrow> day_string n < day_string k \<longleftrightarrow> n < k"
  by (simp add: four_digit_year_def civil_string_less civil_of_day_valid civil_of_day_less)

lemma day_string_eq:
  "four_digit_year n \<Longrightarrow> four_digit_year k \<Longrightarrow> day_string n = day_string k \<longleftrightarrow> n = k"
  using day_string_less [of n k] day_string_less [of k n] by (metis less_irrefl linorder_less_linear)

lemma day_string_le:
  "four_digit_year n \<Longrightarrow> four_digit_year k \<Longrightarrow> day_string n \<le> day_string k \<longleftrightarrow> n \<le> k"
  using day_string_less [of k n] by (simp add: not_less [symmetric])

lemma day_string_parse:
  "four_digit_year n \<Longrightarrow> is_ymd (day_string n) \<and>
     ymd_of (day_string n) = (year_of_day n, cmonth (civil_of_day n), cday (civil_of_day n))"
  by (simp add: four_digit_year_def civil_string_parse civil_of_day_valid)

section \<open>Months\<close>

lemma days_in_month_utc:
  assumes "1900 \<le> y" "1 \<le> m" "m \<le> 12"
  shows "cday (civil_of_day (utc_day y m 0)) = days_in_month y m"
proof -
  let ?c = "Civil y m (days_in_month y m)"
  have v: "valid_civil ?c" using assms days_in_month_bounds [of m y] by (simp add: valid_civil_def)
  have "utc_day y m 0 = day_of_civil ?c"
  proof (cases "m = 12")
    case True
    then show ?thesis using assms
      by (simp add: utc_day_def make_day_def day_of_civil_alt days_in_month_def day_from_year_Suc
          month_off_12 month_off_def [of _ 0])
  next
    case False
    then have "m div 12 = 0" "m mod 12 = m" using assms by auto
    then show ?thesis using assms
      by (simp add: utc_day_def make_day_def day_of_civil_alt days_in_month_def)
  qed
  then show ?thesis using civil_of_day_of_civil [OF v] by simp
qed

lemma year_string: "1900 \<le> y \<Longrightarrow> y \<le> 9999 \<Longrightarrow> nat_string (nat y) = iso_year y"
  by (simp add: iso_year_def nat_string_four_digits)

definition month_ok :: "int \<Rightarrow> int \<Rightarrow> bool" where
  "month_ok y m \<longleftrightarrow> 1900 \<le> y \<and> y \<le> 9999 \<and> 1 \<le> m \<and> m \<le> 12"

definition next_month :: "int \<Rightarrow> int \<Rightarrow> int \<times> int" where
  "next_month y m = (if m = 12 then (y + 1, 1) else (y, m + 1))"

text \<open>The fields of a valid month, as dates.\<close>

lemma vnMonthFromParts_Some:
  assumes "month_ok y m"
  obtains M where "vnMonthFromParts y m = Some M" "mYear M = y" "mMonth M = m" "mMonthIndex M = m - 1"
    "mCalendarDays M = days_in_month y m"
    "mKey M = civil_string (Civil y m 1)" "mLastDate M = civil_string (Civil y m (days_in_month y m))"
    "mLabel M = iso_year y @ ''-'' @ two_digits (nat m)"
    "y < 9999 \<or> m < 12 \<Longrightarrow> mEndExclusiveDate M = civil_string (Civil (fst (next_month y m)) (snd (next_month y m)) 1)"
proof -
  have ok: "1900 \<le> y" "y \<le> 9999" "1 \<le> m" "m \<le> 12" using assms by (auto simp: month_ok_def)
  have one: "two_digits 1 = ''01''" by code_simp
  have d: "nat (days_in_month y m) < 100" using days_in_month_bounds [of m y] ok by auto
  let ?M = "the (vnMonthFromParts y m)"
  show thesis
  proof (rule that [of ?M])
    show "vnMonthFromParts y m = Some ?M"
      using ok by (simp add: vnMonthFromParts_def Let_def)
  qed (use ok d one in \<open>auto simp: vnMonthFromParts_def Let_def days_in_month_utc year_string pad2_two_digits
        civil_string_def next_month_def\<close>)
qed

lemma vnMonthFromParts_None_iff: "vnMonthFromParts y m = None \<longleftrightarrow> \<not> month_ok y m"
  by (auto simp: vnMonthFromParts_def month_ok_def Let_def)

text \<open>The days of month \<open>m\<close> of year \<open>y\<close> are the days between its first and the next month's first.\<close>

lemma month_days_iff:
  assumes "month_ok y m"
  shows "year_of_day n = y \<and> cmonth (civil_of_day n) = m \<longleftrightarrow>
    Civil y m 1 \<le> civil_of_day n \<and> civil_of_day n < Civil (fst (next_month y m)) (snd (next_month y m)) 1"
proof -
  have "valid_civil (civil_of_day n)" by (rule civil_of_day_valid)
  then show ?thesis
    using assms
    by (cases "civil_of_day n")
       (auto simp: valid_civil_def less_eq_civil_def less_civil_def next_month_def month_ok_def
         simp flip: cyear_civil_of_day)
qed

text \<open>
  The two boundary strings of a month select exactly its days: for every day with a four-digit
  year, its date string lies in \<open>[key, endExclusiveDate)\<close> iff the day belongs to the month, and the
  last date and the day count agree with the calendar. (The very last representable month, December
  9999, is excluded: its exclusive end prints as a five-digit year and sorts before its key.)
\<close>

theorem vnMonth_window:
  assumes "month_ok y m" "y < 9999 \<or> m < 12" "four_digit_year n"
  shows "\<exists>M. vnMonthFromParts y m = Some M \<and> mCalendarDays M = days_in_month y m \<and>
    (mKey M \<le> day_string n \<and> day_string n < mEndExclusiveDate M \<longleftrightarrow>
       year_of_day n = y \<and> cmonth (civil_of_day n) = m) \<and>
    (day_string n \<le> mLastDate M \<longleftrightarrow> day_string n < mEndExclusiveDate M)"
proof -
  have ok: "1900 \<le> y" "y \<le> 9999" "1 \<le> m" "m \<le> 12" using assms by (auto simp: month_ok_def)
  obtain M where M: "vnMonthFromParts y m = Some M" "mCalendarDays M = days_in_month y m"
    "mKey M = civil_string (Civil y m 1)" "mLastDate M = civil_string (Civil y m (days_in_month y m))"
    "mEndExclusiveDate M = civil_string (Civil (fst (next_month y m)) (snd (next_month y m)) 1)"
    by (rule vnMonthFromParts_Some [OF assms(1)]) (use assms(2) in blast)
  let ?c = "civil_of_day n" and ?f = "Civil y m 1" and ?l = "Civil y m (days_in_month y m)"
    and ?e = "Civil (fst (next_month y m)) (snd (next_month y m)) 1"
  have v: "valid_civil ?c" "valid_civil ?f" "valid_civil ?l" "valid_civil ?e"
    using civil_of_day_valid days_in_month_bounds [of m y] ok days_in_month_bounds [of "m + 1" y]
      days_in_month_bounds [of 1 "y + 1"]
    by (auto simp: valid_civil_def next_month_def)
  have y: "0 \<le> cyear ?c" "cyear ?c \<le> 9999" "0 \<le> cyear ?f" "cyear ?f \<le> 9999" "0 \<le> cyear ?l" "cyear ?l \<le> 9999"
    "0 \<le> cyear ?e" "cyear ?e \<le> 9999"
    using assms ok by (auto simp: four_digit_year_def next_month_def)
  have "mKey M \<le> civil_string ?c \<longleftrightarrow> ?f \<le> ?c"
    using civil_string_less [OF v(1,2) y(1-4)] M by (simp add: not_less [symmetric])
  moreover have "civil_string ?c < mEndExclusiveDate M \<longleftrightarrow> ?c < ?e"
    using civil_string_less [OF v(1,4) y(1,2,7,8)] M by simp
  moreover have "civil_string ?c \<le> mLastDate M \<longleftrightarrow> ?c \<le> ?l"
    using civil_string_less [OF v(3,1) y(5,6,1,2)] M by (simp add: not_less [symmetric])
  moreover have "?c \<le> ?l \<longleftrightarrow> ?c < ?e"
    using v(1) ok by (cases ?c) (auto simp: valid_civil_def less_eq_civil_def less_civil_def next_month_def)
  ultimately show ?thesis using M month_days_iff [OF assms(1), of n] by simp
qed

theorem vnMonth_window_witness:
  "\<exists>M. vnMonthFromParts 2024 2 = Some M \<and> mCalendarDays M = 29 \<and>
    (mKey M \<le> ''2024-02-29'' \<and> ''2024-02-29'' < mEndExclusiveDate M)"
proof -
  have h: "month_ok 2024 2" "(2024 :: int) < 9999 \<or> (2 :: int) < 12" "four_digit_year 19782"
    "day_string 19782 = ''2024-02-29''" "year_of_day 19782 = 2024" "cmonth (civil_of_day 19782) = 2"
    "days_in_month 2024 2 = 29"
    by code_simp+
  show ?thesis using vnMonth_window [OF h(1-3)] unfolding h(4-7) by blast
qed

end
