(* ===== verification/AttendanceTime.thy ===== *)
theory AttendanceTime
  imports VnCalendar
begin

text \<open>
  \<open>src/modules/stores/attendance-time.utils.ts\<close>: the absolute boundaries of a shift from its work
  date and its two clock times (an end at or before the start belongs to the next day), the window in
  force after approved adjustments, and the late / early / overtime minutes of an attendance.
\<close>

definition nonempty :: "string option \<Rightarrow> string option" where
  "nonempty s = (case s of Some t \<Rightarrow> if t = [] then None else Some t | None \<Rightarrow> None)"

lemma nonempty_Some: "nonempty s = Some t \<longleftrightarrow> s = Some t \<and> t \<noteq> []"
  by (auto simp: nonempty_def split: option.splits)

text \<open>\<open>a || b\<close> on optional strings, and \<open>a ?? b\<close> on optional values.\<close>

definition str_or :: "string option \<Rightarrow> string option \<Rightarrow> string option" where
  "str_or a b = (case nonempty a of Some s \<Rightarrow> Some s | None \<Rightarrow> b)"

fun opt_or :: "'a option \<Rightarrow> 'a option \<Rightarrow> 'a option" where
  "opt_or (Some x) _ = Some x"
| "opt_or None y = y"

definition toInstant :: "string \<Rightarrow> string option \<Rightarrow> instant option" where
  "toInstant workDate time =
     (case nonempty time of
        None \<Rightarrow> None
      | Some t \<Rightarrow> if \<not> is_ymd workDate \<or> \<not> is_hms t then None else parse_vn_datetime workDate t)"

definition resolveShiftBoundaries ::
  "string option \<Rightarrow> string option \<Rightarrow> string option \<Rightarrow> instant option \<times> instant option" where
  "resolveShiftBoundaries workDate startTime endTime =
     (case nonempty workDate of
        None \<Rightarrow> (None, None)
      | Some d \<Rightarrow>
          let start = toInstant d startTime; end0 = toInstant d endTime in
          (start,
           case (start, end0) of
             (Some s, Some e) \<Rightarrow> Some (if e \<le> s then e + DAY_MS else e)
           | _ \<Rightarrow> end0))"

record effective_window =
  scheduledStart :: "instant option"
  scheduledEnd :: "instant option"
  winStart :: "instant option"
  winEnd :: "instant option"

text \<open>A work date arrives as a string or as a Date read from a \<open>date\<close> column.\<close>

datatype work_date = WNone | WStr string | WDate instant

fun work_date_string :: "work_date \<Rightarrow> string option" where
  "work_date_string WNone = None"
| "work_date_string (WDate d) = Some (vnDateString d)"
| "work_date_string (WStr s) = (if s = [] then None else Some (take 10 s))"

definition resolveEffectiveShiftWindow ::
  "work_date \<Rightarrow> string option \<Rightarrow> string option \<Rightarrow> datev \<Rightarrow> datev \<Rightarrow> effective_window" where
  "resolveEffectiveShiftWindow workDate startTime endTime adjustedStartAt adjustedEndAt =
     (case resolveShiftBoundaries (work_date_string workDate) startTime endTime of
        (ss, se) \<Rightarrow>
          \<lparr> scheduledStart = ss, scheduledEnd = se,
            winStart = opt_or (instantMs adjustedStartAt) ss,
            winEnd = opt_or (instantMs adjustedEndAt) se \<rparr>)"

record work_shift =
  wsStartTime :: "string option"
  wsEndTime :: "string option"

record shift_slot =
  slotWorkDate :: work_date
  slotStartTime :: "string option"
  slotEndTime :: "string option"
  slotWorkShift :: "work_shift option"

definition effectiveWindowOf :: "datev \<Rightarrow> datev \<Rightarrow> shift_slot option \<Rightarrow> effective_window" where
  "effectiveWindowOf adjustedStartAt adjustedEndAt slot =
     (case slot of
        None \<Rightarrow> resolveEffectiveShiftWindow WNone None None adjustedStartAt adjustedEndAt
      | Some sl \<Rightarrow> resolveEffectiveShiftWindow (slotWorkDate sl)
          (str_or (slotStartTime sl) (Option.bind (slotWorkShift sl) wsStartTime))
          (str_or (slotEndTime sl) (Option.bind (slotWorkShift sl) wsEndTime))
          adjustedStartAt adjustedEndAt)"

definition resolveRequestedInstant :: "effective_window \<Rightarrow> string \<Rightarrow> string option \<Rightarrow> instant option" where
  "resolveRequestedInstant window workDate time =
     (case (nonempty time, scheduledStart window, scheduledEnd window) of
        (Some t, Some s, Some e) \<Rightarrow>
          (case toInstant (take 10 workDate) (Some (take 8 t)) of
             None \<Rightarrow> None
           | Some sameDay \<Rightarrow>
               if s \<le> sameDay \<and> sameDay \<le> e then Some sameDay
               else if s \<le> sameDay + DAY_MS \<and> sameDay + DAY_MS \<le> e then Some (sameDay + DAY_MS)
               else None)
      | _ \<Rightarrow> None)"

definition minutesBetween :: "instant \<Rightarrow> instant \<Rightarrow> int" where
  "minutesBetween a b = max 0 ((b - a) div 60000)"

definition calculateLateMinutes :: "instant option \<Rightarrow> instant \<Rightarrow> int" where
  "calculateLateMinutes start now = (case start of None \<Rightarrow> 0 | Some s \<Rightarrow> max 0 ((now - s) div 60000))"

definition calculateEarlyMinutes :: "instant option \<Rightarrow> instant \<Rightarrow> int" where
  "calculateEarlyMinutes end now = (case end of None \<Rightarrow> 0 | Some e \<Rightarrow> max 0 ((e - now) div 60000))"

record attendance_deltas =
  dLateMinutes :: int
  dEarlyArrivalMinutes :: int
  dEarlyMinutes :: int
  dOvertimeMinutes :: int

definition computeAttendanceDeltas ::
  "instant option \<Rightarrow> instant option \<Rightarrow> instant option \<Rightarrow> instant option \<Rightarrow> bool \<Rightarrow> attendance_deltas" where
  "computeAttendanceDeltas start end checkIn checkOut autoCheckedOut =
     (let out = (if autoCheckedOut then None else checkOut);
          between = (\<lambda>a b. case (a, b) of (Some x, Some y) \<Rightarrow> minutesBetween x y | _ \<Rightarrow> 0) in
      \<lparr> dLateMinutes = between start checkIn,
        dEarlyArrivalMinutes = between checkIn start,
        dEarlyMinutes = between out end,
        dOvertimeMinutes = between end out \<rparr>)"

text \<open>Recorded minutes are numeric columns: \<open>Number(recorded) > 0\<close> decides, NaN does not count.\<close>

definition withinGraceMinutes :: "int option \<Rightarrow> int option \<Rightarrow> jsval \<Rightarrow> jsval \<Rightarrow> int \<times> int" where
  "withinGraceMinutes lateMinutes earlyMinutes recordedLate recordedEarly =
     (let positive = (\<lambda>v. case js_number v of Fin x \<Rightarrow> 0 < x | PInf \<Rightarrow> True | _ \<Rightarrow> False);
          raw = (\<lambda>m. max 0 (case m of Some x \<Rightarrow> x | None \<Rightarrow> 0)) in
      (if positive recordedLate then 0 else raw lateMinutes,
       if positive recordedEarly then 0 else raw earlyMinutes))"

section \<open>Boundaries\<close>

text \<open>A clock string with hour, minute and second in range; \<open>24:00\<close> is excluded.\<close>

definition clock_ok :: "string \<Rightarrow> bool" where
  "clock_ok t \<longleftrightarrow> is_hms t \<and> (case hms_of t of (h, mi, s) \<Rightarrow> h \<le> 23 \<and> mi \<le> 59 \<and> s \<le> 59)"

definition clock_ms :: "string \<Rightarrow> int" where
  "clock_ms t = (case hms_of t of (h, mi, s) \<Rightarrow> h * 3600000 + mi * 60000 + s * 1000)"

lemma is_hms_not_nil: "is_hms t \<Longrightarrow> t \<noteq> []"
  by (auto simp: is_hms_def)

lemma hms_of_nonneg: "hms_of t = (h, mi, s) \<Longrightarrow> 0 \<le> h \<and> 0 \<le> mi \<and> 0 \<le> s"
  by (auto simp: hms_of_def)

lemma clock_ms_range: "clock_ok t \<Longrightarrow> 0 \<le> clock_ms t \<and> clock_ms t < DAY_MS"
  by (cases "hms_of t") (auto simp: clock_ok_def clock_ms_def DAY_MS_def dest: hms_of_nonneg)

lemma toInstant_range:
  assumes "toInstant d time = Some x"
  shows "\<exists>day. day * DAY_MS - VN_OFFSET_MS \<le> x \<and> x \<le> day * DAY_MS + DAY_MS - VN_OFFSET_MS \<and>
    (case ymd_of d of (y, mo, dd) \<Rightarrow> day = make_day y (mo - 1) dd)"
proof -
  obtain t where t: "time = Some t" "is_ymd d" "is_hms t" "parse_vn_datetime d t = Some x"
    using assms by (auto simp: toInstant_def nonempty_def split: option.splits if_splits)
  obtain y mo dd h mi s where p: "ymd_of d = (y, mo, dd)" "hms_of t = (h, mi, s)"
    by (cases "ymd_of d"; cases "hms_of t") auto
  show ?thesis
    using t p hms_of_nonneg [OF p(2)]
    by (auto simp: parse_vn_datetime_def DAY_MS_def split: if_splits)
qed

text \<open>For a real date and clock time the instant is that wall-clock moment in Vietnam.\<close>

lemma toInstant_civil:
  assumes "four_digit_year n" "clock_ok t"
  shows "toInstant (day_string n) (Some t) = Some (n * DAY_MS + clock_ms t - VN_OFFSET_MS)"
proof -
  let ?c = "civil_of_day n"
  have v: "valid_civil ?c" by (rule civil_of_day_valid)
  have "1 \<le> cmonth ?c" "cmonth ?c \<le> 12" "1 \<le> cday ?c" "cday ?c \<le> 31"
    using v days_in_month_bounds [of "cmonth ?c" "cyear ?c"] by (auto simp: valid_civil_def)
  moreover have "make_day (cyear ?c) (cmonth ?c - 1) (cday ?c) = n"
    using day_of_civil_of_day [of n] by (simp only: day_of_civil_def)
  moreover obtain h mi s where "hms_of t = (h, mi, s)" by (cases "hms_of t") auto
  moreover have "t \<noteq> []" using assms(2) by (auto simp: clock_ok_def dest: is_hms_not_nil)
  ultimately show ?thesis
    using assms day_string_parse [OF assms(1)]
    by (auto simp: toInstant_def nonempty_def clock_ok_def parse_vn_datetime_def clock_ms_def)
qed

lemma toISOString_fields:
  assumes "four_digit_year n" "0 \<le> r" "r < DAY_MS"
  shows "take 10 (toISOString (n * DAY_MS + r)) = day_string n"
    "take 5 (drop 11 (toISOString (n * DAY_MS + r))) =
       two_digits (nat (r div 3600000)) @ '':'' @ two_digits (nat (r div 60000 mod 60))"
proof -
  have d: "(n * DAY_MS + r) div DAY_MS = n" "(n * DAY_MS + r) mod DAY_MS = r" "r div DAY_MS = 0" "r mod DAY_MS = r"
    using assms(2,3) by (auto simp: DAY_MS_def)
  have l: "length (day_string n) = 10"
    using assms(1) by (simp add: four_digit_year_def length_civil_string)
  show "take 10 (toISOString (n * DAY_MS + r)) = day_string n"
    "take 5 (drop 11 (toISOString (n * DAY_MS + r))) =
       two_digits (nat (r div 3600000)) @ '':'' @ two_digits (nat (r div 60000 mod 60))"
    by (simp_all only: toISOString_def Let_def d) (simp_all add: l)
qed

lemma vn_clock_of:
  assumes "four_digit_year n" "0 \<le> r" "r < DAY_MS"
  shows "vnDateString (n * DAY_MS + r - VN_OFFSET_MS) = day_string n"
    "vnClockHHmm (n * DAY_MS + r - VN_OFFSET_MS) =
       two_digits (nat (r div 3600000)) @ '':'' @ two_digits (nat (r div 60000 mod 60))"
  using toISOString_fields [OF assms] by (simp_all add: vnDateString_def vnClockHHmm_def)

lemma two_digits_of_chars:
  "is_digit a \<Longrightarrow> is_digit b \<Longrightarrow> two_digits (digits_val [a, b]) = [a, b]"
proof -
  assume d: "is_digit a" "is_digit b"
  have v: "digit_val c < 10" "digit_char (digit_val c) = c" if "is_digit c" for c
    using that by (auto simp: is_digit_iff digit_val_def digit_char_def)
  have "digits_val [a, b] = 10 * digit_val a + digit_val b" by (simp add: digits_val_def)
  then show ?thesis using v [OF d(1)] v [OF d(2)] by (simp add: two_digits_def)
qed

lemma clock_string:
  assumes "clock_ok t"
  shows "two_digits (nat (clock_ms t div 3600000)) @ '':'' @ two_digits (nat (clock_ms t div 60000 mod 60)) = take 5 t"
proof -
  obtain h mi sec where p: "hms_of t = (h, mi, sec)" by (cases "hms_of t") auto
  have t: "is_hms t" and r: "h \<le> 23" "mi \<le> 59" "sec \<le> 59" "0 \<le> h" "0 \<le> mi" "0 \<le> sec"
    using assms p hms_of_nonneg [OF p] by (auto simp: clock_ok_def)
  have q: "clock_ms t div 3600000 = h" "clock_ms t div 60000 mod 60 = mi"
  proof -
    have "clock_ms t = h * 3600000 + (mi * 60000 + sec * 1000)" using p by (simp add: clock_ms_def)
    then show "clock_ms t div 3600000 = h" using r by (intro int_div_pos_eq [where r = "mi * 60000 + sec * 1000"]) auto
    have "clock_ms t = 60000 * (h * 60 + mi) + sec * 1000" using p by (simp add: clock_ms_def)
    then have "clock_ms t div 60000 = h * 60 + mi" using r by (intro int_div_pos_eq [where r = "sec * 1000"]) auto
    then show "clock_ms t div 60000 mod 60 = mi" using r by simp
  qed
  have len: "5 \<le> length t" using t by (auto simp: is_hms_def)
  then obtain c0 c1 c2 c3 c4 cs where tt: "t = c0 # c1 # c2 # c3 # c4 # cs"
    by (auto simp: Suc_le_length_iff numeral_eq_Suc)
  then have split: "take 5 t = take 2 t @ t ! 2 # take 2 (drop 3 t)"
    and a: "take 2 t = [t ! 0, t ! 1]" "take 2 (drop 3 t) = [drop 3 t ! 0, drop 3 t ! 1]"
    by (simp_all add: numeral_eq_Suc)
  have dg: "list_all is_digit (take 2 t)" "list_all is_digit (take 2 (drop 3 t))" "t ! 2 = CHR '':''"
    using t by (auto simp: is_hms_def)
  have "two_digits (nat h) = take 2 t" "two_digits (nat mi) = take 2 (drop 3 t)"
    using p dg a two_digits_of_chars by (auto simp: hms_of_def)
  then show ?thesis using q split dg(3) by simp
qed

text \<open>
  A shift whose work date and clock times are well formed starts on that Vietnam date at that
  clock time and ends at the end clock time, strictly later and at most 24 hours later; it ends on
  the same date exactly when the end clock is after the start clock, else on the next date (an
  overnight shift).
\<close>

theorem shift_boundaries_wall_clock:
  assumes "four_digit_year n" "four_digit_year (n + 1)" "clock_ok ts" "clock_ok te"
  shows "\<exists>s e. resolveShiftBoundaries (Some (day_string n)) (Some ts) (Some te) = (Some s, Some e) \<and>
    s < e \<and> e \<le> s + DAY_MS \<and>
    vnDateString s = day_string n \<and> vnClockHHmm s = take 5 ts \<and> vnClockHHmm e = take 5 te \<and>
    vnDateString e = (if clock_ms ts < clock_ms te then day_string n else day_string (n + 1))"
proof -
  note r = clock_ms_range [OF assms(3)] clock_ms_range [OF assms(4)]
  let ?s = "n * DAY_MS + clock_ms ts - VN_OFFSET_MS" and ?e0 = "n * DAY_MS + clock_ms te - VN_OFFSET_MS"
  let ?e = "if ?e0 \<le> ?s then ?e0 + DAY_MS else ?e0"
  have ne: "day_string n \<noteq> []" using assms(1) length_civil_string [of "civil_of_day n"]
    by (auto simp: four_digit_year_def)
  have "resolveShiftBoundaries (Some (day_string n)) (Some ts) (Some te) = (Some ?s, Some ?e)"
    using ne by (simp add: resolveShiftBoundaries_def nonempty_def Let_def toInstant_civil assms)
  moreover have "?s < ?e \<and> ?e \<le> ?s + DAY_MS" using r by auto
  moreover have "vnDateString ?s = day_string n" "vnClockHHmm ?s = take 5 ts"
    using vn_clock_of [OF assms(1), of "clock_ms ts"] r clock_string [OF assms(3)] by auto
  moreover have "vnClockHHmm ?e = take 5 te \<and>
    vnDateString ?e = (if clock_ms ts < clock_ms te then day_string n else day_string (n + 1))"
  proof (cases "clock_ms ts < clock_ms te")
    case True
    then show ?thesis using vn_clock_of [OF assms(1), of "clock_ms te"] r clock_string [OF assms(4)] by simp
  next
    case False
    then have e: "?e = (n + 1) * DAY_MS + clock_ms te - VN_OFFSET_MS" by (simp add: algebra_simps)
    show ?thesis unfolding e
      using False vn_clock_of [OF assms(2), of "clock_ms te"] r clock_string [OF assms(4)] by simp
  qed
  ultimately show ?thesis by blast
qed

theorem shift_boundaries_wall_clock_witness:
  "four_digit_year 20000 \<and> four_digit_year 20001 \<and>
   (\<exists>s e. resolveShiftBoundaries (Some (day_string 20000)) (Some ''22:00'') (Some ''06:00:00'') = (Some s, Some e) \<and>
      s < e \<and> vnDateString e = day_string 20001)"
proof -
  have h: "four_digit_year 20000" "four_digit_year (20000 + 1)" "clock_ok ''22:00''" "clock_ok ''06:00:00''"
    "\<not> clock_ms ''22:00'' < clock_ms ''06:00:00''"
    by code_simp+
  show ?thesis using shift_boundaries_wall_clock [OF h(1-4)] h by auto
qed

lemma resolveRequestedInstant_Some:
  assumes "resolveRequestedInstant w d t = Some x"
  obtains s e where "scheduledStart w = Some s" "scheduledEnd w = Some e" "s \<le> x" "x \<le> e"
  using assms unfolding resolveRequestedInstant_def
  by (auto split: option.splits if_splits)

text \<open>
  The four deltas of an attendance are mutually exclusive pairs that account for the whole gap: a
  check-in is late or early, never both, a check-out is early or overtime, never both, they agree with
  the single-sided functions, and an automatic check-out counts neither way.
\<close>

theorem attendance_deltas_exclusive:
  assumes "computeAttendanceDeltas (Some s) (Some e) (Some i) (Some out) auto = d"
  shows "(dLateMinutes d = 0 \<or> dEarlyArrivalMinutes d = 0) \<and> (dEarlyMinutes d = 0 \<or> dOvertimeMinutes d = 0) \<and>
    dLateMinutes d = calculateLateMinutes (Some s) i \<and>
    (dLateMinutes d + dEarlyArrivalMinutes d) * 60000 \<le> \<bar>i - s\<bar> \<and>
    \<bar>i - s\<bar> < (dLateMinutes d + dEarlyArrivalMinutes d + 1) * 60000 \<and>
    (if auto then dEarlyMinutes d = 0 \<and> dOvertimeMinutes d = 0
     else dEarlyMinutes d = calculateEarlyMinutes (Some e) out \<and>
       (dEarlyMinutes d + dOvertimeMinutes d) * 60000 \<le> \<bar>out - e\<bar> \<and>
       \<bar>out - e\<bar> < (dEarlyMinutes d + dOvertimeMinutes d + 1) * 60000)"
proof -
  have key: "(minutesBetween a b = 0 \<or> minutesBetween b a = 0) \<and>
      (minutesBetween a b + minutesBetween b a) * 60000 \<le> \<bar>b - a\<bar> \<and>
      \<bar>b - a\<bar> < (minutesBetween a b + minutesBetween b a + 1) * 60000" for a b
  proof -
    have p: "0 < (60000 :: int)" by simp
    note q = div_bounds_int [OF p, of "b - a"] div_bounds_int [OF p, of "a - b"]
    show ?thesis
    proof (cases "a \<le> b")
      case True
      then have "(a - b) div 60000 \<le> 0" "0 \<le> (b - a) div 60000"
        using q by linarith+
      then show ?thesis using True q by (simp add: minutesBetween_def max_def algebra_simps)
    next
      case False
      then have "(b - a) div 60000 \<le> 0" "0 \<le> (a - b) div 60000"
        using q by linarith+
      then show ?thesis using False q by (simp add: minutesBetween_def max_def algebra_simps)
    qed
  qed
  have d: "dLateMinutes d = minutesBetween s i" "dEarlyArrivalMinutes d = minutesBetween i s"
    "dEarlyMinutes d = (if auto then 0 else minutesBetween out e)"
    "dOvertimeMinutes d = (if auto then 0 else minutesBetween e out)"
    using assms by (auto simp: computeAttendanceDeltas_def Let_def)
  show ?thesis
    unfolding d using key [of s i] key [of e out]
    by (cases auto) (simp_all add: calculateLateMinutes_def calculateEarlyMinutes_def minutesBetween_def add.commute disj_commute)
qed

theorem attendance_deltas_exclusive_witness:
  "let d = computeAttendanceDeltas (Some 0) (Some 28800000) (Some 900000) (Some 28200000) False in
     dLateMinutes d = 15 \<and> dEarlyMinutes d = 10 \<and> dEarlyArrivalMinutes d = 0 \<and> dOvertimeMinutes d = 0"
proof -
  have d: "computeAttendanceDeltas (Some 0) (Some 28800000) (Some 900000) (Some 28200000) False =
      \<lparr> dLateMinutes = 15, dEarlyArrivalMinutes = 0, dEarlyMinutes = 10, dOvertimeMinutes = 0 \<rparr>"
    by code_simp
  show ?thesis using attendance_deltas_exclusive [OF d] by (simp add: d)
qed

end
