(* ===== verification/AttendanceRules.thy ===== *)
theory AttendanceRules
  imports AttendanceTime
begin

text \<open>
  \<open>src/modules/stores/attendance-rules.ts\<close>: the owner's attendance settings (grace, early check-in
  window, credit for late / early) and the paid minutes of one attendance in the two counting modes.
\<close>

datatype worked_time_mode = SHIFT_MODE | ACTUAL_MODE

record attendance_rules =
  graceMinutes :: int
  earlyGraceMinutes :: int
  earlyCheckinMinutes :: int
  lateCheckoutMinutes :: int
  creditLateEarly :: bool

record attendance_rule_settings =
  sAllowedLateMinutes :: jsval
  sAllowedEarlyLeaveMinutes :: jsval
  sEarlyCheckinMinutes :: jsval
  sLateCheckoutMinutes :: jsval
  sCountFullTimeIfLate :: "bool option"
  sDeductWorkTimeIfLate :: "bool option"

definition DEFAULT_ATTENDANCE_RULES :: attendance_rules where
  "DEFAULT_ATTENDANCE_RULES = \<lparr> graceMinutes = 0, earlyGraceMinutes = 0, earlyCheckinMinutes = 15,
     lateCheckoutMinutes = 15, creditLateEarly = False \<rparr>"

definition minutesOr :: "jsval \<Rightarrow> int \<Rightarrow> int" where
  "minutesOr value fallback =
     (if nullish value then fallback
      else case js_number value of Fin n \<Rightarrow> if n < 0 then fallback else \<lfloor>n\<rfloor> | _ \<Rightarrow> fallback)"

definition resolveAttendanceRules :: "attendance_rule_settings option \<Rightarrow> attendance_rules" where
  "resolveAttendanceRules setting =
     (case setting of
        None \<Rightarrow> DEFAULT_ATTENDANCE_RULES
      | Some s \<Rightarrow>
          let grace = minutesOr (sAllowedLateMinutes s) (graceMinutes DEFAULT_ATTENDANCE_RULES) in
          \<lparr> graceMinutes = grace,
            earlyGraceMinutes = minutesOr (sAllowedEarlyLeaveMinutes s) grace,
            earlyCheckinMinutes = minutesOr (sEarlyCheckinMinutes s) (earlyCheckinMinutes DEFAULT_ATTENDANCE_RULES),
            lateCheckoutMinutes = minutesOr (sLateCheckoutMinutes s) (lateCheckoutMinutes DEFAULT_ATTENDANCE_RULES),
            creditLateEarly = (sCountFullTimeIfLate s = Some True \<or> sDeductWorkTimeIfLate s = Some False) \<rparr>)"

datatype grace_kind = Late | Early

definition applyGrace :: "int \<Rightarrow> attendance_rules \<Rightarrow> grace_kind \<Rightarrow> int" where
  "applyGrace rawMinutes rules kind =
     (let raw = max 0 rawMinutes;
          grace = (if kind = Early then earlyGraceMinutes rules else graceMinutes rules)
      in if raw \<le> grace then 0 else raw)"

definition checkInOpensAt :: "instant option \<Rightarrow> attendance_rules \<Rightarrow> instant option" where
  "checkInOpensAt start rules = map_option (\<lambda>s. s - earlyCheckinMinutes rules * 60000) start"

record worked_input =
  wiStart :: "instant option"
  wiEnd :: "instant option"
  wiCheckIn :: instant
  wiCheckOut :: instant
  wiRules :: attendance_rules
  wiStoredLate :: "int option"
  wiPaidUntil :: "instant option"
  wiMode :: "worked_time_mode option"
  wiCapAtPaidEnd :: bool

definition paid_end :: "worked_input \<Rightarrow> instant option" where
  "paid_end w = (case wiPaidUntil w of
       Some p \<Rightarrow> (case wiEnd w of None \<Rightarrow> Some p | Some e \<Rightarrow> if p > e then Some p else Some e)
     | None \<Rightarrow> wiEnd w)"

definition credited :: "attendance_rules \<Rightarrow> int \<Rightarrow> grace_kind \<Rightarrow> int option \<Rightarrow> bool" where
  "credited rules gapMs kind recorded \<longleftrightarrow>
     creditLateEarly rules \<or>
     (case recorded of Some r \<Rightarrow> r = 0 | None \<Rightarrow> applyGrace (gapMs div 60000) rules kind = 0)"

definition paid_from :: "worked_input \<Rightarrow> instant" where
  "paid_from w = (case wiStart w of
       None \<Rightarrow> wiCheckIn w
     | Some s \<Rightarrow>
         if wiCheckIn w < s then s
         else if wiCheckIn w > s \<and> credited (wiRules w) (wiCheckIn w - s) Late (wiStoredLate w) then s
         else wiCheckIn w)"

definition paid_to :: "worked_input \<Rightarrow> instant" where
  "paid_to w =
     (let to1 = (case wiEnd w of
            Some e \<Rightarrow> if wiCheckOut w < e \<and> credited (wiRules w) (e - wiCheckOut w) Early None then e
                      else wiCheckOut w
          | None \<Rightarrow> wiCheckOut w)
      in case paid_end w of Some p \<Rightarrow> if to1 > p then p else to1 | None \<Rightarrow> to1)"

definition creditedWorkedMinutes :: "worked_input \<Rightarrow> int" where
  "creditedWorkedMinutes w =
     (if (case wiMode w of Some m \<Rightarrow> m | None \<Rightarrow> SHIFT_MODE) = ACTUAL_MODE then
        let to = (case paid_end w of
              Some p \<Rightarrow> if wiCapAtPaidEnd w \<and> wiCheckOut w > p then p else wiCheckOut w
            | None \<Rightarrow> wiCheckOut w)
        in max 0 ((to - wiCheckIn w) div 60000)
      else max 0 ((paid_to w - paid_from w) div 60000))"

section \<open>Properties\<close>

lemma minutesOr_nonneg: "0 \<le> fallback \<Longrightarrow> 0 \<le> minutesOr value fallback"
  by (auto simp: minutesOr_def split: jsnum.splits)

definition rules_ok :: "attendance_rules \<Rightarrow> bool" where
  "rules_ok r \<longleftrightarrow> 0 \<le> graceMinutes r \<and> 0 \<le> earlyGraceMinutes r \<and> 0 \<le> earlyCheckinMinutes r \<and> 0 \<le> lateCheckoutMinutes r"

lemma resolveAttendanceRules_ok: "rules_ok (resolveAttendanceRules setting)"
  by (auto simp: resolveAttendanceRules_def rules_ok_def DEFAULT_ATTENDANCE_RULES_def Let_def
      intro!: minutesOr_nonneg split: option.splits)

lemma applyGrace_cases:
  "applyGrace m r Late = (if m \<le> graceMinutes r \<and> 0 \<le> graceMinutes r \<or> m \<le> 0 then 0 else m)"
  "applyGrace m r Early = (if m \<le> earlyGraceMinutes r \<and> 0 \<le> earlyGraceMinutes r \<or> m \<le> 0 then 0 else m)"
  by (auto simp: applyGrace_def Let_def)

lemma paid_from_ge: "wiStart w = Some s \<Longrightarrow> s \<le> paid_from w"
  by (auto simp: paid_from_def)

lemma paid_to_le: "paid_end w = Some p \<Longrightarrow> paid_to w \<le> p"
  by (auto simp: paid_to_def Let_def split: option.splits)

lemma paid_end_ge: "wiEnd w = Some e \<Longrightarrow> \<exists>p. paid_end w = Some p \<and> e \<le> p"
  by (auto simp: paid_end_def split: option.splits)

lemma minutes_mono: "(a :: int) \<le> b \<Longrightarrow> max 0 (a div 60000) \<le> max 0 (b div 60000)"
  by (meson max.mono order_refl zdiv_mono1 zero_less_numeral)

text \<open>
  C27. Counting by the schedule never pays outside the shift: with both boundaries known, the credited
  minutes are non-negative and at most the whole minutes from the shift start to the paid end (the
  shift end, or the approved overtime end when later), whatever the check-in and check-out.
\<close>

theorem credited_minutes_within_shift:
  assumes "wiMode w \<noteq> Some ACTUAL_MODE" "wiStart w = Some s" "wiEnd w = Some e"
  shows "0 \<le> creditedWorkedMinutes w \<and>
    creditedWorkedMinutes w \<le> max 0 ((max e (case wiPaidUntil w of Some p \<Rightarrow> p | None \<Rightarrow> e) - s) div 60000)"
proof -
  let ?p = "max e (case wiPaidUntil w of Some p \<Rightarrow> p | None \<Rightarrow> e)"
  have "paid_end w = Some ?p"
    using assms(3) by (auto simp: paid_end_def max_def split: option.splits)
  then have "paid_to w - paid_from w \<le> ?p - s"
    using paid_to_le [of w ?p] paid_from_ge [OF assms(2)] by simp
  then have "max 0 ((paid_to w - paid_from w) div 60000) \<le> max 0 ((?p - s) div 60000)"
    by (rule minutes_mono)
  moreover have "(case wiMode w of Some m \<Rightarrow> m | None \<Rightarrow> SHIFT_MODE) = SHIFT_MODE"
    using assms(1) by (cases "wiMode w") (auto intro: worked_time_mode.exhaust)
  ultimately show ?thesis by (simp add: creditedWorkedMinutes_def)
qed

definition sample_attendance :: worked_input where
  "sample_attendance = \<lparr> wiStart = Some 0, wiEnd = Some 28800000, wiCheckIn = 300000, wiCheckOut = 32400000,
     wiRules = DEFAULT_ATTENDANCE_RULES\<lparr>graceMinutes := 10\<rparr>, wiStoredLate = None, wiPaidUntil = None,
     wiMode = None, wiCapAtPaidEnd = False \<rparr>"

theorem credited_minutes_within_shift_witness:
  "creditedWorkedMinutes sample_attendance = 480 \<and> 0 \<le> creditedWorkedMinutes sample_attendance \<and>
   creditedWorkedMinutes sample_attendance \<le> max 0 ((28800000 - 0) div 60000)"
proof -
  have h: "wiMode sample_attendance \<noteq> Some ACTUAL_MODE" "wiStart sample_attendance = Some 0"
    "wiEnd sample_attendance = Some 28800000" "wiPaidUntil sample_attendance = None"
    by (simp_all add: sample_attendance_def)
  have "creditedWorkedMinutes sample_attendance = 480" by code_simp
  then show ?thesis using credited_minutes_within_shift [OF h(1-3)] h(4) by simp
qed

text \<open>
  Forgiveness is full pay: when the arrival's recorded late minutes are zero under the rules (or
  the check-in already recorded zero), and the departure's early minutes are zero under the rules or
  the employee stayed to the end, the whole shift is paid, exactly its minutes.
\<close>

theorem forgiven_attendance_paid_in_full:
  assumes mode: "wiMode w \<noteq> Some ACTUAL_MODE" and start: "wiStart w = Some s" and "wiEnd w = Some e"
    and no_overtime: "wiPaidUntil w = None" and "s \<le> e"
    and late: "case wiStoredLate w of Some r \<Rightarrow> r = 0
      | None \<Rightarrow> applyGrace (calculateLateMinutes (Some s) (wiCheckIn w)) (wiRules w) Late = 0"
    and early: "applyGrace (calculateEarlyMinutes (Some e) (wiCheckOut w)) (wiRules w) Early = 0"
  shows "creditedWorkedMinutes w = (e - s) div 60000"
proof -
  have grace0: "applyGrace (max 0 m) r k = applyGrace m r k" for m r k
    by (simp add: applyGrace_def Let_def)
  have "paid_from w = s"
  proof (cases "wiStoredLate w")
    case None
    then show ?thesis using late start
      by (auto simp: paid_from_def credited_def calculateLateMinutes_def grace0)
  next
    case (Some r)
    then show ?thesis using late start by (auto simp: paid_from_def credited_def)
  qed
  moreover have "paid_to w = e"
    using assms(3) no_overtime early
    by (auto simp: paid_to_def paid_end_def credited_def calculateEarlyMinutes_def grace0 Let_def)
  moreover have "0 \<le> (e - s) div 60000" using \<open>s \<le> e\<close> by (simp add: pos_imp_zdiv_nonneg_iff)
  moreover have "(case wiMode w of Some m \<Rightarrow> m | None \<Rightarrow> SHIFT_MODE) = SHIFT_MODE"
    using mode by (cases "wiMode w") (auto intro: worked_time_mode.exhaust)
  ultimately show ?thesis by (simp add: creditedWorkedMinutes_def)
qed

theorem forgiven_attendance_paid_in_full_witness:
  "creditedWorkedMinutes sample_attendance = (28800000 - 0) div 60000"
proof (rule forgiven_attendance_paid_in_full)
  show "wiMode sample_attendance \<noteq> Some ACTUAL_MODE" "wiStart sample_attendance = Some 0"
    "wiEnd sample_attendance = Some 28800000" "wiPaidUntil sample_attendance = None" "(0 :: int) \<le> 28800000"
    by (simp_all add: sample_attendance_def)
  show "case wiStoredLate sample_attendance of Some r \<Rightarrow> r = 0
      | None \<Rightarrow> applyGrace (calculateLateMinutes (Some 0) (wiCheckIn sample_attendance)) (wiRules sample_attendance) Late = 0"
    by code_simp
  show "applyGrace (calculateEarlyMinutes (Some 28800000) (wiCheckOut sample_attendance)) (wiRules sample_attendance) Early = 0"
    by code_simp
qed

end
