(* ===== verification/KeepBest.thy ===== *)
theory KeepBest
  imports Main
begin

text \<open>
  The idiom "walk a list, keep the current best, replace it when the next element wins", which the
  code uses to pick the newest rule, the best wage rate, the heaviest occurrence of a day, the line
  that absorbs a rounding difference and the shift that owns a day. The interface \<open>selection\<close> states
  what the replacement test must promise; its lemmas give what the loop returns.
\<close>

definition keep_step :: "('a \<Rightarrow> 'a \<Rightarrow> bool) \<Rightarrow> 'a option \<Rightarrow> 'a \<Rightarrow> 'a option" where
  "keep_step replaces b x = (case b of None \<Rightarrow> Some x | Some y \<Rightarrow> if replaces x y then Some x else Some y)"

definition keep_best :: "('a \<Rightarrow> 'a \<Rightarrow> bool) \<Rightarrow> 'a list \<Rightarrow> 'a option" where
  "keep_best replaces xs = foldl (keep_step replaces) None xs"

lemma keep_best_Nil [simp]: "keep_best r [] = None"
  by (simp add: keep_best_def)

lemma keep_best_single [simp]: "keep_best r [x] = Some x"
  by (simp add: keep_best_def keep_step_def)

lemma keep_best_snoc: "keep_best r (xs @ [x]) = keep_step r (keep_best r xs) x"
  by (simp add: keep_best_def)

lemma keep_step_Some: "\<exists>z. keep_step r b x = Some z"
  by (cases b) (auto simp: keep_step_def)

lemma keep_best_None_iff [simp]: "keep_best r xs = None \<longleftrightarrow> xs = []"
  by (induction xs rule: rev_induct) (auto simp: keep_best_snoc keep_step_def split: option.splits)

lemma keep_best_in: "keep_best r xs = Some b \<Longrightarrow> b \<in> set xs"
  by (induction xs arbitrary: b rule: rev_induct)
     (auto simp: keep_best_snoc keep_step_def split: option.splits if_splits)

text \<open>Shape of the result when at least one element was walked.\<close>

lemma keep_best_Some_iff: "(\<exists>b. keep_best r xs = Some b) \<longleftrightarrow> xs \<noteq> []"
  by (metis keep_best_None_iff not_Some_eq)

locale selection =
  fixes replaces :: "'a \<Rightarrow> 'a \<Rightarrow> bool" and beaten_by :: "'a \<Rightarrow> 'a \<Rightarrow> bool"
  assumes replaced: "replaces x y \<Longrightarrow> beaten_by y x"
    and kept: "\<not> replaces x y \<Longrightarrow> beaten_by x y"
    and beaten_refl: "beaten_by x x"
    and beaten_trans: "beaten_by x y \<Longrightarrow> beaten_by y z \<Longrightarrow> beaten_by x z"
begin

lemma best_dominates: "keep_best replaces xs = Some b \<Longrightarrow> x \<in> set xs \<Longrightarrow> beaten_by x b"
proof (induction xs arbitrary: b rule: rev_induct)
  case (snoc a xs)
  show ?case
  proof (cases "keep_best replaces xs")
    case None
    then show ?thesis using snoc.prems by (simp add: keep_best_snoc keep_step_def beaten_refl)
  next
    case (Some y)
    show ?thesis
    proof (cases "x = a")
      case True
      then show ?thesis using snoc.prems Some
        by (auto simp: keep_best_snoc keep_step_def beaten_refl kept split: if_splits)
    next
      case False
      then have "beaten_by x y" using snoc Some by auto
      then show ?thesis using snoc.prems Some
        by (auto simp: keep_best_snoc keep_step_def split: if_splits intro: beaten_trans replaced)
    qed
  qed
qed simp

lemma best_characterised:
  "keep_best replaces xs = Some b \<Longrightarrow> b \<in> set xs \<and> (\<forall>x \<in> set xs. beaten_by x b)"
  by (auto dest: keep_best_in best_dominates)

text \<open>Two lists with the same elements pick equally good elements, in whatever order they come.\<close>

lemma best_order_irrelevant:
  "set xs = set ys \<Longrightarrow> keep_best replaces xs = Some b \<Longrightarrow> keep_best replaces ys = Some c \<Longrightarrow>
     beaten_by b c \<and> beaten_by c b"
  by (auto dest: keep_best_in intro: best_dominates)

end

end
