(* ===== verification/WorkedTimeRules.thy ===== *)
theory WorkedTimeRules
  imports AttendanceRules KeepBest
begin

text \<open>
  \<open>src/modules/stores/worked-time-rules.ts\<close>: which counting mode applies to a shift. A rule covers
  the shifts whose start key (\<open>YYYY-MM-DD HH:mm\<close>, compared as a string) lies in its window and before
  its removal; the newest covering employee rule wins, then the newest store-wide rule, then the
  default. Date columns hold well-formed dates and timestamps valid instants.
\<close>

datatype worked_time_period = DAY | WEEK | MONTH | INDEFINITE

datatype date_col = CStr string | CDate instant

record worked_time_rule =
  rEmployeeProfileId :: "string option"
  rMode :: worked_time_mode
  rStartDate :: date_col
  rStartTime :: "string option"
  rEndDate :: "date_col option"
  rEndTime :: "string option"
  rCreatedAt :: "instant option"
  rDeletedAt :: "instant option"

definition ACTUAL_DEFAULT_FROM :: string where
  "ACTUAL_DEFAULT_FROM = ''2026-10-04 00:40''"

definition defaultWorkedTimeMode :: "string \<Rightarrow> worked_time_mode" where
  "defaultWorkedTimeMode shiftKey = (if shiftKey \<ge> ACTUAL_DEFAULT_FROM then ACTUAL_MODE else SHIFT_MODE)"

fun toDateKey :: "date_col \<Rightarrow> string" where
  "toDateKey (CStr s) = take 10 s"
| "toDateKey (CDate d) = vnDateString d"

definition toTimeKey :: "string option \<Rightarrow> string" where
  "toTimeKey value = (case nonempty value of Some t \<Rightarrow> take 5 t | None \<Rightarrow> ''00:00'')"

definition toRuleKey :: "date_col \<Rightarrow> string option \<Rightarrow> string" where
  "toRuleKey date time = toDateKey date @ '' '' @ toTimeKey time"

definition shiftStartKey :: "work_date \<Rightarrow> string option \<Rightarrow> string option" where
  "shiftStartKey workDate startTime =
     (case workDate of
        WNone \<Rightarrow> None
      | WStr s \<Rightarrow> if s = [] then None else Some (toRuleKey (CStr s) startTime)
      | WDate d \<Rightarrow> Some (toRuleKey (CDate d) startTime))"

definition vnKeyCeil :: "instant \<Rightarrow> string" where
  "vnKeyCeil ms = (let up = - ((- ms) div 60000) * 60000 in vnDateString up @ '' '' @ vnClockHHmm up)"

definition addDays :: "string \<Rightarrow> int \<Rightarrow> string" where
  "addDays dateKey days = (case ymd_of dateKey of (y, m, d) \<Rightarrow>
     take 10 (toISOString (utc_day y (m - 1) (d + days) * DAY_MS)))"

definition ruleWindowEnd ::
  "string \<Rightarrow> string \<Rightarrow> worked_time_period \<Rightarrow> string + (string \<times> string) option" where
  "ruleWindowEnd startDate startTime period =
     (if \<not> is_ymd startDate then Inl ''Invalid start date''
      else Inr (case period of
          DAY \<Rightarrow> Some (addDays startDate 1, startTime)
        | WEEK \<Rightarrow> Some (addDays startDate 7, startTime)
        | MONTH \<Rightarrow>
            (case ymd_of startDate of (y, m, d) \<Rightarrow>
               let lastOfNext = cday (civil_of_day (utc_day y (m + 1) 0));
                   endDate = take 10 (toISOString (utc_day y m (min d lastOfNext) * DAY_MS))
               in Some (endDate, startTime))
        | INDEFINITE \<Rightarrow> None))"

record rule_bounds =
  bStart :: string
  bEnd :: "string option"
  bCut :: "string option"

definition date_col_given :: "date_col option \<Rightarrow> date_col option" where
  "date_col_given c = (case c of Some (CStr []) \<Rightarrow> None | _ \<Rightarrow> c)"

definition ruleBounds :: "worked_time_rule \<Rightarrow> rule_bounds" where
  "ruleBounds rule =
     \<lparr> bStart = toRuleKey (rStartDate rule) (rStartTime rule),
       bEnd = (case date_col_given (rEndDate rule) of
           None \<Rightarrow> None
         | Some d \<Rightarrow> (case nonempty (rEndTime rule) of
               Some t \<Rightarrow> Some (toRuleKey d (Some t))
             | None \<Rightarrow> Some (addDays (toDateKey d) 1 @ '' 00:00''))),
       bCut = map_option vnKeyCeil (rDeletedAt rule) \<rparr>"

definition before_end :: "string \<Rightarrow> string option \<Rightarrow> bool" where
  "before_end k e = (case e of None \<Rightarrow> True | Some x \<Rightarrow> k < x)"

definition ruleWindowsOverlap :: "string \<times> string option \<Rightarrow> string \<times> string option \<Rightarrow> bool" where
  "ruleWindowsOverlap a b \<longleftrightarrow> before_end (fst a) (snd b) \<and> before_end (fst b) (snd a)"

definition ruleCovers :: "worked_time_rule \<Rightarrow> string \<Rightarrow> bool" where
  "ruleCovers rule shiftKey \<longleftrightarrow> (let b = ruleBounds rule in
     shiftKey \<ge> bStart b \<and> before_end shiftKey (bEnd b) \<and> before_end shiftKey (bCut b))"

definition createdMs :: "worked_time_rule \<Rightarrow> int" where
  "createdMs rule = (case rCreatedAt rule of Some ms \<Rightarrow> ms | None \<Rightarrow> 0)"

definition newer :: "worked_time_rule \<Rightarrow> worked_time_rule \<Rightarrow> bool" where
  "newer rule best \<longleftrightarrow> createdMs rule \<ge> createdMs best"

definition newest :: "worked_time_rule list \<Rightarrow> worked_time_rule option" where
  "newest = keep_best newer"

definition resolveWorkedTimeRule ::
  "worked_time_rule list \<Rightarrow> string option \<Rightarrow> string \<Rightarrow> worked_time_rule option" where
  "resolveWorkedTimeRule rules employeeProfileId shiftKey =
     (let covering = filter (\<lambda>r. ruleCovers r shiftKey) rules;
          own = (case nonempty employeeProfileId of
              Some e \<Rightarrow> newest (filter (\<lambda>r. rEmployeeProfileId r = Some e) covering)
            | None \<Rightarrow> None)
      in opt_or own (newest (filter (\<lambda>r. nonempty (rEmployeeProfileId r) = None) covering)))"

definition resolveWorkedTimeMode ::
  "worked_time_rule list \<Rightarrow> string option \<Rightarrow> string \<Rightarrow> worked_time_mode" where
  "resolveWorkedTimeMode rules employeeProfileId shiftKey =
     (case resolveWorkedTimeRule rules employeeProfileId shiftKey of
        Some r \<Rightarrow> rMode r | None \<Rightarrow> defaultWorkedTimeMode shiftKey)"

section \<open>The rule that decides\<close>

interpretation newest: selection newer "\<lambda>x y. createdMs x \<le> createdMs y"
  by unfold_locales (auto simp: newer_def)

definition own_rules :: "worked_time_rule list \<Rightarrow> string option \<Rightarrow> string \<Rightarrow> worked_time_rule set" where
  "own_rules rules emp k = {r \<in> set rules. ruleCovers r k \<and> (\<exists>e. nonempty emp = Some e \<and> rEmployeeProfileId r = Some e)}"

definition store_rules :: "worked_time_rule list \<Rightarrow> string \<Rightarrow> worked_time_rule set" where
  "store_rules rules k = {r \<in> set rules. ruleCovers r k \<and> nonempty (rEmployeeProfileId r) = None}"

lemma newest_Some:
  "newest xs = Some r \<Longrightarrow> r \<in> set xs \<and> (\<forall>x \<in> set xs. createdMs x \<le> createdMs r)"
  unfolding newest_def by (rule newest.best_characterised)

text \<open>
  The deciding rule of a shift: it covers the shift; it is an employee rule whenever the employee
  has a covering rule of their own, otherwise a store-wide one; it is the newest of its kind; and there
  is none exactly when neither kind covers the shift.
\<close>

theorem resolved_rule_correct:
  "case resolveWorkedTimeRule rules emp k of
     None \<Rightarrow> own_rules rules emp k = {} \<and> store_rules rules k = {}
   | Some r \<Rightarrow>
       (if own_rules rules emp k \<noteq> {} then r \<in> own_rules rules emp k \<and> (\<forall>x \<in> own_rules rules emp k. createdMs x \<le> createdMs r)
        else r \<in> store_rules rules k \<and> (\<forall>x \<in> store_rules rules k. createdMs x \<le> createdMs r))"
proof -
  let ?cov = "filter (\<lambda>r. ruleCovers r k) rules"
  let ?own = "case nonempty emp of Some e \<Rightarrow> filter (\<lambda>r. rEmployeeProfileId r = Some e) ?cov | None \<Rightarrow> []"
  let ?store = "filter (\<lambda>r. nonempty (rEmployeeProfileId r) = None) ?cov"
  have sets: "set ?own = own_rules rules emp k" "set ?store = store_rules rules k"
    by (cases "nonempty emp"; auto simp: own_rules_def store_rules_def)+
  have e: "resolveWorkedTimeRule rules emp k = opt_or (newest ?own) (newest ?store)"
    by (simp add: resolveWorkedTimeRule_def Let_def newest_def split: option.splits)
  have n: "newest xs = None \<longleftrightarrow> xs = []" for xs by (simp add: newest_def)
  show ?thesis
  proof (cases "newest ?own")
    case None
    then have "?own = []" by (rule n [THEN iffD1])
    then have o: "own_rules rules emp k = {}" unfolding sets(1) [symmetric] by (simp only: list.set)
    show ?thesis
    proof (cases "newest ?store")
      case None
      then have "?store = []" by (rule n [THEN iffD1])
      then have "store_rules rules k = {}" unfolding sets(2) [symmetric] by (simp only: list.set)
      then show ?thesis using o unfolding e \<open>newest ?own = None\<close> None by simp
    next
      case (Some r)
      show ?thesis using o newest_Some [OF Some] unfolding e \<open>newest ?own = None\<close> Some sets by simp
    qed
  next
    case (Some r)
    then have "own_rules rules emp k \<noteq> {}" using newest_Some [OF Some] unfolding sets by blast
    then show ?thesis using newest_Some [OF Some] unfolding e Some sets by simp
  qed
qed

definition sample_rules :: "worked_time_rule list" where
  "sample_rules =
    [\<lparr> rEmployeeProfileId = None, rMode = SHIFT_MODE, rStartDate = CStr ''2026-10-01'', rStartTime = None,
       rEndDate = None, rEndTime = None, rCreatedAt = Some 5, rDeletedAt = None \<rparr>,
     \<lparr> rEmployeeProfileId = Some ''e1'', rMode = ACTUAL_MODE, rStartDate = CStr ''2026-10-01'', rStartTime = None,
       rEndDate = Some (CStr ''2026-10-07''), rEndTime = Some ''12:00'', rCreatedAt = Some 3, rDeletedAt = None \<rparr>]"

theorem resolved_rule_correct_witness:
  "resolveWorkedTimeRule sample_rules (Some ''e1'') ''2026-10-07 11:59'' = Some (sample_rules ! 1) \<and>
   resolveWorkedTimeRule sample_rules (Some ''e1'') ''2026-10-07 12:00'' = Some (sample_rules ! 0) \<and>
   sample_rules ! 0 \<in> store_rules sample_rules ''2026-10-07 12:00''"
proof -
  let ?k = "''2026-10-07 12:00''"
  have r: "resolveWorkedTimeRule sample_rules (Some ''e1'') ''2026-10-07 11:59'' = Some (sample_rules ! 1)"
    "resolveWorkedTimeRule sample_rules (Some ''e1'') ?k = Some (sample_rules ! 0)"
    and c: "\<not> ruleCovers (sample_rules ! 1) ?k" "createdMs (sample_rules ! 0) = 5"
      "rEmployeeProfileId (sample_rules ! 0) = None" "rEmployeeProfileId (sample_rules ! 1) = Some ''e1''"
    by code_simp+
  have "set sample_rules = {sample_rules ! 0, sample_rules ! 1}" by (simp add: sample_rules_def)
  then have "own_rules sample_rules (Some ''e1'') ?k = {}" using c by (auto simp: own_rules_def)
  then show ?thesis
    using resolved_rule_correct [of sample_rules "Some ''e1''" ?k] r c by (simp add: own_rules_def)
qed

section \<open>Windows\<close>

definition in_window :: "string \<Rightarrow> string \<times> string option \<Rightarrow> bool" where
  "in_window k w \<longleftrightarrow> fst w \<le> k \<and> before_end k (snd w)"

text \<open>
  The overlap test used when a rule is saved is exact: two non-empty windows overlap iff some
  shift key lies in both; and if they do not, no shift is covered by both rules.
\<close>

theorem overlap_test_exact:
  assumes "before_end (fst a) (snd a)" "before_end (fst b) (snd b)"
  shows "ruleWindowsOverlap a b \<longleftrightarrow> (\<exists>k. in_window k a \<and> in_window k b)"
proof
  assume "ruleWindowsOverlap a b"
  then have "in_window (max (fst a) (fst b)) a \<and> in_window (max (fst a) (fst b)) b"
    using assms by (auto simp: ruleWindowsOverlap_def in_window_def before_end_def max_def split: option.splits)
  then show "\<exists>k. in_window k a \<and> in_window k b" by blast
next
  assume "\<exists>k. in_window k a \<and> in_window k b"
  then show "ruleWindowsOverlap a b"
    by (auto simp: ruleWindowsOverlap_def in_window_def before_end_def split: option.splits)
qed

theorem overlap_test_exact_witness:
  "\<not> (\<exists>k. in_window k (''2026-10-01 00:00'', Some ''2026-10-08 00:00'') \<and>
          in_window k (''2026-10-08 00:00'', None))"
proof -
  have h: "before_end (fst (''2026-10-01 00:00'', Some ''2026-10-08 00:00'')) (snd (''2026-10-01 00:00'', Some ''2026-10-08 00:00''))"
    "before_end (fst (''2026-10-08 00:00'', None)) (snd (''2026-10-08 00:00'', None))"
    "\<not> ruleWindowsOverlap (''2026-10-01 00:00'', Some ''2026-10-08 00:00'') (''2026-10-08 00:00'', None)"
    by code_simp+
  show ?thesis using overlap_test_exact [OF h(1,2)] h(3) by blast
qed

text \<open>Calendar steps of the window ends. \<open>Date.UTC\<close> shifts years below 100, so those are excluded.\<close>

definition modern_day :: "int \<Rightarrow> bool" where
  "modern_day n \<longleftrightarrow> 100 \<le> year_of_day n \<and> year_of_day n \<le> 9999"

lemma modern_four: "modern_day n \<Longrightarrow> four_digit_year n"
  by (simp add: modern_day_def four_digit_year_def)

lemma take10_toISO: "four_digit_year n \<Longrightarrow> take 10 (toISOString (n * DAY_MS)) = day_string n"
  using toISOString_fields(1) [of n 0] by (simp add: DAY_MS_def)

lemma addDays_day_string:
  assumes "modern_day n" "four_digit_year (n + k)"
  shows "addDays (day_string n) k = day_string (n + k)"
proof -
  let ?c = "civil_of_day n"
  have "utc_day (cyear ?c) (cmonth ?c - 1) (cday ?c + k) = day_of_civil ?c + k"
    using assms(1) by (simp add: utc_day_def day_of_civil_def make_day_def modern_day_def)
  then show ?thesis
    using assms day_string_parse [OF modern_four [OF assms(1)]]
    by (simp add: addDays_def take10_toISO)
qed

definition month_later :: "civil \<Rightarrow> civil" where
  "month_later c = (case next_month (cyear c) (cmonth c) of (y, m) \<Rightarrow> Civil y m (min (cday c) (days_in_month y m)))"

lemma days_of_next_month:
  assumes "100 \<le> y" "1 \<le> m" "m \<le> 12"
  shows "cday (civil_of_day (utc_day y (m + 1) 0)) = days_in_month (fst (next_month y m)) (snd (next_month y m))"
proof -
  obtain y' m' where n: "next_month y m = (y', m')" by (cases "next_month y m")
  have ok: "1 \<le> m'" "m' \<le> 12" using n assms by (auto simp: next_month_def split: if_splits)
  let ?c = "Civil y' m' (days_in_month y' m')"
  have v: "valid_civil ?c" using ok days_in_month_bounds [OF ok, of y'] by (simp add: valid_civil_def)
  have "utc_day y (m + 1) 0 = day_of_civil ?c"
  proof (cases "m = 11 \<or> m = 12")
    case True
    then show ?thesis using assms n
      by (auto simp: utc_day_def make_day_def day_of_civil_alt days_in_month_def day_from_year_Suc
          month_off_12 next_month_def month_off_def [of _ 0])
  next
    case False
    then have "(m + 1) div 12 = 0" "(m + 1) mod 12 = m + 1" "m' = m + 1" "y' = y"
      using assms n by (auto simp: next_month_def)
    then show ?thesis using assms
      by (simp add: utc_day_def make_day_def day_of_civil_alt days_in_month_def)
  qed
  then show ?thesis using civil_of_day_of_civil [OF v] n by simp
qed

lemma month_later_day:
  assumes "valid_civil c" "100 \<le> cyear c"
  shows "valid_civil (month_later c)" "c < month_later c"
    "utc_day (cyear c) (cmonth c) (cday (month_later c)) = day_of_civil (month_later c)"
proof -
  have ok: "1 \<le> cmonth c" "cmonth c \<le> 12" "1 \<le> cday c"
    using assms(1) by (auto simp: valid_civil_def)
  obtain y' m' where n: "next_month (cyear c) (cmonth c) = (y', m')"
    by (cases "next_month (cyear c) (cmonth c)")
  have ok': "1 \<le> m'" "m' \<le> 12" using n ok by (auto simp: next_month_def split: if_splits)
  have ml: "month_later c = Civil y' m' (min (cday c) (days_in_month y' m'))"
    by (simp add: month_later_def n)
  show "valid_civil (month_later c)"
    using ok ok' days_in_month_bounds [OF ok', of y'] by (simp add: ml valid_civil_def)
  show "c < month_later c"
    using n by (auto simp: ml less_civil_def next_month_def split: if_splits)
  show "utc_day (cyear c) (cmonth c) (cday (month_later c)) = day_of_civil (month_later c)"
  proof (cases "cmonth c = 12")
    case True
    then show ?thesis using assms(2) n ml by (simp add: utc_day_def day_of_civil_def make_day_def next_month_def)
  next
    case False
    then have "cmonth c div 12 = 0" "cmonth c mod 12 = cmonth c" using ok by auto
    moreover have "y' = cyear c" "m' = cmonth c + 1" using False n by (auto simp: next_month_def)
    ultimately show ?thesis using assms(2) ok' by (simp add: ml utc_day_def make_day_def day_of_civil_alt)
  qed
qed

text \<open>
  The exclusive end the code computes for a new rule: the next day, the same weekday a week later,
  or the same day of the next month clipped to that month's length, always at the same clock time and
  strictly after the start; INDEFINITE has no end.
\<close>

theorem rule_window_end_correct:
  assumes "modern_day n" "modern_day (n + 7)" "year_of_day n < 9999"
  shows "ruleWindowEnd (day_string n) t DAY = Inr (Some (day_string (n + 1), t)) \<and>
    ruleWindowEnd (day_string n) t WEEK = Inr (Some (day_string (n + 7), t)) \<and>
    ruleWindowEnd (day_string n) t MONTH = Inr (Some (civil_string (month_later (civil_of_day n)), t)) \<and>
    ruleWindowEnd (day_string n) t INDEFINITE = Inr None \<and>
    day_string n < day_string (n + 1) \<and> day_string n < day_string (n + 7) \<and>
    day_string n < civil_string (month_later (civil_of_day n))"
proof -
  let ?c = "civil_of_day n"
  have f: "four_digit_year n" "four_digit_year (n + 7)" by (rule modern_four, rule assms)+
  have mono: "year_of_day n \<le> year_of_day (n + 1)" "year_of_day (n + 1) \<le> year_of_day (n + 7)"
    using civil_of_day_less [of n "n + 1"] civil_of_day_less [of "n + 1" "n + 7"]
    by (auto simp: less_civil_def simp flip: cyear_civil_of_day)
  then have f1: "four_digit_year (n + 1)" using assms by (auto simp: modern_day_def four_digit_year_def)
  note p = day_string_parse [OF f(1)]
  have c: "valid_civil ?c" "100 \<le> cyear ?c" using civil_of_day_valid assms(1) by (auto simp: modern_day_def)
  then have cm: "1 \<le> cmonth ?c" "cmonth ?c \<le> 12" by (auto simp: valid_civil_def)
  note ml = month_later_day [OF c]
  let ?k = "day_of_civil (month_later ?c)"
  have k: "civil_of_day ?k = month_later ?c" by (rule civil_of_day_of_civil [OF ml(1)])
  have "cyear (month_later ?c) \<le> cyear ?c + 1" by (auto simp: month_later_def next_month_def)
  moreover have "n < ?k" using ml(2) civil_of_day_less [of n ?k] k by simp
  moreover have "cyear ?c \<le> cyear (month_later ?c)" by (auto simp: month_later_def next_month_def)
  ultimately have fk: "four_digit_year ?k" "n < ?k"
    using k assms(1,3) by (auto simp: four_digit_year_def modern_day_def simp flip: cyear_civil_of_day)
  have "cday (month_later ?c) = min (cday ?c) (cday (civil_of_day (utc_day (cyear ?c) (cmonth ?c + 1) 0)))"
    using days_of_next_month [OF c(2) cm] by (simp add: month_later_def split: prod.splits)
  then have "ruleWindowEnd (day_string n) t MONTH = Inr (Some (day_string ?k, t))"
    using p ml(3) fk(1) by (simp add: ruleWindowEnd_def Let_def take10_toISO)
  moreover have "ruleWindowEnd (day_string n) t DAY = Inr (Some (day_string (n + 1), t))"
    "ruleWindowEnd (day_string n) t WEEK = Inr (Some (day_string (n + 7), t))"
    "ruleWindowEnd (day_string n) t INDEFINITE = Inr None"
    using p by (simp_all add: ruleWindowEnd_def addDays_day_string assms f f1)
  moreover have "day_string n < day_string (n + 1)" "day_string n < day_string (n + 7)" "day_string n < day_string ?k"
    using day_string_less f f1 fk by simp_all
  ultimately show ?thesis by (simp only: k simp_thms)
qed

theorem rule_window_end_correct_witness:
  "ruleWindowEnd ''2023-01-31'' ''08:00'' MONTH = Inr (Some (''2023-02-28'', ''08:00''))"
proof -
  have h: "modern_day 19388" "modern_day (19388 + 7)" "year_of_day 19388 < 9999" by code_simp+
  have d: "day_string 19388 = ''2023-01-31''" "civil_string (month_later (civil_of_day 19388)) = ''2023-02-28''"
    by code_simp+
  show ?thesis using rule_window_end_correct [OF h, of "''08:00''"] by (simp only: d)
qed

end
