(* ===== verification/JsMap.thy ===== *)
theory JsMap
  imports Main
begin

text \<open>
  Prelude: JavaScript's \<open>Map\<close>, \<open>Set\<close> and string-keyed objects as association lists in insertion
  order (setting an existing key keeps its place, deleting and setting again moves it to the end), and
  the interface \<open>keyed_map\<close> under which "walk a list and update the entry of each element's key" is
  shown to be, key by key, a walk over the elements of that key. The grouping loops of the payroll
  code (occurrences by code, minutes by date, heaviest by day, owner of a day) all rest on it.
\<close>

type_synonym ('k, 'v) jsmap = "('k \<times> 'v) list"

fun map_set :: "('k, 'v) jsmap \<Rightarrow> 'k \<Rightarrow> 'v \<Rightarrow> ('k, 'v) jsmap" where
  "map_set [] k v = [(k, v)]"
| "map_set ((k', v') # m) k v = (if k' = k then (k, v) # m else (k', v') # map_set m k v)"

definition map_delete :: "('k, 'v) jsmap \<Rightarrow> 'k \<Rightarrow> ('k, 'v) jsmap" where
  "map_delete m k = filter (\<lambda>p. fst p \<noteq> k) m"

definition map_get_or :: "'v \<Rightarrow> ('k, 'v) jsmap \<Rightarrow> 'k \<Rightarrow> 'v" where
  "map_get_or d m k = (case map_of m k of Some v \<Rightarrow> v | None \<Rightarrow> d)"

lemma map_of_map_set [simp]: "map_of (map_set m k v) k' = (if k' = k then Some v else map_of m k')"
  by (induction m k v rule: map_set.induct) auto

lemma map_of_map_delete [simp]: "map_of (map_delete m k) k' = (if k' = k then None else map_of m k')"
  by (induction m) (auto simp: map_delete_def)

lemma keys_map_set [simp]: "fst ` set (map_set m k v) = insert k (fst ` set m)"
  by (induction m k v rule: map_set.induct) auto

lemma distinct_map_set [simp]: "distinct (map fst (map_set m k v)) \<longleftrightarrow> distinct (map fst m)"
proof (induction m k v rule: map_set.induct)
  case (2 k' v' m k v)
  then show ?case using keys_map_set [of m k v] by auto
qed simp

lemma distinct_map_delete: "distinct (map fst m) \<Longrightarrow> distinct (map fst (map_delete m k))"
  by (induction m) (auto simp: map_delete_def)

lemma length_map_set: "length (map_set m k v) = (if k \<in> fst ` set m then length m else Suc (length m))"
  by (induction m k v rule: map_set.induct) auto

lemma length_map_delete: "distinct (map fst m) \<Longrightarrow> k \<in> fst ` set m \<Longrightarrow> Suc (length (map_delete m k)) = length m"
proof (induction m)
  case (Cons p m)
  show ?case
  proof (cases "fst p = k")
    case True
    then have "fst q \<noteq> k" if "q \<in> set m" for q
      using Cons.prems(1) imageI [OF that, of fst] by (cases "fst q = k") (simp_all only: distinct.simps list.map list.set_map, simp)
    then have "filter (\<lambda>q. fst q \<noteq> k) m = m" by (simp add: filter_id_conv)
    then show ?thesis using True by (simp add: map_delete_def)
  next
    case False
    then have "k \<in> fst ` set m" using Cons.prems(2) by auto
    then show ?thesis using False Cons by (simp add: map_delete_def)
  qed
qed simp

lemma map_set_same: "map_of m k = Some v \<Longrightarrow> map_set m k v = m"
  by (induction m k v rule: map_set.induct) (auto split: if_splits)

lemma get_set_or: "map_get_or d (map_set m k v) k' = (if k' = k then v else map_get_or d m k')"
  by (simp add: map_get_or_def)

lemma map_of_in_values: "map_of m k = Some v \<Longrightarrow> v \<in> snd ` set m"
  by (force dest: map_of_SomeD)

section \<open>Sets in insertion order\<close>

definition js_set :: "'a list \<Rightarrow> 'a list" where
  "js_set xs = rev (remdups (rev xs))"

lemma set_js_set [simp]: "set (js_set xs) = set xs"
  by (simp add: js_set_def)

lemma distinct_js_set [simp]: "distinct (js_set xs)"
  by (simp add: js_set_def)

lemma length_js_set: "length (js_set xs) = card (set xs)"
  by (metis distinct_card distinct_js_set set_js_set)

lemma js_set_Nil [simp]: "js_set [] = []"
  by (simp add: js_set_def)

lemma length_js_set_le: "length (js_set xs) \<le> length xs"
  by (simp add: length_js_set card_length)

section \<open>The interface of a keyed map\<close>

locale keyed_map =
  fixes get :: "'m \<Rightarrow> 'k \<Rightarrow> 'v option" and put :: "'m \<Rightarrow> 'k \<Rightarrow> 'v \<Rightarrow> 'm" and empty_map :: 'm
  assumes get_empty: "get empty_map k = None"
    and get_put: "get (put m k v) k' = (if k' = k then Some v else get m k')"
begin

text \<open>A loop that touches only the entry of each element's key, seen from one key.\<close>

lemma walk_at_key:
  assumes "\<And>m x k. get (g m x) k = (if k = key x then h (get m (key x)) x else get m k)"
  shows "get (foldl g m xs) k = foldl h (get m k) (filter (\<lambda>x. key x = k) xs)"
proof (induction xs arbitrary: m)
  case (Cons x xs)
  then show ?case using assms by auto
qed simp

text \<open>The loop \<open>map[key] = step(map[key], x)\<close> from the empty map.\<close>

lemma accumulate_at_key:
  "get (foldl (\<lambda>m x. put m (key x) (step (get m (key x)) x)) empty_map xs) k =
     foldl (\<lambda>b x. Some (step b x)) None (filter (\<lambda>x. key x = k) xs)"
  by (subst walk_at_key [where h = "\<lambda>b x. Some (step b x)"]) (auto simp: get_put get_empty)

lemma put_get_other: "k' \<noteq> k \<Longrightarrow> get (put m k v) k' = get m k'"
  by (simp add: get_put)

lemma put_overwrites: "get (put (put m k v) k w) k' = get (put m k w) k'"
  by (simp add: get_put)

end

interpretation objects: keyed_map map_of map_set "[]"
  by unfold_locales auto

text \<open>Every key of a walk comes from an element, and the keys stay distinct.\<close>

lemma foldl_keys_distinct:
  assumes "\<And>m x. distinct (map fst m) \<Longrightarrow> distinct (map fst (g m x))" "distinct (map fst m)"
  shows "distinct (map fst (foldl g m xs))"
  using assms(2) by (induction xs arbitrary: m) (auto simp: assms(1))

text \<open>Summing into a record of numbers gives each key the sum of its elements.\<close>

lemma foldl_add_option:
  fixes f :: "'a \<Rightarrow> 'n :: comm_monoid_add"
  shows "foldl (\<lambda>b x. Some ((case b of Some s \<Rightarrow> s | None \<Rightarrow> 0) + f x)) b ys =
     (if ys = [] then b else Some ((case b of Some s \<Rightarrow> s | None \<Rightarrow> 0) + sum_list (map f ys)))"
  by (induction ys arbitrary: b) (auto simp: add.assoc)

lemma sum_by_key:
  fixes f :: "'a \<Rightarrow> 'n :: comm_monoid_add"
  shows "map_get_or 0 (foldl (\<lambda>m x. map_set m (key x) (map_get_or 0 m (key x) + f x)) [] xs) k =
     sum_list (map f (filter (\<lambda>x. key x = k) xs))"
proof -
  have "map_of (foldl (\<lambda>m x. map_set m (key x) (map_get_or 0 m (key x) + f x)) [] xs) k =
      foldl (\<lambda>b x. Some ((case b of Some s \<Rightarrow> s | None \<Rightarrow> 0) + f x)) None (filter (\<lambda>x. key x = k) xs)"
    using objects.accumulate_at_key [of key "\<lambda>b x. (case b of Some s \<Rightarrow> s | None \<Rightarrow> 0) + f x" xs k]
    by (simp add: map_get_or_def)
  then show ?thesis by (simp add: map_get_or_def foldl_add_option)
qed

end
