(* ===== verification/RuleConfig.thy ===== *)
theory RuleConfig
  imports JsBase JsMap KeepBest
begin

text \<open>
  \<open>src/modules/stores/payroll-rule-config.utils.ts\<close>: a bonus or fine rule's calculation setting
  (eight kinds), its validation on save, and the money it gives for the month's occurrences.

  A rule's name only decorates messages and labels, so an error is the constructor of its message and a
  label is the name with an optional quantity. A field left out and a field set to null are both
  \<open>None\<close>: the code stores null for a cap of zero, and reads a cap by its truth, the same either way.
\<close>

section \<open>Data\<close>

datatype rule_calc_kind = FIXED | UNIT_PRICE | SALARY_COEF | PERCENT | SALARY_BLOCK | PROGRESSIVE | TIERED | MILESTONE

datatype rule_unit = U_MINUTE | U_HOUR | U_SHIFT | U_OCCURRENCE | U_DAY

datatype rule_base = B_HOURLY | B_DAILY | B_MONTHLY | B_REVENUE | B_SHIFT_HOURS

datatype rule_metric = WORKED_DAYS | COMPLETED_SHIFTS | WORKED_HOURS | OCCURRENCES

datatype rule_op = GTE | LTE

record rule_tier =
  tFrom :: rat
  tTo :: "rat option"
  tAmount :: "rat option"
  tDayFraction :: "rat option"

record rule_calc_config =
  cKind :: rule_calc_kind
  cAmount :: "rat option"
  cUnit :: "rule_unit option"
  cCoef :: "rat option"
  cPercent :: "rat option"
  cBase :: "rule_base option"
  cDayFraction :: "rat option"
  cTriggerMinutes :: "rat option"
  cStep :: "rat option"
  cCap :: "rat option"
  cTiers :: "rule_tier list option"
  cGraceMinutes :: "rat option"
  cAccumulateDaily :: "bool option"
  cMetric :: "rule_metric option"
  cOp :: "rule_op option"
  cThreshold :: "rat option"

record rule_occurrence =
  oDate :: string
  oMinutes :: rat
  oQuantity :: rat
  oShiftMinutes :: "rat option"
  oAssignmentId :: "string option"
  oRecordId :: "string option"

definition MINUTE_BASED_CODES :: "string list" where
  "MINUTE_BASED_CODES = [''LATE'', ''EARLY'', ''OVERTIME'', ''NIGHT_SHIFT'', ''ABSENT'', ''PUNCTUALITY'', ''ATTENDANCE'']"

definition KINDS :: "(string \<times> rule_calc_kind) list" where
  "KINDS = [(''FIXED'', FIXED), (''UNIT_PRICE'', UNIT_PRICE), (''SALARY_COEF'', SALARY_COEF), (''PERCENT'', PERCENT),
     (''SALARY_BLOCK'', SALARY_BLOCK), (''PROGRESSIVE'', PROGRESSIVE), (''TIERED'', TIERED), (''MILESTONE'', MILESTONE)]"

definition UNITS :: "(string \<times> rule_unit) list" where
  "UNITS = [(''MINUTE'', U_MINUTE), (''HOUR'', U_HOUR), (''SHIFT'', U_SHIFT), (''OCCURRENCE'', U_OCCURRENCE), (''DAY'', U_DAY)]"

text \<open>The union type of the base; every kind passes the list of those it allows.\<close>

definition RULE_BASES :: "(string \<times> rule_base) list" where
  "RULE_BASES = [(''HOURLY'', B_HOURLY), (''DAILY'', B_DAILY), (''MONTHLY'', B_MONTHLY), (''REVENUE'', B_REVENUE),
     (''SHIFT_HOURS'', B_SHIFT_HOURS)]"

definition METRICS :: "(string \<times> rule_metric) list" where
  "METRICS = [(''WORKED_DAYS'', WORKED_DAYS), (''COMPLETED_SHIFTS'', COMPLETED_SHIFTS),
     (''WORKED_HOURS'', WORKED_HOURS), (''OCCURRENCES'', OCCURRENCES)]"

definition MAX_MONEY :: rat where "MAX_MONEY = 100000000"

definition MAX_TIERS :: nat where "MAX_TIERS = 10"

section \<open>Validation\<close>

datatype config_error =
    BadKind | NeedMoney | BadMoney | BadCoef | BadPercent | BadDays | BadStep | BadUnit | BadBase
  | BadTrigger | BadProgressiveUnit | NoTier | TooManyTiers | BadTier | TierNeedsMoneyOrDays
  | BadMetric | BadThreshold | BadGrace

text \<open>\<open>num\<close>: nothing entered, a finite number, or something else (\<open>Some None\<close>, the code's NaN).\<close>

definition num :: "jsval \<Rightarrow> rat option option" where
  "num value = (if nullish value \<or> value = JStr [] then None
     else Some (case js_number value of Fin n \<Rightarrow> Some n | _ \<Rightarrow> None))"

definition round2 :: "rat \<Rightarrow> rat" where
  "round2 v = js_round (v * 100) / 100"

definition money :: "jsval \<Rightarrow> string \<Rightarrow> bool \<Rightarrow> config_error + rat option" where
  "money r key required = (case num (js_get r key) of
       None \<Rightarrow> if required then Inl NeedMoney else Inr None
     | Some None \<Rightarrow> Inl BadMoney
     | Some (Some v) \<Rightarrow> if v < 0 \<or> v > MAX_MONEY then Inl BadMoney else Inr (Some (js_round v)))"

definition positive :: "jsval \<Rightarrow> string \<Rightarrow> rat \<Rightarrow> config_error \<Rightarrow> config_error + rat option" where
  "positive r key limit e = (case num (js_get r key) of
       Some (Some v) \<Rightarrow> if v \<le> 0 \<or> v > limit then Inl e else Inr (Some (round2 v))
     | _ \<Rightarrow> Inl e)"

definition optionalUnit :: "jsval \<Rightarrow> rule_unit \<Rightarrow> config_error + rule_unit option" where
  "optionalUnit r fallback =
     (let u = js_get r ''unit'' in
      if nullish u then Inr (Some fallback)
      else case map_of UNITS (js_string u) of None \<Rightarrow> Inl BadUnit | Some unit \<Rightarrow> Inr (Some unit))"

definition base_in :: "jsval \<Rightarrow> rule_base list \<Rightarrow> config_error + rule_base option" where
  "base_in r allowed =
     (case map_of RULE_BASES (js_string (js_or_null (js_get r ''base'') (JStr []))) of
        None \<Rightarrow> Inl BadBase
      | Some b \<Rightarrow> if b \<in> set allowed then Inr (Some b) else Inl BadBase)"

definition clean_tier :: "jsval \<Rightarrow> config_error + rule_tier" where
  "clean_tier t =
     (let from = num (js_get t ''from''); to = num (js_get t ''to'');
          amount = num (js_get t ''amount''); dayFraction = num (js_get t ''dayFraction'')
      in case from of
           Some (Some f) \<Rightarrow>
             if f < 0 then Inl BadTier
             else if (case to of None \<Rightarrow> False | Some None \<Rightarrow> True | Some (Some x) \<Rightarrow> x < f) then Inl BadTier
             else
               let hasAmount = (case amount of Some (Some a) \<Rightarrow> a \<ge> 0 \<and> a \<le> MAX_MONEY | _ \<Rightarrow> False);
                   hasDays = (case dayFraction of Some (Some d) \<Rightarrow> d > 0 \<and> d \<le> 31 | _ \<Rightarrow> False)
               in if hasAmount = hasDays then Inl TierNeedsMoneyOrDays
                  else Inr \<lparr> tFrom = round2 f,
                     tTo = (case to of Some (Some x) \<Rightarrow> Some (round2 x) | _ \<Rightarrow> None),
                     tAmount = (case amount of Some (Some a) \<Rightarrow> if hasAmount then Some (js_round a) else None | _ \<Rightarrow> None),
                     tDayFraction = (case dayFraction of Some (Some d) \<Rightarrow> if hasDays then Some (round2 d) else None | _ \<Rightarrow> None) \<rparr>
         | _ \<Rightarrow> Inl BadTier)"

fun clean_tiers :: "jsval list \<Rightarrow> config_error + rule_tier list" where
  "clean_tiers [] = Inr []"
| "clean_tiers (t # ts) = and_then (clean_tier t) (\<lambda>c. and_then (clean_tiers ts) (\<lambda>cs. Inr (c # cs)))"

fun js_array_or_empty :: "jsval \<Rightarrow> jsval list" where
  "js_array_or_empty (JArr vs) = vs"
| "js_array_or_empty _ = []"

definition empty_config :: "rule_calc_kind \<Rightarrow> rule_calc_config" where
  "empty_config kind = \<lparr> cKind = kind, cAmount = None, cUnit = None, cCoef = None, cPercent = None, cBase = None,
     cDayFraction = None, cTriggerMinutes = None, cStep = None, cCap = None, cTiers = None, cGraceMinutes = None,
     cAccumulateDaily = None, cMetric = None, cOp = None, cThreshold = None \<rparr>"

definition kind_fields :: "jsval \<Rightarrow> rule_calc_kind \<Rightarrow> config_error + rule_calc_config" where
  "kind_fields r kind =
     (let out = empty_config kind in
      case kind of
        FIXED \<Rightarrow> and_then (money r ''amount'' True) (\<lambda>a. and_then (optionalUnit r U_OCCURRENCE) (\<lambda>u.
          Inr (out\<lparr>cAmount := a, cUnit := u\<rparr>)))
      | UNIT_PRICE \<Rightarrow> and_then (money r ''amount'' True) (\<lambda>a. and_then (optionalUnit r U_SHIFT) (\<lambda>u.
          Inr (out\<lparr>cAmount := a, cUnit := u\<rparr>)))
      | SALARY_COEF \<Rightarrow> and_then (positive r ''coef'' 100 BadCoef) (\<lambda>c.
          and_then (base_in r [B_HOURLY, B_DAILY, B_SHIFT_HOURS]) (\<lambda>b. Inr (out\<lparr>cCoef := c, cBase := b\<rparr>)))
      | PERCENT \<Rightarrow> and_then (positive r ''percent'' 100 BadPercent) (\<lambda>p.
          and_then (base_in r [B_HOURLY, B_DAILY, B_MONTHLY, B_REVENUE]) (\<lambda>b. Inr (out\<lparr>cPercent := p, cBase := b\<rparr>)))
      | SALARY_BLOCK \<Rightarrow> and_then (positive r ''dayFraction'' 31 BadDays) (\<lambda>d.
          case num (js_get r ''triggerMinutes'') of
            None \<Rightarrow> Inr (out\<lparr>cDayFraction := d\<rparr>)
          | Some None \<Rightarrow> Inl BadTrigger
          | Some (Some t) \<Rightarrow> if t < 0 \<or> t > 24 * 60 then Inl BadTrigger
                          else Inr (out\<lparr>cDayFraction := d, cTriggerMinutes := Some (js_round t)\<rparr>))
      | PROGRESSIVE \<Rightarrow> and_then (positive r ''step'' 10000 BadStep) (\<lambda>s.
          and_then (money r ''amount'' True) (\<lambda>a. and_then (optionalUnit r U_MINUTE) (\<lambda>u.
          and_then (fail_if (u = Some U_DAY) BadProgressiveUnit) (\<lambda>_. and_then (money r ''cap'' False) (\<lambda>cap.
          Inr (out\<lparr>cStep := s, cAmount := a, cUnit := u, cCap := (if cap = Some 0 then None else cap)\<rparr>))))))
      | TIERED \<Rightarrow> (let tiers = js_array_or_empty (js_get r ''tiers'') in
          if tiers = [] then Inl NoTier
          else if length tiers > MAX_TIERS then Inl TooManyTiers
          else and_then (clean_tiers tiers) (\<lambda>clean. Inr (out\<lparr>cTiers := Some (sort_key tFrom clean)\<rparr>)))
      | MILESTONE \<Rightarrow>
          (case map_of METRICS (js_string (js_or_null (js_get r ''metric'') (JStr []))) of
             None \<Rightarrow> Inl BadMetric
           | Some metric \<Rightarrow>
               let op = (if js_get r ''op'' = JStr ''LTE'' then LTE else GTE) in
               case num (js_get r ''threshold'') of
                 Some (Some t) \<Rightarrow>
                   if t < 0 \<or> (op = GTE \<and> t = 0) \<or> t > 100000 then Inl BadThreshold
                   else and_then (money r ''amount'' True) (\<lambda>a.
                     Inr (out\<lparr>cMetric := Some metric, cOp := Some op, cThreshold := Some (round2 t), cAmount := a\<rparr>))
               | _ \<Rightarrow> Inl BadThreshold))"

definition with_grace :: "jsval \<Rightarrow> rule_calc_config \<Rightarrow> config_error + rule_calc_config" where
  "with_grace r out = (case num (js_get r ''graceMinutes'') of
       None \<Rightarrow> Inr out
     | Some None \<Rightarrow> Inl BadGrace
     | Some (Some g) \<Rightarrow> if g < 0 \<or> g > 600 then Inl BadGrace
                     else Inr (if g > 0 then out\<lparr>cGraceMinutes := Some (js_round g)\<rparr> else out))"

definition finish_config :: "jsval \<Rightarrow> rule_calc_config \<Rightarrow> rule_calc_config" where
  "finish_config r b =
     (let out = (if js_get r ''accumulateDaily'' = JBool False then b\<lparr>cAccumulateDaily := Some False\<rparr> else b)
      in if cKind out = MILESTONE \<and> cMetric out \<noteq> Some OCCURRENCES
         then out\<lparr>cGraceMinutes := None, cAccumulateDaily := None\<rparr> else out)"

definition normalizeRuleCalcConfig :: "jsval \<Rightarrow> config_error + rule_calc_config" where
  "normalizeRuleCalcConfig r =
     (if \<not> js_is_object r then Inl BadKind
      else case map_of KINDS (js_string (js_or_null (js_get r ''kind'') (JStr []))) of
        None \<Rightarrow> Inl BadKind
      | Some kind \<Rightarrow> and_then (kind_fields r kind) (\<lambda>a. and_then (with_grace r a) (\<lambda>b. Inr (finish_config r b))))"

section \<open>Evaluation\<close>

datatype day_unit = D_MINUTE | D_SHIFT

record day_pay =
  dpByDate :: "(string, rat) jsmap"
  dpUnitsByDate :: "(string, rat) jsmap"
  dpUnit :: day_unit

record rule_rates =
  rtHourly :: rat
  rtDaily :: rat
  rtMonthly :: rat
  rtRevenue :: rat
  rtDayPay :: "day_pay option"

record rule_monthly =
  moWorkedDays :: rat
  moCompletedShifts :: rat
  moWorkedMinutes :: rat

datatype qty_word = Phut | Gio | GioLuong | Ca | DatGio | DatCa

text \<open>A label: the rule's name, or the name with a formatted quantity and its word.\<close>

datatype rule_label = Name | Name_with string qty_word

record rule_result =
  reExact :: rat
  reCount :: rat
  reLabel :: rule_label

definition or_zero :: "rat option \<Rightarrow> rat" where
  "or_zero v = (case v of Some x \<Rightarrow> x | None \<Rightarrow> 0)"

definition distinctDays :: "rule_occurrence list \<Rightarrow> rat" where
  "distinctDays list = of_nat (length (js_set (map oDate list)))"

definition salaryCoefExtra :: "string \<Rightarrow> rat \<Rightarrow> rat" where
  "salaryCoefExtra code coef = (if code = ''OVERTIME'' \<or> code = ''NIGHT_SHIFT'' then max 0 (coef - 1) else coef)"

definition fmt :: "rat \<Rightarrow> string" where
  "fmt value = (let rounded = js_round (value * 10) / 10
     in if js_is_integer rounded then rat_string rounded
        else map (\<lambda>c. if c = CHR ''.'' then CHR '','' else c) (rat_string rounded))"

definition minuteBased :: "string \<Rightarrow> bool" where
  "minuteBased code \<longleftrightarrow> code \<in> set MINUTE_BASED_CODES"

definition grace_of :: "string \<Rightarrow> rule_calc_config \<Rightarrow> rat" where
  "grace_of code config = (if minuteBased code then max 0 (or_zero (cGraceMinutes config)) else 0)"

definition weight_of :: "string \<Rightarrow> rule_occurrence \<Rightarrow> rat" where
  "weight_of code oc = (if minuteBased code then oMinutes oc else oQuantity oc)"

definition keep_heaviest ::
  "string \<Rightarrow> (string, rule_occurrence) jsmap \<Rightarrow> rule_occurrence \<Rightarrow> (string, rule_occurrence) jsmap" where
  "keep_heaviest code byDay oc = (case map_of byDay (oDate oc) of
       None \<Rightarrow> map_set byDay (oDate oc) oc
     | Some prev \<Rightarrow> if weight_of code oc > weight_of code prev then map_set byDay (oDate oc) oc else byDay)"

definition countedOccurrences ::
  "string \<Rightarrow> rule_calc_config \<Rightarrow> rule_occurrence list \<Rightarrow> rule_occurrence list" where
  "countedOccurrences code config occurrences =
     (let list = filter (\<lambda>oc. if minuteBased code then oMinutes oc > grace_of code config else oQuantity oc > 0) occurrences
      in if cAccumulateDaily config = Some False
         then map snd (foldl (keep_heaviest code) [] list)
         else list)"

definition recorded_code :: "string \<Rightarrow> bool" where
  "recorded_code code \<longleftrightarrow> \<not> minuteBased code \<and> code \<noteq> ''MISSED_PUNCH''"

definition measureOf :: "string \<Rightarrow> rule_calc_config \<Rightarrow> rule_unit \<Rightarrow> rule_occurrence \<Rightarrow> rat" where
  "measureOf code config unit oc =
     (if \<not> minuteBased code then oQuantity oc
      else if unit = U_MINUTE then max 0 (oMinutes oc - grace_of code config)
      else if unit = U_HOUR then max 0 (oMinutes oc - grace_of code config) / 60
      else 1)"

definition total_of :: "string \<Rightarrow> rule_calc_config \<Rightarrow> rule_occurrence list \<Rightarrow> rule_unit \<Rightarrow> rat" where
  "total_of code config list unit =
     (if unit = U_DAY \<and> \<not> recorded_code code then distinctDays list
      else sum_list (map (measureOf code config unit) list))"

definition occurrence_count :: "string \<Rightarrow> rule_occurrence list \<Rightarrow> rat" where
  "occurrence_count code list =
     (if \<not> minuteBased code then sum_list (map oQuantity list) else of_nat (length list))"

definition dayPay :: "rule_rates \<Rightarrow> string \<Rightarrow> rat" where
  "dayPay rates date = (case rtDayPay rates of
       None \<Rightarrow> rtDaily rates
     | Some d \<Rightarrow> (case map_of (dpByDate d) date of
           Some value \<Rightarrow> if value > 0 then value else rtDaily rates
         | None \<Rightarrow> rtDaily rates))"

definition dayPayShare :: "string \<Rightarrow> rule_rates \<Rightarrow> rule_occurrence \<Rightarrow> rat" where
  "dayPayShare code rates oc =
     (let full = dayPay rates (oDate oc) in
      case rtDayPay rates of
        None \<Rightarrow> full
      | Some d \<Rightarrow>
          if recorded_code code then full
          else
            let units = map_get_or 0 (dpUnitsByDate d) (oDate oc);
                own = (if dpUnit d = D_SHIFT then 1 else or_zero (oShiftMinutes oc))
            in if units > 0 \<and> own > 0 \<and> map_get_or 0 (dpByDate d) (oDate oc) \<noteq> 0
               then full * min own units / units else full)"

definition sumDayPay :: "string \<Rightarrow> rule_rates \<Rightarrow> rule_occurrence list \<Rightarrow> rat" where
  "sumDayPay code rates items =
     sum_list (map (\<lambda>oc. dayPayShare code rates oc * (if recorded_code code then oQuantity oc else 1)) items)"

definition sumDistinctDayPay :: "rule_rates \<Rightarrow> rule_occurrence list \<Rightarrow> rat" where
  "sumDistinctDayPay rates items = sum_list (map (dayPay rates) (js_set (map oDate items)))"

definition pick_tier :: "rule_tier list \<Rightarrow> rat \<Rightarrow> rule_tier option" where
  "pick_tier tiers value =
     find (\<lambda>t. value \<ge> tFrom t \<and> (case tTo t of None \<Rightarrow> True | Some to \<Rightarrow> value \<le> to)) tiers"

definition tier_value :: "rule_tier \<Rightarrow> rat \<Rightarrow> rat" where
  "tier_value t day = (if or_zero (tDayFraction t) \<noteq> 0 then or_zero (tDayFraction t) * day else or_zero (tAmount t))"

definition unit_or :: "rule_unit \<Rightarrow> rule_calc_config \<Rightarrow> rule_unit" where
  "unit_or d config = (case cUnit config of Some u \<Rightarrow> u | None \<Rightarrow> d)"

definition result :: "rat \<Rightarrow> rat \<Rightarrow> rule_label \<Rightarrow> rule_result" where
  "result exact count label = \<lparr> reExact = exact, reCount = count, reLabel = label \<rparr>"

definition eval_progressive :: "string \<Rightarrow> rule_calc_config \<Rightarrow> rule_occurrence list \<Rightarrow> rule_result" where
  "eval_progressive code config list =
     (let unit = unit_or U_MINUTE config; step = or_zero (cStep config) in
      if \<not> step > 0 then result 0 0 Name
      else
        let steps = (if \<not> minuteBased code \<or> unit = U_SHIFT \<or> unit = U_OCCURRENCE
              then js_floor (total_of code config list unit / step)
              else sum_list (map (\<lambda>oc. js_floor (measureOf code config unit oc / step)) list));
            exact = steps * or_zero (cAmount config)
        in result (case cCap config of Some cap \<Rightarrow> if cap \<noteq> 0 \<and> exact > cap then cap else exact | None \<Rightarrow> exact)
             steps Name)"

definition eval_tiered :: "string \<Rightarrow> rule_calc_config \<Rightarrow> rule_rates \<Rightarrow> rule_occurrence list \<Rightarrow> rule_result" where
  "eval_tiered code config rates list =
     (let tiers = (case cTiers config of Some ts \<Rightarrow> ts | None \<Rightarrow> []) in
      if minuteBased code then
        let hits = List.map_filter (\<lambda>oc. map_option (\<lambda>t. tier_value t (dayPayShare code rates oc)) (pick_tier tiers (oMinutes oc))) list
        in result (sum_list hits) (of_nat (length hits)) Name
      else case pick_tier tiers (occurrence_count code list) of
             Some t \<Rightarrow> result (tier_value t (rtDaily rates)) 1 Name
           | None \<Rightarrow> result 0 0 Name)"

definition eval_coef :: "string \<Rightarrow> rule_calc_config \<Rightarrow> rule_rates \<Rightarrow> rule_occurrence list \<Rightarrow> rule_result" where
  "eval_coef code config rates list =
     (if cBase config = Some B_SHIFT_HOURS then
        let hours = sum_list (map (\<lambda>oc. or_zero (oShiftMinutes oc) / 60 * (if recorded_code code then oQuantity oc else 1)) list)
        in result (or_zero (cCoef config) * rtHourly rates * hours)
             (if recorded_code code then occurrence_count code list else of_nat (length list))
             (Name_with (fmt (or_zero (cCoef config) * hours)) GioLuong)
      else
        let coef = salaryCoefExtra code (or_zero (cCoef config)) in
        if cBase config = Some B_DAILY then
          result (coef * (if recorded_code code then sumDayPay code rates list else sumDistinctDayPay rates list))
            (if recorded_code code then occurrence_count code list else distinctDays list) Name
        else
          let hours = total_of code config list U_HOUR
          in result (coef * rtHourly rates * hours) 1 (Name_with (fmt hours) Gio))"

definition evaluateRuleConfig ::
  "string \<Rightarrow> rule_calc_config \<Rightarrow> rule_occurrence list \<Rightarrow> rule_rates \<Rightarrow> rule_monthly \<Rightarrow> rule_result" where
  "evaluateRuleConfig code config all_occurrences rates m =
     (let list = countedOccurrences code config all_occurrences;
          occurrences = occurrence_count code list;
          amount = or_zero (cAmount config)
      in case cKind config of
        FIXED \<Rightarrow>
          (let times = (if unit_or U_OCCURRENCE config = U_DAY
                 then (if recorded_code code then occurrences else distinctDays list) else occurrences)
           in result (amount * times) times Name)
      | UNIT_PRICE \<Rightarrow>
          (let unit = unit_or U_SHIFT config; q = total_of code config list unit;
               whole = (js_is_integer q \<and> unit \<noteq> U_MINUTE \<and> unit \<noteq> U_HOUR)
           in result (amount * q) (if whole then q else 1)
                (if whole then Name else Name_with (fmt q) (if unit = U_MINUTE then Phut else Gio)))
      | SALARY_COEF \<Rightarrow> eval_coef code config rates list
      | PERCENT \<Rightarrow>
          (let pct = or_zero (cPercent config) / 100 in
           if cBase config = Some B_MONTHLY \<or> cBase config = Some B_REVENUE then
             if list \<noteq> [] \<or> (code = ''SALES'' \<and> cBase config = Some B_REVENUE)
             then result (pct * (if cBase config = Some B_REVENUE then rtRevenue rates else rtMonthly rates)) 1 Name
             else result 0 0 Name
           else if cBase config = Some B_DAILY then result (pct * sumDayPay code rates list) occurrences Name
           else result (pct * rtHourly rates * occurrences) occurrences Name)
      | SALARY_BLOCK \<Rightarrow>
          (let hit = (if minuteBased code then filter (\<lambda>oc. oMinutes oc \<ge> or_zero (cTriggerMinutes config)) list else list)
           in result (or_zero (cDayFraction config) * sumDayPay code rates hit) (occurrence_count code hit) Name)
      | PROGRESSIVE \<Rightarrow> eval_progressive code config list
      | TIERED \<Rightarrow> eval_tiered code config rates list
      | MILESTONE \<Rightarrow>
          (let value = (if cMetric config = Some WORKED_DAYS then moWorkedDays m
                 else if cMetric config = Some COMPLETED_SHIFTS then moCompletedShifts m
                 else if cMetric config = Some WORKED_HOURS then moWorkedMinutes m / 60 else occurrences);
               threshold = or_zero (cThreshold config);
               ok = (if cOp config = Some LTE then value \<le> threshold else value \<ge> threshold)
           in if ok then result amount 1 Name else result 0 0 Name))"

section \<open>What validation guarantees\<close>

text \<open>A successful result, pushed through cases and conditionals without splitting them by hand.\<close>

lemma case_option_Inr_iff:
  "(case x of None \<Rightarrow> r | Some b \<Rightarrow> f b) = Inr v \<longleftrightarrow> x = None \<and> r = Inr v \<or> (\<exists>b. x = Some b \<and> f b = Inr v)"
  by (cases x) auto

lemma if_Inr_iff: "(if b then p else q) = Inr v \<longleftrightarrow> b \<and> p = Inr v \<or> \<not> b \<and> q = Inr v"
  by simp

lemmas result_iffs = and_then_Inr_iff case_option_Inr_iff if_Inr_iff

definition opt_ok :: "('a \<Rightarrow> bool) \<Rightarrow> 'a option \<Rightarrow> bool" where
  "opt_ok P v \<longleftrightarrow> (case v of None \<Rightarrow> True | Some x \<Rightarrow> P x)"

lemma opt_ok_simps [simp]: "opt_ok P None" "opt_ok P (Some x) = P x"
  by (simp_all add: opt_ok_def)

definition between :: "rat \<Rightarrow> rat \<Rightarrow> rat \<Rightarrow> bool" where
  "between lo hi x \<longleftrightarrow> lo \<le> x \<and> x \<le> hi"

definition money_ok :: "rat \<Rightarrow> bool" where
  "money_ok m \<longleftrightarrow> 0 \<le> m \<and> m \<le> MAX_MONEY \<and> js_is_integer m"

definition tier_ok :: "rule_tier \<Rightarrow> bool" where
  "tier_ok t \<longleftrightarrow> 0 \<le> tFrom t \<and> opt_ok (\<lambda>x. tFrom t \<le> x) (tTo t) \<and> opt_ok money_ok (tAmount t) \<and>
     opt_ok (between 0 31) (tDayFraction t) \<and> (tAmount t = None \<longleftrightarrow> tDayFraction t \<noteq> None)"

definition tiers_ok :: "rule_tier list \<Rightarrow> bool" where
  "tiers_ok ts \<longleftrightarrow> ts \<noteq> [] \<and> length ts \<le> MAX_TIERS \<and> sorted (map tFrom ts) \<and> list_all tier_ok ts"

definition fields_present :: "rule_calc_config \<Rightarrow> bool" where
  "fields_present c \<longleftrightarrow> (case cKind c of
       FIXED \<Rightarrow> cAmount c \<noteq> None \<and> cUnit c \<noteq> None
     | UNIT_PRICE \<Rightarrow> cAmount c \<noteq> None \<and> cUnit c \<noteq> None
     | SALARY_COEF \<Rightarrow> cCoef c \<noteq> None \<and> cBase c \<in> {Some B_HOURLY, Some B_DAILY, Some B_SHIFT_HOURS}
     | PERCENT \<Rightarrow> cPercent c \<noteq> None \<and> cBase c \<noteq> None \<and> cBase c \<noteq> Some B_SHIFT_HOURS
     | SALARY_BLOCK \<Rightarrow> cDayFraction c \<noteq> None
     | PROGRESSIVE \<Rightarrow> cStep c \<noteq> None \<and> cAmount c \<noteq> None \<and> cUnit c \<noteq> None \<and> cUnit c \<noteq> Some U_DAY \<and> cCap c \<noteq> Some 0
     | TIERED \<Rightarrow> cTiers c \<noteq> None
     | MILESTONE \<Rightarrow> cMetric c \<noteq> None \<and> cOp c \<noteq> None \<and> cThreshold c \<noteq> None \<and> cAmount c \<noteq> None)"

definition config_ok :: "rule_calc_config \<Rightarrow> bool" where
  "config_ok c \<longleftrightarrow> fields_present c \<and> opt_ok money_ok (cAmount c) \<and> opt_ok (between 0 100) (cCoef c) \<and>
     opt_ok (between 0 100) (cPercent c) \<and> opt_ok (between 0 31) (cDayFraction c) \<and>
     opt_ok (between 0 1440) (cTriggerMinutes c) \<and> opt_ok (between 0 10000) (cStep c) \<and>
     opt_ok money_ok (cCap c) \<and> opt_ok tiers_ok (cTiers c) \<and> opt_ok (between 0 600) (cGraceMinutes c) \<and>
     opt_ok (between 0 100000) (cThreshold c) \<and> cAccumulateDaily c \<noteq> Some True"

lemma js_round_le_int: "x \<le> of_int n \<Longrightarrow> js_round x \<le> of_int n"
  using js_round_mono [of x "of_int n"] by simp

lemma js_round_between: "0 \<le> x \<Longrightarrow> x \<le> of_int n \<Longrightarrow> between 0 (of_int n) (js_round x)"
  by (simp add: between_def js_round_nonneg js_round_le_int)

lemma js_round_money: "0 \<le> v \<Longrightarrow> v \<le> MAX_MONEY \<Longrightarrow> money_ok (js_round v)"
  using js_round_le_int [of v 100000000] js_round_is_int [of v]
  by (auto simp: money_ok_def MAX_MONEY_def js_round_nonneg js_is_integer_iff)

lemma round2_nonneg: "0 \<le> v \<Longrightarrow> 0 \<le> round2 v"
  by (simp add: round2_def js_round_nonneg)

lemma round2_mono: "v \<le> w \<Longrightarrow> round2 v \<le> round2 w"
  by (simp add: round2_def divide_right_mono js_round_mono)

lemma round2_of_int [simp]: "round2 (of_int n) = of_int n"
  using js_round_of_int [of "n * 100"] by (simp add: round2_def)

lemma round2_between: "0 \<le> v \<Longrightarrow> v \<le> of_int n \<Longrightarrow> between 0 (of_int n) (round2 v)"
  using round2_mono [of v "of_int n"] by (simp add: between_def round2_nonneg)

lemma round2_idem [simp]: "round2 (round2 v) = round2 v"
  by (simp add: round2_def)

lemma money_Inr:
  "money r key required = Inr v \<Longrightarrow> opt_ok money_ok v \<and> (required \<longrightarrow> v \<noteq> None)"
  by (auto simp: money_def js_round_money result_iffs)

lemma positive_Inr:
  "positive r key (of_int n) e = Inr v \<Longrightarrow> opt_ok (between 0 (of_int n)) v \<and> v \<noteq> None"
  by (auto simp: positive_def round2_between result_iffs)

lemma positive_Inr_numeral:
  "positive r key (numeral n) e = Inr v \<Longrightarrow> opt_ok (between 0 (numeral n)) v \<and> v \<noteq> None"
  using positive_Inr [of r key "numeral n" e v] by simp

lemma optionalUnit_Inr: "optionalUnit r u = Inr v \<Longrightarrow> v \<noteq> None"
  by (auto simp: optionalUnit_def Let_def result_iffs)

lemma base_in_Inr: "base_in r allowed = Inr v \<Longrightarrow> \<exists>b \<in> set allowed. v = Some b"
  by (auto simp: base_in_def result_iffs)

lemma clean_tier_ok: "clean_tier t = Inr c \<Longrightarrow> tier_ok c"
  using round2_between [of _ 31]
  by (auto simp: clean_tier_def tier_ok_def Let_def round2_nonneg round2_mono js_round_money between_def
      split: option.splits if_splits)

lemma clean_tiers_ok: "clean_tiers ts = Inr cs \<Longrightarrow> list_all tier_ok cs \<and> length cs = length ts"
  by (induction ts arbitrary: cs) (auto simp: and_then_Inr_iff clean_tier_ok)

lemmas field_facts = money_Inr positive_Inr_numeral optionalUnit_Inr base_in_Inr

lemma sorted_tiers_ok:
  assumes "clean_tiers ts = Inr cs" "ts \<noteq> []" "length ts \<le> MAX_TIERS"
  shows "tiers_ok (sort_key tFrom cs)"
proof -
  have "length (sort_key tFrom cs) = length ts" using clean_tiers_ok [OF assms(1)] by simp
  moreover from this have "sort_key tFrom cs \<noteq> []" using assms(2) by (metis length_0_conv)
  ultimately show ?thesis
    using clean_tiers_ok [OF assms(1)] assms(3) by (simp add: tiers_ok_def list_all_iff)
qed

lemmas config_ok_defs = config_ok_def fields_present_def empty_config_def

lemma milestone_fields_ok: "kind_fields r MILESTONE = Inr c \<Longrightarrow> config_ok c \<and> cKind c = MILESTONE"
proof -
  assume a: "kind_fields r MILESTONE = Inr c"
  let ?op = "if js_get r ''op'' = JStr ''LTE'' then LTE else GTE"
  obtain m where m: "map_of METRICS (js_string (js_or_null (js_get r ''metric'') (JStr []))) = Some m"
    using a unfolding kind_fields_def Let_def rule_calc_kind.case by (auto split: option.split_asm)
  obtain t where t: "num (js_get r ''threshold'') = Some (Some t)"
    using a unfolding kind_fields_def Let_def rule_calc_kind.case m option.case
    by (auto split: option.split_asm)
  obtain v where v: "money r ''amount'' True = Inr v" "0 \<le> t" "t \<le> 100000"
    and e: "c = empty_config MILESTONE\<lparr>cMetric := Some m, cOp := Some ?op, cThreshold := Some (round2 t), cAmount := v\<rparr>"
    using a unfolding kind_fields_def Let_def rule_calc_kind.case m t option.case if_Inr_iff and_then_Inr_iff
    by (elim disjE conjE exE) simp_all
  show ?thesis using money_Inr [OF v(1)] round2_between [of t 100000] v(2,3)
    by (simp add: e config_ok_defs)
qed

lemma block_fields_ok: "kind_fields r SALARY_BLOCK = Inr c \<Longrightarrow> config_ok c \<and> cKind c = SALARY_BLOCK"
proof -
  assume "kind_fields r SALARY_BLOCK = Inr c"
  then obtain d t where d: "positive r ''dayFraction'' 31 BadDays = Inr d"
    and t: "t = None \<or> (\<exists>x. t = Some (js_round x) \<and> 0 \<le> x \<and> x \<le> 1440)"
    and e: "c = empty_config SALARY_BLOCK\<lparr>cDayFraction := d, cTriggerMinutes := t\<rparr>"
    unfolding kind_fields_def Let_def rule_calc_kind.case result_iffs
    by (auto simp: not_less empty_config_def)
  have "opt_ok (between 0 1440) t" using t js_round_between [of _ 1440] by auto
  then show ?thesis using positive_Inr_numeral [OF d] by (simp add: e config_ok_defs)
qed

lemma kind_fields_ok: "kind_fields r kind = Inr c \<Longrightarrow> config_ok c \<and> cKind c = kind"
proof (cases kind)
  case MILESTONE
  assume "kind_fields r kind = Inr c"
  then show ?thesis using milestone_fields_ok by (simp only: MILESTONE)
next
  case SALARY_BLOCK
  assume "kind_fields r kind = Inr c"
  then show ?thesis using block_fields_ok by (simp only: SALARY_BLOCK)
qed (auto simp: kind_fields_def config_ok_defs Let_def and_then_Inr_iff
       sorted_tiers_ok not_less split: if_split_asm dest!: field_facts)

lemma config_ok_update:
  "config_ok c \<Longrightarrow> opt_ok (between 0 600) g \<Longrightarrow> config_ok (c\<lparr>cGraceMinutes := g\<rparr>)"
  "config_ok c \<Longrightarrow> a \<noteq> Some True \<Longrightarrow> config_ok (c\<lparr>cAccumulateDaily := a\<rparr>)"
  by (cases "cKind c"; simp add: config_ok_def fields_present_def)+

lemma with_grace_ok: "with_grace r c = Inr d \<Longrightarrow> config_ok c \<Longrightarrow> config_ok d \<and> cKind d = cKind c \<and> cMetric d = cMetric c"
  using js_round_between [of _ 600] unfolding with_grace_def result_iffs
  by (auto intro!: config_ok_update simp: not_less)

lemma normalize_steps:
  assumes "normalizeRuleCalcConfig r = Inr c"
  obtains kind a b where "kind_fields r kind = Inr a" "with_grace r a = Inr b" "c = finish_config r b"
  using assms unfolding normalizeRuleCalcConfig_def if_Inr_iff case_option_Inr_iff and_then_Inr_iff
  by (elim disjE conjE exE) simp_all

text \<open>
  Validation is an invariant of saved settings: whatever the request body, an accepted setting has
  the fields its kind needs, whole non-negative amounts up to the limit, factors within their ranges,
  and non-empty tiers sorted by their start, each with exactly one of an amount and a day fraction.
\<close>

theorem normalized_config_ok:
  assumes "normalizeRuleCalcConfig r = Inr c"
  shows "config_ok c"
proof -
  obtain kind a b where k: "kind_fields r kind = Inr a" and g: "with_grace r a = Inr b"
    and c: "c = finish_config r b"
    by (rule normalize_steps [OF assms])
  have "config_ok b" using kind_fields_ok [OF k] with_grace_ok [OF g] by blast
  then show ?thesis by (auto simp: c finish_config_def Let_def intro!: config_ok_update)
qed

theorem normalized_config_ok_witness:
  "config_ok (empty_config FIXED\<lparr>cAmount := Some 50000, cUnit := Some U_OCCURRENCE\<rparr>)"
proof (rule normalized_config_ok)
  show "normalizeRuleCalcConfig (JObj [(''kind'', JStr ''FIXED''), (''amount'', JNum (Fin 50000))]) =
    Inr (empty_config FIXED\<lparr>cAmount := Some 50000, cUnit := Some U_OCCURRENCE\<rparr>)"
    by code_simp
qed

end
