(* ===== verification/RuleConfigStored.thy ===== *)
theory RuleConfigStored
  imports RuleConfig
begin

text \<open>
  Payroll validates a rule's stored setting again each time it prices the rule (\<open>v3RuleLine\<close>), so the
  validation of \<open>payroll-rule-config.utils.ts\<close> must accept its own output unchanged.
\<close>

section \<open>A saved setting reads back as itself\<close>

text \<open>The setting as it is stored (jsonb): a property that was never set reads back as undefined.\<close>

definition name_in :: "(string \<times> 'a) list \<Rightarrow> 'a option \<Rightarrow> jsval" where
  "name_in table v = (case v of None \<Rightarrow> JUndef
     | Some x \<Rightarrow> (case find (\<lambda>p. snd p = x) table of Some p \<Rightarrow> JStr (fst p) | None \<Rightarrow> JUndef))"

definition num_json :: "rat option \<Rightarrow> jsval" where
  "num_json v = (case v of None \<Rightarrow> JNull | Some x \<Rightarrow> JNum (Fin x))"

definition tier_json :: "rule_tier \<Rightarrow> jsval" where
  "tier_json t = JObj [(''from'', JNum (Fin (tFrom t))), (''to'', num_json (tTo t)),
     (''amount'', num_json (tAmount t)), (''dayFraction'', num_json (tDayFraction t))]"

definition config_json :: "rule_calc_config \<Rightarrow> jsval" where
  "config_json c = JObj [(''kind'', name_in KINDS (Some (cKind c))), (''amount'', num_json (cAmount c)),
     (''unit'', name_in UNITS (cUnit c)), (''coef'', num_json (cCoef c)), (''percent'', num_json (cPercent c)),
     (''base'', name_in RULE_BASES (cBase c)), (''dayFraction'', num_json (cDayFraction c)),
     (''triggerMinutes'', num_json (cTriggerMinutes c)), (''step'', num_json (cStep c)), (''cap'', num_json (cCap c)),
     (''tiers'', case cTiers c of None \<Rightarrow> JUndef | Some ts \<Rightarrow> JArr (map tier_json ts)),
     (''graceMinutes'', num_json (cGraceMinutes c)),
     (''accumulateDaily'', case cAccumulateDaily c of None \<Rightarrow> JUndef | Some b \<Rightarrow> JBool b),
     (''metric'', name_in METRICS (cMetric c)),
     (''op'', case cOp c of None \<Rightarrow> JUndef | Some LTE \<Rightarrow> JStr ''LTE'' | Some GTE \<Rightarrow> JStr ''GTE''),
     (''threshold'', num_json (cThreshold c))]"

text \<open>What rounding on save must leave positive: it turns a factor below 0.005 into 0.\<close>

definition tier_positive :: "rule_tier \<Rightarrow> bool" where
  "tier_positive t \<longleftrightarrow> opt_ok (\<lambda>d. 0 < d) (tDayFraction t)"

definition positives_kept :: "rule_calc_config \<Rightarrow> bool" where
  "positives_kept c \<longleftrightarrow> opt_ok (\<lambda>x. 0 < x) (cCoef c) \<and> opt_ok (\<lambda>x. 0 < x) (cPercent c) \<and>
     opt_ok (\<lambda>x. 0 < x) (cDayFraction c) \<and> opt_ok (\<lambda>x. 0 < x) (cStep c) \<and> opt_ok (\<lambda>x. 0 < x) (cGraceMinutes c) \<and>
     (cOp c = Some GTE \<longrightarrow> opt_ok (\<lambda>x. 0 < x) (cThreshold c)) \<and> opt_ok (list_all tier_positive) (cTiers c)"

text \<open>Only the fields of the kind are set, and every number is already rounded.\<close>

definition own_fields :: "rule_calc_config \<Rightarrow> rule_calc_config" where
  "own_fields c = (let e = empty_config (cKind c) in case cKind c of
       FIXED \<Rightarrow> e\<lparr>cAmount := cAmount c, cUnit := cUnit c\<rparr>
     | UNIT_PRICE \<Rightarrow> e\<lparr>cAmount := cAmount c, cUnit := cUnit c\<rparr>
     | SALARY_COEF \<Rightarrow> e\<lparr>cCoef := cCoef c, cBase := cBase c\<rparr>
     | PERCENT \<Rightarrow> e\<lparr>cPercent := cPercent c, cBase := cBase c\<rparr>
     | SALARY_BLOCK \<Rightarrow> e\<lparr>cDayFraction := cDayFraction c, cTriggerMinutes := cTriggerMinutes c\<rparr>
     | PROGRESSIVE \<Rightarrow> e\<lparr>cStep := cStep c, cAmount := cAmount c, cUnit := cUnit c, cCap := cCap c\<rparr>
     | TIERED \<Rightarrow> e\<lparr>cTiers := cTiers c\<rparr>
     | MILESTONE \<Rightarrow> e\<lparr>cMetric := cMetric c, cOp := cOp c, cThreshold := cThreshold c, cAmount := cAmount c\<rparr>)"

definition rounded2 :: "rat \<Rightarrow> bool" where "rounded2 x \<longleftrightarrow> round2 x = x"

definition tier_rounded :: "rule_tier \<Rightarrow> bool" where
  "tier_rounded t \<longleftrightarrow> rounded2 (tFrom t) \<and> opt_ok rounded2 (tTo t) \<and> opt_ok rounded2 (tDayFraction t)"

definition numbers_rounded :: "rule_calc_config \<Rightarrow> bool" where
  "numbers_rounded c \<longleftrightarrow> opt_ok rounded2 (cCoef c) \<and> opt_ok rounded2 (cPercent c) \<and> opt_ok rounded2 (cDayFraction c) \<and>
     opt_ok rounded2 (cStep c) \<and> opt_ok rounded2 (cThreshold c) \<and> opt_ok js_is_integer (cTriggerMinutes c) \<and>
     opt_ok (list_all tier_rounded) (cTiers c)"

lemma rounded2_round2 [simp]: "rounded2 (round2 x)"
  by (simp add: rounded2_def)

lemma js_is_integer_round [simp]: "js_is_integer (js_round x)"
  by (simp add: js_is_integer_def js_round_def)

lemma positive_rounded: "positive r key m e = Inr v \<Longrightarrow> opt_ok rounded2 v"
  by (auto simp: positive_def result_iffs)

lemma clean_tier_rounded: "clean_tier t = Inr c \<Longrightarrow> tier_rounded c"
  by (auto simp: clean_tier_def tier_rounded_def Let_def split: option.splits if_splits)

lemma clean_tiers_rounded: "clean_tiers ts = Inr cs \<Longrightarrow> list_all tier_rounded cs"
  by (induction ts arbitrary: cs) (auto simp: and_then_Inr_iff clean_tier_rounded)

lemma kind_fields_own:
  assumes "kind_fields r kind = Inr c"
  shows "own_fields c = c \<and> numbers_rounded c"
proof -
  note fields = kind_fields_def own_fields_def numbers_rounded_def empty_config_def Let_def result_iffs
  show ?thesis
  proof (cases kind)
    case MILESTONE
    have "\<exists>m op t a. c = empty_config MILESTONE\<lparr>cMetric := Some m, cOp := Some op, cThreshold := Some (round2 t), cAmount := a\<rparr>"
      using assms unfolding kind_fields_def Let_def MILESTONE rule_calc_kind.case result_iffs by (elim disjE conjE exE; simp) blast+
    then show ?thesis by (auto simp: own_fields_def numbers_rounded_def empty_config_def)
  qed (use assms in \<open>auto simp: fields dest!: positive_rounded clean_tiers_rounded
        simp: list_all_iff split: if_split_asm\<close>)
qed

lemma own_fields_plain: "cGraceMinutes (own_fields c) = None" "cAccumulateDaily (own_fields c) = None"
  by (cases "cKind c"; simp add: own_fields_def empty_config_def)+

lemma with_grace_Inr:
  assumes "with_grace r a = Inr b"
  shows "b = a \<or> (\<exists>x. b = a\<lparr>cGraceMinutes := Some (js_round x)\<rparr> \<and> 0 < x \<and> x \<le> 600)"
proof (cases "num (js_get r ''graceMinutes'')")
  case n: (Some n)
  show ?thesis
  proof (cases n)
    case (Some x)
    then have e: "(if x < 0 \<or> 600 < x then Inl BadGrace
        else Inr (if 0 < x then a\<lparr>cGraceMinutes := Some (js_round x)\<rparr> else a)) = Inr b"
      using assms n by (simp only: with_grace_def option.case)
    show ?thesis
    proof (cases "0 < x \<and> x \<le> 600")
      case True
      then have "b = a\<lparr>cGraceMinutes := Some (js_round x)\<rparr>" using e by simp
      then show ?thesis using True by blast
    next
      case False
      then have "b = a" using e by (simp split: if_split_asm)
      then show ?thesis by simp
    qed
  qed (use assms n in \<open>simp add: with_grace_def\<close>)
qed (use assms in \<open>simp add: with_grace_def\<close>)

lemma finish_eq:
  "cAccumulateDaily b = None \<Longrightarrow> finish_config r b =
   (let m = cKind b = MILESTONE \<and> cMetric b \<noteq> Some OCCURRENCES
    in b\<lparr>cGraceMinutes := (if m then None else cGraceMinutes b),
        cAccumulateDaily := (if m then None else if js_get r ''accumulateDaily'' = JBool False then Some False else None)\<rparr>)"
  by (cases b; cases "js_get r ''accumulateDaily'' = JBool False") (simp_all add: finish_config_def Let_def)

lemma regrace:
  "c\<lparr>cGraceMinutes := h\<rparr>\<lparr>cGraceMinutes := x, cAccumulateDaily := y\<rparr> = c\<lparr>cGraceMinutes := x, cAccumulateDaily := y\<rparr>"
  by (cases c) simp

text \<open>An accepted setting is the fields of its kind plus the grace and the daily choice.\<close>

lemma normalized_parts:
  assumes "normalizeRuleCalcConfig r = Inr c"
  obtains a g d where "kind_fields r (cKind a) = Inr a" "c = a\<lparr>cGraceMinutes := g, cAccumulateDaily := d\<rparr>"
    "opt_ok (\<lambda>x. between 0 600 x \<and> js_is_integer x) g" "d = None \<or> d = Some False"
    "cKind a = MILESTONE \<and> cMetric a \<noteq> Some OCCURRENCES \<longrightarrow> g = None \<and> d = None"
proof -
  obtain kind a b where k: "kind_fields r kind = Inr a" and g: "with_grace r a = Inr b"
    and c: "c = finish_config r b"
    by (rule normalize_steps [OF assms])
  have kind: "cKind a = kind" using kind_fields_ok [OF k] by simp
  have plain: "cGraceMinutes a = None" "cAccumulateDaily a = None"
    using kind_fields_own [OF k] own_fields_plain [of a] by simp_all
  have none: "a\<lparr>cGraceMinutes := None\<rparr> = a" "a\<lparr>cAccumulateDaily := None\<rparr> = a"
    using plain by (cases a; simp)+
  obtain h where h: "b = a\<lparr>cGraceMinutes := h\<rparr>" "opt_ok (\<lambda>x. between 0 600 x \<and> js_is_integer x) h"
  proof (cases "b = a")
    case True
    then show thesis using none(1) by (intro that [of None]) simp_all
  next
    case False
    then obtain x where x: "b = a\<lparr>cGraceMinutes := Some (js_round x)\<rparr>" "0 < x" "x \<le> 600"
      using with_grace_Inr [OF g] by blast
    have "opt_ok (\<lambda>x. between 0 600 x \<and> js_is_integer x) (Some (js_round x))"
      using js_round_between [of x 600] x(2,3) by simp
    then show thesis by (rule that [OF x(1)])
  qed
  let ?m = "cKind a = MILESTONE \<and> cMetric a \<noteq> Some OCCURRENCES" and ?f = "js_get r ''accumulateDaily'' = JBool False"
  have m: "cKind b = cKind a" "cMetric b = cMetric a" "cGraceMinutes b = h" "cAccumulateDaily b = None"
    using plain(2) by (simp_all add: h(1))
  have "c = b\<lparr>cGraceMinutes := (if ?m then None else h), cAccumulateDaily := (if ?m then None else if ?f then Some False else None)\<rparr>"
    using trans [OF c finish_eq [OF m(4)]] unfolding m Let_def .
  then have "c = a\<lparr>cGraceMinutes := (if ?m then None else h), cAccumulateDaily := (if ?m then None else if ?f then Some False else None)\<rparr>"
    unfolding h(1) regrace .
  moreover have "opt_ok (\<lambda>x. between 0 600 x \<and> js_is_integer x) (if ?m then None else h)" using h(2) by simp
  ultimately show thesis by (rule that [OF k [folded kind]]) auto
qed

lemma num_num_json [simp]: "num (num_json v) = map_option Some v"
  by (cases v) (auto simp: num_json_def num_def nullish_def)

lemma num_JNum [simp]: "num (JNum (Fin x)) = Some (Some x)"
  by (simp add: num_def nullish_def)

lemma money_read:
  "num (js_get r key) = map_option Some v \<Longrightarrow> opt_ok money_ok v \<Longrightarrow> required \<longrightarrow> v \<noteq> None \<Longrightarrow> money r key required = Inr v"
  by (cases v) (auto simp: money_def money_ok_def js_round_integer)

lemma positive_read:
  "num (js_get r key) = map_option Some v \<Longrightarrow> opt_ok (between 0 m) v \<Longrightarrow> opt_ok (\<lambda>x. 0 < x) v \<Longrightarrow> opt_ok rounded2 v \<Longrightarrow>
     v \<noteq> None \<Longrightarrow> positive r key m e = Inr v"
  by (cases v) (auto simp: positive_def between_def rounded2_def)

lemma name_in_str: "name_in UNITS (Some u) = JStr (fst (the (find (\<lambda>p. snd p = u) UNITS)))"
  "name_in RULE_BASES (Some b) = JStr (fst (the (find (\<lambda>p. snd p = b) RULE_BASES)))"
  "name_in METRICS (Some m) = JStr (fst (the (find (\<lambda>p. snd p = m) METRICS)))"
  "name_in KINDS (Some k) = JStr (fst (the (find (\<lambda>p. snd p = k) KINDS)))"
  subgoal by (cases u; simp add: name_in_def UNITS_def)
  subgoal by (cases b; simp add: name_in_def RULE_BASES_def)
  subgoal by (cases m; simp add: name_in_def METRICS_def)
  subgoal by (cases k; simp add: name_in_def KINDS_def)
  done

lemma name_read: "map_of UNITS (fst (the (find (\<lambda>p. snd p = u) UNITS))) = Some u"
  "map_of RULE_BASES (fst (the (find (\<lambda>p. snd p = b) RULE_BASES))) = Some b"
  "map_of METRICS (fst (the (find (\<lambda>p. snd p = m) METRICS))) = Some m"
  "map_of KINDS (fst (the (find (\<lambda>p. snd p = k) KINDS))) = Some k"
  subgoal by (cases u; simp add: UNITS_def)
  subgoal by (cases b; simp add: RULE_BASES_def)
  subgoal by (cases m; simp add: METRICS_def)
  subgoal by (cases k; simp add: KINDS_def)
  done

lemma config_json_get:
  "js_get (config_json c) ''kind'' = name_in KINDS (Some (cKind c))"
  "js_get (config_json c) ''amount'' = num_json (cAmount c)"
  "js_get (config_json c) ''unit'' = name_in UNITS (cUnit c)"
  "js_get (config_json c) ''coef'' = num_json (cCoef c)"
  "js_get (config_json c) ''percent'' = num_json (cPercent c)"
  "js_get (config_json c) ''base'' = name_in RULE_BASES (cBase c)"
  "js_get (config_json c) ''dayFraction'' = num_json (cDayFraction c)"
  "js_get (config_json c) ''triggerMinutes'' = num_json (cTriggerMinutes c)"
  "js_get (config_json c) ''step'' = num_json (cStep c)"
  "js_get (config_json c) ''cap'' = num_json (cCap c)"
  "js_get (config_json c) ''tiers'' = (case cTiers c of None \<Rightarrow> JUndef | Some ts \<Rightarrow> JArr (map tier_json ts))"
  "js_get (config_json c) ''graceMinutes'' = num_json (cGraceMinutes c)"
  "js_get (config_json c) ''accumulateDaily'' = (case cAccumulateDaily c of None \<Rightarrow> JUndef | Some b \<Rightarrow> JBool b)"
  "js_get (config_json c) ''metric'' = name_in METRICS (cMetric c)"
  "js_get (config_json c) ''op'' = (case cOp c of None \<Rightarrow> JUndef | Some LTE \<Rightarrow> JStr ''LTE'' | Some GTE \<Rightarrow> JStr ''GTE'')"
  "js_get (config_json c) ''threshold'' = num_json (cThreshold c)"
  by (simp_all add: config_json_def)

lemma unit_read: "cUnit c = Some u \<Longrightarrow> optionalUnit (config_json c) d = Inr (Some u)"
  by (simp add: optionalUnit_def Let_def config_json_get name_in_str name_read nullish_def)

lemma base_read: "cBase c = Some b \<Longrightarrow> b \<in> set allowed \<Longrightarrow> base_in (config_json c) allowed = Inr (Some b)"
  by (simp add: base_in_def config_json_get name_in_str name_read nullish_def js_or_null_def)

lemma tier_read: "tier_ok t \<Longrightarrow> tier_rounded t \<Longrightarrow> tier_positive t \<Longrightarrow> clean_tier (tier_json t) = Inr t"
  by (cases "tTo t"; cases "tAmount t"; cases "tDayFraction t")
     (auto simp: clean_tier_def tier_json_def Let_def tier_ok_def tier_rounded_def tier_positive_def rounded2_def
       money_ok_def between_def js_round_integer)

lemma tiers_read:
  "list_all tier_ok ts \<Longrightarrow> list_all tier_rounded ts \<Longrightarrow> list_all tier_positive ts \<Longrightarrow>
     clean_tiers (map tier_json ts) = Inr ts"
  by (induction ts) (auto simp: tier_read)

lemma kind_fields_read:
  assumes ok: "config_ok c" and own: "own_fields c = c" and rounded: "numbers_rounded c" and pos: "positives_kept c"
  shows "kind_fields (config_json (c\<lparr>cGraceMinutes := g, cAccumulateDaily := a\<rparr>)) (cKind c) = Inr c"
proof -
  let ?c = "c\<lparr>cGraceMinutes := g, cAccumulateDaily := a\<rparr>"
  note reads = money_read positive_read config_json_get name_in_str name_read nullish_def js_or_null_def
  note parts = ok [unfolded config_ok_def fields_present_def] rounded [unfolded numbers_rounded_def]
    pos [unfolded positives_kept_def] own [unfolded own_fields_def Let_def]
  show ?thesis
  proof (cases "cKind c")
    case TIERED
    then obtain ts where ts: "cTiers c = Some ts" "tiers_ok ts" "list_all tier_rounded ts" "list_all tier_positive ts"
      using parts by auto
    then have "clean_tiers (map tier_json ts) = Inr ts" "sort_key tFrom ts = ts" "ts \<noteq> []" "\<not> MAX_TIERS < length ts"
      by (auto simp: tiers_ok_def tiers_read intro: sort_key_id_if_sorted)
    then show ?thesis using TIERED ts(1) parts(4)
      by (simp add: kind_fields_def config_json_get)
  next
    case MILESTONE
    then obtain m p t v where f: "cMetric c = Some m" "cOp c = Some p" "cThreshold c = Some t" "cAmount c = Some v"
      using parts(1) by auto
    have t: "0 \<le> t" "t \<le> 100000" "round2 t = t" "p = GTE \<Longrightarrow> t \<noteq> 0"
      using parts f by (auto simp: between_def rounded2_def)
    have a: "money (config_json ?c) ''amount'' True = Inr (Some v)"
      using parts f by (intro money_read) (auto simp: config_json_get)
    have c: "empty_config MILESTONE\<lparr>cMetric := Some m, cOp := Some p, cThreshold := Some t, cAmount := Some v\<rparr> = c"
      using parts(4) f MILESTONE by simp
    show ?thesis using MILESTONE f t a c
      by (cases p) (simp_all add: kind_fields_def Let_def config_json_get name_in_str name_read nullish_def js_or_null_def)
  next
    case SALARY_BLOCK
    have "opt_ok (\<lambda>t. js_round t = t \<and> 0 \<le> t \<and> t \<le> 1440) (cTriggerMinutes c)"
      using parts by (cases "cTriggerMinutes c") (auto simp: between_def js_round_integer)
    then show ?thesis using SALARY_BLOCK parts
      by (cases "cTriggerMinutes c") (auto simp: kind_fields_def Let_def reads empty_config_def)
  next
    case PROGRESSIVE
    then show ?thesis using parts unit_read [of ?c]
      by (auto simp: kind_fields_def Let_def reads)
  next
    case FIXED
    then show ?thesis using parts unit_read [of ?c] by (auto simp: kind_fields_def Let_def reads)
  next
    case UNIT_PRICE
    then show ?thesis using parts unit_read [of ?c] by (auto simp: kind_fields_def Let_def reads)
  next
    case SALARY_COEF
    then show ?thesis using parts base_read [of ?c] by (auto simp: kind_fields_def Let_def reads)
  next
    case PERCENT
    then obtain b where b: "cBase c = Some b" "b \<noteq> B_SHIFT_HOURS" using parts by auto
    then show ?thesis using parts PERCENT base_read [of ?c b "[B_HOURLY, B_DAILY, B_MONTHLY, B_REVENUE]"]
      by (cases b) (auto simp: kind_fields_def Let_def reads)
  qed
qed

text \<open>
  C39. What is saved is what payroll applies: payroll validates the stored setting again before every
  use, and a setting accepted on save reads back as exactly itself, unless rounding on save turned one
  of its positive factors into 0.
\<close>

theorem saved_config_reads_back:
  assumes "normalizeRuleCalcConfig r = Inr c" "positives_kept c"
  shows "normalizeRuleCalcConfig (config_json c) = Inr c"
proof -
  obtain a g d where a: "kind_fields r (cKind a) = Inr a" and e: "c = a\<lparr>cGraceMinutes := g, cAccumulateDaily := d\<rparr>"
    and g: "opt_ok (\<lambda>x. between 0 600 x \<and> js_is_integer x) g" and d: "d = None \<or> d = Some False"
    and reset: "cKind a = MILESTONE \<and> cMetric a \<noteq> Some OCCURRENCES \<longrightarrow> g = None \<and> d = None"
    by (rule normalized_parts [OF assms(1)])
  note own = kind_fields_own [OF a]
  have plain: "cGraceMinutes a = None" "cAccumulateDaily a = None"
    using own own_fields_plain [of a] by simp_all
  have pos: "positives_kept a" "opt_ok (\<lambda>x. 0 < x) g"
    using assms(2) plain by (auto simp: positives_kept_def e)
  have none: "a\<lparr>cGraceMinutes := None\<rparr> = a" "a\<lparr>cGraceMinutes := g, cAccumulateDaily := None\<rparr> = a\<lparr>cGraceMinutes := g\<rparr>"
    using plain by (cases a; simp)+
  have "kind_fields (config_json c) (cKind a) = Inr a"
    using kind_fields_read [where c = a and g = g and a = d] kind_fields_ok [OF a] own pos(1) by (simp add: e)
  moreover have "with_grace (config_json c) a = Inr (a\<lparr>cGraceMinutes := g\<rparr>)"
  proof (cases g)
    case None
    then show ?thesis using none(1) plain(1) by (simp add: with_grace_def config_json_get e)
  next
    case (Some x)
    then have "0 < x" "\<not> x < 0" "\<not> 600 < x" "js_round x = x"
      using g pos(2) by (auto simp: between_def js_round_integer)
    then show ?thesis using Some by (simp add: with_grace_def config_json_get e)
  qed
  moreover have "map_of KINDS (js_string (js_or_null (js_get (config_json c) ''kind'') (JStr []))) = Some (cKind a)"
    by (simp add: e config_json_get name_in_str name_read js_or_null_def nullish_def)
  moreover have "js_is_object (config_json c)" by (simp add: config_json_def)
  moreover have "finish_config (config_json c) (a\<lparr>cGraceMinutes := g\<rparr>) = c"
  proof -
    let ?m = "cKind a = MILESTONE \<and> cMetric a \<noteq> Some OCCURRENCES"
      and ?f = "js_get (config_json c) ''accumulateDaily'' = JBool False" and ?b = "a\<lparr>cGraceMinutes := g\<rparr>"
    have f: "?f \<longleftrightarrow> d = Some False" using d by (auto simp: config_json_get e)
    have b: "cKind ?b = cKind a" "cMetric ?b = cMetric a" "cGraceMinutes ?b = g" "cAccumulateDaily ?b = None"
      using plain by simp_all
    have v: "(if ?m then None else g) = g" "(if ?m then None else if ?f then Some False else None) = d"
      using reset d f by auto
    show ?thesis using finish_eq [OF b(4), of "config_json c"] unfolding b Let_def v(1) v(2) regrace e [symmetric] .
  qed
  ultimately show ?thesis by (simp add: normalizeRuleCalcConfig_def)
qed

definition coef_setting :: "rat \<Rightarrow> jsval" where
  "coef_setting x = JObj [(''kind'', JStr ''SALARY_COEF''), (''coef'', JNum (Fin x)), (''base'', JStr ''HOURLY'')]"

theorem saved_config_reads_back_witness:
  "\<exists>c. normalizeRuleCalcConfig (coef_setting (3 / 2)) = Inr c \<and> normalizeRuleCalcConfig (config_json c) = Inr c"
proof -
  let ?c = "empty_config SALARY_COEF\<lparr>cCoef := Some (3 / 2), cBase := Some B_HOURLY\<rparr>"
  have c: "normalizeRuleCalcConfig (coef_setting (3 / 2)) = Inr ?c" "positives_kept ?c"
    by code_simp+
  show ?thesis using saved_config_reads_back [OF c] c(1) by blast
qed

text \<open>
  The exception is real: a coefficient below 0.005 passes validation, is stored as 0, and the
  stored setting is then refused by the same validation when payroll prices the rule.
\<close>

theorem tiny_coefficient_is_lost:
  assumes "0 < x" "x < 1 / 200"
  shows "\<exists>c. normalizeRuleCalcConfig (coef_setting x) = Inr c \<and>
    normalizeRuleCalcConfig (config_json c) = Inl BadCoef"
proof -
  have r: "round2 x = 0"
  proof -
    have "\<lfloor>x * 100 + 1 / 2\<rfloor> = 0" using assms by (intro floor_unique) auto
    then show ?thesis by (simp add: round2_def js_round_def)
  qed
  let ?c = "empty_config SALARY_COEF\<lparr>cCoef := Some 0, cBase := Some B_HOURLY\<rparr>"
  have "normalizeRuleCalcConfig (coef_setting x) = Inr ?c"
    using assms by (simp add: normalizeRuleCalcConfig_def coef_setting_def js_or_null_def nullish_def KINDS_def
        RULE_BASES_def kind_fields_def positive_def base_in_def with_grace_def finish_config_def num_def r Let_def
        empty_config_def)
  moreover have "normalizeRuleCalcConfig (config_json ?c) = Inl BadCoef" by code_simp
  ultimately show ?thesis by blast
qed

theorem tiny_coefficient_is_lost_witness:
  "\<exists>c. normalizeRuleCalcConfig (coef_setting (1 / 250)) = Inr c \<and>
    normalizeRuleCalcConfig (config_json c) = Inl BadCoef"
  by (rule tiny_coefficient_is_lost) simp_all

end
