(* ===== verification/RuleConfigPay.thy ===== *)
theory RuleConfigPay
  imports RuleConfig
begin

text \<open>
  What a setting pays: which occurrences count, how a day's pay is shared between its shifts, that pay
  is never negative and respects its cap, and that a setting priced occurrence by occurrence can be
  priced window by window.
\<close>

section \<open>Counted occurrences\<close>

definition eligible :: "string \<Rightarrow> rule_calc_config \<Rightarrow> rule_occurrence \<Rightarrow> bool" where
  "eligible code c oc \<longleftrightarrow> (if minuteBased code then oMinutes oc > grace_of code c else oQuantity oc > 0)"

text \<open>The occurrence that stands for a day is chosen by the "keep the heaviest" loop.\<close>

definition heavier :: "string \<Rightarrow> rule_occurrence \<Rightarrow> rule_occurrence \<Rightarrow> bool" where
  "heavier code x y \<longleftrightarrow> weight_of code x > weight_of code y"

interpretation heaviest: selection "heavier code" "\<lambda>x y. weight_of code x \<le> weight_of code y" for code
  by unfold_locales (auto simp: heavier_def)

lemma keep_heaviest_at:
  "map_of (keep_heaviest code m oc) k =
     (if k = oDate oc then keep_step (heavier code) (map_of m k) oc else map_of m k)"
  by (auto simp: keep_heaviest_def keep_step_def heavier_def split: option.splits)

lemma heaviest_at_date:
  "map_of (foldl (keep_heaviest code) [] xs) d = keep_best (heavier code) (filter (\<lambda>oc. oDate oc = d) xs)"
  using objects.walk_at_key [of "keep_heaviest code" oDate "keep_step (heavier code)" "[]" xs d]
  by (simp add: keep_heaviest_at keep_best_def)

lemma keep_heaviest_keys:
  "distinct (map fst m) \<Longrightarrow> distinct (map fst (keep_heaviest code m oc))"
  "\<forall>(k, v) \<in> set m. oDate v = k \<Longrightarrow> \<forall>(k, v) \<in> set (keep_heaviest code m oc). oDate v = k"
proof -
  have s: "\<forall>(k, v) \<in> set m. oDate v = k \<Longrightarrow> \<forall>(k, v) \<in> set (map_set m (oDate oc) oc). oDate v = k" for m
    by (induction m "oDate oc" oc rule: map_set.induct) auto
  show "distinct (map fst m) \<Longrightarrow> distinct (map fst (keep_heaviest code m oc))"
    by (simp add: keep_heaviest_def split: option.split)
  show "\<forall>(k, v) \<in> set m. oDate v = k \<Longrightarrow> \<forall>(k, v) \<in> set (keep_heaviest code m oc). oDate v = k"
    using s [of m] by (simp add: keep_heaviest_def split: option.split)
qed

lemma heaviest_keys:
  "distinct (map fst (foldl (keep_heaviest code) [] xs))"
  "\<forall>(k, v) \<in> set (foldl (keep_heaviest code) [] xs). oDate v = k"
proof -
  show "distinct (map fst (foldl (keep_heaviest code) [] xs))"
    by (rule foldl_keys_distinct) (simp_all add: keep_heaviest_keys)
  show "\<forall>(k, v) \<in> set (foldl (keep_heaviest code) [] xs). oDate v = k"
  proof (induction xs rule: rev_induct)
    case (snoc x xs)
    then show ?case using keep_heaviest_keys(2) [OF snoc.IH] by simp
  qed simp
qed

lemma heaviest_dates: "map oDate (map snd (foldl (keep_heaviest code) [] xs)) = map fst (foldl (keep_heaviest code) [] xs)"
  using heaviest_keys(2) [of code xs] by (auto simp: case_prod_beta)

lemma heaviest_values:
  "oc \<in> set (map snd (foldl (keep_heaviest code) [] xs)) \<longleftrightarrow>
     keep_best (heavier code) (filter (\<lambda>x. oDate x = oDate oc) xs) = Some oc"
proof -
  let ?m = "foldl (keep_heaviest code) [] xs"
  have "oc \<in> set (map snd ?m) \<longleftrightarrow> (oDate oc, oc) \<in> set ?m"
    using heaviest_keys(2) [of code xs] by (force simp: image_iff)
  also have "\<dots> \<longleftrightarrow> map_of ?m (oDate oc) = Some oc"
    using heaviest_keys(1) [of code xs] by simp
  finally show ?thesis by (simp add: heaviest_at_date)
qed

text \<open>
  The occurrences that are paid: each is one of the month's that passes the grace (or was recorded
  with a positive quantity); when days do not accumulate, there is exactly one for every date with such
  an occurrence, and it is the heaviest of its date; otherwise all of them are paid.
\<close>

theorem counted_occurrences_correct:
  "(cAccumulateDaily c \<noteq> Some False \<longrightarrow> countedOccurrences code c xs = filter (eligible code c) xs) \<and>
   (cAccumulateDaily c = Some False \<longrightarrow>
      distinct (map oDate (countedOccurrences code c xs)) \<and>
      set (map oDate (countedOccurrences code c xs)) = oDate ` {x \<in> set xs. eligible code c x} \<and>
      (\<forall>oc \<in> set (countedOccurrences code c xs). oc \<in> set xs \<and> eligible code c oc \<and>
         (\<forall>x \<in> set xs. eligible code c x \<and> oDate x = oDate oc \<longrightarrow> weight_of code x \<le> weight_of code oc)))"
proof -
  let ?l = "filter (eligible code c) xs" and ?f = "\<lambda>xs. foldl (keep_heaviest code) [] xs"
  have e: "filter (\<lambda>oc. if minuteBased code then oMinutes oc > grace_of code c else oQuantity oc > 0) xs = ?l"
    by (simp add: eligible_def [abs_def])
  have all: "cAccumulateDaily c \<noteq> Some False \<Longrightarrow> countedOccurrences code c xs = ?l"
    and one: "cAccumulateDaily c = Some False \<Longrightarrow> countedOccurrences code c xs = map snd (?f ?l)"
    unfolding countedOccurrences_def e Let_def by simp_all
  have A: "distinct (map oDate (map snd (?f ?l)))"
    unfolding heaviest_dates by (rule heaviest_keys)
  have B: "set (map oDate (map snd (?f ?l))) = oDate ` set ?l"
  proof -
    have "d \<in> fst ` set (?f ?l) \<longleftrightarrow> d \<in> oDate ` set ?l" for d
    proof -
      have "d \<in> fst ` set (?f ?l) \<longleftrightarrow> map_of (?f ?l) d \<noteq> None" by (simp add: map_of_eq_None_iff)
      also have "\<dots> \<longleftrightarrow> filter (\<lambda>oc. oDate oc = d) ?l \<noteq> []" by (simp only: heaviest_at_date keep_best_None_iff)
      also have "\<dots> \<longleftrightarrow> d \<in> oDate ` set ?l" by (auto simp: filter_empty_conv)
      finally show ?thesis .
    qed
    then show ?thesis unfolding heaviest_dates by auto
  qed
  have C: "oc \<in> set ?l \<and> (\<forall>x \<in> set (filter (\<lambda>x. oDate x = oDate oc) ?l). weight_of code x \<le> weight_of code oc)"
    if "oc \<in> set (map snd (?f ?l))" for oc
    using heaviest.best_characterised [OF that [unfolded heaviest_values]] by simp
  show ?thesis
  proof (cases "cAccumulateDaily c = Some False")
    case True
    define V where "V = map snd (?f ?l)"
    have D: "oc \<in> set xs \<and> eligible code c oc \<and>
        (\<forall>x \<in> set xs. eligible code c x \<and> oDate x = oDate oc \<longrightarrow> weight_of code x \<le> weight_of code oc)"
      if "oc \<in> set V" for oc
      using C [OF that [unfolded V_def]] by simp
    show ?thesis
      unfolding one [OF True] V_def [symmetric] set_filter [symmetric]
      using True A [folded V_def] B [folded V_def] D by (simp only: simp_thms) blast
  next
    case False
    then show ?thesis using all by simp
  qed
qed

definition occurrence_on :: "string \<Rightarrow> rat \<Rightarrow> rule_occurrence" where
  "occurrence_on d m = \<lparr> oDate = d, oMinutes = m, oQuantity = 1, oShiftMinutes = None, oAssignmentId = None, oRecordId = None \<rparr>"

theorem counted_occurrences_correct_witness:
  "distinct (map oDate (countedOccurrences ''LATE''
      (empty_config FIXED\<lparr>cGraceMinutes := Some 5, cAccumulateDaily := Some False\<rparr>)
      [occurrence_on ''2026-10-03'' 7, occurrence_on ''2026-10-03'' 12, occurrence_on ''2026-10-04'' 4]))"
  using counted_occurrences_correct [of "empty_config FIXED\<lparr>cGraceMinutes := Some 5, cAccumulateDaily := Some False\<rparr>" "''LATE''"]
  by simp

section \<open>A day's pay and its shifts\<close>

definition own_units :: "day_pay \<Rightarrow> rule_occurrence \<Rightarrow> rat" where
  "own_units d oc = (if dpUnit d = D_SHIFT then 1 else or_zero (oShiftMinutes oc))"

lemma dayPayShare_share:
  assumes "rtDayPay rates = Some d" "\<not> recorded_code code" "map_of (dpByDate d) (oDate oc) = Some v" "0 < v"
    and "map_of (dpUnitsByDate d) (oDate oc) = Some u" "0 < own_units d oc" "own_units d oc \<le> u"
  shows "dayPayShare code rates oc = v * own_units d oc / u"
proof -
  have "dayPay rates (oDate oc) = v" using assms by (simp add: dayPay_def)
  moreover have "0 < u" using assms by linarith
  ultimately show ?thesis using assms
    by (simp add: dayPayShare_def Let_def map_get_or_def own_units_def min_def)
qed

text \<open>
  Missing every shift of a day costs exactly that day's pay: when the occurrences of a date are the
  day's shifts (their minutes, or one each, add up to the day's units), the shares of the day's pay they
  are charged add up to the day's pay, however many shifts there are.
\<close>

theorem day_pay_shares_add_up:
  assumes "rtDayPay rates = Some d" "\<not> recorded_code code" "map_of (dpByDate d) date = Some v" "0 < v"
    and "map_of (dpUnitsByDate d) date = Some (sum_list (map (own_units d) ocs))"
    and "ocs \<noteq> []" "\<forall>oc \<in> set ocs. oDate oc = date \<and> 0 < own_units d oc"
  shows "sumDayPay code rates ocs = v"
proof -
  let ?u = "sum_list (map (own_units d) ocs)"
  have pos: "0 < own_units d oc" if "oc \<in> set ocs" for oc using assms(7) that by simp
  have le: "own_units d oc \<le> ?u" if "oc \<in> set ocs" for oc
    using member_le_sum_list [of "own_units d oc" "map (own_units d) ocs"] that pos by (auto intro: less_imp_le)
  have m: "map (dayPayShare code rates) ocs = map (\<lambda>oc. v / ?u * own_units d oc) ocs"
    using assms pos le by (auto simp: dayPayShare_share)
  have "sumDayPay code rates ocs = sum_list (map (dayPayShare code rates) ocs)"
    using assms(2) by (simp add: sumDayPay_def)
  also have "\<dots> = v / ?u * ?u" unfolding m by (rule sum_list_const_mult)
  finally have "sumDayPay code rates ocs = v / ?u * ?u" .
  moreover have "0 < ?u"
  proof -
    obtain oc where "oc \<in> set ocs" using assms(6) by (cases ocs) auto
    then show ?thesis using pos [of oc] le [of oc] by linarith
  qed
  ultimately show ?thesis by simp
qed

definition three_shift_day :: day_pay where
  "three_shift_day = \<lparr> dpByDate = [(''2026-10-03'', 300000)], dpUnitsByDate = [(''2026-10-03'', 3)], dpUnit = D_SHIFT \<rparr>"

definition three_shift_rates :: rule_rates where
  "three_shift_rates = \<lparr> rtHourly = 20000, rtDaily = 160000, rtMonthly = 4000000, rtRevenue = 0, rtDayPay = Some three_shift_day \<rparr>"

theorem day_pay_shares_add_up_witness:
  "sumDayPay ''ABSENT'' three_shift_rates (replicate 3 (occurrence_on ''2026-10-03'' 240)) = 300000"
  by (rule day_pay_shares_add_up [where d = three_shift_day and date = "''2026-10-03''"])
     (simp_all add: three_shift_rates_def three_shift_day_def occurrence_on_def own_units_def recorded_code_def
       minuteBased_def MINUTE_BASED_CODES_def numeral_eq_Suc)

section \<open>Pay is non-negative and capped\<close>

definition occurrence_ok :: "rule_occurrence \<Rightarrow> bool" where
  "occurrence_ok oc \<longleftrightarrow> 0 \<le> oMinutes oc \<and> 0 \<le> oQuantity oc \<and> 0 \<le> or_zero (oShiftMinutes oc)"

definition rates_ok :: "rule_rates \<Rightarrow> bool" where
  "rates_ok r \<longleftrightarrow> 0 \<le> rtHourly r \<and> 0 \<le> rtDaily r \<and> 0 \<le> rtMonthly r \<and> 0 \<le> rtRevenue r"

lemma or_zero_ok: "opt_ok (between 0 m) v \<Longrightarrow> 0 \<le> or_zero v" "opt_ok money_ok v \<Longrightarrow> 0 \<le> or_zero v"
  by (cases v; simp add: or_zero_def between_def money_ok_def)+

lemma config_numbers_nonneg:
  assumes "config_ok c"
  shows "0 \<le> or_zero (cAmount c)" "0 \<le> or_zero (cCoef c)" "0 \<le> or_zero (cPercent c)" "0 \<le> or_zero (cDayFraction c)"
    "\<And>cap. cCap c = Some cap \<Longrightarrow> 0 \<le> cap"
  using assms or_zero_ok unfolding config_ok_def by (blast, blast, blast, blast, auto simp: money_ok_def)

lemma dayPay_nonneg: "rates_ok r \<Longrightarrow> 0 \<le> dayPay r d"
  by (auto simp: dayPay_def rates_ok_def split: option.split)

lemma dayPayShare_nonneg: "rates_ok r \<Longrightarrow> 0 \<le> dayPayShare code r oc"
  using dayPay_nonneg [of r "oDate oc"] by (auto simp: dayPayShare_def Let_def split: option.split)

lemma counted_subset: "set (countedOccurrences code c xs) \<subseteq> set xs"
proof (cases "cAccumulateDaily c = Some False")
  case True
  show ?thesis
  proof
    fix oc assume "oc \<in> set (countedOccurrences code c xs)"
    then have "keep_best (heavier code) (filter (\<lambda>x. oDate x = oDate oc)
        (filter (\<lambda>oc. if minuteBased code then oMinutes oc > grace_of code c else oQuantity oc > 0) xs)) = Some oc"
      using True by (simp only: countedOccurrences_def Let_def if_True simp_thms heaviest_values)
    then show "oc \<in> set xs" by (auto dest!: keep_best_in)
  qed
qed (auto simp: countedOccurrences_def)

lemma sum_list_nonneg_if: "(\<And>x. x \<in> set xs \<Longrightarrow> 0 \<le> f x) \<Longrightarrow> 0 \<le> sum_list (map f xs)" for f :: "'a \<Rightarrow> rat"
  by (rule sum_list_nonneg) auto

lemma sums_nonneg:
  assumes "rates_ok r" "\<forall>oc \<in> set list. occurrence_ok oc"
  shows "0 \<le> occurrence_count code list" "0 \<le> total_of code c list u" "0 \<le> sumDayPay code r list"
    "0 \<le> sumDistinctDayPay r list" "0 \<le> distinctDays list"
  using assms
  by (auto simp: occurrence_count_def total_of_def sumDayPay_def sumDistinctDayPay_def distinctDays_def measureOf_def
      occurrence_ok_def dayPay_nonneg dayPayShare_nonneg intro!: sum_list_nonneg_if mult_nonneg_nonneg)

lemma floor_steps_nonneg: "0 \<le> x \<Longrightarrow> 0 < s \<Longrightarrow> 0 \<le> js_floor (x / s)"
  by (simp add: js_floor_def)

lemma measureOf_nonneg: "occurrence_ok oc \<Longrightarrow> 0 \<le> measureOf code c u oc"
  by (simp add: measureOf_def occurrence_ok_def)

lemma tier_value_nonneg: "tier_ok t \<Longrightarrow> 0 \<le> x \<Longrightarrow> 0 \<le> tier_value t x"
  by (auto simp: tier_ok_def tier_value_def or_zero_ok)

lemma pick_tier_in: "pick_tier ts v = Some t \<Longrightarrow> t \<in> set ts"
  by (auto simp: pick_tier_def find_Some_iff)

lemma progressive_pay:
  assumes "config_ok c" "\<forall>oc \<in> set list. occurrence_ok oc"
  shows "0 \<le> reExact (eval_progressive code c list) \<and> 0 \<le> reCount (eval_progressive code c list) \<and>
    (\<forall>cap. cCap c = Some cap \<and> cap \<noteq> 0 \<longrightarrow> reExact (eval_progressive code c list) \<le> cap)"
proof -
  have a: "0 \<le> or_zero (cAmount c)" "\<And>cap. cCap c = Some cap \<Longrightarrow> 0 \<le> cap"
    using config_numbers_nonneg [OF assms(1)] by blast+
  define steps where "steps = (if \<not> minuteBased code \<or> unit_or U_MINUTE c = U_SHIFT \<or> unit_or U_MINUTE c = U_OCCURRENCE
              then js_floor (total_of code c list (unit_or U_MINUTE c) / or_zero (cStep c))
              else sum_list (map (\<lambda>oc. js_floor (measureOf code c (unit_or U_MINUTE c) oc / or_zero (cStep c))) list))"
  show ?thesis
  proof (cases "or_zero (cStep c) > 0")
    case True
    have "0 \<le> total_of code c list u" for u
      using assms(2) by (auto simp: total_of_def distinctDays_def measureOf_nonneg intro!: sum_list_nonneg_if)
    then have s: "0 \<le> steps" using True assms(2)
      by (auto simp: steps_def measureOf_nonneg intro!: floor_steps_nonneg sum_list_nonneg_if)
    have e: "eval_progressive code c list =
        result (case cCap c of Some cap \<Rightarrow> if cap \<noteq> 0 \<and> steps * or_zero (cAmount c) > cap then cap else steps * or_zero (cAmount c)
          | None \<Rightarrow> steps * or_zero (cAmount c)) steps Name"
      unfolding eval_progressive_def Let_def steps_def using True by (simp only: simp_thms if_False not_True_eq_False)
    show ?thesis unfolding e using s a by (cases "cCap c") (auto simp: result_def)
  next
    case False
    then show ?thesis using a by (auto simp: eval_progressive_def result_def)
  qed
qed

lemma in_map_filter: "x \<in> set (List.map_filter f ys) \<longleftrightarrow> (\<exists>y \<in> set ys. f y = Some x)"
  by (induction ys) (auto simp: List.map_filter_simps split: option.split)

lemma tiered_pay:
  assumes "config_ok c" "rates_ok r" "\<forall>oc \<in> set list. occurrence_ok oc"
  shows "0 \<le> reExact (eval_tiered code c r list) \<and> 0 \<le> reCount (eval_tiered code c r list)"
proof -
  have t: "tier_ok t" if "pick_tier (case cTiers c of Some ts \<Rightarrow> ts | None \<Rightarrow> []) v = Some t" for t v
    using pick_tier_in [OF that] assms(1) by (cases "cTiers c") (auto simp: config_ok_def tiers_ok_def list_all_iff)
  then show ?thesis using assms(2)
    by (auto simp: eval_tiered_def Let_def result_def in_map_filter tier_value_nonneg dayPayShare_nonneg rates_ok_def
        intro!: sum_list_nonneg split: option.split)
qed

lemma coef_pay:
  assumes "config_ok c" "rates_ok r" "\<forall>oc \<in> set list. occurrence_ok oc"
  shows "0 \<le> reExact (eval_coef code c r list) \<and> 0 \<le> reCount (eval_coef code c r list)"
proof -
  have c: "0 \<le> or_zero (cCoef c)" by (rule config_numbers_nonneg [OF assms(1)])
  then have x: "0 \<le> salaryCoefExtra code (or_zero (cCoef c))" by (simp add: salaryCoefExtra_def)
  have h: "0 \<le> sum_list (map (\<lambda>oc. or_zero (oShiftMinutes oc) / 60 * (if recorded_code code then oQuantity oc else 1)) list)"
    using assms(3) by (intro sum_list_nonneg_if) (auto simp: occurrence_ok_def)
  show ?thesis using c x h sums_nonneg [OF assms(2,3)] assms(2)
    by (simp add: eval_coef_def Let_def result_def rates_ok_def)
qed

text \<open>
  A validated setting never pays a negative amount (a bonus never takes money, a fine never gives
  it), whatever the occurrences, and a progressive setting with a monthly cap never pays more than it.
\<close>

theorem rule_pay_nonneg_and_capped:
  assumes ok: "config_ok c" and rates: "rates_ok r" and occs: "\<forall>oc \<in> set xs. occurrence_ok oc"
  shows "0 \<le> reExact (evaluateRuleConfig code c xs r m) \<and> 0 \<le> reCount (evaluateRuleConfig code c xs r m) \<and>
    (cKind c = PROGRESSIVE \<and> cCap c = Some cap \<longrightarrow> reExact (evaluateRuleConfig code c xs r m) \<le> cap)"
proof -
  define list where "list = countedOccurrences code c xs"
  have l: "\<forall>oc \<in> set list. occurrence_ok oc" using counted_subset occs by (fastforce simp: list_def)
  then have f: "\<forall>oc \<in> set (filter P list). occurrence_ok oc" for P by simp
  note s = sums_nonneg [OF rates l] sums_nonneg [OF rates f]
  note c = config_numbers_nonneg [OF ok]
  have cap: "reExact (eval_progressive code c list) \<le> cap" if "cKind c = PROGRESSIVE" "cCap c = Some cap"
    using progressive_pay [OF ok l, of code] that ok by (simp add: config_ok_def fields_present_def)
  note defs = evaluateRuleConfig_def list_def [symmetric] Let_def result_def
  show ?thesis
    using s c rates cap progressive_pay [OF ok l, of code] tiered_pay [OF ok rates l, of code]
      coef_pay [OF ok rates l, of code]
    by (cases "cKind c") (auto simp add: defs rates_ok_def)
qed

theorem rule_pay_nonneg_and_capped_witness:
  "reExact (evaluateRuleConfig ''LATE''
     (empty_config PROGRESSIVE\<lparr>cStep := Some 5, cAmount := Some 10000, cUnit := Some U_MINUTE, cCap := Some 15000\<rparr>)
     [occurrence_on ''2026-10-03'' 12] three_shift_rates
     \<lparr> moWorkedDays = 20, moCompletedShifts = 20, moWorkedMinutes = 9600 \<rparr>) \<le> 15000"
proof -
  let ?c = "empty_config PROGRESSIVE\<lparr>cStep := Some 5, cAmount := Some 10000, cUnit := Some U_MINUTE, cCap := Some 15000\<rparr>"
  have h: "config_ok ?c" "rates_ok three_shift_rates" by code_simp+
  have "\<forall>oc \<in> set [occurrence_on ''2026-10-03'' 12]. occurrence_ok oc"
    by (simp add: occurrence_on_def occurrence_ok_def or_zero_def)
  from rule_pay_nonneg_and_capped [OF h this, of "''LATE''" _ 15000] show ?thesis
    by (simp add: empty_config_def)
qed

section \<open>Pricing window by window\<close>

text \<open>The settings priced occurrence by occurrence (the others are priced once per month).\<close>

definition per_occurrence :: "string \<Rightarrow> rule_calc_config \<Rightarrow> bool" where
  "per_occurrence code c \<longleftrightarrow> (case cKind c of
       PERCENT \<Rightarrow> cBase c \<noteq> Some B_MONTHLY \<and> cBase c \<noteq> Some B_REVENUE
     | TIERED \<Rightarrow> minuteBased code
     | PROGRESSIVE \<Rightarrow> minuteBased code \<and> unit_or U_MINUTE c \<in> {U_MINUTE, U_HOUR}
     | MILESTONE \<Rightarrow> False
     | _ \<Rightarrow> True)"

abbreviation dated :: "(string \<Rightarrow> bool) \<Rightarrow> rule_occurrence list \<Rightarrow> rule_occurrence list" where
  "dated P xs \<equiv> filter (\<lambda>oc. P (oDate oc)) xs"

lemma map_of_filter_key: "map_of (filter (\<lambda>p. P (fst p)) m) k = (if P k then map_of m k else None)"
  by (induction m) auto

lemma filter_map_set:
  "filter (\<lambda>p. P (fst p)) (map_set m k v) =
     (if P k then map_set (filter (\<lambda>p. P (fst p)) m) k v else filter (\<lambda>p. P (fst p)) m)"
  by (induction m k v rule: map_set.induct) auto

lemma filter_keep_heaviest:
  "filter (\<lambda>p. P (fst p)) (keep_heaviest code m oc) =
     (if P (oDate oc) then keep_heaviest code (filter (\<lambda>p. P (fst p)) m) oc else filter (\<lambda>p. P (fst p)) m)"
  by (simp add: keep_heaviest_def map_of_filter_key filter_map_set split: option.split)

lemma filter_heaviest:
  "filter (\<lambda>p. P (fst p)) (foldl (keep_heaviest code) m xs) =
     foldl (keep_heaviest code) (filter (\<lambda>p. P (fst p)) m) (dated P xs)"
  by (induction xs arbitrary: m) (simp_all add: filter_keep_heaviest)

lemma counted_dated: "countedOccurrences code c (dated P xs) = dated P (countedOccurrences code c xs)"
proof -
  define Q where "Q = (\<lambda>oc :: rule_occurrence. if minuteBased code then oMinutes oc > grace_of code c else oQuantity oc > 0)"
  have swap: "filter Q (dated P ys) = dated P (filter Q ys)" for ys by (simp add: conj_commute)
  have "map snd (foldl (keep_heaviest code) [] (dated P ys)) = dated P (map snd (foldl (keep_heaviest code) [] ys))" for ys
  proof -
    let ?m = "foldl (keep_heaviest code) [] ys"
    have "dated P (map snd ?m) = map snd (filter (\<lambda>p. P (oDate (snd p))) ?m)" by (simp add: filter_map comp_def)
    also have "filter (\<lambda>p. P (oDate (snd p))) ?m = filter (\<lambda>p. P (fst p)) ?m"
      using heaviest_keys(2) [of code ys] by (intro filter_cong) auto
    finally show ?thesis by (simp add: filter_heaviest)
  qed
  note h = this
  show ?thesis
    unfolding countedOccurrences_def Q_def [symmetric] Let_def swap
    by (cases "cAccumulateDaily c = Some False") (simp_all only: h if_True if_False simp_thms)
qed

lemma sum_list_split: "sum_list (map f xs) = sum_list (map f (filter Q xs)) + sum_list (map f (filter (\<lambda>x. \<not> Q x) xs))"
  for f :: "'a \<Rightarrow> rat"
  by (induction xs) auto

lemma sum_dates_split:
  "sum_list (map f (js_set (map oDate xs))) =
     sum_list (map f (js_set (map oDate (dated P xs)))) + sum_list (map f (js_set (map oDate (dated (\<lambda>d. \<not> P d) xs))))"
  for f :: "string \<Rightarrow> rat"
proof -
  have s: "sum_list (map f (js_set ds)) = sum f (set ds)" for ds
    by (simp add: sum_list_distinct_conv_sum_set)
  have "oDate ` set xs = oDate ` {x \<in> set xs. P (oDate x)} \<union> oDate ` {x \<in> set xs. \<not> P (oDate x)}" by auto
  then show ?thesis unfolding s by (simp add: sum.union_disjoint [symmetric]) (subst sum.union_disjoint; auto)
qed

lemma distinctDays_sum: "distinctDays xs = sum_list (map (\<lambda>d. 1) (js_set (map oDate xs)))"
  by (simp add: distinctDays_def sum_list_triv)

lemma quantities_split:
  "occurrence_count code xs = occurrence_count code (dated P xs) + occurrence_count code (dated (\<lambda>d. \<not> P d) xs)"
  "distinctDays xs = distinctDays (dated P xs) + distinctDays (dated (\<lambda>d. \<not> P d) xs)"
  "total_of code c xs u = total_of code c (dated P xs) u + total_of code c (dated (\<lambda>d. \<not> P d) xs) u"
  "sumDayPay code r xs = sumDayPay code r (dated P xs) + sumDayPay code r (dated (\<lambda>d. \<not> P d) xs)"
  "sumDistinctDayPay r xs = sumDistinctDayPay r (dated P xs) + sumDistinctDayPay r (dated (\<lambda>d. \<not> P d) xs)"
proof -
  note split = sum_list_split [where Q = "\<lambda>oc. P (oDate oc)"] sum_dates_split [where P = P]
  show c: "occurrence_count code xs = occurrence_count code (dated P xs) + occurrence_count code (dated (\<lambda>d. \<not> P d) xs)"
    using split(1) [of oQuantity xs] sum_length_filter_compl [of "\<lambda>oc. P (oDate oc)" xs]
    by (simp add: occurrence_count_def flip: of_nat_add)
  show d: "distinctDays xs = distinctDays (dated P xs) + distinctDays (dated (\<lambda>d. \<not> P d) xs)"
    unfolding distinctDays_sum by (rule split(2))
  show "total_of code c xs u = total_of code c (dated P xs) u + total_of code c (dated (\<lambda>d. \<not> P d) xs) u"
    using d split(1) [of "measureOf code c u" xs] by (simp add: total_of_def)
  show "sumDayPay code r xs = sumDayPay code r (dated P xs) + sumDayPay code r (dated (\<lambda>d. \<not> P d) xs)"
    unfolding sumDayPay_def by (rule split(1))
  show "sumDistinctDayPay r xs = sumDistinctDayPay r (dated P xs) + sumDistinctDayPay r (dated (\<lambda>d. \<not> P d) xs)"
    unfolding sumDistinctDayPay_def by (rule split(2))
qed

lemma progressive_split:
  assumes "per_occurrence code c" "cKind c = PROGRESSIVE" "cCap c = None"
  shows "reExact (eval_progressive code c xs) =
    reExact (eval_progressive code c (dated P xs)) + reExact (eval_progressive code c (dated (\<lambda>d. \<not> P d) xs))"
proof -
  let ?s = "\<lambda>ys. sum_list (map (\<lambda>oc. js_floor (measureOf code c (unit_or U_MINUTE c) oc / or_zero (cStep c))) ys)"
  have "reExact (eval_progressive code c ys) = (if or_zero (cStep c) > 0 then ?s ys * or_zero (cAmount c) else 0)" for ys
    using assms by (auto simp: eval_progressive_def per_occurrence_def result_def Let_def)
  then show ?thesis using sum_list_split [of "\<lambda>oc. js_floor (measureOf code c (unit_or U_MINUTE c) oc / or_zero (cStep c))" xs "\<lambda>oc. P (oDate oc)"]
    by (simp add: algebra_simps)
qed

lemma map_filter_split:
  "sum_list (List.map_filter f xs) = sum_list (List.map_filter f (filter Q xs)) + sum_list (List.map_filter f (filter (\<lambda>x. \<not> Q x) xs))"
  for f :: "'a \<Rightarrow> rat option"
  by (induction xs) (auto simp: List.map_filter_simps split: option.split)

lemma tiered_split:
  assumes "minuteBased code"
  shows "reExact (eval_tiered code c r xs) =
    reExact (eval_tiered code c r (dated P xs)) + reExact (eval_tiered code c r (dated (\<lambda>d. \<not> P d) xs))"
  using assms map_filter_split [where Q = "\<lambda>oc. P (oDate oc)"]
  by (simp add: eval_tiered_def result_def Let_def)

lemma coef_split:
  "reExact (eval_coef code c r xs) =
    reExact (eval_coef code c r (dated P xs)) + reExact (eval_coef code c r (dated (\<lambda>d. \<not> P d) xs))"
proof -
  let ?h = "\<lambda>oc. or_zero (oShiftMinutes oc) / 60 * (if recorded_code code then oQuantity oc else 1)"
  show ?thesis
    using quantities_split [where P = P and xs = xs]
      sum_list_split [of ?h xs "\<lambda>oc. P (oDate oc)"]
    by (simp add: eval_coef_def result_def Let_def distrib_left [symmetric])
qed

lemma evaluate_exact:
  "cKind c = FIXED \<Longrightarrow> reExact (evaluateRuleConfig code c xs r m) =
     or_zero (cAmount c) * (if unit_or U_OCCURRENCE c = U_DAY
       then (if recorded_code code then occurrence_count code (countedOccurrences code c xs)
             else distinctDays (countedOccurrences code c xs))
       else occurrence_count code (countedOccurrences code c xs))"
  "cKind c = UNIT_PRICE \<Longrightarrow> reExact (evaluateRuleConfig code c xs r m) =
     or_zero (cAmount c) * total_of code c (countedOccurrences code c xs) (unit_or U_SHIFT c)"
  "cKind c = SALARY_COEF \<Longrightarrow> reExact (evaluateRuleConfig code c xs r m) = reExact (eval_coef code c r (countedOccurrences code c xs))"
  "cKind c = PERCENT \<Longrightarrow> cBase c \<noteq> Some B_MONTHLY \<Longrightarrow> cBase c \<noteq> Some B_REVENUE \<Longrightarrow>
     reExact (evaluateRuleConfig code c xs r m) = or_zero (cPercent c) / 100 *
       (if cBase c = Some B_DAILY then sumDayPay code r (countedOccurrences code c xs)
        else rtHourly r * occurrence_count code (countedOccurrences code c xs))"
  "cKind c = SALARY_BLOCK \<Longrightarrow> reExact (evaluateRuleConfig code c xs r m) = or_zero (cDayFraction c) *
     sumDayPay code r (if minuteBased code then filter (\<lambda>oc. oMinutes oc \<ge> or_zero (cTriggerMinutes c)) (countedOccurrences code c xs)
       else countedOccurrences code c xs)"
  "cKind c = PROGRESSIVE \<Longrightarrow> reExact (evaluateRuleConfig code c xs r m) = reExact (eval_progressive code c (countedOccurrences code c xs))"
  "cKind c = TIERED \<Longrightarrow> reExact (evaluateRuleConfig code c xs r m) = reExact (eval_tiered code c r (countedOccurrences code c xs))"
  by (simp_all add: evaluateRuleConfig_def Let_def result_def)

lemma pay_splits:
  assumes "per_occurrence code c" "cKind c = PROGRESSIVE \<longrightarrow> cCap c = None"
  shows "reExact (evaluateRuleConfig code c xs r m) =
    reExact (evaluateRuleConfig code c (dated P xs) r m) +
    reExact (evaluateRuleConfig code c (dated (\<lambda>d. \<not> P d) xs) r m)"
proof -
  define list where "list = countedOccurrences code c xs"
  have l: "countedOccurrences code c (dated P xs) = dated P list"
    "countedOccurrences code c (dated (\<lambda>d. \<not> P d) xs) = dated (\<lambda>d. \<not> P d) list"
    by (simp_all only: list_def counted_dated [of code c P] counted_dated [of code c "\<lambda>d. \<not> P d"])
  note q = quantities_split [where P = P and xs = list]
  show ?thesis
  proof (cases "cKind c")
    case FIXED
    then show ?thesis using q(1,2) by (simp add: evaluate_exact l list_def [symmetric] distrib_left)
  next
    case UNIT_PRICE
    then show ?thesis using q(3)
      by (simp add: evaluate_exact l list_def [symmetric] distrib_left)
  next
    case SALARY_COEF
    then show ?thesis using coef_split [of code c r list P] by (simp add: evaluate_exact l list_def [symmetric])
  next
    case PERCENT
    then show ?thesis using assms(1) q(1,4)
      by (simp add: evaluate_exact l list_def [symmetric] per_occurrence_def distrib_left)
  next
    case SALARY_BLOCK
    let ?t = "\<lambda>ys. filter (\<lambda>oc. oMinutes oc \<ge> or_zero (cTriggerMinutes c)) ys"
    have "?t (dated P list) = dated P (?t list)" "?t (dated (\<lambda>d. \<not> P d) list) = dated (\<lambda>d. \<not> P d) (?t list)"
      by (simp_all add: conj_commute)
    then show ?thesis using SALARY_BLOCK q(4) quantities_split(4) [of code r "?t list" P]
      by (simp add: evaluate_exact l list_def [symmetric] distrib_left [symmetric] del: filter_filter)
  next
    case PROGRESSIVE
    then show ?thesis using assms progressive_split [of code c list P]
      by (simp add: evaluate_exact l list_def [symmetric])
  next
    case TIERED
    then have "minuteBased code" using assms(1) by (simp add: per_occurrence_def)
    from tiered_split [OF this] show ?thesis using TIERED
      by (simp add: evaluate_exact l list_def [symmetric])
  next
    case MILESTONE
    then show ?thesis using assms(1) by (simp add: per_occurrence_def)
  qed
qed

text \<open>
  A setting priced occurrence by occurrence can be priced window by window: cutting the month at
  any set of dates and pricing the two parts separately gives exactly the same amount. This is what makes
  it safe to price the versions of a rule on the days each was in force.
\<close>

theorem pay_splits_by_date:
  assumes "per_occurrence code c" "cKind c = PROGRESSIVE \<longrightarrow> cCap c = None"
  shows "reExact (evaluateRuleConfig code c xs r m) =
    reExact (evaluateRuleConfig code c (dated P xs) r m) +
    reExact (evaluateRuleConfig code c (dated (\<lambda>d. \<not> P d) xs) r m)"
  using assms by (rule pay_splits)

definition no_work :: rule_monthly where
  "no_work = \<lparr> moWorkedDays = 0, moCompletedShifts = 0, moWorkedMinutes = 0 \<rparr>"

theorem pay_splits_by_date_witness:
  "reExact (evaluateRuleConfig ''LATE'' (empty_config FIXED\<lparr>cAmount := Some 20000, cUnit := Some U_DAY\<rparr>)
      [occurrence_on ''2026-10-03'' 7, occurrence_on ''2026-10-03'' 12, occurrence_on ''2026-10-20'' 4] three_shift_rates no_work) =
   reExact (evaluateRuleConfig ''LATE'' (empty_config FIXED\<lparr>cAmount := Some 20000, cUnit := Some U_DAY\<rparr>)
      [occurrence_on ''2026-10-03'' 7, occurrence_on ''2026-10-03'' 12] three_shift_rates no_work) +
   reExact (evaluateRuleConfig ''LATE'' (empty_config FIXED\<lparr>cAmount := Some 20000, cUnit := Some U_DAY\<rparr>)
      [occurrence_on ''2026-10-20'' 4] three_shift_rates no_work)"
proof -
  let ?c = "empty_config FIXED\<lparr>cAmount := Some 20000, cUnit := Some U_DAY\<rparr>"
  have h: "per_occurrence ''LATE'' ?c" "cKind ?c = PROGRESSIVE \<longrightarrow> cCap ?c = None"
    by (simp_all add: per_occurrence_def empty_config_def)
  have d: "oDate (occurrence_on d m) = d" for d m by (simp add: occurrence_on_def)
  from pay_splits_by_date [OF h, of
      "[occurrence_on ''2026-10-03'' 7, occurrence_on ''2026-10-03'' 12, occurrence_on ''2026-10-20'' 4]"
      three_shift_rates no_work "\<lambda>d. d = ''2026-10-03''"]
  show ?thesis by (simp add: d)
qed

end
