(* ===== verification/ShiftTypes.thy ===== *)
theory ShiftTypes
  imports Main
begin

text \<open>
  The states of the scheduling entities (\<open>src/modules/stores/entities/shift-management.entity.ts\<close>) and of employees
  (\<open>employee-profile.entity.ts\<close>) that several components share.
\<close>

datatype assignment_status = PENDING | APPROVED | CONFIRMED | COMPLETED | CANCELLED

datatype attendance_status = ON_TIME | LATE | EARLY | LATE_AND_EARLY | ABSENT | FORGOT_CHECKOUT

datatype cycle_status = CYCLE_DRAFT | CYCLE_ACTIVE | CYCLE_STOPPED | CYCLE_EXPIRED

datatype employment_status = EMP_ACTIVE | EMP_PROBATION | EMP_ON_LEAVE | EMP_TERMINATED | EMP_PENDING

end
