(* ===== verification/PayrollFacts.thy ===== *)
theory PayrollFacts
  imports AttendanceTime RuleConfig ShiftTypes
begin

text \<open>
  \<open>src/modules/stores/payroll-calculation.utils.ts\<close>, first part: the month's attendance facts. A
  shift assignment with its stored figures is summarised into counts and sums, and every late arrival,
  overtime, night part, absence and so on is kept as an occurrence with its own minutes. The lemmas show
  what the night and overtime minutes measure and that the counts and sums are those of the occurrences.
\<close>

section \<open>Data\<close>

record assignment_fact =
  aId :: string
  aWorkDate :: jsval
  aWorkShiftId :: "string option"
  aStatus :: assignment_status
  aAttendanceStatus :: "attendance_status option"
  aCheckInTime :: datev
  aWorkedMinutes :: jsval
  aLateMinutes :: jsval
  aEarlyMinutes :: jsval
  aShiftEarnings :: jsval
  aLeaveCovered :: bool
  aCheckOutTime :: datev
  aWindowStart :: datev
  aWindowEnd :: datev

record pay_rates =
  prHourly :: rat
  prPerShift :: rat
  prDaily :: "rat option"
  prMonthly :: "rat option"

record waiver_facts =
  wOccurrences :: "(string, string list) jsmap"
  wLines :: "string list"

text \<open>Absent numeric fields read as 0 and absent maps as empty, as every use of them does.\<close>

record month_facts =
  fTotalAssignedShifts :: rat
  fCompletedShifts :: rat
  fWorkedMinutes :: rat
  fWorkingHours :: rat
  fDaysWorked :: rat
  fLateCount :: rat
  fEarlyCount :: rat
  fAbsentCount :: rat
  fTotalLateMinutes :: rat
  fTotalEarlyMinutes :: rat
  fOvertimeMinutes :: rat
  fOvertimeShifts :: rat
  fNightMinutes :: rat
  fNightShifts :: rat
  fPunctualMinutes :: rat
  fPunctualShifts :: rat
  fMissedPunchCount :: rat
  fAbsentMinutes :: rat
  fRuleQuantities :: "(string, rat) jsmap"
  fPayRates :: "pay_rates option"
  fDayPay :: "day_pay option"
  fStageCompletion :: "(rat \<times> rat) option"
  fRuleOccurrences :: "(string, rule_occurrence list) jsmap"
  fRecordOccurrences :: "(string, rule_occurrence list) jsmap"
  fRevenue :: rat
  fPeriodStart :: "string option"
  fPeriodEndExclusive :: "string option"
  fMonthAbsentCount :: "rat option"
  fMonthCompletedShifts :: "rat option"
  fMonthComplete :: "bool option"
  fWaivers :: "waiver_facts option"

definition no_facts :: month_facts where
  "no_facts = \<lparr> fTotalAssignedShifts = 0, fCompletedShifts = 0, fWorkedMinutes = 0, fWorkingHours = 0, fDaysWorked = 0,
     fLateCount = 0, fEarlyCount = 0, fAbsentCount = 0, fTotalLateMinutes = 0, fTotalEarlyMinutes = 0,
     fOvertimeMinutes = 0, fOvertimeShifts = 0, fNightMinutes = 0, fNightShifts = 0, fPunctualMinutes = 0,
     fPunctualShifts = 0, fMissedPunchCount = 0, fAbsentMinutes = 0, fRuleQuantities = [], fPayRates = None,
     fDayPay = None, fStageCompletion = None, fRuleOccurrences = [], fRecordOccurrences = [], fRevenue = 0,
     fPeriodStart = None, fPeriodEndExclusive = None, fMonthAbsentCount = None, fMonthCompletedShifts = None,
     fMonthComplete = None, fWaivers = None \<rparr>"

section \<open>Minutes of one shift\<close>

fun workDateOf :: "jsval \<Rightarrow> string" where
  "workDateOf (JStr s) = take 10 s"
| "workDateOf _ = []"

definition windowMinutes :: "assignment_fact \<Rightarrow> rat" where
  "windowMinutes a = (case (instantMs (aWindowStart a), instantMs (aWindowEnd a)) of
       (Some start, Some end) \<Rightarrow> if end > start then js_round (of_int (end - start) / 60000) else 0
     | _ \<Rightarrow> 0)"

definition overlapMs :: "int \<Rightarrow> int \<Rightarrow> int \<Rightarrow> int \<Rightarrow> int" where
  "overlapMs a0 a1 b0 b1 = max 0 (min a1 b1 - max a0 b0)"

definition HOUR_MS :: int where "HOUR_MS = 3600000"

function night_loop :: "int \<Rightarrow> int \<Rightarrow> int \<Rightarrow> int" where
  "night_loop from to day =
     (if day < to
      then overlapMs from to (day + 22 * HOUR_MS) (day + DAY_MS + 6 * HOUR_MS) + night_loop from to (day + DAY_MS)
      else 0)"
  by auto
termination by (relation "measure (\<lambda>(from, to, day). nat (to - day))") (auto simp: DAY_MS_def)

declare night_loop.simps [simp del]

definition nightOverlapMinutes :: "int \<Rightarrow> int \<Rightarrow> rat" where
  "nightOverlapMinutes from to =
     (if \<not> to > from then 0
      else let vnMidnight = (from + VN_OFFSET_MS) div DAY_MS * DAY_MS - VN_OFFSET_MS
           in js_round (of_int (night_loop from to (vnMidnight - DAY_MS)) / 60000))"

record extra_minutes =
  exOvertime :: rat
  exNight :: rat

definition shiftExtraMinutes :: "assignment_fact \<Rightarrow> rat \<Rightarrow> extra_minutes" where
  "shiftExtraMinutes a worked =
     (case (instantMs (aCheckInTime a), instantMs (aCheckOutTime a)) of
        (Some checkIn, Some checkOut) \<Rightarrow>
          if \<not> checkOut > checkIn \<or> worked \<le> 0 then \<lparr> exOvertime = 0, exNight = 0 \<rparr>
          else
            let start = instantMs (aWindowStart a); end = instantMs (aWindowEnd a);
                overtime = (case (start, end) of
                    (Some s, Some e) \<Rightarrow>
                      if e > s then
                        let inside = js_round (of_int (overlapMs checkIn checkOut s e) / 60000);
                            afterEnd = js_round (of_int (max 0 (checkOut - e)) / 60000)
                        in max 0 (min afterEnd (worked - inside))
                      else 0
                  | _ \<Rightarrow> 0);
                nightFrom = (case start of Some s \<Rightarrow> if s > checkIn then s else checkIn | None \<Rightarrow> checkIn)
            in \<lparr> exOvertime = overtime, exNight = min worked (nightOverlapMinutes nightFrom checkOut) \<rparr>
      | _ \<Rightarrow> \<lparr> exOvertime = 0, exNight = 0 \<rparr>)"

section \<open>The month\<close>

definition occur :: "assignment_fact \<Rightarrow> string \<Rightarrow> rat \<Rightarrow> month_facts \<Rightarrow> month_facts" where
  "occur a code minutes f = f\<lparr>fRuleOccurrences := map_set (fRuleOccurrences f) code
     (map_get_or [] (fRuleOccurrences f) code @
       [\<lparr> oDate = workDateOf (aWorkDate a), oMinutes = minutes, oQuantity = 1,
          oShiftMinutes = Some (windowMinutes a), oAssignmentId = nonempty (Some (aId a)), oRecordId = None \<rparr>])\<rparr>"

definition count_late_early :: "assignment_fact \<Rightarrow> month_facts \<Rightarrow> month_facts" where
  "count_late_early a f0 =
     (let late = toFiniteNumber (aLateMinutes a); early = toFiniteNumber (aEarlyMinutes a);
          f1 = (if late > 0 then occur a ''LATE'' late (f0\<lparr>fLateCount := fLateCount f0 + 1\<rparr>) else f0);
          f2 = (if early > 0 then occur a ''EARLY'' early (f1\<lparr>fEarlyCount := fEarlyCount f1 + 1\<rparr>) else f1);
          f3 = f2\<lparr>fTotalLateMinutes := fTotalLateMinutes f2 + late, fTotalEarlyMinutes := fTotalEarlyMinutes f2 + early\<rparr>
      in if aAttendanceStatus a = Some FORGOT_CHECKOUT
         then occur a ''MISSED_PUNCH'' 0 (f3\<lparr>fMissedPunchCount := fMissedPunchCount f3 + 1\<rparr>) else f3)"

definition count_completed :: "assignment_fact \<Rightarrow> month_facts \<Rightarrow> month_facts" where
  "count_completed a f0 =
     (if aStatus a \<noteq> COMPLETED then f0
      else
        let late = toFiniteNumber (aLateMinutes a); early = toFiniteNumber (aEarlyMinutes a);
            worked = toFiniteNumber (aWorkedMinutes a);
            f1 = f0\<lparr>fCompletedShifts := fCompletedShifts f0 + 1\<rparr>;
            f2 = (if worked > 0 then occur a ''ATTENDANCE'' worked (f1\<lparr>fWorkedMinutes := fWorkedMinutes f1 + worked\<rparr>) else f1);
            f3 = (if late = 0 \<and> early = 0 \<and> worked > 0
                  then occur a ''PUNCTUALITY'' worked
                    (f2\<lparr>fPunctualShifts := fPunctualShifts f2 + 1, fPunctualMinutes := fPunctualMinutes f2 + worked\<rparr>)
                  else f2);
            extra = shiftExtraMinutes a worked;
            f4 = (if exOvertime extra > 0
                  then occur a ''OVERTIME'' (exOvertime extra)
                    (f3\<lparr>fOvertimeShifts := fOvertimeShifts f3 + 1, fOvertimeMinutes := fOvertimeMinutes f3 + exOvertime extra\<rparr>)
                  else f3)
        in if exNight extra > 0
           then occur a ''NIGHT_SHIFT'' (exNight extra)
             (f4\<lparr>fNightShifts := fNightShifts f4 + 1, fNightMinutes := fNightMinutes f4 + exNight extra\<rparr>)
           else f4)"

definition counts_absent :: "string \<Rightarrow> assignment_fact \<Rightarrow> bool" where
  "counts_absent todayVn a \<longleftrightarrow>
     aStatus a = APPROVED \<and> aCheckInTime a = DNull \<and> \<not> aLeaveCovered a \<and>
     (aAttendanceStatus a = Some ABSENT \<or> (workDateOf (aWorkDate a) \<noteq> [] \<and> workDateOf (aWorkDate a) < todayVn))"

definition count_absent :: "string \<Rightarrow> assignment_fact \<Rightarrow> month_facts \<Rightarrow> month_facts" where
  "count_absent todayVn a f =
     (if counts_absent todayVn a
      then occur a ''ABSENT'' (windowMinutes a)
        (f\<lparr>fAbsentCount := fAbsentCount f + 1, fAbsentMinutes := fAbsentMinutes f + windowMinutes a\<rparr>)
      else f)"

definition summarize_step :: "string \<Rightarrow> month_facts \<Rightarrow> assignment_fact \<Rightarrow> month_facts" where
  "summarize_step todayVn f a = count_absent todayVn a (count_completed a (count_late_early a f))"

definition worked_dates :: "assignment_fact list \<Rightarrow> string list" where
  "worked_dates assignments =
     js_set (filter (\<lambda>d. d \<noteq> []) (map (\<lambda>a. workDateOf (aWorkDate a)) (filter (\<lambda>a. aStatus a = COMPLETED) assignments)))"

definition summarizeMonthlyAttendance :: "assignment_fact list \<Rightarrow> string \<Rightarrow> month_facts" where
  "summarizeMonthlyAttendance assignments todayVn =
     (let f = foldl (summarize_step todayVn) no_facts assignments
      in f\<lparr>fTotalAssignedShifts := of_nat (length assignments),
           fWorkingHours := js_round (fWorkedMinutes f / 60 * 100) / 100,
           fDaysWorked := of_nat (length (worked_dates assignments))\<rparr>)"

definition scheduled :: "assignment_fact \<Rightarrow> bool" where
  "scheduled a \<longleftrightarrow> (aStatus a = APPROVED \<or> aStatus a = COMPLETED) \<and> workDateOf (aWorkDate a) \<noteq> []"

definition scheduledMinutesByDate :: "assignment_fact list \<Rightarrow> (string, rat) jsmap" where
  "scheduledMinutesByDate assignments =
     foldl (\<lambda>out a. map_set out (workDateOf (aWorkDate a)) (map_get_or 0 out (workDateOf (aWorkDate a)) + windowMinutes a))
       [] (filter scheduled assignments)"

definition rulesApplyingTo :: "('r \<Rightarrow> string list option) \<Rightarrow> 'r list option \<Rightarrow> string \<Rightarrow> 'r list" where
  "rulesApplyingTo employeeProfileIds rules employeeProfileId =
     filter (\<lambda>rule. case employeeProfileIds rule of
         None \<Rightarrow> True | Some ids \<Rightarrow> ids = [] \<or> employeeProfileId \<in> set ids)
       (case rules of Some rs \<Rightarrow> rs | None \<Rightarrow> [])"

section \<open>Night minutes\<close>

text \<open>An instant is at night when the Vietnam clock shows 22:00 to 05:59.\<close>

definition at_night :: "int \<Rightarrow> bool" where
  "at_night t \<longleftrightarrow> (t + VN_OFFSET_MS) mod DAY_MS \<ge> 22 * HOUR_MS \<or> (t + VN_OFFSET_MS) mod DAY_MS < 6 * HOUR_MS"

lemmas ms_consts = DAY_MS_def HOUR_MS_def VN_OFFSET_MS_def

lemma overlapMs_card: "overlapMs a0 a1 b0 b1 = int (card ({a0..<a1} \<inter> {b0..<b1}))"
proof -
  have "{a0..<a1} \<inter> {b0..<b1} = {max a0 b0..<min a1 b1}" by auto
  then show ?thesis by (simp add: overlapMs_def) linarith
qed

lemma at_night_window:
  assumes "(day + VN_OFFSET_MS) mod DAY_MS = 0" "day + 22 * HOUR_MS \<le> t" "t < day + DAY_MS + 22 * HOUR_MS"
  shows "at_night t \<longleftrightarrow> t < day + DAY_MS + 6 * HOUR_MS"
proof -
  obtain q where q: "day + VN_OFFSET_MS = DAY_MS * q" using assms(1) by (auto simp: mod_eq_0_iff_dvd elim: dvdE)
  define r where "r = t - day"
  have t: "t + VN_OFFSET_MS = DAY_MS * q + r" using q by (simp add: r_def)
  have r: "22 * HOUR_MS \<le> r" "r < DAY_MS + 22 * HOUR_MS" using assms(2,3) by (auto simp: r_def)
  show ?thesis
  proof (cases "r < DAY_MS")
    case True
    then have "(t + VN_OFFSET_MS) mod DAY_MS = r" using t r by (simp add: ms_consts)
    then show ?thesis using True r by (simp add: at_night_def ms_consts r_def)
  next
    case False
    have "t + VN_OFFSET_MS = DAY_MS * (q + 1) + (r - DAY_MS)" using t by (simp add: algebra_simps)
    then have "(t + VN_OFFSET_MS) mod DAY_MS = (r - DAY_MS) mod DAY_MS" by simp
    also have "\<dots> = r - DAY_MS" using False r by (intro mod_pos_pos_trivial) (auto simp: ms_consts)
    finally have m: "(t + VN_OFFSET_MS) mod DAY_MS = r - DAY_MS" .
    show ?thesis unfolding at_night_def m using False r by (simp add: ms_consts r_def) linarith
  qed
qed

lemma night_loop_card:
  "(day + VN_OFFSET_MS) mod DAY_MS = 0 \<Longrightarrow>
     night_loop from to day = int (card {t. from \<le> t \<and> t < to \<and> at_night t \<and> day + 22 * HOUR_MS \<le> t})"
proof (induction "from" to day rule: night_loop.induct)
  case (1 "from" to day)
  show ?case
  proof (cases "day < to")
    case False
    then have "{t. from \<le> t \<and> t < to \<and> at_night t \<and> day + 22 * HOUR_MS \<le> t} = {}" by (auto simp: HOUR_MS_def)
    then show ?thesis using False by (subst night_loop.simps) (simp only: if_False card.empty of_nat_0)
  next
    case True
    let ?here = "{from..<to} \<inter> {day + 22 * HOUR_MS..<day + DAY_MS + 6 * HOUR_MS}"
      and ?rest = "{t. from \<le> t \<and> t < to \<and> at_night t \<and> day + DAY_MS + 22 * HOUR_MS \<le> t}"
    have z: "(day + DAY_MS + VN_OFFSET_MS) mod DAY_MS = 0" using "1.prems" by (simp add: add.commute add.left_commute)
    have sub: "?rest \<subseteq> {from..<to}" by auto
    have "from \<le> t \<and> t < to \<and> at_night t \<and> day + 22 * HOUR_MS \<le> t \<longleftrightarrow> t \<in> ?here \<union> ?rest" for t
      using at_night_window [OF "1.prems", of t]
      by (cases "day + 22 * HOUR_MS \<le> t"; cases "t < day + DAY_MS + 22 * HOUR_MS") (auto simp: ms_consts)
    then have "{t. from \<le> t \<and> t < to \<and> at_night t \<and> day + 22 * HOUR_MS \<le> t} = ?here \<union> ?rest"
      by blast
    moreover have "?here \<inter> ?rest = {}" by (auto simp: ms_consts)
    ultimately have "card {t. from \<le> t \<and> t < to \<and> at_night t \<and> day + 22 * HOUR_MS \<le> t} = card ?here + card ?rest"
      using finite_subset [OF sub] by (simp add: card_Un_disjoint)
    then show ?thesis using True "1.IH" [OF True z] by (subst night_loop.simps) (simp add: overlapMs_card)
  qed
qed

text \<open>
  The night minutes of a stretch of work are the rounded length of the part of it during which the
  Vietnam clock shows 22:00 to 05:59, however many days it spans.
\<close>

theorem night_minutes_measure_the_night:
  "nightOverlapMinutes from to = js_round (of_nat (card {t. from \<le> t \<and> t < to \<and> at_night t}) / 60000)"
proof (cases "from < to")
  case True
  let ?m = "(from + VN_OFFSET_MS) div DAY_MS * DAY_MS - VN_OFFSET_MS"
  have z: "(?m - DAY_MS + VN_OFFSET_MS) mod DAY_MS = 0" by (simp add: ms_consts)
  have "?m \<le> from" using div_mult_mod_eq [of "from + VN_OFFSET_MS" DAY_MS] pos_mod_sign [of DAY_MS "from + VN_OFFSET_MS"]
    by (simp add: ms_consts)
  then have "{t. from \<le> t \<and> t < to \<and> at_night t \<and> ?m - DAY_MS + 22 * HOUR_MS \<le> t} = {t. from \<le> t \<and> t < to \<and> at_night t}"
    by (auto simp: ms_consts)
  then show ?thesis using True night_loop_card [OF z, of "from" to]
    by (simp add: nightOverlapMinutes_def Let_def)
next
  case False
  then have "{t. from \<le> t \<and> t < to \<and> at_night t} = {}" by auto
  then show ?thesis using False by (simp only: nightOverlapMinutes_def not_False_eq_True if_True card.empty) simp
qed

section \<open>Counts and sums are those of the occurrences\<close>

definition occs :: "month_facts \<Rightarrow> string \<Rightarrow> rule_occurrence list" where
  "occs f code = map_get_or [] (fRuleOccurrences f) code"

definition times_of :: "month_facts \<Rightarrow> string \<Rightarrow> rat" where
  "times_of f code = of_nat (length (occs f code))"

definition minutes_of :: "month_facts \<Rightarrow> string \<Rightarrow> rat" where
  "minutes_of f code = sum_list (map oMinutes (occs f code))"

lemma occur_counts [simp]:
  "times_of (occur a c m f) c' = times_of f c' + (if c' = c then 1 else 0)"
  "minutes_of (occur a c m f) c' = minutes_of f c' + (if c' = c then m else 0)"
  by (auto simp: times_of_def minutes_of_def occs_def occur_def map_get_or_def)

lemma occur_fields [simp]:
  "fLateCount (occur a c m f) = fLateCount f" "fEarlyCount (occur a c m f) = fEarlyCount f"
  "fTotalLateMinutes (occur a c m f) = fTotalLateMinutes f" "fTotalEarlyMinutes (occur a c m f) = fTotalEarlyMinutes f"
  "fAbsentCount (occur a c m f) = fAbsentCount f" "fAbsentMinutes (occur a c m f) = fAbsentMinutes f"
  "fMissedPunchCount (occur a c m f) = fMissedPunchCount f" "fCompletedShifts (occur a c m f) = fCompletedShifts f"
  "fWorkedMinutes (occur a c m f) = fWorkedMinutes f"
  "fPunctualShifts (occur a c m f) = fPunctualShifts f" "fPunctualMinutes (occur a c m f) = fPunctualMinutes f"
  "fOvertimeShifts (occur a c m f) = fOvertimeShifts f" "fOvertimeMinutes (occur a c m f) = fOvertimeMinutes f"
  "fNightShifts (occur a c m f) = fNightShifts f" "fNightMinutes (occur a c m f) = fNightMinutes f"
  by (simp_all add: occur_def)

definition recounted :: "month_facts \<Rightarrow> bool" where
  "recounted f \<longleftrightarrow>
     fLateCount f = times_of f ''LATE'' \<and> fTotalLateMinutes f = minutes_of f ''LATE'' \<and>
     fEarlyCount f = times_of f ''EARLY'' \<and> fTotalEarlyMinutes f = minutes_of f ''EARLY'' \<and>
     fAbsentCount f = times_of f ''ABSENT'' \<and> fAbsentMinutes f = minutes_of f ''ABSENT'' \<and>
     fMissedPunchCount f = times_of f ''MISSED_PUNCH'' \<and>
     fWorkedMinutes f = minutes_of f ''ATTENDANCE'' \<and>
     fPunctualShifts f = times_of f ''PUNCTUALITY'' \<and> fPunctualMinutes f = minutes_of f ''PUNCTUALITY'' \<and>
     fOvertimeShifts f = times_of f ''OVERTIME'' \<and> fOvertimeMinutes f = minutes_of f ''OVERTIME'' \<and>
     fNightShifts f = times_of f ''NIGHT_SHIFT'' \<and> fNightMinutes f = minutes_of f ''NIGHT_SHIFT''"

lemma update_keeps_occs [simp]:
  "times_of (f\<lparr>fLateCount := x\<rparr>) c = times_of f c" "minutes_of (f\<lparr>fLateCount := x\<rparr>) c = minutes_of f c"
  "times_of (f\<lparr>fEarlyCount := x\<rparr>) c = times_of f c" "minutes_of (f\<lparr>fEarlyCount := x\<rparr>) c = minutes_of f c"
  "times_of (f\<lparr>fTotalLateMinutes := x\<rparr>) c = times_of f c" "minutes_of (f\<lparr>fTotalLateMinutes := x\<rparr>) c = minutes_of f c"
  "times_of (f\<lparr>fTotalEarlyMinutes := x\<rparr>) c = times_of f c" "minutes_of (f\<lparr>fTotalEarlyMinutes := x\<rparr>) c = minutes_of f c"
  "times_of (f\<lparr>fMissedPunchCount := x\<rparr>) c = times_of f c" "minutes_of (f\<lparr>fMissedPunchCount := x\<rparr>) c = minutes_of f c"
  "times_of (f\<lparr>fCompletedShifts := x\<rparr>) c = times_of f c" "minutes_of (f\<lparr>fCompletedShifts := x\<rparr>) c = minutes_of f c"
  "times_of (f\<lparr>fWorkedMinutes := x\<rparr>) c = times_of f c" "minutes_of (f\<lparr>fWorkedMinutes := x\<rparr>) c = minutes_of f c"
  "times_of (f\<lparr>fPunctualShifts := x\<rparr>) c = times_of f c" "minutes_of (f\<lparr>fPunctualShifts := x\<rparr>) c = minutes_of f c"
  "times_of (f\<lparr>fPunctualMinutes := x\<rparr>) c = times_of f c" "minutes_of (f\<lparr>fPunctualMinutes := x\<rparr>) c = minutes_of f c"
  "times_of (f\<lparr>fOvertimeShifts := x\<rparr>) c = times_of f c" "minutes_of (f\<lparr>fOvertimeShifts := x\<rparr>) c = minutes_of f c"
  "times_of (f\<lparr>fOvertimeMinutes := x\<rparr>) c = times_of f c" "minutes_of (f\<lparr>fOvertimeMinutes := x\<rparr>) c = minutes_of f c"
  "times_of (f\<lparr>fNightShifts := x\<rparr>) c = times_of f c" "minutes_of (f\<lparr>fNightShifts := x\<rparr>) c = minutes_of f c"
  "times_of (f\<lparr>fNightMinutes := x\<rparr>) c = times_of f c" "minutes_of (f\<lparr>fNightMinutes := x\<rparr>) c = minutes_of f c"
  "times_of (f\<lparr>fAbsentCount := x\<rparr>) c = times_of f c" "minutes_of (f\<lparr>fAbsentCount := x\<rparr>) c = minutes_of f c"
  "times_of (f\<lparr>fAbsentMinutes := x\<rparr>) c = times_of f c" "minutes_of (f\<lparr>fAbsentMinutes := x\<rparr>) c = minutes_of f c"
  by (simp_all add: times_of_def minutes_of_def occs_def)

definition stored_minutes_ok :: "assignment_fact \<Rightarrow> bool" where
  "stored_minutes_ok a \<longleftrightarrow> 0 \<le> toFiniteNumber (aLateMinutes a) \<and> 0 \<le> toFiniteNumber (aEarlyMinutes a)"

lemma recounted_late_early: "stored_minutes_ok a \<Longrightarrow> recounted f \<Longrightarrow> recounted (count_late_early a f)"
  by (auto simp: recounted_def count_late_early_def Let_def stored_minutes_ok_def)

lemma recounted_log:
  "recounted f \<Longrightarrow> recounted (f\<lparr>fCompletedShifts := x\<rparr>)"
  "recounted f \<Longrightarrow> recounted (occur a ''ATTENDANCE'' w (f\<lparr>fWorkedMinutes := fWorkedMinutes f + w\<rparr>))"
  "recounted f \<Longrightarrow> recounted (occur a ''PUNCTUALITY'' w
     (f\<lparr>fPunctualShifts := fPunctualShifts f + 1, fPunctualMinutes := fPunctualMinutes f + w\<rparr>))"
  "recounted f \<Longrightarrow> recounted (occur a ''OVERTIME'' w
     (f\<lparr>fOvertimeShifts := fOvertimeShifts f + 1, fOvertimeMinutes := fOvertimeMinutes f + w\<rparr>))"
  "recounted f \<Longrightarrow> recounted (occur a ''NIGHT_SHIFT'' w
     (f\<lparr>fNightShifts := fNightShifts f + 1, fNightMinutes := fNightMinutes f + w\<rparr>))"
  by (simp_all add: recounted_def)

lemma recounted_if: "recounted f \<Longrightarrow> recounted g \<Longrightarrow> recounted (if b then f else g)"
  by simp

lemma recounted_completed: "recounted f \<Longrightarrow> recounted (count_completed a f)"
  unfolding count_completed_def Let_def by (intro recounted_if recounted_log)

lemma recounted_absent: "recounted f \<Longrightarrow> recounted (count_absent t a f)"
  by (simp add: recounted_def count_absent_def)

lemma recounted_fold:
  "\<forall>a \<in> set xs. stored_minutes_ok a \<Longrightarrow> recounted f \<Longrightarrow> recounted (foldl (summarize_step t) f xs)"
  by (induction xs arbitrary: f)
     (simp_all add: summarize_step_def recounted_absent recounted_completed recounted_late_early)

lemma completed_step: "fCompletedShifts (summarize_step t f a) = fCompletedShifts f + (if aStatus a = COMPLETED then 1 else 0)"
proof -
  have if_shifts: "fCompletedShifts (if b then g else h) = (if b then fCompletedShifts g else fCompletedShifts h)" for b g h
    by simp
  have "fCompletedShifts (count_late_early a f) = fCompletedShifts f"
    by (simp add: count_late_early_def Let_def)
  moreover have "fCompletedShifts (count_completed a g) = fCompletedShifts g + (if aStatus a = COMPLETED then 1 else 0)" for g
    unfolding count_completed_def Let_def if_shifts occur_fields month_facts.simps by simp
  ultimately show ?thesis by (simp add: summarize_step_def count_absent_def)
qed

lemma completed_fold:
  "fCompletedShifts (foldl (summarize_step t) f xs) = fCompletedShifts f + of_nat (length (filter (\<lambda>a. aStatus a = COMPLETED) xs))"
  by (induction xs arbitrary: f) (simp_all add: completed_step)

text \<open>
  The month's figures are consistent: each count is the number of recorded occurrences of its kind and
  each minute total is the sum of their minutes, so the rules that read totals and the rules that read
  occurrences are paid on the same facts; the completed shifts are those with that status.
\<close>

theorem facts_match_occurrences:
  assumes "\<forall>a \<in> set xs. stored_minutes_ok a"
  shows "recounted (summarizeMonthlyAttendance xs t) \<and>
    fCompletedShifts (summarizeMonthlyAttendance xs t) = of_nat (length (filter (\<lambda>a. aStatus a = COMPLETED) xs))"
proof -
  have "recounted no_facts"
    by (simp add: recounted_def no_facts_def times_of_def minutes_of_def occs_def map_get_or_def)
  from recounted_fold [OF assms this, of t] have "recounted (foldl (summarize_step t) no_facts xs)" .
  moreover have "fCompletedShifts no_facts = 0" by (simp add: no_facts_def)
  ultimately show ?thesis
    using completed_fold [of t no_facts xs]
    by (simp add: summarizeMonthlyAttendance_def Let_def recounted_def times_of_def minutes_of_def occs_def)
qed

definition late_and_absent :: "assignment_fact list" where
  "late_and_absent =
    [\<lparr> aId = ''a1'', aWorkDate = JStr ''2026-10-03'', aWorkShiftId = None, aStatus = COMPLETED, aAttendanceStatus = Some LATE,
       aCheckInTime = DNull, aWorkedMinutes = JNum (Fin 470), aLateMinutes = JNum (Fin 10), aEarlyMinutes = JNull,
       aShiftEarnings = JNull, aLeaveCovered = False, aCheckOutTime = DNull, aWindowStart = DNull, aWindowEnd = DNull \<rparr>,
     \<lparr> aId = ''a2'', aWorkDate = JStr ''2026-10-04'', aWorkShiftId = None, aStatus = APPROVED, aAttendanceStatus = Some ABSENT,
       aCheckInTime = DNull, aWorkedMinutes = JNull, aLateMinutes = JNull, aEarlyMinutes = JNull,
       aShiftEarnings = JNull, aLeaveCovered = False, aCheckOutTime = DNull,
       aWindowStart = DAt 0, aWindowEnd = DAt 28800000 \<rparr>]"

theorem facts_match_occurrences_witness:
  "recounted (summarizeMonthlyAttendance late_and_absent ''2026-10-31'') \<and>
   fCompletedShifts (summarizeMonthlyAttendance late_and_absent ''2026-10-31'') = 1"
proof -
  have "\<forall>a \<in> set late_and_absent. stored_minutes_ok a"
    by (simp add: late_and_absent_def stored_minutes_ok_def toFiniteNumber_def fin_or_zero_def)
  from facts_match_occurrences [OF this, of "''2026-10-31''"] show ?thesis
    by (simp add: late_and_absent_def)
qed

section \<open>Overtime and night minutes stay within the credited minutes\<close>

definition inside_minutes :: "assignment_fact \<Rightarrow> rat" where
  "inside_minutes a =
     (case (instantMs (aCheckInTime a), instantMs (aCheckOutTime a), instantMs (aWindowStart a), instantMs (aWindowEnd a)) of
        (Some i, Some out, Some s, Some e) \<Rightarrow> js_round (of_int (overlapMs i out s e) / 60000) | _ \<Rightarrow> 0)"

lemma overlapMs_nonneg: "0 \<le> overlapMs a b c d"
  by (simp add: overlapMs_def)

lemma inside_minutes_nonneg: "0 \<le> inside_minutes a"
  by (auto simp: inside_minutes_def overlapMs_nonneg intro!: js_round_nonneg split: option.split)

lemma night_minutes_nonneg: "0 \<le> nightOverlapMinutes from to"
proof -
  have "0 \<le> night_loop from to day" for day
    by (induction "from" to day rule: night_loop.induct) (subst night_loop.simps, simp add: overlapMs_nonneg)
  then show ?thesis by (simp add: nightOverlapMinutes_def Let_def js_round_nonneg)
qed

text \<open>
  Nothing unpaid is rewarded twice: overtime and night minutes are non-negative and at most the
  minutes credited for the shift, and overtime only covers credited minutes beyond those worked inside
  the shift's window.
\<close>

theorem extra_minutes_within_worked:
  assumes "0 \<le> worked"
  shows "0 \<le> exOvertime (shiftExtraMinutes a worked) \<and> exOvertime (shiftExtraMinutes a worked) \<le> worked \<and>
    0 \<le> exNight (shiftExtraMinutes a worked) \<and> exNight (shiftExtraMinutes a worked) \<le> worked \<and>
    (0 < exOvertime (shiftExtraMinutes a worked) \<longrightarrow> exOvertime (shiftExtraMinutes a worked) + inside_minutes a \<le> worked)"
proof (cases "instantMs (aCheckInTime a)")
  case i: (Some i)
  show ?thesis
  proof (cases "instantMs (aCheckOutTime a)")
    case out: (Some out)
    show ?thesis
    proof (cases "out > i \<and> worked > 0")
      case False
      then have "shiftExtraMinutes a worked = \<lparr> exOvertime = 0, exNight = 0 \<rparr>"
        by (auto simp: shiftExtraMinutes_def i out)
      then show ?thesis using assms by simp
    next
      case True
      define ov where "ov = (case (instantMs (aWindowStart a), instantMs (aWindowEnd a)) of
          (Some s, Some e) \<Rightarrow> if e > s then max 0 (min (js_round (of_int (max 0 (out - e)) / 60000)) (worked - inside_minutes a)) else 0
        | _ \<Rightarrow> 0)"
      define nf where "nf = (case instantMs (aWindowStart a) of Some s \<Rightarrow> if s > i then s else i | None \<Rightarrow> i)"
      have "exOvertime (shiftExtraMinutes a worked) = ov"
        using True by (auto simp: shiftExtraMinutes_def i out ov_def inside_minutes_def Let_def split: option.split)
      moreover have "exNight (shiftExtraMinutes a worked) = min worked (nightOverlapMinutes nf out)"
        using True by (auto simp: shiftExtraMinutes_def i out nf_def Let_def)
      moreover have "0 \<le> ov \<and> ov \<le> worked \<and> (0 < ov \<longrightarrow> ov + inside_minutes a \<le> worked)"
        using True inside_minutes_nonneg [of a] by (auto simp: ov_def split: option.split)
      ultimately show ?thesis using True night_minutes_nonneg [of nf out] by simp
    qed
  qed (use assms i in \<open>simp add: shiftExtraMinutes_def\<close>)
qed (use assms in \<open>simp add: shiftExtraMinutes_def\<close>)

theorem extra_minutes_within_worked_witness:
  "exNight (shiftExtraMinutes (late_and_absent ! 0) 470) \<le> 470"
  using extra_minutes_within_worked [of 470 "late_and_absent ! 0"] by simp

lemma scheduled_minutes_sum:
  "map_get_or 0 (scheduledMinutesByDate xs) d =
     sum_list (map windowMinutes (filter (\<lambda>a. workDateOf (aWorkDate a) = d) (filter scheduled xs)))"
  unfolding scheduledMinutesByDate_def by (rule sum_by_key)

end
