(* ===== verification/EarnedBase.thy ===== *)
theory EarnedBase
  imports PayrollFacts VnCalendar RuleConfigPay
begin

text \<open>
  Base pay: the earned base of a month and its description, the pay rates of the rules
  (\<open>payroll-calculation.utils.ts\<close>), the per-shift display figure (\<open>shift-earnings.utils.ts\<close>) and the
  standard working days of a month (\<open>working-days.utils.ts\<close>). The lemmas tie the three together: a full
  month earns the contract, per-shift figures add up to the month within the rounding, and a day's pay
  is the contract's pay for that day's shifts.
\<close>

section \<open>Standard working days\<close>

datatype week_day = MONDAY | TUESDAY | WEDNESDAY | THURSDAY | FRIDAY | SATURDAY | SUNDAY | SATURDAY_SUNDAY

fun WEEKDAY_INDEX :: "week_day \<Rightarrow> int option" where
  "WEEKDAY_INDEX SUNDAY = Some 0"
| "WEEKDAY_INDEX MONDAY = Some 1"
| "WEEKDAY_INDEX TUESDAY = Some 2"
| "WEEKDAY_INDEX WEDNESDAY = Some 3"
| "WEEKDAY_INDEX THURSDAY = Some 4"
| "WEEKDAY_INDEX FRIDAY = Some 5"
| "WEEKDAY_INDEX SATURDAY = Some 6"
| "WEEKDAY_INDEX SATURDAY_SUNDAY = None"

definition resolveDaysOffIndices :: "week_day list option \<Rightarrow> int list" where
  "resolveDaysOffIndices daysOff =
     js_set (concat (map (\<lambda>day. if day = SATURDAY_SUNDAY then [6, 0]
         else case WEEKDAY_INDEX day of Some i \<Rightarrow> [i] | None \<Rightarrow> [])
       (case daysOff of Some ds \<Rightarrow> ds | None \<Rightarrow> [])))"

definition calendarDaysInMonth :: "int \<Rightarrow> int \<Rightarrow> int" where
  "calendarDaysInMonth year monthIndex = cday (civil_of_day (utc_day year (monthIndex + 1) 0))"

definition countWorkingDaysInMonth :: "int \<Rightarrow> int \<Rightarrow> week_day list option \<Rightarrow> int" where
  "countWorkingDaysInMonth year monthIndex daysOff =
     (let totalDays = calendarDaysInMonth year monthIndex;
          offIndices = resolveDaysOffIndices daysOff
      in if offIndices = [] then totalDays
         else
           let workingDays = int (length (filter (\<lambda>day. weekday (utc_day year monthIndex day) \<notin> set offIndices) [1..totalDays]))
           in if workingDays > 0 then workingDays else totalDays)"

section \<open>Earned base\<close>

text \<open>An unknown or missing payment type reads as \<open>None\<close>.\<close>

datatype payment_type = PT_SHIFT | PT_HOUR | PT_DAY | PT_WEEK | PT_MONTH

definition WORKING_DAYS_PER_WEEK :: rat where "WORKING_DAYS_PER_WEEK = 6"

definition resolvePayrollPaymentType :: "payment_type option \<Rightarrow> payment_type" where
  "resolvePayrollPaymentType type = (case type of Some t \<Rightarrow> t | None \<Rightarrow> PT_MONTH)"

record earned_facts =
  efCompletedShifts :: rat
  efWorkedMinutes :: rat
  efDaysWorked :: rat

definition earned_facts_of :: "month_facts \<Rightarrow> earned_facts" where
  "earned_facts_of f = \<lparr> efCompletedShifts = fCompletedShifts f, efWorkedMinutes = fWorkedMinutes f, efDaysWorked = fDaysWorked f \<rparr>"

definition earnedBaseTerms :: "payment_type \<Rightarrow> earned_facts \<Rightarrow> rat \<Rightarrow> rat \<Rightarrow> rat \<times> rat option" where
  "earnedBaseTerms paymentType facts standardWorkingDays calendarDays =
     (case paymentType of
        PT_HOUR \<Rightarrow> (max 0 (efWorkedMinutes facts), Some 60)
      | PT_SHIFT \<Rightarrow> (efCompletedShifts facts, Some 1)
      | PT_DAY \<Rightarrow> (efCompletedShifts facts, Some 1)
      | PT_WEEK \<Rightarrow> (efCompletedShifts facts, Some WORKING_DAYS_PER_WEEK)
      | PT_MONTH \<Rightarrow>
          let days = (if standardWorkingDays > 0 then standardWorkingDays else calendarDays)
          in (efDaysWorked facts, if days > 0 then Some days else None))"

definition computeEarnedBase :: "payment_type \<Rightarrow> rat \<Rightarrow> earned_facts \<Rightarrow> rat \<Rightarrow> rat \<Rightarrow> rat" where
  "computeEarnedBase paymentType rate facts standardWorkingDays calendarDays =
     (if rate \<le> 0 then 0
      else case earnedBaseTerms paymentType facts standardWorkingDays calendarDays of
        (units, None) \<Rightarrow> 0
      | (units, Some per) \<Rightarrow> js_round (rate * units / per))"

text \<open>The Vietnamese labels are constructors here, spelled without their accents.\<close>

datatype quantity_unit = Q_HOUR | Q_SHIFT | Q_DAY

datatype rate_label = LuongGio | LuongCa | LuongNgay | LuongTuan | LuongThang

datatype rate_unit_label = MotGio | MotCa | MotNgay | MotTuan | MotThang

datatype quantity_label = TongGioLam | SoCaLam | NgayCong

datatype divisor_label = NgayTrenTuan | NgayCongChuan

record breakdown_labels =
  blRateLabel :: rate_label
  blRateUnitLabel :: rate_unit_label
  blQuantityUnit :: quantity_unit
  blQuantityLabel :: quantity_label
  blDivisorLabel :: "divisor_label option"

definition EARNED_BREAKDOWN_LABELS :: "payment_type \<Rightarrow> breakdown_labels" where
  "EARNED_BREAKDOWN_LABELS t = (case t of
       PT_HOUR \<Rightarrow> \<lparr> blRateLabel = LuongGio, blRateUnitLabel = MotGio, blQuantityUnit = Q_HOUR, blQuantityLabel = TongGioLam,
         blDivisorLabel = None \<rparr>
     | PT_SHIFT \<Rightarrow> \<lparr> blRateLabel = LuongCa, blRateUnitLabel = MotCa, blQuantityUnit = Q_SHIFT, blQuantityLabel = SoCaLam,
         blDivisorLabel = None \<rparr>
     | PT_DAY \<Rightarrow> \<lparr> blRateLabel = LuongNgay, blRateUnitLabel = MotNgay, blQuantityUnit = Q_SHIFT, blQuantityLabel = SoCaLam,
         blDivisorLabel = None \<rparr>
     | PT_WEEK \<Rightarrow> \<lparr> blRateLabel = LuongTuan, blRateUnitLabel = MotTuan, blQuantityUnit = Q_SHIFT, blQuantityLabel = SoCaLam,
         blDivisorLabel = Some NgayTrenTuan \<rparr>
     | PT_MONTH \<Rightarrow> \<lparr> blRateLabel = LuongThang, blRateUnitLabel = MotThang, blQuantityUnit = Q_DAY, blQuantityLabel = NgayCong,
         blDivisorLabel = Some NgayCongChuan \<rparr>)"

record earned_breakdown =
  ebPaymentType :: payment_type
  ebRate :: rat
  ebLabels :: breakdown_labels
  ebQuantity :: rat
  ebWorkedMinutes :: "rat option"
  ebDivisor :: "rat option"
  ebAmount :: rat
  ebReproducible :: bool
  ebMixedRates :: bool

definition describeEarnedBase ::
  "payment_type option \<Rightarrow> jsval \<Rightarrow> earned_facts option \<Rightarrow> jsval \<Rightarrow> jsval \<Rightarrow> jsval \<Rightarrow> bool option \<Rightarrow> earned_breakdown" where
  "describeEarnedBase paymentType0 rate0 facts0 standard calendar amount0 mixed =
     (let paymentType = resolvePayrollPaymentType paymentType0;
          rate = toFiniteNumber rate0; amount = toFiniteNumber amount0; mixedRates = (mixed = Some True);
          facts = (case facts0 of Some f \<Rightarrow> f | None \<Rightarrow> \<lparr> efCompletedShifts = 0, efWorkedMinutes = 0, efDaysWorked = 0 \<rparr>);
          (units, per) = earnedBaseTerms paymentType facts (toFiniteNumber standard) (toFiniteNumber calendar);
          isHour = (paymentType = PT_HOUR);
          divided = (paymentType = PT_WEEK \<or> paymentType = PT_MONTH);
          labels = EARNED_BREAKDOWN_LABELS paymentType;
          recomputed = computeEarnedBase paymentType rate facts (toFiniteNumber standard) (toFiniteNumber calendar)
      in \<lparr> ebPaymentType = paymentType, ebRate = rate,
           ebLabels = labels\<lparr>blDivisorLabel := (if divided \<and> per \<noteq> None then blDivisorLabel labels else None)\<rparr>,
           ebQuantity = (if isHour then units / 60 else units),
           ebWorkedMinutes = (if isHour then Some units else None),
           ebDivisor = (if divided then per else None), ebAmount = amount,
           ebReproducible = (facts0 \<noteq> None \<and> \<not> mixedRates \<and> (\<not> divided \<or> per \<noteq> None) \<and> recomputed = amount),
           ebMixedRates = mixedRates \<rparr>)"

section \<open>Rates of the rules\<close>

definition payRatesOf :: "payment_type option \<Rightarrow> rat \<Rightarrow> rat \<Rightarrow> month_facts \<Rightarrow> pay_rates" where
  "payRatesOf paymentType rate standardWorkingDays facts =
     (let shifts = fCompletedShifts facts; minutes = fWorkedMinutes facts;
          shiftHours = (if shifts > 0 \<and> minutes > 0 then minutes / 60 / shifts else 8);
          days = (if standardWorkingDays = 0 then 26 else standardWorkingDays);
          withDays = (\<lambda>hourly perShift monthly. \<lparr> prHourly = hourly, prPerShift = perShift, prDaily = Some perShift,
             prMonthly = Some (case monthly of Some m \<Rightarrow> m | None \<Rightarrow> perShift * days) \<rparr>)
      in case resolvePayrollPaymentType paymentType of
           PT_HOUR \<Rightarrow> withDays rate (rate * shiftHours) None
         | PT_SHIFT \<Rightarrow> withDays (rate / shiftHours) rate None
         | PT_DAY \<Rightarrow> withDays (rate / 8) rate None
         | PT_WEEK \<Rightarrow> (let perDay = rate / WORKING_DAYS_PER_WEEK in withDays (perDay / 8) perDay None)
         | PT_MONTH \<Rightarrow> (let perDay = rate / days in withDays (perDay / 8) perDay (Some rate)))"

definition add_shift :: "rat \<Rightarrow> (string, rat) jsmap \<times> (string, rat) jsmap \<Rightarrow> assignment_fact \<Rightarrow>
    (string, rat) jsmap \<times> (string, rat) jsmap" where
  "add_shift perShift acc a = (let date = workDateOf (aWorkDate a) in
     (map_set (fst acc) date (map_get_or 0 (fst acc) date + perShift),
      map_set (snd acc) date (map_get_or 0 (snd acc) date + 1)))"

definition dayPayOf :: "payment_type option \<Rightarrow> pay_rates \<Rightarrow> assignment_fact list \<Rightarrow> day_pay option" where
  "dayPayOf paymentType rates assignments =
     (case resolvePayrollPaymentType paymentType of
        PT_HOUR \<Rightarrow>
          (let minutes = scheduledMinutesByDate assignments
           in Some \<lparr> dpByDate = map (\<lambda>(date, m). (date, prHourly rates * m / 60)) minutes,
                dpUnitsByDate = minutes, dpUnit = D_MINUTE \<rparr>)
      | PT_SHIFT \<Rightarrow>
          (let acc = foldl (add_shift (prPerShift rates)) ([], []) (filter scheduled assignments)
           in Some \<lparr> dpByDate = fst acc, dpUnitsByDate = snd acc, dpUnit = D_SHIFT \<rparr>)
      | _ \<Rightarrow> None)"

fun sumAllowances :: "jsval \<Rightarrow> rat" where
  "sumAllowances (JObj ps) = js_round (sum_list (map (\<lambda>p. toFiniteNumber (snd p)) ps))"
| "sumAllowances (JArr vs) = js_round (sum_list (map toFiniteNumber vs))"
| "sumAllowances _ = 0"

section \<open>The per-shift display figure\<close>

datatype earnings_error = MonthOutOfRange

record shift_earnings_input =
  seiPaymentType :: "payment_type option"
  seiBaseSalary :: jsval
  seiHours :: jsval
  seiReferenceDate :: datev
  seiWorkingDaysInMonth :: "rat option"
  seiCountsAsWorkedDay :: "bool option"

fun daysInMonthOf :: "datev \<Rightarrow> earnings_error + rat" where
  "daysInMonthOf (DAt ms) = (case vnMonthOf ms of Some m \<Rightarrow> Inr (of_int (mCalendarDays m)) | None \<Rightarrow> Inl MonthOutOfRange)"
| "daysInMonthOf _ = Inr 0"

text \<open>\<open>None\<close> is the code's null: a payment type the rule does not cover.\<close>

definition calculateShiftEarnings :: "shift_earnings_input \<Rightarrow> earnings_error + rat option" where
  "calculateShiftEarnings input =
     (case js_number (seiBaseSalary input) of
        Fin base \<Rightarrow>
          if base \<le> 0 then Inr (Some 0)
          else (case seiPaymentType input of
              Some PT_HOUR \<Rightarrow>
                Inr (Some (case js_number (seiHours input) of
                    Fin hours \<Rightarrow> if hours \<le> 0 then 0 else js_round (base * hours)
                  | _ \<Rightarrow> 0))
            | Some PT_SHIFT \<Rightarrow> Inr (Some (js_round base))
            | Some PT_DAY \<Rightarrow> Inr (Some (js_round base))
            | Some PT_WEEK \<Rightarrow> Inr (Some (js_round (base / WORKING_DAYS_PER_WEEK)))
            | Some PT_MONTH \<Rightarrow>
                if seiCountsAsWorkedDay input = Some False then Inr (Some 0)
                else and_then (case seiWorkingDaysInMonth input of
                      Some d \<Rightarrow> if d > 0 then Inr d else daysInMonthOf (seiReferenceDate input)
                    | None \<Rightarrow> daysInMonthOf (seiReferenceDate input))
                  (\<lambda>days. Inr (Some (if days \<le> 0 then 0 else js_round (base / days))))
            | None \<Rightarrow> Inr None)
      | _ \<Rightarrow> Inr (Some 0))"

section \<open>A full month earns the contract\<close>

definition earned_facts_ok :: "earned_facts \<Rightarrow> bool" where
  "earned_facts_ok f \<longleftrightarrow> 0 \<le> efCompletedShifts f \<and> 0 \<le> efWorkedMinutes f \<and> 0 \<le> efDaysWorked f"

lemma earned_base_value:
  "0 < rate \<Longrightarrow> earnedBaseTerms t f s c = (u, Some p) \<Longrightarrow> computeEarnedBase t rate f s c = js_round (rate * u / p)"
  by (simp add: computeEarnedBase_def)

lemma earned_terms_ok:
  "earned_facts_ok f \<Longrightarrow> 0 \<le> fst (earnedBaseTerms t f s c) \<and> opt_ok (\<lambda>p. 0 < p) (snd (earnedBaseTerms t f s c))"
  by (cases t) (auto simp: earnedBaseTerms_def earned_facts_ok_def WORKING_DAYS_PER_WEEK_def Let_def)

lemma earned_base_nonneg:
  assumes "earned_facts_ok f"
  shows "0 \<le> computeEarnedBase t rate f s c"
proof -
  obtain u p where e: "earnedBaseTerms t f s c = (u, p)" by (cases "earnedBaseTerms t f s c")
  then show ?thesis using earned_terms_ok [OF assms, of t s c]
    by (cases p) (auto simp: computeEarnedBase_def intro!: js_round_nonneg)
qed

text \<open>
  C22. A monthly contract: an employee who works as many distinct days as the store's standard month earns
  exactly the (rounded) contract salary, working fewer days never earns more, and nothing is negative.
\<close>

theorem full_month_earns_contract:
  assumes "0 < rate" "0 < standard" "0 \<le> efDaysWorked f"
  shows "(efDaysWorked f = standard \<longrightarrow> computeEarnedBase PT_MONTH rate f standard calendar = js_round rate) \<and>
    (efDaysWorked f \<le> standard \<longrightarrow> computeEarnedBase PT_MONTH rate f standard calendar \<le> js_round rate) \<and>
    0 \<le> computeEarnedBase PT_MONTH rate f standard calendar"
proof -
  have e: "computeEarnedBase PT_MONTH rate f standard calendar = js_round (rate * efDaysWorked f / standard)"
    using assms by (simp add: computeEarnedBase_def earnedBaseTerms_def)
  have "efDaysWorked f \<le> standard \<Longrightarrow> rate * efDaysWorked f / standard \<le> rate"
    using assms by (simp add: divide_le_eq)
  then show ?thesis using assms unfolding e by (auto intro: js_round_mono js_round_nonneg)
qed

theorem full_month_earns_contract_witness:
  "computeEarnedBase PT_MONTH 7000000 \<lparr> efCompletedShifts = 30, efWorkedMinutes = 0, efDaysWorked = 26 \<rparr> 26 30 = 7000000"
  using full_month_earns_contract [of 7000000 26 "\<lparr> efCompletedShifts = 30, efWorkedMinutes = 0, efDaysWorked = 26 \<rparr>" 30]
    js_round_of_int [of 7000000]
  by simp

text \<open>
  The salary screen only shows a formula it can stand behind: whenever a payslip's base is marked
  reproducible, the amount is the rounded rate times quantity over divisor, as the screen prints it.
\<close>

theorem reproducible_equation:
  assumes "ebReproducible (describeEarnedBase t rate facts standard calendar amount mixed)"
    and "0 < toFiniteNumber rate"
  shows "let b = describeEarnedBase t rate facts standard calendar amount mixed in
    ebAmount b = js_round (ebRate b * ebQuantity b / (case ebDivisor b of Some d \<Rightarrow> d | None \<Rightarrow> 1)) \<and>
    ebAmount b = toFiniteNumber amount"
proof -
  obtain f where f: "facts = Some f" and m: "mixed \<noteq> Some True"
    using assms(1) by (auto simp: describeEarnedBase_def Let_def split: prod.splits)
  show ?thesis
    using assms f m
    by (cases "resolvePayrollPaymentType t")
       (auto simp: describeEarnedBase_def Let_def earnedBaseTerms_def computeEarnedBase_def split: if_splits)
qed

theorem reproducible_equation_witness:
  "ebReproducible (describeEarnedBase (Some PT_HOUR) (JNum (Fin 20000))
      (Some \<lparr> efCompletedShifts = 1, efWorkedMinutes = 90, efDaysWorked = 1 \<rparr>) JNull JNull (JNum (Fin 30000)) None) \<and>
   js_round (20000 * (90 / 60) / 1) = 30000"
proof -
  let ?b = "describeEarnedBase (Some PT_HOUR) (JNum (Fin 20000))
      (Some \<lparr> efCompletedShifts = 1, efWorkedMinutes = 90, efDaysWorked = 1 \<rparr>) JNull JNull (JNum (Fin 30000)) None"
  have r: "ebReproducible ?b" and v: "ebRate ?b = 20000" "ebQuantity ?b = 90 / 60" "ebDivisor ?b = None" "ebAmount ?b = 30000"
    by code_simp+
  from reproducible_equation [OF r] v r show ?thesis by (simp add: Let_def)
qed

section \<open>Per-shift figures and the month\<close>

lemma round_sum_close:
  fixes xs :: "rat list"
  assumes "xs \<noteq> []"
  shows "\<bar>sum_list (map js_round xs) - js_round (sum_list xs)\<bar> < of_nat (length xs) \<or> length xs = 1 \<and>
    sum_list (map js_round xs) = js_round (sum_list xs)"
proof (cases "length xs = 1")
  case True
  then obtain x where "xs = [x]" by (cases xs) auto
  then show ?thesis by simp
next
  case False
  then have n: "2 \<le> length xs" using assms by (cases xs) (auto simp: Suc_le_eq)
  have "\<bar>sum_list (map js_round xs) - sum_list xs\<bar> \<le> of_nat (length xs) / 2"
  proof (induction xs)
    case (Cons x xs)
    have "\<bar>js_round x - x\<bar> \<le> 1 / 2" using js_round_bounds [of x] unfolding abs_le_iff by linarith
    then show ?case
      using Cons abs_triangle_ineq [of "js_round x - x" "sum_list (map js_round xs) - sum_list xs"]
      by (simp add: algebra_simps add_divide_distrib)
  qed simp
  moreover have "\<bar>sum_list xs - js_round (sum_list xs)\<bar> \<le> 1 / 2"
    using js_round_bounds [of "sum_list xs"] unfolding abs_le_iff by linarith
  moreover have "(2 :: rat) \<le> of_nat (length xs)" using n by (metis of_nat_le_iff of_nat_numeral)
  ultimately have "\<bar>sum_list (map js_round xs) - js_round (sum_list xs)\<bar> \<le> of_nat (length xs) / 2 + 1 / 2"
    by linarith
  then have le: "\<bar>sum_list (map js_round xs) - js_round (sum_list xs)\<bar> < of_nat (length xs) \<or> length xs \<le> 1"
    using \<open>(2 :: rat) \<le> of_nat (length xs)\<close> by linarith
  then show ?thesis using n by auto
qed

definition hour_shift :: "rat \<Rightarrow> rat \<Rightarrow> shift_earnings_input" where
  "hour_shift base minutes = \<lparr> seiPaymentType = Some PT_HOUR, seiBaseSalary = JNum (Fin base), seiHours = JNum (Fin (minutes / 60)),
     seiReferenceDate = DNull, seiWorkingDaysInMonth = None, seiCountsAsWorkedDay = None \<rparr>"

definition shift_figure :: "shift_earnings_input \<Rightarrow> rat" where
  "shift_figure i = (case calculateShiftEarnings i of Inr (Some x) \<Rightarrow> x | _ \<Rightarrow> 0)"

text \<open>
  The figures shown per shift and the amount paid for the month agree up to rounding: for an hourly
  contract, the sum of a month's per-shift figures differs from the month's earned base by less than one
  VND per shift.
\<close>

theorem shift_figures_near_month:
  assumes "0 < base" "minutes \<noteq> []" "\<forall>m \<in> set minutes. 0 < m"
  shows "\<bar>sum_list (map (\<lambda>m. shift_figure (hour_shift base m)) minutes) -
      computeEarnedBase PT_HOUR base \<lparr> efCompletedShifts = s, efWorkedMinutes = sum_list minutes, efDaysWorked = d \<rparr> standard calendar\<bar>
    < of_nat (length minutes)"
proof -
  let ?xs = "map (\<lambda>m. base * (m / 60)) minutes"
  have "shift_figure (hour_shift base m) = js_round (base * (m / 60))" if "m \<in> set minutes" for m
    using assms(1,3) that by (auto simp: shift_figure_def hour_shift_def calculateShiftEarnings_def)
  then have f: "map (\<lambda>m. shift_figure (hour_shift base m)) minutes = map js_round ?xs" by simp
  have t: "sum_list ?xs = base * sum_list minutes / 60"
    by (induction minutes) (simp_all add: algebra_simps add_divide_distrib)
  have n: "0 \<le> sum_list minutes" by (rule sum_list_nonneg) (use assms(3) in auto)
  have e: "computeEarnedBase PT_HOUR base \<lparr> efCompletedShifts = s, efWorkedMinutes = sum_list minutes, efDaysWorked = d \<rparr>
      standard calendar = js_round (sum_list ?xs)"
    unfolding t using n assms(1) by (simp add: computeEarnedBase_def earnedBaseTerms_def max_def)
  have "\<bar>sum_list (map js_round ?xs) - js_round (sum_list ?xs)\<bar> < of_nat (length ?xs)"
  proof -
    have "?xs \<noteq> []" using assms(2) by simp
    from round_sum_close [OF this] show ?thesis by (elim disjE conjE) (simp_all del: map_map)
  qed
  then show ?thesis unfolding f e by (simp only: length_map)
qed

theorem shift_figures_near_month_witness:
  "\<bar>sum_list (map (\<lambda>m. shift_figure (hour_shift 25000 m)) [475, 463, 401]) -
      computeEarnedBase PT_HOUR 25000 \<lparr> efCompletedShifts = 3, efWorkedMinutes = sum_list [475, 463, 401], efDaysWorked = 3 \<rparr> 26 30\<bar>
    < of_nat (length [475, 463, 401 :: rat])"
  by (rule shift_figures_near_month) simp_all

section \<open>The standard month\<close>

lemma calendar_days: "1900 \<le> y \<Longrightarrow> 1 \<le> m \<Longrightarrow> m \<le> 12 \<Longrightarrow> calendarDaysInMonth y (m - 1) = days_in_month y m"
  by (simp add: calendarDaysInMonth_def days_in_month_utc)

text \<open>The open days of a month: its calendar days whose weekday is not a day off.\<close>

definition open_days :: "int \<Rightarrow> int \<Rightarrow> week_day list option \<Rightarrow> int set" where
  "open_days y m off = {d. valid_civil (Civil y m d) \<and> weekday (day_of_civil (Civil y m d)) \<notin> set (resolveDaysOffIndices off)}"

text \<open>
  The standard month is the number of its calendar days on which the store is open, or all its days
  when that is none or nothing is configured; it is never 0 and never more than the calendar month.
\<close>

theorem standard_month_counts_open_days:
  assumes "1900 \<le> y" "1 \<le> m" "m \<le> 12"
  shows "countWorkingDaysInMonth y (m - 1) off =
      (if resolveDaysOffIndices off = [] \<or> open_days y m off = {} then days_in_month y m else int (card (open_days y m off))) \<and>
    1 \<le> countWorkingDaysInMonth y (m - 1) off \<and> countWorkingDaysInMonth y (m - 1) off \<le> days_in_month y m"
proof -
  let ?days = "filter (\<lambda>d. weekday (utc_day y (m - 1) d) \<notin> set (resolveDaysOffIndices off)) [1..days_in_month y m]"
  have "utc_day y (m - 1) d = day_of_civil (Civil y m d)" for d
    using assms by (simp add: utc_day_def day_of_civil_def)
  then have s: "set ?days = open_days y m off"
    using assms by (auto simp: open_days_def valid_civil_def)
  then have c: "length ?days = card (open_days y m off)"
    using distinct_card [of ?days] by simp
  have "length ?days \<le> length [1..days_in_month y m]" by (rule length_filter_le)
  also have "length [1..days_in_month y m] = nat (days_in_month y m)" by simp
  finally have "int (length ?days) \<le> days_in_month y m"
    using days_in_month_bounds [OF assms(2,3), of y] by linarith
  moreover have "1 \<le> days_in_month y m" using days_in_month_bounds [OF assms(2,3), of y] by simp
  moreover have "open_days y m off = {} \<longleftrightarrow> card (open_days y m off) = 0"
    using s by (metis List.finite_set card_eq_0_iff)
  ultimately show ?thesis
    by (simp add: countWorkingDaysInMonth_def Let_def calendar_days [OF assms] c)
qed

theorem standard_month_counts_open_days_witness:
  "1 \<le> countWorkingDaysInMonth 2026 9 (Some [SATURDAY_SUNDAY]) \<and> countWorkingDaysInMonth 2026 9 (Some [SATURDAY_SUNDAY]) \<le> days_in_month 2026 10"
  using standard_month_counts_open_days [of 2026 10 "Some [SATURDAY_SUNDAY]"] by simp

section \<open>A day's pay is the contract's pay for its shifts\<close>

definition shifts_on :: "assignment_fact list \<Rightarrow> string \<Rightarrow> assignment_fact list" where
  "shifts_on xs d = filter (\<lambda>a. workDateOf (aWorkDate a) = d) (filter scheduled xs)"

lemma add_shift_sums:
  "map_get_or 0 (fst (foldl (add_shift p) ([], []) ys)) d = p * of_nat (length (filter (\<lambda>a. workDateOf (aWorkDate a) = d) ys))"
  "map_get_or 0 (snd (foldl (add_shift p) ([], []) ys)) d = of_nat (length (filter (\<lambda>a. workDateOf (aWorkDate a) = d) ys))"
proof -
  have pair: "foldl (add_shift p) (m, n) ys =
      (foldl (\<lambda>m a. map_set m (workDateOf (aWorkDate a)) (map_get_or 0 m (workDateOf (aWorkDate a)) + p)) m ys,
       foldl (\<lambda>m a. map_set m (workDateOf (aWorkDate a)) (map_get_or 0 m (workDateOf (aWorkDate a)) + 1)) n ys)" for m n
    by (induction ys arbitrary: m n) (simp_all add: add_shift_def Let_def)
  show "map_get_or 0 (fst (foldl (add_shift p) ([], []) ys)) d = p * of_nat (length (filter (\<lambda>a. workDateOf (aWorkDate a) = d) ys))"
    unfolding pair fst_conv sum_by_key by (simp add: sum_list_triv)
  show "map_get_or 0 (snd (foldl (add_shift p) ([], []) ys)) d = of_nat (length (filter (\<lambda>a. workDateOf (aWorkDate a) = d) ys))"
    unfolding pair snd_conv sum_by_key by (simp add: sum_list_triv)
qed

lemma map_of_get_or: "map_get_or 0 m k \<noteq> 0 \<Longrightarrow> map_of m k = Some (map_get_or 0 m k)" for m :: "(string, rat) jsmap"
  by (auto simp: map_get_or_def split: option.splits)

definition shift_occurrence :: "assignment_fact \<Rightarrow> rule_occurrence" where
  "shift_occurrence a = \<lparr> oDate = workDateOf (aWorkDate a), oMinutes = windowMinutes a, oQuantity = 1,
     oShiftMinutes = Some (windowMinutes a), oAssignmentId = nonempty (Some (aId a)), oRecordId = None \<rparr>"

lemma oDate_shift_occurrence: "oDate (shift_occurrence a) = workDateOf (aWorkDate a)"
  by (simp add: shift_occurrence_def)

lemma absent_occurrence: "counts_absent t a \<Longrightarrow> occs (count_absent t a f) ''ABSENT'' = occs f ''ABSENT'' @ [shift_occurrence a]"
  by (simp add: count_absent_def occs_def occur_def shift_occurrence_def map_get_or_def)

text \<open>
  Being absent from every scheduled shift of a day costs exactly the contract's pay for that day: the
  pay of one shift for each of them on a per-shift contract, the hourly rate for their scheduled hours on
  an hourly one. The occurrences are the ones the month's summary records for those shifts.
\<close>

theorem absent_day_costs_the_day:
  assumes type: "t = Some PT_HOUR \<or> t = Some PT_SHIFT"
    and day: "dayPayOf t rates xs = Some d" "shifts_on xs date \<noteq> []"
    and pos: "0 < prHourly rates" "0 < prPerShift rates" "\<forall>a \<in> set (shifts_on xs date). 0 < windowMinutes a"
    and r: "rtDayPay r = Some d"
  shows "sumDayPay ''ABSENT'' r (map shift_occurrence (shifts_on xs date)) =
    (if t = Some PT_SHIFT then prPerShift rates * of_nat (length (shifts_on xs date))
     else prHourly rates * sum_list (map windowMinutes (shifts_on xs date)) / 60)"
proof (rule day_pay_shares_add_up [where d = d and date = date])
  let ?s = "shifts_on xs date" and ?own = "own_units d"
  let ?m = "sum_list (map windowMinutes ?s)"
  show "rtDayPay r = Some d" by (rule r)
  show "\<not> recorded_code ''ABSENT''" by (simp add: recorded_code_def minuteBased_def MINUTE_BASED_CODES_def)
  show "map shift_occurrence ?s \<noteq> []" using day(2) by simp
  have n: "(0 :: rat) < of_nat (length ?s)" using day(2) by simp
  have m: "0 < ?m"
  proof -
    obtain a where "a \<in> set ?s" using day(2) by (cases ?s) auto
    then have "0 < windowMinutes a" "windowMinutes a \<le> ?m"
      using pos(3) member_le_sum_list [of "windowMinutes a" "map windowMinutes ?s"] by (auto intro: less_imp_le)
    then show ?thesis by linarith
  qed
  have on: "\<forall>a \<in> set ?s. workDateOf (aWorkDate a) = date" by (simp add: shifts_on_def)
  have dd: "dpByDate d = (if t = Some PT_SHIFT then fst (foldl (add_shift (prPerShift rates)) ([], []) (filter scheduled xs))
        else map (\<lambda>(date, m). (date, prHourly rates * m / 60)) (scheduledMinutesByDate xs))"
    "dpUnitsByDate d = (if t = Some PT_SHIFT then snd (foldl (add_shift (prPerShift rates)) ([], []) (filter scheduled xs))
        else scheduledMinutesByDate xs)"
    "dpUnit d = (if t = Some PT_SHIFT then D_SHIFT else D_MINUTE)"
    using type day(1) by (auto simp: dayPayOf_def resolvePayrollPaymentType_def Let_def)
  have mins: "map_of (scheduledMinutesByDate xs) date = Some ?m"
    using map_of_get_or [of "scheduledMinutesByDate xs" date] scheduled_minutes_sum [of xs date] m
    by (simp add: shifts_on_def)
  have shifts: "map_of (fst (foldl (add_shift (prPerShift rates)) ([], []) (filter scheduled xs))) date = Some (prPerShift rates * of_nat (length ?s))"
    "map_of (snd (foldl (add_shift (prPerShift rates)) ([], []) (filter scheduled xs))) date = Some (of_nat (length ?s))"
    using map_of_get_or [of "fst (foldl (add_shift (prPerShift rates)) ([], []) (filter scheduled xs))" date]
      map_of_get_or [of "snd (foldl (add_shift (prPerShift rates)) ([], []) (filter scheduled xs))" date]
      add_shift_sums [of "prPerShift rates" "filter scheduled xs" date] n pos(2)
    by (simp_all add: shifts_on_def)
  show "map_of (dpByDate d) date = Some (if t = Some PT_SHIFT then prPerShift rates * of_nat (length ?s) else prHourly rates * ?m / 60)"
    using shifts(1) mins map_of_map [of "\<lambda>m. prHourly rates * m / 60" "scheduledMinutesByDate xs"] by (simp add: dd)
  show "0 < (if t = Some PT_SHIFT then prPerShift rates * of_nat (length ?s) else prHourly rates * ?m / 60)"
    using n m pos by simp
  have own: "?own (shift_occurrence a) = (if t = Some PT_SHIFT then 1 else windowMinutes a)" for a
    by (simp add: own_units_def dd(3) shift_occurrence_def or_zero_def)
  show "map_of (dpUnitsByDate d) date = Some (sum_list (map ?own (map shift_occurrence ?s)))"
    using shifts(2) mins by (simp add: dd(2) own comp_def sum_list_triv)
  show "\<forall>oc \<in> set (map shift_occurrence ?s). oDate oc = date \<and> 0 < ?own oc"
    using on pos(3) by (auto simp: own oDate_shift_occurrence)
qed

definition two_shift_day :: "assignment_fact list" where
  "two_shift_day = map (\<lambda>(i, s, e). (late_and_absent ! 1)\<lparr>aId := i, aWindowStart := DAt s, aWindowEnd := DAt e\<rparr>)
     [(''a1'', 0, 14400000), (''a2'', 18000000, 36000000)]"

definition two_shift_rates :: rule_rates where
  "two_shift_rates = three_shift_rates\<lparr>rtDayPay := dayPayOf (Some PT_HOUR)
     \<lparr> prHourly = 20000, prPerShift = 160000, prDaily = None, prMonthly = None \<rparr> two_shift_day\<rparr>"

theorem absent_day_costs_the_day_witness:
  "sumDayPay ''ABSENT'' two_shift_rates (map shift_occurrence (shifts_on two_shift_day ''2026-10-04'')) = 180000"
proof -
  let ?r = "\<lparr> prHourly = 20000, prPerShift = 160000, prDaily = None, prMonthly = None \<rparr>"
  have w: "map windowMinutes (shifts_on two_shift_day ''2026-10-04'') = [240, 300]" by code_simp
  have "shifts_on two_shift_day ''2026-10-04'' \<noteq> []" using w by auto
  moreover have "\<forall>a \<in> set (shifts_on two_shift_day ''2026-10-04''). 0 < windowMinutes a"
  proof -
    have "list_all (\<lambda>m. 0 < m) (map windowMinutes (shifts_on two_shift_day ''2026-10-04''))" by (simp add: w)
    then show ?thesis by (simp add: list_all_iff)
  qed
  moreover obtain d where "dayPayOf (Some PT_HOUR) ?r two_shift_day = Some d"
    by (simp add: dayPayOf_def resolvePayrollPaymentType_def Let_def)
  ultimately show ?thesis
    using absent_day_costs_the_day [of "Some PT_HOUR" ?r two_shift_day d "''2026-10-04''" two_shift_rates]
    by (simp add: w two_shift_rates_def)
qed

end
