(* ===== verification/PayrollRules.thy ===== *)
theory PayrollRules
  imports PayrollFacts RuleConfigPay
begin

text \<open>
  \<open>src/modules/stores/payroll-calculation.utils.ts\<close>, bonus and fine lines: the basis and amount of a
  v2 rule (calcMode) and a v3 rule (calcConfig), legacy rules, versions of a rule and the facts each is
  priced on, what the owner waived, the lines of a payslip and their totals. The lemmas show that the
  displayed lines add up to the totals, that the versions of a rule price the month once, that waiving
  only removes what was waived, and which bonuses a month without work can pay.

  Two entries of the rule list are the same object only at the same position (they are rows of one
  query). Dates are strings of one shape, so \<open>localeCompare\<close> orders them as \<open>\<le>\<close> does. Object keys are
  ids, never integer-like, so objects keep insertion order.
\<close>

section \<open>Rules\<close>

datatype rule_category = BONUS | FINE | BENEFIT

datatype calc_type = AMOUNT | PERCENTAGE | SHIFT

text \<open>A column of type date: absent, text or a \<open>Date\<close> (\<open>None\<close> when invalid).\<close>

datatype day_value = V_none | V_text string | V_date "instant option"

record payroll_rule =
  ruCategory :: rule_category
  ruRuleType :: "string option"
  ruCalcType :: calc_type
  ruValue :: jsval
  ruId :: "string option"
  ruName :: "string option"
  ruCode :: "string option"
  ruCalcMode :: "string option"
  ruThreshold :: jsval
  ruCalcConfig :: jsval
  ruLineageId :: "string option"
  ruValidFrom :: day_value
  ruValidTo :: day_value

definition hasCompletedWork :: "month_facts \<Rightarrow> bool" where
  "hasCompletedWork facts \<longleftrightarrow> (case fMonthCompletedShifts facts of Some n \<Rightarrow> n | None \<Rightarrow> fCompletedShifts facts) > 0"

definition monthAbsences :: "month_facts \<Rightarrow> rat" where
  "monthAbsences facts = (case fMonthAbsentCount facts of Some n \<Rightarrow> n | None \<Rightarrow> fAbsentCount facts)"

definition formatQuantity :: "rat \<Rightarrow> string" where
  "formatQuantity value = (let rounded = js_round (value * 10) / 10
     in if js_is_integer rounded then rat_string rounded
        else map (\<lambda>c. if c = CHR ''.'' then CHR '','' else c) (rat_string rounded))"

definition AUTO_RULE_CODES :: "string list" where
  "AUTO_RULE_CODES = [''OVERTIME'', ''ATTENDANCE'', ''PUNCTUALITY'', ''NIGHT_SHIFT'', ''LATE'', ''EARLY'', ''MISSED_PUNCH'', ''ABSENT'']"

definition MINUTE_CODES :: "string list" where
  "MINUTE_CODES = [''LATE'', ''EARLY'', ''OVERTIME'', ''NIGHT_SHIFT'', ''ABSENT'', ''ATTENDANCE'', ''PUNCTUALITY'']"

text \<open>\<open>s || d\<close> of a string column.\<close>

definition text_or :: "string option \<Rightarrow> string \<Rightarrow> string" where
  "text_or s d = (case nonempty s of Some t \<Rightarrow> t | None \<Rightarrow> d)"

definition code_of :: "payroll_rule \<Rightarrow> string" where
  "code_of rule = text_or (ruCode rule) ''CUSTOM''"

definition automatic :: "payroll_rule \<Rightarrow> bool" where
  "automatic rule \<longleftrightarrow> (case ruCode rule of Some c \<Rightarrow> c \<in> set AUTO_RULE_CODES | None \<Rightarrow> False)"

text \<open>The manual records of a rule, found by its id.\<close>

definition records_of :: "payroll_rule \<Rightarrow> month_facts \<Rightarrow> rule_occurrence list" where
  "records_of rule facts = (case nonempty (ruId rule) of None \<Rightarrow> [] | Some i \<Rightarrow> map_get_or [] (fRecordOccurrences facts) i)"

section \<open>Lines\<close>

datatype line_kind = BONUS_LINE | FINE_LINE

datatype occurrence_unit = OU_MINUTE | OU_HOUR | OU_SHIFT | OU_DAY | OU_OCCURRENCE

text \<open>A line's name: the rule's own (trimmed), or the default for its kind. A label is a calculated label
  around that name, the default of a legacy type, or that of the stage bonus.\<close>

datatype line_name = Given string | ViPham | Thuong | Phat

datatype type_word = DiTre | VeSom | NghiKhongPhep | ChuyenCan | ThuongChung

datatype line_label = L_calc line_name rule_label | L_name line_name | L_type type_word | L_stage

record line_occurrence =
  loDate :: string
  loMinutes :: rat
  loQuantity :: rat
  loAssignmentId :: "string option"
  loRecordId :: "string option"

record adjustment_line =
  lnKind :: line_kind
  lnRuleId :: "string option"
  lnRuleType :: string
  lnLabel :: line_label
  lnCount :: rat
  lnAmount :: rat
  lnOccurrences :: "line_occurrence list option"
  lnOccurrenceUnit :: "occurrence_unit option"

record raw_rule_line = adjustment_line +
  lnExact :: rat

definition ADJUSTMENT_LABELS :: "(string \<times> type_word) list" where
  "ADJUSTMENT_LABELS = [(''LATE'', DiTre), (''EARLY'', VeSom), (''ABSENT'', NghiKhongPhep), (''ATTENDANCE'', ChuyenCan),
     (''GENERAL'', ThuongChung)]"

definition trimmed_name :: "payroll_rule \<Rightarrow> string option" where
  "trimmed_name rule = (case ruName rule of Some s \<Rightarrow> nonempty (Some (js_trim s)) | None \<Rightarrow> None)"

definition line_name :: "payroll_rule \<Rightarrow> line_name" where
  "line_name rule = (case trimmed_name rule of Some s \<Rightarrow> Given s
     | None \<Rightarrow> if ruCategory rule = FINE then ViPham else Thuong)"

section \<open>v2: calcMode\<close>

definition v2RuleBasis :: "payroll_rule \<Rightarrow> month_facts \<Rightarrow> rat \<times> rat" where
  "v2RuleBasis rule facts =
     (if ruCode rule = Some ''OVERTIME'' then (fOvertimeMinutes facts / 60, fOvertimeShifts facts)
      else if ruCode rule = Some ''ATTENDANCE'' then
        if hasCompletedWork facts \<and> monthAbsences facts = 0 then (fWorkedMinutes facts / 60, fCompletedShifts facts) else (0, 0)
      else if ruCode rule = Some ''PUNCTUALITY'' then (fPunctualMinutes facts / 60, fPunctualShifts facts)
      else if ruCode rule = Some ''NIGHT_SHIFT'' then (fNightMinutes facts / 60, fNightShifts facts)
      else if ruCode rule = Some ''LATE'' then (fTotalLateMinutes facts / 60, fLateCount facts)
      else if ruCode rule = Some ''EARLY'' then (fTotalEarlyMinutes facts / 60, fEarlyCount facts)
      else if ruCode rule = Some ''MISSED_PUNCH'' then (0, fMissedPunchCount facts)
      else if ruCode rule = Some ''ABSENT'' then (fAbsentMinutes facts / 60, fAbsentCount facts)
      else let recorded = (case nonempty (ruId rule) of Some i \<Rightarrow> map_get_or 0 (fRuleQuantities facts) i | None \<Rightarrow> 0)
           in (recorded, recorded))"

definition rate_hourly :: "month_facts \<Rightarrow> rat" where
  "rate_hourly facts = (case fPayRates facts of Some r \<Rightarrow> prHourly r | None \<Rightarrow> 0)"

definition rate_per_shift :: "month_facts \<Rightarrow> rat" where
  "rate_per_shift facts = (case fPayRates facts of Some r \<Rightarrow> prPerShift r | None \<Rightarrow> 0)"

definition v2RuleLine :: "payroll_rule \<Rightarrow> month_facts \<Rightarrow> rule_result" where
  "v2RuleLine rule facts =
     (let value = toFiniteNumber (ruValue rule); (hours, shifts) = v2RuleBasis rule facts;
          threshold = toFiniteNumber (ruThreshold rule);
          mode = ruCalcMode rule
      in if mode = Some ''COEF_PER_HOUR''
         then result (value * rate_hourly facts * hours) 1 (Name_with (formatQuantity hours) Gio)
         else if mode = Some ''AMOUNT_PER_HOUR'' then result (value * hours) 1 (Name_with (formatQuantity hours) Gio)
         else if mode = Some ''COEF_PER_SHIFT'' \<or> mode = Some ''AMOUNT_PER_SHIFT'' then
           let per = (if mode = Some ''COEF_PER_SHIFT'' then value * rate_per_shift facts else value);
               whole = js_is_integer shifts
           in result (per * shifts) (if whole then shifts else 1)
                (if whole then Name else Name_with (formatQuantity shifts) Ca)
         else if mode = Some ''MILESTONE_HOURS''
         then result (if threshold > 0 \<and> hours \<ge> threshold then value else 0) 1 (Name_with (formatQuantity threshold) DatGio)
         else if mode = Some ''MILESTONE_SHIFTS''
         then result (if threshold > 0 \<and> shifts \<ge> threshold then value else 0) 1 (Name_with (formatQuantity threshold) DatCa)
         else result 0 0 Name)"

section \<open>v3: calcConfig\<close>

definition rates_of :: "month_facts \<Rightarrow> rule_rates" where
  "rates_of facts = \<lparr> rtHourly = rate_hourly facts,
     rtDaily = (case fPayRates facts of
         Some r \<Rightarrow> (case prDaily r of Some d \<Rightarrow> d | None \<Rightarrow> prPerShift r) | None \<Rightarrow> 0),
     rtMonthly = (case fPayRates facts of Some r \<Rightarrow> or_zero (prMonthly r) | None \<Rightarrow> 0),
     rtRevenue = fRevenue facts, rtDayPay = fDayPay facts \<rparr>"

definition monthly_of :: "month_facts \<Rightarrow> rule_monthly" where
  "monthly_of facts = \<lparr> moWorkedDays = fDaysWorked facts, moCompletedShifts = fCompletedShifts facts,
     moWorkedMinutes = fWorkedMinutes facts \<rparr>"

definition v3_occurrences :: "payroll_rule \<Rightarrow> rule_calc_config \<Rightarrow> month_facts \<Rightarrow> rule_occurrence list" where
  "v3_occurrences rule config facts =
     (let code = code_of rule;
          occurrences = (if code \<in> set AUTO_RULE_CODES then occs facts code else records_of rule facts)
      in if code = ''ATTENDANCE'' \<and> (cKind config \<noteq> MILESTONE \<or> cMetric config = Some OCCURRENCES) \<and> monthAbsences facts > 0
         then [] else occurrences)"

definition v3RuleLine :: "payroll_rule \<Rightarrow> month_facts \<Rightarrow> rule_result option" where
  "v3RuleLine rule facts =
     (case normalizeRuleCalcConfig (ruCalcConfig rule) of
        Inl e \<Rightarrow> None
      | Inr config \<Rightarrow>
          if cKind config = MILESTONE \<and> cOp config = Some LTE \<and> fMonthComplete facts = Some False then None
          else Some (evaluateRuleConfig (code_of rule) config (v3_occurrences rule config facts) (rates_of facts) (monthly_of facts)))"

fun ymdOf :: "day_value \<Rightarrow> string option" where
  "ymdOf V_none = None"
| "ymdOf (V_date None) = None"
| "ymdOf (V_date (Some ms)) = Some (take 10 (toISOString ms))"
| "ymdOf (V_text s) = (if is_ymd (take 10 s) then Some (take 10 s) else None)"

definition config_text :: "jsval \<Rightarrow> string \<Rightarrow> string \<Rightarrow> string" where
  "config_text config key d = js_string (js_or_null (js_get config key) (JStr d))"

definition isPeriodLevelRule :: "payroll_rule \<Rightarrow> bool" where
  "isPeriodLevelRule rule =
     (if js_truthy (ruCalcConfig rule) then
        let kind = config_text (ruCalcConfig rule) ''kind'' [];
            base = config_text (ruCalcConfig rule) ''base'' []
        in if kind = ''FIXED'' \<or> kind = ''UNIT_PRICE'' \<or> kind = ''SALARY_COEF'' then False
           else if kind = ''SALARY_BLOCK'' then False
           else if kind = ''PERCENT'' then base = ''MONTHLY'' \<or> base = ''REVENUE''
           else
             let minute_based = code_of rule \<in> set MINUTE_BASED_CODES
             in if kind = ''TIERED'' then \<not> minute_based
                else if kind = ''PROGRESSIVE'' then
                  let unit = config_text (ruCalcConfig rule) ''unit'' ''MINUTE''
                  in \<not> (minute_based \<and> (unit = ''MINUTE'' \<or> unit = ''HOUR''))
                else True
      else case nonempty (ruCalcMode rule) of
             Some mode \<Rightarrow> starts_with ''MILESTONE_'' mode
           | None \<Rightarrow> ruCategory rule \<noteq> FINE)"

section \<open>The facts of a version, and of what the owner left\<close>

definition inside :: "string \<Rightarrow> string \<Rightarrow> rule_occurrence \<Rightarrow> bool" where
  "inside from to oc \<longleftrightarrow> oDate oc \<ge> from \<and> oDate oc < to"

definition sum_minutes :: "rule_occurrence list \<Rightarrow> rat" where
  "sum_minutes list = sum_list (map oMinutes list)"

definition day_count :: "rule_occurrence list \<Rightarrow> rat" where
  "day_count list = of_nat (length (js_set (map oDate list)))"

text \<open>The records of several ids, in the order of the object.\<close>

definition records_under :: "(string \<Rightarrow> bool) \<Rightarrow> (string, rule_occurrence list) jsmap \<Rightarrow> rule_occurrence list" where
  "records_under has m = concat (map snd (filter (\<lambda>p. has (fst p)) m))"

definition factsWithin ::
  "month_facts \<Rightarrow> string \<Rightarrow> string \<Rightarrow> string option \<Rightarrow> string list \<Rightarrow> string \<Rightarrow> month_facts" where
  "factsWithin facts from to ruleId lineageIds recordFrom =
     (let occurrences = map (\<lambda>(code, list). (code, filter (inside from to) list)) (fRuleOccurrences facts);
          of_code = map_get_or [] occurrences;
          records = filter (inside recordFrom to) (records_under (\<lambda>i. i \<in> set lineageIds) (fRecordOccurrences facts));
          count = (\<lambda>code. of_nat (length (of_code code)));
          minutes = (\<lambda>code. sum_minutes (of_code code))
      in facts\<lparr>
        fLateCount := count ''LATE'', fTotalLateMinutes := minutes ''LATE'',
        fEarlyCount := count ''EARLY'', fTotalEarlyMinutes := minutes ''EARLY'',
        fAbsentCount := count ''ABSENT'', fAbsentMinutes := minutes ''ABSENT'',
        fMissedPunchCount := count ''MISSED_PUNCH'',
        fOvertimeShifts := count ''OVERTIME'', fOvertimeMinutes := minutes ''OVERTIME'',
        fNightShifts := count ''NIGHT_SHIFT'', fNightMinutes := minutes ''NIGHT_SHIFT'',
        fPunctualShifts := count ''PUNCTUALITY'', fPunctualMinutes := minutes ''PUNCTUALITY'',
        fCompletedShifts := count ''ATTENDANCE'', fWorkedMinutes := minutes ''ATTENDANCE'',
        fDaysWorked := day_count (of_code ''ATTENDANCE''),
        fRuleOccurrences := occurrences,
        fMonthAbsentCount := Some (monthAbsences facts),
        fMonthCompletedShifts := Some (case fMonthCompletedShifts facts of Some n \<Rightarrow> n | None \<Rightarrow> fCompletedShifts facts),
        fRecordOccurrences := (case nonempty ruleId of Some i \<Rightarrow> [(i, records)] | None \<Rightarrow> []),
        fRuleQuantities := (case nonempty ruleId of Some i \<Rightarrow> [(i, sum_list (map oQuantity records))] | None \<Rightarrow> []) \<rparr>)"

definition occurrenceUnitOf :: "payroll_rule \<Rightarrow> occurrence_unit" where
  "occurrenceUnitOf rule =
     (let code = text_or (ruCode rule) (text_or (ruRuleType rule) ''CUSTOM'') in
      if code \<in> set MINUTE_CODES then OU_MINUTE
      else if js_truthy (ruCalcConfig rule) then
        let unit = config_text (ruCalcConfig rule) ''unit'' []
        in if unit = ''HOUR'' then OU_HOUR else if unit = ''SHIFT'' then OU_SHIFT
           else if unit = ''DAY'' then OU_DAY else OU_OCCURRENCE
      else case nonempty (ruCalcMode rule) of
             Some mode \<Rightarrow> if ends_with ''_PER_HOUR'' mode then OU_HOUR
                         else if ends_with ''_PER_SHIFT'' mode then OU_SHIFT else OU_OCCURRENCE
           | None \<Rightarrow> OU_OCCURRENCE)"

definition lineOccurrences :: "payroll_rule \<Rightarrow> month_facts \<Rightarrow> rule_occurrence list" where
  "lineOccurrences rule facts =
     (if isPeriodLevelRule rule then []
      else
        let code = code_of rule; manual = (code \<notin> set AUTO_RULE_CODES);
            list = (if manual then records_of rule facts else occs facts code)
        in if code = ''ATTENDANCE'' \<and> monthAbsences facts > 0 then []
           else if js_truthy (ruCalcConfig rule) then
             countedOccurrences code
               ((empty_config FIXED)\<lparr>cGraceMinutes := Some (toFiniteNumber (js_get (ruCalcConfig rule) ''graceMinutes'')),
                  cAccumulateDaily := (if js_get (ruCalcConfig rule) ''accumulateDaily'' = JBool False then Some False else None)\<rparr>)
               list
           else filter (\<lambda>oc. \<not> manual \<or> oQuantity oc > 0) list)"

section \<open>Versions\<close>

definition lineageOf :: "payroll_rule \<Rightarrow> string" where
  "lineageOf rule = text_or (ruLineageId rule) (text_or (ruId rule) [])"

definition set_add :: "string list \<Rightarrow> string \<Rightarrow> string list" where
  "set_add ids i = (if i \<in> set ids then ids else ids @ [i])"

definition add_lineage :: "(string, string list) jsmap \<Rightarrow> payroll_rule \<Rightarrow> (string, string list) jsmap" where
  "add_lineage m rule =
     (let key = lineageOf rule in
      if key = [] then m
      else let ids = map_get_or [key] m key
           in map_set m key (case nonempty (ruId rule) of Some i \<Rightarrow> set_add ids i | None \<Rightarrow> ids))"

definition from_or_empty :: "payroll_rule \<Rightarrow> string" where
  "from_or_empty rule = (case ymdOf (ruValidFrom rule) of Some d \<Rightarrow> d | None \<Rightarrow> [])"

text \<open>Rules are numbered by their position, which stands for the identity of the object.\<close>

definition keep_earliest :: "(string, nat \<times> payroll_rule) jsmap \<Rightarrow> nat \<times> payroll_rule \<Rightarrow> (string, nat \<times> payroll_rule) jsmap" where
  "keep_earliest m r = (let key = lineageOf (snd r) in
     case map_of m key of
       None \<Rightarrow> map_set m key r
     | Some current \<Rightarrow> if from_or_empty (snd r) < from_or_empty (snd current) then map_set m key r else m)"

definition withLineageRecords :: "month_facts \<Rightarrow> payroll_rule \<Rightarrow> string list \<Rightarrow> month_facts" where
  "withLineageRecords facts rule ids =
     (case nonempty (ruId rule) of
        None \<Rightarrow> facts
      | Some i \<Rightarrow>
          if length ids \<le> 1 then facts
          else let records = records_under (\<lambda>k. k \<in> set ids) (fRecordOccurrences facts)
               in facts\<lparr>fRecordOccurrences := map_set (fRecordOccurrences facts) i records,
                        fRuleQuantities := map_set (fRuleQuantities facts) i (sum_list (map oQuantity records))\<rparr>)"

text \<open>The tests and windows of a version against the period, \<open>None\<close> being an open side.\<close>

definition not_in_force :: "string \<Rightarrow> string \<Rightarrow> string option \<Rightarrow> string option \<Rightarrow> bool" where
  "not_in_force start end from to \<longleftrightarrow>
     (case to of Some t \<Rightarrow> t \<le> start | None \<Rightarrow> False) \<or> (case from of Some f \<Rightarrow> f \<ge> end | None \<Rightarrow> False) \<or>
     (case (from, to) of (Some f, Some t) \<Rightarrow> t \<le> f | _ \<Rightarrow> False)"

definition from_start :: "string \<Rightarrow> string option \<Rightarrow> bool" where
  "from_start start from \<longleftrightarrow> (case from of Some f \<Rightarrow> f \<le> start | None \<Rightarrow> True)"

definition until_end :: "string \<Rightarrow> string option \<Rightarrow> bool" where
  "until_end end to \<longleftrightarrow> (case to of Some t \<Rightarrow> t \<ge> end | None \<Rightarrow> True)"

definition window_from :: "string \<Rightarrow> string option \<Rightarrow> string" where
  "window_from start from = (case from of Some f \<Rightarrow> if f > start then f else start | None \<Rightarrow> start)"

definition window_to :: "string \<Rightarrow> string option \<Rightarrow> string" where
  "window_to end to = (case to of Some t \<Rightarrow> if t < end then t else end | None \<Rightarrow> end)"

definition date_text :: "string option \<Rightarrow> day_value" where
  "date_text d = (case d of Some s \<Rightarrow> V_text s | None \<Rightarrow> V_none)"

text \<open>The body of the loop over the rules: at most one entry each.\<close>

definition version_input ::
  "(string, string list) jsmap \<Rightarrow> (string, nat \<times> payroll_rule) jsmap \<Rightarrow> month_facts \<Rightarrow> nat \<times> payroll_rule \<Rightarrow>
     (payroll_rule \<times> month_facts) list" where
  "version_input lineages earliest facts r =
     (let rule = snd r; from = ymdOf (ruValidFrom rule); to = ymdOf (ruValidTo rule);
          ids = map_get_or [] lineages (lineageOf rule)
      in if from = None \<and> to = None then [(rule, facts)]
         else case (ymdOf (date_text (fPeriodStart facts)), ymdOf (date_text (fPeriodEndExclusive facts))) of
             (Some start, Some end) \<Rightarrow>
               if not_in_force start end from to then []
               else if isPeriodLevelRule rule then
                 (if until_end end to then [(rule, withLineageRecords facts rule ids)] else [])
               else if from_start start from \<and> until_end end to then [(rule, withLineageRecords facts rule ids)]
               else
                 let windowFrom = window_from start from;
                     recordFrom = (if map_option fst (map_of earliest (lineageOf rule)) = Some (fst r) then start else windowFrom)
                 in [(rule, factsWithin facts windowFrom (window_to end to) (ruId rule) ids recordFrom)]
           | _ \<Rightarrow> if to = None then [(rule, facts)] else [])"

definition versionedRuleInputs :: "payroll_rule list \<Rightarrow> month_facts \<Rightarrow> (payroll_rule \<times> month_facts) list" where
  "versionedRuleInputs rules facts =
     (let lineages = foldl add_lineage [] rules;
          numbered = enumerate 0 rules;
          earliest = foldl keep_earliest [] numbered
      in concat (map (version_input lineages earliest facts) numbered))"

section \<open>Waivers\<close>

definition RECOUNTED_FIELDS :: "(string \<times> (rule_occurrence list \<Rightarrow> rat \<Rightarrow> month_facts \<Rightarrow> month_facts)) list" where
  "RECOUNTED_FIELDS =
     [(''LATE'', \<lambda>kept minutes f. f\<lparr>fLateCount := of_nat (length kept), fTotalLateMinutes := minutes\<rparr>),
      (''EARLY'', \<lambda>kept minutes f. f\<lparr>fEarlyCount := of_nat (length kept), fTotalEarlyMinutes := minutes\<rparr>),
      (''ABSENT'', \<lambda>kept minutes f. f\<lparr>fAbsentCount := of_nat (length kept), fAbsentMinutes := minutes\<rparr>),
      (''MISSED_PUNCH'', \<lambda>kept minutes f. f\<lparr>fMissedPunchCount := of_nat (length kept)\<rparr>),
      (''OVERTIME'', \<lambda>kept minutes f. f\<lparr>fOvertimeShifts := of_nat (length kept), fOvertimeMinutes := minutes\<rparr>),
      (''NIGHT_SHIFT'', \<lambda>kept minutes f. f\<lparr>fNightShifts := of_nat (length kept), fNightMinutes := minutes\<rparr>),
      (''PUNCTUALITY'', \<lambda>kept minutes f. f\<lparr>fPunctualShifts := of_nat (length kept), fPunctualMinutes := minutes\<rparr>),
      (''ATTENDANCE'', \<lambda>kept minutes f. f\<lparr>fCompletedShifts := of_nat (length kept), fWorkedMinutes := minutes,
         fDaysWorked := day_count kept\<rparr>)]"

text \<open>The code whose occurrences a waiver removes; empty when the rule has none.\<close>

definition waived_code :: "payroll_rule \<Rightarrow> string" where
  "waived_code rule =
     (if automatic rule then (case ruCode rule of Some c \<Rightarrow> c | None \<Rightarrow> [])
      else if nonempty (ruCalcMode rule) = None \<and> \<not> js_truthy (ruCalcConfig rule)
      then (case ruRuleType rule of Some t \<Rightarrow> t | None \<Rightarrow> []) else [])"

definition not_waived :: "string list \<Rightarrow> rule_occurrence \<Rightarrow> bool" where
  "not_waived ids oc \<longleftrightarrow> (case nonempty (oAssignmentId oc) of None \<Rightarrow> True | Some a \<Rightarrow> a \<notin> set ids)"

definition left_with ::
  "(rule_occurrence list \<Rightarrow> rat \<Rightarrow> month_facts \<Rightarrow> month_facts) \<Rightarrow> string \<Rightarrow> rule_occurrence list \<Rightarrow> month_facts \<Rightarrow> month_facts" where
  "left_with recount code kept facts = (recount kept (sum_minutes kept) facts)\<lparr>
     fRuleOccurrences := map_set (fRuleOccurrences facts) code kept,
     fMonthAbsentCount := Some (monthAbsences facts),
     fMonthCompletedShifts := Some (case fMonthCompletedShifts facts of Some n \<Rightarrow> n | None \<Rightarrow> fCompletedShifts facts)\<rparr>"

definition applyPayrollWaivers :: "payroll_rule \<Rightarrow> month_facts \<Rightarrow> waiver_facts option \<Rightarrow> month_facts option" where
  "applyPayrollWaivers rule facts waivers =
     (case waivers of
        None \<Rightarrow> Some facts
      | Some w \<Rightarrow>
          let key = lineageOf rule in
          if key = [] then Some facts
          else if key \<in> set (wLines w) then None
          else
            let ids = map_get_or [] (wOccurrences w) key; code = waived_code rule; list = (if code = [] then [] else occs facts code) in
            if ids = [] then Some facts
            else case map_of RECOUNTED_FIELDS code of
                None \<Rightarrow> Some facts
              | Some recount \<Rightarrow>
                  if list = [] then Some facts
                  else
                    let kept = filter (not_waived ids) list in
                    if length kept = length list then Some facts
                    else Some (left_with recount code kept facts))"

section \<open>The lines of a payslip\<close>

definition MAX_LINE_OCCURRENCES :: nat where "MAX_LINE_OCCURRENCES = 62"

definition line_detail :: "rule_occurrence list \<Rightarrow> line_occurrence list" where
  "line_detail occurrences =
     map (\<lambda>oc. \<lparr> loDate = oDate oc, loMinutes = js_round (oMinutes oc), loQuantity = oQuantity oc,
            loAssignmentId = nonempty (oAssignmentId oc), loRecordId = nonempty (oRecordId oc) \<rparr>)
       (take MAX_LINE_OCCURRENCES (sort_key oDate occurrences))"

definition push :: "line_kind \<Rightarrow> payroll_rule \<Rightarrow> string \<Rightarrow> rat \<Rightarrow> rat \<Rightarrow> line_label option \<Rightarrow> rule_occurrence list \<Rightarrow> raw_rule_line list" where
  "push kind rule ruleType count exact label occurrences =
     (if exact = 0 then []
      else [\<lparr> lnKind = kind, lnRuleId = ruId rule, lnRuleType = ruleType,
         lnLabel = (case label of Some l \<Rightarrow> l
           | None \<Rightarrow> (case trimmed_name rule of Some s \<Rightarrow> L_name (Given s)
             | None \<Rightarrow> (case map_of ADJUSTMENT_LABELS ruleType of Some w \<Rightarrow> L_type w
               | None \<Rightarrow> L_name (if kind = BONUS_LINE then Thuong else Phat)))),
         lnCount = count, lnAmount = 0,
         lnOccurrences = (if occurrences = [] then None else Some (line_detail occurrences)),
         lnOccurrenceUnit = (if occurrences = [] then None else Some (occurrenceUnitOf rule)),
         lnExact = exact \<rparr>])"

definition countedFine :: "payroll_rule \<Rightarrow> rat \<Rightarrow> rat \<Rightarrow> rat" where
  "countedFine rule earnedBase count =
     (if count \<le> 0 then 0
      else let value = toFiniteNumber (ruValue rule) in
           case ruCalcType rule of
             AMOUNT \<Rightarrow> value * count
           | PERCENTAGE \<Rightarrow> earnedBase * value / 100 * count
           | SHIFT \<Rightarrow> 0)"

definition legacy_fine_lines :: "payroll_rule \<Rightarrow> month_facts \<Rightarrow> rat \<Rightarrow> raw_rule_line list" where
  "legacy_fine_lines rule facts earnedBase =
     (if ruRuleType rule = Some ''LATE''
      then push FINE_LINE rule ''LATE'' (fLateCount facts) (countedFine rule earnedBase (fLateCount facts)) None (occs facts ''LATE'')
      else []) @
     (if ruRuleType rule = Some ''EARLY''
      then push FINE_LINE rule ''EARLY'' (fEarlyCount facts) (countedFine rule earnedBase (fEarlyCount facts)) None (occs facts ''EARLY'')
      else []) @
     (if ruRuleType rule = Some ''ABSENT'' \<and> fAbsentCount facts > 0 \<and> ruCalcType rule = AMOUNT
      then push FINE_LINE rule ''ABSENT'' (fAbsentCount facts) (toFiniteNumber (ruValue rule) * fAbsentCount facts) None (occs facts ''ABSENT'')
      else [])"

definition legacy_bonus_lines :: "payroll_rule \<Rightarrow> month_facts \<Rightarrow> raw_rule_line list" where
  "legacy_bonus_lines rule facts =
     (if \<not> hasCompletedWork facts then []
      else
        (if ruRuleType rule = Some ''ATTENDANCE'' \<and> fLateCount facts = 0 \<and> fAbsentCount facts = 0
         then push BONUS_LINE rule ''ATTENDANCE'' 1 (toFiniteNumber (ruValue rule)) None [] else []) @
        (if nonempty (ruRuleType rule) = None \<or> ruRuleType rule = Some ''GENERAL''
         then push BONUS_LINE rule ''GENERAL'' 1 (toFiniteNumber (ruValue rule)) None [] else []))"

definition kind_of :: "payroll_rule \<Rightarrow> line_kind" where
  "kind_of rule = (if ruCategory rule = FINE then FINE_LINE else BONUS_LINE)"

text \<open>A v2 or v3 line carries its calculated label.\<close>

definition push_result :: "payroll_rule \<Rightarrow> month_facts \<Rightarrow> rule_result \<Rightarrow> raw_rule_line list" where
  "push_result rule facts line =
     push (kind_of rule) rule (code_of rule) (reCount line) (reExact line)
       (Some (L_calc (line_name rule) (reLabel line))) (lineOccurrences rule facts)"

text \<open>The body of the loop over the versions.\<close>

definition rule_lines :: "waiver_facts option \<Rightarrow> rat \<Rightarrow> payroll_rule \<times> month_facts \<Rightarrow> raw_rule_line list" where
  "rule_lines waivers earnedBase versioned =
     (let rule = fst versioned in
      if ruCategory rule = BENEFIT then []
      else case applyPayrollWaivers rule (snd versioned) waivers of
          None \<Rightarrow> []
        | Some facts \<Rightarrow>
            if js_truthy (ruCalcConfig rule) then
              (if kind_of rule = BONUS_LINE \<and> automatic rule \<and> \<not> hasCompletedWork facts then []
               else case v3RuleLine rule facts of None \<Rightarrow> [] | Some line \<Rightarrow> push_result rule facts line)
            else if nonempty (ruCalcMode rule) \<noteq> None then push_result rule facts (v2RuleLine rule facts)
            else if kind_of rule = FINE_LINE then legacy_fine_lines rule facts earnedBase
            else legacy_bonus_lines rule facts)"

definition stage_lines :: "month_facts \<Rightarrow> raw_rule_line list" where
  "stage_lines facts =
     (case fStageCompletion facts of
        Some (count, amount) \<Rightarrow>
          if count > 0 \<and> count * amount > 0
          then [\<lparr> lnKind = BONUS_LINE, lnRuleId = None, lnRuleType = ''STAGE_COMPLETION'', lnLabel = L_stage, lnCount = count,
             lnAmount = 0, lnOccurrences = None, lnOccurrenceUnit = None, lnExact = count * amount \<rparr>]
          else []
      | None \<Rightarrow> [])"

definition ruleRawLines :: "payroll_rule list \<Rightarrow> month_facts \<Rightarrow> rat \<Rightarrow> raw_rule_line list" where
  "ruleRawLines rules facts earnedBase =
     concat (map (rule_lines (fWaivers facts) earnedBase) (versionedRuleInputs rules facts)) @ stage_lines facts"

definition add_line :: "rat \<times> rat \<Rightarrow> raw_rule_line \<Rightarrow> rat \<times> rat" where
  "add_line acc line = (if lnKind line = BONUS_LINE then (fst acc + lnExact line, snd acc) else (fst acc, snd acc + lnExact line))"

definition computeRuleAdjustments :: "payroll_rule list \<Rightarrow> month_facts \<Rightarrow> rat \<Rightarrow> rat \<times> rat" where
  "computeRuleAdjustments rules facts earnedBase =
     (case foldl add_line (0, 0) (ruleRawLines rules facts earnedBase) of
        (bonus, penalty) \<Rightarrow> (js_round bonus, js_round penalty))"

definition larger_line :: "nat \<times> raw_rule_line \<Rightarrow> nat \<times> raw_rule_line \<Rightarrow> bool" where
  "larger_line b a \<longleftrightarrow> \<bar>lnExact (snd b)\<bar> > \<bar>lnExact (snd a)\<bar>"

text \<open>The lines of one kind are rounded; the difference from the total goes to the largest of them.\<close>

definition reconcile :: "line_kind \<Rightarrow> rat \<Rightarrow> raw_rule_line list \<Rightarrow> raw_rule_line list" where
  "reconcile kind target raw =
     (let numbered = enumerate 0 raw;
          lines = filter (\<lambda>p. lnKind (snd p) = kind) numbered;
          diff = target - sum_list (map (\<lambda>p. js_round (lnExact (snd p))) lines);
          largest = map_option fst (keep_best larger_line lines)
      in map (\<lambda>(i, line). if lnKind line = kind
            then line\<lparr>lnAmount := js_round (lnExact line) + (if diff \<noteq> 0 \<and> largest = Some i then diff else 0)\<rparr>
            else line) numbered)"

definition computeRuleAdjustmentBreakdown :: "payroll_rule list \<Rightarrow> month_facts \<Rightarrow> rat \<Rightarrow> adjustment_line list" where
  "computeRuleAdjustmentBreakdown rules facts earnedBase =
     (let raw = ruleRawLines rules facts earnedBase; totals = computeRuleAdjustments rules facts earnedBase
      in map adjustment_line.truncate
           (filter (\<lambda>line. lnAmount line \<noteq> 0)
             (reconcile FINE_LINE (snd totals) (reconcile BONUS_LINE (fst totals) raw))))"

section \<open>The lines add up to the totals\<close>

abbreviation lines_of :: "line_kind \<Rightarrow> ('a adjustment_line_scheme) list \<Rightarrow> ('a adjustment_line_scheme) list" where
  "lines_of kind \<equiv> filter (\<lambda>line. lnKind line = kind)"

definition exact_total :: "line_kind \<Rightarrow> raw_rule_line list \<Rightarrow> rat" where
  "exact_total kind raw = sum_list (map lnExact (lines_of kind raw))"

lemma exact_total_append [simp]: "exact_total k (xs @ ys) = exact_total k xs + exact_total k ys"
  by (simp add: exact_total_def)

lemma exact_total_Nil [simp]: "exact_total k [] = 0"
  by (simp add: exact_total_def)

lemma other_kind: "k \<noteq> BONUS_LINE \<longleftrightarrow> k = FINE_LINE"
  by (cases k) auto

lemma fold_add_line:
  "foldl add_line (b, p) raw = (b + exact_total BONUS_LINE raw, p + exact_total FINE_LINE raw)"
  by (induction raw arbitrary: b p) (auto simp: add_line_def exact_total_def other_kind)

lemma adjustments_are_totals:
  "computeRuleAdjustments rules f e =
     (js_round (exact_total BONUS_LINE (ruleRawLines rules f e)), js_round (exact_total FINE_LINE (ruleRawLines rules f e)))"
  by (simp add: computeRuleAdjustments_def fold_add_line)

interpretation largest: selection larger_line "\<lambda>a b. \<bar>lnExact (snd a)\<bar> \<le> \<bar>lnExact (snd b)\<bar>"
  by unfold_locales (auto simp: larger_line_def)

lemma sum_one_place:
  fixes d :: rat
  shows "distinct ks \<Longrightarrow> sum_list (map (\<lambda>k. if j = k then d else 0) ks) = (if j \<in> set ks then d else 0)"
  by (induction ks) auto

lemma reconcile_keeps:
  "map lnKind (reconcile k t raw) = map lnKind raw" "map lnExact (reconcile k t raw) = map lnExact raw"
  "k' \<noteq> k \<Longrightarrow> lines_of k' (reconcile k t raw) = lines_of k' raw"
proof -
  let ?g = "\<lambda>d j (i :: nat, line). if lnKind line = k then line\<lparr>lnAmount := js_round (lnExact line) + (if d \<noteq> 0 \<and> j = Some i then d else 0)\<rparr> else line"
  have a: "map lnKind (map (?g d j) (enumerate n raw)) = map lnKind raw" for d j n
    by (induction raw arbitrary: n) auto
  have b: "map lnExact (map (?g d j) (enumerate n raw)) = map lnExact raw" for d j n
    by (induction raw arbitrary: n) auto
  have c: "k' \<noteq> k \<Longrightarrow> lines_of k' (map (?g d j) (enumerate n raw)) = lines_of k' raw" for d j n
    by (induction raw arbitrary: n) auto
  show "map lnKind (reconcile k t raw) = map lnKind raw" unfolding reconcile_def Let_def by (rule a)
  show "map lnExact (reconcile k t raw) = map lnExact raw" unfolding reconcile_def Let_def by (rule b)
  show "lines_of k' (reconcile k t raw) = lines_of k' raw" if "k' \<noteq> k" using c [OF that] unfolding reconcile_def Let_def .
qed

lemma reconcile_hits_target:
  assumes "lines_of k raw \<noteq> []"
  shows "sum_list (map lnAmount (lines_of k (reconcile k t raw))) = t"
proof -
  define ls where "ls = filter (\<lambda>p. lnKind (snd p) = k) (enumerate 0 raw)"
  define d where "d = t - sum_list (map (\<lambda>p. js_round (lnExact (snd p))) ls)"
  have "map snd (filter (\<lambda>p. lnKind (snd p) = k) (enumerate n raw)) = lines_of k raw" for n
    by (induction raw arbitrary: n) auto
  then have "map snd ls = lines_of k raw" by (simp add: ls_def)
  then have "ls \<noteq> []" using assms by auto
  then obtain b where b: "keep_best larger_line ls = Some b" by (cases "keep_best larger_line ls") auto
  let ?g = "\<lambda>(i :: nat, line). if lnKind line = k then line\<lparr>lnAmount := js_round (lnExact line) + (if d \<noteq> 0 \<and> Some (fst b) = Some i then d else 0)\<rparr> else line"
  have "lines_of k (reconcile k t raw) = lines_of k (map ?g (enumerate 0 raw))"
    unfolding reconcile_def Let_def ls_def [symmetric] d_def [symmetric] b option.map ..
  also have "map lnAmount (lines_of k (map ?g (enumerate n raw))) =
      map (\<lambda>p. js_round (lnExact (snd p)) + (if fst b = fst p then d else 0)) (filter (\<lambda>p. lnKind (snd p) = k) (enumerate n raw))" for n
    by (induction raw arbitrary: n) auto
  finally have "sum_list (map lnAmount (lines_of k (reconcile k t raw))) =
      sum_list (map (\<lambda>p. js_round (lnExact (snd p))) ls) + sum_list (map (\<lambda>i. if fst b = i then d else 0) (map fst ls))"
    by (simp add: ls_def sum_list_addf comp_def)
  moreover have "distinct (map fst ls)"
    unfolding ls_def by (rule distinct_map_filter) simp
  moreover have "fst b \<in> set (map fst ls)" using keep_best_in [OF b] by auto
  ultimately show ?thesis by (simp add: sum_one_place d_def del: map_map)
qed

lemma shown_amounts:
  "sum_list (map lnAmount (lines_of k (map adjustment_line.truncate (filter (\<lambda>l. lnAmount l \<noteq> 0) raw)))) =
     sum_list (map lnAmount (lines_of k raw))"
  by (induction raw) (auto simp: adjustment_line.defs)

lemma reconciled_total:
  "sum_list (map lnAmount (lines_of k (reconcile k (js_round (exact_total k raw)) raw))) = js_round (exact_total k raw)"
proof (cases "lines_of k raw = []")
  case True
  have "map lnKind (reconcile k t raw) = map lnKind raw" for t by (rule reconcile_keeps)
  then have "lines_of k (reconcile k t raw) = []" for t
    using True unfolding filter_empty_conv by (metis (mono_tags, lifting) imageE image_eqI image_set)
  then show ?thesis using True by (simp add: exact_total_def)
qed (simp add: reconcile_hits_target)

text \<open>
  C2. The lines shown on a payslip add up exactly, in whole VND, to the bonus and the penalty it pays,
  whatever the rules, versions, waivers and roundings behind them.
\<close>

theorem breakdown_adds_up:
  "sum_list (map lnAmount (lines_of BONUS_LINE (computeRuleAdjustmentBreakdown rules facts earnedBase))) =
     fst (computeRuleAdjustments rules facts earnedBase) \<and>
   sum_list (map lnAmount (lines_of FINE_LINE (computeRuleAdjustmentBreakdown rules facts earnedBase))) =
     snd (computeRuleAdjustments rules facts earnedBase)"
proof -
  define raw where "raw = ruleRawLines rules facts earnedBase"
  define r1 where "r1 = reconcile BONUS_LINE (js_round (exact_total BONUS_LINE raw)) raw"
  define r2 where "r2 = reconcile FINE_LINE (js_round (exact_total FINE_LINE raw)) r1"
  have "map lnKind r1 = map lnKind raw" "map lnExact r1 = map lnExact raw"
    by (simp_all only: r1_def reconcile_keeps)
  then have e: "exact_total k r1 = exact_total k raw" for k
  proof (induction r1 arbitrary: raw)
    case (Cons a xs)
    then obtain b ys where "raw = b # ys" "map lnKind xs = map lnKind ys" "map lnExact xs = map lnExact ys"
      "lnKind a = lnKind b" "lnExact a = lnExact b" by (cases raw) auto
    then show ?case using Cons.IH [of ys] by (simp add: exact_total_def)
  qed simp
  have "lines_of BONUS_LINE r2 = lines_of BONUS_LINE r1" unfolding r2_def by (rule reconcile_keeps) simp
  then have "sum_list (map lnAmount (lines_of BONUS_LINE r2)) = js_round (exact_total BONUS_LINE raw)"
    by (simp add: r1_def reconciled_total)
  moreover have "sum_list (map lnAmount (lines_of FINE_LINE r2)) = js_round (exact_total FINE_LINE raw)"
    using reconciled_total [of FINE_LINE r1] by (simp add: r2_def e)
  ultimately show ?thesis
    unfolding computeRuleAdjustmentBreakdown_def adjustments_are_totals Let_def raw_def [symmetric] fst_conv snd_conv
      r1_def [symmetric] r2_def [symmetric] shown_amounts by simp
qed

text \<open>Five half-VND bonuses are worth 3 VND, but each rounds to 1: the largest line absorbs -2.\<close>

definition half_bonus :: payroll_rule where
  "half_bonus = \<lparr> ruCategory = BONUS, ruRuleType = Some ''GENERAL'', ruCalcType = AMOUNT, ruValue = JNum (Fin (1 / 2)),
     ruId = Some ''b'', ruName = Some ''Half'', ruCode = None, ruCalcMode = None, ruThreshold = JNull, ruCalcConfig = JNull,
     ruLineageId = None, ruValidFrom = V_none, ruValidTo = V_none \<rparr>"

text \<open>
  A displayed line is not always positive, although its type documents a positive amount: rounding
  five bonuses of half a VND shows one line of -1.
\<close>

theorem breakdown_line_can_be_negative:
  "map lnAmount (computeRuleAdjustmentBreakdown (replicate 5 half_bonus) (no_facts\<lparr>fCompletedShifts := 1\<rparr>) 0) = [-1, 1, 1, 1, 1]"
  by code_simp

section \<open>What the owner waived\<close>

definition waived_ids :: "payroll_rule \<Rightarrow> waiver_facts option \<Rightarrow> string list" where
  "waived_ids rule waivers = (case waivers of None \<Rightarrow> []
     | Some w \<Rightarrow> if lineageOf rule = [] then [] else map_get_or [] (wOccurrences w) (lineageOf rule))"

definition waived_line :: "payroll_rule \<Rightarrow> waiver_facts option \<Rightarrow> bool" where
  "waived_line rule waivers \<longleftrightarrow> (case waivers of None \<Rightarrow> False
     | Some w \<Rightarrow> lineageOf rule \<noteq> [] \<and> lineageOf rule \<in> set (wLines w))"

lemma not_waived_none [simp]: "not_waived [] = (\<lambda>oc. True)"
  by (auto simp: not_waived_def fun_eq_iff split: option.split)

lemma waivers_None_iff: "applyPayrollWaivers rule f w = None \<longleftrightarrow> waived_line rule w"
  by (auto simp: applyPayrollWaivers_def waived_line_def Let_def split: option.splits)

lemma length_filter_same: "length (filter P xs) = length xs \<longleftrightarrow> filter P xs = xs"
  by (metis filter_id_conv length_filter_less nless_le)

lemma recount_frame:
  assumes "map_of RECOUNTED_FIELDS code = Some recount"
  shows "fRuleOccurrences (recount kept m f) = fRuleOccurrences f" "fRecordOccurrences (recount kept m f) = fRecordOccurrences f"
    "fRuleQuantities (recount kept m f) = fRuleQuantities f" "fPayRates (recount kept m f) = fPayRates f"
    "fDayPay (recount kept m f) = fDayPay f" "fRevenue (recount kept m f) = fRevenue f"
    "fMonthComplete (recount kept m f) = fMonthComplete f"
  using assms by (auto simp: RECOUNTED_FIELDS_def split: if_splits)

text \<open>Either nothing changes, or one code keeps the occurrences that were not waived.\<close>

lemma waivers_cases:
  assumes "applyPayrollWaivers rule f w = Some g"
  obtains (same) "g = f"
      "map_of RECOUNTED_FIELDS (waived_code rule) = None \<or>
       filter (not_waived (waived_ids rule w)) (occs f (waived_code rule)) = occs f (waived_code rule)"
    | (less) recount where "map_of RECOUNTED_FIELDS (waived_code rule) = Some recount"
      "g = left_with recount (waived_code rule) (filter (not_waived (waived_ids rule w)) (occs f (waived_code rule))) f"
proof (cases "waived_ids rule w = [] \<or> map_of RECOUNTED_FIELDS (waived_code rule) = None")
  case True
  then have "g = f" using assms
    by (auto simp: applyPayrollWaivers_def waived_ids_def Let_def split: option.splits if_splits)
  then show ?thesis using True same by auto
next
  case False
  then obtain wf recount where w: "w = Some wf" and k: "lineageOf rule \<noteq> []"
    and ids: "waived_ids rule w = map_get_or [] (wOccurrences wf) (lineageOf rule)"
    and rc: "map_of RECOUNTED_FIELDS (waived_code rule) = Some recount"
    by (auto simp: waived_ids_def split: option.splits if_splits)
  have c: "waived_code rule \<noteq> []" using rc by (auto simp: RECOUNTED_FIELDS_def)
  let ?kept = "filter (not_waived (waived_ids rule w)) (occs f (waived_code rule))"
  have nl: "lineageOf rule \<notin> set (wLines wf)" using assms k by (auto simp: applyPayrollWaivers_def w Let_def)
  have "Some g = (if occs f (waived_code rule) = [] then Some f
      else if length ?kept = length (occs f (waived_code rule)) then Some f else Some (left_with recount (waived_code rule) ?kept f))"
    using assms False k nl rc c unfolding ids unfolding applyPayrollWaivers_def w Let_def option.case by (simp cong: if_cong)
  then show ?thesis using same less [OF rc] by (auto simp: length_filter_same split: if_splits)
qed

text \<open>The facts a rule is priced on after the waivers.\<close>

lemma waivers_occurrences:
  assumes "applyPayrollWaivers rule f w = Some g" "map_of RECOUNTED_FIELDS (waived_code rule) \<noteq> None"
  shows "occs g code = (if code = waived_code rule then filter (not_waived (waived_ids rule w)) (occs f code) else occs f code)"
  using assms(1)
proof (cases rule: waivers_cases)
  case same
  then show ?thesis using assms(2) by auto
qed (auto simp: occs_def map_get_or_def left_with_def)

lemma waivers_frame:
  assumes "applyPayrollWaivers rule f w = Some g"
  shows "rates_of g = rates_of f" "monthAbsences g = monthAbsences f" "hasCompletedWork g = hasCompletedWork f"
    "fMonthComplete g = fMonthComplete f" "fRecordOccurrences g = fRecordOccurrences f"
  using assms
  by (cases rule: waivers_cases; use recount_frame in
      \<open>simp add: left_with_def rates_of_def rate_hourly_def monthAbsences_def hasCompletedWork_def\<close>)+

lemma left_with_recounted:
  assumes "recounted f" "map_of RECOUNTED_FIELDS code = Some recount"
  shows "recounted (left_with recount code kept f)"
proof -
  note defs = recounted_def left_with_def times_of_def minutes_of_def occs_def map_get_or_def sum_minutes_def
  have "(code, recount) \<in> set RECOUNTED_FIELDS" using assms(2) by (rule map_of_SomeD)
  then show ?thesis
    using assms(1) unfolding RECOUNTED_FIELDS_def list.set insert_iff empty_iff prod.inject
    by - (elim disjE conjE FalseE; hypsubst; simp add: defs)
qed

text \<open>
  Waiving occurrences of a rule removes exactly those occurrences from the code it is measured on:
  the counts and minutes are recounted from what is left, other codes and the manual records are
  untouched, and the month-level conditions (absences, work done) do not change.
\<close>

theorem waiving_removes_only_the_waived:
  assumes "applyPayrollWaivers rule facts waivers = Some left" "recounted facts"
    "map_of RECOUNTED_FIELDS (waived_code rule) \<noteq> None"
  shows "recounted left \<and>
    occs left (waived_code rule) = filter (not_waived (waived_ids rule waivers)) (occs facts (waived_code rule)) \<and>
    (\<forall>code. code \<noteq> waived_code rule \<longrightarrow> occs left code = occs facts code) \<and>
    fRecordOccurrences left = fRecordOccurrences facts \<and>
    monthAbsences left = monthAbsences facts \<and> hasCompletedWork left = hasCompletedWork facts"
proof -
  have "recounted left"
    using assms(1)
  proof (cases rule: waivers_cases)
    case (less recount)
    then show ?thesis using left_with_recounted [OF assms(2)] by simp
  qed (use assms(2) in simp)
  then show ?thesis using waivers_occurrences [OF assms(1,3)] waivers_frame [OF assms(1)] by simp
qed

definition late_fine :: payroll_rule where
  "late_fine = half_bonus\<lparr>ruCategory := FINE, ruRuleType := Some ''LATE'', ruId := Some ''late'', ruValue := JNum (Fin 20000)\<rparr>"

definition late_on :: "string \<Rightarrow> string \<Rightarrow> rat \<Rightarrow> rule_occurrence" where
  "late_on a d m = \<lparr> oDate = d, oMinutes = m, oQuantity = 1, oShiftMinutes = None, oAssignmentId = Some a, oRecordId = None \<rparr>"

definition two_late :: month_facts where
  "two_late = no_facts\<lparr>fCompletedShifts := 2, fLateCount := 2, fTotalLateMinutes := 19,
     fRuleOccurrences := [(''LATE'', [late_on ''a1'' ''2026-10-03'' 7, late_on ''a2'' ''2026-10-20'' 12])]\<rparr>"

theorem waiving_removes_only_the_waived_witness:
  "\<exists>left. applyPayrollWaivers late_fine two_late (Some \<lparr> wOccurrences = [(''late'', [''a1''])], wLines = [] \<rparr>) = Some left \<and>
     fLateCount left = 1 \<and> fTotalLateMinutes left = 12"
proof -
  let ?w = "Some \<lparr> wOccurrences = [(''late'', [''a1''])], wLines = [] \<rparr>"
  obtain left where l: "applyPayrollWaivers late_fine two_late ?w = Some left"
    using waivers_None_iff [of late_fine two_late ?w]
    by (cases "applyPayrollWaivers late_fine two_late ?w") (auto simp: waived_line_def)
  have r: "recounted two_late" "map_of RECOUNTED_FIELDS (waived_code late_fine) \<noteq> None" "waived_code late_fine = ''LATE''"
    "filter (not_waived (waived_ids late_fine ?w)) (occs two_late ''LATE'') = [late_on ''a2'' ''2026-10-20'' 12]"
    by (code_simp, simp add: RECOUNTED_FIELDS_def waived_code_def late_fine_def half_bonus_def automatic_def nonempty_def,
        code_simp, code_simp)
  from waiving_removes_only_the_waived [OF l r(1,2)] have "recounted left" "occs left ''LATE'' = [late_on ''a2'' ''2026-10-20'' 12]"
    by (simp_all only: r(3,4))
  then show ?thesis using l by (simp add: recounted_def times_of_def minutes_of_def late_on_def)
qed

section \<open>A month without work\<close>

lemma factsWithin_month:
  "monthAbsences (factsWithin f a b i ids c) = monthAbsences f" "hasCompletedWork (factsWithin f a b i ids c) = hasCompletedWork f"
  "rates_of (factsWithin f a b i ids c) = rates_of f"
  by (simp_all add: factsWithin_def Let_def monthAbsences_def hasCompletedWork_def rates_of_def rate_hourly_def split: option.split)

lemma lineage_records_month:
  "monthAbsences (withLineageRecords f r ids) = monthAbsences f" "hasCompletedWork (withLineageRecords f r ids) = hasCompletedWork f"
  "rates_of (withLineageRecords f r ids) = rates_of f" "occs (withLineageRecords f r ids) code = occs f code"
  by (simp_all add: withLineageRecords_def Let_def monthAbsences_def hasCompletedWork_def rates_of_def rate_hourly_def
      occs_def split: option.split)

definition same_month :: "month_facts \<Rightarrow> month_facts \<Rightarrow> bool" where
  "same_month f g \<longleftrightarrow> hasCompletedWork g = hasCompletedWork f \<and> monthAbsences g = monthAbsences f \<and> rates_of g = rates_of f"

lemma same_month_facts: "same_month f f" "same_month f (withLineageRecords f r ids)" "same_month f (factsWithin f a b i ids c)"
  by (simp_all add: same_month_def factsWithin_month lineage_records_month)

lemma version_input_month:
  "list_all (\<lambda>v. fst v = snd r \<and> same_month f (snd v)) (version_input lineages earliest f r)"
proof -
  have i: "list_all P xs \<Longrightarrow> list_all P ys \<Longrightarrow> list_all P (if b then xs else ys)"
    and o: "(\<And>x y. list_all P (h x y)) \<Longrightarrow> list_all P xs \<Longrightarrow>
      list_all P (case (a, c) of (Some x, Some y) \<Rightarrow> h x y | _ \<Rightarrow> xs)"
    for P :: "payroll_rule \<times> month_facts \<Rightarrow> bool" and xs ys b h and a c :: "string option"
    by (auto split: option.split)
  show ?thesis
    unfolding version_input_def Let_def
    by (intro i o; simp only: list.pred_inject fst_conv snd_conv same_month_facts simp_thms)
qed

lemma versioned_from_rules:
  assumes "(rule, g) \<in> set (versionedRuleInputs rules f)"
  shows "rule \<in> set rules" "hasCompletedWork g = hasCompletedWork f"
proof -
  from assms obtain r lineages earliest where "r \<in> set (enumerate 0 rules)" "(rule, g) \<in> set (version_input lineages earliest f r)"
    by (auto simp: versionedRuleInputs_def Let_def)
  then show "rule \<in> set rules" "hasCompletedWork g = hasCompletedWork f"
    using version_input_month [of r f lineages earliest] nth_mem [of "fst r" rules]
    by (auto simp: list_all_iff in_set_enumerate_eq same_month_def)
qed

lemma push_line: "line \<in> set (push k rule t c x l os) \<Longrightarrow> lnKind line = k \<and> lnRuleId line = ruId rule"
  by (auto simp: push_def split: if_splits)

lemma rule_lines_bonus:
  assumes "line \<in> set (rule_lines w e (rule, g))" "lnKind line = BONUS_LINE" "\<not> hasCompletedWork g"
  shows "ruCategory rule = BONUS \<and> lnRuleId line = ruId rule \<and>
    (js_truthy (ruCalcConfig rule) \<and> \<not> automatic rule \<or>
     \<not> js_truthy (ruCalcConfig rule) \<and> nonempty (ruCalcMode rule) \<noteq> None)"
proof -
  obtain h where h: "applyPayrollWaivers rule g w = Some h"
    using assms(1) by (cases "applyPayrollWaivers rule g w") (auto simp: rule_lines_def Let_def split: if_splits)
  have work: "\<not> hasCompletedWork h" using assms(3) waivers_frame(3) [OF h] by simp
  have cat: "ruCategory rule \<noteq> BENEFIT" using assms(1) by (auto simp: rule_lines_def)
  have k: "lnKind line = BONUS_LINE \<Longrightarrow> line \<in> set (push_result rule h x) \<Longrightarrow> ruCategory rule = BONUS \<and> lnRuleId line = ruId rule" for x
    using cat by (cases "ruCategory rule") (auto simp: push_result_def kind_of_def dest!: push_line)
  have nl: "line \<notin> set (legacy_fine_lines rule h e)" "legacy_bonus_lines rule h = []"
    using assms(2) work by (auto simp: legacy_fine_lines_def legacy_bonus_lines_def dest!: push_line split: if_splits)
  show ?thesis
    using assms(1,2) cat work nl k by (auto simp: rule_lines_def Let_def h kind_of_def split: if_splits option.splits)
qed

text \<open>
  A month in which the employee completed no shift pays no automatic bonus: every bonus line is
  then the stage bonus, a bonus the owner recorded by hand, or a v2 rule.
\<close>

theorem no_work_no_automatic_bonus:
  assumes "\<not> hasCompletedWork facts" "line \<in> set (ruleRawLines rules facts earnedBase)" "lnKind line = BONUS_LINE"
  shows "line \<in> set (stage_lines facts) \<or>
    (\<exists>rule \<in> set rules. ruCategory rule = BONUS \<and> lnRuleId line = ruId rule \<and>
       (js_truthy (ruCalcConfig rule) \<and> \<not> automatic rule \<or>
        \<not> js_truthy (ruCalcConfig rule) \<and> nonempty (ruCalcMode rule) \<noteq> None))"
proof (cases "line \<in> set (stage_lines facts)")
  case False
  then obtain rule g where v: "(rule, g) \<in> set (versionedRuleInputs rules facts)"
    and l: "line \<in> set (rule_lines (fWaivers facts) earnedBase (rule, g))"
    using assms(2) by (auto simp: ruleRawLines_def)
  show ?thesis
    using rule_lines_bonus [OF l assms(3)] versioned_from_rules [OF v] assms(1) by blast
qed simp

theorem no_work_no_automatic_bonus_witness:
  "fst (computeRuleAdjustments (replicate 5 half_bonus) no_facts 0) = 0"
proof -
  have "line \<notin> set (ruleRawLines (replicate 5 half_bonus) no_facts 0)" if "lnKind line = BONUS_LINE" for line
    using no_work_no_automatic_bonus [OF _ _ that, of no_facts "replicate 5 half_bonus" 0]
    by (auto simp: hasCompletedWork_def no_facts_def stage_lines_def half_bonus_def nonempty_def)
  then have "lines_of BONUS_LINE (ruleRawLines (replicate 5 half_bonus) no_facts 0) = []"
    by (auto simp: filter_empty_conv)
  then show ?thesis by (simp add: adjustments_are_totals exact_total_def)
qed

section \<open>Which rules are priced once a month\<close>

lemma normalized_kind:
  assumes "normalizeRuleCalcConfig r = Inr c"
  obtains a where "js_is_object r" "map_of KINDS (config_text r ''kind'' []) = Some (cKind c)" "kind_fields r (cKind c) = Inr a"
    "cBase c = cBase a" "cUnit c = cUnit a"
proof -
  obtain kind a b where k: "map_of KINDS (config_text r ''kind'' []) = Some kind" "kind_fields r kind = Inr a"
    "with_grace r a = Inr b" "c = finish_config r b" and j: "js_is_object r"
    using assms unfolding normalizeRuleCalcConfig_def if_Inr_iff case_option_Inr_iff and_then_Inr_iff config_text_def
    by (elim disjE conjE exE) simp_all
  have "cKind a = kind" using kind_fields_ok [OF k(2)] by simp
  moreover have "cKind b = cKind a" "cBase b = cBase a" "cUnit b = cUnit a"
    using k(3) unfolding with_grace_def result_iffs by auto
  moreover have "cKind c = cKind b" "cBase c = cBase b" "cUnit c = cUnit b"
    by (simp_all add: k(4) finish_config_def Let_def)
  ultimately show thesis using that [of a] k(1,2) j by simp
qed

lemma object_truthy: "js_is_object r \<Longrightarrow> js_truthy r"
  by (cases r) auto

lemma kind_of_name:
  "map_of KINDS s = Some FIXED \<longleftrightarrow> s = ''FIXED''" "map_of KINDS s = Some UNIT_PRICE \<longleftrightarrow> s = ''UNIT_PRICE''"
  "map_of KINDS s = Some SALARY_COEF \<longleftrightarrow> s = ''SALARY_COEF''" "map_of KINDS s = Some PERCENT \<longleftrightarrow> s = ''PERCENT''"
  "map_of KINDS s = Some SALARY_BLOCK \<longleftrightarrow> s = ''SALARY_BLOCK''" "map_of KINDS s = Some PROGRESSIVE \<longleftrightarrow> s = ''PROGRESSIVE''"
  "map_of KINDS s = Some TIERED \<longleftrightarrow> s = ''TIERED''" "map_of KINDS s = Some MILESTONE \<longleftrightarrow> s = ''MILESTONE''"
  by (simp_all add: KINDS_def)

lemma percent_base:
  assumes "kind_fields r PERCENT = Inr a"
  shows "cBase a = Some B_MONTHLY \<longleftrightarrow> config_text r ''base'' [] = ''MONTHLY''"
    "cBase a = Some B_REVENUE \<longleftrightarrow> config_text r ''base'' [] = ''REVENUE''"
proof -
  obtain b where "map_of RULE_BASES (config_text r ''base'' []) = Some b" "cBase a = Some b"
    using assms by (auto simp: kind_fields_def Let_def and_then_Inr_iff base_in_def config_text_def split: option.splits if_splits)
  then show "cBase a = Some B_MONTHLY \<longleftrightarrow> config_text r ''base'' [] = ''MONTHLY''"
    "cBase a = Some B_REVENUE \<longleftrightarrow> config_text r ''base'' [] = ''REVENUE''"
    by (auto simp: RULE_BASES_def split: if_splits)
qed

lemma progressive_unit:
  assumes "kind_fields r PROGRESSIVE = Inr a"
  shows "unit_or U_MINUTE a \<in> {U_MINUTE, U_HOUR} \<longleftrightarrow>
    config_text r ''unit'' ''MINUTE'' = ''MINUTE'' \<or> config_text r ''unit'' ''MINUTE'' = ''HOUR''"
proof -
  obtain u where u: "optionalUnit r U_MINUTE = Inr u" "cUnit a = u"
    using assms by (auto simp: kind_fields_def Let_def and_then_Inr_iff)
  then have "map_of UNITS (config_text r ''unit'' ''MINUTE'') = u"
    by (auto simp: optionalUnit_def Let_def config_text_def js_or_null_def UNITS_def split: option.splits if_splits)
  moreover have "u \<noteq> None" using u(1) by (rule optionalUnit_Inr)
  ultimately have "map_of UNITS (config_text r ''unit'' ''MINUTE'') = u" "u \<noteq> None" .
  then show ?thesis using u(2) by (auto simp: unit_or_def UNITS_def split: if_splits)
qed

lemma period_level_iff:
  assumes "normalizeRuleCalcConfig (ruCalcConfig rule) = Inr config"
  shows "isPeriodLevelRule rule \<longleftrightarrow> \<not> per_occurrence (code_of rule) config"
proof -
  obtain a where n: "js_is_object (ruCalcConfig rule)" "map_of KINDS (config_text (ruCalcConfig rule) ''kind'' []) = Some (cKind config)"
    "kind_fields (ruCalcConfig rule) (cKind config) = Inr a" "cBase config = cBase a" "cUnit config = cUnit a"
    by (rule normalized_kind [OF assms])
  note t = object_truthy [OF n(1)]
  note defs = isPeriodLevelRule_def per_occurrence_def Let_def t minuteBased_def
  show ?thesis
  proof (cases "cKind config")
    case PERCENT
    then show ?thesis using n(2) percent_base [of "ruCalcConfig rule" a] n(3,4) by (simp add: defs kind_of_name)
  next
    case PROGRESSIVE
    then show ?thesis using n(2) progressive_unit [of "ruCalcConfig rule" a] n(3,5)
      by (simp add: defs kind_of_name unit_or_def)
  qed (use n(2) in \<open>simp_all add: defs kind_of_name\<close>)
qed

text \<open>
  The classification the version code reads off a stored setting agrees with how the setting is
  priced: an accepted setting is treated as a whole-month rule exactly when it is not priced occurrence
  by occurrence.
\<close>

theorem period_level_iff_not_per_occurrence:
  assumes "normalizeRuleCalcConfig (ruCalcConfig rule) = Inr config"
  shows "isPeriodLevelRule rule \<longleftrightarrow> \<not> per_occurrence (code_of rule) config"
  using assms by (rule period_level_iff)

definition fixed_config :: jsval where
  "fixed_config = JObj [(''kind'', JStr ''FIXED''), (''amount'', JNum (Fin 20000)), (''unit'', JStr ''DAY'')]"

definition fixed_late :: payroll_rule where
  "fixed_late = late_fine\<lparr>ruCode := Some ''LATE'', ruCalcConfig := fixed_config, ruLineageId := Some ''late''\<rparr>"

lemma fixed_config_read:
  "normalizeRuleCalcConfig fixed_config = Inr (empty_config FIXED\<lparr>cAmount := Some 20000, cUnit := Some U_DAY\<rparr>)"
  by code_simp

lemma fixed_late_read:
  "normalizeRuleCalcConfig (ruCalcConfig fixed_late) = Inr (empty_config FIXED\<lparr>cAmount := Some 20000, cUnit := Some U_DAY\<rparr>)"
  using fixed_config_read by (simp add: fixed_late_def)

theorem period_level_iff_not_per_occurrence_witness: "\<not> isPeriodLevelRule fixed_late"
  using period_level_iff_not_per_occurrence [OF fixed_late_read] by (simp add: per_occurrence_def empty_config_def)

section \<open>Versions price the month once\<close>

lemma map_of_map_snd: "map_of (map (\<lambda>(k, v). (k, h v)) m) k = map_option h (map_of m k)"
  by (induction m) auto

lemma occs_factsWithin: "occs (factsWithin f a b i ids c) code = filter (inside a b) (occs f code)"
  by (simp add: occs_def factsWithin_def Let_def map_get_or_def map_of_map_snd split: option.split)

lemma evaluate_monthly_unused:
  "cKind c \<noteq> MILESTONE \<Longrightarrow> evaluateRuleConfig code c xs r m = evaluateRuleConfig code c xs r m'"
  by (cases "cKind c") (simp_all add: evaluateRuleConfig_def Let_def)

lemma automatic_code:
  assumes "automatic rule"
  shows "ruCode rule = Some (code_of rule)" "code_of rule \<in> set AUTO_RULE_CODES" "waived_code rule = code_of rule"
    "map_of RECOUNTED_FIELDS (code_of rule) \<noteq> None"
proof -
  obtain c where c: "ruCode rule = Some c" "c \<in> set AUTO_RULE_CODES" using assms by (auto simp: automatic_def split: option.splits)
  then have "c \<noteq> []" by (auto simp: AUTO_RULE_CODES_def)
  then have code: "code_of rule = c" by (simp add: code_of_def text_or_def nonempty_def c(1))
  show "ruCode rule = Some (code_of rule)" "code_of rule \<in> set AUTO_RULE_CODES" using c by (simp_all add: code)
  show "waived_code rule = code_of rule" using c assms by (simp add: waived_code_def code)
  have "c \<in> fst ` set RECOUNTED_FIELDS" using c(2) by (auto simp: AUTO_RULE_CODES_def RECOUNTED_FIELDS_def)
  then show "map_of RECOUNTED_FIELDS (code_of rule) \<noteq> None" by (simp add: code map_of_eq_None_iff)
qed

text \<open>What one version of an automatic v3 rule contributes, as a function of the occurrences it sees.\<close>

definition version_pay :: "payroll_rule \<Rightarrow> rule_calc_config \<Rightarrow> waiver_facts option \<Rightarrow> month_facts \<Rightarrow> rule_occurrence list \<Rightarrow> rat" where
  "version_pay rule c w f xs =
     (if ruCategory rule = BENEFIT \<or> waived_line rule w \<or> kind_of rule = BONUS_LINE \<and> \<not> hasCompletedWork f \<or>
         code_of rule = ''ATTENDANCE'' \<and> monthAbsences f > 0 then 0
      else reExact (evaluateRuleConfig (code_of rule) c (filter (not_waived (waived_ids rule w)) xs) (rates_of f) (monthly_of f)))"

lemma exact_total_push: "exact_total k (push k' r t n x l xs) = (if k = k' then x else 0)"
  by (simp add: exact_total_def push_def)

definition separable :: "string \<Rightarrow> rule_calc_config \<Rightarrow> bool" where
  "separable code c \<longleftrightarrow> per_occurrence code c \<and> (cKind c = PROGRESSIVE \<longrightarrow> cCap c = None)"

lemma evaluate_Nil_exact:
  assumes "separable code c"
  shows "reExact (evaluateRuleConfig code c [] r m) = 0"
proof -
  have l: "countedOccurrences code c [] = []" by (simp add: countedOccurrences_def)
  have t: "total_of code c [] u = 0" "occurrence_count code [] = 0" for u
    by (simp_all add: total_of_def occurrence_count_def distinctDays_def)
  have z: "js_floor 0 = 0" by (simp add: js_floor_def)
  show ?thesis
    using assms by (cases "cKind c")
      (simp_all add: separable_def evaluate_exact l t z per_occurrence_def eval_coef_def eval_progressive_def eval_tiered_def
        sumDayPay_def sumDistinctDayPay_def distinctDays_def result_def Let_def List.map_filter_simps)
qed

lemma rule_lines_version_pay:
  assumes "automatic rule" "normalizeRuleCalcConfig (ruCalcConfig rule) = Inr c" "separable (code_of rule) c"
    and same: "same_month f g"
  shows "exact_total k (rule_lines w e (rule, g)) = (if k = kind_of rule then version_pay rule c w f (occs g (code_of rule)) else 0)"
proof -
  note auto = automatic_code [OF assms(1)]
  have kind: "cKind c \<noteq> MILESTONE" using assms(3) by (auto simp: separable_def per_occurrence_def)
  have t: "js_truthy (ruCalcConfig rule)" using assms(2) by (auto elim: normalized_kind intro: object_truthy)
  note s = same [unfolded same_month_def]
  show ?thesis
  proof (cases "ruCategory rule = BENEFIT \<or> waived_line rule w")
    case True
    then show ?thesis using waivers_None_iff [of rule g w] by (auto simp: rule_lines_def version_pay_def Let_def)
  next
    case False
    then obtain h where h: "applyPayrollWaivers rule g w = Some h"
      using waivers_None_iff [of rule g w] by auto
    note fr = waivers_frame [OF h] s
    have os: "occs h (code_of rule) = filter (not_waived (waived_ids rule w)) (occs g (code_of rule))"
      using waivers_occurrences [OF h] auto by simp
    have v3: "v3RuleLine rule h = Some (evaluateRuleConfig (code_of rule) c
        (if code_of rule = ''ATTENDANCE'' \<and> monthAbsences f > 0 then [] else filter (not_waived (waived_ids rule w)) (occs g (code_of rule)))
        (rates_of f) (monthly_of h))"
      using kind auto(2) fr os by (simp add: v3RuleLine_def assms(2) v3_occurrences_def Let_def)
    have m: "evaluateRuleConfig (code_of rule) c xs (rates_of f) (monthly_of h) =
        evaluateRuleConfig (code_of rule) c xs (rates_of f) (monthly_of f)" for xs
      by (rule evaluate_monthly_unused [OF kind])
    show ?thesis
      using False fr t assms(1) evaluate_Nil_exact [OF assms(3)]
      by (auto simp: rule_lines_def Let_def h v3 m push_result_def exact_total_push version_pay_def)
  qed
qed

text \<open>Two versions of one rule: same category, code, setting and lineage.\<close>

definition version_of :: "payroll_rule \<Rightarrow> payroll_rule \<Rightarrow> bool" where
  "version_of r v \<longleftrightarrow> ruCategory v = ruCategory r \<and> ruCode v = ruCode r \<and> ruCalcConfig v = ruCalcConfig r \<and> lineageOf v = lineageOf r"

lemma version_of_same:
  assumes "version_of r v"
  shows "automatic v = automatic r" "code_of v = code_of r" "kind_of v = kind_of r" "ruCalcConfig v = ruCalcConfig r"
    "version_pay v c w f xs = version_pay r c w f xs"
proof -
  note d = assms [unfolded version_of_def]
  show c: "automatic v = automatic r" "code_of v = code_of r" "kind_of v = kind_of r" "ruCalcConfig v = ruCalcConfig r"
    using d by (simp_all add: automatic_def code_of_def kind_of_def)
  have l: "lineageOf v = lineageOf r" using d by simp
  have "waived_line v w = waived_line r w" "waived_ids v w = waived_ids r w"
    unfolding waived_line_def waived_ids_def l by (rule refl)+
  then show "version_pay v c w f xs = version_pay r c w f xs" using c d by (simp add: version_pay_def)
qed

lemma version_pay_Nil: "separable (code_of r) c \<Longrightarrow> version_pay r c w f [] = 0"
  by (simp add: version_pay_def evaluate_Nil_exact)

lemma version_pay_split:
  assumes "separable (code_of r) c"
  shows "version_pay r c w f xs = version_pay r c w f (dated P xs) + version_pay r c w f (dated (\<lambda>d. \<not> P d) xs)"
proof -
  let ?nw = "filter (not_waived (waived_ids r w))"
  have sw: "?nw (dated P xs) = dated P (?nw xs)" "?nw (dated (\<lambda>d. \<not> P d) xs) = dated (\<lambda>d. \<not> P d) (?nw xs)"
    by (simp_all add: conj_commute)
  show ?thesis
    using pay_splits [of "code_of r" c "?nw xs" "rates_of f" "monthly_of f" P] assms
    by (simp add: version_pay_def sw separable_def del: filter_filter)
qed

definition period_dates :: "month_facts \<Rightarrow> string \<Rightarrow> string \<Rightarrow> bool" where
  "period_dates f start end \<longleftrightarrow>
     ymdOf (date_text (fPeriodStart f)) = Some start \<and> ymdOf (date_text (fPeriodEndExclusive f)) = Some end"

lemma one_version:
  assumes r: "automatic v" "normalizeRuleCalcConfig (ruCalcConfig v) = Inr c" "separable (code_of v) c"
    and p: "period_dates f start end"
    and inp: "list_all (inside start end) (occs f (code_of v))"
    and win: "ymdOf (ruValidFrom v) = None \<and> ymdOf (ruValidTo v) = Some m \<and> P = (\<lambda>d. d < m) \<or>
      ymdOf (ruValidFrom v) = Some m \<and> ymdOf (ruValidTo v) = None \<and> P = (\<lambda>d. \<not> d < m)"
  shows "exact_total k (concat (map (rule_lines w e) (version_input lineages earliest f (n, v)))) =
    (if k = kind_of v then version_pay v c w f (dated P (occs f (code_of v))) else 0)"
proof -
  let ?xs = "occs f (code_of v)" and ?from = "ymdOf (ruValidFrom v)" and ?to = "ymdOf (ruValidTo v)"
  have per: "\<not> isPeriodLevelRule v" using period_level_iff [OF r(2)] r(3) by (simp add: separable_def)
  have i: "start \<le> oDate x \<and> oDate x < end" if "x \<in> set ?xs" for x
    using inp that by (auto simp: list_all_iff inside_def)
  note pay = rule_lines_version_pay [OF r]
  consider (out) "not_in_force start end ?from ?to" "dated P ?xs = []"
    | (all) "\<not> not_in_force start end ?from ?to" "from_start start ?from \<and> until_end end ?to" "dated P ?xs = ?xs"
    | (part) "\<not> not_in_force start end ?from ?to" "\<not> (from_start start ?from \<and> until_end end ?to)"
        "filter (inside (window_from start ?from) (window_to end ?to)) ?xs = dated P ?xs"
  proof -
    have none: "dated P ?xs = [] \<longleftrightarrow> (\<forall>x \<in> set ?xs. \<not> P (oDate x))" by (simp add: filter_empty_conv)
    have every: "dated P ?xs = ?xs \<longleftrightarrow> (\<forall>x \<in> set ?xs. P (oDate x))" by (simp add: filter_id_conv)
    note defs = not_in_force_def from_start_def until_end_def window_from_def window_to_def
    from win show ?thesis
    proof (elim disjE conjE)
      assume w: "?from = None" "?to = Some m" "P = (\<lambda>d. d < m)"
      consider "m \<le> start" | "start < m" "end \<le> m" | "start < m" "m < end" by fastforce
      then show ?thesis
      proof cases
        case 1
        show ?thesis
        proof (rule out)
          show "not_in_force start end ?from ?to" using 1 by (simp add: w defs)
          show "dated P ?xs = []" using 1 i unfolding none unfolding w by fastforce
        qed
      next
        case 2
        show ?thesis
        proof (rule all)
          show "\<not> not_in_force start end ?from ?to" "from_start start ?from \<and> until_end end ?to" using 2 by (simp_all add: w defs not_le)
          show "dated P ?xs = ?xs" using 2 i unfolding every unfolding w by fastforce
        qed
      next
        case 3
        show ?thesis
        proof (rule part)
          show "\<not> not_in_force start end ?from ?to" "\<not> (from_start start ?from \<and> until_end end ?to)" using 3 by (simp_all add: w defs not_le)
          show "filter (inside (window_from start ?from) (window_to end ?to)) ?xs = dated P ?xs"
            using 3 i by (intro filter_cong) (auto simp: w defs inside_def not_less)
        qed
      qed
    next
      assume w: "?from = Some m" "?to = None" "P = (\<lambda>d. \<not> d < m)"
      consider "end \<le> m" | "m < end" "m \<le> start" | "m < end" "start < m" by fastforce
      then show ?thesis
      proof cases
        case 1
        show ?thesis
        proof (rule out)
          show "not_in_force start end ?from ?to" using 1 by (simp add: w defs)
          show "dated P ?xs = []" using 1 i unfolding none unfolding w by fastforce
        qed
      next
        case 2
        show ?thesis
        proof (rule all)
          show "\<not> not_in_force start end ?from ?to" "from_start start ?from \<and> until_end end ?to" using 2 by (simp_all add: w defs not_le)
          show "dated P ?xs = ?xs" using 2 i unfolding every unfolding w by fastforce
        qed
      next
        case 3
        show ?thesis
        proof (rule part)
          show "\<not> not_in_force start end ?from ?to" "\<not> (from_start start ?from \<and> until_end end ?to)" using 3 by (simp_all add: w defs not_le)
          show "filter (inside (window_from start ?from) (window_to end ?to)) ?xs = dated P ?xs"
            using 3 i by (intro filter_cong) (auto simp: w defs inside_def not_less)
        qed
      qed
    qed
  qed
  then show ?thesis
  proof cases
    case out
    then show ?thesis using p win version_pay_Nil [OF r(3)]
      by (auto simp: version_input_def Let_def period_dates_def)
  next
    case all
    have "version_input lineages earliest f (n, v) = [(v, withLineageRecords f v (map_get_or [] lineages (lineageOf v)))]"
      using all p win per by (auto simp: version_input_def Let_def period_dates_def)
    then show ?thesis using all(3) pay [OF same_month_facts(2)] by (simp add: lineage_records_month)
  next
    case part
    then obtain i2 i3 where "version_input lineages earliest f (n, v) =
        [(v, factsWithin f (window_from start ?from) (window_to end ?to) (ruId v) i2 i3)]"
      using p win per by (auto simp: version_input_def Let_def period_dates_def)
    then show ?thesis using part(3) pay [OF same_month_facts(3)] by (simp add: occs_factsWithin)
  qed
qed

lemma unversioned_input:
  "ymdOf (ruValidFrom r) = None \<Longrightarrow> ymdOf (ruValidTo r) = None \<Longrightarrow> version_input lineages earliest f (n, r) = [(r, f)]"
  by (simp add: version_input_def Let_def)

lemma versioned_two:
  "versionedRuleInputs [r] f = version_input (foldl add_lineage [] [r]) (foldl keep_earliest [] (enumerate 0 [r])) f (0, r)"
  "versionedRuleInputs [v, u] f =
     version_input (foldl add_lineage [] [v, u]) (foldl keep_earliest [] (enumerate 0 [v, u])) f (0, v) @
     version_input (foldl add_lineage [] [v, u]) (foldl keep_earliest [] (enumerate 0 [v, u])) f (1, u)"
  by (simp_all add: versionedRuleInputs_def Let_def)

text \<open>
  C23. Changing a rule in the middle of a month never changes what its unchanged price pays: an automatic rule with a
  stored setting (version 3) that is priced per occurrence and has no monthly cap, split on any day into an old version (valid to
  that day) and a new one (valid from it) of the same lineage and setting, pays exactly the bonus and penalty of the unsplit rule,
  with the same waivers, rates and month-level conditions. A progressive rule with a cap is not covered: each version is capped
  on its own, so the split pays up to twice the cap (\<open>capped_rule_pays_its_cap_per_version\<close>).
\<close>

theorem version_split_pays_once:
  assumes r: "automatic r" "normalizeRuleCalcConfig (ruCalcConfig r) = Inr c" "separable (code_of r) c"
    and versions: "version_of r old" "version_of r new"
    and validity: "ymdOf (ruValidFrom r) = None" "ymdOf (ruValidTo r) = None" "ymdOf (ruValidFrom old) = None"
      "ymdOf (ruValidTo old) = Some m" "ymdOf (ruValidFrom new) = Some m" "ymdOf (ruValidTo new) = None"
    and period: "period_dates facts start end" "list_all (inside start end) (occs facts (code_of r))"
  shows "computeRuleAdjustments [old, new] facts earnedBase = computeRuleAdjustments [r] facts earnedBase"
proof -
  let ?w = "fWaivers facts" and ?xs = "occs facts (code_of r)"
  note so = version_of_same [OF versions(1)] and sn = version_of_same [OF versions(2)]
  have old: "exact_total k (concat (map (rule_lines ?w earnedBase) (version_input l e facts (i, old)))) =
      (if k = kind_of r then version_pay r c ?w facts (dated (\<lambda>d. d < m) ?xs) else 0)" for k l e i
    using one_version [of old c facts start "end" m "\<lambda>d. d < m"] r period validity by (simp add: so)
  have new: "exact_total k (concat (map (rule_lines ?w earnedBase) (version_input l e facts (i, new)))) =
      (if k = kind_of r then version_pay r c ?w facts (dated (\<lambda>d. \<not> d < m) ?xs) else 0)" for k l e i
    using one_version [of new c facts start "end" m "\<lambda>d. \<not> d < m"] r period validity by (simp add: sn)
  have whole: "exact_total k (concat (map (rule_lines ?w earnedBase) (version_input l e facts (i, r)))) =
      (if k = kind_of r then version_pay r c ?w facts ?xs else 0)" for k l e i
    using rule_lines_version_pay [OF r same_month_facts(1)] by (simp add: unversioned_input validity)
  have "exact_total k (ruleRawLines [old, new] facts earnedBase) = exact_total k (ruleRawLines [r] facts earnedBase)" for k
    using version_pay_split [OF r(3), of ?w facts ?xs "\<lambda>d. d < m"]
    unfolding ruleRawLines_def versioned_two map_append concat_append exact_total_append old new whole by simp
  then show ?thesis by (simp add: adjustments_are_totals)
qed

theorem version_split_pays_once_witness:
  "computeRuleAdjustments
     [fixed_late\<lparr>ruValidTo := V_text ''2026-10-10''\<rparr>, fixed_late\<lparr>ruId := Some ''late2'', ruValidFrom := V_text ''2026-10-10''\<rparr>]
     (two_late\<lparr>fPeriodStart := Some ''2026-10-01'', fPeriodEndExclusive := Some ''2026-11-01''\<rparr>) 0 =
   computeRuleAdjustments [fixed_late]
     (two_late\<lparr>fPeriodStart := Some ''2026-10-01'', fPeriodEndExclusive := Some ''2026-11-01''\<rparr>) 0"
proof (rule version_split_pays_once [OF _ fixed_late_read, of _ _ "''2026-10-10''" _ "''2026-10-01''" "''2026-11-01''"])
  show "separable (code_of fixed_late) (empty_config FIXED\<lparr>cAmount := Some 20000, cUnit := Some U_DAY\<rparr>)"
    by (simp add: separable_def per_occurrence_def empty_config_def)
  show "automatic fixed_late" by code_simp
  show "version_of fixed_late (fixed_late\<lparr>ruValidTo := V_text ''2026-10-10''\<rparr>)" by code_simp
  show "version_of fixed_late (fixed_late\<lparr>ruId := Some ''late2'', ruValidFrom := V_text ''2026-10-10''\<rparr>)" by code_simp
  show "list_all (inside ''2026-10-01'' ''2026-11-01'')
     (occs (two_late\<lparr>fPeriodStart := Some ''2026-10-01'', fPeriodEndExclusive := Some ''2026-11-01''\<rparr>) (code_of fixed_late))"
    by code_simp
  show "period_dates (two_late\<lparr>fPeriodStart := Some ''2026-10-01'', fPeriodEndExclusive := Some ''2026-11-01''\<rparr>) ''2026-10-01'' ''2026-11-01''"
    by code_simp
qed code_simp+

text \<open>The cap of a progressive rule is meant for the month, but each version of the rule is capped on its own: a fine of 10000 for every
  5 minutes, at most 15000, for 20 minutes late on the 3rd and on the 20th, is 15000, and 30000 once the rule was changed in between.\<close>

definition capped_late :: payroll_rule where
  "capped_late = fixed_late\<lparr>ruCalcConfig := JObj [(''kind'', JStr ''PROGRESSIVE''), (''amount'', JNum (Fin 10000)), (''unit'', JStr ''MINUTE''),
     (''step'', JNum (Fin 5)), (''cap'', JNum (Fin 15000))]\<rparr>"

definition october_late :: month_facts where
  "october_late = two_late\<lparr>fTotalLateMinutes := 40, fPeriodStart := Some ''2026-10-01'', fPeriodEndExclusive := Some ''2026-11-01'',
     fRuleOccurrences := [(''LATE'', [late_on ''a1'' ''2026-10-03'' 20, late_on ''a2'' ''2026-10-20'' 20])]\<rparr>"

lemma capped_rule_pays_its_cap_per_version:
  "version_of capped_late (capped_late\<lparr>ruValidTo := V_text ''2026-10-10''\<rparr>)"
  "version_of capped_late (capped_late\<lparr>ruId := Some ''late2'', ruValidFrom := V_text ''2026-10-10''\<rparr>)"
  "computeRuleAdjustments [capped_late] october_late 0 = (0, 15000)"
  "computeRuleAdjustments [capped_late\<lparr>ruValidTo := V_text ''2026-10-10''\<rparr>,
     capped_late\<lparr>ruId := Some ''late2'', ruValidFrom := V_text ''2026-10-10''\<rparr>] october_late 0 = (0, 30000)"
  by code_simp+

end
