(* ===== verification/Payslip.thy ===== *)
theory Payslip
  imports PayrollRules EarnedBase
begin

text \<open>
  The payslip: the store's template of rows (\<open>payslip-rows.utils.ts\<close>), net pay, the composed payslip,
  the shift that carries a day's pay and the split of a month between two employments
  (\<open>payroll-calculation.utils.ts\<close>). The lemmas show that a template survives storage, that a payslip
  adds up and its display reconciles with it, that removed rows pay nothing, that a day has one owner
  whatever the order of the shifts, and that splitting a month between two identical contracts pays the
  same.
\<close>

section \<open>The template\<close>

datatype builtin_row = ALLOWANCE_ROW | BONUS_ROW | DEDUCTION_ROW

datatype row_sign = PLUS | MINUS

record payslip_item =
  piId :: "string option"
  piLabel :: string
  piSign :: row_sign
  piAmount :: rat

record payslip_snapshot =
  psLabels :: "(builtin_row, string) jsmap"
  psRemoved :: "builtin_row list"
  psItems :: "payslip_item list"

record template_row =
  trId :: "string option"
  trBuiltinKey :: "string option"
  trLabel :: "string option"
  trSign :: jsval
  trAmount :: jsval
  trSortOrder :: jsval
  trIsActive :: "bool option"

fun builtin_name :: "builtin_row \<Rightarrow> string" where
  "builtin_name ALLOWANCE_ROW = ''ALLOWANCE''"
| "builtin_name BONUS_ROW = ''BONUS''"
| "builtin_name DEDUCTION_ROW = ''DEDUCTION''"

definition BUILTINS :: "builtin_row list" where
  "BUILTINS = [ALLOWANCE_ROW, BONUS_ROW, DEDUCTION_ROW]"

text \<open>The default labels, spelled without their accents.\<close>

definition PAYSLIP_BUILTIN_DEFAULT_LABELS :: "(builtin_row, string) jsmap" where
  "PAYSLIP_BUILTIN_DEFAULT_LABELS = [(ALLOWANCE_ROW, ''Phu cap''), (BONUS_ROW, ''Thuong''), (DEDUCTION_ROW, ''Khau tru'')]"

definition find_builtin :: "string \<Rightarrow> builtin_row option" where
  "find_builtin key = find (\<lambda>b. builtin_name b = key) BUILTINS"

definition toAmount :: "jsval \<Rightarrow> rat" where
  "toAmount value = (case js_number value of Fin x \<Rightarrow> if js_round x > 0 then js_round x else 0 | _ \<Rightarrow> 0)"

definition toSign :: "jsval \<Rightarrow> row_sign" where
  "toSign value = (if value = JStr ''MINUS'' then MINUS else PLUS)"

definition label_text :: "template_row \<Rightarrow> string" where
  "label_text row = js_trim (case trLabel row of Some s \<Rightarrow> s | None \<Rightarrow> [])"

definition snapshot_step :: "payslip_snapshot \<Rightarrow> template_row \<Rightarrow> payslip_snapshot" where
  "snapshot_step s row =
     (case (case trBuiltinKey row of Some k \<Rightarrow> find_builtin k | None \<Rightarrow> None) of
        Some key \<Rightarrow>
          if trIsActive row = Some False then s\<lparr>psRemoved := psRemoved s @ [key]\<rparr>
          else if label_text row \<noteq> [] then s\<lparr>psLabels := map_set (psLabels s) key (label_text row)\<rparr>
          else s
      | None \<Rightarrow>
          if trBuiltinKey row \<noteq> None \<or> trIsActive row = Some False then s
          else if label_text row = [] then s
          else s\<lparr>psItems := psItems s @ [\<lparr> piId = nonempty (trId row), piLabel = label_text row,
                 piSign = toSign (trSign row), piAmount = toAmount (trAmount row) \<rparr>]\<rparr>)"

definition default_snapshot :: payslip_snapshot where
  "default_snapshot = \<lparr> psLabels = PAYSLIP_BUILTIN_DEFAULT_LABELS, psRemoved = [], psItems = [] \<rparr>"

definition payslipRowsSnapshot :: "template_row list \<Rightarrow> payslip_snapshot" where
  "payslipRowsSnapshot rows = foldl snapshot_step default_snapshot (sort_key (\<lambda>r. toFiniteNumber (trSortOrder r)) rows)"

definition read_label :: "jsval \<Rightarrow> (builtin_row, string) jsmap \<Rightarrow> builtin_row \<Rightarrow> (builtin_row, string) jsmap" where
  "read_label raw labels key =
     (case js_get (js_get raw ''labels'') (builtin_name key) of
        JStr label \<Rightarrow> if js_trim label \<noteq> [] then map_set labels key (js_trim label) else labels
      | _ \<Rightarrow> labels)"

fun read_builtin :: "jsval \<Rightarrow> builtin_row option" where
  "read_builtin (JStr s) = find_builtin s"
| "read_builtin _ = None"

definition item_label :: "jsval \<Rightarrow> string" where
  "item_label item = js_trim (js_string (js_or_null (js_get item ''label'') (JStr [])))"

definition read_item :: "jsval \<Rightarrow> payslip_item" where
  "read_item item =
     \<lparr> piId = (if js_truthy (js_get item ''id'') then Some (js_string (js_get item ''id'')) else None),
       piLabel = item_label item, piSign = toSign (js_get item ''sign''), piAmount = toAmount (js_get item ''amount'') \<rparr>"

definition readPayslipRowsSnapshot :: "jsval \<Rightarrow> payslip_snapshot option" where
  "readPayslipRowsSnapshot value =
     (if \<not> js_is_object value then None
      else Some
        \<lparr> psLabels = foldl (read_label value) PAYSLIP_BUILTIN_DEFAULT_LABELS BUILTINS,
          psRemoved = List.map_filter read_builtin (js_array_or_empty (js_get value ''removed'')),
          psItems = map read_item (filter (\<lambda>item. js_truthy item \<and> item_label item \<noteq> [])
            (js_array_or_empty (js_get value ''items''))) \<rparr>)"

definition payslipExtraTotals :: "payslip_snapshot option \<Rightarrow> rat \<times> rat" where
  "payslipExtraTotals snapshot =
     (let items = (case snapshot of Some s \<Rightarrow> psItems s | None \<Rightarrow> []) in
      (sum_list (map piAmount (filter (\<lambda>i. piSign i \<noteq> MINUS) items)),
       sum_list (map piAmount (filter (\<lambda>i. piSign i = MINUS) items))))"

definition isBuiltinRemoved :: "payslip_snapshot option \<Rightarrow> builtin_row \<Rightarrow> bool" where
  "isBuiltinRemoved snapshot key \<longleftrightarrow> (case snapshot of Some s \<Rightarrow> key \<in> set (psRemoved s) | None \<Rightarrow> False)"

record counted_deductions =
  cdPenalty :: rat
  cdOther :: rat
  cdExtra :: rat

definition countedPayslipDeductions :: "jsval \<Rightarrow> jsval \<Rightarrow> jsval \<Rightarrow> counted_deductions" where
  "countedPayslipDeductions penalty otherDeductions payslipRows =
     (let snapshot = readPayslipRowsSnapshot payslipRows; removed = isBuiltinRemoved snapshot DEDUCTION_ROW
      in \<lparr> cdPenalty = (if removed then 0 else js_round (toFiniteNumber penalty)),
           cdOther = (if removed then 0 else js_round (toFiniteNumber otherDeductions)),
           cdExtra = snd (payslipExtraTotals snapshot) \<rparr>)"

section \<open>Totals\<close>

record net_totals =
  ntTotalIncome :: rat
  ntTotalDeductions :: rat
  ntNetSalary :: rat

text \<open>Absent optional amounts read as 0.\<close>

definition computeNetFromIncome :: "rat \<Rightarrow> rat \<Rightarrow> rat \<Rightarrow> rat \<Rightarrow> rat \<Rightarrow> net_totals" where
  "computeNetFromIncome income penalty advancePayment otherDeductions extraDeductions =
     (let totalIncome = js_round income;
          totalDeductions = js_round penalty + js_round advancePayment + js_round otherDeductions + js_round extraDeductions
      in \<lparr> ntTotalIncome = totalIncome, ntTotalDeductions = totalDeductions,
           ntNetSalary = max 0 (totalIncome - totalDeductions) \<rparr>)"

record totals_input =
  tiEarnedBase :: rat
  tiAllowancesTotal :: rat
  tiBonus :: rat
  tiPenalty :: rat
  tiAdvancePayment :: rat
  tiOtherDeductions :: rat
  tiExtraIncome :: rat
  tiExtraDeductions :: rat

definition computePayslipTotals :: "totals_input \<Rightarrow> net_totals" where
  "computePayslipTotals i =
     computeNetFromIncome
       (js_round (tiEarnedBase i) + js_round (tiAllowancesTotal i) + js_round (tiBonus i) + js_round (tiExtraIncome i))
       (tiPenalty i) (tiAdvancePayment i) (tiOtherDeductions i) (tiExtraDeductions i)"

record stored_payslip =
  spTotalIncome :: jsval
  spAdvancePayment :: jsval
  spPenalty :: jsval
  spOtherDeductions :: jsval
  spNetSalary :: jsval
  spPayslipRows :: jsval

record totals_display =
  tdIncomeAfterAdvance :: rat
  tdDeductionsExcludingAdvance :: rat
  tdExtraDeductions :: rat
  tdIsNetClamped :: bool

definition describePayslipTotals :: "stored_payslip \<Rightarrow> totals_display" where
  "describePayslipTotals i =
     (let counted = countedPayslipDeductions (spPenalty i) (spOtherDeductions i) (spPayslipRows i);
          incomeAfterAdvance = toFiniteNumber (spTotalIncome i) - toFiniteNumber (spAdvancePayment i);
          deductions = cdPenalty counted + cdOther counted
      in \<lparr> tdIncomeAfterAdvance = incomeAfterAdvance, tdDeductionsExcludingAdvance = deductions,
           tdExtraDeductions = cdExtra counted,
           tdIsNetClamped = (incomeAfterAdvance - deductions - cdExtra counted < 0 \<and> toFiniteNumber (spNetSalary i) = 0) \<rparr>)"

record payslip_input =
  inPaymentType :: "payment_type option"
  inRate :: rat
  inAllowances :: jsval
  inRules :: "payroll_rule list"
  inFacts :: month_facts
  inStandardWorkingDays :: rat
  inCalendarDays :: rat
  inAdvancePayment :: rat
  inOtherDeductions :: rat
  inEarnedBaseSalary :: "rat option"
  inPayslipRows :: "payslip_snapshot option"

record payslip_computation =
  pcPaymentType :: payment_type
  pcBaseSalary :: rat
  pcEarnedBaseSalary :: rat
  pcAllowancesTotal :: rat
  pcBonus :: rat
  pcPenalty :: rat
  pcAdvancePayment :: rat
  pcOtherDeductions :: rat
  pcTotals :: net_totals
  pcWorkingDays :: rat
  pcWorkingHours :: rat
  pcUnauthorizedLeaveDays :: rat
  pcStandardWorkingDays :: rat
  pcPayslipRows :: "payslip_snapshot option"

definition computePayslip :: "payslip_input \<Rightarrow> payslip_computation" where
  "computePayslip i =
     (let paymentType = resolvePayrollPaymentType (inPaymentType i);
          earned = (case inEarnedBaseSalary i of
              Some e \<Rightarrow> js_round e
            | None \<Rightarrow> computeEarnedBase paymentType (inRate i) (earned_facts_of (inFacts i)) (inStandardWorkingDays i) (inCalendarDays i));
          template = inPayslipRows i;
          adjustments = computeRuleAdjustments (inRules i) (inFacts i) earned;
          deductionRemoved = isBuiltinRemoved template DEDUCTION_ROW;
          bonus = (if isBuiltinRemoved template BONUS_ROW then 0 else fst adjustments);
          penalty = (if deductionRemoved then 0 else snd adjustments);
          allowancesTotal = (if isBuiltinRemoved template ALLOWANCE_ROW then 0 else sumAllowances (inAllowances i));
          advancePayment = js_round (inAdvancePayment i);
          otherDeductions = (if deductionRemoved then 0 else js_round (inOtherDeductions i));
          extras = payslipExtraTotals template
      in \<lparr> pcPaymentType = paymentType, pcBaseSalary = inRate i, pcEarnedBaseSalary = earned,
           pcAllowancesTotal = allowancesTotal, pcBonus = bonus, pcPenalty = penalty,
           pcAdvancePayment = advancePayment, pcOtherDeductions = otherDeductions,
           pcTotals = computePayslipTotals \<lparr> tiEarnedBase = earned, tiAllowancesTotal = allowancesTotal, tiBonus = bonus,
             tiPenalty = penalty, tiAdvancePayment = advancePayment, tiOtherDeductions = otherDeductions,
             tiExtraIncome = fst extras, tiExtraDeductions = snd extras \<rparr>,
           pcWorkingDays = fDaysWorked (inFacts i), pcWorkingHours = fWorkingHours (inFacts i),
           pcUnauthorizedLeaveDays = fAbsentCount (inFacts i), pcStandardWorkingDays = inStandardWorkingDays i,
           pcPayslipRows = template \<rparr>)"

section \<open>The owner of a day\<close>

text \<open>The check-in instant of an entry; \<open>None\<close> is the code's positive infinity.\<close>

record day_owner =
  doId :: string
  doAt :: "instant option"

definition at_less :: "instant option \<Rightarrow> instant option \<Rightarrow> bool" where
  "at_less a b \<longleftrightarrow> (case (a, b) of (Some x, Some y) \<Rightarrow> x < y | (Some x, None) \<Rightarrow> True | _ \<Rightarrow> False)"

definition earlier_owner :: "day_owner \<Rightarrow> day_owner \<Rightarrow> bool" where
  "earlier_owner e current \<longleftrightarrow> at_less (doAt e) (doAt current) \<or> doAt e = doAt current \<and> doId e < doId current"

definition owner_of :: "assignment_fact \<Rightarrow> day_owner" where
  "owner_of a = \<lparr> doId = aId a, doAt = instantMs (aCheckInTime a) \<rparr>"

definition owns_candidate :: "assignment_fact \<Rightarrow> bool" where
  "owns_candidate a \<longleftrightarrow> aStatus a = COMPLETED \<and> workDateOf (aWorkDate a) \<noteq> []"

definition keep_owner :: "(string, day_owner) jsmap \<Rightarrow> assignment_fact \<Rightarrow> (string, day_owner) jsmap" where
  "keep_owner m a = (let date = workDateOf (aWorkDate a) in
     case map_of m date of
       None \<Rightarrow> map_set m date (owner_of a)
     | Some current \<Rightarrow> if earlier_owner (owner_of a) current then map_set m date (owner_of a) else m)"

definition pickDayOwnerAssignmentIds :: "assignment_fact list \<Rightarrow> string list" where
  "pickDayOwnerAssignmentIds assignments =
     js_set (map (\<lambda>p. doId (snd p)) (foldl keep_owner [] (filter owns_candidate assignments)))"

section \<open>A month of two employments\<close>

record stint_pricing =
  stPaymentType :: "payment_type option"
  stRate :: rat

record stint_split =
  ssEarnedBase :: rat
  ssCurrent :: rat
  ssPrior :: rat

record split_input =
  siAssignments :: "assignment_fact list"
  siStintStartDate :: "string option"
  siTodayVn :: string
  siCurrent :: stint_pricing
  siPrior :: "stint_pricing option"
  siStandardWorkingDays :: rat
  siCalendarDays :: rat

definition before_stint :: "string \<Rightarrow> assignment_fact \<Rightarrow> bool" where
  "before_stint start a \<longleftrightarrow> workDateOf (aWorkDate a) \<noteq> [] \<and> workDateOf (aWorkDate a) < start"

definition stint_price :: "split_input \<Rightarrow> stint_pricing \<Rightarrow> assignment_fact list \<Rightarrow> rat" where
  "stint_price i pricing rows =
     (if rows \<noteq> [] then computeEarnedBase (resolvePayrollPaymentType (stPaymentType pricing)) (stRate pricing)
        (earned_facts_of (summarizeMonthlyAttendance rows (siTodayVn i))) (siStandardWorkingDays i) (siCalendarDays i)
      else 0)"

text \<open>\<open>priceCurrent\<close> is the store's wage-rate pricing of the current stint, when it has one.\<close>

definition computeStintSplitEarnedBase ::
  "(assignment_fact list \<Rightarrow> rat) option \<Rightarrow> split_input \<Rightarrow> stint_split option" where
  "computeStintSplitEarnedBase priceCurrent i =
     (case nonempty (siStintStartDate i) of
        None \<Rightarrow> None
      | Some start \<Rightarrow>
          if \<not> list_ex (before_stint start) (siAssignments i) then None
          else
            let priorCompleted = filter (\<lambda>a. before_stint start a \<and> aStatus a = COMPLETED) (siAssignments i);
                stored = sum_list (map (\<lambda>a. js_round (toFiniteNumber (aShiftEarnings a)))
                  (filter (\<lambda>a. \<not> nullish (aShiftEarnings a)) priorCompleted));
                repriced = stint_price i (case siPrior i of Some p \<Rightarrow> p | None \<Rightarrow> siCurrent i)
                  (filter (\<lambda>a. nullish (aShiftEarnings a)) priorCompleted);
                currentRows = filter (\<lambda>a. \<not> before_stint start a) (siAssignments i);
                current = (case priceCurrent of Some price \<Rightarrow> price currentRows | None \<Rightarrow> stint_price i (siCurrent i) currentRows)
            in Some \<lparr> ssEarnedBase = stored + repriced + current, ssCurrent = current, ssPrior = stored + repriced \<rparr>)"

section \<open>A template survives storage\<close>

definition trimmed_text :: "string \<Rightarrow> bool" where
  "trimmed_text t \<longleftrightarrow> t \<noteq> [] \<and> js_trim t = t"

definition item_ok :: "payslip_item \<Rightarrow> bool" where
  "item_ok i \<longleftrightarrow> trimmed_text (piLabel i) \<and> piId i \<noteq> Some [] \<and> js_is_integer (piAmount i) \<and> 0 \<le> piAmount i"

definition snapshot_ok :: "payslip_snapshot \<Rightarrow> bool" where
  "snapshot_ok s \<longleftrightarrow> map fst (psLabels s) = BUILTINS \<and> list_all (\<lambda>p. trimmed_text (snd p)) (psLabels s) \<and> list_all item_ok (psItems s)"

lemma dropWhile_hd: "dropWhile P xs \<noteq> [] \<Longrightarrow> \<not> P (hd (dropWhile P xs))"
  by (induction xs) auto

lemma js_trim_idem [simp]: "js_trim (js_trim s) = js_trim s"
proof (cases "js_trim s = []")
  case False
  define u where "u = dropWhile js_space s"
  have t: "js_trim s = rev (dropWhile js_space (rev u))" by (simp add: js_trim_def u_def)
  have ne: "dropWhile js_space (rev u) \<noteq> []" "u \<noteq> []" using False t by auto
  have "last (js_trim s) = hd (dropWhile js_space (rev u))" by (simp add: t last_rev)
  then have l: "\<not> js_space (last (js_trim s))" using dropWhile_hd [OF ne(1)] by simp
  have "rev u = takeWhile js_space (rev u) @ dropWhile js_space (rev u)" by simp
  then have "u = js_trim s @ rev (takeWhile js_space (rev u))" unfolding t by (metis rev_append rev_rev_ident)
  then have "hd u = hd (js_trim s)" using False by (metis hd_append2)
  then have "\<not> js_space (hd (js_trim s))" using dropWhile_hd [of js_space s] ne(2) by (simp add: u_def)
  then show ?thesis using l False by (intro js_trim_id) auto
next
  case True
  show ?thesis unfolding True by (simp add: js_trim_def)
qed

lemma trimmed_js_trim: "js_trim s \<noteq> [] \<Longrightarrow> trimmed_text (js_trim s)"
  by (simp add: trimmed_text_def)

lemma toAmount_whole: "js_is_integer (toAmount v)" "0 \<le> toAmount v"
proof -
  have "js_is_integer 0" using js_is_integer_of_int [of 0] by simp
  then show "js_is_integer (toAmount v)"
    by (simp add: toAmount_def js_is_integer_iff js_round_is_int split: jsnum.split)
  show "0 \<le> toAmount v" by (simp add: toAmount_def split: jsnum.split)
qed

lemma map_set_keys_same: "k \<in> fst ` set m \<Longrightarrow> map fst (map_set m k v) = map fst m"
  by (induction m k v rule: map_set.induct) auto

lemma list_all_map_set: "list_all (\<lambda>p. P (snd p)) m \<Longrightarrow> P v \<Longrightarrow> list_all (\<lambda>p. P (snd p)) (map_set m k v)"
  by (induction m k v rule: map_set.induct) auto

lemma builtin_in: "b \<in> set BUILTINS"
  by (cases b) (simp_all add: BUILTINS_def)

lemma snapshot_labels_set:
  assumes "snapshot_ok s" "trimmed_text l"
  shows "snapshot_ok (s\<lparr>psLabels := map_set (psLabels s) key l\<rparr>)"
proof -
  have "fst ` set (psLabels s) = set BUILTINS" using assms(1) by (metis snapshot_ok_def image_set)
  then show ?thesis using assms builtin_in [of key]
    by (simp add: snapshot_ok_def map_set_keys_same list_all_map_set [where P = trimmed_text])
qed

lemma snapshot_step_ok: "snapshot_ok s \<Longrightarrow> snapshot_ok (snapshot_step s row)"
proof -
  assume ok: "snapshot_ok s"
  have i: "snapshot_ok (s\<lparr>psItems := psItems s @ [\<lparr> piId = nonempty (trId row), piLabel = label_text row,
      piSign = sg, piAmount = toAmount v \<rparr>]\<rparr>)" if "label_text row \<noteq> []" for sg v
    using ok that by (auto simp: snapshot_ok_def item_ok_def toAmount_whole label_text_def trimmed_js_trim nonempty_def split: option.splits)
  have r: "snapshot_ok (s\<lparr>psRemoved := psRemoved s @ [k]\<rparr>)" for k using ok by (simp add: snapshot_ok_def)
  have l: "snapshot_ok (s\<lparr>psLabels := map_set (psLabels s) k (label_text row)\<rparr>)" if "label_text row \<noteq> []" for k
    using that snapshot_labels_set [OF ok] by (simp add: label_text_def trimmed_js_trim)
  show ?thesis using ok i r l by (simp add: snapshot_step_def split: option.split)
qed

lemma default_labels_ok: "snapshot_ok default_snapshot"
  by code_simp

lemma snapshot_is_ok: "snapshot_ok (payslipRowsSnapshot rows)"
proof -
  have "snapshot_ok s \<Longrightarrow> snapshot_ok (foldl snapshot_step s xs)" for s xs
    by (induction xs arbitrary: s) (simp_all add: snapshot_step_ok)
  then show ?thesis by (simp add: payslipRowsSnapshot_def default_labels_ok)
qed

text \<open>What the jsonb column holds: the snapshot as \<open>JSON.stringify\<close> writes it.\<close>

definition item_json :: "payslip_item \<Rightarrow> jsval" where
  "item_json i = JObj ((case piId i of Some t \<Rightarrow> [(''id'', JStr t)] | None \<Rightarrow> []) @
     [(''label'', JStr (piLabel i)), (''sign'', JStr (if piSign i = MINUS then ''MINUS'' else ''PLUS'')),
      (''amount'', JNum (Fin (piAmount i)))])"

definition snapshot_json :: "payslip_snapshot \<Rightarrow> jsval" where
  "snapshot_json s = JObj
     [(''labels'', JObj (map (\<lambda>p. (builtin_name (fst p), JStr (snd p))) (psLabels s))),
      (''removed'', JArr (map (\<lambda>b. JStr (builtin_name b)) (psRemoved s))),
      (''items'', JArr (map item_json (psItems s)))]"

lemma find_builtin_name [simp]: "find_builtin (builtin_name b) = Some b"
  by (cases b) (simp_all add: find_builtin_def BUILTINS_def)

lemma read_item_json: "item_ok i \<Longrightarrow> read_item (item_json i) = i"
proof -
  assume ok: "item_ok i"
  have a: "toAmount (JNum (Fin (piAmount i))) = piAmount i"
    using ok by (auto simp: item_ok_def toAmount_def js_round_integer)
  have l: "item_label (item_json i) = piLabel i"
    using ok by (simp add: item_label_def item_json_def item_ok_def trimmed_text_def js_or_null_def nullish_def split: option.split)
  have "toSign (js_get (item_json i) ''sign'') = piSign i"
    by (cases "piSign i") (simp_all add: toSign_def item_json_def split: option.split)
  moreover have "js_get (item_json i) ''amount'' = JNum (Fin (piAmount i))"
    by (simp add: item_json_def split: option.split)
  moreover have "(if js_truthy (js_get (item_json i) ''id'') then Some (js_string (js_get (item_json i) ''id'')) else None) = piId i"
    using ok by (cases "piId i") (auto simp: item_json_def item_ok_def)
  ultimately show ?thesis by (simp add: read_item_def a l)
qed

lemma kept_items: "list_all item_ok xs \<Longrightarrow>
    map read_item (filter (\<lambda>item. js_truthy item \<and> item_label item \<noteq> []) (map item_json xs)) = xs"
proof (induction xs)
  case (Cons i xs)
  then have "item_label (item_json i) = piLabel i" "piLabel i \<noteq> []"
    using read_item_json [of i] by (auto simp: read_item_def item_ok_def trimmed_text_def dest: arg_cong [where f = piLabel])
  moreover have "js_truthy (item_json i)" by (simp add: item_json_def)
  ultimately show ?case using Cons by (simp add: read_item_json)
qed simp

lemma kept_removed: "List.map_filter read_builtin (map (\<lambda>b. JStr (builtin_name b)) bs) = bs"
  by (induction bs) (simp_all add: List.map_filter_simps)

lemma read_labels:
  assumes "map fst ls = BUILTINS" "list_all (\<lambda>p. trimmed_text (snd p)) ls"
  shows "foldl (read_label (JObj ((''labels'', JObj (map (\<lambda>p. (builtin_name (fst p), JStr (snd p))) ls)) # rest)))
    PAYSLIP_BUILTIN_DEFAULT_LABELS BUILTINS = ls"
proof -
  obtain a b c where ls: "ls = [(ALLOWANCE_ROW, a), (BONUS_ROW, b), (DEDUCTION_ROW, c)]"
    using assms(1) by (auto simp: BUILTINS_def)
  then show ?thesis using assms(2)
    by (simp add: BUILTINS_def read_label_def PAYSLIP_BUILTIN_DEFAULT_LABELS_def trimmed_text_def)
qed

lemma stored_snapshot_reads_back: "snapshot_ok s \<Longrightarrow> readPayslipRowsSnapshot (snapshot_json s) = Some s"
proof -
  assume ok: "snapshot_ok s"
  have "foldl (read_label (snapshot_json s)) PAYSLIP_BUILTIN_DEFAULT_LABELS BUILTINS = psLabels s"
    using ok unfolding snapshot_json_def by (intro read_labels) (simp_all add: snapshot_ok_def)
  moreover have "js_array_or_empty (js_get (snapshot_json s) ''removed'') = map (\<lambda>b. JStr (builtin_name b)) (psRemoved s)"
    "js_array_or_empty (js_get (snapshot_json s) ''items'') = map item_json (psItems s)"
    by (simp_all add: snapshot_json_def)
  ultimately show ?thesis using ok
    by (simp add: readPayslipRowsSnapshot_def kept_removed kept_items snapshot_ok_def) (simp add: snapshot_json_def)
qed

text \<open>
  A payslip keeps the template it was computed with: storing a snapshot of the store's rows as
  JSON and reading it back gives the same snapshot, whatever rows the store saved.
\<close>

theorem payslip_template_survives_storage:
  "readPayslipRowsSnapshot (snapshot_json (payslipRowsSnapshot rows)) = Some (payslipRowsSnapshot rows)"
  by (rule stored_snapshot_reads_back [OF snapshot_is_ok])

section \<open>A payslip adds up\<close>

lemma whole_sum: "list_all (\<lambda>x. js_is_integer x) xs \<Longrightarrow> js_is_integer (sum_list xs)"
proof (induction xs)
  case (Cons a xs)
  then obtain m n where "a = of_int m" "sum_list xs = of_int n" by (auto simp: js_is_integer_iff)
  then show ?case using js_is_integer_of_int [of "m + n"] by simp
qed (use js_is_integer_of_int [of 0] in simp)

lemma extras_whole:
  assumes "opt_ok snapshot_ok s"
  shows "js_is_integer (fst (payslipExtraTotals s))" "js_is_integer (snd (payslipExtraTotals s))"
    "0 \<le> fst (payslipExtraTotals s)" "0 \<le> snd (payslipExtraTotals s)"
proof -
  define items where "items = (case s of Some t \<Rightarrow> psItems t | None \<Rightarrow> [])"
  have "list_all item_ok items" using assms by (cases s) (simp_all add: items_def snapshot_ok_def)
  then have i: "list_all (\<lambda>x. js_is_integer x) (map piAmount (filter P items))" "\<forall>x \<in> set (map piAmount (filter P items)). 0 \<le> x" for P
    by (auto simp: list_all_iff item_ok_def)
  show "js_is_integer (fst (payslipExtraTotals s))" "js_is_integer (snd (payslipExtraTotals s))"
    using whole_sum [OF i(1)] by (simp_all add: payslipExtraTotals_def Let_def items_def)
  show "0 \<le> fst (payslipExtraTotals s)" "0 \<le> snd (payslipExtraTotals s)"
    unfolding payslipExtraTotals_def Let_def items_def [symmetric] fst_conv snd_conv
    by (rule sum_list_nonneg; use i(2) in blast)+
qed

lemma earned_base_whole [simp]: "js_round (computeEarnedBase t r f s c) = computeEarnedBase t r f s c"
  by (auto simp: computeEarnedBase_def split: prod.split option.split)

lemma allowances_whole [simp]: "js_round (sumAllowances v) = sumAllowances v"
  by (cases v) simp_all

lemma adjustments_whole [simp]:
  "js_round (fst (computeRuleAdjustments r f e)) = fst (computeRuleAdjustments r f e)"
  "js_round (snd (computeRuleAdjustments r f e)) = snd (computeRuleAdjustments r f e)"
  by (simp_all add: adjustments_are_totals)

lemma js_round_if: "js_round (if b then x else y) = (if b then js_round x else js_round y)"
  by simp

lemma payslip_components_whole:
  "js_round (pcEarnedBaseSalary (computePayslip i)) = pcEarnedBaseSalary (computePayslip i)"
  "js_round (pcAllowancesTotal (computePayslip i)) = pcAllowancesTotal (computePayslip i)"
  "js_round (pcBonus (computePayslip i)) = pcBonus (computePayslip i)"
  "js_round (pcPenalty (computePayslip i)) = pcPenalty (computePayslip i)"
  "js_round (pcAdvancePayment (computePayslip i)) = pcAdvancePayment (computePayslip i)"
  "js_round (pcOtherDeductions (computePayslip i)) = pcOtherDeductions (computePayslip i)"
  by (simp_all add: computePayslip_def Let_def js_round_if split: option.split)

lemma payslip_totals:
  "pcTotals (computePayslip i) = computePayslipTotals
     \<lparr> tiEarnedBase = pcEarnedBaseSalary (computePayslip i), tiAllowancesTotal = pcAllowancesTotal (computePayslip i),
       tiBonus = pcBonus (computePayslip i), tiPenalty = pcPenalty (computePayslip i),
       tiAdvancePayment = pcAdvancePayment (computePayslip i), tiOtherDeductions = pcOtherDeductions (computePayslip i),
       tiExtraIncome = fst (payslipExtraTotals (inPayslipRows i)), tiExtraDeductions = snd (payslipExtraTotals (inPayslipRows i)) \<rparr>"
  by (simp add: computePayslip_def Let_def)

lemma round_sum: "js_round x = x \<Longrightarrow> js_round y = y \<Longrightarrow> js_round (x + y) = x + y"
  using js_round_add_int [of x "\<lfloor>y + 1 / 2\<rfloor>"] by (simp add: js_round_def)

text \<open>The income and deductions of a payslip whose template came from the store's rows.\<close>

lemma payslip_equations:
  assumes "opt_ok snapshot_ok (inPayslipRows i)"
  defines "c \<equiv> computePayslip i" and "x \<equiv> payslipExtraTotals (inPayslipRows i)"
  shows "ntTotalIncome (pcTotals c) = pcEarnedBaseSalary c + pcAllowancesTotal c + pcBonus c + fst x"
    "ntTotalDeductions (pcTotals c) = pcPenalty c + pcAdvancePayment c + pcOtherDeductions c + snd x"
    "ntNetSalary (pcTotals c) = max 0 (ntTotalIncome (pcTotals c) - ntTotalDeductions (pcTotals c))"
proof -
  have w: "js_round (fst x) = fst x" "js_round (snd x) = snd x"
    using extras_whole [OF assms(1)] by (simp_all add: js_round_integer x_def)
  note p = payslip_components_whole [of i, folded c_def]
  show "ntTotalIncome (pcTotals c) = pcEarnedBaseSalary c + pcAllowancesTotal c + pcBonus c + fst x"
    "ntTotalDeductions (pcTotals c) = pcPenalty c + pcAdvancePayment c + pcOtherDeductions c + snd x"
    "ntNetSalary (pcTotals c) = max 0 (ntTotalIncome (pcTotals c) - ntTotalDeductions (pcTotals c))"
    by (simp_all add: c_def payslip_totals computePayslipTotals_def computeNetFromIncome_def Let_def round_sum
        p [unfolded c_def] w [unfolded x_def, simplified] x_def)
qed

text \<open>
  C1. A payslip adds up: the income is the earned base, allowances, bonus and added lines, the deductions
  are the penalty, advance, other and template deductions, the net pay is what is left and never negative,
  and a row the owner removed from the template neither pays nor takes anything.
\<close>

theorem payslip_adds_up:
  assumes "inPayslipRows i = map_option payslipRowsSnapshot rows"
  shows "ntTotalIncome (pcTotals (computePayslip i)) =
      pcEarnedBaseSalary (computePayslip i) + pcAllowancesTotal (computePayslip i) + pcBonus (computePayslip i) +
      fst (payslipExtraTotals (inPayslipRows i)) \<and>
    ntTotalDeductions (pcTotals (computePayslip i)) =
      pcPenalty (computePayslip i) + pcAdvancePayment (computePayslip i) + pcOtherDeductions (computePayslip i) +
      snd (payslipExtraTotals (inPayslipRows i)) \<and>
    ntNetSalary (pcTotals (computePayslip i)) =
      max 0 (ntTotalIncome (pcTotals (computePayslip i)) - ntTotalDeductions (pcTotals (computePayslip i))) \<and>
    (isBuiltinRemoved (inPayslipRows i) ALLOWANCE_ROW \<longrightarrow> pcAllowancesTotal (computePayslip i) = 0) \<and>
    (isBuiltinRemoved (inPayslipRows i) BONUS_ROW \<longrightarrow> pcBonus (computePayslip i) = 0) \<and>
    (isBuiltinRemoved (inPayslipRows i) DEDUCTION_ROW \<longrightarrow>
       pcPenalty (computePayslip i) = 0 \<and> pcOtherDeductions (computePayslip i) = 0)"
proof -
  have "opt_ok snapshot_ok (inPayslipRows i)" using assms by (cases rows) (simp_all add: snapshot_is_ok)
  from payslip_equations [OF this] show ?thesis
    by (simp add: computePayslip_def Let_def)
qed

definition meal_row :: template_row where
  "meal_row = \<lparr> trId = Some ''r1'', trBuiltinKey = None, trLabel = Some ''An trua'', trSign = JStr ''PLUS'',
     trAmount = JNum (Fin 300000), trSortOrder = JNum (Fin 1), trIsActive = Some True \<rparr>"

definition no_bonus_row :: template_row where
  "no_bonus_row = meal_row\<lparr>trBuiltinKey := Some ''BONUS'', trIsActive := Some False\<rparr>"

definition sample_payslip :: payslip_input where
  "sample_payslip = \<lparr> inPaymentType = Some PT_SHIFT, inRate = 150000, inAllowances = JNull, inRules = [half_bonus], inFacts = two_late,
     inStandardWorkingDays = 26, inCalendarDays = 30, inAdvancePayment = 100000, inOtherDeductions = 0,
     inEarnedBaseSalary = None, inPayslipRows = Some (payslipRowsSnapshot [meal_row, no_bonus_row]) \<rparr>"

theorem payslip_adds_up_witness:
  "ntNetSalary (pcTotals (computePayslip sample_payslip)) = 500000"
proof -
  have r: "inPayslipRows sample_payslip = map_option payslipRowsSnapshot (Some [meal_row, no_bonus_row])"
    by (simp add: sample_payslip_def)
  have c: "pcEarnedBaseSalary (computePayslip sample_payslip) = 300000" "pcAllowancesTotal (computePayslip sample_payslip) = 0"
    "pcAdvancePayment (computePayslip sample_payslip) = 100000" "pcOtherDeductions (computePayslip sample_payslip) = 0"
    "pcPenalty (computePayslip sample_payslip) = 0"
    "payslipExtraTotals (inPayslipRows sample_payslip) = (300000, 0)" "isBuiltinRemoved (inPayslipRows sample_payslip) BONUS_ROW"
    by code_simp+
  show ?thesis using payslip_adds_up [OF r] by (simp add: c)
qed

section \<open>The display reconciles with the payslip\<close>

text \<open>The stored columns of a computed payslip.\<close>

definition stored_of :: "payslip_computation \<Rightarrow> stored_payslip" where
  "stored_of c = \<lparr> spTotalIncome = JNum (Fin (ntTotalIncome (pcTotals c))), spAdvancePayment = JNum (Fin (pcAdvancePayment c)),
     spPenalty = JNum (Fin (pcPenalty c)), spOtherDeductions = JNum (Fin (pcOtherDeductions c)),
     spNetSalary = JNum (Fin (ntNetSalary (pcTotals c))),
     spPayslipRows = (case pcPayslipRows c of Some s \<Rightarrow> snapshot_json s | None \<Rightarrow> JNull) \<rparr>"

text \<open>
  The figures the salary screen derives from a stored payslip reconcile with it: income after the
  advance, less the deductions and template lines shown, is exactly income less deductions, and the
  screen says the net pay was clamped exactly when the deductions exceed the income.
\<close>

theorem display_reconciles:
  assumes "inPayslipRows i = map_option payslipRowsSnapshot rows"
  shows "tdIncomeAfterAdvance (describePayslipTotals (stored_of (computePayslip i))) -
      tdDeductionsExcludingAdvance (describePayslipTotals (stored_of (computePayslip i))) -
      tdExtraDeductions (describePayslipTotals (stored_of (computePayslip i))) =
      ntTotalIncome (pcTotals (computePayslip i)) - ntTotalDeductions (pcTotals (computePayslip i)) \<and>
    (tdIsNetClamped (describePayslipTotals (stored_of (computePayslip i))) \<longleftrightarrow>
      ntTotalIncome (pcTotals (computePayslip i)) < ntTotalDeductions (pcTotals (computePayslip i)))"
proof -
  let ?c = "computePayslip i"
  have ok: "opt_ok snapshot_ok (inPayslipRows i)" using assms by (cases rows) (simp_all add: snapshot_is_ok)
  note e = payslip_equations [OF ok]
  have rows: "pcPayslipRows ?c = inPayslipRows i" by (simp add: computePayslip_def Let_def)
  have read: "readPayslipRowsSnapshot (spPayslipRows (stored_of ?c)) = inPayslipRows i"
    using ok by (cases "inPayslipRows i") (simp_all add: stored_of_def rows stored_snapshot_reads_back, simp add: readPayslipRowsSnapshot_def)
  have removed: "pcPenalty ?c = 0" "pcOtherDeductions ?c = 0" if "isBuiltinRemoved (inPayslipRows i) DEDUCTION_ROW"
    using that by (simp_all add: computePayslip_def Let_def)
  have counted: "countedPayslipDeductions (spPenalty (stored_of ?c)) (spOtherDeductions (stored_of ?c)) (spPayslipRows (stored_of ?c)) =
      \<lparr> cdPenalty = pcPenalty ?c, cdOther = pcOtherDeductions ?c, cdExtra = snd (payslipExtraTotals (inPayslipRows i)) \<rparr>"
    unfolding countedPayslipDeductions_def Let_def read
    using removed by (simp add: stored_of_def payslip_components_whole)
  have net: "ntNetSalary (pcTotals ?c) = 0 \<longleftrightarrow> ntTotalIncome (pcTotals ?c) \<le> ntTotalDeductions (pcTotals ?c)"
    using e(3) by auto
  have d: "tdIncomeAfterAdvance (describePayslipTotals (stored_of ?c)) = ntTotalIncome (pcTotals ?c) - pcAdvancePayment ?c"
    "tdDeductionsExcludingAdvance (describePayslipTotals (stored_of ?c)) = pcPenalty ?c + pcOtherDeductions ?c"
    "tdExtraDeductions (describePayslipTotals (stored_of ?c)) = snd (payslipExtraTotals (inPayslipRows i))"
    unfolding describePayslipTotals_def Let_def counted by (simp_all add: stored_of_def)
  have cl: "tdIsNetClamped (describePayslipTotals (stored_of ?c)) \<longleftrightarrow>
      ntTotalIncome (pcTotals ?c) - pcAdvancePayment ?c - (pcPenalty ?c + pcOtherDeductions ?c) - snd (payslipExtraTotals (inPayslipRows i)) < 0 \<and>
      ntNetSalary (pcTotals ?c) = 0"
    unfolding describePayslipTotals_def Let_def counted by (simp add: stored_of_def)
  show ?thesis unfolding d cl net using e(2) by linarith
qed

theorem display_reconciles_witness:
  "\<not> tdIsNetClamped (describePayslipTotals (stored_of (computePayslip sample_payslip)))"
proof -
  have r: "inPayslipRows sample_payslip = map_option payslipRowsSnapshot (Some [meal_row, no_bonus_row])"
    by (simp add: sample_payslip_def)
  have "\<not> ntTotalIncome (pcTotals (computePayslip sample_payslip)) < ntTotalDeductions (pcTotals (computePayslip sample_payslip))"
    by code_simp
  then show ?thesis using display_reconciles [OF r] by blast
qed

section \<open>One owner per day\<close>

lemma at_less_order: "\<not> at_less a a" "at_less a b \<Longrightarrow> \<not> at_less b a" "at_less a b \<or> a = b \<or> at_less b a"
  "\<not> at_less a b \<Longrightarrow> \<not> at_less b c \<Longrightarrow> \<not> at_less a c"
  by (auto simp: at_less_def split: option.splits)

interpretation first_in: selection earlier_owner "\<lambda>x y. \<not> earlier_owner x y"
proof
  fix x y z :: day_owner
  show "earlier_owner x y \<Longrightarrow> \<not> earlier_owner y x"
    using at_less_order(1,2) by (auto simp: earlier_owner_def)
  show "\<not> earlier_owner x x" by (simp add: earlier_owner_def at_less_order)
  show "\<not> earlier_owner x y \<Longrightarrow> \<not> earlier_owner y z \<Longrightarrow> \<not> earlier_owner x z"
    using at_less_order(2,3,4) unfolding earlier_owner_def
    by (metis linorder_neqE linorder_not_less order_le_less_trans order_less_imp_le)
qed

lemma owner_tie: "\<not> earlier_owner x y \<Longrightarrow> \<not> earlier_owner y x \<Longrightarrow> doId x = doId y"
  using at_less_order(3) [of "doAt x" "doAt y"] by (auto simp: earlier_owner_def)

abbreviation date_of :: "assignment_fact \<Rightarrow> string" where
  "date_of a \<equiv> workDateOf (aWorkDate a)"

lemma owners_by_date:
  "map_of (foldl keep_owner [] xs) d = keep_best earlier_owner (map owner_of (filter (\<lambda>a. date_of a = d) xs))"
proof -
  have "map_of (foldl keep_owner [] xs) d =
      foldl (\<lambda>b a. keep_step earlier_owner b (owner_of a)) (map_of [] d) (filter (\<lambda>a. date_of a = d) xs)"
    by (rule objects.walk_at_key) (auto simp: keep_owner_def keep_step_def Let_def split: option.split)
  then show ?thesis by (simp add: keep_best_def foldl_map)
qed

lemma owners_distinct: "distinct (map fst (foldl keep_owner [] xs))"
  by (rule foldl_keys_distinct) (auto simp: keep_owner_def Let_def split: option.split)

lemma owner_entries: "(d, e) \<in> set (foldl keep_owner [] xs) \<longleftrightarrow>
    keep_best earlier_owner (map owner_of (filter (\<lambda>a. date_of a = d) xs)) = Some e"
  using owners_by_date [of xs d] map_of_eq_Some_iff [OF owners_distinct, of xs d e] by simp

text \<open>
  The monthly pay of a day goes to exactly one shift, the completed one with the earliest check-in (the
  smallest id among equals, shifts without a check-in last), so the choice does not depend on the order in
  which the shifts are read.
\<close>

theorem day_owner_is_the_first_in:
  "set (pickDayOwnerAssignmentIds xs) =
     {aId a | a. a \<in> set xs \<and> owns_candidate a \<and>
        (\<forall>b \<in> set xs. owns_candidate b \<and> date_of b = date_of a \<longrightarrow> \<not> earlier_owner (owner_of b) (owner_of a))}"
proof -
  let ?ys = "filter owns_candidate xs"
  let ?of = "\<lambda>d. map owner_of (filter (\<lambda>a. date_of a = d) ?ys)"
  have "id \<in> set (pickDayOwnerAssignmentIds xs) \<longleftrightarrow>
      (\<exists>d e. keep_best earlier_owner (?of d) = Some e \<and> doId e = id)" for id
    using owner_entries [of _ _ ?ys] by (force simp: pickDayOwnerAssignmentIds_def)
  moreover have "(\<exists>d e. keep_best earlier_owner (?of d) = Some e \<and> doId e = id) \<longleftrightarrow>
      (\<exists>a \<in> set ?ys. aId a = id \<and> (\<forall>b \<in> set ?ys. date_of b = date_of a \<longrightarrow> \<not> earlier_owner (owner_of b) (owner_of a)))" for id
  proof
    assume "\<exists>d e. keep_best earlier_owner (?of d) = Some e \<and> doId e = id"
    then obtain d e where k: "keep_best earlier_owner (?of d) = Some e" "doId e = id" by blast
    from first_in.best_characterised [OF k(1)] obtain a where "a \<in> set ?ys" "date_of a = d" "e = owner_of a"
      "\<forall>b \<in> set ?ys. date_of b = d \<longrightarrow> \<not> earlier_owner (owner_of b) e" by auto
    then show "\<exists>a \<in> set ?ys. aId a = id \<and> (\<forall>b \<in> set ?ys. date_of b = date_of a \<longrightarrow> \<not> earlier_owner (owner_of b) (owner_of a))"
      using k(2) by (intro bexI [of _ a]) (auto simp: owner_of_def)
  next
    assume "\<exists>a \<in> set ?ys. aId a = id \<and> (\<forall>b \<in> set ?ys. date_of b = date_of a \<longrightarrow> \<not> earlier_owner (owner_of b) (owner_of a))"
    then obtain a where a: "a \<in> set ?ys" "aId a = id"
      "\<forall>b \<in> set ?ys. date_of b = date_of a \<longrightarrow> \<not> earlier_owner (owner_of b) (owner_of a)" by blast
    then have "owner_of a \<in> set (?of (date_of a))" by auto
    then obtain e where k: "keep_best earlier_owner (?of (date_of a)) = Some e"
      by (cases "keep_best earlier_owner (?of (date_of a))") (simp_all only: keep_best_None_iff, simp)
    from first_in.best_characterised [OF k] \<open>owner_of a \<in> set (?of (date_of a))\<close> a(3)
    have "\<not> earlier_owner e (owner_of a)" "\<not> earlier_owner (owner_of a) e" by auto
    then have "doId e = id" using owner_tie [of e "owner_of a"] a(2) by (simp add: owner_of_def)
    then show "\<exists>d e. keep_best earlier_owner (?of d) = Some e \<and> doId e = id" using k by blast
  qed
  ultimately have m: "id \<in> set (pickDayOwnerAssignmentIds xs) \<longleftrightarrow>
      (\<exists>a \<in> set ?ys. aId a = id \<and> (\<forall>b \<in> set ?ys. date_of b = date_of a \<longrightarrow> \<not> earlier_owner (owner_of b) (owner_of a)))" for id
    by (rule trans)
  show ?thesis by (rule set_eqI) (simp only: m, auto)
qed

definition worked_shift :: "string \<Rightarrow> instant \<Rightarrow> assignment_fact" where
  "worked_shift i ms = \<lparr> aId = i, aWorkDate = JStr ''2026-10-03'', aWorkShiftId = None, aStatus = COMPLETED,
     aAttendanceStatus = None, aCheckInTime = DAt ms, aWorkedMinutes = JNum (Fin 240), aLateMinutes = JNull,
     aEarlyMinutes = JNull, aShiftEarnings = JNull, aLeaveCovered = False, aCheckOutTime = DAt (ms + 14400000),
     aWindowStart = DNull, aWindowEnd = DNull \<rparr>"

theorem day_owner_is_the_first_in_witness:
  "set (pickDayOwnerAssignmentIds [worked_shift ''a2'' 5000, worked_shift ''a1'' 5000, worked_shift ''a0'' 9000]) =
   set (pickDayOwnerAssignmentIds [worked_shift ''a0'' 9000, worked_shift ''a1'' 5000, worked_shift ''a2'' 5000])"
proof -
  have "set [worked_shift ''a2'' 5000, worked_shift ''a1'' 5000, worked_shift ''a0'' 9000] =
      set [worked_shift ''a0'' 9000, worked_shift ''a1'' 5000, worked_shift ''a2'' 5000]" by auto
  then show ?thesis unfolding day_owner_is_the_first_in by (simp only:)
qed

section \<open>Two employments in one month\<close>

lemma completed_count:
  "fCompletedShifts (summarizeMonthlyAttendance xs t) = of_nat (length (filter (\<lambda>a. aStatus a = COMPLETED) xs))"
  using completed_fold [of t no_facts xs] by (simp add: summarizeMonthlyAttendance_def Let_def no_facts_def)

definition paid_per_shift :: "stint_pricing \<Rightarrow> bool" where
  "paid_per_shift p \<longleftrightarrow> (resolvePayrollPaymentType (stPaymentType p) = PT_SHIFT \<or>
     resolvePayrollPaymentType (stPaymentType p) = PT_DAY) \<and> js_is_integer (stRate p)"

lemma earned_per_shift:
  assumes "paid_per_shift p"
  shows "computeEarnedBase (resolvePayrollPaymentType (stPaymentType p)) (stRate p)
      (earned_facts_of (summarizeMonthlyAttendance rows t)) s c =
    max 0 (stRate p) * of_nat (length (filter (\<lambda>a. aStatus a = COMPLETED) rows))"
proof -
  let ?n = "length (filter (\<lambda>a. aStatus a = COMPLETED) rows)"
  obtain k :: int where k: "stRate p = of_int k" using assms by (auto simp: paid_per_shift_def js_is_integer_iff)
  have "js_round (of_int k * of_nat ?n) = of_int k * of_nat ?n"
    using js_round_of_int [of "k * int ?n"] by simp
  then show ?thesis using assms k
    by (auto simp: paid_per_shift_def computeEarnedBase_def earnedBaseTerms_def earned_facts_of_def completed_count max_def)
qed

lemma price_per_shift:
  "paid_per_shift p \<Longrightarrow> stint_price i p rows = max 0 (stRate p) * of_nat (length (filter (\<lambda>a. aStatus a = COMPLETED) rows))"
  by (simp add: stint_price_def earned_per_shift)

text \<open>
  Splitting a month between two employments loses and doubles nothing: when both stints have the same
  per-shift contract and no shift has a stored figure, the two parts add up to what one contract pays for
  the whole month.
\<close>

theorem same_contract_split_pays_the_same:
  assumes split: "computeStintSplitEarnedBase None i = Some s"
    and same: "siPrior i = None \<or> siPrior i = Some (siCurrent i)"
    and fresh: "list_all (\<lambda>a. nullish (aShiftEarnings a)) (siAssignments i)"
    and per: "paid_per_shift (siCurrent i)"
  shows "ssEarnedBase s = computeEarnedBase (resolvePayrollPaymentType (stPaymentType (siCurrent i))) (stRate (siCurrent i))
      (earned_facts_of (summarizeMonthlyAttendance (siAssignments i) (siTodayVn i))) (siStandardWorkingDays i) (siCalendarDays i)"
proof -
  let ?xs = "siAssignments i" and ?done = "\<lambda>a. aStatus a = COMPLETED"
  obtain start where start: "nonempty (siStintStartDate i) = Some start"
    using split by (cases "nonempty (siStintStartDate i)") (simp_all add: computeStintSplitEarnedBase_def)
  define prior where "prior = filter (\<lambda>a. before_stint start a \<and> ?done a) ?xs"
  define current where "current = filter (\<lambda>a. \<not> before_stint start a) ?xs"
  have "\<forall>a \<in> set prior. nullish (aShiftEarnings a)" using fresh by (simp add: prior_def list_all_iff)
  then have stored: "filter (\<lambda>a. \<not> nullish (aShiftEarnings a)) prior = []" "filter (\<lambda>a. nullish (aShiftEarnings a)) prior = prior"
    by (simp_all add: filter_empty_conv filter_id_conv)
  have contract: "(case siPrior i of Some p \<Rightarrow> p | None \<Rightarrow> siCurrent i) = siCurrent i" using same by auto
  have "ssEarnedBase s = stint_price i (siCurrent i) prior + stint_price i (siCurrent i) current"
    using split by (auto simp: computeStintSplitEarnedBase_def start Let_def prior_def [symmetric] current_def [symmetric]
        stored contract split: if_splits)
  moreover have "length (filter ?done prior) + length (filter ?done current) = length (filter ?done ?xs)"
  proof -
    have "filter ?done prior = filter (before_stint start) (filter ?done ?xs)"
      "filter ?done current = filter (\<lambda>a. \<not> before_stint start a) (filter ?done ?xs)"
      by (simp_all add: prior_def current_def conj_commute) (metis (no_types, lifting) filter_cong)
    then show ?thesis by (simp only: sum_length_filter_compl)
  qed
  ultimately show ?thesis
    by (simp add: price_per_shift [OF per] earned_per_shift [OF per] distrib_left [symmetric] del: of_nat_add flip: of_nat_add)
qed

definition rehired_month :: split_input where
  "rehired_month = \<lparr> siAssignments = [worked_shift ''a1'' 5000, worked_shift ''a2'' 9000\<lparr>aWorkDate := JStr ''2026-10-20''\<rparr>],
     siStintStartDate = Some ''2026-10-15'', siTodayVn = ''2026-10-31'',
     siCurrent = \<lparr> stPaymentType = Some PT_SHIFT, stRate = 150000 \<rparr>, siPrior = None, siStandardWorkingDays = 26, siCalendarDays = 31 \<rparr>"

theorem same_contract_split_pays_the_same_witness:
  "map_option ssEarnedBase (computeStintSplitEarnedBase None rehired_month) = Some 300000"
proof -
  have "list_ex (before_stint ''2026-10-15'') (siAssignments rehired_month)" by code_simp
  then obtain s where s: "computeStintSplitEarnedBase None rehired_month = Some s"
    by (simp add: computeStintSplitEarnedBase_def rehired_month_def nonempty_def Let_def)
  have h: "siPrior rehired_month = None \<or> siPrior rehired_month = Some (siCurrent rehired_month)"
    "list_all (\<lambda>a. nullish (aShiftEarnings a)) (siAssignments rehired_month)" "paid_per_shift (siCurrent rehired_month)"
    by (simp add: rehired_month_def, code_simp, code_simp)
  have "length (filter (\<lambda>a. aStatus a = COMPLETED) (siAssignments rehired_month)) = 2" "stRate (siCurrent rehired_month) = 150000"
    by (simp_all add: rehired_month_def worked_shift_def)
  then show ?thesis
    using same_contract_split_pays_the_same [OF s h, unfolded earned_per_shift [OF h(3)]] by (simp add: s)
qed

end
