(* ===== verification/WageRates.thy ===== *)
theory WageRates
  imports EarnedBase
begin

text \<open>
  \<open>src/modules/stores/wage-rates.utils.ts\<close>: the store's wage rates by shift, position and time of day.
  A shift paid by the hour is cut at the edges of the rates' time windows, each piece is priced by the
  best rate covering its midpoint, and the rate of the shift is the average by length. The lemmas show
  that sampling midpoints is exact, and that shifts no rate applies to are paid their contract.
\<close>

section \<open>Rules and shifts\<close>

datatype wage_unit = WU_HOUR | WU_SHIFT

record wage_rate_rule =
  wrId :: "string option"
  wrUnit :: wage_unit
  wrAmount :: rat
  wrWorkShiftIds :: "string list"
  wrRoleIds :: "string list"
  wrTimeFrom :: "string option"
  wrTimeTo :: "string option"

record wage_row =
  wwUnit :: string
  wwAmount :: jsval
  wwWorkShiftIds :: "string list option"
  wwRoleIds :: "string list option"
  wwTimeFrom :: "string option"
  wwTimeTo :: "string option"

record wage_shift =
  wsWorkShiftId :: "string option"
  wsRoleId :: "string option"
  wsFrom :: datev
  wsTo :: datev

record wage_priced_shift = wage_shift +
  wsWorkedMinutes :: jsval

definition list_or_empty :: "'a list option \<Rightarrow> 'a list" where
  "list_or_empty v = (case v of Some xs \<Rightarrow> xs | None \<Rightarrow> [])"

definition wageRuleOf :: "wage_row \<Rightarrow> wage_rate_rule" where
  "wageRuleOf r = \<lparr> wrId = None, wrUnit = (if wwUnit r = ''SHIFT'' then WU_SHIFT else WU_HOUR),
     wrAmount = toFiniteNumber (wwAmount r), wrWorkShiftIds = list_or_empty (wwWorkShiftIds r),
     wrRoleIds = list_or_empty (wwRoleIds r),
     wrTimeFrom = map_option (take 5) (nonempty (wwTimeFrom r)), wrTimeTo = map_option (take 5) (nonempty (wwTimeTo r)) \<rparr>"

definition wageUnitOf :: "payment_type option \<Rightarrow> wage_unit option" where
  "wageUnitOf paymentType = (if paymentType = Some PT_HOUR then Some WU_HOUR
     else if paymentType = Some PT_SHIFT then Some WU_SHIFT else None)"

text \<open>The pattern \<open>^(\d{1,2}):(\d{2})(?::\d{2})?$\<close>, on the trimmed text.\<close>

definition minuteOfDay :: "string option \<Rightarrow> int option" where
  "minuteOfDay value =
     (case value of
        None \<Rightarrow> None
      | Some v \<Rightarrow>
          let s = js_trim v; hh = takeWhile is_digit s; r = dropWhile is_digit s; mm = drop 1 r;
              shape = ((length hh = 1 \<or> length hh = 2) \<and> take 1 r = '':'' \<and> length (take 2 mm) = 2 \<and> list_all is_digit (take 2 mm) \<and>
                (length mm = 2 \<or> length mm = 5 \<and> mm ! 2 = CHR '':'' \<and> list_all is_digit (drop 3 mm)));
              h = int (digits_val hh); min = int (digits_val (take 2 mm))
          in if \<not> shape then None else if h > 23 \<or> min > 59 then None else Some (h * 60 + min))"

definition hasWindow :: "wage_rate_rule \<Rightarrow> bool" where
  "hasWindow r \<longleftrightarrow> minuteOfDay (wrTimeFrom r) \<noteq> None \<and> minuteOfDay (wrTimeTo r) \<noteq> None"

definition specificity :: "wage_rate_rule \<Rightarrow> nat" where
  "specificity r = (if wrWorkShiftIds r \<noteq> [] then 1 else 0) + (if wrRoleIds r \<noteq> [] then 1 else 0) + (if hasWindow r then 1 else 0)"

definition better_rate :: "wage_rate_rule \<Rightarrow> wage_rate_rule \<Rightarrow> bool" where
  "better_rate r pick \<longleftrightarrow> specificity r > specificity pick \<or> specificity r = specificity pick \<and> wrAmount r > wrAmount pick"

definition best :: "wage_rate_rule list \<Rightarrow> wage_rate_rule option" where
  "best rules = keep_best better_rate rules"

text \<open>The remainder \<open>%\<close>: the sign of the dividend. A midpoint may fall between two milliseconds.\<close>

definition js_rem :: "rat \<Rightarrow> rat \<Rightarrow> rat" where
  "js_rem x d = x - d * js_trunc (x / d)"

definition inWindow :: "wage_rate_rule \<Rightarrow> rat \<Rightarrow> bool" where
  "inWindow r ms =
     (case (minuteOfDay (wrTimeFrom r), minuteOfDay (wrTimeTo r)) of
        (Some from, Some to) \<Rightarrow>
          let day = of_int DAY_MS; minute = \<lfloor>js_rem (js_rem (ms + of_int VN_OFFSET_MS) day + day) day / 60000\<rfloor>
          in if from < to then minute \<ge> from \<and> minute < to else minute \<ge> from \<or> minute < to
      | _ \<Rightarrow> True)"

text \<open>The midnights the loop visits.\<close>

function midnights :: "int \<Rightarrow> int \<Rightarrow> int list" where
  "midnights day until = (if day < until then day # midnights (day + DAY_MS) until else [])"
  by auto
termination by (relation "measure (\<lambda>(day, until). nat (until - day))") (auto simp: DAY_MS_def)

declare midnights.simps [simp del]

definition rule_edges :: "int \<Rightarrow> int \<Rightarrow> wage_rate_rule \<Rightarrow> int list" where
  "rule_edges from to r =
     (case (minuteOfDay (wrTimeFrom r), minuteOfDay (wrTimeTo r)) of
        (Some a, Some b) \<Rightarrow>
          let firstMidnight = (from + VN_OFFSET_MS) div DAY_MS * DAY_MS - VN_OFFSET_MS
          in filter (\<lambda>at_ms. at_ms > from \<and> at_ms < to)
               (concat (map (\<lambda>day. [day + a * 60000, day + b * 60000]) (midnights (firstMidnight - DAY_MS) (to + DAY_MS))))
      | _ \<Rightarrow> [])"

definition windowEdges :: "wage_rate_rule list \<Rightarrow> int \<Rightarrow> int \<Rightarrow> int list" where
  "windowEdges rules from to = sort (js_set (concat (map (rule_edges from to) rules)))"

definition applies_to :: "string list \<Rightarrow> string option \<Rightarrow> bool" where
  "applies_to ids v \<longleftrightarrow> ids = [] \<or> (case v of Some i \<Rightarrow> i \<in> set ids | None \<Rightarrow> False)"

definition candidatesFor :: "wage_rate_rule list \<Rightarrow> wage_unit \<Rightarrow> ('a wage_shift_scheme) \<Rightarrow> wage_rate_rule list" where
  "candidatesFor rules unit shift =
     filter (\<lambda>r. wrUnit r = unit \<and> wrAmount r > 0 \<and> applies_to (wrWorkShiftIds r) (wsWorkShiftId shift) \<and>
       applies_to (wrRoleIds r) (wsRoleId shift)) rules"

definition amount_or :: "rat \<Rightarrow> wage_rate_rule option \<Rightarrow> rat" where
  "amount_or fallback pick = (case pick of Some r \<Rightarrow> wrAmount r | None \<Rightarrow> fallback)"

text \<open>The loop over consecutive points.\<close>

fun weigh :: "wage_rate_rule list \<Rightarrow> wage_rate_rule list \<Rightarrow> rat \<Rightarrow> int list \<Rightarrow> rat" where
  "weigh allDay windowed fallback (a # b # points) =
     (let mid = of_int a + of_int (b - a) / 2
      in amount_or fallback (best (allDay @ filter (\<lambda>r. inWindow r mid) windowed)) * of_int (b - a) +
         weigh allDay windowed fallback (b # points))"
| "weigh allDay windowed fallback _ = 0"

definition wageRateForShift :: "wage_rate_rule list \<Rightarrow> wage_unit \<Rightarrow> rat \<Rightarrow> ('a wage_shift_scheme) \<Rightarrow> rat" where
  "wageRateForShift rules unit fallback shift =
     (let candidates = candidatesFor rules unit shift in
      if candidates = [] then fallback
      else
        let allDay = filter (\<lambda>r. \<not> hasWindow r) candidates; windowed = filter hasWindow candidates in
        if unit = WU_SHIFT then amount_or fallback (best allDay)
        else case (instantMs (wsFrom shift), instantMs (wsTo shift)) of
            (Some from, Some to) \<Rightarrow>
              if windowed = [] \<or> \<not> to > from then amount_or fallback (best allDay)
              else weigh allDay windowed fallback (from # windowEdges windowed from to @ [to]) / of_int (to - from)
          | _ \<Rightarrow> amount_or fallback (best allDay))"

definition wageRulesApply :: "wage_rate_rule list \<Rightarrow> wage_unit \<Rightarrow> wage_shift list \<Rightarrow> bool" where
  "wageRulesApply rules unit shifts \<longleftrightarrow> list_ex (\<lambda>shift. candidatesFor rules unit shift \<noteq> []) shifts"

definition paid_minutes :: "jsval \<Rightarrow> rat" where
  "paid_minutes v = (case js_number v of Fin m \<Rightarrow> if m > 0 then m else 0 | _ \<Rightarrow> 0)"

definition wageEarnedOf :: "wage_rate_rule list \<Rightarrow> wage_unit \<Rightarrow> rat \<Rightarrow> wage_priced_shift list \<Rightarrow> rat" where
  "wageEarnedOf rules unit fallback shifts =
     (let total = sum_list (map (\<lambda>shift. wageRateForShift rules unit fallback shift *
            (if unit = WU_SHIFT then 1 else paid_minutes (wsWorkedMinutes shift))) shifts)
      in js_round (if unit = WU_SHIFT then total else total / 60))"

text \<open>\<open>new Date(ms)\<close> of a fractional number of milliseconds truncates it.\<close>

definition date_at :: "rat \<Rightarrow> datev" where
  "date_at x = DAt (if 0 \<le> x then \<lfloor>x\<rfloor> else \<lceil>x\<rceil>)"

definition wageIntervalOf :: "datev \<Rightarrow> datev \<Rightarrow> datev \<Rightarrow> datev \<Rightarrow> rat option \<Rightarrow> datev \<times> datev" where
  "wageIntervalOf checkInTime checkOutTime windowStart windowEnd workedMinutes =
     (let start = instantMs windowStart; end = instantMs windowEnd;
          scheduled_interval = (case (start, end) of
              (Some s, Some e) \<Rightarrow> if e > s then (DAt s, DAt e) else (DNull, DNull) | _ \<Rightarrow> (DNull, DNull))
      in case (instantMs checkInTime, instantMs checkOutTime) of
          (Some checkIn, Some checkOut) \<Rightarrow>
            if checkOut > checkIn then
              let paidMs = (case workedMinutes of Some w \<Rightarrow> if w > 0 then Some (w * 60000) else None | None \<Rightarrow> None);
                  from0 = (case start of Some s \<Rightarrow> if s > checkIn \<and> s < checkOut then s else checkIn | None \<Rightarrow> checkIn);
                  from = (case paidMs of Some p \<Rightarrow> if p > of_int (checkOut - from0) then checkIn else from0 | None \<Rightarrow> from0)
              in (DAt from, case paidMs of Some p \<Rightarrow> date_at (min (of_int checkOut) (of_int from + p)) | None \<Rightarrow> DAt checkOut)
            else scheduled_interval
        | _ \<Rightarrow> scheduled_interval)"

section \<open>The minute of an instant\<close>

definition at_minute :: "int \<Rightarrow> int" where
  "at_minute t = (t + VN_OFFSET_MS) mod DAY_MS div 60000"

definition minute_in :: "int \<Rightarrow> int \<Rightarrow> int \<Rightarrow> bool" where
  "minute_in from to m \<longleftrightarrow> (if from < to then from \<le> m \<and> m < to else from \<le> m \<or> m < to)"

definition open_at :: "wage_rate_rule \<Rightarrow> int \<Rightarrow> bool" where
  "open_at r t \<longleftrightarrow> (case (minuteOfDay (wrTimeFrom r), minuteOfDay (wrTimeTo r)) of
       (Some from, Some to) \<Rightarrow> minute_in from to (at_minute t) | _ \<Rightarrow> True)"

lemma floor_div:
  fixes x :: rat
  assumes "0 < d"
  shows "\<lfloor>x / of_int d\<rfloor> = \<lfloor>x\<rfloor> div d"
proof (rule floor_unique)
  have d: "(0 :: rat) < of_int d" using assms by simp
  have q: "d * (\<lfloor>x\<rfloor> div d) \<le> \<lfloor>x\<rfloor>" "\<lfloor>x\<rfloor> < d * (\<lfloor>x\<rfloor> div d) + d"
    using assms mult_div_mod_eq [of d "\<lfloor>x\<rfloor>"] pos_mod_bound [of d "\<lfloor>x\<rfloor>"] pos_mod_sign [of d "\<lfloor>x\<rfloor>"] by linarith+
  have "(of_int (d * (\<lfloor>x\<rfloor> div d)) :: rat) \<le> x" using q(1) by (metis le_floor_iff)
  then show "of_int (\<lfloor>x\<rfloor> div d) \<le> x / of_int d" using d by (simp add: pos_le_divide_eq mult.commute)
  have "x < of_int (d * (\<lfloor>x\<rfloor> div d) + d)" using q(2) by (metis floor_less_iff)
  then show "x / of_int d < of_int (\<lfloor>x\<rfloor> div d) + 1" using d by (simp add: pos_divide_less_eq algebra_simps)
qed

lemma js_rem_twice:
  fixes y :: rat
  assumes "0 < d"
  shows "js_rem (js_rem y (of_int d) + of_int d) (of_int d) = y - of_int d * of_int \<lfloor>y / of_int d\<rfloor>"
proof -
  have d: "(0 :: rat) < of_int d" using assms by simp
  define k where "k = (if 0 \<le> y / of_int d then \<lfloor>y / of_int d\<rfloor> else \<lceil>y / of_int d\<rceil>)"
  have k: "js_trunc (y / of_int d) = of_int k" by (simp add: js_trunc_def k_def)
  have "of_int k \<le> y / of_int d + 1" unfolding k_def by (auto simp: of_int_ceiling_le_add_one) linarith
  then have "0 \<le> y / of_int d - of_int k + 1" by simp
  define z where "z = js_rem y (of_int d) + of_int d"
  have z: "z = y - of_int d * of_int k + of_int d" by (simp add: z_def js_rem_def k)
  have zd: "z / of_int d = y / of_int d - of_int k + 1" using d by (simp add: z field_simps)
  have "\<lfloor>z / of_int d\<rfloor> = \<lfloor>y / of_int d\<rfloor> - k + 1" unfolding zd by linarith
  moreover have "0 \<le> z / of_int d" unfolding zd by fact
  ultimately have t: "js_trunc (z / of_int d) = of_int (\<lfloor>y / of_int d\<rfloor> - k + 1)" by (simp add: js_trunc_def)
  have "js_rem z (of_int d) = z - of_int d * of_int (\<lfloor>y / of_int d\<rfloor> - k + 1)" unfolding js_rem_def t ..
  also have "\<dots> = y - of_int d * of_int \<lfloor>y / of_int d\<rfloor>" by (simp add: z algebra_simps)
  finally show ?thesis by (simp only: z_def)
qed

text \<open>The code's test at a (possibly fractional) instant is the test of the minute of its millisecond.\<close>

lemma inWindow_floor: "inWindow r x \<longleftrightarrow> open_at r \<lfloor>x\<rfloor>"
proof -
  define y where "y = x + of_int VN_OFFSET_MS"
  have D: "0 < DAY_MS" by (simp add: DAY_MS_def)
  have n: "\<lfloor>y\<rfloor> = \<lfloor>x\<rfloor> + VN_OFFSET_MS" by (simp add: y_def)
  have "\<lfloor>(y - of_int DAY_MS * of_int \<lfloor>y / of_int DAY_MS\<rfloor>) / 60000\<rfloor> = \<lfloor>y - of_int (DAY_MS * (\<lfloor>y\<rfloor> div DAY_MS))\<rfloor> div 60000"
    using floor_div [of 60000 "y - of_int (DAY_MS * (\<lfloor>y\<rfloor> div DAY_MS))"] by (simp add: floor_div [OF D])
  also have "\<lfloor>y - of_int (DAY_MS * (\<lfloor>y\<rfloor> div DAY_MS))\<rfloor> = \<lfloor>y\<rfloor> mod DAY_MS"
    by (simp only: floor_diff_of_int minus_mult_div_eq_mod)
  finally have "\<lfloor>js_rem (js_rem y (of_int DAY_MS) + of_int DAY_MS) (of_int DAY_MS) / 60000\<rfloor> = at_minute \<lfloor>x\<rfloor>"
    by (simp add: js_rem_twice [OF D] at_minute_def n)
  then show ?thesis
    by (simp add: inWindow_def open_at_def Let_def minute_in_def y_def split: option.split)
qed

section \<open>Coverage only changes at an edge\<close>

lemma set_midnights: "d \<in> set (midnights s u) \<longleftrightarrow> s \<le> d \<and> d < u \<and> (d - s) mod DAY_MS = 0"
proof (induction s u rule: midnights.induct)
  case (1 s u)
  show ?case
  proof (cases "s < u")
    case True
    have "(d - s) mod DAY_MS = 0 \<and> s \<le> d \<longleftrightarrow> d = s \<or> s + DAY_MS \<le> d \<and> (d - (s + DAY_MS)) mod DAY_MS = 0"
    proof -
      have "(d - s) mod DAY_MS = 0 \<Longrightarrow> s < d \<Longrightarrow> s + DAY_MS \<le> d"
        using zdvd_imp_le [of DAY_MS "d - s"] by (auto simp: mod_eq_0_iff_dvd)
      moreover have "(d - (s + DAY_MS)) mod DAY_MS = (d - s) mod DAY_MS" by (simp add: diff_diff_eq [symmetric])
      ultimately show ?thesis by (auto simp: DAY_MS_def)
    qed
    then show ?thesis using True 1 by (subst midnights.simps) auto
  qed (subst midnights.simps, auto)
qed

lemma minuteOfDay_range: "minuteOfDay v = Some m \<Longrightarrow> 0 \<le> m \<and> m \<le> 1439"
  by (auto simp: minuteOfDay_def Let_def split: option.splits if_splits)

lemma mod_pred:
  assumes "0 < (d :: int)"
  shows "u mod d = (if (u + 1) mod d = 0 then d - 1 else (u + 1) mod d - 1)"
proof -
  define q T where "q = (u + 1) div d" and "T = (u + 1) mod d"
  have u: "u = d * q + (T - 1)" using mult_div_mod_eq [of d "u + 1"] unfolding q_def T_def by linarith
  have T: "0 \<le> T" "T < d" using assms by (simp_all add: T_def)
  have "u mod d = (T - 1) mod d" unfolding u by simp
  also have "\<dots> = (if T = 0 then d - 1 else T - 1)"
    using T by (auto simp: mod_pos_pos_trivial zmod_minus1)
  finally show ?thesis by (simp only: T_def)
qed

lemma div_pred:
  assumes "0 < (d :: int)"
  shows "(u - 1) div d = (if u mod d = 0 then u div d - 1 else u div d)"
proof -
  define q r where "q = u div d" and "r = u mod d"
  have u: "u - 1 = (r - 1) + d * q" using mult_div_mod_eq [of d u] unfolding q_def r_def by linarith
  have r: "0 \<le> r" "r < d" using assms by (simp_all add: r_def)
  have "(u - 1) div d = (r - 1) div d + q" unfolding u using assms by simp
  also have "(r - 1) div d = (if r = 0 then -1 else 0)"
    using r by (auto simp: div_pos_pos_trivial zdiv_eq_0_iff div_eq_minus1)
  finally show ?thesis by (simp add: q_def r_def)
qed

lemma minute_change:
  assumes "0 \<le> a" "a \<le> 1439" "0 \<le> b" "b \<le> 1439"
    and diff: "minute_in a b (at_minute t) \<noteq> minute_in a b (at_minute (t + 1))"
  shows "(t + 1 + VN_OFFSET_MS) mod DAY_MS = a * 60000 \<or> (t + 1 + VN_OFFSET_MS) mod DAY_MS = b * 60000"
proof -
  define T where "T = (t + 1 + VN_OFFSET_MS) mod DAY_MS"
  have T: "0 \<le> T" "T < 86400000" by (simp_all add: T_def DAY_MS_def)
  have prev: "(t + VN_OFFSET_MS) mod DAY_MS = (if T = 0 then 86399999 else T - 1)"
    using mod_pred [of DAY_MS "t + VN_OFFSET_MS"] by (simp add: T_def DAY_MS_def ac_simps)
  have m: "at_minute (t + 1) = T div 60000" by (simp add: at_minute_def T_def)
  show ?thesis
  proof (cases "T = 0")
    case True
    have "at_minute t = 1439" "at_minute (t + 1) = 0" using prev True m by (simp_all add: at_minute_def)
    then show ?thesis using diff assms(1-4) True by (auto simp: minute_in_def T_def [symmetric] split: if_splits)
  next
    case False
    then have p: "at_minute t = (T - 1) div 60000" using prev by (simp add: at_minute_def)
    show ?thesis
    proof (cases "T mod 60000 = 0")
      case True
      then have "(T - 1) div 60000 = T div 60000 - 1" by (simp add: div_pred)
      moreover have "T = T div 60000 * 60000" using True mult_div_mod_eq [of 60000 T] by linarith
      ultimately show ?thesis using diff p m unfolding T_def [symmetric] minute_in_def
        by (smt (verit))
    next
      case False
      then have "(T - 1) div 60000 = T div 60000" by (simp add: div_pred)
      then show ?thesis using diff p m by simp
    qed
  qed
qed

lemma coverage_change_is_edge:
  assumes "hasWindow r" "open_at r t \<noteq> open_at r (t + 1)" "from < t + 1" "t + 1 < to"
  shows "t + 1 \<in> set (rule_edges from to r)"
proof -
  obtain a b where ab: "minuteOfDay (wrTimeFrom r) = Some a" "minuteOfDay (wrTimeTo r) = Some b"
    using assms(1) by (auto simp: hasWindow_def)
  have ne: "minute_in a b (at_minute t) \<noteq> minute_in a b (at_minute (t + 1))" using assms(2) by (simp add: open_at_def ab)
  have range: "0 \<le> a" "a \<le> 1439" "0 \<le> b" "b \<le> 1439" using minuteOfDay_range ab by blast+
  obtain m where m: "m = a \<or> m = b" "(t + 1 + VN_OFFSET_MS) mod DAY_MS = m * 60000"
    using minute_change [OF range ne] by blast
  define day where "day = (t + 1 + VN_OFFSET_MS) div DAY_MS * DAY_MS - VN_OFFSET_MS"
  have t: "t + 1 = day + m * 60000"
    using mult_div_mod_eq [of DAY_MS "t + 1 + VN_OFFSET_MS"] m(2) by (simp add: day_def mult.commute)
  define f where "f = (from + VN_OFFSET_MS) div DAY_MS"
  have D: "0 < DAY_MS" by (simp add: DAY_MS_def)
  have q: "f \<le> (t + 1 + VN_OFFSET_MS) div DAY_MS" using assms(3) unfolding f_def by (intro zdiv_mono1) (simp_all add: D)
  have "day - (f * DAY_MS - VN_OFFSET_MS - DAY_MS) = DAY_MS * ((t + 1 + VN_OFFSET_MS) div DAY_MS - f + 1)"
    by (simp add: day_def algebra_simps)
  moreover have "0 \<le> DAY_MS * ((t + 1 + VN_OFFSET_MS) div DAY_MS - f + 1)" using q D by (intro mult_nonneg_nonneg) simp_all
  ultimately have "f * DAY_MS - VN_OFFSET_MS - DAY_MS \<le> day" "(day - (f * DAY_MS - VN_OFFSET_MS - DAY_MS)) mod DAY_MS = 0"
    by (linarith, simp)
  moreover have "day < to + DAY_MS" using t range m(1) assms(4) D by auto
  ultimately have "day \<in> set (midnights (f * DAY_MS - VN_OFFSET_MS - DAY_MS) (to + DAY_MS))" by (simp add: set_midnights)
  then show ?thesis using assms(3,4) m(1) t by (auto simp: rule_edges_def ab Let_def f_def intro!: bexI [of _ day])
qed

lemma coverage_constant:
  assumes "hasWindow r" "from \<le> lo" "hi \<le> to" and none: "\<And>e. e \<in> set (rule_edges from to r) \<Longrightarrow> \<not> (lo < e \<and> e < hi)"
    and t: "lo \<le> t" "t < hi"
  shows "open_at r t = open_at r lo"
proof -
  have "lo + int n < hi \<Longrightarrow> open_at r (lo + int n) = open_at r lo" for n
  proof (induction n)
    case (Suc n)
    have "lo + int n + 1 \<notin> set (rule_edges from to r)" using none [of "lo + int n + 1"] Suc.prems by auto
    then have "open_at r (lo + int n) = open_at r (lo + int n + 1)"
      using coverage_change_is_edge [OF assms(1), of "lo + int n" "from" to] Suc.prems assms(2,3) by auto
    then show ?case using Suc by (simp add: add.commute add.left_commute)
  qed simp
  from this [of "nat (t - lo)"] show ?thesis using t by simp
qed

section \<open>Sampling midpoints is exact\<close>

interpretation better: selection better_rate
  "\<lambda>x y. specificity x < specificity y \<or> specificity x = specificity y \<and> wrAmount x \<le> wrAmount y"
  by unfold_locales (auto simp: better_rate_def)

lemma best_amount_set: "set xs = set ys \<Longrightarrow> amount_or f (best xs) = amount_or f (best ys)"
proof (cases "xs = []")
  case False
  assume e: "set xs = set ys"
  then have "ys \<noteq> []" using False by auto
  then obtain b c where b: "keep_best better_rate xs = Some b" "keep_best better_rate ys = Some c"
    using False by (cases "keep_best better_rate xs"; cases "keep_best better_rate ys") auto
  then show ?thesis using better.best_order_irrelevant [OF e b] by (auto simp: best_def amount_or_def)
qed simp

text \<open>The rate in force at one millisecond of a shift.\<close>

definition rate_at :: "wage_rate_rule list \<Rightarrow> rat \<Rightarrow> int \<Rightarrow> rat" where
  "rate_at candidates fallback t = amount_or fallback (best (filter (\<lambda>r. open_at r t) candidates))"

definition piece_rate :: "wage_rate_rule list \<Rightarrow> wage_rate_rule list \<Rightarrow> rat \<Rightarrow> int \<Rightarrow> rat" where
  "piece_rate allDay windowed fallback t = amount_or fallback (best (allDay @ filter (\<lambda>r. open_at r t) windowed))"

lemma no_window_open: "\<not> hasWindow r \<Longrightarrow> open_at r t"
  by (auto simp: hasWindow_def open_at_def split: option.split)

lemma piece_rate_at: "piece_rate (filter (\<lambda>r. \<not> hasWindow r) cs) (filter hasWindow cs) f t = rate_at cs f t"
  unfolding piece_rate_def rate_at_def by (rule best_amount_set) (auto simp: no_window_open)

lemma sum_constant_span:
  fixes g :: "int \<Rightarrow> rat"
  assumes "a \<le> b" "\<And>t. a \<le> t \<Longrightarrow> t < b \<Longrightarrow> g t = c"
  shows "sum g {a..<b} = c * of_int (b - a)"
proof -
  have "sum g {a..<b} = sum (\<lambda>_. c) {a..<b}" using assms(2) by (intro sum.cong) auto
  then show ?thesis using assms(1) by (simp add: mult.commute)
qed

lemma weigh_sum:
  assumes "sorted_wrt (<) (a # ps)" "from \<le> a" "last (a # ps) \<le> to"
    and edges: "\<And>r e. r \<in> set windowed \<Longrightarrow> e \<in> set (rule_edges from to r) \<Longrightarrow> a < e \<Longrightarrow> e < last (a # ps) \<Longrightarrow> e \<in> set ps"
    and win: "\<And>r. r \<in> set windowed \<Longrightarrow> hasWindow r"
  shows "weigh allDay windowed fallback (a # ps) = sum (piece_rate allDay windowed fallback) {a..<last (a # ps)}"
  using assms(1-4)
proof (induction ps arbitrary: a)
  case (Cons b ps)
  define mid where "mid = (of_int a + of_int (b - a) / 2 :: rat)"
  have ab: "a < b" using Cons.prems(1) by simp
  have srt: "sorted_wrt (<) (b # ps)" using Cons.prems(1) by simp
  have bl: "b \<le> last (b # ps)" using srt by (cases ps) (auto simp: less_le)
  have m: "a \<le> \<lfloor>mid\<rfloor>" "\<lfloor>mid\<rfloor> < b" using ab by (auto simp: mid_def le_floor_iff floor_less_iff field_simps)
  have none: "\<not> (a < e \<and> e < b)" if "r \<in> set windowed" "e \<in> set (rule_edges from to r)" for r e
  proof
    assume e: "a < e \<and> e < b"
    then have "e \<in> set (b # ps)" using Cons.prems(4) [OF that] bl by simp
    then show False using e srt by auto
  qed
  have const: "open_at r t = open_at r a" if "r \<in> set windowed" "a \<le> t" "t < b" for r t
    using coverage_constant [OF win [OF that(1)] Cons.prems(2), of b to t] none [OF that(1)] that bl Cons.prems(3) by simp
  have piece: "piece_rate allDay windowed fallback t = amount_or fallback (best (allDay @ filter (\<lambda>r. inWindow r mid) windowed))"
    if "a \<le> t" "t < b" for t
  proof -
    have "filter (\<lambda>r. open_at r t) windowed = filter (\<lambda>r. inWindow r mid) windowed"
      using const [OF _ that] const [OF _ m] by (intro filter_cong) (simp_all add: inWindow_floor)
    then show ?thesis by (simp add: piece_rate_def)
  qed
  have "weigh allDay windowed fallback (a # b # ps) =
      amount_or fallback (best (allDay @ filter (\<lambda>r. inWindow r mid) windowed)) * of_int (b - a) + weigh allDay windowed fallback (b # ps)"
    by (simp add: mid_def Let_def)
  also have "weigh allDay windowed fallback (b # ps) = sum (piece_rate allDay windowed fallback) {b..<last (b # ps)}"
  proof (rule Cons.IH [OF srt])
    show "from \<le> b" using Cons.prems(2) ab by simp
    show "last (b # ps) \<le> to" using Cons.prems(3) by simp
    show "e \<in> set ps" if "r \<in> set windowed" "e \<in> set (rule_edges from to r)" "b < e" "e < last (b # ps)" for r e
      using Cons.prems(4) [OF that(1,2)] that(3,4) ab by auto
  qed
  also have "amount_or fallback (best (allDay @ filter (\<lambda>r. inWindow r mid) windowed)) * of_int (b - a) =
      sum (piece_rate allDay windowed fallback) {a..<b}"
    using sum_constant_span [of a b "piece_rate allDay windowed fallback"] piece ab by simp
  also have "sum (piece_rate allDay windowed fallback) {a..<b} + sum (piece_rate allDay windowed fallback) {b..<last (b # ps)} =
      sum (piece_rate allDay windowed fallback) {a..<last (b # ps)}"
    using ab bl by (subst sum.union_disjoint [symmetric]) (simp_all add: ivl_disj_un_two(3))
  finally show ?case by simp
qed simp

lemma window_points:
  assumes "from < to"
  shows "sorted_wrt (<) (from # windowEdges rules from to @ [to])"
proof -
  have "e \<in> set (rule_edges from to r) \<Longrightarrow> from < e \<and> e < to" for e r
    by (auto simp: rule_edges_def Let_def split: option.splits)
  then have r: "\<forall>e \<in> set (windowEdges rules from to). from < e \<and> e < to" by (auto simp: windowEdges_def)
  have "sorted_wrt (<) (windowEdges rules from to)"
    by (simp add: windowEdges_def strict_sorted_iff)
  then show ?thesis using r assms by (auto simp: sorted_wrt_append)
qed

lemma hourly_rate_sum:
  assumes "instantMs (wsFrom shift) = Some from" "instantMs (wsTo shift) = Some to" "from < to"
  shows "wageRateForShift rules WU_HOUR fallback shift * of_int (to - from) =
    sum (rate_at (candidatesFor rules WU_HOUR shift) fallback) {from..<to}"
proof -
  define cs where "cs = candidatesFor rules WU_HOUR shift"
  define allDay where "allDay = filter (\<lambda>r. \<not> hasWindow r) cs"
  define windowed where "windowed = filter hasWindow cs"
  have nz: "(of_int (to - from) :: rat) \<noteq> 0" using assms(3) by simp
  show ?thesis
  proof (cases "windowed = []")
    case True
    have "rate_at cs fallback t = amount_or fallback (best allDay)" for t
      using piece_rate_at [of cs fallback t, folded allDay_def windowed_def] True by (simp add: piece_rate_def)
    moreover have "wageRateForShift rules WU_HOUR fallback shift = amount_or fallback (best allDay)"
    proof (cases "cs = []")
      case True
      then show ?thesis by (simp add: wageRateForShift_def cs_def [symmetric] allDay_def best_def amount_or_def Let_def)
    next
      case False
      then show ?thesis using True
        by (simp add: wageRateForShift_def cs_def [symmetric] allDay_def [symmetric] windowed_def [symmetric] Let_def assms(1,2))
    qed
    ultimately show ?thesis
      using sum_constant_span [of "from" to "rate_at cs fallback"] assms(3) by (simp add: cs_def [symmetric])
  next
    case False
    then have ne: "cs \<noteq> []" by (auto simp: windowed_def)
    have "wageRateForShift rules WU_HOUR fallback shift =
        weigh allDay windowed fallback (from # windowEdges windowed from to @ [to]) / of_int (to - from)"
      using False ne assms
      by (simp add: wageRateForShift_def cs_def [symmetric] allDay_def [symmetric] windowed_def [symmetric] Let_def)
    moreover have "weigh allDay windowed fallback (from # windowEdges windowed from to @ [to]) =
        sum (piece_rate allDay windowed fallback) {from..<last (from # windowEdges windowed from to @ [to])}"
    proof (rule weigh_sum [OF window_points [OF assms(3)]])
      show "from \<le> from" by simp
      show "last (from # windowEdges windowed from to @ [to]) \<le> to" by simp
      show "e \<in> set (windowEdges windowed from to @ [to])" if "r \<in> set windowed" "e \<in> set (rule_edges from to r)" for r e
        using that by (auto simp: windowEdges_def)
      show "hasWindow r" if "r \<in> set windowed" for r using that by (simp add: windowed_def)
    qed
    ultimately show ?thesis using nz
      by (simp add: cs_def [symmetric] piece_rate_at [of cs fallback, folded allDay_def windowed_def])
  qed
qed

text \<open>
  C36. The hourly rate of a shift is exact: cutting the shift at the window edges and pricing each piece at
  its midpoint gives the average, over every millisecond worked, of the best rate in force at that
  millisecond (the contract rate where none applies).
\<close>

theorem hourly_rate_is_the_average:
  assumes "instantMs (wsFrom shift) = Some from" "instantMs (wsTo shift) = Some to" "from < to"
  shows "wageRateForShift rules WU_HOUR fallback shift =
    sum (rate_at (candidatesFor rules WU_HOUR shift) fallback) {from..<to} / of_int (to - from)"
  using hourly_rate_sum [OF assms, of rules fallback] assms(3) by (simp add: field_simps)

definition plain_rate :: wage_rate_rule where
  "plain_rate = \<lparr> wrId = None, wrUnit = WU_HOUR, wrAmount = 25000, wrWorkShiftIds = [], wrRoleIds = [], wrTimeFrom = None, wrTimeTo = None \<rparr>"

definition night_rate :: wage_rate_rule where
  "night_rate = plain_rate\<lparr>wrAmount := 35000, wrTimeFrom := Some ''22:00'', wrTimeTo := Some ''06:00''\<rparr>"

definition evening_shift :: wage_shift where
  "evening_shift = \<lparr> wsWorkShiftId = None, wsRoleId = None, wsFrom = DAt 0, wsTo = DAt 60000 \<rparr>"

theorem hourly_rate_is_the_average_witness:
  "wageRateForShift [plain_rate, night_rate] WU_HOUR 20000 evening_shift =
     sum (rate_at [plain_rate, night_rate] 20000) {0..<60000} / 60000"
proof -
  have "candidatesFor [plain_rate, night_rate] WU_HOUR evening_shift = [plain_rate, night_rate]"
    by (simp add: candidatesFor_def plain_rate_def night_rate_def applies_to_def)
  then show ?thesis
    using hourly_rate_is_the_average [of evening_shift 0 60000 "[plain_rate, night_rate]" 20000] by (simp add: evening_shift_def)
qed

section \<open>Rates stay between the lowest and the highest that apply\<close>

lemma amount_or_between:
  assumes "between lo hi fallback" "list_all (\<lambda>r. between lo hi (wrAmount r)) rules"
  shows "between lo hi (amount_or fallback (best rules))"
proof (cases "best rules")
  case (Some r)
  then have "r \<in> set rules" by (simp add: best_def keep_best_in)
  then show ?thesis using assms(2) Some by (simp add: amount_or_def list_all_iff)
qed (use assms(1) in \<open>simp add: amount_or_def\<close>)

lemma list_all_filter: "list_all P xs \<Longrightarrow> list_all P (filter Q xs)"
  by (simp add: list_all_iff)

lemma flat_rate:
  assumes "unit = WU_SHIFT \<or> instantMs (wsFrom shift) = None \<or> instantMs (wsTo shift) = None \<or>
    (\<exists>f t. instantMs (wsFrom shift) = Some f \<and> instantMs (wsTo shift) = Some t \<and> \<not> f < t)"
  shows "wageRateForShift rules unit fallback shift = fallback \<or>
    wageRateForShift rules unit fallback shift = amount_or fallback (best (filter (\<lambda>r. \<not> hasWindow r) (candidatesFor rules unit shift)))"
  using assms unfolding wageRateForShift_def Let_def by (auto split: option.split)

lemma rate_between:
  assumes fb: "between lo hi fallback" and cs: "list_all (\<lambda>r. between lo hi (wrAmount r)) (candidatesFor rules unit shift)"
  shows "between lo hi (wageRateForShift rules unit fallback shift)"
proof -
  note b = amount_or_between [OF fb list_all_filter [OF cs]]
  consider (sum) f t where "unit = WU_HOUR" "instantMs (wsFrom shift) = Some f" "instantMs (wsTo shift) = Some t" "f < t"
    | (flat) "wageRateForShift rules unit fallback shift = fallback \<or>
        wageRateForShift rules unit fallback shift = amount_or fallback (best (filter (\<lambda>r. \<not> hasWindow r) (candidatesFor rules unit shift)))"
    using flat_rate [of unit shift rules fallback]
    by (cases unit; cases "instantMs (wsFrom shift)"; cases "instantMs (wsTo shift)") auto
  then show ?thesis
  proof cases
    case sum
    let ?g = "rate_at (candidatesFor rules WU_HOUR shift) fallback" and ?n = "of_int (t - f) :: rat"
    have g: "between lo hi (?g x)" for x using b sum(1) by (simp add: rate_at_def)
    have n: "?n = of_nat (card {f..<t})" "0 < ?n" using sum(4) by simp_all
    have lh: "lo \<le> ?g x" "?g x \<le> hi" for x using g [of x] by (simp_all add: between_def)
    have "of_nat (card {f..<t}) * lo \<le> sum ?g {f..<t}" by (rule sum_bounded_below) (rule lh)
    moreover have "sum ?g {f..<t} \<le> of_nat (card {f..<t}) * hi" by (rule sum_bounded_above) (rule lh)
    ultimately have "of_nat (card {f..<t}) * lo \<le> sum ?g {f..<t}" "sum ?g {f..<t} \<le> of_nat (card {f..<t}) * hi" .
    then have "?n * lo \<le> wageRateForShift rules WU_HOUR fallback shift * ?n" "wageRateForShift rules WU_HOUR fallback shift * ?n \<le> ?n * hi"
      unfolding hourly_rate_sum [OF sum(2-4)] by (simp_all only: n(1) [symmetric])
    then show ?thesis using n(2) sum(1) by (simp add: between_def mult.commute)
  next
    case flat
    then show ?thesis using fb b by auto
  qed
qed

section \<open>No rate applies\<close>

lemma no_candidates_rate: "candidatesFor rules unit shift = [] \<Longrightarrow> wageRateForShift rules unit fallback shift = fallback"
  by (simp add: wageRateForShift_def Let_def)

text \<open>
  Configuring wage rates never changes the pay of an employee none of them applies to: when no worked
  shift matches a rate, the priced month is exactly what the contract pays for the same hours or shifts.
\<close>

theorem no_matching_rate_pays_contract:
  assumes "list_all (\<lambda>shift. candidatesFor rules unit shift = []) shifts" "0 < rate"
  shows "wageEarnedOf rules unit rate shifts =
    computeEarnedBase (if unit = WU_SHIFT then PT_SHIFT else PT_HOUR) rate
      \<lparr> efCompletedShifts = of_nat (length shifts),
        efWorkedMinutes = sum_list (map (\<lambda>shift. paid_minutes (wsWorkedMinutes shift)) shifts), efDaysWorked = days \<rparr> standard calendar"
proof -
  have r: "map (\<lambda>shift. wageRateForShift rules unit rate shift * w shift) shifts = map (\<lambda>shift. rate * w shift) shifts" for w
    using assms(1) by (intro map_cong) (simp_all add: list_all_iff no_candidates_rate)
  have "sum_list (map (\<lambda>shift. rate * w shift) shifts) = rate * sum_list (map w shifts)" for w :: "wage_priced_shift \<Rightarrow> rat"
    by (simp add: sum_list_const_mult)
  note s = this
  have pos: "0 \<le> sum_list (map (\<lambda>shift. paid_minutes (wsWorkedMinutes shift)) shifts)"
    by (rule sum_list_nonneg) (auto simp: paid_minutes_def split: jsnum.split)
  show ?thesis
    unfolding wageEarnedOf_def Let_def r s using pos assms(2)
    by (cases unit) (simp_all add: computeEarnedBase_def earnedBaseTerms_def sum_list_triv max_def)
qed

definition priced_shift :: wage_priced_shift where
  "priced_shift = \<lparr> wsWorkShiftId = Some ''w1'', wsRoleId = None, wsFrom = DAt 0, wsTo = DAt 60000, wsWorkedMinutes = JNum (Fin 90) \<rparr>"

theorem no_matching_rate_pays_contract_witness:
  "wageEarnedOf [night_rate\<lparr>wrWorkShiftIds := [''w2'']\<rparr>] WU_HOUR 20000 [priced_shift, priced_shift] = 60000"
proof -
  have h: "list_all (\<lambda>shift. candidatesFor [night_rate\<lparr>wrWorkShiftIds := [''w2'']\<rparr>] WU_HOUR shift = []) [priced_shift, priced_shift]"
    by code_simp
  have "computeEarnedBase PT_HOUR 20000 \<lparr> efCompletedShifts = 2, efWorkedMinutes = 180, efDaysWorked = 0 \<rparr> 0 0 = 60000"
    by code_simp
  then show ?thesis using no_matching_rate_pays_contract [OF h, of 20000 0 0 0]
    by (simp add: priced_shift_def paid_minutes_def)
qed

section \<open>The priced interval is the paid time\<close>

text \<open>
  The interval a worked shift is priced on lies inside the time clocked, and when the paid minutes are
  whole and fit in it, it is exactly as long as the paid time; unpaid time early or late never pulls
  another time window into the price.
\<close>

theorem priced_interval_is_paid_time:
  assumes "instantMs checkIn = Some i" "instantMs checkOut = Some out" "i < out"
    "paid = Some (of_int m)" "0 < m"
  shows "\<exists>from to. wageIntervalOf checkIn checkOut windowStart windowEnd paid = (DAt from, DAt to) \<and>
    i \<le> from \<and> from < to \<and> to \<le> out \<and> to - from = min (m * 60000) (out - i)"
proof -
  define from0 where "from0 = (case instantMs windowStart of Some s \<Rightarrow> if s > i \<and> s < out then s else i | None \<Rightarrow> i)"
  define f where "f = (if m * 60000 > out - from0 then i else from0)"
  have f0: "i \<le> from0" "from0 < out" using assms(3) by (auto simp: from0_def split: option.split)
  have p: "(of_int m * 60000 > (of_int (out - from0) :: rat)) = (m * 60000 > out - from0)"
    by (metis of_int_less_iff of_int_mult of_int_numeral)
  have mn: "min (of_int out) (of_int f + of_int m * 60000) = (of_int (min out (f + m * 60000)) :: rat)"
    by (simp add: min_def flip: of_int_less_iff)
  have date: "date_at (of_int x) = DAt x" for x by (simp add: date_at_def)
  have "wageIntervalOf checkIn checkOut windowStart windowEnd paid = (DAt f, date_at (min (of_int out) (of_int f + of_int m * 60000)))"
    using assms by (simp add: wageIntervalOf_def Let_def from0_def [symmetric] f_def p)
  then have w: "wageIntervalOf checkIn checkOut windowStart windowEnd paid = (DAt f, DAt (min out (f + m * 60000)))"
    by (simp only: mn date)
  have "i \<le> f" "f < out" using f0 assms(3) by (auto simp: f_def)
  moreover have "min out (f + m * 60000) - f = min (m * 60000) (out - i)" using f0 by (auto simp: f_def min_def)
  ultimately show ?thesis using w assms(5) by auto
qed

theorem priced_interval_is_paid_time_witness:
  "\<exists>from to. wageIntervalOf (DAt 0) (DAt 7200000) (DAt 600000) DNull (Some 90) = (DAt from, DAt to) \<and> to - from = 5400000"
  using priced_interval_is_paid_time [of "DAt 0" 0 "DAt 7200000" 7200000 "Some 90" 90 "DAt 600000" DNull] by auto

end
