(* ===== verification/DateOnly.thy ===== *)
theory DateOnly
  imports WorkedTimeRules
begin

text \<open>
  The date helpers of \<open>src/modules/stores/shift-schedule.utils.ts\<close>: a calendar date is a \<open>YYYY-MM-DD\<close> string, parsed to the
  instant of its UTC midnight and printed from the UTC fields. A string that does not parse is an error. The lemmas
  relate the strings to day numbers, on which the callers are verified.
\<close>

section \<open>Parsing and printing\<close>

datatype date_error = DateFormat | DateInvalid

definition parseDateOnly :: "string \<Rightarrow> date_error + instant" where
  "parseDateOnly v =
     (if \<not> is_ymd v then Inl DateFormat
      else case ymd_of v of (year, month, day) \<Rightarrow>
        let parsed = utc_day year (month - 1) day
        in if civil_of_day parsed \<noteq> Civil year month day then Inl DateInvalid else Inr (parsed * DAY_MS))"

text \<open>The year is printed as a plain number, without leading zeros.\<close>

definition year_text :: "int \<Rightarrow> string" where
  "year_text y = (if y < 0 then ''-'' else []) @ nat_string (nat \<bar>y\<bar>)"

definition formatDateOnly :: "instant \<Rightarrow> string" where
  "formatDateOnly date =
     (let c = civil_of_day (date div DAY_MS)
      in year_text (cyear c) @ ''-'' @ pad2 (nat (cmonth c)) @ ''-'' @ pad2 (nat (cday c)))"

text \<open>\<open>setUTCDate\<close> on the parsed instant; the month runs over.\<close>

definition set_utc_date :: "instant \<Rightarrow> int \<Rightarrow> instant" where
  "set_utc_date date d =
     (let c = civil_of_day (date div DAY_MS) in make_day (cyear c) (cmonth c - 1) d * DAY_MS + date mod DAY_MS)"

definition utc_date :: "instant \<Rightarrow> int" where
  "utc_date date = cday (civil_of_day (date div DAY_MS))"

definition addDays_date :: "string \<Rightarrow> int \<Rightarrow> date_error + string" where
  "addDays_date dateString amount =
     and_then (parseDateOnly dateString) (\<lambda>date. Inr (formatDateOnly (set_utc_date date (utc_date date + amount))))"

datatype WeekDaySchedule = MONDAY | TUESDAY | WEDNESDAY | THURSDAY | FRIDAY | SATURDAY | SUNDAY

definition WEEK_DAYS :: "WeekDaySchedule list" where
  "WEEK_DAYS = [SUNDAY, MONDAY, TUESDAY, WEDNESDAY, THURSDAY, FRIDAY, SATURDAY]"

definition utc_weekday :: "instant \<Rightarrow> int" where
  "utc_weekday date = weekday (date div DAY_MS)"

definition getWeekDayForDate :: "string \<Rightarrow> date_error + WeekDaySchedule" where
  "getWeekDayForDate dateString =
     and_then (parseDateOnly dateString) (\<lambda>date. Inr (WEEK_DAYS ! nat (utc_weekday date)))"

definition daysBetween :: "string \<Rightarrow> string \<Rightarrow> date_error + int" where
  "daysBetween startDate dateString =
     and_then (parseDateOnly dateString) (\<lambda>date.
     and_then (parseDateOnly startDate) (\<lambda>start. Inr ((date - start) div DAY_MS)))"

definition startOfWeek :: "string \<Rightarrow> date_error + string" where
  "startOfWeek dateString =
     and_then (parseDateOnly dateString) (\<lambda>date.
       let mondayOffset = (utc_weekday date + 6) mod 7
       in Inr (formatDateOnly (set_utc_date date (utc_date date - mondayOffset))))"

definition monthsBetween :: "string \<Rightarrow> string \<Rightarrow> date_error + int" where
  "monthsBetween startDate dateString =
     and_then (parseDateOnly startDate) (\<lambda>start.
     and_then (parseDateOnly dateString) (\<lambda>date.
       let s = civil_of_day (start div DAY_MS); c = civil_of_day (date div DAY_MS)
       in Inr ((cyear c - cyear s) * 12 + (cmonth c - 1) - (cmonth s - 1))))"

definition daysInMonth :: "instant \<Rightarrow> int" where
  "daysInMonth date = (let c = civil_of_day (date div DAY_MS) in cday (civil_of_day (utc_day (cyear c) (cmonth c) 0)))"

definition isNthWeekdayOfMonth :: "string \<Rightarrow> WeekDaySchedule option \<Rightarrow> int option \<Rightarrow> date_error + bool" where
  "isNthWeekdayOfMonth dateString day weekOfMonth =
     and_then (parseDateOnly dateString) (\<lambda>date.
     and_then (getWeekDayForDate dateString) (\<lambda>own.
       Inr (Some own = day \<and> Some ((utc_date date - 1) div 7 + 1) = weekOfMonth)))"

section \<open>Dates and day numbers\<close>

lemma DAY_MS_pos: "0 < DAY_MS"
  by (simp add: DAY_MS_def)

lemma utc_fields [simp]:
  "utc_date (n * DAY_MS) = cday (civil_of_day n)" "utc_weekday (n * DAY_MS) = weekday n"
  using DAY_MS_pos by (simp_all add: utc_date_def utc_weekday_def)

lemma make_day_same_month: "make_day (cyear c) (cmonth c - 1) (cday c + k) = day_of_civil c + k"
  by (simp add: day_of_civil_def make_day_def)

lemma set_utc_date_shift [simp]: "set_utc_date (n * DAY_MS) (cday (civil_of_day n) + k) = (n + k) * DAY_MS"
  using make_day_same_month [of "civil_of_day n" k] DAY_MS_pos by (simp add: set_utc_date_def Let_def)

lemma utc_day_civil: "100 \<le> cyear c \<or> cyear c < 0 \<Longrightarrow> utc_day (cyear c) (cmonth c - 1) (cday c) = day_of_civil c"
  by (auto simp: utc_day_def day_of_civil_def)

lemma parse_day: "modern_day n \<Longrightarrow> parseDateOnly (day_string n) = Inr (n * DAY_MS)"
proof -
  assume m: "modern_day n"
  have "utc_day (year_of_day n) (cmonth (civil_of_day n) - 1) (cday (civil_of_day n)) = n"
    using utc_day_civil [of "civil_of_day n"] m by (simp add: modern_day_def)
  moreover have "Civil (year_of_day n) (cmonth (civil_of_day n)) (cday (civil_of_day n)) = civil_of_day n"
    by (metis civil.collapse cyear_civil_of_day)
  ultimately show ?thesis
    using day_string_parse [OF modern_four [OF m]] by (simp add: parseDateOnly_def Let_def)
qed

lemma two_digit_bound: "is_digit a \<Longrightarrow> is_digit b \<Longrightarrow> digits_val [a, b] < 100"
  by (auto simp: digits_val_def digit_val_def is_digit_iff)

lemma four_digits_of_chars:
  assumes "is_digit a" "is_digit b" "is_digit c" "is_digit d"
  shows "four_digits (digits_val [a, b, c, d]) = [a, b, c, d]"
proof -
  have "digits_val [a, b, c, d] = 100 * digits_val [a, b] + digits_val [c, d]"
    using digits_val_append [of "[a, b]" "[c, d]"] by simp
  then show ?thesis
    using two_digits_of_chars [OF assms(1,2)] two_digits_of_chars [OF assms(3,4)] two_digit_bound [OF assms(3,4)]
    by (simp add: four_digits_def)
qed

lemma is_ymd_chars:
  assumes "is_ymd s"
  obtains a b c d e f g h where "s = [a, b, c, d, CHR ''-'', e, f, CHR ''-'', g, h]"
    "is_digit a" "is_digit b" "is_digit c" "is_digit d" "is_digit e" "is_digit f" "is_digit g" "is_digit h"
proof -
  have l: "length s = 10" using assms by (simp add: is_ymd_def)
  then obtain a b c d x e f y g h where e: "s = [a, b, c, d, x, e, f, y, g, h]"
    by (auto simp: numeral_eq_Suc length_Suc_conv)
  then show thesis using assms that [of a b c d e f g h] by (simp add: is_ymd_def)
qed

lemma is_ymd_string:
  assumes "is_ymd s" "ymd_of s = (y, m, d)"
  shows "s = civil_string (Civil y m d)" "0 \<le> y" "y \<le> 9999"
proof -
  obtain a b c da e f g h where s: "s = [a, b, c, da, CHR ''-'', e, f, CHR ''-'', g, h]"
    and dg: "is_digit a" "is_digit b" "is_digit c" "is_digit da" "is_digit e" "is_digit f" "is_digit g" "is_digit h"
    using is_ymd_chars [OF assms(1)] by blast
    have v: "y = int (digits_val [a, b, c, da])" "m = int (digits_val [e, f])" "d = int (digits_val [g, h])"
      using assms(2) by (simp_all add: s ymd_of_def)
    have "digits_val [a, b, c, da] = 100 * digits_val [a, b] + digits_val [c, da]"
      using digits_val_append [of "[a, b]" "[c, da]"] by simp
    then have "digits_val [a, b, c, da] < 10000"
      using two_digit_bound [OF dg(1,2)] two_digit_bound [OF dg(3,4)] by linarith
    then show "s = civil_string (Civil y m d)" "0 \<le> y" "y \<le> 9999"
      using v dg by (simp_all add: civil_string_def iso_year_def four_digits_of_chars two_digits_of_chars s)
qed

text \<open>Exactly the real dates of the years 100 to 9999 parse.\<close>

lemma parse_Inr:
  assumes "parseDateOnly s = Inr ms"
  obtains n where "modern_day n" "s = day_string n" "ms = n * DAY_MS"
proof -
  obtain y m d where ymd: "ymd_of s = (y, m, d)" by (cases "ymd_of s")
  define n where "n = utc_day y (m - 1) d"
  have ok: "is_ymd s" and c: "civil_of_day n = Civil y m d" and ms: "ms = n * DAY_MS"
    using assms ymd by (auto simp: parseDateOnly_def n_def Let_def split: if_splits)
  note s = is_ymd_string [OF ok ymd]
  have v: "1 \<le> m" "m \<le> 12" "1 \<le> d" using civil_of_day_valid [of n] c by (auto simp: valid_civil_def)
  have "100 \<le> y"
  proof (rule ccontr)
    assume small: "\<not> 100 \<le> y"
    have "day_from_year (1900 + y) \<le> n"
      using small s(2) v by (simp add: n_def utc_day_def make_day_def month_off_def)
    moreover have "n < day_from_year (y + 1)" using year_of_day_bounds [of n] c by (metis civil.sel(1) cyear_civil_of_day)
    moreover have "day_from_year (y + 1) \<le> day_from_year (1900 + y)" by (rule day_from_year_mono) simp
    ultimately show False by linarith
  qed
  then have "modern_day n" using s(3) c by (simp add: modern_day_def flip: cyear_civil_of_day)
  then show thesis using that [of n] s(1) c ms by simp
qed

definition full_day :: "int \<Rightarrow> bool" where
  "full_day n \<longleftrightarrow> 1000 \<le> year_of_day n \<and> year_of_day n \<le> 9999"

lemma full_modern [simp]: "full_day n \<Longrightarrow> modern_day n"
  by (simp add: full_day_def modern_day_def)

lemma full_four [simp]: "full_day n \<Longrightarrow> four_digit_year n"
  by (simp add: full_day_def four_digit_year_def)

lemma year_of_day_mono: "m \<le> n \<Longrightarrow> year_of_day m \<le> year_of_day n"
  using civil_of_day_less [of n m] by (auto simp: less_civil_def not_le [symmetric])

lemma full_day_between: "full_day m \<Longrightarrow> full_day n \<Longrightarrow> m \<le> k \<Longrightarrow> k \<le> n \<Longrightarrow> full_day k"
  using year_of_day_mono [of m k] year_of_day_mono [of k n] by (simp add: full_day_def)

lemma civil_small: "cmonth (civil_of_day n) < 100 \<and> 0 \<le> cmonth (civil_of_day n) \<and> cday (civil_of_day n) < 100 \<and> 0 \<le> cday (civil_of_day n)"
  using civil_of_day_valid [of n] days_in_month_bounds [of "cmonth (civil_of_day n)" "year_of_day n"]
  by (auto simp: valid_civil_def)

lemma format_day: "full_day n \<Longrightarrow> formatDateOnly (n * DAY_MS) = day_string n"
proof -
  assume "full_day n"
  then have y: "1000 \<le> year_of_day n" "year_of_day n \<le> 9999" by (auto simp: full_day_def)
  then have "1000 \<le> nat (year_of_day n)" "nat (year_of_day n) < 10000" by linarith+
  then show ?thesis using y civil_small [of n] DAY_MS_pos
    by (simp add: formatDateOnly_def Let_def year_text_def nat_string_four_digits civil_string_def iso_year_def pad2_two_digits nat_less_iff)
qed

lemma addDays_date_day: "full_day n \<Longrightarrow> full_day (n + k) \<Longrightarrow> addDays_date (day_string n) k = Inr (day_string (n + k))"
  by (simp add: addDays_date_def parse_day format_day)

lemma weekday_of_day: "full_day n \<Longrightarrow> getWeekDayForDate (day_string n) = Inr (WEEK_DAYS ! nat (weekday n))"
  by (simp add: getWeekDayForDate_def parse_day)

lemma days_between_days: "full_day m \<Longrightarrow> full_day n \<Longrightarrow> daysBetween (day_string m) (day_string n) = Inr (n - m)"
  using DAY_MS_pos by (simp add: daysBetween_def parse_day flip: left_diff_distrib)

definition monday_of :: "int \<Rightarrow> int" where
  "monday_of n = n - (weekday n + 6) mod 7"

lemma monday_of_week: "monday_of n \<le> n \<and> n < monday_of n + 7 \<and> weekday (monday_of n) = 1"
  unfolding monday_of_def weekday_def by presburger

lemma monday_of_mono: "n \<le> k \<Longrightarrow> monday_of n \<le> monday_of k"
  unfolding monday_of_def weekday_def by presburger

lemma start_of_week_day: "full_day n \<Longrightarrow> full_day (monday_of n) \<Longrightarrow> startOfWeek (day_string n) = Inr (day_string (monday_of n))"
  using set_utc_date_shift [of n "- ((weekday n + 6) mod 7)"]
  by (simp add: startOfWeek_def parse_day Let_def monday_of_def format_day flip: diff_conv_add_uminus)

lemma days_in_month_day: "1000 \<le> year_of_day n \<Longrightarrow> daysInMonth (n * DAY_MS) = days_in_month (year_of_day n) (cmonth (civil_of_day n))"
proof -
  assume y: "1000 \<le> year_of_day n"
  let ?c = "civil_of_day n"
  have m: "1 \<le> cmonth ?c" "cmonth ?c \<le> 12" using civil_of_day_valid [of n] by (auto simp: valid_civil_def)
  let ?l = "Civil (year_of_day n) (cmonth ?c) (days_in_month (year_of_day n) (cmonth ?c))"
  have v: "valid_civil ?l" using m days_in_month_bounds [OF m, of "year_of_day n"] by (simp add: valid_civil_def)
  have "utc_day (year_of_day n) (cmonth ?c) 0 = day_of_civil ?l"
    using m y by (cases "cmonth ?c = 12")
      (simp_all add: utc_day_def make_day_def day_of_civil_alt days_in_month_def day_from_year_Suc month_off_12 month_off_def [of _ 0])
  then show ?thesis using civil_of_day_of_civil [OF v] DAY_MS_pos by (simp add: daysInMonth_def Let_def)
qed

section \<open>Stepping through dates ends\<close>

lemma length_nat_string_le: "length (nat_string n) \<le> Suc k \<longleftrightarrow> n < 10 ^ Suc k"
proof (induction k arbitrary: n)
  case 0
  then show ?case using nat_string_not_nil [of "n div 10"] by (simp add: nat_string.simps [of n] Suc_le_eq)
next
  case (Suc k)
  show ?case
  proof (cases "n < 10")
    case True
    moreover have "(10 :: nat) \<le> 10 ^ Suc (Suc k)" by simp
    ultimately have "n < 10 ^ Suc (Suc k)" by linarith
    then show ?thesis using True by (simp add: nat_string.simps [of n])
  next
    case False
    then show ?thesis using Suc [of "n div 10"] by (simp add: nat_string.simps [of n] div_less_iff_less_mult mult.commute)
  qed
qed

lemma parse_of_format:
  assumes "parseDateOnly (formatDateOnly (k * DAY_MS)) = Inr ms" "0 \<le> year_of_day k"
  shows "full_day k"
proof -
  have "length (formatDateOnly (k * DAY_MS)) = 10"
    using assms(1) by (auto simp: parseDateOnly_def is_ymd_def split: if_splits)
  moreover have "length (pad2 (nat (cmonth (civil_of_day k)))) = 2" "length (pad2 (nat (cday (civil_of_day k)))) = 2"
    using civil_small [of k] by (simp_all add: pad2_two_digits nat_less_iff)
  ultimately have "length (nat_string (nat (year_of_day k))) = 4"
    using assms(2) DAY_MS_pos by (simp add: formatDateOnly_def Let_def year_text_def)
  then have "nat (year_of_day k) < 10000" "\<not> nat (year_of_day k) < 1000"
    using length_nat_string_le [of "nat (year_of_day k)" 3] length_nat_string_le [of "nat (year_of_day k)" 2] by simp_all
  then show ?thesis by (simp add: full_day_def nat_less_iff)
qed

text \<open>What is left of the calendar after a date: the measure of the loops that step from day to day.\<close>

definition days_left :: "string \<Rightarrow> nat" where
  "days_left s = (case parseDateOnly s of Inr ms \<Rightarrow> Suc (nat (day_from_year 10000 - ms div DAY_MS)) | Inl _ \<Rightarrow> 0)"

lemma next_day_descends:
  assumes "addDays_date a 1 = Inr b"
  shows "days_left b < days_left a"
proof -
  obtain ms where "parseDateOnly a = Inr ms" using assms by (auto simp: addDays_date_def and_then_Inr_iff)
  then obtain n where n: "modern_day n" "a = day_string n" "ms = n * DAY_MS" by (rule parse_Inr)
  have b: "b = formatDateOnly ((n + 1) * DAY_MS)" using assms n by (simp add: addDays_date_def parse_day)
  have "n < day_from_year (year_of_day n + 1)" using year_of_day_bounds by blast
  also have "\<dots> \<le> day_from_year 10000" using n(1) by (intro day_from_year_mono) (simp add: modern_day_def)
  finally have left: "n < day_from_year 10000" .
  have y: "0 \<le> year_of_day (n + 1)" using n(1) year_of_day_mono [of n "n + 1"] by (simp add: modern_day_def)
  show ?thesis
  proof (cases "parseDateOnly b")
    case (Inr t)
    then have "full_day (n + 1)" using parse_of_format y b by blast
    then have "days_left b = Suc (nat (day_from_year 10000 - (n + 1)))"
      using b DAY_MS_pos by (simp add: days_left_def format_day parse_day)
    then show ?thesis using n left DAY_MS_pos by (simp add: days_left_def parse_day)
  qed (simp add: days_left_def n parse_day)
qed

text \<open>Dates round trip: a string that parses is the only print of its day and prints back to itself from the year 1000
  on; printing a day and parsing it gives its midnight. Adding a number of days and taking it away again is the identity
  as long as the calendar stays within the years 1000 to 9999.\<close>

theorem dates_round_trip:
  assumes "parseDateOnly s = Inr ms" "full_day (ms div DAY_MS)" "full_day (ms div DAY_MS + k)"
  shows "formatDateOnly ms = s \<and> parseDateOnly (formatDateOnly ms) = Inr ms \<and>
    and_then (addDays_date s k) (\<lambda>t. addDays_date t (- k)) = Inr s"
proof -
  obtain n where n: "modern_day n" "s = day_string n" "ms = n * DAY_MS" using parse_Inr [OF assms(1)] by blast
  have full: "full_day n" "full_day (n + k)" using assms(2,3) n(3) DAY_MS_pos by simp_all
  then show ?thesis
    using n assms(1) addDays_date_day [OF full] addDays_date_day [of "n + k" "- k"] by (simp add: format_day)
qed

theorem dates_round_trip_witness:
  "formatDateOnly 1709164800000 = ''2024-02-29'' \<and> and_then (addDays_date ''2024-02-29'' 366) (\<lambda>t. addDays_date t (- 366)) = Inr ''2024-02-29''"
proof -
  have "parseDateOnly ''2024-02-29'' = Inr 1709164800000" by code_simp
  moreover have "full_day (1709164800000 div DAY_MS)" "full_day (1709164800000 div DAY_MS + 366)" by code_simp+
  ultimately show ?thesis using dates_round_trip by blast
qed

end
