(* ===== verification/ShiftSchedule.thy ===== *)
theory ShiftSchedule
  imports DateOnly
begin

text \<open>
  Recurring shift schedules: the recurrence rule and its expansion into work dates
  (\<open>src/modules/stores/shift-schedule.utils.ts\<close>, \<open>shift-schedule.types.ts\<close>) and the validation of the rule an owner sends
  (\<open>normalizeShiftRecurrence\<close> of \<open>service-parts/scheduling.part.ts\<close>). The dates are strings stepped one day at a time by a loop
  with a bound on the scanned days; the abstract specification is a predicate on day numbers.
\<close>

section \<open>Recurrence rules\<close>

datatype frequency = DAILY | WEEKLY | MONTHLY
datatype monthly_mode = DAY_OF_MONTH | NTH_WEEKDAY
datatype end_type = NEVER | UNTIL | COUNT

record recurrence_rule =
  rrEnabled :: bool
  rrFrequency :: frequency
  rrInterval :: int
  rrWeekDays :: "WeekDaySchedule list option"
  rrMonthlyMode :: "monthly_mode option"
  rrDayOfMonth :: "int option"
  rrWeekOfMonth :: "int option"
  rrWeekday :: "WeekDaySchedule option"
  rrEndType :: end_type
  rrEndDate :: "string option"
  rrOccurrenceCount :: "int option"

definition SHIFT_SCHEDULE_HORIZON_DAYS :: int where "SHIFT_SCHEDULE_HORIZON_DAYS = 90"
definition MAX_GENERATED_OCCURRENCES :: int where "MAX_GENERATED_OCCURRENCES = 1000"
definition MAX_SCAN_DAYS :: nat where "MAX_SCAN_DAYS = 366 * 100"

text \<open>\<open>x % n === 0\<close> on integers: the remainder by 0 is NaN. A count that is missing or 0 reads as the default of \<open>||\<close>.\<close>

definition divides :: "int \<Rightarrow> int \<Rightarrow> bool" where
  "divides n x \<longleftrightarrow> n \<noteq> 0 \<and> x mod n = 0"

definition int_or :: "int option \<Rightarrow> int \<Rightarrow> int" where
  "int_or v d = (case v of Some x \<Rightarrow> if x = 0 then d else x | None \<Rightarrow> d)"

definition matchesShiftRecurrence :: "string \<Rightarrow> string \<Rightarrow> recurrence_rule \<Rightarrow> date_error + bool" where
  "matchesShiftRecurrence dateString startDate rule =
     (if dateString < startDate then Inr False
      else if \<not> rrEnabled rule then Inr (dateString = startDate)
      else case rrFrequency rule of
          DAILY \<Rightarrow> and_then (daysBetween startDate dateString) (\<lambda>days. Inr (divides (rrInterval rule) days))
        | WEEKLY \<Rightarrow>
            (let selectedDays = (case rrWeekDays rule of Some ds \<Rightarrow> ds | None \<Rightarrow> []) in
             and_then (startOfWeek startDate) (\<lambda>startWeek.
             and_then (startOfWeek dateString) (\<lambda>week.
             and_then (daysBetween startWeek week) (\<lambda>days.
               if \<not> divides (rrInterval rule) (days div 7) then Inr False
               else and_then (getWeekDayForDate dateString) (\<lambda>d. Inr (d \<in> set selectedDays))))))
        | MONTHLY \<Rightarrow>
            and_then (monthsBetween startDate dateString) (\<lambda>months.
              if \<not> divides (rrInterval rule) months then Inr False
              else and_then (parseDateOnly dateString) (\<lambda>date.
                if rrMonthlyMode rule = Some DAY_OF_MONTH
                then Inr (utc_date date = min (int_or (rrDayOfMonth rule) 1) (daysInMonth date))
                else isNthWeekdayOfMonth dateString (rrWeekday rule) (rrWeekOfMonth rule))))"

section \<open>Expansion into dates\<close>

datatype schedule_error = BadDate date_error | NoDates | NotEnough

definition lift_date :: "date_error + 'a \<Rightarrow> schedule_error + 'a" where
  "lift_date r = (case r of Inl e \<Rightarrow> Inl (BadDate e) | Inr a \<Rightarrow> Inr a)"

definition past_end :: "string option \<Rightarrow> string \<Rightarrow> bool" where
  "past_end endDate current = (case nonempty endDate of Some e \<Rightarrow> current > e | None \<Rightarrow> False)"

function scan_dates ::
  "string \<Rightarrow> recurrence_rule \<Rightarrow> string option \<Rightarrow> int \<Rightarrow> string \<Rightarrow> nat \<Rightarrow> string list \<Rightarrow> date_error + string list" where
  "scan_dates startDate rule endDate targetCount current scannedDays dates =
     (if scannedDays > MAX_SCAN_DAYS \<or> past_end endDate current \<or> int (length dates) \<ge> targetCount then Inr dates
      else case matchesShiftRecurrence current startDate rule of
          Inl e \<Rightarrow> Inl e
        | Inr hit \<Rightarrow>
            (case addDays_date current 1 of
               Inl e \<Rightarrow> Inl e
             | Inr nextDate \<Rightarrow>
                 scan_dates startDate rule endDate targetCount nextDate (Suc scannedDays) (if hit then dates @ [current] else dates)))"
  by pat_completeness auto

termination
  by (relation "measure (\<lambda>(startDate, rule, endDate, targetCount, current, scannedDays, dates). Suc MAX_SCAN_DAYS - scannedDays)") auto

declare scan_dates.simps [simp del]

definition target_count :: "recurrence_rule \<Rightarrow> int" where
  "target_count rule =
     (if rrEndType rule = COUNT then min (int_or (rrOccurrenceCount rule) 0) MAX_GENERATED_OCCURRENCES
      else MAX_GENERATED_OCCURRENCES)"

definition schedule_end :: "string \<Rightarrow> recurrence_rule \<Rightarrow> date_error + string option" where
  "schedule_end startDate rule =
     (case rrEndType rule of
        UNTIL \<Rightarrow> Inr (rrEndDate rule)
      | NEVER \<Rightarrow> and_then (addDays_date startDate (SHIFT_SCHEDULE_HORIZON_DAYS - 1)) (\<lambda>d. Inr (Some d))
      | COUNT \<Rightarrow> Inr None)"

definition generateShiftScheduleDates :: "string \<Rightarrow> recurrence_rule \<Rightarrow> schedule_error + string list" where
  "generateShiftScheduleDates startDate rule =
     and_then (lift_date (parseDateOnly startDate)) (\<lambda>_.
       if \<not> rrEnabled rule then Inr [startDate]
       else and_then (lift_date (schedule_end startDate rule)) (\<lambda>endDate.
         and_then (case nonempty endDate of None \<Rightarrow> Inr 0 | Some e \<Rightarrow> lift_date (parseDateOnly e)) (\<lambda>_.
         and_then (lift_date (scan_dates startDate rule endDate (target_count rule) startDate 0 [])) (\<lambda>dates.
           if dates = [] then Inl NoDates
           else if rrEndType rule = COUNT \<and> int (length dates) < int_or (rrOccurrenceCount rule) 0 then Inl NotEnough
           else Inr dates))))"

section \<open>The rule an owner sends\<close>

datatype rule_error =
    RuleRequired | RuleDate date_error | RulePast | SameTimes | NoWeekDays | NoMonthlyMode | NoDayOfMonth | NoNthWeekday
  | NoEndDate | EndBeforeStart | NoCount

definition check_weekly :: "recurrence_rule \<Rightarrow> recurrence_rule \<Rightarrow> rule_error + recurrence_rule" where
  "check_weekly sent rule =
     (if rrFrequency rule \<noteq> WEEKLY then Inr rule
      else case rrWeekDays sent of
          None \<Rightarrow> Inl NoWeekDays
        | Some days \<Rightarrow> if days = [] then Inl NoWeekDays else Inr (rule\<lparr>rrWeekDays := Some days\<rparr>))"

definition given :: "int option \<Rightarrow> bool" where
  "given v \<longleftrightarrow> int_or v 0 \<noteq> 0"

definition check_monthly :: "recurrence_rule \<Rightarrow> recurrence_rule \<Rightarrow> rule_error + recurrence_rule" where
  "check_monthly sent rule =
     (if rrFrequency rule \<noteq> MONTHLY then Inr rule
      else case rrMonthlyMode sent of
          None \<Rightarrow> Inl NoMonthlyMode
        | Some DAY_OF_MONTH \<Rightarrow>
            if \<not> given (rrDayOfMonth sent) then Inl NoDayOfMonth
            else Inr (rule\<lparr>rrMonthlyMode := Some DAY_OF_MONTH, rrDayOfMonth := rrDayOfMonth sent\<rparr>)
        | Some NTH_WEEKDAY \<Rightarrow>
            if \<not> given (rrWeekOfMonth sent) \<or> rrWeekday sent = None then Inl NoNthWeekday
            else Inr (rule\<lparr>rrMonthlyMode := Some NTH_WEEKDAY, rrWeekOfMonth := rrWeekOfMonth sent, rrWeekday := rrWeekday sent\<rparr>))"

definition check_end :: "string \<Rightarrow> recurrence_rule \<Rightarrow> recurrence_rule \<Rightarrow> rule_error + recurrence_rule" where
  "check_end startDate sent rule =
     (case rrEndType rule of
        UNTIL \<Rightarrow>
          (case nonempty (rrEndDate sent) of
             None \<Rightarrow> Inl NoEndDate
           | Some e \<Rightarrow>
               (case parseDateOnly e of
                  Inl err \<Rightarrow> Inl (RuleDate err)
                | Inr _ \<Rightarrow> if e < startDate then Inl EndBeforeStart else Inr (rule\<lparr>rrEndDate := Some e\<rparr>)))
      | COUNT \<Rightarrow> if \<not> given (rrOccurrenceCount sent) then Inl NoCount else Inr (rule\<lparr>rrOccurrenceCount := rrOccurrenceCount sent\<rparr>)
      | NEVER \<Rightarrow> Inr rule)"

definition bare_rule :: "bool \<Rightarrow> frequency \<Rightarrow> int \<Rightarrow> end_type \<Rightarrow> recurrence_rule" where
  "bare_rule enabled freq interval endType =
     \<lparr> rrEnabled = enabled, rrFrequency = freq, rrInterval = interval, rrWeekDays = None, rrMonthlyMode = None,
       rrDayOfMonth = None, rrWeekOfMonth = None, rrWeekday = None, rrEndType = endType, rrEndDate = None, rrOccurrenceCount = None \<rparr>"

definition normalizeShiftRecurrence ::
  "string \<Rightarrow> string option \<Rightarrow> string option \<Rightarrow> string option \<Rightarrow> recurrence_rule option \<Rightarrow> rule_error + recurrence_rule" where
  "normalizeShiftRecurrence today startDate startTime endTime recurrence =
     (case (nonempty startDate, recurrence) of
        (Some start, Some sent) \<Rightarrow>
          (case parseDateOnly start of
             Inl e \<Rightarrow> Inl (RuleDate e)
           | Inr _ \<Rightarrow>
               if start < today then Inl RulePast
               else if nonempty startTime \<noteq> None \<and> nonempty endTime \<noteq> None \<and> startTime = endTime then Inl SameTimes
               else if \<not> rrEnabled sent then Inr ((bare_rule False DAILY 1 COUNT)\<lparr>rrOccurrenceCount := Some 1\<rparr>)
               else
                 and_then (check_weekly sent (bare_rule True (rrFrequency sent) (rrInterval sent) (rrEndType sent))) (\<lambda>rule.
                 and_then (check_monthly sent rule) (\<lambda>rule. check_end start sent rule)))
      | _ \<Rightarrow> Inl RuleRequired)"

section \<open>The abstract specification: recurrence on day numbers\<close>

definition recurs :: "recurrence_rule \<Rightarrow> int \<Rightarrow> int \<Rightarrow> bool" where
  "recurs rule n k \<longleftrightarrow> n \<le> k \<and>
     (case rrFrequency rule of
        DAILY \<Rightarrow> divides (rrInterval rule) (k - n)
      | WEEKLY \<Rightarrow> divides (rrInterval rule) ((monday_of k - monday_of n) div 7) \<and>
          WEEK_DAYS ! nat (weekday k) \<in> set (case rrWeekDays rule of Some ds \<Rightarrow> ds | None \<Rightarrow> [])
      | MONTHLY \<Rightarrow>
          (let s = civil_of_day n; c = civil_of_day k in
           divides (rrInterval rule) (12 * (cyear c - cyear s) + (cmonth c - cmonth s)) \<and>
           (if rrMonthlyMode rule = Some DAY_OF_MONTH
            then cday c = min (int_or (rrDayOfMonth rule) 1) (days_in_month (cyear c) (cmonth c))
            else Some (WEEK_DAYS ! nat (weekday k)) = rrWeekday rule \<and> Some ((cday c - 1) div 7 + 1) = rrWeekOfMonth rule)))"

lemma matches_recurs:
  assumes "full_day n" "full_day k" "full_day (monday_of n)" "full_day (monday_of k)" "rrEnabled rule"
  shows "matchesShiftRecurrence (day_string k) (day_string n) rule = Inr (recurs rule n k)"
proof (cases "k < n")
  case True
  then show ?thesis using assms by (simp add: matchesShiftRecurrence_def day_string_less recurs_def)
next
  case False
  then have le: "\<not> day_string k < day_string n" "n \<le> k" using assms by (simp_all add: day_string_less)
  have y: "1000 \<le> year_of_day k" using assms(2) by (simp add: full_day_def)
  show ?thesis
  proof (cases "rrFrequency rule")
    case DAILY
    then show ?thesis using le assms by (simp add: matchesShiftRecurrence_def recurs_def days_between_days)
  next
    case WEEKLY
    then show ?thesis using le assms
      by (simp add: matchesShiftRecurrence_def recurs_def start_of_week_day days_between_days weekday_of_day Let_def)
  next
    case MONTHLY
    have "monthsBetween (day_string n) (day_string k) =
        Inr (12 * (year_of_day k - year_of_day n) + (cmonth (civil_of_day k) - cmonth (civil_of_day n)))"
      using assms DAY_MS_pos by (simp add: monthsBetween_def parse_day Let_def)
    then show ?thesis using le assms y MONTHLY
      by (simp add: matchesShiftRecurrence_def recurs_def parse_day Let_def days_in_month_day isNthWeekdayOfMonth_def weekday_of_day)
  qed
qed

section \<open>The loop enumerates the recurrence\<close>

definition last_day :: "int option \<Rightarrow> int \<Rightarrow> nat \<Rightarrow> int" where
  "last_day e k scanned =
     (let m = k + (int MAX_SCAN_DAYS - int scanned) in case e of Some x \<Rightarrow> min x m | None \<Rightarrow> m)"

lemma last_day_step: "last_day e (k + 1) (Suc scanned) = last_day e k scanned"
  by (simp add: last_day_def Let_def split: option.splits)

lemma nonempty_day [simp]: "full_day n \<Longrightarrow> nonempty (Some (day_string n)) = Some (day_string n)"
  using length_civil_string [of "civil_of_day n"] by (auto simp: nonempty_def full_day_def)

lemma past_end_days:
  "full_day k \<Longrightarrow> (\<And>x. e = Some x \<Longrightarrow> full_day x) \<Longrightarrow>
    past_end (map_option day_string e) (day_string k) \<longleftrightarrow> (case e of Some x \<Rightarrow> x < k | None \<Rightarrow> False)"
  by (cases e) (simp_all add: past_end_def day_string_less, simp add: nonempty_def)

lemma take_own_length: "int (length ds) \<le> t \<Longrightarrow> take (nat t) ds = ds"
  by simp

lemma scan_days:
  assumes rule: "rrEnabled rule" "full_day (monday_of n)" and e: "\<And>x. e = Some x \<Longrightarrow> full_day x"
  shows "n \<le> k \<Longrightarrow> scanned \<le> Suc MAX_SCAN_DAYS \<Longrightarrow> full_day (k + int (Suc MAX_SCAN_DAYS) - int scanned) \<Longrightarrow>
    int (length ds) \<le> target \<Longrightarrow>
    scan_dates (day_string n) rule (map_option day_string e) target (day_string k) scanned (map day_string ds) =
      Inr (map day_string (take (nat target) (ds @ filter (recurs rule n) [k..last_day e k scanned])))"
proof (induction "Suc MAX_SCAN_DAYS - scanned" arbitrary: k scanned ds rule: less_induct)
  case less
  have n: "full_day n" "full_day k" "full_day (monday_of k)"
    using less.prems(1,2) monday_of_week [of n] monday_of_week [of k] monday_of_mono [OF less.prems(1)]
    by (auto intro!: full_day_between [OF rule(2) less.prems(3)])
  note unfold = scan_dates.simps [of "day_string n" rule "map_option day_string e" target "day_string k" scanned "map day_string ds"]
  consider (stop) "last_day e k scanned < k" | (full) "target \<le> int (length ds)"
    | (step) "k \<le> last_day e k scanned" "int (length ds) < target" by linarith
  then show ?case
  proof cases
    case stop
    then have "scanned > MAX_SCAN_DAYS \<or> past_end (map_option day_string e) (day_string k)"
      using past_end_days [OF n(2) e] by (auto simp: last_day_def Let_def split: option.splits)
    then have "scan_dates (day_string n) rule (map_option day_string e) target (day_string k) scanned (map day_string ds) = Inr (map day_string ds)"
      by (subst unfold) auto
    then show ?thesis using stop less.prems(4) by (simp add: take_own_length)
  next
    case full
    then have "scan_dates (day_string n) rule (map_option day_string e) target (day_string k) scanned (map day_string ds) = Inr (map day_string ds)"
      by (subst unfold) simp
    then show ?thesis using full less.prems(4) by (simp add: take_own_length)
  next
    case step
    have go: "\<not> scanned > MAX_SCAN_DAYS" "\<not> past_end (map_option day_string e) (day_string k)" "\<not> int (length ds) \<ge> target"
      using step past_end_days [OF n(2) e] by (auto simp: last_day_def Let_def split: option.splits)
    have k1: "full_day (k + 1)" using go(1) by (intro full_day_between [OF n(2) less.prems(3)]) auto
    let ?hit = "recurs rule n k"
    have "scan_dates (day_string n) rule (map_option day_string e) target (day_string k) scanned (map day_string ds) =
        scan_dates (day_string n) rule (map_option day_string e) target (day_string (k + 1)) (Suc scanned)
          (map day_string (if ?hit then ds @ [k] else ds))"
      using go by (subst unfold) (simp add: matches_recurs [OF n(1,2) rule(2) n(3) rule(1)] addDays_date_day [OF n(2) k1])
    also have "\<dots> = Inr (map day_string (take (nat target) ((if ?hit then ds @ [k] else ds) @
        filter (recurs rule n) [k + 1..last_day e (k + 1) (Suc scanned)])))"
      using less.prems go step by (intro less.hyps) (auto simp: algebra_simps)
    also have "(if ?hit then ds @ [k] else ds) @ filter (recurs rule n) [k + 1..last_day e (k + 1) (Suc scanned)] =
        ds @ filter (recurs rule n) [k..last_day e k scanned]"
      using step(1) by (simp add: last_day_step upto_rec1)
    finally show ?thesis .
  qed
qed

text \<open>The last day the loop looks at, and the days it keeps.\<close>

definition last_scanned :: "recurrence_rule \<Rightarrow> int \<Rightarrow> int option \<Rightarrow> int" where
  "last_scanned rule n untilDay =
     (case rrEndType rule of NEVER \<Rightarrow> n + 89 | COUNT \<Rightarrow> n + 36600
      | UNTIL \<Rightarrow> (case untilDay of Some e \<Rightarrow> min e (n + 36600) | None \<Rightarrow> n + 36600))"

definition schedule_days :: "recurrence_rule \<Rightarrow> int \<Rightarrow> int option \<Rightarrow> int list" where
  "schedule_days rule n untilDay =
     take (nat (target_count rule)) (filter (recurs rule n) [n..last_scanned rule n untilDay])"

text \<open>C29. The expansion of a rule always returns, and returns exactly the recurrence: for an enabled rule that starts on a day of the
  years 1000 to 9899, the dates are the strings of the days that recur, in order, from the start to the end of the rule
  (the end date, 90 days for an open rule, or the scan bound of 36600 days), cut off after the count of the rule and after 1000. It is
  an error exactly when there is none, or fewer than the count asks for.\<close>

theorem expansion_is_the_recurrence:
  assumes "rrEnabled rule" "full_day (n - 6)" "full_day (n + 36601)"
    and "rrEndType rule = UNTIL \<Longrightarrow> rrEndDate rule = map_option day_string untilDay \<and> (\<forall>e. untilDay = Some e \<longrightarrow> full_day e)"
    and "0 \<le> int_or (rrOccurrenceCount rule) 0"
  shows "generateShiftScheduleDates (day_string n) rule =
    (let days = schedule_days rule n untilDay in
     if days = [] then Inl NoDates
     else if rrEndType rule = COUNT \<and> int (length days) < int_or (rrOccurrenceCount rule) 0 then Inl NotEnough
     else Inr (map day_string days))"
proof -
  define e where "e = (case rrEndType rule of UNTIL \<Rightarrow> untilDay | NEVER \<Rightarrow> Some (n + 89) | COUNT \<Rightarrow> None)"
  have full: "full_day n" "full_day (n + 89)" "full_day (monday_of n)"
    using monday_of_week [of n] by (auto intro: full_day_between [OF assms(2,3)])
  have fe: "full_day x" if "e = Some x" for x using that assms(4) full by (auto simp: e_def split: end_type.splits)
  have ends: "schedule_end (day_string n) rule = Inr (map_option day_string e)"
    using assms(4) full by (simp add: schedule_end_def e_def SHIFT_SCHEDULE_HORIZON_DAYS_def addDays_date_day split: end_type.splits)
  have parsed: "\<exists>x. (case nonempty (map_option day_string e) of None \<Rightarrow> Inr 0 | Some d \<Rightarrow> lift_date (parseDateOnly d)) = Inr x"
    using fe by (cases e) (auto simp: nonempty_def [of None] lift_date_def parse_day)
  have target: "0 \<le> target_count rule" using assms(5) by (simp add: target_count_def MAX_GENERATED_OCCURRENCES_def)
  have "scan_dates (day_string n) rule (map_option day_string e) (target_count rule) (day_string n) 0 (map day_string []) =
      Inr (map day_string (take (nat (target_count rule)) ([] @ filter (recurs rule n) [n..last_day e n 0])))"
    using fe assms(3) target by (intro scan_days assms(1) full) (auto simp: MAX_SCAN_DAYS_def)
  moreover have "last_day e n 0 = last_scanned rule n untilDay"
    by (simp add: last_day_def last_scanned_def e_def MAX_SCAN_DAYS_def Let_def split: end_type.splits option.splits)
  ultimately have scan: "scan_dates (day_string n) rule (map_option day_string e) (target_count rule) (day_string n) 0 [] =
      Inr (map day_string (schedule_days rule n untilDay))"
    by (simp add: schedule_days_def)
  obtain x where "(case nonempty (map_option day_string e) of None \<Rightarrow> Inr 0 | Some d \<Rightarrow> lift_date (parseDateOnly d)) = Inr x"
    using parsed by blast
  with scan ends full(1) assms(1) show ?thesis
    by (simp add: generateShiftScheduleDates_def lift_date_def parse_day Let_def)
qed

text \<open>An open weekly rule on Mondays and Thursdays, every second week, from a Thursday: the horizon of 90 days
  holds the Thursday, then Monday and Thursday of every other week.\<close>

definition fortnightly :: recurrence_rule where
  "fortnightly = (bare_rule True WEEKLY 2 NEVER)\<lparr>rrWeekDays := Some [MONDAY, THURSDAY]\<rparr>"

theorem expansion_is_the_recurrence_witness:
  "generateShiftScheduleDates ''2026-01-01'' fortnightly = Inr (map day_string
     [20454, 20465, 20468, 20479, 20482, 20493, 20496, 20507, 20510, 20521, 20524, 20535, 20538])"
proof -
  have d: "''2026-01-01'' = day_string 20454" by code_simp
  have r: "rrEnabled fortnightly" "rrEndType fortnightly = NEVER" "rrOccurrenceCount fortnightly = None"
    by (simp_all add: fortnightly_def bare_rule_def)
  have f: "full_day (20454 - 6)" "full_day (20454 + 36601)" by code_simp+
  have days: "schedule_days fortnightly 20454 None = [20454, 20465, 20468, 20479, 20482, 20493, 20496, 20507, 20510, 20521, 20524, 20535, 20538]"
  proof -
    have t: "target_count fortnightly = 1000" "last_scanned fortnightly 20454 None = 20543" by code_simp+
    have "filter (recurs fortnightly 20454) [20454..20543] = [20454, 20465, 20468, 20479, 20482, 20493, 20496, 20507, 20510, 20521, 20524, 20535, 20538]"
      by code_simp
    then show ?thesis by (simp add: schedule_days_def t)
  qed
  have "generateShiftScheduleDates (day_string 20454) fortnightly =
    (let days = schedule_days fortnightly 20454 None in
     if days = [] then Inl NoDates
     else if rrEndType fortnightly = COUNT \<and> int (length days) < int_or (rrOccurrenceCount fortnightly) 0 then Inl NotEnough
     else Inr (map day_string days))"
    by (rule expansion_is_the_recurrence [OF r(1) f]) (simp_all add: r int_or_def)
  then show ?thesis unfolding d by (simp add: days r)
qed

end
