(* ===== verification/ShiftIntervals.thy ===== *)
theory ShiftIntervals
  imports DateOnly JsMap "HOL-Library.Multiset"
begin

text \<open>
  The time intervals of shifts and leave: \<open>ShiftInterval\<close> and the functions on it in
  \<open>src/modules/stores/service-parts/shared.ts\<close>, the overlap sweeps and the grouping of leave of
  \<open>service-parts/scheduling.part.ts\<close>, and \<open>leave-coverage.utils.ts\<close>. Ends are minutes since 1970-01-01 on the Vietnam wall
  clock; a shift whose end is not after its start ends on the next day.
\<close>

section \<open>Intervals\<close>

record shift_interval =
  siStart :: rat
  siEnd :: rat
  siStartOnly :: bool

text \<open>\<open>None\<close> is NaN: a part that is missing or no number.\<close>

definition timeToMinutes :: "string \<Rightarrow> rat option" where
  "timeToMinutes time =
     (case map num_of_string (split_on (CHR '':'') (take 5 time)) of
        Fin hours # Fin minutes # _ \<Rightarrow> Some (hours * 60 + minutes)
      | _ \<Rightarrow> None)"

text \<open>An interval with an end that is NaN overlaps nothing (every comparison is false): \<open>None\<close>.\<close>

definition toShiftInterval :: "string \<Rightarrow> string \<Rightarrow> string \<Rightarrow> date_error + shift_interval option" where
  "toShiftInterval workDate startTime endTime =
     and_then (parseDateOnly workDate) (\<lambda>day.
       let dayStart = of_int day / 60000
       in Inr (case (timeToMinutes startTime, timeToMinutes endTime) of
                 (Some startMinutes, Some endMinutes) \<Rightarrow>
                   Some \<lparr> siStart = dayStart + startMinutes,
                     siEnd = dayStart + (if endMinutes \<le> startMinutes then endMinutes + 24 * 60 else endMinutes),
                     siStartOnly = False \<rparr>
               | _ \<Rightarrow> None))"

definition intervalsOverlap :: "shift_interval \<Rightarrow> shift_interval \<Rightarrow> bool" where
  "intervalsOverlap left right \<longleftrightarrow> siStart left < siEnd right \<and> siStart right < siEnd left"

text \<open>The sort is stable: by start, then by end.\<close>

definition sortIntervals :: "shift_interval list \<Rightarrow> shift_interval list" where
  "sortIntervals intervals = sort_key siStart (sort_key siEnd intervals)"

section \<open>Clock times\<close>

definition clock_min :: "string \<Rightarrow> int" where
  "clock_min t = clock_ms t div 60000"

lemma clock_min_range: "clock_ok t \<Longrightarrow> 0 \<le> clock_min t \<and> clock_min t < 1440"
proof -
  assume "clock_ok t"
  then have "0 \<le> clock_ms t" "clock_ms t < 1440 * 60000" using clock_ms_range [of t] by (simp_all add: DAY_MS_def)
  then show ?thesis by (simp add: clock_min_def pos_imp_zdiv_nonneg_iff div_less_iff_less_mult)
qed

lemma minutes_of_clock: "clock_ok t \<Longrightarrow> timeToMinutes t = Some (of_int (clock_min t))"
proof -
  assume ok: "clock_ok t"
  obtain h mi sec where p: "hms_of t = (h, mi, sec)" by (cases "hms_of t") auto
  have t: "is_hms t" and r: "0 \<le> h" "0 \<le> mi" "0 \<le> sec" "sec \<le> 59"
    using ok p hms_of_nonneg [OF p] by (auto simp: clock_ok_def)
  have len: "5 \<le> length t" using t by (auto simp: is_hms_def)
  then obtain c0 c1 c2 c3 c4 cs where tt: "t = c0 # c1 # c2 # c3 # c4 # cs"
    by (auto simp: Suc_le_length_iff numeral_eq_Suc)
  have dg: "is_digit c0" "is_digit c1" "c2 = CHR '':''" "is_digit c3" "is_digit c4"
    using t by (auto simp: is_hms_def tt numeral_eq_Suc)
  have nc: "c \<noteq> CHR '':''" if "is_digit c" for c using that by (auto simp: is_digit_def)
  have "take 5 t = [c0, c1] @ CHR '':'' # [c3, c4]" using dg(3) by (simp add: tt)
  moreover have "split_on (CHR '':'') ([c0, c1] @ CHR '':'' # [c3, c4]) = [[c0, c1], [c3, c4]]"
    using dg nc by (subst split_on_append) (auto simp: split_on_none)
  moreover have "num_of_string [c0, c1] = Fin (of_nat (digits_val [c0, c1]))" "num_of_string [c3, c4] = Fin (of_nat (digits_val [c3, c4]))"
    using dg by (simp_all add: num_of_digits)
  ultimately have minutes: "timeToMinutes t = Some (of_nat (digits_val [c0, c1]) * 60 + of_nat (digits_val [c3, c4]))"
    by (simp add: timeToMinutes_def)
  have hm: "h = int (digits_val [c0, c1])" "mi = int (digits_val [c3, c4])"
    using p by (auto simp: hms_of_def tt)
  have "clock_ms t = 60000 * (h * 60 + mi) + sec * 1000" using p by (simp add: clock_ms_def)
  then have "clock_min t = h * 60 + mi" unfolding clock_min_def using r by (intro int_div_pos_eq [where r = "sec * 1000"]) auto
  then show ?thesis using minutes hm by simp
qed

text \<open>The interval of a shift on day \<open>n\<close>.\<close>

definition day_interval :: "string \<Rightarrow> string \<Rightarrow> int \<Rightarrow> shift_interval" where
  "day_interval s e n =
     \<lparr> siStart = of_int (1440 * n + clock_min s),
       siEnd = of_int (1440 * n + (if clock_min e \<le> clock_min s then clock_min e + 1440 else clock_min e)),
       siStartOnly = False \<rparr>"

lemma shift_interval_day:
  assumes "modern_day n" "clock_ok s" "clock_ok e"
  shows "toShiftInterval (day_string n) s e = Inr (Some (day_interval s e n))"
proof -
  have "(of_int (n * DAY_MS) / 60000 :: rat) = of_int (1440 * n)" by (simp add: DAY_MS_def)
  then show ?thesis using assms by (simp add: toShiftInterval_def parse_day minutes_of_clock day_interval_def Let_def)
qed

definition proper :: "shift_interval \<Rightarrow> bool" where
  "proper i \<longleftrightarrow> siStart i < siEnd i"

lemma day_interval_proper: "clock_ok s \<Longrightarrow> clock_ok e \<Longrightarrow> proper (day_interval s e n)"
  using clock_min_range [of s] clock_min_range [of e] by (simp add: proper_def day_interval_def)

lemma day_interval_start: "clock_ok s \<Longrightarrow> of_int (1440 * n) \<le> siStart (day_interval s e n) \<and> siStart (day_interval s e n) < of_int (1440 * (n + 1))"
  using clock_min_range [of s] by (simp add: day_interval_def)

section \<open>Overlap inside a list and between two lists\<close>

fun overlap_sweep :: "rat option \<Rightarrow> shift_interval list \<Rightarrow> bool" where
  "overlap_sweep furthestEnd [] = False"
| "overlap_sweep furthestEnd (i # is) =
     (if (case furthestEnd of Some e \<Rightarrow> siStart i < e | None \<Rightarrow> False) then True
      else overlap_sweep (Some (case furthestEnd of Some e \<Rightarrow> (if siEnd i > e then siEnd i else e) | None \<Rightarrow> siEnd i)) is)"

definition hasInternalIntervalOverlap :: "shift_interval list \<Rightarrow> bool" where
  "hasInternalIntervalOverlap intervals = overlap_sweep None (sortIntervals intervals)"

fun two_pointers :: "shift_interval list \<Rightarrow> shift_interval list \<Rightarrow> bool" where
  "two_pointers (l # ls) (r # rs) =
     (if intervalsOverlap l r then True
      else if siEnd l \<le> siStart r then two_pointers ls (r # rs) else two_pointers (l # ls) rs)"
| "two_pointers ls rs = False"

definition intervalSetsOverlap :: "shift_interval list \<Rightarrow> shift_interval list \<Rightarrow> bool" where
  "intervalSetsOverlap leftIntervals rightIntervals = two_pointers (sortIntervals leftIntervals) (sortIntervals rightIntervals)"

abbreviation in_order :: "shift_interval list \<Rightarrow> bool" where
  "in_order is \<equiv> sorted (map siStart is)"

lemma set_sortIntervals [simp]: "set (sortIntervals is) = set is"
  by (simp add: sortIntervals_def)

lemma sorted_sortIntervals [simp]: "in_order (sortIntervals is)"
  by (simp add: sortIntervals_def)

lemma mset_sortIntervals: "mset (sortIntervals is) = mset is"
  by (simp add: sortIntervals_def)

lemma two_pointers_exact:
  "in_order ls \<Longrightarrow> in_order rs \<Longrightarrow> two_pointers ls rs \<longleftrightarrow> (\<exists>l \<in> set ls. \<exists>r \<in> set rs. intervalsOverlap l r)"
proof (induction ls rs rule: two_pointers.induct)
  case (1 l ls r rs)
  consider (hit) "intervalsOverlap l r" | (left) "\<not> intervalsOverlap l r" "siEnd l \<le> siStart r"
    | (right) "\<not> intervalsOverlap l r" "\<not> siEnd l \<le> siStart r" "siEnd r \<le> siStart l"
    unfolding intervalsOverlap_def by linarith
  then show ?case
  proof cases
    case left
    then have "\<not> intervalsOverlap l x" if "x \<in> set (r # rs)" for x
      using that "1.prems"(2) by (auto simp: intervalsOverlap_def)
    then show ?thesis using left 1 by auto
  next
    case right
    then have "\<not> intervalsOverlap x r" if "x \<in> set (l # ls)" for x
      using that "1.prems"(1) by (auto simp: intervalsOverlap_def)
    then show ?thesis using right 1 by auto
  qed auto
qed auto

text \<open>A list with an overlapping pair, by position.\<close>

fun clashing :: "shift_interval list \<Rightarrow> bool" where
  "clashing [] = False"
| "clashing (i # is) = (list_ex (intervalsOverlap i) is \<or> clashing is)"

lemma intervalsOverlap_sym: "intervalsOverlap a b \<longleftrightarrow> intervalsOverlap b a"
  by (auto simp: intervalsOverlap_def)

lemma clashing_mset: "mset xs = mset ys \<Longrightarrow> clashing xs \<longleftrightarrow> clashing ys"
proof -
  have eq: "clashing xs \<longleftrightarrow> (\<exists>a b. {#a, b#} \<subseteq># mset xs \<and> intervalsOverlap a b)" for xs
  proof (induction xs)
    case (Cons x xs)
    show ?case
    proof
      assume "clashing (x # xs)"
      then consider (head) b where "b \<in> set xs" "intervalsOverlap x b" | (tail) "clashing xs" by (auto simp: list_ex_iff)
      then show "\<exists>a b. {#a, b#} \<subseteq># mset (x # xs) \<and> intervalsOverlap a b"
      proof cases
        case (head b)
        then have "{#x, b#} \<subseteq># mset (x # xs)" by simp
        then show ?thesis using head by blast
      next
        case tail
        then obtain a b where "{#a, b#} \<subseteq># mset xs" "intervalsOverlap a b" using Cons by auto
        then have "{#a, b#} \<subseteq># mset (x # xs)" by (auto simp: subseteq_mset_def le_SucI)
        then show ?thesis using \<open>intervalsOverlap a b\<close> by blast
      qed
    next
      assume "\<exists>a b. {#a, b#} \<subseteq># mset (x # xs) \<and> intervalsOverlap a b"
      then obtain a b where ab: "{#a, b#} \<subseteq># add_mset x (mset xs)" "intervalsOverlap a b" by auto
      consider "a = x" | "b = x" | "a \<noteq> x" "b \<noteq> x" by blast
      then show "clashing (x # xs)"
      proof cases
        case 1
        then have "b \<in> set xs" using ab(1) by (simp)
        then show ?thesis using 1 ab(2) by (auto simp: list_ex_iff)
      next
        case 2
        then have "a \<in> set xs" using ab(1) by (simp add: add_mset_commute [of a])
        then show ?thesis using 2 ab(2) intervalsOverlap_sym by (auto simp: list_ex_iff)
      next
        case 3
        have "{#a, b#} \<subseteq># mset xs"
        proof (rule mset_subset_eqI)
          fix c
          have "count {#a, b#} c \<le> count (add_mset x (mset xs)) c" using ab(1) by (rule mset_subset_eq_count)
          then show "count {#a, b#} c \<le> count (mset xs) c" using 3 by (cases "c = x") auto
        qed
        then show ?thesis using Cons ab(2) by auto
      qed
    qed
  qed simp
  assume "mset xs = mset ys"
  then show ?thesis by (simp add: eq)
qed

lemma overlap_sweep_exact:
  "in_order is \<Longrightarrow> list_all proper is \<Longrightarrow>
    overlap_sweep furthest is \<longleftrightarrow> clashing is \<or> (\<exists>e. furthest = Some e \<and> list_ex (\<lambda>i. siStart i < e) is)"
proof (induction furthest "is" rule: overlap_sweep.induct)
  case (2 furthest i "is")
  let ?next = "case furthest of Some e \<Rightarrow> (if siEnd i > e then siEnd i else e) | None \<Rightarrow> siEnd i"
  have later: "\<forall>j \<in> set is. siStart i \<le> siStart j" and pi: "proper i" and rest: "in_order is" "list_all proper is"
    using "2.prems" by auto
  have own: "list_ex (intervalsOverlap i) is \<longleftrightarrow> list_ex (\<lambda>j. siStart j < siEnd i) is"
    using later rest(2) by (force simp: list_ex_iff list_all_iff intervalsOverlap_def proper_def)
  show ?case
  proof (cases "\<exists>e. furthest = Some e \<and> siStart i < e")
    case True
    then show ?thesis by auto
  next
    case False
    then have "overlap_sweep furthest (i # is) \<longleftrightarrow> overlap_sweep (Some ?next) is" by (cases furthest) auto
    also have "\<dots> \<longleftrightarrow> clashing is \<or> list_ex (\<lambda>j. siStart j < ?next) is"
      using "2.IH" rest False by (cases furthest) auto
    also have "list_ex (\<lambda>j. siStart j < ?next) is \<longleftrightarrow>
        list_ex (intervalsOverlap i) is \<or> (\<exists>e. furthest = Some e \<and> list_ex (\<lambda>j. siStart j < e) is)"
      unfolding own by (cases furthest) (auto simp: list_ex_iff not_less, (meson less_trans less_le_trans)+)
    finally show ?thesis using False by (cases furthest) auto
  qed
qed simp

text \<open>The sweeps are exact. For proper intervals the single pass over the sorted list finds an overlap exactly when two of
  them (by position, so equal intervals count) overlap, and the two-pointer walk over two sorted lists finds one exactly when
  some interval of one list overlaps some interval of the other, whether or not the lists overlap themselves.\<close>

theorem interval_sweeps_are_exact:
  assumes "list_all proper xs"
  shows "(hasInternalIntervalOverlap xs \<longleftrightarrow> clashing xs) \<and>
    (intervalSetsOverlap ys zs \<longleftrightarrow> (\<exists>y \<in> set ys. \<exists>z \<in> set zs. intervalsOverlap y z))"
  using overlap_sweep_exact [of "sortIntervals xs" None] assms clashing_mset [OF mset_sortIntervals, of xs]
    two_pointers_exact [of "sortIntervals ys" "sortIntervals zs"]
  by (simp add: hasInternalIntervalOverlap_def intervalSetsOverlap_def list_all_iff)

definition at_minutes :: "rat \<Rightarrow> rat \<Rightarrow> shift_interval" where
  "at_minutes s e = \<lparr> siStart = s, siEnd = e, siStartOnly = False \<rparr>"

theorem interval_sweeps_are_exact_witness:
  "\<not> hasInternalIntervalOverlap [at_minutes 20 30, at_minutes 0 10, at_minutes 10 20] \<and>
    intervalSetsOverlap [at_minutes 0 10, at_minutes 40 50] [at_minutes 10 20, at_minutes 30 41]"
proof -
  have p: "list_all proper [at_minutes 20 30, at_minutes 0 10, at_minutes 10 20]" by (simp add: proper_def at_minutes_def)
  show ?thesis
    using interval_sweeps_are_exact [OF p, of "[at_minutes 0 10, at_minutes 40 50]" "[at_minutes 10 20, at_minutes 30 41]"]
    by (simp add: intervalsOverlap_def at_minutes_def)
qed

end
