(* ===== verification/LeaveCoverage.thy ===== *)
theory LeaveCoverage
  imports ShiftIntervals
begin

text \<open>
  Approved leave against shifts: which shift a leave request excuses (\<open>src/modules/stores/leave-coverage.utils.ts\<close>, as a function
  and as the SQL condition) and which proposed shifts it blocks (\<open>toBlockingLeaveIntervals\<close>, \<open>leaveBlocksShifts\<close>,
  \<open>mergeIntervals\<close> and the bound on the expansion in \<open>service-parts/shared.ts\<close>, grouped per employee by
  \<open>groupBlockingLeaveIntervals\<close> in \<open>service-parts/scheduling.part.ts\<close>).
\<close>

section \<open>Leave requests\<close>

datatype leave_type = SICK | PERSONAL | VACATION | UNPAID | LATE | EARLY | OVERTIME | SUDDEN | OTHER

datatype leave_status = LEAVE_PENDING | LEAVE_APPROVED | LEAVE_REJECTED | LEAVE_CANCELLED

text \<open>The status of the other requests an employee sends.\<close>

datatype request_status = REQUEST_PENDING | REQUEST_APPROVED | REQUEST_REJECTED | REQUEST_CANCELLED

record leave_row =
  lvId :: string
  lvStore :: string
  lvEmployee :: string
  lvType :: leave_type
  lvStatus :: "leave_status option"
  lvDeleted :: bool
  lvStartDate :: string
  lvEndDate :: string
  lvStartTime :: "string option"
  lvEndTime :: "string option"
  lvAssignment :: "string option"

definition AUTHORIZED_ABSENCE_LEAVE_TYPES :: "leave_type list" where
  "AUTHORIZED_ABSENCE_LEAVE_TYPES = [SICK, PERSONAL, SUDDEN, VACATION, UNPAID, OTHER]"

definition BLOCKING_LEAVE_TYPES :: "leave_type list" where
  "BLOCKING_LEAVE_TYPES = [SICK, PERSONAL, SUDDEN, VACATION, UNPAID, OTHER]"

definition leaveCoversShift :: "leave_row \<Rightarrow> string \<Rightarrow> string \<Rightarrow> bool" where
  "leaveCoversShift leave workDate assignmentId =
     (if lvStatus leave \<noteq> None \<and> lvStatus leave \<noteq> Some LEAVE_APPROVED then False
      else if lvType leave \<notin> set AUTHORIZED_ABSENCE_LEAVE_TYPES then False
      else
        let date = take 10 workDate in
        if take 10 (lvStartDate leave) > date then False
        else if take 10 (lvEndDate leave) < date then False
        else if lvType leave = SUDDEN \<and> nonempty (lvAssignment leave) \<noteq> None \<and> lvAssignment leave \<noteq> Some assignmentId then False
        else nonempty (lvStartTime leave) = None \<or> nonempty (lvEndTime leave) = None \<or> lvAssignment leave = Some assignmentId)"

text \<open>The condition on one row of \<open>employee_leave_requests\<close>, with SQL's NULL read as \<open>None\<close>: a comparison with NULL holds for
  no row.\<close>

definition sql_row_covers :: "string \<Rightarrow> string \<Rightarrow> string \<Rightarrow> leave_row \<Rightarrow> bool" where
  "sql_row_covers employeeProfileId workDate assignmentId elr \<longleftrightarrow>
     lvEmployee elr = employeeProfileId \<and> lvStatus elr = Some LEAVE_APPROVED \<and> \<not> lvDeleted elr \<and>
     lvType elr \<in> set AUTHORIZED_ABSENCE_LEAVE_TYPES \<and> lvStartDate elr \<le> workDate \<and> lvEndDate elr \<ge> workDate \<and>
     (lvStartTime elr = None \<or> lvEndTime elr = None \<or> lvAssignment elr = Some assignmentId) \<and>
     (lvType elr \<noteq> SUDDEN \<or> lvAssignment elr = None \<or> lvAssignment elr = Some assignmentId)"

definition approvedLeaveCoversShiftSql :: "string \<Rightarrow> string \<Rightarrow> string \<Rightarrow> leave_row list \<Rightarrow> bool" where
  "approvedLeaveCoversShiftSql employeeProfileId workDate assignmentId rows =
     list_ex (sql_row_covers employeeProfileId workDate assignmentId) rows"

section \<open>Blocked times\<close>

datatype leave_error = TooComplex | LeaveDate date_error

definition lift_leave :: "date_error + 'a \<Rightarrow> leave_error + 'a" where
  "lift_leave r = (case r of Inl e \<Rightarrow> Inl (LeaveDate e) | Inr a \<Rightarrow> Inr a)"

definition MAX_BLOCKING_LEAVE_ROWS :: nat where "MAX_BLOCKING_LEAVE_ROWS = 5000"
definition MAX_DERIVED_BLOCKING_LEAVE_INTERVALS :: int where "MAX_DERIVED_BLOCKING_LEAVE_INTERVALS = 20000"

definition inclusiveDateSpan :: "string \<Rightarrow> string \<Rightarrow> date_error + int" where
  "inclusiveDateSpan startDate endDate =
     and_then (parseDateOnly endDate) (\<lambda>e. and_then (parseDateOnly startDate) (\<lambda>s. Inr ((e - s) div DAY_MS + 1)))"

definition timed :: "leave_row \<Rightarrow> bool" where
  "timed leave \<longleftrightarrow> nonempty (lvStartTime leave) \<noteq> None \<and> nonempty (lvEndTime leave) \<noteq> None"

definition first_anchor :: "leave_row \<Rightarrow> string \<Rightarrow> string" where
  "first_anchor leave rangeStart = (if lvStartDate leave > rangeStart then lvStartDate leave else rangeStart)"

definition last_anchor :: "leave_row \<Rightarrow> string \<Rightarrow> string" where
  "last_anchor leave rangeEnd = (if lvEndDate leave < rangeEnd then lvEndDate leave else rangeEnd)"

definition derived_by :: "string \<Rightarrow> string \<Rightarrow> leave_row \<Rightarrow> leave_error + int" where
  "derived_by rangeStart rangeEnd leave =
     (if lvType leave \<notin> set BLOCKING_LEAVE_TYPES then Inr 0
      else if \<not> timed leave then Inr 1
      else if first_anchor leave rangeStart \<le> last_anchor leave rangeEnd
      then lift_leave (inclusiveDateSpan (first_anchor leave rangeStart) (last_anchor leave rangeEnd)) else Inr 0)"

fun count_derived :: "string \<Rightarrow> string \<Rightarrow> int \<Rightarrow> leave_row list \<Rightarrow> leave_error + unit" where
  "count_derived rangeStart rangeEnd derived [] = Inr ()"
| "count_derived rangeStart rangeEnd derived (leave # rest) =
     and_then (derived_by rangeStart rangeEnd leave) (\<lambda>k.
     and_then (fail_if (derived + k > MAX_DERIVED_BLOCKING_LEAVE_INTERVALS) TooComplex) (\<lambda>_.
       count_derived rangeStart rangeEnd (derived + k) rest))"

definition assertBlockingLeaveExpansionBound :: "leave_row list \<Rightarrow> string \<Rightarrow> string \<Rightarrow> leave_error + unit" where
  "assertBlockingLeaveExpansionBound rows rangeStart rangeEnd =
     (if length rows > MAX_BLOCKING_LEAVE_ROWS then Inl TooComplex else count_derived rangeStart rangeEnd 0 rows)"

text \<open>The loop over the days of a leave with times. A time that is no clock gives an interval that blocks nothing.\<close>

function anchor_intervals :: "string \<Rightarrow> string \<Rightarrow> string \<Rightarrow> string \<Rightarrow> date_error + shift_interval list" where
  "anchor_intervals lastAnchor startTime endTime anchor =
     (if \<not> anchor \<le> lastAnchor then Inr []
      else case toShiftInterval anchor startTime endTime of
          Inl e \<Rightarrow> Inl e
        | Inr i \<Rightarrow>
            (case addDays_date anchor 1 of
               Inl e \<Rightarrow> Inl e
             | Inr nextAnchor \<Rightarrow>
                 (case anchor_intervals lastAnchor startTime endTime nextAnchor of
                    Inl e \<Rightarrow> Inl e
                  | Inr rest \<Rightarrow> Inr ((case i of Some x \<Rightarrow> [x] | None \<Rightarrow> []) @ rest))))"
  by pat_completeness auto

termination
  by (relation "measure (\<lambda>(lastAnchor, startTime, endTime, anchor). days_left anchor)") (auto intro: next_day_descends)

declare anchor_intervals.simps [simp del]

definition toBlockingLeaveIntervals :: "leave_row \<Rightarrow> string \<Rightarrow> string \<Rightarrow> date_error + shift_interval list" where
  "toBlockingLeaveIntervals leave rangeStart rangeEnd =
     (if lvType leave \<notin> set BLOCKING_LEAVE_TYPES then Inr []
      else if lvType leave = SUDDEN \<and> nonempty (lvAssignment leave) \<noteq> None then Inr []
      else case (nonempty (lvStartTime leave), nonempty (lvEndTime leave)) of
          (Some startTime, Some endTime) \<Rightarrow>
            (if first_anchor leave rangeStart > last_anchor leave rangeEnd then Inr []
             else anchor_intervals (last_anchor leave rangeEnd) startTime endTime (first_anchor leave rangeStart))
        | _ \<Rightarrow>
            and_then (parseDateOnly (lvStartDate leave)) (\<lambda>s.
            and_then (addDays_date (lvEndDate leave) 1) (\<lambda>afterEnd.
            and_then (parseDateOnly afterEnd) (\<lambda>e.
              Inr [\<lparr> siStart = of_int s / 60000, siEnd = of_int e / 60000, siStartOnly = True \<rparr>]))))"

definition leave_blocks :: "shift_interval \<Rightarrow> shift_interval \<Rightarrow> bool" where
  "leave_blocks shift leave =
     (if siStartOnly leave then siStart shift \<ge> siStart leave \<and> siStart shift < siEnd leave else intervalsOverlap shift leave)"

definition leaveBlocksShifts :: "shift_interval list \<Rightarrow> shift_interval list \<Rightarrow> bool" where
  "leaveBlocksShifts proposed leaves = list_ex (\<lambda>shift. list_ex (leave_blocks shift) leaves) proposed"

definition merge_step :: "shift_interval list \<Rightarrow> shift_interval \<Rightarrow> shift_interval list" where
  "merge_step merged interval =
     (if merged = [] \<or> siStart interval > siEnd (last merged) then merged @ [interval]
      else if siEnd interval > siEnd (last merged) then butlast merged @ [(last merged)\<lparr>siEnd := siEnd interval\<rparr>]
      else merged)"

definition merge_run :: "shift_interval list \<Rightarrow> shift_interval list" where
  "merge_run intervals = foldl merge_step [] (sortIntervals intervals)"

text \<open>The recursive calls of \<open>mergeIntervals\<close> get lists of one kind, which go straight to the loop.\<close>

definition mergeIntervals :: "shift_interval list \<Rightarrow> shift_interval list" where
  "mergeIntervals intervals =
     (let dayLong = filter siStartOnly intervals in
      if dayLong \<noteq> [] \<and> length dayLong < length intervals
      then merge_run dayLong @ merge_run (filter (\<lambda>i. \<not> siStartOnly i) intervals)
      else merge_run intervals)"

fun collect_leave ::
  "string \<Rightarrow> string \<Rightarrow> (string, shift_interval list) jsmap \<Rightarrow> leave_row list \<Rightarrow> leave_error + (string, shift_interval list) jsmap" where
  "collect_leave rangeStart rangeEnd m [] = Inr m"
| "collect_leave rangeStart rangeEnd m (leave # rest) =
     and_then (lift_leave (toBlockingLeaveIntervals leave rangeStart rangeEnd)) (\<lambda>intervals.
       collect_leave rangeStart rangeEnd
         (if intervals = [] then m else map_set m (lvEmployee leave) (map_get_or [] m (lvEmployee leave) @ intervals)) rest)"

definition groupBlockingLeaveIntervals ::
  "leave_row list \<Rightarrow> string \<Rightarrow> string \<Rightarrow> leave_error + (string, shift_interval list) jsmap" where
  "groupBlockingLeaveIntervals rows rangeStart rangeEnd =
     and_then (assertBlockingLeaveExpansionBound rows rangeStart rangeEnd) (\<lambda>_.
     and_then (collect_leave rangeStart rangeEnd [] rows) (\<lambda>m. Inr (map (\<lambda>(k, v). (k, mergeIntervals v)) m)))"

definition sick_days :: leave_row where
  "sick_days = \<lparr> lvId = ''l1'', lvStore = ''s1'', lvEmployee = ''e1'', lvType = SICK, lvStatus = Some LEAVE_APPROVED, lvDeleted = False, lvStartDate = ''2026-09-20'',
     lvEndDate = ''2026-09-21'', lvStartTime = None, lvEndTime = None, lvAssignment = None \<rparr>"

section \<open>The function and the SQL condition agree\<close>

definition stored_row :: "leave_row \<Rightarrow> bool" where
  "stored_row r \<longleftrightarrow> lvStatus r \<noteq> None \<and> length (lvStartDate r) = 10 \<and> length (lvEndDate r) = 10 \<and>
     lvStartTime r \<noteq> Some [] \<and> lvEndTime r \<noteq> Some [] \<and> lvAssignment r \<noteq> Some []"

text \<open>The two readings of approved leave agree: on rows as the table stores them, the SQL condition that decides whether a missed
  shift is excused holds exactly when the function of the loaded rows does for some row of the employee that is not deleted.\<close>

theorem leave_sql_agrees:
  assumes "list_all stored_row rows" "length workDate = 10"
  shows "approvedLeaveCoversShiftSql employee workDate assignmentId rows \<longleftrightarrow>
    list_ex (\<lambda>r. lvEmployee r = employee \<and> \<not> lvDeleted r \<and> leaveCoversShift r workDate assignmentId) rows"
proof -
  have "sql_row_covers employee workDate assignmentId r \<longleftrightarrow>
      lvEmployee r = employee \<and> \<not> lvDeleted r \<and> leaveCoversShift r workDate assignmentId" if "stored_row r" for r
    using that assms(2)
    by (auto simp: sql_row_covers_def leaveCoversShift_def stored_row_def nonempty_def Let_def not_less split: option.splits)
  then show ?thesis using assms(1) by (simp add: approvedLeaveCoversShiftSql_def list_ex_iff list_all_iff)
qed

theorem leave_sql_agrees_witness:
  "approvedLeaveCoversShiftSql ''e1'' ''2026-09-21'' ''a1'' [sick_days]"
proof -
  have "list_all stored_row [sick_days]" "length ''2026-09-21'' = 10"
    by (simp_all add: stored_row_def sick_days_def)
  note eq = leave_sql_agrees [OF this, of "''e1''" "''a1''"]
  show ?thesis unfolding eq by code_simp
qed

section \<open>Merging keeps what is blocked\<close>

definition cover :: "shift_interval list \<Rightarrow> rat set" where
  "cover is = {x. \<exists>i \<in> set is. siStart i \<le> x \<and> x < siEnd i}"

lemma cover_append [simp]: "cover (xs @ ys) = cover xs \<union> cover ys"
  by (auto simp: cover_def)

lemma merge_step_cover:
  assumes "merged \<noteq> [] \<Longrightarrow> siStart (last merged) \<le> siStart i"
  shows "cover (merge_step merged i) = cover merged \<union> cover [i] \<and> merge_step merged i \<noteq> [] \<and>
    siStart (last (merge_step merged i)) \<le> siStart i"
proof (cases "merged = []")
  case False
  then obtain xs l where m: "merged = xs @ [l]" by (metis append_butlast_last_id)
  then have "siStart l \<le> siStart i" using assms by simp
  then show ?thesis by (auto simp: merge_step_def m cover_def)
qed (simp add: merge_step_def cover_def)

lemma merge_fold_cover:
  "in_order is \<Longrightarrow> (merged \<noteq> [] \<Longrightarrow> \<forall>i \<in> set is. siStart (last merged) \<le> siStart i) \<Longrightarrow>
    cover (foldl merge_step merged is) = cover merged \<union> cover is"
proof (induction "is" arbitrary: merged)
  case (Cons i "is")
  note step = merge_step_cover [of merged i]
  have first: "merged \<noteq> [] \<Longrightarrow> siStart (last merged) \<le> siStart i" using Cons.prems(2) by simp
  have "siStart (last (merge_step merged i)) \<le> siStart j" if "j \<in> set is" for j
    using step [OF first] Cons.prems(1) that by force
  then have "cover (foldl merge_step (merge_step merged i) is) = cover (merge_step merged i) \<union> cover is"
    using Cons.IH [of "merge_step merged i"] Cons.prems(1) by simp
  then show ?case using step [OF first] by (auto simp: cover_def)
qed (simp add: cover_def)

lemma merge_run_cover: "cover (merge_run is) = cover is"
  using merge_fold_cover [of "sortIntervals is" "[]"] by (simp add: merge_run_def cover_def)

lemma merge_step_keeps:
  "list_all P merged \<Longrightarrow> P i \<Longrightarrow> (\<And>l. P l \<Longrightarrow> siEnd i > siEnd l \<Longrightarrow> P (l\<lparr>siEnd := siEnd i\<rparr>)) \<Longrightarrow> list_all P (merge_step merged i)"
  by (cases merged rule: rev_cases) (auto simp: merge_step_def)

lemma merge_run_keeps:
  assumes "list_all P is" "\<And>l i. P l \<Longrightarrow> P i \<Longrightarrow> siEnd i > siEnd l \<Longrightarrow> P (l\<lparr>siEnd := siEnd i\<rparr>)"
  shows "list_all P (merge_run is)"
proof -
  have "list_all P xs \<Longrightarrow> list_all P merged \<Longrightarrow> list_all P (foldl merge_step merged xs)" for xs merged
  proof (induction xs arbitrary: merged)
    case (Cons i xs)
    have "list_all P (merge_step merged i)"
      using Cons.prems assms(2) [of _ i] by (intro merge_step_keeps) auto
    then show ?case using Cons by simp
  qed simp
  from this [of "sortIntervals is" "[]"] show ?thesis using assms(1) by (simp add: merge_run_def list_all_iff)
qed

definition blockable :: "shift_interval \<Rightarrow> bool" where
  "blockable i \<longleftrightarrow> siStartOnly i \<or> proper i"

text \<open>What blocks a shift of positive length, in terms of the covered times.\<close>

lemma blocks_by_cover:
  assumes "proper shift" "list_all (\<lambda>i. siStartOnly i = b \<and> (b \<or> proper i)) is"
  shows "list_ex (leave_blocks shift) is \<longleftrightarrow>
    (if b then siStart shift \<in> cover is else \<exists>x \<in> cover is. siStart shift \<le> x \<and> x < siEnd shift)"
proof (cases b)
  case True
  then show ?thesis using assms by (auto simp: list_ex_iff list_all_iff leave_blocks_def cover_def)
next
  case False
  have "intervalsOverlap shift i \<longleftrightarrow> (\<exists>x. siStart shift \<le> x \<and> x < siEnd shift \<and> siStart i \<le> x \<and> x < siEnd i)" if "proper i" for i
  proof
    assume "intervalsOverlap shift i"
    then have "max (siStart shift) (siStart i) < siEnd shift" "max (siStart shift) (siStart i) < siEnd i"
      using assms(1) that by (auto simp: intervalsOverlap_def proper_def)
    then show "\<exists>x. siStart shift \<le> x \<and> x < siEnd shift \<and> siStart i \<le> x \<and> x < siEnd i"
      by (intro exI [of _ "max (siStart shift) (siStart i)"]) simp
  qed (auto simp: intervalsOverlap_def)
  then show ?thesis using False assms(2)
    by (simp add: list_ex_iff list_all_iff leave_blocks_def cover_def) blast
qed

lemma merge_run_blocks:
  assumes "proper shift" "list_all (\<lambda>i. siStartOnly i = b \<and> (b \<or> proper i)) is"
  shows "list_ex (leave_blocks shift) (merge_run is) \<longleftrightarrow> list_ex (leave_blocks shift) is"
proof -
  have "list_all (\<lambda>i. siStartOnly i = b \<and> (b \<or> proper i)) (merge_run is)"
    using assms(2) by (rule merge_run_keeps) (auto simp: proper_def)
  then show ?thesis
    using blocks_by_cover [OF assms] blocks_by_cover [OF assms(1)] by (simp add: merge_run_cover)
qed

lemma merge_blocks:
  assumes "list_all proper proposed" "list_all blockable is"
  shows "leaveBlocksShifts proposed (mergeIntervals is) \<longleftrightarrow> leaveBlocksShifts proposed is"
proof -
  have "list_ex (leave_blocks shift) (mergeIntervals is) \<longleftrightarrow> list_ex (leave_blocks shift) is" if p: "proper shift" for shift
  proof -
    have kinds: "list_all (\<lambda>i. siStartOnly i = True \<and> (True \<or> proper i)) (filter siStartOnly is)"
      "list_all (\<lambda>i. siStartOnly i = False \<and> (False \<or> proper i)) (filter (\<lambda>i. \<not> siStartOnly i) is)"
      using assms(2) by (auto simp: list_all_iff blockable_def)
    consider (both) "filter siStartOnly is \<noteq> []" "length (filter siStartOnly is) < length is"
      | (none) "filter siStartOnly is = []" | (all) "length (filter siStartOnly is) = length is"
      by (meson length_filter_le le_neq_implies_less)
    then show ?thesis
    proof cases
      case both
      then have "mergeIntervals is = merge_run (filter siStartOnly is) @ merge_run (filter (\<lambda>i. \<not> siStartOnly i) is)"
        by (simp add: mergeIntervals_def Let_def)
      then show ?thesis
        using merge_run_blocks [OF p kinds(1)] merge_run_blocks [OF p kinds(2)] by (auto simp: list_ex_iff)
    next
      case none
      then have same: "filter (\<lambda>i. \<not> siStartOnly i) is = is" by (auto simp: filter_empty_conv filter_id_conv)
      then show ?thesis using merge_run_blocks [OF p kinds(2)] none by (simp add: mergeIntervals_def Let_def)
    next
      case all
      have "siStartOnly i" if "i \<in> set is" for i
        using length_filter_less [OF that, of siStartOnly] all by (rule_tac ccontr) simp
      then have same: "filter siStartOnly is = is" by simp
      then show ?thesis using merge_run_blocks [OF p kinds(1)] by (simp add: mergeIntervals_def Let_def)
    qed
  qed
  then show ?thesis using assms(1) by (auto simp: leaveBlocksShifts_def list_ex_iff list_all_iff)
qed

section \<open>Leave grouped per employee\<close>

definition clocks_ok :: "leave_row \<Rightarrow> bool" where
  "clocks_ok leave \<longleftrightarrow> (timed leave \<longrightarrow> clock_ok (the (lvStartTime leave)) \<and> clock_ok (the (lvEndTime leave)))"

lemma shift_interval_proper:
  "toShiftInterval d s e = Inr (Some i) \<Longrightarrow> clock_ok s \<Longrightarrow> clock_ok e \<Longrightarrow> proper i"
  using clock_min_range [of s] clock_min_range [of e]
  by (auto simp: toShiftInterval_def and_then_Inr_iff minutes_of_clock proper_def Let_def)

lemma anchor_intervals_proper:
  "clock_ok s \<Longrightarrow> clock_ok e \<Longrightarrow> anchor_intervals l s e a = Inr is \<Longrightarrow> list_all proper is"
proof (induction l s e a arbitrary: "is" rule: anchor_intervals.induct)
  case (1 l s e a)
  show ?case
  proof (cases "a \<le> l")
    case True
    then obtain i b rest where step: "toShiftInterval a s e = Inr i" "addDays_date a 1 = Inr b" "anchor_intervals l s e b = Inr rest"
        "is = (case i of Some x \<Rightarrow> [x] | None \<Rightarrow> []) @ rest"
      using "1.prems"(3) by (subst (asm) anchor_intervals.simps) (auto split: sum.splits)
    have "list_all proper rest" using "1.IH" [OF _ step(1,2)] True "1.prems"(1,2) step(3) by simp
    then show ?thesis using step(1,4) "1.prems"(1,2) shift_interval_proper by (auto split: option.splits)
  next
    case False
    then show ?thesis using "1.prems"(3) by (subst (asm) anchor_intervals.simps) simp
  qed
qed

lemma blocking_intervals_blockable:
  assumes "toBlockingLeaveIntervals leave p q = Inr is" "clocks_ok leave"
  shows "list_all blockable is"
proof (cases "timed leave")
  case True
  then obtain s e where t: "nonempty (lvStartTime leave) = Some s" "nonempty (lvEndTime leave) = Some e"
    by (auto simp: timed_def)
  then have "clock_ok s" "clock_ok e" using assms(2) True by (auto simp: clocks_ok_def nonempty_Some)
  then show ?thesis using assms(1) t anchor_intervals_proper
    by (auto simp: toBlockingLeaveIntervals_def blockable_def list_all_iff split: if_splits)
next
  case False
  then show ?thesis using assms(1)
    by (auto simp: toBlockingLeaveIntervals_def timed_def blockable_def and_then_Inr_iff split: if_splits option.splits)
qed

lemma blocks_append [simp]: "leaveBlocksShifts ps (xs @ ys) \<longleftrightarrow> leaveBlocksShifts ps xs \<or> leaveBlocksShifts ps ys"
  by (auto simp: leaveBlocksShifts_def list_ex_iff)

lemma blocks_Nil [simp]: "\<not> leaveBlocksShifts ps []"
  by (simp add: leaveBlocksShifts_def list_ex_iff)

lemma collect_blocks:
  "collect_leave p q m rows = Inr m' \<Longrightarrow> list_all clocks_ok rows \<Longrightarrow> list_all blockable (map_get_or [] m emp) \<Longrightarrow>
    list_all blockable (map_get_or [] m' emp) \<and>
    (leaveBlocksShifts ps (map_get_or [] m' emp) \<longleftrightarrow> leaveBlocksShifts ps (map_get_or [] m emp) \<or>
      (\<exists>leave \<in> set rows. lvEmployee leave = emp \<and>
        (\<exists>is. toBlockingLeaveIntervals leave p q = Inr is \<and> leaveBlocksShifts ps is)))"
proof (induction rows arbitrary: m)
  case (Cons leave rows)
  then obtain "is" where iv: "toBlockingLeaveIntervals leave p q = Inr is"
    by (auto simp: and_then_Inr_iff lift_leave_def split: sum.splits)
  let ?m = "if is = [] then m else map_set m (lvEmployee leave) (map_get_or [] m (lvEmployee leave) @ is)"
  have rest: "collect_leave p q ?m rows = Inr m'" using Cons.prems(1) iv by (simp add: lift_leave_def)
  have get: "map_get_or [] ?m emp = map_get_or [] m emp @ (if lvEmployee leave = emp then is else [])"
    by (auto simp: get_set_or)
  have "list_all blockable is" using blocking_intervals_blockable [OF iv] Cons.prems(2) by simp
  then have "list_all blockable (map_get_or [] ?m emp)" using Cons.prems(3) get by simp
  from Cons.IH [OF rest _ this] Cons.prems(2) show ?case unfolding get using iv by auto
qed auto

text \<open>C28. Leave is checked per employee on merged intervals, and the merging changes nothing: shifts of positive length are blocked by
  what the grouping keeps for an employee exactly when one of the employee's own leave requests blocks one of them, whole days
  by the start of the shift and hours by the time they share.\<close>

theorem grouped_leave_blocks_as_each_leave:
  assumes "groupBlockingLeaveIntervals rows p q = Inr m" "list_all clocks_ok rows" "list_all proper proposed"
  shows "leaveBlocksShifts proposed (map_get_or [] m employee) \<longleftrightarrow>
    (\<exists>leave \<in> set rows. lvEmployee leave = employee \<and>
      (\<exists>is. toBlockingLeaveIntervals leave p q = Inr is \<and> leaveBlocksShifts proposed is))"
proof -
  obtain m0 where m0: "collect_leave p q [] rows = Inr m0" and m: "m = map (\<lambda>(k, v). (k, mergeIntervals v)) m0"
    using assms(1) by (auto simp: groupBlockingLeaveIntervals_def and_then_Inr_iff)
  have "mergeIntervals [] = []" by (simp add: mergeIntervals_def merge_run_def sortIntervals_def)
  then have "map_get_or [] m employee = mergeIntervals (map_get_or [] m0 employee)"
    by (simp add: m map_get_or_def map_of_map split: option.splits)
  moreover have "list_all blockable (map_get_or [] [] employee)" by (simp add: map_get_or_def)
  ultimately show ?thesis
    using collect_blocks [OF m0 assms(2), of employee proposed] merge_blocks [OF assms(3)]
    by (simp add: map_get_or_def)
qed

section \<open>A whole day of leave blocks the shifts it excuses\<close>

text \<open>The two rules for a day of leave are one rule: an approved whole-day request (a sudden absence asked for one shift apart)
  blocks a proposed shift exactly when it would excuse it, that is when the work date of the shift is one of its days, however far
  an overnight shift reaches into the next day.\<close>

theorem day_leave_blocks_what_it_covers:
  assumes "full_day n" "clock_ok s" "clock_ok e"
    and "lvStartDate leave = day_string a" "lvEndDate leave = day_string b" "full_day a" "full_day b" "full_day (b + 1)"
    and "\<not> timed leave" "lvStatus leave = Some LEAVE_APPROVED" "lvType leave = SUDDEN \<Longrightarrow> nonempty (lvAssignment leave) = None"
  shows "\<exists>shift is. toShiftInterval (day_string n) s e = Inr (Some shift) \<and> toBlockingLeaveIntervals leave p q = Inr is \<and>
    (leaveBlocksShifts [shift] is \<longleftrightarrow> leaveCoversShift leave (day_string n) assignmentId)"
proof -
  let ?shift = "day_interval s e n"
  have shift: "toShiftInterval (day_string n) s e = Inr (Some ?shift)" using assms(1-3) by (simp add: shift_interval_day)
  have len: "take 10 (day_string k) = day_string k" if "full_day k" for k
    using that length_civil_string [of "civil_of_day k"] by (simp add: full_day_def)
  show ?thesis
  proof (cases "lvType leave \<in> set BLOCKING_LEAVE_TYPES")
    case False
    then show ?thesis using shift
      by (auto simp: toBlockingLeaveIntervals_def leaveCoversShift_def BLOCKING_LEAVE_TYPES_def AUTHORIZED_ABSENCE_LEAVE_TYPES_def)
  next
    case True
    let ?day = "\<lparr> siStart = of_int (a * DAY_MS) / 60000, siEnd = of_int ((b + 1) * DAY_MS) / 60000, siStartOnly = True \<rparr>"
    have ivs: "toBlockingLeaveIntervals leave p q = Inr [?day]"
      using True assms(4-9,11)
      by (auto simp: toBlockingLeaveIntervals_def timed_def addDays_date_day parse_day split: option.splits)
    have "(of_int (k * DAY_MS) / 60000 :: rat) = of_int (1440 * k)" for k by (simp add: DAY_MS_def)
    note bounds = this [of a] this [of "b + 1"]
    have blocks: "leaveBlocksShifts [x] [l] \<longleftrightarrow> leave_blocks x l" for x l by (simp add: leaveBlocksShifts_def)
    from bounds have "leaveBlocksShifts [?shift] [?day] \<longleftrightarrow>
        of_int (1440 * a) \<le> siStart ?shift \<and> siStart ?shift < of_int (1440 * (b + 1))"
      by (simp only: blocks leave_blocks_def shift_interval.simps if_True)
    also have "\<dots> \<longleftrightarrow> 1440 * a \<le> 1440 * n + clock_min s \<and> 1440 * n + clock_min s < 1440 * (b + 1)"
      by (simp only: day_interval_def shift_interval.simps of_int_le_iff of_int_less_iff)
    also have "\<dots> \<longleftrightarrow> a \<le> n \<and> n \<le> b" using clock_min_range [OF assms(2)]
      unfolding distrib_left mult_1_right by (intro arg_cong2 [of _ _ _ _ "(\<and>)"] iffI) linarith+
    also have "\<dots> \<longleftrightarrow> leaveCoversShift leave (day_string n) assignmentId"
    proof -
      have "lvType leave \<in> set AUTHORIZED_ABSENCE_LEAVE_TYPES"
        using True by (simp add: BLOCKING_LEAVE_TYPES_def AUTHORIZED_ABSENCE_LEAVE_TYPES_def)
      moreover have "\<not> (lvType leave = SUDDEN \<and> nonempty (lvAssignment leave) \<noteq> None)" using assms(11) by auto
      moreover have "nonempty (lvStartTime leave) = None \<or> nonempty (lvEndTime leave) = None" using assms(9) by (simp add: timed_def)
      moreover have order: "day_string n < day_string a \<longleftrightarrow> n < a" "day_string b < day_string n \<longleftrightarrow> b < n"
        using assms(1,6,7) by (simp_all add: day_string_less)
      ultimately show ?thesis
        unfolding leaveCoversShift_def Let_def assms(4,5,10) len [OF assms(1)] len [OF assms(6)] len [OF assms(7)] order
        by auto
    qed
    finally show ?thesis using shift ivs by blast
  qed
qed

text \<open>The night shift of the last day is blocked, the one of the day before the leave is not.\<close>

theorem day_leave_blocks_what_it_covers_witness:
  "\<exists>shift is. toShiftInterval ''2026-09-21'' ''22:00'' ''04:00'' = Inr (Some shift) \<and>
    toBlockingLeaveIntervals sick_days ''2026-09-01'' ''2026-09-30'' = Inr is \<and> leaveBlocksShifts [shift] is"
proof -
  have d: "''2026-09-21'' = day_string 20717" "''2026-09-20'' = day_string 20716" by code_simp+
  have h: "full_day 20717" "full_day 20716" "full_day (20717 + 1)" "clock_ok ''22:00''" "clock_ok ''04:00''" by code_simp+
  have l: "lvStartDate sick_days = day_string 20716" "lvEndDate sick_days = day_string 20717" "\<not> timed sick_days"
    "lvStatus sick_days = Some LEAVE_APPROVED" "lvType sick_days = SUDDEN \<Longrightarrow> nonempty (lvAssignment sick_days) = None"
    by (simp_all add: sick_days_def d timed_def nonempty_def)
  have "leaveCoversShift sick_days (day_string 20717) ''x''" unfolding d(1) [symmetric] by code_simp
  then show ?thesis
    using day_leave_blocks_what_it_covers [OF h(1,4,5) l(1,2) h(2,1,3) l(3,4,5), of "''2026-09-01''" "''2026-09-30''" "''x''"]
    unfolding d(1) by blast
qed

section \<open>The expansion of leave is bounded\<close>

lemma anchor_intervals_days:
  assumes "clock_ok s" "clock_ok e" "full_day b" "full_day (b + 1)"
  shows "full_day a \<Longrightarrow> a \<le> b + 1 \<Longrightarrow> anchor_intervals (day_string b) s e (day_string a) = Inr (map (day_interval s e) [a..b])"
proof (induction "nat (b + 1 - a)" arbitrary: a)
  case 0
  then show ?case using assms(3) by (subst anchor_intervals.simps) (simp add: day_string_le)
next
  case (Suc k)
  then have ab: "a \<le> b" and next_full: "full_day (a + 1)" by (auto intro: full_day_between [OF Suc.prems(1) assms(4)])
  then have "anchor_intervals (day_string b) s e (day_string (a + 1)) = Inr (map (day_interval s e) [a + 1..b])"
    using Suc by (intro Suc.hyps) auto
  then show ?case using ab next_full Suc.prems(1) assms
    by (subst anchor_intervals.simps) (simp add: day_string_le shift_interval_day addDays_date_day upto_rec1)
qed

definition real_dates :: "leave_row \<Rightarrow> bool" where
  "real_dates leave \<longleftrightarrow> (\<exists>a b. lvStartDate leave = day_string a \<and> lvEndDate leave = day_string b \<and> full_day a \<and> full_day b \<and> full_day (b + 1))"

lemma ab_window:
  assumes "full_day a" "full_day b" "full_day (b + 1)" "full_day p" "full_day q" "full_day (q + 1)"
    and "lvStartDate leave = day_string a" "lvEndDate leave = day_string b"
  shows "\<exists>f l. first_anchor leave (day_string p) = day_string f \<and> last_anchor leave (day_string q) = day_string l \<and>
    full_day f \<and> full_day l \<and> full_day (l + 1)"
  using assms
  by (intro exI [of _ "if p < a then a else p"] exI [of _ "if b < q then b else q"])
     (simp add: first_anchor_def last_anchor_def day_string_less)

lemma derived_counts_intervals:
  assumes "real_dates leave" "clocks_ok leave" "full_day p" "full_day q" "full_day (q + 1)"
  obtains "is" k where "toBlockingLeaveIntervals leave (day_string p) (day_string q) = Inr is"
    "derived_by (day_string p) (day_string q) leave = Inr k" "int (length is) \<le> k"
proof -
  obtain a b where d: "lvStartDate leave = day_string a" "lvEndDate leave = day_string b" "full_day a" "full_day b" "full_day (b + 1)"
    using assms(1) by (auto simp: real_dates_def)
  show thesis
  proof (cases "lvType leave \<in> set BLOCKING_LEAVE_TYPES \<and> timed leave")
    case False
    then consider (other) "lvType leave \<notin> set BLOCKING_LEAVE_TYPES" | (day) "lvType leave \<in> set BLOCKING_LEAVE_TYPES" "\<not> timed leave"
      by blast
    then show ?thesis
    proof cases
      case other
      then show ?thesis using that [of "[]" 0] by (simp add: toBlockingLeaveIntervals_def derived_by_def)
    next
      case day
      then have "\<exists>is. toBlockingLeaveIntervals leave (day_string p) (day_string q) = Inr is \<and> length is \<le> 1"
        using d by (auto simp: toBlockingLeaveIntervals_def timed_def addDays_date_day parse_day split: option.splits)
      moreover have "derived_by (day_string p) (day_string q) leave = Inr 1" using day by (simp add: derived_by_def)
      ultimately show ?thesis using that [of _ 1] by fastforce
    qed
  next
    case True
    then obtain s e where t: "nonempty (lvStartTime leave) = Some s" "nonempty (lvEndTime leave) = Some e" by (auto simp: timed_def)
    then have ok: "clock_ok s" "clock_ok e" using assms(2) True by (auto simp: clocks_ok_def nonempty_Some)
    from ab_window [OF d(3,4,5) assms(3-5) d(1,2)] obtain f l where fl: "first_anchor leave (day_string p) = day_string f"
        "last_anchor leave (day_string q) = day_string l" "full_day f" "full_day l" "full_day (l + 1)"
      by blast
    show ?thesis
    proof (cases "f \<le> l")
      case False
      then have "derived_by (day_string p) (day_string q) leave = Inr 0" "toBlockingLeaveIntervals leave (day_string p) (day_string q) = Inr []"
        using True t fl by (simp_all add: derived_by_def toBlockingLeaveIntervals_def day_string_le day_string_less)
      then show ?thesis using that by force
    next
      case le: True
      have span: "derived_by (day_string p) (day_string q) leave = Inr (l - f + 1)"
        using True le fl DAY_MS_pos
        by (simp add: derived_by_def day_string_le inclusiveDateSpan_def parse_day lift_leave_def flip: left_diff_distrib)
      have "toBlockingLeaveIntervals leave (day_string p) (day_string q) \<in> {Inr [], Inr (map (day_interval s e) [f..l])}"
        using True t le fl anchor_intervals_days [OF ok fl(4,5,3)]
        by (auto simp: toBlockingLeaveIntervals_def day_string_less)
      then consider "toBlockingLeaveIntervals leave (day_string p) (day_string q) = Inr []"
        | "toBlockingLeaveIntervals leave (day_string p) (day_string q) = Inr (map (day_interval s e) [f..l])" by blast
      then show ?thesis using that [OF _ span] le by cases auto
    qed
  qed
qed

lemma count_derived_bound:
  assumes "full_day p" "full_day q" "full_day (q + 1)"
  shows "count_derived (day_string p) (day_string q) n rows = Inr () \<Longrightarrow> list_all real_dates rows \<Longrightarrow> list_all clocks_ok rows \<Longrightarrow>
    n \<le> MAX_DERIVED_BLOCKING_LEAVE_INTERVALS \<Longrightarrow>
    \<exists>iss. map (\<lambda>l. toBlockingLeaveIntervals l (day_string p) (day_string q)) rows = map Inr iss \<and>
      n + int (length (concat iss)) \<le> MAX_DERIVED_BLOCKING_LEAVE_INTERVALS"
proof (induction rows arbitrary: n)
  case Nil
  then show ?case by (intro exI [of _ "[]"]) simp
next
  case (Cons leave rows)
  have "real_dates leave" "clocks_ok leave" using Cons.prems by simp_all
  then obtain "is" k where iv: "toBlockingLeaveIntervals leave (day_string p) (day_string q) = Inr is"
      and k: "derived_by (day_string p) (day_string q) leave = Inr k" "int (length is) \<le> k"
    using derived_counts_intervals assms by blast
  have step: "n + k \<le> MAX_DERIVED_BLOCKING_LEAVE_INTERVALS" "count_derived (day_string p) (day_string q) (n + k) rows = Inr ()"
    using Cons.prems(1) k(1) by (auto simp: and_then_Inr_iff)
  then obtain iss where "map (\<lambda>l. toBlockingLeaveIntervals l (day_string p) (day_string q)) rows = map Inr iss"
      "n + k + int (length (concat iss)) \<le> MAX_DERIVED_BLOCKING_LEAVE_INTERVALS"
    using Cons.IH [OF step(2)] Cons.prems(2,3) step(1) by auto
  then show ?case using iv k(2) by (intro exI [of _ "is # iss"]) simp
qed

text \<open>The bound on leave is checked before any interval is built, and it bounds what is built: when the check accepts the
  requests of real dates and times, every one of them expands, its loop over the days ends, and all together give at most 20000
  intervals.\<close>

theorem leave_expansion_is_bounded:
  assumes "assertBlockingLeaveExpansionBound rows (day_string p) (day_string q) = Inr ()"
    and "full_day p" "full_day q" "full_day (q + 1)" "list_all real_dates rows" "list_all clocks_ok rows"
  shows "\<exists>iss. map (\<lambda>l. toBlockingLeaveIntervals l (day_string p) (day_string q)) rows = map Inr iss \<and> length (concat iss) \<le> 20000"
proof -
  have "length rows \<le> MAX_BLOCKING_LEAVE_ROWS" "count_derived (day_string p) (day_string q) 0 rows = Inr ()"
    using assms(1) by (auto simp: assertBlockingLeaveExpansionBound_def split: if_splits)
  then obtain iss where "map (\<lambda>l. toBlockingLeaveIntervals l (day_string p) (day_string q)) rows = map Inr iss"
      "0 + int (length (concat iss)) \<le> MAX_DERIVED_BLOCKING_LEAVE_INTERVALS"
    using count_derived_bound [OF assms(2-4) _ assms(5,6), of 0] by (auto simp: MAX_DERIVED_BLOCKING_LEAVE_INTERVALS_def)
  then show ?thesis by (intro exI [of _ iss]) (simp add: MAX_DERIVED_BLOCKING_LEAVE_INTERVALS_def)
qed

text \<open>Two requests of one employee, two whole days and an afternoon.\<close>

definition afternoon_off :: leave_row where
  "afternoon_off = sick_days \<lparr> lvStartDate := ''2026-09-22'', lvEndDate := ''2026-09-22'',
     lvStartTime := Some ''13:00'', lvEndTime := Some ''17:00'' \<rparr>"

definition september_shift :: shift_interval where
  "september_shift = \<lparr> siStart = 29834880, siEnd = 29835120, siStartOnly = False \<rparr>"

lemma september:
  "''2026-09-01'' = day_string 20697" "''2026-09-30'' = day_string 20726" "''2026-09-20'' = day_string 20716"
  "''2026-09-21'' = day_string 20717" "''2026-09-22'' = day_string 20718"
  by code_simp+

lemma september_full:
  "full_day 20697" "full_day 20726" "full_day 20727" "full_day 20716" "full_day 20717" "full_day 20718" "full_day 20719"
  by code_simp+

lemma sick_facts:
  "lvEmployee sick_days = ''e1''" "lvType sick_days = SICK" "nonempty (lvStartTime sick_days) = None"
  "lvStartDate sick_days = day_string 20716" "lvEndDate sick_days = day_string 20717"
  by (simp_all add: sick_days_def nonempty_def september)

lemma afternoon_facts:
  "lvEmployee afternoon_off = ''e1''" "lvType afternoon_off = SICK" "nonempty (lvStartTime afternoon_off) = Some ''13:00''"
  "nonempty (lvEndTime afternoon_off) = Some ''17:00''"
  "lvStartDate afternoon_off = day_string 20718" "lvEndDate afternoon_off = day_string 20718"
  by (simp_all add: afternoon_off_def sick_days_def nonempty_def september)

lemma afternoon_window:
  "first_anchor afternoon_off (day_string 20697) = day_string 20718" "last_anchor afternoon_off (day_string 20726) = day_string 20718"
  using september_full by (simp_all add: first_anchor_def last_anchor_def afternoon_facts day_string_less)

lemma september_intervals:
  "toBlockingLeaveIntervals sick_days (day_string 20697) (day_string 20726) =
    Inr [\<lparr> siStart = 29831040, siEnd = 29833920, siStartOnly = True \<rparr>]"
  "toBlockingLeaveIntervals afternoon_off (day_string 20697) (day_string 20726) =
    Inr [\<lparr> siStart = 29834700, siEnd = 29834940, siStartOnly = False \<rparr>]"
proof -
  show "toBlockingLeaveIntervals sick_days (day_string 20697) (day_string 20726) =
      Inr [\<lparr> siStart = 29831040, siEnd = 29833920, siStartOnly = True \<rparr>]"
    using september_full
    by (simp add: toBlockingLeaveIntervals_def sick_facts BLOCKING_LEAVE_TYPES_def addDays_date_day parse_day DAY_MS_def)
  have "clock_ok ''13:00''" "clock_ok ''17:00''" by code_simp+
  then have "anchor_intervals (day_string 20718) ''13:00'' ''17:00'' (day_string 20718) = Inr [day_interval ''13:00'' ''17:00'' 20718]"
    using anchor_intervals_days [of _ _ 20718 20718] september_full by simp
  moreover have "day_interval ''13:00'' ''17:00'' 20718 = \<lparr> siStart = 29834700, siEnd = 29834940, siStartOnly = False \<rparr>"
    by code_simp
  ultimately show "toBlockingLeaveIntervals afternoon_off (day_string 20697) (day_string 20726) =
      Inr [\<lparr> siStart = 29834700, siEnd = 29834940, siStartOnly = False \<rparr>]"
    by (simp add: toBlockingLeaveIntervals_def afternoon_facts afternoon_window BLOCKING_LEAVE_TYPES_def)
qed

lemma september_leave_bounded:
  "assertBlockingLeaveExpansionBound [sick_days, afternoon_off] (day_string 20697) (day_string 20726) = Inr ()"
proof -
  have "derived_by (day_string 20697) (day_string 20726) sick_days = Inr 1"
    by (simp add: derived_by_def sick_facts timed_def BLOCKING_LEAVE_TYPES_def)
  moreover have "derived_by (day_string 20697) (day_string 20726) afternoon_off = Inr 1"
    using september_full
    by (simp add: derived_by_def afternoon_facts afternoon_window timed_def BLOCKING_LEAVE_TYPES_def inclusiveDateSpan_def
        parse_day lift_leave_def)
  ultimately show ?thesis
    by (simp add: assertBlockingLeaveExpansionBound_def MAX_BLOCKING_LEAVE_ROWS_def MAX_DERIVED_BLOCKING_LEAVE_INTERVALS_def)
qed

theorem grouped_leave_blocks_as_each_leave_witness:
  "\<exists>m. groupBlockingLeaveIntervals [sick_days, afternoon_off] (day_string 20697) (day_string 20726) = Inr m \<and>
    leaveBlocksShifts [september_shift] (map_get_or [] m ''e1'')"
proof -
  let ?rows = "[sick_days, afternoon_off]"
  obtain m where m: "groupBlockingLeaveIntervals ?rows (day_string 20697) (day_string 20726) = Inr m"
    using september_leave_bounded by (simp add: groupBlockingLeaveIntervals_def lift_leave_def september_intervals)
  have h: "list_all clocks_ok ?rows" "list_all proper [september_shift]" by code_simp+
  have blocked: "leaveBlocksShifts [september_shift] [\<lparr> siStart = 29834700, siEnd = 29834940, siStartOnly = False \<rparr>]"
    by (simp add: leaveBlocksShifts_def leave_blocks_def intervalsOverlap_def september_shift_def)
  show ?thesis
    using grouped_leave_blocks_as_each_leave [OF m h, of "''e1''"] m september_intervals(2) blocked afternoon_facts(1) by auto
qed

theorem leave_expansion_is_bounded_witness:
  "\<exists>iss. map (\<lambda>l. toBlockingLeaveIntervals l (day_string 20697) (day_string 20726)) [sick_days, afternoon_off] = map Inr iss \<and>
    length (concat iss) \<le> 20000"
proof -
  have "real_dates sick_days" "real_dates afternoon_off"
    unfolding real_dates_def sick_facts(4,5) afternoon_facts(5,6)
    by (intro exI [of _ 20716] exI [of _ 20717], use september_full in simp)
       (intro exI [of _ 20718], use september_full in simp)
  then have real: "list_all real_dates [sick_days, afternoon_off]" by simp
  have clocks: "list_all clocks_ok [sick_days, afternoon_off]" by code_simp
  have "full_day (20726 + 1)" using september_full by simp
  then show ?thesis
    using leave_expansion_is_bounded [OF september_leave_bounded september_full(1,2) _ real clocks] by blast
qed

end
