(* ===== verification/WorkTerms.thy ===== *)
theory WorkTerms
  imports DateOnly JsMap ShiftTypes "HOL-Library.Multiset"
begin

text \<open>
  \<open>src/modules/stores/work-terms.utils.ts\<close> and the reading of \<open>work-terms.query.ts\<close>: the working conditions of one employee
  (first official day, fixed days off, days per week and per month) against the days already booked. Booked days are a set in
  insertion order. A date that is not a calendar date makes \<open>toISOString\<close> throw, the value \<open>Inl\<close>.
\<close>

section \<open>Dates\<close>

datatype range_error = InvalidTime

type_synonym js_time = "instant option"

definition MAX_TIME :: int where "MAX_TIME = 8640000000000000"

definition utcOf :: "string \<Rightarrow> js_time" where
  "utcOf ymd =
     (case map num_of_string (split_on CHR ''-'' ymd) of
        Fin y # Fin m # Fin d # _ \<Rightarrow>
          let ms = utc_day \<lfloor>js_trunc y\<rfloor> \<lfloor>js_trunc (m - 1)\<rfloor> \<lfloor>js_trunc d\<rfloor> * DAY_MS
          in if \<bar>ms\<bar> \<le> MAX_TIME then Some ms else None
      | _ \<Rightarrow> None)"

definition ymdOfUtc :: "js_time \<Rightarrow> range_error + string" where
  "ymdOfUtc date = (case date of None \<Rightarrow> Inl InvalidTime | Some ms \<Rightarrow> Inr (take 10 (toISOString ms)))"

definition weekdayOf :: "string \<Rightarrow> int option" where
  "weekdayOf ymd = map_option utc_weekday (utcOf ymd)"

definition weekStartOf :: "string \<Rightarrow> range_error + string" where
  "weekStartOf ymd =
     ymdOfUtc (map_option (\<lambda>date. set_utc_date date (utc_date date - (utc_weekday date + 6) mod 7)) (utcOf ymd))"

definition addCalendarDays :: "string \<Rightarrow> int \<Rightarrow> range_error + string" where
  "addCalendarDays ymd days = ymdOfUtc (map_option (\<lambda>date. set_utc_date date (utc_date date + days)) (utcOf ymd))"

text \<open>\<open>setUTCMonth\<close> by one, at the first of a month.\<close>

definition next_utc_month :: "instant \<Rightarrow> instant" where
  "next_utc_month date =
     (let c = civil_of_day (date div DAY_MS) in make_day (cyear c) (cmonth c) (cday c) * DAY_MS + date mod DAY_MS)"

record date_window =
  wFrom :: string
  wTo :: string

definition workTermWindow :: "string list \<Rightarrow> range_error + date_window option" where
  "workTermWindow dates =
     (if dates = [] then Inr None
      else
        let sorted = sort dates; first = hd sorted; final = last sorted in
        and_then (weekStartOf first) (\<lambda>weekFrom.
        let monthFrom = take 7 first @ ''-01'' in
        and_then (weekStartOf final) (\<lambda>lastWeek.
        and_then (addCalendarDays lastWeek 6) (\<lambda>weekTo.
        and_then (ymdOfUtc (map_option (\<lambda>d. set_utc_date (next_utc_month d) 0) (utcOf (take 7 final @ ''-01'')))) (\<lambda>monthTo.
          Inr (Some \<lparr> wFrom = (if weekFrom < monthFrom then weekFrom else monthFrom),
                      wTo = (if weekTo > monthTo then weekTo else monthTo) \<rparr>))))))"

text \<open>A column of type \<open>date\<close> as the driver gives it: a string, or a Date read in the host's zone.\<close>

datatype db_date = NoDate | DateText string | DateLocal int int int | DateInvalidTime

definition ymdOf :: "db_date \<Rightarrow> string option" where
  "ymdOf v =
     (case v of
        NoDate \<Rightarrow> None
      | DateText s \<Rightarrow> if s = [] then None else let text = take 10 s in if is_ymd text then Some text else None
      | DateLocal y month0 d \<Rightarrow> Some (year_text y @ ''-'' @ pad2 (nat (month0 + 1)) @ ''-'' @ pad2 (nat d))
      | DateInvalidTime \<Rightarrow> None)"

definition dm :: "string \<Rightarrow> string" where
  "dm ymd = take 2 (drop 8 ymd) @ ''/'' @ take 2 (drop 5 ymd) @ ''/'' @ take 4 ymd"

section \<open>Conditions and violations\<close>

record WorkTerms =
  officialStartDate :: "string option"
  workDaysPerWeek :: "int option"
  workDaysPerMonth :: "int option"
  fixedDaysOff :: "int list"

datatype WorkTermCode = NOT_STARTED | FIXED_DAY_OFF | WEEK_LIMIT | MONTH_LIMIT

text \<open>The texts shown, as their template with what is filled in.\<close>

datatype term_label = StartsOn string | FixedOff "int option" | FullWeek int | FullMonth int
datatype term_message = NotBefore string | DayOff "int option" | WeekFull int | MonthFull int jsnum | SwapNotBefore string string

record WorkTermViolation =
  vCode :: WorkTermCode
  vLabel :: term_label
  vMessage :: term_message

definition WORK_TERM_ERROR_CODES :: "WorkTermCode \<Rightarrow> string" where
  "WORK_TERM_ERROR_CODES code =
     (case code of
        NOT_STARTED \<Rightarrow> ''WORK_TERM_NOT_STARTED''
      | FIXED_DAY_OFF \<Rightarrow> ''WORK_TERM_FIXED_DAY_OFF''
      | WEEK_LIMIT \<Rightarrow> ''WORK_TERM_WEEK_LIMIT''
      | MONTH_LIMIT \<Rightarrow> ''WORK_TERM_MONTH_LIMIT'')"

record employee_terms =
  etOfficialStartDate :: db_date
  etWorkDaysPerWeek :: "int option"
  etWorkDaysPerMonth :: "int option"
  etFixedDaysOff :: "int list option"

definition workTermsOf :: "employee_terms \<Rightarrow> WorkTerms" where
  "workTermsOf profile = \<lparr> officialStartDate = ymdOf (etOfficialStartDate profile), workDaysPerWeek = etWorkDaysPerWeek profile,
     workDaysPerMonth = etWorkDaysPerMonth profile,
     fixedDaysOff = (case etFixedDaysOff profile of Some ds \<Rightarrow> ds | None \<Rightarrow> []) \<rparr>"

definition hasWorkTerms :: "WorkTerms \<Rightarrow> bool" where
  "hasWorkTerms terms \<longleftrightarrow> nonempty (officialStartDate terms) \<noteq> None \<or> workDaysPerWeek terms \<noteq> None \<or>
     workDaysPerMonth terms \<noteq> None \<or> fixedDaysOff terms \<noteq> []"

definition swapTargetNotStarted :: "db_date \<Rightarrow> db_date \<Rightarrow> (string \<times> term_message) option" where
  "swapTargetNotStarted officialStart workDate =
     (case (ymdOf workDate, ymdOf officialStart) of
        (Some day, Some start) \<Rightarrow>
          if day \<ge> start then None else Some (WORK_TERM_ERROR_CODES NOT_STARTED, SwapNotBefore (dm start) (dm day))
      | _ \<Rightarrow> None)"

definition notStartedViolation :: "WorkTerms \<Rightarrow> string \<Rightarrow> WorkTermViolation option" where
  "notStartedViolation terms workDate =
     (case nonempty (officialStartDate terms) of
        None \<Rightarrow> None
      | Some start \<Rightarrow>
          if workDate \<ge> start then None
          else Some \<lparr> vCode = NOT_STARTED, vLabel = StartsOn (take 5 (dm start)), vMessage = NotBefore (dm start) \<rparr>)"

definition week_violation :: "WorkTerms \<Rightarrow> string \<Rightarrow> string list \<Rightarrow> range_error + WorkTermViolation option" where
  "week_violation terms workDate bookedDates =
     (case workDaysPerWeek terms of
        None \<Rightarrow> Inr None
      | Some limit \<Rightarrow>
          and_then (weekStartOf workDate) (\<lambda>from'.
          and_then (addCalendarDays from' 6) (\<lambda>to'.
            Inr (if int (length (filter (\<lambda>d. d \<ge> from' \<and> d \<le> to') bookedDates)) \<ge> limit
                 then Some \<lparr> vCode = WEEK_LIMIT, vLabel = FullWeek limit, vMessage = WeekFull limit \<rparr> else None))))"

definition month_violation :: "WorkTerms \<Rightarrow> string \<Rightarrow> string list \<Rightarrow> WorkTermViolation option" where
  "month_violation terms workDate bookedDates =
     (case workDaysPerMonth terms of
        None \<Rightarrow> None
      | Some limit \<Rightarrow>
          let month = take 7 workDate in
          if int (length (filter (\<lambda>d. take 7 d = month) bookedDates)) \<ge> limit
          then Some \<lparr> vCode = MONTH_LIMIT, vLabel = FullMonth limit,
                      vMessage = MonthFull limit (num_of_string (take 2 (drop 5 month))) \<rparr>
          else None)"

definition workTermViolation :: "WorkTerms \<Rightarrow> string \<Rightarrow> string list \<Rightarrow> range_error + WorkTermViolation option" where
  "workTermViolation terms workDate bookedDates =
     (case notStartedViolation terms workDate of
        Some v \<Rightarrow> Inr (Some v)
      | None \<Rightarrow>
          let weekday = weekdayOf workDate in
          if weekday \<in> Some ` set (fixedDaysOff terms)
          then Inr (Some \<lparr> vCode = FIXED_DAY_OFF, vLabel = FixedOff weekday, vMessage = DayOff weekday \<rparr>)
          else if workDate \<in> set bookedDates then Inr None
          else and_then (week_violation terms workDate bookedDates) (\<lambda>week.
                 case week of Some v \<Rightarrow> Inr (Some v) | None \<Rightarrow> Inr (month_violation terms workDate bookedDates)))"

definition set_add :: "string list \<Rightarrow> string \<Rightarrow> string list" where
  "set_add xs x = (if x \<in> set xs then xs else xs @ [x])"

fun warn_dates :: "WorkTerms \<Rightarrow> string list \<Rightarrow> term_label list \<Rightarrow> string list \<Rightarrow> range_error + term_label list" where
  "warn_dates terms booked labels [] = Inr labels"
| "warn_dates terms booked labels (workDate # rest) =
     and_then (workTermViolation (terms\<lparr>officialStartDate := None\<rparr>) workDate booked) (\<lambda>violation.
       warn_dates terms (set_add booked workDate)
         (case violation of
            Some v \<Rightarrow> if vLabel v \<in> set labels then labels else labels @ [vLabel v]
          | None \<Rightarrow> labels) rest)"

definition workTermWarnings :: "WorkTerms \<Rightarrow> string list \<Rightarrow> string list \<Rightarrow> range_error + term_label list" where
  "workTermWarnings terms workDates bookedDates = warn_dates terms bookedDates [] (sort (js_set workDates))"

section \<open>The booked days of a store\<close>

text \<open>One row of the joined assignments: the assignment, its slot, the slot's work shift and cycle, the employee's profile.\<close>

record booking_row =
  bkEmployee :: string
  bkStatus :: assignment_status
  bkStore :: string
  bkCycle :: "cycle_status option"
  bkWorkDate :: string
  bkCreatedAt :: instant
  bkJoinedAt :: "instant option"

definition STINT_CLOCK_TOLERANCE_MS :: int where "STINT_CLOCK_TOLERANCE_MS = 60000"

definition currentStintSql :: "instant option \<Rightarrow> instant \<Rightarrow> bool" where
  "currentStintSql joinedAt created =
     (case joinedAt of None \<Rightarrow> True | Some j \<Rightarrow> created \<ge> j - STINT_CLOCK_TOLERANCE_MS div 1000 * 1000)"

definition counts_as_booked :: "string \<Rightarrow> booking_row \<Rightarrow> bool" where
  "counts_as_booked storeId row \<longleftrightarrow> bkStatus row \<noteq> CANCELLED \<and> bkStore row = storeId \<and>
     (bkCycle row = None \<or> bkCycle row = Some CYCLE_ACTIVE \<or> bkCycle row = Some CYCLE_EXPIRED) \<and>
     currentStintSql (bkJoinedAt row) (bkCreatedAt row)"

definition booked_rows :: "string \<Rightarrow> string list \<Rightarrow> date_window \<Rightarrow> booking_row list \<Rightarrow> (string \<times> string) list" where
  "booked_rows storeId employeeIds window rows =
     remdups (map (\<lambda>r. (bkEmployee r, bkWorkDate r))
       (filter (\<lambda>r. bkEmployee r \<in> set employeeIds \<and> counts_as_booked storeId r \<and>
                    wFrom window \<le> bkWorkDate r \<and> bkWorkDate r \<le> wTo window) rows))"

definition loadBookedWorkDates ::
  "booking_row list \<Rightarrow> string \<Rightarrow> string list \<Rightarrow> string list \<Rightarrow> range_error + (string, string list) jsmap" where
  "loadBookedWorkDates rows storeId employeeIds dates =
     and_then (workTermWindow dates) (\<lambda>window.
       case window of
         None \<Rightarrow> Inr []
       | Some w \<Rightarrow>
           if employeeIds = [] then Inr []
           else Inr (foldl (\<lambda>booked (e, d). map_set booked e (set_add (map_get_or [] booked e) d)) []
                       (booked_rows storeId employeeIds w rows)))"

section \<open>Dates as day numbers\<close>

lemma no_dash: "list_all is_digit ds \<Longrightarrow> CHR ''-'' \<notin> set ds"
  by (auto simp: list_all_iff is_digit_def)

lemma full_day_range: "full_day n \<Longrightarrow> 0 \<le> year_of_day n \<and> \<bar>n * DAY_MS\<bar> \<le> MAX_TIME"
proof -
  assume "full_day n"
  then have y: "1000 \<le> year_of_day n" "year_of_day n \<le> 9999" by (auto simp: full_day_def)
  have "day_from_year 1000 \<le> n" "n < day_from_year 10000"
    using year_of_day_bounds [of n] day_from_year_mono [of 1000 "year_of_day n"] day_from_year_mono [of "year_of_day n + 1" 10000] y
    by linarith+
  moreover have "day_from_year 1000 = - 354285" "day_from_year 10000 = 2932897" by code_simp+
  ultimately show ?thesis using y by (simp add: DAY_MS_def MAX_TIME_def)
qed

lemma utc_of_civil:
  assumes "100 \<le> cyear c" "cyear c \<le> 9999" "0 \<le> cmonth c" "cmonth c < 100" "0 \<le> cday c" "cday c < 100"
  shows "utcOf (civil_string c) = (let ms = day_of_civil c * DAY_MS in if \<bar>ms\<bar> \<le> MAX_TIME then Some ms else None)"
proof -
  have e: "civil_string c = four_digits (nat (cyear c)) @ CHR ''-'' # two_digits (nat (cmonth c)) @ CHR ''-'' # two_digits (nat (cday c))"
    using assms by (simp add: civil_string_def iso_year_def)
  have r: "nat (cyear c) < 10000" "nat (cmonth c) < 100" "nat (cday c) < 100" using assms by simp_all
  have ne: "four_digits k \<noteq> []" "two_digits k \<noteq> []" for k by (simp_all add: four_digits_def two_digits_def)
  have parts: "map num_of_string (split_on CHR ''-'' (civil_string c)) =
      [Fin (of_int (cyear c)), Fin (of_int (cmonth c)), Fin (of_int (cday c))]"
    unfolding e using assms r ne
    by (simp add: split_on_append split_on_none no_dash num_of_digits)
  have "js_trunc (of_int (cmonth c) - 1) = of_int (cmonth c - 1)"
    using js_trunc_of_int [of "cmonth c - 1"] by simp
  then show ?thesis unfolding utcOf_def parts using assms(1) by (simp add: utc_day_civil)
qed

lemma utc_of_day: "full_day n \<Longrightarrow> utcOf (day_string n) = Some (n * DAY_MS)"
  using full_day_range [of n] utc_of_civil [of "civil_of_day n"] civil_small [of n]
  by (simp add: full_day_def Let_def)

lemma ymd_of_utc_day: "full_day n \<Longrightarrow> ymdOfUtc (Some (n * DAY_MS)) = Inr (day_string n)"
  using DAY_MS_pos full_day_range [of n]
  by (simp add: ymdOfUtc_def toISOString_def Let_def length_civil_string full_day_def)

lemma week_start_day: "full_day n \<Longrightarrow> full_day (monday_of n) \<Longrightarrow> weekStartOf (day_string n) = Inr (day_string (monday_of n))"
  using set_utc_date_shift [of n "- ((weekday n + 6) mod 7)"]
  by (simp add: weekStartOf_def utc_of_day ymd_of_utc_day monday_of_def flip: diff_conv_add_uminus)

lemma add_calendar_days: "full_day n \<Longrightarrow> full_day (n + k) \<Longrightarrow> addCalendarDays (day_string n) k = Inr (day_string (n + k))"
  by (simp add: addCalendarDays_def utc_of_day ymd_of_utc_day)

lemma weekday_of_day_string: "full_day n \<Longrightarrow> weekdayOf (day_string n) = Some (weekday n)"
  by (simp add: weekdayOf_def utc_of_day)

text \<open>Months.\<close>

definition month_first :: "int \<Rightarrow> int" where
  "month_first n = day_of_civil (Civil (year_of_day n) (cmonth (civil_of_day n)) 1)"

definition month_last :: "int \<Rightarrow> int" where
  "month_last n = month_first n + days_in_month (year_of_day n) (cmonth (civil_of_day n)) - 1"

lemma month_range: "1 \<le> cmonth (civil_of_day n)" "cmonth (civil_of_day n) \<le> 12"
  using civil_of_day_valid [of n] by (auto simp: valid_civil_def)

lemma civil_month_first: "civil_of_day (month_first n) = Civil (year_of_day n) (cmonth (civil_of_day n)) 1"
  unfolding month_first_def
  by (rule civil_of_day_of_civil)
     (use month_range [of n] days_in_month_bounds [of "cmonth (civil_of_day n)" "year_of_day n"] in \<open>simp add: valid_civil_def\<close>)

lemma day_in_month:
  "year_of_day k = year_of_day n \<and> cmonth (civil_of_day k) = cmonth (civil_of_day n) \<longleftrightarrow> month_first n \<le> k \<and> k \<le> month_last n"
proof -
  let ?l = "Civil (year_of_day n) (cmonth (civil_of_day n)) (days_in_month (year_of_day n) (cmonth (civil_of_day n)))"
  have v: "valid_civil ?l"
    using month_range [of n] days_in_month_bounds [of "cmonth (civil_of_day n)" "year_of_day n"] by (simp add: valid_civil_def)
  have "month_last n = day_of_civil ?l"
    using month_range [of n] by (simp add: month_last_def month_first_def day_of_civil_alt)
  then have l: "civil_of_day (month_last n) = ?l" using civil_of_day_of_civil [OF v] by simp
  have "k \<le> month_last n \<longleftrightarrow> \<not> ?l < civil_of_day k" "month_first n \<le> k \<longleftrightarrow> \<not> civil_of_day k < Civil (year_of_day n) (cmonth (civil_of_day n)) 1"
    using civil_of_day_less [of "month_last n" k] civil_of_day_less [of k "month_first n"] l civil_month_first [of n]
    by (simp_all add: not_less [symmetric])
  then show ?thesis using civil_of_day_valid [of k] l
    by (cases "civil_of_day k") (auto simp: less_civil_def valid_civil_def simp flip: cyear_civil_of_day)
qed

lemma month_days: "month_first n \<le> n" "n \<le> month_last n" "full_day n \<Longrightarrow> full_day (month_first n)" "full_day n \<Longrightarrow> full_day (month_last n)"
proof -
  show a: "month_first n \<le> n" "n \<le> month_last n" using day_in_month [of n n] by simp_all
  have "year_of_day (month_first n) = year_of_day n" "year_of_day (month_last n) = year_of_day n"
    using day_in_month [of "month_first n" n] day_in_month [of "month_last n" n] a by simp_all
  then show "full_day n \<Longrightarrow> full_day (month_first n)" "full_day n \<Longrightarrow> full_day (month_last n)" by (simp_all add: full_day_def)
qed

lemma month_text:
  "full_day n \<Longrightarrow> take 7 (day_string n) = four_digits (nat (year_of_day n)) @ ''-'' @ two_digits (nat (cmonth (civil_of_day n)))"
  by (simp add: civil_string_def iso_year_def full_day_def)

lemma same_month:
  assumes "full_day k" "full_day n"
  shows "take 7 (day_string k) = take 7 (day_string n) \<longleftrightarrow> month_first n \<le> k \<and> k \<le> month_last n"
proof -
  have "nat (year_of_day k) = nat (year_of_day n) \<longleftrightarrow> year_of_day k = year_of_day n"
      "nat (cmonth (civil_of_day k)) = nat (cmonth (civil_of_day n)) \<longleftrightarrow> cmonth (civil_of_day k) = cmonth (civil_of_day n)"
    using assms month_range [of k] month_range [of n] by (auto simp: full_day_def)
  moreover have "nat (cmonth (civil_of_day i)) < 100" for i using month_range [of i] by simp
  moreover have "nat (year_of_day k) < 10000" "nat (year_of_day n) < 10000" using assms by (simp_all add: full_day_def nat_less_iff)
  ultimately show ?thesis unfolding month_text [OF assms(1)] month_text [OF assms(2)] day_in_month [symmetric]
    by (simp add: four_digits_eq two_digits_eq)
qed

lemma month_first_string:
  assumes "full_day n"
  shows "take 7 (day_string n) @ ''-01'' = day_string (month_first n)"
proof -
  have "two_digits 1 = ''01''" by code_simp
  then show ?thesis unfolding month_text [OF assms] civil_month_first
    using assms by (simp add: civil_string_def iso_year_def full_day_def)
qed

lemma month_last_string:
  assumes "full_day n"
  shows "ymdOfUtc (map_option (\<lambda>d. set_utc_date (next_utc_month d) 0) (utcOf (take 7 (day_string n) @ ''-01''))) =
    Inr (day_string (month_last n))"
proof -
  let ?y = "year_of_day n" and ?m = "cmonth (civil_of_day n)"
  let ?c = "Civil (fst (next_month ?y ?m)) (snd (next_month ?y ?m)) 1"
  have r: "1 \<le> ?m" "?m \<le> 12" by (rule month_range)+
  have v: "valid_civil ?c"
    using r days_in_month_bounds [of "?m + 1" ?y] days_in_month_bounds [of 1 "?y + 1"] by (auto simp: valid_civil_def next_month_def)
  have "make_day ?y ?m 1 = day_of_civil ?c"
  proof (cases "?m = 12")
    case True
    then show ?thesis by (simp add: next_month_def make_day_def day_of_civil_alt month_off_12 day_from_year_Suc month_off_def [of _ 0])
  next
    case False
    then have "?m div 12 = 0" "?m mod 12 = ?m" using r by auto
    then show ?thesis using r False by (simp add: next_month_def make_day_def day_of_civil_alt)
  qed
  moreover have "make_day ?y ?m 1 = month_last n + 1"
    using r by (cases "?m = 12")
      (simp_all add: month_last_def month_first_def make_day_def day_of_civil_alt month_off_12 day_from_year_Suc days_in_month_def month_off_def [of _ 0])
  ultimately have next_first: "make_day ?y ?m 1 = month_last n + 1" "civil_of_day (month_last n + 1) = ?c"
    using civil_of_day_of_civil [OF v] by simp_all
  have "next_utc_month (month_first n * DAY_MS) = (month_last n + 1) * DAY_MS"
    using DAY_MS_pos next_first(1) by (simp add: next_utc_month_def civil_month_first)
  moreover have "set_utc_date ((month_last n + 1) * DAY_MS) 0 = month_last n * DAY_MS"
    using set_utc_date_shift [of "month_last n + 1" "- 1"] next_first(2) by simp
  ultimately show ?thesis
    unfolding month_first_string [OF assms] using assms by (simp add: utc_of_day month_days ymd_of_utc_day)
qed

section \<open>The window covers the weeks and months of its dates\<close>

lemma same_month_bounds:
  "month_first n \<le> k \<Longrightarrow> k \<le> month_last n \<Longrightarrow> month_first k = month_first n \<and> month_last k = month_last n"
  using day_in_month [of k n] by (simp add: month_first_def month_last_def)

lemma month_first_mono: "k \<le> n \<Longrightarrow> month_first k \<le> month_first n"
  using same_month_bounds [of n k] month_days(1) [of k] month_days(2) [of n] by (cases "month_first n \<le> k") auto

lemma month_last_mono: "k \<le> n \<Longrightarrow> month_last k \<le> month_last n"
  using same_month_bounds [of k n] month_days(1) [of k] month_days(2) [of n] by (cases "n \<le> month_last k") auto

definition roomy :: "int \<Rightarrow> bool" where
  "roomy n \<longleftrightarrow> full_day (n - 6) \<and> full_day (n + 6)"

lemma roomy_full: "roomy n \<Longrightarrow> full_day n \<and> full_day (monday_of n) \<and> full_day (monday_of n + 6)"
  using monday_of_week [of n] by (auto simp: roomy_def intro: full_day_between [of "n - 6" "n + 6"])

lemma sort_days:
  assumes "\<And>n. n \<in> set ns \<Longrightarrow> full_day n"
  shows "sort (map day_string ns) = map day_string (sort ns)"
proof (rule properties_for_sort)
  have "sorted (map day_string xs)" if "sorted xs" "\<And>n. n \<in> set xs \<Longrightarrow> full_day n" for xs
    using that by (induction xs) (auto simp: day_string_le)
  from this [of "sort ns"] show "sorted (map day_string (sort ns))" using assms by simp
qed simp

lemma window_covers:
  assumes "ns \<noteq> []" "\<And>n. n \<in> set ns \<Longrightarrow> roomy n"
  obtains w a b where "workTermWindow (map day_string ns) = Inr (Some w)" "wFrom w = day_string a" "wTo w = day_string b"
    "full_day a" "full_day b"
    "\<And>n. n \<in> set ns \<Longrightarrow> a \<le> monday_of n \<and> a \<le> month_first n \<and> monday_of n + 6 \<le> b \<and> month_last n \<le> b"
proof -
  define f where "f = hd (sort ns)"
  define l where "l = last (sort ns)"
  have ne: "sort ns \<noteq> []" using assms(1) by (metis set_empty set_sort)
  have mem: "f \<in> set ns" "l \<in> set ns"
    using hd_in_set [OF ne] last_in_set [OF ne] by (simp_all add: f_def l_def)
  have between: "f \<le> n \<and> n \<le> l" if "n \<in> set ns" for n
  proof -
    have "n \<in> set (sort ns)" using that by simp
    then obtain i where i: "i < length (sort ns)" "sort ns ! i = n" unfolding in_set_conv_nth by blast
    then show ?thesis
      using sorted_nth_mono [OF sorted_sort, of 0 i ns] sorted_nth_mono [OF sorted_sort, of i "length (sort ns) - 1" ns] ne
      by (auto simp: f_def l_def hd_conv_nth last_conv_nth)
  qed
  note full = roomy_full [OF assms(2) [OF mem(1)]] roomy_full [OF assms(2) [OF mem(2)]]
  have sorted: "sort (map day_string ns) = map day_string (sort ns)" using assms(2) roomy_full by (intro sort_days) blast
  have hl: "hd (sort (map day_string ns)) = day_string f" "last (sort (map day_string ns)) = day_string l"
    unfolding sorted f_def l_def using ne by (simp_all add: hd_map last_map)
  define a where "a = (if monday_of f < month_first f then monday_of f else month_first f)"
  define b where "b = (if month_last l < monday_of l + 6 then monday_of l + 6 else month_last l)"
  let ?w = "\<lparr> wFrom = day_string a, wTo = day_string b \<rparr>"
  show thesis
  proof (rule that)
    show "workTermWindow (map day_string ns) = Inr (Some ?w)"
      unfolding workTermWindow_def hl Let_def
      using assms(1) full full(2) [THEN conjunct1, THEN month_last_string, unfolded month_first_string [OF full(2) [THEN conjunct1]]]
      by (simp add: week_start_day add_calendar_days month_first_string month_days day_string_less a_def b_def)
    show "wFrom ?w = day_string a" "wTo ?w = day_string b" by simp_all
    show "full_day a" "full_day b" using full by (simp_all add: a_def b_def month_days)
    fix n assume "n \<in> set ns"
    from between [OF this] show "a \<le> monday_of n \<and> a \<le> month_first n \<and> monday_of n + 6 \<le> b \<and> month_last n \<le> b"
      using monday_of_mono [of f n] monday_of_mono [of n l] month_first_mono [of f n] month_last_mono [of n l]
      by (auto simp: a_def b_def)
  qed
qed

text \<open>What a verdict depends on.\<close>

lemma violation_cong:
  assumes "full_day n" "full_day (monday_of n)" "full_day (monday_of n + 6)"
    and "distinct xs" "distinct ys" "list_all (\<lambda>d. \<exists>k. full_day k \<and> d = day_string k) (xs @ ys)"
    and same: "\<And>k. full_day k \<Longrightarrow> monday_of n \<le> k \<and> k \<le> monday_of n + 6 \<or> month_first n \<le> k \<and> k \<le> month_last n \<Longrightarrow>
      day_string k \<in> set xs \<longleftrightarrow> day_string k \<in> set ys"
  shows "workTermViolation terms (day_string n) xs = workTermViolation terms (day_string n) ys"
proof -
  have count: "length (filter P xs) = length (filter P ys)"
    if "\<And>k. full_day k \<Longrightarrow> P (day_string k) \<Longrightarrow> monday_of n \<le> k \<and> k \<le> monday_of n + 6 \<or> month_first n \<le> k \<and> k \<le> month_last n" for P
  proof -
    have "P d \<and> d \<in> set xs \<longleftrightarrow> P d \<and> d \<in> set ys" for d
    proof (cases "\<exists>k. full_day k \<and> d = day_string k")
      case True
      then show ?thesis using same that by metis
    next
      case False
      then have "d \<notin> set (xs @ ys)" using assms(6) unfolding list_all_iff by blast
      then show ?thesis by simp
    qed
    then have "set (filter P xs) = set (filter P ys)" unfolding set_filter by blast
    then show ?thesis using assms(4,5) by (metis distinct_card distinct_filter)
  qed
  have "day_string n \<in> set xs \<longleftrightarrow> day_string n \<in> set ys" using same [OF assms(1)] month_days by blast
  moreover have "length (filter (\<lambda>d. d \<ge> day_string (monday_of n) \<and> d \<le> day_string (monday_of n + 6)) xs) =
      length (filter (\<lambda>d. d \<ge> day_string (monday_of n) \<and> d \<le> day_string (monday_of n + 6)) ys)"
    using assms(2,3) by (intro count) (simp add: day_string_le)
  moreover have "length (filter (\<lambda>d. take 7 d = take 7 (day_string n)) xs) = length (filter (\<lambda>d. take 7 d = take 7 (day_string n)) ys)"
    using assms(1) by (intro count) (simp add: same_month)
  ultimately show ?thesis
    using assms(1-3)
    by (simp add: workTermViolation_def week_violation_def month_violation_def week_start_day add_calendar_days Let_def
        split: option.splits)
qed

lemma set_add_simps [simp]: "set (set_add xs x) = insert x (set xs)" "distinct (set_add xs x) = distinct xs"
  by (auto simp: set_add_def)

lemma grouped_dates:
  "set (map_get_or [] (foldl (\<lambda>booked (e, d). map_set booked e (set_add (map_get_or [] booked e) d)) m ps) e) =
    set (map_get_or [] m e) \<union> {d. (e, d) \<in> set ps} \<and>
   (distinct (map_get_or [] m e) \<longrightarrow>
     distinct (map_get_or [] (foldl (\<lambda>booked (e, d). map_set booked e (set_add (map_get_or [] booked e) d)) m ps) e))"
proof (induction ps arbitrary: m)
  case (Cons p ps)
  obtain e' d' where "p = (e', d')" by fastforce
  then show ?case using Cons [of "map_set m e' (set_add (map_get_or [] m e') d')"]
    by (auto simp: get_set_or split: if_splits)
qed simp

definition booked_days :: "booking_row list \<Rightarrow> string \<Rightarrow> string \<Rightarrow> string list" where
  "booked_days rows storeId employee =
     js_set (map bkWorkDate (filter (\<lambda>r. bkEmployee r = employee \<and> counts_as_booked storeId r) rows))"

text \<open>C31. Reading only the rows of the week and month around the wanted dates is enough: for every date asked about, the verdict on
  the days so read is the verdict on every day the employee has booked, whatever else the store's table holds.\<close>

theorem window_keeps_the_verdict:
  assumes "n \<in> set ns" "list_all roomy ns" "employee \<in> set employeeIds"
    and "list_all (\<lambda>r. \<exists>k. full_day k \<and> bkWorkDate r = day_string k) rows"
  shows "\<exists>booked. loadBookedWorkDates rows storeId employeeIds (map day_string ns) = Inr booked \<and>
    workTermViolation terms (day_string n) (map_get_or [] booked employee) =
    workTermViolation terms (day_string n) (booked_days rows storeId employee)"
proof -
  have roomy: "\<And>k. k \<in> set ns \<Longrightarrow> roomy k" using assms(2) by (simp add: list_all_iff)
  have "ns \<noteq> []" using assms(1) by auto
  then obtain w a b where w: "workTermWindow (map day_string ns) = Inr (Some w)" "wFrom w = day_string a" "wTo w = day_string b"
      "full_day a" "full_day b"
      and cover: "\<And>k. k \<in> set ns \<Longrightarrow> a \<le> monday_of k \<and> a \<le> month_first k \<and> monday_of k + 6 \<le> b \<and> month_last k \<le> b"
    using window_covers roomy by blast
  let ?ps = "booked_rows storeId employeeIds w rows"
  let ?booked = "foldl (\<lambda>booked (e, d). map_set booked e (set_add (map_get_or [] booked e) d)) [] ?ps"
  have load: "loadBookedWorkDates rows storeId employeeIds (map day_string ns) = Inr ?booked"
    using w(1) assms(3) by (auto simp: loadBookedWorkDates_def)
  have days: "set (map_get_or [] ?booked employee) = {d. (employee, d) \<in> set ?ps}" "distinct (map_get_or [] ?booked employee)"
    using grouped_dates [of "[]" ?ps employee] by (simp_all add: map_get_or_def)
  have verdict: "workTermViolation terms (day_string n) (map_get_or [] ?booked employee) =
      workTermViolation terms (day_string n) (booked_days rows storeId employee)"
  proof (rule violation_cong)
    show "full_day n" "full_day (monday_of n)" "full_day (monday_of n + 6)" using roomy_full [OF roomy [OF assms(1)]] by simp_all
    show "list_all (\<lambda>d. \<exists>k. full_day k \<and> d = day_string k) (map_get_or [] ?booked employee @ booked_days rows storeId employee)"
      using assms(4) days(1) by (fastforce simp: list_all_iff booked_rows_def booked_days_def)
    fix k assume k: "full_day k" "monday_of n \<le> k \<and> k \<le> monday_of n + 6 \<or> month_first n \<le> k \<and> k \<le> month_last n"
    then have "a \<le> k \<and> k \<le> b" using cover [OF assms(1)] by auto
    then have "wFrom w \<le> day_string k \<and> day_string k \<le> wTo w" using k(1) w(2-5) by (simp add: day_string_le)
    then show "day_string k \<in> set (map_get_or [] ?booked employee) \<longleftrightarrow> day_string k \<in> set (booked_days rows storeId employee)"
      using assms(3) days(1) by (auto simp: booked_rows_def booked_days_def)
  qed (simp_all add: days(2) booked_days_def)
  show ?thesis using load verdict by blast
qed

section \<open>The terms are kept\<close>

text \<open>What the terms ask of a set of working days: none before the first day, none on a day off, and no week or month with more
  of them than agreed.\<close>

definition within_limit :: "int option \<Rightarrow> (int \<Rightarrow> int) \<Rightarrow> int set \<Rightarrow> bool" where
  "within_limit limit period S \<longleftrightarrow>
     (case limit of None \<Rightarrow> True | Some most \<Rightarrow> \<forall>n \<in> S. int (card {k \<in> S. period k = period n}) \<le> most)"

definition terms_kept :: "WorkTerms \<Rightarrow> int set \<Rightarrow> bool" where
  "terms_kept terms S \<longleftrightarrow>
     (\<forall>n \<in> S. (case officialStartDate terms of None \<Rightarrow> True | Some s \<Rightarrow> s \<le> day_string n) \<and> weekday n \<notin> set (fixedDaysOff terms)) \<and>
     within_limit (workDaysPerWeek terms) monday_of S \<and> within_limit (workDaysPerMonth terms) month_first S"

lemma within_limit_subset:
  assumes "within_limit limit period T" "S \<subseteq> T" "finite T"
  shows "within_limit limit period S"
proof (cases limit)
  case (Some most)
  show ?thesis unfolding within_limit_def Some option.case
  proof
    fix n assume "n \<in> S"
    then have "int (card {k \<in> T. period k = period n}) \<le> most" using assms(1,2) Some by (auto simp: within_limit_def)
    moreover have "card {k \<in> S. period k = period n} \<le> card {k \<in> T. period k = period n}"
      using assms(2,3) by (intro card_mono) auto
    ultimately show "int (card {k \<in> S. period k = period n}) \<le> most" by linarith
  qed
qed (simp add: within_limit_def)

lemma terms_kept_subset: "terms_kept terms T \<Longrightarrow> S \<subseteq> T \<Longrightarrow> finite T \<Longrightarrow> terms_kept terms S"
  unfolding terms_kept_def using within_limit_subset by blast

lemma within_limit_insert:
  assumes "within_limit (Some most) period S" "finite S" "n \<notin> S"
  shows "within_limit (Some most) period (insert n S) \<longleftrightarrow> int (card {k \<in> S. period k = period n}) < most"
proof -
  have own: "card {k \<in> insert n S. period k = period m} = Suc (card {k \<in> S. period k = period n})" if "period m = period n" for m
  proof -
    have "{k \<in> insert n S. period k = period m} = insert n {k \<in> S. period k = period n}" using that by auto
    then show ?thesis using assms(2,3) by simp
  qed
  have other: "{k \<in> insert n S. period k = period m} = {k \<in> S. period k = period m}" if "period m \<noteq> period n" for m
    using that by auto
  show ?thesis
  proof
    assume "within_limit (Some most) period (insert n S)"
    then show "int (card {k \<in> S. period k = period n}) < most" using own [of n] by (auto simp: within_limit_def)
  next
    assume l: "int (card {k \<in> S. period k = period n}) < most"
    have "int (card {k \<in> insert n S. period k = period m}) \<le> most" if "m \<in> insert n S" for m
      using l own [of m] other [of m] assms(1) that by (cases "period m = period n") (auto simp: within_limit_def)
    then show "within_limit (Some most) period (insert n S)" by (simp add: within_limit_def)
  qed
qed

lemma same_week: "monday_of k = monday_of n \<longleftrightarrow> monday_of n \<le> k \<and> k \<le> monday_of n + 6"
proof -
  have w: "(monday_of m + 4) mod 7 = 1 \<and> monday_of m \<le> m \<and> m < monday_of m + 7" for m
    using monday_of_week [of m] by (simp add: weekday_def)
  have "a = b" if "(a + 4) mod 7 = 1" "(b + 4) mod 7 = 1" "a \<le> k" "k < a + 7" "b \<le> k" "k \<le> b + 6" for a b :: int
    using that by presburger
  note same = this
  show ?thesis
  proof
    assume "monday_of k = monday_of n"
    then show "monday_of n \<le> k \<and> k \<le> monday_of n + 6" using w [of k] by linarith
  next
    assume "monday_of n \<le> k \<and> k \<le> monday_of n + 6"
    then show "monday_of k = monday_of n" using same w [of k] w [of n] by blast
  qed
qed

lemma count_days:
  assumes "distinct ns" "\<And>k. k \<in> set ns \<Longrightarrow> P (day_string k) \<longleftrightarrow> Q k"
  shows "length (filter P (map day_string ns)) = card {k \<in> set ns. Q k}"
proof -
  have "filter (P \<circ> day_string) ns = filter Q ns" using assms(2) by (intro filter_cong) auto
  then have "length (filter P (map day_string ns)) = length (filter Q ns)" unfolding filter_map length_map by (rule arg_cong)
  also have "\<dots> = card (set (filter Q ns))" using distinct_card [of "filter Q ns"] assms(1) by simp
  finally show ?thesis unfolding set_filter .
qed

lemma same_month_first: "month_first k = month_first n \<longleftrightarrow> month_first n \<le> k \<and> k \<le> month_last n"
proof
  assume "month_first k = month_first n"
  then have "Civil (year_of_day k) (cmonth (civil_of_day k)) 1 = Civil (year_of_day n) (cmonth (civil_of_day n)) 1"
    by (simp flip: civil_month_first)
  then show "month_first n \<le> k \<and> k \<le> month_last n" by (simp flip: day_in_month)
qed (use same_month_bounds in blast)

lemma week_count:
  assumes "roomy n" "distinct ns" "list_all full_day ns"
  shows "length (filter (\<lambda>d. d \<ge> day_string (monday_of n) \<and> d \<le> day_string (monday_of n + 6)) (map day_string ns)) =
    card {k \<in> set ns. monday_of k = monday_of n}"
  using assms roomy_full [OF assms(1)] by (intro count_days) (auto simp: list_all_iff day_string_le same_week)

lemma month_count:
  assumes "full_day n" "distinct ns" "list_all full_day ns"
  shows "length (filter (\<lambda>d. take 7 d = take 7 (day_string n)) (map day_string ns)) = card {k \<in> set ns. month_first k = month_first n}"
  using assms by (intro count_days) (auto simp: list_all_iff same_month same_month_first)

lemma day_in_days: "full_day n \<Longrightarrow> list_all full_day ns \<Longrightarrow> day_string n \<in> set (map day_string ns) \<longleftrightarrow> n \<in> set ns"
  by (auto simp: list_all_iff day_string_eq)

text \<open>The verdict on one more day, in terms of day numbers.\<close>

lemma verdict_day:
  assumes "roomy n" "distinct ns" "list_all full_day ns"
  obtains v where "workTermViolation terms (day_string n) (map day_string ns) = Inr v"
    "v = None \<longleftrightarrow> (case officialStartDate terms of None \<Rightarrow> True | Some s \<Rightarrow> s \<le> day_string n) \<and> weekday n \<notin> set (fixedDaysOff terms) \<and>
      (n \<in> set ns \<or>
        (\<forall>most. workDaysPerWeek terms = Some most \<longrightarrow> int (card {k \<in> set ns. monday_of k = monday_of n}) < most) \<and>
        (\<forall>most. workDaysPerMonth terms = Some most \<longrightarrow> int (card {k \<in> set ns. month_first k = month_first n}) < most))"
proof -
  note full = roomy_full [OF assms(1)]
  have started: "notStartedViolation terms (day_string n) = None \<longleftrightarrow>
      (case officialStartDate terms of None \<Rightarrow> True | Some s \<Rightarrow> s \<le> day_string n)"
    by (auto simp: notStartedViolation_def nonempty_def split: option.splits)
  have week: "week_violation terms (day_string n) (map day_string ns) =
      Inr (case workDaysPerWeek terms of None \<Rightarrow> None
           | Some most \<Rightarrow> if int (card {k \<in> set ns. monday_of k = monday_of n}) \<ge> most
                          then Some \<lparr> vCode = WEEK_LIMIT, vLabel = FullWeek most, vMessage = WeekFull most \<rparr> else None)"
    using full week_count [OF assms]
    by (simp add: week_violation_def week_start_day add_calendar_days split: option.splits)
  have month: "month_violation terms (day_string n) (map day_string ns) = None \<longleftrightarrow>
      (\<forall>most. workDaysPerMonth terms = Some most \<longrightarrow> int (card {k \<in> set ns. month_first k = month_first n}) < most)"
    using month_count [OF full [THEN conjunct1] assms(2,3)] by (auto simp: month_violation_def Let_def split: option.splits)
  have "weekdayOf (day_string n) \<in> Some ` set (fixedDaysOff terms) \<longleftrightarrow> weekday n \<in> set (fixedDaysOff terms)"
    using full by (auto simp: weekday_of_day_string)
  moreover note day_in_days [OF full [THEN conjunct1] assms(3)]
  ultimately show thesis
    using that started month unfolding workTermViolation_def week Let_def
    by (cases "notStartedViolation terms (day_string n)"; cases "workDaysPerWeek terms") (force split: if_splits)+
qed

lemma limit_insert_iff:
  assumes "within_limit limit period S" "finite S" "n \<notin> S"
  shows "within_limit limit period (insert n S) \<longleftrightarrow> (\<forall>most. limit = Some most \<longrightarrow> int (card {k \<in> S. period k = period n}) < most)"
  using within_limit_insert [OF _ assms(2,3)] assms(1) by (cases limit) (auto simp: within_limit_def)

lemma verdict_keeps:
  assumes "roomy n" "distinct ns" "list_all full_day ns" "terms_kept terms (set ns)"
  obtains v where "workTermViolation terms (day_string n) (map day_string ns) = Inr v"
    "v = None \<longleftrightarrow> terms_kept terms (insert n (set ns))"
proof -
  obtain v where v: "workTermViolation terms (day_string n) (map day_string ns) = Inr v"
    and none: "v = None \<longleftrightarrow> (case officialStartDate terms of None \<Rightarrow> True | Some s \<Rightarrow> s \<le> day_string n) \<and> weekday n \<notin> set (fixedDaysOff terms) \<and>
      (n \<in> set ns \<or>
        (\<forall>most. workDaysPerWeek terms = Some most \<longrightarrow> int (card {k \<in> set ns. monday_of k = monday_of n}) < most) \<and>
        (\<forall>most. workDaysPerMonth terms = Some most \<longrightarrow> int (card {k \<in> set ns. month_first k = month_first n}) < most))"
    using verdict_day [OF assms(1-3)] by blast
  have "v = None \<longleftrightarrow> terms_kept terms (insert n (set ns))"
  proof (cases "n \<in> set ns")
    case True
    then show ?thesis using none assms(4) by (auto simp: terms_kept_def insert_absorb)
  next
    case False
    then show ?thesis unfolding none using assms(4) limit_insert_iff [OF _ finite_set False] by (auto simp: terms_kept_def)
  qed
  with v show thesis by (rule that)
qed

text \<open>An employee may book a day exactly when the booked days still keep the agreed terms with it: booking day after day, never
  before the first official day, never on a fixed day off, and never more days in a week or a month than agreed.\<close>

theorem booking_is_refused_to_keep_the_terms:
  assumes "roomy n" "distinct ns" "list_all full_day ns" "terms_kept terms (set ns)"
  shows "\<exists>v. workTermViolation terms (day_string n) (map day_string ns) = Inr v \<and>
    (v = None \<longleftrightarrow> terms_kept terms (insert n (set ns)))"
  using verdict_keeps [OF assms] by blast

section \<open>The owner is warned of what exceeds the terms\<close>

lemma warn_keeps_labels: "warn_dates terms booked labels ds = Inr out \<Longrightarrow> labels \<noteq> [] \<Longrightarrow> out \<noteq> []"
  by (induction ds arbitrary: booked labels) (fastforce simp: and_then_Inr_iff split: option.splits if_splits)+

lemma warn_days:
  assumes "list_all roomy ds" "distinct ns" "list_all full_day ns"
  obtains out where "warn_dates terms (map day_string ns) labels (map day_string ds) = Inr out"
    "terms_kept (terms\<lparr>officialStartDate := None\<rparr>) (set ns) \<Longrightarrow> labels = [] \<Longrightarrow>
      out = [] \<longleftrightarrow> terms_kept (terms\<lparr>officialStartDate := None\<rparr>) (set ns \<union> set ds)"
  using assms
proof (induction ds arbitrary: ns labels thesis)
  case (Cons d ds)
  let ?terms = "terms\<lparr>officialStartDate := None\<rparr>"
  have d: "roomy d" "full_day d" using Cons.prems(2) roomy_full by auto
  obtain v where v: "workTermViolation ?terms (day_string d) (map day_string ns) = Inr v"
    using verdict_day [OF d(1) Cons.prems(3,4)] by blast
  define ms where "ms = (if d \<in> set ns then ns else ns @ [d])"
  have ms: "distinct ms" "list_all full_day ms" "set ms = insert d (set ns)" using Cons.prems(3,4) d by (auto simp: ms_def)
  have add: "set_add (map day_string ns) (day_string d) = map day_string ms"
    using day_in_days [OF d(2) Cons.prems(4)] by (simp add: set_add_def ms_def)
  define next_labels where "next_labels = (case v of
      Some w \<Rightarrow> if vLabel w \<in> set labels then labels else labels @ [vLabel w] | None \<Rightarrow> labels)"
  have "list_all roomy ds" using Cons.prems(2) by simp
  then obtain out where out: "warn_dates terms (map day_string ms) next_labels (map day_string ds) = Inr out"
      and iff: "terms_kept ?terms (set ms) \<Longrightarrow> next_labels = [] \<Longrightarrow> out = [] \<longleftrightarrow> terms_kept ?terms (set ms \<union> set ds)"
    using Cons.IH [OF _ _ ms(1,2)] by blast
  show ?case
  proof (rule Cons.prems(1))
    show "warn_dates terms (map day_string ns) labels (map day_string (d # ds)) = Inr out"
      using v out by (simp add: add next_labels_def)
    assume kept: "terms_kept ?terms (set ns)" "labels = []"
    obtain w where w: "workTermViolation ?terms (day_string d) (map day_string ns) = Inr w"
        "w = None \<longleftrightarrow> terms_kept ?terms (insert d (set ns))"
      using verdict_keeps [OF d(1) Cons.prems(3,4) kept(1)] by blast
    have union: "set ns \<union> set (d # ds) = set ms \<union> set ds" using ms(3) by auto
    show "out = [] \<longleftrightarrow> terms_kept ?terms (set ns \<union> set (d # ds))"
    proof (cases v)
      case None
      then show ?thesis using iff w v ms(3) kept(2) union by (simp add: next_labels_def)
    next
      case (Some x)
      then have "\<not> terms_kept ?terms (set ms)" using w v ms(3) by auto
      then have "\<not> terms_kept ?terms (set ms \<union> set ds)" using terms_kept_subset [of ?terms "set ms \<union> set ds" "set ms"] by auto
      moreover have "out \<noteq> []" using warn_keeps_labels [OF out] Some kept(2) by (simp add: next_labels_def)
      ultimately show ?thesis unfolding union by simp
    qed
  qed
qed simp

text \<open>The owner is warned exactly when needed: giving an employee several days at once shows no warning if and only if all the
  days together, with those already booked, keep the agreed terms, the first official day apart, which stops the owner too.\<close>

theorem owner_warned_iff_terms_exceeded:
  assumes "list_all roomy ds" "distinct ns" "list_all full_day ns" "terms_kept (terms\<lparr>officialStartDate := None\<rparr>) (set ns)"
  shows "\<exists>labels. workTermWarnings terms (map day_string ds) (map day_string ns) = Inr labels \<and>
    (labels = [] \<longleftrightarrow> terms_kept (terms\<lparr>officialStartDate := None\<rparr>) (set ns \<union> set ds))"
proof -
  have full: "\<And>k. k \<in> set ds \<Longrightarrow> full_day k" using assms(1) roomy_full by (auto simp: list_all_iff)
  have "inj_on day_string (set ds)" using full by (intro inj_onI) (simp add: day_string_eq)
  moreover have "sort (map day_string (js_set ds)) = map day_string (sort (js_set ds))"
    by (rule sort_days) (use full in simp)
  moreover from this have "sorted (map day_string (sort (js_set ds)))" by (metis sorted_sort)
  ultimately have "sort (js_set (map day_string ds)) = map day_string (sort (js_set ds))"
    using sorted_distinct_set_unique [of "sort (js_set (map day_string ds))" "map day_string (sort (js_set ds))"]
    by (simp add: distinct_map)
  moreover have "list_all roomy (sort (js_set ds))" using assms(1) by (simp add: list_all_iff)
  ultimately show ?thesis
    using warn_days [OF _ assms(2,3), of "sort (js_set ds)" terms "[]"] assms(4)
    unfolding workTermWarnings_def by (metis set_js_set set_sort)
qed

section \<open>An employee of two days a week\<close>

definition two_a_week :: WorkTerms where
  "two_a_week = \<lparr> officialStartDate = Some ''2026-09-01'', workDaysPerWeek = Some 2, workDaysPerMonth = Some 20, fixedDaysOff = [0] \<rparr>"

text \<open>Monday 21 and Tuesday 22 September 2026 are booked.\<close>

lemma within_limit_list:
  "within_limit limit period (set xs) \<longleftrightarrow>
     (case limit of None \<Rightarrow> True
      | Some most \<Rightarrow> list_all (\<lambda>n. int (length (remdups (filter (\<lambda>k. period k = period n) xs))) \<le> most) xs)"
proof -
  have "card {k \<in> set xs. period k = m} = length (remdups (filter (\<lambda>k. period k = m) xs))" for m
    by (metis length_remdups_card_conv set_filter)
  then show ?thesis by (simp add: within_limit_def list_all_iff split: option.splits)
qed

lemma terms_kept_list:
  "terms_kept terms (set xs) \<longleftrightarrow>
     list_all (\<lambda>n. (case officialStartDate terms of None \<Rightarrow> True | Some s \<Rightarrow> s \<le> day_string n) \<and> weekday n \<notin> set (fixedDaysOff terms)) xs \<and>
     (case workDaysPerWeek terms of None \<Rightarrow> True
      | Some most \<Rightarrow> list_all (\<lambda>n. int (length (remdups (filter (\<lambda>k. monday_of k = monday_of n) xs))) \<le> most) xs) \<and>
     (case workDaysPerMonth terms of None \<Rightarrow> True
      | Some most \<Rightarrow> list_all (\<lambda>n. int (length (remdups (filter (\<lambda>k. month_first k = month_first n) xs))) \<le> most) xs)"
  unfolding terms_kept_def within_limit_list by (simp add: list_all_iff)

lemma september_days: "roomy 20719" "roomy 20722" "distinct [20717 :: int, 20718]" "list_all full_day [20717, 20718]"
  by code_simp+

lemma september_week:
  "monday_of 20717 = 20717" "monday_of 20718 = 20717" "monday_of 20719 = 20717" "monday_of 20722 = 20717"
  "month_first 20717 = 20697" "month_first 20718 = 20697" "month_first 20719 = 20697" "month_first 20722 = 20697"
  "weekday 20717 = 1" "weekday 20718 = 2" "weekday 20719 = 3" "weekday 20722 = 6"
  "''2026-09-01'' \<le> day_string 20717" "''2026-09-01'' \<le> day_string 20718" "''2026-09-01'' \<le> day_string 20719"
  by code_simp+

lemma september_terms:
  "terms_kept two_a_week (set [20717, 20718])" "terms_kept (two_a_week\<lparr>officialStartDate := None\<rparr>) (set [20717, 20718])"
  "\<not> terms_kept two_a_week (insert 20719 (set [20717, 20718]))"
  "\<not> terms_kept (two_a_week\<lparr>officialStartDate := None\<rparr>) (set [20717, 20718] \<union> set [20719, 20722])"
proof -
  show "terms_kept two_a_week (set [20717, 20718])" "terms_kept (two_a_week\<lparr>officialStartDate := None\<rparr>) (set [20717, 20718])"
    unfolding terms_kept_list by (simp_all add: two_a_week_def september_week)
  have "\<not> terms_kept two_a_week (set [20719, 20717, 20718])"
    "\<not> terms_kept (two_a_week\<lparr>officialStartDate := None\<rparr>) (set [20717, 20718, 20719, 20722])"
    unfolding terms_kept_list by (simp_all add: two_a_week_def september_week)
  moreover have "set [20719, 20717, 20718] = insert 20719 (set [20717, 20718])"
    "set [20717, 20718, 20719, 20722] = set [20717, 20718] \<union> set [20719, 20722]" by auto
  ultimately show "\<not> terms_kept two_a_week (insert 20719 (set [20717, 20718]))"
    "\<not> terms_kept (two_a_week\<lparr>officialStartDate := None\<rparr>) (set [20717, 20718] \<union> set [20719, 20722])" by metis+
qed

theorem booking_is_refused_to_keep_the_terms_witness:
  "\<exists>v. workTermViolation two_a_week (day_string 20719) (map day_string [20717, 20718]) = Inr (Some v)"
  using booking_is_refused_to_keep_the_terms [OF september_days(1,3,4) september_terms(1)] september_terms(3) by fastforce

theorem owner_warned_iff_terms_exceeded_witness:
  "\<exists>labels. workTermWarnings two_a_week (map day_string [20719, 20722]) (map day_string [20717, 20718]) = Inr labels \<and> labels \<noteq> []"
proof -
  have "list_all roomy [20719, 20722]" using september_days(1,2) by simp
  then show ?thesis
    using owner_warned_iff_terms_exceeded [OF _ september_days(3,4) september_terms(2)] september_terms(4) by metis
qed

definition booking :: "string \<Rightarrow> int \<Rightarrow> booking_row" where
  "booking employee n = \<lparr> bkEmployee = employee, bkStatus = APPROVED, bkStore = ''s1'', bkCycle = Some CYCLE_ACTIVE, bkWorkDate = day_string n,
     bkCreatedAt = 0, bkJoinedAt = None \<rparr>"

text \<open>The days of another month and of another employee do not matter.\<close>

theorem window_keeps_the_verdict_witness:
  "\<exists>booked. loadBookedWorkDates [booking ''e1'' 20717, booking ''e2'' 20718, booking ''e1'' 20440] ''s1'' [''e1'']
      (map day_string [20719]) = Inr booked \<and>
    workTermViolation two_a_week (day_string 20719) (map_get_or [] booked ''e1'') =
    workTermViolation two_a_week (day_string 20719)
      (booked_days [booking ''e1'' 20717, booking ''e2'' 20718, booking ''e1'' 20440] ''s1'' ''e1'')"
proof -
  have d: "full_day 20717" "full_day 20718" "full_day 20440" by code_simp+
  have rows: "list_all (\<lambda>r. \<exists>k. full_day k \<and> bkWorkDate r = day_string k)
      [booking ''e1'' 20717, booking ''e2'' 20718, booking ''e1'' 20440]"
    using d by (auto simp: booking_def)
  have n: "20719 \<in> set [20719 :: int]" "''e1'' \<in> set [''e1'']" "list_all roomy [20719]" using september_days(1) by simp_all
  show ?thesis by (rule window_keeps_the_verdict [OF n(1,3,2) rows])
qed

end
