(* ===== verification/RequestPolicy.thy ===== *)
theory RequestPolicy
  imports LeaveCoverage
begin

text \<open>
  The owner's rules for requests an employee sends (\<open>src/modules/stores/request-policy.utils.ts\<close>) and the check that applies them
  to the stored requests, \<open>assertApprovalPolicy\<close> of \<open>service-parts/requests.part.ts\<close>: is the kind switched on, is it early enough,
  is the month's number not used up.
\<close>

section \<open>The rules\<close>

datatype RequestPolicyKind = LEAVE_KIND | SUDDEN_KIND | LATE_KIND | EARLY_KIND | SWAP_KIND | REGISTER_KIND

text \<open>Switches are booleans or null, numbers whatever the column holds.\<close>

record ApprovalPolicy =
  enableShiftRegistration :: "bool option"
  enableLeaveRequest :: "bool option"
  enableShiftSwap :: "bool option"
  leaveNoticeHours :: jsval
  leaveLimitPerMonth :: jsval
  swapNoticeHours :: jsval
  swapLimitPerMonth :: jsval
  lateEarlyNoticeHours :: jsval
  lateEarlyLimitPerMonth :: jsval

datatype policy_violation = RegistrationOff | SwapOff | LeaveOff | TooLate RequestPolicyKind rat | UsedUp RequestPolicyKind rat

definition policy_number :: "jsval \<Rightarrow> rat" where
  "policy_number v = (case js_number v of Fin x \<Rightarrow> if x > 0 then x else 0 | _ \<Rightarrow> 0)"

definition notice_of :: "ApprovalPolicy \<Rightarrow> RequestPolicyKind \<Rightarrow> jsval" where
  "notice_of policy kind =
     (if kind = LEAVE_KIND then leaveNoticeHours policy
      else if kind = SWAP_KIND then swapNoticeHours policy else lateEarlyNoticeHours policy)"

definition limit_of :: "ApprovalPolicy \<Rightarrow> RequestPolicyKind \<Rightarrow> jsval" where
  "limit_of policy kind =
     (if kind = LEAVE_KIND then leaveLimitPerMonth policy
      else if kind = SWAP_KIND then swapLimitPerMonth policy else lateEarlyLimitPerMonth policy)"

definition switched_off :: "ApprovalPolicy \<Rightarrow> RequestPolicyKind \<Rightarrow> policy_violation option" where
  "switched_off policy kind =
     (if kind = REGISTER_KIND then (if enableShiftRegistration policy = Some False then Some RegistrationOff else None)
      else if kind = SWAP_KIND then (if enableShiftSwap policy = Some False then Some SwapOff else None)
      else if enableLeaveRequest policy = Some False then Some LeaveOff else None)"

text \<open>A missing policy is the empty object: nothing is switched off and there is no number.\<close>

definition requestPolicyViolation ::
  "ApprovalPolicy option \<Rightarrow> RequestPolicyKind \<Rightarrow> instant \<Rightarrow> instant option \<Rightarrow> int \<Rightarrow> policy_violation option" where
  "requestPolicyViolation policy0 kind now affectsAt usedThisMonth =
     (case policy0 of
        None \<Rightarrow> None
      | Some policy \<Rightarrow>
          (case switched_off policy kind of
             Some v \<Rightarrow> Some v
           | None \<Rightarrow>
               if kind = REGISTER_KIND \<or> kind = SUDDEN_KIND then None
               else
                 let notice = policy_number (notice_of policy kind); limit = policy_number (limit_of policy kind) in
                 if notice > 0 \<and> (case affectsAt of Some t \<Rightarrow> of_int (t - now) < notice * 60 * 60 * 1000 | None \<Rightarrow> False)
                 then Some (TooLate kind notice)
                 else if limit > 0 \<and> of_int usedThisMonth \<ge> limit then Some (UsedUp kind limit) else None))"

section \<open>The stored requests\<close>

datatype swap_status = SWAP_PENDING | SWAP_APPROVED | SWAP_REJECTED

text \<open>A request to change a shift, and a swap joined with its assignment's slot (the joins drop a swap without one).\<close>

record change_row =
  crEmployee :: string
  crStatus :: request_status
  crDeleted :: bool
  crRequestDate :: string

record swap_count_row =
  scRequestedBy :: string
  scStatus :: swap_status
  scWorkDate :: string

definition default_policy :: ApprovalPolicy where
  "default_policy = \<lparr> enableShiftRegistration = Some True, enableLeaveRequest = Some True, enableShiftSwap = Some True,
     leaveNoticeHours = JNum (Fin 24), leaveLimitPerMonth = JNum (Fin 2), swapNoticeHours = JNum (Fin 12),
     swapLimitPerMonth = JNum (Fin 2), lateEarlyNoticeHours = JNum (Fin 2), lateEarlyLimitPerMonth = JNum (Fin 2) \<rparr>"

definition positive_number :: "jsval \<Rightarrow> bool" where
  "positive_number v \<longleftrightarrow> (case js_number v of Fin x \<Rightarrow> x > 0 | PInf \<Rightarrow> True | _ \<Rightarrow> False)"

definition counted_kind :: "RequestPolicyKind \<Rightarrow> bool" where
  "counted_kind kind \<longleftrightarrow> kind = LEAVE_KIND \<or> kind = SWAP_KIND \<or> kind = LATE_KIND \<or> kind = EARLY_KIND"

definition in_month :: "vnMonth \<Rightarrow> string \<Rightarrow> bool" where
  "in_month month d \<longleftrightarrow> mKey month \<le> d \<and> d \<le> mLastDate month"

definition counted_leave_types :: "RequestPolicyKind \<Rightarrow> leave_type list" where
  "counted_leave_types kind = (if kind = LEAVE_KIND then [SICK, PERSONAL, VACATION, UNPAID, OTHER] else [LATE, EARLY])"

definition live_leave :: "string \<Rightarrow> RequestPolicyKind \<Rightarrow> vnMonth \<Rightarrow> leave_row \<Rightarrow> bool" where
  "live_leave employee kind month r \<longleftrightarrow> lvEmployee r = employee \<and> \<not> lvDeleted r \<and>
     (lvStatus r = Some LEAVE_PENDING \<or> lvStatus r = Some LEAVE_APPROVED) \<and> in_month month (lvStartDate r) \<and>
     lvType r \<in> set (counted_leave_types kind)"

definition live_change :: "string \<Rightarrow> vnMonth \<Rightarrow> change_row \<Rightarrow> bool" where
  "live_change employee month r \<longleftrightarrow> crEmployee r = employee \<and> \<not> crDeleted r \<and>
     (crStatus r = REQUEST_PENDING \<or> crStatus r = REQUEST_APPROVED) \<and> in_month month (crRequestDate r)"

definition live_swap :: "string \<Rightarrow> vnMonth \<Rightarrow> swap_count_row \<Rightarrow> bool" where
  "live_swap employee month r \<longleftrightarrow> scRequestedBy r = employee \<and>
     (scStatus r = SWAP_PENDING \<or> scStatus r = SWAP_APPROVED) \<and> in_month month (scWorkDate r)"

record request_tables =
  rtLeaves :: "leave_row list"
  rtChanges :: "change_row list"
  rtSwaps :: "swap_count_row list"

definition used_requests :: "request_tables \<Rightarrow> string \<Rightarrow> RequestPolicyKind \<Rightarrow> vnMonth \<Rightarrow> nat" where
  "used_requests tables employee kind month =
     (if kind = SWAP_KIND
      then length (filter (live_change employee month) (rtChanges tables)) + length (filter (live_swap employee month) (rtSwaps tables))
      else length (filter (live_leave employee kind month) (rtLeaves tables)))"

text \<open>\<open>locked\<close> says whether the caller holds the transaction that locks the profile; only then is anything counted.\<close>

definition assertApprovalPolicy ::
  "ApprovalPolicy option \<Rightarrow> request_tables \<Rightarrow> bool \<Rightarrow> string \<Rightarrow> RequestPolicyKind \<Rightarrow> instant option \<Rightarrow> string option \<Rightarrow> instant \<Rightarrow>
     policy_violation + unit" where
  "assertApprovalPolicy saved tables locked employee kind affectsAt0 monthDate now =
     (let policy = (case saved of Some p \<Rightarrow> p | None \<Rightarrow> default_policy);
          month = (case nonempty monthDate of Some d \<Rightarrow> vnMonthOfDateString (Some d) | None \<Rightarrow> None);
          limited = counted_kind kind \<and> positive_number (limit_of policy kind);
          noticed = counted_kind kind \<and> positive_number (notice_of policy kind);
          affectsAt = (if noticed then affectsAt0 else None);
          used = (case month of Some m \<Rightarrow> if limited \<and> locked then used_requests tables employee kind m else 0 | None \<Rightarrow> 0)
      in case requestPolicyViolation (Some policy) kind now affectsAt (int used) of
           Some v \<Rightarrow> Inl v
         | None \<Rightarrow> Inr ())"

section \<open>Accepted requests are early enough and within the month's number\<close>

text \<open>What an owner asks for: \<open>0\<close>, null or a text that is no number ask for nothing.\<close>

definition asks :: "jsval \<Rightarrow> rat option" where
  "asks v = (if policy_number v > 0 then Some (policy_number v) else None)"

lemma asks_positive: "asks v = Some x \<Longrightarrow> positive_number v \<and> policy_number v = x \<and> 0 < x"
  by (auto simp: asks_def policy_number_def positive_number_def split: jsnum.splits if_splits)

lemma policy_number_nonneg: "0 \<le> policy_number v"
  by (simp add: policy_number_def split: jsnum.split)

text \<open>What is accepted keeps the owner's rules, and nothing else is refused: a leave, late or early, or swap request of a
  transaction that holds the employee's lock is accepted if and only if its kind is switched on, the shift it concerns is at
  least the asked hours away, and the employee's pending and approved requests of that kind and month are fewer than the
  asked number, so that the month stays within it with the new one.\<close>

theorem accepted_request_keeps_the_rules:
  assumes "counted_kind kind" "vnMonthOfDateString (Some d) = Some month" "d \<noteq> []"
  shows "assertApprovalPolicy (Some policy) tables True employee kind (Some t) (Some d) now = Inr () \<longleftrightarrow>
    switched_off policy kind = None \<and>
    (\<forall>hours. asks (notice_of policy kind) = Some hours \<longrightarrow> of_int now + hours * 3600000 \<le> of_int t) \<and>
    (\<forall>most. asks (limit_of policy kind) = Some most \<longrightarrow> of_nat (used_requests tables employee kind month) < most)"
proof -
  let ?hours = "policy_number (notice_of policy kind)" and ?most = "policy_number (limit_of policy kind)"
  have kind: "kind \<noteq> REGISTER_KIND" "kind \<noteq> SUDDEN_KIND" using assms(1) by (auto simp: counted_kind_def)
  have positive: "policy_number v > 0 \<Longrightarrow> positive_number v" for v
    by (simp add: policy_number_def positive_number_def split: jsnum.splits if_splits)
  let ?affects = "if positive_number (notice_of policy kind) then Some t else None"
  let ?used = "if positive_number (limit_of policy kind) then used_requests tables employee kind month else 0"
  have "assertApprovalPolicy (Some policy) tables True employee kind (Some t) (Some d) now = Inr () \<longleftrightarrow>
      requestPolicyViolation (Some policy) kind now ?affects (int ?used) = None"
    using assms by (simp add: assertApprovalPolicy_def nonempty_def split: option.split)
  also have "\<dots> \<longleftrightarrow> switched_off policy kind = None \<and>
      \<not> (?hours > 0 \<and> of_int (t - now) < ?hours * 60 * 60 * 1000) \<and>
      \<not> (?most > 0 \<and> of_nat (used_requests tables employee kind month) \<ge> ?most)"
    using kind positive [of "notice_of policy kind"] positive [of "limit_of policy kind"]
    by (auto simp: requestPolicyViolation_def Let_def split: option.split)
  finally show ?thesis by (auto simp: asks_def algebra_simps)
qed

text \<open>A third swap in September is refused by the default rules, the second is not.\<close>

definition september_swap :: swap_count_row where
  "september_swap = \<lparr> scRequestedBy = ''e1'', scStatus = SWAP_PENDING, scWorkDate = ''2026-09-15'' \<rparr>"

theorem accepted_request_keeps_the_rules_witness:
  "assertApprovalPolicy (Some default_policy) \<lparr> rtLeaves = [], rtChanges = [], rtSwaps = [september_swap] \<rparr> True ''e1'' SWAP_KIND
     (Some 90000000) (Some ''2026-09-20'') 0 = Inr () \<and>
   assertApprovalPolicy (Some default_policy) \<lparr> rtLeaves = [], rtChanges = [], rtSwaps = [september_swap, september_swap] \<rparr> True ''e1''
     SWAP_KIND (Some 90000000) (Some ''2026-09-20'') 0 \<noteq> Inr ()"
proof -
  obtain month where m: "vnMonthOfDateString (Some ''2026-09-20'') = Some month" "mKey month = ''2026-09-01''" "mLastDate month = ''2026-09-30''"
  proof -
    have "month_ok 2026 9" by (simp add: month_ok_def)
    then obtain M where M: "vnMonthFromParts 2026 9 = Some M" "mKey M = civil_string (Civil 2026 9 1)"
        "mLastDate M = civil_string (Civil 2026 9 (days_in_month 2026 9))"
      by (rule vnMonthFromParts_Some) blast
    have "is_ymd ''2026-09-20''" "ymd_of ''2026-09-20'' = (2026, 9, 20)" "civil_string (Civil 2026 9 1) = ''2026-09-01''"
      "civil_string (Civil 2026 9 (days_in_month 2026 9)) = ''2026-09-30''" by code_simp+
    then show thesis using M that [of M] by (simp add: vnMonthOfDateString_def)
  qed
  have kind: "counted_kind SWAP_KIND" "''2026-09-20'' \<noteq> []" by (simp_all add: counted_kind_def)
  have "in_month month ''2026-09-15''" unfolding in_month_def m(2,3) by code_simp
  then have used: "live_swap ''e1'' month september_swap" by (simp add: live_swap_def september_swap_def)
  have rules: "switched_off default_policy SWAP_KIND = None" "asks (notice_of default_policy SWAP_KIND) = Some 12"
    "asks (limit_of default_policy SWAP_KIND) = Some 2"
    by (simp_all add: switched_off_def asks_def policy_number_def notice_of_def limit_of_def default_policy_def)
  show ?thesis
    unfolding accepted_request_keeps_the_rules [OF kind(1) m(1) kind(2)] rules
    using used by (simp add: used_requests_def)
qed

end
