(* ===== verification/ShiftBooking.thy ===== *)
theory ShiftBooking
  imports WorkTerms RequestPolicy
begin

text \<open>
  Booking shifts: \<open>shift-time-conflict.ts\<close>, \<open>shift-registration-window.ts\<close> and, from \<open>service-parts/scheduling.part.ts\<close>,
  \<open>registerToShiftSlot\<close>, \<open>updateAssignmentStatus\<close>, \<open>createShiftSwap\<close> and \<open>updateShiftSwapStatus\<close>, over the tables they read and
  write. Each operation that changes bookings is one transaction under the store's advisory lock
  (\<open>shift-availability-lock.ts\<close>), so a history is a sequence of transactions; what is read before the transaction is a separate
  definition. Rows are listed in the order the database returns them.
\<close>

section \<open>Tables\<close>

record profile_row =
  pfId :: string
  pfAccount :: string
  pfStore :: string
  pfStatus :: employment_status
  pfTerms :: employee_terms
  pfJoinedAt :: "instant option"

record cycle_row =
  cyId :: string
  cyStore :: string
  cyStatus :: cycle_status
  cyDeadline :: "instant option"

record shift_row =
  shId :: string
  shStore :: string
  shName :: string
  shStart :: "string option"
  shEnd :: "string option"
  shMaxStaff :: "int option"
  shActive :: bool

record slot_row =
  slId :: string
  slCycle :: "string option"
  slShift :: string
  slDate :: string
  slStart :: "string option"
  slEnd :: "string option"
  slMaxStaff :: "int option"

record assignment_row =
  asId :: string
  asSlot :: string
  asEmployee :: string
  asStatus :: assignment_status
  asCreatedAt :: instant
  asNote :: "string option"
  asAdjustedStart :: "instant option"
  asAdjustedEnd :: "instant option"

record swap_row =
  swId :: string
  swFrom :: string
  swTo :: string
  swBy :: string
  swStatus :: swap_status
  swNote :: "string option"

record store_db =
  dbOwners :: "(string, string) jsmap"
  dbPolicies :: "(string, ApprovalPolicy) jsmap"
  dbProfiles :: "profile_row list"
  dbCycles :: "cycle_row list"
  dbShifts :: "shift_row list"
  dbSlots :: "slot_row list"
  dbAssignments :: "assignment_row list"
  dbSwaps :: "swap_row list"
  dbLeaves :: "leave_row list"
  dbChanges :: "change_row list"

definition slot_of :: "store_db \<Rightarrow> string \<Rightarrow> slot_row option" where
  "slot_of db i = find (\<lambda>r. slId r = i) (dbSlots db)"

definition cycle_of :: "store_db \<Rightarrow> slot_row \<Rightarrow> cycle_row option" where
  "cycle_of db slot = (case nonempty (slCycle slot) of None \<Rightarrow> None | Some i \<Rightarrow> find (\<lambda>r. cyId r = i) (dbCycles db))"

definition shift_of :: "store_db \<Rightarrow> slot_row \<Rightarrow> shift_row option" where
  "shift_of db slot = find (\<lambda>r. shId r = slShift slot) (dbShifts db)"

definition opt_field :: "('a \<Rightarrow> 'b option) \<Rightarrow> 'a option \<Rightarrow> 'b option" where
  "opt_field f r = (case r of Some x \<Rightarrow> f x | None \<Rightarrow> None)"

text \<open>\<open>a || b\<close> on clock strings, where the empty string counts as missing.\<close>

definition clock_or :: "string option \<Rightarrow> string option \<Rightarrow> string option" where
  "clock_or a b = (case nonempty a of Some t \<Rightarrow> Some t | None \<Rightarrow> nonempty b)"

definition start_of :: "store_db \<Rightarrow> slot_row \<Rightarrow> string option" where
  "start_of db slot = clock_or (slStart slot) (opt_field shStart (shift_of db slot))"

definition end_of :: "store_db \<Rightarrow> slot_row \<Rightarrow> string option" where
  "end_of db slot = clock_or (slEnd slot) (opt_field shEnd (shift_of db slot))"

definition isShiftEligibleEmploymentStatus :: "employment_status \<Rightarrow> bool" where
  "isShiftEligibleEmploymentStatus s \<longleftrightarrow> s = EMP_ACTIVE \<or> s = EMP_PROBATION"

section \<open>Times that conflict\<close>

record conflict_input =
  ciStore :: string
  ciEmployee :: string
  ciDate :: string
  ciStart :: string
  ciEnd :: string
  ciNotAssignments :: "string list"
  ciNotSlots :: "string list"

text \<open>The rows of the query: live bookings of the employee in active or just expired cycles of the store, around the work date.\<close>

definition conflict_candidate :: "store_db \<Rightarrow> conflict_input \<Rightarrow> string \<Rightarrow> string \<Rightarrow> assignment_row \<Rightarrow> bool" where
  "conflict_candidate db inp from' to' a \<longleftrightarrow> asEmployee a = ciEmployee inp \<and> asStatus a \<noteq> CANCELLED \<and>
     (case slot_of db (asSlot a) of
        None \<Rightarrow> False
      | Some slot \<Rightarrow>
          (case cycle_of db slot of
             None \<Rightarrow> False
           | Some cycle \<Rightarrow> cyStore cycle = ciStore inp \<and> (cyStatus cycle = CYCLE_ACTIVE \<or> cyStatus cycle = CYCLE_EXPIRED)) \<and>
          from' \<le> slDate slot \<and> slDate slot \<le> to')"

definition shift_interval_of :: "store_db \<Rightarrow> assignment_row \<Rightarrow> date_error + shift_interval option" where
  "shift_interval_of db a =
     (case slot_of db (asSlot a) of
        None \<Rightarrow> Inr None
      | Some slot \<Rightarrow>
          (case (start_of db slot, end_of db slot) of
             (Some s, Some e) \<Rightarrow> if slDate slot = [] then Inr None else toShiftInterval (take 10 (slDate slot)) s e
           | _ \<Rightarrow> Inr None))"

text \<open>An interval with a time that is no clock overlaps nothing.\<close>

definition intervals_clash :: "shift_interval option \<Rightarrow> shift_interval option \<Rightarrow> bool" where
  "intervals_clash a b = (case (a, b) of (Some x, Some y) \<Rightarrow> intervalsOverlap x y | _ \<Rightarrow> False)"

fun first_conflict :: "store_db \<Rightarrow> conflict_input \<Rightarrow> shift_interval option \<Rightarrow> assignment_row list \<Rightarrow> date_error + assignment_row option" where
  "first_conflict db inp proposed [] = Inr None"
| "first_conflict db inp proposed (a # rest) =
     (if asId a \<in> set (ciNotAssignments inp) \<or> asSlot a \<in> set (ciNotSlots inp) then first_conflict db inp proposed rest
      else and_then (shift_interval_of db a) (\<lambda>other.
             if intervals_clash proposed other then Inr (Some a) else first_conflict db inp proposed rest))"

definition findShiftTimeConflict :: "store_db \<Rightarrow> conflict_input \<Rightarrow> date_error + assignment_row option" where
  "findShiftTimeConflict db inp =
     (let workDate = take 10 (ciDate inp) in
      and_then (toShiftInterval workDate (ciStart inp) (ciEnd inp)) (\<lambda>proposed.
      and_then (addDays_date workDate (- 1)) (\<lambda>from'.
      and_then (addDays_date workDate 1) (\<lambda>to'.
        first_conflict db inp proposed (filter (conflict_candidate db inp from' to') (dbAssignments db))))))"

datatype booking_error =
    SlotMissing | NoCycle | NoAccount | NotOwner | StoreMissing | NotOwnProfile | PolicyRefused policy_violation
  | CycleNotActive | DeadlinePassed | ShiftInactive | RegistrationClosed | SlotFull | EmployeeMissing | EmployeeInactive
  | OtherStore | AlreadyBooked | TimeConflict assignment_row | TermRefused WorkTermViolation | OwnerBeforeStart
  | BadDate | BadTime | AssignmentMissing | BadStatus | BadTransition | TargetNotEligible | TargetNotStarted string
  | SourceCancelled | SwapMissing | SwapDecided | NotParty | AssignmentChanged | SwapChanged | SameSlotTimes

definition lift_date :: "date_error + 'a \<Rightarrow> booking_error + 'a" where
  "lift_date r = (case r of Inl _ \<Rightarrow> Inl BadDate | Inr a \<Rightarrow> Inr a)"

definition lift_time :: "range_error + 'a \<Rightarrow> booking_error + 'a" where
  "lift_time r = (case r of Inl _ \<Rightarrow> Inl BadTime | Inr a \<Rightarrow> Inr a)"

definition assertNoShiftTimeConflict :: "store_db \<Rightarrow> conflict_input \<Rightarrow> booking_error + unit" where
  "assertNoShiftTimeConflict db inp =
     and_then (lift_date (findShiftTimeConflict db inp)) (\<lambda>conflict.
       case conflict of None \<Rightarrow> Inr () | Some a \<Rightarrow> Inl (TimeConflict a))"

section \<open>When registration closes\<close>

definition normalizeWorkDate :: "db_date \<Rightarrow> string option" where
  "normalizeWorkDate workDate =
     (case workDate of
        NoDate \<Rightarrow> None
      | DateInvalidTime \<Rightarrow> None
      | DateLocal y month0 d \<Rightarrow> Some (year_text y @ ''-'' @ pad2 (nat (month0 + 1)) @ ''-'' @ pad2 (nat d))
      | DateText s \<Rightarrow> if s = [] then None else let day = take 10 s in if is_ymd day then Some day else None)"

definition slotEffectiveStart :: "db_date \<Rightarrow> string option \<Rightarrow> string option \<Rightarrow> instant option" where
  "slotEffectiveStart workDate slotStart shiftStart =
     (case normalizeWorkDate workDate of
        None \<Rightarrow> None
      | Some d \<Rightarrow> fst (resolveShiftBoundaries (Some d) (case slotStart of Some t \<Rightarrow> Some t | None \<Rightarrow> shiftStart) None))"

definition isSlotRegistrationClosed :: "db_date \<Rightarrow> string option \<Rightarrow> string option \<Rightarrow> instant \<Rightarrow> bool" where
  "isSlotRegistrationClosed workDate slotStart shiftStart now =
     (case normalizeWorkDate workDate of
        None \<Rightarrow> False
      | Some d \<Rightarrow>
          if d < vnDateString now then True
          else case slotEffectiveStart workDate slotStart shiftStart of Some start \<Rightarrow> start \<le> now | None \<Rightarrow> False)"

section \<open>Registering for a shift\<close>

definition assertOwnerStoreAccess :: "store_db \<Rightarrow> string \<Rightarrow> string \<Rightarrow> booking_error + unit" where
  "assertOwnerStoreAccess db storeId account =
     (case map_of (dbOwners db) storeId of
        None \<Rightarrow> Inl StoreMissing
      | Some owner \<Rightarrow> fail_if (owner \<noteq> account) NotOwner)"

definition eligible_profile :: "store_db \<Rightarrow> string \<Rightarrow> string \<Rightarrow> profile_row option" where
  "eligible_profile db storeId employeeId =
     find (\<lambda>p. pfId p = employeeId \<and> pfStore p = storeId \<and> isShiftEligibleEmploymentStatus (pfStatus p)) (dbProfiles db)"

definition booking_rows :: "store_db \<Rightarrow> booking_row list" where
  "booking_rows db = concat (map (\<lambda>a.
     (case slot_of db (asSlot a) of
        None \<Rightarrow> []
      | Some slot \<Rightarrow>
          (case (shift_of db slot, find (\<lambda>p. pfId p = asEmployee a) (dbProfiles db)) of
             (Some shift, Some profile) \<Rightarrow>
               [\<lparr> bkEmployee = asEmployee a, bkStatus = asStatus a, bkStore = shStore shift,
                  bkCycle = map_option cyStatus (cycle_of db slot), bkWorkDate = slDate slot,
                  bkCreatedAt = asCreatedAt a, bkJoinedAt = pfJoinedAt profile \<rparr>]
           | _ \<Rightarrow> []))) (dbAssignments db))"

text \<open>The swaps joined with the slot of their assignment.\<close>

definition swap_rows :: "store_db \<Rightarrow> swap_count_row list" where
  "swap_rows db = concat (map (\<lambda>w.
     (case find (\<lambda>a. asId a = swFrom w) (dbAssignments db) of
        None \<Rightarrow> []
      | Some a \<Rightarrow>
          (case slot_of db (asSlot a) of
             None \<Rightarrow> []
           | Some slot \<Rightarrow> [\<lparr> scRequestedBy = swBy w, scStatus = swStatus w, scWorkDate = slDate slot \<rparr>]))) (dbSwaps db))"

definition request_tables_of :: "store_db \<Rightarrow> request_tables" where
  "request_tables_of db = \<lparr> rtLeaves = dbLeaves db, rtChanges = dbChanges db, rtSwaps = swap_rows db \<rparr>"

definition check_policy ::
  "store_db \<Rightarrow> bool \<Rightarrow> string \<Rightarrow> string \<Rightarrow> RequestPolicyKind \<Rightarrow> instant option \<Rightarrow> string option \<Rightarrow> instant \<Rightarrow> booking_error + unit" where
  "check_policy db locked storeId employeeId kind affectsAt monthDate now =
     (case assertApprovalPolicy (map_of (dbPolicies db) storeId) (request_tables_of db) locked employeeId kind affectsAt monthDate now of
        Inl v \<Rightarrow> Inl (PolicyRefused v)
      | Inr u \<Rightarrow> Inr u)"

text \<open>What \<open>registerToShiftSlot\<close> checks before its transaction. It gives the store of the slot's cycle.\<close>

definition register_context ::
  "store_db \<Rightarrow> string \<Rightarrow> string \<Rightarrow> bool \<Rightarrow> string option \<Rightarrow> instant \<Rightarrow> booking_error + string" where
  "register_context db slotId employeeId isOwnerAssign ownerAccountId now =
     (case slot_of db slotId of
        None \<Rightarrow> Inl SlotMissing
      | Some slot \<Rightarrow>
          (case nonempty (map_option cyStore (cycle_of db slot)) of
             None \<Rightarrow> Inl NoCycle
           | Some storeId \<Rightarrow>
               (case nonempty ownerAccountId of
                  None \<Rightarrow> Inl NoAccount
                | Some account \<Rightarrow>
                    if isOwnerAssign then and_then (assertOwnerStoreAccess db storeId account) (\<lambda>_. Inr storeId)
                    else
                      and_then (fail_if (list_all (\<lambda>p. \<not> (pfId p = employeeId \<and> pfAccount p = account \<and> pfStore p = storeId \<and>
                                          isShiftEligibleEmploymentStatus (pfStatus p))) (dbProfiles db)) NotOwnProfile) (\<lambda>_.
                      and_then (check_policy db False storeId employeeId REGISTER_KIND None None now) (\<lambda>_. Inr storeId)))))"

definition active_count :: "store_db \<Rightarrow> string \<Rightarrow> nat" where
  "active_count db slotId = length (filter (\<lambda>a. asSlot a = slotId \<and> asStatus a \<noteq> CANCELLED) (dbAssignments db))"

definition max_required :: "store_db \<Rightarrow> slot_row \<Rightarrow> int" where
  "max_required db slot =
     (case slMaxStaff slot of Some m \<Rightarrow> m
      | None \<Rightarrow> (case opt_field shMaxStaff (shift_of db slot) of Some m \<Rightarrow> m | None \<Rightarrow> 0))"

definition check_slot :: "store_db \<Rightarrow> slot_row \<Rightarrow> bool \<Rightarrow> instant \<Rightarrow> booking_error + unit" where
  "check_slot db slot authorizedOwnerAssign now =
     (let cycle = cycle_of db slot; workShift = shift_of db slot; maxRequired = max_required db slot in
      and_then (fail_if (case cycle of Some c \<Rightarrow> cyStatus c \<noteq> CYCLE_ACTIVE | None \<Rightarrow> False) CycleNotActive) (\<lambda>_.
      and_then (fail_if (case opt_field cyDeadline cycle of Some deadline \<Rightarrow> now > deadline | None \<Rightarrow> False) DeadlinePassed) (\<lambda>_.
      and_then (fail_if (\<not> authorizedOwnerAssign \<and> map_option shActive workShift = Some False) ShiftInactive) (\<lambda>_.
      and_then (fail_if (\<not> authorizedOwnerAssign \<and>
          isSlotRegistrationClosed (DateText (slDate slot)) (slStart slot) (opt_field shStart workShift) now) RegistrationClosed) (\<lambda>_.
        fail_if (maxRequired > 0 \<and> int (active_count db (slId slot)) \<ge> maxRequired) SlotFull)))))"

definition check_employee ::
  "store_db \<Rightarrow> slot_row \<Rightarrow> string \<Rightarrow> bool \<Rightarrow> string \<Rightarrow> booking_error + profile_row" where
  "check_employee db slot employeeId authorizedOwnerAssign account =
     (case find (\<lambda>p. pfId p = employeeId) (dbProfiles db) of
        None \<Rightarrow> Inl EmployeeMissing
      | Some employee \<Rightarrow>
          and_then (fail_if (\<not> isShiftEligibleEmploymentStatus (pfStatus employee)) EmployeeInactive) (\<lambda>_.
          and_then (fail_if (case nonempty (map_option cyStore (cycle_of db slot)) of Some s \<Rightarrow> pfStore employee \<noteq> s | None \<Rightarrow> False)
                      OtherStore) (\<lambda>_.
          and_then (fail_if (\<not> authorizedOwnerAssign \<and> pfAccount employee \<noteq> account) NotOwnProfile) (\<lambda>_. Inr employee))))"

text \<open>\<open>findOne\<close> without an order: the first matching row of the table.\<close>

definition check_existing :: "store_db \<Rightarrow> string \<Rightarrow> string \<Rightarrow> booking_error + unit" where
  "check_existing db slotId employeeId =
     (case find (\<lambda>a. asSlot a = slotId \<and> asEmployee a = employeeId) (dbAssignments db) of
        None \<Rightarrow> Inr ()
      | Some existing \<Rightarrow> fail_if (asStatus existing \<noteq> CANCELLED) AlreadyBooked)"

definition check_times :: "store_db \<Rightarrow> string \<Rightarrow> slot_row \<Rightarrow> string \<Rightarrow> booking_error + unit" where
  "check_times db storeId slot employeeId =
     (case (start_of db slot, end_of db slot) of
        (Some slotStart, Some slotEnd) \<Rightarrow>
          if storeId \<noteq> [] \<and> slDate slot \<noteq> []
          then assertNoShiftTimeConflict db
            \<lparr> ciStore = storeId, ciEmployee = employeeId, ciDate = take 10 (slDate slot), ciStart = slotStart, ciEnd = slotEnd,
              ciNotAssignments = [], ciNotSlots = [slId slot] \<rparr>
          else Inr ()
      | _ \<Rightarrow> Inr ())"

definition check_terms :: "store_db \<Rightarrow> string \<Rightarrow> slot_row \<Rightarrow> profile_row \<Rightarrow> bool \<Rightarrow> booking_error + unit" where
  "check_terms db storeId slot employee authorizedOwnerAssign =
     (let terms = workTermsOf (pfTerms employee) in
      case ymdOf (DateText (slDate slot)) of
        None \<Rightarrow> Inr ()
      | Some slotDate \<Rightarrow>
          if \<not> hasWorkTerms terms then Inr ()
          else if authorizedOwnerAssign then fail_if (notStartedViolation terms slotDate \<noteq> None) OwnerBeforeStart
          else
            and_then (lift_time (loadBookedWorkDates (booking_rows db) storeId [pfId employee] [slotDate])) (\<lambda>booked.
            and_then (lift_time (workTermViolation terms slotDate (map_get_or [] booked (pfId employee)))) (\<lambda>violation.
              case violation of Some v \<Rightarrow> Inl (TermRefused v) | None \<Rightarrow> Inr ())))"

text \<open>The transaction. \<open>newId\<close> and \<open>now\<close> are the identifier and time the database gives the row.\<close>

definition register_tx ::
  "store_db \<Rightarrow> string \<Rightarrow> string \<Rightarrow> string \<Rightarrow> string option \<Rightarrow> bool \<Rightarrow> string \<Rightarrow> instant \<Rightarrow> string \<Rightarrow> booking_error + (store_db \<times> assignment_row)" where
  "register_tx db storeId slotId employeeId note isOwnerAssign account now newId =
     (case slot_of db slotId of
        None \<Rightarrow> Inl SlotMissing
      | Some slot \<Rightarrow>
          let owner_ok = map_of (dbOwners db) (case map_option cyStore (cycle_of db slot) of Some s \<Rightarrow> s | None \<Rightarrow> []) = Some account in
          and_then (fail_if (isOwnerAssign \<and> \<not> owner_ok) NotOwner) (\<lambda>_.
          and_then (check_slot db slot isOwnerAssign now) (\<lambda>_.
          and_then (check_employee db slot employeeId isOwnerAssign account) (\<lambda>employee.
          and_then (check_existing db slotId employeeId) (\<lambda>_.
          and_then (check_times db storeId slot employeeId) (\<lambda>_.
          and_then (check_terms db storeId slot employee isOwnerAssign) (\<lambda>_.
            let assignment = \<lparr> asId = newId, asSlot = slotId, asEmployee = employeeId,
                  asStatus = (if isOwnerAssign then APPROVED else PENDING), asCreatedAt = now, asNote = note,
                  asAdjustedStart = None, asAdjustedEnd = None \<rparr>
            in Inr (db\<lparr>dbAssignments := dbAssignments db @ [assignment]\<rparr>, assignment))))))))"

section \<open>The owner's decisions\<close>

fun allowedTransitions :: "assignment_status \<Rightarrow> assignment_status list" where
  "allowedTransitions PENDING = [APPROVED, CANCELLED]"
| "allowedTransitions APPROVED = [CONFIRMED, CANCELLED]"
| "allowedTransitions CONFIRMED = []"
| "allowedTransitions COMPLETED = []"
| "allowedTransitions CANCELLED = []"

definition assignment_of :: "store_db \<Rightarrow> string \<Rightarrow> assignment_row option" where
  "assignment_of db i = find (\<lambda>a. asId a = i) (dbAssignments db)"

text \<open>The wanted status is \<open>None\<close> when the text is no status. The part before the transaction gives the store.\<close>

definition update_context ::
  "store_db \<Rightarrow> string \<Rightarrow> assignment_status option \<Rightarrow> string option \<Rightarrow> booking_error + string" where
  "update_context db assignmentId status ownerAccountId =
     (case assignment_of db assignmentId of
        None \<Rightarrow> Inl AssignmentMissing
      | Some assignment \<Rightarrow>
          (case nonempty (map_option cyStore (case slot_of db (asSlot assignment) of Some slot \<Rightarrow> cycle_of db slot | None \<Rightarrow> None)) of
             None \<Rightarrow> Inl NoCycle
           | Some storeId \<Rightarrow>
               (case nonempty ownerAccountId of
                  None \<Rightarrow> Inl NoAccount
                | Some account \<Rightarrow>
                    and_then (assertOwnerStoreAccess db storeId account) (\<lambda>_.
                    and_then (fail_if (status \<notin> {Some APPROVED, Some CONFIRMED, Some CANCELLED}) BadStatus) (\<lambda>_.
                    and_then (fail_if (the status \<notin> set (allowedTransitions (asStatus assignment))) BadTransition) (\<lambda>_.
                      Inr storeId))))))"

definition set_assignment :: "store_db \<Rightarrow> (assignment_row \<Rightarrow> bool) \<Rightarrow> (assignment_row \<Rightarrow> assignment_row) \<Rightarrow> store_db" where
  "set_assignment db p f = db\<lparr>dbAssignments := map (\<lambda>a. if p a then f a else a) (dbAssignments db)\<rparr>"

definition update_tx ::
  "store_db \<Rightarrow> string \<Rightarrow> string \<Rightarrow> assignment_status \<Rightarrow> string option \<Rightarrow> string \<Rightarrow> booking_error + store_db" where
  "update_tx db storeId assignmentId nextStatus note account =
     and_then (fail_if (map_of (dbOwners db) storeId \<noteq> Some account) NotOwner) (\<lambda>_.
       case assignment_of db assignmentId of
         None \<Rightarrow> Inl AssignmentMissing
       | Some current \<Rightarrow>
           and_then (fail_if (nextStatus \<notin> set (allowedTransitions (asStatus current))) BadTransition) (\<lambda>_.
             Inr (set_assignment db (\<lambda>a. asId a = assignmentId)
                    (\<lambda>a. a\<lparr>asStatus := nextStatus, asNote := (case note of Some n \<Rightarrow> Some n | None \<Rightarrow> asNote a)\<rparr>))))"

section \<open>Changing a slot\<close>

text \<open>\<open>updateShiftSlot\<close>: the hours and places sent, \<open>None\<close> for what is not; the note of a slot is not kept.\<close>

record slot_edit =
  seStart :: "string option"
  seEnd :: "string option"
  seMaxStaff :: "int option"

definition update_slot_context :: "store_db \<Rightarrow> string \<Rightarrow> string option \<Rightarrow> booking_error + string" where
  "update_slot_context db slotId ownerAccountId =
     (case slot_of db slotId of
        None \<Rightarrow> Inl SlotMissing
      | Some slot \<Rightarrow>
          (case nonempty (map_option cyStore (cycle_of db slot)) of
             None \<Rightarrow> Inl NoCycle
           | Some storeId \<Rightarrow>
               (case nonempty ownerAccountId of
                  None \<Rightarrow> Inl NoAccount
                | Some account \<Rightarrow> and_then (assertOwnerStoreAccess db storeId account) (\<lambda>_. Inr storeId))))"

fun check_seated :: "store_db \<Rightarrow> string \<Rightarrow> slot_row \<Rightarrow> string \<Rightarrow> string \<Rightarrow> assignment_row list \<Rightarrow> booking_error + unit" where
  "check_seated db storeId slot nextStart nextEnd [] = Inr ()"
| "check_seated db storeId slot nextStart nextEnd (a # rest) =
     and_then (assertNoShiftTimeConflict db
         \<lparr> ciStore = storeId, ciEmployee = asEmployee a, ciDate = take 10 (slDate slot), ciStart = nextStart, ciEnd = nextEnd,
           ciNotAssignments = [], ciNotSlots = [slId slot] \<rparr>) (\<lambda>_.
       check_seated db storeId slot nextStart nextEnd rest)"

text \<open>The hours after the change: those sent, else the slot's own, else those of its work shift, which is only read when the
  slot lacks an hour of its own.\<close>

definition next_hours :: "store_db \<Rightarrow> slot_row \<Rightarrow> slot_edit \<Rightarrow> string option \<times> string option" where
  "next_hours db slot edit =
     (let template = (if nonempty (slStart slot) \<noteq> None \<and> nonempty (slEnd slot) \<noteq> None then None else shift_of db slot)
      in (nonempty (opt_or (seStart edit) (opt_or (slStart slot) (opt_field shStart template))),
          nonempty (opt_or (seEnd edit) (opt_or (slEnd slot) (opt_field shEnd template)))))"

definition check_hours :: "store_db \<Rightarrow> string \<Rightarrow> slot_row \<Rightarrow> slot_edit \<Rightarrow> booking_error + unit" where
  "check_hours db storeId slot edit =
     (case next_hours db slot edit of
        (Some nextStart, Some nextEnd) \<Rightarrow>
          and_then (fail_if (take 5 nextStart = take 5 nextEnd) SameSlotTimes) (\<lambda>_.
            if (seStart edit \<noteq> None \<or> seEnd edit \<noteq> None) \<and> slDate slot \<noteq> []
            then check_seated db storeId slot nextStart nextEnd
              (filter (\<lambda>a. asSlot a = slId slot \<and> asStatus a \<noteq> CANCELLED) (dbAssignments db))
            else Inr ())
      | _ \<Rightarrow> Inr ())"

definition edit_slot :: "slot_edit \<Rightarrow> slot_row \<Rightarrow> slot_row" where
  "edit_slot edit s = s\<lparr>slStart := opt_or (seStart edit) (slStart s), slEnd := opt_or (seEnd edit) (slEnd s),
     slMaxStaff := opt_or (seMaxStaff edit) (slMaxStaff s)\<rparr>"

definition update_slot_tx :: "store_db \<Rightarrow> string \<Rightarrow> string \<Rightarrow> slot_edit \<Rightarrow> string \<Rightarrow> booking_error + store_db" where
  "update_slot_tx db storeId slotId edit account =
     and_then (fail_if (map_of (dbOwners db) storeId \<noteq> Some account) NotOwner) (\<lambda>_.
       case slot_of db slotId of
         None \<Rightarrow> Inl SlotMissing
       | Some slot \<Rightarrow>
           and_then (check_hours db storeId slot edit) (\<lambda>_.
             Inr (db\<lparr>dbSlots := map (\<lambda>s. if slId s = slotId then edit_slot edit s else s) (dbSlots db)\<rparr>)))"

section \<open>Swaps\<close>

text \<open>An assignment with its slot, as read before the transaction.\<close>

record loaded =
  ldAssignment :: assignment_row
  ldSlot :: "slot_row option"
  ldStart :: "string option"
  ldEnd :: "string option"
  ldStore :: "string option"

definition load_assignment :: "store_db \<Rightarrow> string \<Rightarrow> loaded option" where
  "load_assignment db i =
     (case assignment_of db i of
        None \<Rightarrow> None
      | Some a \<Rightarrow>
          let slot = slot_of db (asSlot a) in
          Some \<lparr> ldAssignment = a, ldSlot = slot, ldStart = opt_field (start_of db) slot, ldEnd = opt_field (end_of db) slot,
                 ldStore = nonempty (map_option cyStore (opt_field (cycle_of db) slot)) \<rparr>)"

definition assertSwapTargetFree :: "store_db \<Rightarrow> loaded \<Rightarrow> string \<Rightarrow> booking_error + unit" where
  "assertSwapTargetFree db source targetEmployeeId =
     (case (ldSlot source, ldStart source, ldEnd source, ldStore source) of
        (Some slot, Some startTime, Some endTime, Some storeId) \<Rightarrow>
          if slDate slot = [] then Inr ()
          else assertNoShiftTimeConflict db
            \<lparr> ciStore = storeId, ciEmployee = targetEmployeeId, ciDate = take 10 (slDate slot), ciStart = startTime, ciEnd = endTime,
              ciNotAssignments = [asId (ldAssignment source)], ciNotSlots = [] \<rparr>
      | _ \<Rightarrow> Inr ())"

definition slot_date :: "loaded \<Rightarrow> db_date" where
  "slot_date source = (case ldSlot source of Some slot \<Rightarrow> DateText (slDate slot) | None \<Rightarrow> NoDate)"

definition check_target_started :: "profile_row \<Rightarrow> loaded \<Rightarrow> booking_error + unit" where
  "check_target_started target source =
     (case swapTargetNotStarted (etOfficialStartDate (pfTerms target)) (slot_date source) of
        Some (code, _) \<Rightarrow> Inl (TargetNotStarted code)
      | None \<Rightarrow> Inr ())"

text \<open>The two profiles and the checks of \<open>createShiftSwap\<close>; then its transaction, under the requester's lock only.\<close>

definition create_swap_context ::
  "store_db \<Rightarrow> string \<Rightarrow> string \<Rightarrow> string \<Rightarrow> string option \<Rightarrow> booking_error + loaded" where
  "create_swap_context db fromAssignmentId toEmployeeId requestedBy accountId =
     (case nonempty accountId of
        None \<Rightarrow> Inl NoAccount
      | Some account \<Rightarrow>
          (case load_assignment db fromAssignmentId of
             None \<Rightarrow> Inl AssignmentMissing
           | Some source \<Rightarrow>
               (case ldStore source of
                  None \<Rightarrow> Inl NoCycle
                | Some storeId \<Rightarrow>
                    and_then (fail_if (list_all (\<lambda>p. \<not> (pfId p = requestedBy \<and> pfAccount p = account \<and> pfStore p = storeId \<and>
                                isShiftEligibleEmploymentStatus (pfStatus p))) (dbProfiles db) \<or>
                                asEmployee (ldAssignment source) \<noteq> requestedBy) NotOwnProfile) (\<lambda>_.
                    (case eligible_profile db storeId toEmployeeId of
                       None \<Rightarrow> Inl TargetNotEligible
                     | Some target \<Rightarrow>
                         and_then (check_target_started target source) (\<lambda>_.
                         and_then (fail_if (asStatus (ldAssignment source) = CANCELLED) SourceCancelled) (\<lambda>_.
                         and_then (assertSwapTargetFree db source toEmployeeId) (\<lambda>_. Inr source))))))))"

definition swap_affects_at :: "loaded \<Rightarrow> instant option" where
  "swap_affects_at source =
     (let a = ldAssignment source in
      winStart (resolveEffectiveShiftWindow (case ldSlot source of Some slot \<Rightarrow> WStr (slDate slot) | None \<Rightarrow> WNone)
        (ldStart source) (ldEnd source)
        (case asAdjustedStart a of Some t \<Rightarrow> DAt t | None \<Rightarrow> DNull)
        (case asAdjustedEnd a of Some t \<Rightarrow> DAt t | None \<Rightarrow> DNull)))"

definition create_swap_tx ::
  "store_db \<Rightarrow> loaded \<Rightarrow> string \<Rightarrow> string \<Rightarrow> string option \<Rightarrow> instant \<Rightarrow> string \<Rightarrow> booking_error + (store_db \<times> swap_row)" where
  "create_swap_tx db source toEmployeeId requestedBy note now newId =
     and_then (check_policy db True (case ldStore source of Some s \<Rightarrow> s | None \<Rightarrow> []) requestedBy SWAP_KIND (swap_affects_at source)
         (case ldSlot source of Some slot \<Rightarrow> if slDate slot = [] then None else Some (take 10 (slDate slot)) | None \<Rightarrow> None) now) (\<lambda>_.
       let swap = \<lparr> swId = newId, swFrom = asId (ldAssignment source), swTo = toEmployeeId, swBy = requestedBy,
             swStatus = SWAP_PENDING, swNote = note \<rparr>
       in Inr (db\<lparr>dbSwaps := dbSwaps db @ [swap]\<rparr>, swap))"

definition swap_party :: "store_db \<Rightarrow> string \<Rightarrow> swap_row \<Rightarrow> string \<Rightarrow> bool" where
  "swap_party db storeId swap account =
     (case find (\<lambda>p. pfAccount p = account \<and> pfStore p = storeId \<and> isShiftEligibleEmploymentStatus (pfStatus p)) (dbProfiles db) of
        None \<Rightarrow> False
      | Some caller \<Rightarrow> pfId caller = swBy swap \<or> pfId caller = swTo swap)"

definition check_party :: "store_db \<Rightarrow> string \<Rightarrow> swap_row \<Rightarrow> string \<Rightarrow> booking_error + profile_row" where
  "check_party db storeId swap account =
     (case map_of (dbOwners db) storeId of
        None \<Rightarrow> Inl StoreMissing
      | Some owner \<Rightarrow>
          and_then (fail_if (owner \<noteq> account \<and> \<not> swap_party db storeId swap account) NotParty) (\<lambda>_.
            case eligible_profile db storeId (swTo swap) of None \<Rightarrow> Inl TargetNotEligible | Some target \<Rightarrow> Inr target))"

definition swap_of :: "store_db \<Rightarrow> string \<Rightarrow> swap_row option" where
  "swap_of db i = find (\<lambda>w. swId w = i) (dbSwaps db)"

definition decide_swap_context ::
  "store_db \<Rightarrow> string \<Rightarrow> swap_status option \<Rightarrow> string option \<Rightarrow> booking_error + (swap_row \<times> loaded option)" where
  "decide_swap_context db swapId status accountId =
     (case nonempty accountId of
        None \<Rightarrow> Inl NoAccount
      | Some account \<Rightarrow>
          and_then (fail_if (status \<notin> {Some SWAP_APPROVED, Some SWAP_REJECTED}) BadStatus) (\<lambda>_.
            case swap_of db swapId of
              None \<Rightarrow> Inl SwapMissing
            | Some swap \<Rightarrow>
                and_then (fail_if (swStatus swap \<noteq> SWAP_PENDING) SwapDecided) (\<lambda>_.
                let source = load_assignment db (swFrom swap) in
                and_then (check_party db (case opt_field ldStore source of Some s \<Rightarrow> s | None \<Rightarrow> []) swap account) (\<lambda>_.
                  Inr (swap, source)))))"

text \<open>Giving the shift away clears the late arrival and early leave granted to the former employee.\<close>

definition hand_over :: "string \<Rightarrow> assignment_row \<Rightarrow> assignment_row" where
  "hand_over target a = a\<lparr>asEmployee := target, asAdjustedStart := None, asAdjustedEnd := None\<rparr>"

definition approve_swap :: "store_db \<Rightarrow> swap_row \<Rightarrow> loaded \<Rightarrow> profile_row \<Rightarrow> booking_error + store_db" where
  "approve_swap db swap source target =
     and_then (check_target_started target source) (\<lambda>_.
     and_then (assertSwapTargetFree db source (swTo swap)) (\<lambda>_.
       let hit = (\<lambda>a. asId a = asId (ldAssignment source) \<and> asEmployee a = asEmployee (ldAssignment source)) in
       and_then (fail_if (filter hit (dbAssignments db) = []) AssignmentChanged) (\<lambda>_.
         Inr (set_assignment db hit (hand_over (swTo swap))))))"

definition decide_swap_tx ::
  "store_db \<Rightarrow> swap_row \<Rightarrow> loaded \<Rightarrow> swap_status \<Rightarrow> string option \<Rightarrow> string \<Rightarrow> booking_error + store_db" where
  "decide_swap_tx db swap source nextStatus note account =
     and_then (check_party db (case ldStore source of Some s \<Rightarrow> s | None \<Rightarrow> []) swap account) (\<lambda>target.
     and_then (if nextStatus = SWAP_APPROVED then approve_swap db swap source target else Inr db) (\<lambda>db1.
       let hit = (\<lambda>w. swId w = swId swap \<and> swStatus w = SWAP_PENDING) in
       and_then (fail_if (filter hit (dbSwaps db1) = []) SwapChanged) (\<lambda>_.
         Inr (db1\<lparr>dbSwaps := map (\<lambda>w. if hit w then w\<lparr>swStatus := nextStatus, swNote := opt_or note (swNote w)\<rparr> else w) (dbSwaps db1)\<rparr>))))"

end
