(* ===== verification/BookingSafety.thy ===== *)
theory BookingSafety
  imports ShiftBooking
begin

text \<open>
  What the booking operations guarantee: the search for a conflicting shift is exact, histories of transactions never book an
  employee twice at one time nor overfill a shift, and a swap is decided once.
\<close>

section \<open>The search for a conflict is exact\<close>

definition catalog_ok :: "store_db \<Rightarrow> bool" where
  "catalog_ok db \<longleftrightarrow>
     (\<forall>slot \<in> set (dbSlots db).
        (\<exists>n. full_day (n - 1) \<and> full_day n \<and> full_day (n + 1) \<and> slDate slot = day_string n) \<and>
        (\<forall>t. start_of db slot = Some t \<longrightarrow> clock_ok t) \<and> (\<forall>t. end_of db slot = Some t \<longrightarrow> clock_ok t)) \<and>
     (\<forall>cycle \<in> set (dbCycles db). cyStore cycle \<noteq> [])"

text \<open>The time a booking takes, as far as it counts for conflicts in a store.\<close>

definition in_live_cycle :: "store_db \<Rightarrow> string \<Rightarrow> slot_row \<Rightarrow> bool" where
  "in_live_cycle db storeId slot \<longleftrightarrow>
     (case cycle_of db slot of
        None \<Rightarrow> False
      | Some cycle \<Rightarrow> cyStore cycle = storeId \<and> (cyStatus cycle = CYCLE_ACTIVE \<or> cyStatus cycle = CYCLE_EXPIRED))"

definition booked_interval :: "store_db \<Rightarrow> string \<Rightarrow> assignment_row \<Rightarrow> shift_interval option" where
  "booked_interval db storeId a =
     (case slot_of db (asSlot a) of
        None \<Rightarrow> None
      | Some slot \<Rightarrow>
          if asStatus a \<noteq> CANCELLED \<and> in_live_cycle db storeId slot
          then (case shift_interval_of db a of Inr i \<Rightarrow> i | Inl _ \<Rightarrow> None) else None)"

lemma slot_of_member: "slot_of db i = Some slot \<Longrightarrow> slot \<in> set (dbSlots db) \<and> slId slot = i"
  by (auto simp: slot_of_def find_Some_iff)

lemma cycle_of_member: "cycle_of db slot = Some c \<Longrightarrow> c \<in> set (dbCycles db)"
  by (auto simp: cycle_of_def find_Some_iff split: option.splits)

lemma length_day_string: "full_day n \<Longrightarrow> length (day_string n) = 10"
  by (rule length_civil_string) (auto simp: full_day_def)

lemma catalog_slot:
  assumes "catalog_ok db" "slot_of db i = Some slot"
  obtains n where "full_day (n - 1)" "full_day n" "full_day (n + 1)" "slDate slot = day_string n" "take 10 (slDate slot) = day_string n"
    "slDate slot \<noteq> []"
proof -
  obtain n where n: "full_day (n - 1)" "full_day n" "full_day (n + 1)" "slDate slot = day_string n"
    using assms slot_of_member [OF assms(2)] by (auto simp: catalog_ok_def)
  then have "length (slDate slot) = 10" using length_day_string by simp
  then have "take 10 (slDate slot) = slDate slot" "slDate slot \<noteq> []" by auto
  then show thesis using that n by metis
qed

lemma shift_interval_cases:
  assumes "catalog_ok db" "slot_of db (asSlot a) = Some slot" "slDate slot = day_string n" "full_day n"
  shows "shift_interval_of db a = Inr (case (start_of db slot, end_of db slot) of
      (Some s, Some e) \<Rightarrow> Some (day_interval s e n) | _ \<Rightarrow> None)"
proof -
  have "take 10 (slDate slot) = day_string n" "slDate slot \<noteq> []" using assms(3) length_day_string [OF assms(4)] by auto
  moreover have "start_of db slot = Some t \<Longrightarrow> clock_ok t" "end_of db slot = Some t \<Longrightarrow> clock_ok t" for t
    using assms(1) slot_of_member [OF assms(2)] by (auto simp: catalog_ok_def)
  ultimately show ?thesis
    using assms(2,4) by (auto simp: shift_interval_of_def shift_interval_day split: option.splits)
qed

lemma shift_interval_total: "catalog_ok db \<Longrightarrow> \<exists>i. shift_interval_of db a = Inr i"
proof (cases "slot_of db (asSlot a)")
  case (Some slot)
  assume c: "catalog_ok db"
  then show ?thesis using catalog_slot [OF c Some] shift_interval_cases [OF c Some] by metis
qed (simp add: shift_interval_of_def)

definition excluded :: "conflict_input \<Rightarrow> assignment_row \<Rightarrow> bool" where
  "excluded inp a \<longleftrightarrow> asId a \<in> set (ciNotAssignments inp) \<or> asSlot a \<in> set (ciNotSlots inp)"

lemma first_conflict_find:
  assumes "catalog_ok db"
  shows "first_conflict db inp proposed xs =
    Inr (find (\<lambda>a. \<not> excluded inp a \<and> intervals_clash proposed (case shift_interval_of db a of Inr i \<Rightarrow> i | Inl _ \<Rightarrow> None)) xs)"
proof (induction xs)
  case (Cons a xs)
  obtain i where "shift_interval_of db a = Inr i" using shift_interval_total [OF assms] by blast
  then show ?case using Cons by (simp add: excluded_def)
qed simp

text \<open>Shifts that overlap start at most a day apart.\<close>

lemma clash_is_near:
  assumes "clock_ok s" "clock_ok e" "clock_ok s'" "clock_ok e'" "intervalsOverlap (day_interval s e n) (day_interval s' e' k)"
  shows "n - 1 \<le> k \<and> k \<le> n + 1"
proof -
  have "1440 * n + clock_min s < 1440 * k + (if clock_min e' \<le> clock_min s' then clock_min e' + 1440 else clock_min e')"
    "1440 * k + clock_min s' < 1440 * n + (if clock_min e \<le> clock_min s then clock_min e + 1440 else clock_min e)"
    using assms(5) by (simp_all only: intervalsOverlap_def day_interval_def shift_interval.simps of_int_less_iff)
  then show ?thesis
    using clock_min_range [OF assms(1)] clock_min_range [OF assms(2)] clock_min_range [OF assms(3)] clock_min_range [OF assms(4)]
    by (auto split: if_splits)
qed

lemma intervals_clash_Some: "intervals_clash (Some x) y \<longleftrightarrow> (\<exists>z. y = Some z \<and> intervalsOverlap x z)"
  by (simp add: intervals_clash_def split: option.split)

lemma search_exact:
  assumes "catalog_ok db" "ciDate inp = day_string n" "full_day (n - 1)" "full_day n" "full_day (n + 1)"
    and "clock_ok (ciStart inp)" "clock_ok (ciEnd inp)"
  shows "\<exists>conflict. findShiftTimeConflict db inp = Inr conflict \<and>
    (conflict = None \<longleftrightarrow> (\<forall>a \<in> set (dbAssignments db). asEmployee a = ciEmployee inp \<and> \<not> excluded inp a \<longrightarrow>
       \<not> intervals_clash (Some (day_interval (ciStart inp) (ciEnd inp) n)) (booked_interval db (ciStore inp) a)))"
proof -
  let ?p = "Some (day_interval (ciStart inp) (ciEnd inp) n)"
  let ?clash = "\<lambda>a. \<not> excluded inp a \<and> intervals_clash ?p (case shift_interval_of db a of Inr i \<Rightarrow> i | Inl _ \<Rightarrow> None)"
  let ?cand = "conflict_candidate db inp (day_string (n - 1)) (day_string (n + 1))"
  have dates: "take 10 (ciDate inp) = day_string n" using assms(2) length_day_string [OF assms(4)] by simp
  have add: "addDays_date (day_string n) (- 1) = Inr (day_string (n - 1))" "addDays_date (day_string n) 1 = Inr (day_string (n + 1))"
    using addDays_date_day [of n "- 1"] addDays_date_day [of n 1] assms(3-5) by simp_all
  have run: "findShiftTimeConflict db inp = Inr (find ?clash (filter ?cand (dbAssignments db)))"
    using assms(4,6,7) unfolding findShiftTimeConflict_def dates Let_def first_conflict_find [OF assms(1)]
    by (simp add: shift_interval_day add)
  have near: "?cand a \<and> ?clash a \<longleftrightarrow> asEmployee a = ciEmployee inp \<and> \<not> excluded inp a \<and> intervals_clash ?p (booked_interval db (ciStore inp) a)" for a
  proof (cases "slot_of db (asSlot a)")
    case (Some slot)
    obtain k where k: "full_day k" "slDate slot = day_string k" using catalog_slot [OF assms(1) Some] by metis
    note iv = shift_interval_cases [OF assms(1) Some k(2,1)]
    have clocks: "start_of db slot = Some t \<Longrightarrow> clock_ok t" "end_of db slot = Some t \<Longrightarrow> clock_ok t" for t
      using assms(1) slot_of_member [OF Some] by (auto simp: catalog_ok_def)
    have "day_string (n - 1) \<le> slDate slot \<and> slDate slot \<le> day_string (n + 1)"
      if hit: "intervals_clash ?p (case shift_interval_of db a of Inr i \<Rightarrow> i | Inl _ \<Rightarrow> None)"
    proof -
      obtain s e where "start_of db slot = Some s" "end_of db slot = Some e" "intervalsOverlap (day_interval (ciStart inp) (ciEnd inp) n) (day_interval s e k)"
        using hit unfolding iv by (auto simp: intervals_clash_Some split: option.splits)
      then have "n - 1 \<le> k \<and> k \<le> n + 1" using clash_is_near clocks assms(6,7) by metis
      then show ?thesis using k assms(3,5) by (simp add: day_string_le)
    qed
    then show ?thesis unfolding conflict_candidate_def booked_interval_def Some option.case in_live_cycle_def [symmetric]
      by (auto simp: intervals_clash_Some split: if_splits)
  qed (simp add: conflict_candidate_def booked_interval_def intervals_clash_Some)
  have none: "find ?clash (filter ?cand (dbAssignments db)) = None \<longleftrightarrow>
      (\<forall>a \<in> set (dbAssignments db). asEmployee a = ciEmployee inp \<and> \<not> excluded inp a \<longrightarrow>
         \<not> intervals_clash ?p (booked_interval db (ciStore inp) a))"
  proof -
    have "find ?clash (filter ?cand (dbAssignments db)) = None \<longleftrightarrow> (\<forall>a \<in> set (dbAssignments db). \<not> (?cand a \<and> ?clash a))"
      by (auto simp: find_None_iff)
    also have "\<dots> \<longleftrightarrow> (\<forall>a \<in> set (dbAssignments db). asEmployee a = ciEmployee inp \<and> \<not> excluded inp a \<longrightarrow>
         \<not> intervals_clash ?p (booked_interval db (ciStore inp) a))"
      unfolding near by (intro ball_cong refl) blast
    finally show ?thesis .
  qed
  show ?thesis by (rule exI [of _ "find ?clash (filter ?cand (dbAssignments db))"], rule conjI, rule run, rule none)
qed

text \<open>C32. The search misses nothing: on shifts with real dates and times, it finds a booking exactly when some booking of the employee
  that counts (not cancelled, in an active or just expired cycle of the store, not excepted) takes a time the proposed shift
  takes, also one that runs past midnight from the day before or into the next day, although only three days are read.\<close>

theorem conflict_search_is_exact:
  assumes "catalog_ok db" "ciDate inp = day_string n" "full_day (n - 1)" "full_day n" "full_day (n + 1)"
    and "clock_ok (ciStart inp)" "clock_ok (ciEnd inp)"
  shows "\<exists>conflict. findShiftTimeConflict db inp = Inr conflict \<and>
    (conflict = None \<longleftrightarrow> (\<forall>a \<in> set (dbAssignments db). asEmployee a = ciEmployee inp \<and> \<not> excluded inp a \<longrightarrow>
       \<not> intervals_clash (Some (day_interval (ciStart inp) (ciEnd inp) n)) (booked_interval db (ciStore inp) a)))"
  by (rule search_exact [OF assms])

section \<open>Histories\<close>

definition same_catalog :: "store_db \<Rightarrow> store_db \<Rightarrow> bool" where
  "same_catalog db db' \<longleftrightarrow> dbSlots db' = dbSlots db \<and> dbCycles db' = dbCycles db \<and> dbShifts db' = dbShifts db"

text \<open>What the rest of the program may do to a booking in between: check it in and out, adjust or cancel it, but not revive it.\<close>

definition tended :: "assignment_row \<Rightarrow> assignment_row \<Rightarrow> bool" where
  "tended a a' \<longleftrightarrow> asId a' = asId a \<and> asSlot a' = asSlot a \<and> asEmployee a' = asEmployee a \<and> (asStatus a = CANCELLED \<longrightarrow> asStatus a' = CANCELLED)"

text \<open>It may send and decide swaps too, but a decided one stays decided.\<close>

definition decided_swap :: "store_db \<Rightarrow> string \<Rightarrow> bool" where
  "decided_swap db i \<longleftrightarrow> i \<in> set (map swId (dbSwaps db)) \<and> (\<forall>w \<in> set (dbSwaps db). swId w = i \<longrightarrow> swStatus w \<noteq> SWAP_PENDING)"

definition swaps_kept :: "store_db \<Rightarrow> store_db \<Rightarrow> bool" where
  "swaps_kept db db' \<longleftrightarrow> (\<forall>i \<in> set (map swId (dbSwaps db)). decided_swap db i \<longrightarrow> decided_swap db' i)"

text \<open>\<open>later db db'\<close>: \<open>db'\<close> is reached from \<open>db\<close> by transactions. What an operation checked before its transaction it may have read in
  any state in between (\<open>db1\<close>). The rest of the program may change profiles, conditions, policies, requests and the fields of bookings;
  slots, cycles and work shifts stay.\<close>

inductive later :: "store_db \<Rightarrow> store_db \<Rightarrow> bool" where
  start: "later db db"
| registered: "later db db1 \<Longrightarrow> later db1 db2 \<Longrightarrow> register_context db1 slotId employeeId isOwnerAssign (Some account) now1 = Inr storeId \<Longrightarrow>
    newId \<notin> asId ` set (dbAssignments db2) \<Longrightarrow>
    register_tx db2 storeId slotId employeeId note isOwnerAssign account now2 newId = Inr (db3, a) \<Longrightarrow> later db db3"
| updated: "later db db2 \<Longrightarrow> update_tx db2 storeId assignmentId status note account = Inr db3 \<Longrightarrow> later db db3"
| requested: "later db db2 \<Longrightarrow> newId \<notin> swId ` set (dbSwaps db2) \<Longrightarrow> create_swap_tx db2 source toEmployee requestedBy note now newId = Inr (db3, w) \<Longrightarrow> later db db3"
| decided: "later db db1 \<Longrightarrow> later db1 db2 \<Longrightarrow> decide_swap_context db1 swapId (Some status) (Some account) = Inr (swap, Some source) \<Longrightarrow>
    decide_swap_tx db2 swap source status note account = Inr db3 \<Longrightarrow> later db db3"
| elsewhere: "later db db2 \<Longrightarrow> same_catalog db2 db3 \<Longrightarrow> list_all2 tended (dbAssignments db2) (dbAssignments db3) \<Longrightarrow>
    swaps_kept db2 db3 \<Longrightarrow> later db db3"

section \<open>What every transaction keeps\<close>

lemma catalog_reads:
  assumes "same_catalog db db'"
  shows "slot_of db' = slot_of db" "cycle_of db' = cycle_of db" "start_of db' = start_of db" "end_of db' = end_of db"
    "max_required db' = max_required db" "shift_interval_of db' = shift_interval_of db" "in_live_cycle db' = in_live_cycle db"
    "booked_interval db' = booked_interval db" "catalog_ok db' = catalog_ok db"
proof -
  have e: "dbSlots db' = dbSlots db" "dbCycles db' = dbCycles db" "dbShifts db' = dbShifts db"
    using assms by (simp_all add: same_catalog_def)
  show slot: "slot_of db' = slot_of db" and cycle: "cycle_of db' = cycle_of db"
    unfolding fun_eq_iff slot_of_def cycle_of_def e by simp_all
  have shift: "shift_of db' = shift_of db" unfolding fun_eq_iff shift_of_def e by simp
  show times: "start_of db' = start_of db" "end_of db' = end_of db" "max_required db' = max_required db"
    unfolding fun_eq_iff start_of_def end_of_def max_required_def shift by simp_all
  show iv: "shift_interval_of db' = shift_interval_of db" and live: "in_live_cycle db' = in_live_cycle db"
    unfolding fun_eq_iff shift_interval_of_def in_live_cycle_def slot cycle times by simp_all
  show "booked_interval db' = booked_interval db" unfolding fun_eq_iff booked_interval_def slot iv live by simp
  show "catalog_ok db' = catalog_ok db" unfolding catalog_ok_def e times by simp
qed

definition distinct_ids :: "store_db \<Rightarrow> bool" where
  "distinct_ids db \<longleftrightarrow> distinct (map asId (dbAssignments db))"

definition never_twice :: "store_db \<Rightarrow> bool" where
  "never_twice db \<longleftrightarrow>
     (\<forall>a \<in> set (dbAssignments db). \<forall>b \<in> set (dbAssignments db). \<forall>storeId.
        asId a \<noteq> asId b \<and> asSlot a \<noteq> asSlot b \<and> asEmployee a = asEmployee b \<longrightarrow>
        \<not> intervals_clash (booked_interval db storeId a) (booked_interval db storeId b))"

definition never_overfull :: "store_db \<Rightarrow> bool" where
  "never_overfull db \<longleftrightarrow>
     (\<forall>i slot. slot_of db i = Some slot \<and> max_required db slot > 0 \<longrightarrow> int (active_count db i) \<le> max_required db slot)"

lemma clash_sym: "intervals_clash x y = intervals_clash y x"
  by (auto simp: intervals_clash_def intervalsOverlap_def split: option.splits)

text \<open>A booking keeps its time when it is tended or handed over, unless it stops counting.\<close>

lemma booked_interval_kept:
  "asSlot a' = asSlot a \<Longrightarrow> (asStatus a = CANCELLED \<longrightarrow> asStatus a' = CANCELLED) \<Longrightarrow>
    booked_interval db storeId a' = None \<or> booked_interval db storeId a' = booked_interval db storeId a"
  by (auto simp: booked_interval_def shift_interval_of_def split: option.splits)

lemma no_clash_None [simp]: "\<not> intervals_clash None x" "\<not> intervals_clash x None"
  by (simp_all add: intervals_clash_def split: option.split)

text \<open>Only the tables of bookings matter.\<close>

lemma tended_keeps:
  assumes "same_catalog db db'" "list_all2 tended (dbAssignments db) (dbAssignments db')"
  shows "distinct_ids db \<Longrightarrow> distinct_ids db'" "never_twice db \<Longrightarrow> never_twice db'" "never_overfull db \<Longrightarrow> never_overfull db'"
proof -
  have ids: "map asId (dbAssignments db') = map asId (dbAssignments db)"
    using assms(2) by (auto simp: list_all2_conv_all_nth tended_def intro: nth_equalityI)
  then show "distinct_ids db \<Longrightarrow> distinct_ids db'" by (simp add: distinct_ids_def)
  have from_old: "\<exists>a \<in> set (dbAssignments db). tended a a'" if "a' \<in> set (dbAssignments db')" for a'
    using assms(2) that by (metis in_set_conv_nth list_all2_conv_all_nth nth_mem)
  show "never_twice db \<Longrightarrow> never_twice db'"
  proof -
    assume twice: "never_twice db"
    have "\<not> intervals_clash (booked_interval db storeId a') (booked_interval db storeId b')"
      if m: "a' \<in> set (dbAssignments db')" "b' \<in> set (dbAssignments db')"
        "asId a' \<noteq> asId b'" "asSlot a' \<noteq> asSlot b'" "asEmployee a' = asEmployee b'" for a' b' storeId
    proof -
      obtain a b where ab: "a \<in> set (dbAssignments db)" "b \<in> set (dbAssignments db)" "tended a a'" "tended b b'"
        using from_old m(1,2) by metis
      then have "\<not> intervals_clash (booked_interval db storeId a) (booked_interval db storeId b)"
        using twice m(3-5) unfolding never_twice_def tended_def by metis
      moreover have "booked_interval db storeId a' = None \<or> booked_interval db storeId a' = booked_interval db storeId a"
          "booked_interval db storeId b' = None \<or> booked_interval db storeId b' = booked_interval db storeId b"
        using ab(3,4) booked_interval_kept [of a' a] booked_interval_kept [of b' b] unfolding tended_def by blast+
      ultimately show ?thesis by auto
    qed
    then show "never_twice db'" unfolding never_twice_def catalog_reads(8) [OF assms(1)] by blast
  qed
  have "active_count db' i \<le> active_count db i" for i
  proof -
    have "length (filter (\<lambda>a. asSlot a = i \<and> asStatus a \<noteq> CANCELLED) ys) \<le> length (filter (\<lambda>a. asSlot a = i \<and> asStatus a \<noteq> CANCELLED) xs)"
      if "list_all2 tended xs ys" for xs ys
      using that by (induction rule: list_all2_induct) (auto simp: tended_def)
    then show ?thesis using assms(2) by (simp add: active_count_def)
  qed
  then show "never_overfull db \<Longrightarrow> never_overfull db'"
    unfolding never_overfull_def catalog_reads(1,5) [OF assms(1)] by (meson of_nat_mono order_trans)
qed

lemma no_conflict_no_clash:
  assumes "catalog_ok db" "slot_of db i = Some slot" "start_of db slot = Some s" "end_of db slot = Some e"
    and "assertNoShiftTimeConflict db \<lparr> ciStore = storeId, ciEmployee = employee, ciDate = take 10 (slDate slot), ciStart = s, ciEnd = e,
        ciNotAssignments = na, ciNotSlots = ns \<rparr> = Inr ()"
    and "b \<in> set (dbAssignments db)" "asEmployee b = employee" "asId b \<notin> set na" "asSlot b \<notin> set ns" "asSlot x = i"
  shows "\<not> intervals_clash (booked_interval db storeId x) (booked_interval db storeId b)"
proof -
  let ?inp = "\<lparr> ciStore = storeId, ciEmployee = employee, ciDate = take 10 (slDate slot), ciStart = s, ciEnd = e,
    ciNotAssignments = na, ciNotSlots = ns \<rparr>"
  obtain n where n: "full_day (n - 1)" "full_day n" "full_day (n + 1)" "slDate slot = day_string n" "take 10 (slDate slot) = day_string n"
    using catalog_slot [OF assms(1,2)] by metis
  have clocks: "clock_ok s" "clock_ok e" using assms(1,3,4) slot_of_member [OF assms(2)] by (auto simp: catalog_ok_def)
  obtain conflict where c: "findShiftTimeConflict db ?inp = Inr conflict"
      "conflict = None \<Longrightarrow> \<not> intervals_clash (Some (day_interval s e n)) (booked_interval db storeId b)"
    using search_exact [OF assms(1), of ?inp n] n clocks assms(6-9) by (auto simp: excluded_def)
  have "conflict = None" using assms(5) c(1) by (simp add: assertNoShiftTimeConflict_def lift_date_def split: option.splits)
  moreover have "booked_interval db storeId x = None \<or> booked_interval db storeId x = Some (day_interval s e n)"
    using assms(2-4,10) shift_interval_cases [OF assms(1), of x slot n] n(2,4) by (auto simp: booked_interval_def)
  ultimately show ?thesis using c(2) by auto
qed

lemma never_twiceI:
  assumes "\<And>a b st. a \<in> set (dbAssignments db) \<Longrightarrow> b \<in> set (dbAssignments db) \<Longrightarrow> asId a \<noteq> asId b \<Longrightarrow> asSlot a \<noteq> asSlot b \<Longrightarrow>
    asEmployee a = asEmployee b \<Longrightarrow> \<not> intervals_clash (booked_interval db st a) (booked_interval db st b)"
  shows "never_twice db"
  using assms unfolding never_twice_def by blast

lemma never_twiceD:
  "never_twice db \<Longrightarrow> a \<in> set (dbAssignments db) \<Longrightarrow> b \<in> set (dbAssignments db) \<Longrightarrow> asId a \<noteq> asId b \<Longrightarrow> asSlot a \<noteq> asSlot b \<Longrightarrow>
    asEmployee a = asEmployee b \<Longrightarrow> \<not> intervals_clash (booked_interval db st a) (booked_interval db st b)"
  unfolding never_twice_def by blast

lemma not_in_cycle: "slot_of db (asSlot a) = Some slot \<Longrightarrow> \<not> in_live_cycle db storeId slot \<Longrightarrow> booked_interval db storeId a = None"
  by (simp add: booked_interval_def)

lemma no_times: "catalog_ok db \<Longrightarrow> slot_of db (asSlot a) = Some slot \<Longrightarrow> start_of db slot = None \<or> end_of db slot = None \<Longrightarrow>
    booked_interval db storeId a = None"
  by (auto simp: booked_interval_def shift_interval_of_def split: option.splits)

lemma register_tx_Inr:
  assumes "register_tx db storeId slotId employeeId note isOwnerAssign account now newId = Inr (db', a)"
  obtains slot where "slot_of db slotId = Some slot" "check_slot db slot isOwnerAssign now = Inr ()"
    "check_existing db slotId employeeId = Inr ()" "check_times db storeId slot employeeId = Inr ()"
    "db' = db\<lparr>dbAssignments := dbAssignments db @ [a]\<rparr>" "asId a = newId" "asSlot a = slotId" "asEmployee a = employeeId" "asStatus a \<noteq> CANCELLED"
  using assms by (auto simp: register_tx_def and_then_Inr_iff Let_def split: option.splits)

lemma register_keeps:
  assumes "register_tx db storeId slotId employeeId note isOwnerAssign account now newId = Inr (db', a)"
    and "catalog_ok db" "\<forall>slot cycle. slot_of db slotId = Some slot \<longrightarrow> cycle_of db slot = Some cycle \<longrightarrow> cyStore cycle = storeId"
    and "newId \<notin> asId ` set (dbAssignments db)" "storeId \<noteq> []"
  shows "same_catalog db db'" "distinct_ids db \<Longrightarrow> distinct_ids db'" "never_twice db \<Longrightarrow> never_twice db'" "never_overfull db \<Longrightarrow> never_overfull db'"
proof -
  obtain slot where r: "slot_of db slotId = Some slot" "check_slot db slot isOwnerAssign now = Inr ()"
      "check_times db storeId slot employeeId = Inr ()" "db' = db\<lparr>dbAssignments := dbAssignments db @ [a]\<rparr>"
      "asId a = newId" "asSlot a = slotId" "asEmployee a = employeeId" "asStatus a \<noteq> CANCELLED"
    using register_tx_Inr [OF assms(1)] by metis
  show cat: "same_catalog db db'" by (simp add: r(4) same_catalog_def)
  show "distinct_ids db \<Longrightarrow> distinct_ids db'" using assms(4) r(4,5) by (auto simp: distinct_ids_def)
  have new: "\<not> intervals_clash (booked_interval db st a) (booked_interval db st b)"
    if b: "b \<in> set (dbAssignments db)" "asEmployee b = employeeId" "asSlot b \<noteq> slotId" for b st
  proof (cases "in_live_cycle db st slot \<and> start_of db slot \<noteq> None \<and> end_of db slot \<noteq> None")
    case True
    then obtain s e where se: "start_of db slot = Some s" "end_of db slot = Some e" by auto
    have "st = storeId" using True assms(3) r(1) by (auto simp: in_live_cycle_def split: option.splits)
    moreover have "slDate slot \<noteq> []" using catalog_slot [OF assms(2) r(1)] by metis
    ultimately show ?thesis
      using no_conflict_no_clash [OF assms(2) r(1) se, of storeId employeeId "[]" "[slId slot]" b a] r(3,6) b se assms(5) slot_of_member [OF r(1)]
      by (auto simp: check_times_def)
  next
    case False
    then have "booked_interval db st a = None" using r(1,6) not_in_cycle [of db a slot] no_times [OF assms(2), of a slot] by auto
    then show ?thesis by simp
  qed
  have new_back: "\<not> intervals_clash (booked_interval db st b) (booked_interval db st a)"
    if "b \<in> set (dbAssignments db)" "asEmployee b = employeeId" "asSlot b \<noteq> slotId" for b st
    using new [OF that] clash_sym by metis
  show "never_twice db'" if twice: "never_twice db"
  proof (rule never_twiceI)
    fix x y st assume xy: "x \<in> set (dbAssignments db')" "y \<in> set (dbAssignments db')" "asId x \<noteq> asId y" "asSlot x \<noteq> asSlot y"
      "asEmployee x = asEmployee y"
    then consider "x = a" "y \<in> set (dbAssignments db)" | "y = a" "x \<in> set (dbAssignments db)"
      | "x \<in> set (dbAssignments db)" "y \<in> set (dbAssignments db)" using r(4) by auto
    then show "\<not> intervals_clash (booked_interval db' st x) (booked_interval db' st y)"
      unfolding catalog_reads(8) [OF cat]
    proof cases
      case 1
      then show "\<not> intervals_clash (booked_interval db st x) (booked_interval db st y)" using new [of y] xy r(6,7) by simp
    next
      case 2
      then show "\<not> intervals_clash (booked_interval db st x) (booked_interval db st y)" using new_back [of x] xy r(6,7) by simp
    next
      case 3
      then show "\<not> intervals_clash (booked_interval db st x) (booked_interval db st y)" using never_twiceD [OF twice] xy(3-5) by blast
    qed
  qed
  have "active_count db' i = active_count db i + (if i = slotId then 1 else 0)" for i
    using r(4,6,8) by (simp add: active_count_def)
  moreover have "max_required db slot > 0 \<Longrightarrow> int (active_count db slotId) < max_required db slot"
    using r(2) slot_of_member [OF r(1)] by (auto simp: check_slot_def and_then_Inr_iff Let_def)
  ultimately show "never_overfull db \<Longrightarrow> never_overfull db'"
    unfolding never_overfull_def catalog_reads(1,5) [OF cat] using r(1) by auto
qed

lemma distinct_ids_eq:
  "distinct_ids db \<Longrightarrow> a \<in> set (dbAssignments db) \<Longrightarrow> b \<in> set (dbAssignments db) \<Longrightarrow> asId a = asId b \<Longrightarrow> a = b"
  by (meson distinct_ids_def distinct_map inj_onD)

lemma update_keeps:
  assumes "update_tx db storeId assignmentId status note account = Inr db'" "distinct_ids db"
  shows "same_catalog db db'" "list_all2 tended (dbAssignments db) (dbAssignments db')"
proof -
  obtain current where c: "assignment_of db assignmentId = Some current" "status \<in> set (allowedTransitions (asStatus current))"
    and db': "db' = set_assignment db (\<lambda>a. asId a = assignmentId)
      (\<lambda>a. a\<lparr>asStatus := status, asNote := (case note of Some n \<Rightarrow> Some n | None \<Rightarrow> asNote a)\<rparr>)"
    using assms(1) by (auto simp: update_tx_def and_then_Inr_iff split: option.splits)
  show "same_catalog db db'" by (simp add: db' set_assignment_def same_catalog_def)
  have alive: "asStatus a \<noteq> CANCELLED" if "a \<in> set (dbAssignments db)" "asId a = assignmentId" for a
  proof -
    have "current \<in> set (dbAssignments db)" "asId current = assignmentId"
      using find_Some_in [OF c(1) [unfolded assignment_of_def]] by simp_all
    then have "a = current" using distinct_ids_eq [OF assms(2)] that by metis
    then show ?thesis using c(2) by auto
  qed
  then show "list_all2 tended (dbAssignments db) (dbAssignments db')"
    unfolding db' set_assignment_def by (auto simp: tended_def list.rel_map intro!: list.rel_refl_strong)
qed

definition kept_rows :: "store_db \<Rightarrow> store_db \<Rightarrow> bool" where
  "kept_rows db db' \<longleftrightarrow> (\<forall>a \<in> set (dbAssignments db). \<exists>a' \<in> set (dbAssignments db'). asId a' = asId a \<and> asSlot a' = asSlot a)"

lemma hand_over_simps [simp]:
  "asId (hand_over t a) = asId a" "asSlot (hand_over t a) = asSlot a" "asStatus (hand_over t a) = asStatus a" "asEmployee (hand_over t a) = t"
  by (simp_all add: hand_over_def)

lemma booked_interval_hand_over [simp]: "booked_interval db st (hand_over t a) = booked_interval db st a"
  unfolding booked_interval_def shift_interval_of_def hand_over_simps by (rule refl)

text \<open>Handing a shift over, checked against a reading of it in an earlier state.\<close>

lemma approve_keeps:
  assumes "approve_swap db swap source target = Inr db'" "catalog_ok db" "distinct_ids db"
    and "load_assignment db1 i = Some source" "same_catalog db1 db" "kept_rows db1 db"
  shows "same_catalog db db'" "distinct_ids db'" "kept_rows db db'" "never_twice db \<Longrightarrow> never_twice db'" "never_overfull db \<Longrightarrow> never_overfull db'"
proof -
  let ?s = "ldAssignment source" and ?hit = "\<lambda>a. asId a = asId (ldAssignment source) \<and> asEmployee a = asEmployee (ldAssignment source)"
  have free: "assertSwapTargetFree db source (swTo swap) = Inr ()" and db': "db' = set_assignment db ?hit (hand_over (swTo swap))"
    using assms(1) by (auto simp: approve_swap_def and_then_Inr_iff Let_def)
  show cat: "same_catalog db db'" by (simp add: db' set_assignment_def same_catalog_def)
  have ids: "map asId (dbAssignments db') = map asId (dbAssignments db)"
    by (simp add: db' set_assignment_def)
  then show "distinct_ids db'" using assms(3) by (simp add: distinct_ids_def)
  have rows: "dbAssignments db' = map (\<lambda>a. if ?hit a then hand_over (swTo swap) a else a) (dbAssignments db)"
    by (simp add: db' set_assignment_def)
  show "kept_rows db db'" unfolding kept_rows_def
  proof
    fix a assume "a \<in> set (dbAssignments db)"
    then have "(if ?hit a then hand_over (swTo swap) a else a) \<in> set (dbAssignments db')" unfolding rows set_map by (rule imageI)
    moreover have "asId (if ?hit a then hand_over (swTo swap) a else a) = asId a" "asSlot (if ?hit a then hand_over (swTo swap) a else a) = asSlot a"
      by simp_all
    ultimately show "\<exists>a' \<in> set (dbAssignments db'). asId a' = asId a \<and> asSlot a' = asSlot a" by blast
  qed
  have "active_count db' j = active_count db j" for j
    by (simp add: active_count_def rows filter_map o_def if_distrib cong: if_cong)
  then show "never_overfull db \<Longrightarrow> never_overfull db'" unfolding never_overfull_def catalog_reads(1,5) [OF cat] by simp
  have src: "assignment_of db1 i = Some ?s" "ldSlot source = slot_of db (asSlot ?s)" "ldStart source = opt_field (start_of db) (ldSlot source)"
      "ldEnd source = opt_field (end_of db) (ldSlot source)" "ldStore source = nonempty (map_option cyStore (opt_field (cycle_of db) (ldSlot source)))"
    using assms(4) unfolding load_assignment_def Let_def catalog_reads(1-4) [OF assms(5)] by (auto split: option.splits)
  have moved: "\<not> intervals_clash (booked_interval db st a) (booked_interval db st b)"
    if ab: "a \<in> set (dbAssignments db)" "asId a = asId ?s" "b \<in> set (dbAssignments db)" "asId b \<noteq> asId a" "asEmployee b = swTo swap" for a b st
  proof -
    obtain a' where a': "a' \<in> set (dbAssignments db)" "asId a' = asId ?s" "asSlot a' = asSlot ?s"
      using assms(6) src(1) find_Some_in unfolding kept_rows_def assignment_of_def by metis
    then have slot: "asSlot a = asSlot ?s" using ab(1,2) distinct_ids_eq [OF assms(3)] by metis
    show ?thesis
    proof (cases "slot_of db (asSlot a)")
      case None
      then show ?thesis by (simp add: booked_interval_def)
    next
      case (Some sl)
      have dated: "slDate sl \<noteq> []" using catalog_slot [OF assms(2) Some] by metis
      show ?thesis
      proof (cases "in_live_cycle db st sl \<and> start_of db sl \<noteq> None \<and> end_of db sl \<noteq> None")
        case True
        then obtain s e where se: "start_of db sl = Some s" "end_of db sl = Some e" by auto
        obtain cycle where cycle: "cycle_of db sl = Some cycle" "cyStore cycle = st" using True by (auto simp: in_live_cycle_def split: option.splits)
        have "cycle \<in> set (dbCycles db)" using cycle(1) by (rule cycle_of_member)
        then have "st \<noteq> []" using assms(2) cycle(2) by (auto simp: catalog_ok_def)
        then have "ldStore source = Some st" using src(2,5) Some slot cycle by (simp add: opt_field_def nonempty_def)
        then have "assertNoShiftTimeConflict db \<lparr> ciStore = st, ciEmployee = swTo swap, ciDate = take 10 (slDate sl), ciStart = s, ciEnd = e,
            ciNotAssignments = [asId ?s], ciNotSlots = [] \<rparr> = Inr ()"
          using free unfolding assertSwapTargetFree_def src(2-4) slot [symmetric] Some
          by (simp add: opt_field_def se dated src(2) Some)
        then show ?thesis using no_conflict_no_clash [OF assms(2) Some se _ ab(3,5)] ab(2,4) by simp
      next
        case False
        then have "booked_interval db st a = None" using not_in_cycle [OF Some] no_times [OF assms(2) Some] by auto
        then show ?thesis by simp
      qed
    qed
  qed
  show "never_twice db'" if twice: "never_twice db"
  proof (rule never_twiceI)
    fix x y st assume xy: "x \<in> set (dbAssignments db')" "y \<in> set (dbAssignments db')" "asId x \<noteq> asId y" "asSlot x \<noteq> asSlot y"
      "asEmployee x = asEmployee y"
    let ?f = "\<lambda>a. if ?hit a then hand_over (swTo swap) a else a"
    obtain a b where ab: "a \<in> set (dbAssignments db)" "b \<in> set (dbAssignments db)" "x = ?f a" "y = ?f b" using xy(1,2) unfolding rows by auto
    have same: "asId x = asId a" "asSlot x = asSlot a" "asId y = asId b" "asSlot y = asSlot b" using ab(3,4) by simp_all
    have "\<not> (?hit a \<and> ?hit b)" using xy(3) same by metis
    then consider "?hit a" "\<not> ?hit b" | "?hit b" "\<not> ?hit a" | "\<not> ?hit a" "\<not> ?hit b" by blast
    then show "\<not> intervals_clash (booked_interval db' st x) (booked_interval db' st y)"
      unfolding catalog_reads(8) [OF cat]
    proof cases
      case 1
      then show "\<not> intervals_clash (booked_interval db st x) (booked_interval db st y)" using moved [of a b st] ab xy(3,5) same by simp
    next
      case 2
      then show "\<not> intervals_clash (booked_interval db st x) (booked_interval db st y)"
        using moved [of b a st] ab xy(3,5) same clash_sym [of "booked_interval db st b"] by simp
    next
      case 3
      then have "x = a" "y = b" using ab(3,4) by auto
      then show "\<not> intervals_clash (booked_interval db st x) (booked_interval db st y)"
        using never_twiceD [OF twice ab(1,2)] xy(3-5) by simp
    qed
  qed
qed

section \<open>No history books twice or overfills\<close>

text \<open>What an operation may take as given of the state it starts from.\<close>

definition books_ok :: "store_db \<Rightarrow> bool" where
  "books_ok db \<longleftrightarrow> distinct_ids db \<and> never_twice db \<and> never_overfull db"

lemma kept_rows_trans: "kept_rows a b \<Longrightarrow> kept_rows b c \<Longrightarrow> kept_rows a c"
  unfolding kept_rows_def by metis

lemma same_catalog_trans: "same_catalog a b \<Longrightarrow> same_catalog b c \<Longrightarrow> same_catalog a c"
  by (simp add: same_catalog_def)

lemma tended_kept_rows: "list_all2 tended (dbAssignments db) (dbAssignments db') \<Longrightarrow> kept_rows db db'"
  unfolding kept_rows_def
proof
  fix a assume l: "list_all2 tended (dbAssignments db) (dbAssignments db')" and "a \<in> set (dbAssignments db)"
  then obtain i where "i < length (dbAssignments db)" "a = dbAssignments db ! i" by (metis in_set_conv_nth)
  then have "tended a (dbAssignments db' ! i)" "dbAssignments db' ! i \<in> set (dbAssignments db')"
    using l by (auto simp: list_all2_conv_all_nth)
  then show "\<exists>a' \<in> set (dbAssignments db'). asId a' = asId a \<and> asSlot a' = asSlot a" by (auto simp: tended_def)
qed

lemma register_context_store:
  assumes "register_context db slotId employeeId isOwnerAssign account now = Inr storeId" "slot_of db slotId = Some slot" "cycle_of db slot = Some cycle"
  shows "cyStore cycle = storeId"
  using assms by (auto simp: register_context_def nonempty_def and_then_Inr_iff split: option.splits if_splits)

lemma register_context_nonempty:
  "register_context db slotId employeeId isOwnerAssign account now = Inr storeId \<Longrightarrow> storeId \<noteq> []"
  by (auto simp: register_context_def nonempty_def and_then_Inr_iff split: option.splits if_splits)

lemma decide_context_source:
  "decide_swap_context db swapId status account = Inr (swap, Some source) \<Longrightarrow> load_assignment db (swFrom swap) = Some source"
  by (auto simp: decide_swap_context_def and_then_Inr_iff Let_def split: option.splits)

definition leads :: "store_db \<Rightarrow> store_db \<Rightarrow> bool" where
  "leads db db' \<longleftrightarrow> books_ok db' \<and> same_catalog db db' \<and> kept_rows db db'"

lemma leads_trans: "leads a b \<Longrightarrow> leads b c \<Longrightarrow> leads a c"
  unfolding leads_def using same_catalog_trans kept_rows_trans by blast

lemma leads_ok: "leads db db' \<Longrightarrow> books_ok db'"
  by (simp add: leads_def)

lemma leads_catalog: "leads db db' \<Longrightarrow> catalog_ok db \<Longrightarrow> catalog_ok db'"
  unfolding leads_def using catalog_reads(9) by blast

lemma leads_tended:
  "books_ok db \<Longrightarrow> same_catalog db db' \<Longrightarrow> list_all2 tended (dbAssignments db) (dbAssignments db') \<Longrightarrow> leads db db'"
  unfolding leads_def books_ok_def using tended_keeps tended_kept_rows by blast

lemma leads_untouched: "books_ok db \<Longrightarrow> same_catalog db db' \<Longrightarrow> dbAssignments db' = dbAssignments db \<Longrightarrow> leads db db'"
  by (rule leads_tended) (auto simp: tended_def intro: list.rel_refl_strong)

lemma register_leads:
  assumes "register_context db1 slotId employeeId isOwnerAssign account now1 = Inr storeId" "newId \<notin> asId ` set (dbAssignments db2)"
    and "register_tx db2 storeId slotId employeeId nt isOwnerAssign acc now2 newId = Inr (db3, a)"
    and "catalog_ok db2" "leads db1 db2"
  shows "leads db2 db3"
proof -
  have store: "\<forall>slot cycle. slot_of db2 slotId = Some slot \<longrightarrow> cycle_of db2 slot = Some cycle \<longrightarrow> cyStore cycle = storeId"
    using register_context_store [OF assms(1)] catalog_reads(1,2) [of db1 db2] assms(5) by (simp add: leads_def)
  note keeps = register_keeps [OF assms(3,4) store assms(2) register_context_nonempty [OF assms(1)]]
  obtain slot where "db3 = db2\<lparr>dbAssignments := dbAssignments db2 @ [a]\<rparr>" using register_tx_Inr [OF assms(3)] by metis
  then have "kept_rows db2 db3" by (auto simp: kept_rows_def)
  then show ?thesis using keeps assms(5) unfolding leads_def books_ok_def by blast
qed

lemma decide_leads:
  assumes "decide_swap_context db1 swapId status1 account1 = Inr (swap, Some source)" "decide_swap_tx db2 swap source status nt account = Inr db3"
    and "catalog_ok db2" "leads db1 db2"
  shows "leads db2 db3"
proof -
  obtain target db4 where t: "(if status = SWAP_APPROVED then approve_swap db2 swap source target else Inr db2) = Inr db4"
      and db3: "dbAssignments db3 = dbAssignments db4" "same_catalog db4 db3"
    using assms(2) by (auto simp: decide_swap_tx_def and_then_Inr_iff Let_def same_catalog_def)
  have ok2: "books_ok db2" "same_catalog db1 db2" "kept_rows db1 db2" using assms(4) by (auto simp: leads_def)
  have "leads db2 db4"
  proof (cases "status = SWAP_APPROVED")
    case True
    then have "approve_swap db2 swap source target = Inr db4" using t by simp
    note keeps = approve_keeps [OF this assms(3) _ decide_context_source [OF assms(1)] ok2(2,3)]
    show ?thesis using keeps ok2(1) unfolding leads_def books_ok_def by blast
  next
    case False
    then have "db4 = db2" using t by simp
    then show ?thesis using leads_untouched [OF ok2(1)] by (simp add: same_catalog_def)
  qed
  moreover from this have "leads db4 db3" using leads_untouched leads_ok db3 by blast
  ultimately show ?thesis by (rule leads_trans)
qed

lemma later_leads: "later db db' \<Longrightarrow> catalog_ok db \<Longrightarrow> books_ok db \<Longrightarrow> leads db db'"
proof (induction rule: later.induct)
  case (start db)
  then show ?case by (simp add: leads_untouched same_catalog_def)
next
  case (registered db db1 db2 slotId employeeId isOwnerAssign account now1 storeId newId nt now2 db3 a)
  then have l1: "leads db db1" by blast
  then have "leads db1 db2" using registered.IH(2) leads_catalog [OF l1 registered.prems(1)] leads_ok [OF l1] by blast
  then have "leads db2 db3" using register_leads [OF registered.hyps(3-5)] l1 leads_catalog registered.prems(1) by blast
  then show ?case using l1 \<open>leads db1 db2\<close> leads_trans by blast
next
  case (updated db db2 storeId assignmentId status nt account db3)
  then have l2: "leads db db2" by blast
  then have ok: "books_ok db2" "distinct_ids db2" by (simp_all add: leads_def books_ok_def)
  from leads_tended [OF ok(1) update_keeps [OF updated.hyps(2) ok(2)]] l2 show ?case by (metis leads_trans)
next
  case (requested db db2 newId source toEmployee requestedBy nt now db3 w)
  then have l2: "leads db db2" by blast
  have "dbAssignments db3 = dbAssignments db2" "same_catalog db2 db3"
    using requested.hyps(3) by (auto simp: create_swap_tx_def and_then_Inr_iff Let_def same_catalog_def)
  then have "leads db2 db3" using leads_untouched leads_ok [OF l2] by blast
  with l2 show ?case by (rule leads_trans)
next
  case (decided db db1 db2 swapId status account swap source nt db3)
  then have l1: "leads db db1" by blast
  then have "leads db1 db2" using decided.IH(2) leads_catalog [OF l1 decided.prems(1)] leads_ok [OF l1] by blast
  then have "leads db2 db3" using decide_leads [OF decided.hyps(3,4)] l1 leads_catalog decided.prems(1) by blast
  then show ?case using l1 \<open>leads db1 db2\<close> leads_trans by blast
next
  case (elsewhere db db2 db3)
  then have l2: "leads db db2" by blast
  then have "leads db2 db3" using leads_tended leads_ok elsewhere.hyps(2,3) by blast
  with l2 show ?case by (rule leads_trans)
qed

text \<open>C3. Nobody is booked for two shifts at one time: whatever order registrations, decisions of the owner, swap requests and swaps
  decided by \<open>updateShiftSwapStatus\<close> come in, with what they read before their transactions read in any earlier state, two live
  bookings of an employee in two different slots of active or expired cycles never take the same time, while slots, cycles and work
  shifts are not edited. Three things are outside: a swap approved in the list of requests, which does not ask whether the
  receiver is free (C33); two live bookings of one employee in one slot, which an owner can make after a cancelled row
  (\<open>cancelled_row_hides_the_booking\<close>); and edits of a slot's hours, which are checked on their own (\<open>changed_hours_meet_nothing\<close>).\<close>

theorem nobody_is_booked_twice:
  assumes "later db db'" "catalog_ok db" "distinct_ids db" "never_twice db" "never_overfull db"
  shows "never_twice db'"
  using later_leads [OF assms(1,2)] assms(3-5) by (simp add: leads_def books_ok_def)

section \<open>Places\<close>

text \<open>How the number of live bookings of a slot moves with each transaction, whatever the state it starts from.\<close>

lemma tended_count:
  assumes "list_all2 tended (dbAssignments db) (dbAssignments db')"
  shows "active_count db' i \<le> active_count db i"
proof -
  have "length (filter (\<lambda>a. asSlot a = i \<and> asStatus a \<noteq> CANCELLED) ys) \<le> length (filter (\<lambda>a. asSlot a = i \<and> asStatus a \<noteq> CANCELLED) xs)"
    if "list_all2 tended xs ys" for xs ys
    using that by (induction rule: list_all2_induct) (auto simp: tended_def)
  then show ?thesis using assms by (simp add: active_count_def)
qed

lemma register_count:
  assumes "register_tx db storeId slotId employeeId nt isOwnerAssign account now newId = Inr (db', a)"
    and "active_count db i < active_count db' i" "slot_of db' i = Some slot" "0 < max_required db' slot"
  shows "int (active_count db' i) \<le> max_required db' slot"
proof -
  obtain row where r: "slot_of db slotId = Some row" "check_slot db row isOwnerAssign now = Inr ()"
      "db' = db\<lparr>dbAssignments := dbAssignments db @ [a]\<rparr>" "asSlot a = slotId"
    using register_tx_Inr [OF assms(1)] by metis
  have cat: "same_catalog db db'" by (simp add: r(3) same_catalog_def)
  have count: "active_count db' j \<le> active_count db j + (if j = slotId then 1 else 0)" for j
    using r(3,4) by (simp add: active_count_def)
  then have "i = slotId" using assms(2) by (metis add_0_right leD)
  then have "row = slot" using r(1) assms(3) catalog_reads(1) [OF cat] by simp
  then have "max_required db slot > 0 \<Longrightarrow> int (active_count db slotId) < max_required db slot"
    using r(2) slot_of_member [OF r(1)] by (auto simp: check_slot_def and_then_Inr_iff Let_def)
  then show ?thesis using count [of slotId] assms(4) \<open>i = slotId\<close> catalog_reads(5) [OF cat] by simp
qed

lemma swap_count:
  assumes "decide_swap_tx db swap source status nt account = Inr db'"
  shows "active_count db' i = active_count db i"
proof -
  obtain target db1 where "(if status = SWAP_APPROVED then approve_swap db swap source target else Inr db) = Inr db1"
      "dbAssignments db' = dbAssignments db1"
    using assms by (auto simp: decide_swap_tx_def and_then_Inr_iff Let_def)
  then show ?thesis
    by (auto simp: active_count_def approve_swap_def and_then_Inr_iff Let_def set_assignment_def filter_map o_def if_distrib
        split: if_splits cong: if_cong)
qed

text \<open>Changing a slot looks at the hours of those booked for it, not at their number: its places may drop below it.\<close>

lemma update_slot_Inr:
  assumes "update_slot_tx db storeId slotId edit account = Inr db'"
  obtains slot where "slot_of db slotId = Some slot" "check_hours db storeId slot edit = Inr ()"
    "db' = db\<lparr>dbSlots := map (\<lambda>s. if slId s = slotId then edit_slot edit s else s) (dbSlots db)\<rparr>"
  using assms by (auto simp: update_slot_tx_def and_then_Inr_iff split: option.splits)

lemma edited_slot_found: "slot_of db i = Some slot \<Longrightarrow>
    slot_of (db\<lparr>dbSlots := map (\<lambda>s. if slId s = j then edit_slot edit s else s) (dbSlots db)\<rparr>) i = Some (if i = j then edit_slot edit slot else slot)"
proof -
  have "slId (if slId s = j then edit_slot edit s else s) = slId s" for s by (simp add: edit_slot_def)
  then have "find (\<lambda>r. slId r = i) (map (\<lambda>s. if slId s = j then edit_slot edit s else s) xs) =
      map_option (\<lambda>s. if slId s = j then edit_slot edit s else s) (find (\<lambda>r. slId r = i) xs)" for xs
    by (induction xs) auto
  moreover assume "slot_of db i = Some slot"
  ultimately show ?thesis using slot_of_member [of db i slot] by (auto simp: slot_of_def)
qed

lemma places_may_drop_below_the_bookings:
  assumes "map_of (dbOwners db) storeId = Some account" "slot_of db slotId = Some slot" "0 < m" "m < int (active_count db slotId)"
    and "take 5 (the (start_of db slot)) \<noteq> take 5 (the (end_of db slot))" "slStart slot \<noteq> Some []" "slEnd slot \<noteq> Some []"
  shows "\<exists>db' slot'. update_slot_tx db storeId slotId \<lparr> seStart = None, seEnd = None, seMaxStaff = Some m \<rparr> account = Inr db' \<and>
    slot_of db' slotId = Some slot' \<and> 0 < max_required db' slot' \<and> max_required db' slot' < int (active_count db' slotId)"
proof -
  let ?edit = "\<lparr> seStart = None, seEnd = None, seMaxStaff = Some m \<rparr>"
  let ?db = "db\<lparr>dbSlots := map (\<lambda>s. if slId s = slotId then edit_slot ?edit s else s) (dbSlots db)\<rparr>"
  have "nonempty None = (None :: string option)" by (simp add: nonempty_def)
  then have "check_hours db storeId slot ?edit = Inr ()"
    using assms(5-7)
    by (auto simp: check_hours_def next_hours_def Let_def start_of_def end_of_def clock_or_def opt_field_def nonempty_def
        split: option.splits if_splits)
  then have "update_slot_tx db storeId slotId ?edit account = Inr ?db" using assms(1,2) by (simp add: update_slot_tx_def)
  moreover have "slot_of ?db slotId = Some (edit_slot ?edit slot)" using edited_slot_found [OF assms(2), of slotId] by simp
  moreover have "max_required ?db (edit_slot ?edit slot) = m" by (simp add: max_required_def edit_slot_def)
  moreover have "active_count ?db slotId = active_count db slotId" by (simp add: active_count_def)
  ultimately show ?thesis using assms(3,4)
    by (intro exI [of _ ?db] exI [of _ "edit_slot ?edit slot"]) simp
qed

text \<open>New hours of a slot are not given to anyone booked elsewhere at that time.\<close>

lemma check_seated_each: "check_seated db storeId slot s e as = Inr () \<Longrightarrow> a \<in> set as \<Longrightarrow>
    assertNoShiftTimeConflict db \<lparr> ciStore = storeId, ciEmployee = asEmployee a, ciDate = take 10 (slDate slot), ciStart = s, ciEnd = e,
      ciNotAssignments = [], ciNotSlots = [slId slot] \<rparr> = Inr ()"
  by (induction "as") (auto simp: and_then_Inr_iff)

lemma changed_hours_meet_nothing:
  assumes "update_slot_tx db storeId slotId edit account = Inr db'" "catalog_ok db" "slot_of db slotId = Some slot"
    and "slDate slot = day_string n" "full_day (n - 1)" "full_day n" "full_day (n + 1)"
    and "next_hours db slot edit = (Some s, Some e)" "seStart edit \<noteq> None \<or> seEnd edit \<noteq> None" "clock_ok s" "clock_ok e"
    and "a \<in> set (dbAssignments db)" "asSlot a = slotId" "asStatus a \<noteq> CANCELLED"
    and "b \<in> set (dbAssignments db)" "asEmployee b = asEmployee a" "asSlot b \<noteq> slotId"
  shows "\<not> intervals_clash (Some (day_interval s e n)) (booked_interval db storeId b)"
proof -
  let ?inp = "\<lparr> ciStore = storeId, ciEmployee = asEmployee a, ciDate = take 10 (slDate slot), ciStart = s, ciEnd = e,
    ciNotAssignments = [], ciNotSlots = [slId slot] \<rparr>"
  have day: "take 10 (slDate slot) = day_string n" "slDate slot \<noteq> []" using assms(4) length_day_string [OF assms(6)] by auto
  have sid: "slId slot = slotId" using slot_of_member [OF assms(3)] by simp
  have "check_hours db storeId slot edit = Inr ()" using update_slot_Inr [OF assms(1)] assms(3) by (metis option.inject)
  then have "check_seated db storeId slot s e (filter (\<lambda>a. asSlot a = slId slot \<and> asStatus a \<noteq> CANCELLED) (dbAssignments db)) = Inr ()"
    using assms(8,9) day(2) by (auto simp: check_hours_def and_then_Inr_iff)
  from check_seated_each [OF this, of a] have free: "assertNoShiftTimeConflict db ?inp = Inr ()" using assms(12-14) sid by simp
  obtain conflict where c: "findShiftTimeConflict db ?inp = Inr conflict"
      "conflict = None \<Longrightarrow> \<not> intervals_clash (Some (day_interval s e n)) (booked_interval db storeId b)"
    using search_exact [OF assms(2), of ?inp n] day assms(5-7,10,11,15-17) sid by (auto simp: excluded_def)
  then show ?thesis using free by (simp add: assertNoShiftTimeConflict_def lift_date_def split: option.splits)
qed

section \<open>A swap is decided once\<close>

lemma kept_decided: "dbSwaps db' = dbSwaps db \<Longrightarrow> decided_swap db' i = decided_swap db i"
  by (simp add: decided_swap_def)

lemma approve_swaps: "approve_swap db swap source target = Inr db' \<Longrightarrow> dbSwaps db' = dbSwaps db"
  by (auto simp: approve_swap_def and_then_Inr_iff Let_def set_assignment_def)

lemma decide_swaps:
  assumes "decide_swap_tx db swap source status nt account = Inr db'"
  shows "\<exists>w \<in> set (dbSwaps db). swId w = swId swap \<and> swStatus w = SWAP_PENDING" "map swId (dbSwaps db') = map swId (dbSwaps db)"
    "\<And>w. w \<in> set (dbSwaps db') \<Longrightarrow> w \<in> set (dbSwaps db) \<and> \<not> (swId w = swId swap \<and> swStatus w = SWAP_PENDING) \<or> swId w = swId swap \<and> swStatus w = status"
proof -
  obtain target db1 where db1: "(if status = SWAP_APPROVED then approve_swap db swap source target else Inr db) = Inr db1"
      and hit: "filter (\<lambda>w. swId w = swId swap \<and> swStatus w = SWAP_PENDING) (dbSwaps db1) \<noteq> []"
      and db': "db' = db1\<lparr>dbSwaps := map (\<lambda>w. if swId w = swId swap \<and> swStatus w = SWAP_PENDING
        then w\<lparr>swStatus := status, swNote := opt_or nt (swNote w)\<rparr> else w) (dbSwaps db1)\<rparr>"
    using assms by (auto simp: decide_swap_tx_def and_then_Inr_iff Let_def)
  have same: "dbSwaps db1 = dbSwaps db" using db1 approve_swaps by (auto split: if_splits)
  show "\<exists>w \<in> set (dbSwaps db). swId w = swId swap \<and> swStatus w = SWAP_PENDING" using hit same by (auto simp: filter_empty_conv)
  show "map swId (dbSwaps db') = map swId (dbSwaps db)" using db' same by simp
  show "w \<in> set (dbSwaps db) \<and> \<not> (swId w = swId swap \<and> swStatus w = SWAP_PENDING) \<or> swId w = swId swap \<and> swStatus w = status"
    if "w \<in> set (dbSwaps db')" for w
    using that db' same by (auto split: if_splits)
qed

lemma later_decided: "later db db' \<Longrightarrow> decided_swap db i \<Longrightarrow> decided_swap db' i"
proof (induction rule: later.induct)
  case (registered db db1 db2 slotId employeeId isOwnerAssign account now1 storeId newId nt now2 db3 a)
  obtain slot where "db3 = db2\<lparr>dbAssignments := dbAssignments db2 @ [a]\<rparr>" using register_tx_Inr [OF registered.hyps(5)] by metis
  then have "dbSwaps db3 = dbSwaps db2" by simp
  moreover have "decided_swap db2 i" using registered.IH registered.prems by blast
  ultimately show ?case using kept_decided by blast
next
  case (updated db db2 storeId assignmentId status nt account db3)
  have "dbSwaps db3 = dbSwaps db2"
    using updated.hyps(2) by (auto simp: update_tx_def and_then_Inr_iff set_assignment_def split: option.splits)
  moreover have "decided_swap db2 i" using updated.IH updated.prems by blast
  ultimately show ?case using kept_decided by blast
next
  case (requested db db2 newId source toEmployee requestedBy nt now db3 w)
  have "dbSwaps db3 = dbSwaps db2 @ [w]" "swId w = newId"
    using requested.hyps(3) by (auto simp: create_swap_tx_def and_then_Inr_iff Let_def)
  moreover have "decided_swap db2 i" using requested.IH requested.prems by blast
  ultimately show ?case using requested.hyps(2) by (auto simp: decided_swap_def)
next
  case (decided db db1 db2 swapId status account swap source nt db3)
  then have d2: "decided_swap db2 i" by blast
  note swaps = decide_swaps [OF decided.hyps(4)]
  have "i \<noteq> swId swap" using d2 swaps(1) by (auto simp: decided_swap_def)
  then have "swStatus w \<noteq> SWAP_PENDING" if "w \<in> set (dbSwaps db3)" "swId w = i" for w
    using swaps(3) [OF that(1)] that(2) d2 unfolding decided_swap_def by blast
  then show ?case using d2 unfolding decided_swap_def swaps(2) by blast
next
  case (elsewhere db db2 db3)
  then have d2: "decided_swap db2 i" by blast
  then have "i \<in> set (map swId (dbSwaps db2))" by (simp only: decided_swap_def)
  then show ?case using d2 elsewhere.hyps(4) unfolding swaps_kept_def by blast
qed

text \<open>A swap is decided at most once: after a transaction that approved or rejected it, no later one succeeds for the same swap,
  so that the shift is handed over once, whoever decides and whatever they had read before.\<close>

theorem swap_is_decided_once:
  assumes "decide_swap_tx db swap source status note1 account = Inr db1" "status \<noteq> SWAP_PENDING" "later db1 db2" "swId swap2 = swId swap"
  shows "\<exists>e. decide_swap_tx db2 swap2 source2 status2 note2 account2 = Inl e"
proof -
  note swaps = decide_swaps [OF assms(1)]
  have "swId swap \<in> set (map swId (dbSwaps db1))" using swaps(1) unfolding swaps(2) set_map by (metis imageI)
  then have "decided_swap db1 (swId swap)" unfolding decided_swap_def using swaps(3) assms(2) by blast
  then have done_now: "decided_swap db2 (swId swap2)" using later_decided [OF assms(3)] assms(4) by simp
  have "decide_swap_tx db2 swap2 source2 status2 note2 account2 \<noteq> Inr db3" for db3
  proof
    assume "decide_swap_tx db2 swap2 source2 status2 note2 account2 = Inr db3"
    from decide_swaps(1) [OF this] done_now show False by (auto simp: decided_swap_def)
  qed
  then show ?thesis by (cases "decide_swap_tx db2 swap2 source2 status2 note2 account2") auto
qed

section \<open>Where the checks fall short\<close>

lemma first_conflict_append:
  assumes "excluded inp a"
  shows "first_conflict db inp p (xs @ [a]) = first_conflict db inp p xs"
proof (induction xs)
  case Nil
  then show ?case using assms by (simp add: excluded_def)
next
  case (Cons x xs)
  then show ?case unfolding append_Cons first_conflict.simps by (simp cong: if_cong)
qed

lemma find_snoc: "find P (xs @ [y]) = (case find P xs of Some x \<Rightarrow> Some x | None \<Rightarrow> if P y then Some y else None)"
  by (induction xs) auto

text \<open>The second look-up of a registration reads one row of the slot and employee. When that row is a cancelled one, it does not see
  the live booking behind it, and the time check leaves the slot itself out: an assignment by the owner can be repeated while
  there are places, giving the employee two live bookings of one shift.\<close>

lemma cancelled_row_hides_the_booking:
  assumes "register_tx db storeId slotId employeeId nt True account now id1 = Inr (db1, a)"
    and "find (\<lambda>r. asSlot r = slotId \<and> asEmployee r = employeeId) (dbAssignments db) = Some old"
    and "slot_of db slotId = Some slot" "max_required db slot \<le> 0 \<or> int (active_count db slotId) + 1 < max_required db slot"
  shows "\<exists>db2 b. register_tx db1 storeId slotId employeeId nt True account now id2 = Inr (db2, b) \<and>
    length (filter (\<lambda>r. asSlot r = slotId \<and> asEmployee r = employeeId \<and> asStatus r \<noteq> CANCELLED) (dbAssignments db2)) \<ge> 2"
proof -
  obtain employee where r: "check_slot db slot True now = Inr ()" "check_employee db slot employeeId True account = Inr employee"
      "check_existing db slotId employeeId = Inr ()" "check_times db storeId slot employeeId = Inr ()"
      "check_terms db storeId slot employee True = Inr ()"
      "map_of (dbOwners db) (case map_option cyStore (cycle_of db slot) of Some s \<Rightarrow> s | None \<Rightarrow> []) = Some account"
      and db1: "db1 = db\<lparr>dbAssignments := dbAssignments db @ [a]\<rparr>" and a: "asSlot a = slotId" "asEmployee a = employeeId" "asStatus a = APPROVED"
    using assms(1,3) by (auto simp: register_tx_def and_then_Inr_iff Let_def)
  have cat: "same_catalog db db1" by (simp add: db1 same_catalog_def)
  note reads = catalog_reads [OF cat]
  have sid: "slId slot = slotId" using slot_of_member [OF assms(3)] by simp
  have shift: "shift_of db1 = shift_of db" by (simp add: db1 shift_of_def fun_eq_iff)
  have "active_count db1 slotId = active_count db slotId + 1" using a by (simp add: db1 active_count_def)
  then have c1: "check_slot db1 slot True now = Inr ()"
    using r(1) assms(4) sid by (auto simp: check_slot_def Let_def and_then_Inr_iff reads shift)
  have c2: "check_employee db1 slot employeeId True account = Inr employee" using r(2) unfolding check_employee_def reads(2) by (simp add: db1)
  have c3: "check_existing db1 slotId employeeId = Inr ()"
    using r(3) assms(2) by (auto simp: check_existing_def db1 find_snoc split: option.splits)
  have candidate: "conflict_candidate db1 = conflict_candidate db" unfolding conflict_candidate_def fun_eq_iff reads(1,2) by simp
  have first: "first_conflict db1 inp p xs = first_conflict db inp p xs" for inp p xs
    by (induction xs) (simp_all add: reads(6) cong: if_cong)
  have "first_conflict db inp p (filter (conflict_candidate db inp f t) (dbAssignments db1)) =
      first_conflict db inp p (filter (conflict_candidate db inp f t) (dbAssignments db))" if "slotId \<in> set (ciNotSlots inp)" for inp p f t
    using that a(1) by (simp add: db1 first_conflict_append excluded_def)
  then have "findShiftTimeConflict db1 inp = findShiftTimeConflict db inp" if "slotId \<in> set (ciNotSlots inp)" for inp
    using that by (simp add: findShiftTimeConflict_def Let_def candidate first)
  then have c4: "check_times db1 storeId slot employeeId = Inr ()"
    using r(4) unfolding check_times_def reads(3,4) assertNoShiftTimeConflict_def sid by (auto split: option.splits if_splits)
  have c5: "check_terms db1 storeId slot employee True = Inr ()" using r(5) by (auto simp: check_terms_def Let_def split: option.splits if_splits)
  have owner: "map_of (dbOwners db1) (case map_option cyStore (cycle_of db1 slot) of Some s \<Rightarrow> s | None \<Rightarrow> []) = Some account"
    using r(6) unfolding reads(2) by (simp add: db1)
  have slot1: "slot_of db1 slotId = Some slot" using assms(3) by (simp add: reads)
  define b where "b = \<lparr> asId = id2, asSlot = slotId, asEmployee = employeeId, asStatus = APPROVED, asCreatedAt = now, asNote = nt,
    asAdjustedStart = None, asAdjustedEnd = None \<rparr>"
  have "register_tx db1 storeId slotId employeeId nt True account now id2 = Inr (db1\<lparr>dbAssignments := dbAssignments db1 @ [b]\<rparr>, b)"
    using slot1 owner c1 c2 c3 c4 c5 by (simp add: register_tx_def Let_def b_def)
  moreover have "length (filter (\<lambda>r. asSlot r = slotId \<and> asEmployee r = employeeId \<and> asStatus r \<noteq> CANCELLED)
      (dbAssignments (db1\<lparr>dbAssignments := dbAssignments db1 @ [b]\<rparr>))) \<ge> 2"
    using a by (simp add: db1 b_def)
  ultimately show ?thesis by blast
qed

text \<open>The requester of a swap passes the check of who may decide it, also to approve it.\<close>

lemma requester_may_decide_the_swap:
  assumes "map_of (dbOwners db) storeId = Some owner" "eligible_profile db storeId (swTo swap) = Some target"
    and "find (\<lambda>p. pfAccount p = account \<and> pfStore p = storeId \<and> isShiftEligibleEmploymentStatus (pfStatus p)) (dbProfiles db) = Some requester"
    and "pfId requester = swBy swap"
  shows "check_party db storeId swap account = Inr target"
  using assms by (simp add: check_party_def swap_party_def)

section \<open>A small store\<close>

text \<open>A night shift on Monday 21 September 2026 and an early shift on Tuesday, two employees, one booking and one swap.\<close>

definition no_terms :: employee_terms where
  "no_terms = \<lparr> etOfficialStartDate = NoDate, etWorkDaysPerWeek = None, etWorkDaysPerMonth = None, etFixedDaysOff = None \<rparr>"

definition night_booking :: assignment_row where
  "night_booking = \<lparr> asId = ''a1'', asSlot = ''k1'', asEmployee = ''e1'', asStatus = APPROVED, asCreatedAt = 0, asNote = None,
     asAdjustedStart = None, asAdjustedEnd = None \<rparr>"

definition asked_swap :: swap_row where
  "asked_swap = \<lparr> swId = ''w1'', swFrom = ''a1'', swTo = ''e2'', swBy = ''e1'', swStatus = SWAP_PENDING, swNote = None \<rparr>"

definition small_store :: store_db where
  "small_store = \<lparr> dbOwners = [(''s1'', ''o1'')], dbPolicies = [],
     dbProfiles = [\<lparr> pfId = ''e1'', pfAccount = ''u1'', pfStore = ''s1'', pfStatus = EMP_ACTIVE, pfTerms = no_terms, pfJoinedAt = None \<rparr>,
                   \<lparr> pfId = ''e2'', pfAccount = ''u2'', pfStore = ''s1'', pfStatus = EMP_PROBATION, pfTerms = no_terms, pfJoinedAt = None \<rparr>],
     dbCycles = [\<lparr> cyId = ''c1'', cyStore = ''s1'', cyStatus = CYCLE_ACTIVE, cyDeadline = None \<rparr>],
     dbShifts = [\<lparr> shId = ''n'', shStore = ''s1'', shName = ''Night'', shStart = Some ''22:00'', shEnd = Some ''04:00'', shMaxStaff = Some 1, shActive = True \<rparr>,
                 \<lparr> shId = ''m'', shStore = ''s1'', shName = ''Early'', shStart = Some ''03:00'', shEnd = Some ''08:00'', shMaxStaff = None, shActive = True \<rparr>],
     dbSlots = [\<lparr> slId = ''k1'', slCycle = Some ''c1'', slShift = ''n'', slDate = day_string 20717, slStart = None, slEnd = None, slMaxStaff = None \<rparr>,
                \<lparr> slId = ''k2'', slCycle = Some ''c1'', slShift = ''m'', slDate = day_string 20718, slStart = None, slEnd = None, slMaxStaff = None \<rparr>],
     dbAssignments = [night_booking], dbSwaps = [asked_swap], dbLeaves = [], dbChanges = [] \<rparr>"

lemma small_days: "full_day 20716" "full_day 20717" "full_day 20718" "full_day 20719"
  by code_simp+

lemma small_clocks: "clock_ok ''22:00''" "clock_ok ''04:00''" "clock_ok ''03:00''" "clock_ok ''08:00''"
  by code_simp+

lemma small_catalog: "catalog_ok small_store"
proof -
  have "\<exists>n. full_day (n - 1) \<and> full_day n \<and> full_day (n + 1) \<and> day_string 20717 = day_string n"
    "\<exists>n. full_day (n - 1) \<and> full_day n \<and> full_day (n + 1) \<and> day_string 20718 = day_string n"
    by (intro exI [of _ 20717], use small_days in simp) (intro exI [of _ 20718], use small_days in simp)
  then show ?thesis
    using small_clocks
    by (simp add: catalog_ok_def small_store_def start_of_def end_of_def shift_of_def clock_or_def opt_field_def nonempty_def)
qed

lemma small_books: "distinct_ids small_store" "never_twice small_store" "never_overfull small_store"
proof -
  show "distinct_ids small_store" by (simp add: distinct_ids_def small_store_def)
  show "never_twice small_store" by (rule never_twiceI) (simp add: small_store_def)
  have "int (active_count small_store i) \<le> max_required small_store slot" if "slot_of small_store i = Some slot" "max_required small_store slot > 0" for i slot
  proof -
    have "active_count small_store i \<le> 1" by (simp add: active_count_def small_store_def)
    then show ?thesis using that(2) by linarith
  qed
  then show "never_overfull small_store" by (simp add: never_overfull_def)
qed

text \<open>The early shift of the day after runs into the night shift.\<close>

theorem conflict_search_is_exact_witness:
  "\<exists>a. findShiftTimeConflict small_store \<lparr> ciStore = ''s1'', ciEmployee = ''e1'', ciDate = day_string 20718, ciStart = ''03:00'', ciEnd = ''08:00'',
    ciNotAssignments = [], ciNotSlots = [] \<rparr> = Inr (Some a)"
proof -
  let ?inp = "\<lparr> ciStore = ''s1'', ciEmployee = ''e1'', ciDate = day_string 20718, ciStart = ''03:00'', ciEnd = ''08:00'',
    ciNotAssignments = [], ciNotSlots = [] \<rparr>"
  have slot: "slot_of small_store (asSlot night_booking) = Some \<lparr> slId = ''k1'', slCycle = Some ''c1'', slShift = ''n'', slDate = day_string 20717,
      slStart = None, slEnd = None, slMaxStaff = None \<rparr>"
    by (simp add: slot_of_def small_store_def night_booking_def)
  have "booked_interval small_store ''s1'' night_booking = Some (day_interval ''22:00'' ''04:00'' 20717)"
    using shift_interval_cases [OF small_catalog slot _ small_days(2)] slot
    by (simp add: booked_interval_def night_booking_def in_live_cycle_def cycle_of_def small_store_def start_of_def end_of_def shift_of_def
        clock_or_def opt_field_def nonempty_def)
  moreover have "intervalsOverlap (day_interval ''03:00'' ''08:00'' 20718) (day_interval ''22:00'' ''04:00'' 20717)" by code_simp
  moreover have "night_booking \<in> set (dbAssignments small_store)" "asEmployee night_booking = ciEmployee ?inp" "\<not> excluded ?inp night_booking"
    by (simp_all add: small_store_def night_booking_def excluded_def)
  moreover have "full_day (20718 - 1)" "full_day (20718 + 1)" using small_days by simp_all
  ultimately show ?thesis
    using conflict_search_is_exact [OF small_catalog, of ?inp 20718] small_days(3) small_clocks(3,4)
    by (auto simp: intervals_clash_Some)
qed

text \<open>The owner takes the employee off the night shift.\<close>

lemma small_cancel:
  obtains db where "update_tx small_store ''s1'' ''a1'' CANCELLED None ''o1'' = Inr db" "later small_store db"
    "slot_of db ''k1'' = slot_of small_store ''k1''" "max_required db = max_required small_store"
proof -
  obtain db where u: "update_tx small_store ''s1'' ''a1'' CANCELLED None ''o1'' = Inr db"
    by (simp add: update_tx_def small_store_def assignment_of_def night_booking_def)
  then have "later small_store db" by (rule later.updated [OF later.start])
  then show thesis using that u catalog_reads(1,5) [OF update_keeps(1) [OF u small_books(1)]] by simp
qed

theorem nobody_is_booked_twice_witness:
  "\<exists>db. update_tx small_store ''s1'' ''a1'' CANCELLED None ''o1'' = Inr db \<and> never_twice db"
  using nobody_is_booked_twice [OF _ small_catalog small_books] small_cancel by metis

theorem swap_is_decided_once_witness:
  "\<exists>source db e. decide_swap_tx small_store asked_swap source SWAP_REJECTED None ''o1'' = Inr db \<and>
    decide_swap_tx db asked_swap source SWAP_APPROVED None ''o1'' = Inl e"
proof -
  obtain source where s: "load_assignment small_store ''a1'' = Some source" "ldStore source = Some ''s1''"
    by (simp add: load_assignment_def assignment_of_def small_store_def night_booking_def slot_of_def cycle_of_def opt_field_def nonempty_def)
  obtain db where d: "decide_swap_tx small_store asked_swap source SWAP_REJECTED None ''o1'' = Inr db"
    by (simp add: decide_swap_tx_def check_party_def s(2) small_store_def eligible_profile_def asked_swap_def isShiftEligibleEmploymentStatus_def
        and_then_def)
  show ?thesis using swap_is_decided_once [OF d _ later.start refl] d by blast
qed

end
