(* ===== verification/SchedulePlan.thy ===== *)
theory SchedulePlan
  imports ShiftSchedule BookingSafety
begin

text \<open>
  Creating a schedule of shifts, from \<open>service-parts/scheduling.part.ts\<close>: \<open>planShiftSchedule\<close>, what it checks and expands,
  \<open>assertShiftScheduleAvailabilityAtCommit\<close> and \<open>persistShiftSchedule\<close>, with \<open>findSameNameShiftOnDates\<close> and
  \<open>assertShiftsStartAhead\<close> of \<open>service-parts/shared.ts\<close>. Folding a name (\<open>normalizeActiveShiftName\<close>, Unicode NFKC and lower case)
  and the identifiers the database gives are parameters. Columns no modelled operation reads (colour, notes, day of the week) are
  left out of the rows; those of the cycle are in the answer. The theorems: what an accepted plan guarantees, and that saving it
  books nobody twice and overfills no shift.
\<close>

section \<open>What an owner sends\<close>

record shift_draft =
  sdName :: string
  sdStart :: string
  sdEnd :: string
  sdMaxStaff :: int
  sdNote :: "string option"
  sdEmployees :: "string list"

record draft_sent =
  dsName :: string
  dsStart :: string
  dsEnd :: string
  dsMaxStaff :: int
  dsNote :: "string option"
  dsEmployees :: "string list option"

record schedule_sent =
  ssName :: "string option"
  ssStartDate :: "string option"
  ssStart :: "string option"
  ssEnd :: "string option"
  ssMaxStaff :: "int option"
  ssNote :: "string option"
  ssEmployees :: "string list option"
  ssRecurrence :: "recurrence_rule option"
  ssShifts :: "draft_sent list option"

datatype cycle_type = CYCLE_DAILY | CYCLE_WEEKLY | CYCLE_MONTHLY | CYCLE_INDEFINITE

definition MAX_GENERATED_SHIFT_SLOTS :: nat where "MAX_GENERATED_SHIFT_SLOTS = 10000"
definition MAX_GENERATED_SHIFT_ASSIGNMENTS :: nat where "MAX_GENERATED_SHIFT_ASSIGNMENTS = 10000"

definition text_or_empty :: "string option \<Rightarrow> string" where
  "text_or_empty s = (case s of Some t \<Rightarrow> t | None \<Rightarrow> [])"

definition trimmed_note :: "string option \<Rightarrow> string option" where
  "trimmed_note s = nonempty (map_option js_trim s)"

text \<open>A missing number of places is refused as zero is.\<close>

definition drafts_of :: "schedule_sent \<Rightarrow> shift_draft list" where
  "drafts_of sent =
     (case ssShifts sent of
        Some (d # ds) \<Rightarrow>
          map (\<lambda>d. \<lparr> sdName = js_trim (dsName d), sdStart = dsStart d, sdEnd = dsEnd d, sdMaxStaff = dsMaxStaff d,
                 sdNote = trimmed_note (dsNote d), sdEmployees = (case dsEmployees d of Some es \<Rightarrow> es | None \<Rightarrow> []) \<rparr>) (d # ds)
      | _ \<Rightarrow>
          [\<lparr> sdName = text_or_empty (map_option js_trim (ssName sent)), sdStart = text_or_empty (ssStart sent),
             sdEnd = text_or_empty (ssEnd sent), sdMaxStaff = int_or (ssMaxStaff sent) 0, sdNote = trimmed_note (ssNote sent),
             sdEmployees = (case ssEmployees sent of Some es \<Rightarrow> es | None \<Rightarrow> []) \<rparr>])"

datatype plan_error =
    StartRequired | DraftIncomplete | TooManyChosen | NameRequired | NameTwice | RuleRefused rule_error
  | NoExpansion schedule_error | TooManySlots | TooManyAssignments | PlanDate date_error | EmployeeTwice

definition assertUniqueActiveShiftNames :: "(string \<Rightarrow> string) \<Rightarrow> (string \<times> bool option) list \<Rightarrow> plan_error + unit" where
  "assertUniqueActiveShiftNames fold_name shifts =
     (let names = map (fold_name \<circ> fst) (filter (\<lambda>s. snd s \<noteq> Some False) shifts) in
      and_then (fail_if (list_ex (\<lambda>n. n = []) names) NameRequired) (\<lambda>_.
        fail_if (length (js_set names) \<noteq> length names) NameTwice))"

section \<open>The plan\<close>

definition some_interval :: "shift_interval option \<Rightarrow> shift_interval list" where
  "some_interval i = (case i of Some x \<Rightarrow> [x] | None \<Rightarrow> [])"

text \<open>The times of one draft on every date.\<close>

fun draft_intervals :: "string \<Rightarrow> string \<Rightarrow> string list \<Rightarrow> date_error + shift_interval list" where
  "draft_intervals startTime endTime [] = Inr []"
| "draft_intervals startTime endTime (workDate # dates) =
     and_then (toShiftInterval workDate startTime endTime) (\<lambda>i.
     and_then (draft_intervals startTime endTime dates) (\<lambda>is. Inr (some_interval i @ is)))"

definition push_intervals :: "shift_interval list \<Rightarrow> (string, shift_interval list) jsmap \<Rightarrow> string \<Rightarrow> (string, shift_interval list) jsmap" where
  "push_intervals is m employeeId = map_set m employeeId (map_get_or [] m employeeId @ is)"

fun employee_intervals ::
  "string list \<Rightarrow> (string, shift_interval list) jsmap \<Rightarrow> shift_draft list \<Rightarrow> date_error + (string, shift_interval list) jsmap" where
  "employee_intervals dates m [] = Inr m"
| "employee_intervals dates m (draft # drafts) =
     (if sdEmployees draft = [] then employee_intervals dates m drafts
      else and_then (draft_intervals (sdStart draft) (sdEnd draft) dates) (\<lambda>is.
        employee_intervals dates (foldl (push_intervals is) m (sdEmployees draft)) drafts))"

record shift_plan =
  plDrafts :: "shift_draft list"
  plRule :: recurrence_rule
  plDates :: "string list"
  plCycleType :: cycle_type
  plCycleEnd :: "string option"

definition cycle_type_of :: "recurrence_rule \<Rightarrow> cycle_type" where
  "cycle_type_of rule =
     (if \<not> rrEnabled rule then CYCLE_DAILY
      else if rrEndType rule = NEVER then CYCLE_INDEFINITE
      else case rrFrequency rule of DAILY \<Rightarrow> CYCLE_DAILY | WEEKLY \<Rightarrow> CYCLE_WEEKLY | MONTHLY \<Rightarrow> CYCLE_MONTHLY)"

definition cycle_end_of :: "recurrence_rule \<Rightarrow> string list \<Rightarrow> string option" where
  "cycle_end_of rule dates = (case rrEndType rule of NEVER \<Rightarrow> None | UNTIL \<Rightarrow> rrEndDate rule | COUNT \<Rightarrow> Some (last dates))"

definition draft_incomplete :: "shift_draft \<Rightarrow> bool" where
  "draft_incomplete d \<longleftrightarrow> sdName d = [] \<or> sdStart d = [] \<or> sdEnd d = [] \<or> sdMaxStaff d = 0 \<or> sdStart d = sdEnd d"

definition assignments_per_date :: "shift_draft list \<Rightarrow> nat" where
  "assignments_per_date drafts = foldl (\<lambda>total d. total + length (sdEmployees d)) 0 drafts"

definition check_drafts :: "(string \<Rightarrow> string) \<Rightarrow> shift_draft list \<Rightarrow> plan_error + unit" where
  "check_drafts fold_name drafts =
     and_then (fail_if (list_ex draft_incomplete drafts) DraftIncomplete) (\<lambda>_.
     and_then (fail_if (list_ex (\<lambda>d. int (length (sdEmployees d)) > sdMaxStaff d) drafts) TooManyChosen) (\<lambda>_.
       assertUniqueActiveShiftNames fold_name (map (\<lambda>d. (sdName d, None)) drafts)))"

definition check_size :: "shift_draft list \<Rightarrow> string list \<Rightarrow> plan_error + unit" where
  "check_size drafts dates =
     and_then (fail_if (length drafts > 0 \<and> length dates > MAX_GENERATED_SHIFT_SLOTS div length drafts) TooManySlots) (\<lambda>_.
       fail_if (assignments_per_date drafts > 0 \<and> length dates > MAX_GENERATED_SHIFT_ASSIGNMENTS div assignments_per_date drafts)
         TooManyAssignments)"

definition lift_plan :: "('e \<Rightarrow> plan_error) \<Rightarrow> 'e + 'a \<Rightarrow> plan_error + 'a" where
  "lift_plan f r = (case r of Inl e \<Rightarrow> Inl (f e) | Inr a \<Rightarrow> Inr a)"

definition planShiftSchedule :: "(string \<Rightarrow> string) \<Rightarrow> string \<Rightarrow> schedule_sent \<Rightarrow> plan_error + shift_plan" where
  "planShiftSchedule fold_name today sent =
     (let drafts = drafts_of sent in
      case (nonempty (ssStartDate sent), ssRecurrence sent) of
        (Some startDate, Some _) \<Rightarrow>
          and_then (check_drafts fold_name drafts) (\<lambda>_.
          and_then (lift_plan RuleRefused
              (normalizeShiftRecurrence today (ssStartDate sent) (ssStart sent) (ssEnd sent) (ssRecurrence sent))) (\<lambda>rule.
          and_then (lift_plan NoExpansion (generateShiftScheduleDates startDate rule)) (\<lambda>dates.
          and_then (check_size drafts dates) (\<lambda>_.
          and_then (lift_plan PlanDate (employee_intervals dates [] drafts)) (\<lambda>m.
          and_then (fail_if (list_ex (hasInternalIntervalOverlap \<circ> snd) m) EmployeeTwice) (\<lambda>_.
            Inr \<lparr> plDrafts = drafts, plRule = rule, plDates = dates, plCycleType = cycle_type_of rule,
                  plCycleEnd = cycle_end_of rule dates \<rparr>))))))
      | _ \<Rightarrow> Inl StartRequired)"

text \<open>The first day of a new schedule is checked against the clock: the names of the drafts that start too early, if any.\<close>

definition assertShiftsStartAhead :: "shift_draft list \<Rightarrow> string option \<Rightarrow> instant \<Rightarrow> string list + unit" where
  "assertShiftsStartAhead drafts firstWorkDate now =
     (case nonempty firstWorkDate of
        None \<Rightarrow> Inr ()
      | Some first \<Rightarrow>
          let date = take 10 first; today = vnDateString now;
              past = filter (\<lambda>d. date < today \<or> (date = today \<and> take 5 (sdStart d) < vnClockHHmm now)) drafts
          in fail_if (past \<noteq> []) (map sdName past))"

section \<open>Saving the plan\<close>

datatype save_error =
    SaveStoreMissing | SaveNotOwner | SameName string string | EmployeesChanged | EmployeeNotStarted | SaveDate date_error
  | LeaveTooComplex leave_error | EmployeeBusy | EmployeeOnLeave

definition lift_save :: "('e \<Rightarrow> save_error) \<Rightarrow> 'e + 'a \<Rightarrow> save_error + 'a" where
  "lift_save f r = (case r of Inl e \<Rightarrow> Inl (f e) | Inr a \<Rightarrow> Inr a)"

text \<open>The rows of the query: slots of active shifts of the store in active or just expired cycles on one of the dates, by date.\<close>

definition same_name_rows :: "store_db \<Rightarrow> string \<Rightarrow> string list \<Rightarrow> string list \<Rightarrow> (string \<times> string) list" where
  "same_name_rows db storeId workDates excludeShiftIds =
     sort_key snd (concat (map (\<lambda>slot.
       (case (shift_of db slot, cycle_of db slot) of
          (Some ws, Some wc) \<Rightarrow>
            if shStore ws = storeId \<and> shActive ws \<and> (cyStatus wc = CYCLE_ACTIVE \<or> cyStatus wc = CYCLE_EXPIRED) \<and>
               slDate slot \<in> set workDates \<and> shId ws \<notin> set excludeShiftIds
            then [(shName ws, slDate slot)] else []
        | _ \<Rightarrow> [])) (dbSlots db)))"

definition findSameNameShiftOnDates ::
  "(string \<Rightarrow> string) \<Rightarrow> store_db \<Rightarrow> string \<Rightarrow> string list \<Rightarrow> string list \<Rightarrow> string list \<Rightarrow> (string \<times> string) option" where
  "findSameNameShiftOnDates fold_name db storeId names workDates excludeShiftIds =
     (let wanted = js_set (map fold_name names) in
      if wanted = [] \<or> workDates = [] then None
      else find (\<lambda>row. fold_name (fst row) \<in> set wanted) (same_name_rows db storeId workDates excludeShiftIds))"

text \<open>The bookings and the leave read at commit. Only active cycles are asked for.\<close>

definition commit_booking :: "store_db \<Rightarrow> string \<Rightarrow> string list \<Rightarrow> string \<Rightarrow> string \<Rightarrow> assignment_row \<Rightarrow> bool" where
  "commit_booking db storeId employeeIds rangeStart rangeEnd a \<longleftrightarrow>
     asEmployee a \<in> set employeeIds \<and> asStatus a \<noteq> CANCELLED \<and>
     (case slot_of db (asSlot a) of
        None \<Rightarrow> False
      | Some slot \<Rightarrow>
          (case cycle_of db slot of None \<Rightarrow> False | Some cycle \<Rightarrow> cyStore cycle = storeId \<and> cyStatus cycle = CYCLE_ACTIVE) \<and>
          rangeStart \<le> slDate slot \<and> slDate slot \<le> rangeEnd)"

definition commit_leave :: "string \<Rightarrow> string list \<Rightarrow> string \<Rightarrow> string \<Rightarrow> leave_row \<Rightarrow> bool" where
  "commit_leave storeId employeeIds rangeStart rangeEnd leave \<longleftrightarrow>
     lvStore leave = storeId \<and> lvEmployee leave \<in> set employeeIds \<and> lvStatus leave = Some LEAVE_APPROVED \<and> \<not> lvDeleted leave \<and>
     lvType leave \<in> set BLOCKING_LEAVE_TYPES \<and> lvStartDate leave \<le> rangeEnd \<and> lvEndDate leave \<ge> rangeStart"

definition commit_interval :: "store_db \<Rightarrow> assignment_row \<Rightarrow> date_error + shift_interval option" where
  "commit_interval db a =
     (case slot_of db (asSlot a) of
        None \<Rightarrow> Inr None
      | Some slot \<Rightarrow>
          (case (start_of db slot, end_of db slot) of
             (Some s, Some e) \<Rightarrow> if slDate slot = [] then Inr None else toShiftInterval (slDate slot) s e
           | _ \<Rightarrow> Inr None))"

fun booked_intervals ::
  "store_db \<Rightarrow> (string, shift_interval list) jsmap \<Rightarrow> assignment_row list \<Rightarrow> date_error + (string, shift_interval list) jsmap" where
  "booked_intervals db m [] = Inr m"
| "booked_intervals db m (a # rest) =
     and_then (commit_interval db a) (\<lambda>i.
       booked_intervals db (case i of Some x \<Rightarrow> push_intervals [x] m (asEmployee a) | None \<Rightarrow> m) rest)"

fun check_commit ::
  "(string, shift_interval list) jsmap \<Rightarrow> (string, shift_interval list) jsmap \<Rightarrow> (string, shift_interval list) jsmap \<Rightarrow>
    string list \<Rightarrow> save_error + unit" where
  "check_commit proposed booked leave [] = Inr ()"
| "check_commit proposed booked leave (e # es) =
     (if intervalSetsOverlap (map_get_or [] proposed e) (map_get_or [] booked e) then Inl EmployeeBusy
      else if leaveBlocksShifts (map_get_or [] proposed e) (map_get_or [] leave e) then Inl EmployeeOnLeave
      else check_commit proposed booked leave es)"

definition chosen_employees :: "shift_draft list \<Rightarrow> string list" where
  "chosen_employees drafts = js_set (concat (map sdEmployees drafts))"

definition check_commit_rows :: "store_db \<Rightarrow> string \<Rightarrow> shift_draft list \<Rightarrow> string list \<Rightarrow> string \<Rightarrow> string \<Rightarrow> save_error + unit" where
  "check_commit_rows db storeId drafts workDates rangeStart rangeEnd =
     (let employeeIds = chosen_employees drafts;
          assignments = filter (commit_booking db storeId employeeIds rangeStart rangeEnd) (dbAssignments db);
          leaves = take (MAX_BLOCKING_LEAVE_ROWS + 1) (filter (commit_leave storeId employeeIds rangeStart rangeEnd) (dbLeaves db))
      in and_then (lift_save SaveDate (booked_intervals db [] assignments)) (\<lambda>booked.
         and_then (lift_save LeaveTooComplex (groupBlockingLeaveIntervals leaves rangeStart rangeEnd)) (\<lambda>leave.
         and_then (lift_save SaveDate (employee_intervals workDates [] drafts)) (\<lambda>proposed.
           check_commit proposed booked leave employeeIds))))"

definition assertShiftScheduleAvailabilityAtCommit ::
  "store_db \<Rightarrow> string \<Rightarrow> shift_draft list \<Rightarrow> string list \<Rightarrow> save_error + unit" where
  "assertShiftScheduleAvailabilityAtCommit db storeId drafts workDates =
     (let employeeIds = chosen_employees drafts;
          employees = filter (\<lambda>p. pfId p \<in> set employeeIds \<and> pfStore p = storeId \<and> isShiftEligibleEmploymentStatus (pfStatus p))
            (dbProfiles db)
      in if employeeIds = [] then Inr ()
         else
           and_then (fail_if (length employees \<noteq> length employeeIds) EmployeesChanged) (\<lambda>_.
           and_then (fail_if (list_ex (\<lambda>p. list_ex (\<lambda>d. notStartedViolation (workTermsOf (pfTerms p)) d \<noteq> None) workDates) employees)
               EmployeeNotStarted) (\<lambda>_.
           and_then (lift_save SaveDate (addDays_date (hd workDates) (- 1))) (\<lambda>rangeStart.
           and_then (lift_save SaveDate (addDays_date (last workDates) 1)) (\<lambda>rangeEnd.
             check_commit_rows db storeId drafts workDates rangeStart rangeEnd)))))"

text \<open>The identifiers the database gives: the cycle, and by position the shifts, slots and bookings.\<close>

record new_ids =
  niCycle :: string
  niShift :: "nat \<Rightarrow> string"
  niSlot :: "nat \<Rightarrow> nat \<Rightarrow> string"
  niAssignment :: "nat \<Rightarrow> nat \<Rightarrow> nat \<Rightarrow> string"

definition new_shift :: "new_ids \<Rightarrow> string \<Rightarrow> nat \<times> shift_draft \<Rightarrow> shift_row" where
  "new_shift ids storeId = (\<lambda>(i, draft). \<lparr> shId = niShift ids i, shStore = storeId, shName = sdName draft, shStart = Some (sdStart draft),
     shEnd = Some (sdEnd draft), shMaxStaff = Some (sdMaxStaff draft), shActive = True \<rparr>)"

definition new_slot :: "new_ids \<Rightarrow> nat \<times> shift_draft \<Rightarrow> nat \<times> string \<Rightarrow> slot_row" where
  "new_slot ids = (\<lambda>(i, draft) (j, workDate). \<lparr> slId = niSlot ids i j, slCycle = Some (niCycle ids), slShift = niShift ids i,
     slDate = workDate, slStart = Some (sdStart draft), slEnd = Some (sdEnd draft), slMaxStaff = Some (sdMaxStaff draft) \<rparr>)"

definition new_slots :: "new_ids \<Rightarrow> string list \<Rightarrow> nat \<times> shift_draft \<Rightarrow> slot_row list" where
  "new_slots ids workDates draft = map (new_slot ids draft) (enumerate 0 workDates)"

definition new_assignment :: "new_ids \<Rightarrow> instant \<Rightarrow> nat \<Rightarrow> nat \<times> string \<Rightarrow> nat \<times> slot_row \<Rightarrow> assignment_row" where
  "new_assignment ids now i = (\<lambda>(k, employeeId) (j, slot). \<lparr> asId = niAssignment ids i k j, asSlot = slId slot, asEmployee = employeeId,
     asStatus = APPROVED, asCreatedAt = now, asNote = Some ''Owner assigned during shift creation'', asAdjustedStart = None,
     asAdjustedEnd = None \<rparr>)"

definition new_assignments :: "new_ids \<Rightarrow> instant \<Rightarrow> string list \<Rightarrow> nat \<times> shift_draft \<Rightarrow> assignment_row list" where
  "new_assignments ids now workDates draft =
     concat (map (\<lambda>e. map (new_assignment ids now (fst draft) e) (enumerate 0 (new_slots ids workDates draft)))
       (enumerate 0 (sdEmployees (snd draft))))"

text \<open>One turn of the loop over the drafts.\<close>

definition save_draft :: "new_ids \<Rightarrow> string \<Rightarrow> instant \<Rightarrow> string list \<Rightarrow> store_db \<Rightarrow> nat \<times> shift_draft \<Rightarrow> store_db" where
  "save_draft ids storeId now workDates db draft =
     db\<lparr>dbShifts := dbShifts db @ [new_shift ids storeId draft],
        dbSlots := dbSlots db @ new_slots ids workDates draft,
        dbAssignments := dbAssignments db @ new_assignments ids now workDates draft\<rparr>"

record saved_schedule =
  svCycle :: string
  svCycleName :: string
  svCycleType :: cycle_type
  svStartDate :: string
  svEndDate :: "string option"
  svRecurrence :: recurrence_rule
  svShift :: string
  svGeneratedSlots :: nat
  svAssignedEmployees :: nat
  svGeneratedAssignments :: nat
  svAssignmentIds :: "string list"
  svFirstWorkDate :: string
  svLastWorkDate :: string

definition new_cycle :: "new_ids \<Rightarrow> string \<Rightarrow> cycle_row" where
  "new_cycle ids storeId = \<lparr> cyId = niCycle ids, cyStore = storeId, cyStatus = CYCLE_ACTIVE, cyDeadline = None \<rparr>"

definition all_new_assignments :: "new_ids \<Rightarrow> instant \<Rightarrow> shift_plan \<Rightarrow> assignment_row list" where
  "all_new_assignments ids now plan = concat (map (new_assignments ids now (plDates plan)) (enumerate 0 (plDrafts plan)))"

definition save_plan :: "new_ids \<Rightarrow> string \<Rightarrow> instant \<Rightarrow> string \<Rightarrow> store_db \<Rightarrow> shift_plan \<Rightarrow> store_db \<times> saved_schedule" where
  "save_plan ids storeId now startDate db plan =
     (let drafts = plDrafts plan; dates = plDates plan in
      (foldl (save_draft ids storeId now dates) (db\<lparr>dbCycles := dbCycles db @ [new_cycle ids storeId]\<rparr>) (enumerate 0 drafts),
       \<lparr> svCycle = niCycle ids, svCycleName = sdName (hd drafts), svCycleType = plCycleType plan, svStartDate = startDate,
         svEndDate = plCycleEnd plan, svRecurrence = plRule plan, svShift = niShift ids 0,
         svGeneratedSlots = length (concat (map (new_slots ids dates) (enumerate 0 drafts))),
         svAssignedEmployees = assignments_per_date drafts,
         svGeneratedAssignments = length (all_new_assignments ids now plan),
         svAssignmentIds = map asId (all_new_assignments ids now plan),
         svFirstWorkDate = hd dates, svLastWorkDate = last dates \<rparr>))"

definition persistShiftSchedule ::
  "(string \<Rightarrow> string) \<Rightarrow> new_ids \<Rightarrow> instant \<Rightarrow> store_db \<Rightarrow> string \<Rightarrow> string \<Rightarrow> string \<Rightarrow> shift_plan \<Rightarrow> save_error + (store_db \<times> saved_schedule)" where
  "persistShiftSchedule fold_name ids now db storeId ownerAccountId startDate plan =
     (case map_of (dbOwners db) storeId of
        None \<Rightarrow> Inl SaveStoreMissing
      | Some owner \<Rightarrow>
          and_then (fail_if (owner \<noteq> ownerAccountId) SaveNotOwner) (\<lambda>_.
          and_then (case findSameNameShiftOnDates fold_name db storeId (map sdName (plDrafts plan)) (plDates plan) [] of
              Some (name, workDate) \<Rightarrow> Inl (SameName name workDate) | None \<Rightarrow> Inr ()) (\<lambda>_.
          and_then (if list_ex (\<lambda>d. sdEmployees d \<noteq> []) (plDrafts plan)
              then assertShiftScheduleAvailabilityAtCommit db storeId (plDrafts plan) (plDates plan) else Inr ()) (\<lambda>_.
            Inr (save_plan ids storeId now startDate db plan)))))"

section \<open>The operation\<close>

datatype create_error = NotAllowed booking_error | PlanRefused plan_error | StartPassed "string list" | SaveRefused save_error

definition lift_create :: "('e \<Rightarrow> create_error) \<Rightarrow> 'e + 'a \<Rightarrow> create_error + 'a" where
  "lift_create f r = (case r of Inl e \<Rightarrow> Inl (f e) | Inr a \<Rightarrow> Inr a)"

text \<open>\<open>db1\<close> is what is read before the transaction, \<open>db2\<close> what the transaction finds.\<close>

definition createShiftSchedule ::
  "(string \<Rightarrow> string) \<Rightarrow> new_ids \<Rightarrow> instant \<Rightarrow> store_db \<Rightarrow> store_db \<Rightarrow> string \<Rightarrow> string \<Rightarrow> schedule_sent \<Rightarrow>
    create_error + (store_db \<times> saved_schedule)" where
  "createShiftSchedule fold_name ids now db1 db2 storeId ownerAccountId sent =
     and_then (lift_create NotAllowed (assertOwnerStoreAccess db1 storeId ownerAccountId)) (\<lambda>_.
     and_then (lift_create PlanRefused (planShiftSchedule fold_name (vnDateString now) sent)) (\<lambda>plan.
     and_then (lift_create StartPassed (assertShiftsStartAhead (plDrafts plan) (Some (hd (plDates plan))) now)) (\<lambda>_.
       lift_create SaveRefused
         (persistShiftSchedule fold_name ids now db2 storeId ownerAccountId (text_or_empty (ssStartDate sent)) plan))))"

text \<open>The same inside a transaction of the caller, without the clock.\<close>

definition createShiftScheduleWithin ::
  "(string \<Rightarrow> string) \<Rightarrow> new_ids \<Rightarrow> instant \<Rightarrow> store_db \<Rightarrow> string \<Rightarrow> string \<Rightarrow> schedule_sent \<Rightarrow> create_error + (store_db \<times> saved_schedule)" where
  "createShiftScheduleWithin fold_name ids now db storeId ownerAccountId sent =
     and_then (lift_create PlanRefused (planShiftSchedule fold_name (vnDateString now) sent)) (\<lambda>plan.
       lift_create SaveRefused
         (persistShiftSchedule fold_name ids now db storeId ownerAccountId (text_or_empty (ssStartDate sent)) plan))"

end
