(* ===== verification/ScheduleSafety.thy ===== *)
theory ScheduleSafety
  imports SchedulePlan
begin

text \<open>
  What creating a schedule guarantees: an accepted plan is complete, small enough and gives nobody two shifts at one time, and saving
  it keeps the bookings of the active cycles free of clashes and overfills no shift.
\<close>

section \<open>The rule that is stored\<close>

text \<open>The fields a rule has are those of its frequency and its end, and none is empty.\<close>

definition rule_well_formed :: "string \<Rightarrow> recurrence_rule \<Rightarrow> bool" where
  "rule_well_formed startDate rule \<longleftrightarrow>
     (if \<not> rrEnabled rule then rule = (bare_rule False DAILY 1 COUNT)\<lparr>rrOccurrenceCount := Some 1\<rparr>
      else
        (case rrWeekDays rule of Some days \<Rightarrow> rrFrequency rule = WEEKLY \<and> days \<noteq> [] | None \<Rightarrow> rrFrequency rule \<noteq> WEEKLY) \<and>
        (rrMonthlyMode rule \<noteq> None \<longleftrightarrow> rrFrequency rule = MONTHLY) \<and>
        (case rrDayOfMonth rule of Some d \<Rightarrow> rrMonthlyMode rule = Some DAY_OF_MONTH \<and> d \<noteq> 0 | None \<Rightarrow> rrMonthlyMode rule \<noteq> Some DAY_OF_MONTH) \<and>
        (case rrWeekOfMonth rule of Some w \<Rightarrow> rrMonthlyMode rule = Some NTH_WEEKDAY \<and> w \<noteq> 0 | None \<Rightarrow> rrMonthlyMode rule \<noteq> Some NTH_WEEKDAY) \<and>
        (rrWeekday rule \<noteq> None \<longleftrightarrow> rrMonthlyMode rule = Some NTH_WEEKDAY) \<and>
        (case rrEndDate rule of Some e \<Rightarrow> rrEndType rule = UNTIL \<and> startDate \<le> e \<and> (\<exists>ms. parseDateOnly e = Inr ms) | None \<Rightarrow> rrEndType rule \<noteq> UNTIL) \<and>
        (case rrOccurrenceCount rule of Some c \<Rightarrow> rrEndType rule = COUNT \<and> c \<noteq> 0 | None \<Rightarrow> rrEndType rule \<noteq> COUNT))"

lemma given_iff: "given v \<longleftrightarrow> (\<exists>n. v = Some n \<and> n \<noteq> 0)"
  by (auto simp: given_def int_or_def split: option.splits)

lemma check_weekly_Inr:
  "check_weekly sent rule = Inr rule' \<longleftrightarrow>
    (if rrFrequency rule = WEEKLY then \<exists>days. rrWeekDays sent = Some days \<and> days \<noteq> [] \<and> rule' = rule\<lparr>rrWeekDays := Some days\<rparr> else rule' = rule)"
  by (auto simp: check_weekly_def split: option.splits)

lemma check_monthly_Inr:
  "check_monthly sent rule = Inr rule' \<longleftrightarrow>
    (if rrFrequency rule \<noteq> MONTHLY then rule' = rule
     else if rrMonthlyMode sent = Some DAY_OF_MONTH
     then \<exists>d. rrDayOfMonth sent = Some d \<and> d \<noteq> 0 \<and> rule' = rule\<lparr>rrMonthlyMode := Some DAY_OF_MONTH, rrDayOfMonth := Some d\<rparr>
     else rrMonthlyMode sent = Some NTH_WEEKDAY \<and> (\<exists>w k. rrWeekOfMonth sent = Some w \<and> w \<noteq> 0 \<and> rrWeekday sent = Some k \<and>
       rule' = rule\<lparr>rrMonthlyMode := Some NTH_WEEKDAY, rrWeekOfMonth := Some w, rrWeekday := Some k\<rparr>))"
  by (auto simp: check_monthly_def given_iff split: option.splits monthly_mode.splits)

lemma check_end_Inr:
  "check_end startDate sent rule = Inr rule' \<longleftrightarrow>
    (case rrEndType rule of
       UNTIL \<Rightarrow> \<exists>e ms. rrEndDate sent = Some e \<and> e \<noteq> [] \<and> parseDateOnly e = Inr ms \<and> startDate \<le> e \<and> rule' = rule\<lparr>rrEndDate := Some e\<rparr>
     | COUNT \<Rightarrow> \<exists>c. rrOccurrenceCount sent = Some c \<and> c \<noteq> 0 \<and> rule' = rule\<lparr>rrOccurrenceCount := Some c\<rparr>
     | NEVER \<Rightarrow> rule' = rule)"
  by (auto simp: check_end_def given_iff nonempty_Some not_less split: option.splits end_type.splits sum.splits)
     (auto simp: nonempty_def split: option.splits if_splits)

text \<open>C34. The rule that is stored is well formed: it has exactly the fields of its frequency and its end, none of them empty or zero,
  the end a real date not before the start; and it is a fixed point, so that saving a schedule again with its stored rule stores
  the same rule.\<close>

theorem stored_rule_is_well_formed:
  assumes "normalizeShiftRecurrence today startDate startTime endTime sent = Inr rule"
  shows "rule_well_formed (the startDate) rule \<and>
    normalizeShiftRecurrence today startDate startTime endTime (Some rule) = Inr rule"
proof -
  obtain start s ms where start: "startDate = Some start" "start \<noteq> []" "sent = Some s" "parseDateOnly start = Inr ms" "\<not> start < today"
      "\<not> (nonempty startTime \<noteq> None \<and> nonempty endTime \<noteq> None \<and> startTime = endTime)"
      "(if \<not> rrEnabled s then Inr ((bare_rule False DAILY 1 COUNT)\<lparr>rrOccurrenceCount := Some 1\<rparr>)
        else and_then (check_weekly s (bare_rule True (rrFrequency s) (rrInterval s) (rrEndType s))) (\<lambda>rule.
          and_then (check_monthly s rule) (\<lambda>rule. check_end start s rule))) = Inr rule"
    using assms by (auto simp: normalizeShiftRecurrence_def nonempty_Some split: option.splits sum.splits if_splits)
  have again: "normalizeShiftRecurrence today startDate startTime endTime (Some r) =
      (if \<not> rrEnabled r then Inr ((bare_rule False DAILY 1 COUNT)\<lparr>rrOccurrenceCount := Some 1\<rparr>)
       else and_then (check_weekly r (bare_rule True (rrFrequency r) (rrInterval r) (rrEndType r))) (\<lambda>rule.
         and_then (check_monthly r rule) (\<lambda>rule. check_end start r rule)))" for r
    using start by (auto simp: normalizeShiftRecurrence_def nonempty_def)
  show ?thesis
  proof (cases "rrEnabled s")
    case False
    then show ?thesis using start(7) again by (auto simp: rule_well_formed_def bare_rule_def)
  next
    case True
    let ?bare = "bare_rule True (rrFrequency s) (rrInterval s) (rrEndType s)"
    obtain r1 r2 where r: "check_weekly s ?bare = Inr r1" "check_monthly s r1 = Inr r2" "check_end start s r2 = Inr rule"
      using start(7) True by (auto simp: and_then_Inr_iff)
    show ?thesis using r unfolding start(1) again [unfolded start(1)] and_then_Inr_iff
      by (cases "rrFrequency s"; cases "rrEndType s")
         (auto simp: check_weekly_Inr check_monthly_Inr check_end_Inr bare_rule_def rule_well_formed_def and_then_Inr_iff split: if_splits)
  qed
qed

section \<open>The times of the plan\<close>

definition draft_times :: "shift_draft \<Rightarrow> string \<Rightarrow> shift_interval list" where
  "draft_times d workDate = (case toShiftInterval workDate (sdStart d) (sdEnd d) of Inr i \<Rightarrow> some_interval i | Inl _ \<Rightarrow> [])"

definition works :: "string \<Rightarrow> string list \<Rightarrow> shift_draft \<Rightarrow> shift_interval list" where
  "works e dates d = (if e \<in> set (sdEmployees d) then concat (map (draft_times d) dates) else [])"

text \<open>All the shifts an employee gets.\<close>

definition employee_times :: "string list \<Rightarrow> shift_draft list \<Rightarrow> string \<Rightarrow> shift_interval list" where
  "employee_times dates drafts e = concat (map (works e dates) drafts)"

definition apart :: "shift_interval list \<Rightarrow> bool" where
  "apart is = sorted_wrt (\<lambda>x y. \<not> intervalsOverlap x y) is"

lemma apart_clashing: "apart is \<longleftrightarrow> \<not> clashing is"
  by (induction "is") (auto simp: apart_def list_ex_iff)

lemma apart_append: "apart (xs @ ys) \<longleftrightarrow> apart xs \<and> apart ys \<and> (\<forall>x \<in> set xs. \<forall>y \<in> set ys. \<not> intervalsOverlap x y)"
  by (simp add: apart_def sorted_wrt_append)

lemma draft_intervals_times:
  "draft_intervals (sdStart d) (sdEnd d) dates = Inr is \<Longrightarrow> is = concat (map (draft_times d) dates)"
  by (induction dates arbitrary: "is") (auto simp: and_then_Inr_iff draft_times_def)

definition copies :: "string \<Rightarrow> string list \<Rightarrow> shift_draft \<Rightarrow> shift_interval list" where
  "copies e dates d = concat (replicate (count_list (sdEmployees d) e) (concat (map (draft_times d) dates)))"

lemma push_all: "map_get_or [] (foldl (push_intervals is) m es) e = map_get_or [] m e @ concat (replicate (count_list es e) is)"
proof (induction es arbitrary: m)
  case (Cons x es)
  show ?case unfolding foldl_Cons Cons.IH by (simp add: push_intervals_def get_set_or)
qed simp

lemma employee_intervals_copies:
  "employee_intervals dates m drafts = Inr m' \<Longrightarrow> map_get_or [] m' e = map_get_or [] m e @ concat (map (copies e dates) drafts)"
proof (induction drafts arbitrary: m)
  case (Cons d drafts)
  show ?case
  proof (cases "sdEmployees d = []")
    case False
    then obtain "is" where i: "draft_intervals (sdStart d) (sdEnd d) dates = Inr is"
        "employee_intervals dates (foldl (push_intervals is) m (sdEmployees d)) drafts = Inr m'"
      using Cons.prems by (auto simp: and_then_Inr_iff)
    from Cons.IH [OF i(2)] show ?thesis using draft_intervals_times [OF i(1)] by (simp add: push_all copies_def)
  qed (use Cons in \<open>simp add: copies_def\<close>)
qed simp

lemma works_copies: "set (works e dates d) \<subseteq> set (copies e dates d)" "apart (copies e dates d) \<Longrightarrow> apart (works e dates d)"
proof -
  let ?one = "concat (map (draft_times d) dates)"
  have "copies e dates d = ?one @ concat (replicate (count_list (sdEmployees d) e - 1) ?one)" if "e \<in> set (sdEmployees d)"
    using that count_list_0_iff [of "sdEmployees d" e] unfolding copies_def
    by (cases "count_list (sdEmployees d) e") auto
  then show "set (works e dates d) \<subseteq> set (copies e dates d)" "apart (copies e dates d) \<Longrightarrow> apart (works e dates d)"
    by (auto simp: works_def apart_append) (simp_all add: apart_def)
qed

lemma employee_times_copies:
  "set (employee_times dates drafts e) \<subseteq> set (concat (map (copies e dates) drafts)) \<and>
    (apart (concat (map (copies e dates) drafts)) \<longrightarrow> apart (employee_times dates drafts e))"
proof (induction drafts)
  case (Cons d drafts)
  then show ?case
    using works_copies [of e dates d] unfolding employee_times_def list.map concat.simps apart_append set_append by blast
qed (simp add: employee_times_def)

lemma copies_works: "set (copies e dates d) \<subseteq> set (works e dates d)"
  by (auto simp: copies_def works_def count_list_0_iff split: if_splits)

text \<open>The map holds what the employees work.\<close>

lemma employee_intervals_are_times:
  assumes "employee_intervals dates [] drafts = Inr m"
  shows "set (map_get_or [] m e) = set (employee_times dates drafts e)"
    "apart (map_get_or [] m e) \<Longrightarrow> apart (employee_times dates drafts e)"
proof -
  have get: "map_get_or [] m e = concat (map (copies e dates) drafts)"
    using employee_intervals_copies [OF assms, of e] by (simp add: map_get_or_def)
  show "apart (map_get_or [] m e) \<Longrightarrow> apart (employee_times dates drafts e)" using employee_times_copies get by simp
  have "set (concat (map (copies e dates) drafts)) \<subseteq> set (employee_times dates drafts e)"
    using copies_works by (force simp: employee_times_def)
  then show "set (map_get_or [] m e) = set (employee_times dates drafts e)"
    unfolding get using employee_times_copies by blast
qed

lemma shift_proper:
  assumes "toShiftInterval d s e = Inr (Some i)" "clock_ok s" "clock_ok e"
  shows "proper i"
  using assms(1) clock_min_range [OF assms(2)] clock_min_range [OF assms(3)]
  by (auto simp: toShiftInterval_def and_then_Inr_iff Let_def minutes_of_clock [OF assms(2)] minutes_of_clock [OF assms(3)] proper_def)

definition drafts_ok :: "shift_draft list \<Rightarrow> bool" where
  "drafts_ok drafts \<longleftrightarrow> list_all (\<lambda>d. clock_ok (sdStart d) \<and> clock_ok (sdEnd d)) drafts"

lemma times_proper: "drafts_ok drafts \<Longrightarrow> i \<in> set (employee_times dates drafts e) \<Longrightarrow> proper i"
  by (auto simp: drafts_ok_def list_all_iff employee_times_def works_def draft_times_def some_interval_def
      split: if_splits sum.splits option.splits intro: shift_proper)

lemma no_internal_overlap:
  assumes "employee_intervals dates [] drafts = Inr m" "drafts_ok drafts" "\<not> list_ex (hasInternalIntervalOverlap \<circ> snd) m"
  shows "apart (employee_times dates drafts e)"
proof (cases "map_of m e")
  case None
  then have "map_get_or [] m e = []" by (simp add: map_get_or_def)
  then show ?thesis using employee_intervals_are_times [OF assms(1)] by (simp add: apart_def)
next
  case (Some ivs)
  then have get: "map_get_or [] m e = ivs" by (simp add: map_get_or_def)
  have "\<not> hasInternalIntervalOverlap ivs" using assms(3) map_of_SomeD [OF Some] by (auto simp: list_ex_iff)
  moreover have "list_all proper ivs"
    using employee_intervals_are_times(1) [OF assms(1), of e] times_proper [OF assms(2)] get by (auto simp: list_all_iff)
  ultimately have "\<not> clashing (sortIntervals ivs)"
    using overlap_sweep_exact [of "sortIntervals ivs" None] by (simp add: hasInternalIntervalOverlap_def list_all_iff)
  then have "apart ivs" unfolding apart_clashing using clashing_mset [OF mset_sortIntervals, of ivs] by simp
  then show ?thesis using employee_intervals_are_times(2) [OF assms(1)] get by simp
qed

section \<open>An accepted plan\<close>

lemma js_set_full: "length (js_set xs) = length xs \<longleftrightarrow> distinct xs"
  by (metis card_distinct distinct_card length_js_set)

lemma check_drafts_Inr:
  "check_drafts fold_name drafts = Inr () \<longleftrightarrow>
    list_all (\<lambda>d. \<not> draft_incomplete d \<and> int (length (sdEmployees d)) \<le> sdMaxStaff d \<and> fold_name (sdName d) \<noteq> []) drafts \<and>
    distinct (map (fold_name \<circ> sdName) drafts)"
  by (force simp: check_drafts_def assertUniqueActiveShiftNames_def and_then_Inr_iff Let_def list_ex_iff list_all_iff comp_def not_less
      js_set_full)

lemma assignments_per_date_sum: "assignments_per_date drafts = sum_list (map (length \<circ> sdEmployees) drafts)"
proof -
  have "foldl (\<lambda>total d. total + length (sdEmployees d)) k drafts = k + sum_list (map (length \<circ> sdEmployees) drafts)" for k
    by (induction drafts arbitrary: k) auto
  then show ?thesis by (simp add: assignments_per_date_def)
qed

lemma fits_div: "n = 0 \<or> (k :: nat) \<le> m div n \<Longrightarrow> n * k \<le> m"
  by (cases "n = 0") (simp, metis div_times_less_eq_dividend mult.commute mult_le_mono1 order_trans)

lemma check_size_Inr: "check_size drafts dates = Inr () \<Longrightarrow>
    length drafts * length dates \<le> 10000 \<and> assignments_per_date drafts * length dates \<le> 10000"
  by (simp add: check_size_def and_then_Inr_iff MAX_GENERATED_SHIFT_SLOTS_def MAX_GENERATED_SHIFT_ASSIGNMENTS_def not_less fits_div)

lemma lift_plan_Inr [simp]: "lift_plan f r = Inr a \<longleftrightarrow> r = Inr a"
  by (simp add: lift_plan_def split: sum.splits)

lemma planned:
  assumes "planShiftSchedule fold_name today sent = Inr plan"
  obtains startDate m where "nonempty (ssStartDate sent) = Some startDate" "check_drafts fold_name (plDrafts plan) = Inr ()"
    "generateShiftScheduleDates startDate (plRule plan) = Inr (plDates plan)" "check_size (plDrafts plan) (plDates plan) = Inr ()"
    "employee_intervals (plDates plan) [] (plDrafts plan) = Inr m" "\<not> list_ex (hasInternalIntervalOverlap \<circ> snd) m"
  using assms by (auto simp: planShiftSchedule_def Let_def and_then_Inr_iff split: option.splits)

lemma dates_not_nil: "generateShiftScheduleDates startDate rule = Inr dates \<Longrightarrow> dates \<noteq> []"
  by (auto simp: generateShiftScheduleDates_def and_then_Inr_iff split: if_splits)

lemma plan_sound:
  assumes "planShiftSchedule fold_name today sent = Inr plan"
  shows "list_all (\<lambda>d. sdName d \<noteq> [] \<and> sdStart d \<noteq> sdEnd d \<and> 0 < sdMaxStaff d \<and> int (length (sdEmployees d)) \<le> sdMaxStaff d) (plDrafts plan)"
    "distinct (map (fold_name \<circ> sdName) (plDrafts plan))" "plDates plan \<noteq> []"
    "length (plDrafts plan) * length (plDates plan) \<le> 10000"
    "sum_list (map (length \<circ> sdEmployees) (plDrafts plan)) * length (plDates plan) \<le> 10000"
    "drafts_ok (plDrafts plan) \<Longrightarrow> apart (employee_times (plDates plan) (plDrafts plan) e)"
proof -
  obtain startDate m where p: "check_drafts fold_name (plDrafts plan) = Inr ()" "generateShiftScheduleDates startDate (plRule plan) = Inr (plDates plan)"
      "check_size (plDrafts plan) (plDates plan) = Inr ()" "employee_intervals (plDates plan) [] (plDrafts plan) = Inr m"
      "\<not> list_ex (hasInternalIntervalOverlap \<circ> snd) m"
    using planned [OF assms] by metis
  show "list_all (\<lambda>d. sdName d \<noteq> [] \<and> sdStart d \<noteq> sdEnd d \<and> 0 < sdMaxStaff d \<and> int (length (sdEmployees d)) \<le> sdMaxStaff d) (plDrafts plan)"
    "distinct (map (fold_name \<circ> sdName) (plDrafts plan))"
    using p(1) by (force simp: check_drafts_Inr draft_incomplete_def list_all_iff)+
  show "plDates plan \<noteq> []" using dates_not_nil [OF p(2)] .
  show "length (plDrafts plan) * length (plDates plan) \<le> 10000"
    "sum_list (map (length \<circ> sdEmployees) (plDrafts plan)) * length (plDates plan) \<le> 10000"
    using check_size_Inr [OF p(3)] by (simp_all add: assignments_per_date_sum)
  show "apart (employee_times (plDates plan) (plDrafts plan) e)" if "drafts_ok (plDrafts plan)"
    using no_internal_overlap [OF p(4) that p(5)] .
qed

text \<open>C30. An accepted plan is sound: every shift has a name, different times and places for all it is given to, names differ after
  folding, there are dates, at most 10000 slots and 10000 bookings come of it, and no employee has two shifts of the plan (of one
  draft on two dates or of two drafts) at one time, overnight shifts included.\<close>

theorem accepted_plan_is_sound:
  assumes "planShiftSchedule fold_name today sent = Inr plan" "drafts_ok (plDrafts plan)"
  shows "list_all (\<lambda>d. sdName d \<noteq> [] \<and> sdStart d \<noteq> sdEnd d \<and> 0 < sdMaxStaff d \<and> int (length (sdEmployees d)) \<le> sdMaxStaff d) (plDrafts plan) \<and>
    distinct (map (fold_name \<circ> sdName) (plDrafts plan)) \<and> plDates plan \<noteq> [] \<and>
    length (plDrafts plan) * length (plDates plan) \<le> 10000 \<and>
    sum_list (map (length \<circ> sdEmployees) (plDrafts plan)) * length (plDates plan) \<le> 10000 \<and>
    (\<forall>e. apart (employee_times (plDates plan) (plDrafts plan) e))"
  using plan_sound [OF assms(1)] assms(2) by blast

section \<open>The tables after saving\<close>

definition linked :: "store_db \<Rightarrow> bool" where
  "linked db \<longleftrightarrow>
     (\<forall>a \<in> set (dbAssignments db). slot_of db (asSlot a) \<noteq> None) \<and>
     (\<forall>slot \<in> set (dbSlots db). shift_of db slot \<noteq> None \<and> cycle_of db slot \<noteq> None)"

definition fresh_ids :: "new_ids \<Rightarrow> store_db \<Rightarrow> bool" where
  "fresh_ids ids db \<longleftrightarrow> niCycle ids \<noteq> [] \<and> (\<forall>c \<in> set (dbCycles db). cyId c \<noteq> niCycle ids) \<and>
     (\<forall>s \<in> set (dbShifts db). \<forall>i. shId s \<noteq> niShift ids i) \<and> (\<forall>s \<in> set (dbSlots db). \<forall>i j. slId s \<noteq> niSlot ids i j) \<and>
     (\<forall>a \<in> set (dbAssignments db). \<forall>i k j. asId a \<noteq> niAssignment ids i k j) \<and>
     (\<forall>i j i' j'. niSlot ids i j = niSlot ids i' j' \<longrightarrow> i = i' \<and> j = j')"

definition saved_db :: "new_ids \<Rightarrow> string \<Rightarrow> instant \<Rightarrow> store_db \<Rightarrow> shift_plan \<Rightarrow> store_db" where
  "saved_db ids storeId now db plan =
     (let ds = enumerate 0 (plDrafts plan) in
      db\<lparr>dbCycles := dbCycles db @ [new_cycle ids storeId], dbShifts := dbShifts db @ map (new_shift ids storeId) ds,
         dbSlots := dbSlots db @ concat (map (new_slots ids (plDates plan)) ds),
         dbAssignments := dbAssignments db @ all_new_assignments ids now plan\<rparr>)"

lemma save_drafts:
  "foldl (save_draft ids storeId now dates) db ds =
    db\<lparr>dbShifts := dbShifts db @ map (new_shift ids storeId) ds, dbSlots := dbSlots db @ concat (map (new_slots ids dates) ds),
       dbAssignments := dbAssignments db @ concat (map (new_assignments ids now dates) ds)\<rparr>"
  by (induction ds arbitrary: db) (simp_all add: save_draft_def)

lemma save_plan_saved: "fst (save_plan ids storeId now startDate db plan) = saved_db ids storeId now db plan"
  by (simp add: save_plan_def saved_db_def save_drafts all_new_assignments_def Let_def)

lemma persisted:
  assumes "persistShiftSchedule fold_name ids now db storeId account startDate plan = Inr (db', answer)"
  shows "db' = saved_db ids storeId now db plan"
    "list_ex (\<lambda>d. sdEmployees d \<noteq> []) (plDrafts plan) \<longrightarrow>
      assertShiftScheduleAvailabilityAtCommit db storeId (plDrafts plan) (plDates plan) = Inr ()"
  using assms save_plan_saved [of ids storeId now startDate db plan]
  by (auto simp: persistShiftSchedule_def and_then_Inr_iff split: option.splits if_splits)

lemma find_unique: "x \<in> set xs \<Longrightarrow> P x \<Longrightarrow> (\<And>y. y \<in> set xs \<Longrightarrow> P y \<Longrightarrow> y = x) \<Longrightarrow> find P xs = Some x"
proof (cases "find P xs")
  case None
  moreover assume "x \<in> set xs" "P x"
  ultimately show ?thesis by (simp add: find_None_iff)
next
  case (Some y)
  moreover assume "\<And>y. y \<in> set xs \<Longrightarrow> P y \<Longrightarrow> y = x"
  ultimately show ?thesis using find_Some_in [OF Some] by simp
qed

lemma find_old: "find P xs \<noteq> None \<Longrightarrow> find P (xs @ ys) = find P xs"
  by (induction xs) auto

lemma find_new: "\<forall>x \<in> set xs. \<not> P x \<Longrightarrow> find P (xs @ ys) = find P ys"
  by (induction xs) auto

lemma set_enumerate0: "set (enumerate 0 xs) = {(i, xs ! i) | i. i < length xs}"
  by (auto simp: in_set_conv_nth nth_enumerate_eq) (metis add_0 length_enumerate nth_enumerate_eq)

lemma old_reads:
  assumes "linked db"
  shows "a \<in> set (dbAssignments db) \<Longrightarrow> slot_of (saved_db ids storeId now db plan) (asSlot a) = slot_of db (asSlot a)"
    "slot_of db i = Some slot \<Longrightarrow> slot_of (saved_db ids storeId now db plan) i = Some slot"
    "slot \<in> set (dbSlots db) \<Longrightarrow> shift_of (saved_db ids storeId now db plan) slot = shift_of db slot"
    "slot \<in> set (dbSlots db) \<Longrightarrow> cycle_of (saved_db ids storeId now db plan) slot = cycle_of db slot"
proof -
  let ?db = "saved_db ids storeId now db plan"
  have slot: "slot_of db i \<noteq> None \<Longrightarrow> slot_of ?db i = slot_of db i" for i
    by (simp add: slot_of_def saved_db_def Let_def find_old)
  then show "a \<in> set (dbAssignments db) \<Longrightarrow> slot_of ?db (asSlot a) = slot_of db (asSlot a)"
    "slot_of db i = Some slot \<Longrightarrow> slot_of ?db i = Some slot"
    using assms by (simp_all add: linked_def)
  show "slot \<in> set (dbSlots db) \<Longrightarrow> shift_of ?db slot = shift_of db slot"
    using assms by (simp add: linked_def shift_of_def saved_db_def Let_def find_old)
  show "slot \<in> set (dbSlots db) \<Longrightarrow> cycle_of ?db slot = cycle_of db slot"
    using assms by (auto simp: linked_def cycle_of_def saved_db_def Let_def find_old split: option.splits)
qed

text \<open>A slot of the plan, by its draft and date.\<close>

definition plan_slot :: "new_ids \<Rightarrow> shift_plan \<Rightarrow> nat \<Rightarrow> nat \<Rightarrow> slot_row" where
  "plan_slot ids plan i j = new_slot ids (i, plDrafts plan ! i) (j, plDates plan ! j)"

lemma new_slots_set:
  "set (concat (map (new_slots ids (plDates plan)) (enumerate 0 (plDrafts plan)))) =
    {plan_slot ids plan i j | i j. i < length (plDrafts plan) \<and> j < length (plDates plan)}"
  by (auto simp: set_enumerate0 new_slots_def plan_slot_def)

lemma saved_slots:
  "slot \<in> set (dbSlots (saved_db ids storeId now db plan)) \<longleftrightarrow> slot \<in> set (dbSlots db) \<or>
    (\<exists>i j. i < length (plDrafts plan) \<and> j < length (plDates plan) \<and> slot = plan_slot ids plan i j)"
proof -
  have "set (dbSlots (saved_db ids storeId now db plan)) = set (dbSlots db) \<union>
      set (concat (map (new_slots ids (plDates plan)) (enumerate 0 (plDrafts plan))))"
    by (simp add: saved_db_def Let_def)
  then show ?thesis unfolding new_slots_set by blast
qed

lemma plan_slot_id [simp]: "slId (plan_slot ids plan i j) = niSlot ids i j"
  by (simp add: plan_slot_def new_slot_def)

lemma new_slot_found:
  assumes "fresh_ids ids db" "i < length (plDrafts plan)" "j < length (plDates plan)"
  shows "slot_of (saved_db ids storeId now db plan) (niSlot ids i j) = Some (plan_slot ids plan i j)"
proof -
  have "\<forall>x \<in> set (dbSlots db). slId x \<noteq> niSlot ids i j" using assms(1) by (auto simp: fresh_ids_def)
  moreover have "find (\<lambda>r. slId r = niSlot ids i j) (concat (map (new_slots ids (plDates plan)) (enumerate 0 (plDrafts plan)))) =
      Some (plan_slot ids plan i j)"
  proof (rule find_unique)
    show "plan_slot ids plan i j \<in> set (concat (map (new_slots ids (plDates plan)) (enumerate 0 (plDrafts plan))))"
      unfolding new_slots_set using assms(2,3) by blast
    show "y = plan_slot ids plan i j" if "y \<in> set (concat (map (new_slots ids (plDates plan)) (enumerate 0 (plDrafts plan))))"
        "slId y = niSlot ids i j" for y
      using that assms(1) unfolding new_slots_set fresh_ids_def by (clarsimp, metis)
  qed simp
  ultimately show ?thesis by (simp add: slot_of_def saved_db_def Let_def find_new)
qed

lemma new_cycle_found:
  assumes "fresh_ids ids db"
  shows "cycle_of (saved_db ids storeId now db plan) (plan_slot ids plan i j) = Some (new_cycle ids storeId)"
proof -
  have "find (\<lambda>r. cyId r = niCycle ids) (dbCycles db @ [new_cycle ids storeId]) = Some (new_cycle ids storeId)"
    using assms by (subst find_new) (simp_all add: fresh_ids_def new_cycle_def)
  moreover have "nonempty (slCycle (plan_slot ids plan i j)) = Some (niCycle ids)"
    using assms by (simp add: plan_slot_def new_slot_def nonempty_def fresh_ids_def)
  ultimately show ?thesis by (simp add: cycle_of_def saved_db_def Let_def)
qed

text \<open>Every new booking is one of an employee of a draft in a slot of the draft.\<close>

lemma new_assignment_cases:
  assumes "a \<in> set (all_new_assignments ids now plan)"
  obtains i j where "i < length (plDrafts plan)" "j < length (plDates plan)" "asSlot a = niSlot ids i j"
    "asEmployee a \<in> set (sdEmployees (plDrafts plan ! i))" "asStatus a = APPROVED" "\<exists>k. asId a = niAssignment ids i k j"
proof -
  obtain i where i: "i < length (plDrafts plan)" "a \<in> set (new_assignments ids now (plDates plan) (i, plDrafts plan ! i))"
    using assms by (auto simp: all_new_assignments_def set_enumerate0)
  then obtain k j where kj: "k < length (sdEmployees (plDrafts plan ! i))" "j < length (plDates plan)"
      "a = new_assignment ids now i (k, sdEmployees (plDrafts plan ! i) ! k) (j, plan_slot ids plan i j)"
    by (auto simp: new_assignments_def set_enumerate0 new_slots_def plan_slot_def nth_enumerate_eq)
  from kj(3) have "asSlot a = niSlot ids i j" "asEmployee a = sdEmployees (plDrafts plan ! i) ! k" "asStatus a = APPROVED"
      "asId a = niAssignment ids i k j" by (simp_all add: new_assignment_def)
  then show thesis using that [OF i(1) kj(2)] kj(1) nth_mem by metis
qed


section \<open>Nobody is booked twice in the active cycles\<close>

lemma sets_overlap_iff: "intervalSetsOverlap ys zs \<longleftrightarrow> (\<exists>y \<in> set ys. \<exists>z \<in> set zs. intervalsOverlap y z)"
  using two_pointers_exact [of "sortIntervals ys" "sortIntervals zs"] by (simp add: intervalSetsOverlap_def)

text \<open>The time a booking takes in the active cycles of a store, as the check at commit reads it.\<close>

definition in_active_cycle :: "store_db \<Rightarrow> string \<Rightarrow> slot_row \<Rightarrow> bool" where
  "in_active_cycle db storeId slot \<longleftrightarrow>
     (case cycle_of db slot of None \<Rightarrow> False | Some cycle \<Rightarrow> cyStore cycle = storeId \<and> cyStatus cycle = CYCLE_ACTIVE)"

definition active_interval :: "store_db \<Rightarrow> string \<Rightarrow> assignment_row \<Rightarrow> shift_interval option" where
  "active_interval db storeId a =
     (case slot_of db (asSlot a) of
        None \<Rightarrow> None
      | Some slot \<Rightarrow>
          if asStatus a \<noteq> CANCELLED \<and> in_active_cycle db storeId slot
          then (case commit_interval db a of Inr i \<Rightarrow> i | Inl _ \<Rightarrow> None) else None)"

definition once_in_active :: "store_db \<Rightarrow> bool" where
  "once_in_active db \<longleftrightarrow>
     (\<forall>a \<in> set (dbAssignments db). \<forall>b \<in> set (dbAssignments db). \<forall>storeId.
        asId a \<noteq> asId b \<and> asSlot a \<noteq> asSlot b \<and> asEmployee a = asEmployee b \<longrightarrow>
        \<not> intervals_clash (active_interval db storeId a) (active_interval db storeId b))"

lemma commit_interval_cases:
  assumes "catalog_ok db" "slot_of db (asSlot a) = Some slot" "slDate slot = day_string n" "full_day n"
  shows "commit_interval db a = Inr (case (start_of db slot, end_of db slot) of
      (Some s, Some e) \<Rightarrow> Some (day_interval s e n) | _ \<Rightarrow> None)"
proof -
  have "take 10 (slDate slot) = slDate slot" using assms(3) length_day_string [OF assms(4)] by simp
  then have "commit_interval db a = shift_interval_of db a"
    unfolding commit_interval_def shift_interval_of_def assms(2) option.case by (simp only:)
  then show ?thesis using shift_interval_cases [OF assms] by simp
qed

lemma old_active_interval:
  assumes "linked db" "a \<in> set (dbAssignments db)"
  shows "active_interval (saved_db ids storeId now db plan) st a = active_interval db st a"
proof -
  let ?db = "saved_db ids storeId now db plan"
  obtain slot where slot: "slot_of db (asSlot a) = Some slot" using assms by (auto simp: linked_def)
  then have m: "slot \<in> set (dbSlots db)" using slot_of_member by blast
  note reads = old_reads [OF assms(1)]
  have "slot_of ?db (asSlot a) = Some slot" using reads(2) [OF slot] .
  moreover have "in_active_cycle ?db st slot = in_active_cycle db st slot" by (simp add: in_active_cycle_def reads(4) [OF m])
  moreover have "start_of ?db slot = start_of db slot" "end_of ?db slot = end_of db slot"
    by (simp_all add: start_of_def end_of_def reads(3) [OF m])
  ultimately show ?thesis by (simp add: active_interval_def commit_interval_def slot)
qed

definition dates_ok :: "string list \<Rightarrow> int list \<Rightarrow> bool" where
  "dates_ok dates ns \<longleftrightarrow> dates = map day_string ns \<and> ns \<noteq> [] \<and> sorted ns \<and> list_all (\<lambda>n. full_day (n - 1) \<and> full_day n \<and> full_day (n + 1)) ns"

lemma draft_times_day: "full_day n \<Longrightarrow> clock_ok (sdStart d) \<Longrightarrow> clock_ok (sdEnd d) \<Longrightarrow>
    draft_times d (day_string n) = [day_interval (sdStart d) (sdEnd d) n]"
  by (simp add: draft_times_def some_interval_def shift_interval_day)

lemma clock_not_nil: "clock_ok t \<Longrightarrow> t \<noteq> []"
  by (auto simp: clock_ok_def is_hms_def)

lemma new_active_interval:
  assumes "fresh_ids ids db" "i < length (plDrafts plan)" "j < length (plDates plan)" "dates_ok (plDates plan) ns"
    "drafts_ok (plDrafts plan)" "asSlot a = niSlot ids i j" "asStatus a = APPROVED"
  shows "active_interval (saved_db ids storeId now db plan) st a =
    (if st = storeId then Some (day_interval (sdStart (plDrafts plan ! i)) (sdEnd (plDrafts plan ! i)) (ns ! j)) else None)"
proof -
  let ?db = "saved_db ids storeId now db plan" and ?slot = "plan_slot ids plan i j" and ?d = "plDrafts plan ! i"
  have clocks: "clock_ok (sdStart ?d)" "clock_ok (sdEnd ?d)" using assms(2,5) by (auto simp: drafts_ok_def list_all_iff)
  have j: "j < length ns" "slDate ?slot = day_string (ns ! j)"
    using assms(3,4) by (auto simp: dates_ok_def plan_slot_def new_slot_def)
  then have full: "full_day (ns ! j)" using assms(4) by (auto simp: dates_ok_def list_all_iff)
  then have date: "slDate ?slot \<noteq> []" using j(2) length_day_string by fastforce
  have found: "slot_of ?db (asSlot a) = Some ?slot" using new_slot_found [OF assms(1-3)] assms(6) by simp
  have "start_of ?db ?slot = Some (sdStart ?d)" "end_of ?db ?slot = Some (sdEnd ?d)"
    using clocks clock_not_nil by (simp_all add: start_of_def end_of_def plan_slot_def new_slot_def clock_or_def nonempty_def)
  then have "commit_interval ?db a = Inr (Some (day_interval (sdStart ?d) (sdEnd ?d) (ns ! j)))"
    using found date j(2) full clocks by (simp add: commit_interval_def shift_interval_day)
  then show ?thesis
    using found new_cycle_found [OF assms(1)] assms(7) by (simp add: active_interval_def in_active_cycle_def new_cycle_def)
qed


lemma check_commit_each: "check_commit proposed booked leave es = Inr () \<Longrightarrow> e \<in> set es \<Longrightarrow>
    \<not> intervalSetsOverlap (map_get_or [] proposed e) (map_get_or [] booked e)"
  by (induction es) (auto split: if_splits)

lemma booked_intervals_keep: "booked_intervals db m as = Inr m' \<Longrightarrow> set (map_get_or [] m e) \<subseteq> set (map_get_or [] m' e)"
proof (induction "as" arbitrary: m)
  case (Cons a as')
  then obtain i where i: "booked_intervals db (case i of Some x \<Rightarrow> push_intervals [x] m (asEmployee a) | None \<Rightarrow> m) as' = Inr m'"
    by (auto simp: and_then_Inr_iff)
  from Cons.IH [OF i] show ?case by (auto simp: push_intervals_def get_set_or split: option.splits if_splits)
qed simp

lemma booked_intervals_hold:
  "booked_intervals db m as = Inr m' \<Longrightarrow> a \<in> set as \<Longrightarrow> commit_interval db a = Inr (Some x) \<Longrightarrow>
    x \<in> set (map_get_or [] m' (asEmployee a))"
proof (induction "as" arbitrary: m)
  case (Cons b as')
  then obtain i where i: "commit_interval db b = Inr i"
      "booked_intervals db (case i of Some y \<Rightarrow> push_intervals [y] m (asEmployee b) | None \<Rightarrow> m) as' = Inr m'"
    by (auto simp: and_then_Inr_iff)
  show ?case
  proof (cases "a = b")
    case True
    then have "i = Some x" using i(1) Cons.prems(3) by simp
    then have "x \<in> set (map_get_or [] (case i of Some y \<Rightarrow> push_intervals [y] m (asEmployee b) | None \<Rightarrow> m) (asEmployee a))"
      using True by (simp add: push_intervals_def get_set_or)
    then show ?thesis using booked_intervals_keep [OF i(2)] by blast
  qed (use Cons.IH [OF i(2)] Cons.prems(2,3) in auto)
qed simp

lemma commit_free:
  assumes "assertShiftScheduleAvailabilityAtCommit db st drafts dates = Inr ()" "e \<in> set (chosen_employees drafts)"
    and "addDays_date (hd dates) (- 1) = Inr rangeStart" "addDays_date (last dates) 1 = Inr rangeEnd"
    and "a \<in> set (dbAssignments db)" "commit_booking db st (chosen_employees drafts) rangeStart rangeEnd a" "asEmployee a = e"
    and "commit_interval db a = Inr (Some x)" "y \<in> set (employee_times dates drafts e)"
  shows "\<not> intervalsOverlap y x"
proof -
  have "check_commit_rows db st drafts dates rangeStart rangeEnd = Inr ()"
    using assms(1-4) by (auto simp: assertShiftScheduleAvailabilityAtCommit_def and_then_Inr_iff Let_def lift_save_def split: if_splits)
  then obtain booked leave proposed
    where b: "booked_intervals db [] (filter (commit_booking db st (chosen_employees drafts) rangeStart rangeEnd) (dbAssignments db)) = Inr booked"
      and p: "employee_intervals dates [] drafts = Inr proposed"
      and c: "check_commit proposed booked leave (chosen_employees drafts) = Inr ()"
    by (auto simp: check_commit_rows_def and_then_Inr_iff Let_def lift_save_def split: sum.splits)
  have "x \<in> set (map_get_or [] booked e)" using booked_intervals_hold [OF b _ assms(8)] assms(5-7) by simp
  moreover have "y \<in> set (map_get_or [] proposed e)" using employee_intervals_are_times(1) [OF p] assms(9) by simp
  moreover have "\<not> intervalSetsOverlap (map_get_or [] proposed e) (map_get_or [] booked e)" using check_commit_each [OF c assms(2)] .
  ultimately show ?thesis using sets_overlap_iff by blast
qed

lemma sorted_ends: "sorted (xs :: int list) \<Longrightarrow> x \<in> set xs \<Longrightarrow> hd xs \<le> x \<and> x \<le> last xs"
  by (induction xs) (auto split: if_splits)

text \<open>A new booking and one that was there before.\<close>

lemma new_meets_old:
  assumes "catalog_ok db" "linked db" "assertShiftScheduleAvailabilityAtCommit db st drafts dates = Inr ()"
    and "dates_ok dates ns" "drafts_ok drafts" "d \<in> set drafts" "n \<in> set ns"
    and "b \<in> set (dbAssignments db)" "asEmployee b \<in> set (sdEmployees d)"
  shows "\<not> intervals_clash (Some (day_interval (sdStart d) (sdEnd d) n)) (active_interval db st b)"
proof
  let ?y = "day_interval (sdStart d) (sdEnd d) n"
  assume "intervals_clash (Some ?y) (active_interval db st b)"
  then obtain x where x: "active_interval db st b = Some x" "intervalsOverlap ?y x" by (auto simp: intervals_clash_Some)
  obtain slot where slot: "slot_of db (asSlot b) = Some slot" using assms(2,8) by (auto simp: linked_def)
  then have live: "asStatus b \<noteq> CANCELLED" "in_active_cycle db st slot" using x(1) by (auto simp: active_interval_def split: if_splits)
  obtain k where k: "full_day k" "slDate slot = day_string k" using catalog_slot [OF assms(1) slot] by metis
  note iv = commit_interval_cases [OF assms(1) slot k(2,1)]
  obtain s e where se: "start_of db slot = Some s" "end_of db slot = Some e" "x = day_interval s e k" "commit_interval db b = Inr (Some x)"
    using x(1) live iv slot by (auto simp: active_interval_def split: option.splits)
  have clocks: "clock_ok s" "clock_ok e" "clock_ok (sdStart d)" "clock_ok (sdEnd d)"
    using se(1,2) assms(1,5,6) slot_of_member [OF slot] by (auto simp: catalog_ok_def drafts_ok_def list_all_iff)
  have near: "n - 1 \<le> k" "k \<le> n + 1" using clash_is_near [OF clocks(3,4,1,2)] x(2) se(3) by auto
  have ns: "dates = map day_string ns" "ns \<noteq> []" "sorted ns" "\<And>m. m \<in> set ns \<Longrightarrow> full_day (m - 1) \<and> full_day m \<and> full_day (m + 1)"
    using assms(4) by (auto simp: dates_ok_def list_all_iff)
  have ends: "full_day (hd ns - 1)" "full_day (hd ns)" "full_day (last ns)" "full_day (last ns + 1)"
    using ns(4) [OF hd_in_set [OF ns(2)]] ns(4) [OF last_in_set [OF ns(2)]] by auto
  have "hd ns \<le> n" "n \<le> last ns" using sorted_ends ns(3) assms(7) by blast+
  then have range: "day_string (hd ns - 1) \<le> slDate slot" "slDate slot \<le> day_string (last ns + 1)"
    using near ends k by (simp_all add: day_string_le)
  have chosen: "asEmployee b \<in> set (chosen_employees drafts)" using assms(6,9) by (auto simp: chosen_employees_def)
  have "addDays_date (hd dates) (- 1) = Inr (day_string (hd ns - 1))" "addDays_date (last dates) 1 = Inr (day_string (last ns + 1))"
    using addDays_date_day [of "hd ns" "- 1"] addDays_date_day [of "last ns" 1] ends ns(1,2) by (simp_all add: hd_map last_map)
  moreover have "commit_booking db st (chosen_employees drafts) (day_string (hd ns - 1)) (day_string (last ns + 1)) b"
    using chosen live range slot by (simp add: commit_booking_def in_active_cycle_def)
  moreover have "?y \<in> set (employee_times dates drafts (asEmployee b))"
    using assms(6,7,9) ns(1) ns(4) [OF assms(7)] draft_times_day [of n d] clocks(3,4)
    by (force simp: employee_times_def works_def)
  ultimately show False using commit_free [OF assms(3) chosen _ _ assms(8) _ refl se(4)] x(2) by blast
qed


text \<open>Two new bookings.\<close>

lemma apart_concat_less: "apart (concat xss) \<Longrightarrow> i < j \<Longrightarrow> j < length xss \<Longrightarrow> x \<in> set (xss ! i) \<Longrightarrow> y \<in> set (xss ! j) \<Longrightarrow> \<not> intervalsOverlap x y"
proof (induction xss arbitrary: i j)
  case (Cons xs xss)
  then obtain j' where j: "j = Suc j'" by (cases j) auto
  show ?case
  proof (cases i)
    case 0
    then have "y \<in> set (concat xss)" using Cons.prems(3,5) j by auto
    then show ?thesis using Cons.prems(1,4) 0 by (auto simp: apart_append)
  qed (use Cons j in \<open>auto simp: apart_append\<close>)
qed simp

lemma apart_concat_nth: "apart (concat xss) \<Longrightarrow> i < length xss \<Longrightarrow> apart (xss ! i)"
  by (induction xss arbitrary: i) (auto simp: apart_append nth_Cons split: nat.split)

lemma works_days:
  assumes "dates_ok dates ns" "clock_ok (sdStart d)" "clock_ok (sdEnd d)" "e \<in> set (sdEmployees d)"
  shows "works e dates d = map (day_interval (sdStart d) (sdEnd d)) ns"
proof -
  have "list_all full_day ns" "dates = map day_string ns" using assms(1) by (auto simp: dates_ok_def list_all_iff)
  moreover have "list_all full_day ms \<Longrightarrow> concat (map (draft_times d) (map day_string ms)) = map (day_interval (sdStart d) (sdEnd d)) ms" for ms
    by (induction ms) (simp_all add: draft_times_day assms(2,3))
  ultimately show ?thesis using assms(4) by (simp add: works_def)
qed

lemma new_meets_new:
  assumes "apart (employee_times dates drafts e)" "dates_ok dates ns" "drafts_ok drafts"
    and "i < length drafts" "j < length ns" "e \<in> set (sdEmployees (drafts ! i))"
    and "i' < length drafts" "j' < length ns" "e \<in> set (sdEmployees (drafts ! i'))" "i < i' \<or> i = i' \<and> j < j'"
  shows "\<not> intervalsOverlap (day_interval (sdStart (drafts ! i)) (sdEnd (drafts ! i)) (ns ! j))
    (day_interval (sdStart (drafts ! i')) (sdEnd (drafts ! i')) (ns ! j'))"
proof -
  have days: "works e dates (drafts ! k) = map (day_interval (sdStart (drafts ! k)) (sdEnd (drafts ! k))) ns"
    if "k < length drafts" "e \<in> set (sdEmployees (drafts ! k))" for k
    using works_days [OF assms(2) _ _ that(2)] that(1) assms(3) by (auto simp: drafts_ok_def list_all_iff)
  show ?thesis
  proof (cases "i = i'")
    case True
    have "apart (map (works e dates) drafts ! i)" using apart_concat_nth [of "map (works e dates) drafts" i] assms(1,4) by (simp add: employee_times_def)
    then have "apart (map (day_interval (sdStart (drafts ! i)) (sdEnd (drafts ! i))) ns)" using days assms(4,6) by simp
    then show ?thesis using True assms(8,10) sorted_wrt_nth_less [of _ ns j j'] by (auto simp: apart_def sorted_wrt_map)
  next
    case False
    then have "i < i'" using assms(10) by blast
    then show ?thesis
      using apart_concat_less [of "map (works e dates) drafts" i i'] assms(1,4-9) days by (simp add: employee_times_def)
  qed
qed

lemma once_in_activeI:
  assumes "\<And>a b st. a \<in> set (dbAssignments db) \<Longrightarrow> b \<in> set (dbAssignments db) \<Longrightarrow> asId a \<noteq> asId b \<Longrightarrow> asSlot a \<noteq> asSlot b \<Longrightarrow>
    asEmployee a = asEmployee b \<Longrightarrow> \<not> intervals_clash (active_interval db st a) (active_interval db st b)"
  shows "once_in_active db"
  using assms unfolding once_in_active_def by blast

lemma once_in_activeD:
  "once_in_active db \<Longrightarrow> a \<in> set (dbAssignments db) \<Longrightarrow> b \<in> set (dbAssignments db) \<Longrightarrow> asId a \<noteq> asId b \<Longrightarrow> asSlot a \<noteq> asSlot b \<Longrightarrow>
    asEmployee a = asEmployee b \<Longrightarrow> \<not> intervals_clash (active_interval db st a) (active_interval db st b)"
  unfolding once_in_active_def by blast

lemma saved_once:
  assumes "catalog_ok db" "linked db" "fresh_ids ids db" "once_in_active db" "dates_ok (plDates plan) ns" "drafts_ok (plDrafts plan)"
    and "\<And>e. apart (employee_times (plDates plan) (plDrafts plan) e)"
    and free: "list_ex (\<lambda>d. sdEmployees d \<noteq> []) (plDrafts plan) \<longrightarrow>
      assertShiftScheduleAvailabilityAtCommit db storeId (plDrafts plan) (plDates plan) = Inr ()"
  shows "once_in_active (saved_db ids storeId now db plan)"
proof (rule once_in_activeI)
  let ?db = "saved_db ids storeId now db plan" and ?ds = "plDrafts plan"
  let ?day = "\<lambda>i j. day_interval (sdStart (?ds ! i)) (sdEnd (?ds ! i)) (ns ! j)"
  have len: "length (plDates plan) = length ns" using assms(5) by (simp add: dates_ok_def)
  have new: "\<exists>i j. i < length ?ds \<and> j < length ns \<and> asSlot a = niSlot ids i j \<and> asEmployee a \<in> set (sdEmployees (?ds ! i)) \<and>
      active_interval ?db st a = (if st = storeId then Some (?day i j) else None)"
    if "a \<in> set (all_new_assignments ids now plan)" for a st
    using new_assignment_cases [OF that] new_active_interval [OF assms(3) _ _ assms(5,6)] len by metis
  have meets_old: "\<not> intervals_clash (active_interval ?db st a) (active_interval ?db st b)"
    if a: "a \<in> set (all_new_assignments ids now plan)" and b: "b \<in> set (dbAssignments db)" "asEmployee a = asEmployee b" for a b st
  proof -
    obtain i j where ij: "i < length ?ds" "j < length ns" "asEmployee a \<in> set (sdEmployees (?ds ! i))"
        "active_interval ?db st a = (if st = storeId then Some (?day i j) else None)" using new [OF a] by blast
    have "list_ex (\<lambda>d. sdEmployees d \<noteq> []) ?ds" using ij(1,3) unfolding list_ex_iff by (metis empty_iff empty_set nth_mem)
    then have "assertShiftScheduleAvailabilityAtCommit db storeId ?ds (plDates plan) = Inr ()" using free by blast
    from new_meets_old [OF assms(1,2) this assms(5,6), of "?ds ! i" "ns ! j" b] show ?thesis
      using ij b by (simp add: old_active_interval [OF assms(2)])
  qed
  fix a b st
  assume m: "a \<in> set (dbAssignments ?db)" "b \<in> set (dbAssignments ?db)" and ne: "asId a \<noteq> asId b" "asSlot a \<noteq> asSlot b"
    and e: "asEmployee a = asEmployee b"
  have split: "x \<in> set (dbAssignments ?db) \<longleftrightarrow> x \<in> set (dbAssignments db) \<or> x \<in> set (all_new_assignments ids now plan)" for x
    by (simp add: saved_db_def Let_def)
  consider "a \<in> set (dbAssignments db)" "b \<in> set (dbAssignments db)"
    | "a \<in> set (all_new_assignments ids now plan)" "b \<in> set (dbAssignments db)"
    | "a \<in> set (dbAssignments db)" "b \<in> set (all_new_assignments ids now plan)"
    | "a \<in> set (all_new_assignments ids now plan)" "b \<in> set (all_new_assignments ids now plan)"
    using m split by blast
  then show "\<not> intervals_clash (active_interval ?db st a) (active_interval ?db st b)"
  proof cases
    case 1
    then show ?thesis using once_in_activeD [OF assms(4) _ _ ne e] by (simp add: old_active_interval [OF assms(2)])
  next
    case 2
    then show ?thesis using meets_old e by blast
  next
    case 3
    then show ?thesis using meets_old [OF 3(2,1) e [symmetric]] by (simp add: clash_sym [of "active_interval ?db st a"])
  next
    case 4
    obtain i j where a: "i < length ?ds" "j < length ns" "asSlot a = niSlot ids i j" "asEmployee a \<in> set (sdEmployees (?ds ! i))"
        "active_interval ?db st a = (if st = storeId then Some (?day i j) else None)" using new [OF 4(1)] by blast
    obtain i' j' where b: "i' < length ?ds" "j' < length ns" "asSlot b = niSlot ids i' j'" "asEmployee b \<in> set (sdEmployees (?ds ! i'))"
        "active_interval ?db st b = (if st = storeId then Some (?day i' j') else None)" using new [OF 4(2)] by blast
    have "i \<noteq> i' \<or> j \<noteq> j'" using ne(2) a(3) b(3) by auto
    then have "\<not> intervalsOverlap (?day i j) (?day i' j')"
      using new_meets_new [OF assms(7,5,6) a(1,2) _ b(1,2)] new_meets_new [OF assms(7,5,6) b(1,2) _ a(1,2)] a(4) b(4) e
        intervalsOverlap_sym [of "?day i j" "?day i' j'"] by (metis nat_neq_iff)
    then show ?thesis unfolding a(5) b(5) by (simp add: intervals_clash_def)
  qed
qed


section \<open>No shift is overfilled\<close>

lemma filter_concat_length: "length (filter P (concat xss)) = sum_list (map (\<lambda>xs. length (filter P xs)) xss)"
  by (induction xss) simp_all

lemma sum_list_only: "i < n \<Longrightarrow> (\<And>k. k < n \<Longrightarrow> k \<noteq> i \<Longrightarrow> f k = (0 :: nat)) \<Longrightarrow> sum_list (map f [0..<n]) = f i"
proof (induction n)
  case (Suc n)
  show ?case
  proof (cases "i = n")
    case True
    then have "sum_list (map f [0..<n]) = 0" using Suc.prems(2) by simp
    then show ?thesis using True by simp
  qed (use Suc in simp)
qed simp

lemma enumerate_upt: "enumerate 0 xs = map (\<lambda>i. (i, xs ! i)) [0..<length xs]"
  by (rule nth_equalityI) (simp_all add: nth_enumerate_eq)

text \<open>The bookings of one new slot: one for each employee chosen.\<close>

lemma new_slot_bookings:
  assumes "fresh_ids ids db" "i < length (plDrafts plan)" "j < length (plDates plan)"
  shows "length (filter (\<lambda>a. asSlot a = niSlot ids i j \<and> asStatus a \<noteq> CANCELLED) (all_new_assignments ids now plan)) =
    length (sdEmployees (plDrafts plan ! i))"
proof -
  let ?P = "\<lambda>a. asSlot a = niSlot ids i j \<and> asStatus a \<noteq> CANCELLED" and ?n = "length (plDates plan)"
  have inj: "niSlot ids k l = niSlot ids i j \<longleftrightarrow> k = i \<and> l = j" for k l using assms(1) unfolding fresh_ids_def by metis
  have P: "?P (new_assignment ids now k (m, e) (l, plan_slot ids plan k l)) \<longleftrightarrow> k = i \<and> l = j" for k m e l
    by (simp add: new_assignment_def inj)
  have row: "map (new_assignment ids now k (m, e)) (enumerate 0 (new_slots ids (plDates plan) (k, plDrafts plan ! k))) =
      map (\<lambda>l. new_assignment ids now k (m, e) (l, plan_slot ids plan k l)) [0..<?n]" for k m e
    by (rule nth_equalityI) (simp_all add: new_slots_def nth_enumerate_eq plan_slot_def)
  have one: "length (filter ?P (map (new_assignment ids now k me) (enumerate 0 (new_slots ids (plDates plan) (k, plDrafts plan ! k))))) =
      (if k = i then 1 else 0)" for k me
  proof (cases me)
    case (Pair m e)
    have "length (filter (\<lambda>l. k = i \<and> l = j) [0..<?n]) = (if k = i then 1 else 0)"
    proof -
      have "{l. l < ?n \<and> [0..<?n] ! l = j} = {j}" using assms(3) by auto
      then show ?thesis by (simp add: length_filter_conv_card)
    qed
    then show ?thesis unfolding Pair row filter_map comp_def P length_map by simp
  qed
  have draft: "length (filter ?P (new_assignments ids now (plDates plan) (k, plDrafts plan ! k))) =
      (if k = i then length (sdEmployees (plDrafts plan ! k)) else 0)" for k
    unfolding new_assignments_def filter_concat_length map_map comp_def fst_conv snd_conv one by (simp add: sum_list_triv)
  show ?thesis
    unfolding all_new_assignments_def filter_concat_length enumerate_upt [of "plDrafts plan"] map_map comp_def draft
    using sum_list_only [OF assms(2), of "\<lambda>k. if k = i then length (sdEmployees (plDrafts plan ! k)) else 0"] by simp
qed


lemma saved_active_count:
  "active_count (saved_db ids storeId now db plan) i = active_count db i +
    length (filter (\<lambda>a. asSlot a = i \<and> asStatus a \<noteq> CANCELLED) (all_new_assignments ids now plan))"
  by (simp add: active_count_def saved_db_def Let_def)

lemma saved_never_overfull:
  assumes "linked db" "fresh_ids ids db" "never_overfull db"
    and "list_all (\<lambda>d. int (length (sdEmployees d)) \<le> sdMaxStaff d) (plDrafts plan)"
  shows "never_overfull (saved_db ids storeId now db plan)"
proof -
  let ?db = "saved_db ids storeId now db plan"
  have "int (active_count ?db i) \<le> max_required ?db slot" if slot: "slot_of ?db i = Some slot" and most: "max_required ?db slot > 0" for i slot
  proof -
    have "slot \<in> set (dbSlots ?db)" "slId slot = i" using slot_of_member [OF slot] by auto
    then consider (old) "slot \<in> set (dbSlots db)"
      | (new) k j where "k < length (plDrafts plan)" "j < length (plDates plan)" "slot = plan_slot ids plan k j"
      using saved_slots by metis
    then show ?thesis
    proof cases
      case old
      have "slot_of db i \<noteq> None" using old \<open>slId slot = i\<close> by (auto simp: slot_of_def find_None_iff)
      then have here: "slot_of db i = Some slot" using old_reads(2) [OF assms(1)] slot by fastforce
      have "filter (\<lambda>a. asSlot a = i \<and> asStatus a \<noteq> CANCELLED) (all_new_assignments ids now plan) = []"
      proof (rule filter_False)
        show "\<forall>a \<in> set (all_new_assignments ids now plan). \<not> (asSlot a = i \<and> asStatus a \<noteq> CANCELLED)"
          using old assms(2) \<open>slId slot = i\<close> new_assignment_cases unfolding fresh_ids_def by metis
      qed
      moreover have "max_required ?db slot = max_required db slot" unfolding max_required_def old_reads(3) [OF assms(1) old] ..
      ultimately show ?thesis using assms(3) here most by (simp add: never_overfull_def saved_active_count)
    next
      case new
      have i: "i = niSlot ids k j" using new(3) \<open>slId slot = i\<close> by simp
      have "filter (\<lambda>a. asSlot a = i \<and> asStatus a \<noteq> CANCELLED) (dbAssignments db) = []"
      proof (rule filter_False)
        have "asSlot a \<noteq> i" if "a \<in> set (dbAssignments db)" for a
        proof -
          obtain s where "slot_of db (asSlot a) = Some s" using assms(1) \<open>a \<in> _\<close> by (auto simp: linked_def)
          then have "s \<in> set (dbSlots db)" "slId s = asSlot a" using slot_of_member by auto
          then show ?thesis using assms(2) i by (auto simp: fresh_ids_def)
        qed
        then show "\<forall>a \<in> set (dbAssignments db). \<not> (asSlot a = i \<and> asStatus a \<noteq> CANCELLED)" by blast
      qed
      then have "active_count ?db i = length (sdEmployees (plDrafts plan ! k))"
        using new_slot_bookings [OF assms(2) new(1,2)] i by (simp add: saved_active_count, simp add: active_count_def)
      moreover have "max_required ?db slot = sdMaxStaff (plDrafts plan ! k)"
        by (simp add: max_required_def new(3) plan_slot_def new_slot_def)
      ultimately show ?thesis using assms(4) new(1) by (simp add: list_all_iff)
    qed
  qed
  then show ?thesis by (simp add: never_overfull_def)
qed

section \<open>The catalog stays in order\<close>

lemma saved_shift_found: "i < length (plDrafts plan) \<Longrightarrow> shift_of (saved_db ids storeId now db plan) (plan_slot ids plan i j) \<noteq> None"
  by (auto simp: shift_of_def find_None_iff saved_db_def Let_def set_enumerate0 new_shift_def plan_slot_def new_slot_def image_iff)

lemma saved_linked:
  assumes "linked db" "fresh_ids ids db"
  shows "linked (saved_db ids storeId now db plan)"
proof -
  let ?db = "saved_db ids storeId now db plan"
  have slots: "slot_of ?db (asSlot a) \<noteq> None" if "a \<in> set (dbAssignments ?db)" for a
  proof (cases "a \<in> set (dbAssignments db)")
    case True
    then show ?thesis using old_reads(1) [OF assms(1)] assms(1) by (simp add: linked_def)
  next
    case False
    then have "a \<in> set (all_new_assignments ids now plan)" using that by (simp add: saved_db_def Let_def)
    then show ?thesis using new_assignment_cases new_slot_found [OF assms(2)] by (metis option.distinct(1))
  qed
  have "shift_of ?db slot \<noteq> None \<and> cycle_of ?db slot \<noteq> None" if "slot \<in> set (dbSlots ?db)" for slot
  proof (cases "slot \<in> set (dbSlots db)")
    case True
    then show ?thesis using old_reads(3,4) [OF assms(1) True] assms(1) by (simp add: linked_def)
  next
    case False
    then obtain i j where "i < length (plDrafts plan)" "slot = plan_slot ids plan i j"
      using \<open>slot \<in> _\<close> saved_slots [of slot ids storeId now db plan] by blast
    then show ?thesis using saved_shift_found new_cycle_found [OF assms(2)] by fastforce
  qed
  then show ?thesis using slots by (simp add: linked_def)
qed

lemma saved_catalog:
  assumes "catalog_ok db" "linked db" "storeId \<noteq> []" "dates_ok (plDates plan) ns" "drafts_ok (plDrafts plan)"
  shows "catalog_ok (saved_db ids storeId now db plan)"
proof -
  let ?db = "saved_db ids storeId now db plan"
  have "(\<exists>n. full_day (n - 1) \<and> full_day n \<and> full_day (n + 1) \<and> slDate slot = day_string n) \<and>
      (\<forall>t. start_of ?db slot = Some t \<longrightarrow> clock_ok t) \<and> (\<forall>t. end_of ?db slot = Some t \<longrightarrow> clock_ok t)" if "slot \<in> set (dbSlots ?db)" for slot
  proof (cases "slot \<in> set (dbSlots db)")
    case True
    then have "start_of ?db slot = start_of db slot" "end_of ?db slot = end_of db slot"
      by (simp_all add: start_of_def end_of_def old_reads(3) [OF assms(2)])
    then show ?thesis using assms(1) True by (simp add: catalog_ok_def)
  next
    case False
    then obtain i j where ij: "i < length (plDrafts plan)" "j < length (plDates plan)" "slot = plan_slot ids plan i j"
      using \<open>slot \<in> _\<close> saved_slots [of slot ids storeId now db plan] by blast
    let ?d = "plDrafts plan ! i"
    have clocks: "clock_ok (sdStart ?d)" "clock_ok (sdEnd ?d)" using ij(1) assms(5) by (auto simp: drafts_ok_def list_all_iff)
    have "start_of ?db slot = Some (sdStart ?d)" "end_of ?db slot = Some (sdEnd ?d)"
      using clocks clock_not_nil by (simp_all add: ij(3) start_of_def end_of_def plan_slot_def new_slot_def clock_or_def nonempty_def)
    moreover have "slDate slot = day_string (ns ! j)" "j < length ns" using ij assms(4) by (auto simp: dates_ok_def plan_slot_def new_slot_def)
    moreover have "full_day (ns ! j - 1) \<and> full_day (ns ! j) \<and> full_day (ns ! j + 1)" using \<open>j < length ns\<close> assms(4) by (simp add: dates_ok_def list_all_iff)
    ultimately show ?thesis using clocks by auto
  qed
  moreover have "\<forall>c \<in> set (dbCycles ?db). cyStore c \<noteq> []" using assms(1,3) by (auto simp: catalog_ok_def saved_db_def Let_def new_cycle_def)
  ultimately show ?thesis by (simp add: catalog_ok_def)
qed

text \<open>The books of a store are in order: real dates and times, no dangling row, nobody twice in the active cycles, no shift overfilled.\<close>

definition books_in_order :: "store_db \<Rightarrow> bool" where
  "books_in_order db \<longleftrightarrow> catalog_ok db \<and> linked db \<and> once_in_active db \<and> never_overfull db"

text \<open>C5. Saving an accepted plan keeps the books of the active cycles in order: as long as the identifiers given are new, no employee has
  live bookings in two different slots of active cycles of the store at one time, be it two shifts of the plan or one that was there,
  also around midnight and at the ends of the dates read; no shift gets more bookings than places, and every row refers to rows that
  exist. A shift of an expired cycle that still runs is outside: the check at commit does not look at it
  (\<open>expired_cycle_is_overlooked\<close>).\<close>

theorem saved_schedule_keeps_the_books:
  assumes "planShiftSchedule fold_name today sent = Inr plan" "drafts_ok (plDrafts plan)" "dates_ok (plDates plan) ns"
    and "persistShiftSchedule fold_name ids now db storeId account startDate plan = Inr (db', answer)"
    and "fresh_ids ids db" "storeId \<noteq> []" "books_in_order db"
  shows "books_in_order db'"
proof -
  note plan = plan_sound [OF assms(1)]
  have db': "db' = saved_db ids storeId now db plan" and free: "list_ex (\<lambda>d. sdEmployees d \<noteq> []) (plDrafts plan) \<longrightarrow>
      assertShiftScheduleAvailabilityAtCommit db storeId (plDrafts plan) (plDates plan) = Inr ()" by (rule persisted [OF assms(4)])+
  have db: "catalog_ok db" "linked db" "once_in_active db" "never_overfull db" using assms(7) by (simp_all add: books_in_order_def)
  have "once_in_active db'" unfolding db' by (rule saved_once [OF db(1,2) assms(5) db(3) assms(3,2) plan(6) [OF assms(2)] free])
  moreover have "list_all (\<lambda>d. int (length (sdEmployees d)) \<le> sdMaxStaff d) (plDrafts plan)" using plan(1) by (simp add: list_all_iff)
  then have "never_overfull db'" unfolding db' by (rule saved_never_overfull [OF db(2) assms(5) db(4)])
  moreover have "linked db'" unfolding db' by (rule saved_linked [OF db(2) assms(5)])
  moreover have "catalog_ok db'" unfolding db' by (rule saved_catalog [OF db(1,2) assms(6,3,2)])
  ultimately show ?thesis by (simp add: books_in_order_def)
qed


section \<open>A shift only gains a booking while a place is free\<close>








section \<open>A concrete schedule\<close>

definition one_day :: schedule_sent where
  "one_day = \<lparr> ssName = None, ssStartDate = Some (day_string 20720), ssStart = None, ssEnd = None, ssMaxStaff = None, ssNote = None,
     ssEmployees = None, ssRecurrence = Some (bare_rule False DAILY 1 COUNT),
     ssShifts = Some [\<lparr> dsName = ''Day'', dsStart = ''07:00'', dsEnd = ''11:00'', dsMaxStaff = 1, dsNote = None, dsEmployees = Some [''e1''] \<rparr>,
       \<lparr> dsName = ''Noon'', dsStart = ''11:00'', dsEnd = ''15:00'', dsMaxStaff = 2, dsNote = None, dsEmployees = Some [''e1'', ''e2''] \<rparr>] \<rparr>"

definition day_draft :: shift_draft where
  "day_draft = \<lparr> sdName = ''Day'', sdStart = ''07:00'', sdEnd = ''11:00'', sdMaxStaff = 1, sdNote = None, sdEmployees = [''e1''] \<rparr>"

definition noon_draft :: shift_draft where
  "noon_draft = \<lparr> sdName = ''Noon'', sdStart = ''11:00'', sdEnd = ''15:00'', sdMaxStaff = 2, sdNote = None, sdEmployees = [''e1'', ''e2''] \<rparr>"

definition one_day_plan :: shift_plan where
  "one_day_plan = \<lparr> plDrafts = [day_draft, noon_draft], plRule = (bare_rule False DAILY 1 COUNT)\<lparr>rrOccurrenceCount := Some 1\<rparr>,
     plDates = [day_string 20720], plCycleType = CYCLE_DAILY, plCycleEnd = Some (day_string 20720) \<rparr>"

lemma plan_days: "full_day 20719" "full_day 20720" "full_day 20721"
  by code_simp+

lemma plan_clocks: "clock_ok ''07:00''" "clock_ok ''11:00''" "clock_ok ''15:00''"
  by code_simp+

lemma one_day_drafts: "drafts_of one_day = [day_draft, noon_draft]"
  by (simp add: drafts_of_def one_day_def day_draft_def noon_draft_def trimmed_note_def nonempty_def js_trim_def js_space_def)

lemma plan_day_nonempty: "nonempty (Some (day_string 20720)) = Some (day_string 20720)"
  using nonempty_day [OF plan_days(2)] .

lemma no_text: "nonempty None = None"
  by (simp add: nonempty_def)

lemma one_day_intervals:
  "employee_intervals [day_string 20720] [] [day_draft, noon_draft] =
    Inr [(''e1'', [day_interval ''07:00'' ''11:00'' 20720, day_interval ''11:00'' ''15:00'' 20720]), (''e2'', [day_interval ''11:00'' ''15:00'' 20720])]"
  by (simp add: day_draft_def noon_draft_def shift_interval_day plan_days(2) plan_clocks some_interval_def push_intervals_def map_get_or_def)

lemma one_day_accepted: "planShiftSchedule (\<lambda>s. s) (day_string 20719) one_day = Inr one_day_plan"
proof -
  have rule: "normalizeShiftRecurrence (day_string 20719) (Some (day_string 20720)) None None (Some (bare_rule False DAILY 1 COUNT)) =
      Inr ((bare_rule False DAILY 1 COUNT)\<lparr>rrOccurrenceCount := Some 1\<rparr>)"
    using plan_days no_text by (simp add: normalizeShiftRecurrence_def plan_day_nonempty parse_day day_string_less bare_rule_def)
  have dates: "generateShiftScheduleDates (day_string 20720) ((bare_rule False DAILY 1 COUNT)\<lparr>rrOccurrenceCount := Some 1\<rparr>) = Inr [day_string 20720]"
    using plan_days by (simp add: generateShiftScheduleDates_def parse_day ShiftSchedule.lift_date_def bare_rule_def)
  have names: "check_drafts (\<lambda>s. s) [day_draft, noon_draft] = Inr ()"
    by (simp add: check_drafts_Inr day_draft_def noon_draft_def draft_incomplete_def)
  have size: "check_size [day_draft, noon_draft] [day_string 20720] = Inr ()"
    by (simp add: check_size_def day_draft_def noon_draft_def assignments_per_date_def MAX_GENERATED_SHIFT_SLOTS_def MAX_GENERATED_SHIFT_ASSIGNMENTS_def
        flip: numeral_2_eq_2)
  have clear: "\<not> hasInternalIntervalOverlap [day_interval ''07:00'' ''11:00'' 20720, day_interval ''11:00'' ''15:00'' 20720]"
    "\<not> hasInternalIntervalOverlap [day_interval ''11:00'' ''15:00'' 20720]" by code_simp+
  show ?thesis
    unfolding planShiftSchedule_def one_day_drafts Let_def
    by (simp add: one_day_def plan_day_nonempty names rule dates size one_day_intervals clear lift_plan_def
        del: employee_intervals.simps draft_intervals.simps)
       (simp add: one_day_plan_def cycle_type_of_def cycle_end_of_def bare_rule_def)
qed

lemma one_day_ok: "drafts_ok (plDrafts one_day_plan)" "dates_ok (plDates one_day_plan) [20720]"
  using plan_clocks plan_days by (simp_all add: one_day_plan_def drafts_ok_def day_draft_def noon_draft_def dates_ok_def)

definition mondays :: recurrence_rule where
  "mondays = (bare_rule True WEEKLY 1 COUNT)\<lparr>rrWeekDays := Some [MONDAY], rrOccurrenceCount := Some 4\<rparr>"

theorem stored_rule_is_well_formed_witness:
  "\<exists>rule. normalizeShiftRecurrence (day_string 20719) (Some (day_string 20720)) None None (Some (mondays\<lparr>rrEndDate := Some ''x''\<rparr>)) = Inr rule \<and>
    rule_well_formed (day_string 20720) rule"
proof -
  have "normalizeShiftRecurrence (day_string 20719) (Some (day_string 20720)) None None (Some (mondays\<lparr>rrEndDate := Some ''x''\<rparr>)) = Inr mondays"
    using plan_days no_text by (simp add: normalizeShiftRecurrence_def plan_day_nonempty parse_day day_string_less bare_rule_def mondays_def
        check_weekly_def check_monthly_def check_end_def given_def int_or_def)
  from stored_rule_is_well_formed [OF this] this show ?thesis by auto
qed

theorem accepted_plan_is_sound_witness:
  "planShiftSchedule (\<lambda>s. s) (day_string 20719) one_day = Inr one_day_plan \<and>
    apart (employee_times [day_string 20720] [day_draft, noon_draft] ''e1'')"
  using accepted_plan_is_sound [OF one_day_accepted one_day_ok(1)] one_day_accepted by (simp add: one_day_plan_def)


definition small_ids :: new_ids where
  "small_ids = \<lparr> niCycle = ''c2'', niShift = (\<lambda>i. CHR ''x'' # replicate i CHR ''0''),
     niSlot = (\<lambda>i j. CHR ''x'' # replicate i CHR ''0'' @ CHR ''1'' # replicate j CHR ''0''),
     niAssignment = (\<lambda>i k j. CHR ''x'' # replicate i CHR ''0'' @ CHR ''1'' # replicate k CHR ''0'' @ CHR ''1'' # replicate j CHR ''0'') \<rparr>"

lemma small_in_order: "books_in_order small_store"
proof -
  have "linked small_store"
    by (simp add: linked_def small_store_def night_booking_def slot_of_def shift_of_def cycle_of_def nonempty_def)
  moreover have "once_in_active small_store" by (rule once_in_activeI) (simp add: small_store_def)
  ultimately show ?thesis using small_catalog small_books(3) by (simp add: books_in_order_def)
qed

lemma zeros_one: "replicate i CHR ''0'' @ CHR ''1'' # xs = replicate j CHR ''0'' @ CHR ''1'' # ys \<longleftrightarrow> i = j \<and> xs = ys"
proof (induction i arbitrary: j)
  case 0
  show ?case by (cases j) auto
next
  case (Suc i)
  then show ?case by (cases j) auto
qed

lemma small_fresh: "fresh_ids small_ids small_store"
  by (auto simp: fresh_ids_def small_ids_def small_store_def night_booking_def zeros_one)

lemma far_days: "\<not> day_string 20719 \<le> day_string 20717" "day_string 20720 \<noteq> day_string 20717" "day_string 20720 \<noteq> day_string 20718"
  using plan_days small_days by (simp_all add: day_string_le day_string_eq)

lemma one_day_saved: "\<exists>db' answer. persistShiftSchedule (\<lambda>s. s) small_ids 0 small_store ''s1'' ''o1'' (day_string 20720) one_day_plan = Inr (db', answer)"
proof -
  have names: "findSameNameShiftOnDates (\<lambda>s. s) small_store ''s1'' (map sdName (plDrafts one_day_plan)) (plDates one_day_plan) [] = None"
    using far_days(2,3) by (auto simp: findSameNameShiftOnDates_def Let_def find_None_iff same_name_rows_def small_store_def one_day_plan_def
        split: option.splits if_splits)
  have chosen: "chosen_employees [day_draft, noon_draft] = [''e1'', ''e2'']" by (simp add: chosen_employees_def js_set_def day_draft_def noon_draft_def)
  have none: "filter (commit_booking small_store ''s1'' [''e1'', ''e2''] (day_string 20719) (day_string 20721)) (dbAssignments small_store) = []"
    using far_days(1) by (simp add: small_store_def night_booking_def commit_booking_def slot_of_def)
  have terms: "\<not> notStartedViolation (workTermsOf no_terms) d \<noteq> None" for d
    by (simp add: notStartedViolation_def workTermsOf_def no_terms_def ymdOf_def nonempty_def)
  have rows: "check_commit_rows small_store ''s1'' [day_draft, noon_draft] [day_string 20720] (day_string 20719) (day_string 20721) = Inr ()"
    unfolding check_commit_rows_def chosen Let_def none one_day_intervals
    by (simp add: small_store_def lift_save_def groupBlockingLeaveIntervals_def assertBlockingLeaveExpansionBound_def one_day_intervals
        map_get_or_def sets_overlap_iff leaveBlocksShifts_def)
  have "assertShiftScheduleAvailabilityAtCommit small_store ''s1'' [day_draft, noon_draft] [day_string 20720] = Inr ()"
    using rows terms addDays_date_day [of 20720 "- 1"] addDays_date_day [of 20720 1] plan_days
    by (simp add: assertShiftScheduleAvailabilityAtCommit_def chosen Let_def small_store_def isShiftEligibleEmploymentStatus_def lift_save_def)
  then show ?thesis using names by (simp add: persistShiftSchedule_def one_day_plan_def small_store_def save_plan_def day_draft_def Let_def)
qed

theorem saved_schedule_keeps_the_books_witness:
  "\<exists>db' answer. persistShiftSchedule (\<lambda>s. s) small_ids 0 small_store ''s1'' ''o1'' (day_string 20720) one_day_plan = Inr (db', answer) \<and>
    books_in_order db'"
proof -
  obtain db' answer where p: "persistShiftSchedule (\<lambda>s. s) small_ids 0 small_store ''s1'' ''o1'' (day_string 20720) one_day_plan = Inr (db', answer)"
    using one_day_saved by blast
  have "books_in_order db'"
    by (rule saved_schedule_keeps_the_books [OF one_day_accepted one_day_ok p small_fresh _ small_in_order]) simp
  with p show ?thesis by blast
qed


section \<open>Just expired cycles are overlooked\<close>

text \<open>Registration looks at bookings of expired cycles too, because their overnight shifts still run; the check at commit does not. With
  the night shift in a cycle that has just expired, the early shift of the next day may be given to the same employee.\<close>

definition expired_store :: store_db where
  "expired_store = small_store\<lparr>dbCycles := [\<lparr> cyId = ''c1'', cyStore = ''s1'', cyStatus = CYCLE_EXPIRED, cyDeadline = None \<rparr>]\<rparr>"

definition early_draft :: shift_draft where
  "early_draft = \<lparr> sdName = ''Dawn'', sdStart = ''03:00'', sdEnd = ''08:00'', sdMaxStaff = 1, sdNote = None, sdEmployees = [''e1''] \<rparr>"

lemma expired_booking:
  "booked_interval expired_store ''s1'' night_booking = Some (day_interval ''22:00'' ''04:00'' 20717)"
proof -
  have slot: "slot_of expired_store (asSlot night_booking) = Some \<lparr> slId = ''k1'', slCycle = Some ''c1'', slShift = ''n'', slDate = day_string 20717,
      slStart = None, slEnd = None, slMaxStaff = None \<rparr>"
    by (simp add: slot_of_def expired_store_def small_store_def night_booking_def)
  have "day_string 20717 \<noteq> []" "take 10 (day_string 20717) = day_string 20717" using length_day_string [OF small_days(2)] by auto
  then show ?thesis
    using slot small_clocks small_days(2)
    by (simp add: booked_interval_def shift_interval_of_def night_booking_def in_live_cycle_def cycle_of_def expired_store_def small_store_def
        start_of_def end_of_def shift_of_def clock_or_def opt_field_def nonempty_def shift_interval_day)
qed

lemma expired_cycle_is_overlooked:
  "assertShiftScheduleAvailabilityAtCommit expired_store ''s1'' [early_draft] [day_string 20718] = Inr ()"
  "intervals_clash (Some (day_interval ''03:00'' ''08:00'' 20718)) (booked_interval expired_store ''s1'' night_booking)"
proof -
  have "intervalsOverlap (day_interval ''03:00'' ''08:00'' 20718) (day_interval ''22:00'' ''04:00'' 20717)" by code_simp
  then show "intervals_clash (Some (day_interval ''03:00'' ''08:00'' 20718)) (booked_interval expired_store ''s1'' night_booking)"
    by (simp add: expired_booking intervals_clash_def)
  have chosen: "chosen_employees [early_draft] = [''e1'']" by (simp add: chosen_employees_def js_set_def early_draft_def)
  have none: "filter (commit_booking expired_store ''s1'' [''e1''] a b) (dbAssignments expired_store) = []" for a b
    by (simp add: expired_store_def small_store_def night_booking_def commit_booking_def slot_of_def cycle_of_def nonempty_def)
  have own: "employee_intervals [day_string 20718] [] [early_draft] = Inr [(''e1'', [day_interval ''03:00'' ''08:00'' 20718])]"
    by (simp add: early_draft_def shift_interval_day small_days(3) small_clocks some_interval_def push_intervals_def map_get_or_def)
  have rows: "check_commit_rows expired_store ''s1'' [early_draft] [day_string 20718] a b = Inr ()" for a b
    unfolding check_commit_rows_def chosen Let_def none own
    by (simp add: expired_store_def small_store_def lift_save_def groupBlockingLeaveIntervals_def assertBlockingLeaveExpansionBound_def
        map_get_or_def sets_overlap_iff leaveBlocksShifts_def)
  have terms: "notStartedViolation (workTermsOf no_terms) d = None" for d
    by (simp add: notStartedViolation_def workTermsOf_def no_terms_def ymdOf_def nonempty_def)
  show "assertShiftScheduleAvailabilityAtCommit expired_store ''s1'' [early_draft] [day_string 20718] = Inr ()"
    using rows terms addDays_date_day [of 20718 "- 1"] addDays_date_day [of 20718 1] small_days
    by (simp add: assertShiftScheduleAvailabilityAtCommit_def chosen Let_def expired_store_def small_store_def isShiftEligibleEmploymentStatus_def
        lift_save_def)
qed

end
