(* ===== verification/RequestDecisions.thy ===== *)
theory RequestDecisions
  imports BookingSafety
begin

text \<open>
  The owner's decisions through the list of requests: \<open>processRequest\<close> of \<open>service-parts/requests.part.ts\<close> for registrations and swaps,
  beside \<open>updateAssignmentStatus\<close> and \<open>updateShiftSwapStatus\<close> of \<open>ShiftBooking\<close>. A decision on a registration is one of the
  latter's; one on a swap skips the check that the receiver is free. Log, reminders and notifications are left out.
\<close>

datatype decision = APPROVE | REJECT

definition store_of_assignment :: "store_db \<Rightarrow> assignment_row \<Rightarrow> string" where
  "store_of_assignment db a = (case slot_of db (asSlot a) of
     Some slot \<Rightarrow> (case cycle_of db slot of Some cycle \<Rightarrow> cyStore cycle | None \<Rightarrow> []) | None \<Rightarrow> [])"

text \<open>A text that is no decision is \<open>None\<close>. The part before the transaction gives the store.\<close>

definition process_register_context :: "store_db \<Rightarrow> string \<Rightarrow> string \<Rightarrow> decision option \<Rightarrow> booking_error + string" where
  "process_register_context db accountId requestId status =
     and_then (fail_if (status = None) BadStatus) (\<lambda>_.
       case assignment_of db requestId of
         None \<Rightarrow> Inl AssignmentMissing
       | Some assignment \<Rightarrow>
           let storeId = store_of_assignment db assignment in
           and_then (assertOwnerStoreAccess db storeId accountId) (\<lambda>_.
           and_then (fail_if (asStatus assignment \<noteq> PENDING) BadTransition) (\<lambda>_. Inr storeId)))"

definition process_register_tx :: "store_db \<Rightarrow> string \<Rightarrow> string \<Rightarrow> decision \<Rightarrow> string option \<Rightarrow> string \<Rightarrow> booking_error + store_db" where
  "process_register_tx db storeId requestId status reason accountId =
     and_then (fail_if (map_of (dbOwners db) storeId \<noteq> Some accountId) NotOwner) (\<lambda>_.
       let hit = (\<lambda>a. asId a = requestId \<and> asStatus a = PENDING) in
       and_then (fail_if (filter hit (dbAssignments db) = []) AssignmentChanged) (\<lambda>_.
         Inr (set_assignment db hit (\<lambda>a. a\<lparr>asStatus := (if status = APPROVE then APPROVED else CANCELLED),
                asNote := (if status = REJECT then opt_or (nonempty reason) (asNote a) else asNote a)\<rparr>))))"

definition process_swap_context ::
  "store_db \<Rightarrow> string \<Rightarrow> string \<Rightarrow> decision option \<Rightarrow> booking_error + (swap_row \<times> loaded option)" where
  "process_swap_context db accountId requestId status =
     and_then (fail_if (status = None) BadStatus) (\<lambda>_.
       case swap_of db requestId of
         None \<Rightarrow> Inl SwapMissing
       | Some swap \<Rightarrow>
           let source = load_assignment db (swFrom swap); storeId = (case opt_field ldStore source of Some s \<Rightarrow> s | None \<Rightarrow> []) in
           and_then (assertOwnerStoreAccess db storeId accountId) (\<lambda>_.
           and_then (fail_if (swStatus swap \<noteq> SWAP_PENDING) SwapDecided) (\<lambda>_.
           and_then (fail_if (status = Some APPROVE \<and> eligible_profile db storeId (swTo swap) = None) TargetNotEligible) (\<lambda>_.
             Inr (swap, source)))))"

text \<open>The receiver is read again, whatever the employment status; a profile that is gone is not checked.\<close>

definition check_receiver :: "store_db \<Rightarrow> swap_row \<Rightarrow> loaded \<Rightarrow> booking_error + unit" where
  "check_receiver db swap source =
     (case find (\<lambda>p. pfId p = swTo swap) (dbProfiles db) of None \<Rightarrow> Inr () | Some receiver \<Rightarrow> check_target_started receiver source)"

definition process_swap_tx ::
  "store_db \<Rightarrow> swap_row \<Rightarrow> loaded option \<Rightarrow> decision \<Rightarrow> string option \<Rightarrow> string \<Rightarrow> booking_error + store_db" where
  "process_swap_tx db swap source status reason accountId =
     and_then (fail_if (map_of (dbOwners db) (case opt_field ldStore source of Some s \<Rightarrow> s | None \<Rightarrow> []) \<noteq> Some accountId) NotOwner) (\<lambda>_.
     and_then
       (case (status, source) of
          (APPROVE, Some src) \<Rightarrow>
            and_then (check_receiver db swap src) (\<lambda>_.
              let hit = (\<lambda>a. asId a = asId (ldAssignment src) \<and> asEmployee a = asEmployee (ldAssignment src)) in
              and_then (fail_if (filter hit (dbAssignments db) = []) AssignmentChanged) (\<lambda>_.
                Inr (set_assignment db hit (hand_over (swTo swap)))))
        | _ \<Rightarrow> Inr db) (\<lambda>db1.
       let hit = (\<lambda>w. swId w = swId swap \<and> swStatus w = SWAP_PENDING) in
       and_then (fail_if (filter hit (dbSwaps db1) = []) SwapChanged) (\<lambda>_.
         Inr (db1\<lparr>dbSwaps := map (\<lambda>w. if hit w then w\<lparr>swStatus := (if status = APPROVE then SWAP_APPROVED else SWAP_REJECTED),
                swNote := opt_or reason (swNote w)\<rparr> else w) (dbSwaps db1)\<rparr>))))"

section \<open>A decision on a registration\<close>

lemma process_register_tended:
  assumes "process_register_tx db storeId requestId status reason accountId = Inr db'"
  shows "same_catalog db db'" "list_all2 tended (dbAssignments db) (dbAssignments db')" "swaps_kept db db'"
  using assms
  by (auto simp: process_register_tx_def and_then_Inr_iff Let_def same_catalog_def set_assignment_def list_all2_map2 tended_def
      swaps_kept_def decided_swap_def intro!: list_all2_refl split: if_splits)

text \<open>Decisions on registrations are among the histories.\<close>

lemma process_register_later:
  assumes "later db0 db" "process_register_tx db storeId requestId status reason accountId = Inr db'"
  shows "later db0 db'"
  by (rule later.elsewhere [OF assms(1) process_register_tended [OF assms(2)]])

section \<open>A decision on a swap\<close>

text \<open>For a receiver who may work in the store, the owner's approval in the list of requests does what the approval of the swap itself
  does, but without the check that the receiver is free: the approval of the swap succeeds exactly when the one in the list does and
  the receiver has no booking at the time, with the same result.\<close>

theorem listed_approval_lacks_the_free_check:
  assumes "ldStore source = Some storeId" "map_of (dbOwners db) storeId = Some owner"
    and "eligible_profile db storeId (swTo swap) = Some target" "find (\<lambda>p. pfId p = swTo swap) (dbProfiles db) = Some target"
  shows "decide_swap_tx db swap source SWAP_APPROVED note owner = Inr db' \<longleftrightarrow>
    process_swap_tx db swap (Some source) APPROVE note owner = Inr db' \<and> assertSwapTargetFree db source (swTo swap) = Inr ()"
  using assms
  by (auto simp: decide_swap_tx_def process_swap_tx_def check_party_def check_receiver_def approve_swap_def opt_field_def fail_if_def
      and_then_Inr_iff Let_def)

lemma loaded_row: "load_assignment db i = Some source \<Longrightarrow> ldAssignment source \<in> set (dbAssignments db)"
  by (auto simp: load_assignment_def assignment_of_def Let_def dest!: find_Some_in split: option.splits)

lemma listed_rows:
  assumes "process_swap_tx db swap (Some source) APPROVE reason account = Inr db'"
  shows "same_catalog db db'"
    "dbAssignments db' = map (\<lambda>a. if asId a = asId (ldAssignment source) \<and> asEmployee a = asEmployee (ldAssignment source)
       then hand_over (swTo swap) a else a) (dbAssignments db)"
  using assms by (auto simp: process_swap_tx_def and_then_Inr_iff Let_def same_catalog_def set_assignment_def)

lemma approved_rows:
  assumes "approve_swap db swap source target = Inr db'"
  shows "same_catalog db db'"
    "dbAssignments db' = map (\<lambda>a. if asId a = asId (ldAssignment source) \<and> asEmployee a = asEmployee (ldAssignment source)
       then hand_over (swTo swap) a else a) (dbAssignments db)"
  using assms by (auto simp: approve_swap_def and_then_Inr_iff Let_def same_catalog_def set_assignment_def)

lemma handed_to_a_busy_one:
  assumes "distinct_ids db" "a \<in> set (dbAssignments db)" "b \<in> set (dbAssignments db)" "asSlot b \<noteq> asSlot a" "asEmployee b = t"
    and "intervals_clash (booked_interval db st a) (booked_interval db st b)" "same_catalog db db'"
    and "dbAssignments db' = map (\<lambda>x. if asId x = asId a \<and> asEmployee x = asEmployee a then hand_over t x else x) (dbAssignments db)"
  shows "\<not> never_twice db'"
proof
  assume twice: "never_twice db'"
  have ne: "asId b \<noteq> asId a" using distinct_ids_eq [OF assms(1-3)] assms(4) by metis
  have "hand_over t a \<in> set (dbAssignments db')" using assms(2) unfolding assms(8) by (auto simp: image_iff)
  moreover have "b \<in> set (dbAssignments db')" using assms(3) ne unfolding assms(8) by (auto simp: image_iff)
  ultimately have "\<not> intervals_clash (booked_interval db' st (hand_over t a)) (booked_interval db' st b)"
    using never_twiceD [OF twice] ne assms(4,5) by (metis hand_over_simps(1,2,4))
  then show False using assms(6) by (simp add: catalog_reads(8) [OF assms(7)])
qed

text \<open>C33. The owner's approval in the list of requests books an employee twice: from any state in which nobody is, if the receiver of
  the shift has a live booking of another shift at that time, every such approval that goes through ends with two live bookings of
  one employee at one time. The route for swaps refuses the same swap in the same state, whoever decides.\<close>

theorem listed_approval_books_twice:
  assumes "catalog_ok db" "distinct_ids db" "never_twice db" "load_assignment db (swFrom swap) = Some source"
    and "b \<in> set (dbAssignments db)" "asEmployee b = swTo swap" "asSlot b \<noteq> asSlot (ldAssignment source)"
    and "intervals_clash (booked_interval db st (ldAssignment source)) (booked_interval db st b)"
    and "process_swap_tx db swap (Some source) APPROVE reason account = Inr db'"
  shows "\<not> never_twice db' \<and> (\<exists>e. decide_swap_tx db swap source SWAP_APPROVED note account' = Inl e)"
proof -
  note busy = handed_to_a_busy_one [OF assms(2) loaded_row [OF assms(4)] assms(5,7,6,8)]
  have "decide_swap_tx db swap source SWAP_APPROVED note account' \<noteq> Inr r" for r
  proof
    assume "decide_swap_tx db swap source SWAP_APPROVED note account' = Inr r"
    then obtain target db1 where d: "approve_swap db swap source target = Inr db1"
      by (auto simp: decide_swap_tx_def and_then_Inr_iff)
    have "same_catalog db db" "kept_rows db db" by (auto simp: same_catalog_def kept_rows_def)
    then have "never_twice db1" using approve_keeps(4) [OF d assms(1,2,4)] assms(3) by blast
    then show False using busy approved_rows [OF d] by blast
  qed
  then show ?thesis using busy [OF listed_rows [OF assms(9)]]
    by (cases "decide_swap_tx db swap source SWAP_APPROVED note account'") auto
qed

text \<open>The receiver of the small store's swap has the early shift already.\<close>

definition early_booking :: assignment_row where
  "early_booking = \<lparr> asId = ''a2'', asSlot = ''k2'', asEmployee = ''e2'', asStatus = APPROVED, asCreatedAt = 0, asNote = None,
     asAdjustedStart = None, asAdjustedEnd = None \<rparr>"

definition busy_store :: store_db where
  "busy_store = small_store\<lparr>dbAssignments := [night_booking, early_booking]\<rparr>"

lemma busy_catalog: "same_catalog small_store busy_store"
  by (simp add: same_catalog_def busy_store_def)

lemma night_slot: "slot_of small_store ''k1'' = Some \<lparr> slId = ''k1'', slCycle = Some ''c1'', slShift = ''n'', slDate = day_string 20717,
    slStart = None, slEnd = None, slMaxStaff = None \<rparr>"
  by (simp add: slot_of_def small_store_def)

lemma early_slot: "slot_of small_store ''k2'' = Some \<lparr> slId = ''k2'', slCycle = Some ''c1'', slShift = ''m'', slDate = day_string 20718,
    slStart = None, slEnd = None, slMaxStaff = None \<rparr>"
  by (simp add: slot_of_def small_store_def)

lemma small_intervals:
  "booked_interval small_store ''s1'' night_booking = Some (day_interval ''22:00'' ''04:00'' 20717)"
  "booked_interval small_store ''s1'' early_booking = Some (day_interval ''03:00'' ''08:00'' 20718)"
proof -
  have n: "slot_of small_store (asSlot night_booking) = Some \<lparr> slId = ''k1'', slCycle = Some ''c1'', slShift = ''n'', slDate = day_string 20717,
    slStart = None, slEnd = None, slMaxStaff = None \<rparr>" by (simp add: night_slot night_booking_def)
  have e: "slot_of small_store (asSlot early_booking) = Some \<lparr> slId = ''k2'', slCycle = Some ''c1'', slShift = ''m'', slDate = day_string 20718,
    slStart = None, slEnd = None, slMaxStaff = None \<rparr>" by (simp add: early_slot early_booking_def)
  show "booked_interval small_store ''s1'' night_booking = Some (day_interval ''22:00'' ''04:00'' 20717)"
    using shift_interval_cases [OF small_catalog n _ small_days(2)] n
    by (simp add: booked_interval_def night_booking_def in_live_cycle_def cycle_of_def small_store_def start_of_def end_of_def shift_of_def
        clock_or_def opt_field_def nonempty_def)
  show "booked_interval small_store ''s1'' early_booking = Some (day_interval ''03:00'' ''08:00'' 20718)"
    using shift_interval_cases [OF small_catalog e _ small_days(3)] e
    by (simp add: booked_interval_def early_booking_def in_live_cycle_def cycle_of_def small_store_def start_of_def end_of_def shift_of_def
        clock_or_def opt_field_def nonempty_def)
qed

lemma night_loaded:
  obtains source where "load_assignment busy_store ''a1'' = Some source" "ldStore source = Some ''s1''" "ldAssignment source = night_booking"
    "ldSlot source = slot_of small_store ''k1''"
  by (simp add: load_assignment_def assignment_of_def busy_store_def small_store_def night_booking_def slot_of_def cycle_of_def opt_field_def
      nonempty_def Let_def)

lemma busy_approved:
  assumes "ldStore source = Some ''s1''" "ldAssignment source = night_booking"
  obtains db where "process_swap_tx busy_store asked_swap (Some source) APPROVE None ''o1'' = Inr db"
    "dbAssignments db = [hand_over ''e2'' night_booking, early_booking]" "same_catalog busy_store db"
proof -
  have "check_receiver busy_store asked_swap source = Inr ()"
    by (simp add: check_receiver_def busy_store_def small_store_def asked_swap_def check_target_started_def swapTargetNotStarted_def no_terms_def ymdOf_def
        split: option.split)
  then show thesis
    using assms
    by (intro that) (auto simp: process_swap_tx_def opt_field_def busy_store_def small_store_def asked_swap_def night_booking_def early_booking_def
        set_assignment_def hand_over_def same_catalog_def fail_if_def Let_def)
qed

lemma busy_not_overfull: "never_overfull busy_store"
proof -
  have "int (active_count busy_store i) \<le> max_required busy_store slot" if "max_required busy_store slot > 0" for i slot
  proof -
    have "active_count busy_store i \<le> 1" by (auto simp: active_count_def busy_store_def night_booking_def early_booking_def)
    then show ?thesis using that by linarith
  qed
  then show ?thesis by (simp add: never_overfull_def)
qed

lemma busy_swap:
  obtains source target db' where "load_assignment busy_store ''a1'' = Some source" "ldStore source = Some ''s1''"
    "map_of (dbOwners busy_store) ''s1'' = Some ''o1''" "swTo asked_swap = ''e2''"
    "eligible_profile busy_store ''s1'' ''e2'' = Some target" "find (\<lambda>p. pfId p = ''e2'') (dbProfiles busy_store) = Some target"
    "catalog_ok busy_store" "distinct_ids busy_store" "never_twice busy_store"
    "process_swap_context busy_store ''o1'' ''w1'' (Some APPROVE) = Inr (asked_swap, Some source)"
    "process_swap_tx busy_store asked_swap (Some source) APPROVE None ''o1'' = Inr db'" "\<not> never_twice db'"
    "decide_swap_tx busy_store asked_swap source SWAP_APPROVED None ''o1'' \<noteq> Inr db'"
proof -
  obtain source where src: "load_assignment busy_store ''a1'' = Some source" "ldStore source = Some ''s1''" "ldAssignment source = night_booking"
    by (rule night_loaded)
  obtain db' where tx: "process_swap_tx busy_store asked_swap (Some source) APPROVE None ''o1'' = Inr db'"
      and rows: "dbAssignments db' = [hand_over ''e2'' night_booking, early_booking]" and cat: "same_catalog busy_store db'"
    by (rule busy_approved [OF src(2,3)])
  have owners: "map_of (dbOwners busy_store) ''s1'' = Some ''o1''" by (simp add: busy_store_def small_store_def)
  obtain target where target: "eligible_profile busy_store ''s1'' ''e2'' = Some target" "find (\<lambda>p. pfId p = ''e2'') (dbProfiles busy_store) = Some target"
    by (simp add: eligible_profile_def busy_store_def small_store_def isShiftEligibleEmploymentStatus_def)
  have to: "swTo asked_swap = ''e2''" by (simp add: asked_swap_def)
  have ok: "catalog_ok busy_store" using small_catalog catalog_reads(9) [OF busy_catalog] by simp
  have ids: "distinct_ids busy_store" by (simp add: distinct_ids_def busy_store_def night_booking_def early_booking_def)
  have start: "never_twice busy_store"
    by (rule never_twiceI) (auto simp: busy_store_def night_booking_def early_booking_def)
  have "booked_interval db' ''s1'' (hand_over ''e2'' night_booking) = Some (day_interval ''22:00'' ''04:00'' 20717)"
    "booked_interval db' ''s1'' early_booking = Some (day_interval ''03:00'' ''08:00'' 20718)"
    using small_intervals catalog_reads(8) [OF busy_catalog] catalog_reads(8) [OF cat] by simp_all
  moreover have "intervalsOverlap (day_interval ''22:00'' ''04:00'' 20717) (day_interval ''03:00'' ''08:00'' 20718)" by code_simp
  ultimately have clash: "intervals_clash (booked_interval db' ''s1'' (hand_over ''e2'' night_booking)) (booked_interval db' ''s1'' early_booking)"
    by (simp add: intervals_clash_Some)
  have twice: "\<not> never_twice db'"
  proof
    assume "never_twice db'"
    from never_twiceD [OF this, of "hand_over ''e2'' night_booking" early_booking "''s1''"] clash show False
      by (simp add: rows night_booking_def early_booking_def)
  qed
  have context1: "process_swap_context busy_store ''o1'' ''w1'' (Some APPROVE) = Inr (asked_swap, Some source)"
    using src(1,2) owners target(1) to
    by (simp add: process_swap_context_def swap_of_def busy_store_def small_store_def asked_swap_def opt_field_def assertOwnerStoreAccess_def
        fail_if_def Let_def)
  have "decide_swap_tx busy_store asked_swap source SWAP_APPROVED None ''o1'' \<noteq> Inr db'"
  proof
    assume d: "decide_swap_tx busy_store asked_swap source SWAP_APPROVED None ''o1'' = Inr db'"
    have "decide_swap_context busy_store ''w1'' (Some SWAP_APPROVED) (Some ''o1'') = Inr (asked_swap, Some source)"
      using src(1,2) owners target(1) to
      by (simp add: decide_swap_context_def swap_of_def busy_store_def small_store_def asked_swap_def opt_field_def check_party_def
          fail_if_def nonempty_def Let_def)
    then have "later busy_store db'" by (rule later.decided [OF later.start later.start _ d])
    then have "leads busy_store db'" using later_leads ok ids start busy_not_overfull by (simp add: books_ok_def)
    then show False using twice by (simp add: leads_def books_ok_def)
  qed
  then show thesis using that src ok ids start context1 tx twice owners target to by simp
qed

text \<open>The receiver ends with the night shift until 04:00 and the early one from 03:00.\<close>

theorem listed_approval_books_twice_witness:
  "\<exists>source db' e. load_assignment busy_store ''a1'' = Some source \<and> never_twice busy_store \<and>
    process_swap_tx busy_store asked_swap (Some source) APPROVE None ''o1'' = Inr db' \<and> \<not> never_twice db' \<and>
    decide_swap_tx busy_store asked_swap source SWAP_APPROVED None ''o1'' = Inl e"
proof -
  obtain source where src: "load_assignment busy_store ''a1'' = Some source" "ldStore source = Some ''s1''" "ldAssignment source = night_booking"
    by (rule night_loaded)
  obtain db' where tx: "process_swap_tx busy_store asked_swap (Some source) APPROVE None ''o1'' = Inr db'"
    by (rule busy_approved [OF src(2,3)])
  obtain ok: "catalog_ok busy_store" "distinct_ids busy_store" "never_twice busy_store" by (rule busy_swap)
  have "intervalsOverlap (day_interval ''22:00'' ''04:00'' 20717) (day_interval ''03:00'' ''08:00'' 20718)" by code_simp
  then have clash: "intervals_clash (booked_interval busy_store ''s1'' (ldAssignment source)) (booked_interval busy_store ''s1'' early_booking)"
    using small_intervals catalog_reads(8) [OF busy_catalog] by (simp add: src(3) intervals_clash_Some)
  have from1: "load_assignment busy_store (swFrom asked_swap) = Some source" using src(1) by (simp add: asked_swap_def)
  have early: "early_booking \<in> set (dbAssignments busy_store)" "asEmployee early_booking = swTo asked_swap"
    "asSlot early_booking \<noteq> asSlot (ldAssignment source)"
    by (simp_all add: busy_store_def early_booking_def asked_swap_def src(3) night_booking_def)
  show ?thesis using listed_approval_books_twice [OF ok from1 early clash tx, of None "''o1''"] src(1) ok(3) tx by blast
qed

theorem listed_approval_lacks_the_free_check_witness:
  "\<exists>source. load_assignment busy_store ''a1'' = Some source \<and> assertSwapTargetFree busy_store source (swTo asked_swap) \<noteq> Inr ()"
proof -
  obtain source target db' where s: "load_assignment busy_store ''a1'' = Some source" "ldStore source = Some ''s1''"
      "map_of (dbOwners busy_store) ''s1'' = Some ''o1''" "swTo asked_swap = ''e2''"
      "eligible_profile busy_store ''s1'' ''e2'' = Some target" "find (\<lambda>p. pfId p = ''e2'') (dbProfiles busy_store) = Some target"
    and tx: "process_swap_tx busy_store asked_swap (Some source) APPROVE None ''o1'' = Inr db'"
      "decide_swap_tx busy_store asked_swap source SWAP_APPROVED None ''o1'' \<noteq> Inr db'"
    by (rule busy_swap)
  show ?thesis
    using listed_approval_lacks_the_free_check [OF s(2,3), of asked_swap target None db'] s tx by auto
qed

end
