(* ===== verification/AttendancePolicy.thy ===== *)
theory AttendancePolicy
  imports AttendanceRules
begin

text \<open>
  The evidence asked for at check-in and check-out: \<open>src/modules/stores/attendance-enforcement.ts\<close> and
  \<open>applyAttendancePolicy\<close> of \<open>service-parts/attendance.part.ts\<close>. The distance of two points (\<open>calculateDistance\<close>, the haversine
  formula on floating point) is a parameter. The theorems: what an accepted attendance has proved, with a face photo under
  enforcement and without one under any configuration.
\<close>

datatype timekeeping_requirement = LOCATION_QR_GPS_FACEID | GPS_ONLY | QR_ONLY | GPS_QR

datatype attendance_violation =
    QR_REQUIRED | QR_MISMATCH | LOCATION_REQUIRED | OUT_OF_RANGE | STORE_LOCATION_MISSING | FACE_REQUIRED

datatype enforcement_mode = MODE_OFF | MODE_ENFORCE

definition resolveAttendanceEnforcementMode :: "string option \<Rightarrow> unit + enforcement_mode" where
  "resolveAttendanceEnforcementMode env_value =
     (if env_value = None \<or> env_value = Some [] \<or> env_value = Some ''off'' then Inr MODE_OFF
      else if env_value = Some ''enforce'' then Inr MODE_ENFORCE
      else Inl ())"

definition QR_REQUIREMENTS :: "timekeeping_requirement list" where
  "QR_REQUIREMENTS = [LOCATION_QR_GPS_FACEID, QR_ONLY, GPS_QR]"

definition GPS_REQUIREMENTS :: "timekeeping_requirement list" where
  "GPS_REQUIREMENTS = [LOCATION_QR_GPS_FACEID, GPS_ONLY, GPS_QR]"

definition DEFAULT_ATTENDANCE_RADIUS_METERS :: rat where
  "DEFAULT_ATTENDANCE_RADIUS_METERS = 50"

record attendance_rule_input =
  riRequirement :: "timekeeping_requirement option"
  riRequireQrScan :: "bool option"
  riRequireLocation :: "bool option"
  riRadius :: "rat option"
  riLocationExempt :: bool
  riQrStoreId :: "string option"
  riExpectedStoreId :: "string option"
  riDistance :: "jsnum option"
  riHasLocationFix :: bool

text \<open>\<open>x > r\<close> where the left side is a JavaScript number: false for NaN.\<close>

definition beyond :: "jsnum option \<Rightarrow> rat \<Rightarrow> bool" where
  "beyond d r = (case d of Some (Fin x) \<Rightarrow> x > r | Some PInf \<Rightarrow> True | _ \<Rightarrow> False)"

definition given_or :: "'a \<Rightarrow> 'a option \<Rightarrow> 'a" where
  "given_or d v = (case v of Some x \<Rightarrow> x | None \<Rightarrow> d)"

definition qr_violations :: "attendance_rule_input \<Rightarrow> attendance_violation list" where
  "qr_violations i =
     (case nonempty (riQrStoreId i) of
        Some qr \<Rightarrow>
          (case nonempty (riExpectedStoreId i) of
             Some expected \<Rightarrow> if qr \<noteq> expected then [QR_MISMATCH] else []
           | None \<Rightarrow> [])
      | None \<Rightarrow>
          if given_or True (riRequireQrScan i) \<and> given_or LOCATION_QR_GPS_FACEID (riRequirement i) \<in> set QR_REQUIREMENTS
          then [QR_REQUIRED] else [])"

definition location_required :: "attendance_rule_input \<Rightarrow> bool" where
  "location_required i \<longleftrightarrow> given_or True (riRequireLocation i) \<and>
     given_or LOCATION_QR_GPS_FACEID (riRequirement i) \<in> set GPS_REQUIREMENTS \<and> \<not> riLocationExempt i"

definition location_violations :: "attendance_rule_input \<Rightarrow> attendance_violation list" where
  "location_violations i =
     (if \<not> riHasLocationFix i then (if location_required i then [LOCATION_REQUIRED] else [])
      else if location_required i \<and> (case riRadius i of Some r \<Rightarrow> r > 0 \<and> beyond (riDistance i) r | None \<Rightarrow> False)
      then [OUT_OF_RANGE] else [])"

definition evaluateAttendanceRules :: "attendance_rule_input \<Rightarrow> attendance_violation list" where
  "evaluateAttendanceRules i = qr_violations i @ location_violations i"

definition faceless_radius :: "rat option \<Rightarrow> rat" where
  "faceless_radius radius = (case radius of Some r \<Rightarrow> if r > 0 then r else DEFAULT_ATTENDANCE_RADIUS_METERS | None \<Rightarrow> DEFAULT_ATTENDANCE_RADIUS_METERS)"

definition faceless_location ::
  "bool \<Rightarrow> bool \<Rightarrow> jsnum option \<Rightarrow> rat option \<Rightarrow> attendance_violation list" where
  "faceless_location storeHasLocation hasLocationFix distance radius =
     (if \<not> storeHasLocation then [STORE_LOCATION_MISSING]
      else case (hasLocationFix, distance) of
          (True, Some (Fin x)) \<Rightarrow> if x > faceless_radius radius then [OUT_OF_RANGE] else []
        | _ \<Rightarrow> [LOCATION_REQUIRED])"

definition evaluateFacelessAttendance ::
  "timekeeping_requirement option \<Rightarrow> rat option \<Rightarrow> string option \<Rightarrow> string option \<Rightarrow> bool \<Rightarrow> bool \<Rightarrow> jsnum option \<Rightarrow> attendance_violation list" where
  "evaluateFacelessAttendance requirement radius qrStoreId expectedStoreId hasLocationFix storeHasLocation distance =
     (if requirement \<noteq> Some GPS_QR \<and> requirement \<noteq> Some QR_ONLY then [FACE_REQUIRED]
      else
        (case nonempty qrStoreId of
           None \<Rightarrow> [QR_REQUIRED]
         | Some qr \<Rightarrow> if nonempty expectedStoreId \<noteq> Some qr then [QR_MISMATCH] else []) @
        (if requirement = Some QR_ONLY then []
         else faceless_location storeHasLocation hasLocationFix distance radius))"

text \<open>A coordinate as the request sends it: absent, refused, or a finite number within the limit.\<close>

definition parseAttendanceCoordinate :: "string option \<Rightarrow> rat \<Rightarrow> unit + rat option" where
  "parseAttendanceCoordinate v most =
     (case v of
        None \<Rightarrow> Inr None
      | Some s \<Rightarrow>
          if js_trim s = [] then Inr None
          else case num_of_string s of
              Fin n \<Rightarrow> if \<bar>n\<bar> > most then Inl () else Inr (Some n)
            | _ \<Rightarrow> Inl ())"

section \<open>The policy of a store\<close>

record timekeeping_row =
  tkRequireQrScan :: "bool option"
  tkRequireLocation :: "bool option"
  tkRadius :: "rat option"
  tkExceptions :: "string list option"
  tkRules :: attendance_rule_settings

record policy_tables =
  ptSettings :: "string \<Rightarrow> timekeeping_row option"
  ptRequirements :: "string \<Rightarrow> timekeeping_requirement option"
  ptLocations :: "string \<Rightarrow> (rat option \<times> rat option) option"

record attendance_options =
  aoLatitude :: "jsnum option"
  aoLongitude :: "jsnum option"
  aoQrStoreId :: "string option"

record policy_result =
  prDistance :: "jsnum option"
  prLatitude :: "rat option"
  prLongitude :: "rat option"
  prRules :: attendance_rules

datatype policy_error = FacelessRefused attendance_violation | PolicyBroken attendance_violation | BadMode

definition location_fix :: "attendance_options \<Rightarrow> (rat \<times> rat) option" where
  "location_fix options = (case (aoLatitude options, aoLongitude options) of (Some (Fin a), Some (Fin b)) \<Rightarrow> Some (a, b) | _ \<Rightarrow> None)"

text \<open>The point saved for the store, when both coordinates are.\<close>

definition store_point :: "policy_tables \<Rightarrow> string option \<Rightarrow> (rat \<times> rat) option" where
  "store_point tables storeId =
     (case Option.bind (nonempty storeId) (ptLocations tables) of Some (Some a, Some b) \<Rightarrow> Some (a, b) | _ \<Rightarrow> None)"

definition applyAttendancePolicy ::
  "(rat \<Rightarrow> rat \<Rightarrow> rat \<Rightarrow> rat \<Rightarrow> jsnum) \<Rightarrow> string option \<Rightarrow> policy_tables \<Rightarrow> string option \<Rightarrow> string \<Rightarrow> attendance_options \<Rightarrow> bool \<Rightarrow>
    policy_error + policy_result" where
  "applyAttendancePolicy calculateDistance env_value tables storeId employeeProfileId options faceless =
     (let timekeeping = Option.bind (nonempty storeId) (ptSettings tables);
          requirement = Option.bind (nonempty storeId) (ptRequirements tables);
          point = store_point tables storeId;
          fix' = location_fix options;
          distance = (case (fix', point) of (Some (a, b), Some (c, d)) \<Rightarrow> Some (calculateDistance a b c d) | _ \<Rightarrow> None);
          result = \<lparr> prDistance = distance, prLatitude = map_option fst fix', prLongitude = map_option snd fix',
            prRules = resolveAttendanceRules (map_option tkRules timekeeping) \<rparr>
      in if faceless then
           (case evaluateFacelessAttendance requirement (Option.bind timekeeping tkRadius) (aoQrStoreId options) storeId
               (fix' \<noteq> None) (point \<noteq> None) distance of
              v # _ \<Rightarrow> Inl (FacelessRefused v)
            | [] \<Rightarrow> Inr result)
         else
           (case evaluateAttendanceRules
               \<lparr> riRequirement = requirement, riRequireQrScan = Option.bind timekeeping tkRequireQrScan,
                 riRequireLocation = Option.bind timekeeping tkRequireLocation, riRadius = Option.bind timekeeping tkRadius,
                 riLocationExempt = (employeeProfileId \<noteq> [] \<and>
                   (case Option.bind timekeeping tkExceptions of Some es \<Rightarrow> employeeProfileId \<in> set es | None \<Rightarrow> False)),
                 riQrStoreId = aoQrStoreId options, riExpectedStoreId = storeId, riDistance = distance,
                 riHasLocationFix = (fix' \<noteq> None) \<rparr> of
              v # _ \<Rightarrow>
                (case resolveAttendanceEnforcementMode env_value of
                   Inl _ \<Rightarrow> Inl BadMode
                 | Inr MODE_ENFORCE \<Rightarrow> Inl (PolicyBroken v)
                 | Inr MODE_OFF \<Rightarrow> Inr result)
            | [] \<Rightarrow> Inr result))"

section \<open>What an accepted attendance proves\<close>

lemma faceless_empty:
  "evaluateFacelessAttendance requirement radius qr expected has_fix has_point distance = [] \<longleftrightarrow>
    (requirement = Some QR_ONLY \<or> requirement = Some GPS_QR \<and> faceless_location has_point has_fix distance radius = []) \<and>
    (\<exists>q. nonempty qr = Some q \<and> nonempty expected = Some q)"
  by (auto simp: evaluateFacelessAttendance_def split: option.splits)

text \<open>C25. An attendance without a face photo is never accepted on trust: whatever the enforcement mode, the switches of the store and the
  exemption of the employee, it is accepted exactly when the store asks for GPS and QR or for the QR alone, the QR scanned is that of
  the store of the shift, and, when GPS is asked for too, the store's point is saved and a fix within its radius (50 metres when
  none is set) was sent. A store that asks for the QR alone accepts it from anywhere.\<close>

theorem faceless_attendance_is_proven:
  "(\<exists>result. applyAttendancePolicy calculateDistance env_value tables storeId employee options True = Inr result) \<longleftrightarrow>
    (\<exists>store. storeId = Some store \<and> store \<noteq> [] \<and> aoQrStoreId options = Some store \<and>
      (ptRequirements tables store = Some QR_ONLY \<or>
       ptRequirements tables store = Some GPS_QR \<and>
       (\<exists>a b c d x. location_fix options = Some (a, b) \<and> ptLocations tables store = Some (Some c, Some d) \<and>
          calculateDistance a b c d = Fin x \<and> x \<le> faceless_radius (Option.bind (ptSettings tables store) tkRadius))))"
proof (cases "nonempty storeId")
  case None
  then show ?thesis
    by (auto simp: applyAttendancePolicy_def evaluateFacelessAttendance_def Let_def nonempty_def split: option.splits if_splits)
next
  case (Some store)
  then have s: "storeId = Some store" "store \<noteq> []" by (auto simp: nonempty_def split: option.splits if_splits)
  have list: "(\<exists>r. (case vs of v # _ \<Rightarrow> Inl (FacelessRefused v) | [] \<Rightarrow> Inr result) = (Inr r :: policy_error + policy_result)) \<longleftrightarrow> vs = []"
    for vs and result :: policy_result by (cases vs) auto
  have loc: "faceless_location (point \<noteq> None) (fix' \<noteq> None)
      (case (fix', point) of (Some (a, b), Some (c, d)) \<Rightarrow> Some (calculateDistance a b c d) | _ \<Rightarrow> None) radius = [] \<longleftrightarrow>
    (\<exists>a b c d x. fix' = Some (a, b) \<and> point = Some (c, d) \<and> calculateDistance a b c d = Fin x \<and> x \<le> faceless_radius radius)"
    for point fix' radius
    by (cases point; cases fix') (auto simp: faceless_location_def not_less split: jsnum.splits if_splits)
  have point: "store_point tables storeId = Some (c, d) \<longleftrightarrow> ptLocations tables store = Some (Some c, Some d)" for c d
    using Some by (auto simp: store_point_def split: option.splits)
  have codes: "(\<exists>q. nonempty qr = Some q \<and> nonempty (Some store) = Some q) \<longleftrightarrow> qr = Some store" for qr
    using s(2) by (auto simp: nonempty_def split: option.splits)
  have here: "Option.bind (nonempty (Some store)) f = f store" for f :: "string \<Rightarrow> 'z option" using s(2) by (simp add: nonempty_def)
  show ?thesis
    unfolding applyAttendancePolicy_def Let_def if_True list faceless_empty loc s(1) codes point [unfolded s(1)] here
    using s(2) by auto
qed

text \<open>With a photo, under enforcement: the scanned code is the store's whenever there is one, and there is one when the store asks for
  it; a fix is sent when the store asks for it and is not past a radius that is set.\<close>

definition satisfies_policy :: "attendance_rule_input \<Rightarrow> bool" where
  "satisfies_policy i \<longleftrightarrow>
     (\<forall>qr expected. nonempty (riQrStoreId i) = Some qr \<and> nonempty (riExpectedStoreId i) = Some expected \<longrightarrow> qr = expected) \<and>
     (given_or True (riRequireQrScan i) \<and> given_or LOCATION_QR_GPS_FACEID (riRequirement i) \<in> {LOCATION_QR_GPS_FACEID, QR_ONLY, GPS_QR}
        \<longrightarrow> nonempty (riQrStoreId i) \<noteq> None) \<and>
     (given_or True (riRequireLocation i) \<and> given_or LOCATION_QR_GPS_FACEID (riRequirement i) \<in> {LOCATION_QR_GPS_FACEID, GPS_ONLY, GPS_QR} \<and>
        \<not> riLocationExempt i \<longrightarrow> riHasLocationFix i \<and> (\<forall>r. riRadius i = Some r \<and> r > 0 \<longrightarrow> \<not> beyond (riDistance i) r))"

text \<open>The list of violations is empty exactly for the requests that satisfy the policy of the store, an unset switch counting as
  on and an unset requirement as the strictest; an employee exempt from the location is never held back by it.\<close>

theorem violations_are_exact: "evaluateAttendanceRules i = [] \<longleftrightarrow> satisfies_policy i"
proof -
  have qr: "qr_violations i = [] \<longleftrightarrow>
      (\<forall>qr expected. nonempty (riQrStoreId i) = Some qr \<and> nonempty (riExpectedStoreId i) = Some expected \<longrightarrow> qr = expected) \<and>
      (given_or True (riRequireQrScan i) \<and> given_or LOCATION_QR_GPS_FACEID (riRequirement i) \<in> {LOCATION_QR_GPS_FACEID, QR_ONLY, GPS_QR}
        \<longrightarrow> nonempty (riQrStoreId i) \<noteq> None)"
    by (auto simp: qr_violations_def QR_REQUIREMENTS_def split: option.splits)
  have loc: "location_violations i = [] \<longleftrightarrow>
      (location_required i \<longrightarrow> riHasLocationFix i \<and> (\<forall>r. riRadius i = Some r \<and> r > 0 \<longrightarrow> \<not> beyond (riDistance i) r))"
    by (auto simp: location_violations_def split: option.splits)
  show ?thesis
    unfolding evaluateAttendanceRules_def append_is_Nil_conv qr loc satisfies_policy_def location_required_def GPS_REQUIREMENTS_def
    by auto
qed

end
