(* ===== verification/AttendanceSteps.thy ===== *)
theory AttendanceSteps
  imports AttendancePolicy WorkedTimeRules LeaveCoverage ShiftTypes
begin

text \<open>
  Checking in and out: \<open>checkInWithFace\<close>, \<open>checkOutWithFace\<close> and what they call in \<open>service-parts/attendance.part.ts\<close>, with
  \<open>approvedOvertimeEnd\<close> of \<open>service-parts/requests.part.ts\<close> and \<open>overtimeEndAt\<close> of \<open>shift-end-workflow.service.ts\<close>. Each is what
  it reads and checks before the transaction and the transaction on the locked row. The comparison of faces is a third-party
  model: its outcome is an argument. Activity log, reports, payroll jobs and notifications after the commit are left out.
\<close>

section \<open>Rows\<close>

record employee_ref =
  emAccount :: "string option"
  emTerminated :: bool

text \<open>An assignment with its slot, the store of its cycle and its employee.\<close>

record attendance_row =
  atId :: string
  atEmployee :: string
  atProfile :: "employee_ref option"
  atStore :: "string option"
  atSlot :: "shift_slot option"
  atStatus :: assignment_status
  atCheckIn :: "instant option"
  atCheckOut :: "instant option"
  atLate :: "int option"
  atEarly :: "int option"
  atWorked :: "int option"
  atAttendance :: "attendance_status option"
  atAdjustedStart :: "instant option"
  atAdjustedEnd :: "instant option"
  atAuto :: bool
  atAutoReason :: "string option"
  atScheduledCheckout :: "instant option"
  atSlotId :: string
  atLateRequest :: "string option"
  atEarlyRequest :: "string option"

record overtime_row =
  otId :: string
  otAssignment :: "string option"
  otStatus :: request_status
  otDate :: "string option"
  otEnd :: "string option"
  otUpdated :: instant
  otNote :: "string option"
  otStore :: string
  otEmployee :: string
  otSlotId :: "string option"
  otStart :: "string option"
  otApprovedBy :: "string option"

datatype log_type = CHECK_IN | CHECK_OUT
datatype log_method = BY_FACE | BY_QR_GPS | BY_SYSTEM | BY_HAND

record log_row =
  lgAssignment :: string
  lgEmployee :: string
  lgStore :: string
  lgType :: log_type
  lgAt :: instant
  lgMethod :: log_method

datatype workflow_state =
    WF_ACTIVE | OVERTIME_PENDING | OVERTIME_APPROVED | COMPLETED_BY_EMPLOYEE | AUTO_COMPLETED | WF_CANCELLED

record workflow_row =
  wfAssignment :: string
  wfScheduledEnd :: instant
  wfEffectiveEnd :: instant
  wfState :: workflow_state
  wfReminder0 :: "instant option"
  wfReminder5 :: "instant option"
  wfReminder10 :: "instant option"
  wfAutoAt :: "instant option"
  wfOvertime :: "string option"

record end_job =
  jbAssignment :: string
  jbExpectedEnd :: instant
  jbMinute :: nat
  jbDue :: instant

record attendance_db =
  adRows :: "attendance_row list"
  adOvertime :: "overtime_row list"
  adWorkflows :: "workflow_row list"
  adLogs :: "log_row list"
  adLeaves :: "leave_row list"
  adCounting :: "string \<Rightarrow> worked_time_rule list"
  adPolicy :: policy_tables
  adJobs :: "end_job list"

definition row_of :: "attendance_db \<Rightarrow> string \<Rightarrow> attendance_row option" where
  "row_of db i = find (\<lambda>a. atId a = i) (adRows db)"

definition set_row :: "attendance_db \<Rightarrow> string \<Rightarrow> (attendance_row \<Rightarrow> attendance_row) \<Rightarrow> attendance_db" where
  "set_row db i f = db\<lparr>adRows := map (\<lambda>a. if atId a = i then f a else a) (adRows db)\<rparr>"

definition add_log :: "attendance_db \<Rightarrow> log_row \<Rightarrow> attendance_db" where
  "add_log db l = db\<lparr>adLogs := adLogs db @ [l]\<rparr>"

definition date_of :: "instant option \<Rightarrow> datev" where
  "date_of t = (case t of Some ms \<Rightarrow> DAt ms | None \<Rightarrow> DNull)"

definition row_window :: "attendance_row \<Rightarrow> effective_window" where
  "row_window a = effectiveWindowOf (date_of (atAdjustedStart a)) (date_of (atAdjustedEnd a)) (atSlot a)"

text \<open>The window with the times of the locked row, on the slot read before.\<close>

definition locked_window :: "attendance_row option \<Rightarrow> attendance_row \<Rightarrow> effective_window" where
  "locked_window locked a =
     effectiveWindowOf (date_of (opt_or (Option.bind locked atAdjustedStart) (atAdjustedStart a)))
       (date_of (opt_or (Option.bind locked atAdjustedEnd) (atAdjustedEnd a))) (atSlot a)"

section \<open>Counting\<close>

definition slot_start_text :: "shift_slot option \<Rightarrow> string option" where
  "slot_start_text slot = (case slot of None \<Rightarrow> None | Some sl \<Rightarrow> str_or (slotStartTime sl) (Option.bind (slotWorkShift sl) wsStartTime))"

definition slot_end_text :: "shift_slot option \<Rightarrow> string option" where
  "slot_end_text slot = (case slot of None \<Rightarrow> None | Some sl \<Rightarrow> str_or (slotEndTime sl) (Option.bind (slotWorkShift sl) wsEndTime))"

definition slot_work_date :: "shift_slot option \<Rightarrow> work_date" where
  "slot_work_date slot = (case slot of None \<Rightarrow> WNone | Some sl \<Rightarrow> slotWorkDate sl)"

definition loadWorkedTimeRules :: "attendance_db \<Rightarrow> string option \<Rightarrow> worked_time_rule list" where
  "loadWorkedTimeRules db storeId = (case nonempty storeId of Some s \<Rightarrow> adCounting db s | None \<Rightarrow> [])"

definition workedTimeModeFor :: "attendance_db \<Rightarrow> string option \<Rightarrow> string \<Rightarrow> shift_slot option \<Rightarrow> worked_time_mode" where
  "workedTimeModeFor db storeId employeeProfileId slot =
     (case shiftStartKey (slot_work_date slot) (slot_start_text slot) of
        None \<Rightarrow> SHIFT_MODE
      | Some key \<Rightarrow> resolveWorkedTimeMode (loadWorkedTimeRules db storeId) (Some employeeProfileId) key)"

text \<open>An end clock more than twelve hours before the shift end is read as the next day.\<close>

definition overtimeEndAt :: "overtime_row option \<Rightarrow> instant option \<Rightarrow> instant option" where
  "overtimeEndAt request shiftEndAt =
     (case request of
        None \<Rightarrow> None
      | Some r \<Rightarrow>
          (case (nonempty (otDate r), nonempty (otEnd r)) of
             (Some d, Some t) \<Rightarrow>
               (case toInstant (take 10 d) (Some (take 8 t)) of
                  None \<Rightarrow> None
                | Some t0 \<Rightarrow>
                    Some (case shiftEndAt of
                        Some e \<Rightarrow> if t0 < e - 12 * 3600000 then t0 + 86400000 else t0
                      | None \<Rightarrow> t0))
           | _ \<Rightarrow> None))"

text \<open>The newest approved request of the assignment, the first one on equal times.\<close>

definition newest_overtime :: "overtime_row list \<Rightarrow> overtime_row option" where
  "newest_overtime rs = foldl (\<lambda>best r. case best of None \<Rightarrow> Some r | Some b \<Rightarrow> if otUpdated r > otUpdated b then Some r else Some b) None rs"

definition approvedOvertimeEnd :: "attendance_db \<Rightarrow> string \<Rightarrow> instant option \<Rightarrow> instant option" where
  "approvedOvertimeEnd db assignmentId shiftEnd =
     overtimeEndAt (newest_overtime (filter (\<lambda>r. otAssignment r = Some assignmentId \<and> otStatus r = REQUEST_APPROVED) (adOvertime db))) shiftEnd"

section \<open>Answers\<close>

record attendance_answer =
  anAlready :: bool
  anMinutes :: "int option"
  anOver :: int
  anGrace :: int
  anWorked :: "int option"
  anStatus :: "attendance_status option"
  anTime :: "instant option"

definition storedAttendanceDeltas :: "attendance_row \<Rightarrow> attendance_deltas" where
  "storedAttendanceDeltas a =
     computeAttendanceDeltas (winStart (row_window a)) (winEnd (row_window a)) (atCheckIn a) (atCheckOut a)
       (atAuto a \<or> nonempty (atAutoReason a) \<noteq> None)"

definition minutes_val :: "int option \<Rightarrow> jsval" where
  "minutes_val m = (case m of Some x \<Rightarrow> JNum (Fin (of_int x)) | None \<Rightarrow> JNull)"

definition late_grace :: "attendance_deltas \<Rightarrow> int option \<Rightarrow> int" where
  "late_grace d late = fst (withinGraceMinutes (Some (dLateMinutes d)) (Some (dEarlyMinutes d)) (minutes_val late) JNull)"

definition early_grace :: "attendance_deltas \<Rightarrow> int option \<Rightarrow> int" where
  "early_grace d early = snd (withinGraceMinutes (Some (dLateMinutes d)) (Some (dEarlyMinutes d)) JNull (minutes_val early))"

text \<open>What a repeated submission is told, from a row and the deltas to show.\<close>

definition already_in :: "attendance_row \<Rightarrow> attendance_deltas \<Rightarrow> attendance_answer" where
  "already_in a d = \<lparr> anAlready = True, anMinutes = atLate a, anOver = dEarlyArrivalMinutes d, anGrace = late_grace d (atLate a),
     anWorked = None, anStatus = atAttendance a, anTime = atCheckIn a \<rparr>"

definition already_out :: "attendance_row \<Rightarrow> attendance_deltas \<Rightarrow> attendance_answer" where
  "already_out a d = \<lparr> anAlready = True, anMinutes = atEarly a, anOver = dOvertimeMinutes d, anGrace = early_grace d (atEarly a),
     anWorked = atWorked a, anStatus = atAttendance a, anTime = atCheckOut a \<rparr>"

section \<open>Checking in\<close>

datatype attendance_error =
    RowMissing | NotSelf | LeftStore | NotApproved | ShiftEnded | AnotherShift attendance_row bool | Policy policy_error
  | TooEarly instant | FaceMissing | UnableToCheckIn | NotCheckedIn | UnableToCheckOut

text \<open>The outcome of the face step: no photo was sent, no face is registered, no face was found, or the distance and the verdict.\<close>

datatype face_outcome = NoPhoto | NoRegistration | NoFace | Compared rat bool

definition assertAttendanceSelfAccess :: "attendance_row \<Rightarrow> string \<Rightarrow> attendance_error + unit" where
  "assertAttendanceSelfAccess a accountId =
     (case atProfile a of
        None \<Rightarrow> Inl NotSelf
      | Some employee \<Rightarrow>
          if accountId = [] \<or> emAccount employee \<noteq> Some accountId then Inl NotSelf
          else fail_if (emTerminated employee) LeftStore)"

definition lift_policy :: "policy_error + 'a \<Rightarrow> attendance_error + 'a" where
  "lift_policy r = (case r of Inl e \<Rightarrow> Inl (Policy e) | Inr a \<Rightarrow> Inr a)"

definition open_row :: "attendance_row \<Rightarrow> bool" where
  "open_row a \<longleftrightarrow> atStatus a = CONFIRMED \<and> atCheckOut a = None"

definition still_running :: "instant \<Rightarrow> attendance_row \<Rightarrow> bool" where
  "still_running now a \<longleftrightarrow> (case winEnd (row_window a) of Some e \<Rightarrow> now < e | None \<Rightarrow> False)"

text \<open>Another shift of the employee that is under way; whether this one starts when it ends only changes the message.\<close>

definition another_shift :: "attendance_db \<Rightarrow> attendance_row \<Rightarrow> instant \<Rightarrow> attendance_error + unit" where
  "another_shift db a now =
     (case find (still_running now) (filter (\<lambda>r. atEmployee r = atEmployee a \<and> atId r \<noteq> atId a \<and> open_row r) (adRows db)) of
        None \<Rightarrow> Inr ()
      | Some other \<Rightarrow> Inl (AnotherShift other
          (winStart (row_window a) \<noteq> None \<and> winStart (row_window a) = winEnd (row_window other))))"

definition check_opening :: "attendance_row \<Rightarrow> attendance_rules \<Rightarrow> instant \<Rightarrow> attendance_error + unit" where
  "check_opening a rules now =
     (case checkInOpensAt (scheduledStart (row_window a)) rules of
        Some opensAt \<Rightarrow> fail_if (now < opensAt) (TooEarly opensAt)
      | None \<Rightarrow> Inr ())"

text \<open>The checks before the transaction: the row and the policy, or the row of an attendance that is recorded already.\<close>

definition check_in_context ::
  "(rat \<Rightarrow> rat \<Rightarrow> rat \<Rightarrow> rat \<Rightarrow> jsnum) \<Rightarrow> string option \<Rightarrow> attendance_db \<Rightarrow> string \<Rightarrow> string \<Rightarrow> attendance_options \<Rightarrow> bool \<Rightarrow> instant \<Rightarrow>
    attendance_error + (attendance_row \<times> policy_result option)" where
  "check_in_context calculateDistance env_value db assignmentId accountId options faceless now =
     (case row_of db assignmentId of
        None \<Rightarrow> Inl RowMissing
      | Some a \<Rightarrow>
          and_then (assertAttendanceSelfAccess a accountId) (\<lambda>_.
            if atCheckIn a \<noteq> None then Inr (a, None)
            else
              and_then (fail_if (atStatus a \<noteq> APPROVED) NotApproved) (\<lambda>_.
              and_then (fail_if (atAttendance a = Some ABSENT \<or> (case winEnd (row_window a) of Some e \<Rightarrow> now \<ge> e | None \<Rightarrow> False)) ShiftEnded) (\<lambda>_.
              and_then (another_shift db a now) (\<lambda>_.
              and_then (lift_policy (applyAttendancePolicy calculateDistance env_value (adPolicy db) (atStore a) (atEmployee a) options faceless))
                (\<lambda>policy.
              and_then (check_opening a (prRules policy) now) (\<lambda>_. Inr (a, Some policy))))))))"

definition store_text :: "attendance_row \<Rightarrow> string" where
  "store_text a = (case atStore a of Some s \<Rightarrow> s | None \<Rightarrow> [])"

definition method_of :: "bool \<Rightarrow> log_method" where
  "method_of faceless = (if faceless then BY_QR_GPS else BY_FACE)"

definition late_minutes :: "attendance_db \<Rightarrow> attendance_row \<Rightarrow> attendance_rules \<Rightarrow> instant \<Rightarrow> int" where
  "late_minutes db a rules now =
     applyGrace (calculateLateMinutes (winStart (locked_window (row_of db (atId a)) a)) now) rules Late"

definition late_status :: "int \<Rightarrow> attendance_status" where
  "late_status late = (if late > 0 then attendance_status.LATE else ON_TIME)"

definition may_check_in :: "attendance_row \<Rightarrow> bool" where
  "may_check_in a \<longleftrightarrow> atCheckIn a = None \<and> atStatus a = APPROVED"

definition start_deltas :: "attendance_db \<Rightarrow> attendance_row \<Rightarrow> instant option \<Rightarrow> attendance_deltas" where
  "start_deltas db a checkIn = computeAttendanceDeltas (winStart (locked_window (row_of db (atId a)) a)) None checkIn None False"

definition check_in_tx ::
  "attendance_db \<Rightarrow> attendance_row \<Rightarrow> attendance_rules \<Rightarrow> bool \<Rightarrow> instant \<Rightarrow> attendance_error + (attendance_db \<times> attendance_answer)" where
  "check_in_tx db a rules faceless now =
     (let late = late_minutes db a rules now in
      case row_of db (atId a) of
        None \<Rightarrow> Inl UnableToCheckIn
      | Some locked \<Rightarrow>
          if may_check_in locked then
            Inr (add_log (set_row db (atId a) (\<lambda>r. r\<lparr>atCheckIn := Some now, atLate := Some late, atAttendance := Some (late_status late),
                       atStatus := CONFIRMED\<rparr>))
                   \<lparr> lgAssignment = atId a, lgEmployee = atEmployee a, lgStore = store_text a, lgType = CHECK_IN, lgAt = now,
                     lgMethod = method_of faceless \<rparr>,
                 \<lparr> anAlready = False, anMinutes = Some late, anOver = dEarlyArrivalMinutes (start_deltas db a (Some now)),
                   anGrace = late_grace (start_deltas db a (Some now)) (Some late), anWorked = None,
                   anStatus = Some (late_status late), anTime = Some now \<rparr>)
          else if atCheckIn locked \<noteq> None then Inr (db, already_in locked (start_deltas db a (atCheckIn locked)))
          else Inl UnableToCheckIn)"

text \<open>The whole handler: \<open>db1\<close> and \<open>now1\<close> before the face step, \<open>db2\<close> and \<open>now2\<close> after it. \<open>None\<close> is the answer of a face that
  was not matched.\<close>

definition checkInWithFace ::
  "(rat \<Rightarrow> rat \<Rightarrow> rat \<Rightarrow> rat \<Rightarrow> jsnum) \<Rightarrow> string option \<Rightarrow> attendance_db \<Rightarrow> attendance_db \<Rightarrow> string \<Rightarrow> string \<Rightarrow> attendance_options \<Rightarrow>
    face_outcome \<Rightarrow> instant \<Rightarrow> instant \<Rightarrow> attendance_error + (attendance_db \<times> attendance_answer option)" where
  "checkInWithFace calculateDistance env_value db1 db2 assignmentId accountId options face now1 now2 =
     and_then (check_in_context calculateDistance env_value db1 assignmentId accountId options (face = NoPhoto) now1) (\<lambda>(a, policy).
       case policy of
         None \<Rightarrow> Inr (db2, Some (already_in a (storedAttendanceDeltas a)))
       | Some p \<Rightarrow>
           (case face of
              NoRegistration \<Rightarrow> Inl FaceMissing
            | NoFace \<Rightarrow> Inr (db2, None)
            | Compared d False \<Rightarrow> Inr (db2, None)
            | _ \<Rightarrow> and_then (check_in_tx db2 a (prRules p) (face = NoPhoto) now2) (\<lambda>(db3, answer). Inr (db3, Some answer))))"

section \<open>Checking out\<close>

definition check_out_context ::
  "(rat \<Rightarrow> rat \<Rightarrow> rat \<Rightarrow> rat \<Rightarrow> jsnum) \<Rightarrow> string option \<Rightarrow> attendance_db \<Rightarrow> string \<Rightarrow> string \<Rightarrow> attendance_options \<Rightarrow> bool \<Rightarrow>
    attendance_error + (attendance_row \<times> policy_result option)" where
  "check_out_context calculateDistance env_value db assignmentId accountId options faceless =
     (case row_of db assignmentId of
        None \<Rightarrow> Inl RowMissing
      | Some a \<Rightarrow>
          and_then (assertAttendanceSelfAccess a accountId) (\<lambda>_.
          and_then (fail_if (atCheckIn a = None) NotCheckedIn) (\<lambda>_.
            if atCheckOut a \<noteq> None then Inr (a, None)
            else
              and_then (lift_policy (applyAttendancePolicy calculateDistance env_value (adPolicy db) (atStore a) (atEmployee a) options faceless))
                (\<lambda>policy. Inr (a, Some policy)))))"

text \<open>What is paid and recorded at the locked row; the row read before stands in for one that is gone.\<close>

definition out_window :: "attendance_db \<Rightarrow> attendance_row \<Rightarrow> effective_window" where
  "out_window db a =
     (let current = given_or a (row_of db (atId a))
      in effectiveWindowOf (date_of (atAdjustedStart current)) (date_of (atAdjustedEnd current)) (atSlot a))"

definition out_early :: "attendance_db \<Rightarrow> attendance_row \<Rightarrow> attendance_rules \<Rightarrow> instant \<Rightarrow> int" where
  "out_early db a rules now = applyGrace (calculateEarlyMinutes (winEnd (out_window db a)) now) rules Early"

definition out_worked ::
  "attendance_db \<Rightarrow> attendance_row \<Rightarrow> attendance_rules \<Rightarrow> instant option \<Rightarrow> worked_time_mode \<Rightarrow> instant \<Rightarrow> int" where
  "out_worked db a rules paidUntil mode now =
     (let current = given_or a (row_of db (atId a)) in
      creditedWorkedMinutes \<lparr> wiStart = winStart (out_window db a), wiEnd = winEnd (out_window db a),
        wiCheckIn = given_or 0 (opt_or (atCheckIn current) (atCheckIn a)), wiCheckOut = now, wiRules = rules,
        wiStoredLate = atLate current, wiPaidUntil = paidUntil, wiMode = Some mode, wiCapAtPaidEnd = False \<rparr>)"

definition out_status :: "attendance_db \<Rightarrow> attendance_row \<Rightarrow> int \<Rightarrow> attendance_status" where
  "out_status db a early =
     (let current = given_or a (row_of db (atId a)); late = given_or 0 (opt_or (atLate current) (atLate a)) in
      if late > 0 \<and> early > 0 then LATE_AND_EARLY
      else if early > 0 then attendance_status.EARLY
      else given_or ON_TIME (atAttendance current))"

definition may_check_out :: "attendance_row \<Rightarrow> bool" where
  "may_check_out a \<longleftrightarrow> atCheckOut a = None \<and> atCheckIn a \<noteq> None"

definition end_deltas :: "attendance_db \<Rightarrow> attendance_row \<Rightarrow> instant option \<Rightarrow> bool \<Rightarrow> attendance_deltas" where
  "end_deltas db a checkOut auto = computeAttendanceDeltas None (winEnd (out_window db a)) None checkOut auto"

definition check_out_tx ::
  "attendance_db \<Rightarrow> attendance_row \<Rightarrow> attendance_rules \<Rightarrow> instant option \<Rightarrow> worked_time_mode \<Rightarrow> bool \<Rightarrow> instant \<Rightarrow>
    attendance_error + (attendance_db \<times> attendance_answer)" where
  "check_out_tx db a rules paidUntil mode faceless now =
     (let early = out_early db a rules now; worked = out_worked db a rules paidUntil mode now; status = out_status db a early in
      case row_of db (atId a) of
        None \<Rightarrow> Inl UnableToCheckOut
      | Some locked \<Rightarrow>
          if may_check_out locked then
            Inr (add_log (set_row db (atId a) (\<lambda>r. r\<lparr>atCheckOut := Some now, atEarly := Some early, atWorked := Some worked,
                       atAttendance := Some status, atStatus := COMPLETED\<rparr>))
                   \<lparr> lgAssignment = atId a, lgEmployee = atEmployee a, lgStore = store_text a, lgType = CHECK_OUT, lgAt = now,
                     lgMethod = method_of faceless \<rparr>,
                 \<lparr> anAlready = False, anMinutes = Some early, anOver = dOvertimeMinutes (end_deltas db a (Some now) False),
                   anGrace = early_grace (end_deltas db a (Some now) False) (Some early), anWorked = Some worked,
                   anStatus = Some status, anTime = Some now \<rparr>)
          else if atCheckOut locked \<noteq> None
          then Inr (db, already_out locked (end_deltas db a (atCheckOut locked) (atAuto locked \<or> nonempty (atAutoReason locked) \<noteq> None)))
          else Inl UnableToCheckOut)"

definition checkOutWithFace ::
  "(rat \<Rightarrow> rat \<Rightarrow> rat \<Rightarrow> rat \<Rightarrow> jsnum) \<Rightarrow> string option \<Rightarrow> attendance_db \<Rightarrow> attendance_db \<Rightarrow> string \<Rightarrow> string \<Rightarrow> attendance_options \<Rightarrow>
    face_outcome \<Rightarrow> instant \<Rightarrow> attendance_error + (attendance_db \<times> attendance_answer option)" where
  "checkOutWithFace calculateDistance env_value db1 db2 assignmentId accountId options face now =
     and_then (check_out_context calculateDistance env_value db1 assignmentId accountId options (face = NoPhoto)) (\<lambda>(a, policy).
       case policy of
         None \<Rightarrow> Inr (db2, Some (already_out a (storedAttendanceDeltas a)))
       | Some p \<Rightarrow>
           (case face of
              NoRegistration \<Rightarrow> Inl FaceMissing
            | NoFace \<Rightarrow> Inr (db2, None)
            | Compared d False \<Rightarrow> Inr (db2, None)
            | _ \<Rightarrow>
                and_then (check_out_tx db2 a (prRules p) (approvedOvertimeEnd db1 (atId a) (winEnd (row_window a)))
                    (workedTimeModeFor db1 (atStore a) (atEmployee a) (atSlot a)) (face = NoPhoto) now)
                  (\<lambda>(db3, answer). Inr (db3, Some answer))))"

end
