(* ===== verification/ShiftEnd.thy ===== *)
theory ShiftEnd
  imports AttendanceSteps
begin

text \<open>
  What happens at the end of a shift without the employee: \<open>shift-end-workflow.service.ts\<close> with \<open>findChainedNextAssignment\<close> of
  \<open>shift-chain.utils.ts\<close>. A workflow row per assignment holds the end in force; queued jobs and a reconciliation every minute remind,
  chain into the next shift, close forgotten check-outs and mark absences. Job identifiers are the rows of the queue, so that adding
  one twice has no effect, as the queue promises. Notifications, reports, payroll jobs and the owner's alerts are left out, and so is
  the fall-back to the default rules when reading them fails.
\<close>

definition AUTO_CHECKOUT_GRACE_MINUTES :: int where "AUTO_CHECKOUT_GRACE_MINUTES = 15"
definition END_REMINDER_MINUTES :: "nat list" where "END_REMINDER_MINUTES = [0, 5, 10]"
definition AUTO_CHECKOUT_STEP :: nat where "AUTO_CHECKOUT_STEP = 15"

text \<open>The note is Vietnamese; its name stands for it.\<close>

definition PENDING_OVERTIME_EXPIRED_NOTE :: string where
  "PENDING_OVERTIME_EXPIRED_NOTE = ''PENDING_OVERTIME_EXPIRED''"

definition pendingOvertimeAutoCheckoutAt :: "instant \<Rightarrow> overtime_row option \<Rightarrow> int \<Rightarrow> instant" where
  "pendingOvertimeAutoCheckoutAt effectiveEndAt request grace =
     (let last' = (case overtimeEndAt request (Some effectiveEndAt) of Some e \<Rightarrow> if e > effectiveEndAt then e else effectiveEndAt
         | None \<Rightarrow> effectiveEndAt)
      in last' + grace * 60000)"

definition rulesFor :: "attendance_db \<Rightarrow> string option \<Rightarrow> attendance_rules" where
  "rulesFor db storeId = resolveAttendanceRules (map_option tkRules (Option.bind (nonempty storeId) (ptSettings (adPolicy db))))"

definition calculateScheduledEnd :: "string \<Rightarrow> string \<Rightarrow> string \<Rightarrow> instant option" where
  "calculateScheduledEnd workDate startTime endTime =
     (case (toInstant workDate (Some startTime), toInstant workDate (Some endTime)) of
        (Some s, Some e) \<Rightarrow> Some (if e \<le> s then e + DAY_MS else e)
      | (_, e) \<Rightarrow> e)"

section \<open>Workflows and jobs\<close>

definition workflow_of :: "attendance_db \<Rightarrow> string \<Rightarrow> workflow_row option" where
  "workflow_of db i = find (\<lambda>w. wfAssignment w = i) (adWorkflows db)"

definition set_workflow :: "attendance_db \<Rightarrow> string \<Rightarrow> (workflow_row \<Rightarrow> workflow_row) \<Rightarrow> attendance_db" where
  "set_workflow db i f = db\<lparr>adWorkflows := map (\<lambda>w. if wfAssignment w = i then f w else w) (adWorkflows db)\<rparr>"

definition add_job :: "attendance_db \<Rightarrow> end_job \<Rightarrow> attendance_db" where
  "add_job db j = (if j \<in> set (adJobs db) then db else db\<lparr>adJobs := adJobs db @ [j]\<rparr>)"

definition enqueueAutoCheckout :: "attendance_db \<Rightarrow> string \<Rightarrow> instant \<Rightarrow> instant \<Rightarrow> attendance_db" where
  "enqueueAutoCheckout db assignmentId effectiveEndAt dueAt =
     add_job db \<lparr> jbAssignment = assignmentId, jbExpectedEnd = effectiveEndAt, jbMinute = AUTO_CHECKOUT_STEP, jbDue = dueAt \<rparr>"

definition scheduleJobs :: "attendance_db \<Rightarrow> string \<Rightarrow> instant \<Rightarrow> int \<Rightarrow> attendance_db" where
  "scheduleJobs db assignmentId effectiveEndAt grace =
     enqueueAutoCheckout
       (foldl (\<lambda>d m. add_job d \<lparr> jbAssignment = assignmentId, jbExpectedEnd = effectiveEndAt, jbMinute = m,
            jbDue = effectiveEndAt + int m * 60000 \<rparr>)
          db (filter (\<lambda>m. int m < grace) END_REMINDER_MINUTES))
       assignmentId effectiveEndAt (effectiveEndAt + grace * 60000)"

definition new_workflow :: "string \<Rightarrow> instant \<Rightarrow> workflow_row" where
  "new_workflow assignmentId endAt = \<lparr> wfAssignment = assignmentId, wfScheduledEnd = endAt, wfEffectiveEnd = endAt, wfState = WF_ACTIVE,
     wfReminder0 = None, wfReminder5 = None, wfReminder10 = None, wfAutoAt = None, wfOvertime = None \<rparr>"

text \<open>The end in force of a row with a work date and times; none otherwise.\<close>

definition scheduled_end_of :: "attendance_row \<Rightarrow> instant option" where
  "scheduled_end_of a =
     (case (work_date_string (slot_work_date (atSlot a)), nonempty (slot_start_text (atSlot a)), nonempty (slot_end_text (atSlot a))) of
        (Some d, Some s, Some e) \<Rightarrow> (case atAdjustedEnd a of Some t \<Rightarrow> Some t | None \<Rightarrow> calculateScheduledEnd d s e)
      | _ \<Rightarrow> None)"

definition scheduleForAssignment :: "attendance_db \<Rightarrow> string \<Rightarrow> attendance_rules option \<Rightarrow> attendance_db" where
  "scheduleForAssignment db assignmentId knownRules =
     (case row_of db assignmentId of
        None \<Rightarrow> db
      | Some a \<Rightarrow>
          if atCheckIn a = None \<or> atCheckOut a \<noteq> None then db
          else
            (case scheduled_end_of a of
               None \<Rightarrow> db
             | Some endAt \<Rightarrow>
                 let grace = lateCheckoutMinutes (given_or (rulesFor db (atStore a)) knownRules) in
                 (case workflow_of db assignmentId of
                    Some w \<Rightarrow> scheduleJobs db assignmentId (wfEffectiveEnd w) grace
                  | None \<Rightarrow> scheduleJobs (db\<lparr>adWorkflows := adWorkflows db @ [new_workflow assignmentId endAt]\<rparr>) assignmentId endAt grace)))"

definition markCompletedByEmployee :: "attendance_db \<Rightarrow> string \<Rightarrow> attendance_db" where
  "markCompletedByEmployee db assignmentId = set_workflow db assignmentId (\<lambda>w. w\<lparr>wfState := COMPLETED_BY_EMPLOYEE\<rparr>)"

section \<open>Closing a forgotten check-out\<close>

definition live_overtime :: "attendance_db \<Rightarrow> string \<Rightarrow> overtime_row list" where
  "live_overtime db assignmentId =
     filter (\<lambda>r. otAssignment r = Some assignmentId \<and> (otStatus r = REQUEST_PENDING \<or> otStatus r = REQUEST_APPROVED)) (adOvertime db)"

text \<open>The loop over the requests: \<open>None\<close> when one blocks, else the expired pending ones and the end of the last approved one.\<close>

fun overtime_verdict ::
  "bool \<Rightarrow> instant \<Rightarrow> instant \<Rightarrow> int \<Rightarrow> string list \<Rightarrow> instant option \<Rightarrow> overtime_row list \<Rightarrow> (string list \<times> instant option) option" where
  "overtime_verdict pendingDue now effectiveEndAt grace expired approvedEnd [] = Some (expired, approvedEnd)"
| "overtime_verdict pendingDue now effectiveEndAt grace expired approvedEnd (r # rs) =
     (if otStatus r = REQUEST_PENDING
      then (if pendingDue then overtime_verdict pendingDue now effectiveEndAt grace (expired @ [otId r]) approvedEnd rs else None)
      else
        (case overtimeEndAt (Some r) (Some effectiveEndAt) of
           Some e \<Rightarrow> if now < e + grace * 60000 then None
             else overtime_verdict pendingDue now effectiveEndAt grace expired (Some e) rs
         | None \<Rightarrow> overtime_verdict pendingDue now effectiveEndAt grace expired None rs))"

definition system_log :: "attendance_row \<Rightarrow> log_type \<Rightarrow> instant \<Rightarrow> log_row" where
  "system_log a type at_time = \<lparr> lgAssignment = atId a, lgEmployee = atEmployee a, lgStore = store_text a, lgType = type, lgAt = at_time,
     lgMethod = BY_SYSTEM \<rparr>"

definition expire_overtime :: "attendance_db \<Rightarrow> string list \<Rightarrow> attendance_db" where
  "expire_overtime db ids = db\<lparr>adOvertime := map (\<lambda>r. if otId r \<in> set ids \<and> otStatus r = REQUEST_PENDING
     then r\<lparr>otStatus := REQUEST_CANCELLED, otNote := Some PENDING_OVERTIME_EXPIRED_NOTE\<rparr> else r) (adOvertime db)\<rparr>"

definition auto_worked :: "attendance_db \<Rightarrow> attendance_row \<Rightarrow> attendance_rules \<Rightarrow> instant \<Rightarrow> instant option \<Rightarrow> int" where
  "auto_worked db a rules effectiveEndAt approvedEnd =
     creditedWorkedMinutes \<lparr> wiStart = winStart (row_window a), wiEnd = winEnd (row_window a), wiCheckIn = given_or 0 (atCheckIn a),
       wiCheckOut = effectiveEndAt, wiRules = rules, wiStoredLate = atLate a, wiPaidUntil = approvedEnd,
       wiMode = Some (workedTimeModeFor db (atStore a) (atEmployee a) (atSlot a)), wiCapAtPaidEnd = True \<rparr>"

text \<open>\<open>None\<close> when nothing was closed.\<close>

definition autoCheckout ::
  "attendance_db \<Rightarrow> string \<Rightarrow> instant \<Rightarrow> bool \<Rightarrow> attendance_rules option \<Rightarrow> instant \<Rightarrow> attendance_db option" where
  "autoCheckout db assignmentId effectiveEndAt pendingDue knownRules now =
     (case row_of db assignmentId of
        None \<Rightarrow> None
      | Some a \<Rightarrow>
          if atCheckIn a = None \<or> atCheckOut a \<noteq> None then None
          else
            (let rules = given_or (rulesFor db (atStore a)) knownRules in
             case overtime_verdict pendingDue now effectiveEndAt (lateCheckoutMinutes rules) [] None (live_overtime db assignmentId) of
               None \<Rightarrow> None
             | Some (expired, approvedEnd) \<Rightarrow>
                 if atStatus a \<noteq> CONFIRMED then None
                 else
                   Some (set_workflow
                     (add_log
                       (expire_overtime
                         (set_row db assignmentId (\<lambda>r. r\<lparr>atCheckOut := Some now,
                            atWorked := Some (auto_worked db a rules effectiveEndAt approvedEnd), atAttendance := Some FORGOT_CHECKOUT,
                            atStatus := COMPLETED, atAuto := True, atAutoReason := Some ''FORGOT_CHECKOUT'',
                            atScheduledCheckout := Some effectiveEndAt\<rparr>))
                         expired)
                       (system_log a CHECK_OUT now))
                     assignmentId (\<lambda>w. w\<lparr>wfState := AUTO_COMPLETED, wfAutoAt := Some now\<rparr>))))"

section \<open>Chaining into the next shift\<close>

definition chain_candidate :: "attendance_row \<Rightarrow> string \<Rightarrow> string list \<Rightarrow> attendance_row \<Rightarrow> bool" where
  "chain_candidate previous storeId workDates c \<longleftrightarrow>
     atEmployee c = atEmployee previous \<and> atId c \<noteq> atId previous \<and> atStatus c = APPROVED \<and> atCheckIn c = None \<and>
     atStore c = Some storeId \<and> (case work_date_string (slot_work_date (atSlot c)) of Some d \<Rightarrow> d \<in> set workDates | None \<Rightarrow> False)"

definition row_date_text :: "attendance_row \<Rightarrow> string" where
  "row_date_text a = (case work_date_string (slot_work_date (atSlot a)) of Some d \<Rightarrow> d | None \<Rightarrow> [])"

definition findChainedNextAssignment :: "attendance_db \<Rightarrow> attendance_row \<Rightarrow> instant option \<Rightarrow> date_error + attendance_row option" where
  "findChainedNextAssignment db previous previousEnd =
     (case (previousEnd, nonempty (atStore previous), work_date_string (slot_work_date (atSlot previous))) of
        (Some endAt, Some storeId, Some workDate) \<Rightarrow>
          and_then (addDays_date workDate 1) (\<lambda>nextDate.
            Inr (find (\<lambda>c. winStart (row_window c) = Some endAt \<and>
                     \<not> approvedLeaveCoversShiftSql (atEmployee c) (row_date_text c) (atId c) (adLeaves db))
                   (filter (chain_candidate previous storeId [workDate, nextDate]) (adRows db))))
      | _ \<Rightarrow> Inr None)"

definition chain_worked :: "attendance_db \<Rightarrow> attendance_row \<Rightarrow> attendance_rules \<Rightarrow> instant \<Rightarrow> int" where
  "chain_worked db previous rules endAt =
     creditedWorkedMinutes \<lparr> wiStart = winStart (row_window previous), wiEnd = Some endAt, wiCheckIn = given_or 0 (atCheckIn previous),
       wiCheckOut = endAt, wiRules = rules, wiStoredLate = atLate previous, wiPaidUntil = None,
       wiMode = Some (workedTimeModeFor db (atStore previous) (atEmployee previous) (atSlot previous)), wiCapAtPaidEnd = False \<rparr>"

text \<open>The candidate under its lock: still the employee's, not absent, not over.\<close>

definition may_chain_into :: "attendance_row \<Rightarrow> attendance_row \<Rightarrow> attendance_row \<Rightarrow> instant \<Rightarrow> bool" where
  "may_chain_into previous candidate lockedNext now \<longleftrightarrow>
     atCheckIn lockedNext = None \<and> atStatus lockedNext = APPROVED \<and> atEmployee lockedNext = atEmployee previous \<and>
     atAttendance lockedNext \<noteq> Some ABSENT \<and> \<not> (case winEnd (row_window candidate) of Some e \<Rightarrow> now \<ge> e | None \<Rightarrow> False)"

definition close_and_open :: "attendance_db \<Rightarrow> attendance_row \<Rightarrow> attendance_row \<Rightarrow> attendance_rules \<Rightarrow> instant \<Rightarrow> attendance_db" where
  "close_and_open db previous candidate rules endAt =
     (let closed = set_row db (atId previous) (\<lambda>r. r\<lparr>atCheckOut := Some endAt, atWorked := Some (chain_worked db previous rules endAt),
            atEarly := Some 0, atStatus := COMPLETED\<rparr>);
          opened = set_row closed (atId candidate) (\<lambda>r. r\<lparr>atCheckIn := Some endAt, atLate := Some 0, atAttendance := Some ON_TIME,
            atStatus := CONFIRMED\<rparr>);
          logged = add_log (add_log opened (system_log previous CHECK_OUT endAt))
            ((system_log candidate CHECK_IN endAt)\<lparr>lgEmployee := atEmployee previous, lgStore := store_text previous\<rparr>)
      in set_workflow logged (atId previous) (\<lambda>w. w\<lparr>wfState := COMPLETED_BY_EMPLOYEE\<rparr>))"

text \<open>A date that cannot be read makes the transaction fail, which counts as nothing to chain into.\<close>

definition chainIntoNextShift :: "attendance_db \<Rightarrow> string \<Rightarrow> attendance_rules option \<Rightarrow> instant \<Rightarrow> attendance_db option" where
  "chainIntoNextShift db assignmentId knownRules now =
     (case row_of db assignmentId of
        None \<Rightarrow> None
      | Some previous \<Rightarrow>
          if atCheckIn previous = None \<or> atCheckOut previous \<noteq> None \<or> atStatus previous \<noteq> CONFIRMED then None
          else
            (case winEnd (row_window previous) of
               None \<Rightarrow> None
             | Some endAt \<Rightarrow>
                 if now < endAt \<or> live_overtime db assignmentId \<noteq> [] then None
                 else
                   (case findChainedNextAssignment db previous (Some endAt) of
                      Inr (Some candidate) \<Rightarrow>
                        (case row_of db (atId candidate) of
                           None \<Rightarrow> None
                         | Some lockedNext \<Rightarrow>
                             if \<not> may_chain_into previous candidate lockedNext now then None
                             else
                               (let rules = given_or (rulesFor db (atStore previous)) knownRules in
                                Some (scheduleForAssignment (close_and_open db previous candidate rules endAt) (atId candidate) knownRules)))
                    | _ \<Rightarrow> None)))"

section \<open>Overtime and early leave move the end\<close>

definition markOvertimePending :: "attendance_db \<Rightarrow> overtime_row \<Rightarrow> attendance_db" where
  "markOvertimePending db request =
     (case nonempty (otAssignment request) of
        None \<Rightarrow> db
      | Some i \<Rightarrow> set_workflow db i (\<lambda>w. w\<lparr>wfState := OVERTIME_PENDING, wfOvertime := Some (otId request)\<rparr>))"

definition no_reminders :: "workflow_row \<Rightarrow> workflow_row" where
  "no_reminders w = w\<lparr>wfReminder0 := None, wfReminder5 := None, wfReminder10 := None\<rparr>"

text \<open>A time that cannot be read makes the update fail.\<close>

definition approveOvertime :: "attendance_db \<Rightarrow> overtime_row \<Rightarrow> string option \<Rightarrow> attendance_db" where
  "approveOvertime db request storeId =
     (case (nonempty (otAssignment request), nonempty (otDate request), nonempty (otEnd request)) of
        (Some i, Some _, Some _) \<Rightarrow>
          (case workflow_of db i of
             None \<Rightarrow> db
           | Some w \<Rightarrow>
               (case overtimeEndAt (Some request) (Some (wfScheduledEnd w)) of
                  None \<Rightarrow> db
                | Some endAt \<Rightarrow>
                    scheduleJobs (set_workflow db i (\<lambda>w. no_reminders (w\<lparr>wfState := OVERTIME_APPROVED, wfEffectiveEnd := endAt,
                      wfOvertime := Some (otId request)\<rparr>))) i endAt (lateCheckoutMinutes (rulesFor db storeId))))
      | _ \<Rightarrow> db)"

definition applyAdjustedEnd :: "attendance_db \<Rightarrow> string \<Rightarrow> instant \<Rightarrow> attendance_db" where
  "applyAdjustedEnd db assignmentId now =
     (case row_of db assignmentId of
        None \<Rightarrow> db
      | Some a \<Rightarrow>
          if atCheckIn a = None \<or> atCheckOut a \<noteq> None then db
          else
            (case atAdjustedEnd a of
               None \<Rightarrow> db
             | Some adjusted \<Rightarrow>
                 (case workflow_of db assignmentId of
                    None \<Rightarrow> scheduleForAssignment db assignmentId None
                  | Some w \<Rightarrow>
                      if wfState w \<noteq> WF_ACTIVE then db
                      else
                        (let endAt = max adjusted now in
                         scheduleJobs (set_workflow db assignmentId
                             (\<lambda>w. no_reminders (w\<lparr>wfScheduledEnd := endAt, wfEffectiveEnd := endAt\<rparr>)))
                           assignmentId endAt (lateCheckoutMinutes (rulesFor db (atStore a)))))))"

definition resumeAfterOvertime :: "attendance_db \<Rightarrow> overtime_row \<Rightarrow> string option \<Rightarrow> instant \<Rightarrow> attendance_db" where
  "resumeAfterOvertime db request storeId now =
     (case nonempty (otAssignment request) of
        None \<Rightarrow> db
      | Some i \<Rightarrow>
          (case workflow_of db i of
             None \<Rightarrow> db
           | Some w \<Rightarrow>
               (let endAt = (if now > wfScheduledEnd w then now + 5 * 60000 else wfScheduledEnd w) in
                scheduleJobs (set_workflow db i (\<lambda>w. w\<lparr>wfState := WF_ACTIVE, wfEffectiveEnd := endAt, wfOvertime := None\<rparr>))
                  i endAt (lateCheckoutMinutes (rulesFor db storeId)))))"

section \<open>Jobs\<close>

definition mark_reminder :: "workflow_row \<Rightarrow> nat \<Rightarrow> instant \<Rightarrow> workflow_row" where
  "mark_reminder w minute now =
     (if minute = 0 then w\<lparr>wfReminder0 := opt_or (wfReminder0 w) (Some now)\<rparr>
      else if minute = 5 then w\<lparr>wfReminder5 := opt_or (wfReminder5 w) (Some now)\<rparr>
      else w\<lparr>wfReminder10 := opt_or (wfReminder10 w) (Some now)\<rparr>)"

text \<open>The step of a job whose workflow still has its end and is active, on a row that is checked in and not out.\<close>

definition reminder_step :: "attendance_db \<Rightarrow> attendance_row \<Rightarrow> workflow_row \<Rightarrow> nat \<Rightarrow> instant \<Rightarrow> attendance_db" where
  "reminder_step db a w minute now =
     (let i = wfAssignment w; rules = rulesFor db (atStore a) in
      case (if wfState w = WF_ACTIVE then chainIntoNextShift db i (Some rules) now else None) of
        Some db' \<Rightarrow> db'
      | None \<Rightarrow>
          if minute = AUTO_CHECKOUT_STEP then
            (let dueAt = wfEffectiveEnd w + lateCheckoutMinutes rules * 60000 in
             if now < dueAt - 1000 then enqueueAutoCheckout db i (wfEffectiveEnd w) dueAt
             else given_or db (autoCheckout db i (wfEffectiveEnd w) False (Some rules) now))
          else if int minute \<ge> lateCheckoutMinutes rules then db
          else set_workflow db i (\<lambda>w. mark_reminder w minute now))"

definition handleReminderJob :: "attendance_db \<Rightarrow> end_job \<Rightarrow> instant \<Rightarrow> attendance_db" where
  "handleReminderJob db job now =
     (case workflow_of db (jbAssignment job) of
        None \<Rightarrow> db
      | Some w \<Rightarrow>
          if wfEffectiveEnd w \<noteq> jbExpectedEnd job \<or> (wfState w \<noteq> WF_ACTIVE \<and> wfState w \<noteq> OVERTIME_APPROVED) then db
          else
            (case row_of db (jbAssignment job) of
               None \<Rightarrow> db
             | Some a \<Rightarrow>
                 if atCheckIn a = None then db
                 else if atCheckOut a \<noteq> None \<or> atStatus a = COMPLETED then markCompletedByEmployee db (jbAssignment job)
                 else
                   (case live_overtime db (jbAssignment job) of
                      r # _ \<Rightarrow>
                        if otStatus r = REQUEST_PENDING
                        then set_workflow db (jbAssignment job) (\<lambda>w. w\<lparr>wfState := OVERTIME_PENDING, wfOvertime := Some (otId r)\<rparr>)
                        else reminder_step db a w (jbMinute job) now
                    | [] \<Rightarrow> reminder_step db a w (jbMinute job) now)))"

section \<open>The reconciliation of every minute\<close>

definition mark_absent_row :: "attendance_db \<Rightarrow> instant \<Rightarrow> attendance_row \<Rightarrow> attendance_row" where
  "mark_absent_row db now a =
     (let today = vnDateString now; yesterday = vnDateString (now - 86400000) in
      case (work_date_string (slot_work_date (atSlot a)), winStart (row_window a), winEnd (row_window a)) of
        (Some d, Some _, Some endAt) \<Rightarrow>
          if atStatus a = APPROVED \<and> atCheckIn a = None \<and> atAttendance a = None \<and> (d = yesterday \<or> d = today) \<and>
             \<not> approvedLeaveCoversShiftSql (atEmployee a) d (atId a) (adLeaves db) \<and> now \<ge> endAt
          then a\<lparr>atAttendance := Some ABSENT\<rparr> else a
      | _ \<Rightarrow> a)"

text \<open>Check-in reminders are notifications and not modelled.\<close>

definition reconcileUnstartedAssignments :: "attendance_db \<Rightarrow> instant \<Rightarrow> attendance_db" where
  "reconcileUnstartedAssignments db now = db\<lparr>adRows := map (mark_absent_row db now) (adRows db)\<rparr>"

text \<open>One turn of the loop, on the tables as they are then.\<close>

definition reconcile_one :: "instant \<Rightarrow> attendance_db \<Rightarrow> attendance_row \<Rightarrow> attendance_db" where
  "reconcile_one now db0 a =
     (let i = atId a; rules = rulesFor db0 (atStore a); db = scheduleForAssignment db0 i (Some rules) in
      case workflow_of db i of
        None \<Rightarrow> db
      | Some w \<Rightarrow>
          (case (if wfState w = WF_ACTIVE \<and> now \<ge> wfEffectiveEnd w then chainIntoNextShift db i (Some rules) now else None) of
             Some db' \<Rightarrow> db'
           | None \<Rightarrow>
               if (wfState w = WF_ACTIVE \<or> wfState w = OVERTIME_APPROVED) \<and> now \<ge> wfEffectiveEnd w + lateCheckoutMinutes rules * 60000
               then given_or db (autoCheckout db i (wfEffectiveEnd w) False (Some rules) now)
               else if wfState w = OVERTIME_PENDING \<and>
                 now \<ge> pendingOvertimeAutoCheckoutAt (wfEffectiveEnd w)
                   (case nonempty (wfOvertime w) of None \<Rightarrow> None | Some k \<Rightarrow> find (\<lambda>r. otId r = k) (adOvertime db)) (lateCheckoutMinutes rules)
               then given_or db (autoCheckout db i (wfEffectiveEnd w) True (Some rules) now)
               else db))"

definition reconcileActiveAssignments :: "attendance_db \<Rightarrow> instant \<Rightarrow> attendance_db" where
  "reconcileActiveAssignments db now = foldl (reconcile_one now) db (filter open_row (adRows db))"

end
