(* ===== verification/OvertimeRequests.thy ===== *)
theory OvertimeRequests
  imports ShiftEnd RequestPolicy
begin

text \<open>
  Asking for overtime and deciding on it: \<open>createBonusWorkRequest\<close>, \<open>approveBonusWorkRequest\<close>, \<open>rejectBonusWorkRequest\<close> and
  \<open>cancelBonusWorkRequest\<close> of \<open>service-parts/requests.part.ts\<close> with the routes of \<open>controllers/stores-requests.controller.ts\<close> that move the
  workflow of the shift with them. What is read before a write may be an earlier state of the tables: a decision is a check on
  the request as it was loaded and an update of the row if it still has that status. Reasons, attachments, the activity log,
  payroll jobs and notifications are left out. A request without a shift is a claim for hours already worked; approving it is in
  \<open>WorkSupplement\<close>.
\<close>

section \<open>Tables\<close>

record member_row =
  mbId :: string
  mbStore :: string
  mbAccount :: "string option"
  mbStatus :: employment_status
  mbRemoved :: bool

datatype payment_status = PAY_PENDING | PAY_APPROVED | PAY_PAID | PAY_REJECTED

text \<open>The attendance tables with the stores (and their owners), the profiles (removed ones too), the owners' rules for requests, the
  longest overtime of a store's settings, the requests counted by month and the payslips by employee and first day of the
  month. Rows stand in the order of their creation.\<close>

record request_db =
  rqBooks :: attendance_db
  rqOwners :: "(string \<times> string) list"
  rqMembers :: "member_row list"
  rqPolicies :: "(string \<times> ApprovalPolicy) list"
  rqMaxOvertime :: "(string \<times> int) list"
  rqChanges :: "change_row list"
  rqSwaps :: "swap_count_row list"
  rqPayslips :: "((string \<times> string) \<times> payment_status) list"

definition set_books :: "(attendance_db \<Rightarrow> attendance_db) \<Rightarrow> request_db \<Rightarrow> request_db" where
  "set_books f db = db\<lparr>rqBooks := f (rqBooks db)\<rparr>"

datatype request_error =
    AccountUnknown | StoreMissing | NotOwner | RequestMissing | RequestGone | RequestStale | RequestDecided | OnlyPending | NotRequester
  | MemberMissing | OtherStore | MemberLeft | EmployeeMissing | ShiftMismatch | OvertimeTooLong int | OvertimeAsked | EarlyLeaveAsked
  | SupplementCredited | SupplementIncomplete | SupplementAhead | NoShiftThen | ShiftOnLeave | BadDate | PayslipFinalized | ShiftChanged
  | OutBeforeIn | BadLeaveDate | EndBeforeStart | BadLeaveType | BadShift | PolicyRefused policy_violation | TimeOutsideShift
  | LateTimePassed | ChangeApproved | OvertimeOnShift

section \<open>Access\<close>

definition assertOwnerStoreAccess :: "request_db \<Rightarrow> string \<Rightarrow> string \<Rightarrow> request_error + unit" where
  "assertOwnerStoreAccess db storeId account =
     (case map_of (rqOwners db) storeId of None \<Rightarrow> Inl StoreMissing | Some owner \<Rightarrow> fail_if (owner \<noteq> account) NotOwner)"

definition member_of :: "request_db \<Rightarrow> string \<Rightarrow> member_row option" where
  "member_of db i = find (\<lambda>m. mbId m = i \<and> \<not> mbRemoved m) (rqMembers db)"

definition isEmployedStatus :: "employment_status \<Rightarrow> bool" where
  "isEmployedStatus s \<longleftrightarrow> s \<in> {EMP_ACTIVE, EMP_PROBATION, EMP_ON_LEAVE}"

text \<open>The owner of the employee's store, or the employee while employed.\<close>

definition resolveEmployeeOwnerOrSelf :: "request_db \<Rightarrow> string \<Rightarrow> string \<Rightarrow> string option \<Rightarrow> request_error + member_row \<times> bool" where
  "resolveEmployeeOwnerOrSelf db profileId accountId expectedStoreId =
     (case member_of db profileId of
        None \<Rightarrow> Inl MemberMissing
      | Some m \<Rightarrow>
          and_then (fail_if (nonempty expectedStoreId \<noteq> None \<and> expectedStoreId \<noteq> Some (mbStore m)) OtherStore) (\<lambda>_.
            case map_of (rqOwners db) (mbStore m) of
              None \<Rightarrow> Inl StoreMissing
            | Some owner \<Rightarrow>
                if owner = accountId then Inr (m, True)
                else and_then (fail_if (mbAccount m \<noteq> Some accountId \<or> \<not> isEmployedStatus (mbStatus m)) NotRequester) (\<lambda>_. Inr (m, False))))"

definition assertEmployeeSelfAccess :: "request_db \<Rightarrow> string \<Rightarrow> string \<Rightarrow> string option \<Rightarrow> request_error + member_row" where
  "assertEmployeeSelfAccess db employeeProfileId accountId expectedStoreId =
     and_then (fail_if (employeeProfileId = []) EmployeeMissing) (\<lambda>_.
       case member_of db employeeProfileId of
         None \<Rightarrow> Inl MemberMissing
       | Some m \<Rightarrow>
           and_then (fail_if (accountId = [] \<or> mbAccount m \<noteq> Some accountId) NotRequester) (\<lambda>_.
           and_then (fail_if (nonempty expectedStoreId \<noteq> None \<and> expectedStoreId \<noteq> Some (mbStore m)) OtherStore) (\<lambda>_.
           and_then (fail_if (mbStatus m = EMP_TERMINATED) MemberLeft) (\<lambda>_. Inr m))))"

section \<open>Asking for overtime\<close>

record overtime_input =
  oiStore :: string
  oiEmployee :: string
  oiSlot :: "string option"
  oiAssignment :: "string option"
  oiDate :: string
  oiStart :: "string option"
  oiEnd :: "string option"

definition DEFAULT_MAX_OVERTIME_MINUTES :: int where "DEFAULT_MAX_OVERTIME_MINUTES = 480"

definition max_overtime :: "request_db \<Rightarrow> string \<Rightarrow> int" where
  "max_overtime db storeId =
     (case map_of (rqMaxOvertime db) storeId of Some m \<Rightarrow> if m > 0 then m else DEFAULT_MAX_OVERTIME_MINUTES | None \<Rightarrow> DEFAULT_MAX_OVERTIME_MINUTES)"

definition upcoming :: "attendance_row \<Rightarrow> bool" where
  "upcoming a \<longleftrightarrow> atStatus a = APPROVED \<or> atStatus a = CONFIRMED"

text \<open>The shift asked about: the one sent, or the employee's on the slot sent.\<close>

definition linked_assignment :: "request_db \<Rightarrow> overtime_input \<Rightarrow> string option" where
  "linked_assignment db d =
     (case nonempty (oiAssignment d) of
        Some i \<Rightarrow> Some i
      | None \<Rightarrow>
          (case nonempty (oiSlot d) of
             None \<Rightarrow> None
           | Some slot \<Rightarrow>
               map_option atId (find (\<lambda>a. atSlotId a = slot \<and> atEmployee a = oiEmployee d \<and> upcoming a) (adRows (rqBooks db)))))"

definition unlinked_request :: "overtime_input \<Rightarrow> string \<Rightarrow> instant \<Rightarrow> overtime_row" where
  "unlinked_request d newId now =
     \<lparr> otId = newId, otAssignment = None, otStatus = REQUEST_PENDING, otDate = Some (oiDate d), otEnd = nonempty (oiEnd d), otUpdated = now,
       otNote = None, otStore = oiStore d, otEmployee = oiEmployee d, otSlotId = nonempty (oiSlot d), otStart = nonempty (oiStart d),
       otApprovedBy = None \<rparr>"

definition add_overtime :: "overtime_row \<Rightarrow> request_db \<Rightarrow> request_db" where
  "add_overtime r = set_books (\<lambda>b. b\<lparr>adOvertime := adOvertime b @ [r]\<rparr>)"

text \<open>The instant asked for, and the request as it is stored: clock times to the minute on the work date.\<close>

definition asked_end :: "attendance_row \<Rightarrow> string option \<Rightarrow> instant option \<Rightarrow> instant option" where
  "asked_end a clock shiftEnd =
     (case shiftEnd of
        None \<Rightarrow> None
      | Some e \<Rightarrow>
          overtimeEndAt (Some \<lparr> otId = [], otAssignment = None, otStatus = REQUEST_PENDING, otDate = Some (row_date_text a),
            otEnd = map_option (take 8) clock, otUpdated = 0, otNote = None, otStore = [], otEmployee = [], otSlotId = None, otStart = None,
            otApprovedBy = None \<rparr>) (Some e))"

definition linked_request :: "overtime_input \<Rightarrow> attendance_row \<Rightarrow> instant \<Rightarrow> instant \<Rightarrow> string \<Rightarrow> instant \<Rightarrow> overtime_row" where
  "linked_request d a shiftEnd endAt newId now =
     \<lparr> otId = newId, otAssignment = Some (atId a), otStatus = REQUEST_PENDING, otDate = Some (row_date_text a),
       otEnd = Some (vnClockHHmm endAt @ '':00''), otUpdated = now, otNote = None, otStore = oiStore d, otEmployee = oiEmployee d,
       otSlotId = Some (atSlotId a), otStart = Some (vnClockHHmm shiftEnd @ '':00''), otApprovedBy = None \<rparr>"

definition early_leave_on :: "attendance_db \<Rightarrow> string \<Rightarrow> bool" where
  "early_leave_on b assignmentId =
     list_ex (\<lambda>l. lvAssignment l = Some assignmentId \<and> lvType l = leave_type.EARLY \<and> \<not> lvDeleted l \<and>
       (lvStatus l = Some LEAVE_PENDING \<or> lvStatus l = Some LEAVE_APPROVED)) (adLeaves b)"

text \<open>The transaction under the lock of the assignment.\<close>

definition link_tx :: "request_db \<Rightarrow> overtime_input \<Rightarrow> string \<Rightarrow> string \<Rightarrow> instant \<Rightarrow> request_error + request_db \<times> overtime_row" where
  "link_tx db d linkedId newId now =
     (case find (\<lambda>a. atId a = linkedId \<and> atEmployee a = oiEmployee d) (adRows (rqBooks db)) of
        None \<Rightarrow> Inl ShiftMismatch
      | Some a \<Rightarrow>
          and_then (fail_if (\<not> upcoming a \<or> atCheckOut a \<noteq> None) ShiftMismatch) (\<lambda>_.
          and_then (fail_if (atSlot a = None \<or> atStore a \<noteq> Some (oiStore d)) ShiftMismatch) (\<lambda>_.
            case (winEnd (row_window a), asked_end a (oiEnd d) (winEnd (row_window a))) of
              (Some shiftEnd, Some endAt) \<Rightarrow>
                and_then (fail_if (endAt \<le> shiftEnd) ShiftMismatch) (\<lambda>_.
                and_then (fail_if (js_round (of_int (endAt - shiftEnd) / 60000) > of_int (max_overtime db (oiStore d)))
                    (OvertimeTooLong (max_overtime db (oiStore d)))) (\<lambda>_.
                and_then (fail_if (live_overtime (rqBooks db) linkedId \<noteq> []) OvertimeAsked) (\<lambda>_.
                and_then (fail_if (early_leave_on (rqBooks db) linkedId) EarlyLeaveAsked) (\<lambda>_.
                  let r = linked_request d a shiftEnd endAt newId now in Inr (add_overtime r db, r)))))
            | _ \<Rightarrow> Inl ShiftMismatch)))"

text \<open>\<open>db1\<close> when the shift is looked up, \<open>db2\<close> in the transaction. A request of an older build that fits no shift is kept
  without one.\<close>

definition createBonusWorkRequest ::
  "request_db \<Rightarrow> request_db \<Rightarrow> overtime_input \<Rightarrow> string \<Rightarrow> instant \<Rightarrow> request_error + request_db \<times> overtime_row" where
  "createBonusWorkRequest db1 db2 d newId now =
     (let unlinked = unlinked_request d newId now; kept_unlinked = Inr (add_overtime unlinked db2, unlinked) in
      case linked_assignment db1 d of
        None \<Rightarrow> kept_unlinked
      | Some linkedId \<Rightarrow>
          (case link_tx db2 d linkedId newId now of
             Inl e \<Rightarrow> if nonempty (oiAssignment d) = None \<and> e = ShiftMismatch then kept_unlinked else Inl e
           | Inr saved \<Rightarrow> Inr saved))"

text \<open>The route: the owner or the employee, the store of the profile, and the workflow waits for the decision.\<close>

definition post_bonus_work_request ::
  "request_db \<Rightarrow> request_db \<Rightarrow> overtime_input \<Rightarrow> string \<Rightarrow> string \<Rightarrow> instant \<Rightarrow> request_error + request_db \<times> overtime_row" where
  "post_bonus_work_request db1 db2 body userId newId now =
     and_then (fail_if (oiEmployee body = []) EmployeeMissing) (\<lambda>_.
     and_then (resolveEmployeeOwnerOrSelf db1 (oiEmployee body) userId (nonempty (Some (oiStore body)))) (\<lambda>(profile, _).
     and_then (createBonusWorkRequest db1 db2 (body\<lparr>oiStore := mbStore profile\<rparr>) newId now) (\<lambda>(db3, r).
       Inr (set_books (\<lambda>b. markOvertimePending b r) db3, r))))"

section \<open>Deciding\<close>

definition overtime_of :: "request_db \<Rightarrow> string \<Rightarrow> overtime_row option" where
  "overtime_of db i = find (\<lambda>r. otId r = i) (adOvertime (rqBooks db))"

definition set_overtime :: "(overtime_row \<Rightarrow> bool) \<Rightarrow> (overtime_row \<Rightarrow> overtime_row) \<Rightarrow> request_db \<Rightarrow> request_db" where
  "set_overtime hit f = set_books (\<lambda>b. b\<lparr>adOvertime := map (\<lambda>r. if hit r then f r else r) (adOvertime b)\<rparr>)"

definition loadBonusWorkRequestForOwner ::
  "request_db \<Rightarrow> string \<Rightarrow> string option \<Rightarrow> request_error + overtime_row \<times> string option" where
  "loadBonusWorkRequestForOwner db i ownerAccountId =
     (case nonempty ownerAccountId of
        None \<Rightarrow> Inl AccountUnknown
      | Some account \<Rightarrow>
          (case overtime_of db i of
             None \<Rightarrow> Inl RequestMissing
           | Some r \<Rightarrow>
               and_then (assertOwnerStoreAccess db (otStore r) account) (\<lambda>_.
               and_then (fail_if (otStatus r = REQUEST_CANCELLED) RequestGone) (\<lambda>_.
                 Inr (r, map_option mbId (find (\<lambda>m. mbAccount m = Some account \<and> mbStore m = otStore r \<and> \<not> mbRemoved m) (rqMembers db)))))))"

text \<open>\<open>changes\<close> is what is written beside the status.\<close>

definition decideBonusWorkRequest ::
  "request_db \<Rightarrow> overtime_row \<Rightarrow> request_status \<Rightarrow> (overtime_row \<Rightarrow> overtime_row) \<Rightarrow> instant \<Rightarrow> request_error + request_db \<times> overtime_row" where
  "decideBonusWorkRequest db r decided changes now =
     and_then (fail_if (otStatus r = decided) RequestStale) (\<lambda>_.
     and_then (fail_if (decided = REQUEST_APPROVED \<and> otStatus r \<noteq> REQUEST_PENDING) OnlyPending) (\<lambda>_.
       let hit = (\<lambda>x. otId x = otId r \<and> otStatus x = otStatus r); f = (\<lambda>x. (changes x)\<lparr>otStatus := decided\<rparr>) in
       and_then (fail_if (filter hit (adOvertime (rqBooks db)) = []) RequestStale) (\<lambda>_.
         Inr (set_overtime hit (\<lambda>x. (f x)\<lparr>otUpdated := now\<rparr>) db, f r))))"

definition repriced :: "attendance_db \<Rightarrow> attendance_row \<Rightarrow> int" where
  "repriced b a =
     creditedWorkedMinutes \<lparr> wiStart = winStart (row_window a), wiEnd = winEnd (row_window a), wiCheckIn = given_or 0 (atCheckIn a),
       wiCheckOut = given_or 0 (atCheckOut a), wiRules = rulesFor b (atStore a), wiStoredLate = atLate a,
       wiPaidUntil = approvedOvertimeEnd b (atId a) (winEnd (row_window a)),
       wiMode = Some (workedTimeModeFor b (atStore a) (atEmployee a) (atSlot a)), wiCapAtPaidEnd = False \<rparr>"

text \<open>\<open>b1\<close> when the shift is read and priced, \<open>b2\<close> when it is written.\<close>

definition repriceCheckedOutOvertime :: "attendance_db \<Rightarrow> overtime_row \<Rightarrow> attendance_db \<Rightarrow> attendance_db" where
  "repriceCheckedOutOvertime b1 r b2 =
     (case Option.bind (nonempty (otAssignment r)) (row_of b1) of
        None \<Rightarrow> b2
      | Some a \<Rightarrow>
          if atStatus a \<noteq> COMPLETED \<or> atCheckIn a = None \<or> atCheckOut a = None \<or> atAuto a \<or> repriced b1 a = given_or 0 (atWorked a) then b2
          else b2\<lparr>adRows := map (\<lambda>x. if atId x = atId a \<and> atStatus x = COMPLETED then x\<lparr>atWorked := Some (repriced b1 a)\<rparr> else x)
                 (adRows b2)\<rparr>)"

text \<open>Approving a request for a shift; \<open>None\<close> leaves a request without one to \<open>approveWorkSupplement\<close>.\<close>

definition approve_overtime_tx :: "request_db \<Rightarrow> overtime_row \<Rightarrow> string option \<Rightarrow> instant \<Rightarrow> request_error + request_db \<times> overtime_row" where
  "approve_overtime_tx db2 r approver now =
     and_then (decideBonusWorkRequest db2 r REQUEST_APPROVED (\<lambda>x. x\<lparr>otApprovedBy := approver\<rparr>) now) (\<lambda>(db3, saved).
       Inr (set_books (\<lambda>b. repriceCheckedOutOvertime b saved b) db3, saved))"

definition rejectBonusWorkRequest ::
  "request_db \<Rightarrow> request_db \<Rightarrow> string \<Rightarrow> string option \<Rightarrow> string option \<Rightarrow> instant \<Rightarrow> request_error + request_db \<times> overtime_row" where
  "rejectBonusWorkRequest db1 db2 i ownerAccountId reason now =
     and_then (loadBonusWorkRequestForOwner db1 i ownerAccountId) (\<lambda>(r, approver).
     and_then (fail_if (nonempty (otAssignment r) = None \<and> otStatus r = REQUEST_APPROVED) SupplementCredited) (\<lambda>_.
     and_then (decideBonusWorkRequest db2 r REQUEST_REJECTED (\<lambda>x. x\<lparr>otApprovedBy := approver, otNote := reason\<rparr>) now) (\<lambda>(db3, saved).
       Inr (set_books (\<lambda>b. repriceCheckedOutOvertime b saved b) db3, saved))))"

text \<open>Saving the loaded request writes all of it. The requester may have left since.\<close>

definition cancelBonusWorkRequest ::
  "request_db \<Rightarrow> request_db \<Rightarrow> string \<Rightarrow> string option \<Rightarrow> instant \<Rightarrow> request_error + request_db \<times> overtime_row" where
  "cancelBonusWorkRequest db1 db2 i accountId now =
     (case nonempty accountId of
        None \<Rightarrow> Inl AccountUnknown
      | Some account \<Rightarrow>
          (case overtime_of db1 i of
             None \<Rightarrow> Inl RequestMissing
           | Some r \<Rightarrow>
               and_then (fail_if (Option.bind (find (\<lambda>m. mbId m = otEmployee r) (rqMembers db1)) mbAccount \<noteq> Some account) NotRequester) (\<lambda>_.
               and_then (fail_if (otStatus r \<noteq> REQUEST_PENDING) OnlyPending) (\<lambda>_.
                 Inr (set_overtime (\<lambda>x. otId x = i) (\<lambda>_. r\<lparr>otStatus := REQUEST_CANCELLED, otUpdated := now\<rparr>) db2,
                   r\<lparr>otStatus := REQUEST_CANCELLED\<rparr>)))))"

text \<open>The routes of rejecting and cancelling give the shift its end back.\<close>

definition resume :: "instant \<Rightarrow> request_error + request_db \<times> overtime_row \<Rightarrow> request_error + request_db \<times> overtime_row" where
  "resume now result = and_then result (\<lambda>(db, r). Inr (set_books (\<lambda>b. resumeAfterOvertime b r (Some (otStore r)) now) db, r))"

definition patch_reject ::
  "request_db \<Rightarrow> request_db \<Rightarrow> string \<Rightarrow> string option \<Rightarrow> string option \<Rightarrow> instant \<Rightarrow> request_error + request_db \<times> overtime_row" where
  "patch_reject db1 db2 i userId reason now = resume now (rejectBonusWorkRequest db1 db2 i userId reason now)"

definition patch_cancel ::
  "request_db \<Rightarrow> request_db \<Rightarrow> string \<Rightarrow> string option \<Rightarrow> instant \<Rightarrow> request_error + request_db \<times> overtime_row" where
  "patch_cancel db1 db2 i userId now = resume now (cancelBonusWorkRequest db1 db2 i userId now)"

definition in_force :: "request_db \<times> overtime_row \<Rightarrow> request_db" where
  "in_force saved = (case saved of (db, r) \<Rightarrow> set_books (\<lambda>b. approveOvertime b r (Some (otStore r))) db)"

end
