(* ===== verification/WorkSupplement.thy ===== *)
theory WorkSupplement
  imports OvertimeRequests KeepBest
begin

text \<open>
  Approving a claim for hours already worked: \<open>approveWorkSupplement\<close> of \<open>service-parts/requests.part.ts\<close> with \<open>assertPayslipOpen\<close> and
  \<open>isProtectedPayslip\<close> of \<open>service-parts/payroll.part.ts\<close>. The shift of the employee that the claimed hours overlap most is checked in at
  the earlier and out at the later of what was recorded and what is claimed, and its minutes are counted again.
\<close>

section \<open>The claimed hours\<close>

text \<open>\<open>/^(\d{1,2}):(\d{2})/\<close> as \<open>HH:MM\<close>.\<close>

definition clock_prefix :: "string \<Rightarrow> string option" where
  "clock_prefix s =
     (if 5 \<le> length s \<and> list_all is_digit (take 2 s) \<and> s ! 2 = CHR '':'' \<and> list_all is_digit (take 2 (drop 3 s)) then Some (take 5 s)
      else if 4 \<le> length s \<and> is_digit (s ! 0) \<and> s ! 1 = CHR '':'' \<and> list_all is_digit (take 2 (drop 2 s)) then Some (CHR ''0'' # take 4 s)
      else None)"

definition claimed_clock :: "string option \<Rightarrow> string option" where
  "claimed_clock t = (case t of Some s \<Rightarrow> clock_prefix s | None \<Rightarrow> None)"

text \<open>The two instants; an end not after the start is the next day's. A clock that names no time of day gives none.\<close>

definition claimed_hours :: "string \<Rightarrow> string \<Rightarrow> string \<Rightarrow> instant option \<times> instant option" where
  "claimed_hours date fromClock toClock =
     (let a = parse_vn_datetime date (fromClock @ '':00''); b = parse_vn_datetime date (toClock @ '':00'') in
      (a, case (a, b) of (Some x, Some y) \<Rightarrow> Some (if y \<le> x then y + DAY_MS else y) | _ \<Rightarrow> b))"

section \<open>The shift\<close>

definition overlap_with :: "instant \<Rightarrow> instant \<Rightarrow> attendance_row \<Rightarrow> int option" where
  "overlap_with a b row =
     (case (winStart (row_window row), winEnd (row_window row)) of (Some s, Some e) \<Rightarrow> Some (min e b - max s a) | _ \<Rightarrow> None)"

definition supplement_candidate :: "overtime_row \<Rightarrow> string list \<Rightarrow> attendance_row \<Rightarrow> bool" where
  "supplement_candidate r dates a \<longleftrightarrow>
     atEmployee a = otEmployee r \<and> atSlot a \<noteq> None \<and> atStore a = Some (otStore r) \<and> atStatus a \<in> {APPROVED, CONFIRMED, COMPLETED} \<and>
     row_date_text a \<in> set dates"

definition overlaps_more :: "instant \<Rightarrow> instant \<Rightarrow> attendance_row \<Rightarrow> attendance_row \<Rightarrow> bool" where
  "overlaps_more a b x y \<longleftrightarrow> given_or 0 (overlap_with a b x) > given_or 0 (overlap_with a b y)"

definition best_overlap :: "attendance_db \<Rightarrow> overtime_row \<Rightarrow> string list \<Rightarrow> instant \<Rightarrow> instant \<Rightarrow> attendance_row option" where
  "best_overlap b r dates t0 t1 =
     keep_best (overlaps_more t0 t1)
       (filter (\<lambda>a. given_or 0 (overlap_with t0 t1 a) > 0) (filter (supplement_candidate r dates) (adRows b)))"

section \<open>The payslip\<close>

definition isProtectedPayslip :: "payment_status \<Rightarrow> bool" where
  "isProtectedPayslip s \<longleftrightarrow> s = PAY_APPROVED \<or> s = PAY_PAID"

definition assertPayslipOpen :: "request_db \<Rightarrow> string \<Rightarrow> string \<Rightarrow> request_error + unit" where
  "assertPayslipOpen db employeeProfileId workDate =
     (case vnMonthOfDateString (Some workDate) of
        None \<Rightarrow> Inl BadDate
      | Some month \<Rightarrow>
          fail_if (case map_of (rqPayslips db) (employeeProfileId, mKey month) of Some s \<Rightarrow> isProtectedPayslip s | None \<Rightarrow> False) PayslipFinalized)"

section \<open>What is recorded\<close>

definition supplement_in :: "attendance_row \<Rightarrow> instant \<Rightarrow> instant" where
  "supplement_in locked t0 = (case atCheckIn locked of Some i \<Rightarrow> if i < t0 then i else t0 | None \<Rightarrow> t0)"

definition out_was_missing :: "attendance_row \<Rightarrow> bool" where
  "out_was_missing locked \<longleftrightarrow>
     atCheckOut locked = None \<or> atAuto locked \<or> nonempty (atAutoReason locked) \<noteq> None \<or> atAttendance locked = Some FORGOT_CHECKOUT"

definition supplement_out :: "attendance_row \<Rightarrow> instant \<Rightarrow> instant" where
  "supplement_out locked t1 =
     (if out_was_missing locked then t1
      else case atCheckOut locked of Some x \<Rightarrow> if x > t1 then x else t1 | None \<Rightarrow> t1)"

definition supplement_status :: "int \<Rightarrow> int \<Rightarrow> attendance_status" where
  "supplement_status late early =
     (if late > 0 \<and> early > 0 then LATE_AND_EARLY
      else if late > 0 then attendance_status.LATE else if early > 0 then attendance_status.EARLY else ON_TIME)"

definition supplement_late :: "attendance_row \<Rightarrow> attendance_rules \<Rightarrow> instant \<Rightarrow> int" where
  "supplement_late locked rules checkIn = applyGrace (calculateLateMinutes (winStart (row_window locked)) checkIn) rules Late"

definition supplement_early :: "attendance_row \<Rightarrow> attendance_rules \<Rightarrow> instant \<Rightarrow> int" where
  "supplement_early locked rules checkOut = applyGrace (calculateEarlyMinutes (winEnd (row_window locked)) checkOut) rules Early"

definition supplement_worked ::
  "attendance_db \<Rightarrow> attendance_row \<Rightarrow> attendance_rules \<Rightarrow> worked_time_mode \<Rightarrow> instant \<Rightarrow> instant \<Rightarrow> int" where
  "supplement_worked b locked rules mode checkIn checkOut =
     creditedWorkedMinutes \<lparr> wiStart = winStart (row_window locked), wiEnd = winEnd (row_window locked), wiCheckIn = checkIn,
       wiCheckOut = checkOut, wiRules = rules, wiStoredLate = Some (supplement_late locked rules checkIn),
       wiPaidUntil = approvedOvertimeEnd b (atId locked) (winEnd (row_window locked)), wiMode = Some mode, wiCapAtPaidEnd = False \<rparr>"

definition supplement_row ::
  "attendance_db \<Rightarrow> attendance_row \<Rightarrow> attendance_rules \<Rightarrow> worked_time_mode \<Rightarrow> instant \<Rightarrow> instant \<Rightarrow> attendance_row \<Rightarrow> attendance_row" where
  "supplement_row b locked rules mode checkIn checkOut x =
     x\<lparr>atCheckIn := Some checkIn, atCheckOut := Some checkOut, atLate := Some (supplement_late locked rules checkIn),
       atEarly := Some (supplement_early locked rules checkOut), atWorked := Some (supplement_worked b locked rules mode checkIn checkOut),
       atAttendance := Some (supplement_status (supplement_late locked rules checkIn) (supplement_early locked rules checkOut)),
       atStatus := COMPLETED, atAuto := False, atAutoReason := None\<rparr>"

definition hand_log :: "attendance_row \<Rightarrow> string \<Rightarrow> log_type \<Rightarrow> instant \<Rightarrow> log_row" where
  "hand_log locked storeId type at_time = \<lparr> lgAssignment = atId locked, lgEmployee = atEmployee locked, lgStore = storeId, lgType = type,
     lgAt = at_time, lgMethod = BY_HAND \<rparr>"

definition supplement_logs :: "attendance_row \<Rightarrow> string \<Rightarrow> instant \<Rightarrow> instant \<Rightarrow> log_row list" where
  "supplement_logs locked storeId checkIn checkOut =
     (if atCheckIn locked = Some checkIn then [] else [hand_log locked storeId CHECK_IN checkIn]) @
     (if atCheckOut locked = Some checkOut then [] else [hand_log locked storeId CHECK_OUT checkOut])"

text \<open>The transaction under the lock of the shift, whose slot was read before.\<close>

definition supplement_tx ::
  "request_db \<Rightarrow> overtime_row \<Rightarrow> string option \<Rightarrow> attendance_row \<Rightarrow> attendance_rules \<Rightarrow> worked_time_mode \<Rightarrow> instant \<Rightarrow> instant \<Rightarrow> instant \<Rightarrow>
    request_error + request_db" where
  "supplement_tx db r approver target rules mode t0 t1 now =
     (case row_of (rqBooks db) (atId target) of
        None \<Rightarrow> Inl ShiftChanged
      | Some locked0 \<Rightarrow>
          let locked = locked0\<lparr>atSlot := atSlot target\<rparr>; checkIn = supplement_in locked t0; checkOut = supplement_out locked t1;
              hit = (\<lambda>x. otId x = otId r \<and> otStatus x = REQUEST_PENDING) in
          and_then (fail_if (atStatus locked = CANCELLED) ShiftChanged) (\<lambda>_.
          and_then (fail_if (filter hit (adOvertime (rqBooks db)) = []) RequestStale) (\<lambda>_.
          and_then (fail_if (checkOut \<le> checkIn) OutBeforeIn) (\<lambda>_.
            Inr (set_books (\<lambda>b. (set_row b (atId locked) (supplement_row b locked rules mode checkIn checkOut))
                    \<lparr>adLogs := adLogs b @ supplement_logs locked (otStore r) checkIn checkOut\<rparr>)
                  (set_overtime hit (\<lambda>x. x\<lparr>otStatus := REQUEST_APPROVED, otApprovedBy := approver, otSlotId := Some (atSlotId target),
                    otUpdated := now\<rparr>) db))))))"

text \<open>The checks before it: what is claimed and of which shift.\<close>

definition supplement_context ::
  "request_db \<Rightarrow> overtime_row \<Rightarrow> instant \<Rightarrow> request_error + attendance_row \<times> instant \<times> instant" where
  "supplement_context db r now =
     and_then (fail_if (otStatus r \<noteq> REQUEST_PENDING) OnlyPending) (\<lambda>_.
       let date = take 10 (given_or [] (otDate r)) in
       case (claimed_clock (otStart r), claimed_clock (otEnd r)) of
         (Some fromClock, Some toClock) \<Rightarrow>
           and_then (fail_if (\<not> is_ymd date) SupplementIncomplete) (\<lambda>_.
             case claimed_hours date fromClock toClock of (a, b) \<Rightarrow>
               and_then (fail_if (case b of Some t1 \<Rightarrow> t1 > now | None \<Rightarrow> False) SupplementAhead) (\<lambda>_.
                 case parse_vn_datetime date ''12:00:00'' of
                   None \<Rightarrow> Inl BadDate
                 | Some noon \<Rightarrow>
                     (case (a, b) of
                        (Some t0, Some t1) \<Rightarrow>
                          (case best_overlap (rqBooks db) r [vnDateString (noon - 86400000), date] t0 t1 of
                             None \<Rightarrow> Inl NoShiftThen
                           | Some target \<Rightarrow>
                               and_then (fail_if (approvedLeaveCoversShiftSql (atEmployee target) (row_date_text target) (atId target)
                                   (adLeaves (rqBooks db))) ShiftOnLeave) (\<lambda>_.
                               and_then (assertPayslipOpen db (atEmployee target) (row_date_text target)) (\<lambda>_. Inr (target, t0, t1))))
                      | _ \<Rightarrow> Inl NoShiftThen)))
       | _ \<Rightarrow> Inl SupplementIncomplete)"

definition approveWorkSupplement ::
  "request_db \<Rightarrow> request_db \<Rightarrow> overtime_row \<Rightarrow> string option \<Rightarrow> instant \<Rightarrow> request_error + request_db \<times> overtime_row" where
  "approveWorkSupplement db1 db2 r approver now =
     and_then (supplement_context db1 r now) (\<lambda>(target, t0, t1).
       let rules = rulesFor (rqBooks db1) (Some (otStore r));
           mode = workedTimeModeFor (rqBooks db1) (Some (otStore r)) (atEmployee target) (atSlot target) in
       and_then (supplement_tx db2 r approver target rules mode t0 t1 now) (\<lambda>db3.
         Inr (db3, r\<lparr>otStatus := REQUEST_APPROVED, otApprovedBy := approver, otSlotId := Some (atSlotId target)\<rparr>)))"

section \<open>Approving a request\<close>

definition approveBonusWorkRequest ::
  "request_db \<Rightarrow> request_db \<Rightarrow> string \<Rightarrow> string option \<Rightarrow> instant \<Rightarrow> request_error + request_db \<times> overtime_row" where
  "approveBonusWorkRequest db1 db2 i ownerAccountId now =
     and_then (loadBonusWorkRequestForOwner db1 i ownerAccountId) (\<lambda>(r, approver).
       if nonempty (otAssignment r) = None then approveWorkSupplement db1 db2 r approver now
       else approve_overtime_tx db2 r approver now)"

text \<open>The route moves the end of the shift in force with it.\<close>

definition patch_approve ::
  "request_db \<Rightarrow> request_db \<Rightarrow> string \<Rightarrow> string option \<Rightarrow> instant \<Rightarrow> request_error + request_db \<times> overtime_row" where
  "patch_approve db1 db2 i userId now =
     and_then (approveBonusWorkRequest db1 db2 i userId now) (\<lambda>saved. Inr (in_force saved, snd saved))"

end
