(* ===== verification/HoursRequests.thy ===== *)
theory HoursRequests
  imports WorkSupplement
begin

text \<open>
  Leave, late arrival and early leave: \<open>createLeaveRequest\<close>, \<open>cancelLeaveRequest\<close> and the decision on a leave request
  (\<open>processRequest\<close>, \<open>applyApprovedShiftChange\<close>) of \<open>service-parts/requests.part.ts\<close>, with the route that moves the end of a shift under
  way. An approved late arrival moves the start of the shift, an approved early leave its end. Attached files, log, reminders, payroll
  jobs and notifications are left out; \<open>isUUID\<close> is a function of a package and a parameter.
\<close>

section \<open>What is sent\<close>

record leave_input =
  liEmployee :: string
  liType :: "string option"
  liStart :: "string option"
  liEnd :: "string option"
  liStartTime :: "string option"
  liEndTime :: "string option"
  liAssignment :: "string option"

definition normalizeLeaveDate :: "string option \<Rightarrow> request_error + string" where
  "normalizeLeaveDate raw =
     (case raw of
        None \<Rightarrow> Inl BadLeaveDate
      | Some s \<Rightarrow>
          let d = (if 11 \<le> length s \<and> is_ymd (take 10 s) \<and> s ! 10 = CHR ''T'' then take 10 s else s) in
          if \<not> is_ymd d then Inl BadLeaveDate
          else (case parseDateOnly d of Inl _ \<Rightarrow> Inl BadLeaveDate | Inr _ \<Rightarrow> Inr d))"

definition LEAVE_TYPES :: "(string \<times> leave_type) list" where
  "LEAVE_TYPES = [(''SICK'', SICK), (''PERSONAL'', PERSONAL), (''VACATION'', VACATION), (''UNPAID'', UNPAID), (''LATE'', leave_type.LATE),
     (''EARLY'', leave_type.EARLY), (''OVERTIME'', OVERTIME), (''SUDDEN'', SUDDEN), (''OTHER'', OTHER)]"

definition normalizeLeaveType :: "string option \<Rightarrow> request_error + leave_type option" where
  "normalizeLeaveType raw =
     (case nonempty raw of
        None \<Rightarrow> Inr None
      | Some s \<Rightarrow> if s = ''LEAVE'' then Inr (Some PERSONAL)
          else (case map_of LEAVE_TYPES s of Some t \<Rightarrow> Inr (Some t) | None \<Rightarrow> Inl BadLeaveType))"

text \<open>Of the assignments on a slot the one created last.\<close>

definition resolveLeaveShiftAssignmentId ::
  "(string \<Rightarrow> bool) \<Rightarrow> request_db \<Rightarrow> string \<Rightarrow> string \<Rightarrow> string option \<Rightarrow> request_error + string option" where
  "resolveLeaveShiftAssignmentId isUUID db storeId employeeProfileId ref =
     (case nonempty ref of
        None \<Rightarrow> Inr None
      | Some i \<Rightarrow>
          if \<not> isUUID i then Inl BadShift
          else
            let own = (\<lambda>a. atEmployee a = employeeProfileId \<and> atStore a = Some storeId) in
            (case find (\<lambda>a. atId a = i \<and> own a) (adRows (rqBooks db)) of
               Some a \<Rightarrow> Inr (Some (atId a))
             | None \<Rightarrow>
                 (case find (\<lambda>a. atSlotId a = i \<and> own a \<and> atStatus a \<noteq> CANCELLED) (rev (adRows (rqBooks db))) of
                    Some a \<Rightarrow> Inr (Some (atId a))
                  | None \<Rightarrow> Inl BadShift)))"

section \<open>Does it fit the shift?\<close>

text \<open>\<open>/^(\d{1,2}):(\d{2})(?::\d{2})?$/\<close> on the trimmed text, as \<open>HH:MM:00\<close>.\<close>

definition exact_clock :: "string option \<Rightarrow> string option" where
  "exact_clock raw =
     (let s = js_trim (given_or [] raw); t = (if length s \<in> {4, 7} then CHR ''0'' # s else s) in
      if is_hms t then Some (take 5 t @ '':00'') else None)"

definition slot_window :: "shift_slot option \<Rightarrow> effective_window" where
  "slot_window slot = effectiveWindowOf DNull DNull slot"

definition earliestShiftStartOn :: "attendance_db \<Rightarrow> string \<Rightarrow> string \<Rightarrow> instant option" where
  "earliestShiftStartOn b employeeProfileId workDate =
     (case concat (map (\<lambda>a. case winStart (row_window a) of Some s \<Rightarrow> [s] | None \<Rightarrow> [])
         (filter (\<lambda>a. atEmployee a = employeeProfileId \<and> atStatus a \<noteq> CANCELLED \<and> atSlot a \<noteq> None \<and> row_date_text a = workDate) (adRows b))) of
        [] \<Rightarrow> None
      | s # ss \<Rightarrow> Some (foldl min s ss))"

text \<open>The instant a clock of the day means: within the linked shift, else within a shift of that day, else on that day.\<close>

definition within_some_shift :: "attendance_db \<Rightarrow> string \<Rightarrow> string \<Rightarrow> string \<Rightarrow> instant option" where
  "within_some_shift b employeeProfileId startDate clock =
     (case concat (map (\<lambda>a. case resolveRequestedInstant (slot_window (atSlot a)) startDate (Some clock) of Some t \<Rightarrow> [t] | None \<Rightarrow> [])
         (filter (\<lambda>a. atEmployee a = employeeProfileId \<and> atStatus a \<noteq> CANCELLED \<and> atSlot a \<noteq> None \<and> row_date_text a = startDate) (adRows b))) of
        [] \<Rightarrow> None
      | t # _ \<Rightarrow> Some t)"

definition requested_instant ::
  "attendance_db \<Rightarrow> string \<Rightarrow> string \<Rightarrow> string option \<Rightarrow> string option \<Rightarrow> request_error + instant option" where
  "requested_instant b employeeProfileId startDate assignment clock =
     (case (clock, assignment) of
        (Some t, Some i) \<Rightarrow>
          (case Option.bind (row_of b i) (\<lambda>a. map_option (\<lambda>_. a) (atSlot a)) of
             None \<Rightarrow> Inr None
           | Some a \<Rightarrow>
               let window = slot_window (atSlot a); requested = resolveRequestedInstant window (row_date_text a) (Some t) in
               and_then (fail_if (requested = None \<or> requested = winStart window \<or> requested = winEnd window) TimeOutsideShift) (\<lambda>_. Inr requested))
      | (Some t, None) \<Rightarrow>
          Inr (opt_or (within_some_shift b employeeProfileId startDate t) (parse_vn_datetime startDate t))
      | _ \<Rightarrow> Inr None)"

definition assertShiftChangeRequestFits ::
  "attendance_db \<Rightarrow> leave_type \<Rightarrow> string \<Rightarrow> string option \<Rightarrow> string option \<Rightarrow> string \<Rightarrow> instant \<Rightarrow> request_error + unit" where
  "assertShiftChangeRequestFits b type startDate shiftAssignmentId rawTime employeeProfileId now =
     (if type \<noteq> leave_type.LATE \<and> type \<noteq> leave_type.EARLY then Inr ()
      else
        and_then (requested_instant b employeeProfileId startDate shiftAssignmentId (exact_clock rawTime)) (\<lambda>requested.
        and_then (fail_if (type = leave_type.LATE \<and> (case requested of Some t \<Rightarrow> t \<le> now | None \<Rightarrow> False)) LateTimePassed) (\<lambda>_.
          case shiftAssignmentId of
            None \<Rightarrow> Inr ()
          | Some i \<Rightarrow>
              and_then (fail_if (list_ex (\<lambda>l. lvAssignment l = Some i \<and> lvType l = type \<and> lvStatus l = Some LEAVE_APPROVED \<and> \<not> lvDeleted l)
                  (adLeaves b)) ChangeApproved) (\<lambda>_.
                fail_if (type = leave_type.EARLY \<and> live_overtime b i \<noteq> []) OvertimeOnShift))))"

section \<open>Sending a request\<close>

definition policy_kind :: "leave_type \<Rightarrow> RequestPolicyKind option" where
  "policy_kind type =
     (if type = leave_type.LATE then Some LATE_KIND else if type = leave_type.EARLY then Some EARLY_KIND
      else if type = SUDDEN then Some SUDDEN_KIND else if type = OVERTIME then None else Some LEAVE_KIND)"

definition policy_tables_of :: "request_db \<Rightarrow> request_tables" where
  "policy_tables_of db = \<lparr> rtLeaves = adLeaves (rqBooks db), rtChanges = rqChanges db, rtSwaps = rqSwaps db \<rparr>"

text \<open>When the request takes effect, for the notice the owner asks for.\<close>

definition affects_at :: "attendance_db \<Rightarrow> RequestPolicyKind \<Rightarrow> leave_input \<Rightarrow> string \<Rightarrow> string option \<Rightarrow> instant option" where
  "affects_at b kind d startDate shiftAssignmentId =
     (case Option.bind shiftAssignmentId (row_of b) of
        Some linked \<Rightarrow>
          if kind = EARLY_KIND
          then opt_or (Option.bind (claimed_clock (liEndTime d)) (\<lambda>t.
                 resolveRequestedInstant (row_window linked) (row_date_text linked) (Some (t @ '':00'')))) (winEnd (row_window linked))
          else winStart (row_window linked)
      | None \<Rightarrow> opt_or (earliestShiftStartOn b (liEmployee d) startDate) (parse_vn_datetime startDate ''00:00:00''))"

definition duplicate_leave :: "attendance_db \<Rightarrow> leave_input \<Rightarrow> leave_type \<Rightarrow> string \<Rightarrow> string \<Rightarrow> string option \<Rightarrow> leave_row option" where
  "duplicate_leave b d type startDate endDate shiftAssignmentId =
     find (\<lambda>l. lvEmployee l = liEmployee d \<and> lvType l = type \<and> lvStartDate l = startDate \<and> lvEndDate l = endDate \<and>
       lvStatus l = Some LEAVE_PENDING \<and> lvAssignment l = shiftAssignmentId \<and> \<not> lvDeleted l) (rev (adLeaves b))"

definition new_leave :: "leave_input \<Rightarrow> string \<Rightarrow> leave_type \<Rightarrow> string \<Rightarrow> string \<Rightarrow> string option \<Rightarrow> string \<Rightarrow> leave_row" where
  "new_leave d storeId type startDate endDate shiftAssignmentId newId =
     \<lparr> lvId = newId, lvStore = storeId, lvEmployee = liEmployee d, lvType = type, lvStatus = Some LEAVE_PENDING, lvDeleted = False,
       lvStartDate = startDate, lvEndDate = endDate, lvStartTime = liStartTime d, lvEndTime = liEndTime d,
       lvAssignment = shiftAssignmentId \<rparr>"

text \<open>The transaction under the lock of the profile and of the shift.\<close>

definition create_leave_tx ::
  "(string \<Rightarrow> bool) \<Rightarrow> request_db \<Rightarrow> string \<Rightarrow> leave_input \<Rightarrow> leave_type \<Rightarrow> string \<Rightarrow> string \<Rightarrow> string \<Rightarrow> instant \<Rightarrow>
    request_error + request_db \<times> leave_row" where
  "create_leave_tx isUUID db storeId d type startDate endDate newId now =
     and_then (resolveLeaveShiftAssignmentId isUUID db storeId (liEmployee d) (liAssignment d)) (\<lambda>shiftAssignmentId.
       case duplicate_leave (rqBooks db) d type startDate endDate shiftAssignmentId of
         Some l \<Rightarrow> Inr (db, l)
       | None \<Rightarrow>
           and_then
             (case policy_kind type of
                None \<Rightarrow> Inr ()
              | Some kind \<Rightarrow>
                  (case assertApprovalPolicy (map_of (rqPolicies db) storeId) (policy_tables_of db) True (liEmployee d) kind
                       (affects_at (rqBooks db) kind d startDate shiftAssignmentId) (Some startDate) now of
                     Inl v \<Rightarrow> Inl (PolicyRefused v) | Inr _ \<Rightarrow> Inr ())) (\<lambda>_.
           and_then (assertShiftChangeRequestFits (rqBooks db) type startDate shiftAssignmentId
               (if type = leave_type.LATE then liStartTime d else liEndTime d) (liEmployee d) now) (\<lambda>_.
             let l = new_leave d storeId type startDate endDate shiftAssignmentId newId in
             Inr (set_books (\<lambda>b. b\<lparr>adLeaves := adLeaves b @ [l]\<rparr>) db, l))))"

definition createLeaveRequest ::
  "(string \<Rightarrow> bool) \<Rightarrow> request_db \<Rightarrow> request_db \<Rightarrow> string \<Rightarrow> leave_input \<Rightarrow> string \<Rightarrow> string \<Rightarrow> instant \<Rightarrow> request_error + request_db \<times> leave_row" where
  "createLeaveRequest isUUID db1 db2 storeId d accountId newId now =
     and_then (assertEmployeeSelfAccess db1 (liEmployee d) accountId (Some storeId)) (\<lambda>_.
     and_then (normalizeLeaveDate (liStart d)) (\<lambda>startDate.
     and_then (normalizeLeaveDate (liEnd d)) (\<lambda>endDate.
     and_then (fail_if (endDate < startDate) EndBeforeStart) (\<lambda>_.
     and_then (normalizeLeaveType (liType d)) (\<lambda>type.
       create_leave_tx isUUID db2 storeId d (given_or PERSONAL type) startDate endDate newId now)))))"

definition leave_of :: "request_db \<Rightarrow> string \<Rightarrow> leave_row option" where
  "leave_of db i = find (\<lambda>l. lvId l = i \<and> \<not> lvDeleted l) (adLeaves (rqBooks db))"

definition set_leave :: "(leave_row \<Rightarrow> bool) \<Rightarrow> (leave_row \<Rightarrow> leave_row) \<Rightarrow> request_db \<Rightarrow> request_db" where
  "set_leave hit f = set_books (\<lambda>b. b\<lparr>adLeaves := map (\<lambda>l. if hit l then f l else l) (adLeaves b)\<rparr>)"

definition cancelLeaveRequest :: "request_db \<Rightarrow> request_db \<Rightarrow> string \<Rightarrow> string \<Rightarrow> request_error + request_db" where
  "cancelLeaveRequest db1 db2 i accountId =
     (case leave_of db1 i of
        None \<Rightarrow> Inl RequestMissing
      | Some l \<Rightarrow>
          and_then (assertEmployeeSelfAccess db1 (lvEmployee l) accountId None) (\<lambda>_.
          and_then (fail_if (lvStatus l \<noteq> Some LEAVE_PENDING) OnlyPending) (\<lambda>_.
            Inr (set_leave (\<lambda>x. lvId x = i) (\<lambda>_. l\<lparr>lvStatus := Some LEAVE_CANCELLED\<rparr>) db2))))"

section \<open>An approved late arrival or early leave\<close>

datatype change_kind = LATE_CHANGE | EARLY_CHANGE
datatype change_phase = BEFORE_SHIFT | DURING_SHIFT | AFTER_SHIFT

record shift_change =
  scAssignment :: string
  scKind :: change_kind
  scPhase :: change_phase
  scAt :: instant
  scRequested :: instant

definition leave_change :: "leave_row \<Rightarrow> (change_kind \<times> string) option" where
  "leave_change l =
     (if lvType l = leave_type.LATE then map_option (\<lambda>t. (LATE_CHANGE, t)) (nonempty (lvStartTime l))
      else if lvType l = leave_type.EARLY then map_option (\<lambda>t. (EARLY_CHANGE, t)) (nonempty (lvEndTime l)) else None)"

definition resolveRequestAssignmentId :: "attendance_db \<Rightarrow> leave_row \<Rightarrow> string \<Rightarrow> string option" where
  "resolveRequestAssignmentId b l time =
     (case nonempty (lvAssignment l) of
        Some i \<Rightarrow> Some i
      | None \<Rightarrow>
          let workDate = take 10 (lvStartDate l) in
          (case filter (\<lambda>a. resolveRequestedInstant (slot_window (atSlot a)) workDate (Some time) \<noteq> None)
               (filter (\<lambda>a. atEmployee a = lvEmployee l \<and> atStore a = Some (lvStore l) \<and> row_date_text a = workDate \<and>
                  atStatus a \<in> {APPROVED, CONFIRMED, COMPLETED}) (adRows b)) of
             [a] \<Rightarrow> Some (atId a)
           | _ \<Rightarrow> None))"

definition phase_of :: "attendance_row \<Rightarrow> change_phase" where
  "phase_of a = (if atCheckIn a = None then BEFORE_SHIFT else if atCheckOut a = None then DURING_SHIFT else AFTER_SHIFT)"

text \<open>The new start: not later than the check-in, not before the scheduled start.\<close>

definition late_start :: "attendance_row \<Rightarrow> instant option \<Rightarrow> instant \<Rightarrow> instant" where
  "late_start locked scheduled requested =
     (let t = (case atCheckIn locked of Some i \<Rightarrow> if i < requested then i else requested | None \<Rightarrow> requested)
      in case scheduled of Some s \<Rightarrow> if t < s then s else t | None \<Rightarrow> t)"

text \<open>The new end: not before now while the shift runs nor before the check-out after it, and never past the end in force.\<close>

definition early_end :: "attendance_row \<Rightarrow> instant option \<Rightarrow> instant \<Rightarrow> instant \<Rightarrow> instant" where
  "early_end locked current requested now =
     (let t = (case phase_of locked of
          DURING_SHIFT \<Rightarrow> max requested now
        | AFTER_SHIFT \<Rightarrow> (case atCheckOut locked of Some x \<Rightarrow> if x > requested then x else requested | None \<Rightarrow> requested)
        | BEFORE_SHIFT \<Rightarrow> requested)
      in case current of Some e \<Rightarrow> if t > e then e else t | None \<Rightarrow> t)"

definition changed_late :: "attendance_row \<Rightarrow> attendance_rules \<Rightarrow> change_kind \<Rightarrow> instant \<Rightarrow> int option" where
  "changed_late locked rules kind t =
     (if kind = LATE_CHANGE
      then (case atCheckIn locked of Some i \<Rightarrow> Some (applyGrace (calculateLateMinutes (Some t) i) rules Late) | None \<Rightarrow> atLate locked)
      else atLate locked)"

definition changed_early :: "attendance_row \<Rightarrow> attendance_rules \<Rightarrow> change_kind \<Rightarrow> instant \<Rightarrow> int option" where
  "changed_early locked rules kind t =
     (if kind = EARLY_CHANGE
      then (case atCheckOut locked of Some x \<Rightarrow> Some (applyGrace (calculateEarlyMinutes (Some t) x) rules Early) | None \<Rightarrow> atEarly locked)
      else atEarly locked)"

text \<open>The status follows the minutes counted again, except of a row that is not checked in or was closed by the system.\<close>

definition changed_row :: "attendance_row \<Rightarrow> attendance_rules \<Rightarrow> change_kind \<Rightarrow> string \<Rightarrow> instant \<Rightarrow> attendance_row \<Rightarrow> attendance_row" where
  "changed_row locked rules kind leaveId t x =
     (let late = changed_late locked rules kind t; early = changed_early locked rules kind t;
          moved = (if kind = LATE_CHANGE then x\<lparr>atAdjustedStart := Some t, atLateRequest := Some leaveId\<rparr>
            else x\<lparr>atAdjustedEnd := Some t, atEarlyRequest := Some leaveId\<rparr>)
      in moved\<lparr>atLate := (if kind = LATE_CHANGE \<and> atCheckIn locked \<noteq> None then late else atLate x),
           atEarly := (if kind = EARLY_CHANGE \<and> atCheckOut locked \<noteq> None then early else atEarly x),
           atAttendance := (if atCheckIn locked \<noteq> None \<and> atAttendance locked \<noteq> Some FORGOT_CHECKOUT
             then Some (supplement_status (given_or 0 late) (if atCheckOut locked = None then 0 else given_or 0 early)) else atAttendance x)\<rparr>)"

definition applyApprovedShiftChange :: "request_db \<Rightarrow> leave_row \<Rightarrow> instant \<Rightarrow> (request_db \<times> shift_change) option" where
  "applyApprovedShiftChange db l now =
     (case leave_change l of
        None \<Rightarrow> None
      | Some (kind, time) \<Rightarrow>
          (case resolveRequestAssignmentId (rqBooks db) l time of
             None \<Rightarrow> None
           | Some i \<Rightarrow>
               (case find (\<lambda>a. atId a = i \<and> atEmployee a = lvEmployee l) (adRows (rqBooks db)) of
                  None \<Rightarrow> None
                | Some locked \<Rightarrow>
                    if atStatus locked = CANCELLED \<or> atAttendance locked = Some ABSENT \<or> atSlot locked = None \<or> atStore locked \<noteq> Some (lvStore l)
                    then None
                    else
                      (let scheduled = slot_window (atSlot locked); current = row_window locked in
                       case resolveRequestedInstant scheduled (row_date_text locked) (Some time) of
                         None \<Rightarrow> None
                       | Some requested \<Rightarrow>
                           if (kind = LATE_CHANGE \<and> (case winEnd current of Some e \<Rightarrow> requested \<ge> e | None \<Rightarrow> False)) \<or>
                              (kind = EARLY_CHANGE \<and> (case winStart current of Some s \<Rightarrow> requested \<le> s | None \<Rightarrow> False)) then None
                           else
                             (let t = (if kind = LATE_CHANGE then late_start locked (winStart scheduled) requested
                                  else early_end locked (winEnd current) requested now);
                                  rules = rulesFor (rqBooks db) (Some (lvStore l));
                                  moved = set_books (\<lambda>b. set_row b i (changed_row locked rules kind (lvId l) t)) db;
                                  linked = (if nonempty (lvAssignment l) = None
                                    then set_leave (\<lambda>x. lvId x = lvId l) (\<lambda>x. x\<lparr>lvAssignment := Some i\<rparr>) moved else moved)
                              in Some (linked, \<lparr> scAssignment = i, scKind = kind, scPhase = phase_of locked, scAt = t, scRequested = requested \<rparr>))))))"

section \<open>Deciding on a leave request\<close>

definition leave_context :: "request_db \<Rightarrow> string \<Rightarrow> string \<Rightarrow> request_error + leave_row" where
  "leave_context db accountId requestId =
     (case leave_of db requestId of
        None \<Rightarrow> Inl RequestMissing
      | Some l \<Rightarrow>
          and_then (assertOwnerStoreAccess db (lvStore l) accountId) (\<lambda>_.
          and_then (fail_if (lvStatus l \<noteq> Some LEAVE_PENDING) RequestDecided) (\<lambda>_. Inr l)))"

definition decide_leave_tx ::
  "request_db \<Rightarrow> leave_row \<Rightarrow> bool \<Rightarrow> string \<Rightarrow> instant \<Rightarrow> request_error + request_db \<times> shift_change option" where
  "decide_leave_tx db l approve accountId now =
     (let hit = (\<lambda>x. lvId x = lvId l \<and> lvStatus x = Some LEAVE_PENDING);
          db' = set_leave hit (\<lambda>x. x\<lparr>lvStatus := Some (if approve then LEAVE_APPROVED else LEAVE_REJECTED)\<rparr>) db in
      and_then (fail_if (map_of (rqOwners db) (lvStore l) \<noteq> Some accountId) NotOwner) (\<lambda>_.
      and_then (fail_if (filter hit (adLeaves (rqBooks db)) = []) RequestStale) (\<lambda>_.
        Inr (if approve
             then (case applyApprovedShiftChange db' l now of Some (db'', c) \<Rightarrow> (db'', Some c) | None \<Rightarrow> (db', None))
             else (db', None)))))"

text \<open>The route \<open>approvals/:requestId\<close> for leave: overtime is decided here too, and an early leave approved while the shift runs moves
  its reminders and its automatic closing.\<close>

definition post_approval ::
  "request_db \<Rightarrow> request_db \<Rightarrow> string \<Rightarrow> string \<Rightarrow> bool \<Rightarrow> string option \<Rightarrow> instant \<Rightarrow> request_error + request_db" where
  "post_approval db1 db2 accountId requestId approve reason now =
     (if overtime_of db1 requestId \<noteq> None
      then map_sum id fst (if approve then patch_approve db1 db2 requestId (Some accountId) now
        else patch_reject db1 db2 requestId (Some accountId) reason now)
      else
        and_then (leave_context db1 accountId requestId) (\<lambda>l.
        and_then (decide_leave_tx db2 l approve accountId now) (\<lambda>(db3, applied).
          Inr (case applied of
                 Some c \<Rightarrow> if scKind c = EARLY_CHANGE \<and> scPhase c = DURING_SHIFT
                   then set_books (\<lambda>b. applyAdjustedEnd b (scAssignment c) now) db3 else db3
               | None \<Rightarrow> db3))))"

end
