(* ===== verification/Histories.thy ===== *)
theory Histories
  imports Main
begin

text \<open>
  Prelude: what holds after any history of steps. A component proves of one step that it keeps an invariant of its tables and
  that what was recorded stays recorded; the interface \<open>kept\<close> gives both for every history.
\<close>

locale kept =
  fixes step :: "'s \<Rightarrow> 's \<Rightarrow> bool" and ok :: "'s \<Rightarrow> bool" and stays :: "'s \<Rightarrow> 's \<Rightarrow> bool"
  assumes step_keeps: "step s t \<Longrightarrow> ok s \<Longrightarrow> ok t \<and> stays s t"
    and stays_refl: "stays s s"
    and stays_trans: "stays s t \<Longrightarrow> stays t u \<Longrightarrow> stays s u"
begin

lemma history_keeps: "step\<^sup>*\<^sup>* s t \<Longrightarrow> ok s \<Longrightarrow> ok t \<and> stays s t"
proof (induction rule: rtranclp_induct)
  case base
  then show ?case by (simp add: stays_refl)
next
  case (step t u)
  then show ?case using step_keeps stays_trans by blast
qed

lemma history_ok: "step\<^sup>*\<^sup>* s t \<Longrightarrow> ok s \<Longrightarrow> ok t"
  using history_keeps by blast

text \<open>Steps given as a list of changes, each of which is a step or nothing.\<close>

lemma fold_keeps: "(\<And>x s. ok s \<Longrightarrow> f s x = s \<or> step s (f s x)) \<Longrightarrow> ok s \<Longrightarrow> ok (foldl f s xs) \<and> stays s (foldl f s xs)"
proof (induction xs arbitrary: s)
  case Nil
  then show ?case by (simp add: stays_refl)
next
  case (Cons x xs)
  have one: "ok (f s x) \<and> stays s (f s x)" using Cons.prems step_keeps [of s "f s x"] stays_refl by metis
  then have "ok (foldl f (f s x) xs) \<and> stays (f s x) (foldl f (f s x) xs)" using Cons by blast
  then show ?case using one stays_trans by auto
qed

end

end
