(* ===== verification/AttendanceSafety.thy ===== *)
theory AttendanceSafety
  imports ShiftEnd Histories
begin

text \<open>
  What attendance guarantees over any history of check-ins, check-outs, automatic closings, chained shifts and marked absences: rows
  stay consistent, times once recorded stay and are logged exactly once, a chained shift is handed over without a gap, a repeated
  submission is answered like the first, and a forgotten check-out is closed.
\<close>

section \<open>Rows by identifier\<close>

definition ids_distinct :: "attendance_db \<Rightarrow> bool" where
  "ids_distinct db \<longleftrightarrow> distinct (map atId (adRows db))"

lemma row_of_Some: "row_of db i = Some a \<Longrightarrow> a \<in> set (adRows db) \<and> atId a = i"
  by (auto simp: row_of_def find_Some_iff)

lemma row_of_iff:
  assumes "ids_distinct db"
  shows "row_of db i = Some a \<longleftrightarrow> a \<in> set (adRows db) \<and> atId a = i"
proof
  assume "row_of db i = Some a"
  then show "a \<in> set (adRows db) \<and> atId a = i" by (rule row_of_Some)
next
  assume a: "a \<in> set (adRows db) \<and> atId a = i"
  then have "row_of db i \<noteq> None" by (auto simp: row_of_def find_None_iff)
  then obtain b where b: "row_of db i = Some b" by blast
  then have "b \<in> set (adRows db)" "atId b = i" using row_of_Some by blast+
  then have "b = a" using a assms inj_on_eq_iff [of atId "set (adRows db)" a b] by (simp add: ids_distinct_def distinct_map)
  then show "row_of db i = Some a" using b by simp
qed

text \<open>What one update does: every row is as before or its image, at one identifier.\<close>

lemma rows_set_row: "adRows (set_row db i f) = map (\<lambda>a. if atId a = i then f a else a) (adRows db)"
  by (simp add: set_row_def)

lemma rows_set_workflow [simp]:
  "adRows (set_workflow db i g) = adRows db" "adLogs (set_workflow db i g) = adLogs db" "adOvertime (set_workflow db i g) = adOvertime db"
  "adLeaves (set_workflow db i g) = adLeaves db" "adPolicy (set_workflow db i g) = adPolicy db" "adCounting (set_workflow db i g) = adCounting db"
  by (simp_all add: set_workflow_def)

lemma rows_add_log [simp]:
  "adRows (add_log db l) = adRows db" "adLogs (add_log db l) = adLogs db @ [l]" "adOvertime (add_log db l) = adOvertime db"
  "adWorkflows (add_log db l) = adWorkflows db" "adPolicy (add_log db l) = adPolicy db" "adLeaves (add_log db l) = adLeaves db"
  "adCounting (add_log db l) = adCounting db"
  by (simp_all add: add_log_def)

lemma rows_expire [simp]:
  "adRows (expire_overtime db ids) = adRows db" "adLogs (expire_overtime db ids) = adLogs db"
  "adWorkflows (expire_overtime db ids) = adWorkflows db" "adPolicy (expire_overtime db ids) = adPolicy db"
  "adLeaves (expire_overtime db ids) = adLeaves db" "adCounting (expire_overtime db ids) = adCounting db"
  by (simp_all add: expire_overtime_def)

lemma rows_set_row_rest [simp]:
  "adLogs (set_row db i f) = adLogs db" "adOvertime (set_row db i f) = adOvertime db" "adWorkflows (set_row db i f) = adWorkflows db"
  "adPolicy (set_row db i f) = adPolicy db" "adLeaves (set_row db i f) = adLeaves db" "adCounting (set_row db i f) = adCounting db"
  by (simp_all add: set_row_def)

lemma add_job_rest [simp]:
  "adRows (add_job db j) = adRows db" "adLogs (add_job db j) = adLogs db" "adOvertime (add_job db j) = adOvertime db"
  "adWorkflows (add_job db j) = adWorkflows db" "adPolicy (add_job db j) = adPolicy db" "adLeaves (add_job db j) = adLeaves db"
  "adCounting (add_job db j) = adCounting db"
  by (simp_all add: add_job_def)

lemma scheduleJobs_rest [simp]:
  "adRows (scheduleJobs db i e g) = adRows db" "adLogs (scheduleJobs db i e g) = adLogs db" "adOvertime (scheduleJobs db i e g) = adOvertime db"
  "adWorkflows (scheduleJobs db i e g) = adWorkflows db" "adPolicy (scheduleJobs db i e g) = adPolicy db"
  "adLeaves (scheduleJobs db i e g) = adLeaves db" "adCounting (scheduleJobs db i e g) = adCounting db"
proof -
  have "adRows (foldl (\<lambda>d m. add_job d (f m)) db ms) = adRows db \<and> adLogs (foldl (\<lambda>d m. add_job d (f m)) db ms) = adLogs db \<and>
      adOvertime (foldl (\<lambda>d m. add_job d (f m)) db ms) = adOvertime db \<and> adWorkflows (foldl (\<lambda>d m. add_job d (f m)) db ms) = adWorkflows db \<and>
      adPolicy (foldl (\<lambda>d m. add_job d (f m)) db ms) = adPolicy db \<and> adLeaves (foldl (\<lambda>d m. add_job d (f m)) db ms) = adLeaves db \<and>
      adCounting (foldl (\<lambda>d m. add_job d (f m)) db ms) = adCounting db" for f and ms :: "nat list"
    by (induction ms arbitrary: db) auto
  then show "adRows (scheduleJobs db i e g) = adRows db" "adLogs (scheduleJobs db i e g) = adLogs db"
    "adOvertime (scheduleJobs db i e g) = adOvertime db" "adWorkflows (scheduleJobs db i e g) = adWorkflows db"
    "adPolicy (scheduleJobs db i e g) = adPolicy db" "adLeaves (scheduleJobs db i e g) = adLeaves db"
    "adCounting (scheduleJobs db i e g) = adCounting db"
    by (simp_all add: scheduleJobs_def enqueueAutoCheckout_def)
qed

lemma schedule_rest [simp]:
  "adRows (scheduleForAssignment db i k) = adRows db" "adLogs (scheduleForAssignment db i k) = adLogs db"
  "adOvertime (scheduleForAssignment db i k) = adOvertime db" "adPolicy (scheduleForAssignment db i k) = adPolicy db"
  "adLeaves (scheduleForAssignment db i k) = adLeaves db" "adCounting (scheduleForAssignment db i k) = adCounting db"
  by (auto simp: scheduleForAssignment_def Let_def split: option.splits)

section \<open>Histories\<close>

text \<open>A row as it may be touched from elsewhere: handed to another employee, given other times or minutes by an approved request, its
  status changed by the owner. Its recorded times stay.\<close>

definition touched :: "attendance_row \<Rightarrow> attendance_row \<Rightarrow> bool" where
  "touched a a' \<longleftrightarrow> atId a' = atId a \<and> atCheckIn a' = atCheckIn a \<and> atCheckOut a' = atCheckOut a \<and>
     (atAttendance a' = Some ABSENT \<longrightarrow> atAttendance a = Some ABSENT) \<and>
     (atStatus a' = atStatus a \<or>
      (atStatus a, atStatus a') \<in> {(PENDING, APPROVED), (PENDING, CANCELLED), (APPROVED, CONFIRMED), (APPROVED, CANCELLED)})"

definition unstarted :: "attendance_row \<Rightarrow> bool" where
  "unstarted a \<longleftrightarrow> atCheckIn a = None \<and> atCheckOut a = None \<and> atAttendance a = None \<and> (atStatus a = PENDING \<or> atStatus a = APPROVED)"

inductive attendance_step :: "attendance_db \<Rightarrow> attendance_db \<Rightarrow> bool" where
  in_step: "check_in_tx db a rules faceless now = Inr (db', answer) \<Longrightarrow> attendance_step db db'"
| out_step: "check_out_tx db a rules paidUntil mode faceless now = Inr (db', answer) \<Longrightarrow> attendance_step db db'"
| auto_step: "autoCheckout db i endAt pendingDue known now = Some db' \<Longrightarrow> attendance_step db db'"
| chain_step: "chainIntoNextShift db i known now = Some db' \<Longrightarrow> attendance_step db db'"
| absent_step: "attendance_step db (reconcileUnstartedAssignments db now)"
| plan_step: "adRows db' = adRows db \<Longrightarrow> adLogs db' = adLogs db \<Longrightarrow> attendance_step db db'"
| touch_step: "list_all2 touched (adRows db) (adRows db') \<Longrightarrow> adLogs db' = adLogs db \<Longrightarrow> attendance_step db db'"
| book_step: "adRows db' = adRows db @ [a] \<Longrightarrow> adLogs db' = adLogs db \<Longrightarrow> unstarted a \<Longrightarrow>
    \<forall>b \<in> set (adRows db). atId b \<noteq> atId a \<Longrightarrow> \<forall>l \<in> set (adLogs db). lgAssignment l \<noteq> atId a \<Longrightarrow> attendance_step db db'"

definition row_ok :: "attendance_row \<Rightarrow> bool" where
  "row_ok a \<longleftrightarrow>
     (atCheckOut a \<noteq> None \<longrightarrow> atCheckIn a \<noteq> None) \<and> (atStatus a = COMPLETED \<longleftrightarrow> atCheckOut a \<noteq> None) \<and>
     (atCheckIn a \<noteq> None \<and> atCheckOut a = None \<longrightarrow> atStatus a = CONFIRMED) \<and> (atAttendance a = Some ABSENT \<longrightarrow> atCheckIn a = None)"

definition logged_times :: "attendance_db \<Rightarrow> string \<Rightarrow> log_type \<Rightarrow> instant list" where
  "logged_times db i type = map lgAt (filter (\<lambda>l. lgAssignment l = i \<and> lgType l = type) (adLogs db))"

definition times_list :: "instant option \<Rightarrow> instant list" where
  "times_list t = (case t of None \<Rightarrow> [] | Some x \<Rightarrow> [x])"

definition log_ok :: "attendance_db \<Rightarrow> attendance_row \<Rightarrow> bool" where
  "log_ok db a \<longleftrightarrow> logged_times db (atId a) CHECK_IN = times_list (atCheckIn a) \<and> logged_times db (atId a) CHECK_OUT = times_list (atCheckOut a)"

definition attendance_ok :: "attendance_db \<Rightarrow> bool" where
  "attendance_ok db \<longleftrightarrow> ids_distinct db \<and> (\<forall>a \<in> set (adRows db). row_ok a \<and> log_ok db a)"

text \<open>What was recorded stays.\<close>

definition times_stay :: "attendance_db \<Rightarrow> attendance_db \<Rightarrow> bool" where
  "times_stay db db' \<longleftrightarrow> (\<forall>a \<in> set (adRows db). \<exists>a' \<in> set (adRows db'). atId a' = atId a \<and>
     (atCheckIn a \<noteq> None \<longrightarrow> atCheckIn a' = atCheckIn a) \<and> (atCheckOut a \<noteq> None \<longrightarrow> atCheckOut a' = atCheckOut a))"

section \<open>One row changes\<close>

lemma times_list_grow: "times_list t @ new = times_list t' \<Longrightarrow> t \<noteq> None \<Longrightarrow> t' = t"
  by (auto simp: times_list_def split: option.splits)

lemma logged_append:
  assumes "adLogs db' = adLogs db @ ls"
  shows "logged_times db' i type = logged_times db i type @ map lgAt (filter (\<lambda>l. lgAssignment l = i \<and> lgType l = type) ls)"
  using assms by (simp add: logged_times_def)

lemma one_row_step:
  assumes ok: "attendance_ok db" and a: "row_of db i = Some a"
    and rows: "adRows db' = adRows (set_row db i f)" and logs: "adLogs db' = adLogs db @ ls"
    and f: "atId (f a) = i" "row_ok (f a)" and own: "\<forall>l \<in> set ls. lgAssignment l = i"
    and times: "times_list (atCheckIn a) @ map lgAt (filter (\<lambda>l. lgType l = CHECK_IN) ls) = times_list (atCheckIn (f a))"
      "times_list (atCheckOut a) @ map lgAt (filter (\<lambda>l. lgType l = CHECK_OUT) ls) = times_list (atCheckOut (f a))"
  shows "attendance_ok db' \<and> times_stay db db'"
proof -
  have d: "ids_distinct db" using ok by (simp add: attendance_ok_def)
  have image: "b = a" if "b \<in> set (adRows db)" "atId b = i" for b using row_of_iff [OF d] a that by (metis option.inject)
  have rows': "adRows db' = map (\<lambda>b. if atId b = i then f b else b) (adRows db)" using rows by (simp add: rows_set_row)
  have keep_ids: "atId (if atId b = i then f b else b) = atId b" if "b \<in> set (adRows db)" for b using image [OF that] f(1) by auto
  then have "map atId (adRows db') = map atId (adRows db)" unfolding rows' map_map by (intro map_cong refl) simp
  then have d': "ids_distinct db'" using d by (simp add: ids_distinct_def)
  have each: "row_ok b' \<and> log_ok db' b'" if b': "b' \<in> set (adRows db')" for b'
  proof -
    obtain b where b: "b \<in> set (adRows db)" "b' = (if atId b = i then f b else b)" using b' unfolding rows' by auto
    then have ok_b: "row_ok b" "log_ok db b" using ok by (simp_all add: attendance_ok_def)
    show ?thesis
    proof (cases "atId b = i")
      case True
      then have ba: "b = a" "b' = f a" using image b by simp_all
      have "filter (\<lambda>l. lgAssignment l = i \<and> lgType l = type) ls = filter (\<lambda>l. lgType l = type) ls" for type
        using own by (intro filter_cong) auto
      then have "log_ok db' (f a)"
        using ok_b(2) times True ba(1) by (simp add: log_ok_def f(1) logged_append [OF logs])
      then show ?thesis using f(2) ba(2) by simp
    next
      case False
      then have "filter (\<lambda>l. lgAssignment l = atId b \<and> lgType l = type) ls = []" for type using own by (auto simp: filter_empty_conv)
      then show ?thesis using ok_b b(2) False by (simp add: log_ok_def logged_append [OF logs])
    qed
  qed
  have stay: "\<exists>b' \<in> set (adRows db'). atId b' = atId b \<and> (atCheckIn b \<noteq> None \<longrightarrow> atCheckIn b' = atCheckIn b) \<and>
      (atCheckOut b \<noteq> None \<longrightarrow> atCheckOut b' = atCheckOut b)" if b: "b \<in> set (adRows db)" for b
  proof (rule bexI [of _ "if atId b = i then f b else b"])
    show "(if atId b = i then f b else b) \<in> set (adRows db')" using b unfolding rows' by auto
    show "atId (if atId b = i then f b else b) = atId b \<and> (atCheckIn b \<noteq> None \<longrightarrow> atCheckIn (if atId b = i then f b else b) = atCheckIn b) \<and>
      (atCheckOut b \<noteq> None \<longrightarrow> atCheckOut (if atId b = i then f b else b) = atCheckOut b)"
      using keep_ids [OF b] image [OF b] times_list_grow [OF times(1)] times_list_grow [OF times(2)] by (cases "atId b = i") auto
  qed
  show ?thesis using d' each stay by (simp add: attendance_ok_def times_stay_def)
qed

lemma times_stay_refl: "adRows db' = adRows db \<Longrightarrow> times_stay db db'"
  by (auto simp: times_stay_def)

lemma times_stay_trans: "times_stay db1 db2 \<Longrightarrow> times_stay db2 db3 \<Longrightarrow> times_stay db1 db3"
  unfolding times_stay_def by (metis (no_types, lifting))

lemma same_rows_ok: "adRows db' = adRows db \<Longrightarrow> adLogs db' = adLogs db \<Longrightarrow> attendance_ok db' = attendance_ok db"
  by (simp add: attendance_ok_def ids_distinct_def log_ok_def logged_times_def)

lemma known_row: "attendance_ok db \<Longrightarrow> row_of db i = Some a \<Longrightarrow> row_ok a"
  using row_of_Some by (auto simp: attendance_ok_def)

lemma check_in_keeps:
  assumes "attendance_ok db" "check_in_tx db a rules faceless now = Inr (db', answer)"
  shows "attendance_ok db' \<and> times_stay db db'"
proof -
  obtain locked where l: "row_of db (atId a) = Some locked" using assms(2) by (auto simp: check_in_tx_def Let_def split: option.splits)
  show ?thesis
  proof (cases "may_check_in locked")
    case True
    have d: "atId locked = atId a" using row_of_Some [OF l] by simp
    have none: "atCheckIn locked = None" "atCheckOut locked = None"
      using True known_row [OF assms(1) l] by (auto simp: may_check_in_def row_ok_def)
    show ?thesis
      by (rule one_row_step [OF assms(1) l, where f = "\<lambda>r. r\<lparr>atCheckIn := Some now, atLate := Some (late_minutes db a rules now),
              atAttendance := Some (late_status (late_minutes db a rules now)), atStatus := CONFIRMED\<rparr>"
            and ls = "[\<lparr> lgAssignment = atId a, lgEmployee = atEmployee a, lgStore = store_text a, lgType = CHECK_IN, lgAt = now,
              lgMethod = method_of faceless \<rparr>]"])
         (use assms(2) l True d none in \<open>auto simp: check_in_tx_def Let_def row_ok_def times_list_def late_status_def\<close>)
  next
    case False
    then have "db' = db" using assms(2) l by (auto simp: check_in_tx_def Let_def split: if_splits)
    then show ?thesis using assms(1) times_stay_refl by simp
  qed
qed

lemma check_out_keeps:
  assumes "attendance_ok db" "check_out_tx db a rules paidUntil mode faceless now = Inr (db', answer)"
  shows "attendance_ok db' \<and> times_stay db db'"
proof -
  obtain locked where l: "row_of db (atId a) = Some locked" using assms(2) by (auto simp: check_out_tx_def Let_def split: option.splits)
  show ?thesis
  proof (cases "may_check_out locked")
    case True
    have d: "atId locked = atId a" using row_of_Some [OF l] by simp
    have given: "given_or a (row_of db (atId a)) = locked" using l by (simp add: given_or_def)
    have ok: "row_ok locked" using known_row [OF assms(1) l] .
    have known: "atCheckIn locked \<noteq> None" "atCheckOut locked = None" using True by (auto simp: may_check_out_def)
    have "given_or ON_TIME (atAttendance locked) \<noteq> ABSENT"
      using ok known(1) by (auto simp: row_ok_def given_or_def split: option.splits)
    then have status: "out_status db a (out_early db a rules now) \<noteq> ABSENT" by (simp add: out_status_def Let_def given)
    show ?thesis
      by (rule one_row_step [OF assms(1) l, where f = "\<lambda>r. r\<lparr>atCheckOut := Some now, atEarly := Some (out_early db a rules now),
              atWorked := Some (out_worked db a rules paidUntil mode now), atAttendance := Some (out_status db a (out_early db a rules now)),
              atStatus := COMPLETED\<rparr>"
            and ls = "[\<lparr> lgAssignment = atId a, lgEmployee = atEmployee a, lgStore = store_text a, lgType = CHECK_OUT, lgAt = now,
              lgMethod = method_of faceless \<rparr>]"])
         (use assms(2) l True d known status in \<open>auto simp: check_out_tx_def Let_def row_ok_def times_list_def\<close>)
  next
    case False
    then have "db' = db" using assms(2) l by (auto simp: check_out_tx_def Let_def split: if_splits)
    then show ?thesis using assms(1) times_stay_refl by simp
  qed
qed


lemma auto_checkout_Some:
  assumes "autoCheckout db i endAt pendingDue known now = Some db'"
  obtains a f where "row_of db i = Some a" "atCheckIn a \<noteq> None" "atCheckOut a = None" "atStatus a = CONFIRMED"
    "adRows db' = adRows (set_row db i f)" "adLogs db' = adLogs db @ [system_log a CHECK_OUT now]"
    "f = (\<lambda>r. r\<lparr>atCheckOut := Some now, atWorked := atWorked (f r), atAttendance := Some FORGOT_CHECKOUT, atStatus := COMPLETED,
      atAuto := True, atAutoReason := Some ''FORGOT_CHECKOUT'', atScheduledCheckout := Some endAt\<rparr>)"
proof -
  obtain a where a: "row_of db i = Some a" using assms by (auto simp: autoCheckout_def split: option.splits)
  have c: "atCheckIn a \<noteq> None" "atCheckOut a = None" using assms a by (auto simp: autoCheckout_def split: if_splits)
  obtain expired approvedEnd where v: "overtime_verdict pendingDue now endAt (lateCheckoutMinutes (given_or (rulesFor db (atStore a)) known)) [] None
      (live_overtime db i) = Some (expired, approvedEnd)"
    using assms a c by (auto simp: autoCheckout_def Let_def split: option.splits if_splits)
  have s: "atStatus a = CONFIRMED" using assms a c v by (auto simp: autoCheckout_def Let_def split: if_splits)
  let ?f = "\<lambda>r. r\<lparr>atCheckOut := Some now,
      atWorked := Some (auto_worked db a (given_or (rulesFor db (atStore a)) known) endAt approvedEnd), atAttendance := Some FORGOT_CHECKOUT,
      atStatus := COMPLETED, atAuto := True, atAutoReason := Some ''FORGOT_CHECKOUT'', atScheduledCheckout := Some endAt\<rparr>"
  have "db' = set_workflow (add_log (expire_overtime (set_row db i ?f) expired) (system_log a CHECK_OUT now)) i
      (\<lambda>w. w\<lparr>wfState := AUTO_COMPLETED, wfAutoAt := Some now\<rparr>)"
    using assms a c v s by (simp add: autoCheckout_def Let_def)
  then show thesis by (intro that [of a ?f]) (simp_all add: a c s)
qed

lemma auto_checkout_keeps:
  assumes "attendance_ok db" "autoCheckout db i endAt pendingDue known now = Some db'"
  shows "attendance_ok db' \<and> times_stay db db'"
proof -
  obtain a f where a: "row_of db i = Some a" "atCheckIn a \<noteq> None" "atCheckOut a = None" "atStatus a = CONFIRMED"
    "adRows db' = adRows (set_row db i f)" "adLogs db' = adLogs db @ [system_log a CHECK_OUT now]"
    "f = (\<lambda>r. r\<lparr>atCheckOut := Some now, atWorked := atWorked (f r), atAttendance := Some FORGOT_CHECKOUT, atStatus := COMPLETED,
      atAuto := True, atAutoReason := Some ''FORGOT_CHECKOUT'', atScheduledCheckout := Some endAt\<rparr>)"
    by (rule auto_checkout_Some [OF assms(2)])
  have i: "atId a = i" using row_of_Some [OF a(1)] by simp
  have fa: "atId (f a) = i" "atCheckIn (f a) = atCheckIn a" "atCheckOut (f a) = Some now" "atStatus (f a) = COMPLETED"
    "atAttendance (f a) = Some FORGOT_CHECKOUT" by (subst a(7), simp add: i)+
  show ?thesis
    by (rule one_row_step [OF assms(1) a(1,5,6) fa(1)]) (use fa a(2,3) i in \<open>auto simp: row_ok_def system_log_def times_list_def\<close>)
qed

lemma chain_Some:
  assumes "chainIntoNextShift db i known now = Some db'"
  obtains a c e where "row_of db i = Some a" "atCheckIn a \<noteq> None" "atCheckOut a = None" "atStatus a = CONFIRMED"
    "winEnd (row_window a) = Some e" "e \<le> now" "live_overtime db i = []"
    "findChainedNextAssignment db a (Some e) = Inr (Some c)" "c \<in> set (adRows db)" "atId c \<noteq> i" "atEmployee c = atEmployee a"
    "winStart (row_window c) = Some e" "\<not> approvedLeaveCoversShiftSql (atEmployee c) (row_date_text c) (atId c) (adLeaves db)"
    "\<exists>n. row_of db (atId c) = Some n \<and> may_chain_into a c n now"
    "db' = scheduleForAssignment (close_and_open db a c (given_or (rulesFor db (atStore a)) known) e) (atId c) known"
proof -
  obtain a where a: "row_of db i = Some a" using assms by (auto simp: chainIntoNextShift_def split: option.splits)
  have s: "atCheckIn a \<noteq> None" "atCheckOut a = None" "atStatus a = CONFIRMED" using assms a by (auto simp: chainIntoNextShift_def split: if_splits)
  obtain e where e: "winEnd (row_window a) = Some e" using assms a s by (auto simp: chainIntoNextShift_def split: option.splits)
  have due: "e \<le> now" "live_overtime db i = []" using assms a s e by (auto simp: chainIntoNextShift_def split: if_splits)
  obtain c where c: "findChainedNextAssignment db a (Some e) = Inr (Some c)"
    using assms a s e due by (auto simp: chainIntoNextShift_def split: option.splits sum.splits)
  then have m: "c \<in> set (adRows db)" "atId c \<noteq> i" "atEmployee c = atEmployee a" "winStart (row_window c) = Some e"
      "\<not> approvedLeaveCoversShiftSql (atEmployee c) (row_date_text c) (atId c) (adLeaves db)"
    using row_of_Some [OF a]
    by (auto simp: findChainedNextAssignment_def and_then_Inr_iff chain_candidate_def dest!: find_Some_in split: option.splits)
  obtain n where n: "row_of db (atId c) = Some n" using assms a s e due c by (auto simp: chainIntoNextShift_def split: option.splits)
  have may: "may_chain_into a c n now" using assms a s e due c n by (auto simp: chainIntoNextShift_def split: if_splits)
  have "db' = scheduleForAssignment (close_and_open db a c (given_or (rulesFor db (atStore a)) known) e) (atId c) known"
    using assms a s e due c n may by (simp add: chainIntoNextShift_def Let_def)
  then show thesis using that a s e due c m n may by blast
qed

lemma find_id_update:
  "j \<noteq> i \<Longrightarrow> (\<And>a. atId (f a) = atId a) \<Longrightarrow> find (\<lambda>a. atId a = j) (map (\<lambda>a. if atId a = i then f a else a) xs) = find (\<lambda>a. atId a = j) xs"
  by (induction xs) auto

lemma row_of_set_row_other: "j \<noteq> i \<Longrightarrow> (\<And>a. atId (f a) = atId a) \<Longrightarrow> row_of (set_row db i f) j = row_of db j"
  by (simp add: row_of_def rows_set_row find_id_update)

lemma row_of_add_log [simp]: "row_of (add_log db l) i = row_of db i"
  by (simp add: row_of_def)

lemma chain_keeps:
  assumes ok: "attendance_ok db" and chained: "chainIntoNextShift db i known now = Some db'"
  shows "attendance_ok db' \<and> times_stay db db'"
proof -
  obtain a c e where a: "row_of db i = Some a" "atCheckIn a \<noteq> None" "atCheckOut a = None" "atStatus a = CONFIRMED"
      and c: "atId c \<noteq> i" "atEmployee c = atEmployee a" and n: "\<exists>n. row_of db (atId c) = Some n \<and> may_chain_into a c n now"
      and db': "db' = scheduleForAssignment (close_and_open db a c (given_or (rulesFor db (atStore a)) known) e) (atId c) known"
    using chain_Some [OF chained] by metis
  obtain n where n: "row_of db (atId c) = Some n" "may_chain_into a c n now" using n by blast
  let ?rules = "given_or (rulesFor db (atStore a)) known"
  let ?f = "\<lambda>r. r\<lparr>atCheckOut := Some e, atWorked := Some (chain_worked db a ?rules e), atEarly := Some 0, atStatus := COMPLETED\<rparr>"
  let ?g = "\<lambda>r. r\<lparr>atCheckIn := Some e, atLate := Some 0, atAttendance := Some ON_TIME, atStatus := CONFIRMED\<rparr>"
  define mid where "mid = add_log (set_row db i ?f) (system_log a CHECK_OUT e)"
  have i: "atId a = i" "atId n = atId c" using row_of_Some [OF a(1)] row_of_Some [OF n(1)] by simp_all
  have "row_ok a" using known_row [OF ok a(1)] .
  then have first: "attendance_ok mid \<and> times_stay db mid"
    by (intro one_row_step [OF ok a(1), where f = ?f and ls = "[system_log a CHECK_OUT e]"])
       (use a i in \<open>auto simp: mid_def row_ok_def system_log_def times_list_def\<close>)
  have other: "row_of mid (atId c) = Some n" using n(1) c(1) by (simp add: mid_def row_of_set_row_other)
  have fresh: "atCheckIn n = None" "atCheckOut n = None"
    using n(2) known_row [OF ok n(1)] by (auto simp: may_chain_into_def row_ok_def)
  have second: "attendance_ok db' \<and> times_stay mid db'"
    by (rule one_row_step [OF conjunct1 [OF first] other, where f = ?g
          and ls = "[(system_log c CHECK_IN e)\<lparr>lgEmployee := atEmployee a, lgStore := store_text a\<rparr>]"])
       (use fresh i in \<open>auto simp: db' mid_def close_and_open_def Let_def rows_set_row row_ok_def system_log_def times_list_def\<close>)
  show ?thesis using first second times_stay_trans by blast
qed

lemma absent_keeps:
  assumes "attendance_ok db"
  shows "attendance_ok (reconcileUnstartedAssignments db now) \<and> times_stay db (reconcileUnstartedAssignments db now)"
proof -
  let ?db = "reconcileUnstartedAssignments db now"
  have rows: "adRows ?db = map (mark_absent_row db now) (adRows db)" "adLogs ?db = adLogs db"
    by (simp_all add: reconcileUnstartedAssignments_def)
  have m: "atId (mark_absent_row db now a) = atId a \<and> atCheckIn (mark_absent_row db now a) = atCheckIn a \<and>
      atCheckOut (mark_absent_row db now a) = atCheckOut a \<and> atStatus (mark_absent_row db now a) = atStatus a \<and>
      (atAttendance (mark_absent_row db now a) = Some ABSENT \<longrightarrow> atAttendance a = Some ABSENT \<or> atCheckIn a = None)" for a
    by (auto simp: mark_absent_row_def Let_def split: option.splits)
  have "map atId (adRows ?db) = map atId (adRows db)" using m by (simp add: rows)
  then have "ids_distinct ?db" using assms by (simp add: attendance_ok_def ids_distinct_def)
  then show ?thesis
    using assms m by (auto simp: attendance_ok_def rows row_ok_def log_ok_def logged_times_def times_stay_def)
qed

lemma touched_row_ok:
  assumes "row_ok a" "touched a a'"
  shows "row_ok a'"
proof -
  have same: "atCheckIn a' = atCheckIn a" "atCheckOut a' = atCheckOut a" "atAttendance a' = Some ABSENT \<longrightarrow> atAttendance a = Some ABSENT"
    using assms(2) by (simp_all add: touched_def)
  show ?thesis
  proof (cases "atStatus a' = atStatus a")
    case True
    then show ?thesis using assms(1) same by (simp add: row_ok_def)
  next
    case False
    then have "atStatus a = PENDING \<or> atStatus a = APPROVED" "atStatus a' \<noteq> COMPLETED" using assms(2) by (auto simp: touched_def)
    then have "atCheckOut a = None" "atCheckIn a = None" using assms(1) by (auto simp: row_ok_def)
    then show ?thesis using same \<open>atStatus a' \<noteq> COMPLETED\<close> by (simp add: row_ok_def)
  qed
qed

lemma touch_keeps:
  assumes ok: "attendance_ok db" and t: "list_all2 touched (adRows db) (adRows db')" and logs: "adLogs db' = adLogs db"
  shows "attendance_ok db' \<and> times_stay db db'"
proof -
  have ids: "map atId (adRows db') = map atId (adRows db)"
    using t by (induction rule: list_all2_induct) (auto simp: touched_def)
  have source: "\<exists>a \<in> set (adRows db). touched a a'" if "a' \<in> set (adRows db')" for a'
    using t that by (induction rule: list_all2_induct) auto
  have forth: "\<exists>a' \<in> set (adRows db'). touched a a'" if "a \<in> set (adRows db)" for a
    using t that by (induction rule: list_all2_induct) auto
  have kept: "row_ok a' \<and> log_ok db' a'" if "row_ok a" "log_ok db a" "touched a a'" for a a'
    using touched_row_ok [OF that(1,3)] that(2,3) by (simp add: touched_def log_ok_def logged_times_def logs)
  have "attendance_ok db'" using ok source kept unfolding attendance_ok_def ids_distinct_def ids by blast
  moreover have "times_stay db db'" unfolding times_stay_def using forth by (fastforce simp: touched_def)
  ultimately show ?thesis ..
qed

lemma book_keeps:
  assumes ok: "attendance_ok db" and rows: "adRows db' = adRows db @ [a]" and logs: "adLogs db' = adLogs db" and a: "unstarted a"
    and fresh: "\<forall>b \<in> set (adRows db). atId b \<noteq> atId a" "\<forall>l \<in> set (adLogs db). lgAssignment l \<noteq> atId a"
  shows "attendance_ok db' \<and> times_stay db db'"
proof -
  have "ids_distinct db'" using ok fresh(1) by (auto simp: attendance_ok_def ids_distinct_def rows)
  moreover have "row_ok a" using a by (auto simp: unstarted_def row_ok_def)
  moreover have "log_ok db' a" using a fresh(2) by (auto simp: unstarted_def log_ok_def logged_times_def logs times_list_def filter_empty_conv)
  ultimately have "attendance_ok db'" using ok by (auto simp: attendance_ok_def rows log_ok_def logged_times_def logs)
  moreover have "times_stay db db'" by (auto simp: times_stay_def rows)
  ultimately show ?thesis ..
qed

lemma step_keeps: "attendance_step db db' \<Longrightarrow> attendance_ok db \<Longrightarrow> attendance_ok db' \<and> times_stay db db'"
proof (induction rule: attendance_step.induct)
  case (in_step db a rules faceless now db' answer)
  then show ?case using check_in_keeps by blast
next
  case (out_step db a rules paidUntil mode faceless now db' answer)
  then show ?case using check_out_keeps by blast
next
  case (auto_step db i endAt pendingDue known now db')
  then show ?case using auto_checkout_keeps by blast
next
  case (chain_step db i known now db')
  then show ?case using chain_keeps by blast
next
  case (absent_step db now)
  then show ?case by (rule absent_keeps)
next
  case (plan_step db' db)
  then show ?case using same_rows_ok times_stay_refl by blast
next
  case (touch_step db db')
  then show ?case using touch_keeps by blast
next
  case (book_step db' db a)
  then show ?case using book_keeps by blast
qed

interpretation attendance: kept attendance_step attendance_ok times_stay
  by unfold_locales (rule step_keeps, auto intro: times_stay_refl times_stay_trans)

section \<open>What holds after any history\<close>

text \<open>C4. Over any history of check-ins, check-outs, automatic closings, chained shifts, marked absences, bookings and decisions of the
  owner, every row keeps its sense: it is COMPLETED exactly when it is checked out, checked out only after being checked in, CONFIRMED
  while open, and ABSENT only without a check-in; and the log holds exactly one entry per recorded time of the row, at that time, and
  none for a time that is not recorded. A credited claim for worked hours, which replaces recorded times, is in \<open>RequestSafety\<close>.\<close>

theorem attendance_is_logged_once:
  assumes "attendance_step\<^sup>*\<^sup>* db db'" "attendance_ok db" "row_of db' i = Some a"
  shows "logged_times db' i CHECK_IN = times_list (atCheckIn a) \<and> logged_times db' i CHECK_OUT = times_list (atCheckOut a) \<and>
    (atStatus a = COMPLETED \<longleftrightarrow> atCheckOut a \<noteq> None) \<and> (atCheckOut a \<noteq> None \<longrightarrow> atCheckIn a \<noteq> None) \<and>
    (atCheckIn a \<noteq> None \<and> atCheckOut a = None \<longrightarrow> atStatus a = CONFIRMED) \<and> (atAttendance a = Some ABSENT \<longrightarrow> atCheckIn a = None)"
proof -
  have "attendance_ok db'" using attendance.history_keeps [OF assms(1,2)] by simp
  moreover have "a \<in> set (adRows db')" "atId a = i" using row_of_Some [OF assms(3)] by simp_all
  ultimately have "row_ok a" "log_ok db' a" by (simp_all add: attendance_ok_def)
  then show ?thesis using \<open>atId a = i\<close> by (simp add: row_ok_def log_ok_def)
qed

lemma kept_row:
  assumes "attendance_step\<^sup>*\<^sup>* db db'" "attendance_ok db" "row_of db i = Some a"
  obtains a' where "row_of db' i = Some a'" "atCheckIn a \<noteq> None \<longrightarrow> atCheckIn a' = atCheckIn a" "atCheckOut a \<noteq> None \<longrightarrow> atCheckOut a' = atCheckOut a"
proof -
  have s: "attendance_ok db'" "times_stay db db'" using attendance.history_keeps [OF assms(1,2)] by simp_all
  then obtain a' where a': "a' \<in> set (adRows db')" "atId a' = atId a" "atCheckIn a \<noteq> None \<longrightarrow> atCheckIn a' = atCheckIn a"
      "atCheckOut a \<noteq> None \<longrightarrow> atCheckOut a' = atCheckOut a"
    using row_of_Some [OF assms(3)] unfolding times_stay_def by blast
  have "row_of db' i = Some a'" using a'(1,2) row_of_Some [OF assms(3)] row_of_iff s(1) by (simp add: attendance_ok_def)
  then show thesis using that a' by blast
qed

lemma row_of_set_row: "(\<And>a. atId (f a) = atId a) \<Longrightarrow> row_of (set_row db i f) i = map_option f (row_of db i)"
proof -
  assume f: "\<And>a. atId (f a) = atId a"
  have "find (\<lambda>a. atId a = i) (map (\<lambda>a. if atId a = i then f a else a) xs) = map_option f (find (\<lambda>a. atId a = i) xs)" for xs
    by (induction xs) (auto simp: f)
  then show ?thesis by (simp add: row_of_def rows_set_row)
qed

lemma check_in_answer:
  assumes "check_in_tx db a rules faceless now = Inr (db1, answer)"
  obtains r where "row_of db1 (atId a) = Some r" "atCheckIn r \<noteq> None" "atCheckIn r = anTime answer"
proof -
  obtain locked where l: "row_of db (atId a) = Some locked" using assms by (auto simp: check_in_tx_def Let_def split: option.splits)
  show thesis
  proof (cases "may_check_in locked")
    case True
    then have "map_option atCheckIn (row_of db1 (atId a)) = Some (Some now)" "anTime answer = Some now"
      using assms l by (auto simp: check_in_tx_def Let_def row_of_set_row)
    then obtain r where "row_of db1 (atId a) = Some r" "atCheckIn r = Some now" "anTime answer = Some now" by auto
    then show thesis using that [of r] by simp
  next
    case False
    then have "db1 = db" "atCheckIn locked \<noteq> None" "anTime answer = atCheckIn locked"
      using assms l by (auto simp: check_in_tx_def Let_def already_in_def split: if_splits)
    then show thesis using l by (intro that [of locked]) simp_all
  qed
qed

lemma check_out_answer:
  assumes "check_out_tx db a rules paidUntil mode faceless now = Inr (db1, answer)"
  obtains r where "row_of db1 (atId a) = Some r" "atCheckOut r \<noteq> None" "atCheckOut r = anTime answer"
proof -
  obtain locked where l: "row_of db (atId a) = Some locked" using assms by (auto simp: check_out_tx_def Let_def split: option.splits)
  show thesis
  proof (cases "may_check_out locked")
    case True
    then have "map_option atCheckOut (row_of db1 (atId a)) = Some (Some now)" "anTime answer = Some now"
      using assms l by (auto simp: check_out_tx_def Let_def row_of_set_row)
    then obtain r where "row_of db1 (atId a) = Some r" "atCheckOut r = Some now" "anTime answer = Some now" by auto
    then show thesis using that [of r] by simp
  next
    case False
    then have "db1 = db" "atCheckOut locked \<noteq> None" "anTime answer = atCheckOut locked"
      using assms l by (auto simp: check_out_tx_def Let_def already_out_def split: if_splits)
    then show thesis using l by (intro that [of locked]) simp_all
  qed
qed

lemma check_in_again:
  assumes "attendance_ok db" "attendance_step\<^sup>*\<^sup>* db1 db2" "check_in_tx db a rules faceless now = Inr (db1, answer)"
  shows "\<exists>again. check_in_tx db2 a rules' faceless' later = Inr (db2, again) \<and> anAlready again \<and> anTime again = anTime answer"
proof -
  have ok: "attendance_ok db1" using check_in_keeps [OF assms(1,3)] by simp
  obtain r where r: "row_of db1 (atId a) = Some r" "atCheckIn r \<noteq> None" "atCheckIn r = anTime answer" by (rule check_in_answer [OF assms(3)])
  obtain r' where r': "row_of db2 (atId a) = Some r'" "atCheckIn r \<noteq> None \<longrightarrow> atCheckIn r' = atCheckIn r"
    by (rule kept_row [OF assms(2) ok r(1)])
  show ?thesis using r r' by (auto simp: check_in_tx_def Let_def may_check_in_def already_in_def)
qed

lemma check_out_again:
  assumes "attendance_ok db" "attendance_step\<^sup>*\<^sup>* db1 db2" "check_out_tx db a rules paidUntil mode faceless now = Inr (db1, answer)"
  shows "\<exists>again. check_out_tx db2 a rules' paidUntil' mode' faceless' later = Inr (db2, again) \<and> anAlready again \<and> anTime again = anTime answer"
proof -
  have ok: "attendance_ok db1" using check_out_keeps [OF assms(1,3)] by simp
  obtain r where r: "row_of db1 (atId a) = Some r" "atCheckOut r \<noteq> None" "atCheckOut r = anTime answer" by (rule check_out_answer [OF assms(3)])
  obtain r' where r': "row_of db2 (atId a) = Some r'" "atCheckOut r \<noteq> None \<longrightarrow> atCheckOut r' = atCheckOut r"
    by (rule kept_row [OF assms(2) ok r(1)])
  show ?thesis using r r' by (auto simp: check_out_tx_def Let_def may_check_out_def already_out_def)
qed

text \<open>C26. A check-in or check-out that is answered, the first or a repeated one, leaves the tables of rows and logs as they are when it
  is sent again at any later time, over any history between, and is answered with the time recorded first.\<close>

theorem repeated_attendance_changes_nothing:
  assumes "attendance_ok db" "attendance_step\<^sup>*\<^sup>* db1 db2"
  shows "(check_in_tx db a rules faceless now = Inr (db1, answer) \<longrightarrow>
      (\<exists>again. check_in_tx db2 a rules' faceless' later = Inr (db2, again) \<and> anAlready again \<and> anTime again = anTime answer)) \<and>
    (check_out_tx db a rules paidUntil mode faceless now = Inr (db1, answer) \<longrightarrow>
      (\<exists>again. check_out_tx db2 a rules' paidUntil' mode' faceless' later = Inr (db2, again) \<and> anAlready again \<and> anTime again = anTime answer))"
  using check_in_again [OF assms] check_out_again [OF assms] by simp

section \<open>Handing over to the next shift\<close>

lemma row_of_schedule [simp]: "row_of (scheduleForAssignment db i k) j = row_of db j"
  by (simp add: row_of_def)

lemma row_of_workflow [simp]: "row_of (set_workflow db i g) j = row_of db j"
  by (simp add: row_of_def)

lemma row_of_expire [simp]: "row_of (expire_overtime db ids) j = row_of db j"
  by (simp add: row_of_def)

lemma chain_hands_over:
  assumes "attendance_ok db" "chainIntoNextShift db i known now = Some db'"
  shows "\<exists>a c e a' c'. row_of db i = Some a \<and> atCheckIn a \<noteq> None \<and> atCheckOut a = None \<and> winEnd (row_window a) = Some e \<and> e \<le> now \<and>
    live_overtime db i = [] \<and> row_of db (atId c) = Some c \<and> atId c \<noteq> i \<and> atEmployee c = atEmployee a \<and> atStatus c = APPROVED \<and>
    winStart (row_window c) = Some e \<and> (\<forall>f. winEnd (row_window c) = Some f \<longrightarrow> now < f) \<and>
    \<not> approvedLeaveCoversShiftSql (atEmployee c) (row_date_text c) (atId c) (adLeaves db) \<and>
    row_of db' i = Some a' \<and> atCheckOut a' = Some e \<and> atStatus a' = COMPLETED \<and>
    row_of db' (atId c) = Some c' \<and> atCheckIn c' = Some e \<and> atLate c' = Some 0 \<and> atStatus c' = CONFIRMED \<and>
    (\<forall>j. j \<noteq> i \<and> j \<noteq> atId c \<longrightarrow> row_of db' j = row_of db j)"
proof -
  obtain a c e where a: "row_of db i = Some a" "atCheckIn a \<noteq> None" "atCheckOut a = None" "winEnd (row_window a) = Some e" "e \<le> now"
        "live_overtime db i = []"
      and c: "c \<in> set (adRows db)" "atId c \<noteq> i" "atEmployee c = atEmployee a" "winStart (row_window c) = Some e"
        "\<not> approvedLeaveCoversShiftSql (atEmployee c) (row_date_text c) (atId c) (adLeaves db)"
      and n: "\<exists>n. row_of db (atId c) = Some n \<and> may_chain_into a c n now"
      and db': "db' = scheduleForAssignment (close_and_open db a c (given_or (rulesFor db (atStore a)) known) e) (atId c) known"
    using chain_Some [OF assms(2)] by metis
  have rc: "row_of db (atId c) = Some c" using c(1) assms(1) by (simp add: row_of_iff attendance_ok_def)
  then have m: "atStatus c = APPROVED" "\<forall>f. winEnd (row_window c) = Some f \<longrightarrow> now < f"
    using n by (auto simp: may_chain_into_def)
  have i: "atId a = i" using row_of_Some [OF a(1)] by simp
  let ?a = "a\<lparr>atCheckOut := Some e, atWorked := Some (chain_worked db a (given_or (rulesFor db (atStore a)) known) e), atEarly := Some 0,
    atStatus := COMPLETED\<rparr>"
  let ?c = "c\<lparr>atCheckIn := Some e, atLate := Some 0, atAttendance := Some ON_TIME, atStatus := CONFIRMED\<rparr>"
  have r1: "row_of db' i = Some ?a"
    using a(1) c(2) by (simp add: db' close_and_open_def Let_def i row_of_set_row row_of_set_row_other)
  have r2: "row_of db' (atId c) = Some ?c"
    using rc c(2) by (simp add: db' close_and_open_def Let_def i row_of_set_row row_of_set_row_other)
  have r3: "row_of db' j = row_of db j" if "j \<noteq> i" "j \<noteq> atId c" for j
    using that by (simp add: db' close_and_open_def Let_def i row_of_set_row_other)
  show ?thesis
    by (rule exI [of _ a], rule exI [of _ c], rule exI [of _ e], rule exI [of _ ?a], rule exI [of _ ?c])
       (simp add: a c(1-4) c(5) [unfolded c(3)] rc m r1 r2 r3)
qed

text \<open>C9. When a shift is chained into the next one, it was open, over and without overtime requests; the next is another live shift of
  the same employee, not on approved leave, that starts at the very instant the first ends and is not over; the first is closed and the second
  opened at that instant, on time, and every other assignment stays as it was.\<close>

theorem chain_hands_over_at_the_boundary:
  assumes "attendance_ok db" "chainIntoNextShift db i known now = Some db'"
  shows "\<exists>a c e a' c'. row_of db i = Some a \<and> atCheckIn a \<noteq> None \<and> atCheckOut a = None \<and> winEnd (row_window a) = Some e \<and> e \<le> now \<and>
    live_overtime db i = [] \<and> row_of db (atId c) = Some c \<and> atId c \<noteq> i \<and> atEmployee c = atEmployee a \<and> atStatus c = APPROVED \<and>
    winStart (row_window c) = Some e \<and> (\<forall>f. winEnd (row_window c) = Some f \<longrightarrow> now < f) \<and>
    \<not> approvedLeaveCoversShiftSql (atEmployee c) (row_date_text c) (atId c) (adLeaves db) \<and>
    row_of db' i = Some a' \<and> atCheckOut a' = Some e \<and> atStatus a' = COMPLETED \<and>
    row_of db' (atId c) = Some c' \<and> atCheckIn c' = Some e \<and> atLate c' = Some 0 \<and> atStatus c' = CONFIRMED \<and>
    (\<forall>j. j \<noteq> i \<and> j \<noteq> atId c \<longrightarrow> row_of db' j = row_of db j)"
  by (rule chain_hands_over [OF assms])

section \<open>A forgotten check-out is closed\<close>

text \<open>The end in force of an open row: that of its workflow while one runs, else the scheduled one it is given.\<close>

definition end_in_force :: "attendance_db \<Rightarrow> attendance_row \<Rightarrow> instant option" where
  "end_in_force db a =
     (case workflow_of db (atId a) of
        None \<Rightarrow> scheduled_end_of a
      | Some w \<Rightarrow> if wfState w = WF_ACTIVE \<or> wfState w = OVERTIME_APPROVED then Some (wfEffectiveEnd w) else None)"

text \<open>No request of the row waits, and the grace after every approved one is over.\<close>

definition overtime_over :: "attendance_db \<Rightarrow> string \<Rightarrow> instant \<Rightarrow> int \<Rightarrow> instant \<Rightarrow> bool" where
  "overtime_over db i endAt grace now \<longleftrightarrow>
     (\<forall>r \<in> set (live_overtime db i). otStatus r \<noteq> REQUEST_PENDING \<and>
        (case overtimeEndAt (Some r) (Some endAt) of Some t \<Rightarrow> t + grace * 60000 \<le> now | None \<Rightarrow> True))"

text \<open>What a turn of the loop reads for a row.\<close>

definition undisturbed :: "string \<Rightarrow> attendance_db \<Rightarrow> attendance_db \<Rightarrow> bool" where
  "undisturbed i db db' \<longleftrightarrow> row_of db' i = row_of db i \<and> workflow_of db' i = workflow_of db i \<and> live_overtime db' i = live_overtime db i \<and>
     adPolicy db' = adPolicy db"

lemma undisturbed_refl: "undisturbed i db db"
  by (simp add: undisturbed_def)

lemma undisturbed_trans: "undisturbed i db1 db2 \<Longrightarrow> undisturbed i db2 db3 \<Longrightarrow> undisturbed i db1 db3"
  by (simp add: undisturbed_def)

lemma verdict_when_over:
  "\<forall>r \<in> set rs. otStatus r \<noteq> REQUEST_PENDING \<and> (case overtimeEndAt (Some r) (Some e) of Some t \<Rightarrow> t + g * 60000 \<le> now | None \<Rightarrow> True) \<Longrightarrow>
    \<exists>v. overtime_verdict pendingDue now e g expired approvedEnd rs = Some v"
  by (induction rs arbitrary: expired approvedEnd) (auto split: option.splits)

lemma live_overtime_expire:
  assumes "\<forall>r \<in> set (live_overtime db i). otStatus r \<noteq> REQUEST_PENDING"
  shows "live_overtime (expire_overtime db ids) i = live_overtime db i"
proof -
  define e where "e r = (if otId r \<in> set ids \<and> otStatus r = REQUEST_PENDING
      then r\<lparr>otStatus := REQUEST_CANCELLED, otNote := Some PENDING_OVERTIME_EXPIRED_NOTE\<rparr> else r)" for r :: overtime_row
  define live where "live r \<longleftrightarrow> otAssignment r = Some i \<and> (otStatus r = REQUEST_PENDING \<or> otStatus r = REQUEST_APPROVED)" for r :: overtime_row
  have "filter live (map e rs) = filter live rs" if "\<forall>r \<in> set rs. live r \<longrightarrow> otStatus r \<noteq> REQUEST_PENDING" for rs
    using that
  proof (induction rs)
    case (Cons r rs)
    have "live r \<longrightarrow> e r = r" using Cons.prems by (simp add: e_def)
    moreover have "live (e r) \<longrightarrow> live r" by (simp add: e_def live_def)
    ultimately show ?case using Cons by (cases "live r") simp_all
  qed simp
  moreover have "live_overtime d i = filter live (adOvertime d)" for d by (simp add: live_overtime_def live_def [abs_def])
  moreover have "adOvertime (expire_overtime db ids) = map e (adOvertime db)" by (simp add: expire_overtime_def e_def [abs_def])
  ultimately show ?thesis using assms by simp
qed

lemma find_append_other: "\<not> P x \<Longrightarrow> find P (xs @ [x]) = find P xs"
  by (induction xs) auto

lemma find_append_new: "find P xs = None \<Longrightarrow> P x \<Longrightarrow> find P (xs @ [x]) = Some x"
  by (induction xs) (auto split: if_splits)

lemma workflow_set_other:
  assumes "i \<noteq> j" "\<And>w. wfAssignment (g w) = wfAssignment w"
  shows "workflow_of (set_workflow db j g) i = workflow_of db i"
proof -
  have "find (\<lambda>w. wfAssignment w = i) (map (\<lambda>w. if wfAssignment w = j then g w else w) ws) = find (\<lambda>w. wfAssignment w = i) ws" for ws
    using assms by (induction ws) auto
  then show ?thesis by (simp add: workflow_of_def set_workflow_def)
qed

lemma schedule_workflows:
  "adWorkflows (scheduleForAssignment db j k) = adWorkflows db \<or>
   (\<exists>e a. workflow_of db j = None \<and> row_of db j = Some a \<and> scheduled_end_of a = Some e \<and>
      adWorkflows (scheduleForAssignment db j k) = adWorkflows db @ [new_workflow j e])"
  by (simp add: scheduleForAssignment_def Let_def split: option.splits)

lemma workflow_schedule_other: "i \<noteq> j \<Longrightarrow> workflow_of (scheduleForAssignment db j k) i = workflow_of db i"
  using schedule_workflows [of db j k] by (elim disjE exE conjE) (simp_all add: workflow_of_def new_workflow_def find_append_other)

lemma undisturbed_schedule: "i \<noteq> j \<Longrightarrow> undisturbed i db (scheduleForAssignment db j k)"
  by (simp add: undisturbed_def workflow_schedule_other live_overtime_def)

lemma undisturbed_chain:
  assumes "chainIntoNextShift db j known now = Some db'" "i \<noteq> j" "row_of db i = Some r" "atCheckIn r \<noteq> None"
  shows "undisturbed i db db'"
proof -
  obtain a c e where a: "row_of db j = Some a" and n: "\<exists>n. row_of db (atId c) = Some n \<and> may_chain_into a c n now"
      and db': "db' = scheduleForAssignment (close_and_open db a c (given_or (rulesFor db (atStore a)) known) e) (atId c) known"
    using chain_Some [OF assms(1)] by metis
  have j: "atId a = j" using row_of_Some [OF a] by simp
  have c: "i \<noteq> atId c" using n assms(3,4) by (auto simp: may_chain_into_def)
  let ?db = "close_and_open db a c (given_or (rulesFor db (atStore a)) known) e"
  have "undisturbed i db ?db"
    using assms(2) c
    by (simp add: undisturbed_def close_and_open_def Let_def j row_of_set_row_other workflow_set_other live_overtime_def)
       (simp add: workflow_of_def)
  then show ?thesis unfolding db' by (rule undisturbed_trans) (rule undisturbed_schedule [OF c])
qed

lemma undisturbed_auto:
  assumes auto: "autoCheckout db j e pendingDue known now = Some db'" and "i \<noteq> j"
    and still: "\<forall>r \<in> set (live_overtime db i). otStatus r \<noteq> REQUEST_PENDING"
  shows "undisturbed i db db'"
proof -
  obtain f expired l where db': "db' = set_workflow (add_log (expire_overtime (set_row db j f) expired) l) j (\<lambda>w. w\<lparr>wfState := AUTO_COMPLETED, wfAutoAt := Some now\<rparr>)"
      and f: "\<And>a. atId (f a) = atId a"
    using auto by (fastforce simp: autoCheckout_def Let_def split: option.splits if_splits)
  have "live_overtime (expire_overtime (set_row db j f) expired) i = live_overtime (set_row db j f) i"
    using still by (intro live_overtime_expire) (simp add: live_overtime_def)
  then show ?thesis
    using assms(2) f by (simp add: db' undisturbed_def workflow_set_other row_of_set_row_other live_overtime_def) (simp add: workflow_of_def)
qed

text \<open>The ways a turn may go.\<close>

lemma turn_choice:
  assumes "x = (case (if b then chained else None) of Some d \<Rightarrow> d
    | None \<Rightarrow> if c then given_or db closed1 else if d then given_or db closed2 else db)"
  shows "x = db \<or> chained = Some x \<or> closed1 = Some x \<or> closed2 = Some x"
  using assms by (cases chained; cases closed1; cases closed2) (simp_all add: given_or_def split: if_splits)

lemma reconcile_cases:
  obtains "reconcile_one now db a = scheduleForAssignment db (atId a) (Some (rulesFor db (atStore a)))"
  | db' where "reconcile_one now db a = db'"
      "chainIntoNextShift (scheduleForAssignment db (atId a) (Some (rulesFor db (atStore a)))) (atId a) (Some (rulesFor db (atStore a))) now = Some db'"
  | db' e due where "reconcile_one now db a = db'"
      "autoCheckout (scheduleForAssignment db (atId a) (Some (rulesFor db (atStore a)))) (atId a) e due (Some (rulesFor db (atStore a))) now = Some db'"
proof -
  let ?rules = "Some (rulesFor db (atStore a))"
  let ?db = "scheduleForAssignment db (atId a) ?rules"
  have "reconcile_one now db a = ?db \<or> chainIntoNextShift ?db (atId a) ?rules now = Some (reconcile_one now db a) \<or>
      (\<exists>e due. autoCheckout ?db (atId a) e due ?rules now = Some (reconcile_one now db a))"
  proof (cases "workflow_of ?db (atId a)")
    case (Some w)
    show ?thesis
      using turn_choice [of "reconcile_one now db a", unfolded reconcile_one_def Let_def Some option.case, OF refl]
      by (simp only: reconcile_one_def Let_def Some option.case) blast
  qed (simp add: reconcile_one_def Let_def)
  then show thesis using that by blast
qed

lemma turn_keeps:
  assumes "attendance_ok db"
  shows "attendance_ok (reconcile_one now db a) \<and> times_stay db (reconcile_one now db a)"
proof -
  let ?db = "scheduleForAssignment db (atId a) (Some (rulesFor db (atStore a)))"
  have s: "attendance_ok ?db" "times_stay db ?db" 
    using assms same_rows_ok [of ?db db] times_stay_refl [of ?db db] by simp_all
  show ?thesis
  proof (rule reconcile_cases [of now db a])
    assume "reconcile_one now db a = ?db"
    then show ?thesis using s by simp
  next
    fix db' assume "reconcile_one now db a = db'" "chainIntoNextShift ?db (atId a) (Some (rulesFor db (atStore a))) now = Some db'"
    then show ?thesis using chain_keeps [OF s(1)] times_stay_trans [OF s(2)] by simp
  next
    fix db' e due assume "reconcile_one now db a = db'" "autoCheckout ?db (atId a) e due (Some (rulesFor db (atStore a))) now = Some db'"
    then show ?thesis using auto_checkout_keeps [OF s(1)] times_stay_trans [OF s(2)] by simp
  qed
qed

lemma turn_frame:
  assumes other: "i \<noteq> atId a" and r: "row_of db i = Some r" "atCheckIn r \<noteq> None"
    and still: "\<forall>r \<in> set (live_overtime db i). otStatus r \<noteq> REQUEST_PENDING"
  shows "undisturbed i db (reconcile_one now db a)"
proof -
  let ?db = "scheduleForAssignment db (atId a) (Some (rulesFor db (atStore a)))"
  have s: "undisturbed i db ?db" by (rule undisturbed_schedule [OF other])
  then have r': "row_of ?db i = Some r" "\<forall>r \<in> set (live_overtime ?db i). otStatus r \<noteq> REQUEST_PENDING"
    using r still by (simp_all add: undisturbed_def)
  show ?thesis
  proof (rule reconcile_cases [of now db a])
    assume "reconcile_one now db a = ?db"
    then show ?thesis using s by simp
  next
    fix db' assume d: "reconcile_one now db a = db'" "chainIntoNextShift ?db (atId a) (Some (rulesFor db (atStore a))) now = Some db'"
    show ?thesis unfolding d(1) by (rule undisturbed_trans [OF s]) (rule undisturbed_chain [OF d(2) other r'(1) r(2)])
  next
    fix db' e due assume d: "reconcile_one now db a = db'" "autoCheckout ?db (atId a) e due (Some (rulesFor db (atStore a))) now = Some db'"
    show ?thesis unfolding d(1) by (rule undisturbed_trans [OF s]) (rule undisturbed_auto [OF d(2) other r'(2)])
  qed
qed

lemma workflow_after_schedule:
  assumes "row_of db (atId a) = Some a" "atCheckIn a \<noteq> None" "atCheckOut a = None" "end_in_force db a = Some e"
  obtains w where "workflow_of (scheduleForAssignment db (atId a) k) (atId a) = Some w" "wfEffectiveEnd w = e"
    "wfState w = WF_ACTIVE \<or> wfState w = OVERTIME_APPROVED"
proof (cases "workflow_of db (atId a)")
  case None
  then have e: "scheduled_end_of a = Some e" using assms(4) by (simp add: end_in_force_def)
  have "adWorkflows (scheduleForAssignment db (atId a) k) = adWorkflows db @ [new_workflow (atId a) e]"
    using assms(1-3) e None by (simp add: scheduleForAssignment_def Let_def)
  then have "workflow_of (scheduleForAssignment db (atId a) k) (atId a) = Some (new_workflow (atId a) e)"
    using None by (simp add: workflow_of_def find_append_new new_workflow_def)
  then show thesis by (rule that) (simp_all add: new_workflow_def)
next
  case (Some w)
  then have w: "wfEffectiveEnd w = e" "wfState w = WF_ACTIVE \<or> wfState w = OVERTIME_APPROVED"
    using assms(4) by (simp_all add: end_in_force_def split: if_splits)
  have "workflow_of (scheduleForAssignment db (atId a) k) (atId a) = Some w"
    using schedule_workflows [of db "atId a" k] Some by (auto simp: workflow_of_def)
  then show thesis using w by (rule that)
qed

lemma auto_closes:
  "autoCheckout db i e pendingDue known now = Some db' \<Longrightarrow> \<exists>a'. row_of db' i = Some a' \<and> atCheckOut a' = Some now"
  by (auto simp: autoCheckout_def Let_def row_of_set_row split: option.splits if_splits)

lemma turn_closes:
  assumes ok: "attendance_ok db" and a: "row_of db (atId a) = Some a" "atCheckIn a \<noteq> None" "atCheckOut a = None"
    and due: "end_in_force db a = Some e" "e + lateCheckoutMinutes (rulesFor db (atStore a)) * 60000 \<le> now"
    and over: "overtime_over db (atId a) e (lateCheckoutMinutes (rulesFor db (atStore a))) now"
  shows "\<exists>a'. row_of (reconcile_one now db a) (atId a) = Some a' \<and> atCheckOut a' \<noteq> None"
proof -
  let ?rules = "rulesFor db (atStore a)"
  let ?db = "scheduleForAssignment db (atId a) (Some ?rules)"
  obtain w where w: "workflow_of ?db (atId a) = Some w" "wfEffectiveEnd w = e" "wfState w = WF_ACTIVE \<or> wfState w = OVERTIME_APPROVED"
    by (rule workflow_after_schedule [OF a due(1)])
  define chained where "chained = (if wfState w = WF_ACTIVE \<and> now \<ge> wfEffectiveEnd w then chainIntoNextShift ?db (atId a) (Some ?rules) now else None)"
  have turn: "reconcile_one now db a = (case chained of Some db' \<Rightarrow> db'
      | None \<Rightarrow> given_or ?db (autoCheckout ?db (atId a) e False (Some ?rules) now))"
    using w due(2) by (simp add: reconcile_one_def Let_def chained_def split: option.splits)
  show ?thesis
  proof (cases chained)
    case (Some db')
    then have c: "chainIntoNextShift ?db (atId a) (Some ?rules) now = Some db'" by (simp add: chained_def split: if_splits)
    have "attendance_ok ?db" using ok same_rows_ok [of ?db db] by simp
    from chain_hands_over [OF this c] show ?thesis using turn Some by auto
  next
    case None
    have "live_overtime ?db (atId a) = live_overtime db (atId a)" by (simp add: live_overtime_def)
    then have "\<exists>v. overtime_verdict False now e (lateCheckoutMinutes ?rules) [] None (live_overtime ?db (atId a)) = Some v"
      using verdict_when_over [OF over [unfolded overtime_over_def]] by simp
    moreover have "atStatus a = CONFIRMED" using known_row [OF ok a(1)] a(2,3) by (simp add: row_ok_def)
    ultimately obtain db' where c: "autoCheckout ?db (atId a) e False (Some ?rules) now = Some db'"
      using a by (auto simp: autoCheckout_def Let_def given_or_def)
    from auto_closes [OF c] show ?thesis using turn None c by (auto simp: given_or_def)
  qed
qed

lemma turns_before:
  assumes "\<forall>b \<in> set xs. atId b \<noteq> i" "attendance_ok db" "row_of db i = Some r" "atCheckIn r \<noteq> None"
    "\<forall>q \<in> set (live_overtime db i). otStatus q \<noteq> REQUEST_PENDING"
  shows "attendance_ok (foldl (reconcile_one now) db xs) \<and> undisturbed i db (foldl (reconcile_one now) db xs)"
  using assms
proof (induction xs arbitrary: db)
  case Nil
  then show ?case by (simp add: undisturbed_refl)
next
  case (Cons b xs)
  let ?db = "reconcile_one now db b"
  have u: "undisturbed i db ?db" using Cons.prems by (intro turn_frame [where r = r]) auto
  then have "attendance_ok (foldl (reconcile_one now) ?db xs) \<and> undisturbed i ?db (foldl (reconcile_one now) ?db xs)"
    using Cons.prems turn_keeps [OF Cons.prems(2)] by (intro Cons.IH) (simp_all add: undisturbed_def)
  then show ?case using undisturbed_trans [OF u] by simp
qed

text \<open>The loop of the reconciliation.\<close>

interpretation turns: kept "\<lambda>db db'. \<exists>now a. db' = reconcile_one now db a" attendance_ok times_stay
  by unfold_locales (use turn_keeps in blast, auto intro: times_stay_refl times_stay_trans)

lemma turns_after:
  "attendance_ok db \<Longrightarrow> attendance_ok (foldl (reconcile_one now) db xs) \<and> times_stay db (foldl (reconcile_one now) db xs)"
  by (rule turns.fold_keeps) blast+

lemma checked_out_stays:
  assumes "attendance_ok db'" "times_stay db db'" "row_of db i = Some m" "atCheckOut m \<noteq> None"
  shows "\<exists>a'. row_of db' i = Some a' \<and> atCheckOut a' \<noteq> None"
proof -
  obtain a' where "a' \<in> set (adRows db')" "atId a' = i" "atCheckOut a' = atCheckOut m"
    using assms(2,4) row_of_Some [OF assms(3)] unfolding times_stay_def by blast
  then show ?thesis using assms(1,4) row_of_iff [of db'] by (auto simp: attendance_ok_def)
qed

lemma same_end_in_force: "undisturbed (atId a) db db' \<Longrightarrow> end_in_force db' a = end_in_force db a"
  by (simp add: undisturbed_def end_in_force_def)

text \<open>C8. A shift that was checked into and not out is closed by the next reconciliation once the end in force and the grace after it
  are over and no overtime request of it waits or still runs, whatever the reconciliation does for the other open shifts, before it
  and after it.\<close>

theorem forgotten_shift_is_closed:
  assumes "attendance_ok db" "row_of db i = Some a" "atCheckIn a \<noteq> None" "end_in_force db a = Some e"
    "e + lateCheckoutMinutes (rulesFor db (atStore a)) * 60000 \<le> now"
    "overtime_over db i e (lateCheckoutMinutes (rulesFor db (atStore a))) now"
  shows "\<exists>a'. row_of (reconcileActiveAssignments db now) i = Some a' \<and> atCheckOut a' \<noteq> None \<and> atStatus a' = COMPLETED"
proof -
  have i: "atId a = i" "a \<in> set (adRows db)" using row_of_Some [OF assms(2)] by simp_all
  let ?last = "reconcileActiveAssignments db now"
  have "attendance_ok ?last \<and> (\<exists>a'. row_of ?last i = Some a' \<and> atCheckOut a' \<noteq> None)"
  proof (cases "atCheckOut a")
    case None
    then have "a \<in> set (filter open_row (adRows db))"
      using i known_row [OF assms(1,2)] assms(3) by (auto simp: open_row_def row_ok_def)
    then obtain xs ys where l: "filter open_row (adRows db) = xs @ a # ys" by (blast dest: split_list)
    have "distinct (map atId (filter open_row (adRows db)))"
      using assms(1) by (simp add: attendance_ok_def ids_distinct_def distinct_map_filter)
    then have "\<forall>b \<in> set xs. atId b \<noteq> i" unfolding l using i(1) by (auto simp: image_iff)
    moreover have "\<forall>q \<in> set (live_overtime db i). otStatus q \<noteq> REQUEST_PENDING" using assms(6) by (simp add: overtime_over_def)
    ultimately have mid: "attendance_ok (foldl (reconcile_one now) db xs)" "undisturbed i db (foldl (reconcile_one now) db xs)" 
      using turns_before assms(1-3) by blast+
    let ?mid = "foldl (reconcile_one now) db xs"
    have rules: "rulesFor ?mid (atStore a) = rulesFor db (atStore a)" using mid(2) by (simp add: rulesFor_def undisturbed_def)
    have "\<exists>a'. row_of (reconcile_one now ?mid a) (atId a) = Some a' \<and> atCheckOut a' \<noteq> None"
    proof (rule turn_closes [OF mid(1)])
      show "row_of ?mid (atId a) = Some a" using mid(2) assms(2) i(1) by (simp add: undisturbed_def)
      show "end_in_force ?mid a = Some e" using same_end_in_force mid(2) assms(4) i(1) by simp
      show "overtime_over ?mid (atId a) e (lateCheckoutMinutes (rulesFor ?mid (atStore a))) now"
        using assms(6) mid(2) i(1) by (simp add: rules overtime_over_def undisturbed_def)
    qed (use assms(3,5) None rules in simp_all)
    then obtain m where m: "row_of (reconcile_one now ?mid a) i = Some m" "atCheckOut m \<noteq> None" using i(1) by blast
    have ok: "attendance_ok (reconcile_one now ?mid a)" using turn_keeps [OF mid(1)] by simp
    have e: "?last = foldl (reconcile_one now) (reconcile_one now ?mid a) ys" by (simp add: reconcileActiveAssignments_def l)
    have "attendance_ok ?last" "times_stay (reconcile_one now ?mid a) ?last" using turns_after [OF ok] e by simp_all
    then show ?thesis using checked_out_stays [OF _ _ m] by blast
  next
    case (Some t)
    have "attendance_ok ?last" "times_stay db ?last" using turns_after [OF assms(1)] by (simp_all add: reconcileActiveAssignments_def)
    then show ?thesis using checked_out_stays [OF _ _ assms(2)] Some by blast
  qed
  then show ?thesis using known_row by (auto simp: row_ok_def)
qed

section \<open>A morning and an afternoon\<close>

definition plain_row :: "string \<Rightarrow> assignment_status \<Rightarrow> instant option \<Rightarrow> instant \<Rightarrow> instant \<Rightarrow> attendance_row" where
  "plain_row i status checkIn s e = \<lparr> atId = i, atEmployee = ''emp'', atProfile = None, atStore = Some ''st'',
     atSlot = Some \<lparr> slotWorkDate = WStr (day_string 20000), slotStartTime = None, slotEndTime = None, slotWorkShift = None \<rparr>,
     atStatus = status, atCheckIn = checkIn, atCheckOut = None, atLate = None, atEarly = None, atWorked = None, atAttendance = None,
     atAdjustedStart = Some s, atAdjustedEnd = Some e, atAuto = False, atAutoReason = None, atScheduledCheckout = None,
     atSlotId = i, atLateRequest = None, atEarlyRequest = None \<rparr>"

definition morning :: attendance_row where "morning = plain_row ''m'' CONFIRMED (Some 100) 0 3600000"
definition afternoon :: attendance_row where "afternoon = plain_row ''n'' APPROVED None 3600000 7200000"

definition day_db :: attendance_db where
  "day_db = \<lparr> adRows = [morning, afternoon], adOvertime = [], adWorkflows = [new_workflow ''m'' 3600000],
     adLogs = [\<lparr> lgAssignment = ''m'', lgEmployee = ''emp'', lgStore = ''st'', lgType = CHECK_IN, lgAt = 100, lgMethod = BY_FACE \<rparr>],
     adLeaves = [], adCounting = (\<lambda>_. []),
     adPolicy = \<lparr> ptSettings = (\<lambda>_. None), ptRequirements = (\<lambda>_. None), ptLocations = (\<lambda>_. None) \<rparr>, adJobs = [] \<rparr>"

lemmas day_defs = day_db_def morning_def afternoon_def plain_row_def

lemma day_db_ok: "attendance_ok day_db"
  by (simp add: attendance_ok_def ids_distinct_def row_ok_def log_ok_def logged_times_def times_list_def day_defs)

lemma day_windows: "winStart (row_window morning) = Some 0" "winEnd (row_window morning) = Some 3600000"
    "winStart (row_window afternoon) = Some 3600000" "winEnd (row_window afternoon) = Some 7200000"
  by (simp_all add: day_defs row_window_def effectiveWindowOf_def resolveEffectiveShiftWindow_def resolveShiftBoundaries_def toInstant_def
      date_of_def nonempty_def str_or_def split: prod.splits)

lemma day_rows: "row_of day_db ''m'' = Some morning" "row_of day_db ''n'' = Some afternoon"
  by (simp_all add: row_of_def day_defs)

lemma day_known: "full_day 20000" "full_day 20001"
  by code_simp+

lemma day_text: "length (day_string 20000) = 10"
  using day_known by (intro length_civil_string) (auto simp: full_day_def)

lemma day_dates: "work_date_string (slot_work_date (atSlot morning)) = Some (day_string 20000)"
    "work_date_string (slot_work_date (atSlot afternoon)) = Some (day_string 20000)"
  using day_text by (simp_all add: day_defs slot_work_date_def) auto

lemma day_next: "findChainedNextAssignment day_db morning (Some 3600000) = Inr (Some afternoon)"
proof -
  have "adRows day_db = [morning, afternoon]" "adLeaves day_db = []" by (simp_all add: day_db_def)
  moreover have "nonempty (atStore morning) = Some ''st''" "chain_candidate morning ''st'' [day_string 20000, day_string 20001] afternoon"
      "\<not> chain_candidate morning ''st'' [day_string 20000, day_string 20001] morning"
    by (simp_all add: chain_candidate_def day_dates) (simp_all add: day_defs nonempty_def)
  ultimately show ?thesis
    using addDays_date_day [of 20000 1] day_known
    by (simp add: findChainedNextAssignment_def day_dates day_windows approvedLeaveCoversShiftSql_def)
qed

lemma day_chains: "\<exists>db'. chainIntoNextShift day_db ''m'' None 3600000 = Some db'"
proof -
  have "may_chain_into morning afternoon afternoon 3600000"
    by (simp add: may_chain_into_def day_windows) (simp add: day_defs)
  moreover have "live_overtime day_db ''m'' = []" "atId afternoon = ''n''" "atCheckIn morning = Some 100" "atCheckOut morning = None"
      "atStatus morning = CONFIRMED"
    by (simp_all add: day_defs live_overtime_def)
  ultimately show ?thesis by (simp add: chainIntoNextShift_def day_rows day_windows day_next Let_def)
qed

theorem attendance_is_logged_once_witness:
  "\<exists>db' a. attendance_step\<^sup>*\<^sup>* day_db db' \<and> row_of db' ''m'' = Some a \<and> atCheckOut a = Some 3600000 \<and>
    logged_times db' ''m'' CHECK_IN = [100] \<and> logged_times db' ''m'' CHECK_OUT = [3600000]"
proof -
  obtain db' where c: "chainIntoNextShift day_db ''m'' None 3600000 = Some db'" using day_chains by blast
  then have s: "attendance_step\<^sup>*\<^sup>* day_db db'" by (intro r_into_rtranclp chain_step)
  from chain_hands_over [OF day_db_ok c] obtain a where a: "row_of db' ''m'' = Some a" "atCheckOut a = Some 3600000"
    by (auto simp: day_rows day_windows)
  obtain a' where "row_of db' ''m'' = Some a'" "atCheckIn morning \<noteq> None \<longrightarrow> atCheckIn a' = atCheckIn morning"
    by (rule kept_row [OF s day_db_ok day_rows(1)])
  then have "atCheckIn a = Some 100" using a(1) by (simp add: day_defs)
  then show ?thesis
    using s a attendance_is_logged_once [OF s day_db_ok a(1)] by (auto simp: times_list_def)
qed

theorem repeated_attendance_changes_nothing_witness:
  "(\<exists>db1 answer again. check_in_tx day_db afternoon DEFAULT_ATTENDANCE_RULES False 3600000 = Inr (db1, answer) \<and>
      check_in_tx db1 afternoon DEFAULT_ATTENDANCE_RULES True 3700000 = Inr (db1, again) \<and> anAlready again \<and> anTime again = Some 3600000) \<and>
   (\<exists>db1 answer again. check_out_tx day_db morning DEFAULT_ATTENDANCE_RULES None SHIFT_MODE False 3600000 = Inr (db1, answer) \<and>
      check_out_tx db1 morning DEFAULT_ATTENDANCE_RULES None SHIFT_MODE True 3700000 = Inr (db1, again) \<and> anAlready again \<and> anTime again = Some 3600000)"
proof -
  have ids: "atId afternoon = ''n''" "atId morning = ''m''" "may_check_in afternoon" "may_check_out morning"
    by (simp_all add: day_defs may_check_in_def may_check_out_def)
  obtain db1 answer where tx: "check_in_tx day_db afternoon DEFAULT_ATTENDANCE_RULES False 3600000 = Inr (db1, answer)" "anTime answer = Some 3600000"
    by (simp add: check_in_tx_def Let_def ids day_rows)
  obtain db2 answer2 where tx2: "check_out_tx day_db morning DEFAULT_ATTENDANCE_RULES None SHIFT_MODE False 3600000 = Inr (db2, answer2)"
      "anTime answer2 = Some 3600000"
    by (simp add: check_out_tx_def Let_def ids day_rows)
  show ?thesis
    using repeated_attendance_changes_nothing [OF day_db_ok rtranclp.rtrancl_refl [of attendance_step db1], THEN conjunct1, rule_format, OF tx(1)]
      repeated_attendance_changes_nothing [OF day_db_ok rtranclp.rtrancl_refl [of attendance_step db2], THEN conjunct2, rule_format, OF tx2(1)]
      tx tx2 by (intro conjI) metis+
qed

theorem chain_hands_over_at_the_boundary_witness:
  "\<exists>db' a' c'. chainIntoNextShift day_db ''m'' None 3600000 = Some db' \<and> row_of db' ''m'' = Some a' \<and> atCheckOut a' = Some 3600000 \<and>
    row_of db' ''n'' = Some c' \<and> atCheckIn c' = Some 3600000"
proof -
  obtain db' where c: "chainIntoNextShift day_db ''m'' None 3600000 = Some db'" using day_chains by blast
  from chain_hands_over_at_the_boundary [OF day_db_ok c] obtain n a' c' where
    n: "row_of day_db (atId n) = Some n" "atId n \<noteq> ''m''" and r: "row_of db' ''m'' = Some a'" "atCheckOut a' = Some 3600000"
      "row_of db' (atId n) = Some c'" "atCheckIn c' = Some 3600000"
    by (auto simp: day_rows day_windows)
  have "atId n = ''n''" using row_of_Some [OF n(1)] n(2) by (auto simp: day_defs)
  then show ?thesis using c r by auto
qed

theorem forgotten_shift_is_closed_witness:
  "\<exists>a'. row_of (reconcileActiveAssignments day_db 4500000) ''m'' = Some a' \<and> atCheckOut a' \<noteq> None \<and> atStatus a' = COMPLETED"
proof (rule forgotten_shift_is_closed [OF day_db_ok day_rows(1), where e = 3600000])
  show "atCheckIn morning \<noteq> None" by (simp add: day_defs)
  show "end_in_force day_db morning = Some 3600000" by (simp add: end_in_force_def workflow_of_def day_defs new_workflow_def)
  show "3600000 + lateCheckoutMinutes (rulesFor day_db (atStore morning)) * 60000 \<le> 4500000"
    by (simp add: day_defs rulesFor_def nonempty_def resolveAttendanceRules_def DEFAULT_ATTENDANCE_RULES_def)
  show "overtime_over day_db ''m'' 3600000 (lateCheckoutMinutes (rulesFor day_db (atStore morning))) 4500000"
    by (simp add: overtime_over_def live_overtime_def day_defs)
qed

section \<open>A confirmation without a check-in\<close>

text \<open>The owner may move an assignment from APPROVED to CONFIRMED before it starts. Nothing in the day's course can then act on it: the
  check-in is refused, and neither is it closed, nor chained, nor marked absent.\<close>

lemma confirmed_without_check_in_is_stuck:
  assumes "attendance_ok db" "row_of db i = Some a" "atStatus a = CONFIRMED" "atCheckIn a = None"
  shows "\<nexists>r. check_in_context d v db i account options faceless now = Inr r" "check_in_tx db a rules faceless now = Inl UnableToCheckIn"
    "check_out_tx db a rules paidUntil mode faceless now = Inl UnableToCheckOut" "autoCheckout db i e due known now = None"
    "chainIntoNextShift db i known now = None" "row_of (reconcileUnstartedAssignments db now) i = Some a"
proof -
  have i: "atId a = i" "a \<in> set (adRows db)" using row_of_Some [OF assms(2)] by simp_all
  have out: "atCheckOut a = None" using known_row [OF assms(1,2)] assms(4) by (auto simp: row_ok_def)
  show "\<nexists>r. check_in_context d v db i account options faceless now = Inr r"
    using assms(2-4) by (auto simp: check_in_context_def and_then_Inr_iff fail_if_def)
  show "check_in_tx db a rules faceless now = Inl UnableToCheckIn" "check_out_tx db a rules paidUntil mode faceless now = Inl UnableToCheckOut"
    using assms(2-4) i out by (simp_all add: check_in_tx_def check_out_tx_def may_check_in_def may_check_out_def Let_def)
  show "autoCheckout db i e due known now = None" "chainIntoNextShift db i known now = None"
    using assms(2-4) by (simp_all add: autoCheckout_def chainIntoNextShift_def)
  have "mark_absent_row db now a = a" using assms(3) by (simp add: mark_absent_row_def Let_def split: option.splits)
  then have "a \<in> set (adRows (reconcileUnstartedAssignments db now))"
    using i(2) by (force simp: reconcileUnstartedAssignments_def)
  then show "row_of (reconcileUnstartedAssignments db now) i = Some a"
    using absent_keeps [OF assms(1)] row_of_iff i(1) by (simp add: attendance_ok_def)
qed

end
