(* ===== verification/RequestSafety.thy ===== *)
theory RequestSafety
  imports HoursRequests Histories AttendanceSafety
begin

text \<open>
  What the requests for overtime, changed hours and forgotten hours guarantee: at most one overtime request of a shift is alive over any
  history, its stored clock times read back to the instant asked for, the end of a shift is not enforced while approved overtime runs,
  a credited claim only widens what was recorded, and an approved change of hours stays within the shift.
\<close>

section \<open>One live overtime request per shift\<close>

definition counts :: "overtime_row \<Rightarrow> bool" where
  "counts r \<longleftrightarrow> otStatus r = REQUEST_PENDING \<or> otStatus r = REQUEST_APPROVED"

lemma live_overtime_counts: "live_overtime b i = filter (\<lambda>r. otAssignment r = Some i \<and> counts r) (adOvertime b)"
  by (simp add: live_overtime_def counts_def)

text \<open>The steps of the program on requests. What a decision read before its write, it may have read at any time (\<open>db0\<close>). Elsewhere the
  overtime requests stay as they are or a pending one expires.\<close>

definition may_expire :: "overtime_row \<Rightarrow> overtime_row \<Rightarrow> bool" where
  "may_expire r r' \<longleftrightarrow> r' = r \<or> otId r' = otId r \<and> otAssignment r' = otAssignment r \<and> \<not> counts r'"

inductive request_step :: "request_db \<Rightarrow> request_db \<Rightarrow> bool" where
  asked: "newId \<notin> otId ` set (adOvertime (rqBooks db)) \<Longrightarrow> createBonusWorkRequest db0 db d newId now = Inr (db', r) \<Longrightarrow> request_step db db'"
| approved: "approveBonusWorkRequest db0 db i account now = Inr (db', r) \<Longrightarrow> request_step db db'"
| rejected: "rejectBonusWorkRequest db0 db i account reason now = Inr (db', r) \<Longrightarrow> request_step db db'"
| cancelled: "cancelBonusWorkRequest db0 db i account now = Inr (db', r) \<Longrightarrow> request_step db db'"
| leave_sent: "createLeaveRequest isUUID db0 db storeId d account newId now = Inr (db', l) \<Longrightarrow> request_step db db'"
| leave_cancelled: "cancelLeaveRequest db0 db i account = Inr db' \<Longrightarrow> request_step db db'"
| leave_decided: "leave_context db0 account i = Inr l \<Longrightarrow> decide_leave_tx db l approve account now = Inr (db', c) \<Longrightarrow> request_step db db'"
| elsewhere: "list_all2 may_expire (adOvertime (rqBooks db)) (adOvertime (rqBooks db')) \<Longrightarrow> request_step db db'"

definition one_live :: "request_db \<Rightarrow> bool" where
  "one_live db \<longleftrightarrow> (\<forall>i. length (live_overtime (rqBooks db) i) \<le> 1)"

text \<open>A request that is refused, withdrawn or expired.\<close>

definition buried :: "request_db \<Rightarrow> string \<Rightarrow> bool" where
  "buried db i \<longleftrightarrow> i \<in> otId ` set (adOvertime (rqBooks db)) \<and> (\<forall>r \<in> set (adOvertime (rqBooks db)). otId r = i \<longrightarrow> \<not> counts r)"

definition stay_buried :: "request_db \<Rightarrow> request_db \<Rightarrow> bool" where
  "stay_buried db db' \<longleftrightarrow> (\<forall>i. buried db i \<longrightarrow> buried db' i)"

text \<open>No request comes to count by the change.\<close>

definition only_fewer :: "overtime_row \<Rightarrow> overtime_row \<Rightarrow> bool" where
  "only_fewer r r' \<longleftrightarrow> otId r' = otId r \<and> (counts r' \<longrightarrow> counts r \<and> otAssignment r' = otAssignment r)"

lemma filter_fewer: "list_all2 (\<lambda>x y. Q y \<longrightarrow> P x) xs ys \<Longrightarrow> length (filter Q ys) \<le> length (filter P xs)"
  by (induction xs ys rule: list_all2_induct) auto

lemma list_all2_right: "list_all2 P xs ys \<Longrightarrow> y \<in> set ys \<Longrightarrow> \<exists>x \<in> set xs. P x y"
  by (induction xs ys rule: list_all2_induct) auto

lemma fewer_ids: "list_all2 only_fewer xs ys \<Longrightarrow> map otId ys = map otId xs"
  by (induction xs ys rule: list_all2_induct) (simp_all add: only_fewer_def)

lemma fewer_keeps:
  assumes "list_all2 only_fewer (adOvertime (rqBooks db)) (adOvertime (rqBooks db'))" "one_live db"
  shows "one_live db' \<and> stay_buried db db'"
proof -
  let ?xs = "adOvertime (rqBooks db)" and ?ys = "adOvertime (rqBooks db')"
  have "length (live_overtime (rqBooks db') i) \<le> length (live_overtime (rqBooks db) i)" for i
    unfolding live_overtime_counts by (rule filter_fewer, rule list_all2_mono [OF assms(1)]) (auto simp: only_fewer_def)
  then have "one_live db'" using assms(2) le_trans unfolding one_live_def by blast
  moreover have "map otId ?ys = map otId ?xs"
    by (rule fewer_ids [OF assms(1)])
  moreover have "\<not> counts r'" if "buried db i" "r' \<in> set ?ys" "otId r' = i" for i r'
  proof -
    have "\<exists>r \<in> set ?xs. only_fewer r r'" using list_all2_right [OF assms(1) that(2)] .
    then show ?thesis using that unfolding buried_def only_fewer_def by metis
  qed
  ultimately show ?thesis unfolding stay_buried_def buried_def by (metis list.set_map)
qed

lemma only_fewer_refl: "only_fewer r r"
  by (simp add: only_fewer_def)

lemma no_fewer: "list_all2 only_fewer rs rs"
  by (simp add: list_all2_refl only_fewer_refl)

lemma fewer_map: "(\<And>r. hit r \<Longrightarrow> only_fewer r (f r)) \<Longrightarrow> list_all2 only_fewer rs (map (\<lambda>r. if hit r then f r else r) rs)"
  by (simp add: list_all2_conv_all_nth only_fewer_refl)

lemma overtime_books [simp]: "rqBooks (set_books f db) = f (rqBooks db)"
  by (simp add: set_books_def)

lemma overtime_reprice [simp]: "adOvertime (repriceCheckedOutOvertime b1 r b2) = adOvertime b2"
  by (simp add: repriceCheckedOutOvertime_def split: option.split)

lemma overtime_set_row [simp]: "adOvertime (set_row b i f) = adOvertime b"
  by (simp add: set_row_def)

text \<open>Each step only lets requests count no more, or adds one for a shift that has none.\<close>

lemma decided_fewer:
  assumes "decideBonusWorkRequest db r decided changes now = Inr (db', saved)" "decided = REQUEST_APPROVED \<or> decided = REQUEST_REJECTED"
    "\<And>x. otId (changes x) = otId x \<and> otAssignment (changes x) = otAssignment x"
  shows "list_all2 only_fewer (adOvertime (rqBooks db)) (adOvertime (rqBooks db'))"
proof -
  have "decided = REQUEST_APPROVED \<Longrightarrow> otStatus r = REQUEST_PENDING"
    using assms(1) by (auto simp: decideBonusWorkRequest_def and_then_Inr_iff)
  then show ?thesis
    using assms by (auto simp: decideBonusWorkRequest_def and_then_Inr_iff Let_def set_overtime_def only_fewer_def counts_def intro!: fewer_map)
qed

lemma approved_fewer:
  assumes "approveBonusWorkRequest db0 db i account now = Inr (db', saved)"
  shows "list_all2 only_fewer (adOvertime (rqBooks db)) (adOvertime (rqBooks db'))"
proof -
  obtain r approver where r: "(if nonempty (otAssignment r) = None then approveWorkSupplement db0 db r approver now
      else approve_overtime_tx db r approver now) = Inr (db', saved)"
    using assms unfolding approveBonusWorkRequest_def and_then_Inr_iff split_paired_Ex prod.case by blast
  show ?thesis
  proof (cases "nonempty (otAssignment r) = None")
    case True
    then show ?thesis using r
      by (auto simp: approveWorkSupplement_def supplement_tx_def and_then_Inr_iff Let_def set_overtime_def only_fewer_def counts_def
          split: option.splits intro!: fewer_map)
  next
    case False
    then obtain d where "decideBonusWorkRequest db r REQUEST_APPROVED (\<lambda>x. x\<lparr>otApprovedBy := approver\<rparr>) now = Inr (d, saved)"
        "adOvertime (rqBooks db') = adOvertime (rqBooks d)"
      using r by (auto simp: approve_overtime_tx_def and_then_Inr_iff)
    then show ?thesis using decided_fewer by fastforce
  qed
qed

lemma rejected_fewer:
  assumes "rejectBonusWorkRequest db0 db i account reason now = Inr (db', saved)"
  shows "list_all2 only_fewer (adOvertime (rqBooks db)) (adOvertime (rqBooks db'))"
proof -
  obtain r approver d where
      "decideBonusWorkRequest db r REQUEST_REJECTED (\<lambda>x. x\<lparr>otApprovedBy := approver, otNote := reason\<rparr>) now = Inr (d, saved)"
      "adOvertime (rqBooks db') = adOvertime (rqBooks d)"
    using assms by (auto simp: rejectBonusWorkRequest_def and_then_Inr_iff)
  then show ?thesis using decided_fewer by fastforce
qed

lemma cancelled_fewer:
  assumes "cancelBonusWorkRequest db0 db i account now = Inr (db', saved)"
  shows "list_all2 only_fewer (adOvertime (rqBooks db)) (adOvertime (rqBooks db'))"
proof -
  obtain r where r: "overtime_of db0 i = Some r"
      "adOvertime (rqBooks db') = map (\<lambda>x. if otId x = i then r\<lparr>otStatus := REQUEST_CANCELLED, otUpdated := now\<rparr> else x) (adOvertime (rqBooks db))"
    using assms by (auto simp: cancelBonusWorkRequest_def and_then_Inr_iff set_overtime_def split: option.splits)
  have "otId r = i" using find_Some_in [OF r(1) [unfolded overtime_of_def]] by simp
  then show ?thesis unfolding r(2) by (intro fewer_map) (simp add: only_fewer_def counts_def)
qed

lemma set_leave_overtime [simp]: "adOvertime (rqBooks (set_leave hit f db)) = adOvertime (rqBooks db)"
  by (simp add: set_leave_def)

lemma leave_overtime:
  "createLeaveRequest isUUID db0 db storeId d account newId now = Inr (db', l) \<Longrightarrow> adOvertime (rqBooks db') = adOvertime (rqBooks db)"
  "cancelLeaveRequest db0 db i account = Inr db' \<Longrightarrow> adOvertime (rqBooks db') = adOvertime (rqBooks db)"
  by (auto simp: createLeaveRequest_def create_leave_tx_def cancelLeaveRequest_def and_then_Inr_iff Let_def split: option.splits)

lemma change_overtime: "applyApprovedShiftChange db l now = Some (db', c) \<Longrightarrow> adOvertime (rqBooks db') = adOvertime (rqBooks db)"
  by (auto simp: applyApprovedShiftChange_def Let_def split: option.splits prod.splits if_splits)

lemma decided_leave_overtime: "decide_leave_tx db l approve account now = Inr (db', c) \<Longrightarrow> adOvertime (rqBooks db') = adOvertime (rqBooks db)"
  by (auto simp: decide_leave_tx_def Let_def and_then_Inr_iff dest!: change_overtime split: option.splits if_splits)

lemma asked_keeps:
  assumes "newId \<notin> otId ` set (adOvertime (rqBooks db))" "createBonusWorkRequest db0 db d newId now = Inr (db', r)" "one_live db"
  shows "one_live db' \<and> stay_buried db db'"
proof -
  have added: "adOvertime (rqBooks db') = adOvertime (rqBooks db) @ [r] \<and> otId r = newId \<and>
      (\<forall>i. otAssignment r = Some i \<longrightarrow> live_overtime (rqBooks db) i = [])"
    using assms(2)
    by (auto simp: createBonusWorkRequest_def link_tx_def Let_def and_then_Inr_iff add_overtime_def unlinked_request_def linked_request_def
        dest!: find_Some_in split: option.splits sum.splits if_splits)
  have "length (live_overtime (rqBooks db') i) \<le> 1" for i
    using added assms(3) by (auto simp: live_overtime_counts one_live_def)
  moreover have "buried db' i" if "buried db i" for i
    using that added assms(1) by (auto simp: buried_def)
  ultimately show ?thesis by (simp add: one_live_def stay_buried_def)
qed

lemma request_step_keeps: "request_step db db' \<Longrightarrow> one_live db \<Longrightarrow> one_live db' \<and> stay_buried db db'"
proof (induction rule: request_step.induct)
  case (asked newId db db0 d now db' r)
  then show ?case by (rule asked_keeps)
next
  case (approved db0 db i account now db' r)
  then show ?case by (intro fewer_keeps approved_fewer)
next
  case (rejected db0 db i account reason now db' r)
  then show ?case by (intro fewer_keeps rejected_fewer)
next
  case (cancelled db0 db i account now db' r)
  then show ?case by (intro fewer_keeps cancelled_fewer)
next
  case (leave_sent isUUID db0 db storeId d account newId now db' l)
  then show ?case by (intro fewer_keeps) (simp_all add: leave_overtime(1) no_fewer)
next
  case (leave_cancelled db0 db i account db')
  then show ?case by (intro fewer_keeps) (simp_all add: leave_overtime(2) no_fewer)
next
  case (leave_decided db0 account i l db approve now db' c)
  then show ?case by (intro fewer_keeps) (simp_all add: decided_leave_overtime no_fewer)
next
  case (elsewhere db db')
  have "only_fewer r r'" if "may_expire r r'" for r r' using that by (auto simp: may_expire_def only_fewer_def)
  then show ?case using elsewhere by (intro fewer_keeps) (auto elim: list_all2_mono)
qed

interpretation requests: kept request_step one_live stay_buried
  by unfold_locales (rule request_step_keeps, auto simp: stay_buried_def)

text \<open>C10. Over any history of requests for overtime, claims, leave, late arrivals and early leaves with their decisions, withdrawals and
  expiries, each decided on what may have been read at any earlier time, a shift has at most one overtime request that waits or is
  approved, and a request once refused, withdrawn or expired never counts again.\<close>

theorem one_overtime_per_shift:
  assumes "request_step\<^sup>*\<^sup>* db db'" "one_live db"
  shows "length (live_overtime (rqBooks db') i) \<le> 1 \<and>
    (buried db k \<and> overtime_of db' k = Some r \<longrightarrow> otStatus r = REQUEST_REJECTED \<or> otStatus r = REQUEST_CANCELLED)"
proof -
  have "one_live db'" "stay_buried db db'" using requests.history_keeps [OF assms] by simp_all
  moreover have "otStatus r = REQUEST_REJECTED \<or> otStatus r = REQUEST_CANCELLED" if "buried db' k" "overtime_of db' k = Some r"
    using that find_Some_in [of "\<lambda>r. otId r = k" "adOvertime (rqBooks db')" r]
    by (cases "otStatus r") (auto simp: buried_def counts_def overtime_of_def)
  ultimately show ?thesis unfolding one_live_def stay_buried_def by blast
qed

section \<open>The stored end of overtime\<close>

lemma clock_to_the_minute:
  assumes "clock_ok c"
  shows "clock_ok (take 5 c @ '':00'')" "clock_ms (take 5 c @ '':00'') = clock_ms c - clock_ms c mod 60000"
proof -
  obtain h mi sec where p: "hms_of c = (h, mi, sec)" by (cases "hms_of c") auto
  have c: "is_hms c" and r: "h \<le> 23" "mi \<le> 59" "sec \<le> 59" "0 \<le> h" "0 \<le> mi" "0 \<le> sec"
    using assms p hms_of_nonneg [OF p] by (auto simp: clock_ok_def)
  have "5 \<le> length c" using c by (auto simp: is_hms_def)
  then obtain c0 c1 c2 c3 c4 cs where cc: "c = c0 # c1 # c2 # c3 # c4 # cs" by (auto simp: Suc_le_length_iff numeral_eq_Suc)
  have q: "hms_of (take 5 c @ '':00'') = (h, mi, 0)" using p by (auto simp: hms_of_def cc numeral_eq_Suc digits_val_def digit_val_def)
  have "is_hms (take 5 c @ '':00'')" using c by (auto simp: is_hms_def cc numeral_eq_Suc is_digit_def)
  then show "clock_ok (take 5 c @ '':00'')" using q r by (simp add: clock_ok_def)
  have "clock_ms c mod 60000 = sec * 1000"
  proof -
    have "clock_ms c = sec * 1000 + (h * 60 + mi) * 60000" using p by (simp add: clock_ms_def)
    then have "clock_ms c mod 60000 = sec * 1000 mod 60000" by (simp only: mod_mult_self1)
    then show ?thesis using r by simp
  qed
  then show "clock_ms (take 5 c @ '':00'') = clock_ms c - clock_ms c mod 60000" using p q by (simp add: clock_ms_def)
qed

text \<open>An end clock on a date: that day, or the next when it is more than twelve hours before the end of the shift.\<close>

definition clock_on :: "int \<Rightarrow> string \<Rightarrow> instant \<Rightarrow> instant" where
  "clock_on n c e = (let t = n * DAY_MS + clock_ms c - VN_OFFSET_MS in if t < e - 12 * 3600000 then t + 86400000 else t)"

lemma overtime_end_on:
  assumes "four_digit_year n" "clock_ok c" "otDate r = Some (day_string n)" "otEnd r = Some c"
  shows "overtimeEndAt (Some r) (Some e) = Some (clock_on n c e)"
proof -
  have "length (day_string n) = 10" using assms(1) by (simp add: four_digit_year_def length_civil_string)
  then have d: "take 10 (day_string n) = day_string n" "day_string n \<noteq> []" by (simp, auto)
  have c: "take 8 c = c" "c \<noteq> []" using assms(2) by (auto simp: clock_ok_def is_hms_def)
  show ?thesis using assms d c by (simp add: overtimeEndAt_def nonempty_def toInstant_civil clock_on_def Let_def)
qed

lemma clock_on_text:
  assumes "four_digit_year n" "four_digit_year (n + 1)" "clock_ok c"
  shows "vnClockHHmm (clock_on n c e) = take 5 c"
proof -
  note r = clock_ms_range [OF assms(3)]
  have "vnClockHHmm (n * DAY_MS + clock_ms c - VN_OFFSET_MS) = take 5 c" 
    "vnClockHHmm ((n + 1) * DAY_MS + clock_ms c - VN_OFFSET_MS) = take 5 c"
    using vn_clock_of [OF assms(1), of "clock_ms c"] vn_clock_of [OF assms(2), of "clock_ms c"] r clock_string [OF assms(3)] by auto
  then show ?thesis by (auto simp: clock_on_def Let_def DAY_MS_def algebra_simps)
qed

lemma clock_on_minute:
  assumes "clock_ok c" "e < clock_on n c e" "e \<le> e'" "e' \<le> clock_on n c e"
  shows "clock_on n (take 5 c @ '':00'') e' = clock_on n c e - clock_on n c e mod 60000"
proof -
  let ?t = "n * DAY_MS + clock_ms c - VN_OFFSET_MS" and ?t' = "n * DAY_MS + (clock_ms c - clock_ms c mod 60000) - VN_OFFSET_MS"
  have m: "?t mod 60000 = clock_ms c mod 60000" "(?t + 86400000) mod 60000 = clock_ms c mod 60000"
  proof -
    have e: "?t = clock_ms c + (n * 1440 - 420) * 60000" "?t + 86400000 = clock_ms c + (n * 1440 + 1020) * 60000"
      by (simp_all add: DAY_MS_def VN_OFFSET_MS_def)
    show "?t mod 60000 = clock_ms c mod 60000" unfolding e(1) by (rule mod_mult_self1)
    show "(?t + 86400000) mod 60000 = clock_ms c mod 60000" unfolding e(2) by (rule mod_mult_self1)
  qed
  have b: "0 \<le> clock_ms c mod 60000" "clock_ms c mod 60000 < 60000" by simp_all
  show ?thesis
  proof (cases "?t < e - 12 * 3600000")
    case True
    then have "?t' < e' - 12 * 3600000" using assms(3) b by linarith
    then show ?thesis using True m by (simp add: clock_on_def Let_def clock_to_the_minute(2) [OF assms(1)])
  next
    case False
    then have "\<not> ?t' < e' - 12 * 3600000" using assms(2,4) b by (simp add: clock_on_def Let_def)
    then show ?thesis using False m by (simp add: clock_on_def Let_def clock_to_the_minute(2) [OF assms(1)])
  qed
qed

lemma link_tx_row:
  assumes "link_tx db d i newId now = Inr (db', r)"
  obtains a e t where "find (\<lambda>a. atId a = i \<and> atEmployee a = oiEmployee d) (adRows (rqBooks db)) = Some a"
    "winEnd (row_window a) = Some e" "asked_end a (oiEnd d) (Some e) = Some t" "e < t"
    "js_round (of_int (t - e) / 60000) \<le> of_int (max_overtime db (oiStore d))" "r = linked_request d a e t newId now"
  using assms by (auto simp: link_tx_def Let_def and_then_Inr_iff not_le not_less split: option.splits)

text \<open>C14. An overtime request accepted for a shift is stored as two clock times on the work date, and read back against any end
  from the end of the shift to the end asked for these times give the instant that was asked for, to the minute, also past
  midnight; it is after the end of the shift and not longer than the store allows.\<close>

theorem overtime_end_reads_back:
  assumes "link_tx db d i newId now = Inr (db', r)" "oiEnd d = Some c" "clock_ok c"
    and "find (\<lambda>a. atId a = i \<and> atEmployee a = oiEmployee d) (adRows (rqBooks db)) = Some a" "winEnd (row_window a) = Some e"
    and "row_date_text a = day_string n" "four_digit_year n" "four_digit_year (n + 1)"
  shows "\<exists>t. asked_end a (Some c) (Some e) = Some t \<and> e < t \<and> 2 * (t - e) < (2 * max_overtime db (oiStore d) + 1) * 60000 \<and>
    (\<forall>e'. e \<le> e' \<and> e' \<le> t \<longrightarrow> overtimeEndAt (Some r) (Some e') = Some (t - t mod 60000))"
proof -
  obtain t where t: "asked_end a (Some c) (Some e) = Some t" "e < t" "r = linked_request d a e t newId now"
      "js_round (of_int (t - e) / 60000) \<le> of_int (max_overtime db (oiStore d))"
    by (rule link_tx_row [OF assms(1)]) (use assms(2,4,5) in auto)
  have "take 8 c = c" using assms(3) by (auto simp: clock_ok_def is_hms_def)
  then have on: "t = clock_on n c e"
    using t(1) assms(3,6,7) by (simp add: asked_end_def overtime_end_on)
  have "overtimeEndAt (Some r) (Some e') = Some (t - t mod 60000)" if "e \<le> e' \<and> e' \<le> t" for e'
  proof -
    have "otDate r = Some (day_string n)" "otEnd r = Some (take 5 c @ '':00'')"
      using t(3) assms(6) clock_on_text [OF assms(7,8,3)] by (simp_all add: linked_request_def on)
    then have "overtimeEndAt (Some r) (Some e') = Some (clock_on n (take 5 c @ '':00'') e')"
      by (intro overtime_end_on assms(7) clock_to_the_minute(1) [OF assms(3)])
    then show ?thesis using clock_on_minute [OF assms(3)] that t(2) by (simp add: on)
  qed
  moreover have "2 * (t - e) < (2 * max_overtime db (oiStore d) + 1) * 60000"
  proof -
    have "(of_int (t - e) / 60000 - 1 / 2 :: rat) < of_int (max_overtime db (oiStore d))"
      using t(4) js_round_bounds(1) [of "of_int (t - e) / 60000"] by linarith
    then have "(of_int (2 * (t - e)) :: rat) < of_int ((2 * max_overtime db (oiStore d) + 1) * 60000)" by (simp add: field_simps)
    then show ?thesis by linarith
  qed
  ultimately show ?thesis using t(1,2) by blast
qed

section \<open>Approved overtime runs to its end\<close>

lemma verdict_blocked:
  assumes "r \<in> set rs" "otStatus r = REQUEST_APPROVED" "overtimeEndAt (Some r) (Some e) = Some t" "now < t + g * 60000"
  shows "overtime_verdict due now e g expired approvedEnd rs = None"
  using assms(1) by (induction rs arbitrary: expired approvedEnd) (use assms(2-4) in \<open>auto split: option.splits\<close>)

lemma turn_waits:
  assumes a: "row_of db (atId a) = Some a" "atCheckIn a \<noteq> None" "atCheckOut a = None" "end_in_force db a = Some e"
    and r: "r \<in> set (live_overtime db (atId a))" "otStatus r = REQUEST_APPROVED" "overtimeEndAt (Some r) (Some e) = Some t"
    and now: "now < t + lateCheckoutMinutes (rulesFor db (atStore a)) * 60000"
  shows "reconcile_one now db a = scheduleForAssignment db (atId a) (Some (rulesFor db (atStore a)))"
proof -
  let ?rules = "rulesFor db (atStore a)"
  let ?db = "scheduleForAssignment db (atId a) (Some ?rules)"
  obtain w where w: "workflow_of ?db (atId a) = Some w" "wfEffectiveEnd w = e" "wfState w = WF_ACTIVE \<or> wfState w = OVERTIME_APPROVED"
    by (rule workflow_after_schedule [OF a])
  have live: "live_overtime ?db (atId a) = live_overtime db (atId a)" by (simp add: live_overtime_def)
  have "chainIntoNextShift ?db (atId a) (Some ?rules) now = None"
    using r(1) live by (cases "winEnd (row_window a)") (auto simp: chainIntoNextShift_def a)
  moreover have "overtime_verdict False now e (lateCheckoutMinutes ?rules) [] None (live_overtime ?db (atId a)) = None"
    unfolding live using verdict_blocked [OF r now] .
  then have "autoCheckout ?db (atId a) e False (Some ?rules) now = None"
    by (simp add: autoCheckout_def a Let_def given_or_def)
  ultimately show ?thesis using w by (auto simp: reconcile_one_def Let_def given_or_def)
qed

text \<open>C11. While an approved overtime of a shift runs, up to the store's grace after its end, the reconciliation of every minute leaves
  the shift as it is: it is not closed, not chained into the next one, and nothing recorded of it changes.\<close>

theorem approved_overtime_is_not_cut:
  assumes "attendance_ok db" "row_of db i = Some a" "atCheckIn a \<noteq> None" "atCheckOut a = None" "end_in_force db a = Some e"
    and "\<forall>q \<in> set (live_overtime db i). otStatus q \<noteq> REQUEST_PENDING"
    and "r \<in> set (live_overtime db i)" "overtimeEndAt (Some r) (Some e) = Some t"
    and "now < t + lateCheckoutMinutes (rulesFor db (atStore a)) * 60000"
  shows "row_of (reconcileActiveAssignments db now) i = Some a"
proof -
  have i: "atId a = i" and in_db: "a \<in> set (adRows db)" using row_of_Some [OF assms(2)] by simp_all
  have "open_row a" using known_row [OF assms(1,2)] assms(3,4) by (simp add: row_ok_def open_row_def)
  then have "a \<in> set (filter open_row (adRows db))" using in_db by simp
  then obtain xs ys where l: "filter open_row (adRows db) = xs @ a # ys" by (meson split_list)
  have "distinct (map atId (adRows db))" using assms(1) by (simp add: attendance_ok_def ids_distinct_def)
  then have "distinct (map atId (filter open_row (adRows db)))" by (rule distinct_map_filter)
  then have apart: "\<forall>b \<in> set xs. atId b \<noteq> i" "\<forall>b \<in> set ys. atId b \<noteq> i" using i by (auto simp: l image_iff)
  let ?mid = "foldl (reconcile_one now) db xs" and ?turn = "reconcile_one now (foldl (reconcile_one now) db xs) a"
  have mid: "attendance_ok ?mid" "undisturbed i db ?mid" using turns_before [OF apart(1) assms(1-3,6)] by simp_all
  have same: "row_of ?mid i = Some a" "live_overtime ?mid i = live_overtime db i" "rulesFor ?mid (atStore a) = rulesFor db (atStore a)"
      "end_in_force ?mid a = Some e"
    using mid(2) assms(2,5) i same_end_in_force [of a db ?mid] by (simp_all add: undisturbed_def rulesFor_def)
  have "otStatus r = REQUEST_APPROVED" using assms(6,7) by (auto simp: live_overtime_def)
  then have turn: "?turn = scheduleForAssignment ?mid (atId a) (Some (rulesFor ?mid (atStore a)))"
    by (intro turn_waits) (use assms i same in auto)
  have ok: "attendance_ok ?turn" using turn_keeps [OF mid(1)] by simp
  have after: "row_of ?turn i = Some a" "live_overtime ?turn i = live_overtime db i"
    using same by (simp_all add: turn live_overtime_def)
  have "undisturbed i ?turn (foldl (reconcile_one now) ?turn ys)"
    using turns_before [OF apart(2) ok after(1) assms(3)] assms(6) after(2) by simp
  then show ?thesis using after(1) by (simp add: reconcileActiveAssignments_def l undisturbed_def)
qed

section \<open>A credited claim\<close>

text \<open>The recorded check-out, unless the program made it or it was reported forgotten.\<close>

definition own_out :: "attendance_row \<Rightarrow> instant option" where
  "own_out a = (if out_was_missing a then None else atCheckOut a)"

text \<open>The earlier and the later of what is recorded and what is claimed.\<close>

definition earlier :: "instant option \<Rightarrow> instant \<Rightarrow> instant" where
  "earlier recorded claimed = (case recorded of Some x \<Rightarrow> min x claimed | None \<Rightarrow> claimed)"

definition later_of :: "instant option \<Rightarrow> instant \<Rightarrow> instant" where
  "later_of recorded claimed = (case recorded of Some x \<Rightarrow> max x claimed | None \<Rightarrow> claimed)"

lemma supplement_times: "supplement_in a t0 = earlier (atCheckIn a) t0" "supplement_out a t1 = later_of (own_out a) t1"
  by (auto simp: supplement_in_def supplement_out_def own_out_def earlier_def later_of_def out_was_missing_def split: option.splits)

lemma parse_of_instant: "toInstant d (Some t) = Some x \<Longrightarrow> parse_vn_datetime d t = Some x"
  by (auto simp: toInstant_def nonempty_def split: if_splits)

lemma noon_of_day:
  assumes "four_digit_year (n - 1)" "four_digit_year n"
  shows "\<exists>noon. parse_vn_datetime (day_string n) ''12:00:00'' = Some noon \<and> vnDateString (noon - 86400000) = day_string (n - 1)"
proof -
  have c: "clock_ok ''12:00:00''" "clock_ms ''12:00:00'' = 43200000" by code_simp+
  let ?noon = "n * DAY_MS + 43200000 - VN_OFFSET_MS"
  have "toInstant (day_string n) (Some ''12:00:00'') = Some ?noon" by (simp add: toInstant_civil assms c)
  then have "parse_vn_datetime (day_string n) ''12:00:00'' = Some ?noon" by (rule parse_of_instant)
  moreover have "?noon - 86400000 = (n - 1) * DAY_MS + 43200000 - VN_OFFSET_MS" by (simp add: DAY_MS_def algebra_simps)
  then have "vnDateString (?noon - 86400000) = day_string (n - 1)"
    by (simp only:) (rule vn_clock_of(1), simp_all add: assms DAY_MS_def)
  ultimately show ?thesis by blast
qed

interpretation overlaps: selection "overlaps_more t0 t1" "\<lambda>x y. given_or 0 (overlap_with t0 t1 x) \<le> given_or 0 (overlap_with t0 t1 y)" for t0 t1
  by unfold_locales (auto simp: overlaps_more_def)

lemma best_overlap_best:
  assumes "best_overlap b r dates t0 t1 = Some a"
  shows "a \<in> set (adRows b) \<and> supplement_candidate r dates a \<and> given_or 0 (overlap_with t0 t1 a) > 0 \<and>
    (\<forall>x \<in> set (adRows b). supplement_candidate r dates x \<longrightarrow> given_or 0 (overlap_with t0 t1 x) \<le> given_or 0 (overlap_with t0 t1 a))"
proof -
  note best = overlaps.best_characterised [OF assms [unfolded best_overlap_def]]
  have "given_or 0 (overlap_with t0 t1 x) \<le> given_or 0 (overlap_with t0 t1 a)" if "x \<in> set (adRows b)" "supplement_candidate r dates x" for x
    using best that by (cases "given_or 0 (overlap_with t0 t1 x) > 0") auto
  then show ?thesis using best by auto
qed

lemma context_Inr:
  assumes "supplement_context db r now = Inr (a, t0, t1)"
  obtains noon date where "date = take 10 (given_or [] (otDate r))" "parse_vn_datetime date ''12:00:00'' = Some noon"
    "best_overlap (rqBooks db) r [vnDateString (noon - 86400000), date] t0 t1 = Some a" "t1 \<le> now"
    "\<not> approvedLeaveCoversShiftSql (atEmployee a) (row_date_text a) (atId a) (adLeaves (rqBooks db))"
    "assertPayslipOpen db (atEmployee a) (row_date_text a) = Inr ()"
  using assms by (auto simp: supplement_context_def Let_def and_then_Inr_iff not_less split: option.splits prod.splits)

lemma supplement_tx_cases:
  assumes "supplement_tx db r approver target rules mode t0 t1 now = Inr db'"
  obtains a where "row_of (rqBooks db) (atId target) = Some a" "supplement_in a t0 < supplement_out a t1"
    "row_of (rqBooks db') (atId target) =
       Some (supplement_row (rqBooks db') (a\<lparr>atSlot := atSlot target\<rparr>) rules mode (supplement_in a t0) (supplement_out a t1) a)"
    "\<forall>j. j \<noteq> atId target \<longrightarrow> row_of (rqBooks db') j = row_of (rqBooks db) j"
    "adLogs (rqBooks db') = adLogs (rqBooks db) @ supplement_logs a (otStore r) (supplement_in a t0) (supplement_out a t1)"
proof -
  obtain a where a: "row_of (rqBooks db) (atId target) = Some a"
    using assms by (auto simp: supplement_tx_def split: option.splits)
  let ?locked = "a\<lparr>atSlot := atSlot target\<rparr>"
  have same: "supplement_in ?locked t0 = supplement_in a t0" "supplement_out ?locked t1 = supplement_out a t1" "atId a = atId target"
      "supplement_logs ?locked s x y = supplement_logs a s x y" for s x y
    using row_of_Some [OF a] by (simp_all add: supplement_in_def supplement_out_def out_was_missing_def supplement_logs_def hand_log_def)
  obtain hit f where db': "supplement_in a t0 < supplement_out a t1" "db' = set_books (\<lambda>b. (set_row b (atId target)
        (supplement_row b ?locked rules mode (supplement_in a t0) (supplement_out a t1)))
      \<lparr>adLogs := adLogs b @ supplement_logs a (otStore r) (supplement_in a t0) (supplement_out a t1)\<rparr>) (set_overtime hit f db)"
    using assms by (auto simp: supplement_tx_def a Let_def and_then_Inr_iff same not_le)
  have overtime: "row_of (rqBooks (set_overtime hit f db)) j = row_of (rqBooks db) j" "adLogs (rqBooks (set_overtime hit f db)) = adLogs (rqBooks db)" for j
    by (simp_all add: set_overtime_def row_of_def)
  have id: "atId (supplement_row b l rules mode x y z) = atId z" for b l x y z by (simp add: supplement_row_def)
  have row: "row_of (set_row b (atId target) g\<lparr>adLogs := ls\<rparr>) j = row_of (set_row b (atId target) g) j" for b g ls j by (simp add: row_of_def)
  have priced: "supplement_row (rqBooks db') = supplement_row (rqBooks (set_overtime hit f db))"
    by (simp add: db'(2) fun_eq_iff supplement_row_def supplement_worked_def approvedOvertimeEnd_def)
  show thesis
  proof (rule that [OF a db'(1)])
    show "row_of (rqBooks db') (atId target) = Some (supplement_row (rqBooks db') ?locked rules mode (supplement_in a t0) (supplement_out a t1) a)"
      unfolding priced by (simp add: db'(2) row row_of_set_row id overtime a)
    show "\<forall>j. j \<noteq> atId target \<longrightarrow> row_of (rqBooks db') j = row_of (rqBooks db) j"
      by (simp add: db'(2) row row_of_set_row_other id overtime)
    show "adLogs (rqBooks db') = adLogs (rqBooks db) @ supplement_logs a (otStore r) (supplement_in a t0) (supplement_out a t1)"
      by (simp add: db'(2) overtime)
  qed
qed

text \<open>C12. A claim for worked hours that is approved names hours that are over and is credited to a shift of the employee on the work
  date of the claim or the day before, since a shift may run past midnight, that the claimed hours overlap and that no other of
  the employee's shifts on these two days overlaps more. That shift is then checked in at the earlier of the recorded and the claimed
  time, and out at the later of the employee's own check-out and the claimed end; a check-out the program made itself or one reported
  forgotten is replaced by the claimed end, also when that is earlier. The shift is COMPLETED, no other shift changes, and the
  log only grows.\<close>

theorem credited_claim_only_widens:
  assumes "supplement_context db1 r now = Inr (target, t0, t1)" "supplement_tx db2 r approver target rules mode t0 t1 now' = Inr db3"
    and "row_of (rqBooks db2) (atId target) = Some a" "row_of (rqBooks db3) (atId target) = Some a'"
    and "otDate r = Some (day_string n)" "four_digit_year (n - 1)" "four_digit_year n"
  shows "t1 \<le> now \<and>
    supplement_candidate r [day_string (n - 1), day_string n] target \<and> 0 < given_or 0 (overlap_with t0 t1 target) \<and>
    (\<forall>x \<in> set (adRows (rqBooks db1)). supplement_candidate r [day_string (n - 1), day_string n] x \<longrightarrow>
       given_or 0 (overlap_with t0 t1 x) \<le> given_or 0 (overlap_with t0 t1 target)) \<and>
    atCheckIn a' = Some (earlier (atCheckIn a) t0) \<and> atCheckOut a' = Some (later_of (own_out a) t1) \<and>
    earlier (atCheckIn a) t0 < later_of (own_out a) t1 \<and>
    atStatus a' = COMPLETED \<and> (\<forall>j. j \<noteq> atId target \<longrightarrow> row_of (rqBooks db3) j = row_of (rqBooks db2) j) \<and>
    (\<exists>ls. adLogs (rqBooks db3) = adLogs (rqBooks db2) @ ls)"
proof -
  have "length (day_string n) = 10" using assms(7) by (simp add: four_digit_year_def length_civil_string)
  then have date: "take 10 (given_or [] (otDate r)) = day_string n" by (simp add: assms(5) given_or_def)
  obtain noon where noon: "parse_vn_datetime (day_string n) ''12:00:00'' = Some noon" "vnDateString (noon - 86400000) = day_string (n - 1)"
    using noon_of_day [OF assms(6,7)] by blast
  have best: "best_overlap (rqBooks db1) r [day_string (n - 1), day_string n] t0 t1 = Some target" and past: "t1 \<le> now"
    by (rule context_Inr [OF assms(1)], use date noon in simp)+
  obtain b where b: "supplement_in a t0 < supplement_out a t1"
      "a' = supplement_row (rqBooks db3) (a\<lparr>atSlot := atSlot target\<rparr>) rules mode (supplement_in a t0) (supplement_out a t1) a"
      "\<forall>j. j \<noteq> atId target \<longrightarrow> row_of (rqBooks db3) j = row_of (rqBooks db2) j" "adLogs (rqBooks db3) = adLogs (rqBooks db2) @ b"
    by (rule supplement_tx_cases [OF assms(2)]) (use assms(3,4) in auto)
  have "atCheckIn a' = Some (supplement_in a t0)" "atCheckOut a' = Some (supplement_out a t1)" "atStatus a' = COMPLETED"
    by (simp_all add: b(2) supplement_row_def)
  then show ?thesis using past best_overlap_best [OF best] b(1,3,4) unfolding supplement_times by blast
qed

section \<open>Approved changes of hours\<close>

lemma change_cases:
  assumes "applyApprovedShiftChange db l now = Some (db', c)" "ids_distinct (rqBooks db)" "row_of (rqBooks db) (scAssignment c) = Some a"
  obtains time where "leave_change l = Some (scKind c, time)"
    "resolveRequestedInstant (slot_window (atSlot a)) (row_date_text a) (Some time) = Some (scRequested c)"
    "scKind c = LATE_CHANGE \<Longrightarrow> scAt c = late_start a (winStart (slot_window (atSlot a))) (scRequested c) \<and>
       (\<forall>e. winEnd (row_window a) = Some e \<longrightarrow> scRequested c < e)"
    "scKind c = EARLY_CHANGE \<Longrightarrow> scAt c = early_end a (winEnd (row_window a)) (scRequested c) now \<and>
       (\<forall>s. winStart (row_window a) = Some s \<longrightarrow> s < scRequested c)"
    "row_of (rqBooks db') (scAssignment c) = Some (changed_row a (rulesFor (rqBooks db) (Some (lvStore l))) (scKind c) (lvId l) (scAt c) a)"
    "\<forall>j. j \<noteq> scAssignment c \<longrightarrow> row_of (rqBooks db') j = row_of (rqBooks db) j"
proof -
  obtain kind time i locked where l: "leave_change l = Some (kind, time)" "resolveRequestAssignmentId (rqBooks db) l time = Some i"
      "find (\<lambda>a. atId a = i \<and> atEmployee a = lvEmployee l) (adRows (rqBooks db)) = Some locked"
    using assms(1) by (auto simp: applyApprovedShiftChange_def Let_def split: option.splits prod.splits if_splits)
  have i: "scAssignment c = i"
    using assms(1) by (auto simp: applyApprovedShiftChange_def l Let_def split: option.splits if_splits)
  have "row_of (rqBooks db) i = Some locked"
    using find_Some_in [OF l(3)] row_of_iff [OF assms(2)] by simp
  then have a: "locked = a" using assms(3) i by simp
  note unfolded = assms(1) [unfolded applyApprovedShiftChange_def l option.case prod.case a Let_def]
  obtain requested where r: "resolveRequestedInstant (slot_window (atSlot a)) (row_date_text a) (Some time) = Some requested"
    using unfolded by (auto split: option.splits if_splits)
  have id: "atId (changed_row a rules k lid t x) = atId x" for rules k lid t x by (simp add: changed_row_def Let_def)
  have leave: "row_of (rqBooks (set_leave hit f d)) j = row_of (rqBooks d) j" for hit f d j by (simp add: set_leave_def row_of_def)
  have c: "scKind c = kind" "scRequested c = requested"
      "scAt c = (if kind = LATE_CHANGE then late_start a (winStart (slot_window (atSlot a))) requested
         else early_end a (winEnd (row_window a)) requested now)"
      "\<not> ((kind = LATE_CHANGE \<and> (case winEnd (row_window a) of Some e \<Rightarrow> requested \<ge> e | None \<Rightarrow> False)) \<or>
           (kind = EARLY_CHANGE \<and> (case winStart (row_window a) of Some s \<Rightarrow> requested \<le> s | None \<Rightarrow> False)))"
      "\<forall>j. row_of (rqBooks db') j =
         row_of (set_row (rqBooks db) i (changed_row a (rulesFor (rqBooks db) (Some (lvStore l))) kind (lvId l) (scAt c))) j"
    using unfolded by (auto simp: r leave split: if_splits)
  show thesis
  proof (rule that [of time])
    show "row_of (rqBooks db') (scAssignment c) = Some (changed_row a (rulesFor (rqBooks db) (Some (lvStore l))) (scKind c) (lvId l) (scAt c) a)"
      using c assms(3) by (simp add: i row_of_set_row id)
    show "\<forall>j. j \<noteq> scAssignment c \<longrightarrow> row_of (rqBooks db') j = row_of (rqBooks db) j" using c(5) by (simp add: i row_of_set_row_other id)
  qed (use l(1) r c(1-4) in \<open>auto split: option.splits\<close>)
qed

text \<open>C13. An approved late arrival or early leave moves one end of one shift and stays within it. A late start lies between the scheduled
  start and the time asked for, before the end in force; an early end lies after the start in force, not past the end in force, and not
  before the time asked for unless that is the end in force. Check-in, check-out, worked minutes and the other shifts stay.\<close>

theorem changed_hours_stay_in_the_shift:
  assumes "applyApprovedShiftChange db l now = Some (db', c)" "ids_distinct (rqBooks db)" "row_of (rqBooks db) (scAssignment c) = Some a"
  shows "\<exists>a'. row_of (rqBooks db') (scAssignment c) = Some a' \<and>
    (scKind c = LATE_CHANGE \<longrightarrow> atAdjustedStart a' = Some (scAt c) \<and> atAdjustedEnd a' = atAdjustedEnd a \<and>
       (\<forall>s. winStart (slot_window (atSlot a)) = Some s \<longrightarrow> s \<le> scAt c \<and> scAt c \<le> scRequested c) \<and>
       (\<forall>e. winEnd (row_window a) = Some e \<longrightarrow> scRequested c < e)) \<and>
    (scKind c = EARLY_CHANGE \<longrightarrow> atAdjustedEnd a' = Some (scAt c) \<and> atAdjustedStart a' = atAdjustedStart a \<and>
       (\<forall>s. winStart (row_window a) = Some s \<longrightarrow> s < scRequested c) \<and>
       (\<forall>e. winEnd (row_window a) = Some e \<longrightarrow> scAt c \<le> e \<and> (scRequested c \<le> scAt c \<or> scAt c = e))) \<and>
    atCheckIn a' = atCheckIn a \<and> atCheckOut a' = atCheckOut a \<and> atWorked a' = atWorked a \<and> atStatus a' = atStatus a \<and>
    (\<forall>j. j \<noteq> scAssignment c \<longrightarrow> row_of (rqBooks db') j = row_of (rqBooks db) j)"
proof (rule change_cases [OF assms])
  fix time
  let ?a' = "changed_row a (rulesFor (rqBooks db) (Some (lvStore l))) (scKind c) (lvId l) (scAt c) a"
  assume r: "resolveRequestedInstant (slot_window (atSlot a)) (row_date_text a) (Some time) = Some (scRequested c)"
    and late: "scKind c = LATE_CHANGE \<Longrightarrow> scAt c = late_start a (winStart (slot_window (atSlot a))) (scRequested c) \<and>
       (\<forall>e. winEnd (row_window a) = Some e \<longrightarrow> scRequested c < e)"
    and early: "scKind c = EARLY_CHANGE \<Longrightarrow> scAt c = early_end a (winEnd (row_window a)) (scRequested c) now \<and>
       (\<forall>s. winStart (row_window a) = Some s \<longrightarrow> s < scRequested c)"
    and row: "row_of (rqBooks db') (scAssignment c) = Some ?a'" "\<forall>j. j \<noteq> scAssignment c \<longrightarrow> row_of (rqBooks db') j = row_of (rqBooks db) j"
  have "scheduledStart (slot_window x) = winStart (slot_window x)" for x
    by (cases x) (auto simp: slot_window_def effectiveWindowOf_def resolveEffectiveShiftWindow_def split: prod.splits)
  then have s: "\<forall>s. winStart (slot_window (atSlot a)) = Some s \<longrightarrow> s \<le> scRequested c"
    using resolveRequestedInstant_Some [OF r] by fastforce
  have kept: "atCheckIn ?a' = atCheckIn a" "atCheckOut ?a' = atCheckOut a" "atWorked ?a' = atWorked a" "atStatus ?a' = atStatus a"
    by (simp_all add: changed_row_def Let_def)
  have "scKind c = LATE_CHANGE \<longrightarrow> atAdjustedStart ?a' = Some (scAt c) \<and> atAdjustedEnd ?a' = atAdjustedEnd a \<and>
       (\<forall>s. winStart (slot_window (atSlot a)) = Some s \<longrightarrow> s \<le> scAt c \<and> scAt c \<le> scRequested c) \<and>
       (\<forall>e. winEnd (row_window a) = Some e \<longrightarrow> scRequested c < e)"
    using late s by (auto simp: changed_row_def Let_def late_start_def split: option.splits)
  moreover have "scKind c = EARLY_CHANGE \<longrightarrow> atAdjustedEnd ?a' = Some (scAt c) \<and> atAdjustedStart ?a' = atAdjustedStart a \<and>
       (\<forall>s. winStart (row_window a) = Some s \<longrightarrow> s < scRequested c) \<and>
       (\<forall>e. winEnd (row_window a) = Some e \<longrightarrow> scAt c \<le> e \<and> (scRequested c \<le> scAt c \<or> scAt c = e))"
    using early by (auto simp: changed_row_def Let_def early_end_def split: option.splits change_phase.splits)
  ultimately show ?thesis using row kept by blast
qed

section \<open>A shift from nine to five\<close>

text \<open>The shift of 4 October 2024, 08:00 to 17:00, checked into at its start; \<open>eight\<close> is that instant.\<close>

definition eight :: instant where "eight = 20000 * DAY_MS + 3600000"

definition day_shift :: attendance_row where
  "day_shift = (plain_row ''w'' CONFIRMED (Some eight) 0 0)
     \<lparr>atSlot := Some \<lparr> slotWorkDate = WStr (day_string 20000), slotStartTime = Some ''08:00:00'', slotEndTime = Some ''17:00:00'',
        slotWorkShift = None \<rparr>, atAdjustedStart := None, atAdjustedEnd := None\<rparr>"

definition desk :: request_db where
  "desk = \<lparr> rqBooks = day_db\<lparr>adRows := [day_shift], adWorkflows := [], adLogs := [\<lparr> lgAssignment = ''w'', lgEmployee = ''emp'', lgStore = ''st'',
       lgType = CHECK_IN, lgAt = eight, lgMethod = BY_FACE \<rparr>]\<rparr>,
     rqOwners = [(''st'', ''own'')], rqMembers = [\<lparr> mbId = ''emp'', mbStore = ''st'', mbAccount = Some ''acc'', mbStatus = EMP_ACTIVE, mbRemoved = False \<rparr>],
     rqPolicies = [], rqMaxOvertime = [], rqChanges = [], rqSwaps = [], rqPayslips = [] \<rparr>"

lemmas desk_defs = desk_def day_db_def day_shift_def plain_row_def

definition until_seven :: overtime_input where
  "until_seven = \<lparr> oiStore = ''st'', oiEmployee = ''emp'', oiSlot = None, oiAssignment = Some ''w'', oiDate = [], oiStart = None,
     oiEnd = Some ''19:00'' \<rparr>"

lemma clocks: "clock_ok ''08:00:00''" "clock_ok ''17:00:00''" "clock_ok ''19:00''" "clock_ms ''08:00:00'' = 28800000"
    "clock_ms ''17:00:00'' = 61200000" "clock_ms ''19:00'' = 68400000"
  by code_simp+

lemma known_year: "four_digit_year 20000" "four_digit_year (20000 + 1)"
  by code_simp+

lemma day_shift_times: "toInstant (day_string 20000) (Some ''08:00:00'') = Some eight" 
    "toInstant (day_string 20000) (Some ''17:00:00'') = Some (eight + 32400000)"
  by (simp_all add: toInstant_civil known_year clocks eight_def VN_OFFSET_MS_def)

lemma day_shift_window: "winStart (slot_window (atSlot day_shift)) = Some eight" "winEnd (slot_window (atSlot day_shift)) = Some (eight + 32400000)"
    "row_window day_shift = slot_window (atSlot day_shift)" "row_date_text day_shift = day_string 20000"
proof -
  have d: "day_string 20000 \<noteq> []" "take 10 (day_string 20000) = day_string 20000" using day_text by auto
  then have b: "resolveShiftBoundaries (Some (day_string 20000)) (Some ''08:00:00'') (Some ''17:00:00'') = (Some eight, Some (eight + 32400000))"
    by (simp add: resolveShiftBoundaries_def nonempty_def Let_def day_shift_times)
  have slot: "atSlot day_shift = Some \<lparr> slotWorkDate = WStr (day_string 20000), slotStartTime = Some ''08:00:00'',
      slotEndTime = Some ''17:00:00'', slotWorkShift = None \<rparr>" by (simp add: desk_defs)
  show "winStart (slot_window (atSlot day_shift)) = Some eight" "winEnd (slot_window (atSlot day_shift)) = Some (eight + 32400000)"
    by (simp_all add: slot slot_window_def effectiveWindowOf_def resolveEffectiveShiftWindow_def str_or_def nonempty_def d b)
  show "row_window day_shift = slot_window (atSlot day_shift)"
    by (simp add: row_window_def slot_window_def) (simp add: desk_defs date_of_def)
  show "row_date_text day_shift = day_string 20000" 
    using day_text by (simp add: row_date_text_def slot slot_work_date_def)
qed

lemma desk_rows: "adRows (rqBooks desk) = [day_shift]" "adOvertime (rqBooks desk) = []" "adLeaves (rqBooks desk) = []"
    "atId day_shift = ''w''" "atEmployee day_shift = ''emp''" "atStore day_shift = Some ''st''" "atStatus day_shift = CONFIRMED"
    "atCheckIn day_shift = Some eight" "atCheckOut day_shift = None" "atAttendance day_shift = None" "atSlot day_shift \<noteq> None"
    "atAuto day_shift = False" "atSlotId day_shift = ''w''"
  by (simp_all add: desk_defs)

lemma desk_row: "row_of (rqBooks desk) ''w'' = Some day_shift"
  by (simp add: row_of_def desk_rows)

lemma desk_ok: "attendance_ok (rqBooks desk)" "one_live desk"
  by (simp_all add: attendance_ok_def ids_distinct_def row_ok_def log_ok_def logged_times_def times_list_def desk_defs one_live_def live_overtime_def)

lemma until_seven_end: "asked_end day_shift (Some ''19:00'') (Some (eight + 32400000)) = Some (eight + 39600000)"
proof -
  have "asked_end day_shift (Some ''19:00'') (Some (eight + 32400000)) = Some (clock_on 20000 ''19:00'' (eight + 32400000))"
    unfolding asked_end_def option.case by (rule overtime_end_on) (simp_all add: known_year clocks day_shift_window)
  then show ?thesis by (simp add: clock_on_def Let_def clocks eight_def VN_OFFSET_MS_def)
qed

definition asked_row :: overtime_row where
  "asked_row = linked_request until_seven day_shift (eight + 32400000) (eight + 39600000) ''r1'' 5"

lemma until_seven_linked: "link_tx desk until_seven ''w'' ''r1'' 5 = Inr (add_overtime asked_row desk, asked_row)"
proof -
  have o: "oiEmployee until_seven = ''emp''" "oiStore until_seven = ''st''" "oiEnd until_seven = Some ''19:00''" by (simp_all add: until_seven_def)
  have m: "max_overtime desk ''st'' = 480" by (simp add: max_overtime_def desk_def DEFAULT_MAX_OVERTIME_MINUTES_def)
  have r: "js_round (of_int (eight + 39600000 - (eight + 32400000)) / 60000) = (120 :: rat)" using js_round_of_int [of 120] by simp
  show ?thesis
    by (simp add: link_tx_def o desk_rows m day_shift_window until_seven_end upcoming_def live_overtime_def early_leave_on_def Let_def
        asked_row_def r [simplified])
qed

lemma until_seven_asked: "createBonusWorkRequest desk desk until_seven ''r1'' 5 = Inr (add_overtime asked_row desk, asked_row)"
proof -
  have "linked_assignment desk until_seven = Some ''w''" by (simp add: linked_assignment_def until_seven_def nonempty_def)
  then show ?thesis by (simp add: createBonusWorkRequest_def Let_def until_seven_linked)
qed

lemma until_seven_step: "request_step desk (add_overtime asked_row desk)"
  by (rule request_step.asked [OF _ until_seven_asked]) (simp add: desk_rows)

theorem one_overtime_per_shift_witness:
  "createBonusWorkRequest desk desk until_seven ''r1'' 5 = Inr (add_overtime asked_row desk, asked_row) \<and>
   length (live_overtime (rqBooks (add_overtime asked_row desk)) ''w'') \<le> 1"
  using until_seven_asked one_overtime_per_shift [OF r_into_rtranclp [of request_step, OF until_seven_step] desk_ok(2), of "''w''"] by blast

theorem overtime_end_reads_back_witness:
  "\<exists>t. eight + 32400000 < t \<and> overtimeEndAt (Some asked_row) (Some (eight + 32400000)) = Some (t - t mod 60000)"
proof -
  have "find (\<lambda>a. atId a = ''w'' \<and> atEmployee a = oiEmployee until_seven) (adRows (rqBooks desk)) = Some day_shift"
    by (simp add: desk_rows until_seven_def)
  moreover have "oiEnd until_seven = Some ''19:00''" by (simp add: until_seven_def)
  ultimately show ?thesis
    using overtime_end_reads_back [OF until_seven_linked _ clocks(3) _ _ _ known_year] day_shift_window by fastforce
qed

definition running :: attendance_db where
  "running = (rqBooks desk)\<lparr>adOvertime := [asked_row\<lparr>otStatus := REQUEST_APPROVED\<rparr>], adWorkflows := [new_workflow ''w'' (eight + 32400000)]\<rparr>"

lemma running_reads: "row_of running ''w'' = Some day_shift" "live_overtime running ''w'' = [asked_row\<lparr>otStatus := REQUEST_APPROVED\<rparr>]"
    "attendance_ok running" "end_in_force running day_shift = Some (eight + 32400000)"
    "lateCheckoutMinutes (rulesFor running (atStore day_shift)) \<ge> 0"
proof -
  show "row_of running ''w'' = Some day_shift" using desk_row by (simp add: running_def row_of_def)
  show "live_overtime running ''w'' = [asked_row\<lparr>otStatus := REQUEST_APPROVED\<rparr>]"
    by (simp add: running_def live_overtime_def asked_row_def linked_request_def desk_rows)
  show "attendance_ok running" using desk_ok(1) by (simp add: running_def attendance_ok_def ids_distinct_def log_ok_def logged_times_def)
  show "end_in_force running day_shift = Some (eight + 32400000)"
    by (simp add: running_def end_in_force_def workflow_of_def new_workflow_def desk_rows)
  show "lateCheckoutMinutes (rulesFor running (atStore day_shift)) \<ge> 0"
    by (simp add: running_def rulesFor_def desk_defs resolveAttendanceRules_def DEFAULT_ATTENDANCE_RULES_def)
qed

lemma asked_row_end: "overtimeEndAt (Some (asked_row\<lparr>otStatus := s\<rparr>)) (Some (eight + 32400000)) = Some (eight + 39600000)"
proof -
  have "vnClockHHmm (eight + 39600000) = take 5 ''19:00''"
    using clock_on_text [OF known_year clocks(3), of "eight + 32400000"] until_seven_end
    by (simp add: clock_on_def Let_def clocks eight_def VN_OFFSET_MS_def)
  then have e: "otDate (asked_row\<lparr>otStatus := s\<rparr>) = Some (day_string 20000)" "otEnd (asked_row\<lparr>otStatus := s\<rparr>) = Some ''19:00:00''"
    by (simp_all add: asked_row_def linked_request_def day_shift_window)
  have c: "clock_ok ''19:00:00''" "clock_ms ''19:00:00'' = 68400000" by code_simp+
  show ?thesis by (simp add: overtime_end_on [OF known_year(1) c(1) e] clock_on_def Let_def c eight_def VN_OFFSET_MS_def)
qed

theorem approved_overtime_is_not_cut_witness: "row_of (reconcileActiveAssignments running (eight + 36000000)) ''w'' = Some day_shift"
proof -
  have "eight + 36000000 < eight + 39600000 + lateCheckoutMinutes (rulesFor running (atStore day_shift)) * 60000"
    using running_reads(5) by simp
  then show ?thesis
    using approved_overtime_is_not_cut [OF running_reads(3,1) _ _ running_reads(4), of "asked_row\<lparr>otStatus := REQUEST_APPROVED\<rparr>"]
    by (simp add: desk_rows running_reads(2) asked_row_end)
qed

definition claim :: overtime_row where
  "claim = \<lparr> otId = ''c1'', otAssignment = None, otStatus = REQUEST_PENDING, otDate = Some (day_string 20000), otEnd = Some ''17:30:00'',
     otUpdated = 0, otNote = None, otStore = ''st'', otEmployee = ''emp'', otSlotId = None, otStart = Some ''07:45:00'', otApprovedBy = None \<rparr>"

definition claimed_desk :: request_db where "claimed_desk = add_overtime claim desk"

lemma claimed_desk_rows: "adRows (rqBooks claimed_desk) = [day_shift]" "adOvertime (rqBooks claimed_desk) = [claim]"
    "adLeaves (rqBooks claimed_desk) = []" "rqPayslips claimed_desk = []"
  by (simp_all add: claimed_desk_def add_overtime_def set_books_def desk_rows) (simp add: desk_def)

lemma claimed_times: "claimed_hours (day_string 20000) ''07:45'' ''17:30'' = (Some (eight - 900000), Some (eight + 34200000))"
    "parse_vn_datetime (day_string 20000) ''12:00:00'' = Some (eight + 14400000)"
proof -
  have c: "clock_ok ''07:45:00''" "clock_ms ''07:45:00'' = 27900000" "clock_ok ''17:30:00''" "clock_ms ''17:30:00'' = 63000000"
    "clock_ok ''12:00:00''" "clock_ms ''12:00:00'' = 43200000" by code_simp+
  have "parse_vn_datetime (day_string 20000) ''07:45:00'' = Some (eight - 900000)"
    "parse_vn_datetime (day_string 20000) ''17:30:00'' = Some (eight + 34200000)"
    by (rule parse_of_instant, simp add: toInstant_civil known_year c eight_def VN_OFFSET_MS_def)+
  then show "claimed_hours (day_string 20000) ''07:45'' ''17:30'' = (Some (eight - 900000), Some (eight + 34200000))"
    by (simp add: claimed_hours_def Let_def)
  show "parse_vn_datetime (day_string 20000) ''12:00:00'' = Some (eight + 14400000)"
    by (rule parse_of_instant) (simp add: toInstant_civil known_year c eight_def VN_OFFSET_MS_def)
qed

lemma october: "day_string 20000 = ''2024-10-04''" 
  by code_simp

lemma october_known: "vnMonthOfDateString (Some ''2024-10-04'') \<noteq> None"
proof -
  have "month_ok 2024 10" by (simp add: month_ok_def)
  then obtain M where M: "vnMonthFromParts 2024 10 = Some M" by (rule vnMonthFromParts_Some) blast
  have "is_ymd ''2024-10-04''" "ymd_of ''2024-10-04'' = (2024, 10, 4)" by code_simp+
  then show ?thesis using M by (simp add: vnMonthOfDateString_def)
qed

lemma claim_context: "supplement_context claimed_desk claim (eight + 36000000) = Inr (day_shift, eight - 900000, eight + 34200000)"
proof -
  have f: "otStatus claim = REQUEST_PENDING" "otDate claim = Some (day_string 20000)" "claimed_clock (otStart claim) = Some ''07:45''"
      "claimed_clock (otEnd claim) = Some ''17:30''" "otEmployee claim = ''emp''" "otStore claim = ''st''"
    by (simp_all add: claim_def claimed_clock_def clock_prefix_def is_digit_def)
  have d: "take 10 (day_string 20000) = day_string 20000" "is_ymd (day_string 20000)" using day_text day_string_parse [OF known_year(1)] by auto
  have "overlap_with (eight - 900000) (eight + 34200000) day_shift = Some 32400000" by (simp add: overlap_with_def day_shift_window)
  then have best: "best_overlap (rqBooks claimed_desk) claim [x, day_string 20000] (eight - 900000) (eight + 34200000) = Some day_shift" for x
    by (simp add: best_overlap_def claimed_desk_rows supplement_candidate_def f desk_rows day_shift_window given_or_def)
  have open_slip: "assertPayslipOpen claimed_desk e (day_string 20000) = Inr ()" for e
    using october_known by (auto simp: assertPayslipOpen_def october claimed_desk_rows split: option.splits)
  show ?thesis
    by (simp add: supplement_context_def f d given_or_def claimed_times best desk_rows day_shift_window claimed_desk_rows
        approvedLeaveCoversShiftSql_def open_slip)
qed

lemma claim_day: "otDate claim = Some (day_string 20000)" "four_digit_year (20000 - 1)"
  by (simp add: claim_def) code_simp

theorem credited_claim_only_widens_witness:
  "supplement_context claimed_desk claim (eight + 36000000) = Inr (day_shift, eight - 900000, eight + 34200000) \<and>
   (\<exists>db a. supplement_tx claimed_desk claim None day_shift DEFAULT_ATTENDANCE_RULES ACTUAL_MODE (eight - 900000) (eight + 34200000) 0 = Inr db \<and>
      row_of (rqBooks db) ''w'' = Some a \<and> atStatus a = COMPLETED)"
proof -
  have row: "row_of (rqBooks claimed_desk) ''w'' = Some day_shift" by (simp add: row_of_def claimed_desk_rows desk_rows)
  have out: "supplement_in day_shift (eight - 900000) < supplement_out day_shift (eight + 34200000)"
    by (simp add: supplement_in_def supplement_out_def out_was_missing_def desk_rows)
  have "\<exists>db. supplement_tx claimed_desk claim None day_shift DEFAULT_ATTENDANCE_RULES ACTUAL_MODE (eight - 900000) (eight + 34200000) 0 = Inr db"
    using out row
    by (simp add: supplement_tx_def desk_rows Let_def claimed_desk_rows and_then_Inr_iff not_le) (simp add: claim_def)
  then obtain db where db: "supplement_tx claimed_desk claim None day_shift DEFAULT_ATTENDANCE_RULES ACTUAL_MODE (eight - 900000)
      (eight + 34200000) 0 = Inr db" by blast
  obtain a where a: "row_of (rqBooks db) (atId day_shift) = Some a" by (rule supplement_tx_cases [OF db]) blast
  have "atStatus a = COMPLETED" using credited_claim_only_widens [OF claim_context db _ a, of day_shift 20000] row desk_rows(4) claim_day known_year by simp
  then show ?thesis using claim_context db a desk_rows(4) by auto
qed

definition home_at_four :: "string option \<Rightarrow> leave_row" where
  "home_at_four assignment = \<lparr> lvId = ''l1'', lvStore = ''st'', lvEmployee = ''emp'', lvType = leave_type.EARLY, lvStatus = Some LEAVE_PENDING,
     lvDeleted = False, lvStartDate = day_string 20000, lvEndDate = day_string 20000, lvStartTime = None, lvEndTime = Some ''16:00:00'',
     lvAssignment = assignment \<rparr>"

lemma four_o_clock: "resolveRequestedInstant (slot_window (atSlot day_shift)) (day_string 20000) (Some ''16:00:00'') = Some (eight + 28800000)"
proof -
  have c: "clock_ok ''16:00:00''" "clock_ms ''16:00:00'' = 57600000" by code_simp+
  have "take 10 (day_string 20000) = day_string 20000" using day_text by simp
  moreover have "toInstant (day_string 20000) (Some ''16:00:00'') = Some (eight + 28800000)"
    by (simp add: toInstant_civil known_year c eight_def VN_OFFSET_MS_def)
  moreover have "scheduledStart (slot_window (atSlot day_shift)) = Some eight" "scheduledEnd (slot_window (atSlot day_shift)) = Some (eight + 32400000)"
    using day_shift_window(1,2)
    by (auto simp: slot_window_def effectiveWindowOf_def resolveEffectiveShiftWindow_def split: option.splits prod.splits)
  ultimately show ?thesis by (simp add: resolveRequestedInstant_def nonempty_def)
qed

text \<open>Going home at four, on the given tables with that one shift.\<close>

lemma home_at_four_applied:
  assumes "adRows (rqBooks db) = [day_shift]" "nonempty assignment = None \<or> assignment = Some ''w''" "now \<le> eight + 28800000"
  shows "\<exists>db'. applyApprovedShiftChange db (home_at_four assignment) now = Some (db',
    \<lparr> scAssignment = ''w'', scKind = EARLY_CHANGE, scPhase = DURING_SHIFT, scAt = eight + 28800000, scRequested = eight + 28800000 \<rparr>)"
proof -
  have l: "leave_change (home_at_four assignment) = Some (EARLY_CHANGE, ''16:00:00'')" by (simp add: leave_change_def home_at_four_def nonempty_def)
  have d: "take 10 (day_string 20000) = day_string 20000" using day_text by simp
  have r: "resolveRequestAssignmentId (rqBooks db) (home_at_four assignment) ''16:00:00'' = Some ''w''"
    using assms(2) by (auto simp: resolveRequestAssignmentId_def home_at_four_def nonempty_def assms(1) desk_rows Let_def d day_shift_window four_o_clock)
  have e: "early_end day_shift (Some (eight + 32400000)) (eight + 28800000) now = eight + 28800000"
    using assms(3) by (simp add: early_end_def phase_of_def desk_rows)
  show ?thesis
    by (simp add: applyApprovedShiftChange_def l r assms(1) desk_rows Let_def day_shift_window four_o_clock e phase_of_def)
       (simp add: home_at_four_def)
qed

theorem changed_hours_stay_in_the_shift_witness:
  "\<exists>db' c a'. applyApprovedShiftChange desk (home_at_four (Some ''w'')) eight = Some (db', c) \<and>
     row_of (rqBooks db') ''w'' = Some a' \<and> atAdjustedEnd a' = Some (eight + 28800000)"
proof -
  obtain db' c where c: "applyApprovedShiftChange desk (home_at_four (Some ''w'')) eight = Some (db', c)" "scAssignment c = ''w''"
      "scKind c = EARLY_CHANGE" "scAt c = eight + 28800000"
    using home_at_four_applied [of desk "Some ''w''" eight] by (fastforce simp: desk_rows)
  have "ids_distinct (rqBooks desk)" by (simp add: ids_distinct_def desk_rows)
  then show ?thesis using changed_hours_stay_in_the_shift [OF c(1), of day_shift] c desk_row by auto
qed

section \<open>What is not kept apart\<close>

text \<open>An early leave is refused for a shift with overtime, and overtime for a shift with an early leave. An early leave sent without a shift
  escapes both checks: approving it finds the shift and ends it early although its overtime is approved.\<close>

lemma unlinked_early_leave_meets_overtime:
  "\<exists>db' c. applyApprovedShiftChange (desk\<lparr>rqBooks := running\<rparr>) (home_at_four None) eight = Some (db', c) \<and>
     scAssignment c = ''w'' \<and> scKind c = EARLY_CHANGE \<and> approvedOvertimeEnd (rqBooks db') ''w'' (Some (eight + 32400000)) = Some (eight + 39600000)"
proof -
  obtain db' c where c: "applyApprovedShiftChange (desk\<lparr>rqBooks := running\<rparr>) (home_at_four None) eight = Some (db', c)"
      "scAssignment c = ''w''" "scKind c = EARLY_CHANGE"
    using home_at_four_applied [of "desk\<lparr>rqBooks := running\<rparr>" None eight] by (fastforce simp: running_def desk_rows nonempty_def)
  have "adOvertime (rqBooks db') = [asked_row\<lparr>otStatus := REQUEST_APPROVED\<rparr>]" using change_overtime [OF c(1)] by (simp add: running_def)
  then have "approvedOvertimeEnd (rqBooks db') ''w'' (Some (eight + 32400000)) =
      overtimeEndAt (Some (asked_row\<lparr>otStatus := REQUEST_APPROVED\<rparr>)) (Some (eight + 32400000))"
    by (simp add: approvedOvertimeEnd_def newest_overtime_def) (simp add: asked_row_def linked_request_def desk_rows)
  then show ?thesis using c by (intro exI [of _ db'] exI [of _ c]) (simp add: asked_row_end)
qed

text \<open>Withdrawing a request saves it as it was loaded: an approval in between is lost.\<close>

lemma late_withdrawal_takes_back_an_approval:
  "\<exists>db2 db3 r2 r3. approveBonusWorkRequest (add_overtime asked_row desk) (add_overtime asked_row desk) ''r1'' (Some ''own'') 6 = Inr (db2, r2) \<and>
     otStatus r2 = REQUEST_APPROVED \<and>
     cancelBonusWorkRequest (add_overtime asked_row desk) db2 ''r1'' (Some ''acc'') 7 = Inr (db3, r3) \<and>
     map otStatus (adOvertime (rqBooks db3)) = [REQUEST_CANCELLED]"
proof -
  let ?db = "add_overtime asked_row desk"
  have rows: "adOvertime (rqBooks ?db) = [asked_row]" "rqOwners ?db = [(''st'', ''own'')]"
      "rqMembers ?db = [\<lparr> mbId = ''emp'', mbStore = ''st'', mbAccount = Some ''acc'', mbStatus = EMP_ACTIVE, mbRemoved = False \<rparr>]"
    by (simp_all add: add_overtime_def set_books_def desk_rows) (simp_all add: desk_def)
  have r: "otId asked_row = ''r1''" "otStatus asked_row = REQUEST_PENDING" "otStore asked_row = ''st''" "otEmployee asked_row = ''emp''"
      "otAssignment asked_row = Some ''w''"
    by (simp_all add: asked_row_def linked_request_def until_seven_def desk_rows)
  have "loadBonusWorkRequestForOwner ?db ''r1'' (Some ''own'') = Inr (asked_row, None)"
    by (simp add: loadBonusWorkRequestForOwner_def nonempty_def overtime_of_def rows r OvertimeRequests.assertOwnerStoreAccess_def)
  then obtain db2 r2 where a: "approveBonusWorkRequest ?db ?db ''r1'' (Some ''own'') 6 = Inr (db2, r2)" "otStatus r2 = REQUEST_APPROVED"
      "map otId (adOvertime (rqBooks db2)) = [''r1'']"
    by (simp add: approveBonusWorkRequest_def nonempty_def r approve_overtime_tx_def decideBonusWorkRequest_def rows set_overtime_def)
  obtain x where x: "adOvertime (rqBooks db2) = [x]" "otId x = ''r1''" using a(3) by auto
  have "cancelBonusWorkRequest ?db db2 ''r1'' (Some ''acc'') 7 = Inr (set_overtime (\<lambda>x. otId x = ''r1'')
      (\<lambda>_. asked_row\<lparr>otStatus := REQUEST_CANCELLED, otUpdated := 7\<rparr>) db2, asked_row\<lparr>otStatus := REQUEST_CANCELLED\<rparr>)"
    by (simp add: cancelBonusWorkRequest_def nonempty_def overtime_of_def rows r)
  then show ?thesis using a(1,2) x by (auto simp: set_overtime_def)
qed

end
