(* ===== verification/CareerModel.thy ===== *)
theory CareerModel
  imports VnCalendar ShiftTypes
begin

text \<open>
  The career ladder of a store (\<open>src/modules/stores/career\<close>): departments form a tree, each has positions of rising rank and skills in
  a sequence, and positions and skills have requirements. This theory holds the tables and everything that is read off them:
  \<open>career-requirements.ts\<close>, \<open>career-metrics.ts\<close>, the periods of \<open>career-time.ts\<close> and \<open>career-evaluation.service.ts\<close>, which decides what an
  employee has reached, which step is next and who waits for a decision. A row that is soft-deleted is not in its table. Labels
  and units of requirements are texts and left out. Ids are never empty, so that \<open>!id\<close> is \<open>id = None\<close>.
\<close>

section \<open>Requirements of a position or skill\<close>

datatype career_subject = DEPARTMENT | POSITION | SKILL

datatype requirement_code =
    MONTHLY_SHIFTS | MONTHLY_HOURS | WORK_HOURS | COMPLETED_SHIFTS | SKILL_ACHIEVED | ALL_REQUIRED_SKILLS
  | PRACTICE_HOURS | SUCCESSFUL_REPS | MANAGER_REVIEW

datatype career_error =
    TIER_INVALID | PARENT_INVALID | NAME_TAKEN | SYSTEM_DEPARTMENT | DEPARTMENT_IN_USE nat nat | POSITION_IN_USE nat
  | SKILL_HAS_ACHIEVERS | LIMIT_REACHED | REQUIREMENT_INVALID | CRITERIA_NOT_MET bool | NOTE_REQUIRED | ALREADY_IN_POSITION
  | SKILL_LOCKED | SKILL_ALREADY_ACHIEVED | EMPLOYEE_NOT_ACTIVE | V2_DISABLED | REQUEST_REUSED
  | OneTargetWanted | RoleGone | RoleElsewhere | DepartmentGone | CareerMissing career_subject | EmployeeMissing | NoEvent | NeverReturns

fun REQUIREMENT_CODES_BY_SUBJECT :: "career_subject \<Rightarrow> requirement_code list" where
  "REQUIREMENT_CODES_BY_SUBJECT DEPARTMENT = []"
| "REQUIREMENT_CODES_BY_SUBJECT POSITION = [WORK_HOURS, COMPLETED_SHIFTS, SKILL_ACHIEVED, ALL_REQUIRED_SKILLS]"
| "REQUIREMENT_CODES_BY_SUBJECT SKILL = [PRACTICE_HOURS, SUCCESSFUL_REPS, MANAGER_REVIEW]"

definition BOOLEAN_REQUIREMENT_CODES :: "requirement_code list" where
  "BOOLEAN_REQUIREMENT_CODES = [SKILL_ACHIEVED, ALL_REQUIRED_SKILLS, MANAGER_REVIEW]"

definition requirementsPerSubject :: nat where "requirementsPerSubject = 10"

record requirement_input =
  riCode :: requirement_code
  riValue :: "rat option"
  riRefSkill :: "string option"

record requirement =
  nrCode :: requirement_code
  nrValue :: "rat option"
  nrRefSkill :: "string option"

text \<open>The walk over the list with the keys seen so far; of a key text \<open>code:skill\<close> the two parts. An empty \<open>refSkillId\<close> is refused like a
  missing one.\<close>

fun normalize_requirements ::
  "career_subject \<Rightarrow> (requirement_code \<times> string option) list \<Rightarrow> requirement_input list \<Rightarrow> career_error + requirement list" where
  "normalize_requirements subject seen [] = Inr []"
| "normalize_requirements subject seen (i # inputs) =
     (let skillRef = (riCode i = SKILL_ACHIEVED);
          key = (riCode i, if skillRef then riRefSkill i else None) in
      and_then (fail_if (riCode i \<notin> set (REQUIREMENT_CODES_BY_SUBJECT subject)) REQUIREMENT_INVALID) (\<lambda>_.
      and_then (fail_if (skillRef \<and> (riRefSkill i = None \<or> riRefSkill i = Some [])) REQUIREMENT_INVALID) (\<lambda>_.
      and_then (fail_if (key \<in> set seen) REQUIREMENT_INVALID) (\<lambda>_.
      and_then
        (if riCode i \<in> set BOOLEAN_REQUIREMENT_CODES
         then Inr \<lparr> nrCode = riCode i, nrValue = None, nrRefSkill = if skillRef then riRefSkill i else None \<rparr>
         else (case riValue i of
                 None \<Rightarrow> Inl REQUIREMENT_INVALID
               | Some v \<Rightarrow> if v > 0 then Inr \<lparr> nrCode = riCode i, nrValue = Some v, nrRefSkill = None \<rparr> else Inl REQUIREMENT_INVALID))
        (\<lambda>r. and_then (normalize_requirements subject (key # seen) inputs) (\<lambda>rs. Inr (r # rs)))))))"

definition normalizeRequirements :: "career_subject \<Rightarrow> requirement_input list option \<Rightarrow> career_error + requirement list" where
  "normalizeRequirements subject inputs =
     (let xs = (case inputs of Some xs \<Rightarrow> xs | None \<Rightarrow> []) in
      if length xs > requirementsPerSubject then Inl REQUIREMENT_INVALID else normalize_requirements subject [] xs)"

section \<open>The tables\<close>

datatype skill_level = REQUIRED | OPTIONAL

datatype skill_confirmation = BY_MANAGER | BY_ITSELF

datatype review_frequency = EVERY_DAY | EVERY_WEEK | EVERY_MONTH | EVERY_QUARTER | EVERY_YEAR

record department =
  dpId :: string
  dpParent :: "string option"
  dpTier :: int
  dpName :: string
  dpDescription :: "string option"
  dpSort :: int
  dpSystem :: bool

record position =
  poId :: string
  poDepartment :: "string option"
  poRank :: "int option"
  poName :: string
  poDescription :: "string option"
  poActive :: bool
  poCreated :: instant

record skill =
  skId :: string
  skDepartment :: "string option"
  skPosition :: "string option"
  skSequence :: "int option"
  skName :: string
  skDescription :: "string option"
  skLevel :: skill_level
  skConfirmation :: skill_confirmation
  skOrdered :: bool
  skActive :: bool
  skCreated :: instant

record requirement_row =
  rwDepartment :: "string option"
  rwPosition :: "string option"
  rwSkill :: "string option"
  rwCode :: requirement_code
  rwValue :: "rat option"
  rwRefSkill :: "string option"
  rwSort :: int

record career_profile =
  cpId :: string
  cpDepartment :: "string option"
  cpRole :: "string option"
  cpStatus :: employment_status
  cpJoined :: "instant option"
  cpCreated :: instant

text \<open>A measured requirement, which a decision also stores as its snapshot.\<close>

record measured =
  mrCode :: requirement_code
  mrTarget :: "rat option"
  mrCurrent :: "rat option"
  mrMet :: bool
  mrImplicit :: bool
  mrRefSkill :: "string option"

record skill_progress =
  spProfile :: string
  spSkill :: string
  spAchieved :: bool
  spUnlockedAt :: "instant option"
  spAchievedAt :: "instant option"
  spConfirmedBy :: "string option"
  spSnapshot :: "measured list option"
  spNote :: "string option"
  spCreated :: instant

record skill_evaluation =
  seProfile :: string
  seSkill :: string
  sePass :: bool
  seBy :: "string option"
  seAt :: instant
  seNote :: "string option"
  seRequest :: "string option"

record career_event =
  ceId :: string
  ceProfile :: string
  ceSubject :: "career_subject option"
  ceFrom :: "string option"
  ceTo :: "string option"
  ceAt :: instant
  ceDecidedBy :: "string option"
  ceSnapshot :: "measured list option"
  ceNote :: "string option"
  ceRequest :: "string option"

text \<open>Of the assignments the career reads the employee, the status, the work date of the slot and the minutes worked.\<close>

record worked_shift =
  wkProfile :: string
  wkStatus :: assignment_status
  wkDate :: string
  wkMinutes :: rat

record career_db =
  cdEnabled :: bool
  cdReminder :: bool
  cdFrequency :: review_frequency
  cdLastReminded :: "string option"
  cdDepartments :: "department list"
  cdPositions :: "position list"
  cdSkills :: "skill list"
  cdRequirements :: "requirement_row list"
  cdProfiles :: "career_profile list"
  cdProgress :: "skill_progress list"
  cdEvaluations :: "skill_evaluation list"
  cdEvents :: "career_event list"
  cdWork :: "worked_shift list"

definition isEmployed :: "employment_status \<Rightarrow> bool" where
  "isEmployed s \<longleftrightarrow> s \<in> {EMP_ACTIVE, EMP_PROBATION, EMP_ON_LEAVE}"

section \<open>The structure, as loaded for one evaluation\<close>

record career_graph =
  cgDepartments :: "department list"
  cgPositions :: "position list"
  cgSkills :: "skill list"
  cgRequirements :: "requirement_row list"

text \<open>Requirements of departments are no longer read.\<close>

definition loadGraph :: "career_db \<Rightarrow> career_graph" where
  "loadGraph db =
     \<lparr> cgDepartments = cdDepartments db, cgPositions = filter poActive (cdPositions db), cgSkills = filter skActive (cdSkills db),
       cgRequirements = filter (\<lambda>r. rwDepartment r = None) (sort_key rwSort (cdRequirements db)) \<rparr>"

definition department_of :: "career_graph \<Rightarrow> string option \<Rightarrow> department option" where
  "department_of g i = (case i of None \<Rightarrow> None | Some d \<Rightarrow> find (\<lambda>x. dpId x = d) (cgDepartments g))"

definition position_of :: "career_graph \<Rightarrow> string option \<Rightarrow> position option" where
  "position_of g i = (case i of None \<Rightarrow> None | Some p \<Rightarrow> find (\<lambda>x. poId x = p) (cgPositions g))"

definition skill_of :: "career_graph \<Rightarrow> string option \<Rightarrow> skill option" where
  "skill_of g i = (case i of None \<Rightarrow> None | Some s \<Rightarrow> find (\<lambda>x. skId x = s) (cgSkills g))"

definition positionsOf :: "career_graph \<Rightarrow> string option \<Rightarrow> position list" where
  "positionsOf g departmentId =
     (if departmentId = None then []
      else sort_key (\<lambda>p. the (poRank p)) (filter (\<lambda>p. poDepartment p = departmentId \<and> poRank p \<noteq> None) (cgPositions g)))"

definition skillsOf :: "career_graph \<Rightarrow> string option \<Rightarrow> string option \<Rightarrow> skill list" where
  "skillsOf g departmentId positionId =
     (if departmentId = None then []
      else sort_key (\<lambda>s. the (skSequence s))
        (filter (\<lambda>s. skDepartment s = departmentId \<and> skSequence s \<noteq> None \<and> (skPosition s = None \<or> skPosition s = positionId)) (cgSkills g)))"

text \<open>The position held, when it is still a rung (\<open>currentLive\<close>), and when it also is one of the own department.\<close>

definition currentLive :: "career_graph \<Rightarrow> career_profile \<Rightarrow> position option" where
  "currentLive g p = (case position_of g (cpRole p) of Some q \<Rightarrow> if poRank q \<noteq> None then Some q else None | None \<Rightarrow> None)"

definition livePositionId :: "career_graph \<Rightarrow> career_profile \<Rightarrow> string option" where
  "livePositionId g p =
     (case currentLive g p of Some q \<Rightarrow> if poDepartment q = cpDepartment p then Some (poId q) else None | None \<Rightarrow> None)"

fun climb :: "nat \<Rightarrow> career_graph \<Rightarrow> string \<Rightarrow> department option \<Rightarrow> bool" where
  "climb 0 g ancestorId cursor = False"
| "climb (Suc guard) g ancestorId cursor =
     (case cursor of
        None \<Rightarrow> False
      | Some d \<Rightarrow>
          (case dpParent d of
             None \<Rightarrow> False
           | Some parent \<Rightarrow> parent = ancestorId \<or> climb guard g ancestorId (department_of g (Some parent))))"

definition isAncestor :: "career_graph \<Rightarrow> string \<Rightarrow> string option \<Rightarrow> bool" where
  "isAncestor g ancestorId departmentId = climb 10 g ancestorId (department_of g departmentId)"

definition requirementsOfPosition :: "career_graph \<Rightarrow> string \<Rightarrow> requirement_row list" where
  "requirementsOfPosition g i = filter (\<lambda>r. rwPosition r = Some i) (cgRequirements g)"

definition requirementsOfSkill :: "career_graph \<Rightarrow> string \<Rightarrow> requirement_row list" where
  "requirementsOfSkill g i = filter (\<lambda>r. rwSkill r = Some i) (cgRequirements g)"

section \<open>What is measured of one employee\<close>

text \<open>The latest of some instants; \<open>STINT_CLOCK_TOLERANCE_MS\<close> is a minute.\<close>

fun later :: "instant option list \<Rightarrow> instant option" where
  "later [] = None"
| "later (d # ds) =
     (case d of None \<Rightarrow> later ds | Some t \<Rightarrow> (case later ds of None \<Rightarrow> Some t | Some u \<Rightarrow> Some (max t u)))"

definition stintFloor :: "instant option \<Rightarrow> instant option" where
  "stintFloor joinedAt = map_option (\<lambda>t. t - 60000) joinedAt"

definition stintStartVnDate :: "instant option \<Rightarrow> string option" where
  "stintStartVnDate joinedAt = map_option vnDateString joinedAt"

definition not_before :: "instant option \<Rightarrow> instant \<Rightarrow> bool" where
  "not_before since t \<longleftrightarrow> (case since of None \<Rightarrow> True | Some s \<Rightarrow> s \<le> t)"

definition completedWork :: "career_db \<Rightarrow> string \<Rightarrow> string option \<Rightarrow> string option \<Rightarrow> nat \<times> rat" where
  "completedWork db profileId fromDate toDate =
     (let rows = filter (\<lambda>w. wkProfile w = profileId \<and> wkStatus w = COMPLETED \<and>
            (case fromDate of None \<Rightarrow> True | Some d \<Rightarrow> d \<le> wkDate w) \<and>
            (case toDate of None \<Rightarrow> True | Some d \<Rightarrow> wkDate w < d)) (cdWork db)
      in (length rows, sum_list (map wkMinutes rows)))"

definition hoursOf :: "rat \<Rightarrow> rat" where
  "hoursOf minutes = js_round (minutes / 60 * 100) / 100"

definition passEvaluationsSince :: "career_db \<Rightarrow> string \<Rightarrow> string \<Rightarrow> instant option \<Rightarrow> nat" where
  "passEvaluationsSince db profileId skillId since =
     length (filter (\<lambda>e. seProfile e = profileId \<and> seSkill e = skillId \<and> sePass e \<and> not_before since (seAt e)) (cdEvaluations db))"

definition latestEvent :: "career_db \<Rightarrow> career_profile \<Rightarrow> career_subject \<Rightarrow> string option \<Rightarrow> instant option" where
  "latestEvent db p subject targetId =
     (if targetId = None then None
      else later (map (Some \<circ> ceAt) (filter (\<lambda>e. ceProfile e = cpId p \<and> ceSubject e = Some subject \<and> ceTo e = targetId \<and>
        not_before (stintFloor (cpJoined p)) (ceAt e)) (cdEvents db))))"

definition departmentEnteredAt :: "career_db \<Rightarrow> career_profile \<Rightarrow> instant option" where
  "departmentEnteredAt db p =
     (case latestEvent db p DEPARTMENT (cpDepartment p) of
        Some t \<Rightarrow> Some t
      | None \<Rightarrow> (case cpJoined p of Some t \<Rightarrow> Some t | None \<Rightarrow> Some (cpCreated p)))"

definition positionEnteredAt :: "career_db \<Rightarrow> career_profile \<Rightarrow> instant option" where
  "positionEnteredAt db p =
     (case latestEvent db p POSITION (cpRole p) of Some t \<Rightarrow> Some t | None \<Rightarrow> departmentEnteredAt db p)"

definition positionWindowStart :: "career_db \<Rightarrow> career_profile \<Rightarrow> string option" where
  "positionWindowStart db p =
     (let entryDate = map_option vnDateString (positionEnteredAt db p); stintDate = stintStartVnDate (cpJoined p) in
      case (entryDate, stintDate) of
        (Some e, Some s) \<Rightarrow> Some (if s < e then e else s)
      | (Some e, None) \<Rightarrow> Some e
      | (None, s) \<Rightarrow> s)"

definition progressRows :: "career_db \<Rightarrow> career_profile \<Rightarrow> skill_progress list" where
  "progressRows db p =
     filter (\<lambda>g. spProfile g = cpId p \<and> not_before (stintFloor (cpJoined p)) (spCreated g)) (cdProgress db)"

text \<open>The last calendar month that is over, as dates; \<open>now\<close> lies in the years the calendar can name (1900 to 9999).\<close>

definition lastEndedVnMonth :: "instant \<Rightarrow> (string \<times> string) option" where
  "lastEndedVnMonth now =
     (case vnMonthOf now of
        None \<Rightarrow> None
      | Some m \<Rightarrow> map_option (\<lambda>previous. (mKey previous, mEndExclusiveDate previous)) (shiftVnMonth m (- 1)))"

definition measured_item :: "requirement_code \<Rightarrow> rat option \<Rightarrow> rat option \<Rightarrow> measured" where
  "measured_item code target current =
     \<lparr> mrCode = code, mrTarget = target, mrCurrent = current,
       mrMet = (case (current, target) of (Some c, Some t) \<Rightarrow> t \<le> c | _ \<Rightarrow> False), mrImplicit = False, mrRefSkill = None \<rparr>"

definition achievedSkills :: "career_db \<Rightarrow> career_profile \<Rightarrow> string set" where
  "achievedSkills db p = spSkill ` set (filter spAchieved (progressRows db p))"

definition requiredSkills :: "career_graph \<Rightarrow> career_profile \<Rightarrow> skill list" where
  "requiredSkills g p = filter (\<lambda>s. skLevel s = REQUIRED) (skillsOf g (cpDepartment p) (livePositionId g p))"

text \<open>Total and met.\<close>

definition requiredSkillsMet :: "career_db \<Rightarrow> career_graph \<Rightarrow> career_profile \<Rightarrow> nat \<times> nat" where
  "requiredSkillsMet db g p =
     (length (requiredSkills g p), length (filter (\<lambda>s. skId s \<in> achievedSkills db p) (requiredSkills g p)))"

definition all_required_item :: "career_db \<Rightarrow> career_graph \<Rightarrow> career_profile \<Rightarrow> bool \<Rightarrow> measured" where
  "all_required_item db g p implicit =
     (case requiredSkillsMet db g p of (asked, met) \<Rightarrow>
        \<lparr> mrCode = ALL_REQUIRED_SKILLS, mrTarget = Some (of_nat asked), mrCurrent = Some (of_nat met), mrMet = (asked \<le> met),
          mrImplicit = implicit, mrRefSkill = None \<rparr>)"

text \<open>One requirement of a position. A skill no longer in use is not asked for.\<close>

definition measure_entry :: "instant \<Rightarrow> career_db \<Rightarrow> career_graph \<Rightarrow> career_profile \<Rightarrow> requirement_row \<Rightarrow> measured list" where
  "measure_entry now db g p r =
     (let month = (case lastEndedVnMonth now of
            Some (fromDate, toDate) \<Rightarrow> completedWork db (cpId p) (Some fromDate) (Some toDate) | None \<Rightarrow> (0, 0));
          held = completedWork db (cpId p) (positionWindowStart db p) None in
      (case rwCode r of
         MONTHLY_SHIFTS \<Rightarrow> [measured_item MONTHLY_SHIFTS (rwValue r) (Some (of_nat (fst month)))]
       | MONTHLY_HOURS \<Rightarrow> [measured_item MONTHLY_HOURS (rwValue r) (Some (hoursOf (snd month)))]
       | WORK_HOURS \<Rightarrow> [measured_item WORK_HOURS (rwValue r) (Some (hoursOf (snd held)))]
       | COMPLETED_SHIFTS \<Rightarrow> [measured_item COMPLETED_SHIFTS (rwValue r) (Some (of_nat (fst held)))]
       | SKILL_ACHIEVED \<Rightarrow>
           (case skill_of g (rwRefSkill r) of
              None \<Rightarrow> []
            | Some s \<Rightarrow> [(measured_item SKILL_ACHIEVED None None)\<lparr> mrMet := skId s \<in> achievedSkills db p, mrRefSkill := Some (skId s) \<rparr>])
       | ALL_REQUIRED_SKILLS \<Rightarrow> [all_required_item db g p False]
       | _ \<Rightarrow> []))"

definition measureEntry :: "instant \<Rightarrow> career_db \<Rightarrow> career_graph \<Rightarrow> career_profile \<Rightarrow> requirement_row list \<Rightarrow> measured list" where
  "measureEntry now db g p requirements = concat (map (measure_entry now db g p) requirements)"

record evaluation =
  evPassed :: bool
  evProgress :: rat
  evItems :: "measured list"

definition evaluationOf :: "measured list \<Rightarrow> bool \<Rightarrow> evaluation" where
  "evaluationOf items adjacent =
     (let met = length (filter mrMet items) in
      \<lparr> evPassed = (adjacent \<and> met = length items),
        evProgress = (if items = [] then 100 else js_round (of_nat met / of_nat (length items) * 100)), evItems = items \<rparr>)"

section \<open>Skills\<close>

datatype skill_status = LOCKED | IN_PROGRESS | AWAITING_CONFIRMATION | ACHIEVED

record skill_state =
  ssSkill :: skill
  ssStatus :: skill_status
  ssUnlockedAt :: "instant option"
  ssAchievedAt :: "instant option"
  ssPassCount :: nat
  ssEvaluation :: "evaluation option"

text \<open>Hours of practice count in the department, and for a skill of a position in that position, from the day the skill opened.\<close>

definition evaluateSkill :: "career_db \<Rightarrow> career_graph \<Rightarrow> career_profile \<Rightarrow> skill \<Rightarrow> instant option \<Rightarrow> evaluation" where
  "evaluateSkill db g p s unlockedAt =
     (let here = cpDepartment p = skDepartment s \<and> (skPosition s = None \<or> cpRole p = skPosition s);
          minutes = (if here then snd (completedWork db (cpId p) (map_option vnDateString unlockedAt) None) else 0);
          passes = passEvaluationsSince db (cpId p) (skId s) unlockedAt in
      evaluationOf (concat (map (\<lambda>r.
        (case rwCode r of
           PRACTICE_HOURS \<Rightarrow> [measured_item PRACTICE_HOURS (rwValue r) (Some (hoursOf minutes))]
         | SUCCESSFUL_REPS \<Rightarrow> [measured_item SUCCESSFUL_REPS (rwValue r) (Some (of_nat passes))]
         | MANAGER_REVIEW \<Rightarrow> [(measured_item MANAGER_REVIEW None None)\<lparr> mrMet := 0 < passes \<rparr>]
         | _ \<Rightarrow> [])) (requirementsOfSkill g (skId s)))) True)"

definition progress_of :: "career_db \<Rightarrow> career_profile \<Rightarrow> string \<Rightarrow> skill_progress option" where
  "progress_of db p skillId = find (\<lambda>g. spSkill g = skillId) (rev (progressRows db p))"

text \<open>The walk along the sequence with the gate and the last time a required skill was achieved. A skill outside the order neither
  waits nor holds back.\<close>

fun skill_walk ::
  "career_db \<Rightarrow> career_graph \<Rightarrow> career_profile \<Rightarrow> bool \<Rightarrow> instant option \<Rightarrow> skill list \<Rightarrow> skill_state list" where
  "skill_walk db g p gateOpen lastRequired [] = []"
| "skill_walk db g p gateOpen lastRequired (s # ss) =
     (let row = progress_of db p (skId s); required = skOrdered s \<and> skLevel s = REQUIRED in
      case (case row of Some r \<Rightarrow> if spAchieved r then Some r else None | None \<Rightarrow> None) of
        Some r \<Rightarrow>
          \<lparr> ssSkill = s, ssStatus = ACHIEVED, ssUnlockedAt = spUnlockedAt r, ssAchievedAt = spAchievedAt r, ssPassCount = 0,
            ssEvaluation = None \<rparr> #
          skill_walk db g p gateOpen (if required then later [lastRequired, spAchievedAt r] else lastRequired) ss
      | None \<Rightarrow>
          if skOrdered s \<and> \<not> gateOpen then
            \<lparr> ssSkill = s, ssStatus = LOCKED, ssUnlockedAt = None, ssAchievedAt = None, ssPassCount = 0, ssEvaluation = None \<rparr> #
            skill_walk db g p gateOpen lastRequired ss
          else
            let entered = (if skPosition s \<noteq> None
                  then (if livePositionId g p \<noteq> None then positionEnteredAt db p else None) else departmentEnteredAt db p);
                unlockedAt = (if skOrdered s then later [entered, Some (skCreated s), lastRequired] else later [entered, Some (skCreated s)]);
                evaluation = evaluateSkill db g p s unlockedAt in
            \<lparr> ssSkill = s, ssStatus = (if evPassed evaluation then AWAITING_CONFIRMATION else IN_PROGRESS), ssUnlockedAt = unlockedAt,
              ssAchievedAt = None, ssPassCount = passEvaluationsSince db (cpId p) (skId s) unlockedAt, ssEvaluation = Some evaluation \<rparr> #
            skill_walk db g p (gateOpen \<and> \<not> required) lastRequired ss)"

definition skillStates :: "career_db \<Rightarrow> career_graph \<Rightarrow> career_profile \<Rightarrow> skill_state list" where
  "skillStates db g p = skill_walk db g p True None (skillsOf g (cpDepartment p) (livePositionId g p))"

section \<open>The next step\<close>

definition positionAdjacent :: "career_graph \<Rightarrow> career_profile \<Rightarrow> position \<Rightarrow> bool" where
  "positionAdjacent g p target =
     (let sameDepartment = (poDepartment target = cpDepartment p) in
      case currentLive g p of
        None \<Rightarrow>
          if poRank target \<noteq> Some 1 then False
          else if cpDepartment p = None then True
          else if positionsOf g (cpDepartment p) \<noteq> [] then sameDepartment
          else sameDepartment \<or> isAncestor g (the (poDepartment target)) (cpDepartment p)
      | Some current \<Rightarrow>
          if sameDepartment then poRank target = Some (the (poRank current) + 1)
          else poRank target = Some 1 \<and>
            (positionsOf g (cpDepartment p) \<noteq> [] \<and> poId (last (positionsOf g (cpDepartment p))) = poId current) \<and>
            isAncestor g (the (poDepartment target)) (cpDepartment p))"

record promotion_target =
  ptPosition :: "position option"
  ptDepartment :: string
  ptAdjacent :: bool
  ptEvaluation :: evaluation

definition addImplicitSkills ::
  "career_db \<Rightarrow> career_graph \<Rightarrow> career_profile \<Rightarrow> measured list \<Rightarrow> bool \<Rightarrow> measured list" where
  "addImplicitSkills db g p items required =
     (if \<not> required \<or> cpDepartment p = None then items
      else if \<exists>i \<in> set items. mrCode i = ALL_REQUIRED_SKILLS then items
      else if fst (requiredSkillsMet db g p) = 0 then items
      else items @ [all_required_item db g p True])"

definition evaluatePosition :: "instant \<Rightarrow> career_db \<Rightarrow> career_graph \<Rightarrow> career_profile \<Rightarrow> position \<Rightarrow> promotion_target" where
  "evaluatePosition now db g p target =
     (let adjacent = positionAdjacent g p target;
          items = addImplicitSkills db g p (measureEntry now db g p (requirementsOfPosition g (poId target)))
            (currentLive g p \<noteq> None \<or> poDepartment target \<noteq> cpDepartment p) in
      \<lparr> ptPosition = Some target, ptDepartment = the (poDepartment target), ptAdjacent = adjacent, ptEvaluation = evaluationOf items adjacent \<rparr>)"

definition departmentAdjacent :: "career_graph \<Rightarrow> career_profile \<Rightarrow> department \<Rightarrow> bool" where
  "departmentAdjacent g p target \<longleftrightarrow>
     \<not> dpSystem target \<and> Some (dpId target) \<noteq> cpDepartment p \<and>
     (cpDepartment p = None \<or>
      isAncestor g (dpId target) (cpDepartment p) \<and>
      (case currentLive g p of
         Some current \<Rightarrow> positionsOf g (cpDepartment p) \<noteq> [] \<and> poId (last (positionsOf g (cpDepartment p))) = poId current
       | None \<Rightarrow> positionsOf g (cpDepartment p) = []))"

definition evaluateDepartment :: "career_db \<Rightarrow> career_graph \<Rightarrow> career_profile \<Rightarrow> department \<Rightarrow> promotion_target" where
  "evaluateDepartment db g p target =
     \<lparr> ptPosition = None, ptDepartment = dpId target, ptAdjacent = departmentAdjacent g p target,
       ptEvaluation = evaluationOf (addImplicitSkills db g p [] True) (departmentAdjacent g p target) \<rparr>"

definition nextTarget :: "instant \<Rightarrow> career_db \<Rightarrow> career_graph \<Rightarrow> career_profile \<Rightarrow> promotion_target option" where
  "nextTarget now db g p =
     (if cpDepartment p = None then None
      else
        let ladder = positionsOf g (cpDepartment p);
            inDepartment = (case currentLive g p of
              Some current \<Rightarrow> find (\<lambda>q. poRank q = Some (the (poRank current) + 1)) ladder
            | None \<Rightarrow> (case ladder of q # _ \<Rightarrow> Some q | [] \<Rightarrow> None)) in
        (case inDepartment of
           Some q \<Rightarrow> Some (evaluatePosition now db g p q)
         | None \<Rightarrow>
             (case department_of g (case department_of g (cpDepartment p) of Some d \<Rightarrow> dpParent d | None \<Rightarrow> None) of
                None \<Rightarrow> None
              | Some parent \<Rightarrow>
                  if dpSystem parent then None
                  else (case positionsOf g (Some (dpId parent)) of
                          entry # _ \<Rightarrow> Some (evaluatePosition now db g p entry)
                        | [] \<Rightarrow> Some (evaluateDepartment db g p parent)))))"

section \<open>Who stands where\<close>

text \<open>The share of each requirement that is done, added up; of scores closer than a millionth neither is ahead.\<close>

definition item_score :: "measured \<Rightarrow> rat" where
  "item_score i =
     (if mrMet i then 1
      else (case (mrCurrent i, mrTarget i) of
              (Some c, Some t) \<Rightarrow> if t \<le> 0 then 0 else min (max (c / t) 0) 1
            | _ \<Rightarrow> 0))"

definition careerScore :: "promotion_target option \<Rightarrow> rat" where
  "careerScore target = (case target of None \<Rightarrow> 0 | Some t \<Rightarrow> sum_list (map item_score (evItems (ptEvaluation t))))"

definition SCORE_EPSILON :: rat where "SCORE_EPSILON = 1 / 1000000"

definition positionRankMeasured :: nat where "positionRankMeasured = 40"

definition colleagues :: "career_db \<Rightarrow> string \<Rightarrow> career_profile list" where
  "colleagues db roleId = filter (\<lambda>q. cpRole q = Some roleId \<and> isEmployed (cpStatus q)) (cdProfiles db)"

definition positionRank :: "instant \<Rightarrow> career_db \<Rightarrow> career_graph \<Rightarrow> career_profile \<Rightarrow> promotion_target \<Rightarrow> (nat \<times> nat) option" where
  "positionRank now db g p own =
     (case cpRole p of
        None \<Rightarrow> None
      | Some roleId \<Rightarrow>
          if length (colleagues db roleId) > positionRankMeasured then None
          else
            let others = filter (\<lambda>q. cpId q \<noteq> cpId p) (colleagues db roleId); mine = careerScore (Some own);
                ahead = length (filter (\<lambda>q. mine + SCORE_EPSILON < careerScore (nextTarget now db g q)) others) in
            Some (ahead + 1, length others + 1))"

definition employed_profiles :: "career_db \<Rightarrow> career_profile list" where
  "employed_profiles db = filter (\<lambda>p. isEmployed (cpStatus p)) (cdProfiles db)"

text \<open>The list "waiting for review": who passes the next step, and which skills wait for the manager. Profiles come in the order
  of names; here of the table.\<close>

definition getPendingReviews :: "instant \<Rightarrow> career_db \<Rightarrow> (string \<times> promotion_target) list \<times> (string \<times> skill_state) list" where
  "getPendingReviews now db =
     (let g = loadGraph db in
      (concat (map (\<lambda>p. (case nextTarget now db g p of
           Some t \<Rightarrow> if evPassed (ptEvaluation t) then [(cpId p, t)] else []
         | None \<Rightarrow> [])) (employed_profiles db)),
       concat (map (\<lambda>p. map (Pair (cpId p)) (filter (\<lambda>s. ssStatus s = AWAITING_CONFIRMATION \<and> skConfirmation (ssSkill s) = BY_MANAGER)
         (skillStates db g p))) (employed_profiles db))))"

end
