(* ===== verification/CareerStructure.thy ===== *)
theory CareerStructure
  imports CareerModel
begin

text \<open>
  The writes of \<open>career/career-structure.service.ts\<close> and \<open>career/career-store.ts\<close>: departments, positions and skills are created,
  changed, moved, copied and deleted, each in one transaction under the lock of the store's settings row, so each is one step on the
  tables. Activity log and the permission table of a new position are left out. Ids come from the database: \<open>evNewId\<close> is
  what it draws in a state. SQL's \<open>lower\<close> is not in the repository and is a parameter, as is the Vietnamese suffix of a copy's name,
  which strings of one-byte characters cannot spell; names are compared in lower case in JavaScript as well.
\<close>

record career_env =
  evNewId :: "career_db \<Rightarrow> string"
  evSqlLower :: "string \<Rightarrow> string"
  evToLowerCase :: "string \<Rightarrow> string"
  evCopySuffix :: "nat \<Rightarrow> string"
  evSystemName :: string

section \<open>Base rows and guards\<close>

text \<open>Every transaction first makes sure that the system department exists.\<close>

definition ensureCareerBase :: "career_env \<Rightarrow> career_db \<Rightarrow> career_db" where
  "ensureCareerBase env db =
     (if \<exists>d \<in> set (cdDepartments db). dpSystem d then db
      else db\<lparr> cdDepartments := cdDepartments db @
        [\<lparr> dpId = evNewId env db, dpParent = None, dpTier = 1, dpName = evSystemName env, dpDescription = None, dpSort = 0, dpSystem = True \<rparr>] \<rparr>)"

definition write_structure :: "career_env \<Rightarrow> career_db \<Rightarrow> (career_db \<Rightarrow> career_error + career_db) \<Rightarrow> career_error + career_db" where
  "write_structure env db work =
     (let base = ensureCareerBase env db in and_then (fail_if (\<not> cdEnabled base) V2_DISABLED) (\<lambda>_. work base))"

definition find_department :: "career_db \<Rightarrow> string \<Rightarrow> career_error + department" where
  "find_department db i =
     (case find (\<lambda>d. dpId d = i) (cdDepartments db) of Some d \<Rightarrow> Inr d | None \<Rightarrow> Inl (CareerMissing DEPARTMENT))"

definition find_position :: "career_db \<Rightarrow> string \<Rightarrow> career_error + position" where
  "find_position db i =
     (case find (\<lambda>p. poId p = i) (cdPositions db) of Some p \<Rightarrow> Inr p | None \<Rightarrow> Inl (CareerMissing POSITION))"

definition find_skill :: "career_db \<Rightarrow> string \<Rightarrow> career_error + skill" where
  "find_skill db i = (case find (\<lambda>s. skId s = i) (cdSkills db) of Some s \<Rightarrow> Inr s | None \<Rightarrow> Inl (CareerMissing SKILL))"

definition memberDepartment :: "career_db \<Rightarrow> string \<Rightarrow> career_error + department" where
  "memberDepartment db i =
     and_then (find_department db i) (\<lambda>d. and_then (fail_if (dpSystem d) SYSTEM_DEPARTMENT) (\<lambda>_. Inr d))"

definition assertTier :: "department \<Rightarrow> int \<Rightarrow> career_error + unit" where
  "assertTier parent tier = fail_if (\<not> (2 \<le> tier \<and> tier \<le> 4) \<or> tier \<le> dpTier parent) TIER_INVALID"

definition assertDepartmentNameFree :: "career_env \<Rightarrow> career_db \<Rightarrow> string \<Rightarrow> career_error + unit" where
  "assertDepartmentNameFree env db name =
     fail_if (\<exists>d \<in> set (cdDepartments db). evSqlLower env (dpName d) = evSqlLower env name) NAME_TAKEN"

definition positionNameFree :: "career_env \<Rightarrow> career_db \<Rightarrow> string \<Rightarrow> string \<Rightarrow> string option \<Rightarrow> career_error + unit" where
  "positionNameFree env db departmentId name exceptId =
     fail_if (\<exists>p \<in> set (cdPositions db). poDepartment p = Some departmentId \<and> evSqlLower env (poName p) = evSqlLower env name \<and>
       Some (poId p) \<noteq> exceptId) NAME_TAKEN"

definition skillNameFree :: "career_env \<Rightarrow> career_db \<Rightarrow> string \<Rightarrow> string \<Rightarrow> string option \<Rightarrow> career_error + unit" where
  "skillNameFree env db departmentId name exceptId =
     fail_if (\<exists>s \<in> set (cdSkills db). skDepartment s = Some departmentId \<and> evSqlLower env (skName s) = evSqlLower env name \<and>
       Some (skId s) \<noteq> exceptId) NAME_TAKEN"

definition nextSortOrder :: "career_db \<Rightarrow> string option \<Rightarrow> int" where
  "nextSortOrder db parentId =
     (let m = (case map dpSort (filter (\<lambda>d. dpParent d = parentId) (cdDepartments db)) of [] \<Rightarrow> 0 | x # xs \<Rightarrow> foldr max xs x) + 1
      in if m = 0 then 1 else m)"

definition trimOrNull :: "string option \<Rightarrow> string option" where
  "trimOrNull s = (case s of None \<Rightarrow> None | Some t \<Rightarrow> if js_trim t = [] then None else Some (js_trim t))"

section \<open>Departments\<close>

record department_input =
  diName :: "string option"
  diDescription :: "string option option"
  diTier :: "int option"
  diParent :: "string option"

definition departmentsPerStore :: nat where "departmentsPerStore = 50"

definition createDepartment :: "career_env \<Rightarrow> career_db \<Rightarrow> string \<Rightarrow> string option \<Rightarrow> int \<Rightarrow> string \<Rightarrow> career_error + career_db" where
  "createDepartment env db0 name description tier parentId =
     write_structure env db0 (\<lambda>db.
       and_then (fail_if (departmentsPerStore \<le> length (cdDepartments db)) LIMIT_REACHED) (\<lambda>_.
       and_then (find_department db parentId) (\<lambda>parent.
       and_then (assertTier parent tier) (\<lambda>_.
       and_then (assertDepartmentNameFree env db (js_trim name)) (\<lambda>_.
       Inr (db\<lparr> cdDepartments := cdDepartments db @
         [\<lparr> dpId = evNewId env db, dpParent = Some (dpId parent), dpTier = tier, dpName = js_trim name,
            dpDescription = trimOrNull description, dpSort = nextSortOrder db (Some (dpId parent)), dpSystem = False \<rparr>] \<rparr>))))))"

text \<open>The walk from the new parent to the root that looks for the department itself. Every turn moves to another row, so a walk of
  more turns than rows would go round for ever (\<open>NeverReturns\<close>).\<close>

fun meets_itself :: "nat \<Rightarrow> department list \<Rightarrow> string \<Rightarrow> department option \<Rightarrow> bool option" where
  "meets_itself fuel rows i None = Some False"
| "meets_itself 0 rows i (Some cursor) = None"
| "meets_itself (Suc fuel) rows i (Some cursor) =
     (if dpId cursor = i then Some True
      else meets_itself fuel rows i (case dpParent cursor of None \<Rightarrow> None | Some p \<Rightarrow> find (\<lambda>d. dpId d = p) rows))"

definition move_department :: "career_db \<Rightarrow> department \<Rightarrow> int \<Rightarrow> string option \<Rightarrow> career_error + department" where
  "move_department db d tier parentId =
     (if tier = dpTier d \<and> parentId = dpParent d then Inr d
      else (case find (\<lambda>x. Some (dpId x) = parentId) (cdDepartments db) of
          None \<Rightarrow> Inl (CareerMissing DEPARTMENT)
        | Some parent \<Rightarrow>
            and_then (assertTier parent tier) (\<lambda>_.
            (case meets_itself (length (cdDepartments db)) (cdDepartments db) (dpId d) (Some parent) of
               None \<Rightarrow> Inl NeverReturns
             | Some True \<Rightarrow> Inl PARENT_INVALID
             | Some False \<Rightarrow>
                 and_then (fail_if (\<exists>c \<in> set (cdDepartments db). dpParent c = Some (dpId d) \<and> dpTier c \<le> tier) TIER_INVALID) (\<lambda>_.
                 Inr (d\<lparr> dpSort := (if parentId \<noteq> dpParent d then nextSortOrder db parentId else dpSort d),
                         dpTier := tier, dpParent := parentId \<rparr>))))))"

definition place_department :: "career_db \<Rightarrow> department \<Rightarrow> department_input \<Rightarrow> career_error + department" where
  "place_department db d dto =
     (if dpSystem d then
        and_then (fail_if ((diTier dto \<noteq> None \<and> diTier dto \<noteq> Some (dpTier d)) \<or> (diParent dto \<noteq> None \<and> diParent dto \<noteq> dpParent d))
          SYSTEM_DEPARTMENT) (\<lambda>_. Inr d)
      else move_department db d (case diTier dto of Some t \<Rightarrow> t | None \<Rightarrow> dpTier d)
        (case diParent dto of Some p \<Rightarrow> Some p | None \<Rightarrow> dpParent d))"

definition name_department :: "career_env \<Rightarrow> career_db \<Rightarrow> department_input \<Rightarrow> department \<Rightarrow> career_error + department" where
  "name_department env db dto d =
     (case diName dto of
        None \<Rightarrow> Inr d
      | Some n \<Rightarrow>
          and_then (if evToLowerCase env (js_trim n) = evToLowerCase env (dpName d) then Inr () else assertDepartmentNameFree env db (js_trim n))
            (\<lambda>_. Inr (d\<lparr> dpName := js_trim n \<rparr>)))"

definition describe_department :: "department_input \<Rightarrow> department \<Rightarrow> department" where
  "describe_department dto d = (case diDescription dto of None \<Rightarrow> d | Some t \<Rightarrow> d\<lparr> dpDescription := trimOrNull t \<rparr>)"

definition updateDepartment :: "career_env \<Rightarrow> career_db \<Rightarrow> string \<Rightarrow> department_input \<Rightarrow> career_error + career_db" where
  "updateDepartment env db0 i dto =
     write_structure env db0 (\<lambda>db.
       and_then (find_department db i) (\<lambda>d.
       and_then (place_department db d dto) (\<lambda>moved.
       and_then (name_department env db dto moved) (\<lambda>named.
       Inr (db\<lparr> cdDepartments := map (\<lambda>x. if dpId x = dpId d then describe_department dto named else x) (cdDepartments db) \<rparr>)))))"

text \<open>Skills that are taken away leave the order; their requirements, those that ask for them and unfinished progress go, what was
  achieved stays.\<close>

definition retireSkills :: "career_db \<Rightarrow> string list \<Rightarrow> career_db" where
  "retireSkills db ids =
     db\<lparr> cdSkills := filter (\<lambda>s. skId s \<notin> set ids) (cdSkills db),
         cdRequirements := filter (\<lambda>r. \<not> (\<exists>i \<in> set ids. rwSkill r = Some i \<or> rwRefSkill r = Some i)) (cdRequirements db),
         cdProgress := filter (\<lambda>g. spAchieved g \<or> spSkill g \<notin> set ids) (cdProgress db) \<rparr>"

definition deleteDepartment :: "career_env \<Rightarrow> career_db \<Rightarrow> string \<Rightarrow> career_error + career_db" where
  "deleteDepartment env db0 i =
     write_structure env db0 (\<lambda>db.
       and_then (find_department db i) (\<lambda>d.
       and_then (fail_if (dpSystem d) SYSTEM_DEPARTMENT) (\<lambda>_.
       let own = filter (\<lambda>p. poDepartment p = Some (dpId d)) (cdPositions db);
           children = length (filter (\<lambda>c. dpParent c = Some (dpId d)) (cdDepartments db));
           employees = length (filter (\<lambda>p. isEmployed (cpStatus p) \<and>
             (cpDepartment p = Some (dpId d) \<or> (\<exists>q \<in> set own. cpRole p = Some (poId q)))) (cdProfiles db)) in
       and_then (fail_if (0 < children \<or> 0 < employees) (DEPARTMENT_IN_USE children employees)) (\<lambda>_.
       let skills = map skId (filter (\<lambda>s. skDepartment s = Some (dpId d)) (cdSkills db));
           db1 = retireSkills (db\<lparr> cdPositions := filter (\<lambda>p. poDepartment p \<noteq> Some (dpId d)) (cdPositions db) \<rparr>) skills in
       Inr (db1\<lparr> cdRequirements := filter (\<lambda>r. rwDepartment r \<noteq> Some (dpId d) \<and> \<not> (\<exists>q \<in> set own. rwPosition r = Some (poId q)))
                   (cdRequirements db1),
                 cdDepartments := filter (\<lambda>x. dpId x \<noteq> dpId d) (cdDepartments db1) \<rparr>)))))"

text \<open>The first free name of at most 80 characters among the numbered copies.\<close>

definition trimEnd :: "string \<Rightarrow> string" where
  "trimEnd s = rev (dropWhile js_space (rev s))"

definition copyName :: "career_env \<Rightarrow> career_db \<Rightarrow> string \<Rightarrow> career_error + string" where
  "copyName env db base =
     (let taken = map (evSqlLower env \<circ> dpName) (cdDepartments db) in
      case find (\<lambda>name. evToLowerCase env name \<notin> set taken)
        (map (\<lambda>n. trimEnd (take (80 - length (evCopySuffix env n)) base) @ evCopySuffix env n) [1..<1000]) of
        Some name \<Rightarrow> Inr name
      | None \<Rightarrow> Inl NAME_TAKEN)"

text \<open>Inserting a copy of each row of a list, with the map from the old ids to the new ones.\<close>

definition copy_position ::
  "career_env \<Rightarrow> instant \<Rightarrow> string \<Rightarrow> career_db \<times> (string \<times> string) list \<Rightarrow> position \<Rightarrow> career_db \<times> (string \<times> string) list" where
  "copy_position env now departmentId = (\<lambda>(db, ids) p.
     (db\<lparr> cdPositions := cdPositions db @
        [\<lparr> poId = evNewId env db, poDepartment = Some departmentId, poRank = poRank p, poName = poName p, poDescription = poDescription p,
           poActive = True, poCreated = now \<rparr>] \<rparr>, (poId p, evNewId env db) # ids))"

definition copy_skill ::
  "career_env \<Rightarrow> instant \<Rightarrow> string \<Rightarrow> (string \<times> string) list \<Rightarrow> career_db \<times> (string \<times> string) list \<Rightarrow> skill \<Rightarrow>
     career_db \<times> (string \<times> string) list" where
  "copy_skill env now departmentId positions = (\<lambda>(db, ids) s.
     (db\<lparr> cdSkills := cdSkills db @
        [s\<lparr> skId := evNewId env db, skDepartment := Some departmentId,
            skPosition := (case skPosition s of None \<Rightarrow> None | Some q \<Rightarrow> map_of positions q), skCreated := now \<rparr>] \<rparr>,
      (skId s, evNewId env db) # ids))"

definition copy_requirements ::
  "requirement_row list \<Rightarrow> (requirement_row \<Rightarrow> bool) \<Rightarrow> string option \<Rightarrow> string option \<Rightarrow> (string \<times> string) list \<Rightarrow> career_db \<Rightarrow> career_db" where
  "copy_requirements all keep positionId skillId skills db =
     db\<lparr> cdRequirements := cdRequirements db @ map (\<lambda>r. r\<lparr> rwDepartment := None, rwPosition := positionId, rwSkill := skillId,
        rwRefSkill := (case rwRefSkill r of None \<Rightarrow> None
                       | Some s \<Rightarrow> (case map_of skills s of Some t \<Rightarrow> Some t | None \<Rightarrow> Some s)) \<rparr>) (filter keep all) \<rparr>"

definition write_copy :: "career_env \<Rightarrow> instant \<Rightarrow> department \<Rightarrow> string \<Rightarrow> career_db \<Rightarrow> career_db" where
  "write_copy env now source name db =
     (let copyId = evNewId env db;
          db1 = db\<lparr> cdDepartments := cdDepartments db @
            [\<lparr> dpId = copyId, dpParent = dpParent source, dpTier = dpTier source, dpName = name, dpDescription = dpDescription source,
               dpSort = nextSortOrder db (dpParent source), dpSystem = False \<rparr>] \<rparr>;
          all = cdRequirements db1;
          positions = filter (\<lambda>p. poDepartment p = Some (dpId source)) (cdPositions db1);
          (db2, positionMap) = foldl (copy_position env now copyId) (db1, []) positions;
          skills = filter (\<lambda>s. skDepartment s = Some (dpId source)) (cdSkills db2);
          (db3, skillMap) = foldl (copy_skill env now copyId positionMap) (db2, []) skills;
          db4 = foldl (\<lambda>d s. copy_requirements all (\<lambda>r. rwSkill r = Some (skId s)) None (map_of skillMap (skId s)) skillMap d) db3 skills
      in foldl (\<lambda>d p. copy_requirements all (\<lambda>r. rwPosition r = Some (poId p)) (map_of positionMap (poId p)) None skillMap d)
           db4 positions)"

definition duplicateDepartment :: "career_env \<Rightarrow> instant \<Rightarrow> career_db \<Rightarrow> string \<Rightarrow> career_error + career_db" where
  "duplicateDepartment env now db0 i =
     write_structure env db0 (\<lambda>db.
       and_then (find_department db i) (\<lambda>source.
       and_then (fail_if (dpSystem source) SYSTEM_DEPARTMENT) (\<lambda>_.
       and_then (fail_if (departmentsPerStore \<le> length (cdDepartments db)) LIMIT_REACHED) (\<lambda>_.
       and_then (copyName env db (dpName source)) (\<lambda>name. Inr (write_copy env now source name db))))))"

section \<open>Order\<close>

text \<open>The rows of a department in their order: by number, rows without one last, then by creation and id. \<open>applyOrder\<close> writes the
  numbers 1, 2, \<dots> to the rows with the given ids.\<close>

definition in_order :: "('r \<Rightarrow> int option) \<Rightarrow> ('r \<Rightarrow> instant) \<Rightarrow> ('r \<Rightarrow> string) \<Rightarrow> 'r list \<Rightarrow> 'r list" where
  "in_order num created ident rows =
     (let s = sort_key created (sort_key ident rows) in
      sort_key (\<lambda>r. the (num r)) (filter (\<lambda>r. num r \<noteq> None) s) @ filter (\<lambda>r. num r = None) s)"

definition orderedPositions :: "career_db \<Rightarrow> string \<Rightarrow> string list" where
  "orderedPositions db departmentId =
     map poId (in_order poRank poCreated poId (filter (\<lambda>p. poDepartment p = Some departmentId) (cdPositions db)))"

definition orderedSkills :: "career_db \<Rightarrow> string \<Rightarrow> string list" where
  "orderedSkills db departmentId =
     map skId (in_order skSequence skCreated skId (filter (\<lambda>s. skDepartment s = Some departmentId) (cdSkills db)))"

definition placed :: "string list \<Rightarrow> string \<Rightarrow> int option \<Rightarrow> string list" where
  "placed order i position =
     (let rest = filter (\<lambda>x. x \<noteq> i) order;
          index = (case position of None \<Rightarrow> length rest | Some n \<Rightarrow> nat (min (max (n - 1) 0) (int (length rest)))) in
      take index rest @ i # drop index rest)"

fun number_rows :: "('r \<Rightarrow> string) \<Rightarrow> (int \<Rightarrow> 'r \<Rightarrow> 'r) \<Rightarrow> int \<Rightarrow> string list \<Rightarrow> 'r list \<Rightarrow> 'r list" where
  "number_rows ident set_num n [] rows = rows"
| "number_rows ident set_num n (i # ids) rows =
     number_rows ident set_num (n + 1) ids (map (\<lambda>r. if ident r = i then set_num n r else r) rows)"

definition set_rank :: "int \<Rightarrow> position \<Rightarrow> position" where
  "set_rank n p = p\<lparr> poRank := Some n \<rparr>"

definition set_sequence :: "int \<Rightarrow> skill \<Rightarrow> skill" where
  "set_sequence n s = s\<lparr> skSequence := Some n \<rparr>"

definition orderPositions :: "career_db \<Rightarrow> string list \<Rightarrow> career_db" where
  "orderPositions db ids = db\<lparr> cdPositions := number_rows poId set_rank 1 ids (cdPositions db) \<rparr>"

definition orderSkills :: "career_db \<Rightarrow> string list \<Rightarrow> career_db" where
  "orderSkills db ids = db\<lparr> cdSkills := number_rows skId set_sequence 1 ids (cdSkills db) \<rparr>"

text \<open>The requirements of a position or skill are replaced as a whole; referenced skills must be in use.\<close>

definition writeRequirements ::
  "string option \<Rightarrow> string option \<Rightarrow> requirement list \<Rightarrow> career_db \<Rightarrow> career_error + career_db" where
  "writeRequirements positionId skillId requirements db =
     (let refs = List.map_filter nrRefSkill requirements in
      and_then (fail_if (\<not> (\<forall>i \<in> set refs. \<exists>s \<in> set (cdSkills db). skId s = i \<and> skActive s)) REQUIREMENT_INVALID) (\<lambda>_.
      Inr (db\<lparr> cdRequirements :=
        filter (\<lambda>r. \<not> (if positionId \<noteq> None then rwPosition r = positionId else rwSkill r = skillId)) (cdRequirements db) @
        map (\<lambda>(k, r). \<lparr> rwDepartment = None, rwPosition = positionId, rwSkill = skillId, rwCode = nrCode r, rwValue = nrValue r,
                        rwRefSkill = nrRefSkill r, rwSort = int k \<rparr>) (List.enumerate 0 requirements) \<rparr>)))"

definition replaceRequirements ::
  "career_subject \<Rightarrow> string option \<Rightarrow> string option \<Rightarrow> requirement_input list option \<Rightarrow> career_db \<Rightarrow> career_error + career_db" where
  "replaceRequirements subject positionId skillId reqs db =
     (case reqs of
        None \<Rightarrow> Inr db
      | Some rs \<Rightarrow> and_then (normalizeRequirements subject (Some rs)) (\<lambda>requirements. writeRequirements positionId skillId requirements db))"

section \<open>Positions\<close>

record position_input =
  piDepartment :: "string option"
  piName :: "string option"
  piDescription :: "string option option"
  piRank :: "int option"
  piRequirements :: "requirement_input list option"

definition positionsPerDepartment :: nat where "positionsPerDepartment = 30"

definition skillsPerDepartment :: nat where "skillsPerDepartment = 30"

definition insert_position ::
  "career_env \<Rightarrow> instant \<Rightarrow> career_db \<Rightarrow> string \<Rightarrow> string \<Rightarrow> string option \<Rightarrow> int option \<Rightarrow> requirement list \<Rightarrow> career_error + career_db" where
  "insert_position env now db departmentId name description rank requirements =
     (let newId = evNewId env db in
      writeRequirements (Some newId) None requirements
        (orderPositions (db\<lparr> cdPositions := cdPositions db @
           [\<lparr> poId = newId, poDepartment = Some departmentId, poRank = None, poName = js_trim name, poDescription = trimOrNull description,
              poActive = True, poCreated = now \<rparr>] \<rparr>) (placed (orderedPositions db departmentId) newId rank)))"

definition createPosition ::
  "career_env \<Rightarrow> instant \<Rightarrow> career_db \<Rightarrow> string \<Rightarrow> string \<Rightarrow> string option \<Rightarrow> int option \<Rightarrow> requirement_input list option \<Rightarrow>
     career_error + career_db" where
  "createPosition env now db0 departmentId name description rank reqs =
     write_structure env db0 (\<lambda>db.
       and_then (memberDepartment db departmentId) (\<lambda>d.
       and_then (positionNameFree env db (dpId d) (js_trim name) None) (\<lambda>_.
       and_then (normalizeRequirements POSITION reqs) (\<lambda>requirements.
       and_then (fail_if (positionsPerDepartment \<le> length (orderedPositions db (dpId d))) LIMIT_REACHED) (\<lambda>_.
       insert_position env now db (dpId d) name description rank requirements)))))"

definition countHolders :: "career_db \<Rightarrow> string \<Rightarrow> nat" where
  "countHolders db positionId = length (filter (\<lambda>p. cpRole p = Some positionId \<and> isEmployed (cpStatus p)) (cdProfiles db))"

definition assertNoPositionSkills :: "career_db \<Rightarrow> string \<Rightarrow> career_error + unit" where
  "assertNoPositionSkills db positionId =
     (let n = length (filter (\<lambda>s. skPosition s = Some positionId) (cdSkills db)) in fail_if (0 < n) (POSITION_IN_USE n))"

definition change_position :: "string \<Rightarrow> (position \<Rightarrow> position) \<Rightarrow> career_db \<Rightarrow> career_db" where
  "change_position i f db = db\<lparr> cdPositions := map (\<lambda>p. if poId p = i then f p else p) (cdPositions db) \<rparr>"

definition change_skill :: "string \<Rightarrow> (skill \<Rightarrow> skill) \<Rightarrow> career_db \<Rightarrow> career_db" where
  "change_skill i f db = db\<lparr> cdSkills := map (\<lambda>s. if skId s = i then f s else s) (cdSkills db) \<rparr>"

definition patched :: "'v option \<Rightarrow> 'v \<Rightarrow> 'v" where
  "patched new old = (case new of Some v \<Rightarrow> v | None \<Rightarrow> old)"

text \<open>To another department, or to another place of its own.\<close>

definition relocate_position :: "career_db \<Rightarrow> position \<Rightarrow> string \<Rightarrow> int option \<Rightarrow> career_db" where
  "relocate_position db role departmentId rank =
     (let target = orderedPositions db departmentId;
          db1 = (case poDepartment role of
            None \<Rightarrow> db
          | Some old \<Rightarrow> orderPositions (change_position (poId role) (\<lambda>p. p\<lparr> poRank := None \<rparr>) db)
              (filter (\<lambda>x. x \<noteq> poId role) (orderedPositions db old))) in
      orderPositions (change_position (poId role) (\<lambda>p. p\<lparr> poDepartment := Some departmentId \<rparr>) db1) (placed target (poId role) rank))"

definition move_position :: "career_env \<Rightarrow> career_db \<Rightarrow> position \<Rightarrow> string \<Rightarrow> position_input \<Rightarrow> career_error + career_db" where
  "move_position env db role targetId dto =
     (if Some targetId \<noteq> poDepartment role then
        and_then (fail_if (0 < countHolders db (poId role)) (POSITION_IN_USE (countHolders db (poId role)))) (\<lambda>_.
        and_then (assertNoPositionSkills db (poId role)) (\<lambda>_.
        and_then (memberDepartment db targetId) (\<lambda>d.
        and_then (fail_if (positionsPerDepartment \<le> length (orderedPositions db (dpId d))) LIMIT_REACHED) (\<lambda>_.
        and_then (positionNameFree env db (dpId d) (js_trim (patched (piName dto) (poName role))) (Some (poId role))) (\<lambda>_.
        Inr (relocate_position db role (dpId d) (piRank dto)))))))
      else if piRank dto \<noteq> None then Inr (orderPositions db (placed (orderedPositions db targetId) (poId role) (piRank dto)))
      else Inr db)"

definition edit_position :: "career_env \<Rightarrow> position \<Rightarrow> string \<Rightarrow> position_input \<Rightarrow> career_db \<Rightarrow> career_error + career_db" where
  "edit_position env role targetId dto db =
     and_then
       (case piName dto of
          Some n \<Rightarrow> if Some targetId = poDepartment role then positionNameFree env db targetId (js_trim n) (Some (poId role)) else Inr ()
        | None \<Rightarrow> Inr ())
       (\<lambda>_. Inr (change_position (poId role) (\<lambda>p. p\<lparr> poName := patched (map_option js_trim (piName dto)) (poName p),
          poDescription := patched (map_option trimOrNull (piDescription dto)) (poDescription p) \<rparr>) db))"

definition updatePosition :: "career_env \<Rightarrow> career_db \<Rightarrow> string \<Rightarrow> position_input \<Rightarrow> career_error + career_db" where
  "updatePosition env db0 i dto =
     write_structure env db0 (\<lambda>db.
       and_then (find_position db i) (\<lambda>role.
       (case (case piDepartment dto of Some d \<Rightarrow> Some d | None \<Rightarrow> poDepartment role) of
          None \<Rightarrow> Inl PARENT_INVALID
        | Some targetId \<Rightarrow>
            and_then (move_position env db role targetId dto) (\<lambda>db1.
            and_then (edit_position env role targetId dto db1) (\<lambda>db2.
            replaceRequirements POSITION (Some (poId role)) None (piRequirements dto) db2)))))"

definition remove_position :: "position \<Rightarrow> career_db \<Rightarrow> career_db" where
  "remove_position role db =
     (let remaining = (case poDepartment role of None \<Rightarrow> [] | Some d \<Rightarrow> filter (\<lambda>x. x \<noteq> poId role) (orderedPositions db d));
          db1 = orderPositions (db\<lparr> cdPositions := filter (\<lambda>p. poId p \<noteq> poId role) (cdPositions db) \<rparr>) remaining in
      db1\<lparr> cdRequirements := filter (\<lambda>r. rwPosition r \<noteq> Some (poId role)) (cdRequirements db1) \<rparr>)"

definition deletePosition :: "career_env \<Rightarrow> career_db \<Rightarrow> string \<Rightarrow> career_error + career_db" where
  "deletePosition env db0 i =
     write_structure env db0 (\<lambda>db.
       and_then (find_position db i) (\<lambda>role.
       and_then (fail_if (0 < countHolders db (poId role)) (POSITION_IN_USE (countHolders db (poId role)))) (\<lambda>_.
       and_then (assertNoPositionSkills db (poId role)) (\<lambda>_. Inr (remove_position role db)))))"

section \<open>Skills\<close>

record skill_input =
  kiDepartment :: "string option"
  kiPosition :: "string option option"
  kiName :: "string option"
  kiDescription :: "string option option"
  kiSequence :: "int option"
  kiLevel :: "skill_level option"
  kiConfirmation :: "skill_confirmation option"
  kiOrdered :: "bool option"
  kiActive :: "bool option"
  kiRequirements :: "requirement_input list option"

definition skillPosition :: "career_db \<Rightarrow> string \<Rightarrow> string option \<Rightarrow> career_error + string option" where
  "skillPosition db departmentId positionId =
     (case positionId of
        None \<Rightarrow> Inr None
      | Some i \<Rightarrow>
          and_then (find_position db i) (\<lambda>role.
          and_then (fail_if (poDepartment role \<noteq> Some departmentId \<or> poRank role = None \<or> \<not> poActive role) PARENT_INVALID) (\<lambda>_.
          Inr (Some (poId role)))))"

definition insert_skill ::
  "career_env \<Rightarrow> instant \<Rightarrow> career_db \<Rightarrow> string \<Rightarrow> string option \<Rightarrow> string \<Rightarrow> string option \<Rightarrow> int option \<Rightarrow> skill_level \<Rightarrow>
     skill_confirmation \<Rightarrow> bool \<Rightarrow> requirement list \<Rightarrow> career_error + career_db" where
  "insert_skill env now db departmentId position name description sequence level confirmation isOrdered requirements =
     (let newId = evNewId env db in
      writeRequirements None (Some newId) requirements
        (orderSkills (db\<lparr> cdSkills := cdSkills db @
           [\<lparr> skId = newId, skDepartment = Some departmentId, skPosition = position, skSequence = None, skName = js_trim name,
              skDescription = trimOrNull description, skLevel = level, skConfirmation = confirmation, skOrdered = isOrdered,
              skActive = True, skCreated = now \<rparr>] \<rparr>) (placed (orderedSkills db departmentId) newId sequence)))"

definition createSkill ::
  "career_env \<Rightarrow> instant \<Rightarrow> career_db \<Rightarrow> string \<Rightarrow> string option \<Rightarrow> string \<Rightarrow> string option \<Rightarrow> int option \<Rightarrow> skill_level \<Rightarrow>
     skill_confirmation \<Rightarrow> bool option \<Rightarrow> requirement_input list option \<Rightarrow> career_error + career_db" where
  "createSkill env now db0 departmentId positionId name description sequence level confirmation isOrdered reqs =
     write_structure env db0 (\<lambda>db.
       and_then (memberDepartment db departmentId) (\<lambda>d.
       and_then (skillPosition db (dpId d) positionId) (\<lambda>position.
       and_then (skillNameFree env db (dpId d) (js_trim name) None) (\<lambda>_.
       and_then (normalizeRequirements SKILL reqs) (\<lambda>requirements.
       and_then (fail_if (skillsPerDepartment \<le> length (orderedSkills db (dpId d))) LIMIT_REACHED) (\<lambda>_.
       insert_skill env now db (dpId d) position name description sequence level confirmation (isOrdered \<noteq> Some False) requirements))))))"

definition relocate_skill :: "career_db \<Rightarrow> skill \<Rightarrow> string \<Rightarrow> int option \<Rightarrow> career_db" where
  "relocate_skill db s departmentId sequence =
     (let target = orderedSkills db departmentId;
          db1 = (case skDepartment s of
            None \<Rightarrow> db
          | Some old \<Rightarrow> orderSkills (change_skill (skId s) (\<lambda>k. k\<lparr> skSequence := None \<rparr>) db)
              (filter (\<lambda>x. x \<noteq> skId s) (orderedSkills db old))) in
      orderSkills (change_skill (skId s) (\<lambda>k. k\<lparr> skDepartment := Some departmentId \<rparr>) db1) (placed target (skId s) sequence))"

definition move_skill :: "career_env \<Rightarrow> career_db \<Rightarrow> skill \<Rightarrow> string \<Rightarrow> skill_input \<Rightarrow> career_error + career_db" where
  "move_skill env db s targetId dto =
     (if Some targetId \<noteq> skDepartment s then
        and_then (fail_if (\<exists>g \<in> set (cdProgress db). spSkill g = skId s) SKILL_HAS_ACHIEVERS) (\<lambda>_.
        and_then (memberDepartment db targetId) (\<lambda>d.
        and_then (fail_if (skillsPerDepartment \<le> length (orderedSkills db (dpId d))) LIMIT_REACHED) (\<lambda>_.
        and_then (skillNameFree env db (dpId d) (js_trim (patched (kiName dto) (skName s))) (Some (skId s))) (\<lambda>_.
        Inr (relocate_skill db s (dpId d) (kiSequence dto))))))
      else if kiSequence dto \<noteq> None then Inr (orderSkills db (placed (orderedSkills db targetId) (skId s) (kiSequence dto)))
      else Inr db)"

definition place_skill :: "career_db \<Rightarrow> skill \<Rightarrow> string \<Rightarrow> skill_input \<Rightarrow> career_error + string option" where
  "place_skill db s targetId dto =
     (if kiPosition dto \<noteq> None \<or> Some targetId \<noteq> skDepartment s
      then skillPosition db targetId (case kiPosition dto of Some q \<Rightarrow> q | None \<Rightarrow> None)
      else Inr (skPosition s))"

definition edit_skill :: "string option \<Rightarrow> skill_input \<Rightarrow> skill \<Rightarrow> skill" where
  "edit_skill position dto k =
     k\<lparr> skPosition := position, skName := patched (map_option js_trim (kiName dto)) (skName k),
        skDescription := patched (map_option trimOrNull (kiDescription dto)) (skDescription k),
        skLevel := patched (kiLevel dto) (skLevel k), skConfirmation := patched (kiConfirmation dto) (skConfirmation k),
        skOrdered := patched (kiOrdered dto) (skOrdered k), skActive := patched (kiActive dto) (skActive k) \<rparr>"

definition updateSkill :: "career_env \<Rightarrow> career_db \<Rightarrow> string \<Rightarrow> skill_input \<Rightarrow> career_error + career_db" where
  "updateSkill env db0 i dto =
     write_structure env db0 (\<lambda>db.
       and_then (find_skill db i) (\<lambda>s.
       (case (case kiDepartment dto of Some d \<Rightarrow> Some d | None \<Rightarrow> skDepartment s) of
          None \<Rightarrow> Inl PARENT_INVALID
        | Some targetId \<Rightarrow>
            and_then (move_skill env db s targetId dto) (\<lambda>db1.
            and_then (place_skill db1 s targetId dto) (\<lambda>position.
            and_then
              (case kiName dto of
                 Some n \<Rightarrow> if Some targetId = skDepartment s then skillNameFree env db1 targetId (js_trim n) (Some (skId s)) else Inr ()
               | None \<Rightarrow> Inr ()) (\<lambda>_.
            replaceRequirements SKILL None (Some (skId s)) (kiRequirements dto) (change_skill (skId s) (edit_skill position dto) db1)))))))"

definition remove_skill :: "skill \<Rightarrow> career_db \<Rightarrow> career_db" where
  "remove_skill s db =
     orderSkills (retireSkills db [skId s])
       (case skDepartment s of None \<Rightarrow> [] | Some d \<Rightarrow> filter (\<lambda>x. x \<noteq> skId s) (orderedSkills db d))"

definition deleteSkill :: "career_env \<Rightarrow> career_db \<Rightarrow> string \<Rightarrow> career_error + career_db" where
  "deleteSkill env db0 i =
     write_structure env db0 (\<lambda>db.
       and_then (find_skill db i) (\<lambda>s.
       and_then (fail_if (\<exists>g \<in> set (cdProgress db). spSkill g = skId s \<and> spAchieved g) SKILL_HAS_ACHIEVERS) (\<lambda>_.
       Inr (remove_skill s db))))"

section \<open>Settings\<close>

definition updateSettings :: "career_env \<Rightarrow> career_db \<Rightarrow> bool option \<Rightarrow> review_frequency option \<Rightarrow> career_db" where
  "updateSettings env db0 reminder frequency =
     (let db = ensureCareerBase env db0;
          db1 = (case reminder of Some b \<Rightarrow> db\<lparr> cdReminder := b \<rparr> | None \<Rightarrow> db) in
      (case frequency of
         Some f \<Rightarrow> if f \<noteq> cdFrequency db1 then db1\<lparr> cdFrequency := f, cdLastReminded := None \<rparr> else db1
       | None \<Rightarrow> db1))"

end
