(* ===== verification/CareerProgress.thy ===== *)
theory CareerProgress
  imports CareerStructure Histories
begin

text \<open>
  The writes of \<open>career/career-progress.service.ts\<close>: promotion, transfer, the marks and the confirmation of a skill, and the daily
  sweep that records skills that achieve themselves. Each runs in a transaction that shares the lock of the store and locks the profile,
  so each is one step; a repeated \<open>clientRequestId\<close> is recognised after the locks. \<open>withReplay\<close>, which reads the earlier result
  when two equal requests run at once on different profiles and the unique index stops the second, answers like the check under the
  lock and is not modelled apart. Notices and the activity log are left out.
\<close>

definition trimNote :: "string option \<Rightarrow> string option" where
  "trimNote note = trimOrNull note"

definition CAREER_FORCE_NOTE_MIN :: nat where "CAREER_FORCE_NOTE_MIN = 3"

definition assertForceNote :: "bool \<Rightarrow> string option \<Rightarrow> career_error + unit" where
  "assertForceNote force note =
     fail_if (force \<and> (case note of None \<Rightarrow> True | Some t \<Rightarrow> length t < CAREER_FORCE_NOTE_MIN)) NOTE_REQUIRED"

text \<open>The base rows, the switch, the profile.\<close>

definition lockProfile :: "career_env \<Rightarrow> career_db \<Rightarrow> string \<Rightarrow> career_error + career_db \<times> career_profile" where
  "lockProfile env db0 profileId =
     (if \<not> (\<exists>p \<in> set (cdProfiles db0). cpId p = profileId) then Inl EmployeeMissing
      else
        let db = ensureCareerBase env db0 in
        and_then (fail_if (\<not> cdEnabled db) V2_DISABLED) (\<lambda>_.
        (case find (\<lambda>p. cpId p = profileId) (cdProfiles db) of None \<Rightarrow> Inl EmployeeMissing | Some p \<Rightarrow> Inr (db, p))))"

definition assertEmployed :: "career_profile \<Rightarrow> career_error + unit" where
  "assertEmployed p = fail_if (\<not> isEmployed (cpStatus p)) EMPLOYEE_NOT_ACTIVE"

definition priorEvent :: "career_db \<Rightarrow> string \<Rightarrow> string \<Rightarrow> career_event option" where
  "priorEvent db profileId requestId = find (\<lambda>e. ceProfile e = profileId \<and> ceRequest e = Some requestId) (cdEvents db)"

definition change_profile :: "string \<Rightarrow> string option \<Rightarrow> string \<Rightarrow> career_db \<Rightarrow> career_db" where
  "change_profile profileId roleId departmentId db =
     db\<lparr> cdProfiles := map (\<lambda>p. if cpId p = profileId then p\<lparr> cpRole := roleId, cpDepartment := Some departmentId \<rparr> else p) (cdProfiles db) \<rparr>"

definition add_event ::
  "career_env \<Rightarrow> career_db \<Rightarrow> string \<Rightarrow> career_subject \<Rightarrow> string option \<Rightarrow> string \<Rightarrow> instant \<Rightarrow> string option \<Rightarrow> measured list option \<Rightarrow>
     string option \<Rightarrow> string option \<Rightarrow> career_db \<times> career_event" where
  "add_event env db profileId subject source target now actor snapshot note requestId =
     (let e = \<lparr> ceId = evNewId env db, ceProfile = profileId, ceSubject = Some subject, ceFrom = source, ceTo = Some target, ceAt = now,
            ceDecidedBy = actor, ceSnapshot = snapshot, ceNote = note, ceRequest = requestId \<rparr>
      in (db\<lparr> cdEvents := cdEvents db @ [e] \<rparr>, e))"

text \<open>What an operation answers: whether an earlier run is replayed, and the event.\<close>

record career_answer =
  caReplayed :: bool
  caEvent :: career_event

section \<open>Promotion and transfer\<close>

record promote_input =
  miPosition :: "string option"
  miDepartment :: "string option"
  miNote :: "string option"
  miForce :: bool
  miRequest :: string

definition samePromotion :: "career_event \<Rightarrow> promote_input \<Rightarrow> bool" where
  "samePromotion e dto \<longleftrightarrow>
     (if miPosition dto \<noteq> None then ceSubject e = Some POSITION \<and> ceTo e = miPosition dto
      else (ceSubject e = Some DEPARTMENT \<and> ceSnapshot e \<noteq> None \<and> ceTo e = miDepartment dto) \<or> ceSubject e = Some POSITION)"

text \<open>Where a promotion leads: a position, or the lowest position of a department, or the department itself when it has none.\<close>

definition promotion_target_of ::
  "instant \<Rightarrow> career_db \<Rightarrow> career_graph \<Rightarrow> career_profile \<Rightarrow> promote_input \<Rightarrow> career_error + promotion_target" where
  "promotion_target_of now db g p dto =
     (if miPosition dto \<noteq> None then
        (case position_of g (miPosition dto) of
           None \<Rightarrow> Inl (CareerMissing POSITION)
         | Some q \<Rightarrow>
             and_then (fail_if (poRank q = None \<or> poDepartment q = None) (CareerMissing POSITION)) (\<lambda>_.
             and_then (fail_if (cpRole p = Some (poId q)) ALREADY_IN_POSITION) (\<lambda>_. Inr (evaluatePosition now db g p q))))
      else
        (case department_of g (miDepartment dto) of
           None \<Rightarrow> Inl (CareerMissing DEPARTMENT)
         | Some d \<Rightarrow>
             and_then (fail_if (dpSystem d) (CareerMissing DEPARTMENT)) (\<lambda>_.
             (case positionsOf g (Some (dpId d)) of
                entry # _ \<Rightarrow> and_then (fail_if (cpRole p = Some (poId entry)) ALREADY_IN_POSITION) (\<lambda>_. Inr (evaluatePosition now db g p entry))
              | [] \<Rightarrow> and_then (fail_if (cpDepartment p = Some (dpId d)) ALREADY_IN_POSITION) (\<lambda>_. Inr (evaluateDepartment db g p d))))))"

definition write_promotion ::
  "career_env \<Rightarrow> instant \<Rightarrow> career_db \<Rightarrow> career_profile \<Rightarrow> promotion_target \<Rightarrow> string option \<Rightarrow> string option \<Rightarrow> string \<Rightarrow>
     career_db \<times> career_event option" where
  "write_promotion env now db p t actor note requestId =
     (let toPosition = map_option poId (ptPosition t); items = evItems (ptEvaluation t);
          db1 = change_profile (cpId p) toPosition (ptDepartment t) db in
      if cpDepartment p \<noteq> Some (ptDepartment t) then
        let (db2, e) = add_event env db1 (cpId p) DEPARTMENT (cpDepartment p) (ptDepartment t) now actor
              (if toPosition \<noteq> None then None else Some items) note (if toPosition \<noteq> None then None else Some requestId) in
        (case toPosition of
           None \<Rightarrow> (db2, Some e)
         | Some q \<Rightarrow> apsnd Some (add_event env db2 (cpId p) POSITION (cpRole p) q now actor (Some items) note (Some requestId)))
      else (case toPosition of
          None \<Rightarrow> (db1, None)
        | Some q \<Rightarrow> apsnd Some (add_event env db1 (cpId p) POSITION (cpRole p) q now actor (Some items) note (Some requestId))))"

text \<open>The transaction, with the profile locked.\<close>

definition promote_tx ::
  "career_env \<Rightarrow> instant \<Rightarrow> promote_input \<Rightarrow> string option \<Rightarrow> string option \<Rightarrow> career_db \<Rightarrow> career_profile \<Rightarrow> career_error + career_db \<times> career_answer" where
  "promote_tx env now dto note actor db p =
     (case priorEvent db (cpId p) (miRequest dto) of
        Some e \<Rightarrow> and_then (fail_if (\<not> samePromotion e dto) REQUEST_REUSED) (\<lambda>_. Inr (db, \<lparr> caReplayed = True, caEvent = e \<rparr>))
      | None \<Rightarrow>
          and_then (assertEmployed p) (\<lambda>_.
          and_then (promotion_target_of now db (loadGraph db) p dto) (\<lambda>t.
          and_then (fail_if (\<not> evPassed (ptEvaluation t) \<and> \<not> miForce dto) (CRITERIA_NOT_MET (ptAdjacent t))) (\<lambda>_.
          (case write_promotion env now db p t actor note (miRequest dto) of
             (db', Some e) \<Rightarrow> Inr (db', \<lparr> caReplayed = False, caEvent = e \<rparr>)
           | (db', None) \<Rightarrow> Inl NoEvent)))))"

definition promote ::
  "career_env \<Rightarrow> instant \<Rightarrow> career_db \<Rightarrow> string \<Rightarrow> promote_input \<Rightarrow> string option \<Rightarrow> career_error + career_db \<times> career_answer" where
  "promote env now db0 profileId dto actor =
     and_then (fail_if ((miPosition dto = None) = (miDepartment dto = None)) OneTargetWanted) (\<lambda>_.
     and_then (assertForceNote (miForce dto) (trimNote (miNote dto))) (\<lambda>_.
     and_then (lockProfile env db0 profileId) (\<lambda>(db, p). promote_tx env now dto (trimNote (miNote dto)) actor db p)))"

record transfer_input =
  tiDepartment :: string
  tiPosition :: "string option"
  tiNote :: "string option"
  tiRequest :: string

definition sameTransfer :: "career_db \<Rightarrow> career_event \<Rightarrow> transfer_input \<Rightarrow> bool" where
  "sameTransfer db e dto \<longleftrightarrow>
     ceSubject e = Some DEPARTMENT \<and> ceSnapshot e = None \<and> ceTo e = Some (tiDepartment dto) \<and>
     (case find (\<lambda>x. ceProfile x = ceProfile e \<and> ceSubject x = Some POSITION \<and> ceAt x = ceAt e) (cdEvents db) of
        Some x \<Rightarrow> ceTo x | None \<Rightarrow> None) = tiPosition dto"

definition transfer ::
  "career_env \<Rightarrow> instant \<Rightarrow> career_db \<Rightarrow> string \<Rightarrow> transfer_input \<Rightarrow> string option \<Rightarrow> career_error + career_db \<times> career_answer" where
  "transfer env now db0 profileId dto actor =
     and_then (lockProfile env db0 profileId) (\<lambda>(db, p).
     (case priorEvent db (cpId p) (tiRequest dto) of
        Some e \<Rightarrow> and_then (fail_if (\<not> sameTransfer db e dto) REQUEST_REUSED) (\<lambda>_. Inr (db, \<lparr> caReplayed = True, caEvent = e \<rparr>))
      | None \<Rightarrow>
          and_then (assertEmployed p) (\<lambda>_.
          (case department_of (loadGraph db) (Some (tiDepartment dto)) of
             None \<Rightarrow> Inl (CareerMissing DEPARTMENT)
           | Some d \<Rightarrow>
               and_then (fail_if (dpSystem d) (CareerMissing DEPARTMENT)) (\<lambda>_.
               and_then (fail_if (cpDepartment p = Some (dpId d)) ALREADY_IN_POSITION) (\<lambda>_.
               and_then
                 (case tiPosition dto of
                    None \<Rightarrow> Inr ()
                  | Some i \<Rightarrow>
                      (case position_of (loadGraph db) (Some i) of
                         None \<Rightarrow> Inl (CareerMissing POSITION)
                       | Some q \<Rightarrow> fail_if (poRank q = None \<or> poDepartment q \<noteq> Some (dpId d)) (CareerMissing POSITION))) (\<lambda>_.
               let note = trimNote (tiNote dto); db1 = change_profile (cpId p) (tiPosition dto) (dpId d) db;
                   (db2, e) = add_event env db1 (cpId p) DEPARTMENT (cpDepartment p) (dpId d) now actor None note (Some (tiRequest dto)) in
               Inr (case tiPosition dto of None \<Rightarrow> db2
                      | Some i \<Rightarrow> fst (add_event env db2 (cpId p) POSITION (cpRole p) i now actor None note None),
                    \<lparr> caReplayed = False, caEvent = e \<rparr>))))))))"

section \<open>Skills\<close>

definition openSkillState :: "career_db \<Rightarrow> career_profile \<Rightarrow> string \<Rightarrow> career_error + skill_state" where
  "openSkillState db p skillId =
     (case skill_of (loadGraph db) (Some skillId) of
        None \<Rightarrow> Inl (CareerMissing SKILL)
      | Some s \<Rightarrow>
          (case find (\<lambda>st. skId (ssSkill st) = skId s) (skillStates db (loadGraph db) p) of
             None \<Rightarrow> Inl SKILL_LOCKED
           | Some st \<Rightarrow> if ssStatus st = LOCKED then Inl SKILL_LOCKED else Inr st))"

text \<open>The row of the skill is marked or written, and the event.\<close>

definition achieved_rows :: "instant \<Rightarrow> career_profile \<Rightarrow> skill_state \<Rightarrow> string option \<Rightarrow> string option \<Rightarrow> skill_progress list \<Rightarrow> skill_progress list" where
  "achieved_rows now p st actor note rows =
     (let items = (case ssEvaluation st of Some v \<Rightarrow> evItems v | None \<Rightarrow> []);
          own = (\<lambda>g. spProfile g = cpId p \<and> spSkill g = skId (ssSkill st)) in
      if \<exists>g \<in> set rows. own g
      then map (\<lambda>g. if own g then g\<lparr> spAchieved := True, spUnlockedAt := ssUnlockedAt st, spAchievedAt := Some now,
             spConfirmedBy := actor, spSnapshot := Some items, spNote := note \<rparr> else g) rows
      else rows @
        [\<lparr> spProfile = cpId p, spSkill = skId (ssSkill st), spAchieved = True, spUnlockedAt = ssUnlockedAt st, spAchievedAt = Some now,
           spConfirmedBy = actor, spSnapshot = Some items, spNote = note, spCreated = now \<rparr>])"

definition achieve ::
  "career_env \<Rightarrow> instant \<Rightarrow> career_db \<Rightarrow> career_profile \<Rightarrow> skill_state \<Rightarrow> string option \<Rightarrow> string option \<Rightarrow> string option \<Rightarrow>
     career_db \<times> career_event" where
  "achieve env now db p st actor note requestId =
     add_event env (db\<lparr> cdProgress := achieved_rows now p st actor note (cdProgress db) \<rparr>) (cpId p) SKILL None (skId (ssSkill st)) now actor
       (Some (case ssEvaluation st of Some v \<Rightarrow> evItems v | None \<Rightarrow> [])) note requestId"

text \<open>A mark of pass or fail; it may complete a skill that achieves itself. A request id is unique in the store. The answer is
  whether the mark was replayed.\<close>

definition evaluation_tx ::
  "career_env \<Rightarrow> instant \<Rightarrow> string \<Rightarrow> bool \<Rightarrow> string option \<Rightarrow> string \<Rightarrow> string option \<Rightarrow> career_db \<Rightarrow> career_profile \<Rightarrow> career_error + career_db \<times> bool" where
  "evaluation_tx env now skillId passed note requestId actor db p =
     (case find (\<lambda>e. seRequest e = Some requestId) (cdEvaluations db) of
        Some e \<Rightarrow> and_then (fail_if (seProfile e \<noteq> cpId p \<or> seSkill e \<noteq> skillId \<or> sePass e \<noteq> passed) REQUEST_REUSED) (\<lambda>_. Inr (db, True))
      | None \<Rightarrow>
          and_then (assertEmployed p) (\<lambda>_.
          and_then (openSkillState db p skillId) (\<lambda>st.
          and_then (fail_if (ssStatus st = ACHIEVED) SKILL_ALREADY_ACHIEVED) (\<lambda>_.
          let db1 = db\<lparr> cdEvaluations := cdEvaluations db @
                [\<lparr> seProfile = cpId p, seSkill = skId (ssSkill st), sePass = passed, seBy = actor, seAt = now, seNote = trimNote note,
                   seRequest = Some requestId \<rparr>] \<rparr> in
          if skConfirmation (ssSkill st) = BY_ITSELF then
            and_then (openSkillState db1 p skillId) (\<lambda>fresh.
            Inr (if ssStatus fresh = AWAITING_CONFIRMATION then fst (achieve env now db1 p fresh None None None) else db1, False))
          else Inr (db1, False)))))"

definition recordEvaluation ::
  "career_env \<Rightarrow> instant \<Rightarrow> career_db \<Rightarrow> string \<Rightarrow> string \<Rightarrow> bool \<Rightarrow> string option \<Rightarrow> string \<Rightarrow> string option \<Rightarrow>
     career_error + career_db \<times> bool" where
  "recordEvaluation env now db0 profileId skillId passed note requestId actor =
     and_then (lockProfile env db0 profileId) (\<lambda>(db, p). evaluation_tx env now skillId passed note requestId actor db p)"

definition confirm_tx ::
  "career_env \<Rightarrow> instant \<Rightarrow> string \<Rightarrow> string option \<Rightarrow> bool \<Rightarrow> string \<Rightarrow> string option \<Rightarrow> career_db \<Rightarrow> career_profile \<Rightarrow> career_error + career_db \<times> career_answer" where
  "confirm_tx env now skillId note force requestId actor db p =
     (case priorEvent db (cpId p) requestId of
        Some e \<Rightarrow> and_then (fail_if (ceSubject e \<noteq> Some SKILL \<or> ceTo e \<noteq> Some skillId) REQUEST_REUSED) (\<lambda>_.
          Inr (db, \<lparr> caReplayed = True, caEvent = e \<rparr>))
      | None \<Rightarrow>
          and_then (assertEmployed p) (\<lambda>_.
          and_then (openSkillState db p skillId) (\<lambda>st.
          and_then (fail_if (ssStatus st = ACHIEVED) SKILL_ALREADY_ACHIEVED) (\<lambda>_.
          and_then (fail_if (ssStatus st = IN_PROGRESS \<and> \<not> force) (CRITERIA_NOT_MET True)) (\<lambda>_.
          let (db', e) = achieve env now db p st actor note (Some requestId) in
          Inr (db', \<lparr> caReplayed = False, caEvent = e \<rparr>))))))"

definition confirmSkill ::
  "career_env \<Rightarrow> instant \<Rightarrow> career_db \<Rightarrow> string \<Rightarrow> string \<Rightarrow> string option \<Rightarrow> bool \<Rightarrow> string \<Rightarrow> string option \<Rightarrow>
     career_error + career_db \<times> career_answer" where
  "confirmSkill env now db0 profileId skillId note force requestId actor =
     and_then (assertForceNote force (trimNote note)) (\<lambda>_.
     and_then (lockProfile env db0 profileId) (\<lambda>(db, p). confirm_tx env now skillId (trimNote note) force requestId actor db p))"

text \<open>The daily sweep over one profile: at most thirty rounds, each of which records the first skill that is ready. An achieved skill
  can open the next.\<close>

definition ready :: "skill_state \<Rightarrow> bool" where
  "ready st \<longleftrightarrow> ssStatus st = AWAITING_CONFIRMATION \<and> skConfirmation (ssSkill st) = BY_ITSELF"

fun sweep_rounds :: "nat \<Rightarrow> career_env \<Rightarrow> instant \<Rightarrow> career_profile \<Rightarrow> career_db \<Rightarrow> career_db" where
  "sweep_rounds 0 env now p db = db"
| "sweep_rounds (Suc rounds) env now p db =
     (case find ready (skillStates db (loadGraph db) p) of
        None \<Rightarrow> db
      | Some st \<Rightarrow> sweep_rounds rounds env now p (fst (achieve env now db p st None None None)))"

definition sweep_profile :: "career_env \<Rightarrow> instant \<Rightarrow> career_db \<Rightarrow> string \<Rightarrow> career_error + career_db" where
  "sweep_profile env now db0 profileId =
     and_then (lockProfile env db0 profileId) (\<lambda>(db, p). Inr (sweep_rounds 30 env now p db))"

text \<open>Each profile with a skill of its department that achieves itself, in a transaction of its own; one that fails is skipped.\<close>

definition sweepAutoSkills :: "career_env \<Rightarrow> instant \<Rightarrow> career_db \<Rightarrow> career_db" where
  "sweepAutoSkills env now db =
     foldl (\<lambda>d p. case sweep_profile env now d (cpId p) of Inr d' \<Rightarrow> d' | Inl _ \<Rightarrow> d) db
       (filter (\<lambda>p. cdEnabled db \<and> isEmployed (cpStatus p) \<and> cpDepartment p \<noteq> None \<and>
          (\<exists>s \<in> set (cdSkills db). skDepartment s = cpDepartment p \<and> skActive s \<and> skConfirmation s = BY_ITSELF)) (cdProfiles db))"

section \<open>Hiring\<close>

text \<open>Where \<open>stores.service.ts\<close> puts a new employee: the position asked for and its department, or only a department. With the ladder switched
  on, a position that is gone, one of another department, and a department that is gone or the store's own are refused.\<close>

definition hire_department :: "career_db \<Rightarrow> string option \<Rightarrow> string option \<Rightarrow> career_error + string option" where
  "hire_department db roleId departmentId =
     (let role = (case roleId of None \<Rightarrow> None | Some i \<Rightarrow> find (\<lambda>q. poId q = i) (cdPositions db)) in
      and_then (fail_if (cdEnabled db \<and> roleId \<noteq> None \<and> role = None) RoleGone) (\<lambda>_.
      if cdEnabled db \<and> departmentId \<noteq> None then
        (case role of
           Some q \<Rightarrow> and_then (fail_if (poDepartment q \<noteq> departmentId) RoleElsewhere) (\<lambda>_. Inr (poDepartment q))
         | None \<Rightarrow>
             (case find (\<lambda>d. Some (dpId d) = departmentId) (cdDepartments db) of
                None \<Rightarrow> Inl DepartmentGone
              | Some d \<Rightarrow> and_then (fail_if (dpSystem d) DepartmentGone) (\<lambda>_. Inr (Some (dpId d)))))
      else Inr (case role of None \<Rightarrow> None | Some q \<Rightarrow> poDepartment q)))"

definition hire ::
  "career_env \<Rightarrow> career_db \<Rightarrow> string \<Rightarrow> string option \<Rightarrow> string option \<Rightarrow> employment_status \<Rightarrow> instant \<Rightarrow> career_error + career_db" where
  "hire env db0 newId roleId departmentId status now =
     (let db = (if cdEnabled db0 \<and> (roleId \<noteq> None \<or> departmentId \<noteq> None) then ensureCareerBase env db0 else db0) in
      and_then (hire_department db roleId departmentId) (\<lambda>d.
      Inr (db\<lparr> cdProfiles := cdProfiles db @
        [\<lparr> cpId = newId, cpDepartment = d, cpRole = roleId, cpStatus = status, cpJoined = Some now, cpCreated = now \<rparr>] \<rparr>)))"

end
