(* ===== verification/NumberedRows.thy ===== *)
theory NumberedRows
  imports CareerStructure "HOL-Library.Multiset"
begin

text \<open>
  The order of positions and skills (\<open>orderedIds\<close>, \<open>placed\<close>, \<open>applyOrder\<close> of \<open>career-structure.service.ts\<close>): rows of one table grouped by
  department and numbered 1, 2, \<dots> in each. The interface \<open>numbering\<close> states what writing a number promises; its lemmas show
  that adding, removing and moving a row leaves every department numbered without gaps, for positions and skills alike.
\<close>

section \<open>Numbered rows\<close>

definition numbered :: "('r \<Rightarrow> string option) \<Rightarrow> ('r \<Rightarrow> int option) \<Rightarrow> 'r list \<Rightarrow> string \<Rightarrow> bool" where
  "numbered dep num rows d \<longleftrightarrow>
     (let own = filter (\<lambda>r. dep r = Some d) rows in num ` set own = Some ` {1..int (length own)})"

lemma numbered_cong:
  assumes "map (\<lambda>r. (dep r, num r)) rows' = map (\<lambda>r. (dep r, num r)) rows"
  shows "numbered dep num rows' d = numbered dep num rows d"
proof -
  have "map num (filter (\<lambda>r. dep r = Some d) xs) = map snd (filter (\<lambda>p. fst p = Some d) (map (\<lambda>r. (dep r, num r)) xs))" for xs
    by (induction xs) auto
  then have "map num (filter (\<lambda>r. dep r = Some d) rows') = map num (filter (\<lambda>r. dep r = Some d) rows)" using assms by presburger
  then have e: "map num (filter (\<lambda>r. dep r = Some d) rows') = map num (filter (\<lambda>r. dep r = Some d) rows)" .
  have "num ` set (filter (\<lambda>r. dep r = Some d) rows') = num ` set (filter (\<lambda>r. dep r = Some d) rows)"
    using arg_cong [OF e, of set] by (simp only: set_map)
  moreover have "length (filter (\<lambda>r. dep r = Some d) rows') = length (filter (\<lambda>r. dep r = Some d) rows)"
    using arg_cong [OF e, of length] by (simp only: length_map)
  ultimately show ?thesis unfolding numbered_def Let_def by simp
qed

text \<open>What the numbering promises of a table: the new number is read back, id and department stay.\<close>

locale numbering =
  fixes ident :: "'r \<Rightarrow> string" and dep :: "'r \<Rightarrow> string option" and num :: "'r \<Rightarrow> int option" and put :: "int \<Rightarrow> 'r \<Rightarrow> 'r"
  assumes ident_put: "ident (put n r) = ident r" and dep_put: "dep (put n r) = dep r" and num_put: "num (put n r) = Some n"
begin

lemma numbering_is_map:
  "\<exists>g. number_rows ident put n ids rows = map g rows \<and>
     (\<forall>r. ident (g r) = ident r \<and> dep (g r) = dep r \<and> (ident r \<notin> set ids \<longrightarrow> g r = r))"
proof (induction ids arbitrary: n rows)
  case Nil
  show ?case by (intro exI [of _ "\<lambda>r. r"]) simp
next
  case (Cons i ids)
  let ?h = "\<lambda>r. if ident r = i then put n r else r"
  obtain g where g: "number_rows ident put (n + 1) ids (map ?h rows) = map g (map ?h rows)"
    "\<And>r. ident (g r) = ident r \<and> dep (g r) = dep r \<and> (ident r \<notin> set ids \<longrightarrow> g r = r)"
    using Cons.IH [of "n + 1" "map ?h rows"] by blast
  show ?case
    by (intro exI [of _ "g \<circ> ?h"]) (use g in \<open>simp add: ident_put dep_put\<close>)
qed

lemma numbered_in:
  "distinct ids \<Longrightarrow> set ids \<subseteq> ident ` set rows \<Longrightarrow>
     num ` {r \<in> set (number_rows ident put n ids rows). ident r \<in> set ids} = Some ` {n..<n + int (length ids)}"
proof (induction ids arbitrary: n rows)
  case (Cons i ids)
  let ?h = "\<lambda>r. if ident r = i then put n r else r"
  let ?R = "number_rows ident put (n + 1) ids (map ?h rows)"
  have "map ident (map ?h rows) = map ident rows" by (simp add: ident_put)
  then have "ident ` set (map ?h rows) = ident ` set rows" by (metis list.set_map)
  then have rest: "num ` {r \<in> set ?R. ident r \<in> set ids} = Some ` {n + 1..<n + 1 + int (length ids)}"
    using Cons.IH [of "map ?h rows" "n + 1"] Cons.prems by simp
  obtain g where g: "?R = map g (map ?h rows)"
    "\<And>r. ident (g r) = ident r \<and> dep (g r) = dep r \<and> (ident r \<notin> set ids \<longrightarrow> g r = r)"
    using numbering_is_map [of "n + 1" ids "map ?h rows"] by blast
  have i: "i \<notin> set ids" "i \<in> ident ` set rows" using Cons.prems by auto
  have "num r = Some n" if r: "r \<in> set ?R" "ident r = i" for r
  proof -
    obtain x where x: "x \<in> set rows" "r = g (?h x)" using r(1) unfolding g(1) set_map by blast
    then have "ident x = i" using r(2) g(2) [of "?h x"] ident_put [of n x] by (metis (full_types))
    then have "r = put n x" using x(2) g(2) [of "put n x"] i(1) by (simp add: ident_put)
    then show ?thesis by (simp add: num_put)
  qed
  moreover have "\<exists>r \<in> set ?R. ident r = i"
  proof -
    obtain x where "x \<in> set rows" "ident x = i" using i(2) by blast
    then have "g (put n x) \<in> set ?R \<and> ident (g (put n x)) = i" using g(2) [of "put n x"] unfolding g(1) by (force simp: ident_put)
    then show ?thesis by blast
  qed
  ultimately have "num ` {r \<in> set ?R. ident r = i} = {Some n}" by auto
  moreover have "{r \<in> set ?R. ident r \<in> set (i # ids)} = {r \<in> set ?R. ident r = i} \<union> {r \<in> set ?R. ident r \<in> set ids}" by auto
  ultimately have "num ` {r \<in> set ?R. ident r \<in> set (i # ids)} = insert (Some n) (Some ` {n + 1..<n + 1 + int (length ids)})"
    using rest by (simp only: image_Un) simp
  also have "\<dots> = Some ` insert n {n + 1..<n + 1 + int (length ids)}" by simp
  also have "insert n {n + 1..<n + 1 + int (length ids)} = {n..<n + int (length (i # ids))}" by auto
  finally show ?case by simp
qed simp

text \<open>A department is numbered when exactly its rows were; one none of whose rows was keeps its numbers.\<close>

lemma numbered_own:
  assumes ids: "distinct ids" "set ids = ident ` {r \<in> set rows. dep r = Some d}" and d: "distinct (map ident rows)"
  shows "numbered dep num (number_rows ident put 1 ids rows) d"
proof -
  let ?R = "number_rows ident put 1 ids rows"
  obtain g where g: "?R = map g rows"
    "\<And>r. ident (g r) = ident r \<and> dep (g r) = dep r \<and> (ident r \<notin> set ids \<longrightarrow> g r = r)"
    using numbering_is_map [of 1 ids rows] by blast
  have inj: "inj_on ident (set rows)" using d by (simp add: distinct_map)
  have mem: "ident r \<in> set ids \<longleftrightarrow> dep r = Some d" if "r \<in> set rows" for r
    using ids(2) inj that by (auto dest: inj_onD)
  have own: "{r \<in> set ?R. ident r \<in> set ids} = set (filter (\<lambda>r. dep r = Some d) ?R)" using g mem by auto
  have sub: "set ids \<subseteq> ident ` set rows" using ids(2) by auto
  have nums: "num ` set (filter (\<lambda>r. dep r = Some d) ?R) = Some ` {1..<1 + int (length ids)}"
    unfolding own [symmetric] by (rule numbered_in [OF ids(1) sub])
  have same: "map ident ?R = map ident rows" using g by simp
  then have "inj_on ident (set ?R)" using d by (metis distinct_map)
  then have "card {r \<in> set ?R. ident r \<in> set ids} = card (ident ` {r \<in> set ?R. ident r \<in> set ids})"
    by (metis (no_types, lifting) card_image inj_on_subset mem_Collect_eq subsetI)
  also have "ident ` {r \<in> set ?R. ident r \<in> set ids} = ident ` set ?R \<inter> set ids" by auto
  also have "\<dots> = set ids" using sub same by (metis inf.absorb2 list.set_map)
  also have "card (set ids) = length ids" by (rule distinct_card [OF ids(1)])
  finally have "card (set (filter (\<lambda>r. dep r = Some d) ?R)) = length ids" using own by simp
  moreover have "distinct ?R" using d unfolding same [symmetric] by (simp only: distinct_map)
  ultimately have "length (filter (\<lambda>r. dep r = Some d) ?R) = length ids" by (metis distinct_card distinct_filter)
  then show ?thesis using nums by (auto simp: numbered_def Let_def)
qed

lemma numbered_other:
  assumes "set ids \<inter> ident ` {r \<in> set rows. dep r = Some d} = {}"
  shows "numbered dep num (number_rows ident put n ids rows) d = numbered dep num rows d"
proof -
  let ?R = "number_rows ident put n ids rows"
  obtain g where g: "?R = map g rows"
    "\<And>r. ident (g r) = ident r \<and> dep (g r) = dep r \<and> (ident r \<notin> set ids \<longrightarrow> g r = r)"
    using numbering_is_map [of n ids rows] by blast
  have same: "g r = r" if "r \<in> set rows" "dep r = Some d" for r using g(2) [of r] assms that by auto
  have "filter (\<lambda>r. dep r = Some d) ?R = filter (\<lambda>r. dep r = Some d) rows"
    unfolding g(1) filter_map comp_def using g(2) same by (intro map_idI [THEN trans]) (auto)
  then show ?thesis by (simp add: numbered_def)
qed

lemma keys_kept: "map (\<lambda>r. (ident r, dep r)) (number_rows ident put n ids rows) = map (\<lambda>r. (ident r, dep r)) rows"
  using numbering_is_map [of n ids rows] by auto

lemma idents_kept: "map ident (number_rows ident put n ids rows) = map ident rows"
  using numbering_is_map [of n ids rows] by auto

text \<open>Numbering the rows of one department keeps every other in order.\<close>

lemma renumber:
  assumes "distinct (map ident rows)" "distinct ids" "set ids = ident ` {r \<in> set rows. dep r = Some d}"
    and others: "\<And>e. e \<noteq> d \<Longrightarrow> numbered dep num rows e"
  shows "numbered dep num (number_rows ident put 1 ids rows) e"
proof (cases "e = d")
  case True
  then show ?thesis using numbered_own assms(1-3) by blast
next
  case False
  have "set ids \<inter> ident ` {r \<in> set rows. dep r = Some e} = {}"
    using assms(1,3) False by (auto simp: distinct_map dest: inj_onD)
  then show ?thesis using numbered_other others [OF False] by simp
qed

lemma numbered_filter_same:
  "filter (\<lambda>r. dep r = Some e) rows' = filter (\<lambda>r. dep r = Some e) rows \<Longrightarrow> numbered dep num rows' e = numbered dep num rows e"
  by (simp add: numbered_def)

lemma numbered_add:
  assumes "distinct (map ident (rows @ [x]))" "dep x = Some d" "\<And>e. numbered dep num rows e"
    and "distinct ids" "set ids = insert (ident x) (ident ` {r \<in> set rows. dep r = Some d})"
  shows "numbered dep num (number_rows ident put 1 ids (rows @ [x])) e"
proof (rule renumber [OF assms(1,4)])
  show "set ids = ident ` {r \<in> set (rows @ [x]). dep r = Some d}" using assms(2,5) by auto
  fix e
  assume "e \<noteq> d"
  then show "numbered dep num (rows @ [x]) e" using assms(2,3) numbered_filter_same [of e "rows @ [x]" rows] by simp
qed

text \<open>A row is taken out, and the rest of its department numbered.\<close>

definition left_behind :: "'r list \<Rightarrow> 'r \<Rightarrow> string list \<Rightarrow> bool" where
  "left_behind rows r ids \<longleftrightarrow> distinct ids \<and>
     set ids = (case dep r of None \<Rightarrow> {} | Some d \<Rightarrow> ident ` {x \<in> set rows. dep x = Some d} - {ident r})"

lemma numbered_remove:
  assumes d: "distinct (map ident rows)" "r \<in> set rows" and ok: "\<And>e. numbered dep num rows e" and ids: "left_behind rows r ids"
  shows "numbered dep num (number_rows ident put 1 ids (filter (\<lambda>x. ident x \<noteq> ident r) rows)) e"
proof -
  let ?rows = "filter (\<lambda>x. ident x \<noteq> ident r) rows"
  have only: "x = r" if "x \<in> set rows" "ident x = ident r" for x using d that by (auto simp: distinct_map dest: inj_onD)
  have same: "numbered dep num ?rows e" if "dep r \<noteq> Some e" for e
  proof -
    have "filter (\<lambda>x. dep x = Some e) ?rows = filter (\<lambda>x. dep x = Some e) rows"
      unfolding filter_filter using only that by (intro filter_cong) auto
    then show ?thesis using numbered_filter_same ok by blast
  qed
  show ?thesis
  proof (cases "dep r")
    case None
    then have "ids = []" using ids by (simp add: left_behind_def)
    then show ?thesis using same None by simp
  next
    case (Some o')
    show ?thesis
    proof (rule renumber [of _ _ o'])
      show "distinct (map ident ?rows)" using d(1) by (simp add: distinct_map_filter)
      show "distinct ids" "set ids = ident ` {x \<in> set ?rows. dep x = Some o'}" using ids Some by (auto simp: left_behind_def)
    qed (use same Some in auto)
  qed
qed

lemma number_rows_filter:
  "filter (\<lambda>x. ident x \<noteq> i) (number_rows ident put n ids rows) = number_rows ident put n ids (filter (\<lambda>x. ident x \<noteq> i) rows)"
proof (induction ids arbitrary: n rows)
  case (Cons j ids)
  have "filter (\<lambda>x. ident x \<noteq> i) (map (\<lambda>r. if ident r = j then put n r else r) rows) =
      map (\<lambda>r. if ident r = j then put n r else r) (filter (\<lambda>x. ident x \<noteq> i) rows)"
    by (induction rows) (auto simp: ident_put)
  then show ?case using Cons by simp
qed simp

text \<open>A row is moved to another department.\<close>

lemma own_idents:
  assumes "map (\<lambda>r. (ident r, dep r)) xs = map (\<lambda>r. (ident r, dep r)) ys"
  shows "ident ` {x \<in> set xs. dep x = Some d} = ident ` {x \<in> set ys. dep x = Some d}"
proof -
  have "ident ` {x \<in> set xs. dep x = Some d} = fst ` {p \<in> set (map (\<lambda>r. (ident r, dep r)) xs). snd p = Some d}" for xs by force
  then show ?thesis using assms by presburger
qed

lemma own_with:
  assumes "i \<in> ident ` set xs" "\<And>x. x \<in> set xs \<Longrightarrow> ident x = i \<Longrightarrow> dep x = Some d"
  shows "ident ` {x \<in> set xs. dep x = Some d} = insert i (ident ` {x \<in> set (filter (\<lambda>x. ident x \<noteq> i) xs). dep x = Some d})"
  using assms by auto

lemma numbered_move:
  assumes d: "distinct (map ident rows)" "r \<in> set rows" and ok: "\<And>e. numbered dep num rows e"
    and blank: "\<And>x. ident (blank x) = ident x" and go: "\<And>x. ident (go x) = ident x" "\<And>x. dep (go x) = Some d"
    and rows1: "rows1 = number_rows ident put 1 ids1 (map (\<lambda>x. if ident x = ident r then blank x else x) rows)"
    and ids1: "left_behind rows r ids1" and target: "dep r \<noteq> Some d"
    and ids2: "distinct ids2" "set ids2 = insert (ident r) (ident ` {x \<in> set rows. dep x = Some d})"
  shows "numbered dep num (number_rows ident put 1 ids2 (map (\<lambda>x. if ident x = ident r then go x else x) rows1)) e"
proof -
  let ?b = "map (\<lambda>x. if ident x = ident r then blank x else x) rows"
  let ?rows2 = "map (\<lambda>x. if ident x = ident r then go x else x) rows1"
  let ?rest = "filter (\<lambda>x. ident x \<noteq> ident r)"
  have only: "x = r" if "x \<in> set rows" "ident x = ident r" for x using d that by (auto simp: distinct_map dest: inj_onD)
  have "?rest ?b = ?rest rows" by (induction rows) (auto simp: blank)
  then have rest: "?rest rows1 = number_rows ident put 1 ids1 (?rest rows)" unfolding rows1 number_rows_filter by simp
  have "?rest ?rows2 = ?rest rows1" by (induction rows1) (auto simp: go)
  then have rest2: "?rest ?rows2 = number_rows ident put 1 ids1 (?rest rows)" using rest by simp
  have in2: "dep x = Some d" if "x \<in> set ?rows2" "ident x = ident r" for x using that go by auto
  have ids: "map ident ?rows2 = map ident rows"
  proof -
    have "map ident ?rows2 = map ident rows1" by (simp add: go)
    also have "\<dots> = map ident ?b" unfolding rows1 by (rule idents_kept)
    also have "\<dots> = map ident rows" by (simp add: blank)
    finally show ?thesis .
  qed
  show ?thesis
  proof (rule renumber [of _ _ d])
    show "distinct (map ident ?rows2)" using ids d(1) by simp
    show "distinct ids2" by (rule ids2)
    have "ident r \<in> set (map ident ?rows2)" unfolding ids using d(2) by simp
    then have "ident r \<in> ident ` set ?rows2" by (simp only: set_map)
    then have "ident ` {x \<in> set ?rows2. dep x = Some d} = insert (ident r) (ident ` {x \<in> set (?rest ?rows2). dep x = Some d})"
      by (rule own_with) (rule in2)
    moreover have "ident ` {x \<in> set (?rest ?rows2). dep x = Some d} = ident ` {x \<in> set (?rest rows). dep x = Some d}"
      unfolding rest2 by (rule own_idents) (rule keys_kept)
    moreover have "{x \<in> set (?rest rows). dep x = Some d} = {x \<in> set rows. dep x = Some d}"
      using only target by auto
    ultimately show "set ids2 = ident ` {x \<in> set ?rows2. dep x = Some d}" using ids2(2) by simp
    fix e
    assume e: "e \<noteq> d"
    have "filter (\<lambda>x. dep x = Some e) ?rows2 = filter (\<lambda>x. dep x = Some e) (?rest ?rows2)"
      unfolding filter_filter using in2 e by (intro filter_cong) auto
    then show "numbered dep num ?rows2 e"
      using numbered_filter_same numbered_remove [OF d ok ids1] unfolding rest2 by blast
  qed
qed

end

interpretation position_numbers: numbering poId poDepartment poRank set_rank
  by unfold_locales (simp_all add: set_rank_def)

interpretation skill_numbers: numbering skId skDepartment skSequence set_sequence
  by unfold_locales (simp_all add: set_sequence_def)

lemma set_in_order [simp]: "set (in_order num created ident rows) = set rows"
  by (auto simp: in_order_def Let_def)

lemma distinct_in_order: "distinct (map ident rows) \<Longrightarrow> distinct (map ident (in_order num created ident rows))"
proof -
  assume d: "distinct (map ident rows)"
  let ?s = "sort_key created (sort_key ident rows)"
  have m: "mset (in_order num created ident rows) = mset rows"
    by (simp add: in_order_def Let_def mset_filter flip: multiset_partition [of "mset rows" "\<lambda>r. num r \<noteq> None", simplified])
  then have "mset (map ident (in_order num created ident rows)) = mset (map ident rows)" by (simp add: mset_map)
  then show ?thesis using d by (metis mset_eq_imp_distinct_iff)
qed

lemma set_placed [simp]: "set (placed order i n) = insert i (set order)"
proof -
  have "set (take k xs) \<union> set (drop k xs) = set xs" for k and xs :: "string list" by (metis append_take_drop_id set_append)
  then show ?thesis by (auto simp: placed_def Let_def)
qed

lemma distinct_placed: "distinct order \<Longrightarrow> distinct (placed order i n)"
proof -
  assume d: "distinct order"
  have "distinct (take k xs @ i # drop k xs)" if "distinct xs" "i \<notin> set xs" for k xs
    using that append_take_drop_id [of k xs] by (metis Un_iff distinct.simps(2) distinct_append set_append disjoint_insert(1) list.simps(15))
  then show ?thesis using d by (simp add: placed_def Let_def)
qed

end
