(* ===== verification/CareerTree.thy ===== *)
theory CareerTree
  imports CareerProgress NumberedRows
begin

text \<open>
  What holds of the career ladder whatever is done to it: the departments stay a tree, the positions and skills of a
  department stay numbered 1, 2, \<dots>, every employee and every skill stays in the department of its position, and what was achieved or
  recorded stays. On these rest the next step, the order in which skills open, and the daily sweep.
\<close>

section \<open>What stays in order\<close>

text \<open>The departments are a tree: at most one is the store's own, at tier 1 without a parent; every other has a parent of a
  smaller tier.\<close>

definition tree_place :: "department list \<Rightarrow> department \<Rightarrow> bool" where
  "tree_place ds d \<longleftrightarrow>
     (if dpSystem d then dpTier d = 1 \<and> dpParent d = None
      else 2 \<le> dpTier d \<and> dpTier d \<le> 4 \<and> (\<exists>p \<in> set ds. dpParent d = Some (dpId p) \<and> dpTier p < dpTier d))"

definition tree_ok :: "department list \<Rightarrow> bool" where
  "tree_ok ds \<longleftrightarrow> distinct (map dpId ds) \<and> (\<forall>d \<in> set ds. \<forall>e \<in> set ds. dpSystem d \<and> dpSystem e \<longrightarrow> d = e) \<and>
     (\<forall>d \<in> set ds. tree_place ds d)"

definition members :: "department list \<Rightarrow> string set" where
  "members ds = dpId ` set (filter (\<lambda>d. \<not> dpSystem d) ds)"

definition ladder_ok :: "department list \<Rightarrow> position list \<Rightarrow> bool" where
  "ladder_ok ds ps \<longleftrightarrow> distinct (map poId ps) \<and> (\<forall>d. numbered poDepartment poRank ps d) \<and>
     (\<forall>p \<in> set ps. \<forall>d. poDepartment p = Some d \<longrightarrow> d \<in> members ds)"

definition skills_ok :: "department list \<Rightarrow> position list \<Rightarrow> skill list \<Rightarrow> bool" where
  "skills_ok ds ps ks \<longleftrightarrow> distinct (map skId ks) \<and> (\<forall>d. numbered skDepartment skSequence ks d) \<and>
     (\<forall>d. length (filter (\<lambda>s. skDepartment s = Some d) ks) \<le> skillsPerDepartment) \<and>
     (\<forall>s \<in> set ks. \<forall>d. skDepartment s = Some d \<longrightarrow> d \<in> members ds) \<and>
     (\<forall>s \<in> set ks. \<forall>q. skPosition s = Some q \<longrightarrow> (\<exists>p \<in> set ps. poId p = q \<and> poDepartment p = skDepartment s))"

definition staff_ok :: "department list \<Rightarrow> position list \<Rightarrow> career_profile list \<Rightarrow> bool" where
  "staff_ok ds ps cs \<longleftrightarrow> distinct (map cpId cs) \<and>
     (\<forall>c \<in> set cs. isEmployed (cpStatus c) \<longrightarrow>
        (\<forall>d. cpDepartment c = Some d \<longrightarrow> d \<in> members ds) \<and>
        (\<forall>r. cpRole c = Some r \<longrightarrow> (\<exists>p \<in> set ps. poId p = r \<and> poDepartment p = cpDepartment c)))"

definition career_ok :: "career_db \<Rightarrow> bool" where
  "career_ok db \<longleftrightarrow> tree_ok (cdDepartments db) \<and> ladder_ok (cdDepartments db) (cdPositions db) \<and>
     skills_ok (cdDepartments db) (cdPositions db) (cdSkills db) \<and> staff_ok (cdDepartments db) (cdPositions db) (cdProfiles db) \<and>
     distinct (map (\<lambda>g. (spProfile g, spSkill g)) (cdProgress db))"

text \<open>What was recorded stays: events and marks, and which skills were achieved.\<close>

definition career_stays :: "career_db \<Rightarrow> career_db \<Rightarrow> bool" where
  "career_stays s t \<longleftrightarrow> set (cdEvents s) \<subseteq> set (cdEvents t) \<and> set (cdEvaluations s) \<subseteq> set (cdEvaluations t) \<and>
     (\<lambda>g. (spProfile g, spSkill g)) ` set (filter spAchieved (cdProgress s)) \<subseteq>
     (\<lambda>g. (spProfile g, spSkill g)) ` set (filter spAchieved (cdProgress t))"

lemma career_stays_refl: "career_stays s s"
  by (simp add: career_stays_def)

lemma career_stays_trans: "career_stays s t \<Longrightarrow> career_stays t u \<Longrightarrow> career_stays s u"
  unfolding career_stays_def by (elim conjE, intro conjI) (erule (1) order_trans)+

definition fresh_ids :: "career_env \<Rightarrow> bool" where
  "fresh_ids env \<longleftrightarrow> (\<forall>db. evNewId env db \<notin> dpId ` set (cdDepartments db) \<union> poId ` set (cdPositions db) \<union> skId ` set (cdSkills db))"

lemma members_system: "dpSystem d \<Longrightarrow> members (ds @ [d]) = members ds"
  by (simp add: members_def)

lemma members_grow: "members ds \<subseteq> members (ds @ es)"
  by (auto simp: members_def)

text \<open>Growing the set of departments disturbs nothing in them.\<close>

lemma ladder_mono: "ladder_ok ds ps \<Longrightarrow> members ds \<subseteq> members ds' \<Longrightarrow> ladder_ok ds' ps"
  unfolding ladder_ok_def by blast

lemma skills_mono: "skills_ok ds ps ks \<Longrightarrow> members ds \<subseteq> members ds' \<Longrightarrow> skills_ok ds' ps ks"
  unfolding skills_ok_def by blast

lemma staff_mono: "staff_ok ds ps cs \<Longrightarrow> members ds \<subseteq> members ds' \<Longrightarrow> staff_ok ds' ps cs"
  unfolding staff_ok_def by blast

lemma career_ok_departments:
  assumes "career_ok db" "tree_ok ds" "members (cdDepartments db) \<subseteq> members ds"
  shows "career_ok (db\<lparr> cdDepartments := ds \<rparr>)"
  using assms ladder_mono skills_mono staff_mono unfolding career_ok_def by simp blast

lemma tree_place_mono: "tree_place ds d \<Longrightarrow> set ds \<subseteq> set es \<Longrightarrow> tree_place es d"
  unfolding tree_place_def by (auto split: if_split_asm)

lemma tree_place_cong:
  "dpSystem s = dpSystem m \<Longrightarrow> dpTier s = dpTier m \<Longrightarrow> dpParent s = dpParent m \<Longrightarrow> tree_place ds s = tree_place ds m"
  by (simp add: tree_place_def)

lemma same_department: "tree_ok ds \<Longrightarrow> x \<in> set ds \<Longrightarrow> y \<in> set ds \<Longrightarrow> dpId x = dpId y \<Longrightarrow> x = y"
  unfolding tree_ok_def by (metis distinct_map inj_onD)

lemma tree_parent:
  "tree_ok ds \<Longrightarrow> d \<in> set ds \<Longrightarrow> dpParent d = Some q \<Longrightarrow> \<exists>p \<in> set ds. dpId p = q \<and> dpTier p < dpTier d"
  unfolding tree_ok_def tree_place_def by (metis option.distinct(1) option.inject)

lemma tree_add:
  assumes "tree_ok ds" "dpId d \<notin> dpId ` set ds" "tree_place ds d" "dpSystem d \<Longrightarrow> \<forall>e \<in> set ds. \<not> dpSystem e"
  shows "tree_ok (ds @ [d])"
proof -
  have place: "\<forall>e \<in> set (ds @ [d]). tree_place (ds @ [d]) e"
    using assms(1,3) tree_place_mono [of ds _ "ds @ [d]"] unfolding tree_ok_def by auto
  have one: "e = f" if "e \<in> set (ds @ [d])" "f \<in> set (ds @ [d])" "dpSystem e" "dpSystem f" for e f
    using assms(1,4) that unfolding tree_ok_def by auto
  have ids: "distinct (map dpId (ds @ [d]))" using assms(1,2) by (simp add: tree_ok_def)
  then show ?thesis unfolding tree_ok_def using place one by blast
qed

lemma base_keeps:
  assumes "fresh_ids env" "career_ok db"
  shows "career_ok (ensureCareerBase env db) \<and> career_stays db (ensureCareerBase env db)"
proof (cases "\<exists>d \<in> set (cdDepartments db). dpSystem d")
  case True
  then show ?thesis using assms career_stays_refl by (simp add: ensureCareerBase_def)
next
  case False
  let ?d = "\<lparr> dpId = evNewId env db, dpParent = None, dpTier = 1, dpName = evSystemName env, dpDescription = None, dpSort = 0, dpSystem = True \<rparr>"
  have "tree_ok (cdDepartments db @ [?d])"
    by (rule tree_add) (use assms False in \<open>auto simp: career_ok_def fresh_ids_def tree_place_def\<close>)
  then have "career_ok (db\<lparr> cdDepartments := cdDepartments db @ [?d] \<rparr>)"
    using assms(2) members_system [of ?d "cdDepartments db"] by (intro career_ok_departments) auto
  then show ?thesis using False by (simp add: ensureCareerBase_def career_stays_def)
qed

text \<open>Every write of the structure is a change of the tables with the base rows in place.\<close>

lemma write_cases:
  assumes "write_structure env db work = Inr t" "fresh_ids env" "career_ok db"
  obtains b where "career_ok b" "career_stays db b" "work b = Inr t"
  using assms base_keeps by (auto simp: write_structure_def Let_def and_then_Inr_iff)

section \<open>Departments\<close>

lemma find_department_Inr: "find_department db i = Inr d \<Longrightarrow> d \<in> set (cdDepartments db) \<and> dpId d = i"
  by (auto simp: find_department_def split: option.splits dest: find_Some_in)

lemma find_position_Inr: "find_position db i = Inr p \<Longrightarrow> p \<in> set (cdPositions db) \<and> poId p = i"
  by (auto simp: find_position_def split: option.splits dest: find_Some_in)

lemma find_skill_Inr: "find_skill db i = Inr s \<Longrightarrow> s \<in> set (cdSkills db) \<and> skId s = i"
  by (auto simp: find_skill_def split: option.splits dest: find_Some_in)

lemma member_department_Inr: "memberDepartment db i = Inr d \<Longrightarrow> d \<in> set (cdDepartments db) \<and> dpId d = i \<and> \<not> dpSystem d"
  by (auto simp: memberDepartment_def and_then_Inr_iff dest: find_department_Inr)

lemma member_department_members: "memberDepartment db i = Inr d \<Longrightarrow> dpId d \<in> members (cdDepartments db)"
  by (auto simp: members_def dest: member_department_Inr)

lemma create_department_keeps:
  assumes "createDepartment env db name description tier parentId = Inr t" "fresh_ids env" "career_ok db"
  shows "career_ok t \<and> career_stays db t"
proof -
  obtain b parent where b: "career_ok b" "career_stays db b" and p: "find_department b parentId = Inr parent" "assertTier parent tier = Inr ()"
    and t: "t = b\<lparr> cdDepartments := cdDepartments b @
         [\<lparr> dpId = evNewId env b, dpParent = Some (dpId parent), dpTier = tier, dpName = js_trim name,
            dpDescription = trimOrNull description, dpSort = nextSortOrder b (Some (dpId parent)), dpSystem = False \<rparr>] \<rparr>"
    using assms(1) unfolding createDepartment_def by (rule write_cases [OF _ assms(2,3)]) (auto simp: and_then_Inr_iff)
  have "tree_ok (cdDepartments t)"
    unfolding t using b p find_department_Inr [OF p(1)] assms(2)
    by (simp, intro tree_add) (auto simp: career_ok_def fresh_ids_def assertTier_def tree_place_def)
  then have "career_ok t" unfolding t using b members_grow by (simp add: career_ok_departments)
  moreover have "career_stays b t" unfolding t by (simp add: career_stays_def)
  ultimately show ?thesis using b career_stays_trans by blast
qed

text \<open>A department that is replaced keeps its id and kind.\<close>

lemma tree_replace:
  assumes ok: "tree_ok ds" and d: "d \<in> set ds" and s: "dpId s = dpId d" "dpSystem s = dpSystem d"
    and place: "tree_place (filter (\<lambda>x. dpId x \<noteq> dpId d) ds) s"
    and below: "\<And>c. c \<in> set ds \<Longrightarrow> dpParent c = Some (dpId d) \<Longrightarrow> dpTier s < dpTier c"
  shows "tree_ok (map (\<lambda>x. if dpId x = dpId d then s else x) ds)"
proof -
  let ?h = "\<lambda>x. if dpId x = dpId d then s else x"
  have ids: "map dpId (map ?h ds) = map dpId ds" using s by simp
  have sys: "dpSystem (?h x) = dpSystem x" if "x \<in> set ds" for x using same_department [OF ok that d] s by auto
  have s_place: "tree_place (map ?h ds) s" by (rule tree_place_mono [OF place]) force
  have x_place: "tree_place (map ?h ds) x" if x: "x \<in> set ds" for x
  proof -
    have "\<exists>q \<in> set (map ?h ds). dpParent x = Some (dpId q) \<and> dpTier q < dpTier x"
      if p: "p \<in> set ds" "dpParent x = Some (dpId p)" "dpTier p < dpTier x" for p
    proof (intro bexI [of _ "?h p"])
      show "dpParent x = Some (dpId (?h p)) \<and> dpTier (?h p) < dpTier x" using p below [OF x] s by auto
    qed (use p in simp)
    moreover have "tree_place ds x" using ok x unfolding tree_ok_def by blast
    ultimately show ?thesis unfolding tree_place_def by (auto split: if_split_asm)
  qed
  have one: "e = f" if ef: "e \<in> set (map ?h ds)" "f \<in> set (map ?h ds)" "dpSystem e" "dpSystem f" for e f
  proof -
    obtain x y where xy: "x \<in> set ds" "e = ?h x" "y \<in> set ds" "f = ?h y" using ef(1,2) by auto
    then have "dpSystem x \<and> dpSystem y" using sys ef(3,4) by metis
    then have "x = y" using ok xy unfolding tree_ok_def by blast
    then show ?thesis using xy by simp
  qed
  have "\<forall>e \<in> set (map ?h ds). tree_place (map ?h ds) e" using s_place x_place by auto
  moreover have "distinct (map dpId (map ?h ds))" using ok unfolding tree_ok_def ids by simp
  ultimately show ?thesis unfolding tree_ok_def using one by blast
qed

lemma members_replace:
  assumes "tree_ok ds" "d \<in> set ds" "dpId s = dpId d" "dpSystem s = dpSystem d"
  shows "members (map (\<lambda>x. if dpId x = dpId d then s else x) ds) = members ds"
proof -
  have "map (\<lambda>x. (dpId x, dpSystem x)) (map (\<lambda>x. if dpId x = dpId d then s else x) ds) = map (\<lambda>x. (dpId x, dpSystem x)) ds"
    using same_department [OF assms(1) _ assms(2)] assms(3,4) by auto
  then have "(\<lambda>x. (dpId x, dpSystem x)) ` set (map (\<lambda>x. if dpId x = dpId d then s else x) ds) = (\<lambda>x. (dpId x, dpSystem x)) ` set ds"
    by (metis (no_types, lifting) list.set_map)
  moreover have "members xs = fst ` {p \<in> (\<lambda>x. (dpId x, dpSystem x)) ` set xs. \<not> snd p}" for xs
    by (force simp: members_def)
  ultimately show ?thesis by simp
qed

text \<open>The walk to the root ends within as many turns as there are departments, since the tier falls.\<close>

lemma find_department_id: "tree_ok ds \<Longrightarrow> p \<in> set ds \<Longrightarrow> find (\<lambda>d. dpId d = dpId p) ds = Some p"
proof -
  assume a: "tree_ok ds" "p \<in> set ds"
  obtain x where x: "find (\<lambda>d. dpId d = dpId p) ds = Some x" using a(2) by (cases "find (\<lambda>d. dpId d = dpId p) ds") (auto simp: find_None_iff)
  then have "x = p" using same_department [OF a(1) _ a(2)] find_Some_in [OF x] by blast
  then show ?thesis using x by simp
qed

lemma walk_ends:
  assumes ok: "tree_ok ds"
  shows "c \<in> set ds \<Longrightarrow> card {d \<in> set ds. dpTier d \<le> dpTier c} \<le> fuel \<Longrightarrow>
    \<exists>b. meets_itself fuel ds i (Some c) = Some b \<and> (\<not> b \<longrightarrow> dpId c \<noteq> i)"
proof (induction fuel arbitrary: c)
  case 0
  have "c \<in> {d \<in> set ds. dpTier d \<le> dpTier c}" using "0.prems"(1) by simp
  then have "0 < card {d \<in> set ds. dpTier d \<le> dpTier c}" by (intro card_gt_0_iff [THEN iffD2]) auto
  then show ?case using "0.prems"(2) by simp
next
  case (Suc fuel)
  show ?case
  proof (cases "dpParent c")
    case None
    then show ?thesis by (cases fuel) auto
  next
    case (Some q)
    then obtain p where p: "p \<in> set ds" "dpId p = q" "dpTier p < dpTier c" using tree_parent [OF ok Suc.prems(1)] by blast
    have "{d \<in> set ds. dpTier d \<le> dpTier p} \<subset> {d \<in> set ds. dpTier d \<le> dpTier c}" using p Suc.prems(1) by force
    then have "card {d \<in> set ds. dpTier d \<le> dpTier p} < card {d \<in> set ds. dpTier d \<le> dpTier c}" by (intro psubset_card_mono) auto
    then obtain b where "meets_itself fuel ds i (Some p) = Some b" using Suc.IH [OF p(1)] Suc.prems(2) by (meson less_Suc_eq_le order_less_le_trans)
    then show ?thesis using find_department_id [OF ok p(1)] Some p(2) by auto
  qed
qed

lemma move_always_returns:
  assumes "tree_ok (cdDepartments db)"
  shows "move_department db d tier parentId \<noteq> Inl NeverReturns"
proof
  assume never: "move_department db d tier parentId = Inl NeverReturns"
  let ?ds = "cdDepartments db"
  obtain p where p: "find (\<lambda>x. Some (dpId x) = parentId) ?ds = Some p" "meets_itself (length ?ds) ?ds (dpId d) (Some p) = None"
    using never by (auto simp: move_department_def and_then_def fail_if_def assertTier_def split: if_split_asm option.splits bool.splits)
  have "card {x \<in> set ?ds. dpTier x \<le> dpTier p} \<le> card (set ?ds)" by (intro card_mono) auto
  also have "\<dots> \<le> length ?ds" by (rule card_length)
  finally have "\<exists>b. meets_itself (length ?ds) ?ds (dpId d) (Some p) = Some b"
    using walk_ends [OF assms] find_Some_in [OF p(1)] by blast
  then show False using p(2) by simp
qed

lemma place_beside_itself:
  assumes "tree_ok ds" "d \<in> set ds"
  shows "tree_place (filter (\<lambda>x. dpId x \<noteq> dpId d) ds) d"
proof -
  have "dpId p \<noteq> dpId d" if "p \<in> set ds" "dpTier p < dpTier d" for p
    using same_department [OF assms(1) that(1) assms(2)] that(2) by auto
  moreover have "tree_place ds d" using assms unfolding tree_ok_def by blast
  ultimately show ?thesis unfolding tree_place_def by (auto split: if_split_asm)
qed

lemma below_itself: "tree_ok ds \<Longrightarrow> d \<in> set ds \<Longrightarrow> c \<in> set ds \<Longrightarrow> dpParent c = Some (dpId d) \<Longrightarrow> dpTier d < dpTier c"
  using tree_parent same_department by metis

lemma move_place:
  assumes ok: "tree_ok (cdDepartments db)" and d: "d \<in> set (cdDepartments db)" "\<not> dpSystem d"
    and m: "move_department db d tier parentId = Inr m"
  shows "dpId m = dpId d \<and> dpSystem m = dpSystem d \<and> tree_place (filter (\<lambda>x. dpId x \<noteq> dpId d) (cdDepartments db)) m \<and>
    (\<forall>c \<in> set (cdDepartments db). dpParent c = Some (dpId d) \<longrightarrow> dpTier m < dpTier c)"
proof (cases "tier = dpTier d \<and> parentId = dpParent d")
  case True
  then have "m = d" using m by (simp add: move_department_def)
  then show ?thesis using place_beside_itself [OF ok d(1)] below_itself [OF ok d(1)] by blast
next
  case False
  then obtain p where p: "find (\<lambda>x. Some (dpId x) = parentId) (cdDepartments db) = Some p" "assertTier p tier = Inr ()"
    "meets_itself (length (cdDepartments db)) (cdDepartments db) (dpId d) (Some p) = Some False"
    and low: "\<not> (\<exists>c \<in> set (cdDepartments db). dpParent c = Some (dpId d) \<and> dpTier c \<le> tier)"
    and m': "m = d\<lparr> dpSort := (if parentId \<noteq> dpParent d then nextSortOrder db parentId else dpSort d), dpTier := tier, dpParent := parentId \<rparr>"
    using m by (auto simp: move_department_def and_then_Inr_iff split: option.splits bool.splits)
  have pp: "p \<in> set (cdDepartments db)" "parentId = Some (dpId p)" using find_Some_in [OF p(1)] by auto
  have "dpId p \<noteq> dpId d" using p(3) by (cases "length (cdDepartments db)") (auto split: if_split_asm)
  then have "tree_place (filter (\<lambda>x. dpId x \<noteq> dpId d) (cdDepartments db)) m"
    using p(2) pp d(2) unfolding m' tree_place_def assertTier_def by auto
  then show ?thesis using low unfolding m' by (auto simp: not_le)
qed

lemma update_department_keeps:
  assumes "updateDepartment env db i dto = Inr t" "fresh_ids env" "career_ok db"
  shows "career_ok t \<and> career_stays db t"
proof -
  obtain b d m n where b: "career_ok b" "career_stays db b" and d: "find_department b i = Inr d"
    and m: "place_department b d dto = Inr m" and n: "name_department env b dto m = Inr n"
    and t: "t = b\<lparr> cdDepartments := map (\<lambda>x. if dpId x = dpId d then describe_department dto n else x) (cdDepartments b) \<rparr>"
    using assms(1) unfolding updateDepartment_def by (rule write_cases [OF _ assms(2,3)]) (auto simp: and_then_Inr_iff)
  let ?ds = "cdDepartments b" and ?s = "describe_department dto n"
  have saved: "dpId ?s = dpId m" "dpSystem ?s = dpSystem m" "dpTier ?s = dpTier m" "dpParent ?s = dpParent m"
    using n by (auto simp: name_department_def describe_department_def and_then_Inr_iff split: option.splits)
  have ok: "tree_ok ?ds" and din: "d \<in> set ?ds" using b(1) find_department_Inr [OF d] by (auto simp: career_ok_def)
  have mm: "dpId m = dpId d \<and> dpSystem m = dpSystem d \<and> tree_place (filter (\<lambda>x. dpId x \<noteq> dpId d) ?ds) m \<and>
    (\<forall>c \<in> set ?ds. dpParent c = Some (dpId d) \<longrightarrow> dpTier m < dpTier c)"
  proof (cases "dpSystem d")
    case True
    then have "m = d" using m by (auto simp: place_department_def and_then_Inr_iff)
    then show ?thesis using place_beside_itself [OF ok din] below_itself [OF ok din] by auto
  next
    case False
    then show ?thesis using m move_place [OF ok din] by (auto simp: place_department_def)
  qed
  have "tree_place (filter (\<lambda>x. dpId x \<noteq> dpId d) ?ds) ?s"
    using mm tree_place_cong [OF saved(2-4)] by blast
  then have "tree_ok (cdDepartments t)" unfolding t using mm saved by (simp add: tree_replace [OF ok din])
  moreover have "members (cdDepartments t) = members ?ds" unfolding t using members_replace [OF ok din, of ?s] saved mm by simp
  ultimately have "career_ok t" unfolding t using b(1) by (intro career_ok_departments) auto
  moreover have "career_stays b t" unfolding t by (simp add: career_stays_def)
  ultimately show ?thesis using b(2) career_stays_trans by blast
qed

text \<open>Taking away all rows of a department.\<close>

lemma fewer_kept: "length (filter P (filter Q xs)) \<le> length (filter P xs)"
  by (induction xs) auto

lemma numbered_without: "numbered dep num rows e \<Longrightarrow> numbered dep num (filter (\<lambda>r. dep r \<noteq> Some d) rows) e"
proof (cases "e = d")
  case True
  then have "filter (\<lambda>r. dep r = Some e) (filter (\<lambda>r. dep r \<noteq> Some d) rows) = []" by (simp add: filter_empty_conv)
  then show ?thesis by (simp only: numbered_def Let_def) simp
next
  case False
  then have "filter (\<lambda>r. dep r = Some e) (filter (\<lambda>r. dep r \<noteq> Some d) rows) = filter (\<lambda>r. dep r = Some e) rows"
    unfolding filter_filter by (intro filter_cong) auto
  moreover assume "numbered dep num rows e"
  ultimately show ?thesis by (simp only: numbered_def)
qed

lemma without_ids:
  assumes "distinct (map ident rows)"
  shows "filter (\<lambda>r. ident r \<notin> set (map ident (filter P rows))) rows = filter (\<lambda>r. \<not> P r) rows"
proof (rule filter_cong)
  fix r
  assume r: "r \<in> set rows"
  have "ident r \<in> set (map ident (filter P rows)) \<longleftrightarrow> P r"
    using assms r by (auto simp: distinct_map dest: inj_onD)
  then show "(ident r \<notin> set (map ident (filter P rows))) = (\<not> P r)" by blast
qed simp

lemma delete_department_keeps:
  assumes "deleteDepartment env db i = Inr t" "fresh_ids env" "career_ok db"
  shows "career_ok t \<and> career_stays db t"
proof -
  obtain b d rs where b: "career_ok b" "career_stays db b" and d: "find_department b i = Inr d" "\<not> dpSystem d"
    and free: "\<not> (\<exists>c \<in> set (cdDepartments b). dpParent c = Some (dpId d))"
      "\<not> (\<exists>p \<in> set (cdProfiles b). isEmployed (cpStatus p) \<and> (cpDepartment p = Some (dpId d) \<or>
         (\<exists>q \<in> set (cdPositions b). poDepartment q = Some (dpId d) \<and> cpRole p = Some (poId q))))"
    and t: "t = (retireSkills (b\<lparr> cdPositions := filter (\<lambda>p. poDepartment p \<noteq> Some (dpId d)) (cdPositions b) \<rparr>)
        (map skId (filter (\<lambda>s. skDepartment s = Some (dpId d)) (cdSkills b))))
      \<lparr> cdRequirements := rs, cdDepartments := filter (\<lambda>x. dpId x \<noteq> dpId d) (cdDepartments b) \<rparr>"
    using assms(1) unfolding deleteDepartment_def
    by (rule write_cases [OF _ assms(2,3)]) (auto simp: and_then_Inr_iff Let_def filter_empty_conv retireSkills_def)
  have ok: "tree_ok (cdDepartments b)" "ladder_ok (cdDepartments b) (cdPositions b)"
    "skills_ok (cdDepartments b) (cdPositions b) (cdSkills b)" "staff_ok (cdDepartments b) (cdPositions b) (cdProfiles b)"
    using b(1) by (auto simp: career_ok_def)
  have parts: "cdDepartments t = filter (\<lambda>x. dpId x \<noteq> dpId d) (cdDepartments b)"
    "cdPositions t = filter (\<lambda>p. poDepartment p \<noteq> Some (dpId d)) (cdPositions b)"
    "cdSkills t = filter (\<lambda>s. skDepartment s \<noteq> Some (dpId d)) (cdSkills b)"
    "cdProfiles t = cdProfiles b" "cdEvents t = cdEvents b" "cdEvaluations t = cdEvaluations b"
    "set (filter spAchieved (cdProgress t)) = set (filter spAchieved (cdProgress b))"
    "\<exists>P. cdProgress t = filter P (cdProgress b)"
    using without_ids [of skId "cdSkills b" "\<lambda>s. skDepartment s = Some (dpId d)"] ok(3)
    unfolding t retireSkills_def skills_ok_def by auto
  have place: "tree_place (filter (\<lambda>x. dpId x \<noteq> dpId d) (cdDepartments b)) c" if "c \<in> set (cdDepartments b)" for c
  proof -
    have "tree_place (cdDepartments b) c" using ok(1) that unfolding tree_ok_def by blast
    moreover have "dpParent c \<noteq> Some (dpId d)" using free(1) that by blast
    ultimately show ?thesis unfolding tree_place_def by (auto split: if_split_asm)
  qed
  have "tree_ok (cdDepartments t)"
    using ok(1) place unfolding parts tree_ok_def by (simp add: distinct_map_filter)
  moreover have keep: "members (cdDepartments t) = members (cdDepartments b) - {dpId d}" unfolding parts by (auto simp: members_def)
  then have "ladder_ok (cdDepartments t) (cdPositions t)"
    using ok(2) numbered_without [of poDepartment poRank "cdPositions b" _ "dpId d"]
    unfolding ladder_ok_def keep unfolding parts by (auto simp: distinct_map_filter)
  moreover have "skills_ok (cdDepartments t) (cdPositions t) (cdSkills t)"
    unfolding skills_ok_def keep
  proof (intro conjI)
    show "distinct (map skId (cdSkills t))" using ok(3) unfolding parts skills_ok_def by (simp add: distinct_map_filter)
    show "\<forall>e. numbered skDepartment skSequence (cdSkills t) e"
      using ok(3) numbered_without [of skDepartment skSequence "cdSkills b" _ "dpId d"] unfolding parts skills_ok_def by blast
    show "\<forall>e. length (filter (\<lambda>s. skDepartment s = Some e) (cdSkills t)) \<le> skillsPerDepartment"
      using ok(3) fewer_kept unfolding parts skills_ok_def by (meson order_trans)
    show "\<forall>s \<in> set (cdSkills t). \<forall>e. skDepartment s = Some e \<longrightarrow> e \<in> members (cdDepartments b) - {dpId d}"
      using ok(3) unfolding parts skills_ok_def by auto
    show "\<forall>s \<in> set (cdSkills t). \<forall>q. skPosition s = Some q \<longrightarrow> (\<exists>p \<in> set (cdPositions t). poId p = q \<and> poDepartment p = skDepartment s)"
      using ok(3) unfolding parts skills_ok_def by fastforce
  qed
  moreover have "staff_ok (cdDepartments t) (cdPositions t) (cdProfiles t)"
    unfolding staff_ok_def keep
  proof (intro conjI ballI impI allI)
    show "distinct (map cpId (cdProfiles t))" using ok(4) unfolding parts staff_ok_def by blast
    fix c
    assume c: "c \<in> set (cdProfiles t)" "isEmployed (cpStatus c)"
    then have c': "c \<in> set (cdProfiles b)" unfolding parts by simp
    fix e
    assume "cpDepartment c = Some e"
    then show "e \<in> members (cdDepartments b) - {dpId d}" using ok(4) c' c(2) free(2) unfolding staff_ok_def by blast
  next
    fix c r
    assume c: "c \<in> set (cdProfiles t)" "isEmployed (cpStatus c)" "cpRole c = Some r"
    then have c': "c \<in> set (cdProfiles b)" unfolding parts by simp
    then obtain p where "p \<in> set (cdPositions b)" "poId p = r" "poDepartment p = cpDepartment c" using ok(4) c unfolding staff_ok_def by blast
    moreover have "cpDepartment c \<noteq> Some (dpId d)" using free(2) c' c(2) by blast
    ultimately show "\<exists>p \<in> set (cdPositions t). poId p = r \<and> poDepartment p = cpDepartment c" unfolding parts by auto
  qed
  moreover have "distinct (map (\<lambda>g. (spProfile g, spSkill g)) (cdProgress t))"
    using b(1) parts(8) by (auto simp: career_ok_def distinct_map_filter)
  ultimately have "career_ok t" by (simp add: career_ok_def)
  moreover have "career_stays b t" unfolding career_stays_def parts by simp
  ultimately show ?thesis using b(2) career_stays_trans by blast
qed

section \<open>Copies\<close>

text \<open>The positions and skills of a copied department, with the map from the old ids to the new.\<close>

lemma copy_positions:
  assumes "fresh_ids env"
  shows "distinct (map poId (cdPositions db)) \<Longrightarrow>
    \<exists>news. foldl (copy_position env now dep) (db, ids) ps =
      (db\<lparr> cdPositions := cdPositions db @ news \<rparr>, rev (zip (map poId ps) (map poId news)) @ ids) \<and>
      map poRank news = map poRank ps \<and> (\<forall>p \<in> set news. poDepartment p = Some dep) \<and> distinct (map poId (cdPositions db @ news))"
proof (induction ps arbitrary: db ids)
  case Nil
  show ?case by (intro exI [of _ "[]"]) (use Nil in simp)
next
  case (Cons p ps)
  let ?n = "\<lparr> poId = evNewId env db, poDepartment = Some dep, poRank = poRank p, poName = poName p, poDescription = poDescription p,
           poActive = True, poCreated = now \<rparr>"
  let ?db = "db\<lparr> cdPositions := cdPositions db @ [?n] \<rparr>"
  have "distinct (map poId (cdPositions ?db))" using Cons.prems assms by (auto simp: fresh_ids_def)
  then obtain news where n: "foldl (copy_position env now dep) (?db, (poId p, evNewId env db) # ids) ps =
      (?db\<lparr> cdPositions := cdPositions ?db @ news \<rparr>, rev (zip (map poId ps) (map poId news)) @ (poId p, evNewId env db) # ids)"
      "map poRank news = map poRank ps" "\<forall>p \<in> set news. poDepartment p = Some dep" "distinct (map poId (cdPositions ?db @ news))"
    using Cons.IH [of ?db "(poId p, evNewId env db) # ids"] by blast
  show ?case
    by (intro exI [of _ "?n # news"]) (use n in \<open>simp add: copy_position_def\<close>)
qed

lemma copy_skills:
  assumes "fresh_ids env"
  shows "distinct (map skId (cdSkills db)) \<Longrightarrow>
    \<exists>news ids'. foldl (copy_skill env now dep positions) (db, ids) ks = (db\<lparr> cdSkills := cdSkills db @ news \<rparr>, ids') \<and>
      map skSequence news = map skSequence ks \<and> (\<forall>s \<in> set news. skDepartment s = Some dep) \<and>
      (\<forall>s \<in> set news. \<forall>q. skPosition s = Some q \<longrightarrow> (\<exists>k \<in> set ks. \<exists>p. skPosition k = Some p \<and> map_of positions p = Some q)) \<and>
      distinct (map skId (cdSkills db @ news))"
proof (induction ks arbitrary: db ids)
  case Nil
  show ?case by (intro exI [of _ "[]"] exI [of _ ids]) (use Nil in simp)
next
  case (Cons s ks)
  let ?n = "s\<lparr> skId := evNewId env db, skDepartment := Some dep,
            skPosition := (case skPosition s of None \<Rightarrow> None | Some q \<Rightarrow> map_of positions q), skCreated := now \<rparr>"
  let ?db = "db\<lparr> cdSkills := cdSkills db @ [?n] \<rparr>"
  have "distinct (map skId (cdSkills ?db))" using Cons.prems assms by (auto simp: fresh_ids_def)
  then obtain news ids' where n: "foldl (copy_skill env now dep positions) (?db, (skId s, evNewId env db) # ids) ks =
      (?db\<lparr> cdSkills := cdSkills ?db @ news \<rparr>, ids')"
      "map skSequence news = map skSequence ks" "\<forall>s \<in> set news. skDepartment s = Some dep"
      "\<forall>s \<in> set news. \<forall>q. skPosition s = Some q \<longrightarrow> (\<exists>k \<in> set ks. \<exists>p. skPosition k = Some p \<and> map_of positions p = Some q)"
      "distinct (map skId (cdSkills ?db @ news))"
    using Cons.IH [of ?db "(skId s, evNewId env db) # ids"] by blast
  show ?case
  proof (intro exI [of _ "?n # news"] exI [of _ ids'] conjI)
    show "\<forall>x \<in> set (?n # news). \<forall>q. skPosition x = Some q \<longrightarrow> (\<exists>k \<in> set (s # ks). \<exists>p. skPosition k = Some p \<and> map_of positions p = Some q)"
      using n(4) by (auto split: option.split_asm)
  qed (use n in \<open>simp_all add: copy_skill_def\<close>)
qed

lemma copied_requirements: "\<exists>rs. foldl (\<lambda>d x. copy_requirements all (keep x) (po x) (sk x) skills d) db xs = db\<lparr> cdRequirements := rs \<rparr>"
proof (induction xs arbitrary: db)
  case Nil
  show ?case by (intro exI [of _ "cdRequirements db"]) simp
next
  case (Cons x xs)
  obtain rs where "copy_requirements all (keep x) (po x) (sk x) skills db = db\<lparr> cdRequirements := rs \<rparr>" by (simp add: copy_requirements_def)
  then show ?case using Cons [of "db\<lparr> cdRequirements := rs \<rparr>"] by auto
qed

lemma numbered_copy:
  assumes ok: "\<And>e. numbered dep num rows e" and ids: "distinct (map ident (rows @ news))" and new: "\<forall>r \<in> set news. dep r = Some c"
    and unused: "\<forall>r \<in> set rows. dep r \<noteq> Some c" and nums: "map num news = map num (filter (\<lambda>r. dep r = Some s) rows)"
  shows "numbered dep num (rows @ news) e"
proof (cases "e = c")
  case True
  have "filter (\<lambda>r. dep r = Some c) rows = []" using unused by (simp add: filter_empty_conv)
  then have own: "filter (\<lambda>r. dep r = Some c) (rows @ news) = news" using new by (simp add: filter_id_conv)
  have len: "length news = length (filter (\<lambda>r. dep r = Some s) rows)" using arg_cong [OF nums, of length] by simp
  have "num ` set news = num ` set (filter (\<lambda>r. dep r = Some s) rows)" using arg_cong [OF nums, of set] by simp
  then show ?thesis using ok [of s] len unfolding numbered_def Let_def True own by simp
next
  case False
  then have "filter (\<lambda>r. dep r = Some e) news = []" using new by (simp add: filter_empty_conv)
  then have "filter (\<lambda>r. dep r = Some e) (rows @ news) = filter (\<lambda>r. dep r = Some e) rows" by simp
  then show ?thesis using ok [of e] by (simp only: numbered_def)
qed

lemma copied_ladder:
  assumes ok: "ladder_ok ds ps" and new: "distinct (map poId (ps @ news))" "\<forall>p \<in> set news. poDepartment p = Some c"
      "map poRank news = map poRank (filter (\<lambda>p. poDepartment p = Some s) ps)"
    and c: "c \<notin> members ds" and grow: "members ds \<subseteq> members ds'" "c \<in> members ds'"
  shows "ladder_ok ds' (ps @ news)"
  unfolding ladder_ok_def
proof (intro conjI allI)
  fix e
  have "\<forall>r \<in> set ps. poDepartment r \<noteq> Some c" using ok c unfolding ladder_ok_def by blast
  then show "numbered poDepartment poRank (ps @ news) e"
    using ok new numbered_copy [of poDepartment poRank ps poId news c s] unfolding ladder_ok_def by blast
next
  show "\<forall>p \<in> set (ps @ news). \<forall>d. poDepartment p = Some d \<longrightarrow> d \<in> members ds'"
    using ok new(2) grow unfolding ladder_ok_def by auto
qed (rule new)

lemma copied_skills:
  assumes ok: "skills_ok ds ps ks" and new: "distinct (map skId (ks @ news))" "\<forall>s \<in> set news. skDepartment s = Some c"
      "map skSequence news = map skSequence (filter (\<lambda>k. skDepartment k = Some s) ks)"
    and c: "c \<notin> members ds" and grow: "members ds \<subseteq> members ds'" "c \<in> members ds'"
    and placed: "\<And>k q. k \<in> set news \<Longrightarrow> skPosition k = Some q \<Longrightarrow> \<exists>p \<in> set ps'. poId p = q \<and> poDepartment p = Some c"
    and more: "set ps \<subseteq> set ps'"
  shows "skills_ok ds' ps' (ks @ news)"
  unfolding skills_ok_def
proof (intro conjI allI)
  have unused: "\<forall>k \<in> set ks. skDepartment k \<noteq> Some c" using ok c unfolding skills_ok_def by blast
  have few: "length (filter (\<lambda>k. skDepartment k = Some d) ks) \<le> skillsPerDepartment" for d using ok unfolding skills_ok_def by blast
  fix e
  show "numbered skDepartment skSequence (ks @ news) e"
    using ok new unused numbered_copy [of skDepartment skSequence ks skId news c s] unfolding skills_ok_def by blast
  show "length (filter (\<lambda>k. skDepartment k = Some e) (ks @ news)) \<le> skillsPerDepartment"
  proof (cases "e = c")
    case True
    have "length news = length (filter (\<lambda>k. skDepartment k = Some s) ks)" using arg_cong [OF new(3), of length] by simp
    moreover have "filter (\<lambda>k. skDepartment k = Some e) (ks @ news) = news"
      using True unused new(2) by (simp add: filter_empty_conv filter_id_conv)
    ultimately show ?thesis using few by simp
  next
    case False
    then have "filter (\<lambda>k. skDepartment k = Some e) news = []" using new(2) by (simp add: filter_empty_conv)
    then show ?thesis using few by simp
  qed
next
  show "\<forall>k \<in> set (ks @ news). \<forall>d. skDepartment k = Some d \<longrightarrow> d \<in> members ds'"
    using ok new(2) grow unfolding skills_ok_def by auto
  have "\<exists>p \<in> set ps'. poId p = q \<and> poDepartment p = skDepartment k" if "k \<in> set ks" "skPosition k = Some q" for k q
    using ok that more unfolding skills_ok_def by blast
  then show "\<forall>k \<in> set (ks @ news). \<forall>q. skPosition k = Some q \<longrightarrow> (\<exists>p \<in> set ps'. poId p = q \<and> poDepartment p = skDepartment k)"
    using placed new(2) by auto
qed (rule new)

lemma duplicate_department_keeps:
  assumes "duplicateDepartment env now db i = Inr t" "fresh_ids env" "career_ok db"
  shows "career_ok t \<and> career_stays db t"
proof -
  obtain b source name where b: "career_ok b" "career_stays db b" and src: "find_department b i = Inr source" "\<not> dpSystem source"
    and r: "t = write_copy env now source name b"
    using assms(1) unfolding duplicateDepartment_def by (rule write_cases [OF _ assms(2,3)]) (auto simp: and_then_Inr_iff)
  let ?c = "evNewId env b"
  let ?d = "\<lparr> dpId = ?c, dpParent = dpParent source, dpTier = dpTier source, dpName = name, dpDescription = dpDescription source,
                dpSort = nextSortOrder b (dpParent source), dpSystem = False \<rparr>"
  let ?ds = "cdDepartments b @ [?d]"
  have ok: "tree_ok (cdDepartments b)" "ladder_ok (cdDepartments b) (cdPositions b)"
    "skills_ok (cdDepartments b) (cdPositions b) (cdSkills b)" "staff_ok (cdDepartments b) (cdPositions b) (cdProfiles b)"
    using b(1) by (auto simp: career_ok_def)
  have din: "source \<in> set (cdDepartments b)" using find_department_Inr [OF src(1)] by blast
  have unused: "?c \<notin> members (cdDepartments b)" "?c \<notin> dpId ` set (cdDepartments b)" using assms(2) by (auto simp: fresh_ids_def members_def)
  have tree: "tree_ok ?ds"
  proof (rule tree_add [OF ok(1)])
    have "tree_place (cdDepartments b) source" using ok(1) din unfolding tree_ok_def by blast
    then show "tree_place (cdDepartments b) ?d" using src(2) tree_place_cong [of ?d source] by simp
  qed (use unused in auto)
  have grow: "members (cdDepartments b) \<subseteq> members ?ds" "?c \<in> members ?ds" by (auto simp: members_def)
  let ?src = "Some (dpId source)"
  let ?ps = "filter (\<lambda>p. poDepartment p = ?src) (cdPositions b)" and ?ks = "filter (\<lambda>s. skDepartment s = ?src) (cdSkills b)"
  obtain ps where ps: "foldl (copy_position env now ?c) (b\<lparr> cdDepartments := ?ds \<rparr>, []) ?ps =
      (b\<lparr> cdDepartments := ?ds, cdPositions := cdPositions b @ ps \<rparr>, rev (zip (map poId ?ps) (map poId ps)))"
      "map poRank ps = map poRank ?ps" "\<forall>p \<in> set ps. poDepartment p = Some ?c" "distinct (map poId (cdPositions b @ ps))"
    using copy_positions [OF assms(2), of "b\<lparr> cdDepartments := ?ds \<rparr>" now ?c "[]" ?ps] ok(2) by (auto simp: ladder_ok_def)
  let ?pm = "rev (zip (map poId ?ps) (map poId ps))"
  obtain ks ids where ks: "foldl (copy_skill env now ?c ?pm) (b\<lparr> cdDepartments := ?ds, cdPositions := cdPositions b @ ps \<rparr>, []) ?ks =
      (b\<lparr> cdDepartments := ?ds, cdPositions := cdPositions b @ ps, cdSkills := cdSkills b @ ks \<rparr>, ids)"
      "map skSequence ks = map skSequence ?ks" "\<forall>s \<in> set ks. skDepartment s = Some ?c"
      "\<forall>s \<in> set ks. \<forall>q. skPosition s = Some q \<longrightarrow> (\<exists>k \<in> set ?ks. \<exists>p. skPosition k = Some p \<and> map_of ?pm p = Some q)"
      "distinct (map skId (cdSkills b @ ks))"
    using copy_skills [OF assms(2), of "b\<lparr> cdDepartments := ?ds, cdPositions := cdPositions b @ ps \<rparr>" now ?c ?pm "[]" ?ks] ok(3)
    by (auto simp: skills_ok_def)
  let ?b3 = "b\<lparr> cdDepartments := ?ds, cdPositions := cdPositions b @ ps, cdSkills := cdSkills b @ ks \<rparr>"
  obtain rs where t: "t = ?b3\<lparr> cdRequirements := rs \<rparr>"
  proof -
    obtain rs1 where 1: "foldl (\<lambda>d s. copy_requirements (cdRequirements b) (\<lambda>r. rwSkill r = Some (skId s)) None (map_of ids (skId s)) ids d) ?b3 ?ks =
        ?b3\<lparr> cdRequirements := rs1 \<rparr>"
      using copied_requirements [of "cdRequirements b" "\<lambda>s r. rwSkill r = Some (skId s)" "\<lambda>_. None" "\<lambda>s. map_of ids (skId s)" ids ?b3 ?ks] by blast
    obtain rs2 where 2: "foldl (\<lambda>d p. copy_requirements (cdRequirements b) (\<lambda>r. rwPosition r = Some (poId p)) (map_of ?pm (poId p)) None ids d)
        (?b3\<lparr> cdRequirements := rs1 \<rparr>) ?ps = ?b3\<lparr> cdRequirements := rs1, cdRequirements := rs2 \<rparr>"
      using copied_requirements [of "cdRequirements b" "\<lambda>p r. rwPosition r = Some (poId p)" "\<lambda>p. map_of ?pm (poId p)" "\<lambda>_. None" ids
        "?b3\<lparr> cdRequirements := rs1 \<rparr>" ?ps] by blast
    show thesis by (rule that [of rs2]) (use 1 2 in \<open>simp add: r write_copy_def Let_def ps(1) ks(1)\<close>)
  qed
  have "ladder_ok ?ds (cdPositions b @ ps)" by (rule copied_ladder [OF ok(2) ps(4,3,2) unused(1) grow])
  moreover have "skills_ok ?ds (cdPositions b @ ps) (cdSkills b @ ks)"
  proof (rule copied_skills [OF ok(3) ks(5,3,2) unused(1) grow])
    fix s q
    assume s: "s \<in> set ks" "skPosition s = Some q"
    then obtain p where "map_of ?pm p = Some q" using ks(4) by blast
    then have "q \<in> poId ` set ps" by (auto dest!: map_of_SomeD simp: in_set_zip)
    then show "\<exists>p \<in> set (cdPositions b @ ps). poId p = q \<and> poDepartment p = Some ?c" using ps(3) by auto
  qed auto
  moreover have "staff_ok ?ds (cdPositions b @ ps) (cdProfiles b)" using ok(4) grow(1) unfolding staff_ok_def by fastforce
  ultimately have "career_ok t" using tree b(1) unfolding t by (simp add: career_ok_def)
  moreover have "career_stays b t" unfolding t by (simp add: career_stays_def)
  ultimately show ?thesis using b(2) career_stays_trans by blast
qed

end
