(* ===== verification/CareerLadder.thy ===== *)
theory CareerLadder
  imports CareerTree
begin

text \<open>
  The writes of positions and skills (\<open>career-structure.service.ts\<close>) keep the career in order (\<open>career_ok\<close> of CareerTree).
\<close>

section \<open>Positions\<close>

lemma write_requirements_Inr: "writeRequirements positionId skillId rs db = Inr t \<Longrightarrow> \<exists>q. t = db\<lparr> cdRequirements := q \<rparr>"
  unfolding writeRequirements_def Let_def and_then_Inr_iff by blast

lemma career_ok_requirements [simp]: "career_ok (db\<lparr> cdRequirements := rs \<rparr>) = career_ok db"
  by (simp add: career_ok_def)

lemma career_stays_requirements [simp]: "career_stays s (t\<lparr> cdRequirements := rs \<rparr>) = career_stays s t"
  by (simp add: career_stays_def)

lemma ordered_positions:
  assumes "ladder_ok (cdDepartments db) (cdPositions db)"
  shows "distinct (orderedPositions db d)" "set (orderedPositions db d) = poId ` {p \<in> set (cdPositions db). poDepartment p = Some d}"
  using assms by (auto simp: orderedPositions_def ladder_ok_def intro!: distinct_in_order distinct_map_filter)

definition position_needed :: "career_db \<Rightarrow> string \<Rightarrow> bool" where
  "position_needed db i \<longleftrightarrow> (\<exists>s \<in> set (cdSkills db). skPosition s = Some i) \<or>
     (\<exists>c \<in> set (cdProfiles db). isEmployed (cpStatus c) \<and> cpRole c = Some i)"

text \<open>New positions are in order when they are numbered and those that are needed are still where they were.\<close>

lemma career_ok_positions:
  assumes ok: "career_ok db" and ladder: "ladder_ok (cdDepartments db) ps"
    and keep: "\<And>p. p \<in> set (cdPositions db) \<Longrightarrow> position_needed db (poId p) \<Longrightarrow> \<exists>q \<in> set ps. poId q = poId p \<and> poDepartment q = poDepartment p"
  shows "career_ok (db\<lparr> cdPositions := ps \<rparr>)"
proof -
  have "skills_ok (cdDepartments db) ps (cdSkills db)"
  proof -
    have "\<exists>q \<in> set ps. poId q = i \<and> poDepartment q = skDepartment s" if s: "s \<in> set (cdSkills db)" "skPosition s = Some i" for s i
    proof -
      obtain p where "p \<in> set (cdPositions db)" "poId p = i" "poDepartment p = skDepartment s"
        using ok s unfolding career_ok_def skills_ok_def by blast
      then show ?thesis using keep [of p] s unfolding position_needed_def by auto
    qed
    then show ?thesis using ok unfolding career_ok_def skills_ok_def by blast
  qed
  moreover have "staff_ok (cdDepartments db) ps (cdProfiles db)"
  proof -
    have "\<exists>q \<in> set ps. poId q = i \<and> poDepartment q = cpDepartment c"
      if c: "c \<in> set (cdProfiles db)" "isEmployed (cpStatus c)" "cpRole c = Some i" for c i
    proof -
      obtain p where "p \<in> set (cdPositions db)" "poId p = i" "poDepartment p = cpDepartment c"
        using ok c unfolding career_ok_def staff_ok_def by blast
      then show ?thesis using keep [of p] c unfolding position_needed_def by auto
    qed
    then show ?thesis using ok unfolding career_ok_def staff_ok_def by blast
  qed
  ultimately show ?thesis using ok ladder by (simp add: career_ok_def)
qed

lemma ladder_cong:
  assumes "map (\<lambda>p. (poId p, poDepartment p, poRank p)) ps' = map (\<lambda>p. (poId p, poDepartment p, poRank p)) ps"
  shows "ladder_ok ds ps' = ladder_ok ds ps"
proof -
  have g: "map (f \<circ> (\<lambda>p. (poId p, poDepartment p, poRank p))) ps' = map (f \<circ> (\<lambda>p. (poId p, poDepartment p, poRank p))) ps" for f
    using arg_cong [OF assms, of "map f"] by (simp only: map_map)
  have "map poId ps' = map poId ps" using g [of fst] by (simp add: comp_def)
  moreover have "poDepartment ` set ps' = poDepartment ` set ps" using g [of "fst \<circ> snd"] by (simp add: comp_def flip: set_map)
  then have "(\<forall>e \<in> poDepartment ` set ps'. \<forall>d. e = Some d \<longrightarrow> d \<in> members ds) = (\<forall>e \<in> poDepartment ` set ps. \<forall>d. e = Some d \<longrightarrow> d \<in> members ds)"
    by (simp only:)
  then have "(\<forall>p \<in> set ps'. \<forall>d. poDepartment p = Some d \<longrightarrow> d \<in> members ds) = (\<forall>p \<in> set ps. \<forall>d. poDepartment p = Some d \<longrightarrow> d \<in> members ds)"
    by simp
  moreover have "(\<forall>d. numbered poDepartment poRank ps' d) = (\<forall>d. numbered poDepartment poRank ps d)"
    using g [of snd] numbered_cong [of poDepartment poRank ps' ps] by (simp add: comp_def)
  ultimately show ?thesis unfolding ladder_ok_def by (simp only:)
qed

lemma same_images: "map f xs = map f ys \<Longrightarrow> f ` set xs = f ` set ys"
  by (metis list.set_map)

lemma numbered_positions_place:
  "(\<lambda>p. (poId p, poDepartment p)) ` set (number_rows poId set_rank n ids ps) = (\<lambda>p. (poId p, poDepartment p)) ` set ps"
  by (rule same_images) (rule position_numbers.keys_kept)

lemma place_in: "(i, d) \<in> (\<lambda>p. (poId p, poDepartment p)) ` set ps \<longleftrightarrow> (\<exists>q \<in> set ps. poId q = i \<and> poDepartment q = d)"
  by auto

lemma ladder_numbers:
  assumes "\<And>e. numbered poDepartment poRank (number_rows poId set_rank n ids ps) e" "distinct (map poId ps)"
    and "\<forall>p \<in> set ps. \<forall>d. poDepartment p = Some d \<longrightarrow> d \<in> members ds"
  shows "ladder_ok ds (number_rows poId set_rank n ids ps)"
proof -
  have "d \<in> members ds" if "q \<in> set (number_rows poId set_rank n ids ps)" "poDepartment q = Some d" for q d
  proof -
    have "(poId q, Some d) \<in> (\<lambda>p. (poId p, poDepartment p)) ` set (number_rows poId set_rank n ids ps)" using that by force
    then have "(poId q, Some d) \<in> (\<lambda>p. (poId p, poDepartment p)) ` set ps" by (simp only: numbered_positions_place)
    then show ?thesis using assms(3) by auto
  qed
  then show ?thesis using assms(1,2) position_numbers.idents_kept [of n ids ps] unfolding ladder_ok_def by auto
qed

lemma create_position_keeps:
  assumes "createPosition env now db departmentId name description rank reqs = Inr t" "fresh_ids env" "career_ok db"
  shows "career_ok t \<and> career_stays db t"
proof -
  obtain b d requirements where b: "career_ok b" "career_stays db b" and d: "memberDepartment b departmentId = Inr d"
    and w: "insert_position env now b (dpId d) name description rank requirements = Inr t"
    using assms(1) unfolding createPosition_def by (rule write_cases [OF _ assms(2,3)]) (auto simp: and_then_Inr_iff)
  obtain x rs where x: "poId x = evNewId env b" "poDepartment x = Some (dpId d)"
    and t: "t = b\<lparr> cdPositions := number_rows poId set_rank 1 (placed (orderedPositions b (dpId d)) (evNewId env b) rank) (cdPositions b @ [x]),
      cdRequirements := rs \<rparr>"
  proof -
    obtain rs where "t = (orderPositions (b\<lparr> cdPositions := cdPositions b @
        [\<lparr> poId = evNewId env b, poDepartment = Some (dpId d), poRank = None, poName = js_trim name, poDescription = trimOrNull description,
           poActive = True, poCreated = now \<rparr>] \<rparr>) (placed (orderedPositions b (dpId d)) (evNewId env b) rank))\<lparr> cdRequirements := rs \<rparr>"
      using write_requirements_Inr [OF w [unfolded insert_position_def Let_def]] by blast
    then show thesis by (intro that) (auto simp: orderPositions_def)
  qed
  have ladder: "ladder_ok (cdDepartments b) (cdPositions b)" using b(1) by (simp add: career_ok_def)
  let ?ids = "placed (orderedPositions b (dpId d)) (evNewId env b) rank"
  have new: "distinct (map poId (cdPositions b @ [x]))" using ladder assms(2) x by (auto simp: ladder_ok_def fresh_ids_def)
  have "ladder_ok (cdDepartments b) (number_rows poId set_rank 1 ?ids (cdPositions b @ [x]))"
  proof (rule ladder_numbers [OF _ new])
    fix e
    show "numbered poDepartment poRank (number_rows poId set_rank 1 ?ids (cdPositions b @ [x])) e"
      by (rule position_numbers.numbered_add [OF new x(2)])
        (use ladder ordered_positions [OF ladder, of "dpId d"] x(1) in \<open>auto simp: ladder_ok_def intro: distinct_placed\<close>)
    show "\<forall>p \<in> set (cdPositions b @ [x]). \<forall>d. poDepartment p = Some d \<longrightarrow> d \<in> members (cdDepartments b)"
      using ladder x(2) member_department_members [OF d] by (auto simp: ladder_ok_def)
  qed
  then have "career_ok t" unfolding t using b(1)
    by (simp, intro career_ok_positions) (auto simp flip: place_in simp: numbered_positions_place)
  moreover have "career_stays b t" unfolding t by (simp add: career_stays_def)
  ultimately show ?thesis using b(2) career_stays_trans by blast
qed

lemma not_needed:
  assumes "countHolders db i = 0" "assertNoPositionSkills db i = Inr ()"
  shows "\<not> position_needed db i"
proof -
  have "filter (\<lambda>s. skPosition s = Some i) (cdSkills db) = []" using assms(2) by (simp add: assertNoPositionSkills_def Let_def)
  moreover have "filter (\<lambda>p. cpRole p = Some i \<and> isEmployed (cpStatus p)) (cdProfiles db) = []" using assms(1) by (simp add: countHolders_def)
  ultimately show ?thesis unfolding position_needed_def filter_empty_conv by blast
qed

text \<open>A position that nobody needs may go to another department.\<close>

lemma relocate_position_keeps:
  assumes ok: "career_ok db" and role: "role \<in> set (cdPositions db)" and free: "\<not> position_needed db (poId role)"
    and d: "d \<in> members (cdDepartments db)" "poDepartment role \<noteq> Some d"
  shows "career_ok (relocate_position db role d rank) \<and> career_stays db (relocate_position db role d rank)"
proof -
  have ladder: "ladder_ok (cdDepartments db) (cdPositions db)" using ok by (simp add: career_ok_def)
  have dist: "distinct (map poId (cdPositions db))" using ladder by (simp add: ladder_ok_def)
  let ?rows = "cdPositions db" and ?ids2 = "placed (orderedPositions db d) (poId role) rank"
  define ids1 where "ids1 = (case poDepartment role of None \<Rightarrow> [] | Some old \<Rightarrow> filter (\<lambda>x. x \<noteq> poId role) (orderedPositions db old))"
  define blank :: "position \<Rightarrow> position" where "blank = (if poDepartment role = None then (\<lambda>p. p) else (\<lambda>p. p\<lparr> poRank := None \<rparr>))"
  define rows1 where "rows1 = number_rows poId set_rank 1 ids1 (map (\<lambda>p. if poId p = poId role then blank p else p) ?rows)"
  let ?rows2 = "map (\<lambda>p. if poId p = poId role then p\<lparr> poDepartment := Some d \<rparr> else p) rows1"
  let ?ps = "number_rows poId set_rank 1 ?ids2 ?rows2"
  have t: "relocate_position db role d rank = db\<lparr> cdPositions := ?ps \<rparr>"
    by (cases "poDepartment role")
      (simp_all add: relocate_position_def Let_def orderPositions_def change_position_def rows1_def ids1_def blank_def cong: if_cong)
  have keys1: "map (\<lambda>p. (poId p, poDepartment p)) rows1 = map (\<lambda>p. (poId p, poDepartment p)) ?rows"
    unfolding rows1_def by (simp add: position_numbers.keys_kept blank_def)
  then have places1: "(\<lambda>p. (poId p, poDepartment p)) ` set rows1 = (\<lambda>p. (poId p, poDepartment p)) ` set ?rows" by (rule same_images)
  have keep: "\<exists>q \<in> set ?ps. poId q = poId p \<and> poDepartment q = poDepartment p" if p: "p \<in> set ?rows" "poId p \<noteq> poId role" for p
  proof -
    obtain q where "q \<in> set rows1" "poId q = poId p" "poDepartment q = poDepartment p" using p(1) places1 place_in by blast
    moreover from this have "q \<in> set ?rows2" using p(2) by (auto intro!: image_eqI [of _ _ q])
    ultimately have "(poId p, poDepartment p) \<in> (\<lambda>p. (poId p, poDepartment p)) ` set ?rows2" using place_in by blast
    then show ?thesis unfolding place_in [symmetric] numbered_positions_place .
  qed
  have "ladder_ok (cdDepartments db) ?ps"
  proof (rule ladder_numbers)
    fix e
    show "numbered poDepartment poRank ?ps e"
    proof (rule position_numbers.numbered_move [OF dist role _ _ _ _ rows1_def [unfolded ids1_def [symmetric]]])
      show "position_numbers.left_behind ?rows role ids1"
        unfolding position_numbers.left_behind_def ids1_def
        by (cases "poDepartment role") (auto simp: ordered_positions [OF ladder])
    qed (use ladder d(2) ordered_positions [OF ladder, of d] in \<open>auto simp: ladder_ok_def blank_def intro: distinct_placed\<close>)
    have "map poId ?rows2 = map poId rows1" by simp
    then have "map poId ?rows2 = map poId ?rows" using arg_cong [OF keys1, of "map fst"] by (simp add: comp_def del: map_eq_conv)
    then show "distinct (map poId ?rows2)" using dist by simp
    show "\<forall>p \<in> set ?rows2. \<forall>e. poDepartment p = Some e \<longrightarrow> e \<in> members (cdDepartments db)"
    proof (intro ballI allI impI)
      fix p e
      assume "p \<in> set ?rows2" "poDepartment p = Some e"
      then have "e = d \<or> (\<exists>q \<in> set rows1. poDepartment q = Some e)" by (auto split: if_splits)
      moreover have "\<exists>x \<in> set ?rows. poDepartment x = Some e" if "q \<in> set rows1" "poDepartment q = Some e" for q
        using that places1 place_in [of "poId q" "Some e"] by blast
      ultimately show "e \<in> members (cdDepartments db)" using d(1) ladder unfolding ladder_ok_def by blast
    qed
  qed
  then have "career_ok (db\<lparr> cdPositions := ?ps \<rparr>)"
  proof (rule career_ok_positions [OF ok])
    fix p
    assume p: "p \<in> set ?rows" "position_needed db (poId p)"
    then have "poId p \<noteq> poId role" using free by (cases "poId p = poId role") simp_all
    then show "\<exists>q \<in> set ?ps. poId q = poId p \<and> poDepartment q = poDepartment p" by (rule keep [OF p(1)])
  qed
  then show ?thesis unfolding t by (simp add: career_stays_def)
qed

lemma move_position_keeps:
  assumes m: "move_position env db role targetId dto = Inr t" and ok: "career_ok db" and role: "role \<in> set (cdPositions db)"
  shows "career_ok t \<and> career_stays db t"
proof (cases "Some targetId = poDepartment role")
  case False
  then obtain d where d: "memberDepartment db targetId = Inr d" "\<not> position_needed db (poId role)"
    "t = relocate_position db role (dpId d) (piRank dto)"
    using m unfolding move_position_def by (auto simp: and_then_Inr_iff dest: not_needed)
  then show ?thesis using relocate_position_keeps [OF ok role] member_department_members [OF d(1)] member_department_Inr [OF d(1)] False by auto
next
  case True
  have ladder: "ladder_ok (cdDepartments db) (cdPositions db)" using ok by (simp add: career_ok_def)
  let ?ids = "placed (orderedPositions db targetId) (poId role) (piRank dto)"
  have "t = db \<or> t = orderPositions db ?ids" using m True by (auto simp: move_position_def split: if_split_asm)
  moreover have "career_ok (orderPositions db ?ids)"
  proof -
    have "ladder_ok (cdDepartments db) (number_rows poId set_rank 1 ?ids (cdPositions db))"
    proof (rule ladder_numbers)
      fix e
      show "numbered poDepartment poRank (number_rows poId set_rank 1 ?ids (cdPositions db)) e"
        by (rule position_numbers.renumber [of _ _ targetId])
          (use ladder role True ordered_positions [OF ladder, of targetId] in \<open>auto simp: ladder_ok_def intro: distinct_placed\<close>)
    qed (use ladder in \<open>auto simp: ladder_ok_def\<close>)
    then show ?thesis unfolding orderPositions_def using ok
      by (intro career_ok_positions) (auto simp flip: place_in simp: numbered_positions_place)
  qed
  ultimately show ?thesis using ok career_stays_refl by (auto simp: career_stays_def orderPositions_def)
qed

lemma edit_position_keeps:
  assumes "edit_position env role targetId dto db = Inr t" "career_ok db"
  shows "career_ok t \<and> career_stays db t"
proof -
  let ?f = "\<lambda>p. p\<lparr> poName := patched (map_option js_trim (piName dto)) (poName p),
          poDescription := patched (map_option trimOrNull (piDescription dto)) (poDescription p) \<rparr>"
  let ?ps = "map (\<lambda>p. if poId p = poId role then ?f p else p) (cdPositions db)"
  have t: "t = db\<lparr> cdPositions := ?ps \<rparr>"
    using assms(1) by (auto simp: edit_position_def and_then_Inr_iff change_position_def)
  have "map (\<lambda>p. (poId p, poDepartment p, poRank p)) ?ps = map (\<lambda>p. (poId p, poDepartment p, poRank p)) (cdPositions db)" by simp
  then have "ladder_ok (cdDepartments db) ?ps" using ladder_cong assms(2) unfolding career_ok_def by blast
  moreover have "map (\<lambda>p. (poId p, poDepartment p)) ?ps = map (\<lambda>p. (poId p, poDepartment p)) (cdPositions db)" by simp
  then have "(\<lambda>p. (poId p, poDepartment p)) ` set ?ps = (\<lambda>p. (poId p, poDepartment p)) ` set (cdPositions db)" by (rule same_images)
  then have "\<exists>q \<in> set ?ps. poId q = poId p \<and> poDepartment q = poDepartment p" if "p \<in> set (cdPositions db)" for p
    using that place_in by blast
  ultimately have "career_ok t" unfolding t using assms(2) career_ok_positions by blast
  then show ?thesis unfolding t by (simp add: career_stays_def)
qed

lemma replace_requirements_Inr: "replaceRequirements subject positionId skillId reqs db = Inr t \<Longrightarrow> \<exists>q. t = db\<lparr> cdRequirements := q \<rparr>"
  unfolding replaceRequirements_def using write_requirements_Inr
  by (auto simp: and_then_Inr_iff split: option.splits intro: exI [of _ "cdRequirements db"])

lemma update_position_keeps:
  assumes "updatePosition env db i dto = Inr t" "fresh_ids env" "career_ok db"
  shows "career_ok t \<and> career_stays db t"
proof -
  obtain b role targetId b1 b2 where b: "career_ok b" "career_stays db b" and role: "find_position b i = Inr role"
    and m: "move_position env b role targetId dto = Inr b1" and e: "edit_position env role targetId dto b1 = Inr b2"
    and t: "replaceRequirements POSITION (Some (poId role)) None (piRequirements dto) b2 = Inr t"
    using assms(1) unfolding updatePosition_def
    by (rule write_cases [OF _ assms(2,3)]) (auto simp: and_then_Inr_iff split: option.split_asm)
  have "career_ok b2 \<and> career_stays b1 b2" "career_ok b1 \<and> career_stays b b1"
    using edit_position_keeps [OF e] move_position_keeps [OF m b(1)] find_position_Inr [OF role] by auto
  moreover obtain q where "t = b2\<lparr> cdRequirements := q \<rparr>" using replace_requirements_Inr [OF t] by blast
  ultimately show ?thesis using b(2) career_stays_trans by (metis career_ok_requirements career_stays_requirements)
qed

lemma delete_position_keeps:
  assumes "deletePosition env db i = Inr t" "fresh_ids env" "career_ok db"
  shows "career_ok t \<and> career_stays db t"
proof -
  obtain b role where b: "career_ok b" "career_stays db b" and role: "find_position b i = Inr role"
    and free: "\<not> position_needed b (poId role)" and t: "t = remove_position role b"
    using assms(1) unfolding deletePosition_def by (rule write_cases [OF _ assms(2,3)]) (auto simp: and_then_Inr_iff not_needed)
  have ladder: "ladder_ok (cdDepartments b) (cdPositions b)" using b(1) by (simp add: career_ok_def)
  have rin: "role \<in> set (cdPositions b)" using find_position_Inr [OF role] by blast
  define ids where "ids = (case poDepartment role of None \<Rightarrow> [] | Some d \<Rightarrow> filter (\<lambda>x. x \<noteq> poId role) (orderedPositions b d))"
  let ?rows = "filter (\<lambda>p. poId p \<noteq> poId role) (cdPositions b)"
  let ?ps = "number_rows poId set_rank 1 ids ?rows"
  have t': "t = b\<lparr> cdPositions := ?ps, cdRequirements := filter (\<lambda>r. rwPosition r \<noteq> Some (poId role)) (cdRequirements b) \<rparr>"
    unfolding t remove_position_def ids_def orderPositions_def Let_def by simp
  have "ladder_ok (cdDepartments b) ?ps"
  proof (rule ladder_numbers)
    fix e
    show "numbered poDepartment poRank ?ps e"
    proof (rule position_numbers.numbered_remove [OF _ rin])
      show "position_numbers.left_behind (cdPositions b) role ids"
        unfolding position_numbers.left_behind_def ids_def
        by (cases "poDepartment role") (auto simp: ordered_positions [OF ladder])
    qed (use ladder in \<open>auto simp: ladder_ok_def\<close>)
  qed (use ladder in \<open>auto simp: ladder_ok_def distinct_map_filter\<close>)
  moreover have "\<exists>q \<in> set ?ps. poId q = poId p \<and> poDepartment q = poDepartment p" if "p \<in> set (cdPositions b)" "position_needed b (poId p)" for p
  proof -
    have "p \<in> set ?rows" using that free by auto
    then show ?thesis unfolding place_in [symmetric] numbered_positions_place by blast
  qed
  ultimately have "career_ok t" unfolding t' using b(1) by (simp add: career_ok_positions)
  moreover have "career_stays b t" unfolding t' by (simp add: career_stays_def)
  ultimately show ?thesis using b(2) career_stays_trans by blast
qed

section \<open>Skills\<close>

lemma number_rows_field: "(\<And>n r. g (f n r) = g r) \<Longrightarrow> map g (number_rows ident f n ids rows) = map g rows"
proof (induction ids arbitrary: n rows)
  case (Cons i ids)
  have "map g (map (\<lambda>r. if ident r = i then f n r else r) rows) = map g rows" using Cons.prems by simp
  then show ?case using Cons by (simp del: map_map)
qed simp

lemma own_count: "distinct (map ident rows) \<Longrightarrow> length (filter P rows) = card (ident ` {r \<in> set rows. P r})"
proof -
  assume d: "distinct (map ident rows)"
  then have "inj_on ident {r \<in> set rows. P r}" by (auto simp: distinct_map inj_on_def)
  then have "card (ident ` {r \<in> set rows. P r}) = card (set (filter P rows))" by (simp add: card_image)
  then show ?thesis using d by (simp add: distinct_map distinct_card del: set_filter)
qed

text \<open>Where skills stand, but for the position of those with an id in \<open>X\<close>; only the keys of the rows matter.\<close>

definition skills_placed :: "string set \<Rightarrow> department list \<Rightarrow> position list \<Rightarrow> skill list \<Rightarrow> bool" where
  "skills_placed X ds ps ks \<longleftrightarrow> distinct (map skId ks) \<and>
     (\<forall>d. length (filter (\<lambda>s. skDepartment s = Some d) ks) \<le> skillsPerDepartment) \<and>
     (\<forall>s \<in> set ks. (\<forall>d. skDepartment s = Some d \<longrightarrow> d \<in> members ds) \<and>
        (skId s \<notin> X \<longrightarrow> (\<forall>q. skPosition s = Some q \<longrightarrow> (\<exists>p \<in> set ps. poId p = q \<and> poDepartment p = skDepartment s))))"

lemma skills_ok_iff: "skills_ok ds ps ks \<longleftrightarrow> (\<forall>d. numbered skDepartment skSequence ks d) \<and> skills_placed {} ds ps ks"
  unfolding skills_ok_def skills_placed_def by auto

lemma skills_placed_mono: "skills_placed X ds ps ks \<Longrightarrow> X \<subseteq> Y \<Longrightarrow> skills_placed Y ds ps ks"
  unfolding skills_placed_def by blast

definition skill_key :: "skill \<Rightarrow> string \<times> string option \<times> string option" where
  "skill_key s = (skId s, skDepartment s, skPosition s)"

lemma skills_placed_cong:
  assumes "map skill_key ks' = map skill_key ks"
  shows "skills_placed X ds ps ks' = skills_placed X ds ps ks"
proof -
  have g: "map (f \<circ> skill_key) ks' = map (f \<circ> skill_key) ks" for f
    using arg_cong [OF assms, of "map f"] by (simp only: map_map)
  have ids: "map skId ks' = map skId ks" using g [of fst] by (simp add: comp_def skill_key_def)
  have deps: "map skDepartment ks' = map skDepartment ks" using g [of "fst \<circ> snd"] by (simp add: comp_def skill_key_def)
  have count: "length (filter (\<lambda>s. skDepartment s = Some d) xs) = length (filter (\<lambda>e. e = Some d) (map skDepartment xs))" for d xs
    by (simp add: filter_map comp_def)
  have each: "(\<forall>s \<in> set xs. (\<forall>d. skDepartment s = Some d \<longrightarrow> d \<in> members ds) \<and>
        (skId s \<notin> X \<longrightarrow> (\<forall>q. skPosition s = Some q \<longrightarrow> (\<exists>p \<in> set ps. poId p = q \<and> poDepartment p = skDepartment s)))) =
      (\<forall>k \<in> skill_key ` set xs. (\<forall>d. fst (snd k) = Some d \<longrightarrow> d \<in> members ds) \<and>
        (fst k \<notin> X \<longrightarrow> (\<forall>q. snd (snd k) = Some q \<longrightarrow> (\<exists>p \<in> set ps. poId p = q \<and> poDepartment p = fst (snd k)))))" for xs
    by (simp add: skill_key_def)
  show ?thesis unfolding skills_placed_def each count ids deps same_images [OF assms] ..
qed

lemma numbered_skill_keys: "map skill_key (number_rows skId set_sequence n ids ks) = map skill_key ks"
  by (rule number_rows_field) (simp add: skill_key_def set_sequence_def)

lemma ordered_skills:
  assumes "distinct (map skId (cdSkills db))"
  shows "distinct (orderedSkills db d)" "set (orderedSkills db d) = skId ` {s \<in> set (cdSkills db). skDepartment s = Some d}"
    "length (orderedSkills db d) = length (filter (\<lambda>s. skDepartment s = Some d) (cdSkills db))"
proof -
  show d: "distinct (orderedSkills db d)" "set (orderedSkills db d) = skId ` {s \<in> set (cdSkills db). skDepartment s = Some d}"
    using assms by (auto simp: orderedSkills_def intro!: distinct_in_order distinct_map_filter)
  show "length (orderedSkills db d) = length (filter (\<lambda>s. skDepartment s = Some d) (cdSkills db))"
    using d own_count [OF assms, of "\<lambda>s. skDepartment s = Some d"] distinct_card by metis
qed

lemma career_ok_skills:
  assumes "career_ok db" "\<And>d. numbered skDepartment skSequence ks d" "skills_placed {} (cdDepartments db) (cdPositions db) ks"
  shows "career_ok (db\<lparr> cdSkills := ks \<rparr>)"
  using assms by (simp add: career_ok_def skills_ok_iff)

lemma career_skills:
  assumes "career_ok db"
  shows "distinct (map skId (cdSkills db))" "numbered skDepartment skSequence (cdSkills db) d"
    "skills_placed {} (cdDepartments db) (cdPositions db) (cdSkills db)"
  using assms by (auto simp: career_ok_def skills_ok_iff skills_placed_def)

lemma skill_position_Inr:
  "skillPosition db d positionId = Inr q \<Longrightarrow> q = Some i \<Longrightarrow> \<exists>p \<in> set (cdPositions db). poId p = i \<and> poDepartment p = Some d"
  by (auto simp: skillPosition_def and_then_Inr_iff split: option.splits dest!: find_position_Inr)

lemma create_skill_keeps:
  assumes "createSkill env now db departmentId positionId name description sequence level confirmation isOrdered reqs = Inr t"
    and env: "fresh_ids env" and ok: "career_ok db"
  shows "career_ok t \<and> career_stays db t"
proof -
  obtain b d q requirements where b: "career_ok b" "career_stays db b" and d: "memberDepartment b departmentId = Inr d"
    and q: "skillPosition b (dpId d) positionId = Inr q" and few: "\<not> skillsPerDepartment \<le> length (orderedSkills b (dpId d))"
    and w: "insert_skill env now b (dpId d) q name description sequence level confirmation (isOrdered \<noteq> Some False) requirements = Inr t"
    using assms(1) unfolding createSkill_def by (rule write_cases [OF _ env ok]) (auto simp: and_then_Inr_iff)
  let ?ids = "placed (orderedSkills b (dpId d)) (evNewId env b) sequence"
  obtain x rs where x: "skId x = evNewId env b" "skDepartment x = Some (dpId d)" "skPosition x = q"
    and t: "t = b\<lparr> cdSkills := number_rows skId set_sequence 1 ?ids (cdSkills b @ [x]), cdRequirements := rs \<rparr>"
  proof -
    obtain rs where "t = (orderSkills (b\<lparr> cdSkills := cdSkills b @
        [\<lparr> skId = evNewId env b, skDepartment = Some (dpId d), skPosition = q, skSequence = None, skName = js_trim name,
           skDescription = trimOrNull description, skLevel = level, skConfirmation = confirmation, skOrdered = (isOrdered \<noteq> Some False),
           skActive = True, skCreated = now \<rparr>] \<rparr>) ?ids)\<lparr> cdRequirements := rs \<rparr>"
      using write_requirements_Inr [OF w [unfolded insert_skill_def Let_def]] by blast
    then show thesis by (intro that) (auto simp: orderSkills_def)
  qed
  note old = career_skills [OF b(1)]
  have new: "distinct (map skId (cdSkills b @ [x]))" using old(1) env x by (auto simp: fresh_ids_def)
  have "skills_placed {} (cdDepartments b) (cdPositions b) (cdSkills b @ [x])"
    unfolding skills_placed_def
  proof (intro conjI allI)
    fix e
    show "length (filter (\<lambda>s. skDepartment s = Some e) (cdSkills b @ [x])) \<le> skillsPerDepartment"
      using old(3) few ordered_skills(3) [OF old(1), of "dpId d"] x(2) unfolding skills_placed_def by auto
  next
    show "\<forall>s \<in> set (cdSkills b @ [x]). (\<forall>e. skDepartment s = Some e \<longrightarrow> e \<in> members (cdDepartments b)) \<and>
        (skId s \<notin> {} \<longrightarrow> (\<forall>q. skPosition s = Some q \<longrightarrow> (\<exists>p \<in> set (cdPositions b). poId p = q \<and> poDepartment p = skDepartment s)))"
      using old(3) x member_department_members [OF d] skill_position_Inr [OF q] unfolding skills_placed_def by auto
  qed (rule new)
  moreover have "numbered skDepartment skSequence (number_rows skId set_sequence 1 ?ids (cdSkills b @ [x])) e" for e
    by (rule skill_numbers.numbered_add [OF new x(2)]) (use old ordered_skills [OF old(1)] x(1) in \<open>auto intro: distinct_placed\<close>)
  ultimately have "career_ok t" unfolding t using b(1) skills_placed_cong [OF numbered_skill_keys]
    by (simp add: career_ok_skills)
  moreover have "career_stays b t" unfolding t by (simp add: career_stays_def)
  ultimately show ?thesis using b(2) career_stays_trans by blast
qed

lemma same_skill: "distinct (map skId ks) \<Longrightarrow> x \<in> set ks \<Longrightarrow> y \<in> set ks \<Longrightarrow> skId x = skId y \<Longrightarrow> x = y"
  by (metis distinct_map inj_onD)

end
