(* ===== verification/CareerSkills.thy ===== *)
theory CareerSkills
  imports CareerLadder
begin

lemma one_more:
  assumes "distinct (map ident xs)" "\<And>x. x \<in> set xs \<Longrightarrow> P x \<Longrightarrow> Q x \<or> ident x = i"
  shows "length (filter P xs) \<le> Suc (length (filter Q xs))"
proof -
  have "card (ident ` {x \<in> set xs. P x}) \<le> card (insert i (ident ` {x \<in> set xs. Q x}))"
    by (rule card_mono) (use assms(2) in auto)
  also have "\<dots> \<le> Suc (card (ident ` {x \<in> set xs. Q x}))" by (rule card_insert_le_m1) simp_all
  finally show ?thesis unfolding own_count [OF assms(1)] .
qed

text \<open>A skill moved to another department has, until it is placed, no position to answer for.\<close>

lemma placed_elsewhere:
  assumes ok: "skills_placed {} ds ps ks" and d: "d \<in> members ds" and few: "length (filter (\<lambda>k. skDepartment k = Some d) ks) < skillsPerDepartment"
  shows "skills_placed {i} ds ps (map (\<lambda>k. if skId k = i then k\<lparr> skDepartment := Some d \<rparr> else k) ks)"
proof -
  let ?h = "\<lambda>k. if skId k = i then k\<lparr> skDepartment := Some d \<rparr> else k"
  have dist: "distinct (map skId ks)" and count: "\<And>e. length (filter (\<lambda>k. skDepartment k = Some e) ks) \<le> skillsPerDepartment"
    and each: "\<And>s. s \<in> set ks \<Longrightarrow> (\<forall>e. skDepartment s = Some e \<longrightarrow> e \<in> members ds) \<and>
      (\<forall>q. skPosition s = Some q \<longrightarrow> (\<exists>p \<in> set ps. poId p = q \<and> poDepartment p = skDepartment s))"
    using ok unfolding skills_placed_def by auto
  have ids: "map skId (map ?h ks) = map skId ks" by simp
  have fewer: "length (filter (\<lambda>k. skDepartment k = Some e) (map ?h ks)) \<le> skillsPerDepartment" for e
  proof (cases "e = d")
    case True
    have "length (filter (\<lambda>k. skDepartment (?h k) = Some e) ks) \<le> Suc (length (filter (\<lambda>k. skDepartment k = Some d) ks))"
      by (rule one_more [OF dist, where i = i]) (auto simp: True split: if_split_asm)
    then show ?thesis using few by (simp add: filter_map comp_def)
  next
    case False
    have "filter (\<lambda>k. skDepartment (?h k) = Some e) ks = filter (\<lambda>k. skId k \<noteq> i) (filter (\<lambda>k. skDepartment k = Some e) ks)"
      unfolding filter_filter by (rule filter_cong) (use False in auto)
    then have "length (filter (\<lambda>k. skDepartment (?h k) = Some e) ks) \<le> length (filter (\<lambda>k. skDepartment k = Some e) ks)"
      by (simp only: length_filter_le)
    then show ?thesis using count [of e] by (simp add: filter_map comp_def)
  qed
  have rows: "(\<forall>e. skDepartment k = Some e \<longrightarrow> e \<in> members ds) \<and>
      (skId k \<notin> {i} \<longrightarrow> (\<forall>q. skPosition k = Some q \<longrightarrow> (\<exists>p \<in> set ps. poId p = q \<and> poDepartment p = skDepartment k)))"
    if k: "k \<in> set (map ?h ks)" for k
  proof -
    obtain x where x: "x \<in> set ks" "k = ?h x" using k by auto
    show ?thesis
    proof (cases "skId x = i")
      case True
      then show ?thesis using x(2) d by simp
    next
      case False
      then show ?thesis using x(2) each [OF x(1)] by simp
    qed
  qed
  show ?thesis unfolding skills_placed_def ids using dist fewer rows by blast
qed

lemma relocated_skills:
  assumes ok: "career_ok db" and s: "s \<in> set (cdSkills db)" and d: "d \<in> members (cdDepartments db)" "skDepartment s \<noteq> Some d"
    and few: "\<not> skillsPerDepartment \<le> length (orderedSkills db d)"
  shows "\<exists>ks. relocate_skill db s d sequence = db\<lparr> cdSkills := ks \<rparr> \<and> (\<forall>e. numbered skDepartment skSequence ks e) \<and>
    skills_placed {skId s} (cdDepartments db) (cdPositions db) ks \<and> (\<forall>x \<in> set ks. skId x = skId s \<longrightarrow> skDepartment x = Some d)"
proof -
  note old = career_skills [OF ok]
  let ?rows = "cdSkills db" and ?ids2 = "placed (orderedSkills db d) (skId s) sequence"
  define ids1 where "ids1 = (case skDepartment s of None \<Rightarrow> [] | Some o' \<Rightarrow> filter (\<lambda>x. x \<noteq> skId s) (orderedSkills db o'))"
  define blank :: "skill \<Rightarrow> skill" where "blank = (if skDepartment s = None then (\<lambda>k. k) else (\<lambda>k. k\<lparr> skSequence := None \<rparr>))"
  define rows1 where "rows1 = number_rows skId set_sequence 1 ids1 (map (\<lambda>k. if skId k = skId s then blank k else k) ?rows)"
  let ?rows2 = "map (\<lambda>k. if skId k = skId s then k\<lparr> skDepartment := Some d \<rparr> else k) rows1"
  let ?ks = "number_rows skId set_sequence 1 ?ids2 ?rows2"
  have t: "relocate_skill db s d sequence = db\<lparr> cdSkills := ?ks \<rparr>"
    by (cases "skDepartment s")
      (simp_all add: relocate_skill_def Let_def orderSkills_def change_skill_def rows1_def ids1_def blank_def cong: if_cong)
  have keys1: "map skill_key rows1 = map skill_key ?rows"
    unfolding rows1_def numbered_skill_keys by (simp add: skill_key_def blank_def)
  have placed1: "skills_placed {} (cdDepartments db) (cdPositions db) rows1" using skills_placed_cong [OF keys1] old(3) by blast
  have "length (filter (\<lambda>k. skDepartment k = Some d) rows1) = length (filter (\<lambda>k. fst (snd k) = Some d) (map skill_key rows1))"
    by (simp add: filter_map comp_def skill_key_def)
  also have "\<dots> = length (filter (\<lambda>k. skDepartment k = Some d) ?rows)"
    unfolding keys1 by (simp add: filter_map comp_def skill_key_def)
  finally have few1: "length (filter (\<lambda>k. skDepartment k = Some d) rows1) < skillsPerDepartment"
    using few ordered_skills(3) [OF old(1), of d] by simp
  have "skills_placed {skId s} (cdDepartments db) (cdPositions db) ?rows2" by (rule placed_elsewhere [OF placed1 d(1) few1])
  then have "skills_placed {skId s} (cdDepartments db) (cdPositions db) ?ks" using skills_placed_cong [OF numbered_skill_keys] by blast
  moreover have "numbered skDepartment skSequence ?ks e" for e
  proof (rule skill_numbers.numbered_move [OF old(1) s _ _ _ _ rows1_def])
    show "skill_numbers.left_behind ?rows s ids1"
      unfolding skill_numbers.left_behind_def ids1_def by (cases "skDepartment s") (auto simp: ordered_skills [OF old(1)])
  qed (use old d(2) ordered_skills [OF old(1), of d] in \<open>auto simp: blank_def intro: distinct_placed\<close>)
  moreover have "skDepartment x = Some d" if x: "x \<in> set ?ks" "skId x = skId s" for x
  proof -
    have "skill_key x \<in> skill_key ` set ?rows2" using x(1) same_images [OF numbered_skill_keys] by blast
    then obtain y where y: "y \<in> set ?rows2" "skill_key x = skill_key y" by blast
    then have "skId y = skId s" using x(2) by (simp add: skill_key_def)
    then have "skDepartment y = Some d" using y(1) by (auto split: if_split_asm)
    then show ?thesis using y(2) by (simp add: skill_key_def)
  qed
  ultimately show ?thesis using t by blast
qed

lemma reordered_skills:
  assumes ok: "career_ok db" and s: "s \<in> set (cdSkills db)" "skDepartment s = Some d"
    and t: "t = db \<or> t = orderSkills db (placed (orderedSkills db d) (skId s) sequence)"
  shows "\<exists>ks. t = db\<lparr> cdSkills := ks \<rparr> \<and> (\<forall>e. numbered skDepartment skSequence ks e) \<and>
    skills_placed {} (cdDepartments db) (cdPositions db) ks \<and> map skill_key ks = map skill_key (cdSkills db)"
  using t
proof
  note old = career_skills [OF ok]
  assume "t = db"
  then show ?thesis using old by (intro exI [of _ "cdSkills db"]) simp
next
  note old = career_skills [OF ok]
  let ?ids = "placed (orderedSkills db d) (skId s) sequence"
  let ?ks = "number_rows skId set_sequence 1 ?ids (cdSkills db)"
  assume "t = orderSkills db ?ids"
  then have "t = db\<lparr> cdSkills := ?ks \<rparr>" by (simp add: orderSkills_def)
  moreover have "skId s \<in> set (orderedSkills db d)" unfolding ordered_skills(2) [OF old(1)] using s by blast
  then have "set ?ids = skId ` {x \<in> set (cdSkills db). skDepartment x = Some d}"
    unfolding set_placed ordered_skills(2) [OF old(1)] by (rule insert_absorb)
  then have "numbered skDepartment skSequence ?ks e" for e
    by (rule skill_numbers.renumber [OF old(1) distinct_placed [OF ordered_skills(1) [OF old(1)]]]) (rule old(2))
  moreover have "skills_placed {} (cdDepartments db) (cdPositions db) ?ks" using skills_placed_cong [OF numbered_skill_keys] old(3) by blast
  ultimately show ?thesis using numbered_skill_keys by blast
qed

lemma moved_skills:
  assumes m: "move_skill env db s targetId dto = Inr t" and ok: "career_ok db" and s: "s \<in> set (cdSkills db)"
  shows "\<exists>ks. t = db\<lparr> cdSkills := ks \<rparr> \<and> (\<forall>e. numbered skDepartment skSequence ks e) \<and>
    skills_placed (if Some targetId = skDepartment s then {} else {skId s}) (cdDepartments db) (cdPositions db) ks \<and>
    (\<forall>x \<in> set ks. skId x = skId s \<longrightarrow> skDepartment x = Some targetId \<and> (Some targetId = skDepartment s \<longrightarrow> skPosition x = skPosition s))"
proof (cases "Some targetId = skDepartment s")
  case False
  then obtain d where d: "memberDepartment db targetId = Inr d" "\<not> skillsPerDepartment \<le> length (orderedSkills db (dpId d))"
    "t = relocate_skill db s (dpId d) (kiSequence dto)"
    using m unfolding move_skill_def by (auto simp: and_then_Inr_iff)
  have dd: "dpId d = targetId" "dpId d \<in> members (cdDepartments db)" using d(1) member_department_Inr member_department_members by auto
  then have "skDepartment s \<noteq> Some (dpId d)" using False by auto
  from relocated_skills [OF ok s dd(2) this d(2), of "kiSequence dto"] show ?thesis using False dd(1) unfolding d(3) by auto
next
  case True
  have "t = db \<or> t = orderSkills db (placed (orderedSkills db targetId) (skId s) (kiSequence dto))"
    using m True by (simp add: move_skill_def split: if_split_asm)
  then obtain ks where ks: "t = db\<lparr> cdSkills := ks \<rparr>" "\<forall>e. numbered skDepartment skSequence ks e"
    "skills_placed {} (cdDepartments db) (cdPositions db) ks" "map skill_key ks = map skill_key (cdSkills db)"
    using reordered_skills [OF ok s True [symmetric]] by blast
  have "skDepartment x = Some targetId \<and> skPosition x = skPosition s" if x: "x \<in> set ks" "skId x = skId s" for x
  proof -
    have "skill_key x \<in> skill_key ` set (cdSkills db)" using x(1) same_images [OF ks(4)] by blast
    then obtain y where y: "y \<in> set (cdSkills db)" "skill_key x = skill_key y" by blast
    have "skId y = skId s" using y(2) x(2) unfolding skill_key_def prod.inject by metis
    then have "y = s" by (rule same_skill [OF career_skills(1) [OF ok] y(1) s])
    then have "skill_key x = skill_key s" using y(2) by simp
    then have "skDepartment x = skDepartment s \<and> skPosition x = skPosition s" unfolding skill_key_def prod.inject by blast
    then show ?thesis unfolding True .
  qed
  then have here: "\<forall>x \<in> set ks. skId x = skId s \<longrightarrow> skDepartment x = Some targetId \<and> (Some targetId = skDepartment s \<longrightarrow> skPosition x = skPosition s)"
    by blast
  have none: "(if Some targetId = skDepartment s then {} else {skId s}) = {}" by (rule if_P) (rule True)
  show ?thesis unfolding none using ks(1-3) here by (intro exI [of _ ks] conjI)
qed

lemma update_skill_keeps:
  assumes "updateSkill env db i dto = Inr t" and env: "fresh_ids env" and ok: "career_ok db"
  shows "career_ok t \<and> career_stays db t"
proof -
  obtain b s targetId b1 q where b: "career_ok b" "career_stays db b" and s: "find_skill b i = Inr s"
    and m: "move_skill env b s targetId dto = Inr b1" and q: "place_skill b1 s targetId dto = Inr q"
    and r: "replaceRequirements SKILL None (Some (skId s)) (kiRequirements dto) (change_skill (skId s) (edit_skill q dto) b1) = Inr t"
    using assms(1) unfolding updateSkill_def
    by (rule write_cases [OF _ env ok]) (auto simp: and_then_Inr_iff split: option.split_asm if_split_asm)
  obtain ks where b1: "b1 = b\<lparr> cdSkills := ks \<rparr>" and num: "\<forall>e. numbered skDepartment skSequence ks e"
    and place: "skills_placed (if Some targetId = skDepartment s then {} else {skId s}) (cdDepartments b) (cdPositions b) ks"
    and here: "\<forall>x \<in> set ks. skId x = skId s \<longrightarrow> skDepartment x = Some targetId \<and> (Some targetId = skDepartment s \<longrightarrow> skPosition x = skPosition s)"
    using moved_skills [OF m b(1)] find_skill_Inr [OF s] by blast
  have position: "\<exists>p \<in> set (cdPositions b). poId p = j \<and> poDepartment p = Some targetId"
    if "q = Some j" "x \<in> set ks" "skId x = skId s" for x j
  proof (cases "kiPosition dto \<noteq> None \<or> Some targetId \<noteq> skDepartment s")
    case True
    then show ?thesis using q that(1) skill_position_Inr unfolding place_skill_def b1 by fastforce
  next
    case False
    then have "skPosition x = Some j" using q that here by (auto simp: place_skill_def)
    then show ?thesis using place False that(2) here that(3) unfolding skills_placed_def by auto
  qed
  let ?h = "\<lambda>k. if skId k = skId s then edit_skill q dto k else k"
  let ?ks = "map ?h ks"
  have same: "skId (?h k) = skId k" "skDepartment (?h k) = skDepartment k" "skSequence (?h k) = skSequence k"
    "skPosition (?h k) = (if skId k = skId s then q else skPosition k)" for k
    by (auto simp: edit_skill_def)
  have "skills_placed {} (cdDepartments b) (cdPositions b) ?ks"
    unfolding skills_placed_def
  proof (intro conjI allI)
    have "map skId ?ks = map skId ks" using same by simp
    then show "distinct (map skId ?ks)" using place unfolding skills_placed_def by metis
    fix e
    have "length (filter (\<lambda>k. skDepartment k = Some e) ?ks) = length (filter (\<lambda>k. skDepartment k = Some e) ks)"
      by (simp add: filter_map comp_def same)
    then show "length (filter (\<lambda>k. skDepartment k = Some e) ?ks) \<le> skillsPerDepartment" using place unfolding skills_placed_def by simp
  next
    show "\<forall>k \<in> set ?ks. (\<forall>e. skDepartment k = Some e \<longrightarrow> e \<in> members (cdDepartments b)) \<and>
        (skId k \<notin> {} \<longrightarrow> (\<forall>j. skPosition k = Some j \<longrightarrow> (\<exists>p \<in> set (cdPositions b). poId p = j \<and> poDepartment p = skDepartment k)))"
    proof
      fix k
      assume "k \<in> set ?ks"
      then obtain x where x: "x \<in> set ks" "k = ?h x" by auto
      show "(\<forall>e. skDepartment k = Some e \<longrightarrow> e \<in> members (cdDepartments b)) \<and>
        (skId k \<notin> {} \<longrightarrow> (\<forall>j. skPosition k = Some j \<longrightarrow> (\<exists>p \<in> set (cdPositions b). poId p = j \<and> poDepartment p = skDepartment k)))"
        unfolding x(2) same using place x(1) position [OF _ x(1)] here unfolding skills_placed_def by (auto split: if_split_asm)
    qed
  qed
  moreover have "numbered skDepartment skSequence ?ks e" for e
    using num numbered_cong [of skDepartment skSequence ?ks ks e] by (simp add: same)
  ultimately have "career_ok (b\<lparr> cdSkills := ?ks \<rparr>)" using b(1) career_ok_skills by blast
  moreover obtain rs where "t = b\<lparr> cdSkills := ?ks, cdRequirements := rs \<rparr>"
    using replace_requirements_Inr [OF r] by (auto simp: change_skill_def b1)
  ultimately have "career_ok t \<and> career_stays b t" by (simp add: career_stays_def)
  then show ?thesis using b(2) career_stays_trans by blast
qed

lemma delete_skill_keeps:
  assumes "deleteSkill env db i = Inr t" and env: "fresh_ids env" and ok: "career_ok db"
  shows "career_ok t \<and> career_stays db t"
proof -
  obtain b s where b: "career_ok b" "career_stays db b" and s: "find_skill b i = Inr s" and t: "t = remove_skill s b"
    using assms(1) unfolding deleteSkill_def by (rule write_cases [OF _ env ok]) (auto simp: and_then_Inr_iff)
  note old = career_skills [OF b(1)]
  define ids where "ids = (case skDepartment s of None \<Rightarrow> [] | Some d \<Rightarrow> filter (\<lambda>x. x \<noteq> skId s) (orderedSkills b d))"
  let ?rows = "filter (\<lambda>k. skId k \<noteq> skId s) (cdSkills b)"
  let ?ks = "number_rows skId set_sequence 1 ids ?rows"
  define rs where "rs = cdRequirements (retireSkills b [skId s])"
  have t': "t = b\<lparr> cdRequirements := rs, cdProgress := filter (\<lambda>g. spAchieved g \<or> spSkill g \<noteq> skId s) (cdProgress b), cdSkills := ?ks \<rparr>"
    unfolding t remove_skill_def ids_def rs_def by (simp add: orderSkills_def retireSkills_def)
  have "length (filter (\<lambda>k. skDepartment k = Some d) ?rows) \<le> skillsPerDepartment" for d
    using order_trans [OF fewer_kept] old(3) unfolding skills_placed_def by blast
  moreover have "distinct (map skId ?rows)" using old(1) by (rule distinct_map_filter)
  moreover have "\<forall>k \<in> set ?rows. k \<in> set (cdSkills b)" by simp
  ultimately have "skills_placed {} (cdDepartments b) (cdPositions b) ?rows"
    using old(3) unfolding skills_placed_def by blast
  then have "skills_placed {} (cdDepartments b) (cdPositions b) ?ks" using skills_placed_cong [OF numbered_skill_keys] by blast
  moreover have "numbered skDepartment skSequence ?ks e" for e
  proof (rule skill_numbers.numbered_remove [OF old(1)])
    show "skill_numbers.left_behind (cdSkills b) s ids"
      unfolding skill_numbers.left_behind_def ids_def by (cases "skDepartment s") (auto simp: ordered_skills [OF old(1)])
  qed (use old find_skill_Inr [OF s] in auto)
  ultimately have "career_ok (b\<lparr> cdSkills := ?ks \<rparr>)" using b(1) career_ok_skills by blast
  then have "career_ok t" unfolding t' by (simp add: career_ok_def distinct_map_filter)
  moreover have "career_stays b t" unfolding t' by (auto simp: career_stays_def)
  ultimately show ?thesis using b(2) career_stays_trans by blast
qed

end
