(* ===== verification/CareerHistories.thy ===== *)
theory CareerHistories
  imports CareerSkills
begin

text \<open>
  The writes of \<open>career-progress.service.ts\<close> and hiring keep the career in order, and with those of the structure every history of the
  career does: the step relation, its interpretation in \<open>kept\<close>, and what follows for one employee.
\<close>

section \<open>Promotion and transfer\<close>

lemma career_ok_records [simp]:
  "career_ok (db\<lparr> cdEvents := es \<rparr>) = career_ok db" "career_ok (db\<lparr> cdEvaluations := vs \<rparr>) = career_ok db"
  "career_ok (db\<lparr> cdWork := ws \<rparr>) = career_ok db"
  by (simp_all add: career_ok_def)

definition place_ok :: "career_db \<Rightarrow> string option \<Rightarrow> string option \<Rightarrow> bool" where
  "place_ok db role dept \<longleftrightarrow>
     (\<forall>d. dept = Some d \<longrightarrow> d \<in> members (cdDepartments db)) \<and>
     (\<forall>r. role = Some r \<longrightarrow> (\<exists>q \<in> set (cdPositions db). poId q = r \<and> poDepartment q = dept))"

lemma lock_profile_Inr:
  assumes "lockProfile env db0 i = Inr (db, p)" "fresh_ids env" "career_ok db0"
  shows "career_ok db \<and> career_stays db0 db \<and> p \<in> set (cdProfiles db) \<and> cpId p = i"
proof -
  have "db = ensureCareerBase env db0" "find (\<lambda>p. cpId p = i) (cdProfiles db) = Some p"
    using assms(1) by (auto simp: lockProfile_def Let_def and_then_Inr_iff split: if_split_asm option.splits)
  then show ?thesis using base_keeps [OF assms(2,3)] find_Some_in by fastforce
qed

lemma change_profile_keeps:
  assumes "career_ok db" "place_ok db role (Some d)"
  shows "career_ok (change_profile i role d db) \<and> career_stays db (change_profile i role d db)"
proof -
  let ?h = "\<lambda>p. if cpId p = i then p\<lparr> cpRole := role, cpDepartment := Some d \<rparr> else p"
  have ok: "staff_ok (cdDepartments db) (cdPositions db) (cdProfiles db)" using assms(1) by (simp add: career_ok_def)
  have ids: "map cpId (map ?h (cdProfiles db)) = map cpId (cdProfiles db)" by simp
  have "(\<forall>e. cpDepartment c = Some e \<longrightarrow> e \<in> members (cdDepartments db)) \<and>
      (\<forall>r. cpRole c = Some r \<longrightarrow> (\<exists>p \<in> set (cdPositions db). poId p = r \<and> poDepartment p = cpDepartment c))"
    if c: "c \<in> set (map ?h (cdProfiles db))" "isEmployed (cpStatus c)" for c
  proof -
    obtain x where x: "x \<in> set (cdProfiles db)" "c = ?h x" using c(1) by auto
    show ?thesis
    proof (cases "cpId x = i")
      case True
      then show ?thesis using x(2) assms(2) unfolding place_ok_def by simp
    next
      case False
      then show ?thesis using x c(2) ok unfolding staff_ok_def by auto
    qed
  qed
  then have "staff_ok (cdDepartments db) (cdPositions db) (map ?h (cdProfiles db))"
    using ok unfolding staff_ok_def ids by blast
  then show ?thesis using assms(1) by (simp add: change_profile_def career_ok_def career_stays_def)
qed

lemma add_event_db: "fst (add_event env db i subject source target now actor snapshot note requestId) =
    db\<lparr> cdEvents := cdEvents db @ [snd (add_event env db i subject source target now actor snapshot note requestId)] \<rparr>"
  by (simp add: add_event_def Let_def)

lemma events_stay [simp]: "career_stays s (t\<lparr> cdEvents := cdEvents t @ es \<rparr>) = True" if "career_stays s t"
  using that unfolding career_stays_def by auto

lemma write_promotion_keeps:
  assumes "write_promotion env now db p t actor note requestId = (db', e)" "career_ok db"
    and "place_ok db (map_option poId (ptPosition t)) (Some (ptDepartment t))"
  shows "career_ok db' \<and> career_stays db db'"
proof -
  let ?b = "change_profile (cpId p) (map_option poId (ptPosition t)) (ptDepartment t) db"
  have "\<exists>es. db' = ?b\<lparr> cdEvents := cdEvents ?b @ es \<rparr>"
    using assms(1) by (auto simp: write_promotion_def Let_def add_event_def split: option.splits if_split_asm intro: exI [of _ "[]"])
  then show ?thesis using change_profile_keeps [OF assms(2,3)] by auto
qed

lemma graph_position: "position_of (loadGraph db) j = Some q \<Longrightarrow> q \<in> set (cdPositions db) \<and> poActive q \<and> j = Some (poId q)"
  by (auto simp: position_of_def loadGraph_def dest!: find_Some_in split: option.splits)

lemma graph_department: "department_of (loadGraph db) j = Some d \<Longrightarrow> d \<in> set (cdDepartments db) \<and> j = Some (dpId d)"
  by (auto simp: department_of_def loadGraph_def dest!: find_Some_in split: option.splits)

lemma positions_of_in: "q \<in> set (positionsOf (loadGraph db) d) \<Longrightarrow> q \<in> set (cdPositions db) \<and> poDepartment q = d \<and> d \<noteq> None"
  by (auto simp: positionsOf_def loadGraph_def split: if_split_asm)

lemma place_of_position:
  assumes "career_ok db" "q \<in> set (cdPositions db)" "poDepartment q = Some d"
  shows "place_ok db (Some (poId q)) (Some d)"
  using assms unfolding place_ok_def career_ok_def ladder_ok_def by blast

lemma evaluated_place:
  assumes "career_ok db" "q \<in> set (cdPositions db)" "poDepartment q \<noteq> None"
  shows "place_ok db (map_option poId (ptPosition (evaluatePosition now db g p q))) (Some (ptDepartment (evaluatePosition now db g p q)))"
  using place_of_position [OF assms(1,2)] assms(3) by (auto simp: evaluatePosition_def Let_def)

lemma promotion_place:
  assumes t: "promotion_target_of now db (loadGraph db) p dto = Inr t" and ok: "career_ok db"
  shows "place_ok db (map_option poId (ptPosition t)) (Some (ptDepartment t))"
proof (cases "miPosition dto")
  case (Some j)
  then obtain q where q: "position_of (loadGraph db) (Some j) = Some q" "poDepartment q \<noteq> None" "t = evaluatePosition now db (loadGraph db) p q"
    using t by (auto simp: promotion_target_of_def and_then_Inr_iff split: option.splits)
  then show ?thesis using evaluated_place [OF ok] graph_position [OF q(1)] by blast
next
  case None
  then obtain d where d: "department_of (loadGraph db) (miDepartment dto) = Some d" "\<not> dpSystem d"
    and t': "(\<exists>q qs. positionsOf (loadGraph db) (Some (dpId d)) = q # qs \<and> t = evaluatePosition now db (loadGraph db) p q) \<or>
      t = evaluateDepartment db (loadGraph db) p d"
    using t by (auto simp: promotion_target_of_def and_then_Inr_iff split: option.splits list.splits)
  have "dpId d \<in> members (cdDepartments db)" using graph_department [OF d(1)] d(2) by (simp add: members_def)
  then have "place_ok db None (Some (dpId d))" by (simp add: place_ok_def)
  moreover have "place_ok db (map_option poId (ptPosition (evaluatePosition now db (loadGraph db) p q)))
      (Some (ptDepartment (evaluatePosition now db (loadGraph db) p q)))" if "positionsOf (loadGraph db) (Some (dpId d)) = q # qs" for q qs
  proof -
    have "q \<in> set (positionsOf (loadGraph db) (Some (dpId d)))" using that by simp
    then have "q \<in> set (cdPositions db)" "poDepartment q \<noteq> None" using positions_of_in by auto
    then show ?thesis by (rule evaluated_place [OF ok])
  qed
  ultimately show ?thesis using t' by (auto simp: evaluateDepartment_def)
qed

lemma promote_tx_keeps:
  assumes "promote_tx env now dto note actor db p = Inr (t, a)" and ok: "career_ok db"
  shows "career_ok t \<and> career_stays db t"
proof (cases "priorEvent db (cpId p) (miRequest dto)")
  case (Some e)
  then show ?thesis using assms career_stays_refl by (auto simp: promote_tx_def and_then_Inr_iff)
next
  case None
  then obtain x where x1: "promotion_target_of now db (loadGraph db) p dto = Inr x"
    and w: "(case write_promotion env now db p x actor note (miRequest dto) of
             (db', Some e) \<Rightarrow> Inr (db', \<lparr> caReplayed = False, caEvent = e \<rparr>)
           | (db', None) \<Rightarrow> Inl NoEvent) = Inr (t, a)"
    using assms(1) None by (auto simp: promote_tx_def and_then_Inr_iff)
  obtain e where x2: "write_promotion env now db p x actor note (miRequest dto) = (t, Some e)"
    using w by (cases "write_promotion env now db p x actor note (miRequest dto)"; cases "snd (write_promotion env now db p x actor note (miRequest dto))") auto
  note x = x1 x2
  then show ?thesis using write_promotion_keeps [OF x(2) ok promotion_place [OF x(1) ok]] by simp
qed

text \<open>What a transaction on a locked profile keeps, the operation keeps.\<close>

lemma locked_keeps:
  assumes "and_then (lockProfile env db0 i) (\<lambda>(db, p). work db p) = Inr (t, a)" and env: "fresh_ids env" and ok: "career_ok db0"
    and keeps: "\<And>db p. work db p = Inr (t, a) \<Longrightarrow> career_ok db \<Longrightarrow> career_ok t \<and> career_stays db t"
  shows "career_ok t \<and> career_stays db0 t"
proof -
  obtain db p where l: "lockProfile env db0 i = Inr (db, p)" "work db p = Inr (t, a)"
    using assms(1) by (auto simp: and_then_Inr_iff)
  note b = lock_profile_Inr [OF l(1) env ok]
  then show ?thesis using keeps [OF l(2)] career_stays_trans by blast
qed

lemma promote_keeps:
  assumes "promote env now db0 i dto actor = Inr (t, a)" and env: "fresh_ids env" and ok: "career_ok db0"
  shows "career_ok t \<and> career_stays db0 t"
proof (rule locked_keeps [OF _ env ok])
  show "and_then (lockProfile env db0 i) (\<lambda>(db, p). promote_tx env now dto (trimNote (miNote dto)) actor db p) = Inr (t, a)"
    using assms(1) by (auto simp: promote_def and_then_Inr_iff)
qed (rule promote_tx_keeps)

lemma transfer_keeps:
  assumes "transfer env now db0 i dto actor = Inr (t, a)" and env: "fresh_ids env" and ok: "career_ok db0"
  shows "career_ok t \<and> career_stays db0 t"
proof -
  obtain db p where l: "lockProfile env db0 i = Inr (db, p)"
    and w: "t = db \<or> (\<exists>d es. department_of (loadGraph db) (Some (tiDepartment dto)) = Some d \<and> \<not> dpSystem d \<and>
      (\<forall>j. tiPosition dto = Some j \<longrightarrow> (\<exists>q. position_of (loadGraph db) (Some j) = Some q \<and> poDepartment q = Some (dpId d))) \<and>
      t = (change_profile (cpId p) (tiPosition dto) (dpId d) db)\<lparr> cdEvents := cdEvents db @ es \<rparr>)"
    using assms(1)
    by (cases "tiPosition dto")
      (auto simp: transfer_def Let_def and_then_Inr_iff add_event_def change_profile_def split: option.splits)
  have db: "career_ok db" "career_stays db0 db" using lock_profile_Inr [OF l env ok] by auto
  have "career_ok t \<and> career_stays db t"
    using w
  proof
    assume "t = db"
    then show ?thesis using db(1) career_stays_refl by simp
  next
    assume "\<exists>d es. department_of (loadGraph db) (Some (tiDepartment dto)) = Some d \<and> \<not> dpSystem d \<and>
      (\<forall>j. tiPosition dto = Some j \<longrightarrow> (\<exists>q. position_of (loadGraph db) (Some j) = Some q \<and> poDepartment q = Some (dpId d))) \<and>
      t = (change_profile (cpId p) (tiPosition dto) (dpId d) db)\<lparr> cdEvents := cdEvents db @ es \<rparr>"
    then obtain d es where d: "department_of (loadGraph db) (Some (tiDepartment dto)) = Some d" "\<not> dpSystem d"
      and q: "\<And>j. tiPosition dto = Some j \<Longrightarrow> \<exists>q. position_of (loadGraph db) (Some j) = Some q \<and> poDepartment q = Some (dpId d)"
      and t: "t = (change_profile (cpId p) (tiPosition dto) (dpId d) db)\<lparr> cdEvents := cdEvents db @ es \<rparr>" by blast
    have "dpId d \<in> members (cdDepartments db)" using graph_department [OF d(1)] d(2) by (simp add: members_def)
    then have "place_ok db (tiPosition dto) (Some (dpId d))" unfolding place_ok_def using q graph_position by blast
    from change_profile_keeps [OF db(1) this, of "cpId p"]
    show ?thesis unfolding t career_stays_def by (auto simp: change_profile_def)
  qed
  then show ?thesis using db(2) career_stays_trans by blast
qed

section \<open>Skills\<close>

abbreviation progress_key :: "skill_progress \<Rightarrow> string \<times> string" where
  "progress_key g \<equiv> (spProfile g, spSkill g)"

lemma achieved_rows_keep:
  assumes old: "distinct (map progress_key rows)"
  shows "distinct (map progress_key (achieved_rows now p st actor note rows))"
    "g \<in> set rows \<Longrightarrow> spAchieved g \<Longrightarrow> \<exists>h \<in> set (achieved_rows now p st actor note rows). spAchieved h \<and> progress_key h = progress_key g"
    "\<exists>h \<in> set (achieved_rows now p st actor note rows). spAchieved h \<and> progress_key h = (cpId p, skId (ssSkill st))"
proof -
  let ?own = "\<lambda>g. spProfile g = cpId p \<and> spSkill g = skId (ssSkill st)"
  define mark where "mark g = g\<lparr> spAchieved := True, spUnlockedAt := ssUnlockedAt st, spAchievedAt := Some now,
      spConfirmedBy := actor, spSnapshot := Some (case ssEvaluation st of Some v \<Rightarrow> evItems v | None \<Rightarrow> []), spNote := note \<rparr>" for g :: skill_progress
  have marked: "progress_key (mark g) = progress_key g" "spAchieved (mark g)" for g by (simp_all add: mark_def)
  have all: "distinct (map progress_key (achieved_rows now p st actor note rows)) \<and>
      (\<forall>g \<in> set rows. spAchieved g \<longrightarrow> (\<exists>h \<in> set (achieved_rows now p st actor note rows). spAchieved h \<and> progress_key h = progress_key g)) \<and>
      (\<exists>h \<in> set (achieved_rows now p st actor note rows). spAchieved h \<and> progress_key h = (cpId p, skId (ssSkill st)))"
  proof (cases "\<exists>g \<in> set rows. ?own g")
    case True
    then have r: "achieved_rows now p st actor note rows = map (\<lambda>g. if ?own g then mark g else g) rows"
      by (simp add: achieved_rows_def Let_def mark_def cong: if_cong)
    have "map progress_key (map (\<lambda>g. if ?own g then mark g else g) rows) = map progress_key rows" using marked by simp
    moreover have "\<exists>h \<in> set (map (\<lambda>g. if ?own g then mark g else g) rows). spAchieved h \<and> progress_key h = progress_key g"
      if "g \<in> set rows" "spAchieved g \<or> ?own g" for g
      using that marked by (intro bexI [of _ "if ?own g then mark g else g"]) auto
    moreover obtain g where "g \<in> set rows" "?own g" using True by blast
    ultimately show ?thesis unfolding r using old by (metis (no_types, lifting))
  next
    case False
    then obtain h where h: "achieved_rows now p st actor note rows = rows @ [h]" "spAchieved h" "progress_key h = (cpId p, skId (ssSkill st))"
      by (simp add: achieved_rows_def Let_def)
    have "progress_key h \<notin> progress_key ` set rows" using False h(3) by auto
    then show ?thesis unfolding h(1) using old h(2,3) by auto
  qed
  then show "distinct (map progress_key (achieved_rows now p st actor note rows))"
    "g \<in> set rows \<Longrightarrow> spAchieved g \<Longrightarrow> \<exists>h \<in> set (achieved_rows now p st actor note rows). spAchieved h \<and> progress_key h = progress_key g"
    "\<exists>h \<in> set (achieved_rows now p st actor note rows). spAchieved h \<and> progress_key h = (cpId p, skId (ssSkill st))"
    by blast+
qed

lemma achieve_db:
  "\<exists>e. achieve env now db p st actor note requestId =
    (db\<lparr> cdProgress := achieved_rows now p st actor note (cdProgress db), cdEvents := cdEvents db @ [e] \<rparr>, e)"
  by (simp add: achieve_def add_event_def Let_def)

lemma achieve_keeps:
  assumes "career_ok db"
  shows "career_ok (fst (achieve env now db p st actor note requestId)) \<and> career_stays db (fst (achieve env now db p st actor note requestId))"
proof -
  let ?rows = "achieved_rows now p st actor note (cdProgress db)"
  obtain e where t: "fst (achieve env now db p st actor note requestId) = db\<lparr> cdProgress := ?rows, cdEvents := cdEvents db @ [e] \<rparr>"
    using achieve_db [of env now db p st actor "note" requestId] by (metis fst_conv)
  have old: "distinct (map progress_key (cdProgress db))" using assms by (simp add: career_ok_def)
  have "career_ok (db\<lparr> cdProgress := ?rows \<rparr>)" using assms achieved_rows_keep(1) [OF old] by (simp add: career_ok_def)
  moreover have "progress_key ` set (filter spAchieved (cdProgress db)) \<subseteq> progress_key ` set (filter spAchieved ?rows)"
  proof
    fix k
    assume "k \<in> progress_key ` set (filter spAchieved (cdProgress db))"
    then obtain g where "g \<in> set (cdProgress db)" "spAchieved g" "k = progress_key g" by auto
    then show "k \<in> progress_key ` set (filter spAchieved ?rows)" using achieved_rows_keep(2) [OF old] by (force simp: image_iff)
  qed
  ultimately show ?thesis unfolding t by (auto simp: career_stays_def career_ok_def)
qed

lemma sweep_rounds_keep: "career_ok db \<Longrightarrow> career_ok (sweep_rounds n env now p db) \<and> career_stays db (sweep_rounds n env now p db)"
proof (induction n arbitrary: db)
  case 0
  then show ?case by (simp add: career_stays_refl)
next
  case (Suc n)
  show ?case
  proof (cases "find ready (skillStates db (loadGraph db) p)")
    case None
    then show ?thesis using Suc.prems by (simp add: career_stays_refl)
  next
    case (Some st)
    note one = achieve_keeps [OF Suc.prems, of env now p st None None None]
    then show ?thesis using Suc.IH [OF conjunct1 [OF one]] career_stays_trans Some by auto
  qed
qed

lemma sweep_profile_keeps:
  assumes "sweep_profile env now db0 i = Inr t" and env: "fresh_ids env" and ok: "career_ok db0"
  shows "career_ok t \<and> career_stays db0 t"
proof -
  obtain db p where l: "lockProfile env db0 i = Inr (db, p)" and t: "t = sweep_rounds 30 env now p db"
    using assms(1) unfolding sweep_profile_def by (auto simp: and_then_Inr_iff)
  have db: "career_ok db" "career_stays db0 db" using lock_profile_Inr [OF l env ok] by auto
  show ?thesis unfolding t using sweep_rounds_keep [OF db(1)] db(2) career_stays_trans by blast
qed

lemma evaluation_tx_keeps:
  assumes "evaluation_tx env now skillId passed note requestId actor db p = Inr (t, a)" and ok: "career_ok db"
  shows "career_ok t \<and> career_stays db t"
proof (cases "find (\<lambda>e. seRequest e = Some requestId) (cdEvaluations db)")
  case (Some e)
  then show ?thesis using assms career_stays_refl by (auto simp: evaluation_tx_def and_then_Inr_iff)
next
  case None
  then obtain e where e: "t = db\<lparr> cdEvaluations := cdEvaluations db @ [e] \<rparr> \<or>
      (\<exists>st. t = fst (achieve env now (db\<lparr> cdEvaluations := cdEvaluations db @ [e] \<rparr>) p st None None None))"
    using assms(1) unfolding evaluation_tx_def Let_def by (auto simp: and_then_Inr_iff split: if_split_asm)
  let ?b = "db\<lparr> cdEvaluations := cdEvaluations db @ [e] \<rparr>"
  have b: "career_ok ?b" "career_stays db ?b" using ok by (auto simp: career_stays_def)
  then show ?thesis using e achieve_keeps [OF b(1)] career_stays_trans by blast
qed

lemma confirm_tx_keeps:
  assumes "confirm_tx env now skillId note force requestId actor db p = Inr (t, a)" and ok: "career_ok db"
  shows "career_ok t \<and> career_stays db t"
proof (cases "priorEvent db (cpId p) requestId")
  case (Some e)
  then show ?thesis using assms career_stays_refl by (auto simp: confirm_tx_def and_then_Inr_iff)
next
  case None
  then obtain st where "(let (db', e) = achieve env now db p st actor note (Some requestId) in
      Inr (db', \<lparr> caReplayed = False, caEvent = e \<rparr>)) = (Inr (t, a) :: career_error + career_db \<times> career_answer)"
    using assms(1) None by (auto simp: confirm_tx_def and_then_Inr_iff)
  then have "t = fst (achieve env now db p st actor note (Some requestId))"
    by (cases "achieve env now db p st actor note (Some requestId)") simp
  then show ?thesis using achieve_keeps [OF ok] by simp
qed

lemma record_evaluation_keeps:
  assumes "recordEvaluation env now db0 i skillId passed note requestId actor = Inr (t, a)" and env: "fresh_ids env" and ok: "career_ok db0"
  shows "career_ok t \<and> career_stays db0 t"
  by (rule locked_keeps [OF assms(1) [unfolded recordEvaluation_def] env ok]) (rule evaluation_tx_keeps)

lemma confirm_skill_keeps:
  assumes "confirmSkill env now db0 i skillId note force requestId actor = Inr (t, a)" and env: "fresh_ids env" and ok: "career_ok db0"
  shows "career_ok t \<and> career_stays db0 t"
proof (rule locked_keeps [OF _ env ok])
  show "and_then (lockProfile env db0 i) (\<lambda>(db, p). confirm_tx env now skillId (trimNote note) force requestId actor db p) = Inr (t, a)"
    using assms(1) by (auto simp: confirmSkill_def and_then_Inr_iff)
qed (rule confirm_tx_keeps)

end
