(* ===== verification/CareerSafety.thy ===== *)
theory CareerSafety
  imports CareerHistories
begin

text \<open>
  The history of a career ladder: its steps and their interpretation in \<open>kept\<close>; and the lemmas on the search for an ancestor, on the
  order in which skills open, and on the rounds of the daily sweep, which end with nothing left to record.
\<close>

section \<open>Histories\<close>

text \<open>The steps: every write of the career, hiring with the ladder switched on, leaving, and the recorded work, which is another
  module's. The sweep of each profile is a transaction of its own. Coming back after leaving is not among the steps.\<close>

inductive career_step :: "career_env \<Rightarrow> career_db \<Rightarrow> career_db \<Rightarrow> bool" for env where
  department_created: "createDepartment env s name description tier parentId = Inr t \<Longrightarrow> career_step env s t"
| department_updated: "updateDepartment env s i ddto = Inr t \<Longrightarrow> career_step env s t"
| department_deleted: "deleteDepartment env s i = Inr t \<Longrightarrow> career_step env s t"
| department_copied: "duplicateDepartment env now s i = Inr t \<Longrightarrow> career_step env s t"
| position_created: "createPosition env now s i name description rank reqs = Inr t \<Longrightarrow> career_step env s t"
| position_updated: "updatePosition env s i pdto = Inr t \<Longrightarrow> career_step env s t"
| position_deleted: "deletePosition env s i = Inr t \<Longrightarrow> career_step env s t"
| skill_created: "createSkill env now s i positionId name description sequence level confirmation isOrdered reqs = Inr t \<Longrightarrow> career_step env s t"
| skill_updated: "updateSkill env s i kdto = Inr t \<Longrightarrow> career_step env s t"
| skill_deleted: "deleteSkill env s i = Inr t \<Longrightarrow> career_step env s t"
| settings_updated: "career_step env s (updateSettings env s reminder frequency)"
| promoted: "promote env now s i mdto actor = Inr (t, a) \<Longrightarrow> career_step env s t"
| transferred: "transfer env now s i tdto actor = Inr (t, a) \<Longrightarrow> career_step env s t"
| evaluated: "recordEvaluation env now s i skillId passed remark requestId actor = Inr (t, b) \<Longrightarrow> career_step env s t"
| confirmed: "confirmSkill env now s i skillId remark force requestId actor = Inr (t, a) \<Longrightarrow> career_step env s t"
| swept: "sweep_profile env now s i = Inr t \<Longrightarrow> career_step env s t"
| hired: "cdEnabled s \<Longrightarrow> newId \<notin> cpId ` set (cdProfiles s) \<Longrightarrow> hire env s newId roleId departmentId status now = Inr t \<Longrightarrow> career_step env s t"
| left: "\<not> isEmployed status \<Longrightarrow>
    career_step env s (s\<lparr> cdProfiles := map (\<lambda>p. if cpId p = i then p\<lparr> cpStatus := status \<rparr> else p) (cdProfiles s) \<rparr>)"
| worked: "career_step env s (s\<lparr> cdWork := ws \<rparr>)"

lemma settings_keep:
  assumes "fresh_ids env" "career_ok db"
  shows "career_ok (updateSettings env db reminder frequency) \<and> career_stays db (updateSettings env db reminder frequency)"
  using base_keeps [OF assms]
  by (auto simp: updateSettings_def Let_def career_ok_def career_stays_def split: option.splits)

lemma hired_keeps:
  assumes d: "hire_department db roleId departmentId = Inr d" and ok: "career_ok db" "cdEnabled db" "newId \<notin> cpId ` set (cdProfiles db)"
  shows "career_ok (db\<lparr> cdProfiles := cdProfiles db @ [\<lparr> cpId = newId, cpDepartment = d, cpRole = roleId, cpStatus = status,
      cpJoined = Some now, cpCreated = now \<rparr>] \<rparr>)"
proof -
  have place: "place_ok db roleId d"
  proof (cases roleId)
    case None
    then have "d = None \<or> (\<exists>x \<in> set (cdDepartments db). d = Some (dpId x) \<and> \<not> dpSystem x)"
      using d by (auto simp: hire_department_def and_then_Inr_iff dest!: find_Some_in split: if_split_asm option.split_asm)
    then show ?thesis using None by (auto simp: place_ok_def members_def)
  next
    case (Some r)
    then obtain q where q: "find (\<lambda>q. poId q = r) (cdPositions db) = Some q" "d = poDepartment q"
      using d ok(2) by (cases "find (\<lambda>q. poId q = r) (cdPositions db)"; cases departmentId) (auto simp: hire_department_def Let_def and_then_Inr_iff)
    have qq: "q \<in> set (cdPositions db)" "poId q = r" using find_Some_in [OF q(1)] by auto
    moreover have "ladder_ok (cdDepartments db) (cdPositions db)" using ok(1) by (simp add: career_ok_def)
    ultimately show ?thesis using Some q(2) unfolding place_ok_def ladder_ok_def by auto
  qed
  have "staff_ok (cdDepartments db) (cdPositions db) (cdProfiles db @ [\<lparr> cpId = newId, cpDepartment = d, cpRole = roleId,
      cpStatus = status, cpJoined = Some now, cpCreated = now \<rparr>])"
    using ok(1,3) place unfolding staff_ok_def place_ok_def career_ok_def by auto
  then show ?thesis using ok(1) by (simp add: career_ok_def)
qed

lemma hire_keeps:
  assumes h: "hire env db0 newId roleId departmentId status now = Inr t" and ok: "fresh_ids env" "career_ok db0" "cdEnabled db0"
    and new: "newId \<notin> cpId ` set (cdProfiles db0)"
  shows "career_ok t \<and> career_stays db0 t"
proof -
  define db where "db = (if cdEnabled db0 \<and> (roleId \<noteq> None \<or> departmentId \<noteq> None) then ensureCareerBase env db0 else db0)"
  have db: "career_ok db" "career_stays db0 db" "cdEnabled db" "cdProfiles db = cdProfiles db0"
    unfolding db_def using base_keeps [OF ok(1,2)] ok(2,3) career_stays_refl by (auto simp: ensureCareerBase_def)
  obtain d where d: "hire_department db roleId departmentId = Inr d"
    and t: "t = db\<lparr> cdProfiles := cdProfiles db @ [\<lparr> cpId = newId, cpDepartment = d, cpRole = roleId, cpStatus = status,
      cpJoined = Some now, cpCreated = now \<rparr>] \<rparr>"
    using h unfolding hire_def db_def [symmetric] Let_def and_then_Inr_iff by blast
  have "career_ok t" unfolding t using hired_keeps [OF d db(1,3)] new db(4) by simp
  moreover have "career_stays db0 t" using db(2) unfolding t by (simp add: career_stays_def)
  ultimately show ?thesis ..
qed

lemma leave_keeps:
  assumes ok: "career_ok db" and s: "\<not> isEmployed status"
  shows "career_ok (db\<lparr> cdProfiles := map (\<lambda>p. if cpId p = i then p\<lparr> cpStatus := status \<rparr> else p) (cdProfiles db) \<rparr>)"
proof -
  let ?h = "\<lambda>p. if cpId p = i then p\<lparr> cpStatus := status \<rparr> else p"
  have ids: "map cpId (map ?h (cdProfiles db)) = map cpId (cdProfiles db)" by simp
  have "c \<in> set (cdProfiles db)" if "c \<in> set (map ?h (cdProfiles db))" "isEmployed (cpStatus c)" for c
    using that s by (auto split: if_split_asm)
  moreover have "staff_ok (cdDepartments db) (cdPositions db) (cdProfiles db)" using ok by (simp add: career_ok_def)
  ultimately have "staff_ok (cdDepartments db) (cdPositions db) (map ?h (cdProfiles db))" unfolding staff_ok_def ids by blast
  then show ?thesis using ok by (simp add: career_ok_def)
qed

lemmas structure_keeps = create_department_keeps update_department_keeps delete_department_keeps duplicate_department_keeps
  create_position_keeps update_position_keeps delete_position_keeps create_skill_keeps update_skill_keeps delete_skill_keeps

lemmas progress_keeps = promote_keeps transfer_keeps record_evaluation_keeps confirm_skill_keeps sweep_profile_keeps

lemma career_step_keeps: "career_step env s t \<Longrightarrow> fresh_ids env \<Longrightarrow> career_ok s \<Longrightarrow> career_ok t \<and> career_stays s t"
proof (induction rule: career_step.induct)
  case (settings_updated s reminder frequency)
  then show ?case using settings_keep by blast
next
  case (hired s newId roleId departmentId status now t)
  then show ?case using hire_keeps by blast
next
  case (left status s i)
  then show ?case using leave_keeps by (simp add: career_stays_def)
next
  case (worked s ws)
  then show ?case by (simp add: career_stays_def)
qed (erule structure_keeps progress_keeps, assumption, assumption)+

interpretation career_history: kept "career_step env" "\<lambda>s. fresh_ids env \<and> career_ok s" career_stays
  by unfold_locales (use career_step_keeps career_stays_refl career_stays_trans in blast)+

lemma sweep_auto_keeps:
  assumes "fresh_ids env" "career_ok db"
  shows "(fresh_ids env \<and> career_ok (sweepAutoSkills env now db)) \<and> career_stays db (sweepAutoSkills env now db)"
  unfolding sweepAutoSkills_def
  by (rule career_history.fold_keeps [where env = env]) (use assms in \<open>auto split: sum.splits intro: swept\<close>)

section \<open>Up the tree\<close>

definition parent_of :: "department list \<Rightarrow> (string \<times> string) set" where
  "parent_of ds = {(i, q). \<exists>d \<in> set ds. dpId d = i \<and> dpParent d = Some q}"

lemma above_step:
  assumes ok: "tree_ok ds" and d: "d \<in> set ds"
  shows "(dpId d, a) \<in> (parent_of ds)\<^sup>+ \<longleftrightarrow> (\<exists>q. dpParent d = Some q \<and> (q = a \<or> (q, a) \<in> (parent_of ds)\<^sup>+))"
proof
  assume "(dpId d, a) \<in> (parent_of ds)\<^sup>+"
  then obtain q where q: "(dpId d, q) \<in> parent_of ds" "q = a \<or> (q, a) \<in> (parent_of ds)\<^sup>+" by (metis tranclD rtranclD)
  then have "dpParent d = Some q" using same_department [OF ok _ d] by (auto simp: parent_of_def)
  then show "\<exists>q. dpParent d = Some q \<and> (q = a \<or> (q, a) \<in> (parent_of ds)\<^sup>+)" using q(2) by blast
next
  assume "\<exists>q. dpParent d = Some q \<and> (q = a \<or> (q, a) \<in> (parent_of ds)\<^sup>+)"
  then obtain q where "(dpId d, q) \<in> parent_of ds" "q = a \<or> (q, a) \<in> (parent_of ds)\<^sup>+" using d by (auto simp: parent_of_def)
  then show "(dpId d, a) \<in> (parent_of ds)\<^sup>+" by (metis r_into_trancl trancl_into_trancl2)
qed

lemma department_of_id: "tree_ok (cdDepartments db) \<Longrightarrow> d \<in> set (cdDepartments db) \<Longrightarrow> department_of (loadGraph db) (Some (dpId d)) = Some d"
  using find_department_id by (simp add: department_of_def loadGraph_def)

lemma climb_is_above:
  assumes ok: "tree_ok (cdDepartments db)"
  shows "d \<in> set (cdDepartments db) \<Longrightarrow> dpTier d \<le> int n \<Longrightarrow>
    climb n (loadGraph db) a (Some d) \<longleftrightarrow> (dpId d, a) \<in> (parent_of (cdDepartments db))\<^sup>+"
proof (induction n arbitrary: d)
  case 0
  then have "tree_place (cdDepartments db) d" using ok unfolding tree_ok_def by blast
  then show ?case using "0.prems"(2) by (auto simp: tree_place_def split: if_split_asm)
next
  case (Suc n)
  show ?case
  proof (cases "dpParent d")
    case None
    then show ?thesis using above_step [OF ok Suc.prems(1)] by simp
  next
    case (Some q)
    then obtain p where p: "p \<in> set (cdDepartments db)" "dpId p = q" "dpTier p < dpTier d" using tree_parent [OF ok Suc.prems(1)] by blast
    then have "climb n (loadGraph db) a (Some p) \<longleftrightarrow> (q, a) \<in> (parent_of (cdDepartments db))\<^sup>+" using Suc.IH [OF p(1)] Suc.prems(2) by auto
    then show ?thesis using above_step [OF ok Suc.prems(1)] department_of_id [OF ok p(1)] p(2) Some by simp
  qed
qed

lemma tier_low: "tree_ok ds \<Longrightarrow> d \<in> set ds \<Longrightarrow> dpTier d \<le> 4"
  unfolding tree_ok_def tree_place_def by (metis (full_types) one_le_numeral)

section \<open>The order of skills\<close>

text \<open>The row of a skill read is the only one there is.\<close>

lemma progress_of_achieved:
  assumes "career_ok db"
  shows "(\<exists>r. progress_of db p i = Some r \<and> spAchieved r) \<longleftrightarrow> i \<in> achievedSkills db p"
proof
  assume "\<exists>r. progress_of db p i = Some r \<and> spAchieved r"
  then obtain r where "find (\<lambda>g. spSkill g = i) (rev (progressRows db p)) = Some r" "spAchieved r" by (auto simp: progress_of_def)
  then show "i \<in> achievedSkills db p" using find_Some_in by (force simp: achievedSkills_def)
next
  assume "i \<in> achievedSkills db p"
  then obtain g where g: "g \<in> set (progressRows db p)" "spAchieved g" "spSkill g = i" by (auto simp: achievedSkills_def)
  then obtain r where r: "find (\<lambda>g. spSkill g = i) (rev (progressRows db p)) = Some r"
    by (cases "find (\<lambda>g. spSkill g = i) (rev (progressRows db p))") (auto simp: find_None_iff)
  have "r \<in> set (progressRows db p)" "spSkill r = i" using find_Some_in [OF r] by auto
  then have "progress_key r = progress_key g" "r \<in> set (cdProgress db)" "g \<in> set (cdProgress db)" using g by (auto simp: progressRows_def)
  moreover have "distinct (map progress_key (cdProgress db))" using assms by (simp add: career_ok_def)
  ultimately have "r = g" by (meson distinct_map inj_onD)
  then show "\<exists>r. progress_of db p i = Some r \<and> spAchieved r" using r g(2) by (simp add: progress_of_def)
qed

lemma achieved_row:
  assumes "career_ok db"
  shows "(case progress_of db p i of Some r \<Rightarrow> if spAchieved r then Some r else None | None \<Rightarrow> None) = None \<longleftrightarrow> i \<notin> achievedSkills db p"
  using progress_of_achieved [OF assms, of p i] by (auto split: option.splits)

definition holds_back :: "career_db \<Rightarrow> career_profile \<Rightarrow> skill \<Rightarrow> bool" where
  "holds_back db p s \<longleftrightarrow> skOrdered s \<and> skLevel s = REQUIRED \<and> skId s \<notin> achievedSkills db p"

lemma walk_skills: "map ssSkill (skill_walk db g p gate last_required ss) = ss"
  by (induction ss arbitrary: gate last_required) (auto simp: Let_def split: option.splits)

lemma walk_locked:
  assumes ok: "career_ok db"
  shows "i < length ss \<Longrightarrow> ssStatus (skill_walk db g p gate last_required ss ! i) = LOCKED \<longleftrightarrow>
    skOrdered (ss ! i) \<and> skId (ss ! i) \<notin> achievedSkills db p \<and> (\<not> gate \<or> (\<exists>j < i. holds_back db p (ss ! j)))"
proof (induction ss arbitrary: i gate last_required)
  case (Cons s ss)
  let ?row = "case progress_of db p (skId s) of Some r \<Rightarrow> if spAchieved r then Some r else None | None \<Rightarrow> None"
  have earlier: "(\<exists>j < i. holds_back db p ((s # ss) ! j)) \<longleftrightarrow> 0 < i \<and> (holds_back db p s \<or> (\<exists>j < i - 1. holds_back db p (ss ! j)))" for i
    by (cases i) (auto simp: less_Suc_eq_0_disj)
  show ?case
  proof (cases ?row)
    case (Some r)
    then have a: "skId s \<in> achievedSkills db p" using achieved_row [OF ok, of p "skId s"] by simp
    show ?thesis using Cons Some a unfolding earlier by (cases i) (auto simp: Let_def holds_back_def)
  next
    case None
    then have a: "skId s \<notin> achievedSkills db p" using achieved_row [OF ok, of p "skId s"] by simp
    show ?thesis
    proof (cases "skOrdered s \<and> \<not> gate")
      case True
      then show ?thesis using Cons None a unfolding earlier by (cases i) (auto simp: Let_def)
    next
      case False
      then show ?thesis using Cons None a unfolding earlier by (cases i) (auto simp: Let_def holds_back_def)
    qed
  qed
qed simp

section \<open>The daily sweep\<close>

text \<open>The progress of an employee is of the present employment.\<close>

definition present_rows :: "career_db \<Rightarrow> career_profile \<Rightarrow> bool" where
  "present_rows db p \<longleftrightarrow> (\<forall>g \<in> set (cdProgress db). spProfile g = cpId p \<longrightarrow> not_before (stintFloor (cpJoined p)) (spCreated g))"

lemma achieved_present:
  "present_rows db p \<Longrightarrow> achievedSkills db p = {i. \<exists>g \<in> set (cdProgress db). spAchieved g \<and> progress_key g = (cpId p, i)}"
  unfolding achievedSkills_def progressRows_def present_rows_def by auto

lemma walk_waiting:
  assumes "career_ok db"
  shows "st \<in> set (skill_walk db g p gate last_required ss) \<Longrightarrow> ssStatus st \<noteq> ACHIEVED \<Longrightarrow> ssSkill st \<in> set ss \<and> skId (ssSkill st) \<notin> achievedSkills db p"
proof (induction ss arbitrary: gate last_required)
  case (Cons s ss)
  show ?case
  proof (cases "case progress_of db p (skId s) of Some r \<Rightarrow> if spAchieved r then Some r else None | None \<Rightarrow> None")
    case (Some r)
    then show ?thesis using Cons by (auto simp: Let_def split: if_split_asm)
  next
    case None
    then have "skId s \<notin> achievedSkills db p" using achieved_row [OF assms] by blast
    then show ?thesis using Cons None by (auto simp: Let_def split: if_split_asm)
  qed
qed simp

definition open_skills :: "career_db \<Rightarrow> career_profile \<Rightarrow> skill list" where
  "open_skills db p = filter (\<lambda>s. skId s \<notin> achievedSkills db p) (skillsOf (loadGraph db) (cpDepartment p) (livePositionId (loadGraph db) p))"

lemma ready_is_open:
  assumes "career_ok db" "find ready (skillStates db (loadGraph db) p) = Some st"
  shows "ssSkill st \<in> set (open_skills db p)"
proof -
  have "st \<in> set (skillStates db (loadGraph db) p)" "ssStatus st \<noteq> ACHIEVED" using find_Some_in [OF assms(2)] by (auto simp: ready_def)
  then show ?thesis using walk_waiting [OF assms(1)] unfolding skillStates_def open_skills_def by auto
qed

lemma achieve_graph: "loadGraph (fst (achieve env now db p st actor remark requestId)) = loadGraph db"
  using achieve_db [of env now db p st actor remark requestId] by (auto simp: loadGraph_def)

lemma achieved_rows_created:
  "g \<in> set (achieved_rows now p st actor remark rows) \<Longrightarrow>
     spCreated g = now \<or> (\<exists>h \<in> set rows. progress_key h = progress_key g \<and> spCreated h = spCreated g)"
  by (auto simp: achieved_rows_def Let_def split: if_split_asm)

lemma achieve_present:
  assumes "present_rows db p" "not_before (stintFloor (cpJoined p)) now"
  shows "present_rows (fst (achieve env now db p st actor remark requestId)) p"
proof -
  obtain e where t: "fst (achieve env now db p st actor remark requestId) =
      db\<lparr> cdProgress := achieved_rows now p st actor remark (cdProgress db), cdEvents := cdEvents db @ [e] \<rparr>"
    using achieve_db [of env now db p st actor remark requestId] by (metis fst_conv)
  show ?thesis unfolding t present_rows_def using assms achieved_rows_created unfolding present_rows_def by simp metis
qed

lemma achieve_closes:
  assumes ok: "career_ok db" "present_rows db p" "not_before (stintFloor (cpJoined p)) now" and st: "ssSkill st \<in> set (open_skills db p)"
  shows "length (open_skills (fst (achieve env now db p st actor remark requestId)) p) < length (open_skills db p)"
proof -
  let ?t = "fst (achieve env now db p st actor remark requestId)"
  obtain e where t: "?t = db\<lparr> cdProgress := achieved_rows now p st actor remark (cdProgress db), cdEvents := cdEvents db @ [e] \<rparr>"
    using achieve_db [of env now db p st actor remark requestId] by (metis fst_conv)
  have old: "distinct (map progress_key (cdProgress db))" using ok(1) by (simp add: career_ok_def)
  have now_achieved: "achievedSkills ?t p = {i. \<exists>g \<in> set (cdProgress ?t). spAchieved g \<and> progress_key g = (cpId p, i)}"
    by (rule achieved_present [OF achieve_present [OF ok(2,3)]])
  have "skId (ssSkill st) \<in> achievedSkills ?t p"
    unfolding now_achieved using achieved_rows_keep(3) [OF old] unfolding t by simp
  moreover have "achievedSkills db p \<subseteq> achievedSkills ?t p"
  proof
    fix i
    assume "i \<in> achievedSkills db p"
    then obtain g where "g \<in> set (cdProgress db)" "spAchieved g" "progress_key g = (cpId p, i)"
      unfolding achieved_present [OF ok(2)] by blast
    then obtain h where "h \<in> set (achieved_rows now p st actor remark (cdProgress db))" "spAchieved h" "progress_key h = (cpId p, i)"
      using achieved_rows_keep(2) [OF old] by metis
    then show "i \<in> achievedSkills ?t p" unfolding now_achieved unfolding t by auto
  qed
  ultimately have "open_skills ?t p = filter (\<lambda>s. skId s \<notin> achievedSkills ?t p) (filter (\<lambda>s. skId s \<noteq> skId (ssSkill st)) (open_skills db p))"
    unfolding open_skills_def achieve_graph filter_filter by (intro filter_cong) auto
  then have "length (open_skills ?t p) \<le> length (filter (\<lambda>s. skId s \<noteq> skId (ssSkill st)) (open_skills db p))" by (simp only: length_filter_le)
  also have "\<dots> < length (open_skills db p)" by (rule length_filter_less [OF st]) simp
  finally show ?thesis .
qed

lemma rounds_finish:
  "career_ok db \<Longrightarrow> present_rows db p \<Longrightarrow> not_before (stintFloor (cpJoined p)) now \<Longrightarrow> length (open_skills db p) \<le> n \<Longrightarrow>
    find ready (skillStates (sweep_rounds n env now p db) (loadGraph (sweep_rounds n env now p db)) p) = None"
proof (induction n arbitrary: db)
  case 0
  then show ?case using ready_is_open [OF "0.prems"(1)] by (cases "find ready (skillStates db (loadGraph db) p)") fastforce+
next
  case (Suc n)
  show ?case
  proof (cases "find ready (skillStates db (loadGraph db) p)")
    case None
    then show ?thesis by simp
  next
    case (Some st)
    let ?t = "fst (achieve env now db p st None None None)"
    have "length (open_skills ?t p) \<le> n"
      using achieve_closes [OF Suc.prems(1-3) ready_is_open [OF Suc.prems(1) Some], of env None None None] Suc.prems(4) by simp
    then show ?thesis using Suc.IH [OF _ achieve_present [OF Suc.prems(2,3)] Suc.prems(3)] achieve_keeps [OF Suc.prems(1)] Some by simp
  qed
qed

lemma length_filter_mono: "(\<And>x. x \<in> set xs \<Longrightarrow> P x \<Longrightarrow> Q x) \<Longrightarrow> length (filter P xs) \<le> length (filter Q xs)"
  by (induction xs) auto

lemma few_open_skills:
  assumes "career_ok db"
  shows "length (open_skills db p) \<le> 30"
proof (cases "cpDepartment p")
  case (Some d)
  have "length (open_skills db p) \<le> length (skillsOf (loadGraph db) (cpDepartment p) (livePositionId (loadGraph db) p))"
    unfolding open_skills_def by (rule length_filter_le)
  also have "\<dots> \<le> length (filter (\<lambda>s. skDepartment s = Some d) (cgSkills (loadGraph db)))"
    unfolding skillsOf_def Some by (simp only: option.distinct if_False length_sort) (rule length_filter_mono, simp)
  also have "\<dots> \<le> length (filter (\<lambda>s. skDepartment s = Some d) (cdSkills db))"
    unfolding loadGraph_def career_graph.select_convs by (rule fewer_kept)
  also have "\<dots> \<le> 30" using assms by (simp add: career_ok_def skills_ok_def skillsPerDepartment_def)
  finally show ?thesis .
next
  case None
  then show ?thesis by (simp add: open_skills_def skillsOf_def)
qed

end
