(* ===== verification/CareerPromotion.thy ===== *)
theory CareerPromotion
  imports CareerSafety
begin

text \<open>
  What a promotion means (\<open>promote\<close> of \<open>career-progress.service.ts\<close>): without force it is one step up, earned by every requirement of the
  new position and every required skill, and sent again with its request id it only repeats its answer.
\<close>

section \<open>Taking a promotion apart\<close>

definition based :: "career_db \<Rightarrow> bool" where
  "based db \<longleftrightarrow> (\<exists>d \<in> set (cdDepartments db). dpSystem d)"

lemma lock_based:
  assumes "lockProfile env db i = Inr (b, q)" "based db" "career_ok db"
  shows "b = db \<and> cdEnabled db \<and> q \<in> set (cdProfiles db) \<and> cpId q = i \<and> (\<forall>p \<in> set (cdProfiles db). cpId p = i \<longrightarrow> p = q)"
proof -
  have b: "b = db" "cdEnabled db" "find (\<lambda>p. cpId p = i) (cdProfiles db) = Some q"
    using assms(1,2) by (auto simp: lockProfile_def ensureCareerBase_def based_def Let_def and_then_Inr_iff split: if_split_asm option.splits)
  have q: "q \<in> set (cdProfiles db)" "cpId q = i" using find_Some_in [OF b(3)] by auto
  have "distinct (map cpId (cdProfiles db))" using assms(3) by (simp add: career_ok_def staff_ok_def)
  then have "p = q" if "p \<in> set (cdProfiles db)" "cpId p = i" for p
    using that q by (metis distinct_map inj_onD)
  then show ?thesis using b q by blast
qed

lemma promoted_cases:
  assumes m: "promote env now db i dto actor = Inr (t, a)" and ok: "based db" "career_ok db" and p: "p \<in> set (cdProfiles db)" "cpId p = i"
  shows "cdEnabled db \<and> assertForceNote (miForce dto) (trimNote (miNote dto)) = Inr () \<and> (miPosition dto = None) \<noteq> (miDepartment dto = None) \<and>
    promote_tx env now dto (trimNote (miNote dto)) actor db p = Inr (t, a)"
proof -
  obtain b q where l: "lockProfile env db i = Inr (b, q)" "promote_tx env now dto (trimNote (miNote dto)) actor b q = Inr (t, a)"
    and r: "assertForceNote (miForce dto) (trimNote (miNote dto)) = Inr ()" "(miPosition dto = None) \<noteq> (miDepartment dto = None)"
    using m by (auto simp: promote_def and_then_Inr_iff)
  show ?thesis using lock_based [OF l(1) ok] l(2) r p by blast
qed

lemma fresh_promotion_cases:
  assumes m: "promote_tx env now dto remark actor db p = Inr (t, a)" and new: "\<not> caReplayed a"
  obtains x where "priorEvent db (cpId p) (miRequest dto) = None" "promotion_target_of now db (loadGraph db) p dto = Inr x"
    "evPassed (ptEvaluation x) \<or> miForce dto" "write_promotion env now db p x actor remark (miRequest dto) = (t, Some (caEvent a))"
proof (cases "priorEvent db (cpId p) (miRequest dto)")
  case (Some e)
  then show ?thesis using m new by (auto simp: promote_tx_def and_then_Inr_iff)
next
  case None
  then obtain x where x: "promotion_target_of now db (loadGraph db) p dto = Inr x" "evPassed (ptEvaluation x) \<or> miForce dto"
    and w: "(case write_promotion env now db p x actor remark (miRequest dto) of
             (db', Some e) \<Rightarrow> Inr (db', \<lparr> caReplayed = False, caEvent = e \<rparr>)
           | (db', None) \<Rightarrow> Inl NoEvent) = Inr (t, a)"
    using m by (auto simp: promote_tx_def and_then_Inr_iff)
  have "write_promotion env now db p x actor remark (miRequest dto) = (t, Some (caEvent a))"
    using w by (cases "write_promotion env now db p x actor remark (miRequest dto)";
        cases "snd (write_promotion env now db p x actor remark (miRequest dto))") auto
  then show ?thesis using that None x by blast
qed

lemma written_promotion:
  assumes "write_promotion env now db p x actor remark requestId = (t, e)"
  shows "\<exists>es. t = (change_profile (cpId p) (map_option poId (ptPosition x)) (ptDepartment x) db)\<lparr> cdEvents := cdEvents db @ es \<rparr>"
  using assms by (auto simp: write_promotion_def Let_def add_event_def change_profile_def split: option.splits if_split_asm intro: exI [of _ "[]"])

lemma written_graph:
  "write_promotion env now db p x actor remark requestId = (t, e) \<Longrightarrow> loadGraph t = loadGraph db"
  using written_promotion by (fastforce simp: loadGraph_def change_profile_def)

lemma written_profile:
  assumes "write_promotion env now db p x actor remark requestId = (t, e)" "p \<in> set (cdProfiles db)"
  shows "p\<lparr> cpRole := map_option poId (ptPosition x), cpDepartment := Some (ptDepartment x) \<rparr> \<in> set (cdProfiles t)"
  using written_promotion [OF assms(1)] assms(2) by (force simp: change_profile_def)

section \<open>One step up\<close>

text \<open>The positions of a department that have a place in its order, and the one above all others.\<close>

definition placed :: "career_graph \<Rightarrow> string option \<Rightarrow> position set" where
  "placed g d = {r \<in> set (cgPositions g). d \<noteq> None \<and> poDepartment r = d \<and> poRank r \<noteq> None}"

definition at_the_top :: "career_graph \<Rightarrow> career_profile \<Rightarrow> position \<Rightarrow> bool" where
  "at_the_top g p q \<longleftrightarrow> q \<in> placed g (cpDepartment p) \<and> (\<forall>r \<in> placed g (cpDepartment p). the (poRank r) \<le> the (poRank q))"

text \<open>Who may leave a department: the one at its top, or, without a position, anyone when it has no positions.\<close>

definition may_leave :: "career_graph \<Rightarrow> career_profile \<Rightarrow> bool" where
  "may_leave g p \<longleftrightarrow>
     (case currentLive g p of Some q \<Rightarrow> at_the_top g p q | None \<Rightarrow> placed g (cpDepartment p) = {})"

text \<open>From the employee before to the employee after. The department is kept, or there was none, or it is left for one above by someone who
  may leave it. A position entered is the next one of the department, or the first one when the department changes or there was no
  position. A department is entered without a position only when it is another one and has none.\<close>

definition one_step_up :: "career_graph \<Rightarrow> career_profile \<Rightarrow> career_profile \<Rightarrow> bool" where
  "one_step_up g p c \<longleftrightarrow>
     (cpDepartment c = cpDepartment p \<or> cpDepartment p = None \<or>
      may_leave g p \<and> isAncestor g (the (cpDepartment c)) (cpDepartment p)) \<and>
     (case cpRole c of
        Some i \<Rightarrow>
          (\<exists>r. position_of g (Some i) = Some r \<and> poDepartment r = cpDepartment c \<and>
             poRank r = (case currentLive g p of
               Some q \<Rightarrow> if cpDepartment c = cpDepartment p then Some (the (poRank q) + 1) else Some 1
             | None \<Rightarrow> Some 1))
      | None \<Rightarrow> cpDepartment c \<noteq> cpDepartment p \<and> placed g (cpDepartment c) = {})"

lemma positions_placed: "set (positionsOf g d) = placed g d"
  by (auto simp: positionsOf_def placed_def)

lemma no_positions: "positionsOf g d = [] \<longleftrightarrow> placed g d = {}"
  using positions_placed [of g d] by (metis empty_set set_empty)

lemma sorted_last: "sorted (map f xs) \<Longrightarrow> x \<in> set xs \<Longrightarrow> f x \<le> (f (last xs) :: int)"
  by (induction xs) auto

lemma last_is_top:
  assumes ok: "career_ok db" and q: "currentLive (loadGraph db) p = Some q"
    and last: "positionsOf (loadGraph db) (cpDepartment p) \<noteq> []" "poId (last (positionsOf (loadGraph db) (cpDepartment p))) = poId q"
  shows "at_the_top (loadGraph db) p q"
proof -
  let ?g = "loadGraph db" let ?ps = "positionsOf ?g (cpDepartment p)"
  have at: "last ?ps \<in> placed ?g (cpDepartment p)" using last_in_set [OF last(1)] positions_placed by blast
  have "q \<in> set (cdPositions db)" using q graph_position [of db "cpRole p" q] by (auto simp: currentLive_def split: option.splits if_splits)
  moreover have "last ?ps \<in> set (cdPositions db)" using at by (auto simp: placed_def loadGraph_def)
  moreover have "distinct (map poId (cdPositions db))" using ok by (simp add: career_ok_def ladder_ok_def)
  ultimately have "last ?ps = q" using last(2) by (metis distinct_map inj_onD)
  moreover have "the (poRank r) \<le> the (poRank (last ?ps))" if "r \<in> set ?ps" for r
    by (rule sorted_last [OF _ that]) (simp add: positionsOf_def)
  ultimately show ?thesis using at unfolding at_the_top_def positions_placed by blast
qed

lemma position_of_id:
  assumes "career_ok db" "q \<in> set (cdPositions db)" "poActive q"
  shows "position_of (loadGraph db) (Some (poId q)) = Some q"
proof -
  have d: "distinct (map poId (cdPositions db))" using assms(1) by (simp add: career_ok_def ladder_ok_def)
  have "q \<in> set (filter poActive (cdPositions db))" using assms by simp
  then obtain r where r: "find (\<lambda>x. poId x = poId q) (filter poActive (cdPositions db)) = Some r"
    by (cases "find (\<lambda>x. poId x = poId q) (filter poActive (cdPositions db))") (auto simp: find_None_iff)
  have "r \<in> set (cdPositions db)" "poId r = poId q" using find_Some_in [OF r] by auto
  then have "r = q" using d assms(2) by (metis distinct_map inj_onD)
  then show ?thesis using r by (simp add: position_of_def loadGraph_def)
qed

lemma passed_adjacent: "evPassed (evaluationOf items adjacent) \<Longrightarrow> adjacent \<and> (\<forall>m \<in> set items. mrMet m)"
proof -
  assume "evPassed (evaluationOf items adjacent)"
  then have a: "adjacent" "length (filter mrMet items) = length items" by (auto simp: evaluationOf_def Let_def)
  then have "filter mrMet items = items" by (metis filter_True length_filter_less less_irrefl)
  then show ?thesis using a(1) by (metis filter_id_conv)
qed

lemma adjacent_position_up:
  assumes ok: "career_ok db" and q: "q \<in> set (cdPositions db)" "poActive q" "poDepartment q = Some d"
    and adj: "positionAdjacent (loadGraph db) p q"
  shows "one_step_up (loadGraph db) p (p\<lparr> cpRole := Some (poId q), cpDepartment := Some d \<rparr>)"
proof (cases "currentLive (loadGraph db) p")
  case None
  then show ?thesis
    using adj q(3) position_of_id [OF ok q(1,2)]
    by (auto simp: one_step_up_def may_leave_def no_positions [symmetric] positionAdjacent_def Let_def split: if_splits)
next
  case (Some r)
  then have "cpDepartment p \<noteq> Some d \<Longrightarrow> at_the_top (loadGraph db) p r"
    using adj q(3) last_is_top [OF ok Some] by (auto simp: positionAdjacent_def Let_def)
  then show ?thesis
    using Some adj q(3) position_of_id [OF ok q(1,2)]
    by (auto simp: one_step_up_def may_leave_def positionAdjacent_def Let_def split: if_splits)
qed

lemma target_cases:
  assumes t: "promotion_target_of now db (loadGraph db) p dto = Inr x"
  obtains (position) q where "q \<in> set (cdPositions db)" "poActive q" "poDepartment q \<noteq> None" "x = evaluatePosition now db (loadGraph db) p q"
      "miPosition dto = None \<or> miPosition dto = Some (poId q)"
    | (department) d where "miPosition dto = None" "miDepartment dto = Some (dpId d)" "x = evaluateDepartment db (loadGraph db) p d"
      "positionsOf (loadGraph db) (Some (dpId d)) = []"
proof (cases "miPosition dto")
  case (Some j)
  then obtain q where q: "position_of (loadGraph db) (Some j) = Some q" "poDepartment q \<noteq> None" "x = evaluatePosition now db (loadGraph db) p q"
    using t by (auto simp: promotion_target_of_def and_then_Inr_iff split: option.splits)
  then show ?thesis using position graph_position [OF q(1)] Some by blast
next
  case None
  then obtain d where d: "department_of (loadGraph db) (miDepartment dto) = Some d"
    and x: "(\<exists>q qs. positionsOf (loadGraph db) (Some (dpId d)) = q # qs \<and> x = evaluatePosition now db (loadGraph db) p q) \<or>
      positionsOf (loadGraph db) (Some (dpId d)) = [] \<and> x = evaluateDepartment db (loadGraph db) p d"
    using t by (auto simp: promotion_target_of_def and_then_Inr_iff split: option.splits list.splits)
  from x show ?thesis
  proof (elim disjE exE conjE)
    fix q qs
    assume q: "positionsOf (loadGraph db) (Some (dpId d)) = q # qs" "x = evaluatePosition now db (loadGraph db) p q"
    have m: "q \<in> set (positionsOf (loadGraph db) (Some (dpId d)))" using q(1) by simp
    then have "poActive q" by (auto simp: positionsOf_def loadGraph_def)
    then show ?thesis using position [OF _ _ _ q(2)] positions_of_in [OF m] None by auto
  next
    assume "positionsOf (loadGraph db) (Some (dpId d)) = []" "x = evaluateDepartment db (loadGraph db) p d"
    then show ?thesis using department None graph_department [OF d] by blast
  qed
qed

lemma target_up:
  assumes t: "promotion_target_of now db (loadGraph db) p dto = Inr x" and ok: "career_ok db" and pass: "evPassed (ptEvaluation x)"
  shows "one_step_up (loadGraph db) p (p\<lparr> cpRole := map_option poId (ptPosition x), cpDepartment := Some (ptDepartment x) \<rparr>)"
  using t
proof (cases rule: target_cases)
  case (position q)
  then obtain d where d: "poDepartment q = Some d" by blast
  have "positionAdjacent (loadGraph db) p q" using pass passed_adjacent unfolding position(4) evaluatePosition_def Let_def by auto
  from adjacent_position_up [OF ok position(1,2) d this] show ?thesis by (simp add: position(4) d evaluatePosition_def Let_def)
next
  case (department d)
  have "departmentAdjacent (loadGraph db) p d" using pass passed_adjacent unfolding department(3) evaluateDepartment_def by auto
  moreover from this have "may_leave (loadGraph db) p" if "cpDepartment p \<noteq> None"
    using that last_is_top [OF ok] by (auto simp: departmentAdjacent_def may_leave_def no_positions split: option.splits)
  ultimately show ?thesis using department(4)
    by (auto simp: department(3) evaluateDepartment_def one_step_up_def departmentAdjacent_def no_positions)
qed

section \<open>Earned\<close>

definition earned :: "instant \<Rightarrow> career_db \<Rightarrow> career_profile \<Rightarrow> career_profile \<Rightarrow> bool" where
  "earned now db p c \<longleftrightarrow>
     (\<forall>r. cpRole c = Some r \<longrightarrow> (\<forall>m \<in> set (measureEntry now db (loadGraph db) p (requirementsOfPosition (loadGraph db) r)). mrMet m)) \<and>
     ((currentLive (loadGraph db) p \<noteq> None \<or> cpDepartment c \<noteq> cpDepartment p) \<and> cpDepartment p \<noteq> None \<longrightarrow>
        (\<forall>s \<in> set (requiredSkills (loadGraph db) p). skId s \<in> achievedSkills db p))"

lemma all_required_met:
  "mrMet (all_required_item db g p b) \<Longrightarrow> s \<in> set (requiredSkills g p) \<Longrightarrow> skId s \<in> achievedSkills db p"
proof -
  assume "mrMet (all_required_item db g p b)" and s: "s \<in> set (requiredSkills g p)"
  then have "length (requiredSkills g p) \<le> length (filter (\<lambda>s. skId s \<in> achievedSkills db p) (requiredSkills g p))"
    by (simp add: all_required_item_def requiredSkillsMet_def)
  then have "filter (\<lambda>s. skId s \<in> achievedSkills db p) (requiredSkills g p) = requiredSkills g p"
    by (metis filter_True length_filter_less not_le)
  then show ?thesis using s by (metis (no_types, lifting) filter_id_conv)
qed

lemma measured_all_required:
  assumes "m \<in> set (measureEntry now db g p rs)" "mrCode m = ALL_REQUIRED_SKILLS"
  shows "m = all_required_item db g p False"
proof -
  obtain r where "m \<in> set (measure_entry now db g p r)" using assms(1) by (auto simp: measureEntry_def)
  then show ?thesis using assms(2)
    by (cases "rwCode r") (auto simp: measure_entry_def Let_def measured_item_def split: option.splits)
qed

lemma implicit_skills_met:
  assumes met: "\<forall>m \<in> set (addImplicitSkills db g p (measureEntry now db g p rs) True). mrMet m"
    and d: "cpDepartment p \<noteq> None" and s: "s \<in> set (requiredSkills g p)"
  shows "skId s \<in> achievedSkills db p"
proof (cases "\<exists>m \<in> set (measureEntry now db g p rs). mrCode m = ALL_REQUIRED_SKILLS")
  case True
  then obtain m where m: "m \<in> set (measureEntry now db g p rs)" "mrCode m = ALL_REQUIRED_SKILLS" by blast
  have "m \<in> set (addImplicitSkills db g p (measureEntry now db g p rs) True)" using m by (auto simp: addImplicitSkills_def)
  then have "mrMet (all_required_item db g p False)" using met measured_all_required [OF m] by blast
  then show ?thesis by (rule all_required_met) (rule s)
next
  case False
  have "fst (requiredSkillsMet db g p) \<noteq> 0" using s by (auto simp: requiredSkillsMet_def)
  then have "all_required_item db g p True \<in> set (addImplicitSkills db g p (measureEntry now db g p rs) True)"
    using False d by (auto simp: addImplicitSkills_def)
  then show ?thesis using met all_required_met s by blast
qed

lemma implicit_more: "m \<in> set items \<Longrightarrow> m \<in> set (addImplicitSkills db g p items b)"
  by (simp add: addImplicitSkills_def)

lemma target_earned:
  assumes t: "promotion_target_of now db (loadGraph db) p dto = Inr x" and pass: "evPassed (ptEvaluation x)"
  shows "earned now db p (p\<lparr> cpRole := map_option poId (ptPosition x), cpDepartment := Some (ptDepartment x) \<rparr>)"
  using t
proof (cases rule: target_cases)
  case q: (position q)
  let ?g = "loadGraph db"
  let ?must = "currentLive ?g p \<noteq> None \<or> poDepartment q \<noteq> cpDepartment p"
  let ?items = "measureEntry now db ?g p (requirementsOfPosition ?g (poId q))"
  have met: "\<forall>m \<in> set (addImplicitSkills db ?g p ?items ?must). mrMet m"
    using pass passed_adjacent unfolding q(4) evaluatePosition_def Let_def by auto
  have "\<forall>m \<in> set ?items. mrMet m" using met implicit_more by blast
  moreover have "skId s \<in> achievedSkills db p" if m: "?must" "cpDepartment p \<noteq> None" "s \<in> set (requiredSkills ?g p)" for s
  proof (rule implicit_skills_met [OF _ m(2,3)])
    have "?must = True" using m(1) by simp
    then show "\<forall>m \<in> set (addImplicitSkills db ?g p ?items True). mrMet m" using met by (simp only:)
  qed
  moreover have "ptPosition x = Some q" "Some (ptDepartment x) = poDepartment q"
    using q by (auto simp: evaluatePosition_def Let_def)
  ultimately show ?thesis unfolding earned_def by auto
next
  case d: (department d)
  have "\<forall>m \<in> set (addImplicitSkills db (loadGraph db) p (measureEntry now db (loadGraph db) p []) True). mrMet m"
    using pass passed_adjacent unfolding d(3) evaluateDepartment_def by (auto simp: measureEntry_def)
  then have "skId s \<in> achievedSkills db p" if "cpDepartment p \<noteq> None" "s \<in> set (requiredSkills (loadGraph db) p)" for s
    using implicit_skills_met that by blast
  then show ?thesis by (simp add: earned_def d(3) evaluateDepartment_def)
qed

section \<open>The same request again\<close>

lemma find_append: "find P (xs @ ys) = (case find P xs of Some x \<Rightarrow> Some x | None \<Rightarrow> find P ys)"
  by (induction xs) auto

lemma written_request:
  assumes w: "write_promotion env now db p x actor remark r = (t, Some e)" and none: "priorEvent db (cpId p) r = None"
  shows "priorEvent t (cpId p) r = Some e \<and>
    (case ptPosition x of Some q \<Rightarrow> ceSubject e = Some POSITION \<and> ceTo e = Some (poId q)
     | None \<Rightarrow> ceSubject e = Some DEPARTMENT \<and> ceSnapshot e \<noteq> None \<and> ceTo e = Some (ptDepartment x))"
  using w none
  by (cases "ptPosition x")
    (auto simp: write_promotion_def Let_def add_event_def change_profile_def priorEvent_def find_append split: if_split_asm)

lemma target_same:
  assumes t: "promotion_target_of now db (loadGraph db) p dto = Inr x"
    and e: "case ptPosition x of Some q \<Rightarrow> ceSubject e = Some POSITION \<and> ceTo e = Some (poId q)
     | None \<Rightarrow> ceSubject e = Some DEPARTMENT \<and> ceSnapshot e \<noteq> None \<and> ceTo e = Some (ptDepartment x)"
  shows "samePromotion e dto"
  using t
proof (cases rule: target_cases)
  case (position q)
  then show ?thesis using e by (auto simp: samePromotion_def evaluatePosition_def Let_def)
next
  case (department d)
  then show ?thesis using e by (auto simp: samePromotion_def evaluateDepartment_def)
qed

lemma again_locked:
  assumes ok: "based db" "career_ok db" "cdEnabled db" "p \<in> set (cdProfiles db)"
    and w: "write_promotion env now db p x actor remark r = (t, e)"
  shows "\<exists>c. lockProfile env t (cpId p) = Inr (t, c) \<and> cpId c = cpId p"
proof -
  let ?c = "p\<lparr> cpRole := map_option poId (ptPosition x), cpDepartment := Some (ptDepartment x) \<rparr>"
  obtain es where t: "t = (change_profile (cpId p) (map_option poId (ptPosition x)) (ptDepartment x) db)\<lparr> cdEvents := cdEvents db @ es \<rparr>"
    using written_promotion [OF w] by blast
  have c: "?c \<in> set (cdProfiles t)" by (rule written_profile [OF w ok(4)])
  then obtain c where f: "find (\<lambda>q. cpId q = cpId p) (cdProfiles t) = Some c"
    by (cases "find (\<lambda>q. cpId q = cpId p) (cdProfiles t)") (auto simp: find_None_iff)
  have "ensureCareerBase env t = t" using ok(1) by (simp add: ensureCareerBase_def based_def t change_profile_def)
  moreover have "cdEnabled t" using ok(3) by (simp add: t change_profile_def)
  moreover have "\<exists>q \<in> set (cdProfiles t). cpId q = cpId p" by (rule bexI [OF _ c]) simp
  ultimately have "lockProfile env t (cpId p) = Inr (t, c)" using f by (simp add: lockProfile_def Let_def)
  then show ?thesis using find_Some_in [OF f] by blast
qed

lemma replayed:
  assumes m: "promote_tx env now dto remark actor db p = Inr (t, a)" and r: "caReplayed a"
  shows "t = db \<and> priorEvent db (cpId p) (miRequest dto) = Some (caEvent a) \<and> samePromotion (caEvent a) dto"
proof (cases "priorEvent db (cpId p) (miRequest dto)")
  case (Some e)
  then show ?thesis using m by (auto simp: promote_tx_def and_then_Inr_iff)
next
  case None
  then obtain x where "(case write_promotion env now db p x actor remark (miRequest dto) of
             (db', Some e) \<Rightarrow> Inr (db', \<lparr> caReplayed = False, caEvent = e \<rparr>)
           | (db', None) \<Rightarrow> Inl NoEvent) = Inr (t, a)"
    using m by (auto simp: promote_tx_def and_then_Inr_iff)
  then show ?thesis using r by (cases "write_promotion env now db p x actor remark (miRequest dto)";
        cases "snd (write_promotion env now db p x actor remark (miRequest dto))") auto
qed

lemma answered_again:
  assumes "lockProfile env t i = Inr (t, c)" "priorEvent t (cpId c) (miRequest dto) = Some e" "samePromotion e dto"
    and "assertForceNote (miForce dto) (trimNote (miNote dto)) = Inr ()" "((miPosition dto = None) = (miDepartment dto = None)) = False"
  shows "promote env now t i dto actor = Inr (t, \<lparr> caReplayed = True, caEvent = e \<rparr>)"
  unfolding promote_def assms(5) using assms(1-4) by (simp add: promote_tx_def)

end
