(* ===== verification/CareerGuarantees.thy ===== *)
theory CareerGuarantees
  imports CareerPromotion
begin

text \<open>
  What the career ladder guarantees, on the lemmas of CareerSafety and CareerPromotion, and a kitchen of two positions and two skills on which
  each guarantee is shown at work.
\<close>

text \<open>C15. Whatever sequence of writes a store's career ladder goes through (departments created, changed, moved, copied and deleted,
  positions and skills likewise, settings, promotions, transfers, marks, confirmations and sweeps, employees hired and leaving), the
  departments stay a tree whose tiers grow downwards, the positions and the skills of each department stay numbered 1, 2, \<dots> without a gap or
  a repeat, no department holds more than 30 skills, every skill of a position and every employee is in the department of that position, and
  a skill has at most one progress row per employee. Ids drawn by the database are assumed to be new.\<close>

theorem ladder_stays_in_order:
  assumes "(career_step env)\<^sup>*\<^sup>* s t" "fresh_ids env" "career_ok s"
  shows "career_ok t"
  using career_history.history_ok [OF assms(1)] assms(2,3) by blast

text \<open>C21. The search for an ancestor of a department, which gives up after ten turns, finds exactly the departments reached by
  following parents any number of times.\<close>

theorem ancestor_search_is_exact:
  assumes "career_ok db"
  shows "isAncestor (loadGraph db) a (Some i) \<longleftrightarrow> (i, a) \<in> (parent_of (cdDepartments db))\<^sup>+"
proof (cases "department_of (loadGraph db) (Some i)")
  case None
  then have "i \<notin> dpId ` set (cdDepartments db)" by (auto simp: department_of_def loadGraph_def find_None_iff)
  then have "\<not> (i, a) \<in> (parent_of (cdDepartments db))\<^sup>+" by (force simp: parent_of_def dest: tranclD)
  then show ?thesis using None by (simp add: isAncestor_def eval_nat_numeral)
next
  case (Some d)
  have ok: "tree_ok (cdDepartments db)" using assms by (simp add: career_ok_def)
  have d: "d \<in> set (cdDepartments db)" "dpId d = i" using graph_department [OF Some] by auto
  then have "dpTier d \<le> int 10" using tier_low [OF ok d(1)] by simp
  then show ?thesis unfolding isAncestor_def Some using climb_is_above [OF ok d(1), of 10 a] d(2) by metis
qed

text \<open>C20. In the list of an employee's skills, one is shown as locked exactly when it takes part in the order, is not achieved, and some
  required skill before it that takes part in the order is not achieved either.\<close>

theorem skill_waits_for_the_required_ones:
  assumes "career_ok db" "i < length (skillsOf g (cpDepartment p) (livePositionId g p))"
  shows "ssStatus (skillStates db g p ! i) = LOCKED \<longleftrightarrow>
    (let ss = skillsOf g (cpDepartment p) (livePositionId g p) in
      skOrdered (ss ! i) \<and> skId (ss ! i) \<notin> achievedSkills db p \<and> (\<exists>j < i. holds_back db p (ss ! j)))"
  using walk_locked [OF assms, of g p True None] by (simp add: skillStates_def Let_def)

text \<open>C16. A promotion that is not forced and not a repeat moves the employee exactly one step up the ladder. Within the department it is the
  position ranked next after the present one, or the first one for who has none. The department is only left for one above it, and only
  from the position that no other of the department is ranked above, or, without a position, when the department has none; the new
  position is then a first one, or none when the department entered has no positions. Who has no department enters any.\<close>

theorem promotion_is_one_step_up:
  assumes "promote env now db i dto actor = Inr (t, a)" "\<not> caReplayed a" "\<not> miForce dto"
    and "based db" "career_ok db" "p \<in> set (cdProfiles db)" "cpId p = i"
  shows "\<exists>c \<in> set (cdProfiles t). cpId c = i \<and> one_step_up (loadGraph t) p c"
proof -
  have "promote_tx env now dto (trimNote (miNote dto)) actor db p = Inr (t, a)" using promoted_cases [OF assms(1,4-7)] by blast
  then obtain x where x: "promotion_target_of now db (loadGraph db) p dto = Inr x" "evPassed (ptEvaluation x) \<or> miForce dto"
      "write_promotion env now db p x actor (trimNote (miNote dto)) (miRequest dto) = (t, Some (caEvent a))"
    by (rule fresh_promotion_cases [OF _ assms(2)])
  have "evPassed (ptEvaluation x)" using x(2) assms(3) by blast
  from target_up [OF x(1) assms(5) this] show ?thesis
    using written_profile [OF x(3) assms(6)] written_graph [OF x(3)] assms(7) by (intro bexI [OF _ written_profile [OF x(3) assms(6)]]) simp
qed

text \<open>C17. When a promotion that is not forced goes through, every requirement of the new position that is measured is met, and whoever
  held a position or leaves the department has achieved every required skill there.\<close>

theorem promotion_is_earned:
  assumes "promote env now db i dto actor = Inr (t, a)" "\<not> caReplayed a" "\<not> miForce dto"
    and "based db" "career_ok db" "p \<in> set (cdProfiles db)" "cpId p = i"
  shows "\<exists>c \<in> set (cdProfiles t). cpId c = i \<and> earned now db p c"
proof -
  have "promote_tx env now dto (trimNote (miNote dto)) actor db p = Inr (t, a)" using promoted_cases [OF assms(1,4-7)] by blast
  then obtain x where x: "promotion_target_of now db (loadGraph db) p dto = Inr x" "evPassed (ptEvaluation x) \<or> miForce dto"
      "write_promotion env now db p x actor (trimNote (miNote dto)) (miRequest dto) = (t, Some (caEvent a))"
    by (rule fresh_promotion_cases [OF _ assms(2)])
  have "evPassed (ptEvaluation x)" using x(2) assms(3) by blast
  from target_earned [OF x(1) this] show ?thesis
    using assms(7) by (intro bexI [OF _ written_profile [OF x(3) assms(6)]]) simp
qed

text \<open>C18. A promotion sent again with the same request id, at any later time and by anybody, changes nothing and answers with the event
  of the first.\<close>

theorem repeated_promotion_changes_nothing:
  assumes "promote env now db i dto actor = Inr (t, a)" and "based db" "career_ok db" "p \<in> set (cdProfiles db)" "cpId p = i"
  shows "promote env later_on t i dto somebody = Inr (t, \<lparr> caReplayed = True, caEvent = caEvent a \<rparr>)"
proof -
  have m: "promote_tx env now dto (trimNote (miNote dto)) actor db p = Inr (t, a)" and on: "cdEnabled db"
    and input: "assertForceNote (miForce dto) (trimNote (miNote dto)) = Inr ()" "((miPosition dto = None) = (miDepartment dto = None)) = False"
    using promoted_cases [OF assms(1-5)] by (iprover, iprover, iprover, argo)
  show ?thesis
  proof (cases "caReplayed a")
    case True
    note again = replayed [OF m True]
    have "lockProfile env db i = Inr (db, q)" if "lockProfile env db i = Inr (b, q)" for b q
      using lock_based [OF that assms(2,3)] that by simp
    moreover obtain b q where "lockProfile env db i = Inr (b, q)" using assms(1) by (auto simp: promote_def and_then_Inr_iff)
    ultimately have l: "lockProfile env db i = Inr (db, q)" by blast
    have "cpId q = cpId p" using lock_based [OF l assms(2,3)] assms(5) by simp
    then show ?thesis using answered_again [OF _ _ _ input, of env t i q] l again by simp
  next
    case False
    obtain x where x: "priorEvent db (cpId p) (miRequest dto) = None" "promotion_target_of now db (loadGraph db) p dto = Inr x"
        "write_promotion env now db p x actor (trimNote (miNote dto)) (miRequest dto) = (t, Some (caEvent a))"
      using fresh_promotion_cases [OF m False] by metis
    obtain c where c: "lockProfile env t (cpId p) = Inr (t, c)" "cpId c = cpId p" using again_locked [OF assms(2,3) on assms(4) x(3)] by blast
    note e = written_request [OF x(3,1)]
    show ?thesis using answered_again [OF _ _ _ input, of env t i c] c e target_same [OF x(2)] assms(5) by simp
  qed
qed

text \<open>C19. After the daily sweep of an employee no skill that achieves itself is left waiting, although achieving one can open the next: the
  thirty rounds are enough. The employee's progress rows are those of the present employment.\<close>

theorem sweep_leaves_nothing_ready:
  assumes "sweep_profile env now db i = Inr t" "fresh_ids env" "career_ok db" "p \<in> set (cdProfiles db)" "cpId p = i"
    and "present_rows db p" "not_before (stintFloor (cpJoined p)) now"
  shows "find ready (skillStates t (loadGraph t) p) = None"
proof -
  obtain b q where l: "lockProfile env db i = Inr (b, q)" and t: "t = sweep_rounds 30 env now q b"
    using assms(1) unfolding sweep_profile_def by (auto simp: and_then_Inr_iff)
  have b: "b = ensureCareerBase env db" using l by (auto simp: lockProfile_def Let_def and_then_Inr_iff split: if_split_asm option.splits)
  have ok: "career_ok b" "q \<in> set (cdProfiles b)" "cpId q = i" using lock_profile_Inr [OF l assms(2,3)] by auto
  have same: "cdProfiles b = cdProfiles db" "cdProgress b = cdProgress db" by (simp_all add: b ensureCareerBase_def)
  have "distinct (map cpId (cdProfiles db))" using assms(3) by (simp add: career_ok_def staff_ok_def)
  then have "q = p" using ok(2,3) assms(4,5) unfolding same by (metis distinct_map inj_onD)
  moreover have "present_rows b p" using assms(6) by (simp add: present_rows_def same)
  ultimately show ?thesis unfolding t using rounds_finish [OF ok(1) _ assms(7) few_open_skills [OF ok(1)]] by simp
qed

section \<open>What a replay overlooks\<close>

text \<open>A request id of an earlier promotion to a position is answered as a repeat whatever department is asked for now, although an id used
  for another target is meant to be refused.\<close>

lemma replay_overlooks_the_department:
  assumes "priorEvent db (cpId p) (miRequest dto) = Some e" "ceSubject e = Some POSITION" "miPosition dto = None"
  shows "promote_tx env now dto remark actor db p = Inr (db, \<lparr> caReplayed = True, caEvent = e \<rparr>)"
  using assms by (simp add: promote_tx_def samePromotion_def)

section \<open>A kitchen\<close>

definition an_env :: career_env where
  "an_env = \<lparr> evNewId = (\<lambda>db. replicate (Suc (sum_list (map length (map dpId (cdDepartments db) @ map poId (cdPositions db) @
      map skId (cdSkills db))))) (CHR ''x'')),
    evSqlLower = (\<lambda>s. s), evToLowerCase = (\<lambda>s. s), evCopySuffix = (\<lambda>_. ''copy''), evSystemName = ''Store'' \<rparr>"

lemma longer_is_new: "replicate (Suc (sum_list (map length xs))) c \<notin> set xs"
proof
  assume "replicate (Suc (sum_list (map length xs))) c \<in> set xs"
  then have "length (replicate (Suc (sum_list (map length xs))) c) \<in> set (map length xs)" by (metis image_eqI list.set_map)
  then show False using member_le_sum_list [of "Suc (sum_list (map length xs))" "map length xs"] by simp
qed

lemma an_env_fresh: "fresh_ids an_env"
proof -
  have "evNewId an_env db \<notin> dpId ` set (cdDepartments db) \<union> poId ` set (cdPositions db) \<union> skId ` set (cdSkills db)" for db
    using longer_is_new [of "map dpId (cdDepartments db) @ map poId (cdPositions db) @ map skId (cdSkills db)" "CHR ''x''"]
    by (auto simp: an_env_def)
  then show ?thesis unfolding fresh_ids_def by blast
qed

definition kitchen :: career_db where
  "kitchen = \<lparr> cdEnabled = True, cdReminder = False, cdFrequency = EVERY_WEEK, cdLastReminded = None,
    cdDepartments =
      [\<lparr> dpId = ''d0'', dpParent = None, dpTier = 1, dpName = ''Store'', dpDescription = None, dpSort = 0, dpSystem = True \<rparr>,
       \<lparr> dpId = ''d1'', dpParent = Some ''d0'', dpTier = 2, dpName = ''Kitchen'', dpDescription = None, dpSort = 1, dpSystem = False \<rparr>],
    cdPositions =
      [\<lparr> poId = ''p1'', poDepartment = Some ''d1'', poRank = Some 1, poName = ''Helper'', poDescription = None, poActive = True, poCreated = 0 \<rparr>,
       \<lparr> poId = ''p2'', poDepartment = Some ''d1'', poRank = Some 2, poName = ''Cook'', poDescription = None, poActive = True, poCreated = 0 \<rparr>],
    cdSkills =
      [\<lparr> skId = ''k1'', skDepartment = Some ''d1'', skPosition = None, skSequence = Some 1, skName = ''Knives'', skDescription = None,
         skLevel = REQUIRED, skConfirmation = BY_MANAGER, skOrdered = True, skActive = True, skCreated = 0 \<rparr>,
       \<lparr> skId = ''k2'', skDepartment = Some ''d1'', skPosition = None, skSequence = Some 2, skName = ''Soups'', skDescription = None,
         skLevel = OPTIONAL, skConfirmation = BY_ITSELF, skOrdered = True, skActive = True, skCreated = 0 \<rparr>],
    cdRequirements =
      [\<lparr> rwDepartment = None, rwPosition = Some ''p2'', rwSkill = None, rwCode = SKILL_ACHIEVED, rwValue = None,
         rwRefSkill = Some ''k1'', rwSort = 0 \<rparr>],
    cdProfiles =
      [\<lparr> cpId = ''e1'', cpDepartment = Some ''d1'', cpRole = Some ''p1'', cpStatus = EMP_ACTIVE, cpJoined = Some 0, cpCreated = 0 \<rparr>],
    cdProgress =
      [\<lparr> spProfile = ''e1'', spSkill = ''k1'', spAchieved = True, spUnlockedAt = Some 0, spAchievedAt = Some 5, spConfirmedBy = None,
         spSnapshot = None, spNote = None, spCreated = 5 \<rparr>],
    cdEvaluations = [], cdEvents = [], cdWork = [] \<rparr>"

definition to_cook :: promote_input where
  "to_cook = \<lparr> miPosition = Some ''p2'', miDepartment = None, miNote = None, miForce = False, miRequest = ''r1'' \<rparr>"

definition kitchen_cook :: career_profile where
  "kitchen_cook = \<lparr> cpId = ''e1'', cpDepartment = Some ''d1'', cpRole = Some ''p1'', cpStatus = EMP_ACTIVE, cpJoined = Some 0, cpCreated = 0 \<rparr>"

lemma unforced: "\<not> miForce to_cook"
  by (simp add: to_cook_def)

lemma kitchen_ok: "career_ok kitchen"
proof -
  have two: "{Some 1, Some 2} = Some ` {1..2::int}" by force
  show ?thesis
    by (simp add: kitchen_def career_ok_def tree_ok_def tree_place_def ladder_ok_def skills_ok_def staff_ok_def numbered_def members_def
      skillsPerDepartment_def two)
qed

lemma kitchen_rows:
  "kitchen_cook \<in> set (cdProfiles kitchen)" "cpId kitchen_cook = ''e1''" "based kitchen" "cpDepartment kitchen_cook = Some ''d1''"
  by (simp_all add: kitchen_cook_def kitchen_def based_def)

lemma kitchen_lock: "lockProfile an_env kitchen ''e1'' = Inr (kitchen, kitchen_cook)"
  by (simp add: lockProfile_def ensureCareerBase_def kitchen_def kitchen_cook_def)

lemma kitchen_achieved: "achievedSkills kitchen kitchen_cook = {''k1''}"
  by (simp add: achievedSkills_def progressRows_def kitchen_def kitchen_cook_def stintFloor_def not_before_def)

lemma kitchen_positions:
  "map poId (positionsOf (loadGraph kitchen) (Some ''d1'')) = [''p1'', ''p2'']"
  "position_of (loadGraph kitchen) (Some ''p1'') = Some (cdPositions kitchen ! 0)"
  "position_of (loadGraph kitchen) (Some ''p2'') = Some (cdPositions kitchen ! 1)"
  by (simp_all add: positionsOf_def position_of_def loadGraph_def kitchen_def)

lemma kitchen_skills: "skillsOf (loadGraph kitchen) (Some ''d1'') (Some ''p1'') = cdSkills kitchen"
  by (simp add: skillsOf_def loadGraph_def kitchen_def)

lemma kitchen_live: "livePositionId (loadGraph kitchen) kitchen_cook = Some ''p1''" "currentLive (loadGraph kitchen) kitchen_cook = Some (cdPositions kitchen ! 0)"
  using kitchen_positions(2) by (simp_all add: livePositionId_def currentLive_def kitchen_cook_def) (simp_all add: kitchen_def)

lemma kitchen_promotion: "\<exists>t a. promote an_env 86400000 kitchen ''e1'' to_cook None = Inr (t, a) \<and> \<not> caReplayed a"
proof -
  let ?g = "loadGraph kitchen"
  define q where "q = cdPositions kitchen ! 1"
  have pos: "position_of ?g (Some ''p2'') = Some q" using kitchen_positions(3) by (simp add: q_def)
  have q: "poId q = ''p2''" "poRank q = Some 2" "poDepartment q = Some ''d1''" "poRank (cdPositions kitchen ! 0) = Some 1" by (simp_all add: q_def kitchen_def)
  have rows: "requirementsOfPosition ?g ''p2'' = cdRequirements kitchen" by (simp add: requirementsOfPosition_def loadGraph_def kitchen_def)
  have k1: "skill_of ?g (Some ''k1'') = Some (cdSkills kitchen ! 0)" by (simp add: skill_of_def loadGraph_def kitchen_def)
  have item: "\<forall>m \<in> set (measureEntry 86400000 kitchen ?g kitchen_cook (requirementsOfPosition ?g ''p2'')). mrMet m"
    unfolding rows using k1 kitchen_achieved by (simp add: measureEntry_def measure_entry_def Let_def kitchen_def)
  have "requiredSkillsMet kitchen ?g kitchen_cook = (1, 1)"
    by (simp add: requiredSkillsMet_def requiredSkills_def kitchen_live kitchen_rows(4) kitchen_skills kitchen_achieved) (simp add: kitchen_def)
  then have "\<forall>m \<in> set (addImplicitSkills kitchen ?g kitchen_cook (measureEntry 86400000 kitchen ?g kitchen_cook (requirementsOfPosition ?g ''p2'')) True). mrMet m"
    using item by (auto simp: addImplicitSkills_def all_required_item_def)
  moreover have "positionAdjacent ?g kitchen_cook q" by (simp add: positionAdjacent_def Let_def kitchen_live kitchen_rows(4) q)
  ultimately have pass: "evPassed (ptEvaluation (evaluatePosition 86400000 kitchen ?g kitchen_cook q))"
    by (simp add: evaluatePosition_def evaluationOf_def Let_def kitchen_live q filter_True)
  have "promotion_target_of 86400000 kitchen ?g kitchen_cook to_cook = Inr (evaluatePosition 86400000 kitchen ?g kitchen_cook q)"
    by (simp add: promotion_target_of_def to_cook_def pos q) (simp add: kitchen_cook_def)
  moreover have "priorEvent kitchen ''e1'' ''r1'' = None" by (simp add: priorEvent_def kitchen_def)
  moreover have "assertEmployed kitchen_cook = Inr ()" by (simp add: assertEmployed_def isEmployed_def kitchen_cook_def)
  moreover have "ptPosition (evaluatePosition 86400000 kitchen ?g kitchen_cook q) = Some q" by (simp add: evaluatePosition_def Let_def)
  ultimately show ?thesis using pass kitchen_rows(2)
    by (simp add: promote_def promote_tx_def kitchen_lock to_cook_def assertForceNote_def write_promotion_def Let_def add_event_def)
qed

lemma kitchen_ready: "find ready (skillStates kitchen (loadGraph kitchen) kitchen_cook) \<noteq> None"
proof -
  obtain s1 s2 where s: "cdSkills kitchen = [s1, s2]" "skId s1 = ''k1''" "skId s2 = ''k2''" "skConfirmation s2 = BY_ITSELF" by (simp add: kitchen_def)
  have p1: "\<exists>r. progress_of kitchen kitchen_cook ''k1'' = Some r \<and> spAchieved r"
    using progress_of_achieved [OF kitchen_ok] kitchen_achieved by blast
  have p2: "progress_of kitchen kitchen_cook ''k2'' = None" by (simp add: progress_of_def progressRows_def kitchen_def)
  have "requirementsOfSkill (loadGraph kitchen) ''k2'' = []" by (simp add: requirementsOfSkill_def loadGraph_def kitchen_def)
  then have e: "evPassed (evaluateSkill kitchen g kitchen_cook s2 u)" if "g = loadGraph kitchen" for g u
    using that s(3) by (simp add: evaluateSkill_def evaluationOf_def Let_def)
  show ?thesis
    unfolding skillStates_def kitchen_live kitchen_rows(4) kitchen_skills s(1)
    using p1 p2 e s(2-4) by (auto simp: Let_def ready_def)
qed

lemma kitchen_sweep: "\<exists>t. sweep_profile an_env 86400000 kitchen ''e1'' = Inr t"
  by (simp add: sweep_profile_def kitchen_lock)

theorem ladder_stays_in_order_witness:
  "\<exists>t a. promote an_env 86400000 kitchen ''e1'' to_cook None = Inr (t, a) \<and> \<not> caReplayed a \<and>
    (career_step an_env)\<^sup>*\<^sup>* kitchen t \<and> career_ok t"
proof -
  obtain t a where t: "promote an_env 86400000 kitchen ''e1'' to_cook None = Inr (t, a)" "\<not> caReplayed a" using kitchen_promotion by blast
  have "(career_step an_env)\<^sup>*\<^sup>* kitchen t" using promoted [OF t(1)] by blast
  then show ?thesis using ladder_stays_in_order [OF _ an_env_fresh kitchen_ok] t by blast
qed

theorem ancestor_search_is_exact_witness:
  "isAncestor (loadGraph kitchen) ''d0'' (Some ''d1'') \<and> (''d1'', ''d0'') \<in> (parent_of (cdDepartments kitchen))\<^sup>+"
proof -
  have "isAncestor (loadGraph kitchen) ''d0'' (Some ''d1'')" by code_simp
  then show ?thesis using ancestor_search_is_exact [OF kitchen_ok] by blast
qed

text \<open>Before the first skill is achieved the second waits.\<close>

definition first_day :: career_db where
  "first_day = kitchen\<lparr> cdProgress := [] \<rparr>"

theorem skill_waits_for_the_required_ones_witness:
  "map skId (skillsOf (loadGraph first_day) (Some ''d1'') (livePositionId (loadGraph first_day) kitchen_cook)) = [''k1'', ''k2''] \<and>
   ssStatus (skillStates first_day (loadGraph first_day) kitchen_cook ! 1) = LOCKED"
proof -
  let ?ss = "skillsOf (loadGraph first_day) (Some ''d1'') (livePositionId (loadGraph first_day) kitchen_cook)"
  have ok: "career_ok first_day" using kitchen_ok by (simp add: first_day_def career_ok_def)
  have ss: "map (\<lambda>s. (skId s, skOrdered s, skLevel s)) ?ss = [(''k1'', True, REQUIRED), (''k2'', True, OPTIONAL)]" by code_simp
  then obtain s1 s2 where s: "?ss = [s1, s2]" "skId s1 = ''k1''" "skOrdered s1" "skLevel s1 = REQUIRED" "skId s2 = ''k2''" "skOrdered s2"
    by (auto simp: map_eq_Cons_conv)
  have none: "achievedSkills first_day kitchen_cook = {}" by (simp add: achievedSkills_def progressRows_def first_day_def)
  have "ssStatus (skillStates first_day (loadGraph first_day) kitchen_cook ! 1) = LOCKED"
    using skill_waits_for_the_required_ones [OF ok, of 1 "loadGraph first_day" kitchen_cook] s none
    unfolding kitchen_rows(4) by (auto simp: holds_back_def Let_def)
  then show ?thesis using s by simp
qed

theorem promotion_is_one_step_up_witness:
  "\<exists>t a. promote an_env 86400000 kitchen ''e1'' to_cook None = Inr (t, a) \<and>
     (\<exists>c \<in> set (cdProfiles t). cpId c = ''e1'' \<and> one_step_up (loadGraph t) kitchen_cook c)"
  using kitchen_promotion promotion_is_one_step_up [OF _ _ _ kitchen_rows(3) kitchen_ok kitchen_rows(1,2)] unforced by blast

theorem promotion_is_earned_witness:
  "\<exists>t a. promote an_env 86400000 kitchen ''e1'' to_cook None = Inr (t, a) \<and>
     (\<exists>c \<in> set (cdProfiles t). cpId c = ''e1'' \<and> earned 86400000 kitchen kitchen_cook c)"
  using kitchen_promotion promotion_is_earned [OF _ _ _ kitchen_rows(3) kitchen_ok kitchen_rows(1,2)] unforced by blast

theorem repeated_promotion_changes_nothing_witness:
  "\<exists>t a. promote an_env 86400000 kitchen ''e1'' to_cook None = Inr (t, a) \<and> \<not> caReplayed a \<and>
     promote an_env 172800000 t ''e1'' to_cook (Some ''boss'') = Inr (t, \<lparr> caReplayed = True, caEvent = caEvent a \<rparr>)"
  using kitchen_promotion repeated_promotion_changes_nothing [OF _ kitchen_rows(3) kitchen_ok kitchen_rows(1,2)] by blast

theorem sweep_leaves_nothing_ready_witness:
  "\<exists>t. sweep_profile an_env 86400000 kitchen ''e1'' = Inr t \<and> find ready (skillStates kitchen (loadGraph kitchen) kitchen_cook) \<noteq> None \<and>
     find ready (skillStates t (loadGraph t) kitchen_cook) = None"
proof -
  have "present_rows kitchen kitchen_cook" "not_before (stintFloor (cpJoined kitchen_cook)) 86400000"
    by (simp_all add: present_rows_def not_before_def stintFloor_def kitchen_def kitchen_cook_def)
  then show ?thesis using kitchen_sweep kitchen_ready sweep_leaves_nothing_ready [OF _ an_env_fresh kitchen_ok kitchen_rows(1,2)] by blast
qed

end
