(* ===== verification/Guards.thy ===== *)
theory Guards
  imports AttendanceTime RuleConfig
begin

text \<open>
  \<open>src/modules/stores/guards\<close>: who may act on a store. A route names the store in its path
  (\<open>StoreAccessGuard\<close>), a row whose store is found by following foreign keys
  (\<open>StoreResourceLocator\<close>, \<open>StoreResourceAccessGuard\<close>), or is reserved to the owner
  (\<open>StoreOwnerOnlyGuard\<close>). The database is a parameter: the queries the guards send, answered with a
  row, with nothing, or rejected (\<open>BadId\<close> for a malformed id, else \<open>Rejected\<close>). The lemmas show what a passing request proves.
\<close>

section \<open>Queries\<close>

datatype 'a query = BadId | Rejected | Answer 'a

record store_row =
  srId :: string
  srOwnerAccountId :: "string option"

datatype employment_status = ES_ACTIVE | ES_PROBATION | ES_ON_LEAVE | ES_TERMINATED | ES_PENDING

definition EMPLOYED_STATUSES :: "employment_status list" where
  "EMPLOYED_STATUSES = [ES_ACTIVE, ES_PROBATION, ES_ON_LEAVE]"

text \<open>The reads the guards make: one row of an entity (with or without soft-deleted rows), one store,
  several stores, and whether an account has a profile with one of some statuses.\<close>

record guard_db =
  dbRow :: "string \<Rightarrow> string \<Rightarrow> bool \<Rightarrow> jsval option query"
  dbStore :: "string \<Rightarrow> store_row option query"
  dbStores :: "string list \<Rightarrow> store_row list query"
  dbEmployed :: "string \<Rightarrow> string \<Rightarrow> employment_status list \<Rightarrow> bool query"

datatype guard_error = Forbidden | NotFound | OwnerRequired | ScopeConflict | UnknownFamily | QueryFailed

record guard_request =
  rqParams :: "(string, jsval) jsmap"
  rqQuery :: jsval
  rqBody :: jsval
  rqUserId :: "string option"

section \<open>Membership\<close>

definition assertAccess :: "guard_db \<Rightarrow> string \<Rightarrow> string \<Rightarrow> guard_error + unit" where
  "assertAccess db storeId accountId =
     (case dbStore db storeId of
        BadId \<Rightarrow> Inl NotFound
      | Rejected \<Rightarrow> Inl QueryFailed
      | Answer None \<Rightarrow> Inl NotFound
      | Answer (Some store) \<Rightarrow>
          if srOwnerAccountId store = Some accountId then Inr ()
          else case dbEmployed db accountId storeId EMPLOYED_STATUSES of
              Answer True \<Rightarrow> Inr ()
            | Answer False \<Rightarrow> Inl Forbidden
            | _ \<Rightarrow> Inl QueryFailed)"

definition normalizePath :: "string option \<Rightarrow> string option" where
  "normalizePath path = map_option (dropWhile (\<lambda>c. c = CHR ''/'')) path"

definition param_text :: "guard_request \<Rightarrow> string \<Rightarrow> string option" where
  "param_text request key = (case map_of (rqParams request) key of Some (JStr s) \<Rightarrow> Some s | _ \<Rightarrow> None)"

text \<open>The store id in the path; both \<open>StoreAccessGuard.resolveStoreId\<close> (on the normalised path) and
  \<open>StoreOwnerOnlyGuard.storeParam\<close>.\<close>

definition storeParam :: "string option \<Rightarrow> guard_request \<Rightarrow> string option" where
  "storeParam path request =
     (case path of
        None \<Rightarrow> None
      | Some p \<Rightarrow>
          if p = '':storeId'' \<or> starts_with '':storeId/'' p then param_text request ''storeId''
          else if p = '':id'' \<or> starts_with '':id/'' p then param_text request ''id''
          else None)"

definition resolveStoreId :: "string option \<Rightarrow> guard_request \<Rightarrow> string option" where
  "resolveStoreId path request = storeParam (normalizePath path) request"

definition store_access_guard :: "guard_db \<Rightarrow> string option \<Rightarrow> guard_request \<Rightarrow> guard_error + unit" where
  "store_access_guard db path request =
     (case nonempty (resolveStoreId path request) of
        None \<Rightarrow> Inr ()
      | Some storeId \<Rightarrow>
          (case nonempty (rqUserId request) of
             None \<Rightarrow> Inl Forbidden
           | Some accountId \<Rightarrow> assertAccess db storeId accountId))"

section \<open>Locating a resource's store\<close>

datatype resource_scope = Scope (sc_entity: string) (sc_store_field: "string option") (sc_owner_field: "string option")
  (sc_with_deleted: bool) (sc_via: "(string \<times> resource_scope) option") (sc_fallback: "resource_scope option")

datatype resource_location = Unmapped | L_store string | L_owner string

abbreviation table :: "string \<Rightarrow> resource_scope" where
  "table e \<equiv> Scope e None None False None None"

abbreviation table_deleted :: "string \<Rightarrow> resource_scope" where
  "table_deleted e \<equiv> Scope e None None True None None"

abbreviation table_via :: "string \<Rightarrow> string \<times> resource_scope \<Rightarrow> resource_scope" where
  "table_via e hop \<equiv> Scope e None None False (Some hop) None"

definition PROFILE_HOP :: "string \<times> resource_scope" where
  "PROFILE_HOP = (''employeeProfileId'', table_deleted ''EmployeeProfile'')"

definition ASSIGNMENT_TO_STORE :: "string \<times> resource_scope" where
  "ASSIGNMENT_TO_STORE = (''shiftSlotId'', table_via ''ShiftSlot'' (''cycleId'', table ''WorkCycle''))"

definition RESOURCE_SCOPES :: "(string \<times> resource_scope) list" where
  "RESOURCE_SCOPES =
     [(''assets'', table ''Asset''), (''bonus-work-requests'', table ''BonusWorkRequest''),
      (''contract-templates'', table ''ContractTemplate''), (''daily-reports'', table ''DailyEmployeeReport''),
      (''employee-salaries'', table_via ''EmployeeSalary'' PROFILE_HOP), (''employee-types'', table ''StoreEmployeeType''),
      (''employees'', table_deleted ''EmployeeProfile''), (''events'', table ''StoreEvent''),
      (''feedbacks'', table ''Feedback''), (''inventory-reports'', table ''InventoryReport''),
      (''kpi-tasks'', table_via ''KpiTask'' (''employeeKpiId'', table_via ''EmployeeKpi'' PROFILE_HOP)),
      (''leave-requests'', table ''EmployeeLeaveRequest''), (''orders'', table ''Order''),
      (''payment-accounts'', table ''StorePaymentAccount''), (''payroll-payments'', table ''StorePayrollPaymentHistory''),
      (''payroll-records'', table ''EmployeePayrollRecord''), (''payrolls'', table ''MonthlyPayroll''),
      (''products'', table ''Product''), (''roles'', table ''StoreRole''),
      (''employee-kpis'', table_via ''EmployeeKpi'' PROFILE_HOP),
      (''kpi-approval-requests'', table_via ''KpiApprovalRequest'' PROFILE_HOP),
      (''salary-adjustments'', table_deleted ''EmployeeProfile''),
      (''salary-advance-requests'', table_via ''SalaryAdvanceRequest'' PROFILE_HOP),
      (''profiles'', table_deleted ''EmployeeProfile''), (''salaries'', table_via ''EmployeeSalary'' PROFILE_HOP),
      (''service-categories'', table ''ServiceCategory''), (''service-items'', table ''ServiceItem''),
      (''service-item-recipes'', table_via ''ServiceItemRecipe'' (''serviceItemId'', table ''ServiceItem'')),
      (''work-cycles'', table ''WorkCycle''),
      (''shift-assignments'', table_via ''ShiftAssignment'' (''employeeId'', table_deleted ''EmployeeProfile'')),
      (''shift-slots'', table_via ''ShiftSlot'' (''cycleId'', table ''WorkCycle'')),
      (''shift-swaps'', table_via ''ShiftSwap''
         (''fromAssignmentId'', table_via ''ShiftAssignment'' (''employeeId'', table_deleted ''EmployeeProfile''))),
      (''shift-change-requests'', table ''ShiftChangeRequest''), (''skills'', table ''StoreSkill''),
      (''stock-transactions'', table ''StockTransaction''), (''termination-reasons'', table ''EmployeeTerminationReason'')]"

definition approval_scope :: "jsval \<Rightarrow> resource_scope option" where
  "approval_scope body =
     (let t = js_get body ''type'' in
      if t = JStr ''REGISTER'' then Some (table_via ''ShiftAssignment'' ASSIGNMENT_TO_STORE)
      else if t = JStr ''SWAP''
      then Some (table_via ''ShiftSwap'' (''fromAssignmentId'', table_via ''ShiftAssignment'' ASSIGNMENT_TO_STORE))
      else if t = JStr ''LEAVE'' then Some (Scope ''EmployeeLeaveRequest'' None None False None (Some (table ''BonusWorkRequest'')))
      else None)"

definition ROUTE_RULES :: "(string \<times> string \<times> (jsval \<Rightarrow> resource_scope option)) list" where
  "ROUTE_RULES =
     [(''employees/contracts/:contractId'', ''contractId'', \<lambda>_. Some (table_via ''EmployeeContract'' PROFILE_HOP)),
      (''employees/assets/:assignmentId'', ''assignmentId'', \<lambda>_. Some (table_via ''EmployeeAssetAssignment'' PROFILE_HOP)),
      (''employees/payment-histories/:id'', ''id'', \<lambda>_. Some (table ''EmployeePaymentHistory'')),
      (''salary-configs/:configId'', ''configId'',
         \<lambda>_. Some (Scope ''SalaryConfig'' None (Some ''ownerAccountId'') False None None)),
      (''approvals/:requestId'', ''requestId'', approval_scope)]"

text \<open>A rejected query, a missing row and a column that is not a non-empty string are all "not found".\<close>

definition readField :: "guard_db \<Rightarrow> string \<Rightarrow> bool \<Rightarrow> string \<Rightarrow> string \<Rightarrow> string option" where
  "readField db entity withDeleted i field =
     (case dbRow db entity i withDeleted of
        Answer (Some row) \<Rightarrow> (case js_get row field of JStr s \<Rightarrow> nonempty (Some s) | _ \<Rightarrow> None)
      | _ \<Rightarrow> None)"

fun walk_via :: "guard_db \<Rightarrow> resource_scope \<Rightarrow> string \<Rightarrow> (resource_scope \<times> string) option" where
  "walk_via db (Scope e sf ow d None fb) i = Some (Scope e sf ow d None fb, i)"
| "walk_via db (Scope e sf ow d (Some (field, hop)) fb) i =
     (case readField db e d i field of None \<Rightarrow> None | Some n \<Rightarrow> walk_via db hop n)"

definition resolve_plain :: "guard_db \<Rightarrow> resource_scope \<Rightarrow> string \<Rightarrow> resource_location option" where
  "resolve_plain db scope i =
     (case walk_via db scope i of
        None \<Rightarrow> None
      | Some (current, currentId) \<Rightarrow>
          (case sc_owner_field current of
             Some f \<Rightarrow> map_option L_owner (readField db (sc_entity current) (sc_with_deleted current) currentId f)
           | None \<Rightarrow> map_option L_store (readField db (sc_entity current) (sc_with_deleted current) currentId
                 (case sc_store_field current of Some f \<Rightarrow> f | None \<Rightarrow> ''storeId''))))"

text \<open>\<open>None\<close> is a NotFoundException.\<close>

fun resolve :: "guard_db \<Rightarrow> resource_scope \<Rightarrow> string \<Rightarrow> resource_location option" where
  "resolve db (Scope e sf ow d v None) i = resolve_plain db (Scope e sf ow d v None) i"
| "resolve db (Scope e sf ow d v (Some fb)) i =
     (case resolve_plain db (Scope e sf ow d v None) i of Some l \<Rightarrow> Some l | None \<Rightarrow> resolve db fb i)"

definition or_not_found :: "'a option \<Rightarrow> guard_error + 'a" where
  "or_not_found v = (case v of Some x \<Rightarrow> Inr x | None \<Rightarrow> Inl NotFound)"

definition locateParam :: "guard_db \<Rightarrow> resource_scope \<Rightarrow> jsval \<Rightarrow> guard_error + resource_location" where
  "locateParam db scope value =
     (case value of JStr s \<Rightarrow> if s = [] then Inr Unmapped else or_not_found (resolve db scope s) | _ \<Rightarrow> Inr Unmapped)"

fun split_slash :: "string \<Rightarrow> string \<Rightarrow> string list" where
  "split_slash acc [] = [acc]"
| "split_slash acc (c # cs) = (if c = CHR ''/'' then acc # split_slash [] cs else split_slash (acc @ [c]) cs)"

definition segments_of :: "string \<Rightarrow> string list" where
  "segments_of path = split_slash [] path"

definition param_value :: "guard_request \<Rightarrow> string \<Rightarrow> jsval" where
  "param_value request key = map_get_or JUndef (rqParams request) key"

definition is_param :: "string \<Rightarrow> bool" where
  "is_param segment \<longleftrightarrow> starts_with '':'' segment"

definition rule_matches :: "string list \<Rightarrow> string \<times> string \<times> (jsval \<Rightarrow> resource_scope option) \<Rightarrow> bool" where
  "rule_matches segments rule \<longleftrightarrow> take (length (segments_of (fst rule))) segments = segments_of (fst rule)"

definition locate :: "guard_db \<Rightarrow> string option \<Rightarrow> guard_request \<Rightarrow> guard_error + resource_location" where
  "locate db path request =
     (case nonempty path of
        None \<Rightarrow> Inr Unmapped
      | Some p \<Rightarrow>
          let segments = segments_of p in
          case find (rule_matches segments) ROUTE_RULES of
            Some (pattern, param, scope) \<Rightarrow>
              (case scope (rqBody request) of None \<Rightarrow> Inr Unmapped | Some s \<Rightarrow> locateParam db s (param_value request param))
          | None \<Rightarrow>
              if hd segments = [] \<or> is_param (hd segments) then Inr Unmapped
              else case map_of RESOURCE_SCOPES (hd segments) of
                  None \<Rightarrow> Inr Unmapped
                | Some s \<Rightarrow>
                    (case find is_param segments of
                       None \<Rightarrow> Inr Unmapped
                     | Some segment \<Rightarrow> locateParam db s (param_value request (drop 1 segment))))"

definition storeIdOf :: "guard_db \<Rightarrow> string \<Rightarrow> string \<Rightarrow> guard_error + string" where
  "storeIdOf db family i =
     (case map_of RESOURCE_SCOPES family of
        None \<Rightarrow> Inl UnknownFamily
      | Some scope \<Rightarrow> (case resolve db scope i of Some (L_store s) \<Rightarrow> Inr s | _ \<Rightarrow> Inl NotFound))"

definition store_resource_access_guard :: "guard_db \<Rightarrow> string option \<Rightarrow> guard_request \<Rightarrow> guard_error + unit" where
  "store_resource_access_guard db path request =
     and_then (locate db (normalizePath path) request) (\<lambda>location.
       case location of
         Unmapped \<Rightarrow> Inr ()
       | L_owner a \<Rightarrow> if nonempty (rqUserId request) = None then Inl Forbidden else Inr ()
       | L_store s \<Rightarrow> (case nonempty (rqUserId request) of None \<Rightarrow> Inl Forbidden | Some accountId \<Rightarrow> assertAccess db s accountId))"

section \<open>Owner-only routes\<close>

datatype store_id_source = From_query | From_body

record owner_only_options =
  ooStoreFrom :: "store_id_source list"
  ooBodyResources :: "(string \<times> string) list"
  ooBodyStoreIdLists :: "string list"

record owner_scope =
  osTargets :: "string list"
  osListed :: "string list"
  osProofs :: "string list"

definition collect :: "string list \<Rightarrow> jsval \<Rightarrow> string list" where
  "collect into value =
     into @ List.map_filter (\<lambda>v. case v of JStr s \<Rightarrow> nonempty (Some s) | _ \<Rightarrow> None)
       (case value of JArr vs \<Rightarrow> vs | v \<Rightarrow> [v])"

fun locate_listed :: "guard_db \<Rightarrow> string \<Rightarrow> string list \<Rightarrow> guard_error + string list" where
  "locate_listed db resource [] = Inr []"
| "locate_listed db resource (i # ids) =
     and_then (storeIdOf db resource i) (\<lambda>s. and_then (locate_listed db resource ids) (\<lambda>ss. Inr (s # ss)))"

fun add_body_resources :: "guard_db \<Rightarrow> jsval \<Rightarrow> (string \<times> string) list \<Rightarrow> owner_scope \<Rightarrow> guard_error + owner_scope" where
  "add_body_resources db body [] s = Inr s"
| "add_body_resources db body ((field, resource) # rest) s =
     and_then
       (case js_get body field of
          JStr v \<Rightarrow>
            if v = [] then Inr s
            else and_then (storeIdOf db resource v) (\<lambda>i. Inr (s\<lparr>osTargets := osTargets s @ [i], osProofs := osProofs s @ [i]\<rparr>))
        | JArr vs \<Rightarrow>
            and_then (locate_listed db resource (collect [] (JArr vs))) (\<lambda>is. Inr (s\<lparr>osListed := osListed s @ is\<rparr>))
        | _ \<Rightarrow> Inr s)
       (add_body_resources db body rest)"

definition add_lists :: "jsval \<Rightarrow> string list \<Rightarrow> owner_scope \<Rightarrow> owner_scope" where
  "add_lists body names s =
     foldl (\<lambda>s field. case js_get body field of JArr vs \<Rightarrow> s\<lparr>osListed := collect (osListed s) (JArr vs)\<rparr> | _ \<Rightarrow> s) s names"

fun check_owned :: "store_row list \<Rightarrow> string \<Rightarrow> string list \<Rightarrow> guard_error + unit" where
  "check_owned stores accountId [] = Inr ()"
| "check_owned stores accountId (i # ids) =
     (case find (\<lambda>row. srId row = i) stores of
        None \<Rightarrow> Inl NotFound
      | Some store \<Rightarrow> if srOwnerAccountId store \<noteq> Some accountId then Inl OwnerRequired else check_owned stores accountId ids)"

definition owner_sources :: "owner_only_options \<Rightarrow> string option \<Rightarrow> guard_request \<Rightarrow> jsval \<Rightarrow> resource_location \<Rightarrow> owner_scope" where
  "owner_sources options path request body location =
     (let param = (case nonempty (storeParam path request) of Some s \<Rightarrow> [s] | None \<Rightarrow> []);
          located = (case location of L_store s \<Rightarrow> [s] | _ \<Rightarrow> []);
          query_id = js_get (rqQuery request) ''storeId''; body_id = js_get body ''storeId''
      in \<lparr> osTargets = collect (collect (param @ located) query_id) body_id,
           osListed = [],
           osProofs = param @ located @
             (if From_query \<in> set (ooStoreFrom options) then collect [] query_id else []) @
             (if From_body \<in> set (ooStoreFrom options) then collect [] body_id else []) \<rparr>)"

definition decide_owner :: "guard_db \<Rightarrow> string \<Rightarrow> bool \<Rightarrow> owner_scope \<Rightarrow> guard_error + unit" where
  "decide_owner db accountId ownerResolved s =
     (let storeIds = js_set (osTargets s @ osListed s) in
      and_then (fail_if (length (js_set (osTargets s)) > 1) ScopeConflict) (\<lambda>_.
      and_then (fail_if (osProofs s = [] \<and> osListed s = [] \<and> \<not> ownerResolved) OwnerRequired) (\<lambda>_.
      if storeIds = [] then Inr ()
      else case dbStores db storeIds of
          Answer stores \<Rightarrow> check_owned stores accountId storeIds
        | _ \<Rightarrow> Inl NotFound)))"

definition store_owner_only_guard ::
  "guard_db \<Rightarrow> owner_only_options option \<Rightarrow> string option \<Rightarrow> guard_request \<Rightarrow> guard_error + unit" where
  "store_owner_only_guard db marker declared request =
     (case marker of
        None \<Rightarrow> Inr ()
      | Some options \<Rightarrow>
          (case nonempty (rqUserId request) of
             None \<Rightarrow> Inl OwnerRequired
           | Some accountId \<Rightarrow>
               let path = normalizePath declared; body = (if js_is_object (rqBody request) then rqBody request else JObj []) in
               and_then (locate db path request) (\<lambda>location.
               and_then (fail_if (case location of L_owner a \<Rightarrow> a \<noteq> accountId | _ \<Rightarrow> False) OwnerRequired) (\<lambda>_.
               and_then (add_body_resources db body (ooBodyResources options) (owner_sources options path request body location)) (\<lambda>s1.
                 decide_owner db accountId (case location of L_owner a \<Rightarrow> True | _ \<Rightarrow> False)
                   (add_lists body (ooBodyStoreIdLists options) s1))))))"

section \<open>What a passing owner-only request proves\<close>

lemma check_owned_ok:
  "check_owned stores acct ids = Inr () \<Longrightarrow> i \<in> set ids \<Longrightarrow>
     \<exists>row \<in> set stores. srId row = i \<and> srOwnerAccountId row = Some acct"
proof (induction ids)
  case (Cons j ids)
  then obtain row where r: "find (\<lambda>row. srId row = j) stores = Some row" "srOwnerAccountId row = Some acct"
    "check_owned stores acct ids = Inr ()" by (auto split: option.splits if_splits)
  then show ?case using Cons by (auto simp: find_Some_iff)
qed simp

lemma collect_keeps: "set into \<subseteq> set (collect into v)"
  by (auto simp: collect_def)

lemma body_resources_keep:
  "add_body_resources db body rs s = Inr t \<Longrightarrow> set (osTargets s) \<subseteq> set (osTargets t) \<and>
     (set (osProofs s) \<subseteq> set (osTargets s) \<longrightarrow> set (osProofs t) \<subseteq> set (osTargets t))"
proof (induction rs arbitrary: s)
  case (Cons r rs)
  obtain field resource where r: "r = (field, resource)" by (cases r)
  from Cons.prems obtain u where u: "add_body_resources db body rs u = Inr t"
    and su: "u = s \<or> (\<exists>i. u = s\<lparr>osTargets := osTargets s @ [i], osProofs := osProofs s @ [i]\<rparr>) \<or>
      (\<exists>is. u = s\<lparr>osListed := osListed s @ is\<rparr>)"
    unfolding r by (auto simp: and_then_Inr_iff split: jsval.splits if_splits)
  then show ?case using Cons.IH [OF u] by auto
qed simp

lemma add_lists_keep: "osTargets (add_lists body names s) = osTargets s" "osProofs (add_lists body names s) = osProofs s"
proof -
  have "osTargets (add_lists body names s) = osTargets s \<and> osProofs (add_lists body names s) = osProofs s"
    unfolding add_lists_def by (induction names arbitrary: s) (auto split: jsval.split)
  then show "osTargets (add_lists body names s) = osTargets s" "osProofs (add_lists body names s) = osProofs s" by simp_all
qed

lemma owner_sources_targets:
  "set (osProofs (owner_sources options path request body location)) \<subseteq> set (osTargets (owner_sources options path request body location))"
  "nonempty (storeParam path request) = Some i \<Longrightarrow> i \<in> set (osTargets (owner_sources options path request body location))"
  "location = L_store i \<Longrightarrow> i \<in> set (osTargets (owner_sources options path request body location))"
  by (auto simp: owner_sources_def Let_def collect_def split: option.split)

text \<open>A passing request, taken apart.\<close>

lemma owner_only_passes:
  assumes "store_owner_only_guard db (Some options) declared request = Inr ()"
  obtains accountId location and s :: owner_scope where "nonempty (rqUserId request) = Some accountId"
    "locate db (normalizePath declared) request = Inr location"
    "\<And>a. location = L_owner a \<Longrightarrow> a = accountId"
    "\<And>i. nonempty (storeParam (normalizePath declared) request) = Some i \<Longrightarrow> i \<in> set (osTargets s)"
    "\<And>i. location = L_store i \<Longrightarrow> i \<in> set (osTargets s)"
    "set (osProofs s) \<subseteq> set (osTargets s)"
    "card (set (osTargets s)) \<le> 1"
    "osProofs s \<noteq> [] \<or> osListed s \<noteq> [] \<or> location = L_owner accountId"
    "\<And>i. i \<in> set (osTargets s @ osListed s) \<Longrightarrow>
       \<exists>ids rows. dbStores db ids = Answer rows \<and> (\<exists>row \<in> set rows. srId row = i \<and> srOwnerAccountId row = Some accountId)"
proof -
  define path where "path = normalizePath declared"
  define body where "body = (if js_is_object (rqBody request) then rqBody request else JObj [])"
  obtain accountId where acct: "nonempty (rqUserId request) = Some accountId"
    using assms by (cases "nonempty (rqUserId request)") (simp_all add: store_owner_only_guard_def)
  have "and_then (locate db path request) (\<lambda>location.
      and_then (fail_if (case location of L_owner a \<Rightarrow> a \<noteq> accountId | _ \<Rightarrow> False) OwnerRequired) (\<lambda>_.
      and_then (add_body_resources db body (ooBodyResources options) (owner_sources options path request body location)) (\<lambda>s1.
        decide_owner db accountId (case location of L_owner a \<Rightarrow> True | _ \<Rightarrow> False) (add_lists body (ooBodyStoreIdLists options) s1)))) = Inr ()"
    using assms unfolding store_owner_only_guard_def option.case acct Let_def path_def body_def .
  then obtain location s1 where l: "locate db path request = Inr location"
    and own: "\<not> (case location of L_owner a \<Rightarrow> a \<noteq> accountId | _ \<Rightarrow> False)"
    and s1: "add_body_resources db body (ooBodyResources options) (owner_sources options path request body location) = Inr s1"
    and rest: "decide_owner db accountId (case location of L_owner a \<Rightarrow> True | _ \<Rightarrow> False) (add_lists body (ooBodyStoreIdLists options) s1) = Inr ()"
    unfolding and_then_Inr_iff fail_if_Inr_iff by blast
  define s where "s = add_lists body (ooBodyStoreIdLists options) s1"
  note r = rest [unfolded decide_owner_def Let_def, folded s_def, unfolded and_then_Inr_iff fail_if_Inr_iff]
  have kept: "set (osTargets (owner_sources options path request body location)) \<subseteq> set (osTargets s)"
    "set (osProofs s) \<subseteq> set (osTargets s)"
    using body_resources_keep [OF s1] owner_sources_targets(1) by (simp_all add: s_def add_lists_keep)
  show ?thesis
  proof (rule that [OF acct l [unfolded path_def]])
    show "a = accountId" if "location = L_owner a" for a using own that by simp
    show "i \<in> set (osTargets s)" if "nonempty (storeParam (normalizePath declared) request) = Some i" for i
      using owner_sources_targets(2) [of path request i] that kept(1) by (auto simp: path_def)
    show "i \<in> set (osTargets s)" if "location = L_store i" for i
      using owner_sources_targets(3) [OF that] kept(1) by blast
    show "set (osProofs s) \<subseteq> set (osTargets s)" by (rule kept(2))
    show "card (set (osTargets s)) \<le> 1" using r by (auto simp: length_js_set)
    show "osProofs s \<noteq> [] \<or> osListed s \<noteq> [] \<or> location = L_owner accountId"
      using r own by (auto split: resource_location.splits)
    show "\<exists>ids rows. dbStores db ids = Answer rows \<and> (\<exists>row \<in> set rows. srId row = i \<and> srOwnerAccountId row = Some accountId)"
      if i: "i \<in> set (osTargets s @ osListed s)" for i
    proof -
      let ?ids = "js_set (osTargets s @ osListed s)"
      have m: "i \<in> set ?ids" using i by simp
      then have "?ids \<noteq> []" by (metis empty_iff list.set(1))
      then obtain rows where rows: "dbStores db ?ids = Answer rows" "check_owned rows accountId ?ids = Inr ()"
        using r by (auto split: query.splits)
      then show ?thesis using check_owned_ok [OF rows(2) m] by blast
    qed
  qed
qed

text \<open>
  C6. Owner-only routes are reserved to the owner: a request that passes is signed in, and every store it
  can reach through its path or the row it addresses is a store row the database returned with the caller as
  owner; and a resource owned by an account is the caller's own.
\<close>

theorem owner_only_means_owner:
  assumes "store_owner_only_guard db (Some options) declared request = Inr ()"
  shows "\<exists>accountId location. nonempty (rqUserId request) = Some accountId \<and>
    locate db (normalizePath declared) request = Inr location \<and>
    (\<forall>i. nonempty (storeParam (normalizePath declared) request) = Some i \<or> location = L_store i \<longrightarrow>
       (\<exists>ids rows. dbStores db ids = Answer rows \<and> (\<exists>row \<in> set rows. srId row = i \<and> srOwnerAccountId row = Some accountId))) \<and>
    (\<forall>a. location = L_owner a \<longrightarrow> a = accountId)"
proof -
  obtain accountId location and s :: owner_scope where p: "nonempty (rqUserId request) = Some accountId"
    "locate db (normalizePath declared) request = Inr location"
    "\<And>a. location = L_owner a \<Longrightarrow> a = accountId"
    "\<And>i. nonempty (storeParam (normalizePath declared) request) = Some i \<Longrightarrow> i \<in> set (osTargets s)"
    "\<And>i. location = L_store i \<Longrightarrow> i \<in> set (osTargets s)"
    "\<And>i. i \<in> set (osTargets s @ osListed s) \<Longrightarrow>
       \<exists>ids rows. dbStores db ids = Answer rows \<and> (\<exists>row \<in> set rows. srId row = i \<and> srOwnerAccountId row = Some accountId)"
    by (rule owner_only_passes [OF assms]) blast
  show ?thesis
    by (intro exI [of _ accountId] exI [of _ location] conjI allI impI p(1,2)) (use p(3-6) in auto)
qed

text \<open>A store of \<open>o1\<close> with one contract of one employee.\<close>

definition sample_db :: guard_db where
  "sample_db = \<lparr>
     dbRow = (\<lambda>entity i withDeleted.
        if entity = ''EmployeeContract'' \<and> i = ''c1'' then Answer (Some (JObj [(''employeeProfileId'', JStr ''p1'')]))
        else if entity = ''EmployeeProfile'' \<and> i = ''p1'' \<and> withDeleted then Answer (Some (JObj [(''storeId'', JStr ''s1'')]))
        else Answer None),
     dbStore = (\<lambda>i. if i = ''s1'' then Answer (Some \<lparr> srId = ''s1'', srOwnerAccountId = Some ''o1'' \<rparr>) else Answer None),
     dbStores = (\<lambda>ids. Answer (if ''s1'' \<in> set ids then [\<lparr> srId = ''s1'', srOwnerAccountId = Some ''o1'' \<rparr>] else [])),
     dbEmployed = (\<lambda>a s st. Answer (a = ''e1'' \<and> s = ''s1'')) \<rparr>"

definition plain_options :: owner_only_options where
  "plain_options = \<lparr> ooStoreFrom = [], ooBodyResources = [], ooBodyStoreIdLists = [] \<rparr>"

definition contract_request :: "string \<Rightarrow> guard_request" where
  "contract_request account = \<lparr> rqParams = [(''contractId'', JStr ''c1'')], rqQuery = JUndef, rqBody = JUndef, rqUserId = Some account \<rparr>"

lemma contract_passes:
  "store_owner_only_guard sample_db (Some plain_options) (Some ''/employees/contracts/:contractId'') (contract_request ''o1'') = Inr ()"
  by code_simp

theorem owner_only_means_owner_witness:
  "\<exists>ids rows. dbStores sample_db ids = Answer rows \<and> (\<exists>row \<in> set rows. srId row = ''s1'' \<and> srOwnerAccountId row = Some ''o1'')"
proof -
  have "locate sample_db (normalizePath (Some ''/employees/contracts/:contractId'')) (contract_request ''o1'') = Inr (L_store ''s1'')"
    "nonempty (rqUserId (contract_request ''o1'')) = Some ''o1''"
    by code_simp+
  then show ?thesis using owner_only_means_owner [OF contract_passes] by auto
qed

section \<open>Ownership refines membership\<close>

definition same_stores :: "guard_db \<Rightarrow> bool" where
  "same_stores db \<longleftrightarrow> (\<forall>ids rows. dbStores db ids = Answer rows \<longrightarrow> (\<forall>row \<in> set rows. dbStore db (srId row) = Answer (Some row)))"

lemma owner_is_member: "dbStore db i = Answer (Some row) \<Longrightarrow> srOwnerAccountId row = Some a \<Longrightarrow> assertAccess db i a = Inr ()"
  by (simp add: assertAccess_def)

text \<open>
  The two definitions of access agree: when the two store queries read the same table, every request
  the owner-only guard lets through is also let through by the membership guards of the same chain.
\<close>

theorem owner_only_refines_membership:
  assumes "store_owner_only_guard db (Some options) declared request = Inr ()" "same_stores db"
  shows "store_access_guard db declared request = Inr () \<and> store_resource_access_guard db declared request = Inr ()"
proof -
  obtain accountId location and s :: owner_scope where p: "nonempty (rqUserId request) = Some accountId"
    "locate db (normalizePath declared) request = Inr location"
    "\<And>i. nonempty (storeParam (normalizePath declared) request) = Some i \<Longrightarrow> i \<in> set (osTargets s)"
    "\<And>i. location = L_store i \<Longrightarrow> i \<in> set (osTargets s)"
    "\<And>i. i \<in> set (osTargets s @ osListed s) \<Longrightarrow>
       \<exists>ids rows. dbStores db ids = Answer rows \<and> (\<exists>row \<in> set rows. srId row = i \<and> srOwnerAccountId row = Some accountId)"
    by (rule owner_only_passes [OF assms(1)]) blast
  have ok: "assertAccess db i accountId = Inr ()" if i: "i \<in> set (osTargets s)" for i
  proof -
    obtain ids rows row where r: "dbStores db ids = Answer rows" "row \<in> set rows" "srId row = i" "srOwnerAccountId row = Some accountId"
      using p(5) [of i] i by auto
    then have "dbStore db i = Answer (Some row)" using assms(2) by (auto simp: same_stores_def)
    then show ?thesis using r(4) by (rule owner_is_member)
  qed
  have "store_access_guard db declared request = Inr ()"
    using p(1,3) ok by (cases "nonempty (storeParam (normalizePath declared) request)") (simp_all add: store_access_guard_def resolveStoreId_def)
  moreover have "store_resource_access_guard db declared request = Inr ()"
    using p(1,2,4) ok by (cases location) (simp_all add: store_resource_access_guard_def)
  ultimately show ?thesis ..
qed

theorem owner_only_refines_membership_witness:
  "store_resource_access_guard sample_db (Some ''/employees/contracts/:contractId'') (contract_request ''o1'') = Inr ()"
proof -
  have "same_stores sample_db" by (auto simp: same_stores_def sample_db_def split: if_splits)
  from owner_only_refines_membership [OF contract_passes this] show ?thesis by simp
qed

text \<open>
  A store id the handler ignores authorizes nothing: on a marked route whose path and addressed row
  name no store and which declares no other source, no request passes, whatever it puts in its query
  or body.
\<close>

theorem ignored_store_id_authorizes_nothing:
  assumes "storeParam (normalizePath declared) request = None" "locate db (normalizePath declared) request = Inr Unmapped"
  shows "store_owner_only_guard db (Some plain_options) declared request \<noteq> Inr ()"
proof
  assume "store_owner_only_guard db (Some plain_options) declared request = Inr ()"
  then obtain accountId s where "nonempty (rqUserId request) = Some accountId"
    and d: "decide_owner db accountId False s = Inr ()" and e: "osProofs s = []" "osListed s = []"
    using assms
    by (auto simp: store_owner_only_guard_def plain_options_def and_then_Inr_iff Let_def owner_sources_def add_lists_def
        nonempty_def collect_def split: option.splits)
  show False using d e by (simp add: decide_owner_def Let_def and_then_Inr_iff)
qed

theorem ignored_store_id_authorizes_nothing_witness:
  "store_owner_only_guard sample_db (Some plain_options) (Some ''employees/manual'')
     \<lparr> rqParams = [], rqQuery = JObj [(''storeId'', JStr ''s1'')], rqBody = JUndef, rqUserId = Some ''o1'' \<rparr> \<noteq> Inr ()"
  by (rule ignored_store_id_authorizes_nothing) code_simp+

section \<open>Addressed resources\<close>

text \<open>The parameter of a route that names a resource, and the table its row is in: the special routes first, then the family its
  first segment names, by its first parameter.\<close>

definition addressed :: "string \<Rightarrow> jsval \<Rightarrow> (string \<times> resource_scope) option" where
  "addressed path body =
     (case find (rule_matches (segments_of path)) ROUTE_RULES of
        Some (pattern, param, scope) \<Rightarrow> map_option (Pair param) (scope body)
      | None \<Rightarrow>
          (case (map_of RESOURCE_SCOPES (hd (segments_of path)), find is_param (segments_of path)) of
             (Some scope, Some segment) \<Rightarrow> Some (drop 1 segment, scope)
           | _ \<Rightarrow> None))"

lemma families_are_words: "map_of RESOURCE_SCOPES family = Some scope \<Longrightarrow> family \<noteq> [] \<and> \<not> is_param family"
proof -
  have "list_all (\<lambda>p. fst p \<noteq> [] \<and> \<not> is_param (fst p)) RESOURCE_SCOPES"
    by (simp add: RESOURCE_SCOPES_def is_param_def starts_with_def)
  then show "map_of RESOURCE_SCOPES family = Some scope \<Longrightarrow> family \<noteq> [] \<and> \<not> is_param family"
    by (force simp: list_all_iff dest: map_of_SomeD)
qed

lemma locate_addressed:
  assumes "addressed path (rqBody request) = Some (param, scope)" "path \<noteq> []"
  shows "locate db (Some path) request = locateParam db scope (param_value request param)"
proof -
  have ne: "nonempty (Some path) = Some path" using assms(2) by (simp add: nonempty_def)
  show ?thesis
  proof (cases "find (rule_matches (segments_of path)) ROUTE_RULES")
    case (Some rule)
    then show ?thesis using assms(1) by (cases rule) (auto simp: addressed_def locate_def ne Let_def)
  next
    case None
    then obtain segment where f: "map_of RESOURCE_SCOPES (hd (segments_of path)) = Some scope" "find is_param (segments_of path) = Some segment"
        "param = drop 1 segment"
      using assms(1) by (auto simp: addressed_def split: option.splits)
    then show ?thesis using families_are_words [OF f(1)] None by (simp add: locate_def ne Let_def)
  qed
qed

text \<open>Only a scope that names an owner field leads to an account instead of a store.\<close>

fun store_scope :: "resource_scope \<Rightarrow> bool" where
  "store_scope (Scope e sf ow d via fb) \<longleftrightarrow> ow = None \<and>
     (case via of Some (field, hop) \<Rightarrow> store_scope hop | None \<Rightarrow> True) \<and> (case fb of Some f \<Rightarrow> store_scope f | None \<Rightarrow> True)"

lemma walk_store_scope: "store_scope sc \<Longrightarrow> walk_via db sc i = Some (c, j) \<Longrightarrow> sc_owner_field c = None"
  by (induction db sc i rule: walk_via.induct) (auto split: option.splits)

lemma plain_store_scope: "store_scope sc \<Longrightarrow> resolve_plain db sc i = Some l \<Longrightarrow> \<exists>s. l = L_store s"
  using walk_store_scope [of sc db i] by (auto simp: resolve_plain_def split: option.splits)

lemma resolve_store_scope: "store_scope sc \<Longrightarrow> resolve db sc i = Some l \<Longrightarrow> \<exists>s. l = L_store s"
proof (induction db sc i rule: resolve.induct)
  case (1 db e sf ow d v i)
  then show ?case using plain_store_scope [of "Scope e sf ow d v None" db i l] by simp
next
  case (2 db e sf ow d v fb i)
  then show ?case using plain_store_scope [of "Scope e sf ow d v None" db i l] by (auto split: option.splits)
qed

lemma families_are_store_scopes: "map_of RESOURCE_SCOPES family = Some sc \<Longrightarrow> store_scope sc"
proof -
  have "list_all (\<lambda>p. store_scope (snd p)) RESOURCE_SCOPES"
    by (simp add: RESOURCE_SCOPES_def PROFILE_HOP_def)
  then show "map_of RESOURCE_SCOPES family = Some sc \<Longrightarrow> store_scope sc"
    by (force simp: list_all_iff dest: map_of_SomeD)
qed

lemma rules_are_store_scopes:
  "(pattern, param, scope) \<in> set ROUTE_RULES \<Longrightarrow> scope body = Some sc \<Longrightarrow> pattern = ''salary-configs/:configId'' \<or> store_scope sc"
  by (auto simp: ROUTE_RULES_def approval_scope_def Let_def PROFILE_HOP_def ASSIGNMENT_TO_STORE_def split: if_splits)

lemma addressed_store_scope:
  assumes "addressed path body = Some (param, scope)"
  shows "store_scope scope \<or> take 2 (segments_of path) = [''salary-configs'', '':configId'']"
proof (cases "find (rule_matches (segments_of path)) ROUTE_RULES")
  case (Some rule)
  obtain pattern f where rule: "rule = (pattern, param, f)" "f body = Some scope"
    using assms Some by (cases rule) (auto simp: addressed_def)
  have "segments_of ''salary-configs/:configId'' = [''salary-configs'', '':configId'']" by code_simp
  then show ?thesis
    using rules_are_store_scopes [of pattern param f body scope] find_Some_in [OF Some] rule
    by (auto simp: rule_matches_def numeral_2_eq_2)
next
  case None
  then show ?thesis using assms families_are_store_scopes by (auto simp: addressed_def split: option.splits)
qed

lemma resolve_mapped: "resolve db sc i \<noteq> Some Unmapped"
  by (induction db sc i rule: resolve.induct) (auto simp: resolve_plain_def split: option.splits)

lemma assertAccess_ok:
  "assertAccess db s a = Inr () \<longleftrightarrow> (\<exists>store. dbStore db s = Answer (Some store) \<and>
     (srOwnerAccountId store = Some a \<or> dbEmployed db a s EMPLOYED_STATUSES = Answer True))"
  by (auto simp: assertAccess_def split: query.splits option.splits if_splits bool.splits)

text \<open>
  C24. A route that addresses a mapped resource fails closed: a request with an id passes the membership guard only when it is
  signed in and the row leads, through its foreign keys, to a store that exists and that the caller owns or currently works at
  (active, on probation or on leave; never a pending applicant). The only exception is a salary configuration, which belongs to an
  account and not to a store: there any signed-in account passes this guard, and only the owner-only guard asks whose it is (C6).
\<close>

theorem addressed_resource_needs_membership:
  assumes "normalizePath declared = Some path" "path \<noteq> []" "addressed path (rqBody request) = Some (param, scope)"
    and "param_value request param = JStr i" "i \<noteq> []"
    and "store_resource_access_guard db declared request = Inr ()"
  shows "\<exists>a. nonempty (rqUserId request) = Some a \<and>
    ((\<exists>s store. resolve db scope i = Some (L_store s) \<and> dbStore db s = Answer (Some store) \<and>
        (srOwnerAccountId store = Some a \<or> dbEmployed db a s [ES_ACTIVE, ES_PROBATION, ES_ON_LEAVE] = Answer True)) \<or>
     (\<exists>b. resolve db scope i = Some (L_owner b) \<and> take 2 (segments_of path) = [''salary-configs'', '':configId'']))"
proof -
  have "locate db (Some path) request = or_not_found (resolve db scope i)"
    using locate_addressed [OF assms(3,2)] assms(4,5) by (simp add: locateParam_def)
  then obtain l where l: "resolve db scope i = Some l" "locate db (Some path) request = Inr l"
    using assms(1,6) by (auto simp: store_resource_access_guard_def and_then_Inr_iff or_not_found_def split: option.splits)
  show ?thesis
  proof (cases l)
    case Unmapped
    then show ?thesis using l(1) resolve_mapped by blast
  next
    case (L_owner b)
    then have "take 2 (segments_of path) = [''salary-configs'', '':configId'']"
      using addressed_store_scope [OF assms(3)] resolve_store_scope [OF _ l(1)] by blast
    moreover obtain a where "nonempty (rqUserId request) = Some a"
      using assms(1,6) l(2) L_owner by (auto simp: store_resource_access_guard_def split: if_splits)
    ultimately show ?thesis using l(1) L_owner by blast
  next
    case (L_store s)
    then obtain a where "nonempty (rqUserId request) = Some a" "assertAccess db s a = Inr ()"
      using assms(1,6) l(2) by (auto simp: store_resource_access_guard_def split: option.splits)
    then show ?thesis using l(1) L_store by (auto simp: assertAccess_ok EMPLOYED_STATUSES_def)
  qed
qed

text \<open>An employee of the store may read the contract.\<close>

theorem addressed_resource_needs_membership_witness:
  "store_resource_access_guard sample_db (Some ''employees/contracts/:contractId'') (contract_request ''e1'') = Inr () \<and>
   (\<exists>store. dbStore sample_db ''s1'' = Answer (Some store) \<and>
      (srOwnerAccountId store = Some ''e1'' \<or> dbEmployed sample_db ''e1'' ''s1'' [ES_ACTIVE, ES_PROBATION, ES_ON_LEAVE] = Answer True))"
proof -
  let ?r = "contract_request ''e1''" and ?p = "''employees/contracts/:contractId''"
  have f: "normalizePath (Some ?p) = Some ?p" "addressed ?p (rqBody ?r) = Some (''contractId'', table_via ''EmployeeContract'' PROFILE_HOP)"
    "param_value ?r ''contractId'' = JStr ''c1''" "store_resource_access_guard sample_db (Some ?p) ?r = Inr ()"
    "resolve sample_db (table_via ''EmployeeContract'' PROFILE_HOP) ''c1'' = Some (L_store ''s1'')" "nonempty (rqUserId ?r) = Some ''e1''"
    by code_simp+
  show ?thesis using addressed_resource_needs_membership [OF f(1) _ f(2,3) _ f(4)] f(4-6) by auto
qed

text \<open>The membership guard alone lets any account to any salary configuration.\<close>

lemma salary_configuration_passes_membership:
  assumes "dbRow db ''SalaryConfig'' i False = Answer (Some row)" "js_get row ''ownerAccountId'' = JStr b" "b \<noteq> []" "i \<noteq> []" "a \<noteq> []"
    and "rqParams request = [(''configId'', JStr i)]" "rqUserId request = Some a"
  shows "store_resource_access_guard db (Some ''salary-configs/:configId'') request = Inr ()"
proof -
  let ?p = "''salary-configs/:configId''" and ?sc = "Scope ''SalaryConfig'' None (Some ''ownerAccountId'') False None None"
  have p: "normalizePath (Some ?p) = Some ?p" by code_simp
  have "find (rule_matches (segments_of ?p)) ROUTE_RULES = Some (ROUTE_RULES ! 3)"
    by (simp add: ROUTE_RULES_def rule_matches_def segments_of_def)
  then have "addressed ?p (rqBody request) = Some (''configId'', ?sc)" by (simp add: addressed_def ROUTE_RULES_def)
  then have "locate db (Some ?p) request = locateParam db ?sc (JStr i)"
    using locate_addressed [of ?p request "''configId''" ?sc db] assms(6) by (simp add: param_value_def map_get_or_def)
  moreover have "resolve db ?sc i = Some (L_owner b)"
    using assms(1-3) by (simp add: resolve_plain_def readField_def nonempty_def)
  ultimately show ?thesis
    using assms(4,5,7) p by (simp add: store_resource_access_guard_def locateParam_def or_not_found_def nonempty_def)
qed

end
