(* ===== verification/CronLock.thy ===== *)
theory CronLock
  imports JsBase JsMap "HOL-Library.Word"
begin

text \<open>
  \<open>src/modules/stores/distributed-lock.service.ts\<close>: one run of a cron job at a time across server
  instances, by a PostgreSQL advisory lock on a hash of the job's name. The database's advisory locks
  are a parameter (\<open>lock_ops\<close>) of which \<open>advisory_ok\<close> states the documented behaviour: a lock belongs to a
  session, only one session holds a key, a session may take it again and must give it back as often, and
  the database frees what a session holds when the session ends.
  A query runs on some session of the instance's connection pool, and a session may end at any moment. The
  system is a step relation that interleaves the awaits of any number of runs with the ends of sessions; the
  invariants say what the lock does guarantee, and reachable states show what it does not.
\<close>

section \<open>The key of a job\<close>

text \<open>\<open>hash & hash\<close>: the signed 32-bit value of an integer.\<close>

definition to_int32 :: "int \<Rightarrow> int" where
  "to_int32 x = (x + 2147483648) mod 4294967296 - 2147483648"

definition hash_step :: "int \<Rightarrow> char \<Rightarrow> int" where
  "hash_step hash c = to_int32 (to_int32 (hash * 32) - hash + int (of_char c))"

definition hashLockName :: "string \<Rightarrow> int" where
  "hashLockName name = \<bar>foldl hash_step 0 name\<bar>"

text \<open>The jobs of \<open>stores-cron.service.ts\<close>.\<close>

definition cron_jobs :: "string list" where
  "cron_jobs = [''cron:redact-stale-job-applications'', ''cron:evaluate-career-eligibility'', ''cron:career-review-reminder'',
     ''cron:backfill-default-shift-reminders'', ''cron:reconcile-shift-end-workflows'', ''cron:create-daily-reports'',
     ''cron:create-monthly-payrolls'', ''cron:create-monthly-employee-summaries'', ''cron:process-expired-work-cycles'',
     ''cron:generate-daily-slots'', ''cron:generate-slots-indefinite-cycles'', ''cron:detect-attendance-issues'']"

section \<open>State\<close>

text \<open>A session is a connection of an instance's pool.\<close>

type_synonym session = "nat \<times> nat"

record 'd lock_ops =
  tryLock :: "session \<Rightarrow> int \<Rightarrow> 'd \<Rightarrow> bool \<times> 'd"
  unlock :: "session \<Rightarrow> int \<Rightarrow> 'd \<Rightarrow> 'd"
  endSession :: "session \<Rightarrow> 'd \<Rightarrow> 'd"
  holds :: "'d \<Rightarrow> int \<Rightarrow> session \<Rightarrow> nat"

definition advisory_ok :: "'d lock_ops \<Rightarrow> bool" where
  "advisory_ok ops \<longleftrightarrow>
     (\<forall>s k d. fst (tryLock ops s k d) \<longleftrightarrow> (\<forall>s'. s' \<noteq> s \<longrightarrow> holds ops d k s' = 0)) \<and>
     (\<forall>s k d k' s'. holds ops (snd (tryLock ops s k d)) k' s' =
        holds ops d k' s' + (if fst (tryLock ops s k d) \<and> k' = k \<and> s' = s then 1 else 0)) \<and>
     (\<forall>s k d k' s'. holds ops (unlock ops s k d) k' s' = holds ops d k' s' - (if k' = k \<and> s' = s then 1 else 0)) \<and>
     (\<forall>s d k' s'. holds ops (endSession ops s d) k' s' = (if s' = s then 0 else holds ops d k' s'))"

record cron_lock =
  clInstanceId :: string
  clAcquiredAt :: int
  clExpiresAt :: int

text \<open>Where a run of \<open>withLock\<close> stands between its awaits; \<open>Held\<close> has the advisory lock but has not
  written the tracking row yet. \<open>lrLost\<close> and \<open>lsEnded\<close> are history: whether the run's session ended while the run
  had the lock, and the sessions that have ended.\<close>

datatype run_state = Waiting | Held | Working | Releasing | Finished | Skipped

record lock_run =
  lrJob :: string
  lrInstance :: nat
  lrState :: run_state
  lrSession :: session
  lrLost :: bool

record 'd lock_system =
  lsDb :: 'd
  lsTable :: "(string, cron_lock) jsmap"
  lsRuns :: "lock_run list"
  lsEnded :: "session list"

section \<open>Steps\<close>

definition has_lock :: "lock_run \<Rightarrow> bool" where
  "has_lock run \<longleftrightarrow> lrState run \<in> {Held, Working, Releasing}"

definition run_key :: "lock_run \<Rightarrow> int" where
  "run_key run = hashLockName (lrJob run)"

definition set_run :: "nat \<Rightarrow> lock_run \<Rightarrow> 'd lock_system \<Rightarrow> 'd lock_system" where
  "set_run r run sys = sys\<lparr>lsRuns := (lsRuns sys)[r := run]\<rparr>"

definition lock_row :: "string \<Rightarrow> int \<Rightarrow> int \<Rightarrow> cron_lock" where
  "lock_row i now ttlSeconds = \<lparr> clInstanceId = i, clAcquiredAt = now, clExpiresAt = now + ttlSeconds * 1000 \<rparr>"

text \<open>\<open>acquireLock\<close>: the advisory lock on some pooled session, then the tracking row under a fresh
  instance id. A query that fails is logged and the lock is not granted.\<close>

definition try_acquire :: "'d lock_ops \<Rightarrow> session \<Rightarrow> nat \<Rightarrow> 'd lock_system \<Rightarrow> 'd lock_system" where
  "try_acquire ops s r sys =
     (let run = lsRuns sys ! r; res = tryLock ops s (hashLockName (lrJob run)) (lsDb sys)
      in set_run r (run\<lparr>lrState := (if fst res then Held else Skipped), lrSession := s\<rparr>) (sys\<lparr>lsDb := snd res\<rparr>))"

definition acquire_fails :: "nat \<Rightarrow> 'd lock_system \<Rightarrow> 'd lock_system" where
  "acquire_fails r sys = set_run r ((lsRuns sys ! r)\<lparr>lrState := Skipped\<rparr>) sys"

definition track :: "nat \<Rightarrow> string \<Rightarrow> int \<Rightarrow> int \<Rightarrow> 'd lock_system \<Rightarrow> 'd lock_system" where
  "track r instanceId now ttl sys =
     (let run = lsRuns sys ! r
      in set_run r (run\<lparr>lrState := Working\<rparr>) (sys\<lparr>lsTable := map_set (lsTable sys) (lrJob run) (lock_row instanceId now ttl)\<rparr>))"

text \<open>The job returned or threw; \<open>withLock\<close> releases either way.\<close>

definition job_ends :: "nat \<Rightarrow> 'd lock_system \<Rightarrow> 'd lock_system" where
  "job_ends r sys = set_run r ((lsRuns sys ! r)\<lparr>lrState := Releasing\<rparr>) sys"

text \<open>\<open>releaseLock\<close>: unlock on some pooled session, then delete the tracking row (\<open>untracked\<close>) unless
  that transaction fails; when the unlock itself fails nothing more is done.\<close>

definition release :: "'d lock_ops \<Rightarrow> session \<Rightarrow> nat \<Rightarrow> bool \<Rightarrow> 'd lock_system \<Rightarrow> 'd lock_system" where
  "release ops s r untracked sys =
     (let run = lsRuns sys ! r
      in set_run r (run\<lparr>lrState := Finished\<rparr>)
           (sys\<lparr>lsDb := unlock ops s (hashLockName (lrJob run)) (lsDb sys),
                lsTable := (if untracked then map_delete (lsTable sys) (lrJob run) else lsTable sys)\<rparr>))"

definition unlock_fails :: "nat \<Rightarrow> 'd lock_system \<Rightarrow> 'd lock_system" where
  "unlock_fails r sys = set_run r ((lsRuns sys ! r)\<lparr>lrState := Finished\<rparr>) sys"

text \<open>A session ends (its connection is closed by the pool, by the server or by the network): the database frees the
  locks it holds; the program does not notice.\<close>

definition lose_session :: "session \<Rightarrow> lock_run \<Rightarrow> lock_run" where
  "lose_session s run = (if has_lock run \<and> lrSession run = s then run\<lparr>lrLost := True\<rparr> else run)"

definition end_session :: "'d lock_ops \<Rightarrow> session \<Rightarrow> 'd lock_system \<Rightarrow> 'd lock_system" where
  "end_session ops s sys =
     sys\<lparr>lsDb := endSession ops s (lsDb sys), lsRuns := map (lose_session s) (lsRuns sys), lsEnded := s # lsEnded sys\<rparr>"

text \<open>The delete matches the rows whose expiry is equal to the current instant.\<close>

definition cleanupExpiredLocks :: "int \<Rightarrow> (string, cron_lock) jsmap \<Rightarrow> (string, cron_lock) jsmap" where
  "cleanupExpiredLocks now rows = filter (\<lambda>p. clExpiresAt (snd p) \<noteq> now) rows"

abbreviation run_at :: "'d lock_system \<Rightarrow> nat \<Rightarrow> run_state \<Rightarrow> bool" where
  "run_at sys r st \<equiv> r < length (lsRuns sys) \<and> lrState (lsRuns sys ! r) = st"

inductive lock_step :: "'d lock_ops \<Rightarrow> 'd lock_system \<Rightarrow> 'd lock_system \<Rightarrow> bool" for ops :: "'d lock_ops" where
  acquire: "run_at sys r Waiting \<Longrightarrow> fst s = lrInstance (lsRuns sys ! r) \<Longrightarrow> lock_step ops sys (try_acquire ops s r sys)"
| not_acquired: "run_at sys r Waiting \<Longrightarrow> lock_step ops sys (acquire_fails r sys)"
| tracked: "run_at sys r Held \<Longrightarrow> lock_step ops sys (track r instanceId now ttl sys)"
| not_tracked: "run_at sys r Held \<Longrightarrow> lock_step ops sys (acquire_fails r sys)"
| ended: "run_at sys r Working \<Longrightarrow> lock_step ops sys (job_ends r sys)"
| released: "run_at sys r Releasing \<Longrightarrow> fst s = lrInstance (lsRuns sys ! r) \<Longrightarrow> lock_step ops sys (release ops s r untracked sys)"
| not_released: "run_at sys r Releasing \<Longrightarrow> lock_step ops sys (unlock_fails r sys)"
| session_ended: "lock_step ops sys (end_session ops s sys)"
| cleaned: "lock_step ops sys (sys\<lparr>lsTable := cleanupExpiredLocks now (lsTable sys)\<rparr>)"

definition initial :: "'d lock_ops \<Rightarrow> 'd lock_system \<Rightarrow> bool" where
  "initial ops sys \<longleftrightarrow> (\<forall>k s. holds ops (lsDb sys) k s = 0) \<and> (\<forall>run \<in> set (lsRuns sys). lrState run = Waiting \<and> \<not> lrLost run)"

inductive reachable :: "'d lock_ops \<Rightarrow> 'd lock_system \<Rightarrow> bool" for ops :: "'d lock_ops" where
  start: "initial ops sys \<Longrightarrow> reachable ops sys"
| next_step: "reachable ops sys \<Longrightarrow> lock_step ops sys sys' \<Longrightarrow> reachable ops sys'"

section \<open>The hash\<close>

lemma to_int32_word: "to_int32 x = sint (word_of_int x :: 32 word)"
  by (simp add: to_int32_def sint_sbintrunc' signed_take_bit_eq_take_bit_shift take_bit_eq_mod)

lemma to_int32_sint: "to_int32 (sint (w :: 32 word)) = sint w"
  by (simp add: to_int32_word)

text \<open>The loop is the polynomial hash of the name in 32-bit arithmetic.\<close>

lemma hash_step_word: "hash_step (sint w) c = sint (31 * w + word_of_int (int (of_char c)) :: 32 word)"
proof -
  have "word_of_int (to_int32 (sint w * 32) - sint w + int (of_char c)) = (31 * w + word_of_int (int (of_char c)) :: 32 word)"
    by (simp add: to_int32_word)
  then show ?thesis by (simp add: hash_step_def to_int32_word)
qed

lemma hash_loop_word:
  "foldl hash_step (sint w) name = sint (foldl (\<lambda>w c. 31 * w + word_of_int (int (of_char c)) :: 32 word) w name)"
  by (induction name arbitrary: w) (simp_all add: hash_step_word)

text \<open>\<open>Math.abs\<close> makes every key a nonnegative number at most \<open>2\<^sup>31\<close>, which PostgreSQL's \<open>bigint\<close> key holds, and
  the shift-and-subtract loop with its 32-bit wrap-around is the polynomial hash modulo \<open>2\<^sup>32\<close>.\<close>

theorem lock_key_is_the_wrapped_hash:
  "hashLockName name = \<bar>sint (foldl (\<lambda>w c. 31 * w + word_of_int (int (of_char c)) :: 32 word) 0 name)\<bar> \<and>
   0 \<le> hashLockName name \<and> hashLockName name \<le> 2 ^ 31"
proof -
  let ?w = "foldl (\<lambda>w c. 31 * w + word_of_int (int (of_char c)) :: 32 word) 0 name"
  have "foldl hash_step 0 name = sint ?w" using hash_loop_word [of 0 name] by simp
  moreover have "- (2 ^ 31) \<le> sint ?w" "sint ?w < 2 ^ 31"
    using sint_greater_eq [of ?w] sint_lt [of ?w] by simp_all
  ultimately show ?thesis by (simp add: hashLockName_def)
qed

section \<open>What the lock guarantees\<close>

lemma length_filter_update:
  "i < length xs \<Longrightarrow> length (filter P (xs[i := y])) + (if P (xs ! i) then 1 else 0) = length (filter P xs) + (if P y then 1 else 0)"
proof (induction xs arbitrary: i)
  case Nil
  then show ?case by simp
next
  case (Cons x xs)
  then show ?case by (cases i) (simp_all split: if_splits)
qed

definition runs_holding :: "int \<Rightarrow> lock_run list \<Rightarrow> nat" where
  "runs_holding k runs = length (filter (\<lambda>run. has_lock run \<and> run_key run = k) runs)"

text \<open>Session \<open>\<sigma>\<close> is the only one that holds key \<open>k\<close>, once for every run that works under it and at least \<open>n\<close> times more.\<close>

definition owns_key :: "'d lock_ops \<Rightarrow> nat \<Rightarrow> 'd lock_system \<Rightarrow> int \<Rightarrow> session \<Rightarrow> bool" where
  "owns_key ops n sys k \<sigma> \<longleftrightarrow>
     (\<forall>\<sigma>'. \<sigma>' \<noteq> \<sigma> \<longrightarrow> holds ops (lsDb sys) k \<sigma>' = 0) \<and>
     (\<forall>run \<in> set (lsRuns sys). has_lock run \<and> run_key run = k \<longrightarrow> lrSession run = \<sigma> \<and> fst \<sigma> = lrInstance run) \<and>
     runs_holding k (lsRuns sys) + n \<le> holds ops (lsDb sys) k \<sigma>"

text \<open>Some run of the key was deprived of its lock by the end of its session.\<close>

definition lost_key :: "'d lock_system \<Rightarrow> int \<Rightarrow> bool" where
  "lost_key sys k \<longleftrightarrow> (\<exists>run \<in> set (lsRuns sys). run_key run = k \<and> lrLost run)"

definition lock_inv :: "'d lock_ops \<Rightarrow> 'd lock_system \<Rightarrow> bool" where
  "lock_inv ops sys \<longleftrightarrow> (\<forall>k. lost_key sys k \<or> (\<exists>\<sigma>. owns_key ops 0 sys k \<sigma>))"

lemma runs_holding_update:
  "r < length runs \<Longrightarrow>
     runs_holding k (runs[r := run]) + (if has_lock (runs ! r) \<and> run_key (runs ! r) = k then 1 else 0) =
     runs_holding k runs + (if has_lock run \<and> run_key run = k then 1 else 0)"
  unfolding runs_holding_def by (rule length_filter_update [where P = "\<lambda>run. has_lock run \<and> run_key run = k"])

lemma runs_holding_pos: "run \<in> set runs \<Longrightarrow> has_lock run \<Longrightarrow> 0 < runs_holding (run_key run) runs"
  unfolding runs_holding_def by (induction runs) auto

text \<open>Every step replaces one run. It keeps the owner when the lock count of the run moves with the database's.\<close>

lemma owns_key_set_run:
  assumes own: "owns_key ops n sys k \<sigma>" and r: "r < length (lsRuns sys)"
    and runs: "lsRuns sys' = (lsRuns sys)[r := run]"
    and others: "\<And>\<sigma>'. \<sigma>' \<noteq> \<sigma> \<Longrightarrow> holds ops (lsDb sys') k \<sigma>' = 0"
    and new: "has_lock run \<Longrightarrow> run_key run = k \<Longrightarrow> lrSession run = \<sigma> \<and> fst \<sigma> = lrInstance run"
    and num: "holds ops (lsDb sys) k \<sigma> + (if has_lock run \<and> run_key run = k then 1 else 0)
      \<le> holds ops (lsDb sys') k \<sigma> + (if has_lock (lsRuns sys ! r) \<and> run_key (lsRuns sys ! r) = k then 1 else 0)"
  shows "owns_key ops n sys' k \<sigma>"
proof -
  have "runs_holding k (lsRuns sys') + n \<le> holds ops (lsDb sys') k \<sigma>"
    using runs_holding_update [OF r, of k run] num own unfolding owns_key_def runs by linarith
  moreover have "lrSession x = \<sigma> \<and> fst \<sigma> = lrInstance x" if "x \<in> set (lsRuns sys')" "has_lock x \<and> run_key x = k" for x
  proof (cases "x = run")
    case True
    then show ?thesis using new that by simp
  next
    case False
    then have "x \<in> set (lsRuns sys)" using that(1) set_update_subset_insert [of "lsRuns sys" r run] runs by auto
    then show ?thesis using own that(2) unfolding owns_key_def by blast
  qed
  ultimately show ?thesis using others unfolding owns_key_def by blast
qed

lemma owns_key_elsewhere: "owns_key ops n sys k \<sigma> \<Longrightarrow> \<sigma>' \<noteq> \<sigma> \<Longrightarrow> holds ops (lsDb sys) k \<sigma>' = 0"
  unfolding owns_key_def by blast

lemma owns_key_cong: "lsRuns sys' = lsRuns sys \<Longrightarrow> lsDb sys' = lsDb sys \<Longrightarrow> owns_key ops n sys' k \<sigma> = owns_key ops n sys k \<sigma>"
  by (simp add: owns_key_def)

lemma owns_key_quiet:
  assumes "owns_key ops n sys k \<sigma>" "r < length (lsRuns sys)" "lsRuns sys' = (lsRuns sys)[r := run]" "lsDb sys' = lsDb sys"
    "has_lock run \<Longrightarrow> has_lock (lsRuns sys ! r) \<and> run_key (lsRuns sys ! r) = run_key run \<and>
       lrSession (lsRuns sys ! r) = lrSession run \<and> lrInstance (lsRuns sys ! r) = lrInstance run"
  shows "owns_key ops n sys' k \<sigma>"
  using assms(1-3)
proof (rule owns_key_set_run)
  show "\<sigma>' \<noteq> \<sigma> \<Longrightarrow> holds ops (lsDb sys') k \<sigma>' = 0" for \<sigma>' using assms(1,4) unfolding owns_key_def by metis
  show "has_lock run \<Longrightarrow> run_key run = k \<Longrightarrow> lrSession run = \<sigma> \<and> fst \<sigma> = lrInstance run"
    using assms(1,5) nth_mem [OF assms(2)] unfolding owns_key_def by metis
  show "holds ops (lsDb sys) k \<sigma> + (if has_lock run \<and> run_key run = k then 1 else 0)
      \<le> holds ops (lsDb sys') k \<sigma> + (if has_lock (lsRuns sys ! r) \<and> run_key (lsRuns sys ! r) = k then 1 else 0)"
    using assms(4,5) by auto
qed

lemma advisory_grant: "advisory_ok ops \<Longrightarrow> fst (tryLock ops s k d) \<longleftrightarrow> (\<forall>s'. s' \<noteq> s \<longrightarrow> holds ops d k s' = 0)"
  unfolding advisory_ok_def by blast

lemma advisory_taken: "advisory_ok ops \<Longrightarrow> holds ops (snd (tryLock ops s k d)) k' s' =
    holds ops d k' s' + (if fst (tryLock ops s k d) \<and> k' = k \<and> s' = s then 1 else 0)"
  unfolding advisory_ok_def by blast

lemma advisory_given: "advisory_ok ops \<Longrightarrow> holds ops (unlock ops s k d) k' s' = holds ops d k' s' - (if k' = k \<and> s' = s then 1 else 0)"
  unfolding advisory_ok_def by blast

lemmas run_simps = has_lock_def run_key_def set_run_def

text \<open>The fields after each step.\<close>

lemma try_acquire_runs: "lsRuns (try_acquire ops s r sys) = (lsRuns sys)[r := (lsRuns sys ! r)\<lparr>lrState :=
    (if fst (tryLock ops s (run_key (lsRuns sys ! r)) (lsDb sys)) then Held else Skipped), lrSession := s\<rparr>]"
  and try_acquire_db: "lsDb (try_acquire ops s r sys) = snd (tryLock ops s (run_key (lsRuns sys ! r)) (lsDb sys))"
  and acquire_fails_runs: "lsRuns (acquire_fails r sys) = (lsRuns sys)[r := (lsRuns sys ! r)\<lparr>lrState := Skipped\<rparr>]"
  and acquire_fails_db: "lsDb (acquire_fails r sys) = lsDb sys"
  and track_runs: "lsRuns (track r instanceId now ttl sys) = (lsRuns sys)[r := (lsRuns sys ! r)\<lparr>lrState := Working\<rparr>]"
  and track_db: "lsDb (track r instanceId now ttl sys) = lsDb sys"
  and job_ends_runs: "lsRuns (job_ends r sys) = (lsRuns sys)[r := (lsRuns sys ! r)\<lparr>lrState := Releasing\<rparr>]"
  and job_ends_db: "lsDb (job_ends r sys) = lsDb sys"
  and release_runs: "lsRuns (release ops s r untracked sys) = (lsRuns sys)[r := (lsRuns sys ! r)\<lparr>lrState := Finished\<rparr>]"
  and release_db: "lsDb (release ops s r untracked sys) = unlock ops s (run_key (lsRuns sys ! r)) (lsDb sys)"
  and unlock_fails_runs: "lsRuns (unlock_fails r sys) = (lsRuns sys)[r := (lsRuns sys ! r)\<lparr>lrState := Finished\<rparr>]"
  and unlock_fails_db: "lsDb (unlock_fails r sys) = lsDb sys"
  by (simp_all add: try_acquire_def acquire_fails_def track_def job_ends_def release_def unlock_fails_def set_run_def run_key_def Let_def)

lemmas after_step = try_acquire_runs try_acquire_db acquire_fails_runs acquire_fails_db track_runs track_db
  job_ends_runs job_ends_db release_runs release_db unlock_fails_runs unlock_fails_db

text \<open>What a run keeps when a session ends.\<close>

lemma lose_session_keeps: "has_lock (lose_session s run) = has_lock run" "run_key (lose_session s run) = run_key run"
  "lrSession (lose_session s run) = lrSession run" "lrInstance (lose_session s run) = lrInstance run"
  "lrState (lose_session s run) = lrState run" "lrJob (lose_session s run) = lrJob run"
  by (simp_all add: lose_session_def has_lock_def run_key_def)

lemma end_session_runs: "lsRuns (end_session ops s sys) = map (lose_session s) (lsRuns sys)"
  and end_session_db: "lsDb (end_session ops s sys) = endSession ops s (lsDb sys)"
  and end_session_ended: "lsEnded (end_session ops s sys) = s # lsEnded sys"
  by (simp_all add: end_session_def)

lemma advisory_ended: "advisory_ok ops \<Longrightarrow> holds ops (endSession ops s d) k s' = (if s' = s then 0 else holds ops d k s')"
  unfolding advisory_ok_def by blast

lemma runs_holding_lose: "runs_holding k (map (lose_session s) runs) = runs_holding k runs"
  by (induction runs) (simp_all add: runs_holding_def lose_session_keeps)

lemma runs_holding_none: "(\<And>run. run \<in> set runs \<Longrightarrow> run_key run = k \<Longrightarrow> \<not> has_lock run) \<Longrightarrow> runs_holding k runs = 0"
  by (auto simp: runs_holding_def filter_empty_conv)

lemma owns_key_release:
  assumes ok: "advisory_ok ops" and own: "owns_key ops n sys k \<sigma>" and r: "run_at sys r Releasing"
  shows "owns_key ops n (release ops s r untracked sys) k \<sigma>"
proof (rule owns_key_set_run [OF own conjunct1 [OF r] release_runs])
  let ?run = "(lsRuns sys ! r)\<lparr>lrState := Finished\<rparr>"
  show "holds ops (lsDb (release ops s r untracked sys)) k \<sigma>' = 0" if "\<sigma>' \<noteq> \<sigma>" for \<sigma>'
    by (simp add: release_db advisory_given [OF ok] owns_key_elsewhere [OF own that])
  show "has_lock ?run \<Longrightarrow> run_key ?run = k \<Longrightarrow> lrSession ?run = \<sigma> \<and> fst \<sigma> = lrInstance ?run"
    by (simp add: has_lock_def)
  show "holds ops (lsDb sys) k \<sigma> + (if has_lock ?run \<and> run_key ?run = k then 1 else 0)
      \<le> holds ops (lsDb (release ops s r untracked sys)) k \<sigma> + (if has_lock (lsRuns sys ! r) \<and> run_key (lsRuns sys ! r) = k then 1 else 0)"
    using r by (auto simp: release_db has_lock_def advisory_given [OF ok])
qed

lemma owns_key_acquire_at:
  assumes ok: "advisory_ok ops" and own: "owns_key ops n sys k \<tau>" and r: "run_at sys r Waiting"
    and s: "fst s = lrInstance (lsRuns sys ! r)"
    and at: "fst (tryLock ops s (run_key (lsRuns sys ! r)) (lsDb sys)) \<and> k = run_key (lsRuns sys ! r) \<longrightarrow> \<tau> = s"
  shows "owns_key ops n (try_acquire ops s r sys) k \<tau>"
proof (rule owns_key_set_run [OF own conjunct1 [OF r] try_acquire_runs])
  let ?kr = "run_key (lsRuns sys ! r)" and ?sys = "try_acquire ops s r sys"
  let ?granted = "fst (tryLock ops s ?kr (lsDb sys))"
  let ?run = "(lsRuns sys ! r)\<lparr>lrState := (if ?granted then Held else Skipped), lrSession := s\<rparr>"
  have old: "\<not> has_lock (lsRuns sys ! r)" using r by (simp add: has_lock_def)
  have key: "run_key ?run = ?kr" and lock: "has_lock ?run = ?granted" by (simp_all add: run_key_def has_lock_def)
  show "holds ops (lsDb ?sys) k \<sigma>' = 0" if "\<sigma>' \<noteq> \<tau>" for \<sigma>'
    using that at by (auto simp: try_acquire_db advisory_taken [OF ok] owns_key_elsewhere [OF own])
  show "has_lock ?run \<Longrightarrow> run_key ?run = k \<Longrightarrow> lrSession ?run = \<tau> \<and> fst \<tau> = lrInstance ?run"
    using at s unfolding lock key by simp
  show "holds ops (lsDb sys) k \<tau> + (if has_lock ?run \<and> run_key ?run = k then 1 else 0)
    \<le> holds ops (lsDb ?sys) k \<tau> + (if has_lock (lsRuns sys ! r) \<and> run_key (lsRuns sys ! r) = k then 1 else 0)"
  proof (cases "?granted \<and> k = ?kr")
    case True
    then have "\<tau> = s" using at by blast
    then show ?thesis using True old by (simp add: lock key try_acquire_db advisory_taken [OF ok])
  next
    case False
    then have none: "(has_lock ?run \<and> run_key ?run = k) = False" unfolding lock key by blast
    have same: "holds ops (lsDb ?sys) k \<tau> = holds ops (lsDb sys) k \<tau>"
      using False by (auto simp: try_acquire_db advisory_taken [OF ok])
    show ?thesis unfolding none same by simp
  qed
qed

text \<open>A key that is held is granted to its owner only; a free key may get a new owner.\<close>

lemma owns_key_acquire:
  assumes ok: "advisory_ok ops" and own: "owns_key ops n sys k \<sigma>" and r: "run_at sys r Waiting"
    and s: "fst s = lrInstance (lsRuns sys ! r)"
  shows "\<exists>\<tau>. owns_key ops n (try_acquire ops s r sys) k \<tau> \<and> (0 < n \<longrightarrow> \<tau> = \<sigma>)"
proof (cases "fst (tryLock ops s (run_key (lsRuns sys ! r)) (lsDb sys)) \<and> k = run_key (lsRuns sys ! r) \<and> \<sigma> \<noteq> s")
  case False
  then show ?thesis using owns_key_acquire_at [OF ok own r s] by blast
next
  case True
  then have granted: "fst (tryLock ops s k (lsDb sys))" by auto
  have free: "holds ops (lsDb sys) k s' = 0" if "s' \<noteq> s" for s'
    using iffD1 [OF advisory_grant [OF ok] granted] that by blast
  have none: "holds ops (lsDb sys) k \<sigma> = 0" by (rule free) (use True in simp)
  then have zero: "runs_holding k (lsRuns sys) = 0" "n = 0" using own unfolding owns_key_def by linarith+
  then have "\<not> (has_lock x \<and> run_key x = k)" if "x \<in> set (lsRuns sys)" for x
    using runs_holding_pos [OF that] by auto
  then have "owns_key ops n sys k s" using free zero unfolding owns_key_def by auto
  then show ?thesis using owns_key_acquire_at [OF ok _ r s] zero(2) by blast
qed

text \<open>The end of another session changes nothing; the end of the owner is harmless when no run has the lock.\<close>

lemma owns_key_end:
  assumes ok: "advisory_ok ops" and own: "owns_key ops n sys k \<sigma>"
    and "s \<noteq> \<sigma> \<or> n = 0 \<and> \<not> lost_key (end_session ops s sys) k"
  shows "owns_key ops n (end_session ops s sys) k \<sigma>"
proof -
  have "runs_holding k (lsRuns sys) + n \<le> holds ops (lsDb (end_session ops s sys)) k \<sigma>"
  proof (cases "s = \<sigma>")
    case False
    then show ?thesis using own by (simp add: owns_key_def end_session_db advisory_ended [OF ok])
  next
    case True
    then have kept: "n = 0" "\<not> lost_key (end_session ops \<sigma> sys) k" using assms(3) by simp_all
    have "\<not> has_lock run" if "run \<in> set (lsRuns sys)" "run_key run = k" for run
    proof
      assume "has_lock run"
      then have "lrLost (lose_session \<sigma> run)" using own that unfolding owns_key_def by (simp add: lose_session_def)
      then show False using kept(2) that by (auto simp: lost_key_def end_session_runs lose_session_keeps)
    qed
    then show ?thesis using kept(1) runs_holding_none [of "lsRuns sys" k] by simp
  qed
  then show ?thesis using own
    by (auto simp: owns_key_def end_session_runs end_session_db runs_holding_lose advisory_ended [OF ok] lose_session_keeps)
qed

lemma owns_key_step:
  assumes ok: "advisory_ok ops" and "lock_step ops sys sys'" and own: "owns_key ops n sys k \<sigma>"
    and ends: "\<And>s. sys' = end_session ops s sys \<Longrightarrow> s \<noteq> \<sigma> \<or> n = 0 \<and> \<not> lost_key sys' k"
  shows "\<exists>\<tau>. owns_key ops n sys' k \<tau> \<and> (0 < n \<longrightarrow> \<tau> = \<sigma>)"
proof -
  have quiet: ?thesis if "r < length (lsRuns sys)" "lsRuns sys' = (lsRuns sys)[r := run]" "lsDb sys' = lsDb sys"
    "has_lock run \<Longrightarrow> has_lock (lsRuns sys ! r) \<and> run_key (lsRuns sys ! r) = run_key run \<and>
       lrSession (lsRuns sys ! r) = lrSession run \<and> lrInstance (lsRuns sys ! r) = lrInstance run" for r run
    using owns_key_quiet [OF own that] by blast
  from assms(2) show ?thesis
  proof cases
    case (acquire r s)
    then show ?thesis using owns_key_acquire [OF ok own] by blast
  next
    case (not_acquired r)
    then show ?thesis by (intro quiet [of r "(lsRuns sys ! r)\<lparr>lrState := Skipped\<rparr>"]) (simp_all add: acquire_fails_runs acquire_fails_db has_lock_def)
  next
    case (tracked r instanceId now ttl)
    then show ?thesis by (intro quiet [of r "(lsRuns sys ! r)\<lparr>lrState := Working\<rparr>"]) (simp_all add: track_runs track_db has_lock_def run_key_def)
  next
    case (not_tracked r)
    then show ?thesis by (intro quiet [of r "(lsRuns sys ! r)\<lparr>lrState := Skipped\<rparr>"]) (simp_all add: acquire_fails_runs acquire_fails_db has_lock_def)
  next
    case (ended r)
    then show ?thesis by (intro quiet [of r "(lsRuns sys ! r)\<lparr>lrState := Releasing\<rparr>"]) (simp_all add: job_ends_runs job_ends_db has_lock_def run_key_def)
  next
    case (released r s untracked)
    then show ?thesis using owns_key_release [OF ok own] by blast
  next
    case (not_released r)
    then show ?thesis by (intro quiet [of r "(lsRuns sys ! r)\<lparr>lrState := Finished\<rparr>"]) (simp_all add: unlock_fails_runs unlock_fails_db has_lock_def)
  next
    case (session_ended s)
    then show ?thesis using owns_key_end [OF ok own] ends by blast
  next
    case (cleaned now)
    then have "owns_key ops n sys' k \<sigma>" using own by (simp add: owns_key_def)
    then show ?thesis by blast
  qed
qed

text \<open>Steps keep what has been lost and what has ended.\<close>

lemma lost_key_set_run:
  "lost_key sys k \<Longrightarrow> lsRuns sys' = (lsRuns sys)[r := run] \<Longrightarrow> r < length (lsRuns sys) \<Longrightarrow>
     lrLost run = lrLost (lsRuns sys ! r) \<Longrightarrow> run_key run = run_key (lsRuns sys ! r) \<Longrightarrow> lost_key sys' k"
  unfolding lost_key_def by (metis in_set_conv_nth length_list_update nth_list_update_eq nth_list_update_neq)

lemma lost_key_step:
  assumes "lock_step ops sys sys'" "lost_key sys k"
  shows "lost_key sys' k"
proof -
  have quiet: "lost_key sys2 k" if "lsRuns sys2 = (lsRuns sys)[r := run]" "r < length (lsRuns sys)"
    "lrLost run = lrLost (lsRuns sys ! r)" "lrJob run = lrJob (lsRuns sys ! r)" for sys2 r run
    using lost_key_set_run [OF assms(2) that(1-3)] that(4) by (simp add: run_key_def)
  from assms(1) show ?thesis
  proof cases
    case (session_ended s)
    have "lrLost run \<Longrightarrow> lrLost (lose_session s run)" for run by (simp add: lose_session_def)
    then show ?thesis using assms(2) unfolding session_ended lost_key_def end_session_runs
      by (auto simp: lose_session_keeps)
  next
    case (cleaned now)
    then show ?thesis using assms(2) by (simp add: lost_key_def)
  qed (auto intro: quiet [OF try_acquire_runs] quiet [OF acquire_fails_runs] quiet [OF track_runs] quiet [OF job_ends_runs]
    quiet [OF release_runs] quiet [OF unlock_fails_runs])
qed

lemma ended_step: "lock_step ops sys sys' \<Longrightarrow> set (lsEnded sys) \<subseteq> set (lsEnded sys')"
  by (induction rule: lock_step.cases)
    (auto simp: try_acquire_def acquire_fails_def track_def job_ends_def release_def unlock_fails_def set_run_def end_session_ended Let_def)

lemma lock_step_inv:
  assumes "advisory_ok ops" "lock_step ops sys sys'" "lock_inv ops sys"
  shows "lock_inv ops sys'"
  unfolding lock_inv_def
proof
  fix k
  show "lost_key sys' k \<or> (\<exists>\<sigma>. owns_key ops 0 sys' k \<sigma>)"
  proof (cases "lost_key sys' k")
    case False
    then have "\<not> lost_key sys k" using lost_key_step [OF assms(2)] by blast
    then obtain \<sigma> where "owns_key ops 0 sys k \<sigma>" using assms(3) unfolding lock_inv_def by blast
    from owns_key_step [OF assms(1,2) this] False show ?thesis by blast
  qed simp
qed

lemma reachable_inv: "reachable ops sys \<Longrightarrow> advisory_ok ops \<Longrightarrow> lock_inv ops sys"
proof (induction rule: reachable.induct)
  case (start sys)
  then have "owns_key ops 0 sys k (0, 0)" for k
    by (auto simp: initial_def owns_key_def runs_holding_def has_lock_def filter_empty_conv)
  then show ?case unfolding lock_inv_def by blast
next
  case (next_step sys sys')
  then show ?case using lock_step_inv by blast
qed

text \<open>Whatever happened before, a key has at most one holder.\<close>

lemma single_holder_step:
  assumes ok: "advisory_ok ops" and "lock_step ops sys sys'" and own: "\<And>\<tau>. \<tau> \<noteq> \<sigma> \<Longrightarrow> holds ops (lsDb sys) k \<tau> = 0"
  shows "\<exists>\<sigma>. \<forall>\<tau>. \<tau> \<noteq> \<sigma> \<longrightarrow> holds ops (lsDb sys') k \<tau> = 0"
proof -
  have fewer: ?thesis if "\<And>\<tau>. holds ops (lsDb sys') k \<tau> \<le> holds ops (lsDb sys) k \<tau>"
    using own that by (metis le_zero_eq)
  from assms(2) show ?thesis
  proof cases
    case (acquire r s)
    show ?thesis
    proof (cases "fst (tryLock ops s k (lsDb sys)) \<and> k = run_key (lsRuns sys ! r)")
      case True
      have free: "holds ops (lsDb sys) k \<tau> = 0" if "\<tau> \<noteq> s" for \<tau>
        using iffD1 [OF advisory_grant [OF ok] conjunct1 [OF True]] that by blast
      have "holds ops (lsDb sys') k \<tau> = 0" if "\<tau> \<noteq> s" for \<tau>
        using free [OF that] that by (simp add: acquire(1) try_acquire_db advisory_taken [OF ok])
      then show ?thesis by blast
    next
      case False
      then have "holds ops (lsDb sys') k \<tau> = 0" if "\<tau> \<noteq> \<sigma>" for \<tau>
        using own [OF that] by (auto simp: acquire(1) try_acquire_db advisory_taken [OF ok])
      then show ?thesis by blast
    qed
  qed (rule fewer, simp add: after_step end_session_db advisory_given [OF ok] advisory_ended [OF ok])+
qed

lemma single_holder:
  assumes ok: "advisory_ok ops" and "reachable ops sys" "0 < holds ops (lsDb sys) k s" "\<tau> \<noteq> s"
  shows "holds ops (lsDb sys) k \<tau> = 0"
proof -
  have "\<exists>\<sigma>. \<forall>\<tau>. \<tau> \<noteq> \<sigma> \<longrightarrow> holds ops (lsDb sys) k \<tau> = 0"
    using assms(2)
  proof (induction rule: reachable.induct)
    case (start sys)
    then show ?case by (auto simp: initial_def)
  next
    case (next_step sys sys')
    then show ?case using single_holder_step [OF ok next_step.hyps(2)] by blast
  qed
  then show ?thesis using assms(3,4) by (metis less_irrefl)
qed

text \<open>A hold beyond those of the runs stays where it is until its session ends.\<close>

lemma surplus_stays:
  assumes ok: "advisory_ok ops" and "(lock_step ops)\<^sup>*\<^sup>* sys sys'" and "owns_key ops (Suc n) sys k \<sigma>" and "\<sigma> \<notin> set (lsEnded sys')"
  shows "owns_key ops (Suc n) sys' k \<sigma>"
  using assms(2,4)
proof (induction rule: rtranclp_induct)
  case base
  then show ?case using assms(3) by simp
next
  case (step sys1 sys2)
  then have "owns_key ops (Suc n) sys1 k \<sigma>" using ended_step by blast
  moreover have "s \<noteq> \<sigma>" if "sys2 = end_session ops s sys1" for s using step.prems that by (auto simp: end_session_ended)
  ultimately show ?case using owns_key_step [OF ok step.hyps(2)] by blast
qed

text \<open>A database of advisory locks: per key, the session that took it last and how often it holds it.\<close>

definition table_locks :: "(int \<Rightarrow> session \<times> nat) lock_ops" where
  "table_locks = \<lparr> tryLock = (\<lambda>s k d. if fst (d k) = s then (True, d(k := (s, Suc (snd (d k))))) else
                      if snd (d k) = 0 then (True, d(k := (s, 1))) else (False, d)),
     unlock = (\<lambda>s k d. if fst (d k) = s then d(k := (s, snd (d k) - 1)) else d),
     endSession = (\<lambda>s d k. if fst (d k) = s then (s, 0) else d k),
     holds = (\<lambda>d k s. if fst (d k) = s then snd (d k) else 0) \<rparr>"

lemma table_locks_ok: "advisory_ok table_locks"
proof -
  have "fst (tryLock table_locks s k d) \<longleftrightarrow> (\<forall>s'. s' \<noteq> s \<longrightarrow> holds table_locks d k s' = 0)" for s k d
  proof (cases "fst (d k) = s")
    case False
    have "(\<forall>s'. s' \<noteq> s \<longrightarrow> holds table_locks d k s' = 0) \<longleftrightarrow> snd (d k) = 0"
    proof
      assume "\<forall>s'. s' \<noteq> s \<longrightarrow> holds table_locks d k s' = 0"
      from this [rule_format, OF False] show "snd (d k) = 0" by (simp add: table_locks_def)
    qed (simp add: table_locks_def)
    then show ?thesis using False by (simp add: table_locks_def)
  qed (auto simp: table_locks_def)
  moreover have "holds table_locks (snd (tryLock table_locks s k d)) k' s' =
      holds table_locks d k' s' + (if fst (tryLock table_locks s k d) \<and> k' = k \<and> s' = s then 1 else 0)" for s k d k' s'
    by (auto simp: table_locks_def)
  moreover have "holds table_locks (unlock table_locks s k d) k' s' =
      holds table_locks d k' s' - (if k' = k \<and> s' = s then 1 else 0)" for s k d k' s'
    by (auto simp: table_locks_def)
  moreover have "holds table_locks (endSession table_locks s d) k' s' = (if s' = s then 0 else holds table_locks d k' s')" for s d k' s'
    by (auto simp: table_locks_def)
  ultimately show ?thesis unfolding advisory_ok_def by blast
qed

text \<open>One run on instance 0 and one on instance 1, both of the first job.\<close>

definition two_instances :: "(int \<Rightarrow> session \<times> nat) lock_system" where
  "two_instances = \<lparr> lsDb = (\<lambda>_. ((0, 0), 0)), lsTable = [],
     lsRuns = [\<lparr> lrJob = ''job'', lrInstance = 0, lrState = Waiting, lrSession = (0, 0), lrLost = False \<rparr>,
               \<lparr> lrJob = ''job'', lrInstance = 1, lrState = Waiting, lrSession = (1, 0), lrLost = False \<rparr>], lsEnded = [] \<rparr>"

definition one_instance :: "(int \<Rightarrow> session \<times> nat) lock_system" where
  "one_instance = \<lparr> lsDb = (\<lambda>_. ((0, 0), 0)), lsTable = [],
     lsRuns = [\<lparr> lrJob = ''job'', lrInstance = 0, lrState = Waiting, lrSession = (0, 0), lrLost = False \<rparr>,
               \<lparr> lrJob = ''job'', lrInstance = 0, lrState = Waiting, lrSession = (0, 0), lrLost = False \<rparr>], lsEnded = [] \<rparr>"

lemma initial_examples: "initial table_locks two_instances" "initial table_locks one_instance"
  by (simp_all add: initial_def table_locks_def two_instances_def one_instance_def)

text \<open>A run that works under a key no run of which was deprived of its lock shuts out every other session.\<close>

lemma lock_excludes_sessions:
  assumes "advisory_ok ops" "reachable ops sys" "run \<in> set (lsRuns sys)" "has_lock run" "\<not> lost_key sys (run_key run)"
  shows "fst (tryLock ops s (run_key run) (lsDb sys)) \<longleftrightarrow> s = lrSession run"
    and "fst (lrSession run) = lrInstance run"
    and "run' \<in> set (lsRuns sys) \<Longrightarrow> has_lock run' \<Longrightarrow> run_key run' = run_key run \<Longrightarrow> lrSession run' = lrSession run"
proof -
  obtain \<sigma> where own: "owns_key ops 0 sys (run_key run) \<sigma>"
    using reachable_inv [OF assms(2,1)] assms(5) unfolding lock_inv_def by blast
  then have at: "lrSession run = \<sigma>" "fst \<sigma> = lrInstance run" using assms(3,4) unfolding owns_key_def by blast+
  have "holds ops (lsDb sys) (run_key run) \<sigma> \<noteq> 0"
    using own runs_holding_pos [OF assms(3,4)] unfolding owns_key_def by linarith
  then show "fst (tryLock ops s (run_key run) (lsDb sys)) \<longleftrightarrow> s = lrSession run"
    using owns_key_elsewhere [OF own] unfolding advisory_grant [OF assms(1)] at(1) by metis
  show "fst (lrSession run) = lrInstance run" using at by simp
  show "run' \<in> set (lsRuns sys) \<Longrightarrow> has_lock run' \<Longrightarrow> run_key run' = run_key run \<Longrightarrow> lrSession run' = lrSession run"
    using own at(1) unfolding owns_key_def by blast
qed

text \<open>C37. Whatever the interleaving of any number of runs, of the failures of their queries, of the choice of
  pooled connections and of the ends of sessions: as long as no run of the job's key has lost its lock by the end of
  its database session, two runs that have the lock at the same time are runs of the same server instance on the
  same session. So two server instances execute one cron job at the same time only after a session ended under a
  run.\<close>

theorem one_instance_runs_a_job:
  assumes "advisory_ok ops" "reachable ops sys" "i < length (lsRuns sys)" "j < length (lsRuns sys)"
    "has_lock (lsRuns sys ! i)" "has_lock (lsRuns sys ! j)" "lrJob (lsRuns sys ! i) = lrJob (lsRuns sys ! j)"
    "\<not> lost_key sys (hashLockName (lrJob (lsRuns sys ! i)))"
  shows "lrInstance (lsRuns sys ! i) = lrInstance (lsRuns sys ! j) \<and>
    lrSession (lsRuns sys ! i) = lrSession (lsRuns sys ! j)"
proof -
  note at = lock_excludes_sessions [OF assms(1,2)]
  have key: "run_key (lsRuns sys ! j) = run_key (lsRuns sys ! i)" using assms(7) by (simp add: run_key_def)
  show ?thesis
    using at(2) [OF nth_mem [OF assms(3)] assms(5)] at(2) [OF nth_mem [OF assms(4)] assms(6)]
      at(3) [OF nth_mem [OF assms(3)] assms(5) _ nth_mem [OF assms(4)] assms(6) key] assms(8) key
    by (simp add: run_key_def)
qed

text \<open>The twelve cron jobs have twelve different keys.\<close>

lemma cron_job_keys_distinct: "distinct (map hashLockName cron_jobs)"
  by code_simp

section \<open>What it does not guarantee\<close>

text \<open>Two names can share a key: such jobs would exclude each other.\<close>

lemma hash_collision: "hashLockName ''Aa'' = hashLockName ''BB''"
  by code_simp

text \<open>\<open>cleanupExpiredLocks\<close> deletes only the rows that expire at the very instant it runs: every row that has expired
  earlier stays.\<close>

lemma cleanup_keeps_expired:
  "set (cleanupExpiredLocks now rows) = {p \<in> set rows. clExpiresAt (snd p) \<noteq> now}"
  "p \<in> set rows \<Longrightarrow> clExpiresAt (snd p) < now \<Longrightarrow> p \<in> set (cleanupExpiredLocks now rows)"
  by (auto simp: cleanupExpiredLocks_def)

lemma reach_acquire: "reachable ops sys \<Longrightarrow> run_at sys r Waiting \<Longrightarrow> fst s = lrInstance (lsRuns sys ! r) \<Longrightarrow>
    reachable ops (try_acquire ops s r sys)"
  by (rule reachable.next_step [OF _ lock_step.acquire])

lemma reach_track: "reachable ops sys \<Longrightarrow> run_at sys r Held \<Longrightarrow> reachable ops (track r instanceId now ttl sys)"
  by (rule reachable.next_step [OF _ lock_step.tracked])

lemma reach_end: "reachable ops sys \<Longrightarrow> run_at sys r Working \<Longrightarrow> reachable ops (job_ends r sys)"
  by (rule reachable.next_step [OF _ lock_step.ended])

lemma reach_release: "reachable ops sys \<Longrightarrow> run_at sys r Releasing \<Longrightarrow> fst s = lrInstance (lsRuns sys ! r) \<Longrightarrow>
    reachable ops (release ops s r untracked sys)"
  by (rule reachable.next_step [OF _ lock_step.released])

text \<open>A run that gets the lock from session \<open>s\<close> and starts to work.\<close>

definition start_run :: "'d lock_ops \<Rightarrow> session \<Rightarrow> nat \<Rightarrow> 'd lock_system \<Rightarrow> 'd lock_system" where
  "start_run ops s r sys = track r ''instance'' 0 300 (try_acquire ops s r sys)"

lemma start_run_reachable:
  assumes ok: "advisory_ok ops" and sys: "reachable ops sys" and r: "run_at sys r Waiting" and s: "fst s = lrInstance (lsRuns sys ! r)"
    and free: "\<And>s'. s' \<noteq> s \<Longrightarrow> holds ops (lsDb sys) (run_key (lsRuns sys ! r)) s' = 0"
  shows "reachable ops (start_run ops s r sys)"
    and "lsRuns (start_run ops s r sys) = (lsRuns sys)[r := (lsRuns sys ! r)\<lparr>lrSession := s, lrState := Working\<rparr>]"
    and "\<And>k s'. holds ops (lsDb (start_run ops s r sys)) k s' =
      holds ops (lsDb sys) k s' + (if k = run_key (lsRuns sys ! r) \<and> s' = s then 1 else 0)"
proof -
  have granted: "fst (tryLock ops s (run_key (lsRuns sys ! r)) (lsDb sys))"
    using free advisory_grant [OF ok] by blast
  have "reachable ops (try_acquire ops s r sys)" using sys r s by (rule reach_acquire)
  then show "reachable ops (start_run ops s r sys)" unfolding start_run_def
    by (rule reach_track) (use r granted in \<open>simp add: try_acquire_runs\<close>)
  show "lsRuns (start_run ops s r sys) = (lsRuns sys)[r := (lsRuns sys ! r)\<lparr>lrSession := s, lrState := Working\<rparr>]"
    using r granted by (simp add: start_run_def track_runs try_acquire_runs)
  show "holds ops (lsDb (start_run ops s r sys)) k s' =
      holds ops (lsDb sys) k s' + (if k = run_key (lsRuns sys ! r) \<and> s' = s then 1 else 0)" for k s'
    using granted by (simp add: start_run_def track_db try_acquire_db advisory_taken [OF ok])
qed

lemma waiting_initial: "initial ops sys \<Longrightarrow> r < length (lsRuns sys) \<Longrightarrow> run_at sys r Waiting"
  by (simp add: initial_def)

text \<open>The lock does not exclude a second run of the same job in the same instance: an advisory lock is
  re-entrant, so when the second query runs on the pooled connection that took the lock, both runs execute the job
  at the same time.\<close>

theorem same_instance_can_run_twice:
  assumes ok: "advisory_ok ops" and init: "initial ops sys" and ij: "i < length (lsRuns sys)" "j < length (lsRuns sys)" "i \<noteq> j"
    and job: "lrJob (lsRuns sys ! i) = lrJob (lsRuns sys ! j)" and inst: "lrInstance (lsRuns sys ! i) = lrInstance (lsRuns sys ! j)"
  shows "\<exists>sys'. reachable ops sys' \<and> run_at sys' i Working \<and> run_at sys' j Working \<and>
    lrJob (lsRuns sys' ! i) = lrJob (lsRuns sys' ! j)"
proof -
  let ?s = "(lrInstance (lsRuns sys ! i), 0)" let ?one = "start_run ops ?s i sys" let ?two = "start_run ops ?s j ?one"
  have "holds ops (lsDb sys) k s' = 0" for k s' using init unfolding initial_def by blast
  note one = start_run_reachable [OF ok reachable.start [OF init] waiting_initial [OF init ij(1)], of ?s, simplified this]
  have at: "run_at ?one j Waiting" "fst ?s = lrInstance (lsRuns ?one ! j)"
    using one(2) waiting_initial [OF init ij(2)] ij inst by simp_all
  have key: "run_key (lsRuns ?one ! j) = run_key (lsRuns sys ! i)" using one(2) ij job by (simp add: run_key_def)
  have free: "holds ops (lsDb ?one) (run_key (lsRuns ?one ! j)) s' = 0" if "s' \<noteq> ?s" for s'
    using that one(3) by simp
  note two = start_run_reachable [OF ok _ at free]
  have "reachable ops ?two" using two(1) one(1) by simp
  moreover have "lsRuns ?two = (lsRuns ?one)[j := (lsRuns ?one ! j)\<lparr>lrSession := ?s, lrState := Working\<rparr>]"
    using two(2) one(1) by simp
  ultimately show ?thesis using one(2) ij job by (intro exI [of _ ?two]) simp
qed

theorem same_instance_can_run_twice_witness:
  "\<exists>sys'. reachable table_locks sys' \<and> run_at sys' 0 Working \<and> run_at sys' 1 Working \<and>
    lrJob (lsRuns sys' ! 0) = lrJob (lsRuns sys' ! 1)"
  using same_instance_can_run_twice [OF table_locks_ok initial_examples(2), of 0 1] by (simp add: one_instance_def)

text \<open>Nor does it keep other instances out when the session of the lock ends: the connection goes back to the pool
  while the job works, the database frees the lock when that connection is closed, and another instance starts the
  same job beside the first.\<close>

theorem ended_session_lets_another_instance_run:
  assumes ok: "advisory_ok ops" and init: "initial ops sys" and ij: "i < length (lsRuns sys)" "j < length (lsRuns sys)" "i \<noteq> j"
    and job: "lrJob (lsRuns sys ! i) = lrJob (lsRuns sys ! j)"
  shows "\<exists>sys'. reachable ops sys' \<and> run_at sys' i Working \<and> run_at sys' j Working \<and>
    lrInstance (lsRuns sys' ! i) = lrInstance (lsRuns sys ! i) \<and> lrInstance (lsRuns sys' ! j) = lrInstance (lsRuns sys ! j)"
proof -
  let ?s = "(lrInstance (lsRuns sys ! i), 0)" and ?t = "(lrInstance (lsRuns sys ! j), 0)"
  let ?one = "start_run ops ?s i sys" let ?cut = "end_session ops ?s ?one" let ?two = "start_run ops ?t j ?cut"
  have "holds ops (lsDb sys) k s' = 0" for k s' using init unfolding initial_def by blast
  note one = start_run_reachable [OF ok reachable.start [OF init] waiting_initial [OF init ij(1)], of ?s, simplified this]
  have cut: "reachable ops ?cut" using one(1) reachable.next_step [OF _ lock_step.session_ended] by simp
  have free: "holds ops (lsDb ?cut) k s' = 0" for k s' using one(3) by (simp add: end_session_db advisory_ended [OF ok])
  have runs: "lsRuns ?cut ! j = lose_session ?s (lsRuns sys ! j)" "run_at ?cut i Working" "length (lsRuns ?cut) = length (lsRuns sys)"
    "lrInstance (lsRuns ?cut ! i) = lrInstance (lsRuns sys ! i)"
    using one(2) ij by (simp_all add: end_session_runs lose_session_keeps)
  have at: "run_at ?cut j Waiting" "fst ?t = lrInstance (lsRuns ?cut ! j)"
    using runs(1,3) waiting_initial [OF init ij(2)] by (simp_all add: lose_session_keeps)
  note two = start_run_reachable [OF ok cut at free]
  have "run_at ?two i Working" "run_at ?two j Working" "lrInstance (lsRuns ?two ! i) = lrInstance (lsRuns sys ! i)"
    "lrInstance (lsRuns ?two ! j) = lrInstance (lsRuns sys ! j)"
    unfolding two(2) using runs ij at by simp_all
  then show ?thesis using two(1) by blast
qed

theorem ended_session_lets_another_instance_run_witness:
  "\<exists>sys'. reachable table_locks sys' \<and> run_at sys' 0 Working \<and> run_at sys' 1 Working \<and>
    lrInstance (lsRuns sys' ! 0) = 0 \<and> lrInstance (lsRuns sys' ! 1) = 1"
  using ended_session_lets_another_instance_run [OF table_locks_ok initial_examples(1), of 0 1] by (simp add: two_instances_def)

text \<open>The state of that theorem in the example; a run of the other instance is refused meanwhile.\<close>

definition both_working :: "(int \<Rightarrow> session \<times> nat) lock_system" where
  "both_working = start_run table_locks (0, 0) 1 (start_run table_locks (0, 0) 0 one_instance)"

lemma both_working_reachable: "reachable table_locks both_working"
proof -
  have free: "holds table_locks (lsDb one_instance) k s' = 0" for k s'
    using initial_examples(2) unfolding initial_def by blast
  have 0: "run_at one_instance 0 Waiting" "fst (0, 0) = lrInstance (lsRuns one_instance ! 0)" by (simp_all add: one_instance_def)
  note one = start_run_reachable [OF table_locks_ok reachable.start [OF initial_examples(2)] 0 free]
  have 1: "run_at (start_run table_locks (0, 0) 0 one_instance) 1 Waiting"
    "fst (0, 0) = lrInstance (lsRuns (start_run table_locks (0, 0) 0 one_instance) ! 1)"
    using one(2) by (simp_all add: one_instance_def)
  show ?thesis unfolding both_working_def
    by (rule start_run_reachable(1) [OF table_locks_ok one(1) 1]) (simp add: one(3) free)
qed

theorem one_instance_runs_a_job_witness:
  "has_lock (lsRuns both_working ! 0) \<and> has_lock (lsRuns both_working ! 1) \<and>
   lrInstance (lsRuns both_working ! 0) = lrInstance (lsRuns both_working ! 1) \<and>
   lrSession (lsRuns both_working ! 0) = lrSession (lsRuns both_working ! 1) \<and>
   \<not> fst (tryLock table_locks (1, 0) (hashLockName ''job'') (lsDb both_working))"
  using one_instance_runs_a_job [OF table_locks_ok both_working_reachable, of 0 1]
  by (simp add: both_working_def start_run_def track_runs try_acquire_runs track_db try_acquire_db one_instance_def
      table_locks_def has_lock_def run_key_def)

text \<open>A run from its start to the release of its lock, where the unlock query runs on session \<open>t\<close>.\<close>

definition whole_run :: "'d lock_ops \<Rightarrow> session \<Rightarrow> session \<Rightarrow> nat \<Rightarrow> 'd lock_system \<Rightarrow> 'd lock_system" where
  "whole_run ops s t r sys = release ops t r True (job_ends r (start_run ops s r sys))"

lemma whole_run_reachable:
  assumes ok: "advisory_ok ops" and sys: "reachable ops sys" and r: "run_at sys r Waiting"
    and st: "fst s = lrInstance (lsRuns sys ! r)" "fst t = lrInstance (lsRuns sys ! r)"
    and free: "\<And>s'. s' \<noteq> s \<Longrightarrow> holds ops (lsDb sys) (run_key (lsRuns sys ! r)) s' = 0"
  shows "reachable ops (whole_run ops s t r sys)"
    and "lsRuns (whole_run ops s t r sys) = (lsRuns sys)[r := (lsRuns sys ! r)\<lparr>lrSession := s, lrState := Finished\<rparr>]"
    and "\<And>k s'. holds ops (lsDb (whole_run ops s t r sys)) k s' = holds ops (lsDb sys) k s' +
      (if k = run_key (lsRuns sys ! r) \<and> s' = s then 1 else 0) - (if k = run_key (lsRuns sys ! r) \<and> s' = t then 1 else 0)"
proof -
  note start = start_run_reachable [OF ok sys r st(1) free]
  let ?ended = "job_ends r (start_run ops s r sys)"
  have runs: "lsRuns ?ended = (lsRuns sys)[r := (lsRuns sys ! r)\<lparr>lrSession := s, lrState := Releasing\<rparr>]"
    using start(2) r by (simp add: job_ends_runs)
  have "reachable ops ?ended" by (rule reach_end [OF start(1)]) (use start(2) r in simp_all)
  then show "reachable ops (whole_run ops s t r sys)" unfolding whole_run_def
    by (rule reach_release) (use runs r st in simp_all)
  show "lsRuns (whole_run ops s t r sys) = (lsRuns sys)[r := (lsRuns sys ! r)\<lparr>lrSession := s, lrState := Finished\<rparr>]"
    using runs r by (simp add: whole_run_def release_runs)
  have key: "run_key (lsRuns ?ended ! r) = run_key (lsRuns sys ! r)" using runs r by (simp add: run_key_def)
  show "holds ops (lsDb (whole_run ops s t r sys)) k s' = holds ops (lsDb sys) k s' +
      (if k = run_key (lsRuns sys ! r) \<and> s' = s then 1 else 0) - (if k = run_key (lsRuns sys ! r) \<and> s' = t then 1 else 0)" for k s'
    using start(3) by (simp add: whole_run_def release_db advisory_given [OF ok] key job_ends_db)
qed

text \<open>C38. A lock that a finished run left behind (its unlock query got another connection of the pool, or failed, or
  the tracking row could not be written) is never given back: when the key is held on a session and no run has the
  lock any more, then whatever runs start, work and release afterwards, on whatever instances, every attempt on any
  other session is refused until that session ends; and once it ends, every session can take the key again.\<close>

theorem leftover_lock_blocks_until_session_ends:
  assumes "advisory_ok ops" "reachable ops sys" "0 < holds ops (lsDb sys) (hashLockName job) s"
    "\<forall>run \<in> set (lsRuns sys). run_key run = hashLockName job \<longrightarrow> \<not> has_lock run"
    "(lock_step ops)\<^sup>*\<^sup>* sys sys'" "s \<notin> set (lsEnded sys')"
  shows "(\<forall>s'. fst (tryLock ops s' (hashLockName job) (lsDb sys')) \<longleftrightarrow> s' = s) \<and>
    (\<forall>s'. fst (tryLock ops s' (hashLockName job) (lsDb (end_session ops s sys'))))"
proof -
  have "runs_holding (hashLockName job) (lsRuns sys) = 0" by (rule runs_holding_none) (use assms(4) in blast)
  then have "owns_key ops (Suc 0) sys (hashLockName job) s"
    unfolding owns_key_def using single_holder [OF assms(1-3)] assms(3,4) by auto
  from surplus_stays [OF assms(1,5) this assms(6)] have "owns_key ops (Suc 0) sys' (hashLockName job) s" .
  then have held: "holds ops (lsDb sys') (hashLockName job) s \<noteq> 0"
    and free: "\<And>\<tau>. \<tau> \<noteq> s \<Longrightarrow> holds ops (lsDb sys') (hashLockName job) \<tau> = 0"
    unfolding owns_key_def by (linarith, blast)
  have "fst (tryLock ops s' (hashLockName job) (lsDb sys')) \<longleftrightarrow> s' = s" for s'
    unfolding advisory_grant [OF assms(1)] using held free by metis
  moreover have "fst (tryLock ops s' (hashLockName job) (lsDb (end_session ops s sys')))" for s'
    unfolding advisory_grant [OF assms(1)] end_session_db advisory_ended [OF assms(1)] using free by simp
  ultimately show ?thesis by blast
qed

text \<open>In the example: run 0 took the lock on connection 0 of its instance and was unlocked on connection 1; run 1, on
  the other instance, is then refused, now and after any further step.\<close>

lemma left_behind_example: "reachable table_locks (whole_run table_locks (0, 0) (0, 1) 0 two_instances)"
  "lsRuns (whole_run table_locks (0, 0) (0, 1) 0 two_instances) =
     (lsRuns two_instances)[0 := (lsRuns two_instances ! 0)\<lparr>lrSession := (0, 0), lrState := Finished\<rparr>]"
  "holds table_locks (lsDb (whole_run table_locks (0, 0) (0, 1) 0 two_instances)) (hashLockName ''job'') (0, 0) = 1"
proof -
  have free: "holds table_locks (lsDb two_instances) k s' = 0" for k s'
    using initial_examples(1) unfolding initial_def by blast
  have at: "run_at two_instances 0 Waiting" "fst (0, 0) = lrInstance (lsRuns two_instances ! 0)"
    "fst (0, 1) = lrInstance (lsRuns two_instances ! 0)" by (simp_all add: two_instances_def)
  note whole = whole_run_reachable [OF table_locks_ok reachable.start [OF initial_examples(1)] at free]
  show "reachable table_locks (whole_run table_locks (0, 0) (0, 1) 0 two_instances)" by (rule whole(1))
  show "lsRuns (whole_run table_locks (0, 0) (0, 1) 0 two_instances) =
     (lsRuns two_instances)[0 := (lsRuns two_instances ! 0)\<lparr>lrSession := (0, 0), lrState := Finished\<rparr>]" by (rule whole(2))
  have "run_key (lsRuns two_instances ! 0) = hashLockName ''job''" by (simp add: two_instances_def run_key_def)
  then show "holds table_locks (lsDb (whole_run table_locks (0, 0) (0, 1) 0 two_instances)) (hashLockName ''job'') (0, 0) = 1"
    unfolding whole(3) free by simp
qed

theorem leftover_lock_blocks_until_session_ends_witness:
  "let sys = try_acquire table_locks (1, 0) 1 (whole_run table_locks (0, 0) (0, 1) 0 two_instances) in
   reachable table_locks sys \<and> lrState (lsRuns sys ! 1) = Skipped \<and>
   \<not> fst (tryLock table_locks (1, 0) (hashLockName ''job'') (lsDb sys)) \<and>
   fst (tryLock table_locks (1, 0) (hashLockName ''job'') (lsDb (end_session table_locks (0, 0) sys)))"
proof -
  let ?sys = "whole_run table_locks (0, 0) (0, 1) 0 two_instances"
  let ?next = "try_acquire table_locks (1, 0) 1 ?sys"
  have at: "run_at ?sys 1 Waiting" "fst (1, 0) = lrInstance (lsRuns ?sys ! 1)"
    using left_behind_example(2) by (simp_all add: two_instances_def)
  have quiet: "\<forall>run \<in> set (lsRuns ?sys). run_key run = hashLockName ''job'' \<longrightarrow> \<not> has_lock run"
    unfolding left_behind_example(2) by (simp_all add: two_instances_def has_lock_def)
  have ended: "(0, 0) \<notin> set (lsEnded ?sys)" "(0, 0) \<notin> set (lsEnded ?next)"
    by (simp_all add: whole_run_def start_run_def two_instances_def try_acquire_def track_def job_ends_def release_def set_run_def Let_def)
  have step: "(lock_step table_locks)\<^sup>*\<^sup>* ?sys ?next" using lock_step.acquire [OF at] by blast
  have key: "run_key (lsRuns ?sys ! 1) = hashLockName ''job''" unfolding left_behind_example(2) by (simp add: two_instances_def run_key_def)
  note blocked = leftover_lock_blocks_until_session_ends [OF table_locks_ok left_behind_example(1) _ quiet]
  have now: "\<not> fst (tryLock table_locks (1, 0) (hashLockName ''job'') (lsDb ?sys))"
    using blocked [OF _ rtranclp.rtrancl_refl ended(1)] unfolding left_behind_example(3) by auto
  have "lrState (lsRuns ?next ! 1) = Skipped"
    using now conjunct1 [OF at(1)] unfolding try_acquire_runs key by simp
  then show ?thesis
    using reach_acquire [OF left_behind_example(1) at] blocked [OF _ step ended(2)]
    unfolding left_behind_example(3) Let_def by auto
qed

end
