(* ===== verification/OtpLimit.thy ===== *)
theory OtpLimit
  imports JsBase JsMap
begin

text \<open>
  \<open>src/modules/auth/otp-rate-limit.ts\<close>: the sliding-window counter that bounds the guesses of a one-time
  code, and the limit on sent codes. A counter is the class's private \<open>Map\<close> of hit times in insertion
  order; every operation returns the map as it leaves it. The abstract counter keeps the whole history of each key; the
  code's counter, which forgets expired hits and evicts the oldest key past its capacity, is shown to agree with it.
\<close>

section \<open>The counter\<close>

definition OTP_SEND_LIMIT :: nat where "OTP_SEND_LIMIT = 5"
definition OTP_SEND_WINDOW_MS :: int where "OTP_SEND_WINDOW_MS = 15 * 60 * 1000"
definition OTP_VERIFY_LIMIT :: nat where "OTP_VERIFY_LIMIT = 10"
definition OTP_VERIFY_WINDOW_MS :: int where "OTP_VERIFY_WINDOW_MS = 15 * 60 * 1000"

record window_options =
  woLimit :: nat
  woWindowMs :: int
  woMaxKeys :: "nat option"

type_synonym hit_map = "(string, int list) jsmap"

definition prune :: "window_options \<Rightarrow> string \<Rightarrow> int \<Rightarrow> hit_map \<Rightarrow> int list \<times> hit_map" where
  "prune opts key now hits =
     (let cutoff = now - woWindowMs opts; kept = filter (\<lambda>t. t > cutoff) (map_get_or [] hits key)
      in (kept, if kept \<noteq> [] then map_set hits key kept else map_delete hits key))"

definition count_hits :: "window_options \<Rightarrow> string \<Rightarrow> int \<Rightarrow> hit_map \<Rightarrow> nat \<times> hit_map" where
  "count_hits opts key now hits = (let (kept, hits) = prune opts key now hits in (length kept, hits))"

definition max_keys :: "window_options \<Rightarrow> nat" where
  "max_keys opts = (case woMaxKeys opts of Some n \<Rightarrow> n | None \<Rightarrow> 10000)"

text \<open>A full map loses its oldest-inserted key.\<close>

definition drop_oldest :: "window_options \<Rightarrow> hit_map \<Rightarrow> hit_map" where
  "drop_oldest opts hits =
     (if length hits > max_keys opts then (case hits of [] \<Rightarrow> [] | p # _ \<Rightarrow> map_delete hits (fst p)) else hits)"

definition hit :: "window_options \<Rightarrow> string \<Rightarrow> int \<Rightarrow> hit_map \<Rightarrow> bool \<times> hit_map" where
  "hit opts key now hits =
     (let (kept, hits) = prune opts key now hits; kept = kept @ [now]
      in (length kept > woLimit opts, drop_oldest opts (map_set hits key kept)))"

definition reset :: "string \<Rightarrow> hit_map \<Rightarrow> hit_map" where
  "reset key hits = map_delete hits key"

definition isOverSendLimit :: "nat \<Rightarrow> bool" where
  "isOverSendLimit recentSendCount \<longleftrightarrow> recentSendCount \<ge> OTP_SEND_LIMIT"

text \<open>\<open>otpVerifyFailures\<close> of \<open>src/modules/auth/auth.service.ts\<close>.\<close>

definition otp_verify_options :: window_options where
  "otp_verify_options = \<lparr> woLimit = OTP_VERIFY_LIMIT, woWindowMs = OTP_VERIFY_WINDOW_MS, woMaxKeys = None \<rparr>"

section \<open>Calls in sequence\<close>

datatype counter_call = Count string int | Hit string int | Reset string

definition counter_step :: "window_options \<Rightarrow> hit_map \<Rightarrow> counter_call \<Rightarrow> hit_map" where
  "counter_step opts hits c = (case c of
       Count key now \<Rightarrow> snd (count_hits opts key now hits)
     | Hit key now \<Rightarrow> snd (hit opts key now hits)
     | Reset key \<Rightarrow> reset key hits)"

text \<open>The abstract counter: every hit of a key since its last reset.\<close>

definition history_step :: "(string \<Rightarrow> int list) \<Rightarrow> counter_call \<Rightarrow> string \<Rightarrow> int list" where
  "history_step h c = (case c of
       Count key now \<Rightarrow> h
     | Hit key now \<Rightarrow> h(key := h key @ [now])
     | Reset key \<Rightarrow> h(key := []))"

definition history :: "counter_call list \<Rightarrow> string \<Rightarrow> int list" where
  "history = foldl history_step (\<lambda>_. [])"

definition counter_after :: "window_options \<Rightarrow> counter_call list \<Rightarrow> hit_map" where
  "counter_after opts = foldl (counter_step opts) []"

primrec call_time :: "counter_call \<Rightarrow> int option" where
  "call_time (Count key now) = Some now"
| "call_time (Hit key now) = Some now"
| "call_time (Reset key) = None"

primrec call_key :: "counter_call \<Rightarrow> string" where
  "call_key (Count key now) = key"
| "call_key (Hit key now) = key"
| "call_key (Reset key) = key"

text \<open>The clock does not run backwards over the calls and ends at \<open>now\<close>.\<close>

definition clock_ok :: "counter_call list \<Rightarrow> int \<Rightarrow> bool" where
  "clock_ok calls now = sorted (List.map_filter call_time calls @ [now])"

definition in_window :: "window_options \<Rightarrow> int \<Rightarrow> int list \<Rightarrow> int list" where
  "in_window opts now ts = filter (\<lambda>t. t > now - woWindowMs opts) ts"

section \<open>Maps\<close>

lemma map_get_or_set [simp]: "map_get_or d (map_set m k v) k' = (if k' = k then v else map_get_or d m k')"
  by (simp add: map_get_or_def)

lemma map_get_or_delete [simp]: "map_get_or d (map_delete m k) k' = (if k' = k then d else map_get_or d m k')"
  by (simp add: map_get_or_def)

lemma keys_map_delete [simp]: "fst ` set (map_delete m k) = fst ` set m - {k}"
  by (auto simp: map_delete_def)

lemma length_map_delete_le: "length hits \<le> n \<Longrightarrow> length (map_delete hits k) \<le> n"
  unfolding map_delete_def by (rule le_trans [OF length_filter_le])

lemma prune_get: "map_get_or [] (snd (prune opts key now hits)) k =
    (if k = key then in_window opts now (map_get_or [] hits key) else map_get_or [] hits k)"
  by (auto simp: prune_def in_window_def Let_def)

lemma prune_kept: "fst (prune opts key now hits) = in_window opts now (map_get_or [] hits key)"
  by (simp add: prune_def in_window_def Let_def)

lemma prune_distinct: "distinct (map fst hits) \<Longrightarrow> distinct (map fst (snd (prune opts key now hits)))"
  by (simp add: prune_def Let_def distinct_map_delete)

lemma prune_keys: "fst ` set (snd (prune opts key now hits)) \<subseteq> insert key (fst ` set hits)"
  by (auto simp: prune_def Let_def)

lemma prune_length: "length (snd (prune opts key now hits)) \<le> length hits"
proof (cases "fst (prune opts key now hits) = []")
  case True
  then show ?thesis by (simp add: prune_def Let_def map_delete_def)
next
  case False
  then have "map_get_or [] hits key \<noteq> []" by (auto simp: prune_def Let_def)
  then have "map_of hits key \<noteq> None" by (auto simp: map_get_or_def split: option.splits)
  then have "key \<in> fst ` set hits" by (simp add: map_of_eq_None_iff)
  then show ?thesis by (simp add: prune_def Let_def length_map_set map_delete_def)
qed

lemma count_hits_eq: "count_hits opts key now hits = (length (in_window opts now (map_get_or [] hits key)), snd (prune opts key now hits))"
  by (simp add: count_hits_def prune_kept [symmetric] split: prod.splits)

lemma hit_eq: "hit opts key now hits =
    (length (in_window opts now (map_get_or [] hits key)) \<ge> woLimit opts,
     drop_oldest opts (map_set (snd (prune opts key now hits)) key (in_window opts now (map_get_or [] hits key) @ [now])))"
  by (auto simp: hit_def prune_kept [symmetric] Let_def split: prod.splits)

lemma drop_oldest_get: "map_get_or [] (drop_oldest opts hits) k = map_get_or [] hits k \<or> map_get_or [] (drop_oldest opts hits) k = []"
  by (auto simp: drop_oldest_def split: list.splits)

lemma drop_oldest_distinct: "distinct (map fst hits) \<Longrightarrow> distinct (map fst (drop_oldest opts hits))"
  by (auto simp: drop_oldest_def distinct_map_delete split: list.splits)

lemma drop_oldest_length:
  assumes "distinct (map fst hits)" "length hits \<le> Suc (max_keys opts)"
  shows "length (drop_oldest opts hits) \<le> max_keys opts"
proof (cases hits)
  case (Cons p m)
  then have "Suc (length (map_delete hits (fst p))) = length hits" using length_map_delete [OF assms(1)] by simp
  then show ?thesis using Cons assms(2) by (auto simp: drop_oldest_def)
qed (simp add: drop_oldest_def)

section \<open>Capacity\<close>

definition counter_ok :: "window_options \<Rightarrow> hit_map \<Rightarrow> bool" where
  "counter_ok opts hits \<longleftrightarrow> distinct (map fst hits) \<and> length hits \<le> max_keys opts"

lemma counter_step_ok: "counter_ok opts hits \<Longrightarrow> counter_ok opts (counter_step opts hits c)"
proof (cases c)
  case (Hit key now)
  let ?m = "map_set (snd (prune opts key now hits)) key (in_window opts now (map_get_or [] hits key) @ [now])"
  assume ok: "counter_ok opts hits"
  then have "distinct (map fst ?m)" by (simp add: counter_ok_def prune_distinct)
  moreover have "length ?m \<le> Suc (max_keys opts)"
    using ok prune_length [of opts key now hits] by (simp add: counter_ok_def length_map_set)
  ultimately show ?thesis using Hit drop_oldest_length drop_oldest_distinct
    by (simp add: counter_ok_def counter_step_def hit_eq)
qed (auto simp: counter_ok_def counter_step_def count_hits_eq prune_distinct reset_def distinct_map_delete length_map_delete_le
  intro: le_trans [OF prune_length])

lemma counter_after_ok: "counter_ok opts (counter_after opts calls)"
proof -
  have "counter_ok opts (foldl (counter_step opts) m calls)" if "counter_ok opts m" for m
    using that by (induction calls arbitrary: m) (auto intro: counter_step_ok)
  then show ?thesis by (simp add: counter_after_def counter_ok_def)
qed

section \<open>Agreement with the history\<close>

lemma in_window_later: "now \<le> later \<Longrightarrow> in_window opts later (in_window opts now ts) = in_window opts later ts"
  unfolding in_window_def filter_filter by (rule filter_cong) auto

lemma in_window_append: "in_window opts now (ts @ us) = in_window opts now ts @ in_window opts now us"
  by (simp add: in_window_def)

lemma in_window_Nil [simp]: "in_window opts now [] = []"
  by (simp add: in_window_def)

lemma in_window_fewer: "length (in_window opts later (in_window opts now ts)) \<le> length (in_window opts later ts)"
  by (induction ts) (auto simp: in_window_def)

text \<open>Whatever was evicted and however the clock ran, the counter never reports more than happened.\<close>

definition reports_at_most :: "window_options \<Rightarrow> hit_map \<Rightarrow> (string \<Rightarrow> int list) \<Rightarrow> bool" where
  "reports_at_most opts hits h \<longleftrightarrow>
     (\<forall>k now. length (in_window opts now (map_get_or [] hits k)) \<le> length (in_window opts now (h k)))"

lemma drop_oldest_at_most: "reports_at_most opts hits h \<Longrightarrow> reports_at_most opts (drop_oldest opts hits) h"
  unfolding reports_at_most_def using drop_oldest_get by (metis in_window_Nil le0 list.size(3))

lemma counter_step_at_most:
  "reports_at_most opts hits h \<Longrightarrow> reports_at_most opts (counter_step opts hits c) (history_step h c)"
proof (cases c)
  case (Hit key now)
  assume rel: "reports_at_most opts hits h"
  have "length (in_window opts t (in_window opts now (map_get_or [] hits key) @ [now])) \<le> length (in_window opts t (h key @ [now]))" for t
    using rel le_trans [OF in_window_fewer] unfolding reports_at_most_def in_window_append by simp
  then have "reports_at_most opts (map_set (snd (prune opts key now hits)) key (in_window opts now (map_get_or [] hits key) @ [now])) (h(key := h key @ [now]))"
    using rel by (simp add: reports_at_most_def prune_get)
  then show ?thesis using Hit by (simp add: counter_step_def history_step_def hit_eq drop_oldest_at_most)
qed (auto simp: reports_at_most_def counter_step_def history_step_def count_hits_eq prune_get reset_def intro: le_trans [OF in_window_fewer])

lemma counter_never_overreports: "reports_at_most opts (counter_after opts calls) (history calls)"
proof -
  have "reports_at_most opts (foldl (counter_step opts) m calls) (foldl history_step h calls)" if "reports_at_most opts m h" for m h
    using that by (induction calls arbitrary: m h) (auto intro: counter_step_at_most)
  then show ?thesis by (simp add: counter_after_def history_def reports_at_most_def map_get_or_def)
qed

text \<open>Without eviction and with a clock that does not run backwards, it reports exactly what happened.\<close>

definition reports_exactly :: "window_options \<Rightarrow> int \<Rightarrow> hit_map \<Rightarrow> (string \<Rightarrow> int list) \<Rightarrow> bool" where
  "reports_exactly opts now hits h \<longleftrightarrow>
     (\<forall>k later. now \<le> later \<longrightarrow> in_window opts later (map_get_or [] hits k) = in_window opts later (h k))"

lemma reports_exactly_later: "reports_exactly opts now hits h \<Longrightarrow> now \<le> later \<Longrightarrow> reports_exactly opts later hits h"
  by (simp add: reports_exactly_def)

lemma drop_oldest_none: "length hits \<le> max_keys opts \<Longrightarrow> drop_oldest opts hits = hits"
  by (simp add: drop_oldest_def)

lemma length_le_card_keys:
  "distinct (map fst m) \<Longrightarrow> fst ` set m \<subseteq> K \<Longrightarrow> finite K \<Longrightarrow> length m \<le> card K"
  using card_mono [of K "fst ` set m"] distinct_card [of "map fst m"] by simp

definition within_capacity :: "window_options \<Rightarrow> string set \<Rightarrow> hit_map \<Rightarrow> bool" where
  "within_capacity opts K hits \<longleftrightarrow> distinct (map fst hits) \<and> fst ` set hits \<subseteq> K \<and> finite K \<and> card K \<le> max_keys opts"

lemma within_capacity_set: "within_capacity opts K hits \<Longrightarrow> key \<in> K \<Longrightarrow> within_capacity opts K (map_set (snd (prune opts key now hits)) key ts)"
  using prune_keys [of opts key now hits] by (auto simp: within_capacity_def prune_distinct)

lemma within_capacity_kept: "within_capacity opts K hits \<Longrightarrow> drop_oldest opts hits = hits"
  using length_le_card_keys [of hits K] by (intro drop_oldest_none) (simp add: within_capacity_def)

lemma counter_step_capacity:
  "within_capacity opts K hits \<Longrightarrow> call_key c \<in> K \<Longrightarrow> within_capacity opts K (counter_step opts hits c)"
proof (cases c)
  case (Count key now)
  assume "within_capacity opts K hits" "call_key c \<in> K"
  then show ?thesis using Count prune_keys [of opts key now hits]
    by (auto simp: counter_step_def count_hits_eq within_capacity_def prune_distinct)
next
  case (Hit key now)
  assume cap: "within_capacity opts K hits" "call_key c \<in> K"
  then have "within_capacity opts K (map_set (snd (prune opts key now hits)) key (in_window opts now (map_get_or [] hits key) @ [now]))"
    using Hit within_capacity_set by simp
  then show ?thesis using Hit by (simp add: counter_step_def hit_eq within_capacity_kept [of opts K])
qed (auto simp: within_capacity_def counter_step_def reset_def distinct_map_delete)

lemma counter_step_exact:
  assumes cap: "within_capacity opts K hits" "call_key c \<in> K" and rel: "reports_exactly opts now hits h"
    and time: "\<And>t. call_time c = Some t \<Longrightarrow> now \<le> t"
  shows "reports_exactly opts (case call_time c of Some t \<Rightarrow> t | None \<Rightarrow> now) (counter_step opts hits c) (history_step h c)"
proof (cases c)
  case (Count key t)
  then show ?thesis using rel time
    by (auto simp: reports_exactly_def counter_step_def history_step_def count_hits_eq prune_get in_window_later)
next
  case (Hit key t)
  let ?m = "map_set (snd (prune opts key t hits)) key (in_window opts t (map_get_or [] hits key) @ [t])"
  have "now \<le> t" using Hit time by simp
  then have "reports_exactly opts t ?m (h(key := h key @ [t]))"
    using rel by (simp add: reports_exactly_def prune_get in_window_append in_window_later)
  moreover have "drop_oldest opts ?m = ?m"
    by (rule within_capacity_kept, rule within_capacity_set) (use Hit cap in simp_all)
  ultimately show ?thesis using Hit by (simp add: counter_step_def history_step_def hit_eq)
next
  case (Reset key)
  then show ?thesis using rel by (simp add: reports_exactly_def counter_step_def history_step_def reset_def)
qed

lemma counter_run_exact:
  assumes "within_capacity opts K hits" "call_key ` set calls \<subseteq> K" "reports_exactly opts start hits h"
    "sorted (start # List.map_filter call_time calls @ [now])"
  shows "reports_exactly opts now (foldl (counter_step opts) hits calls) (foldl history_step h calls)"
  using assms
proof (induction calls arbitrary: hits h start)
  case Nil
  then show ?case using reports_exactly_later by (simp add: List.map_filter_def)
next
  case (Cons c calls)
  let ?t = "case call_time c of Some t \<Rightarrow> t | None \<Rightarrow> start"
  have "within_capacity opts K (counter_step opts hits c)" using counter_step_capacity Cons.prems(1,2) by simp
  moreover have "reports_exactly opts ?t (counter_step opts hits c) (history_step h c)"
  proof (rule counter_step_exact [OF Cons.prems(1)])
    show "start \<le> t" if "call_time c = Some t" for t using that Cons.prems(4) by (simp add: List.map_filter_def)
  qed (use Cons.prems in simp_all)
  moreover have "sorted (?t # List.map_filter call_time calls @ [now])"
    using Cons.prems(4) by (cases "call_time c") (simp_all add: List.map_filter_def)
  ultimately show ?case using Cons.IH Cons.prems(2) by simp
qed

lemma counter_is_history:
  assumes "clock_ok calls now" "card (call_key ` set calls) \<le> max_keys opts"
  shows "reports_exactly opts now (counter_after opts calls) (history calls)"
proof -
  define start where "start = (case List.map_filter call_time calls @ [now] of t # _ \<Rightarrow> t)"
  have "sorted (start # List.map_filter call_time calls @ [now])"
    using assms(1) unfolding clock_ok_def start_def by (cases "List.map_filter call_time calls") auto
  then show ?thesis unfolding counter_after_def history_def
    using assms(2) by (intro counter_run_exact [where K = "call_key ` set calls"])
      (auto simp: within_capacity_def reports_exactly_def map_get_or_def)
qed

text \<open>Calls in which every hit was let through by a look at the counter below the limit.\<close>

definition guarded :: "window_options \<Rightarrow> counter_call list \<Rightarrow> bool" where
  "guarded opts calls \<longleftrightarrow>
     (\<forall>pre key now post. calls = pre @ Hit key now # post \<longrightarrow> length (in_window opts now (history pre key)) < woLimit opts)"

definition in_interval :: "window_options \<Rightarrow> int \<Rightarrow> int list \<Rightarrow> int list" where
  "in_interval opts until ts = filter (\<lambda>t. t > until - woWindowMs opts \<and> t \<le> until) ts"

lemma history_snoc: "history (calls @ [c]) = history_step (history calls) c"
  by (simp add: history_def)

lemma history_times: "t \<in> set (history calls k) \<Longrightarrow> t \<in> set (List.map_filter call_time calls)"
proof (induction calls rule: rev_induct)
  case (snoc c calls)
  then show ?case
    by (cases c) (auto simp: history_snoc history_step_def List.map_filter_def split: if_splits)
qed (simp add: history_def)

lemma guarded_prefix: "guarded opts (calls @ later) \<Longrightarrow> guarded opts calls"
  unfolding guarded_def by (metis append.assoc append_Cons)

text \<open>Then no interval as long as the window holds more hits than the limit, since the last reset.\<close>

lemma guarded_bound:
  assumes "guarded opts calls" "sorted (List.map_filter call_time calls)"
  shows "length (in_interval opts until (history calls k)) \<le> woLimit opts"
  using assms
proof (induction calls rule: rev_induct)
  case (snoc c calls)
  have IH: "length (in_interval opts until (history calls k)) \<le> woLimit opts"
    using snoc guarded_prefix by (simp add: List.map_filter_def sorted_append)
  show ?case
  proof (cases "\<exists>now. c = Hit k now \<and> now \<le> until")
    case True
    then obtain now where c: "c = Hit k now" and le: "now \<le> until" by blast
    have before: "t \<le> now" if "t \<in> set (history calls k)" for t
      using history_times [OF that] snoc.prems(2) c by (auto simp: List.map_filter_def sorted_append)
    have "length (in_interval opts until (history calls k)) \<le> length (in_window opts now (history calls k))"
    proof -
      have "in_interval opts until (history calls k) = filter (\<lambda>t. t > until - woWindowMs opts) (in_window opts now (history calls k))"
        unfolding in_interval_def in_window_def filter_filter
        by (rule filter_cong) (use le order_trans [OF before le] in auto)
      then show ?thesis by simp
    qed
    also have "\<dots> < woLimit opts" using snoc.prems(1) c unfolding guarded_def by blast
    finally show ?thesis using c by (simp add: history_snoc history_step_def in_interval_def)
  next
    case False
    then show ?thesis using IH by (cases c) (auto simp: history_snoc history_step_def in_interval_def)
  qed
qed (simp add: in_interval_def history_def)

text \<open>The counter is a sliding window over the full history: after any sequence of counts, hits and resets whose
  clock does not run backwards and that touches at most \<open>maxKeys\<close> keys, it reports exactly the hits of the key within the last
  \<open>windowMs\<close> since its last reset, although it stores only a part of them, and the map never outgrows its capacity.\<close>

theorem counter_counts_the_window:
  assumes "clock_ok calls now" "card (call_key ` set calls) \<le> max_keys opts"
  shows "fst (count_hits opts key now (counter_after opts calls)) = length (in_window opts now (history calls key)) \<and>
    length (counter_after opts calls) \<le> max_keys opts"
  using counter_is_history [OF assms] counter_after_ok [of opts calls]
  by (simp add: count_hits_eq reports_exactly_def counter_ok_def)

theorem counter_counts_the_window_witness:
  "fst (count_hits otp_verify_options ''a'' 1000000 (counter_after otp_verify_options
      [Hit ''a'' 0, Hit ''b'' 5, Hit ''a'' 200000, Count ''a'' 900000, Hit ''a'' 950000])) = 2"
  using counter_counts_the_window [of "[Hit ''a'' 0, Hit ''b'' 5, Hit ''a'' 200000, Count ''a'' 900000, Hit ''a'' 950000]"
      1000000 otp_verify_options "''a''"]
  by (simp add: clock_ok_def List.map_filter_def otp_verify_options_def max_keys_def history_def history_step_def
      in_window_def OTP_VERIFY_WINDOW_MS_def card_insert_if)


end
