(* ===== verification/AuthFlow.thy ===== *)
theory AuthFlow
  imports OtpLimit KeepBest "HOL-Library.List_Lexorder" "HOL-Library.Char_ord"
begin

text \<open>
  \<open>src/modules/auth/auth.service.ts\<close> (one-time codes, password reset, refresh tokens), \<open>auth/otp-hash.ts\<close> and
  \<open>common/utils/account-identifier.ts\<close>. The state is the rows of the three tables the service reads and writes
  (accounts, codes, refresh tokens) and the in-process failure counter; each handler is a function from the state
  to an answer and the state it leaves. Hashing (SHA-256, HMAC, bcrypt) and the verification and
  signing of JSON web tokens are third-party code: fields of \<open>auth_env\<close>. The random values a handler draws (code, ids, token, salt)
  and the instant its clock shows are arguments.
\<close>

section \<open>Phone numbers\<close>

definition presentation_char :: "char \<Rightarrow> bool" where
  "presentation_char c \<longleftrightarrow> js_space c \<or> c \<in> set ''().-''"

definition local_digits :: "string \<Rightarrow> bool" where
  "local_digits s \<longleftrightarrow> (case s of [] \<Rightarrow> False | c # ds \<Rightarrow> c = CHR ''0'' \<and> list_all is_digit ds \<and> (length ds = 9 \<or> length ds = 10))"

definition strip_country :: "string \<Rightarrow> string" where
  "strip_country s =
     (if starts_with ''+84'' s then CHR ''0'' # drop 3 s else if starts_with ''84'' s then CHR ''0'' # drop 2 s else s)"

definition plus_digits :: "string \<Rightarrow> bool" where
  "plus_digits s = (let ds = (if starts_with ''+'' s then tl s else s) in ds \<noteq> [] \<and> list_all is_digit ds)"

definition normalizeVietnamPhone :: "string \<Rightarrow> string option" where
  "normalizeVietnamPhone value =
     (let compact = filter (\<lambda>c. \<not> presentation_char c) (js_trim value)
      in if \<not> plus_digits compact then None
         else let normalized = strip_country compact in if local_digits normalized then Some normalized else None)"

text \<open>The SQL expression over the stored column.\<close>

definition legacyNormalizedPhoneSql :: "string \<Rightarrow> string" where
  "legacyNormalizedPhoneSql column =
     (let digits = filter is_digit column in if starts_with ''84'' digits then CHR ''0'' # drop 2 digits else digits)"

section \<open>State\<close>

datatype account_status = ACTIVE_ACCOUNT | BLOCKED_ACCOUNT | UNVERIFIED_ACCOUNT

record account =
  acId :: string
  acPhone :: string
  acPasswordHash :: string
  acStatus :: account_status

datatype otp_type = REGISTER_OTP | FORGOT_PASSWORD_OTP

record otp_row =
  otId :: string
  otAccountId :: string
  otOtp :: string
  otType :: otp_type
  otIsUsed :: bool
  otCreatedAt :: int
  otExpiresAt :: int

datatype app_type = OWNER_APP | EMPLOYEE_APP

record refresh_row =
  rfId :: string
  rfAccountId :: string
  rfAppType :: app_type
  rfTokenHash :: string
  rfIssuedAt :: int
  rfExpiresAt :: int
  rfRevokedAt :: "int option"

record auth_state =
  auAccounts :: "account list"
  auOtps :: "otp_row list"
  auTokens :: "refresh_row list"
  auFailures :: hit_map

record reset_claims =
  rcSub :: "string option"
  rcTokenUse :: "string option"
  rcPwf :: "string option"

record refresh_claims =
  rkSub :: string
  rkTokenUse :: "string option"
  rkIat :: "int option"

record auth_env =
  aeSecret :: string
  aeHmacRaw :: "string \<Rightarrow> string \<Rightarrow> string"
  aeHmacHex :: "string \<Rightarrow> string \<Rightarrow> string"
  aeSha256Hex :: "string \<Rightarrow> string"
  aeBcryptHash :: "string \<Rightarrow> string \<Rightarrow> string"
  aeBcryptCompare :: "string \<Rightarrow> string \<Rightarrow> bool"
  aeVerifyReset :: "int \<Rightarrow> string \<Rightarrow> reset_claims option"
  aeVerifyRefresh :: "int \<Rightarrow> string \<Rightarrow> refresh_claims option"
  aeTokenExp :: "string \<Rightarrow> int option"
  aeLegacyWindow :: "(int \<times> int) option"
  aeReadOnly :: bool

datatype auth_error = InvalidOtp | TooManyRequests | Unauthorized | InvalidResetToken | ValidationError | DeliveryFailed

section \<open>Codes at rest\<close>

definition hashOtp :: "auth_env \<Rightarrow> string \<Rightarrow> string" where
  "hashOtp env code = aeHmacHex env (aeHmacRaw env (aeSecret env) ''timeso:otp-hash:v1'') code"

definition six_digits :: "string \<Rightarrow> bool" where
  "six_digits s \<longleftrightarrow> length s = 6 \<and> list_all is_digit s"

definition matchesStoredOtp :: "auth_env \<Rightarrow> string \<Rightarrow> string \<Rightarrow> bool" where
  "matchesStoredOtp env storedValue submittedCode \<longleftrightarrow>
     storedValue \<noteq> [] \<and> submittedCode \<noteq> [] \<and>
     (storedValue = hashOtp env submittedCode \<or> six_digits submittedCode \<and> storedValue = submittedCode)"

section \<open>Looking up an account\<close>

definition singleMatchOrNull :: "'a list \<Rightarrow> 'a option" where
  "singleMatchOrNull xs = (case xs of [x] \<Rightarrow> Some x | _ \<Rightarrow> None)"

definition findByPhone :: "string \<Rightarrow> account list \<Rightarrow> account option" where
  "findByPhone phone accounts =
     (case normalizeVietnamPhone phone of
        None \<Rightarrow> None
      | Some p \<Rightarrow> singleMatchOrNull (take 2 (filter (\<lambda>a. acPhone a = p \<or> legacyNormalizedPhoneSql (acPhone a) = p) accounts)))"

section \<open>Sending codes\<close>

text \<open>\<open>update({ accountId, type, isUsed: false }, { isUsed: true })\<close>.\<close>

definition use_codes :: "string \<Rightarrow> otp_type \<Rightarrow> otp_row list \<Rightarrow> otp_row list" where
  "use_codes accountId type rows =
     map (\<lambda>r. if otAccountId r = accountId \<and> otType r = type \<and> \<not> otIsUsed r then r\<lparr>otIsUsed := True\<rparr> else r) rows"

definition new_code :: "auth_env \<Rightarrow> int \<Rightarrow> string \<Rightarrow> string \<Rightarrow> string \<Rightarrow> otp_type \<Rightarrow> otp_row" where
  "new_code env now rowId code accountId type =
     \<lparr> otId = rowId, otAccountId = accountId, otOtp = hashOtp env code, otType = type, otIsUsed = False,
       otCreatedAt = now, otExpiresAt = now + 10 * 60 * 1000 \<rparr>"

definition recent_sends :: "int \<Rightarrow> string \<Rightarrow> otp_type \<Rightarrow> otp_row list \<Rightarrow> nat" where
  "recent_sends now accountId type rows =
     length (filter (\<lambda>r. otAccountId r = accountId \<and> otType r = type \<and> otCreatedAt r > now - OTP_SEND_WINDOW_MS) rows)"

definition assertOtpSendAllowed :: "int \<Rightarrow> string \<Rightarrow> otp_type \<Rightarrow> auth_state \<Rightarrow> auth_error + unit" where
  "assertOtpSendAllowed now accountId type st = fail_if (isOverSendLimit (recent_sends now accountId type (auOtps st))) TooManyRequests"

definition store_code :: "auth_env \<Rightarrow> int \<Rightarrow> string \<Rightarrow> string \<Rightarrow> string \<Rightarrow> otp_type \<Rightarrow> auth_state \<Rightarrow> auth_state" where
  "store_code env now rowId code accountId type st =
     st\<lparr>auOtps := use_codes accountId type (auOtps st) @ [new_code env now rowId code accountId type]\<rparr>"

definition resendOtp ::
  "auth_env \<Rightarrow> int \<Rightarrow> string \<Rightarrow> string \<Rightarrow> string \<Rightarrow> otp_type \<Rightarrow> auth_state \<Rightarrow> (auth_error + string) \<times> auth_state" where
  "resendOtp env now rowId code phone type st =
     (case findByPhone phone (auAccounts st) of
        None \<Rightarrow> (Inl Unauthorized, st)
      | Some user \<Rightarrow>
          if type = REGISTER_OTP \<and> acStatus user \<noteq> UNVERIFIED_ACCOUNT then (Inl Unauthorized, st)
          else case assertOtpSendAllowed now (acId user) type st of
              Inl e \<Rightarrow> (Inl e, st)
            | Inr _ \<Rightarrow> (Inr (acPhone user), store_code env now rowId code (acId user) type st))"

text \<open>\<open>forgotPassword\<close> is not one transaction: its check, its update and its insert are three statements. The message is
  sent after the code is stored, and a failed delivery is an error that leaves the code in place.\<close>

definition forgot_check :: "int \<Rightarrow> string \<Rightarrow> auth_state \<Rightarrow> auth_error + account" where
  "forgot_check now phone st =
     (case findByPhone phone (auAccounts st) of
        None \<Rightarrow> Inl Unauthorized
      | Some user \<Rightarrow> and_then (assertOtpSendAllowed now (acId user) FORGOT_PASSWORD_OTP st) (\<lambda>_. Inr user))"

definition forgot_invalidate :: "account \<Rightarrow> auth_state \<Rightarrow> auth_state" where
  "forgot_invalidate user st = st\<lparr>auOtps := use_codes (acId user) FORGOT_PASSWORD_OTP (auOtps st)\<rparr>"

definition forgot_save :: "auth_env \<Rightarrow> int \<Rightarrow> string \<Rightarrow> string \<Rightarrow> account \<Rightarrow> auth_state \<Rightarrow> auth_state" where
  "forgot_save env now rowId code user st =
     st\<lparr>auOtps := auOtps st @ [new_code env now rowId code (acId user) FORGOT_PASSWORD_OTP]\<rparr>"

definition forgotPassword ::
  "auth_env \<Rightarrow> int \<Rightarrow> string \<Rightarrow> string \<Rightarrow> bool \<Rightarrow> string \<Rightarrow> auth_state \<Rightarrow> (auth_error + string) \<times> auth_state" where
  "forgotPassword env now rowId code delivered phone st =
     (case forgot_check now phone st of
        Inl e \<Rightarrow> (Inl e, st)
      | Inr user \<Rightarrow> (if delivered then Inr (acPhone user) else Inl DeliveryFailed,
                      forgot_save env now rowId code user (forgot_invalidate user st)))"

section \<open>Refresh tokens\<close>

definition MAX_LIVE_REFRESH_TOKENS :: nat where "MAX_LIVE_REFRESH_TOKENS = 5"

definition DEFAULT_REFRESH_TTL_MS :: int where "DEFAULT_REFRESH_TTL_MS = 7 * 24 * 60 * 60 * 1000"

definition hashRefreshToken :: "auth_env \<Rightarrow> string \<Rightarrow> string" where
  "hashRefreshToken env token = ''sha256:'' @ aeSha256Hex env token"

definition refreshTokenExpiry :: "auth_env \<Rightarrow> string \<Rightarrow> int \<Rightarrow> int" where
  "refreshTokenExpiry env token issuedAt =
     (case aeTokenExp env token of Some seconds \<Rightarrow> seconds * 1000 | None \<Rightarrow> issuedAt + DEFAULT_REFRESH_TTL_MS)"

definition live_row :: "string \<Rightarrow> app_type \<Rightarrow> refresh_row \<Rightarrow> bool" where
  "live_row accountId app r \<longleftrightarrow> rfAccountId r = accountId \<and> rfAppType r = app \<and> rfRevokedAt r = None"

text \<open>\<open>order: issuedAt DESC\<close>; rows of one instant come in the order of their insertion.\<close>

definition stale_ids :: "string \<Rightarrow> app_type \<Rightarrow> refresh_row list \<Rightarrow> string list" where
  "stale_ids accountId app rows =
     map rfId (drop MAX_LIVE_REFRESH_TOKENS (sort_key (\<lambda>r. - rfIssuedAt r) (filter (live_row accountId app) rows)))"

definition revokeStaleRefreshTokens :: "int \<Rightarrow> string \<Rightarrow> app_type \<Rightarrow> refresh_row list \<Rightarrow> refresh_row list" where
  "revokeStaleRefreshTokens now accountId app rows =
     (let stale = stale_ids accountId app rows;
          revoked = map (\<lambda>r. if rfId r \<in> set stale then r\<lparr>rfRevokedAt := Some now\<rparr> else r) rows
      in filter (\<lambda>r. \<not> (rfAccountId r = accountId \<and> rfAppType r = app \<and> rfExpiresAt r < now)) revoked)"

datatype login_result = RequiresVerification string | SignedIn string

definition login :: "auth_env \<Rightarrow> int \<Rightarrow> string \<Rightarrow> string \<Rightarrow> account \<Rightarrow> app_type \<Rightarrow> auth_state \<Rightarrow> login_result \<times> auth_state" where
  "login env now rowId token user app st =
     (if acStatus user = UNVERIFIED_ACCOUNT then (RequiresVerification (acPhone user), st)
      else if aeReadOnly env then (SignedIn token, st)
      else
        let row = \<lparr> rfId = rowId, rfAccountId = acId user, rfAppType = app, rfTokenHash = hashRefreshToken env token,
              rfIssuedAt = now, rfExpiresAt = refreshTokenExpiry env token now, rfRevokedAt = None \<rparr>
        in (SignedIn token, st\<lparr>auTokens := revokeStaleRefreshTokens now (acId user) app (auTokens st @ [row])\<rparr>))"

definition legacy_match :: "auth_env \<Rightarrow> string \<Rightarrow> int \<Rightarrow> refresh_row \<Rightarrow> bool" where
  "legacy_match env token iatMs r \<longleftrightarrow>
     starts_with ''$2'' (rfTokenHash r) \<and> \<bar>rfIssuedAt r - iatMs\<bar> \<le> 5000 \<and> aeBcryptCompare env token (rfTokenHash r)"

definition findLegacyRefreshToken ::
  "auth_env \<Rightarrow> int \<Rightarrow> string \<Rightarrow> int option \<Rightarrow> string \<Rightarrow> app_type \<Rightarrow> refresh_row list \<Rightarrow> refresh_row option" where
  "findLegacyRefreshToken env now token issuedAtSeconds accountId app rows =
     (case issuedAtSeconds of
        None \<Rightarrow> None
      | Some iat \<Rightarrow> find (legacy_match env token (iat * 1000)) (filter (\<lambda>r. live_row accountId app r \<and> rfExpiresAt r > now) rows))"

definition isLegacyUntypedTokenAccepted :: "auth_env \<Rightarrow> int \<Rightarrow> bool" where
  "isLegacyUntypedTokenAccepted env now =
     (case aeLegacyWindow env of Some (startedAt, cutoffAt) \<Rightarrow> now \<ge> startedAt \<and> now < cutoffAt | None \<Rightarrow> False)"

text \<open>\<open>refreshToken\<close> up to the row it rotates; every failure becomes one \<open>Unauthorized\<close>.\<close>

definition refresh_find :: "auth_env \<Rightarrow> int \<Rightarrow> string \<Rightarrow> app_type \<Rightarrow> auth_state \<Rightarrow> (string \<times> refresh_row) option" where
  "refresh_find env now token app st =
     (case aeVerifyRefresh env now token of
        None \<Rightarrow> None
      | Some claims \<Rightarrow>
          if \<not> (rkTokenUse claims = Some ''refresh'' \<or> rkTokenUse claims = None \<and> isLegacyUntypedTokenAccepted env now) then None
          else map_option (Pair (rkSub claims))
            (case find (\<lambda>r. live_row (rkSub claims) app r \<and> rfTokenHash r = hashRefreshToken env token \<and> rfExpiresAt r > now) (auTokens st) of
                Some r \<Rightarrow> Some r
              | None \<Rightarrow> findLegacyRefreshToken env now token (rkIat claims) (rkSub claims) app (auTokens st)))"

text \<open>\<open>update({ id, revokedAt: IsNull() }, { revokedAt })\<close> answers whether a row was affected.\<close>

definition revoke_row :: "int \<Rightarrow> string \<Rightarrow> refresh_row list \<Rightarrow> bool \<times> refresh_row list" where
  "revoke_row now i rows =
     (list_ex (\<lambda>r. rfId r = i \<and> rfRevokedAt r = None) rows,
      map (\<lambda>r. if rfId r = i \<and> rfRevokedAt r = None then r\<lparr>rfRevokedAt := Some now\<rparr> else r) rows)"

definition refresh_rotate ::
  "auth_env \<Rightarrow> int \<Rightarrow> string \<Rightarrow> string \<Rightarrow> string \<times> refresh_row \<Rightarrow> app_type \<Rightarrow> auth_state \<Rightarrow> (auth_error + login_result) \<times> auth_state" where
  "refresh_rotate env now rowId newToken found app st =
     (let (affected, rows) = revoke_row now (rfId (snd found)) (auTokens st); st' = st\<lparr>auTokens := rows\<rparr>
      in if \<not> affected then (Inl Unauthorized, st')
         else case find (\<lambda>a. acId a = fst found) (auAccounts st) of
             None \<Rightarrow> (Inl Unauthorized, st')
           | Some user \<Rightarrow> map_prod Inr id (login env now rowId newToken user app st'))"

definition refreshToken ::
  "auth_env \<Rightarrow> int \<Rightarrow> string \<Rightarrow> string \<Rightarrow> string \<Rightarrow> app_type \<Rightarrow> auth_state \<Rightarrow> (auth_error + login_result) \<times> auth_state" where
  "refreshToken env now rowId newToken token app st =
     (case refresh_find env now token app st of
        None \<Rightarrow> (Inl Unauthorized, st)
      | Some found \<Rightarrow> refresh_rotate env now rowId newToken found app st)"

section \<open>Entering a code\<close>

text \<open>The newest unused code: \<open>createdAt DESC, id DESC\<close>.\<close>

definition newer_code :: "otp_row \<Rightarrow> otp_row \<Rightarrow> bool" where
  "newer_code r best \<longleftrightarrow> otCreatedAt r > otCreatedAt best \<or> otCreatedAt r = otCreatedAt best \<and> otId r > otId best"

definition live_codes :: "string \<Rightarrow> otp_type \<Rightarrow> otp_row list \<Rightarrow> otp_row list" where
  "live_codes accountId type rows = filter (\<lambda>r. otAccountId r = accountId \<and> otType r = type \<and> \<not> otIsUsed r) rows"

definition current_code :: "string \<Rightarrow> otp_type \<Rightarrow> otp_row list \<Rightarrow> otp_row option" where
  "current_code accountId type rows = keep_best newer_code (live_codes accountId type rows)"

definition code_accepted :: "auth_env \<Rightarrow> int \<Rightarrow> string \<Rightarrow> otp_row option \<Rightarrow> bool" where
  "code_accepted env now otp row =
     (case row of None \<Rightarrow> False | Some r \<Rightarrow> matchesStoredOtp env (otOtp r) otp \<and> otExpiresAt r > now)"

definition count_failures :: "int \<Rightarrow> string \<Rightarrow> auth_state \<Rightarrow> nat \<times> auth_state" where
  "count_failures now accountId st =
     (let (n, f) = count_hits otp_verify_options accountId now (auFailures st) in (n, st\<lparr>auFailures := f\<rparr>))"

definition code_missed :: "int \<Rightarrow> string \<Rightarrow> auth_state \<Rightarrow> auth_state" where
  "code_missed now accountId st = st\<lparr>auFailures := snd (hit otp_verify_options accountId now (auFailures st))\<rparr>"

definition code_used :: "string \<Rightarrow> otp_row \<Rightarrow> auth_state \<Rightarrow> auth_state" where
  "code_used accountId row st =
     st\<lparr>auFailures := reset accountId (auFailures st),
        auOtps := map (\<lambda>r. if otId r = otId row then r\<lparr>otIsUsed := True\<rparr> else r) (auOtps st)\<rparr>"

definition activate_account :: "string \<Rightarrow> auth_state \<Rightarrow> auth_state" where
  "activate_account accountId st =
     st\<lparr>auOtps := use_codes accountId REGISTER_OTP (auOtps st),
        auAccounts := map (\<lambda>a. if acId a = accountId then a\<lparr>acStatus := ACTIVE_ACCOUNT\<rparr> else a) (auAccounts st)\<rparr>"

datatype verify_result = Activated login_result | ResetAllowed string

text \<open>\<open>verifyOtp\<close>, with the account row locked. A forgot-password code answers the account id the reset token is bound to.\<close>

definition verify_code ::
  "auth_env \<Rightarrow> int \<Rightarrow> account \<Rightarrow> string \<Rightarrow> otp_type \<Rightarrow> auth_state \<Rightarrow> (auth_error + unit) \<times> auth_state" where
  "verify_code env now user otp type st =
     (let (failures, st) = count_failures now (acId user) st
      in if failures \<ge> OTP_VERIFY_LIMIT then (Inl TooManyRequests, st)
         else if type = REGISTER_OTP \<and> acStatus user \<noteq> UNVERIFIED_ACCOUNT then (Inl InvalidOtp, st)
         else
           let otpRecord = current_code (acId user) type (auOtps st)
           in case otpRecord of
               Some row \<Rightarrow>
                 if code_accepted env now otp otpRecord
                 then (Inr (), (if type = REGISTER_OTP then activate_account (acId user) else id) (code_used (acId user) row st))
                 else (Inl InvalidOtp, code_missed now (acId user) st)
             | None \<Rightarrow> (Inl InvalidOtp, code_missed now (acId user) st))"

definition verifyOtp ::
  "auth_env \<Rightarrow> int \<Rightarrow> string \<Rightarrow> string \<Rightarrow> string \<Rightarrow> string \<Rightarrow> otp_type \<Rightarrow> app_type \<Rightarrow> auth_state \<Rightarrow> (auth_error + verify_result) \<times> auth_state" where
  "verifyOtp env now rowId token phone otp type app st =
     (case findByPhone phone (auAccounts st) of
        None \<Rightarrow> (Inl InvalidOtp, st)
      | Some user \<Rightarrow>
          (case verify_code env now user otp type st of
             (Inl e, st') \<Rightarrow> (Inl e, st')
           | (Inr _, st') \<Rightarrow>
               if type = REGISTER_OTP
               then map_prod (\<lambda>r. Inr (Activated r)) id (login env now rowId token (user\<lparr>acStatus := ACTIVE_ACCOUNT\<rparr>) app st')
               else (Inr (ResetAllowed (acId user)), st')))"

section \<open>Resetting the password\<close>

definition MIN_PASSWORD_LENGTH :: nat where "MIN_PASSWORD_LENGTH = 6"

definition passwordFingerprint :: "auth_env \<Rightarrow> string \<Rightarrow> string \<Rightarrow> string" where
  "passwordFingerprint env accountId passwordHash = take 32 (aeSha256Hex env (accountId @ '':'' @ passwordHash))"

text \<open>The claims \<open>issuePasswordResetToken\<close> signs.\<close>

definition reset_claims_of :: "auth_env \<Rightarrow> account \<Rightarrow> reset_claims" where
  "reset_claims_of env a =
     \<lparr> rcSub = Some (acId a), rcTokenUse = Some ''password_reset'', rcPwf = Some (passwordFingerprint env (acId a) (acPasswordHash a)) \<rparr>"

definition phone_agrees :: "string option \<Rightarrow> account \<Rightarrow> bool" where
  "phone_agrees phone a =
     (case phone of
        None \<Rightarrow> True
      | Some p \<Rightarrow> p = [] \<or>
          (let accountPhone = (case normalizeVietnamPhone (acPhone a) of Some q \<Rightarrow> q | None \<Rightarrow> acPhone a)
           in normalizeVietnamPhone p = Some accountPhone))"

definition password_changed :: "int \<Rightarrow> string \<Rightarrow> string \<Rightarrow> auth_state \<Rightarrow> auth_state" where
  "password_changed now accountId hashed st =
     st\<lparr>auAccounts := map (\<lambda>a. if acId a = accountId then a\<lparr>acPasswordHash := hashed\<rparr> else a) (auAccounts st),
        auOtps := use_codes accountId FORGOT_PASSWORD_OTP (auOtps st),
        auTokens := map (\<lambda>r. if rfAccountId r = accountId \<and> rfRevokedAt r = None then r\<lparr>rfRevokedAt := Some now\<rparr> else r) (auTokens st)\<rparr>"

definition resetPassword ::
  "auth_env \<Rightarrow> int \<Rightarrow> string \<Rightarrow> string \<Rightarrow> string \<Rightarrow> string option \<Rightarrow> auth_state \<Rightarrow> (auth_error + unit) \<times> auth_state" where
  "resetPassword env now salt resetToken newPassword phone st =
     (if length newPassword < MIN_PASSWORD_LENGTH then (Inl ValidationError, st)
      else if resetToken = [] then (Inl InvalidResetToken, st)
      else case aeVerifyReset env now resetToken of
          None \<Rightarrow> (Inl InvalidResetToken, st)
        | Some claims \<Rightarrow>
            (case (rcSub claims, rcPwf claims) of
               (Some sub, Some pwf) \<Rightarrow>
                 if rcTokenUse claims \<noteq> Some ''password_reset'' then (Inl InvalidResetToken, st)
                 else (case find (\<lambda>a. acId a = sub) (auAccounts st) of
                     None \<Rightarrow> (Inl InvalidResetToken, st)
                   | Some a \<Rightarrow>
                       if passwordFingerprint env (acId a) (acPasswordHash a) \<noteq> pwf \<or> \<not> phone_agrees phone a
                       then (Inl InvalidResetToken, st)
                       else (Inr (), password_changed now (acId a) (aeBcryptHash env salt newPassword) st))
             | _ \<Rightarrow> (Inl InvalidResetToken, st)))"

section \<open>Requests in sequence\<close>

datatype auth_request =
    Resend int string string string otp_type
  | Forgot int string string bool string
  | Verify int string string string string otp_type app_type
  | ResetPassword int string string string "string option"
  | Refresh int string string string app_type
  | SignIn int string string string app_type

primrec request_time :: "auth_request \<Rightarrow> int" where
  "request_time (Resend now rowId code phone type) = now"
| "request_time (Forgot now rowId code delivered phone) = now"
| "request_time (Verify now rowId token phone otp type app) = now"
| "request_time (ResetPassword now salt resetToken newPassword phone) = now"
| "request_time (Refresh now rowId newToken token app) = now"
| "request_time (SignIn now rowId token accountId app) = now"

primrec serve :: "auth_env \<Rightarrow> auth_request \<Rightarrow> auth_state \<Rightarrow> bool \<times> auth_state" where
  "serve env (Resend now rowId code phone type) st = map_prod (Not \<circ> isl) id (resendOtp env now rowId code phone type st)"
| "serve env (Forgot now rowId code delivered phone) st = map_prod (Not \<circ> isl) id (forgotPassword env now rowId code delivered phone st)"
| "serve env (Verify now rowId token phone otp type app) st = map_prod (Not \<circ> isl) id (verifyOtp env now rowId token phone otp type app st)"
| "serve env (ResetPassword now salt resetToken newPassword phone) st =
     map_prod (Not \<circ> isl) id (resetPassword env now salt resetToken newPassword phone st)"
| "serve env (Refresh now rowId newToken token app) st = map_prod (Not \<circ> isl) id (refreshToken env now rowId newToken token app st)"
| "serve env (SignIn now rowId token accountId app) st =
     (case find (\<lambda>a. acId a = accountId) (auAccounts st) of
        None \<Rightarrow> (False, st)
      | Some user \<Rightarrow> (True, snd (login env now rowId token user app st)))"

definition serve_all :: "auth_env \<Rightarrow> auth_request list \<Rightarrow> auth_state \<Rightarrow> auth_state" where
  "serve_all env reqs st = foldl (\<lambda>st r. snd (serve env r st)) st reqs"

section \<open>Phone numbers: the two normalisations agree\<close>

lemma presentation_not_digit: "is_digit c \<Longrightarrow> \<not> presentation_char c"
  using digit_not_space by (auto simp: presentation_char_def is_digit_iff)

lemma dropWhile_keeps: "(\<And>c. P c \<Longrightarrow> \<not> Q c) \<Longrightarrow> filter Q (dropWhile P xs) = filter Q xs"
  by (induction xs) auto

lemma filter_js_trim: "(\<And>c. js_space c \<Longrightarrow> \<not> Q c) \<Longrightarrow> filter Q (js_trim s) = filter Q s"
  unfolding js_trim_def by (simp add: rev_filter [symmetric] dropWhile_keeps)

lemma digits_of_compact: "filter is_digit (filter (\<lambda>c. \<not> presentation_char c) (js_trim value)) = filter is_digit value"
proof -
  have "filter is_digit (filter (\<lambda>c. \<not> presentation_char c) (js_trim value)) = filter is_digit (js_trim value)"
    unfolding filter_filter by (rule filter_cong) (auto dest: presentation_not_digit)
  then show ?thesis using filter_js_trim [of is_digit "value"] digit_not_space by metis
qed

lemma plus_digits_cases:
  assumes "plus_digits s"
  obtains ds where "s = CHR ''+'' # ds" "list_all is_digit ds" "filter is_digit s = ds"
    | "list_all is_digit s" "filter is_digit s = s"
proof (cases "starts_with ''+'' s")
  case True
  then obtain ds where s: "s = CHR ''+'' # ds" by (cases s) (simp_all add: starts_with_def)
  then have "list_all is_digit ds" using assms by (simp add: plus_digits_def starts_with_def)
  moreover from this have "filter is_digit ds = ds" by (simp add: list_all_iff filter_id_conv)
  moreover have "\<not> is_digit CHR ''+''" by (simp add: is_digit_iff)
  ultimately show ?thesis using s that(1) by simp
next
  case False
  then have "list_all is_digit s" using assms by (simp add: plus_digits_def Let_def)
  moreover from this have "filter is_digit s = s" by (simp add: list_all_iff filter_id_conv)
  ultimately show ?thesis using that(2) by blast
qed

lemma not_plus_digit: "\<not> is_digit CHR ''+''"
  by (simp add: is_digit_iff)

lemma strip_country_plus:
  assumes "local_digits (strip_country (CHR ''+'' # ds))" "list_all is_digit ds"
  shows "starts_with ''84'' ds \<and> strip_country (CHR ''+'' # ds) = CHR ''0'' # drop 2 ds"
proof (cases "starts_with ''84'' ds")
  case True
  then show ?thesis by (simp add: strip_country_def starts_with_def)
next
  case False
  then have "strip_country (CHR ''+'' # ds) = CHR ''+'' # ds" by (simp add: strip_country_def starts_with_def)
  then show ?thesis using assms(1) by (simp add: local_digits_def)
qed

lemma normalized_phone_digits:
  assumes "normalizeVietnamPhone value = Some p"
  shows "legacyNormalizedPhoneSql value = p" "local_digits p"
proof -
  let ?c = "filter (\<lambda>c. \<not> presentation_char c) (js_trim value)"
  have c: "plus_digits ?c" "p = strip_country ?c" "local_digits (strip_country ?c)"
    using assms by (simp_all add: normalizeVietnamPhone_def Let_def split: if_splits)
  then show "local_digits p" by simp
  have digits: "filter is_digit value = filter is_digit ?c" by (simp only: digits_of_compact)
  from c(1) show "legacyNormalizedPhoneSql value = p"
  proof (cases rule: plus_digits_cases)
    case (1 ds)
    then have "starts_with ''84'' ds \<and> strip_country ?c = CHR ''0'' # drop 2 ds"
      using strip_country_plus c(3) by metis
    then show ?thesis using c(2) digits 1(3) by (simp add: legacyNormalizedPhoneSql_def Let_def)
  next
    case 2
    have "\<not> starts_with ''+84'' ?c" using 2(1) not_plus_digit by (cases ?c) (auto simp: starts_with_def)
    then show ?thesis using c(2) digits 2(2) by (simp add: legacyNormalizedPhoneSql_def strip_country_def Let_def)
  qed
qed

lemma local_digits_normal:
  assumes "local_digits p"
  shows "normalizeVietnamPhone p = Some p"
proof -
  obtain ds where p: "p = CHR ''0'' # ds" "list_all is_digit ds"
    using assms unfolding local_digits_def by (auto split: list.splits)
  have all: "list_all is_digit p" using p by (simp add: is_digit_iff)
  have "filter (\<lambda>c. \<not> presentation_char c) p = p"
    using all presentation_not_digit by (simp add: list_all_iff filter_id_conv)
  moreover have "js_trim p = p"
  proof (rule js_trim_id)
    show "\<not> js_space (hd p)" "\<not> js_space (last p)" "p \<noteq> []"
      using all p digit_not_space by (auto simp: list_all_iff)
  qed
  moreover have "plus_digits p" using all p by (simp add: plus_digits_def starts_with_def)
  moreover have "strip_country p = p" using p by (simp add: strip_country_def starts_with_def)
  ultimately show ?thesis using assms by (simp add: normalizeVietnamPhone_def)
qed

text \<open>The two normalisations of a phone number agree: whatever accepted presentation a stored number has, the SQL
  expression turns it into exactly the canonical form of the TypeScript function, which is a fixed point of it. So a number typed
  in one presentation finds the account stored in any other.\<close>

theorem phone_forms_agree:
  assumes "normalizeVietnamPhone value = Some p"
  shows "legacyNormalizedPhoneSql value = p \<and> normalizeVietnamPhone p = Some p \<and> legacyNormalizedPhoneSql p = p \<and>
    (normalizeVietnamPhone typed = Some p \<longrightarrow> findByPhone typed [a\<lparr>acPhone := value\<rparr>] = Some (a\<lparr>acPhone := value\<rparr>))"
  using normalized_phone_digits [OF assms] normalized_phone_digits(1) [OF local_digits_normal] local_digits_normal
  by (simp add: findByPhone_def singleMatchOrNull_def)

theorem phone_forms_agree_witness:
  "legacyNormalizedPhoneSql '' +84 (912) 345-678'' = ''0912345678'' \<and> normalizeVietnamPhone ''0912345678'' = Some ''0912345678''"
proof -
  have "normalizeVietnamPhone '' +84 (912) 345-678'' = Some ''0912345678''" by code_simp
  then show ?thesis using phone_forms_agree by blast
qed

end
