(* ===== verification/AuthSafety.thy ===== *)
theory AuthSafety
  imports AuthFlow "HOL-Library.Multiset"
begin

text \<open>
  What the handlers of \<open>AuthFlow\<close> guarantee over any sequence of requests: a code is guessed at most ten times per
  quarter of an hour and used once, at most one code per account and purpose is live and at most five are sent in the
  window, a reset token and a refresh token work once, and an account keeps at most five sessions per app.
\<close>

section \<open>Guessing a code\<close>

text \<open>The calls of the failure counter a request makes: a guess is compared only after a look at the counter, and
  a wrong one is a hit.\<close>

definition verify_calls :: "auth_env \<Rightarrow> int \<Rightarrow> account \<Rightarrow> string \<Rightarrow> otp_type \<Rightarrow> auth_state \<Rightarrow> counter_call list" where
  "verify_calls env now user otp type st =
     Count (acId user) now #
     (if fst (count_failures now (acId user) st) \<ge> OTP_VERIFY_LIMIT \<or> type = REGISTER_OTP \<and> acStatus user \<noteq> UNVERIFIED_ACCOUNT then []
      else if code_accepted env now otp (current_code (acId user) type (auOtps st)) then [Reset (acId user)]
      else [Hit (acId user) now])"

definition request_calls :: "auth_env \<Rightarrow> auth_request \<Rightarrow> auth_state \<Rightarrow> counter_call list" where
  "request_calls env req st = (case req of
       Verify now rowId token phone otp type app \<Rightarrow>
         (case findByPhone phone (auAccounts st) of None \<Rightarrow> [] | Some user \<Rightarrow> verify_calls env now user otp type st)
     | _ \<Rightarrow> [])"

primrec trace_calls :: "auth_env \<Rightarrow> auth_request list \<Rightarrow> auth_state \<Rightarrow> counter_call list" where
  "trace_calls env [] st = []"
| "trace_calls env (r # rs) st = request_calls env r st @ trace_calls env rs (snd (serve env r st))"

text \<open>The times of the wrong guesses of a code of the account since its last right one.\<close>

definition wrong_guesses :: "auth_env \<Rightarrow> auth_request list \<Rightarrow> auth_state \<Rightarrow> string \<Rightarrow> int list" where
  "wrong_guesses env reqs st = history (trace_calls env reqs st)"

lemma login_failures [simp]: "auFailures (snd (login env now rowId token user app st)) = auFailures st"
  and login_otps [simp]: "auOtps (snd (login env now rowId token user app st)) = auOtps st"
  and login_accounts [simp]: "auAccounts (snd (login env now rowId token user app st)) = auAccounts st"
  by (simp_all add: login_def Let_def)

lemma rotate_failures [simp]: "auFailures (snd (refresh_rotate env now rowId tok found app st)) = auFailures st"
  and rotate_otps [simp]: "auOtps (snd (refresh_rotate env now rowId tok found app st)) = auOtps st"
  and rotate_accounts [simp]: "auAccounts (snd (refresh_rotate env now rowId tok found app st)) = auAccounts st"
  by (simp_all add: refresh_rotate_def Let_def split: prod.splits option.splits)

lemma count_failures_state: "count_failures now i st =
    (fst (count_hits otp_verify_options i now (auFailures st)), st\<lparr>auFailures := snd (count_hits otp_verify_options i now (auFailures st))\<rparr>)"
  by (simp add: count_failures_def split: prod.splits)

lemma code_accepted_None [simp]: "\<not> code_accepted env now otp None"
  by (simp add: code_accepted_def)

lemma verify_code_failures:
  "auFailures (snd (verify_code env now user otp type st)) =
     foldl (counter_step otp_verify_options) (auFailures st) (verify_calls env now user otp type st)"
  by (auto simp: verify_code_def verify_calls_def count_failures_state counter_step_def code_used_def code_missed_def
      activate_account_def Let_def split: option.splits)

lemma verifyOtp_failures: "auFailures (snd (verifyOtp env now rowId token phone otp type app st)) =
    foldl (counter_step otp_verify_options) (auFailures st)
      (case findByPhone phone (auAccounts st) of None \<Rightarrow> [] | Some user \<Rightarrow> verify_calls env now user otp type st)"
proof (cases "findByPhone phone (auAccounts st)")
  case None
  then show ?thesis by (simp add: verifyOtp_def)
next
  case (Some user)
  obtain r st' where v: "verify_code env now user otp type st = (r, st')" by fastforce
  then have "auFailures st' = foldl (counter_step otp_verify_options) (auFailures st) (verify_calls env now user otp type st)"
    using verify_code_failures by (metis snd_conv)
  then show ?thesis using Some v by (cases r) (simp_all add: verifyOtp_def)
qed

lemma serve_failures:
  "auFailures (snd (serve env r st)) = foldl (counter_step otp_verify_options) (auFailures st) (request_calls env r st)"
proof (cases r)
  case (Verify now rowId token phone otp type app)
  then show ?thesis by (simp add: request_calls_def verifyOtp_failures)
qed (auto simp: request_calls_def resendOtp_def forgotPassword_def forgot_save_def forgot_invalidate_def store_code_def
    resetPassword_def password_changed_def refreshToken_def split: option.splits sum.splits)

lemma verify_code_ids: "map acId (auAccounts (snd (verify_code env now user otp type st))) = map acId (auAccounts st)"
  by (simp add: verify_code_def count_failures_state code_used_def code_missed_def activate_account_def Let_def comp_def if_distrib
      split: option.splits)

lemma verifyOtp_ids: "map acId (auAccounts (snd (verifyOtp env now rowId token phone otp type app st))) = map acId (auAccounts st)"
proof (cases "findByPhone phone (auAccounts st)")
  case (Some user)
  obtain r st' where v: "verify_code env now user otp type st = (r, st')" by fastforce
  then have "map acId (auAccounts st') = map acId (auAccounts st)" using verify_code_ids by (metis snd_conv)
  then show ?thesis using Some v by (cases r) (simp_all add: verifyOtp_def)
qed (simp add: verifyOtp_def)

lemma serve_ids: "map acId (auAccounts (snd (serve env r st))) = map acId (auAccounts st)"
proof (cases r)
  case (Verify now rowId token phone otp type app)
  then show ?thesis by (simp add: verifyOtp_ids)
qed (auto simp: resendOtp_def forgotPassword_def forgot_save_def forgot_invalidate_def store_code_def
    resetPassword_def password_changed_def refreshToken_def comp_def if_distrib split: option.splits sum.splits)

lemma serve_all_Nil [simp]: "serve_all env [] st = st"
  and serve_all_Cons [simp]: "serve_all env (r # rs) st = serve_all env rs (snd (serve env r st))"
  and serve_all_snoc: "serve_all env (rs @ [r]) st = snd (serve env r (serve_all env rs st))"
  by (simp_all add: serve_all_def)

lemma trace_failures:
  "auFailures (serve_all env reqs st) = foldl (counter_step otp_verify_options) (auFailures st) (trace_calls env reqs st)"
  by (induction reqs arbitrary: st) (simp_all add: serve_failures)

lemma trace_ids: "map acId (auAccounts (serve_all env reqs st)) = map acId (auAccounts st)"
  by (induction reqs arbitrary: st) (simp_all add: serve_ids)

lemma trace_calls_snoc: "trace_calls env (reqs @ [r]) st = trace_calls env reqs st @ request_calls env r (serve_all env reqs st)"
  by (induction reqs arbitrary: st) simp_all

lemma findByPhone_in:
  assumes "findByPhone phone accounts = Some a"
  shows "a \<in> set accounts"
proof -
  obtain p where "take 2 (filter (\<lambda>a. acPhone a = p \<or> legacyNormalizedPhoneSql (acPhone a) = p) accounts) = [a]"
    using assms by (auto simp: findByPhone_def singleMatchOrNull_def split: option.splits list.splits)
  then have "a \<in> set (take 2 (filter (\<lambda>a. acPhone a = p \<or> legacyNormalizedPhoneSql (acPhone a) = p) accounts))" by simp
  then show ?thesis using in_set_takeD by force
qed

lemma verify_calls_keys: "call_key ` set (verify_calls env now user otp type st) \<subseteq> {acId user}"
  by (simp add: verify_calls_def)

lemma verify_calls_times: "set (List.map_filter call_time (verify_calls env now user otp type st)) \<subseteq> {now} \<and>
    sorted (List.map_filter call_time (verify_calls env now user otp type st))"
  by (auto simp: verify_calls_def List.map_filter_def)

lemma request_calls_cases:
  obtains "request_calls env r st = []"
    | now rowId token phone otp type app user where "r = Verify now rowId token phone otp type app" "user \<in> set (auAccounts st)"
        "request_calls env r st = verify_calls env now user otp type st"
proof (cases r)
  case (Verify now rowId token phone otp type app)
  show ?thesis
  proof (cases "findByPhone phone (auAccounts st)")
    case None
    then show ?thesis using that(1) Verify by (simp add: request_calls_def)
  next
    case (Some user)
    then show ?thesis using that(2) [OF Verify findByPhone_in [OF Some]] Verify by (simp add: request_calls_def)
  qed
qed (use that(1) in \<open>simp_all add: request_calls_def\<close>)

lemma request_calls_keys: "call_key ` set (request_calls env r st) \<subseteq> acId ` set (auAccounts st)"
proof (cases rule: request_calls_cases [of env r st])
  case (2 now rowId token phone otp type app user)
  show ?thesis unfolding 2(3) using subset_trans [OF verify_calls_keys] 2(2) by simp
qed simp

lemma trace_keys: "call_key ` set (trace_calls env reqs st) \<subseteq> acId ` set (auAccounts st)"
proof (induction reqs arbitrary: st)
  case (Cons r reqs)
  have "acId ` set (auAccounts (snd (serve env r st))) = acId ` set (auAccounts st)"
    using serve_ids [of env r st] by (metis list.set_map)
  then show ?case using Cons [of "snd (serve env r st)"] request_calls_keys [of env r st] by (simp add: image_Un)
qed simp

lemma request_calls_times: "set (List.map_filter call_time (request_calls env r st)) \<subseteq> {request_time r} \<and>
    sorted (List.map_filter call_time (request_calls env r st))"
proof (cases rule: request_calls_cases [of env r st])
  case (2 now rowId token phone otp type app user)
  show ?thesis unfolding 2(3) using verify_calls_times 2(1) by simp
qed (simp add: List.map_filter_def)

lemma map_filter_append: "List.map_filter f (xs @ ys) = List.map_filter f xs @ List.map_filter f ys"
  by (simp add: List.map_filter_def)

lemma trace_times:
  "sorted (map request_time reqs) \<Longrightarrow> sorted (List.map_filter call_time (trace_calls env reqs st)) \<and>
     set (List.map_filter call_time (trace_calls env reqs st)) \<subseteq> request_time ` set reqs"
proof (induction reqs arbitrary: st)
  case Nil
  then show ?case by (simp add: List.map_filter_def)
next
  case (Cons r reqs)
  from Cons.prems have "sorted (map request_time reqs)" and le: "\<forall>x \<in> set reqs. request_time r \<le> request_time x" by simp_all
  from Cons.IH [OF this(1), of "snd (serve env r st)"] show ?case
    using request_calls_times [of env r st] le by (auto simp: map_filter_append sorted_append)
qed

text \<open>A prefix of the calls that ends before a hit sees the counter below its limit.\<close>

lemma guarded_append_hit:
  assumes "guarded opts calls" "length (in_window opts now (history calls k)) < woLimit opts"
  shows "guarded opts (calls @ [Count k now, Hit k now])"
  unfolding guarded_def
proof (intro allI impI)
  fix pre key t post assume eq: "calls @ [Count k now, Hit k now] = pre @ Hit key t # post"
  show "length (in_window opts t (history pre key)) < woLimit opts"
  proof (cases post rule: rev_exhaust)
    case Nil
    then have pre: "pre = calls @ [Count k now]" "key = k" "t = now"
      using eq by (auto simp: append_eq_append_conv2 Cons_eq_append_conv)
    then show ?thesis using assms(2) by (simp add: history_snoc history_step_def)
  next
    case (snoc ys y)
    then have "calls @ [Count k now] = pre @ Hit key t # ys"
      using arg_cong [OF eq, of butlast] by (simp add: butlast_append)
    moreover from this obtain zs where "calls = pre @ Hit key t # zs"
      by (cases ys rule: rev_exhaust) auto
    ultimately show ?thesis using assms(1) unfolding guarded_def by blast
  qed
qed

lemma guarded_append_other:
  assumes "guarded opts calls" "\<And>k t. Hit k t \<notin> set new"
  shows "guarded opts (calls @ new)"
  unfolding guarded_def
proof (intro allI impI)
  fix pre key t post assume eq: "calls @ new = pre @ Hit key t # post"
  then obtain zs where "calls = pre @ Hit key t # zs"
    using assms(2) [of key t] by (auto simp: append_eq_append_conv2 append_eq_Cons_conv)
  then show "length (in_window opts t (history pre key)) < woLimit opts" using assms(1) unfolding guarded_def by blast
qed

lemma woLimit_verify [simp]: "woLimit otp_verify_options = OTP_VERIFY_LIMIT"
  by (simp add: otp_verify_options_def)

lemma trace_guarded:
  assumes "sorted (map request_time reqs)" "length (auAccounts st) \<le> 10000" "auFailures st = []"
  shows "guarded otp_verify_options (trace_calls env reqs st)"
  using assms(1)
proof (induction reqs rule: rev_induct)
  case Nil
  then show ?case by (simp add: guarded_def)
next
  case (snoc r reqs)
  let ?calls = "trace_calls env reqs st" and ?st = "serve_all env reqs st" and ?now = "request_time r"
  have sorted: "sorted (map request_time reqs)" and le: "\<forall>x \<in> set reqs. request_time x \<le> ?now"
    using snoc.prems by (auto simp: sorted_append)
  have IH: "guarded otp_verify_options ?calls" using snoc.IH sorted by blast
  have clock: "clock_ok ?calls ?now"
    using trace_times [OF sorted, of env st] le unfolding clock_ok_def by (fastforce simp: sorted_append)
  have "card (call_key ` set ?calls) \<le> card (acId ` set (auAccounts st))" by (rule card_mono [OF _ trace_keys]) simp
  also have "\<dots> \<le> length (auAccounts st)" using card_image_le [of "set (auAccounts st)" acId] card_length [of "auAccounts st"] by simp
  finally have card: "card (call_key ` set ?calls) \<le> max_keys otp_verify_options"
    using assms(2) by (simp add: max_keys_def otp_verify_options_def)
  have exact: "fst (count_hits otp_verify_options k ?now (auFailures ?st)) = length (in_window otp_verify_options ?now (history ?calls k))" for k
    using counter_is_history [OF clock card] trace_failures [of env reqs st] assms(3)
    by (simp add: count_hits_eq reports_exactly_def counter_after_def)
  show ?case
  proof (cases "\<exists>k. request_calls env r ?st = [Count k ?now, Hit k ?now]")
    case True
    then obtain k where k: "request_calls env r ?st = [Count k ?now, Hit k ?now]" by blast
    then have "fst (count_hits otp_verify_options k ?now (auFailures ?st)) < OTP_VERIFY_LIMIT"
    proof (cases rule: request_calls_cases [of env r ?st])
      case (2 now rowId token phone otp type app user)
      then show ?thesis using k by (auto simp: verify_calls_def count_failures_state split: if_splits)
    qed (use k in simp)
    then show ?thesis using guarded_append_hit [OF IH] exact k by (simp add: trace_calls_snoc)
  next
    case False
    then have "Hit k t \<notin> set (request_calls env r ?st)" for k t
    proof (cases rule: request_calls_cases [of env r ?st])
      case (2 now rowId token phone otp type app user)
      then show ?thesis using False by (auto simp: verify_calls_def split: if_splits)
    qed simp
    then show ?thesis using guarded_append_other [OF IH] by (simp add: trace_calls_snoc)
  qed
qed

text \<open>C35. Brute force is bounded in one process: over any sequence of requests of all kinds that one server process serves from its
  start, when the counter is empty, with a clock that does not run backwards and at most ten thousand accounts, the wrong guesses of
  an account's codes since its last right one number at most ten in every interval of a quarter of an hour, whatever the codes sent in
  between. The counter lives in the process: with several workers the limit holds for each of them, and with more than ten thousand
  keys the oldest counter is dropped, so the bound says nothing there.\<close>

theorem guesses_are_bounded:
  assumes "sorted (map request_time reqs)" "length (auAccounts st) \<le> 10000" "auFailures st = []"
  shows "length (in_interval otp_verify_options until (wrong_guesses env reqs st accountId)) \<le> OTP_VERIFY_LIMIT"
  using guarded_bound [OF trace_guarded [OF assms]] trace_times [OF assms(1), of env st]
  unfolding wrong_guesses_def by simp

text \<open>Environment and state of the examples: hashing is the identity behind a prefix, tokens are not verified.\<close>

definition plain_env :: auth_env where
  "plain_env = \<lparr> aeSecret = ''s'', aeHmacRaw = (\<lambda>k m. m), aeHmacHex = (\<lambda>k m. ''h'' @ m), aeSha256Hex = (\<lambda>m. m),
     aeBcryptHash = (\<lambda>salt p. ''b'' @ p), aeBcryptCompare = (\<lambda>p h. h = ''b'' @ p),
     aeVerifyReset = (\<lambda>now t. Some \<lparr> rcSub = Some ''a1'', rcTokenUse = Some ''password_reset'', rcPwf = Some t \<rparr>),
     aeVerifyRefresh = (\<lambda>now t. Some \<lparr> rkSub = ''a1'', rkTokenUse = Some ''refresh'', rkIat = None \<rparr>),
     aeTokenExp = (\<lambda>t. None), aeLegacyWindow = None, aeReadOnly = False \<rparr>"

definition one_account :: auth_state where
  "one_account = \<lparr> auAccounts = [\<lparr> acId = ''a1'', acPhone = ''0912345678'', acPasswordHash = ''p'', acStatus = ACTIVE_ACCOUNT \<rparr>],
     auOtps = [], auTokens = [], auFailures = [] \<rparr>"

theorem guesses_are_bounded_witness:
  "length (in_interval otp_verify_options 900000 (wrong_guesses plain_env
     [Forgot 5 ''c1'' ''123456'' True ''0912345678'', Verify 10 ''t1'' ''x'' ''0912345678'' ''111111'' FORGOT_PASSWORD_OTP OWNER_APP,
      Verify 20 ''t2'' ''x'' ''0912345678'' ''222222'' FORGOT_PASSWORD_OTP OWNER_APP] one_account ''a1'')) \<le> 10"
  using guesses_are_bounded [of "[Forgot 5 ''c1'' ''123456'' True ''0912345678'', Verify 10 ''t1'' ''x'' ''0912345678'' ''111111'' FORGOT_PASSWORD_OTP OWNER_APP,
      Verify 20 ''t2'' ''x'' ''0912345678'' ''222222'' FORGOT_PASSWORD_OTP OWNER_APP]" one_account 900000 plain_env "''a1''"]
  by (simp add: one_account_def OTP_VERIFY_LIMIT_def)

section \<open>The table of codes\<close>

definition sends_of :: "string \<Rightarrow> otp_type \<Rightarrow> otp_row list \<Rightarrow> int list" where
  "sends_of accountId type rows = map otCreatedAt (filter (\<lambda>r. otAccountId r = accountId \<and> otType r = type) rows)"

definition send_interval :: "int \<Rightarrow> int list \<Rightarrow> int list" where
  "send_interval until ts = filter (\<lambda>t. t > until - OTP_SEND_WINDOW_MS \<and> t \<le> until) ts"

text \<open>At time \<open>now\<close>: no code is from the future, at most one code per account and purpose is live, and no
  interval of a quarter of an hour has more than five.\<close>

definition otp_table_ok :: "int \<Rightarrow> otp_row list \<Rightarrow> bool" where
  "otp_table_ok now rows \<longleftrightarrow>
     (\<forall>r \<in> set rows. otCreatedAt r \<le> now) \<and>
     (\<forall>a type. length (live_codes a type rows) \<le> 1) \<and>
     (\<forall>a type until. length (send_interval until (sends_of a type rows)) \<le> OTP_SEND_LIMIT)"

text \<open>What a change of the table may do that only marks codes used.\<close>

definition marks_used :: "otp_row list \<Rightarrow> otp_row list \<Rightarrow> bool" where
  "marks_used rows rows' \<longleftrightarrow>
     list_all2 (\<lambda>r r'. r' = r \<or> r' = r\<lparr>otIsUsed := True\<rparr>) rows rows'"

lemma marks_used_refl: "marks_used rows rows"
  by (simp add: marks_used_def list_all2_refl)

lemma marks_used_trans: "marks_used r1 r2 \<Longrightarrow> marks_used r2 r3 \<Longrightarrow> marks_used r1 r3"
  unfolding marks_used_def by (rule list_all2_trans [where ?P2.0 = "\<lambda>r r'. r' = r \<or> r' = r\<lparr>otIsUsed := True\<rparr>"]) auto

lemma marks_used_map: "(\<And>r. f r = r \<or> f r = r\<lparr>otIsUsed := True\<rparr>) \<Longrightarrow> marks_used rows (map f rows)"
  by (induction rows) (auto simp: marks_used_def)

lemma marks_used_sends: "marks_used rows rows' \<Longrightarrow> sends_of a type rows' = sends_of a type rows"
  unfolding marks_used_def sends_of_def
proof (induction rows rows' rule: list_all2_induct)
  case (Cons r rows r' rows')
  then have "otAccountId r' = otAccountId r" "otType r' = otType r" "otCreatedAt r' = otCreatedAt r" by auto
  then show ?case using Cons.IH by simp
qed simp

lemma marks_used_live: "marks_used rows rows' \<Longrightarrow> length (live_codes a type rows') \<le> length (live_codes a type rows)"
  unfolding marks_used_def live_codes_def
proof (induction rows rows' rule: list_all2_induct)
  case (Cons r rows r' rows')
  then have "otAccountId r' = otAccountId r" "otType r' = otType r" "otIsUsed r \<Longrightarrow> otIsUsed r'" by auto
  then show ?case using Cons.IH by auto
qed simp

lemma marks_used_created: "marks_used rows rows' \<Longrightarrow> otCreatedAt ` set rows' = otCreatedAt ` set rows"
  unfolding marks_used_def
proof (induction rows rows' rule: list_all2_induct)
  case (Cons r rows r' rows')
  then have "otCreatedAt r' = otCreatedAt r" by auto
  then show ?case using Cons.IH by simp
qed simp

lemma marks_used_ok:
  assumes "otp_table_ok now rows" "marks_used rows rows'"
  shows "otp_table_ok now rows'"
proof -
  have "\<forall>t \<in> otCreatedAt ` set rows'. t \<le> now"
    unfolding marks_used_created [OF assms(2)] using assms(1) by (simp add: otp_table_ok_def)
  moreover have "length (live_codes a type rows') \<le> 1" for a type
    using marks_used_live [OF assms(2), of a type] assms(1) unfolding otp_table_ok_def by (meson le_trans)
  ultimately show ?thesis using assms(1) by (simp add: otp_table_ok_def marks_used_sends [OF assms(2)])
qed

lemma otp_table_later: "otp_table_ok now rows \<Longrightarrow> now \<le> later \<Longrightarrow> otp_table_ok later rows"
  unfolding otp_table_ok_def by force

lemma use_codes_marks: "marks_used rows (use_codes a type rows)"
  unfolding use_codes_def by (rule marks_used_map) auto

lemma live_after_use: "live_codes a type (use_codes a' type' rows) = (if a = a' \<and> type = type' then [] else live_codes a type rows)"
  by (induction rows) (auto simp: live_codes_def use_codes_def)

lemma live_codes_append: "live_codes a type (rows @ rows') = live_codes a type rows @ live_codes a type rows'"
  by (simp add: live_codes_def)

lemma sends_of_append: "sends_of a type (rows @ rows') = sends_of a type rows @ sends_of a type rows'"
  by (simp add: sends_of_def)

lemma store_code_ok:
  assumes ok: "otp_table_ok now (auOtps st)" and allowed: "\<not> isOverSendLimit (recent_sends now a type (auOtps st))"
  shows "otp_table_ok now (auOtps (store_code env now rowId code a type st))"
proof -
  let ?rows = "use_codes a type (auOtps st)" and ?new = "new_code env now rowId code a type"
  have used: "otp_table_ok now ?rows" using ok use_codes_marks by (rule marks_used_ok)
  have "length (live_codes b t (?rows @ [?new])) \<le> 1" for b t
  proof (cases "b = a \<and> t = type")
    case True
    then show ?thesis by (simp add: live_codes_append live_after_use) (simp add: live_codes_def)
  next
    case False
    then have "live_codes b t [?new] = []" by (auto simp: live_codes_def new_code_def)
    then show ?thesis using used by (simp add: live_codes_append otp_table_ok_def)
  qed
  moreover have "length (send_interval until (sends_of b t (?rows @ [?new]))) \<le> OTP_SEND_LIMIT" for b t until
  proof (cases "b = a \<and> t = type \<and> now \<le> until")
    case True
    have "send_interval until (sends_of a type ?rows) =
        filter (\<lambda>t. t > until - OTP_SEND_WINDOW_MS) (filter (\<lambda>t. t > now - OTP_SEND_WINDOW_MS) (sends_of a type ?rows))"
      unfolding send_interval_def filter_filter
      by (rule filter_cong) (use True used in \<open>auto simp: otp_table_ok_def sends_of_def\<close>)
    then have "length (send_interval until (sends_of a type ?rows)) \<le> length (filter (\<lambda>t. t > now - OTP_SEND_WINDOW_MS) (sends_of a type (auOtps st)))"
      unfolding marks_used_sends [OF use_codes_marks] by (metis length_filter_le)
    also have "\<dots> = recent_sends now a type (auOtps st)"
      by (simp add: recent_sends_def sends_of_def filter_map comp_def conj_ac)
    finally show ?thesis using True allowed
      by (simp add: sends_of_append) (simp add: send_interval_def sends_of_def new_code_def isOverSendLimit_def)
  next
    case False
    then have "send_interval until (sends_of b t [?new]) = []" by (auto simp: send_interval_def sends_of_def new_code_def)
    then show ?thesis using used by (simp add: otp_table_ok_def sends_of_append send_interval_def)
  qed
  ultimately show ?thesis using used by (simp add: store_code_def otp_table_ok_def new_code_def)
qed

lemma code_used_marks: "marks_used (auOtps st) (auOtps (code_used a row st))"
  unfolding code_used_def by (simp add: marks_used_map)

lemma activate_marks: "marks_used (auOtps st) (auOtps (activate_account a st))"
  unfolding activate_account_def by (simp add: use_codes_marks)

lemma verify_code_cases:
  obtains "fst (verify_code env now user otp type st) \<noteq> Inr ()" "auOtps (snd (verify_code env now user otp type st)) = auOtps st"
    | st1 row where "fst (verify_code env now user otp type st) = Inr ()" "auOtps st1 = auOtps st"
        "current_code (acId user) type (auOtps st) = Some row" "code_accepted env now otp (Some row)"
        "snd (verify_code env now user otp type st) =
           (if type = REGISTER_OTP then activate_account (acId user) else id) (code_used (acId user) row st1)"
proof -
  obtain f st1 where f: "count_failures now (acId user) st = (f, st1)" by fastforce
  then have same: "auOtps st1 = auOtps st" by (auto simp: count_failures_state)
  have missed: "auOtps (code_missed now (acId user) st1) = auOtps st" by (simp add: code_missed_def same)
  let ?refused = "f \<ge> OTP_VERIFY_LIMIT \<or> type = REGISTER_OTP \<and> acStatus user \<noteq> UNVERIFIED_ACCOUNT"
  show ?thesis
  proof (cases "\<exists>row. \<not> ?refused \<and> current_code (acId user) type (auOtps st) = Some row \<and> code_accepted env now otp (Some row)")
    case True
    then obtain row where row: "\<not> ?refused" "current_code (acId user) type (auOtps st) = Some row" "code_accepted env now otp (Some row)"
      by blast
    then have "verify_code env now user otp type st =
        (Inr (), (if type = REGISTER_OTP then activate_account (acId user) else id) (code_used (acId user) row st1))"
      using f same by (auto simp: verify_code_def Let_def)
    then show ?thesis using that(2) [OF _ same row(2,3)] by simp
  next
    case False
    then have "\<exists>e st2. verify_code env now user otp type st = (Inl e, st2) \<and> auOtps st2 = auOtps st"
      using f same missed by (cases "current_code (acId user) type (auOtps st)") (auto simp: verify_code_def Let_def)
    then show ?thesis using that(1) by auto
  qed
qed

lemma verify_code_marks: "marks_used (auOtps st) (auOtps (snd (verify_code env now user otp type st)))"
proof (cases rule: verify_code_cases [of env now user otp type st])
  case 1
  then show ?thesis by (simp add: marks_used_refl)
next
  case (2 st1 row)
  have "marks_used (auOtps st) (auOtps (code_used (acId user) row st1))" using code_used_marks [of st1] 2(2) by simp
  then show ?thesis unfolding 2(5) using marks_used_trans [OF _ activate_marks] by (cases type) simp_all
qed

lemma verifyOtp_otps: "auOtps (snd (verifyOtp env now rowId token phone otp type app st)) =
    (case findByPhone phone (auAccounts st) of None \<Rightarrow> auOtps st | Some user \<Rightarrow> auOtps (snd (verify_code env now user otp type st)))"
proof (cases "findByPhone phone (auAccounts st)")
  case (Some user)
  obtain r st' where v: "verify_code env now user otp type st = (r, st')" by fastforce
  then show ?thesis using Some by (cases r) (simp_all add: verifyOtp_def)
qed (simp add: verifyOtp_def)

text \<open>A request stores a code it was allowed to send, or only marks codes used.\<close>

lemma serve_otps:
  obtains "marks_used (auOtps st) (auOtps (snd (serve env r st)))"
    | rowId code a type where "\<not> isOverSendLimit (recent_sends (request_time r) a type (auOtps st))"
        "auOtps (snd (serve env r st)) = auOtps (store_code env (request_time r) rowId code a type st)"
proof (cases r)
  case (Resend now rowId code phone type)
  show ?thesis
  proof (cases "snd (resendOtp env now rowId code phone type st) = st")
    case True
    then show ?thesis using that(1) Resend marks_used_refl by simp
  next
    case False
    then obtain a where "\<not> isOverSendLimit (recent_sends now a type (auOtps st))"
        "snd (resendOtp env now rowId code phone type st) = store_code env now rowId code a type st"
      by (auto simp: resendOtp_def assertOtpSendAllowed_def fail_if_def split: option.splits sum.splits if_splits)
    then show ?thesis using that(2) Resend by simp
  qed
next
  case (Forgot now rowId code delivered phone)
  show ?thesis
  proof (cases "snd (forgotPassword env now rowId code delivered phone st) = st")
    case True
    then show ?thesis using that(1) Forgot marks_used_refl by simp
  next
    case False
    then obtain a where "\<not> isOverSendLimit (recent_sends now a FORGOT_PASSWORD_OTP (auOtps st))"
        "auOtps (snd (forgotPassword env now rowId code delivered phone st)) = auOtps (store_code env now rowId code a FORGOT_PASSWORD_OTP st)"
      by (auto simp: forgotPassword_def forgot_check_def forgot_save_def forgot_invalidate_def store_code_def
          assertOtpSendAllowed_def fail_if_def split: option.splits sum.splits if_splits)
    then show ?thesis using that(2) Forgot by simp
  qed
next
  case (Verify now rowId token phone otp type app)
  then show ?thesis using that(1) verify_code_marks marks_used_refl
    by (simp add: verifyOtp_otps split: option.splits)
next
  case (ResetPassword now salt resetToken newPassword phone)
  have "auOtps (snd (resetPassword env now salt resetToken newPassword phone st)) \<in>
      {auOtps st} \<union> range (\<lambda>a. use_codes a FORGOT_PASSWORD_OTP (auOtps st))"
    by (auto simp: resetPassword_def password_changed_def split: option.splits)
  then show ?thesis using that(1) ResetPassword marks_used_refl use_codes_marks by auto
qed (use that(1) marks_used_refl in \<open>simp_all add: refreshToken_def split: option.splits\<close>)

lemma serve_table_ok: "otp_table_ok (request_time r) (auOtps st) \<Longrightarrow> otp_table_ok (request_time r) (auOtps (snd (serve env r st)))"
proof (cases rule: serve_otps [of st env r])
  case 1
  then show "otp_table_ok (request_time r) (auOtps st) \<Longrightarrow> ?thesis" by (rule marks_used_ok [rotated])
qed (simp_all add: store_code_ok)

lemma serve_all_table_ok:
  assumes "otp_table_ok now (auOtps st)" "sorted (map request_time reqs)" "\<forall>r \<in> set reqs. now \<le> request_time r"
  shows "\<exists>later. otp_table_ok later (auOtps (serve_all env reqs st))"
  using assms
proof (induction reqs arbitrary: st now)
  case (Cons r reqs)
  have "otp_table_ok (request_time r) (auOtps (snd (serve env r st)))"
    using Cons.prems by (intro serve_table_ok) (auto intro: otp_table_later)
  then show ?case using Cons.IH Cons.prems(2) by simp
qed auto

text \<open>The codes of an account: over any sequence of requests with a clock that does not run backwards, at most
  one code per account and purpose is live at any time, and any quarter of an hour has at most five codes of an account and purpose.\<close>

theorem one_live_code_and_five_sends:
  assumes "sorted (map request_time reqs)" "auOtps st = []"
  shows "length (live_codes accountId type (auOtps (serve_all env reqs st))) \<le> 1 \<and>
    length (send_interval until (sends_of accountId type (auOtps (serve_all env reqs st)))) \<le> 5"
proof -
  have "\<exists>now. \<forall>r \<in> set reqs. now \<le> request_time r"
    using assms(1) by (cases reqs) auto
  then obtain now where now: "\<forall>r \<in> set reqs. now \<le> request_time r" by blast
  have "otp_table_ok now (auOtps st)" using assms(2) by (simp add: otp_table_ok_def live_codes_def sends_of_def send_interval_def)
  then obtain later where "otp_table_ok later (auOtps (serve_all env reqs st))"
    using serve_all_table_ok assms(1) now by blast
  then show ?thesis unfolding otp_table_ok_def OTP_SEND_LIMIT_def by blast
qed

theorem one_live_code_and_five_sends_witness:
  "length (live_codes ''a1'' FORGOT_PASSWORD_OTP (auOtps (serve_all plain_env
     [Forgot 5 ''c1'' ''123456'' True ''0912345678'', Forgot 6 ''c2'' ''654321'' False ''84912345678''] one_account))) \<le> 1"
  using one_live_code_and_five_sends [of "[Forgot 5 ''c1'' ''123456'' True ''0912345678'', Forgot 6 ''c2'' ''654321'' False ''84912345678'']" one_account]
  by (simp add: one_account_def)

text \<open>Two \<open>forgotPassword\<close> requests whose statements interleave leave two live codes, and as many requests as
  arrive together pass the check of the send limit.\<close>

lemma interleaved_forgot_leaves_two_codes:
  "length (live_codes (acId user) FORGOT_PASSWORD_OTP (auOtps
     (forgot_save env now r2 c2 user (forgot_save env now r1 c1 user (forgot_invalidate user (forgot_invalidate user st)))))) = 2"
proof -
  have "live_codes (acId user) FORGOT_PASSWORD_OTP (use_codes (acId user) FORGOT_PASSWORD_OTP rows) = []" for rows
    by (simp add: live_after_use)
  then show ?thesis by (simp add: forgot_save_def forgot_invalidate_def live_codes_append) (simp add: live_codes_def new_code_def)
qed

section \<open>A code works once\<close>

definition sends_code :: "auth_request \<Rightarrow> bool" where
  "sends_code r \<longleftrightarrow> (case r of Resend now rowId code phone type \<Rightarrow> True | Forgot now rowId code delivered phone \<Rightarrow> True | _ \<Rightarrow> False)"

lemma serve_keeps_dead:
  assumes "\<not> sends_code r" "live_codes a type (auOtps st) = []"
  shows "live_codes a type (auOtps (snd (serve env r st))) = []"
proof -
  have "marks_used (auOtps st) (auOtps (snd (serve env r st)))"
  proof (cases r)
    case (Verify now rowId token phone otp type app)
    then show ?thesis using verify_code_marks marks_used_refl by (simp add: verifyOtp_otps split: option.splits)
  next
    case (ResetPassword now salt resetToken newPassword phone)
    have "auOtps (snd (resetPassword env now salt resetToken newPassword phone st)) \<in>
        {auOtps st} \<union> range (\<lambda>a. use_codes a FORGOT_PASSWORD_OTP (auOtps st))"
      by (auto simp: resetPassword_def password_changed_def split: option.splits)
    then show ?thesis using ResetPassword marks_used_refl use_codes_marks by auto
  qed (use assms(1) marks_used_refl in \<open>simp_all add: sends_code_def refreshToken_def split: option.splits\<close>)
  from marks_used_live [OF this, of a type] show ?thesis using assms(2) by simp
qed

lemma accepted_code_is_used:
  assumes "length (live_codes (acId user) type (auOtps st)) \<le> 1" "fst (verify_code env now user otp type st) = Inr ()"
  shows "live_codes (acId user) type (auOtps (snd (verify_code env now user otp type st))) = []"
proof (cases rule: verify_code_cases [of env now user otp type st])
  case (2 st1 row)
  let ?used = "code_used (acId user) row st1"
  have "row \<in> set (live_codes (acId user) type (auOtps st))" using 2(3) unfolding current_code_def by (rule keep_best_in)
  then have "live_codes (acId user) type (auOtps st) = [row]"
    using assms(1) by (cases "live_codes (acId user) type (auOtps st)") auto
  then have only: "r \<in> set (live_codes (acId user) type (auOtps st)) \<Longrightarrow> r = row" for r by simp
  have none: "live_codes (acId user) type (auOtps ?used) = []"
    using only by (auto simp: live_codes_def filter_empty_conv code_used_def 2(2))
  have "marks_used (auOtps ?used) (auOtps (snd (verify_code env now user otp type st)))"
    unfolding 2(5) using activate_marks marks_used_refl by simp
  from marks_used_live [OF this, of "acId user" type] show ?thesis using none by simp
qed (use assms(2) in simp)

lemma serve_all_keeps_dead:
  "list_all (Not \<circ> sends_code) reqs \<Longrightarrow> live_codes a type (auOtps st) = [] \<Longrightarrow> live_codes a type (auOtps (serve_all env reqs st)) = []"
  by (induction reqs arbitrary: st) (simp_all add: serve_keeps_dead)

lemma no_live_code_no_success:
  "live_codes (acId user) type (auOtps st) = [] \<Longrightarrow> fst (verify_code env now user otp type st) \<noteq> Inr ()"
  by (cases rule: verify_code_cases [of env now user otp type st]) (auto simp: current_code_def)

text \<open>A code is accepted once: in a table with at most one live code (which every sequence of requests keeps), after
  a successful entry no entry of any code for the same account and purpose succeeds, whatever other requests are served,
  until a new code is sent.\<close>

theorem code_accepted_once:
  assumes "length (live_codes (acId user) type (auOtps st)) \<le> 1" "verify_code env now user otp type st = (Inr (), st')"
    "list_all (Not \<circ> sends_code) reqs" "acId again = acId user"
  shows "fst (verify_code env later again otp' type (serve_all env reqs st')) \<noteq> Inr ()"
  using serve_all_keeps_dead [OF assms(3) accepted_code_is_used [OF assms(1)], of env now otp env] assms(2,4)
    no_live_code_no_success [of again type] by simp

definition coded_account :: auth_state where
  "coded_account = one_account\<lparr>auOtps := [new_code plain_env 5 ''c1'' ''123456'' ''a1'' FORGOT_PASSWORD_OTP]\<rparr>"

theorem code_accepted_once_witness:
  "let user = hd (auAccounts coded_account); st' = snd (verify_code plain_env 10 user ''123456'' FORGOT_PASSWORD_OTP coded_account)
   in fst (verify_code plain_env 10 user ''123456'' FORGOT_PASSWORD_OTP coded_account) = Inr () \<and>
      fst (verify_code plain_env 20 user ''123456'' FORGOT_PASSWORD_OTP st') \<noteq> Inr ()"
proof -
  let ?user = "hd (auAccounts coded_account)"
  have live: "live_codes (acId ?user) FORGOT_PASSWORD_OTP (auOtps coded_account) = auOtps coded_account"
    by (simp add: coded_account_def one_account_def live_codes_def new_code_def)
  have ok: "fst (verify_code plain_env 10 ?user ''123456'' FORGOT_PASSWORD_OTP coded_account) = Inr ()"
    by code_simp
  then obtain st' where st': "verify_code plain_env 10 ?user ''123456'' FORGOT_PASSWORD_OTP coded_account = (Inr (), st')"
    by (metis prod.collapse)
  have "length (live_codes (acId ?user) FORGOT_PASSWORD_OTP (auOtps coded_account)) \<le> 1"
    unfolding live by (simp add: coded_account_def)
  from code_accepted_once [OF this st', of "[]" ?user] show ?thesis using ok st' by (simp add: Let_def)
qed

section \<open>Sessions\<close>

lemma live_after_revoking:
  "filter (live_row a app) (map (\<lambda>r. if rfId r \<in> S then r\<lparr>rfRevokedAt := Some now\<rparr> else r) rows) =
     filter (\<lambda>r. live_row a app r \<and> rfId r \<notin> S) rows"
  by (induction rows) (auto simp: live_row_def)

lemma length_filter_swap: "length (filter P (filter Q xs)) \<le> length (filter P xs)"
  by (induction xs) auto

lemma live_after_stale:
  "length (filter (live_row a app) (revokeStaleRefreshTokens now a app rows)) \<le> MAX_LIVE_REFRESH_TOKENS"
proof -
  let ?live = "filter (live_row a app) rows" and ?S = "set (stale_ids a app rows)"
  let ?sorted = "sort_key (\<lambda>r. - rfIssuedAt r) ?live" and ?n = MAX_LIVE_REFRESH_TOKENS
  have "length (filter (live_row a app) (revokeStaleRefreshTokens now a app rows)) \<le>
      length (filter (\<lambda>r. live_row a app r \<and> rfId r \<notin> ?S) rows)"
    unfolding revokeStaleRefreshTokens_def Let_def live_after_revoking [where now = now, symmetric] by (rule length_filter_swap)
  also have "\<dots> = length (filter (\<lambda>r. rfId r \<notin> ?S) ?live)" by (simp add: conj_commute)
  also have "\<dots> = length (filter (\<lambda>r. rfId r \<notin> ?S) ?sorted)"
    by (metis mset_filter mset_sort size_mset)
  also have "\<dots> \<le> ?n"
  proof -
    have "filter (\<lambda>r. rfId r \<notin> ?S) (drop ?n ?sorted) = []" by (simp add: stale_ids_def filter_empty_conv)
    then have "filter (\<lambda>r. rfId r \<notin> ?S) (take ?n ?sorted @ drop ?n ?sorted) = filter (\<lambda>r. rfId r \<notin> ?S) (take ?n ?sorted)"
      by (simp only: filter_append append_Nil2)
    then have "length (filter (\<lambda>r. rfId r \<notin> ?S) ?sorted) = length (filter (\<lambda>r. rfId r \<notin> ?S) (take ?n ?sorted))"
      by (simp only: append_take_drop_id)
    also have "\<dots> \<le> ?n" by (rule le_trans [OF length_filter_le]) simp
    finally show ?thesis .
  qed
  finally show ?thesis .
qed

lemma newest_is_first:
  assumes "x \<in> set xs" "\<And>y. y \<in> set xs \<Longrightarrow> y \<noteq> x \<Longrightarrow> f x < f y"
  shows "\<exists>ys. sort_key f xs = x # ys"
proof (cases "sort_key f xs")
  case (Cons h t)
  have "h \<in> set xs" using arg_cong [OF Cons, of set] by simp
  moreover have "f h \<le> f x"
  proof -
    have "sorted (map f (h # t))" using sorted_sort_key [of f xs] Cons by simp
    moreover have "x = h \<or> x \<in> set t" using assms(1) arg_cong [OF Cons, of set] by auto
    ultimately show ?thesis by auto
  qed
  ultimately have "h = x" using assms(2) by (metis linorder_not_less)
  then show ?thesis using Cons by blast
qed (use assms(1) in \<open>metis empty_iff list.set(1) set_sort\<close>)

text \<open>Signing in keeps at most five live sessions of the account in the app, and the new session is one of them
  when it is the latest and its row id is new.\<close>

theorem sessions_are_bounded:
  assumes "acStatus user \<noteq> UNVERIFIED_ACCOUNT" "\<not> aeReadOnly env"
    "\<And>r. r \<in> set (auTokens st) \<Longrightarrow> rfId r \<noteq> rowId \<and> (live_row (acId user) app r \<longrightarrow> rfIssuedAt r < now)"
    "now \<le> refreshTokenExpiry env token now"
  shows "length (filter (live_row (acId user) app) (auTokens (snd (login env now rowId token user app st)))) \<le> 5 \<and>
    rowId \<in> rfId ` set (filter (live_row (acId user) app) (auTokens (snd (login env now rowId token user app st))))"
proof -
  define row where "row = \<lparr> rfId = rowId, rfAccountId = acId user, rfAppType = app, rfTokenHash = hashRefreshToken env token,
    rfIssuedAt = now, rfExpiresAt = refreshTokenExpiry env token now, rfRevokedAt = None \<rparr>"
  let ?rows = "auTokens st @ [row]"
  have after: "auTokens (snd (login env now rowId token user app st)) = revokeStaleRefreshTokens now (acId user) app ?rows"
    using assms(1,2) by (simp add: login_def row_def Let_def)
  have live: "live_row (acId user) app row" "rfId row = rowId" "rfIssuedAt row = now" "now \<le> rfExpiresAt row"
    using assms(4) by (simp_all add: row_def live_row_def)
  obtain ys where first: "sort_key (\<lambda>r. - rfIssuedAt r) (filter (live_row (acId user) app) ?rows) = row # ys"
    using newest_is_first [of row "filter (live_row (acId user) app) ?rows" "\<lambda>r. - rfIssuedAt r"] live assms(3) by auto
  have "set ys = set (filter (live_row (acId user) app) (auTokens st))"
  proof -
    have "mset (row # ys) = mset (filter (live_row (acId user) app) (auTokens st)) + {#row#}"
      using live(1) unfolding first [symmetric] by simp
    then have "mset ys = mset (filter (live_row (acId user) app) (auTokens st))" by simp
    then show ?thesis by (rule mset_eq_setD)
  qed
  then have "rowId \<notin> rfId ` set ys" using assms(3) by auto
  then have "rowId \<notin> set (stale_ids (acId user) app ?rows)"
    unfolding stale_ids_def first by (auto simp: MAX_LIVE_REFRESH_TOKENS_def dest: in_set_dropD)
  then have "row \<in> set (revokeStaleRefreshTokens now (acId user) app ?rows)"
    using live(2,4) by (auto simp: revokeStaleRefreshTokens_def Let_def)
  then have "rowId \<in> rfId ` set (filter (live_row (acId user) app) (revokeStaleRefreshTokens now (acId user) app ?rows))"
    using live by force
  then show ?thesis unfolding after using live_after_stale [of "acId user" app now ?rows] by (simp add: MAX_LIVE_REFRESH_TOKENS_def)
qed

theorem sessions_are_bounded_witness:
  "length (filter (live_row ''a1'' OWNER_APP) (auTokens (snd (login plain_env 10 ''t1'' ''tok'' (hd (auAccounts one_account)) OWNER_APP one_account)))) \<le> 5"
  using sessions_are_bounded [of "hd (auAccounts one_account)" plain_env one_account "''t1''" OWNER_APP 10 "''tok''"]
  by (simp add: one_account_def plain_env_def refreshTokenExpiry_def DEFAULT_REFRESH_TTL_MS_def)

section \<open>A refresh token rotates once\<close>

definition dead_row :: "string \<Rightarrow> refresh_row list \<Rightarrow> bool" where
  "dead_row i rows \<longleftrightarrow> (\<forall>r \<in> set rows. rfId r = i \<longrightarrow> rfRevokedAt r \<noteq> None)"

primrec request_row_id :: "auth_request \<Rightarrow> string option" where
  "request_row_id (Resend now rowId code phone type) = None"
| "request_row_id (Forgot now rowId code delivered phone) = None"
| "request_row_id (Verify now rowId token phone otp type app) = Some rowId"
| "request_row_id (ResetPassword now salt resetToken newPassword phone) = None"
| "request_row_id (Refresh now rowId newToken token app) = Some rowId"
| "request_row_id (SignIn now rowId token accountId app) = Some rowId"

lemma dead_row_stale: "dead_row i rows \<Longrightarrow> dead_row i (revokeStaleRefreshTokens now a app rows)"
  by (auto simp: dead_row_def revokeStaleRefreshTokens_def Let_def)

lemma dead_row_login: "dead_row i (auTokens st) \<Longrightarrow> rowId \<noteq> i \<Longrightarrow> dead_row i (auTokens (snd (login env now rowId token user app st)))"
  unfolding login_def Let_def by (simp, intro impI dead_row_stale) (auto simp: dead_row_def)

lemma dead_row_revoke: "dead_row i rows \<Longrightarrow> dead_row i (snd (revoke_row now j rows))"
  by (auto simp: dead_row_def revoke_row_def)

lemma dead_row_rotate:
  "dead_row i (auTokens st) \<Longrightarrow> rowId \<noteq> i \<Longrightarrow> dead_row i (auTokens (snd (refresh_rotate env now rowId tok found app st)))"
  by (auto simp: refresh_rotate_def Let_def case_prod_beta dead_row_revoke dead_row_login split: option.splits)

lemma verify_code_tokens: "auTokens (snd (verify_code env now user otp type st)) = auTokens st"
  by (simp add: verify_code_def count_failures_state code_used_def code_missed_def activate_account_def Let_def split: option.splits)

lemma dead_row_serve:
  assumes "dead_row i (auTokens st)" "request_row_id r \<noteq> Some i"
  shows "dead_row i (auTokens (snd (serve env r st)))"
proof (cases r)
  case (Verify now rowId token phone otp type app)
  show ?thesis
  proof (cases "findByPhone phone (auAccounts st)")
    case (Some user)
    obtain res st' where v: "verify_code env now user otp type st = (res, st')" by fastforce
    then have "auTokens st' = auTokens st" using verify_code_tokens by (metis snd_conv)
    then show ?thesis using Some v assms Verify by (cases res) (simp_all add: verifyOtp_def dead_row_login)
  qed (use assms Verify in \<open>simp add: verifyOtp_def\<close>)
next
  case (ResetPassword now salt resetToken newPassword phone)
  have "auTokens (snd (resetPassword env now salt resetToken newPassword phone st)) \<in>
      {auTokens st} \<union> range (\<lambda>a. map (\<lambda>r. if rfAccountId r = a \<and> rfRevokedAt r = None then r\<lparr>rfRevokedAt := Some now\<rparr> else r) (auTokens st))"
    by (auto simp: resetPassword_def password_changed_def split: option.splits)
  then show ?thesis using ResetPassword assms(1) by (auto simp: dead_row_def)
next
  case (Refresh now rowId newToken token app)
  then show ?thesis using assms by (simp add: refreshToken_def dead_row_rotate split: option.splits)
next
  case (SignIn now rowId token accountId app)
  then show ?thesis using assms by (simp add: dead_row_login split: option.splits)
qed (use assms in \<open>simp_all add: resendOtp_def forgotPassword_def forgot_save_def forgot_invalidate_def store_code_def
    split: option.splits sum.splits\<close>)

lemma dead_row_serve_all:
  "dead_row i (auTokens st) \<Longrightarrow> list_all (\<lambda>r. request_row_id r \<noteq> Some i) reqs \<Longrightarrow> dead_row i (auTokens (serve_all env reqs st))"
  by (induction reqs arbitrary: st) (simp_all add: dead_row_serve)

lemma rotation_kills: "rowId \<noteq> rfId (snd found) \<Longrightarrow> dead_row (rfId (snd found)) (auTokens (snd (refresh_rotate env now rowId tok found app st)))"
proof -
  assume fresh: "rowId \<noteq> rfId (snd found)"
  have "dead_row (rfId (snd found)) (snd (revoke_row now (rfId (snd found)) (auTokens st)))"
    by (auto simp: dead_row_def revoke_row_def)
  then show ?thesis using fresh
    by (auto simp: refresh_rotate_def Let_def case_prod_beta dead_row_login split: option.splits)
qed

text \<open>C40. However two refreshes interleave: once a row has been rotated, no other refresh that found the same row, before or
  after, at whatever point of any sequence of requests it gets to its update, mints a second pair of tokens.\<close>

theorem refresh_rotates_once:
  assumes "refresh_rotate env now rowId newToken found app st = (Inr res, st1)" "rowId \<noteq> rfId (snd found)"
    "list_all (\<lambda>r. request_row_id r \<noteq> Some (rfId (snd found))) reqs" "rfId (snd found') = rfId (snd found)"
  shows "fst (refresh_rotate env later rowId' newToken' found' app' (serve_all env reqs st1)) = Inl Unauthorized"
proof -
  have "dead_row (rfId (snd found)) (auTokens st1)" using rotation_kills [OF assms(2), of env now newToken app st] assms(1) by simp
  then have "dead_row (rfId (snd found')) (auTokens (serve_all env reqs st1))" using dead_row_serve_all assms(3,4) by simp
  then have "\<not> fst (revoke_row later (rfId (snd found')) (auTokens (serve_all env reqs st1)))"
    by (auto simp: dead_row_def revoke_row_def list_ex_iff)
  then show ?thesis by (simp add: refresh_rotate_def Let_def case_prod_beta)
qed

definition signed_in :: auth_state where
  "signed_in = snd (login plain_env 10 ''t1'' ''tok'' (hd (auAccounts one_account)) OWNER_APP one_account)"

theorem refresh_rotates_once_witness:
  "let found = the (refresh_find plain_env 20 ''tok'' OWNER_APP signed_in);
       first = refresh_rotate plain_env 20 ''t2'' ''tok2'' found OWNER_APP signed_in
   in fst first = Inr (SignedIn ''tok2'') \<and>
      fst (refresh_rotate plain_env 21 ''t3'' ''tok3'' found OWNER_APP (snd first)) = Inl Unauthorized"
proof -
  let ?found = "the (refresh_find plain_env 20 ''tok'' OWNER_APP signed_in)"
  have ok: "fst (refresh_rotate plain_env 20 ''t2'' ''tok2'' ?found OWNER_APP signed_in) = Inr (SignedIn ''tok2'')" by code_simp
  have i: "rfId (snd ?found) = ''t1''" by code_simp
  obtain st1 where st1: "refresh_rotate plain_env 20 ''t2'' ''tok2'' ?found OWNER_APP signed_in = (Inr (SignedIn ''tok2''), st1)"
    using ok by (metis prod.collapse)
  show ?thesis using refresh_rotates_once [OF st1, of "[]" ?found] i st1 by (simp add: Let_def)
qed

section \<open>A reset token works once\<close>

lemma find_changed: "find (\<lambda>a. acId a = i) (map (\<lambda>a. if acId a = i then a\<lparr>acPasswordHash := h\<rparr> else a) accounts) =
    map_option (\<lambda>a. a\<lparr>acPasswordHash := h\<rparr>) (find (\<lambda>a. acId a = i) accounts)"
  by (induction accounts) auto

lemma find_id: "find (\<lambda>a. acId a = i) accounts = Some a \<Longrightarrow> acId a = i"
  by (auto simp: find_Some_iff)

lemma no_session_after:
  "filter (live_row a app) (map (\<lambda>r. if rfAccountId r = a \<and> rfRevokedAt r = None then r\<lparr>rfRevokedAt := Some now\<rparr> else r) rows) = []"
  by (induction rows) (auto simp: live_row_def)

lemma reset_succeeds:
  assumes "resetPassword env now salt tok pw phone st = (Inr (), st')"
  obtains c sub a where "aeVerifyReset env now tok = Some c" "rcSub c = Some sub" "rcTokenUse c = Some ''password_reset''"
    "find (\<lambda>a. acId a = sub) (auAccounts st) = Some a" "acId a = sub" "6 \<le> length pw"
    "rcPwf c = Some (passwordFingerprint env sub (acPasswordHash a))"
    "st' = password_changed now sub (aeBcryptHash env salt pw) st"
  using assms by (auto simp: resetPassword_def MIN_PASSWORD_LENGTH_def split: if_splits option.splits dest: find_id)

text \<open>A password reset is single-use and ends every session: a successful reset presented a token issued for the
  password it replaces and a password of at least six characters; afterwards the account has no live session and no live reset code,
  and the same token is refused from then on, as long as the new hash has another fingerprint.\<close>

theorem reset_works_once:
  assumes "resetPassword env now salt tok pw phone st = (Inr (), st')"
    and "aeVerifyReset env now tok = Some c" "rcSub c = Some sub" "find (\<lambda>a. acId a = sub) (auAccounts st) = Some a"
    and "passwordFingerprint env sub (aeBcryptHash env salt pw) \<noteq> passwordFingerprint env sub (acPasswordHash a)"
    and "aeVerifyReset env later tok \<in> {None, Some c}"
  shows "rcPwf c = Some (passwordFingerprint env sub (acPasswordHash a)) \<and> 6 \<le> length pw \<and>
    filter (live_row sub app) (auTokens st') = [] \<and> live_codes sub FORGOT_PASSWORD_OTP (auOtps st') = [] \<and>
    fst (resetPassword env later salt' tok pw' phone' st') \<noteq> Inr ()"
proof -
  obtain c1 sub1 a1 where first: "aeVerifyReset env now tok = Some c1" "rcSub c1 = Some sub1" "rcTokenUse c1 = Some ''password_reset''"
      "find (\<lambda>a. acId a = sub1) (auAccounts st) = Some a1" "acId a1 = sub1" "6 \<le> length pw"
      "rcPwf c1 = Some (passwordFingerprint env sub1 (acPasswordHash a1))"
      "st' = password_changed now sub1 (aeBcryptHash env salt pw) st"
    by (rule reset_succeeds [OF assms(1)])
  have eq1: "c1 = c" using first(1) assms(2) by simp
  have eq2: "sub1 = sub" using first(2) assms(3) unfolding eq1 by simp
  have eq3: "a1 = a" using first(4) assms(4) unfolding eq2 by simp
  note eq = eq1 eq2 eq3
  note st' = first(8) [unfolded eq] and c = first(7) [unfolded eq] and pw = first(6)
  have "filter (live_row sub app) (auTokens st') = []"
    unfolding st' password_changed_def by (simp add: no_session_after)
  moreover have "live_codes sub FORGOT_PASSWORD_OTP (auOtps st') = []"
    unfolding st' by (simp add: password_changed_def live_after_use)
  moreover have "fst (resetPassword env later salt' tok pw' phone' st') \<noteq> Inr ()"
  proof
    assume "fst (resetPassword env later salt' tok pw' phone' st') = Inr ()"
    then obtain st2 where "resetPassword env later salt' tok pw' phone' st' = (Inr (), st2)" by (metis prod.collapse)
    then obtain c2 sub2 a2 where again: "aeVerifyReset env later tok = Some c2" "rcSub c2 = Some sub2"
        "find (\<lambda>a. acId a = sub2) (auAccounts st') = Some a2" "rcPwf c2 = Some (passwordFingerprint env sub2 (acPasswordHash a2))"
      by (rule reset_succeeds)
    then have "c2 = c" "sub2 = sub" using assms(3,6) by auto
    moreover from this again(3) have "acPasswordHash a2 = aeBcryptHash env salt pw"
      using assms(4) unfolding st' by (auto simp: password_changed_def find_changed)
    ultimately show False using again(4) c assms(5) by simp
  qed
  ultimately show ?thesis using c pw by blast
qed

theorem reset_works_once_witness:
  "let st' = snd (resetPassword plain_env 10 ''x'' ''a1:p'' ''secret'' None signed_in)
   in filter (live_row ''a1'' OWNER_APP) (auTokens st') = [] \<and>
      fst (resetPassword plain_env 11 ''y'' ''a1:p'' ''secret2'' None st') \<noteq> Inr ()"
proof -
  have ok: "fst (resetPassword plain_env 10 ''x'' ''a1:p'' ''secret'' None signed_in) = Inr ()" by code_simp
  then obtain st' where st': "resetPassword plain_env 10 ''x'' ''a1:p'' ''secret'' None signed_in = (Inr (), st')"
    by (metis prod.collapse)
  have a: "find (\<lambda>a. acId a = ''a1'') (auAccounts signed_in) = Some (hd (auAccounts one_account))" by code_simp
  have new: "passwordFingerprint plain_env ''a1'' (aeBcryptHash plain_env ''x'' ''secret'') \<noteq>
      passwordFingerprint plain_env ''a1'' (acPasswordHash (hd (auAccounts one_account)))" by code_simp
  have claims: "aeVerifyReset plain_env t ''a1:p'' =
      Some \<lparr> rcSub = Some ''a1'', rcTokenUse = Some ''password_reset'', rcPwf = Some ''a1:p'' \<rparr>" for t
    by (simp add: plain_env_def)
  have "filter (live_row ''a1'' OWNER_APP) (auTokens st') = [] \<and> fst (resetPassword plain_env 11 ''y'' ''a1:p'' ''secret2'' None st') \<noteq> Inr ()"
    using reset_works_once [OF st' claims _ a new, of 11 OWNER_APP "''y''" "''secret2''" None] by (simp only: claims reset_claims.simps) blast
  then show ?thesis unfolding st' Let_def snd_conv .
qed

end
