(* ===== verification/ChatLimits.thy ===== *)
theory ChatLimits
  imports JsBase JsMap
begin

text \<open>
  \<open>src/modules/chat-groups/chat-abuse-protection.service.ts\<close>: fixed-window request counters per account and per
  address, and the numbers of open sockets per account and per address. The state is the service's four private
  maps; an operation that throws returns the error beside the state it leaves. The socket maps implement the abstract
  state "who has which socket open".
\<close>

section \<open>Limits\<close>

datatype http_route = Send | Search | Unread | List | History | Media | Typing

record rate_limit =
  rlMax :: nat
  rlWindowMs :: int

primrec CHAT_HTTP_LIMITS :: "http_route \<Rightarrow> rate_limit" where
  "CHAT_HTTP_LIMITS Send = \<lparr> rlMax = 30, rlWindowMs = 60000 \<rparr>"
| "CHAT_HTTP_LIMITS Search = \<lparr> rlMax = 60, rlWindowMs = 60000 \<rparr>"
| "CHAT_HTTP_LIMITS Unread = \<lparr> rlMax = 120, rlWindowMs = 60000 \<rparr>"
| "CHAT_HTTP_LIMITS List = \<lparr> rlMax = 120, rlWindowMs = 60000 \<rparr>"
| "CHAT_HTTP_LIMITS History = \<lparr> rlMax = 120, rlWindowMs = 60000 \<rparr>"
| "CHAT_HTTP_LIMITS Media = \<lparr> rlMax = 60, rlWindowMs = 60000 \<rparr>"
| "CHAT_HTTP_LIMITS Typing = \<lparr> rlMax = 10, rlWindowMs = 5000 \<rparr>"

definition CHAT_HTTP_IP_ACCOUNT_CAPACITY :: nat where "CHAT_HTTP_IP_ACCOUNT_CAPACITY = 256"
definition CHAT_SOCKET_MAX_PER_ACCOUNT :: nat where "CHAT_SOCKET_MAX_PER_ACCOUNT = 5"
definition CHAT_SOCKET_MAX_PER_IP :: nat where "CHAT_SOCKET_MAX_PER_IP = 2048"

section \<open>State\<close>

record window_counter =
  wcStartedAt :: int
  wcCount :: nat

record socket_entry =
  seAccountId :: string
  seIpAddress :: string

record abuse_state =
  abCounters :: "(string, window_counter) jsmap"
  abSockets :: "(string, socket_entry) jsmap"
  abAccountCounts :: "(string, nat) jsmap"
  abIpCounts :: "(string, nat) jsmap"

definition no_abuse :: abuse_state where
  "no_abuse = \<lparr> abCounters = [], abSockets = [], abAccountCounts = [], abIpCounts = [] \<rparr>"

datatype abuse_error = RateLimited | SocketLimited

section \<open>Requests\<close>

definition take_slot :: "string \<Rightarrow> rate_limit \<Rightarrow> int \<Rightarrow> (string, window_counter) jsmap \<Rightarrow> abuse_error + (string, window_counter) jsmap" where
  "take_slot key limit now m =
     (case map_of m key of
        None \<Rightarrow> Inr (map_set m key \<lparr> wcStartedAt = now, wcCount = 1 \<rparr>)
      | Some current \<Rightarrow>
          if now - wcStartedAt current \<ge> rlWindowMs limit then Inr (map_set m key \<lparr> wcStartedAt = now, wcCount = 1 \<rparr>)
          else if wcCount current \<ge> rlMax limit then Inl RateLimited
          else Inr (map_set m key (current\<lparr>wcCount := wcCount current + 1\<rparr>)))"

definition prune_counters :: "int \<Rightarrow> (string, window_counter) jsmap \<Rightarrow> (string, window_counter) jsmap" where
  "prune_counters now m = filter (\<lambda>(key, c). \<not> now - wcStartedAt c \<ge> 60000) m"

primrec route_name :: "http_route \<Rightarrow> string" where
  "route_name Send = ''send''"
| "route_name Search = ''search''"
| "route_name Unread = ''unread''"
| "route_name List = ''list''"
| "route_name History = ''history''"
| "route_name Media = ''media''"
| "route_name Typing = ''typing''"

definition account_key :: "http_route \<Rightarrow> string \<Rightarrow> string" where
  "account_key route accountId = route_name route @ '':account:'' @ accountId"

text \<open>\<open>ipAddress || 'unknown'\<close>.\<close>

definition address_of :: "string option \<Rightarrow> string" where
  "address_of ip = (case ip of Some s \<Rightarrow> (if s = [] then ''unknown'' else s) | None \<Rightarrow> ''unknown'')"

definition ip_key :: "http_route \<Rightarrow> string option \<Rightarrow> string" where
  "ip_key route ip = route_name route @ '':ip:'' @ address_of ip"

definition ip_limit :: "rate_limit \<Rightarrow> rate_limit" where
  "ip_limit l = \<lparr> rlMax = rlMax l * CHAT_HTTP_IP_ACCOUNT_CAPACITY, rlWindowMs = rlWindowMs l \<rparr>"

definition assertHttp ::
  "http_route \<Rightarrow> string \<Rightarrow> string option \<Rightarrow> int \<Rightarrow> (string, window_counter) jsmap \<Rightarrow> (abuse_error + unit) \<times> (string, window_counter) jsmap" where
  "assertHttp route accountId ip now m =
     (case take_slot (account_key route accountId) (CHAT_HTTP_LIMITS route) now m of
        Inl e \<Rightarrow> (Inl e, m)
      | Inr m1 \<Rightarrow>
          (case take_slot (ip_key route ip) (ip_limit (CHAT_HTTP_LIMITS route)) now m1 of
             Inl e \<Rightarrow> (Inl e, m1)
           | Inr m2 \<Rightarrow> (Inr (), if length m2 > 10000 then prune_counters now m2 else m2)))"

section \<open>Sockets\<close>

text \<open>\<open>counts.get(key) || 0\<close> and \<open>decrement\<close>, which reads \<open>counts.get(key) || 1\<close>.\<close>

definition count_at :: "(string, nat) jsmap \<Rightarrow> string \<Rightarrow> nat" where
  "count_at counts key = map_get_or 0 counts key"

definition decrement :: "(string, nat) jsmap \<Rightarrow> string \<Rightarrow> (string, nat) jsmap" where
  "decrement counts key =
     (let current = (case map_of counts key of Some n \<Rightarrow> (if n = 0 then 1 else n) | None \<Rightarrow> 1); next_count = current - 1
      in if next_count \<le> 0 then map_delete counts key else map_set counts key next_count)"

definition acquireSocket :: "string \<Rightarrow> string \<Rightarrow> string option \<Rightarrow> abuse_state \<Rightarrow> (abuse_error + unit) \<times> abuse_state" where
  "acquireSocket socketId accountId ipAddress st =
     (if map_of (abSockets st) socketId \<noteq> None then (Inr (), st)
      else
        let ip = address_of ipAddress;
            accountCount = count_at (abAccountCounts st) accountId;
            ipCount = count_at (abIpCounts st) ip
        in if accountCount \<ge> CHAT_SOCKET_MAX_PER_ACCOUNT \<or> ipCount \<ge> CHAT_SOCKET_MAX_PER_IP then (Inl SocketLimited, st)
           else (Inr (), st\<lparr>abSockets := map_set (abSockets st) socketId \<lparr> seAccountId = accountId, seIpAddress = ip \<rparr>,
                           abAccountCounts := map_set (abAccountCounts st) accountId (accountCount + 1),
                           abIpCounts := map_set (abIpCounts st) ip (ipCount + 1)\<rparr>))"

definition releaseSocket :: "string \<Rightarrow> abuse_state \<Rightarrow> abuse_state" where
  "releaseSocket socketId st =
     (case map_of (abSockets st) socketId of
        None \<Rightarrow> st
      | Some socket \<Rightarrow>
          st\<lparr>abSockets := map_delete (abSockets st) socketId,
             abAccountCounts := decrement (abAccountCounts st) (seAccountId socket),
             abIpCounts := decrement (abIpCounts st) (seIpAddress socket)\<rparr>)"

datatype socket_call = Acquire string string "string option" | Release string

primrec socket_step :: "abuse_state \<Rightarrow> socket_call \<Rightarrow> abuse_state" where
  "socket_step st (Acquire socketId accountId ip) = snd (acquireSocket socketId accountId ip st)"
| "socket_step st (Release socketId) = releaseSocket socketId st"

section \<open>The socket counts are the open sockets\<close>

definition open_of :: "(socket_entry \<Rightarrow> bool) \<Rightarrow> (string, socket_entry) jsmap \<Rightarrow> nat" where
  "open_of P sockets = length (filter (\<lambda>p. P (snd p)) sockets)"

text \<open>A count map that lists exactly the positive numbers of open sockets by a field.\<close>

definition counts_by :: "(socket_entry \<Rightarrow> string) \<Rightarrow> (string, socket_entry) jsmap \<Rightarrow> (string, nat) jsmap \<Rightarrow> bool" where
  "counts_by field sockets counts \<longleftrightarrow>
     (\<forall>k. map_of counts k = (let n = open_of (\<lambda>e. field e = k) sockets in if n = 0 then None else Some n))"

definition abuse_ok :: "abuse_state \<Rightarrow> bool" where
  "abuse_ok st \<longleftrightarrow> distinct (map fst (abSockets st)) \<and>
     counts_by seAccountId (abSockets st) (abAccountCounts st) \<and> counts_by seIpAddress (abSockets st) (abIpCounts st) \<and>
     (\<forall>a. open_of (\<lambda>e. seAccountId e = a) (abSockets st) \<le> CHAT_SOCKET_MAX_PER_ACCOUNT) \<and>
     (\<forall>ip. open_of (\<lambda>e. seIpAddress e = ip) (abSockets st) \<le> CHAT_SOCKET_MAX_PER_IP)"

lemma map_set_new: "map_of m k = None \<Longrightarrow> map_set m k v = m @ [(k, v)]"
  by (induction m k v rule: map_set.induct) (auto split: if_splits)

lemma open_of_add: "map_of m k = None \<Longrightarrow> open_of P (map_set m k e) = open_of P m + (if P e then 1 else 0)"
  by (simp add: open_of_def map_set_new)

lemma open_of_delete:
  "distinct (map fst m) \<Longrightarrow> map_of m k = Some e \<Longrightarrow> open_of P (map_delete m k) + (if P e then 1 else 0) = open_of P m"
proof (induction m)
  case (Cons p m)
  show ?case
  proof (cases "fst p = k")
    case True
    then have "k \<notin> fst ` set m" using Cons.prems(1) by auto
    then have "filter (\<lambda>q. fst q \<noteq> k) m = m" by (auto simp: filter_id_conv)
    then show ?thesis using True Cons.prems(2) by (cases p) (simp add: open_of_def map_delete_def)
  next
    case False
    then show ?thesis using Cons by (cases p) (simp add: open_of_def map_delete_def)
  qed
qed simp

lemma count_at_open: "counts_by field sockets counts \<Longrightarrow> count_at counts k = open_of (\<lambda>e. field e = k) sockets"
  by (simp add: counts_by_def count_at_def map_get_or_def Let_def)

lemma counts_by_add:
  assumes "counts_by field sockets counts" "map_of sockets s = None"
  shows "counts_by field (map_set sockets s e) (map_set counts (field e) (count_at counts (field e) + 1))"
  using assms count_at_open [OF assms(1)] by (simp add: counts_by_def open_of_add Let_def)

lemma counts_by_remove:
  assumes "counts_by field sockets counts" "distinct (map fst sockets)" "map_of sockets s = Some e"
  shows "counts_by field (map_delete sockets s) (decrement counts (field e))"
proof -
  have "open_of (\<lambda>x. field x = k) (map_delete sockets s) + (if field e = k then 1 else 0) = open_of (\<lambda>x. field x = k) sockets" for k
    using open_of_delete [OF assms(2,3)] .
  note less = this
  let ?n = "open_of (\<lambda>x. field x = field e) (map_delete sockets s)"
  have "map_of counts (field e) = Some (Suc ?n)"
    using less [of "field e"] assms(1) by (simp add: counts_by_def Let_def)
  then have after: "decrement counts (field e) = (if ?n = 0 then map_delete counts (field e) else map_set counts (field e) ?n)"
    by (simp add: decrement_def)
  show ?thesis unfolding counts_by_def
  proof
    fix k
    show "map_of (decrement counts (field e)) k =
        (let n = open_of (\<lambda>x. field x = k) (map_delete sockets s) in if n = 0 then None else Some n)"
    proof (cases "field e = k")
      case True
      then show ?thesis unfolding after by (simp add: Let_def)
    next
      case False
      then have "map_of (decrement counts (field e)) k = map_of counts k" unfolding after by simp
      then show ?thesis using less [of k] False assms(1) by (simp add: counts_by_def)
    qed
  qed
qed

lemma socket_step_ok: "abuse_ok st \<Longrightarrow> abuse_ok (socket_step st c)"
proof (cases c)
  case (Acquire socketId accountId ipAddress)
  assume ok: "abuse_ok st"
  let ?ip = "address_of ipAddress"
  show ?thesis
  proof (cases "map_of (abSockets st) socketId \<noteq> None \<or> count_at (abAccountCounts st) accountId \<ge> CHAT_SOCKET_MAX_PER_ACCOUNT \<or>
      count_at (abIpCounts st) ?ip \<ge> CHAT_SOCKET_MAX_PER_IP")
    case True
    then have "socket_step st c = st" using Acquire by (auto simp: acquireSocket_def Let_def)
    then show ?thesis using ok by simp
  next
    case False
    let ?e = "\<lparr> seAccountId = accountId, seIpAddress = ?ip \<rparr>"
    have new: "map_of (abSockets st) socketId = None" using False by simp
    have lt: "open_of (\<lambda>e. seAccountId e = accountId) (abSockets st) < CHAT_SOCKET_MAX_PER_ACCOUNT"
        "open_of (\<lambda>e. seIpAddress e = ?ip) (abSockets st) < CHAT_SOCKET_MAX_PER_IP"
      using False ok count_at_open unfolding abuse_ok_def by (metis linorder_not_less)+
    have by_account: "counts_by seAccountId (map_set (abSockets st) socketId ?e) (map_set (abAccountCounts st) accountId (count_at (abAccountCounts st) accountId + 1))"
      and by_ip: "counts_by seIpAddress (map_set (abSockets st) socketId ?e) (map_set (abIpCounts st) ?ip (count_at (abIpCounts st) ?ip + 1))"
      using counts_by_add [of seAccountId "abSockets st" _ socketId ?e] counts_by_add [of seIpAddress "abSockets st" _ socketId ?e] ok new
      by (simp_all add: abuse_ok_def)
    have "socket_step st c = st\<lparr>abSockets := map_set (abSockets st) socketId ?e,
        abAccountCounts := map_set (abAccountCounts st) accountId (count_at (abAccountCounts st) accountId + 1),
        abIpCounts := map_set (abIpCounts st) ?ip (count_at (abIpCounts st) ?ip + 1)\<rparr>"
      using False Acquire by (simp add: acquireSocket_def Let_def)
    then show ?thesis using ok by_account by_ip lt new by (auto simp: abuse_ok_def open_of_add)
  qed
next
  case (Release socketId)
  assume ok: "abuse_ok st"
  show ?thesis
  proof (cases "map_of (abSockets st) socketId")
    case None
    then show ?thesis using Release ok by (simp add: releaseSocket_def)
  next
    case (Some e)
    have fewer: "open_of P (map_delete (abSockets st) socketId) \<le> open_of P (abSockets st)" for P
      using open_of_delete [OF _ Some, of P] ok by (simp add: abuse_ok_def)
    have "counts_by seAccountId (map_delete (abSockets st) socketId) (decrement (abAccountCounts st) (seAccountId e))"
      and "counts_by seIpAddress (map_delete (abSockets st) socketId) (decrement (abIpCounts st) (seIpAddress e))"
      using counts_by_remove [OF _ _ Some] ok by (simp_all add: abuse_ok_def)
    then show ?thesis using ok Some Release le_trans [OF fewer] by (simp add: abuse_ok_def releaseSocket_def distinct_map_delete)
  qed
qed

lemma socket_run_ok: "abuse_ok (foldl socket_step no_abuse calls)"
proof -
  have "abuse_ok (foldl socket_step st calls)" if "abuse_ok st" for st
    using that by (induction calls arbitrary: st) (simp_all add: socket_step_ok)
  moreover have "abuse_ok no_abuse" by (simp add: abuse_ok_def no_abuse_def counts_by_def open_of_def)
  ultimately show ?thesis by blast
qed

text \<open>After any sequence of connects and disconnects, repeated and unknown socket ids included, the counts per account
  and per address are exactly the numbers of open sockets (no entry stays behind at zero), at most five per account
  and 2048 per address.\<close>

theorem socket_counts_are_exact:
  "let st = foldl socket_step no_abuse calls in
   counts_by seAccountId (abSockets st) (abAccountCounts st) \<and> counts_by seIpAddress (abSockets st) (abIpCounts st) \<and>
   open_of (\<lambda>e. seAccountId e = accountId) (abSockets st) \<le> 5 \<and> open_of (\<lambda>e. seIpAddress e = ip) (abSockets st) \<le> 2048"
  using socket_run_ok [of calls]
  by (simp add: abuse_ok_def Let_def CHAT_SOCKET_MAX_PER_ACCOUNT_def CHAT_SOCKET_MAX_PER_IP_def)

section \<open>How many requests get through\<close>

datatype chat_request = Request (cqRoute: http_route) (cqAccount: string) (cqIp: "string option") (cqTime: int)

definition serve_request :: "chat_request \<Rightarrow> (string, window_counter) jsmap \<Rightarrow> (abuse_error + unit) \<times> (string, window_counter) jsmap" where
  "serve_request r m = assertHttp (cqRoute r) (cqAccount r) (cqIp r) (cqTime r) m"

text \<open>The times at which requests of the account to the route got through.\<close>

primrec passed_times :: "http_route \<Rightarrow> string \<Rightarrow> (string, window_counter) jsmap \<Rightarrow> chat_request list \<Rightarrow> int list" where
  "passed_times route a m [] = []"
| "passed_times route a m (r # rs) =
     (if cqRoute r = route \<and> cqAccount r = a \<and> \<not> isl (fst (serve_request r m)) then [cqTime r] else []) @
     passed_times route a (snd (serve_request r m)) rs"

definition many :: "(int \<Rightarrow> bool) \<Rightarrow> int list \<Rightarrow> nat" where
  "many P h = length (filter P h)"

lemma many_append [simp]: "many P (h @ h') = many P h + many P h'"
  by (simp add: many_def)

lemma many_Nil [simp]: "many P [] = 0"
  by (simp add: many_def)

lemma many_single [simp]: "many P [t] = (if P t then 1 else 0)"
  by (simp add: many_def)

lemma many_mono: "(\<And>t. t \<in> set h \<Longrightarrow> P t \<Longrightarrow> Q t) \<Longrightarrow> many P h \<le> many Q h"
  unfolding many_def by (induction h) auto

lemma many_none: "(\<And>t. t \<in> set h \<Longrightarrow> \<not> P t) \<Longrightarrow> many P h = 0"
  by (simp add: many_def filter_empty_conv)

lemma many_split: "many P h \<le> many (\<lambda>t. P t \<and> t < s) h + many (\<lambda>t. P t \<and> t \<ge> s) h"
  unfolding many_def by (induction h) auto

text \<open>What a counter entry says of the times \<open>h\<close> at which its key took a slot, up to \<open>now\<close>.\<close>

definition slots_ok :: "rate_limit \<Rightarrow> int list \<Rightarrow> window_counter option \<Rightarrow> int \<Rightarrow> bool" where
  "slots_ok l h entry now \<longleftrightarrow>
     (\<forall>t \<in> set h. t \<le> now) \<and> (\<forall>u. many (\<lambda>t. t > u - rlWindowMs l \<and> t \<le> u) h \<le> 2 * rlMax l - 1) \<and>
     (case entry of
        None \<Rightarrow> (\<forall>t \<in> set h. t < now) \<and> many (\<lambda>t. t > now - rlWindowMs l) h \<le> rlMax l - 1
      | Some c \<Rightarrow>
          wcStartedAt c \<le> now \<and> 1 \<le> wcCount c \<and> wcCount c \<le> rlMax l \<and> many (\<lambda>t. t \<ge> wcStartedAt c) h = wcCount c \<and>
          many (\<lambda>t. t > wcStartedAt c) h \<le> wcCount c - 1 \<and>
          many (\<lambda>t. t > wcStartedAt c - rlWindowMs l \<and> t < wcStartedAt c) h \<le> rlMax l - 1 \<and>
          (\<forall>t \<in> set h. t < wcStartedAt c + rlWindowMs l))"

lemma slots_ok_later:
  assumes "slots_ok l h entry now" "now \<le> later"
  shows "slots_ok l h entry later"
proof (cases entry)
  case None
  have "many (\<lambda>t. t > later - rlWindowMs l) h \<le> many (\<lambda>t. t > now - rlWindowMs l) h"
    by (rule many_mono) (use assms(2) in simp)
  then show ?thesis using None assms by (fastforce simp: slots_ok_def)
next
  case (Some c)
  then show ?thesis using assms by (force simp: slots_ok_def)
qed

text \<open>A new window opens.\<close>

lemma slots_ok_fresh:
  assumes ok: "slots_ok l h None now" and l: "0 < rlWindowMs l" "1 \<le> rlMax l"
  shows "slots_ok l (h @ [now]) (Some \<lparr> wcStartedAt = now, wcCount = 1 \<rparr>) now"
proof -
  have before: "\<forall>t \<in> set h. t < now" and few: "many (\<lambda>t. t > now - rlWindowMs l) h \<le> rlMax l - 1"
    using ok by (simp_all add: slots_ok_def)
  have none: "many (\<lambda>t. now \<le> t) h = 0" "many (\<lambda>t. now < t) h = 0"
    using before by (auto intro!: many_none)
  have "many (\<lambda>t. t > now - rlWindowMs l \<and> t < now) h \<le> rlMax l - 1"
    by (rule le_trans [OF many_mono few]) simp
  moreover have "many (\<lambda>t. t > u - rlWindowMs l \<and> t \<le> u) (h @ [now]) \<le> 2 * rlMax l - 1" for u
  proof (cases "now \<le> u")
    case True
    have "many (\<lambda>t. t > u - rlWindowMs l \<and> t \<le> u) h \<le> rlMax l - 1"
      by (rule le_trans [OF many_mono few]) (use True in simp)
    then show ?thesis using l(2) by (simp, arith)
  next
    case False
    then show ?thesis using ok by (simp add: slots_ok_def)
  qed
  ultimately show ?thesis using before l none by (auto simp: slots_ok_def)
qed

lemma slots_ok_expired:
  assumes ok: "slots_ok l h (Some c) now" and old: "now - wcStartedAt c \<ge> rlWindowMs l"
  shows "slots_ok l h None now"
proof -
  have "many (\<lambda>t. t > now - rlWindowMs l) h \<le> many (\<lambda>t. t > wcStartedAt c) h"
    by (rule many_mono) (use old in simp)
  also have "\<dots> \<le> wcCount c - 1" using ok by (simp add: slots_ok_def)
  also have "\<dots> \<le> rlMax l - 1" using ok by (intro diff_le_mono) (simp add: slots_ok_def)
  finally show ?thesis using ok old by (fastforce simp: slots_ok_def)
qed

lemma slots_ok_again:
  assumes ok: "slots_ok l h (Some c) now" and young: "now - wcStartedAt c < rlWindowMs l" and room: "wcCount c < rlMax l"
  shows "slots_ok l (h @ [now]) (Some (c\<lparr>wcCount := wcCount c + 1\<rparr>)) now"
proof -
  let ?s = "wcStartedAt c"
  have c: "?s \<le> now" "many (\<lambda>t. t \<ge> ?s) h = wcCount c" "many (\<lambda>t. t > ?s) h \<le> wcCount c - 1" "1 \<le> wcCount c"
    "many (\<lambda>t. t > ?s - rlWindowMs l \<and> t < ?s) h \<le> rlMax l - 1" using ok by (simp_all add: slots_ok_def)
  have "many (\<lambda>t. t > u - rlWindowMs l \<and> t \<le> u) (h @ [now]) \<le> 2 * rlMax l - 1" for u
  proof (cases "now \<le> u")
    case True
    let ?P = "\<lambda>t. t > u - rlWindowMs l \<and> t \<le> u"
    have "many (\<lambda>t. ?P t \<and> t < ?s) h \<le> many (\<lambda>t. t > ?s - rlWindowMs l \<and> t < ?s) h"
      by (rule many_mono) (use True c(1) in simp)
    moreover have "many (\<lambda>t. ?P t \<and> t \<ge> ?s) h \<le> many (\<lambda>t. t \<ge> ?s) h" by (rule many_mono) simp
    ultimately have "many ?P h \<le> (rlMax l - 1) + wcCount c" using many_split [of ?P h ?s] c by linarith
    then show ?thesis using room by (simp, arith)
  next
    case False
    then show ?thesis using ok by (simp add: slots_ok_def)
  qed
  then show ?thesis using ok young room c by (auto simp: slots_ok_def)
qed

lemma slots_ok_take:
  assumes "slots_ok l h (map_of m key) now" "0 < rlWindowMs l" "1 \<le> rlMax l"
  shows "case take_slot key l now m of Inl e \<Rightarrow> True | Inr m' \<Rightarrow> slots_ok l (h @ [now]) (map_of m' key) now"
proof (cases "map_of m key")
  case None
  then show ?thesis using assms slots_ok_fresh by (simp add: take_slot_def)
next
  case (Some c)
  show ?thesis
  proof (cases "now - wcStartedAt c \<ge> rlWindowMs l")
    case True
    then have "slots_ok l h None now" using slots_ok_expired assms(1) Some by simp
    then show ?thesis using slots_ok_fresh assms(2,3) Some True by (simp add: take_slot_def)
  next
    case False
    then show ?thesis using Some slots_ok_again [of l h c now] assms(1) by (simp add: take_slot_def)
  qed
qed

lemma take_slot_other: "take_slot key l now m = Inr m' \<Longrightarrow> k \<noteq> key \<Longrightarrow> map_of m' k = map_of m k"
  by (auto simp: take_slot_def split: option.splits if_splits)

lemma map_of_prune: "distinct (map fst m) \<Longrightarrow> map_of (prune_counters now m) k =
    (case map_of m k of None \<Rightarrow> None | Some c \<Rightarrow> if now - wcStartedAt c \<ge> 60000 then None else Some c)"
proof (induction m)
  case (Cons p m)
  obtain k' c where p: "p = (k', c)" by fastforce
  have "map_of m k' = None" using Cons.prems p by (simp add: map_of_eq_None_iff)
  then show ?case using Cons p by (auto simp: prune_counters_def split: option.splits)
qed (simp add: prune_counters_def)

lemma slots_ok_prune:
  assumes "slots_ok l h (map_of m k) now" "rlWindowMs l \<le> 60000" "distinct (map fst m)"
  shows "slots_ok l h (map_of (prune_counters now m) k) now"
proof (cases "map_of m k")
  case None
  then show ?thesis using assms by (simp add: map_of_prune)
next
  case (Some c)
  then show ?thesis using assms slots_ok_expired [of l h c now] by (simp add: map_of_prune)
qed

lemma limits_positive: "0 < rlWindowMs (CHAT_HTTP_LIMITS r)" "1 \<le> rlMax (CHAT_HTTP_LIMITS r)" "rlWindowMs (CHAT_HTTP_LIMITS r) \<le> 60000"
  by (cases r; simp)+

lemma keys_differ: "account_key r a \<noteq> ip_key r' ip" "account_key r a = account_key r' a' \<longleftrightarrow> r = r' \<and> a = a'"
  by (cases r; cases r'; simp add: account_key_def ip_key_def)+

lemma take_slot_distinct: "take_slot key l now m = Inr m' \<Longrightarrow> distinct (map fst m) \<Longrightarrow> distinct (map fst m')"
  by (auto simp: take_slot_def split: option.splits if_splits)

lemma pruned_counters_distinct: "distinct (map fst m) \<Longrightarrow> distinct (map fst (prune_counters now m))"
  unfolding prune_counters_def by (induction m) auto

text \<open>A request keeps what the entry of an account says; the times at which the account took a slot include
  every request that got through.\<close>

lemma serve_request_slots:
  assumes ok: "slots_ok (CHAT_HTTP_LIMITS route) h (map_of m (account_key route a)) (cqTime r)" and "distinct (map fst m)"
  shows "\<exists>h'. slots_ok (CHAT_HTTP_LIMITS route) h' (map_of (snd (serve_request r m)) (account_key route a)) (cqTime r) \<and>
    distinct (map fst (snd (serve_request r m))) \<and>
    (h' = h @ [cqTime r] \<or> h' = h \<and> \<not> (cqRoute r = route \<and> cqAccount r = a \<and> \<not> isl (fst (serve_request r m))))"
proof (cases "take_slot (account_key (cqRoute r) (cqAccount r)) (CHAT_HTTP_LIMITS (cqRoute r)) (cqTime r) m")
  case (Inl e)
  then show ?thesis using assms by (auto simp: serve_request_def assertHttp_def)
next
  case (Inr m1)
  let ?k = "account_key route a" and ?mine = "cqRoute r = route \<and> cqAccount r = a"
  let ?h = "if ?mine then h @ [cqTime r] else h"
  have m1: "distinct (map fst m1)" using take_slot_distinct [OF Inr assms(2)] .
  have one: "slots_ok (CHAT_HTTP_LIMITS route) ?h (map_of m1 ?k) (cqTime r)"
  proof (cases ?mine)
    case True
    then show ?thesis using slots_ok_take [of "CHAT_HTTP_LIMITS route" h m ?k "cqTime r"] ok limits_positive Inr by simp
  next
    case False
    then have "?k \<noteq> account_key (cqRoute r) (cqAccount r)" using keys_differ(2) by metis
    then have "map_of m1 ?k = map_of m ?k" by (rule take_slot_other [OF Inr])
    then show ?thesis unfolding if_not_P [OF False] using ok by simp
  qed
  show ?thesis
  proof (cases "take_slot (ip_key (cqRoute r) (cqIp r)) (ip_limit (CHAT_HTTP_LIMITS (cqRoute r))) (cqTime r) m1")
    case Inl2: (Inl e)
    then have "serve_request r m = (Inl e, m1)" using Inr by (simp add: serve_request_def assertHttp_def)
    then show ?thesis using one m1 by (intro exI [of _ ?h]) auto
  next
    case Inr2: (Inr m2)
    have two: "slots_ok (CHAT_HTTP_LIMITS route) ?h (map_of m2 ?k) (cqTime r)"
      using one take_slot_other [OF Inr2, of ?k] keys_differ(1) by simp
    have m2: "distinct (map fst m2)" using take_slot_distinct [OF Inr2 m1] .
    have served: "serve_request r m = (Inr (), if length m2 > 10000 then prune_counters (cqTime r) m2 else m2)"
      using Inr Inr2 by (simp add: serve_request_def assertHttp_def)
    have "slots_ok (CHAT_HTTP_LIMITS route) ?h (map_of (snd (serve_request r m)) ?k) (cqTime r)"
      unfolding served snd_conv by (cases "10000 < length m2")
        (simp only: if_True if_False two slots_ok_prune [OF two limits_positive(3) m2])+
    moreover have "distinct (map fst (snd (serve_request r m)))" unfolding served using m2 pruned_counters_distinct by simp
    ultimately show ?thesis by (intro exI [of _ ?h]) auto
  qed
qed

lemma passed_times_bound:
  assumes "slots_ok (CHAT_HTTP_LIMITS route) h (map_of m (account_key route a)) now" "distinct (map fst m)"
    "sorted (now # map cqTime rs)"
  shows "many (\<lambda>t. t > u - rlWindowMs (CHAT_HTTP_LIMITS route) \<and> t \<le> u) (h @ passed_times route a m rs) \<le> 2 * rlMax (CHAT_HTTP_LIMITS route) - 1"
  using assms
proof (induction rs arbitrary: h m now)
  case Nil
  then show ?case by (simp add: slots_ok_def)
next
  case (Cons r rs)
  let ?P = "\<lambda>t. t > u - rlWindowMs (CHAT_HTTP_LIMITS route) \<and> t \<le> u" and ?m = "snd (serve_request r m)"
  have "slots_ok (CHAT_HTTP_LIMITS route) h (map_of m (account_key route a)) (cqTime r)"
    using slots_ok_later [OF Cons.prems(1)] Cons.prems(3) by simp
  from serve_request_slots [OF this Cons.prems(2)] obtain h' where h':
    "slots_ok (CHAT_HTTP_LIMITS route) h' (map_of ?m (account_key route a)) (cqTime r)" "distinct (map fst ?m)"
    "h' = h @ [cqTime r] \<or> h' = h \<and> \<not> (cqRoute r = route \<and> cqAccount r = a \<and> \<not> isl (fst (serve_request r m)))" by blast
  have "many ?P (h' @ passed_times route a ?m rs) \<le> 2 * rlMax (CHAT_HTTP_LIMITS route) - 1"
    by (rule Cons.IH [OF h'(1,2)]) (use Cons.prems(3) in simp)
  moreover have "many ?P (h @ passed_times route a m (r # rs)) \<le> many ?P (h' @ passed_times route a ?m rs)"
    using h'(3) by auto
  ultimately show ?case by (rule le_trans [rotated])
qed

text \<open>The fixed windows bound a burst: over any sequence of requests of all accounts and routes with a clock that
  does not run backwards, fewer than twice the route's limit get through for one account in any interval as long as the
  route's window, although crowded maps are pruned and every account shares the map.\<close>

theorem burst_below_twice_the_limit:
  assumes "sorted (map cqTime reqs)"
  shows "many (\<lambda>t. t > until - rlWindowMs (CHAT_HTTP_LIMITS route) \<and> t \<le> until) (passed_times route accountId [] reqs)
    < 2 * rlMax (CHAT_HTTP_LIMITS route)"
proof (cases reqs)
  case Nil
  then show ?thesis using limits_positive(2) [of route] by simp
next
  case (Cons r rs)
  have "slots_ok (CHAT_HTTP_LIMITS route) [] (map_of [] (account_key route accountId)) (cqTime r)" by (simp add: slots_ok_def)
  then have "many (\<lambda>t. t > until - rlWindowMs (CHAT_HTTP_LIMITS route) \<and> t \<le> until) ([] @ passed_times route accountId [] reqs)
      \<le> 2 * rlMax (CHAT_HTTP_LIMITS route) - 1"
    by (rule passed_times_bound) (use assms Cons in simp_all)
  then show ?thesis using limits_positive(2) [of route] by simp
qed

text \<open>The bound is reached: nineteen typing signals in five seconds.\<close>

definition typing_burst :: "chat_request list" where
  "typing_burst = Request Typing ''a'' None 0 # replicate 9 (Request Typing ''a'' None 4999) @ replicate 10 (Request Typing ''a'' None 5000)"

definition typing_map :: "int \<Rightarrow> nat \<Rightarrow> (string, window_counter) jsmap" where
  "typing_map s n = [(account_key Typing ''a'', \<lparr> wcStartedAt = s, wcCount = n \<rparr>), (ip_key Typing None, \<lparr> wcStartedAt = s, wcCount = n \<rparr>)]"

lemma typing_opens: "t - s \<ge> 5000 \<Longrightarrow> serve_request (Request Typing ''a'' None t) (typing_map s n) = (Inr (), typing_map t 1)"
  "serve_request (Request Typing ''a'' None t) [] = (Inr (), typing_map t 1)"
  by (simp_all add: serve_request_def assertHttp_def take_slot_def typing_map_def keys_differ keys_differ(1) [symmetric] ip_limit_def)

lemma typing_again: "t - s < 5000 \<Longrightarrow> n < 10 \<Longrightarrow> serve_request (Request Typing ''a'' None t) (typing_map s n) = (Inr (), typing_map s (Suc n))"
  by (simp add: serve_request_def assertHttp_def take_slot_def typing_map_def keys_differ keys_differ(1) [symmetric] ip_limit_def CHAT_HTTP_IP_ACCOUNT_CAPACITY_def)

lemma typing_repeated: "t - s < 5000 \<Longrightarrow> n + k \<le> 10 \<Longrightarrow>
    passed_times Typing ''a'' (typing_map s n) (replicate k (Request Typing ''a'' None t) @ rs) =
      replicate k t @ passed_times Typing ''a'' (typing_map s (n + k)) rs"
  by (induction k arbitrary: n) (simp_all add: typing_again)

lemmas typing_last = typing_repeated [where rs = "[]", simplified]

theorem burst_below_twice_the_limit_witness:
  "many (\<lambda>t. t > 0 \<and> t \<le> 5000) (passed_times Typing ''a'' [] typing_burst) = 19 \<and>
   many (\<lambda>t. t > 0 \<and> t \<le> 5000) (passed_times Typing ''a'' [] typing_burst) < 20"
proof
  have ten: "replicate 10 (Request Typing ''a'' None 5000) = Request Typing ''a'' None 5000 # replicate 9 (Request Typing ''a'' None 5000) @ []"
    by (simp add: numeral_eq_Suc)
  have "passed_times Typing ''a'' [] typing_burst = 0 # replicate 9 4999 @ 5000 # replicate 9 5000"
    unfolding typing_burst_def ten by (simp add: typing_opens typing_repeated typing_last)
  then show "many (\<lambda>t. t > 0 \<and> t \<le> 5000) (passed_times Typing ''a'' [] typing_burst) = 19"
    by (simp add: many_def)
  have "sorted (map cqTime typing_burst)" by (simp add: typing_burst_def sorted_append)
  from burst_below_twice_the_limit [OF this, of 5000 Typing "''a''"]
  show "many (\<lambda>t. t > 0 \<and> t \<le> 5000) (passed_times Typing ''a'' [] typing_burst) < 20" by simp
qed

end
