(* ===== verification/OAuthState.thy ===== *)
theory OAuthState
  imports JsBase JsMap
begin

text \<open>
  \<open>src/modules/zalo/zalo-oauth-state.service.ts\<close> and \<open>zalo-admin.guard.ts\<close>: the single-use \<open>state\<close> of the OAuth flow that
  installs the system's messaging token. The service keeps the issued payloads in a map until they are consumed, expire
  or are pushed out. The keyed hash of the platform's crypto library and the encoding of a payload as text
  (\<open>JSON.stringify\<close> and base64url, and their inverses) are fields of \<open>oauth_env\<close>; a random id is an argument.
\<close>

section \<open>Operators\<close>

definition parseZaloAdminAccountIds :: "string option \<Rightarrow> string list" where
  "parseZaloAdminAccountIds raw =
     (case raw of None \<Rightarrow> [] | Some s \<Rightarrow> js_set (filter (\<lambda>i. i \<noteq> []) (map js_trim (split_on (CHR '','') s))))"

text \<open>\<open>ZaloAdminGuard.canActivate\<close>; \<open>None\<close> is an account id that is no string.\<close>

definition zalo_admin_guard :: "string option \<Rightarrow> string option \<Rightarrow> bool" where
  "zalo_admin_guard raw accountId = (case accountId of None \<Rightarrow> False | Some a \<Rightarrow> a \<in> set (parseZaloAdminAccountIds raw))"

section \<open>State\<close>

record state_payload =
  spJti :: string
  spSub :: string
  spExp :: int

text \<open>What a decoded text holds under the three names; \<open>None\<close> is a value of another type.\<close>

record state_claims =
  scJti :: "string option"
  scSub :: "string option"
  scExp :: "int option"

record oauth_env =
  oeSign :: "string \<Rightarrow> string option"
  oeEncode :: "state_payload \<Rightarrow> string"
  oeDecode :: "string \<Rightarrow> state_claims option"
  oeAdmins :: "string option"

type_synonym outstanding = "(string, state_payload) jsmap"

definition ZALO_OAUTH_STATE_TTL_MS :: int where "ZALO_OAUTH_STATE_TTL_MS = 10 * 60 * 1000"
definition ZALO_OAUTH_STATE_MAX_OUTSTANDING :: nat where "ZALO_OAUTH_STATE_MAX_OUTSTANDING = 100"

datatype rejection = Missing | Malformed | BadSignature | Expired | UnknownOrUsed | NotAdmin

definition prune_states :: "int \<Rightarrow> outstanding \<Rightarrow> outstanding" where
  "prune_states now m = filter (\<lambda>(jti, p). \<not> spExp p \<le> now) m"

definition make_room :: "outstanding \<Rightarrow> outstanding" where
  "make_room m =
     (if length m \<ge> ZALO_OAUTH_STATE_MAX_OUTSTANDING then (case m of [] \<Rightarrow> [] | (oldest, p) # _ \<Rightarrow> map_delete m oldest) else m)"

text \<open>\<open>issue\<close>; \<open>None\<close> when the signing secret is missing, after the payload was recorded.\<close>

definition issue :: "oauth_env \<Rightarrow> int \<Rightarrow> string \<Rightarrow> string \<Rightarrow> outstanding \<Rightarrow> string option \<times> outstanding" where
  "issue env now jti accountId m =
     (let payload = \<lparr> spJti = jti, spSub = accountId, spExp = now + ZALO_OAUTH_STATE_TTL_MS \<rparr>;
          m = map_set (make_room (prune_states now m)) jti payload;
          body = oeEncode env payload
      in (map_option (\<lambda>sig. body @ ''.'' @ sig) (oeSign env body), m))"

definition state_parts :: "string \<Rightarrow> (string \<times> string) option" where
  "state_parts s =
     (case split_on (CHR ''.'') s of [b, g] \<Rightarrow> (if b = [] \<or> g = [] then None else Some (b, g)) | _ \<Rightarrow> None)"

definition claims_of :: "oauth_env \<Rightarrow> string \<Rightarrow> state_payload option" where
  "claims_of env body =
     (case oeDecode env body of
        None \<Rightarrow> None
      | Some c \<Rightarrow>
          (case (scJti c, scSub c, scExp c) of
             (Some j, Some s, Some e) \<Rightarrow> Some \<lparr> spJti = j, spSub = s, spExp = e \<rparr>
           | _ \<Rightarrow> None))"

definition consume :: "oauth_env \<Rightarrow> int \<Rightarrow> string option \<Rightarrow> outstanding \<Rightarrow> (rejection + string) \<times> outstanding" where
  "consume env now state m =
     (let m = prune_states now m
      in case state of
          None \<Rightarrow> (Inl Missing, m)
        | Some s \<Rightarrow>
            if s = [] then (Inl Missing, m)
            else case state_parts s of
                None \<Rightarrow> (Inl Malformed, m)
              | Some (body, signature) \<Rightarrow>
                  if oeSign env body \<noteq> Some signature then (Inl BadSignature, m)
                  else case claims_of env body of
                      None \<Rightarrow> (Inl Malformed, m)
                    | Some payload \<Rightarrow>
                        let issued = map_of m (spJti payload); m = map_delete m (spJti payload)
                        in if spExp payload \<le> now then (Inl Expired, m)
                           else if (case issued of None \<Rightarrow> True | Some p \<Rightarrow> spSub p \<noteq> spSub payload \<or> spExp p \<noteq> spExp payload)
                           then (Inl UnknownOrUsed, m)
                           else if spSub payload \<notin> set (parseZaloAdminAccountIds (oeAdmins env)) then (Inl NotAdmin, m)
                           else (Inr (spSub payload), m))"

section \<open>Calls in sequence\<close>

datatype oauth_call = Issue int string string | Consume int "string option"

primrec oauth_step :: "oauth_env \<Rightarrow> oauth_call \<Rightarrow> outstanding \<Rightarrow> outstanding" where
  "oauth_step env (Issue now jti accountId) m = snd (issue env now jti accountId m)"
| "oauth_step env (Consume now state) m = snd (consume env now state m)"

definition presented :: "oauth_env \<Rightarrow> string option \<Rightarrow> state_payload option" where
  "presented env state = (case state of None \<Rightarrow> None | Some s \<Rightarrow> (case state_parts s of None \<Rightarrow> None | Some (b, g) \<Rightarrow> claims_of env b))"

text \<open>Id, account and time of every accepted state.\<close>

primrec accepted :: "oauth_env \<Rightarrow> outstanding \<Rightarrow> oauth_call list \<Rightarrow> (string \<times> string \<times> int) list" where
  "accepted env m [] = []"
| "accepted env m (c # cs) =
     (case c of
        Issue now jti accountId \<Rightarrow> []
      | Consume now state \<Rightarrow>
          (case (fst (consume env now state m), presented env state) of
             (Inr a, Some p) \<Rightarrow> [(spJti p, a, now)]
           | _ \<Rightarrow> [])) @ accepted env (oauth_step env c m) cs"

primrec issued_id :: "oauth_call \<Rightarrow> string option" where
  "issued_id (Issue now jti accountId) = Some jti"
| "issued_id (Consume now state) = None"

definition issued_ids :: "oauth_call list \<Rightarrow> string list" where
  "issued_ids cs = List.map_filter issued_id cs"

section \<open>The map of outstanding states\<close>

definition states_ok :: "outstanding \<Rightarrow> bool" where
  "states_ok m \<longleftrightarrow> distinct (map fst m) \<and> length m \<le> ZALO_OAUTH_STATE_MAX_OUTSTANDING"

text \<open>A map with fewer entries.\<close>

definition fewer_states :: "outstanding \<Rightarrow> outstanding \<Rightarrow> bool" where
  "fewer_states m m' \<longleftrightarrow> (\<exists>P. m' = filter P m)"

lemma fewer_refl: "fewer_states m m"
  unfolding fewer_states_def by (rule exI [of _ "\<lambda>_. True"]) simp

lemma fewer_trans: "fewer_states m m' \<Longrightarrow> fewer_states m' m'' \<Longrightarrow> fewer_states m m''"
  unfolding fewer_states_def by (metis filter_filter)

lemma fewer_prune: "fewer_states m (prune_states now m)" and fewer_delete: "fewer_states m (map_delete m k)"
  unfolding fewer_states_def prune_states_def map_delete_def by blast+

lemma fewer_room: "fewer_states m (make_room m)"
  by (auto simp: make_room_def fewer_refl fewer_delete split: list.split)

lemma fewer_get: "fewer_states m m' \<Longrightarrow> distinct (map fst m) \<Longrightarrow> map_of m' k = Some p \<Longrightarrow> map_of m k = Some p"
  unfolding fewer_states_def by (auto dest: map_of_SomeD)

lemma fewer_ok: "fewer_states m m' \<Longrightarrow> states_ok m \<Longrightarrow> states_ok m'"
  unfolding fewer_states_def states_ok_def by (auto simp: distinct_map_filter intro: le_trans [OF length_filter_le])

lemma fewer_keys: "fewer_states m m' \<Longrightarrow> fst ` set m' \<subseteq> fst ` set m"
  unfolding fewer_states_def by auto

lemma make_room_length: "states_ok m \<Longrightarrow> Suc (length (make_room m)) \<le> ZALO_OAUTH_STATE_MAX_OUTSTANDING"
proof (cases m)
  case (Cons p m')
  assume ok: "states_ok m"
  then have "Suc (length (map_delete m (fst p))) = length m" using Cons by (intro length_map_delete) (simp_all add: states_ok_def)
  then show ?thesis using Cons ok by (cases p) (auto simp: make_room_def states_ok_def)
qed (simp add: make_room_def ZALO_OAUTH_STATE_MAX_OUTSTANDING_def)

lemma issue_map: "snd (issue env now jti a m) =
    map_set (make_room (prune_states now m)) jti \<lparr> spJti = jti, spSub = a, spExp = now + ZALO_OAUTH_STATE_TTL_MS \<rparr>"
  by (simp add: issue_def Let_def)

lemma consume_fewer: "fewer_states m (snd (consume env now state m))"
proof -
  have "snd (consume env now state m) = prune_states now m \<or> (\<exists>k. snd (consume env now state m) = map_delete (prune_states now m) k)"
    by (auto simp: consume_def Let_def split: option.splits)
  then show ?thesis using fewer_prune fewer_delete fewer_trans by metis
qed

lemma oauth_step_ok: "states_ok m \<Longrightarrow> states_ok (oauth_step env c m)"
proof (cases c)
  case (Issue now jti a)
  assume "states_ok m"
  then have "states_ok (prune_states now m)" using fewer_ok fewer_prune by blast
  then show ?thesis using make_room_length [of "prune_states now m"] fewer_ok [OF fewer_room] Issue
    by (auto simp: issue_map states_ok_def length_map_set)
next
  case (Consume now state)
  assume "states_ok m"
  then show ?thesis using Consume fewer_ok [OF consume_fewer] by simp
qed

text \<open>An accepted state is signed, unexpired, outstanding under its own account, and gone afterwards.\<close>

lemma consume_accepts:
  assumes "consume env now state m = (Inr a, m')" "distinct (map fst m)"
  obtains p q where "presented env state = Some p" "map_of m (spJti p) = Some q" "spSub q = a" "spSub p = a" "spExp q = spExp p" "now < spExp q"
    "a \<in> set (parseZaloAdminAccountIds (oeAdmins env))" "map_of m' (spJti p) = None"
proof -
  obtain s b g p where *: "state = Some s" "state_parts s = Some (b, g)" "claims_of env b = Some p"
      "m' = map_delete (prune_states now m) (spJti p)" "\<not> spExp p \<le> now" "a = spSub p"
      "a \<in> set (parseZaloAdminAccountIds (oeAdmins env))"
      "\<not> (case map_of (prune_states now m) (spJti p) of None \<Rightarrow> True | Some q \<Rightarrow> spSub q \<noteq> spSub p \<or> spExp q \<noteq> spExp p)"
    using assms(1) by (auto simp: consume_def Let_def split: option.splits if_splits)
  then obtain q where q: "map_of (prune_states now m) (spJti p) = Some q" "spSub q = spSub p" "spExp q = spExp p"
    by (auto split: option.splits)
  have "map_of m (spJti p) = Some q" using fewer_get [OF fewer_prune assms(2) q(1)] .
  show ?thesis
  proof (rule that [of p q])
    show "presented env state = Some p" using *(1-3) by (simp add: presented_def)
    show "map_of m (spJti p) = Some q" by fact
    show "spSub p = a" "spSub q = a" using *(6) q(2) by simp_all
    show "spExp q = spExp p" by fact
    show "now < spExp q" using *(5) q(3) by simp
    show "a \<in> set (parseZaloAdminAccountIds (oeAdmins env))" by fact
    show "map_of m' (spJti p) = None" unfolding *(4) by simp
  qed
qed

section \<open>Single use\<close>

text \<open>Every outstanding entry stands under its own id, and no later call issues that id again.\<close>

lemma accepted_once:
  assumes "states_ok m" "distinct (issued_ids cs)" "fst ` set m \<inter> set (issued_ids cs) = {}"
  shows "distinct (map fst (accepted env m cs)) \<and> fst ` set (accepted env m cs) \<subseteq> fst ` set m \<union> set (issued_ids cs)"
  using assms
proof (induction cs arbitrary: m)
  case (Cons c cs)
  let ?m = "oauth_step env c m"
  have ok: "states_ok ?m" using Cons.prems(1) by (rule oauth_step_ok)
  show ?case
  proof (cases c)
    case (Issue now jti a)
    have keys: "fst ` set ?m \<subseteq> insert jti (fst ` set m)"
      using fewer_keys [OF fewer_trans [OF fewer_prune fewer_room], of now m] Issue by (auto simp: issue_map)
    have ids: "issued_ids (c # cs) = jti # issued_ids cs" using Issue by (simp add: issued_ids_def List.map_filter_def)
    have "fst ` set ?m \<inter> set (issued_ids cs) = {}" using keys Cons.prems(2,3) ids by auto
    with Cons.IH [OF ok _ this] Cons.prems(2) ids
    have "distinct (map fst (accepted env ?m cs))" and "fst ` set (accepted env ?m cs) \<subseteq> fst ` set ?m \<union> set (issued_ids cs)" by simp_all
    moreover from this(2) keys have "fst ` set (accepted env ?m cs) \<subseteq> fst ` set m \<union> set (issued_ids (c # cs))" unfolding ids by auto
    moreover have "accepted env m (c # cs) = accepted env ?m cs" using Issue by simp
    ultimately show ?thesis by (simp only: simp_thms)
  next
    case (Consume now state)
    have ids: "issued_ids (c # cs) = issued_ids cs" using Consume by (simp add: issued_ids_def List.map_filter_def)
    have keys: "fst ` set ?m \<subseteq> fst ` set m" using fewer_keys [OF consume_fewer] Consume by simp
    then have "fst ` set ?m \<inter> set (issued_ids cs) = {}" using Cons.prems(3) ids by auto
    with Cons.IH [OF ok _ this] Cons.prems(2) ids
    have rest: "distinct (map fst (accepted env ?m cs))" "fst ` set (accepted env ?m cs) \<subseteq> fst ` set ?m \<union> set (issued_ids cs)" by simp_all
    then have sub: "fst ` set (accepted env ?m cs) \<subseteq> fst ` set m \<union> set (issued_ids cs)" using keys by blast
    show ?thesis
    proof (cases "fst (consume env now state m)")
      case (Inl e)
      then have "accepted env m (c # cs) = accepted env ?m cs" using Consume by simp
      then show ?thesis using rest(1) sub ids by (simp only: simp_thms)
    next
      case (Inr a)
      then obtain m' where m': "consume env now state m = (Inr a, m')" by (metis prod.collapse)
      obtain p q where p: "presented env state = Some p" "map_of m (spJti p) = Some q" "map_of m' (spJti p) = None"
        using consume_accepts [OF m'] Cons.prems(1) unfolding states_ok_def by blast
      have "spJti p \<notin> fst ` set ?m" using p(3) m' Consume by (simp add: map_of_eq_None_iff)
      moreover have "spJti p \<in> fst ` set m" using p(2) by (force dest: map_of_SomeD)
      moreover have "accepted env m (c # cs) = (spJti p, a, now) # accepted env ?m cs" using Consume m' p(1) by simp
      moreover have "spJti p \<notin> set (issued_ids cs)" using calculation(2) Cons.prems(3) ids by auto
      ultimately have "accepted env m (c # cs) = (spJti p, a, now) # accepted env ?m cs" "spJti p \<in> fst ` set m"
        "spJti p \<notin> fst ` set (accepted env ?m cs)" using rest(2) by blast+
      then show ?thesis unfolding ids using rest(1) sub by simp
    qed
  qed
qed (simp add: issued_ids_def List.map_filter_def)

lemma accepted_was_issued:
  assumes "states_ok m" "(j, a, t) \<in> set (accepted env m cs)"
  shows "(\<exists>p. map_of m j = Some p \<and> spSub p = a \<and> t < spExp p) \<or> (\<exists>n. Issue n j a \<in> set cs \<and> t < n + ZALO_OAUTH_STATE_TTL_MS)"
  using assms
proof (induction cs arbitrary: m)
  case (Cons c cs)
  let ?m = "oauth_step env c m"
  have ok: "states_ok ?m" and distinct: "distinct (map fst m)"
    using Cons.prems(1) oauth_step_ok by (simp_all add: states_ok_def)
  show ?case
  proof (cases c)
    case (Issue n jti account)
    then have "(j, a, t) \<in> set (accepted env ?m cs)" using Cons.prems(2) by simp
    from Cons.IH [OF ok this] show ?thesis
    proof
      assume "\<exists>p. map_of ?m j = Some p \<and> spSub p = a \<and> t < spExp p"
      then obtain p where p: "map_of ?m j = Some p" "spSub p = a" "t < spExp p" by blast
      show ?thesis
      proof (cases "j = jti")
        case True
        then show ?thesis using p Issue by (auto simp: issue_map)
      next
        case False
        then have "map_of (make_room (prune_states n m)) j = Some p" using p(1) Issue by (simp add: issue_map)
        from fewer_get [OF fewer_trans [OF fewer_prune fewer_room] distinct this] show ?thesis using p by blast
      qed
    qed auto
  next
    case (Consume now state)
    consider "(j, a, t) \<in> set (accepted env ?m cs)"
      | p where "fst (consume env now state m) = Inr a" "presented env state = Some p" "j = spJti p" "t = now"
      using Cons.prems(2) Consume
      by (cases "fst (consume env now state m)"; cases "presented env state") auto
    then show ?thesis
    proof cases
      case 1
      from Cons.IH [OF ok this] show ?thesis
        using fewer_get [OF consume_fewer distinct] Consume by auto
    next
      case (2 p)
      then obtain m' where "consume env now state m = (Inr a, m')" by (metis prod.collapse)
      from consume_accepts [OF this distinct] show ?thesis using 2 by (metis option.inject)
    qed
  qed
qed simp

text \<open>The callback's state is single-use: over any sequence of issued and presented states, with random ids that do
  not repeat, no id is accepted twice, and an accepted one was issued to the very account it is accepted for,
  less than ten minutes before, at a moment when at most a hundred states are outstanding.\<close>

theorem states_are_single_use:
  assumes "distinct (issued_ids calls)"
  shows "distinct (map fst (accepted env [] calls)) \<and>
    list_all (\<lambda>(jti, a, t). \<exists>n. Issue n jti a \<in> set calls \<and> t < n + 600000) (accepted env [] calls) \<and>
    length (foldl (\<lambda>m c. oauth_step env c m) [] calls) \<le> 100"
proof -
  have ok: "states_ok []" by (simp add: states_ok_def)
  have "states_ok (foldl (\<lambda>m c. oauth_step env c m) m calls)" if "states_ok m" for m
    using that by (induction calls arbitrary: m) (simp_all add: oauth_step_ok)
  from this [OF ok] show ?thesis
    using accepted_once [OF ok assms, of env] accepted_was_issued [OF ok, of _ _ _ env calls]
    by (auto simp: states_ok_def list_all_iff ZALO_OAUTH_STATE_TTL_MS_def ZALO_OAUTH_STATE_MAX_OUTSTANDING_def)
qed

text \<open>An environment for the examples: a payload is written as its id, a slash and its account.\<close>

definition toy_env :: oauth_env where
  "toy_env = \<lparr> oeSign = (\<lambda>b. Some ''sig''), oeEncode = (\<lambda>p. spJti p @ ''/'' @ spSub p),
     oeDecode = (\<lambda>b. case split_on (CHR ''/'') b of [j, s] \<Rightarrow> Some \<lparr> scJti = Some j, scSub = Some s, scExp = Some 600000 \<rparr> | _ \<Rightarrow> None),
     oeAdmins = Some ''op1, op2'' \<rparr>"

theorem states_are_single_use_witness:
  "accepted toy_env [] [Issue 0 ''j1'' ''op1'', Consume 5 (Some ''j1/op1.sig''), Consume 6 (Some ''j1/op1.sig'')] = [(''j1'', ''op1'', 5)] \<and>
   distinct (map fst (accepted toy_env [] [Issue 0 ''j1'' ''op1'', Consume 5 (Some ''j1/op1.sig''), Consume 6 (Some ''j1/op1.sig'')]))"
proof
  show "accepted toy_env [] [Issue 0 ''j1'' ''op1'', Consume 5 (Some ''j1/op1.sig''), Consume 6 (Some ''j1/op1.sig'')] = [(''j1'', ''op1'', 5)]"
    by code_simp
  show "distinct (map fst (accepted toy_env [] [Issue 0 ''j1'' ''op1'', Consume 5 (Some ''j1/op1.sig''), Consume 6 (Some ''j1/op1.sig'')]))"
    using states_are_single_use [of "[Issue 0 ''j1'' ''op1'', Consume 5 (Some ''j1/op1.sig''), Consume 6 (Some ''j1/op1.sig'')]" toy_env]
    by (simp add: issued_ids_def List.map_filter_def)
qed

end
