(* ===== verification/OperatingHours.thy ===== *)
theory OperatingHours
  imports VnCalendar "HOL-Library.Multiset"
begin

text \<open>
  \<open>src/modules/stores/operating-hours.utils.ts\<close>: the opening frames of a store within a calendar day, the older single
  open/close pair, and the business day that may run past midnight. Frames come in as an unknown value; every
  message the validation throws is a constructor of \<open>frames_error\<close>.
\<close>

section \<open>Clocks\<close>

record operating_frame =
  frStart :: string
  frEnd :: string

definition OPERATING_FRAMES_MAX :: nat where "OPERATING_FRAMES_MAX = 6"

definition DAY_MINUTES :: int where "DAY_MINUTES = 24 * 60"

text \<open>The pattern \<open>^(\d{2}):(\d{2})(?::00)?$\<close>.\<close>

definition clock_form :: "string \<Rightarrow> bool" where
  "clock_form s \<longleftrightarrow> (length s = 5 \<or> length s = 8 \<and> drop 5 s = '':00'') \<and>
     is_digit (s ! 0) \<and> is_digit (s ! 1) \<and> s ! 2 = CHR '':'' \<and> is_digit (s ! 3) \<and> is_digit (s ! 4)"

definition clock_minutes :: "string \<Rightarrow> int option" where
  "clock_minutes s =
     (if \<not> clock_form s then None
      else let hours = digits_val (take 2 s); minutes = digits_val (take 2 (drop 3 s))
           in if minutes > 59 \<or> hours > 24 \<or> hours = 24 \<and> minutes \<noteq> 0 then None else Some (int (hours * 60 + minutes)))"

definition frameMinutes :: "jsval \<Rightarrow> int option" where
  "frameMinutes v = clock_minutes (js_string (js_or_null v (JStr [])))"

definition frameClock :: "int \<Rightarrow> string" where
  "frameClock minutes = pad2 (nat (minutes div 60)) @ '':'' @ pad2 (nat (minutes mod 60))"

section \<open>Validation\<close>

datatype frames_error = NotFrames | NoFrames | TooManyFrames | InvalidFrame nat | BackwardFrame nat | OverlappingFrames

definition parse_frame :: "nat \<Rightarrow> jsval \<Rightarrow> frames_error + int \<times> int" where
  "parse_frame index frame =
     (case (frameMinutes (js_get frame ''start''), frameMinutes (js_get frame ''end'')) of
        (Some s, Some e) \<Rightarrow>
          if s \<ge> DAY_MINUTES then Inl (InvalidFrame (index + 1))
          else if e \<le> s then Inl (BackwardFrame (index + 1)) else Inr (s, e)
      | _ \<Rightarrow> Inl (InvalidFrame (index + 1)))"

fun parse_frames :: "nat \<Rightarrow> jsval list \<Rightarrow> frames_error + (int \<times> int) list" where
  "parse_frames index [] = Inr []"
| "parse_frames index (f # fs) =
     and_then (parse_frame index f) (\<lambda>p. and_then (parse_frames (index + 1) fs) (\<lambda>ps. Inr (p # ps)))"

text \<open>\<open>a.start - b.start || a.end - b.end\<close>: stably by end, then stably by start.\<close>

definition sort_frames :: "(int \<times> int) list \<Rightarrow> (int \<times> int) list" where
  "sort_frames ps = sort_key fst (sort_key snd ps)"

fun frames_overlap :: "(int \<times> int) list \<Rightarrow> bool" where
  "frames_overlap (a # b # ps) = (fst b < snd a \<or> frames_overlap (b # ps))"
| "frames_overlap _ = False"

definition frame_of :: "int \<times> int \<Rightarrow> operating_frame" where
  "frame_of p = \<lparr> frStart = frameClock (fst p), frEnd = frameClock (snd p) \<rparr>"

definition normalizeOperatingFrames :: "jsval \<Rightarrow> frames_error + operating_frame list" where
  "normalizeOperatingFrames frames =
     (case frames of
        JArr fs \<Rightarrow>
          if fs = [] then Inl NoFrames
          else if length fs > OPERATING_FRAMES_MAX then Inl TooManyFrames
          else and_then (parse_frames 0 fs) (\<lambda>parsed.
            let sorted = sort_frames parsed
            in if frames_overlap sorted then Inl OverlappingFrames else Inr (map frame_of sorted))
      | _ \<Rightarrow> Inl NotFrames)"

section \<open>The open/close pair and the business day\<close>

text \<open>\<open>String(time ?? '').slice(0, 5)\<close>.\<close>

definition pair_minutes :: "string option \<Rightarrow> int option" where
  "pair_minutes time = clock_minutes (take 5 (case time of Some s \<Rightarrow> s | None \<Rightarrow> []))"

definition framesFromOpenClose :: "string option \<Rightarrow> string option \<Rightarrow> operating_frame list" where
  "framesFromOpenClose openTime closeTime =
     (case (pair_minutes openTime, pair_minutes closeTime) of
        (Some opens, Some close) \<Rightarrow>
          if opens \<ge> DAY_MINUTES then []
          else if close > opens then [\<lparr> frStart = frameClock opens, frEnd = frameClock close \<rparr>]
          else (if close > 0 then [\<lparr> frStart = ''00:00'', frEnd = frameClock close \<rparr>] else []) @
               [\<lparr> frStart = frameClock opens, frEnd = ''24:00'' \<rparr>]
      | _ \<Rightarrow> [])"

definition frame_spans :: "operating_frame list \<Rightarrow> (int \<times> int) list" where
  "frame_spans frames = sort_key fst (List.map_filter (\<lambda>f.
     case (clock_minutes (frStart f), clock_minutes (frEnd f)) of
       (Some s, Some e) \<Rightarrow> if e > s then Some (s, e) else None
     | _ \<Rightarrow> None) frames)"

text \<open>The closed time after each span; the last one wraps midnight.\<close>

definition closed_gaps :: "(int \<times> int) list \<Rightarrow> int list" where
  "closed_gaps spans = map2 (\<lambda>span opens. opens - snd span) spans (map fst (tl spans) @ [fst (hd spans) + DAY_MINUTES])"

definition longest_gap :: "int list \<Rightarrow> nat \<times> int" where
  "longest_gap gaps = foldl (\<lambda>(bestIndex, bestGap) (index, gap). if gap > bestGap then (index, gap) else (bestIndex, bestGap)) (0, -1) (enumerate 0 gaps)"

definition business_day_of_spans :: "(int \<times> int) list \<Rightarrow> (int \<times> int) option" where
  "business_day_of_spans spans =
     (if spans = [] then None
      else
        let (bestIndex, bestGap) = longest_gap (closed_gaps spans)
        in if bestGap \<le> 0 then Some (0, DAY_MINUTES)
           else
             let first = spans ! ((bestIndex + 1) mod length spans); last = spans ! bestIndex;
                 start = fst first; end' = (if snd last \<le> start then snd last + DAY_MINUTES else snd last)
             in Some (start, end'))"

definition businessDayOf :: "operating_frame list \<Rightarrow> (int \<times> int) option" where
  "businessDayOf frames = business_day_of_spans (frame_spans frames)"

definition openCloseFromFrames :: "operating_frame list \<Rightarrow> (string \<times> string) option" where
  "openCloseFromFrames frames =
     (case businessDayOf frames of
        None \<Rightarrow> None
      | Some (s, e) \<Rightarrow>
          if e - s \<ge> DAY_MINUTES then Some (''00:00:00'', ''23:59:00'')
          else Some (frameClock s @ '':00'', frameClock (e mod DAY_MINUTES) @ '':00''))"

section \<open>Clocks read back\<close>

lemma frameClock_digits:
  assumes "0 \<le> m" "m \<le> 1440"
  shows "frameClock m = two_digits (nat (m div 60)) @ '':'' @ two_digits (nat (m mod 60))"
proof -
  have "nat (m div 60) < 100" "nat (m mod 60) < 100" using assms by linarith+
  then show ?thesis by (simp add: frameClock_def pad2_two_digits)
qed

lemma length_frameClock: "0 \<le> m \<Longrightarrow> m \<le> 1440 \<Longrightarrow> length (frameClock m) = 5"
  by (simp add: frameClock_digits)

lemma clock_minutes_frameClock:
  assumes "0 \<le> m" "m \<le> 1440"
  shows "clock_minutes (frameClock m) = Some m"
proof -
  let ?h = "nat (m div 60)" and ?i = "nat (m mod 60)"
  have nonneg: "0 \<le> m div 60" "0 \<le> m mod 60" "m = m div 60 * 60 + m mod 60" using assms by simp_all
  have bounds: "?h < 100" "?i < 100" "?i \<le> 59" "?h \<le> 24" using assms by linarith+
  have total: "int (?h * 60 + ?i) = m" using nonneg by simp
  then have day: "?h = 24 \<Longrightarrow> ?i = 0" using assms by simp
  have take: "take 2 (frameClock m) = two_digits ?h" "take 2 (drop 3 (frameClock m)) = two_digits ?i"
    by (simp_all add: frameClock_digits [OF assms] two_digits_def)
  have form: "clock_form (frameClock m)" by (simp add: clock_form_def frameClock_digits [OF assms] two_digits_def)
  show ?thesis unfolding clock_minutes_def Let_def take using form bounds total day by auto
qed

lemma clock_minutes_range: "clock_minutes s = Some m \<Longrightarrow> 0 \<le> m \<and> m \<le> 1440"
  by (auto simp: clock_minutes_def Let_def split: if_splits)

lemma clock_minutes_literals [simp]: "clock_minutes ''00:00'' = Some 0" "clock_minutes ''24:00'' = Some 1440"
  by code_simp+

section \<open>Sorted spans\<close>

lemma sort_frames_facts: "sorted (map fst (sort_frames ps))" "mset (sort_frames ps) = mset ps" "set (sort_frames ps) = set ps"
  by (simp_all add: sort_frames_def mset_sort)

text \<open>Spans of a day in order, each nonempty and none before the end of its predecessor.\<close>

definition spans_ok :: "(int \<times> int) list \<Rightarrow> bool" where
  "spans_ok ps \<longleftrightarrow> list_all (\<lambda>p. 0 \<le> fst p \<and> fst p < snd p \<and> snd p \<le> 1440 \<and> fst p < 1440) ps \<and> \<not> frames_overlap ps"

lemma spans_ok_Cons: "spans_ok (a # b # ps) \<longleftrightarrow> 0 \<le> fst a \<and> fst a < snd a \<and> snd a \<le> fst b \<and> spans_ok (b # ps)"
  by (auto simp: spans_ok_def)

lemma spans_ok_nth:
  "spans_ok ps \<Longrightarrow> j < length ps \<Longrightarrow> 0 \<le> fst (ps ! j) \<and> fst (ps ! j) < snd (ps ! j) \<and> snd (ps ! j) \<le> 1440"
  by (auto simp: spans_ok_def list_all_length)

lemma spans_ok_later: "spans_ok ps \<Longrightarrow> i < j \<Longrightarrow> j < length ps \<Longrightarrow> snd (ps ! i) \<le> fst (ps ! j)"
proof (induction ps arbitrary: i j rule: frames_overlap.induct)
  case (1 a b ps)
  have ab: "snd a \<le> fst b" "spans_ok (b # ps)" using "1.prems"(1) by (simp_all add: spans_ok_Cons)
  obtain j' where j: "j = Suc j'" using "1.prems"(2) by (cases j) auto
  show ?case
  proof (cases i)
    case (Suc i')
    then show ?thesis using 1 ab j by simp
  next
    case 0
    show ?thesis
    proof (cases j')
      case 0
      then show ?thesis using ab \<open>i = 0\<close> j by simp
    next
      case (Suc j'')
      then have "snd b \<le> fst ((b # ps) ! j')" using "1.IH" [OF ab(2), of 0 j'] "1.prems"(3) j by simp
      then show ?thesis using ab spans_ok_nth [OF ab(2), of 0] \<open>i = 0\<close> j by simp
    qed
  qed
qed auto

lemma spans_ok_sorted: "spans_ok ps \<Longrightarrow> sorted (map fst ps)"
proof -
  assume ok: "spans_ok ps"
  have "fst (ps ! i) \<le> fst (ps ! j)" if "i < j" "j < length ps" for i j
    using spans_ok_later [OF ok that] spans_ok_nth [OF ok, of i] that by simp
  then show ?thesis by (simp add: sorted_iff_nth_mono_less)
qed

lemma parse_frame_ok: "parse_frame i f = Inr p \<Longrightarrow> 0 \<le> fst p \<and> fst p < snd p \<and> snd p \<le> 1440 \<and> fst p < 1440"
  by (auto simp: parse_frame_def frameMinutes_def DAY_MINUTES_def dest: clock_minutes_range split: option.splits if_splits)

lemma parse_frames_ok: "parse_frames i fs = Inr ps \<Longrightarrow> list_all (\<lambda>p. 0 \<le> fst p \<and> fst p < snd p \<and> snd p \<le> 1440 \<and> fst p < 1440) ps"
proof (induction i fs arbitrary: ps rule: parse_frames.induct)
  case (2 i f fs)
  then show ?case using parse_frame_ok by (force simp: and_then_Inr_iff)
qed simp

lemma parse_frames_length: "parse_frames i fs = Inr ps \<Longrightarrow> length ps = length fs"
  by (induction i fs arbitrary: ps rule: parse_frames.induct) (auto simp: and_then_Inr_iff)

lemma normalized_spans:
  assumes "normalizeOperatingFrames v = Inr frames"
  obtains ps where "frames = map frame_of ps" "spans_ok ps" "ps \<noteq> []" "length ps \<le> 6"
proof -
  obtain fs parsed where fs: "fs \<noteq> []" "length fs \<le> 6" "parse_frames 0 fs = Inr parsed" "\<not> frames_overlap (sort_frames parsed)"
      "frames = map frame_of (sort_frames parsed)"
    using assms by (auto simp: normalizeOperatingFrames_def OPERATING_FRAMES_MAX_def and_then_Inr_iff Let_def split: jsval.splits if_splits)
  have "list_all (\<lambda>p. 0 \<le> fst p \<and> fst p < snd p \<and> snd p \<le> 1440 \<and> fst p < 1440) (sort_frames parsed)"
    using parse_frames_ok [OF fs(3)] by (simp add: list_all_iff sort_frames_facts)
  then have "spans_ok (sort_frames parsed)" using fs(4) by (simp add: spans_ok_def)
  moreover have "length (sort_frames parsed) = length fs"
    using parse_frames_length [OF fs(3)] by (simp add: sort_frames_def)
  ultimately show ?thesis using that fs by (metis length_0_conv)
qed

section \<open>Properties\<close>

definition frame_value :: "operating_frame \<Rightarrow> jsval" where
  "frame_value f = JObj [(''start'', JStr (frStart f)), (''end'', JStr (frEnd f))]"

lemma parse_frame_of: "0 \<le> fst p \<and> fst p < snd p \<and> snd p \<le> 1440 \<and> fst p < 1440 \<Longrightarrow> parse_frame i (frame_value (frame_of p)) = Inr p"
  by (cases p) (simp add: parse_frame_def frame_value_def frame_of_def frameMinutes_def js_or_null_def nullish_def
      clock_minutes_frameClock DAY_MINUTES_def)

lemma parse_frames_of:
  "list_all (\<lambda>p. 0 \<le> fst p \<and> fst p < snd p \<and> snd p \<le> 1440 \<and> fst p < 1440) ps \<Longrightarrow>
     parse_frames i (map (\<lambda>p. frame_value (frame_of p)) ps) = Inr ps"
  by (induction ps arbitrary: i) (simp_all add: parse_frame_of)

lemma sort_key_sorted: "sorted (map f xs) \<Longrightarrow> sort_key f xs = xs"
  by (rule properties_for_sort_key) simp_all

lemma spans_ok_ends: "spans_ok ps \<Longrightarrow> sorted (map snd ps)"
proof -
  assume ok: "spans_ok ps"
  have "snd (ps ! i) \<le> snd (ps ! j)" if "i < j" "j < length ps" for i j
    using spans_ok_later [OF ok that] spans_ok_nth [OF ok that(2)] by simp
  then show ?thesis by (simp add: sorted_iff_nth_mono_less)
qed

lemma sort_frames_id: "spans_ok ps \<Longrightarrow> sort_frames ps = ps"
  by (simp add: sort_frames_def sort_key_sorted spans_ok_ends spans_ok_sorted)

lemma frame_spans_of: "spans_ok ps \<Longrightarrow> frame_spans (map frame_of ps) = ps"
proof -
  assume ok: "spans_ok ps"
  have "List.map_filter (\<lambda>f. case (clock_minutes (frStart f), clock_minutes (frEnd f)) of
       (Some s, Some e) \<Rightarrow> if e > s then Some (s, e) else None | _ \<Rightarrow> None) (map frame_of ps) = ps"
    using ok unfolding spans_ok_def
    by (induction ps rule: frames_overlap.induct) (simp_all add: List.map_filter_def frame_of_def clock_minutes_frameClock)
  then show ?thesis unfolding frame_spans_def using sort_key_sorted [OF spans_ok_sorted [OF ok]] by simp
qed

text \<open>Accepted opening hours are one to six frames in clock order that read back as nonempty spans within the day, each
  starting no earlier than its predecessor ends, and validating them again gives them back unchanged.\<close>

theorem opening_frames_normalized:
  assumes "normalizeOperatingFrames v = Inr frames"
  shows "spans_ok (frame_spans frames) \<and> frames = map frame_of (frame_spans frames) \<and> frames \<noteq> [] \<and> length frames \<le> 6 \<and>
    normalizeOperatingFrames (JArr (map frame_value frames)) = Inr frames"
proof -
  obtain ps where ps: "frames = map frame_of ps" "spans_ok ps" "ps \<noteq> []" "length ps \<le> 6" by (rule normalized_spans [OF assms])
  have "parse_frames 0 (map frame_value frames) = Inr ps"
    using parse_frames_of [of ps 0] ps(1,2) by (simp add: spans_ok_def comp_def)
  then have "normalizeOperatingFrames (JArr (map frame_value frames)) = Inr frames"
    using ps by (simp add: normalizeOperatingFrames_def OPERATING_FRAMES_MAX_def sort_frames_id Let_def) (simp add: spans_ok_def)
  then show ?thesis using ps frame_spans_of by simp
qed

theorem opening_frames_normalized_witness:
  "normalizeOperatingFrames (JArr (map frame_value [\<lparr> frStart = ''00:00'', frEnd = ''05:00'' \<rparr>, \<lparr> frStart = ''12:00'', frEnd = ''24:00'' \<rparr>])) =
     Inr [\<lparr> frStart = ''00:00'', frEnd = ''05:00'' \<rparr>, \<lparr> frStart = ''12:00'', frEnd = ''24:00'' \<rparr>]"
proof -
  have "normalizeOperatingFrames (JArr [JObj [(''start'', JStr ''12:00''), (''end'', JStr ''24:00'')],
      JObj [(''start'', JStr ''00:00:00''), (''end'', JStr ''05:00'')]]) =
     Inr [\<lparr> frStart = ''00:00'', frEnd = ''05:00'' \<rparr>, \<lparr> frStart = ''12:00'', frEnd = ''24:00'' \<rparr>]" by code_simp
  from opening_frames_normalized [OF this] show ?thesis by blast
qed

section \<open>The business day\<close>

lemma longest_gap_facts:
  assumes "gaps \<noteq> []"
  shows "let (i, g) = longest_gap gaps in g > 0 \<longrightarrow> i < length gaps \<and> gaps ! i = g \<and> (\<forall>j < length gaps. gaps ! j \<le> g)"
proof -
  have "case longest_gap gaps of (i, g) \<Rightarrow> (\<forall>j < length gaps. gaps ! j \<le> g) \<and> (g = -1 \<and> i = 0 \<or> i < length gaps \<and> gaps ! i = g)"
  proof (induction gaps rule: rev_induct)
    case (snoc x gaps)
    then show ?case
      by (auto simp: longest_gap_def enumerate_append_eq nth_append less_Suc_eq split: prod.splits)
  qed (simp add: longest_gap_def)
  then show ?thesis by (auto split: prod.splits)
qed

lemma closed_gaps_length: "spans \<noteq> [] \<Longrightarrow> length (closed_gaps spans) = length spans"
  by (simp add: closed_gaps_def)

lemma closed_gaps_nth:
  "i < length spans \<Longrightarrow> closed_gaps spans ! i =
     (if Suc i = length spans then fst (spans ! 0) + 1440 - snd (spans ! i) else fst (spans ! Suc i) - snd (spans ! i))"
  by (cases spans) (auto simp: closed_gaps_def nth_append nth_tl DAY_MINUTES_def)

text \<open>The business day: for accepted opening hours it is at most 24 hours, it contains every opening frame, moved to the
  next day where the store stays open past midnight, and unless the store never closes it leaves out exactly the
  longest closed time.\<close>

theorem business_day_covers_the_frames:
  assumes "normalizeOperatingFrames v = Inr frames"
  shows "\<exists>s e. businessDayOf frames = Some (s, e) \<and> 0 \<le> s \<and> s < e \<and> e - s \<le> 1440 \<and>
    list_all (\<lambda>p. s \<le> fst p \<and> snd p \<le> e \<or> s \<le> fst p + 1440 \<and> snd p + 1440 \<le> e) (frame_spans frames) \<and>
    (e - s = 1440 \<or> (\<exists>i < length (frame_spans frames). e - s = 1440 - closed_gaps (frame_spans frames) ! i \<and>
       list_all (\<lambda>g. g \<le> closed_gaps (frame_spans frames) ! i) (closed_gaps (frame_spans frames))))"
proof -
  obtain ps where ps: "frames = map frame_of ps" "spans_ok ps" "ps \<noteq> []" by (rule normalized_spans [OF assms])
  have spans: "frame_spans frames = ps" using frame_spans_of ps by simp
  let ?n = "length ps"
  note nth = spans_ok_nth [OF ps(2)] and later = spans_ok_later [OF ps(2)]
  obtain b g where bg: "longest_gap (closed_gaps ps) = (b, g)" by fastforce
  show ?thesis
  proof (cases "g \<le> 0")
    case True
    then have "businessDayOf frames = Some (0, 1440)"
      using bg ps(3) by (simp add: businessDayOf_def spans business_day_of_spans_def DAY_MINUTES_def)
    then show ?thesis using nth by (intro exI [of _ 0] exI [of _ 1440]) (auto simp: spans list_all_length)
  next
    case False
    have "closed_gaps ps \<noteq> []" using closed_gaps_length [OF ps(3)] ps(3) by (metis length_0_conv)
    with False have b: "b < ?n" "closed_gaps ps ! b = g" "\<forall>j < ?n. closed_gaps ps ! j \<le> g"
      using longest_gap_facts [of "closed_gaps ps"] bg ps(3) closed_gaps_length [OF ps(3)] by (auto simp: Let_def)
    let ?first = "ps ! (Suc b mod ?n)" and ?last = "ps ! b"
    let ?s = "fst ?first" let ?e = "if snd ?last \<le> ?s then snd ?last + 1440 else snd ?last"
    have day: "businessDayOf frames = Some (?s, ?e)"
      using bg ps(3) False by (simp add: businessDayOf_def spans business_day_of_spans_def DAY_MINUTES_def Let_def)
    have best: "list_all (\<lambda>x. x \<le> closed_gaps ps ! b) (closed_gaps ps)"
      using b closed_gaps_length [OF ps(3)] by (simp add: list_all_length)
    show ?thesis
    proof (cases "Suc b = ?n")
      case True
      then have first: "Suc b mod ?n = 0" by simp
      have order: "j < ?n \<Longrightarrow> fst (ps ! 0) \<le> fst (ps ! j) \<and> snd (ps ! j) \<le> snd (ps ! b)" for j
        using later [of 0 j] later [of j b] nth [of 0] nth [of j] nth [of b] b(1) True ps(3) by (cases "j = 0"; cases "j = b") auto
      have "fst (ps ! 0) < snd (ps ! b)" using order [of b] nth [OF b(1)] b(1) by linarith
      then have day2: "businessDayOf frames = Some (fst (ps ! 0), snd (ps ! b))" using day first by simp
      have gap: "snd (ps ! b) - fst (ps ! 0) = 1440 - closed_gaps ps ! b" using closed_gaps_nth [OF b(1)] True by simp
      have inside: "list_all (\<lambda>p. fst (ps ! 0) \<le> fst p \<and> snd p \<le> snd (ps ! b)) ps" using order by (simp add: list_all_length)
      show ?thesis unfolding spans day2
        using best b(1,2) False nth [of 0] \<open>fst (ps ! 0) < snd (ps ! b)\<close> gap inside ps(3)
        by (intro exI [of _ "fst (ps ! 0)"] exI [of _ "snd (ps ! b)"]) (auto simp: list_all_iff)
    next
      case other: False
      then have less: "Suc b < ?n" using b(1) by simp
      have day2: "businessDayOf frames = Some (fst (ps ! Suc b), snd (ps ! b) + 1440)" using day later [of b "Suc b"] less by simp
      have in_day: "fst (ps ! Suc b) \<le> fst (ps ! j) \<and> snd (ps ! j) \<le> snd (ps ! b) + 1440 \<or>
          fst (ps ! Suc b) \<le> fst (ps ! j) + 1440 \<and> snd (ps ! j) + 1440 \<le> snd (ps ! b) + 1440" if "j < ?n" for j
      proof (cases "j \<le> b")
        case True
        then have "snd (ps ! j) \<le> snd (ps ! b)" using later [of j b] nth [OF b(1)] b(1) by (cases "j = b") auto
        then show ?thesis using nth [OF less] nth [OF that] by auto
      next
        case False
        then have "fst (ps ! Suc b) \<le> fst (ps ! j)" using later [of "Suc b" j] nth [OF less] that by (cases "j = Suc b") auto
        then show ?thesis using nth [OF that] nth [OF b(1)] by auto
      qed
      have "snd (ps ! b) + 1440 - fst (ps ! Suc b) = 1440 - closed_gaps ps ! b" using closed_gaps_nth [OF b(1)] other by simp
      then show ?thesis unfolding spans day2
        using best b(1,2) False nth [OF less] nth [OF b(1)] in_day
        by (intro exI [of _ "fst (ps ! Suc b)"] exI [of _ "snd (ps ! b) + 1440"]) (auto simp: list_all_length)
    qed
  qed
qed

section \<open>The old pair\<close>

lemma take5_clock: "0 \<le> m \<Longrightarrow> m \<le> 1440 \<Longrightarrow> take 5 (frameClock m) = frameClock m"
  by (simp add: length_frameClock)

lemma pair_minutes_clock: "0 \<le> m \<Longrightarrow> m \<le> 1440 \<Longrightarrow> pair_minutes (Some (frameClock m @ rest)) = Some m"
  by (simp add: pair_minutes_def length_frameClock clock_minutes_frameClock)

lemma frameClock_ends: "frameClock 0 = ''00:00''" "frameClock 1440 = ''24:00''"
  by code_simp+

lemma business_day_single:
  assumes "0 \<le> s" "s < e" "e \<le> 1440" "e - s < 1440"
  shows "business_day_of_spans [(s, e)] = Some (s, e)"
  using assms by (simp add: business_day_of_spans_def longest_gap_def closed_gaps_def DAY_MINUTES_def)

lemma business_day_overnight:
  assumes "0 < c" "c < s" "s < 1440"
  shows "business_day_of_spans [(0, c), (s, 1440)] = Some (s, c + 1440)"
  using assms by (simp add: business_day_of_spans_def longest_gap_def closed_gaps_def DAY_MINUTES_def)

lemma frames_from_pair:
  assumes "0 \<le> s" "s < 1440" "0 \<le> c" "c \<le> 1440"
  shows "framesFromOpenClose (Some (frameClock s @ r)) (Some (frameClock c @ r')) =
    map frame_of (if c > s then [(s, c)] else (if c > 0 then [(0, c)] else []) @ [(s, 1440)])"
  using assms by (simp add: framesFromOpenClose_def pair_minutes_clock frame_of_def DAY_MINUTES_def frameClock_ends)

lemma day_minutes: "DAY_MINUTES = 1440"
  by (simp add: DAY_MINUTES_def)

text \<open>The old open/close pair and the frames convert into each other: a pair of clock times (seconds or not)
  becomes one frame, or two when it closes after midnight, and the pair computed back from the frames is the same, \<open>24:00\<close>
  being written \<open>00:00\<close>. The pair of equal times (and midnight to midnight), which stands for a store that never closes, comes
  back as 00:00 to 23:59.\<close>

theorem open_close_round_trip:
  assumes "0 \<le> s" "s < 1440" "0 \<le> c" "c \<le> 1440"
  shows "openCloseFromFrames (framesFromOpenClose (Some (frameClock s @ r)) (Some (frameClock c @ r'))) =
    (if s = c \<or> s = 0 \<and> c = 1440 then Some (''00:00:00'', ''23:59:00'')
     else Some (frameClock s @ '':00'', frameClock (c mod 1440) @ '':00''))"
proof -
  let ?ps = "if c > s then [(s, c)] else (if c > 0 then [(0, c)] else []) @ [(s, 1440)]"
  have ok: "spans_ok ?ps" using assms by (auto simp: spans_ok_def)
  have day: "openCloseFromFrames (map frame_of ?ps) = (case business_day_of_spans ?ps of None \<Rightarrow> None
      | Some (s, e) \<Rightarrow> if e - s \<ge> 1440 then Some (''00:00:00'', ''23:59:00'')
                       else Some (frameClock s @ '':00'', frameClock (e mod 1440) @ '':00''))"
    unfolding openCloseFromFrames_def businessDayOf_def frame_spans_of [OF ok] day_minutes ..
  consider (day) "s < c" "c - s < 1440" | (always) "s = c \<or> s = 0 \<and> c = 1440" | (night) "0 < c" "c < s" | (midnight) "c = 0" "0 < s"
    using assms by linarith
  then show ?thesis
  proof cases
    case day
    then show ?thesis using assms business_day_single [of s c] \<open>openCloseFromFrames _ = _\<close> by (auto simp: frames_from_pair)
  next
    case always
    then show ?thesis using assms \<open>openCloseFromFrames _ = _\<close>
      by (auto simp: frames_from_pair business_day_of_spans_def longest_gap_def closed_gaps_def DAY_MINUTES_def)
  next
    case night
    then show ?thesis using assms business_day_overnight [of c s] \<open>openCloseFromFrames _ = _\<close> by (simp add: frames_from_pair)
  next
    case midnight
    then show ?thesis using assms business_day_single [of s 1440] \<open>openCloseFromFrames _ = _\<close> by (simp add: frames_from_pair)
  qed
qed

theorem open_close_round_trip_witness:
  "openCloseFromFrames (framesFromOpenClose (Some ''12:00:00'') (Some ''05:00'')) = Some (''12:00:00'', ''05:00:00'')"
proof -
  have "frameClock 720 = ''12:00''" "frameClock 300 = ''05:00''" by code_simp+
  then show ?thesis using open_close_round_trip [of 720 300 "'':00''" "[]"] by simp
qed

theorem business_day_covers_the_frames_witness:
  "\<exists>s e. businessDayOf [\<lparr> frStart = ''00:00'', frEnd = ''05:00'' \<rparr>, \<lparr> frStart = ''12:00'', frEnd = ''24:00'' \<rparr>] = Some (s, e) \<and> e - s \<le> 1440"
proof -
  have "normalizeOperatingFrames (JArr [JObj [(''start'', JStr ''12:00''), (''end'', JStr ''24:00'')],
      JObj [(''start'', JStr ''00:00:00''), (''end'', JStr ''05:00'')]]) =
     Inr [\<lparr> frStart = ''00:00'', frEnd = ''05:00'' \<rparr>, \<lparr> frStart = ''12:00'', frEnd = ''24:00'' \<rparr>]" by code_simp
  from business_day_covers_the_frames [OF this] show ?thesis by blast
qed

end
