(* ===== verification/Spec2Isabelle.thy ===== *)
theory Spec2Isabelle
  imports VnCalendar AttendanceTime AttendanceRules WorkedTimeRules RuleConfigStored RuleConfigPay EarnedBase PayrollRules Payslip WageRates
    ShiftSchedule LeaveCoverage WorkTerms RequestPolicy BookingSafety
    ScheduleSafety RequestDecisions RequestSafety CareerGuarantees
    Guards CronLock AuthSafety ChatLimits OAuthState OperatingHours
begin

text \<open>
  Verification of the Timeso back end, a NestJS service with which the owners of shops plan shifts, record attendance and compute
  pay. Paths below are relative to \<open>src/src/modules/stores\<close> unless they name another directory of \<open>src/src\<close>.

  The program. An owner creates recurring cycles of shifts; employees register for them, are assigned to them, swap them and ask
  for leave, overtime and changed hours; at a shift they check in and out under the attendance policy of the store, and a job of
  every minute closes, chains or marks absent what nobody closed; at the end of the month the payroll turns attendance, wage rates
  and the bonus and fine rules of the store into payslips. Every request passes the guards of the store; accounts sign in with
  one-time codes. The code is a thin layer of rows read and written through an ORM around pure utility files. The pure files
  are modelled function by function. Of the services the operations that decide something under a lock or in a transaction
  are modelled as functions on the tables they read and write.

  \<^bold>\<open>Prelude.\<close> \<open>JsBase\<close>: numbers as exact rationals, \<open>Math.round\<close>, truthiness, \<open>??\<close> and \<open>||\<close>, decimal text, errors as the left of
  a sum, and the shared lemmas on lists and folds with the collections of simplification rules. \<open>JsDate\<close>: instants as
  integer milliseconds, the civil calendar, \<open>toISOString\<close>. \<open>JsMap\<close>: \<open>Map\<close> and \<open>Set\<close> as association lists in insertion order, which
  the counters and groupings rely on. \<open>KeepBest\<close>: the idiom that keeps the best element of a walk, as a locale that the newest rule, the best
  rate, the heaviest occurrence, the rounding line and the owner of a day interpret. \<open>ShiftTypes\<close>: the states several
  entities share.

  \<^bold>\<open>Time.\<close> \<open>VnCalendar\<close> (\<open>common/utils/vn-calendar.ts\<close>): months and days at +07:00. \<open>AttendanceTime\<close> (\<open>attendance-time.utils.ts\<close>): the
  instants of a shift, overnight shifts and overridden ends. \<open>DateOnly\<close> and \<open>ShiftSchedule\<close> (\<open>shift-schedule.utils.ts\<close>): dates as
  strings and the recurrence rule with its expansion; the loop has the bound of the code, \<open>MAX_SCAN_DAYS\<close>, so it is total, and it
  is shown to yield exactly the matching dates. \<open>OperatingHours\<close>: opening frames of a day and the business day an instant falls on.

  \<^bold>\<open>Pay.\<close> \<open>AttendanceRules\<close> and \<open>WorkedTimeRules\<close>: grace, credited minutes, and which counting mode a shift falls under. \<open>RuleConfig\<close>,
  \<open>RuleConfigStored\<close>, \<open>RuleConfigPay\<close> (\<open>payroll-rule-config.utils.ts\<close>): the settings of bonus and fine rules, that what is accepted is
  well formed and reads back, and that pay is not negative and respects its cap. \<open>PayrollFacts\<close>, \<open>EarnedBase\<close>, \<open>PayrollRules\<close>,
  \<open>Payslip\<close> (\<open>payroll-calculation.utils.ts\<close>, \<open>shift-earnings.utils.ts\<close>, \<open>working-days.utils.ts\<close>, \<open>payslip-rows.utils.ts\<close>): the facts of a
  month, the base pay, the lines of the rules with waivers and versions, and the payslip, whose figures are shown to add
  up. \<open>WageRates\<close> (\<open>wage-rates.utils.ts\<close>): rates by time of day; sampling at midpoints is shown to be the exact average.

  \<^bold>\<open>Shifts.\<close> \<open>ShiftIntervals\<close> and \<open>LeaveCoverage\<close>: intervals, the sorted sweeps and the two-pointer merge against plain quantifiers, and
  the leave that excuses a shift, as SQL and as a function. \<open>WorkTerms\<close> (\<open>work-terms.utils.ts\<close>, \<open>work-terms.query.ts\<close>): limits on the days
  and hours of an employee; the verdict only needs the days of a window. \<open>RequestPolicy\<close>: the switches, notice and monthly
  numbers of requests. \<open>ShiftBooking\<close> and \<open>BookingSafety\<close> (registration, decisions and swaps of \<open>service-parts/scheduling.part.ts\<close>,
  \<open>shift-time-conflict.ts\<close>): the tables of cycles, slots, bookings and swaps in one record, each operation split as the code is into what is
  checked before and the transaction, and an inductive step relation of the transactions. Over all its histories of bookings no
  employee holds overlapping shifts of two different slots; and whatever writes bookings, the editing of a slot and the saving of a
  schedule included, a slot gains a booking only while it has a place left. Editing a slot may lower its places below its bookings and
  saving a schedule does not look at expired cycles; the lemmas say so. \<open>SchedulePlan\<close> and \<open>ScheduleSafety\<close>: planning, checking and
  saving a schedule over the same tables. \<open>RequestDecisions\<close> (\<open>processRequest\<close> of \<open>service-parts/requests.part.ts\<close>): the same
  decisions through the list of requests, whose approval of a swap books a receiver who is busy at the time.

  \<^bold>\<open>Attendance and requests.\<close> \<open>AttendancePolicy\<close> (\<open>attendance-enforcement.ts\<close>): the evidence a store asks for. \<open>AttendanceSteps\<close>
  (\<open>checkInWithFace\<close>, \<open>checkOutWithFace\<close> of \<open>service-parts/attendance.part.ts\<close>) and \<open>ShiftEnd\<close>
  (\<open>shift-end-workflow.service.ts\<close>, \<open>shift-chain.utils.ts\<close>) work on one record of the rows, log, workflows and jobs. \<open>AttendanceSafety\<close>
  closes them under an inductive step relation: rows stay consistent, each recorded time is logged once, a chained shift is handed over
  at its boundary, a repeated request changes nothing, a forgotten shift is closed. \<open>OvertimeRequests\<close>, \<open>WorkSupplement\<close> and
  \<open>HoursRequests\<close> (\<open>service-parts/requests.part.ts\<close>, \<open>controllers/stores-requests.controller.ts\<close>) are the requests that change the hours of a
  shift, on these tables: overtime, claims for hours worked, leave, late arrival and early leave. \<open>RequestSafety\<close>: one live overtime request
  per shift, stored clock times read back, approved overtime is not cut, a claim is credited to the shift of its day or the day
  before that it overlaps most, and moves no check-in later and no check-out of the employee's own earlier, changed
  hours stay in the shift; and two places where requests are not kept apart.

  \<^bold>\<open>Career.\<close> \<open>CareerModel\<close> (\<open>career/career-requirements.ts\<close>, \<open>career-metrics.ts\<close>, \<open>career-evaluation.service.ts\<close>): departments, positions,
  skills and requirements as tables of one record, and what is read off them: the state of each skill, the next step, who waits for a decision.
  \<open>CareerStructure\<close> (\<open>career-structure.service.ts\<close>, \<open>career-store.ts\<close>) and \<open>CareerProgress\<close> (\<open>career-progress.service.ts\<close>): every write, each one
  transaction under the lock of the store and so one step on the record. \<open>NumberedRows\<close>: the order of rows as a locale that positions and
  skills interpret. \<open>CareerTree\<close>, \<open>CareerLadder\<close>, \<open>CareerSkills\<close> and \<open>CareerHistories\<close>: departments, positions, skills and progress, each
  write keeps the ladder in order. \<open>CareerSafety\<close>: the step relation, which interprets \<open>kept\<close>, the search for an ancestor, the order of
  skills and the rounds of the sweep. \<open>CareerPromotion\<close> and \<open>CareerGuarantees\<close>: a promotion is one step up (to the next position, or from the top
  of a department to the bottom of the next one, for one whom no position holds yet to the first), earned and safe to repeat; the
  guarantees stated together. The walk to the root that looks for a cycle has as many turns as there are departments, which is
  enough since tiers fall; the thirty rounds of the sweep are enough since a department holds at most thirty skills.

  \<^bold>\<open>Access.\<close> \<open>Guards\<close> (\<open>guards/\<close>): from the path of a request, over the rules of its route or the names of its parameters, and over foreign keys, to the store and the
  membership of the account. \<open>CronLock\<close>
  (\<open>distributed-lock.service.ts\<close>): runs of all instances interleaved as a step relation over the advisory locks of the database, which
  are a parameter with its documented laws; a session may end at any time, and its locks are freed then. One instance runs a job as long
  as no run of it has lost its session. \<open>OtpLimit\<close>, \<open>AuthFlow\<close>, \<open>AuthSafety\<close> (\<open>modules/auth\<close>): one-time codes, password reset and
  refresh tokens. \<open>ChatLimits\<close> (\<open>modules/chat-groups/chat-abuse-protection.service.ts\<close>) and \<open>OAuthState\<close> (\<open>modules/zalo\<close>).

  \<^bold>\<open>Interfaces.\<close> What several components rely on is a locale, interpreted on the model of the code where it is provided: \<open>selection\<close>
  (\<open>KeepBest\<close>), the laws of a comparison under which a loop keeps a best element; \<open>keyed_map\<close> (\<open>JsMap\<close>), the laws of a map a loop accumulates
  into; \<open>kept\<close> (\<open>Histories\<close>), a step relation with an invariant and what stays, which the histories of attendance, of the reconciliation
  loop and of requests interpret. The advisory locks of the database are a record of operations with a predicate of their
  documented laws, shown to hold of a table of locks.

  \<^bold>\<open>Bounds and fuel.\<close> No fuel is used. Every modelled loop is structural or over a list, but for the expansion of a recurrence, bounded by
  the scan limit of the code, and loops over the days of an interval, which end because the day moves forward; each has its
  termination proof. Amounts are exact rationals: the code rounds with \<open>Math.round\<close> where the model does, and sums whole amounts far below \<open>2^53\<close>. Instants are
  unbounded integers.

  \<^bold>\<open>Not modelled.\<close> The ORM, SQL beyond the conditions read as tests of a row, transport, queues and their delivery, notifications
  and their Vietnamese texts (an error is a constructor with what is filled in), files and documents, face recognition and the
  haversine distance (parameters), password hashing and signing (parameters), statistics and reports, which sum rows, and the
  operations of the services that only load, change and save a row. Concurrency is modelled where the code
  relies on it: a transaction under the lock of the store or of the row is one step, the reads before it see an earlier state.
\<close>

end
